(* ===== verification/Nfc_Prelude.thy ===== *)
theory Nfc_Prelude
  imports Main "HOL-Library.Word" "HOL-Library.Monad_Syntax"
begin

unbundle bit_operations_syntax

text \<open>
  Machine integers, byte buffers and the generic facts about lists and words that the
  component theories share.

  A C object of bytes is a \<open>byte list\<close>; its length is the size of the object. A pointer into it
  is an offset. Every access goes through \<open>rd\<close>, \<open>wr\<close> and their block versions, which answer
  \<open>None\<close> for an access outside the object: in the whole development the outer \<open>None\<close> of a
  result stands for an access the C language leaves undefined, so a theorem that an operation
  answers \<open>Some\<close> is also a theorem of memory safety. A pointer result that may be NULL is a
  second, inner option.
\<close>

section \<open>Types\<close>

type_synonym byte = "8 word"
type_synonym u16 = "16 word"
type_synonym u32 = "32 word"
type_synonym mem = "byte list"
type_synonym ptr = "nat option"

named_theorems mem_simps \<open>evaluation of reads, writes and block moves inside the object\<close>
named_theorems word_unat \<open>numeric reading of words\<close>

section \<open>Reads and writes\<close>

definition rd :: "mem \<Rightarrow> nat \<Rightarrow> byte option" where
  "rd m p = (if p < length m then Some (m ! p) else None)"

definition wr :: "mem \<Rightarrow> nat \<Rightarrow> byte \<Rightarrow> mem option" where
  "wr m p b = (if p < length m then Some (m[p := b]) else None)"

definition upd_byte :: "mem \<Rightarrow> nat \<Rightarrow> (byte \<Rightarrow> byte) \<Rightarrow> mem option" where
  "upd_byte m p f = do { b \<leftarrow> rd m p; wr m p (f b) }"

definition rd_bytes :: "mem \<Rightarrow> nat \<Rightarrow> nat \<Rightarrow> byte list option" where
  "rd_bytes m p n = (if p + n \<le> length m then Some (take n (drop p m)) else None)"

definition wr_bytes :: "mem \<Rightarrow> nat \<Rightarrow> byte list \<Rightarrow> mem option" where
  "wr_bytes m p bs =
     (if p + length bs \<le> length m
      then Some (take p m @ bs @ drop (p + length bs) m) else None)"

text \<open>\<open>memcpy\<close> from another object; a NULL source means that the caller skips the copy.\<close>

definition memcpy_opt :: "mem \<Rightarrow> nat \<Rightarrow> byte list option \<Rightarrow> nat \<Rightarrow> mem option" where
  "memcpy_opt m p src n =
     (case src of None \<Rightarrow> Some m
      | Some xs \<Rightarrow> if n \<le> length xs then wr_bytes m p (take n xs) else None)"

text \<open>The macros \<open>BE_STREAM_TO_UINT32\<close> and \<open>UINT32_TO_BE_STREAM\<close> of \<open>bt_types.h\<close>.\<close>

definition be32 :: "byte \<Rightarrow> byte \<Rightarrow> byte \<Rightarrow> byte \<Rightarrow> u32" where
  "be32 a b c d = ucast d + push_bit 8 (ucast c) + push_bit 16 (ucast b) + push_bit 24 (ucast a)"

definition u32_be :: "u32 \<Rightarrow> byte list" where
  "u32_be x = [ucast (drop_bit 24 x), ucast (drop_bit 16 x), ucast (drop_bit 8 x), ucast x]"

definition rd_be32 :: "mem \<Rightarrow> nat \<Rightarrow> u32 option" where
  "rd_be32 m p = do {
     a \<leftarrow> rd m p; b \<leftarrow> rd m (p + 1); c \<leftarrow> rd m (p + 2); d \<leftarrow> rd m (p + 3);
     Some (be32 a b c d) }"

section \<open>Ranges of machine integers\<close>

lemma unat_byte_less: "unat (b :: byte) < 256"
  using unsigned_less [of b] by simp

lemma unat_u16_less: "unat (x :: u16) < 65536"
  using unsigned_less [of x] by simp

lemma unat_u32_less: "unat (x :: u32) < 4294967296"
  using unsigned_less [of x] by simp

lemma unat_ucast_mod: "unat (ucast w :: 'b::len word) = unat w mod 2 ^ LENGTH('b)"
  by (simp add: unsigned_ucast_eq take_bit_eq_mod)

lemma unat_ucast_byte_u32 [simp]: "unat (ucast (b :: byte) :: u32) = unat b"
  using unat_byte_less [of b] by (simp add: unat_ucast_mod)

section \<open>Facts about reads and writes\<close>

lemma rd_Some_iff: "rd m p = Some b \<longleftrightarrow> p < length m \<and> m ! p = b"
  by (auto simp: rd_def)

lemma rd_eq_Some [simp]: "p < length m \<Longrightarrow> rd m p = Some (m ! p)"
  by (simp add: rd_def)

lemma rd_append_left [mem_simps]: "p < length xs \<Longrightarrow> rd (xs @ ys) p = rd xs p"
  by (simp add: rd_def nth_append)

lemma rd_append_right [mem_simps]: "length xs \<le> p \<Longrightarrow> rd (xs @ ys) p = rd ys (p - length xs)"
  by (auto simp: rd_def nth_append)

lemma rd_Cons_0 [simp]: "rd (x # xs) 0 = Some x"
  by (simp add: rd_def)

lemma rd_Cons_Suc [simp]: "rd (x # xs) (Suc p) = rd xs p"
  by (simp add: rd_def)

lemma rd_take: "p < n \<Longrightarrow> rd (take n m) p = rd m p"
  by (auto simp: rd_def)

lemma wr_length: "wr m p b = Some m' \<Longrightarrow> length m' = length m"
  by (auto simp: wr_def split: if_splits)

lemma wr_bytes_length: "wr_bytes m p bs = Some m' \<Longrightarrow> length m' = length m"
  by (auto simp: wr_bytes_def split: if_splits)

lemma wr_eq_wr_bytes: "wr m p b = wr_bytes m p [b]"
  by (auto simp: wr_def wr_bytes_def upd_conv_take_nth_drop)

lemma wr_bytes_Nil: "p \<le> length m \<Longrightarrow> wr_bytes m p [] = Some m"
  by (simp add: wr_bytes_def)

lemma wr_bytes_append:
  "Option.bind (wr_bytes m p xs) (\<lambda>m'. wr_bytes m' (p + length xs) ys) = wr_bytes m p (xs @ ys)"
  by (cases xs) (auto simp: wr_bytes_def min_def add_ac)

lemma wr_bytes_fill [mem_simps]:
  "length A = p \<Longrightarrow> length B = length bs \<Longrightarrow> wr_bytes (A @ B @ C) p bs = Some (A @ bs @ C)"
  by (simp add: wr_bytes_def)

lemma upd_byte_mid [mem_simps]:
  "length A = p \<Longrightarrow> upd_byte (A @ b # C) p f = Some (A @ f b # C)"
  by (auto simp: upd_byte_def rd_def wr_def nth_append)

lemma rd_bytes_mid [mem_simps]:
  "length A = p \<Longrightarrow> length B = n \<Longrightarrow> rd_bytes (A @ B @ C) p n = Some B"
  by (simp add: rd_bytes_def)

section \<open>Big-endian 32-bit fields\<close>

lemma length_u32_be [simp]: "length (u32_be x) = 4"
  by (simp add: u32_be_def)

lemma unat_be32:
  "unat (be32 a b c d) = unat d + 256 * unat c + 65536 * unat b + 16777216 * unat a"
proof -
  have "unat a < 256" "unat b < 256" "unat c < 256" "unat d < 256"
    by (simp_all add: unat_byte_less)
  then show ?thesis
    by (simp add: be32_def unat_word_ariths push_bit_eq_mult unat_ucast_mod)
qed

lemma nat_digits256:
  "(n :: nat) mod 256 + 256 * (n div 256 mod 256) + 65536 * (n div 65536 mod 256)
     + 16777216 * (n div 16777216) = n"
proof -
  define q r where "q = n div 256" and "r = n mod 256"
  define q' r' where "q' = q div 256" and "r' = q mod 256"
  define q'' r'' where "q'' = q' div 256" and "r'' = q' mod 256"
  have "n = r + 256 * q" "q = r' + 256 * q'" "q' = r'' + 256 * q''"
    by (simp_all add: q_def r_def q'_def r'_def q''_def r''_def)
  then have n: "r + 256 * r' + 65536 * r'' + 16777216 * q'' = n" by simp
  have d: "n div 65536 = q'" "n div 16777216 = q''"
    by (simp_all add: q_def q'_def q''_def div_mult2_eq [symmetric])
  show ?thesis
    unfolding d unfolding q_def [symmetric] r_def [symmetric] r'_def [symmetric] r''_def [symmetric]
    by (rule n)
qed

lemma nat_undigits256:
  assumes "(d :: nat) < 256" "c < 256" "b < 256"
  shows "(d + 256 * c + 65536 * b + 16777216 * a) mod 256 = d"
    and "(d + 256 * c + 65536 * b + 16777216 * a) div 256 mod 256 = c"
    and "(d + 256 * c + 65536 * b + 16777216 * a) div 65536 mod 256 = b"
    and "(d + 256 * c + 65536 * b + 16777216 * a) div 16777216 = a"
proof -
  have e: "d + 256 * c + 65536 * b + 16777216 * a = 256 * (256 * (256 * a + b) + c) + d"
    by simp
  have d: "n div 65536 = n div 256 div 256" "n div 16777216 = n div 256 div 256 div 256" for n :: nat
    by (simp_all add: div_mult2_eq [symmetric])
  have s: "(256 * k + x) mod 256 = x" "(256 * k + x) div 256 = k" if "x < 256" for k x :: nat
    using that by simp_all
  show "(d + 256 * c + 65536 * b + 16777216 * a) mod 256 = d"
    "(d + 256 * c + 65536 * b + 16777216 * a) div 256 mod 256 = c"
    "(d + 256 * c + 65536 * b + 16777216 * a) div 65536 mod 256 = b"
    "(d + 256 * c + 65536 * b + 16777216 * a) div 16777216 = a"
    unfolding e d using assms by (simp_all only: s)
qed

lemma be32_u32_be:
  "be32 (ucast (drop_bit 24 x)) (ucast (drop_bit 16 x)) (ucast (drop_bit 8 x)) (ucast x) = x"
proof -
  have "unat x < 4294967296"
    by (simp add: unat_u32_less)
  then have "unat (be32 (ucast (drop_bit 24 x)) (ucast (drop_bit 16 x)) (ucast (drop_bit 8 x)) (ucast x))
      = unat x"
    by (simp add: unat_be32 unat_ucast_mod drop_bit_eq_div unat_div_distrib nat_digits256)
  then show ?thesis
    by (simp add: word_unat_eq_iff)
qed

lemma u32_be_be32: "u32_be (be32 a b c d) = [a, b, c, d]"
proof -
  have "unat a < 256" "unat b < 256" "unat c < 256" "unat d < 256"
    by (simp_all add: unat_byte_less)
  then show ?thesis
    by (simp add: u32_be_def word_unat_eq_iff unat_ucast_mod drop_bit_eq_div unat_div_distrib unat_be32
        nat_undigits256)
qed

lemma rd_be32_u32_be [mem_simps]:
  "length A = p \<Longrightarrow> rd_be32 (A @ u32_be x @ C) p = Some x"
  by (simp add: rd_be32_def u32_be_def rd_def nth_append be32_u32_be)

lemma rd_be32_Some:
  "rd_be32 m p = Some v \<Longrightarrow> p + 4 \<le> length m \<and> take 4 (drop p m) = u32_be v"
proof -
  assume a: "rd_be32 m p = Some v"
  then have l: "p + 4 \<le> length m"
    by (auto simp: rd_be32_def rd_def split: if_splits)
  with a have v: "v = be32 (m ! p) (m ! (p + 1)) (m ! (p + 2)) (m ! (p + 3))"
    by (simp add: rd_be32_def)
  have "take 4 (drop p m) = [m ! p, m ! (p + 1), m ! (p + 2), m ! (p + 3)]"
    using l by (intro nth_equalityI) (auto simp: less_Suc_eq numeral_eq_Suc)
  with l v show ?thesis by (simp add: u32_be_be32)
qed

section \<open>Big-endian 16-bit fields\<close>

text \<open>The macros \<open>UINT16_TO_BE_STREAM\<close> and \<open>BE_STREAM_TO_UINT16\<close> of \<open>bt_types.h\<close>.\<close>

definition be16_bytes :: "u16 \<Rightarrow> byte list" where
  "be16_bytes x = [ucast (drop_bit 8 x), ucast x]"

definition be16_word :: "byte \<Rightarrow> byte \<Rightarrow> u16" where
  "be16_word a b = push_bit 8 (ucast a) + ucast b"

definition rd_be16 :: "mem \<Rightarrow> nat \<Rightarrow> u16 option" where
  "rd_be16 m p = do { a \<leftarrow> rd m p; b \<leftarrow> rd m (p + 1); Some (be16_word a b) }"

lemma unat_be16_word: "unat (be16_word a b) = 256 * unat a + unat b"
proof -
  have "unat a < 256" "unat b < 256" by (rule unat_byte_less)+
  then show ?thesis
    by (simp add: be16_word_def unat_word_ariths push_bit_eq_mult unat_ucast_mod)
qed

lemma be16_word_bytes: "be16_word (ucast (drop_bit 8 x)) (ucast (x :: u16)) = x"
proof -
  have x: "unat x < 65536" by (rule unat_u16_less)
  then have d: "unat x div 256 < 256" by (rule less_mult_imp_div_less [of _ 256 256, simplified])
  show ?thesis
    using x d by (simp add: word_unat_eq_iff unat_be16_word unat_ucast_mod drop_bit_eq_div unat_div_distrib)
qed

lemma be16_bytes_word: "be16_bytes (be16_word a b) = [a, b]"
proof -
  have "unat a < 256" "unat b < 256" by (rule unat_byte_less)+
  then show ?thesis
    by (simp add: be16_bytes_def word_unat_eq_iff unat_ucast_mod drop_bit_eq_div unat_div_distrib unat_be16_word)
qed

lemma length_be16_bytes: "length (be16_bytes x) = 2"
  by (simp add: be16_bytes_def)

lemma rd_be16_bytes: "rd_be16 (be16_bytes x @ ys) 0 = Some x"
  by (simp add: rd_be16_def be16_bytes_def be16_word_bytes)

lemma rd_be16_pad: "rd_be16 (xs @ be16_bytes x @ ys) (length xs) = Some x"
  by (simp add: rd_be16_def be16_bytes_def rd_append_right nth_append be16_word_bytes)

end
