(* ===== verification/Ndef_Model.thy ===== *)
theory Ndef_Model
  imports Nfc_Prelude
begin

text \<open>
  The NDEF message utilities, \<open>src/libnfc-nci/nfc/ndef/ndef_utils.c\<close>: the operations that
  validate, walk and edit an NFC Data Exchange Format message in place. A message lives in the
  object \<open>m\<close>; \<open>cur\<close> is the caller's \<open>*p_cur_size\<close>. Source arguments (type, identifier, payload)
  are other objects, given from the pointer on, NULL being \<open>None\<close>. Counters that the C code keeps
  in \<open>INT32\<close> are integers: they count records, each of which takes three bytes of an object
  shorter than \<open>2 ^ 32\<close>.
\<close>

section \<open>Constants\<close>

abbreviation (input) NDEF_MB_MASK :: byte where "NDEF_MB_MASK \<equiv> 0x80"
abbreviation (input) NDEF_ME_MASK :: byte where "NDEF_ME_MASK \<equiv> 0x40"
abbreviation (input) NDEF_CF_MASK :: byte where "NDEF_CF_MASK \<equiv> 0x20"
abbreviation (input) NDEF_SR_MASK :: byte where "NDEF_SR_MASK \<equiv> 0x10"
abbreviation (input) NDEF_IL_MASK :: byte where "NDEF_IL_MASK \<equiv> 0x08"
abbreviation (input) NDEF_TNF_MASK :: byte where "NDEF_TNF_MASK \<equiv> 0x07"

abbreviation (input) NDEF_TNF_EMPTY :: byte where "NDEF_TNF_EMPTY \<equiv> 0"
abbreviation (input) NDEF_TNF_UNKNOWN :: byte where "NDEF_TNF_UNKNOWN \<equiv> 5"
abbreviation (input) NDEF_TNF_UNCHANGED :: byte where "NDEF_TNF_UNCHANGED \<equiv> 6"
abbreviation (input) NDEF_TNF_RESERVED :: byte where "NDEF_TNF_RESERVED \<equiv> 7"

datatype tNDEF_STATUS =
    NDEF_OK
  | NDEF_REC_NOT_FOUND
  | NDEF_MSG_TOO_SHORT
  | NDEF_MSG_NO_MSG_BEGIN
  | NDEF_MSG_NO_MSG_END
  | NDEF_MSG_EXTRA_MSG_BEGIN
  | NDEF_MSG_UNEXPECTED_CHUNK
  | NDEF_MSG_INVALID_EMPTY_REC
  | NDEF_MSG_INVALID_CHUNK
  | NDEF_MSG_LENGTH_MISMATCH
  | NDEF_MSG_INSUFFICIENT_MEM

section \<open>Moving memory\<close>

text \<open>
  The two byte-by-byte loops. \<open>shiftdown\<close> copies the \<open>len\<close> bytes at \<open>p\<close> upwards by \<open>amt\<close>, last
  byte first; \<open>shiftup\<close> copies \<open>len\<close> bytes from \<open>ps\<close> to \<open>pd\<close>, first byte first. The recursion
  argument is the number of iterations left.
\<close>

fun shiftdown :: "mem \<Rightarrow> nat \<Rightarrow> nat \<Rightarrow> nat \<Rightarrow> mem option" where
  "shiftdown m p 0 amt = Some m"
| "shiftdown m p (Suc n) amt =
     (case rd m (p + n) of None \<Rightarrow> None
      | Some b \<Rightarrow> (case wr m (p + n + amt) b of None \<Rightarrow> None
                 | Some m' \<Rightarrow> shiftdown m' p n amt))"

fun shiftup :: "mem \<Rightarrow> nat \<Rightarrow> nat \<Rightarrow> nat \<Rightarrow> mem option" where
  "shiftup m pd ps 0 = Some m"
| "shiftup m pd ps (Suc n) =
     (case rd m ps of None \<Rightarrow> None
      | Some b \<Rightarrow> (case wr m pd b of None \<Rightarrow> None
                 | Some m' \<Rightarrow> shiftup m' (Suc pd) (Suc ps) n))"

section \<open>Reading a record header\<close>

text \<open>
  Every walking function reads the fields after the record header byte in the same way: the type
  length, the payload length of one or four bytes, the optional identifier length. The result
  holds the three lengths and the offset after the fields. \<open>rec_span\<close> is the sum the code adds to
  the pointer; it is computed in \<open>UINT32\<close>.
\<close>

definition ndef_fields :: "mem \<Rightarrow> nat \<Rightarrow> byte \<Rightarrow> (byte \<times> u32 \<times> byte \<times> nat) option" where
  "ndef_fields m p rec_hdr = do {
     type_len \<leftarrow> rd m p;
     (payload_len, p1) \<leftarrow>
       (if rec_hdr AND NDEF_SR_MASK \<noteq> 0
        then do { b \<leftarrow> rd m (p + 1); Some (ucast b :: u32, p + 2) }
        else do { v \<leftarrow> rd_be32 m (p + 1); Some (v, p + 5) });
     (id_len, p2) \<leftarrow>
       (if rec_hdr AND NDEF_IL_MASK \<noteq> 0
        then do { b \<leftarrow> rd m p1; Some (b, p1 + 1) }
        else Some (0, p1));
     Some (type_len, payload_len, id_len, p2) }"

definition rec_span :: "byte \<Rightarrow> u32 \<Rightarrow> byte \<Rightarrow> nat" where
  "rec_span type_len payload_len id_len = unat (payload_len + ucast type_len + ucast id_len)"

lemma ndef_fields_advances:
  "ndef_fields m p h = Some (ty, pl, il, q) \<Longrightarrow> p < q"
  by (auto simp: ndef_fields_def split: if_splits bind_splits prod.splits)

section \<open>Validation\<close>

text \<open>
  The record loop of \<open>NDEF_MsgValidate\<close>. The loop ends in three ways: an
  error return; the \<open>break\<close> after a record with ME, after which only the overall length is
  checked; or \<open>p_rec >= p_end\<close> with \<open>rec_hdr\<close> reset to 0, which is \<open>NDEF_MSG_NO_MSG_END\<close>.
\<close>

definition chunk_check :: "byte \<Rightarrow> byte \<Rightarrow> byte \<Rightarrow> bool \<Rightarrow> bool \<Rightarrow> tNDEF_STATUS + bool" where
  "chunk_check rec_hdr type_len id_len b_allow_chunks bInChunk =
     (let tnf = rec_hdr AND NDEF_TNF_MASK;
          bad = (type_len \<noteq> 0 \<or> id_len \<noteq> 0 \<or> tnf \<noteq> NDEF_TNF_UNCHANGED) in
      if rec_hdr AND NDEF_CF_MASK \<noteq> 0 then
        (if \<not> b_allow_chunks then Inl NDEF_MSG_UNEXPECTED_CHUNK
         else if bInChunk then (if bad then Inl NDEF_MSG_INVALID_CHUNK else Inr True)
         else if tnf = NDEF_TNF_UNCHANGED then Inl NDEF_MSG_INVALID_CHUNK
         else Inr True)
      else
        (if bInChunk then (if bad then Inl NDEF_MSG_INVALID_CHUNK else Inr False)
         else if tnf = NDEF_TNF_UNCHANGED then Inl NDEF_MSG_INVALID_CHUNK
         else Inr False))"

definition content_check :: "byte \<Rightarrow> byte \<Rightarrow> u32 \<Rightarrow> byte \<Rightarrow> tNDEF_STATUS option" where
  "content_check rec_hdr type_len payload_len id_len =
     (let tnf = rec_hdr AND NDEF_TNF_MASK in
      if tnf = NDEF_TNF_EMPTY \<and> (type_len \<noteq> 0 \<or> id_len \<noteq> 0 \<or> payload_len \<noteq> 0)
      then Some NDEF_MSG_INVALID_EMPTY_REC
      else if tnf = NDEF_TNF_UNKNOWN \<and> type_len \<noteq> 0 then Some NDEF_MSG_LENGTH_MISMATCH
      else None)"

text \<open>
  The pointers of the loop, \<open>p_rec\<close> and \<open>p_end\<close>, are 32-bit addresses, as in the ILP32 build the
  library is made for (\<open>UINT32\<close> is \<open>unsigned long\<close>); the message is the object \<open>m\<close> at the address
  \<open>p_msg\<close>. Every \<open>p_rec + n > p_end\<close> is computed and compared modulo \<open>2 ^ 32\<close>, and so is the
  \<open>p_rec += (payload_len + type_len + id_len)\<close> at the end of an iteration. A read is a read of \<open>m\<close> at
  the distance of \<open>p_rec\<close> from \<open>p_msg\<close>, which leaves the object when \<open>p_rec\<close> is before the message.

  \<open>validate_fields\<close> reads the length fields with the bounds checks in the order of the code: four
  bytes for a long payload length, one byte for an identifier length. \<open>p\<close> is the offset of the
  record in the message.
\<close>

definition validate_fields ::
    "mem \<Rightarrow> u32 \<Rightarrow> u32 \<Rightarrow> nat \<Rightarrow> byte \<Rightarrow> (tNDEF_STATUS + byte \<times> u32 \<times> byte \<times> nat) option" where
  "validate_fields m p_end p_rec p rec_hdr =
     (let sr = (rec_hdr AND NDEF_SR_MASK \<noteq> 0); il = (rec_hdr AND NDEF_IL_MASK \<noteq> 0) in do {
        type_len \<leftarrow> rd m (p + 1);
        if \<not> sr \<and> p_end < p_rec + 2 + 4 then Some (Inl NDEF_MSG_TOO_SHORT)
        else do {
          (payload_len, p1) \<leftarrow>
            (if sr then do { b \<leftarrow> rd m (p + 2); Some (ucast b :: u32, 3) }
             else do { v \<leftarrow> rd_be32 m (p + 2); Some (v, 6) });
          if il \<and> p_end < p_rec + of_nat p1 + 1 then Some (Inl NDEF_MSG_TOO_SHORT)
          else do {
            (id_len, p2) \<leftarrow>
              (if il then do { b \<leftarrow> rd m (p + p1); Some (b, p1 + 1) } else Some (0, p1));
            Some (Inr (type_len, payload_len, id_len, p2)) } } })"

text \<open>
  One iteration, after the test of the \<open>for\<close>: an error, the final status after the \<open>break\<close> of a
  record with ME, or the next \<open>p_rec\<close> and \<open>bInChunk\<close>.
\<close>

definition validate_rec ::
    "u32 \<Rightarrow> mem \<Rightarrow> u32 \<Rightarrow> bool \<Rightarrow> u32 \<Rightarrow> nat \<Rightarrow> bool \<Rightarrow> (tNDEF_STATUS + u32 \<times> bool) option" where
  "validate_rec p_msg m p_end b_allow_chunks p_rec count bInChunk =
     (if p_end < p_rec + 3 then Some (Inl NDEF_MSG_TOO_SHORT)
      else let p = unat (p_rec - p_msg) in do {
        rec_hdr \<leftarrow> rd m p;
        if 0 < count \<and> rec_hdr AND NDEF_MB_MASK \<noteq> 0 then Some (Inl NDEF_MSG_EXTRA_MSG_BEGIN)
        else do {
          fields \<leftarrow> validate_fields m p_end p_rec p rec_hdr;
          (case fields of Inl e \<Rightarrow> Some (Inl e)
           | Inr (type_len, payload_len, id_len, n) \<Rightarrow>
               (case chunk_check rec_hdr type_len id_len b_allow_chunks bInChunk of
                  Inl e \<Rightarrow> Some (Inl e)
                | Inr bInChunk' \<Rightarrow>
                    (case content_check rec_hdr type_len payload_len id_len of
                       Some e \<Rightarrow> Some (Inl e)
                     | None \<Rightarrow>
                         let p_rec' = p_rec + of_nat n + (payload_len + ucast type_len + ucast id_len) in
                         if rec_hdr AND NDEF_ME_MASK \<noteq> 0
                         then Some (Inl (if p_rec' = p_end then NDEF_OK else NDEF_MSG_LENGTH_MISMATCH))
                         else Some (Inr (p_rec', bInChunk'))))) } })"

text \<open>
  The loop. As \<open>p_rec\<close> may wrap, it may come back to a record it has been at: the result \<open>None\<close>
  stands for a read outside the message and for a loop that never ends.
\<close>

partial_function (option) validate_loop ::
    "u32 \<Rightarrow> mem \<Rightarrow> u32 \<Rightarrow> bool \<Rightarrow> u32 \<Rightarrow> nat \<Rightarrow> bool \<Rightarrow> tNDEF_STATUS option" where
  "validate_loop p_msg m p_end b_allow_chunks p_rec count bInChunk =
     (if \<not> p_rec < p_end then Some NDEF_MSG_NO_MSG_END
      else do {
        r \<leftarrow> validate_rec p_msg m p_end b_allow_chunks p_rec count bInChunk;
        (case r of Inl st \<Rightarrow> Some st
         | Inr (p_rec', bInChunk') \<Rightarrow>
             validate_loop p_msg m p_end b_allow_chunks p_rec' (count + 1) bInChunk') })"

definition NDEF_MsgValidate :: "u32 \<Rightarrow> mem option \<Rightarrow> u32 \<Rightarrow> bool \<Rightarrow> tNDEF_STATUS option" where
  "NDEF_MsgValidate p_msg obj msg_len b_allow_chunks =
     (case obj of None \<Rightarrow> Some NDEF_MSG_TOO_SHORT
      | Some m \<Rightarrow>
          if msg_len < 3 then Some NDEF_MSG_TOO_SHORT
          else do {
            b \<leftarrow> rd m 0;
            if b AND NDEF_MB_MASK = 0 then Some NDEF_MSG_NO_MSG_BEGIN
            else if b AND NDEF_TNF_MASK = NDEF_TNF_UNCHANGED then Some NDEF_MSG_UNEXPECTED_CHUNK
            else validate_loop p_msg m (p_msg + msg_len) b_allow_chunks p_msg 0 False })"

section \<open>Walking a message\<close>

text \<open>
  The walking functions never compare pointers. They work on messages that have been validated, and
  their pointers are offsets in the object, kept as natural numbers: the wrap-around of validation is
  not repeated here, so they stand for the code on messages whose declared lengths stay inside the
  address space (\<open>lens_fit\<close> of the navigation theory), which every well-formed message does.
\<close>

function num_recs_loop :: "mem \<Rightarrow> nat \<Rightarrow> int \<Rightarrow> int option" where
  "num_recs_loop m p count =
     (case rd m p of None \<Rightarrow> None
      | Some rec_hdr \<Rightarrow>
          if rec_hdr AND NDEF_ME_MASK \<noteq> 0 then Some (count + 1)
          else case ndef_fields m (p + 1) rec_hdr of None \<Rightarrow> None
          | Some (type_len, payload_len, id_len, q) \<Rightarrow>
              num_recs_loop m (q + rec_span type_len payload_len id_len) (count + 1))"
  by pat_completeness auto
termination
  by (relation "measure (\<lambda>(m, p, c). length m - p)") (auto dest!: ndef_fields_advances simp: rd_Some_iff)

definition NDEF_MsgGetNumRecs :: "mem \<Rightarrow> int option" where
  "NDEF_MsgGetNumRecs m = num_recs_loop m 0 0"

definition NDEF_MsgGetRecLength :: "mem \<Rightarrow> nat \<Rightarrow> u32 option" where
  "NDEF_MsgGetRecLength m p = do {
     rec_hdr \<leftarrow> rd m p;
     (type_len, payload_len, id_len, q) \<leftarrow> ndef_fields m (p + 1) rec_hdr;
     let rec_len = 1 + 1;
     let rec_len = rec_len + (if rec_hdr AND NDEF_SR_MASK \<noteq> 0 then 1 else 4);
     let rec_len = rec_len + (if rec_hdr AND NDEF_IL_MASK \<noteq> 0 then 1 else 0);
     Some (rec_len + (payload_len + ucast type_len + ucast id_len)) }"

definition NDEF_MsgGetNextRec :: "mem \<Rightarrow> nat \<Rightarrow> ptr option" where
  "NDEF_MsgGetNextRec m p = do {
     rec_hdr \<leftarrow> rd m p;
     if rec_hdr AND NDEF_ME_MASK \<noteq> 0 then Some None
     else do {
       (type_len, payload_len, id_len, q) \<leftarrow> ndef_fields m (p + 1) rec_hdr;
       Some (Some (q + rec_span type_len payload_len id_len)) } }"

function rec_by_index_loop :: "mem \<Rightarrow> nat \<Rightarrow> int \<Rightarrow> int \<Rightarrow> ptr option" where
  "rec_by_index_loop m p count index =
     (if count = index then Some (Some p)
      else case rd m p of None \<Rightarrow> None
      | Some rec_hdr \<Rightarrow>
          if rec_hdr AND NDEF_ME_MASK \<noteq> 0 then Some None
          else case ndef_fields m (p + 1) rec_hdr of None \<Rightarrow> None
          | Some (type_len, payload_len, id_len, q) \<Rightarrow>
              rec_by_index_loop m (q + rec_span type_len payload_len id_len) (count + 1) index)"
  by pat_completeness auto
termination
  by (relation "measure (\<lambda>(m, p, c, i). length m - p)")
    (auto dest!: ndef_fields_advances simp: rd_Some_iff)

definition NDEF_MsgGetRecByIndex :: "mem \<Rightarrow> int \<Rightarrow> ptr option" where
  "NDEF_MsgGetRecByIndex m index = rec_by_index_loop m 0 0 index"

function last_rec_loop :: "mem \<Rightarrow> nat \<Rightarrow> ptr option" where
  "last_rec_loop m p =
     (case rd m p of None \<Rightarrow> None
      | Some rec_hdr \<Rightarrow>
          if rec_hdr AND NDEF_ME_MASK \<noteq> 0 then Some (Some p)
          else case ndef_fields m (p + 1) rec_hdr of None \<Rightarrow> None
          | Some (type_len, payload_len, id_len, q) \<Rightarrow>
              last_rec_loop m (q + rec_span type_len payload_len id_len))"
  by pat_completeness auto
termination
  by (relation "measure (\<lambda>(m, p). length m - p)") (auto dest!: ndef_fields_advances simp: rd_Some_iff)

definition NDEF_MsgGetLastRecInMsg :: "mem \<Rightarrow> ptr option" where
  "NDEF_MsgGetLastRecInMsg m = last_rec_loop m 0"

text \<open>
  The searches. \<open>memcmp\<close> is reached only when the lengths agree, and reads \<open>tlen\<close> bytes of both
  objects.
\<close>

definition memcmp_eq :: "mem \<Rightarrow> nat \<Rightarrow> byte list \<Rightarrow> nat \<Rightarrow> bool option" where
  "memcmp_eq m p s n = do {
     xs \<leftarrow> rd_bytes m p n; ys \<leftarrow> rd_bytes s 0 n; Some (xs = ys) }"

definition type_match ::
    "mem \<Rightarrow> nat \<Rightarrow> byte \<Rightarrow> byte \<Rightarrow> byte \<Rightarrow> byte list \<Rightarrow> byte \<Rightarrow> bool option" where
  "type_match m q rec_hdr type_len tnf p_type tlen =
     (if rec_hdr AND NDEF_TNF_MASK = tnf \<and> type_len = tlen
      then memcmp_eq m q p_type (unat tlen) else Some False)"

function first_by_type_loop :: "mem \<Rightarrow> nat \<Rightarrow> byte \<Rightarrow> byte list \<Rightarrow> byte \<Rightarrow> ptr option" where
  "first_by_type_loop m p tnf p_type tlen =
     (case rd m p of None \<Rightarrow> None
      | Some rec_hdr \<Rightarrow>
          (case ndef_fields m (p + 1) rec_hdr of None \<Rightarrow> None
           | Some (type_len, payload_len, id_len, q) \<Rightarrow>
               (case type_match m q rec_hdr type_len tnf p_type tlen of None \<Rightarrow> None
                | Some hit \<Rightarrow>
                    if hit then Some (Some p)
                    else if rec_hdr AND NDEF_ME_MASK \<noteq> 0 then Some None
                    else first_by_type_loop m (q + rec_span type_len payload_len id_len)
                           tnf p_type tlen)))"
  by pat_completeness auto
termination
  by (relation "measure (\<lambda>(m, p, t, s, l). length m - p)")
    (auto dest!: ndef_fields_advances simp: rd_Some_iff)

definition NDEF_MsgGetFirstRecByType :: "mem \<Rightarrow> byte \<Rightarrow> byte list \<Rightarrow> byte \<Rightarrow> ptr option" where
  "NDEF_MsgGetFirstRecByType m tnf p_type tlen = first_by_type_loop m 0 tnf p_type tlen"

definition NDEF_MsgGetNextRecByType :: "mem \<Rightarrow> nat \<Rightarrow> byte \<Rightarrow> byte list \<Rightarrow> byte \<Rightarrow> ptr option" where
  "NDEF_MsgGetNextRecByType m p_cur tnf p_type tlen = do {
     r \<leftarrow> NDEF_MsgGetNextRec m p_cur;
     (case r of None \<Rightarrow> Some None
      | Some p \<Rightarrow> first_by_type_loop m p tnf p_type tlen) }"

text \<open>
  The identifier follows the type field; after a miss the pointer moves on by identifier and
  payload, added in \<open>UINT32\<close>.
\<close>

function first_by_id_loop :: "mem \<Rightarrow> nat \<Rightarrow> byte list \<Rightarrow> byte \<Rightarrow> ptr option" where
  "first_by_id_loop m p p_id ilen =
     (case rd m p of None \<Rightarrow> None
      | Some rec_hdr \<Rightarrow>
          (case ndef_fields m (p + 1) rec_hdr of None \<Rightarrow> None
           | Some (type_len, payload_len, id_len, q) \<Rightarrow>
               (case (if id_len = ilen then memcmp_eq m (q + unat type_len) p_id (unat ilen)
                      else Some False) of None \<Rightarrow> None
                | Some hit \<Rightarrow>
                    if hit then Some (Some p)
                    else if rec_hdr AND NDEF_ME_MASK \<noteq> 0 then Some None
                    else first_by_id_loop m
                           (q + unat type_len + unat (ucast id_len + payload_len)) p_id ilen)))"
  by pat_completeness auto
termination
  by (relation "measure (\<lambda>(m, p, s, l). length m - p)")
    (auto dest!: ndef_fields_advances simp: rd_Some_iff)

definition NDEF_MsgGetFirstRecById :: "mem \<Rightarrow> byte list \<Rightarrow> byte \<Rightarrow> ptr option" where
  "NDEF_MsgGetFirstRecById m p_id ilen = first_by_id_loop m 0 p_id ilen"

definition NDEF_MsgGetNextRecById :: "mem \<Rightarrow> nat \<Rightarrow> byte list \<Rightarrow> byte \<Rightarrow> ptr option" where
  "NDEF_MsgGetNextRecById m p_cur p_id ilen = do {
     r \<leftarrow> NDEF_MsgGetNextRec m p_cur;
     (case r of None \<Rightarrow> Some None
      | Some p \<Rightarrow> first_by_id_loop m p p_id ilen) }"

declare num_recs_loop.simps [simp del] rec_by_index_loop.simps [simp del]
  last_rec_loop.simps [simp del] first_by_type_loop.simps [simp del]
  first_by_id_loop.simps [simp del]

section \<open>Reading a record\<close>

definition NDEF_RecGetType :: "mem \<Rightarrow> nat \<Rightarrow> (ptr \<times> byte \<times> byte) option" where
  "NDEF_RecGetType m p = do {
     rec_hdr \<leftarrow> rd m p;
     type_len \<leftarrow> rd m (p + 1);
     let q = p + 2;
     let q = (if rec_hdr AND NDEF_SR_MASK \<noteq> 0 then q + 1 else q + 4);
     let q = (if rec_hdr AND NDEF_IL_MASK \<noteq> 0 then q + 1 else q);
     Some (if type_len = 0 then None else Some q, rec_hdr AND NDEF_TNF_MASK, type_len) }"

definition NDEF_RecGetId :: "mem \<Rightarrow> nat \<Rightarrow> (ptr \<times> byte) option" where
  "NDEF_RecGetId m p = do {
     rec_hdr \<leftarrow> rd m p;
     type_len \<leftarrow> rd m (p + 1);
     let q = p + 2;
     let q = (if rec_hdr AND NDEF_SR_MASK \<noteq> 0 then q + 1 else q + 4);
     (id_len, q) \<leftarrow> (if rec_hdr AND NDEF_IL_MASK \<noteq> 0
                    then do { b \<leftarrow> rd m q; Some (b, q + 1) } else Some (0, q));
     Some (if id_len = 0 then None else Some (q + unat type_len), id_len) }"

definition NDEF_RecGetPayload :: "mem \<Rightarrow> nat \<Rightarrow> (ptr \<times> u32) option" where
  "NDEF_RecGetPayload m p = do {
     rec_hdr \<leftarrow> rd m p;
     (type_len, payload_len, id_len, q) \<leftarrow> ndef_fields m (p + 1) rec_hdr;
     Some (if payload_len = 0 then None else Some (q + unat type_len + unat id_len),
           payload_len) }"

end
