(* ===== verification/Ndef_Edit.thy ===== *)
theory Ndef_Edit
  imports Ndef_Model
begin

text \<open>
  The editing half of \<open>ndef_utils.c\<close>: each operation takes the message object, the capacity
  \<open>max_size\<close> and the current size and answers the status, the object and the size afterwards.
  Sizes are \<open>UINT32\<close> and wrap as in C. A length that the code computes as a pointer difference
  and casts to \<open>UINT32\<close> is written \<open>ulen cur p\<close> (\<open>*p_cur_size - (p - p_msg)\<close>).
\<close>

definition ulen :: "u32 \<Rightarrow> nat \<Rightarrow> nat" where
  "ulen cur p = unat (cur - of_nat p)"

section \<open>Building\<close>

definition NDEF_MsgInit :: "mem \<Rightarrow> u32 \<Rightarrow> (mem \<times> u32) option" where
  "NDEF_MsgInit m max_size = do {
     m' \<leftarrow> wr_bytes m 0 (replicate (unat max_size) 0);
     Some (m', 0) }"

text \<open>
  What \<open>NDEF_MsgAddRec\<close> and \<open>NDEF_MsgInsertRec\<close> do, word for word alike, once the first byte of
  the record is stored: set SR and IL, then write the lengths, the type, the identifier and the
  payload. A NULL source leaves the bytes as they are.
\<close>

definition put_record ::
    "mem \<Rightarrow> nat \<Rightarrow> byte list option \<Rightarrow> byte \<Rightarrow> byte list option \<Rightarrow> byte \<Rightarrow>
     byte list option \<Rightarrow> u32 \<Rightarrow> mem option" where
  "put_record m p p_type type_len p_id id_len p_payload payload_len = do {
     m \<leftarrow> (if payload_len < 256 then upd_byte m p (\<lambda>b. b OR NDEF_SR_MASK) else Some m);
     m \<leftarrow> (if id_len \<noteq> 0 then upd_byte m p (\<lambda>b. b OR NDEF_IL_MASK) else Some m);
     let p = p + 1;
     m \<leftarrow> wr m p type_len;
     let p = p + 1;
     (m, p) \<leftarrow> (if payload_len < 256
               then do { m \<leftarrow> wr m p (ucast payload_len); Some (m, p + 1) }
               else do { m \<leftarrow> wr_bytes m p (u32_be payload_len); Some (m, p + 4) });
     (m, p) \<leftarrow> (if id_len \<noteq> 0
               then do { m \<leftarrow> wr m p id_len; Some (m, p + 1) }
               else Some (m, p));
     m \<leftarrow> (if type_len \<noteq> 0 then memcpy_opt m p p_type (unat type_len) else Some m);
     let p = p + unat type_len;
     m \<leftarrow> (if id_len \<noteq> 0 then memcpy_opt m p p_id (unat id_len) else Some m);
     let p = p + unat id_len;
     memcpy_opt m p p_payload (unat payload_len) }"

definition rec_size :: "byte \<Rightarrow> byte \<Rightarrow> u32 \<Rightarrow> u32" where
  "rec_size type_len id_len payload_len =
     payload_len + 2 + ucast type_len + (if payload_len < 256 then 1 else 4)
       + (if id_len = 0 then 0 else 1) + ucast id_len"

definition NDEF_MsgAddRec ::
    "mem \<Rightarrow> u32 \<Rightarrow> u32 \<Rightarrow> byte \<Rightarrow> byte list option \<Rightarrow> byte \<Rightarrow> byte list option \<Rightarrow> byte \<Rightarrow>
     byte list option \<Rightarrow> u32 \<Rightarrow> (tNDEF_STATUS \<times> mem \<times> u32) option" where
  "NDEF_MsgAddRec m max_size cur tnf p_type type_len p_id id_len p_payload payload_len =
     (let type_len = (if NDEF_TNF_RESERVED < tnf then 0 else type_len);
          tnf = (if NDEF_TNF_RESERVED < tnf then NDEF_TNF_UNKNOWN else tnf);
          p = unat cur;
          recSize = rec_size type_len id_len payload_len in
      if max_size < cur + recSize then Some (NDEF_MSG_INSUFFICIENT_MEM, m, cur)
      else if cur = 0 then do {
        m \<leftarrow> wr m p (tnf OR NDEF_MB_MASK OR NDEF_ME_MASK);
        m \<leftarrow> put_record m p p_type type_len p_id id_len p_payload payload_len;
        Some (NDEF_OK, m, cur + recSize) }
      else do {
        pLast \<leftarrow> NDEF_MsgGetLastRecInMsg m;
        (case pLast of None \<Rightarrow> Some (NDEF_MSG_NO_MSG_END, m, cur)
         | Some l \<Rightarrow> do {
             m \<leftarrow> upd_byte m l (\<lambda>b. b AND NOT NDEF_ME_MASK);
             m \<leftarrow> wr m p (tnf OR NDEF_ME_MASK);
             m \<leftarrow> put_record m p p_type type_len p_id id_len p_payload payload_len;
             Some (NDEF_OK, m, cur + recSize) }) })"

definition NDEF_MsgInsertRec ::
    "mem \<Rightarrow> u32 \<Rightarrow> u32 \<Rightarrow> int \<Rightarrow> byte \<Rightarrow> byte list option \<Rightarrow> byte \<Rightarrow> byte list option \<Rightarrow> byte \<Rightarrow>
     byte list option \<Rightarrow> u32 \<Rightarrow> (tNDEF_STATUS \<times> mem \<times> u32) option" where
  "NDEF_MsgInsertRec m max_size cur index tnf p_type type_len p_id id_len p_payload payload_len =
     (let recSize = rec_size type_len id_len payload_len in
      if max_size < cur + recSize then Some (NDEF_MSG_INSUFFICIENT_MEM, m, cur)
      else do {
        n \<leftarrow> NDEF_MsgGetNumRecs m;
        at \<leftarrow> (if n \<le> index then Some None else NDEF_MsgGetRecByIndex m index);
        (case at of
           None \<Rightarrow> NDEF_MsgAddRec m max_size cur tnf p_type type_len p_id id_len p_payload payload_len
         | Some p \<Rightarrow> do {
             m \<leftarrow> (if index = 0 then upd_byte m 0 (\<lambda>b. b AND NOT NDEF_MB_MASK) else Some m);
             m \<leftarrow> shiftdown m p (ulen cur p) (unat recSize);
             m \<leftarrow> wr m p (if index = 0 then tnf OR NDEF_MB_MASK else tnf);
             m \<leftarrow> put_record m p p_type type_len p_id id_len p_payload payload_len;
             Some (NDEF_OK, m, cur + recSize) }) })"

text \<open>
  The appended records may be changed as well: their MB bit is cleared in place. \<open>addr\<close> is their
  address, which only the validation looks at.
\<close>

definition NDEF_MsgAppendRec ::
    "mem \<Rightarrow> u32 \<Rightarrow> u32 \<Rightarrow> u32 \<Rightarrow> mem \<Rightarrow> u32 \<Rightarrow>
     (tNDEF_STATUS \<times> mem \<times> u32 \<times> mem) option" where
  "NDEF_MsgAppendRec m max_size cur addr p_new_rec new_rec_len = do {
     status \<leftarrow> NDEF_MsgValidate addr (Some p_new_rec) new_rec_len False;
     if status \<noteq> NDEF_OK then Some (status, m, cur, p_new_rec)
     else if max_size < cur + new_rec_len then Some (NDEF_MSG_INSUFFICIENT_MEM, m, cur, p_new_rec)
     else if cur = 0 then do {
       m \<leftarrow> memcpy_opt m 0 (Some p_new_rec) (unat new_rec_len);
       Some (NDEF_OK, m, cur + new_rec_len, p_new_rec) }
     else do {
       pLast \<leftarrow> NDEF_MsgGetLastRecInMsg m;
       (case pLast of None \<Rightarrow> Some (NDEF_MSG_NO_MSG_END, m, cur, p_new_rec)
        | Some l \<Rightarrow> do {
            m \<leftarrow> upd_byte m l (\<lambda>b. b AND NOT NDEF_ME_MASK);
            p_new_rec \<leftarrow> upd_byte p_new_rec 0 (\<lambda>b. b AND NOT NDEF_MB_MASK);
            m \<leftarrow> memcpy_opt m (unat cur) (Some p_new_rec) (unat new_rec_len);
            Some (NDEF_OK, m, cur + new_rec_len, p_new_rec) }) } }"

section \<open>Changing a record in place\<close>

definition NDEF_MsgAppendPayload ::
    "mem \<Rightarrow> u32 \<Rightarrow> u32 \<Rightarrow> nat \<Rightarrow> byte list \<Rightarrow> u32 \<Rightarrow> (tNDEF_STATUS \<times> mem \<times> u32) option" where
  "NDEF_MsgAppendPayload m max_size cur p_rec p_add_pl add_pl_len = do {
     rec_hdr \<leftarrow> rd m p_rec;
     (type_len, prev_paylen, id_len, pp) \<leftarrow> ndef_fields m (p_rec + 1) rec_hdr;
     let p_prev_pl = pp + unat type_len + unat id_len;
     let new_paylen = prev_paylen + add_pl_len;
     let incr_lenfld = (if prev_paylen < 256 \<and> 255 < new_paylen then 3 else 0 :: u32);
     if max_size < cur + add_pl_len + incr_lenfld then Some (NDEF_MSG_INSUFFICIENT_MEM, m, cur)
     else do {
       let pp = p_rec + 2;
       (m, p_prev_pl) \<leftarrow>
         (if incr_lenfld \<noteq> 0
          then do { m \<leftarrow> shiftdown m (pp + 1) (unat (cur - of_nat pp - 1)) 3;
                    Some (m, p_prev_pl + 3) }
          else Some (m, p_prev_pl));
       m \<leftarrow> (if 255 < new_paylen
            then do { m \<leftarrow> upd_byte m p_rec (\<lambda>b. b AND NOT NDEF_SR_MASK);
                      wr_bytes m pp (u32_be new_paylen) }
            else wr m pp (ucast new_paylen));
       let pp = p_prev_pl + unat prev_paylen;
       rec_hdr \<leftarrow> rd m p_rec;
       m \<leftarrow> (if rec_hdr AND NDEF_ME_MASK = 0
            then shiftdown m pp (ulen cur pp) (unat add_pl_len) else Some m);
       m \<leftarrow> memcpy_opt m pp (Some p_add_pl) (unat add_pl_len);
       Some (NDEF_OK, m, cur + (add_pl_len + incr_lenfld)) } }"

definition put_payload_len :: "mem \<Rightarrow> nat \<Rightarrow> u32 \<Rightarrow> mem option" where
  "put_payload_len m pp n =
     (if 255 < n then wr_bytes m pp (u32_be n) else wr m pp (ucast n))"

definition NDEF_MsgReplacePayload ::
    "mem \<Rightarrow> u32 \<Rightarrow> u32 \<Rightarrow> nat \<Rightarrow> byte list option \<Rightarrow> u32 \<Rightarrow> (tNDEF_STATUS \<times> mem \<times> u32) option" where
  "NDEF_MsgReplacePayload m max_size cur p_rec p_new_pl new_pl_len = do {
     rec_hdr \<leftarrow> rd m p_rec;
     (type_len, prev_paylen, id_len, pp) \<leftarrow> ndef_fields m (p_rec + 1) rec_hdr;
     let p_prev_pl = pp + unat type_len + unat id_len;
     let pp = p_rec + 2;
     if prev_paylen < new_pl_len then do {
       let paylen_delta = new_pl_len - prev_paylen;
       let grow = (prev_paylen < 256 \<and> 255 < new_pl_len);
       if (if grow then max_size < cur + paylen_delta + 3 else max_size < cur + paylen_delta)
       then Some (NDEF_MSG_INSUFFICIENT_MEM, m, cur)
       else do {
         (m, p_prev_pl, cur) \<leftarrow>
           (if grow then do {
              m \<leftarrow> shiftdown m (pp + 1) (unat (cur - of_nat pp - 1)) 3;
              m \<leftarrow> upd_byte m p_rec (\<lambda>b. b AND NOT NDEF_SR_MASK);
              Some (m, p_prev_pl + 3, cur + 3) }
            else Some (m, p_prev_pl, cur));
         m \<leftarrow> put_payload_len m pp new_pl_len;
         let pp = p_prev_pl + unat prev_paylen;
         rec_hdr \<leftarrow> rd m p_rec;
         m \<leftarrow> (if rec_hdr AND NDEF_ME_MASK = 0
              then shiftdown m pp (ulen cur pp) (unat paylen_delta) else Some m);
         m \<leftarrow> memcpy_opt m p_prev_pl p_new_pl (unat new_pl_len);
         Some (NDEF_OK, m, cur + paylen_delta) } }
     else if new_pl_len < prev_paylen then do {
       let paylen_delta = prev_paylen - new_pl_len;
       (m, p_prev_pl, cur) \<leftarrow>
         (if 255 < prev_paylen \<and> new_pl_len < 256 then do {
            m \<leftarrow> shiftup m (pp + 1) (pp + 4) (unat (cur - of_nat pp - 3));
            m \<leftarrow> upd_byte m p_rec (\<lambda>b. b OR NDEF_SR_MASK);
            Some (m, p_prev_pl - 3, cur - 3) }
          else Some (m, p_prev_pl, cur));
       m \<leftarrow> put_payload_len m pp new_pl_len;
       let pp = p_prev_pl + unat prev_paylen;
       rec_hdr \<leftarrow> rd m p_rec;
       m \<leftarrow> (if rec_hdr AND NDEF_ME_MASK = 0
            then shiftup m (pp - unat paylen_delta) pp (ulen cur pp) else Some m);
       m \<leftarrow> memcpy_opt m p_prev_pl p_new_pl (unat new_pl_len);
       Some (NDEF_OK, m, cur - paylen_delta) }
     else do {
       m \<leftarrow> memcpy_opt m p_prev_pl p_new_pl (unat new_pl_len);
       Some (NDEF_OK, m, cur) } }"

definition NDEF_MsgReplaceType ::
    "mem \<Rightarrow> u32 \<Rightarrow> u32 \<Rightarrow> nat \<Rightarrow> byte list option \<Rightarrow> byte \<Rightarrow> (tNDEF_STATUS \<times> mem \<times> u32) option" where
  "NDEF_MsgReplaceType m max_size cur p_rec p_new_type new_type_len = do {
     rec_hdr \<leftarrow> rd m p_rec;
     prev_type_len \<leftarrow> rd m (p_rec + 1);
     let pp = p_rec + 2;
     let pp = (if rec_hdr AND NDEF_SR_MASK \<noteq> 0 then pp + 1 else pp + 4);
     let p_prev_type = (if rec_hdr AND NDEF_IL_MASK \<noteq> 0 then pp + 1 else pp);
     let pp = p_prev_type + unat prev_type_len;
     if prev_type_len < new_type_len \<and> max_size < cur + ucast (new_type_len - prev_type_len)
     then Some (NDEF_MSG_INSUFFICIENT_MEM, m, cur)
     else do {
       (m, cur) \<leftarrow>
         (if prev_type_len < new_type_len then do {
            let typelen_delta = new_type_len - prev_type_len;
            m \<leftarrow> shiftdown m pp (ulen cur pp) (unat typelen_delta);
            Some (m, cur + ucast typelen_delta) }
          else if new_type_len < prev_type_len then do {
            let typelen_delta = prev_type_len - new_type_len;
            m \<leftarrow> shiftup m (pp - unat typelen_delta) pp (ulen cur pp);
            Some (m, cur - ucast typelen_delta) }
          else Some (m, cur));
       m \<leftarrow> wr m (p_rec + 1) new_type_len;
       m \<leftarrow> memcpy_opt m p_prev_type p_new_type (unat new_type_len);
       Some (NDEF_OK, m, cur) } }"

definition NDEF_MsgReplaceId ::
    "mem \<Rightarrow> u32 \<Rightarrow> u32 \<Rightarrow> nat \<Rightarrow> byte list option \<Rightarrow> byte \<Rightarrow> (tNDEF_STATUS \<times> mem \<times> u32) option" where
  "NDEF_MsgReplaceId m max_size cur p_rec p_new_id new_id_len = do {
     rec_hdr \<leftarrow> rd m p_rec;
     type_len \<leftarrow> rd m (p_rec + 1);
     let pp = p_rec + 2;
     let p_idlen_field = (if rec_hdr AND NDEF_SR_MASK \<noteq> 0 then pp + 1 else pp + 4);
     (prev_id_len, pp) \<leftarrow>
       (if rec_hdr AND NDEF_IL_MASK \<noteq> 0
        then do { b \<leftarrow> rd m p_idlen_field; Some (b, p_idlen_field + 1) }
        else Some (0, p_idlen_field));
     let p_prev_id = pp + unat type_len;
     if prev_id_len < new_id_len
        \<and> (if prev_id_len = 0 then max_size < cur + ucast (new_id_len - prev_id_len) + 1
           else max_size < cur + ucast (new_id_len - prev_id_len))
     then Some (NDEF_MSG_INSUFFICIENT_MEM, m, cur)
     else do {
       (m, p_prev_id, cur) \<leftarrow>
         (if prev_id_len < new_id_len then do {
            let idlen_delta = new_id_len - prev_id_len;
            (m, p_prev_id, cur) \<leftarrow>
              (if prev_id_len = 0 then do {
                 m \<leftarrow> shiftdown m p_idlen_field (ulen cur p_idlen_field) 1;
                 m \<leftarrow> upd_byte m p_rec (\<lambda>b. b OR NDEF_IL_MASK);
                 Some (m, p_prev_id + 1, cur + 1) }
               else Some (m, p_prev_id, cur));
            let pp = p_prev_id + unat prev_id_len;
            m \<leftarrow> shiftdown m pp (ulen cur pp) (unat idlen_delta);
            Some (m, p_prev_id, cur + ucast idlen_delta) }
          else if new_id_len < prev_id_len then do {
            let idlen_delta = prev_id_len - new_id_len;
            let pp = p_prev_id + unat prev_id_len;
            m \<leftarrow> shiftup m (pp - unat idlen_delta) pp (ulen cur pp);
            let cur = cur - ucast idlen_delta;
            if new_id_len = 0 then do {
              m \<leftarrow> shiftup m p_idlen_field (p_idlen_field + 1)
                     (unat (cur - (of_nat p_idlen_field - 1)));
              m \<leftarrow> upd_byte m p_rec (\<lambda>b. b AND NOT NDEF_IL_MASK);
              Some (m, p_prev_id, cur - 1) }
            else Some (m, p_prev_id, cur) }
          else Some (m, p_prev_id, cur));
       m \<leftarrow> (if new_id_len \<noteq> 0
            then do { m \<leftarrow> wr m p_idlen_field new_id_len;
                      memcpy_opt m p_prev_id p_new_id (unat new_id_len) }
            else Some m);
       Some (NDEF_OK, m, cur) } }"

section \<open>Removing a record\<close>

text \<open>\<open>return (FALSE)\<close> on a \<open>tNDEF_STATUS\<close> result is the value 0, that is \<open>NDEF_OK\<close>.\<close>

definition NDEF_MsgRemoveRec :: "mem \<Rightarrow> u32 \<Rightarrow> int \<Rightarrow> (tNDEF_STATUS \<times> mem \<times> u32) option" where
  "NDEF_MsgRemoveRec m cur index = do {
     at \<leftarrow> NDEF_MsgGetRecByIndex m index;
     (case at of None \<Rightarrow> Some (NDEF_REC_NOT_FOUND, m, cur)
      | Some p \<Rightarrow> do {
          rec_hdr \<leftarrow> rd m p;
          if rec_hdr AND NDEF_MB_MASK \<noteq> 0 then do {
            nxt \<leftarrow> NDEF_MsgGetRecByIndex m 1;
            (case nxt of None \<Rightarrow> Some (NDEF_OK, m, 0)
             | Some q \<Rightarrow> do {
                 m \<leftarrow> upd_byte m q (\<lambda>b. b OR NDEF_MB_MASK);
                 let cur = cur - of_nat q;
                 m \<leftarrow> shiftup m 0 q (unat cur);
                 Some (NDEF_OK, m, cur) }) }
          else if rec_hdr AND NDEF_ME_MASK \<noteq> 0 then
            (if 0 < index then do {
               prv \<leftarrow> NDEF_MsgGetRecByIndex m (index - 1);
               (case prv of None \<Rightarrow> Some (NDEF_OK, m, cur)
                | Some q \<Rightarrow> do {
                    m \<leftarrow> upd_byte m q (\<lambda>b. b OR NDEF_ME_MASK);
                    Some (NDEF_OK, m, of_nat p) }) }
             else Some (NDEF_OK, m, of_nat p))
          else do {
            nxt \<leftarrow> NDEF_MsgGetNextRec m p;
            (case nxt of None \<Rightarrow> Some (NDEF_OK, m, cur)
             | Some q \<Rightarrow> do {
                 m \<leftarrow> shiftup m p q (ulen cur q);
                 Some (NDEF_OK, m, cur - of_nat (q - p)) }) } }) }"

section \<open>Removing chunks\<close>

text \<open>
  The copy loop of \<open>NDEF_MsgCopyAndDechunk\<close>: the source \<open>s\<close> is walked record by record; a record
  of type \<open>unchanged\<close> appends its payload to the record last added, any other record is added.
  The loop runs while there is a next record and the status is \<open>NDEF_OK\<close>; the loop variable of
  the C code advances to the next record before that test.
\<close>

definition src_at :: "mem \<Rightarrow> ptr \<Rightarrow> byte list option" where
  "src_at s p = map_option (\<lambda>q. drop q s) p"

definition dechunk_step ::
    "mem \<Rightarrow> nat \<Rightarrow> mem \<Rightarrow> u32 \<Rightarrow> u32 \<Rightarrow> nat \<Rightarrow> (tNDEF_STATUS \<times> mem \<times> u32 \<times> nat) option" where
  "dechunk_step s p d max_out out_len p_prev = do {
     (p_type, tnf, type_len) \<leftarrow> NDEF_RecGetType s p;
     (p_id, id_len) \<leftarrow> NDEF_RecGetId s p;
     (p_pay, pay_len) \<leftarrow> NDEF_RecGetPayload s p;
     if tnf = NDEF_TNF_UNCHANGED then
       (case p_pay of None \<Rightarrow> Some (NDEF_OK, d, out_len, p_prev)
        | Some q \<Rightarrow> do {
            (st, d, out_len) \<leftarrow> NDEF_MsgAppendPayload d max_out out_len p_prev (drop q s) pay_len;
            Some (st, d, out_len, p_prev) })
     else do {
       let p_prev = unat out_len;
       (st, d, out_len) \<leftarrow> NDEF_MsgAddRec d max_out out_len tnf (src_at s p_type) type_len
                             (src_at s p_id) id_len (src_at s p_pay) pay_len;
       Some (st, d, out_len, p_prev) } }"

lemma NDEF_MsgGetNextRec_advances:
  "NDEF_MsgGetNextRec m p = Some (Some q) \<Longrightarrow> p < q \<and> p < length m"
  by (auto simp: NDEF_MsgGetNextRec_def rd_Some_iff split: bind_splits if_splits
      dest!: ndef_fields_advances)

function dechunk_loop ::
    "mem \<Rightarrow> nat \<Rightarrow> mem \<Rightarrow> u32 \<Rightarrow> u32 \<Rightarrow> nat \<Rightarrow> (tNDEF_STATUS \<times> mem \<times> u32) option" where
  "dechunk_loop s p d max_out out_len p_prev =
     (case dechunk_step s p d max_out out_len p_prev of None \<Rightarrow> None
      | Some (st, d', out_len', p_prev') \<Rightarrow>
          (case NDEF_MsgGetNextRec s p of None \<Rightarrow> None
           | Some None \<Rightarrow> Some (st, d', out_len')
           | Some (Some q) \<Rightarrow>
               if st \<noteq> NDEF_OK then Some (st, d', out_len')
               else dechunk_loop s q d' max_out out_len' p_prev'))"
  by pat_completeness auto
termination
  by (relation "measure (\<lambda>(s, p, d, mo, ol, pp). length s - p)")
    (auto dest!: NDEF_MsgGetNextRec_advances)

declare dechunk_loop.simps [simp del]

text \<open>The result: status, destination and, where the code sets it, the output length.
  \<open>addr\<close> is the address of the source message.\<close>

definition NDEF_MsgCopyAndDechunk ::
    "u32 \<Rightarrow> mem option \<Rightarrow> u32 \<Rightarrow> mem \<Rightarrow> (tNDEF_STATUS \<times> mem \<times> u32 option) option" where
  "NDEF_MsgCopyAndDechunk addr p_src src_len p_dest = do {
     status \<leftarrow> NDEF_MsgValidate addr p_src src_len True;
     if status \<noteq> NDEF_OK then Some (status, p_dest, None)
     else do {
       s \<leftarrow> p_src;
       (d, out_len) \<leftarrow> NDEF_MsgInit p_dest src_len;
       (status, d, out_len) \<leftarrow> dechunk_loop s 0 d src_len out_len 0;
       Some (status, d, Some out_len) } }"

end
