(* ===== verification/Ndef_Spec.thy ===== *)
theory Ndef_Spec
  imports Ndef_Edit
begin

text \<open>
  The abstract view of an NDEF message: a list of records with their fields, and its encoding.
  The lemmas relate one encoded record to the reads of the walking functions in both directions.
\<close>

section \<open>Records and their encoding\<close>

record ndef_rec =
  r_tnf :: byte
  r_cf :: bool
  r_sr :: bool
  r_il :: bool
  r_type :: "byte list"
  r_id :: "byte list"
  r_payload :: "byte list"

definition flag :: "byte \<Rightarrow> bool \<Rightarrow> byte" where
  "flag bm b = (if b then bm else 0)"

definition hdr_byte :: "bool \<Rightarrow> bool \<Rightarrow> ndef_rec \<Rightarrow> byte" where
  "hdr_byte mb me r = r_tnf r OR flag NDEF_MB_MASK mb OR flag NDEF_ME_MASK me
     OR flag NDEF_CF_MASK (r_cf r) OR flag NDEF_SR_MASK (r_sr r) OR flag NDEF_IL_MASK (r_il r)"

definition paylen_bytes :: "ndef_rec \<Rightarrow> byte list" where
  "paylen_bytes r = (if r_sr r then [of_nat (length (r_payload r))]
                     else u32_be (of_nat (length (r_payload r))))"

definition idlen_bytes :: "ndef_rec \<Rightarrow> byte list" where
  "idlen_bytes r = (if r_il r then [of_nat (length (r_id r))] else [])"

definition enc_rec :: "bool \<Rightarrow> bool \<Rightarrow> ndef_rec \<Rightarrow> byte list" where
  "enc_rec mb me r = hdr_byte mb me r # of_nat (length (r_type r)) # paylen_bytes r @ idlen_bytes r
     @ r_type r @ r_id r @ r_payload r"

definition hdr_len :: "ndef_rec \<Rightarrow> nat" where
  "hdr_len r = 2 + (if r_sr r then 1 else 4) + (if r_il r then 1 else 0)"

definition rec_len :: "ndef_rec \<Rightarrow> nat" where
  "rec_len r = hdr_len r + length (r_type r) + length (r_id r) + length (r_payload r)"

text \<open>The first record carries MB when \<open>mb\<close>, the last carries ME.\<close>

fun enc_from :: "bool \<Rightarrow> ndef_rec list \<Rightarrow> byte list" where
  "enc_from mb [] = []"
| "enc_from mb (r # rs) = enc_rec mb (rs = []) r @ enc_from False rs"

fun enc_pre :: "bool \<Rightarrow> ndef_rec list \<Rightarrow> byte list" where
  "enc_pre mb [] = []"
| "enc_pre mb (r # rs) = enc_rec mb False r @ enc_pre False rs"

definition enc_msg :: "ndef_rec list \<Rightarrow> byte list" where
  "enc_msg rs = enc_from True rs"

definition offset :: "ndef_rec list \<Rightarrow> nat \<Rightarrow> nat" where
  "offset rs i = sum_list (map rec_len (take i rs))"

section \<open>Well-formed records and messages\<close>

text \<open>The lengths fit their fields and the sum of the three lengths fits \<open>UINT32\<close>.\<close>

definition wf_rec :: "ndef_rec \<Rightarrow> bool" where
  "wf_rec r \<longleftrightarrow> r_tnf r < 8 \<and> length (r_type r) < 256 \<and> length (r_id r) < 256
     \<and> (r_il r \<or> r_id r = []) \<and> (r_sr r \<longrightarrow> length (r_payload r) < 256)
     \<and> length (r_payload r) + length (r_type r) + length (r_id r) < 4294967296"

definition content_ok :: "ndef_rec \<Rightarrow> bool" where
  "content_ok r \<longleftrightarrow>
     (r_tnf r = NDEF_TNF_EMPTY \<longrightarrow> r_type r = [] \<and> r_id r = [] \<and> r_payload r = [])
     \<and> (r_tnf r = NDEF_TNF_UNKNOWN \<longrightarrow> r_type r = [])"

fun chunks_ok :: "bool \<Rightarrow> bool \<Rightarrow> ndef_rec list \<Rightarrow> bool" where
  "chunks_ok allow in_chunk [] = True"
| "chunks_ok allow in_chunk (r # rs) =
     ((r_cf r \<longrightarrow> allow)
      \<and> (if in_chunk then r_type r = [] \<and> r_id r = [] \<and> r_tnf r = NDEF_TNF_UNCHANGED
         else r_tnf r \<noteq> NDEF_TNF_UNCHANGED)
      \<and> chunks_ok allow (r_cf r) rs)"

definition wf_msg :: "bool \<Rightarrow> ndef_rec list \<Rightarrow> bool" where
  "wf_msg allow rs \<longleftrightarrow> rs \<noteq> [] \<and> (\<forall>r \<in> set rs. wf_rec r \<and> content_ok r) \<and> chunks_ok allow False rs"

section \<open>The header byte\<close>

lemma tnf_cases:
  "(t :: byte) < 8 \<Longrightarrow> t = 0 \<or> t = 1 \<or> t = 2 \<or> t = 3 \<or> t = 4 \<or> t = 5 \<or> t = 6 \<or> t = 7"
proof -
  assume "t < 8"
  then have "unat t < 8" by (simp add: word_less_nat_alt)
  then have "unat t \<in> {0, 1, 2, 3, 4, 5, 6, 7}" by auto
  then show ?thesis by (simp add: word_unat_eq_iff)
qed

lemma flag_and [simp]: "flag a b AND c = flag (a AND c) b"
  by (simp add: flag_def)

lemma flag_0 [simp]: "flag 0 b = 0"
  by (simp add: flag_def)

lemma tnf_and:
  assumes "(t :: byte) < 8"
  shows "t AND NDEF_MB_MASK = 0" "t AND NDEF_ME_MASK = 0" "t AND NDEF_CF_MASK = 0"
    "t AND NDEF_SR_MASK = 0" "t AND NDEF_IL_MASK = 0" "t AND NDEF_TNF_MASK = t"
  using tnf_cases [OF assms] by (elim disjE; simp)+

lemma hdr_byte_bits:
  assumes "r_tnf r < 8"
  shows "hdr_byte mb me r AND NDEF_MB_MASK = flag NDEF_MB_MASK mb"
    and "hdr_byte mb me r AND NDEF_ME_MASK = flag NDEF_ME_MASK me"
    and "hdr_byte mb me r AND NDEF_CF_MASK = flag NDEF_CF_MASK (r_cf r)"
    and "hdr_byte mb me r AND NDEF_SR_MASK = flag NDEF_SR_MASK (r_sr r)"
    and "hdr_byte mb me r AND NDEF_IL_MASK = flag NDEF_IL_MASK (r_il r)"
    and "hdr_byte mb me r AND NDEF_TNF_MASK = r_tnf r"
  unfolding hdr_byte_def by (simp_all add: bit.conj_disj_distrib2 tnf_and [OF assms])

lemma flag_zero_iff [simp]: "bm \<noteq> 0 \<Longrightarrow> flag bm b = 0 \<longleftrightarrow> \<not> b"
  by (simp add: flag_def)

lemma hdr_flags:
  assumes "r_tnf r < 8"
  shows "(hdr_byte mb me r AND NDEF_MB_MASK = 0) = (\<not> mb)"
    and "(hdr_byte mb me r AND NDEF_ME_MASK = 0) = (\<not> me)"
    and "(hdr_byte mb me r AND NDEF_CF_MASK = 0) = (\<not> r_cf r)"
    and "(hdr_byte mb me r AND NDEF_SR_MASK = 0) = (\<not> r_sr r)"
    and "(hdr_byte mb me r AND NDEF_IL_MASK = 0) = (\<not> r_il r)"
    and "hdr_byte mb me r AND NDEF_TNF_MASK = r_tnf r"
  by (simp_all add: hdr_byte_bits [OF assms])

lemma hdr_byte_decode:
  fixes h :: byte
  shows "(h AND NDEF_TNF_MASK) OR flag NDEF_MB_MASK (h AND NDEF_MB_MASK \<noteq> 0)
     OR flag NDEF_ME_MASK (h AND NDEF_ME_MASK \<noteq> 0) OR flag NDEF_CF_MASK (h AND NDEF_CF_MASK \<noteq> 0)
     OR flag NDEF_SR_MASK (h AND NDEF_SR_MASK \<noteq> 0) OR flag NDEF_IL_MASK (h AND NDEF_IL_MASK \<noteq> 0) = h"
proof -
  have f: "flag (2 ^ k) (h AND 2 ^ k \<noteq> 0) = h AND 2 ^ k" for k
    by (auto simp: flag_def and_exp_eq_0_iff_not_bit bit_simps intro!: bit_word_eqI)
  have "(255 :: byte) = -1" by simp
  then have "h AND 255 = h" by (simp only: and.right_neutral)
  then show ?thesis
    using f [of 7] f [of 6] f [of 5] f [of 4] f [of 3]
    by (simp add: bit.conj_disj_distrib [symmetric])
qed

section \<open>One encoded record\<close>

lemma length_paylen_bytes [simp]: "length (paylen_bytes r) = (if r_sr r then 1 else 4)"
  by (simp add: paylen_bytes_def)

lemma length_idlen_bytes [simp]: "length (idlen_bytes r) = (if r_il r then 1 else 0)"
  by (simp add: idlen_bytes_def)

lemma length_enc_rec [simp]: "length (enc_rec mb me r) = rec_len r"
  by (simp add: enc_rec_def rec_len_def hdr_len_def)

lemma rec_len_ge_3: "3 \<le> rec_len r"
  by (simp add: rec_len_def hdr_len_def)

lemma enc_rec_ne [simp]: "enc_rec mb me r \<noteq> []"
  by (simp add: enc_rec_def)

lemma wf_rec_small:
  assumes "wf_rec r"
  shows "unat (of_nat (length (r_type r)) :: byte) = length (r_type r)"
    and "unat (of_nat (length (r_id r)) :: byte) = length (r_id r)"
    and "unat (of_nat (length (r_payload r)) :: u32) = length (r_payload r)"
    and "r_sr r \<Longrightarrow> (ucast (of_nat (length (r_payload r)) :: byte) :: u32) = of_nat (length (r_payload r))"
  using assms by (auto simp: wf_rec_def unat_of_nat word_unat_eq_iff)

lemma rec_span_wf:
  assumes "wf_rec r"
  shows "rec_span (of_nat (length (r_type r))) (of_nat (length (r_payload r))) (of_nat (length (r_id r)))
    = length (r_type r) + length (r_id r) + length (r_payload r)"
  using assms wf_rec_small [OF assms]
  by (simp add: rec_span_def unat_word_ariths wf_rec_def)

lemma rd_hdr: "p = length A \<Longrightarrow> rd (A @ enc_rec mb me r @ C) p = Some (hdr_byte mb me r)"
  by (simp add: rd_def enc_rec_def)

lemma ndef_fields_enc:
  assumes wf: "wf_rec r" and p: "p = length A"
  shows "ndef_fields (A @ enc_rec mb me r @ C) (p + 1) (hdr_byte mb me r)
    = Some (of_nat (length (r_type r)), of_nat (length (r_payload r)), of_nat (length (r_id r)),
            p + hdr_len r)"
proof -
  let ?m = "A @ enc_rec mb me r @ C"
  have t: "r_tnf r < 8" using wf by (simp add: wf_rec_def)
  have il0: "\<not> r_il r \<Longrightarrow> r_id r = []" using wf by (auto simp: wf_rec_def)
  have 1: "rd ?m (Suc p) = Some (of_nat (length (r_type r)))"
    by (simp add: p rd_def enc_rec_def nth_append)
  have 2: "rd ?m (Suc (Suc p)) = Some (of_nat (length (r_payload r)))" if "r_sr r"
    using that by (simp add: p rd_def enc_rec_def nth_append paylen_bytes_def)
  have 3: "rd_be32 ?m (Suc (Suc p)) = Some (of_nat (length (r_payload r)))" if "\<not> r_sr r"
  proof -
    have "?m = (A @ [hdr_byte mb me r, of_nat (length (r_type r))]) @ u32_be (of_nat (length (r_payload r)))
        @ (idlen_bytes r @ r_type r @ r_id r @ r_payload r @ C)"
      using that by (simp add: enc_rec_def paylen_bytes_def)
    moreover have "length (A @ [hdr_byte mb me r, of_nat (length (r_type r))]) = Suc (Suc p)"
      by (simp add: p)
    ultimately show ?thesis by (metis rd_be32_u32_be)
  qed
  have 4: "rd ?m (if r_sr r then Suc (Suc (Suc p)) else Suc (p + 5)) = Some (of_nat (length (r_id r)))"
    if "r_il r"
    using that by (simp add: p rd_def enc_rec_def nth_append idlen_bytes_def)
  show ?thesis
    using 1 2 3 4 il0 wf_rec_small(4) [OF wf]
    by (auto simp: ndef_fields_def hdr_flags [OF t] hdr_len_def)
qed


section \<open>Decoding one record\<close>

text \<open>The record that the bytes at \<open>p\<close> describe.\<close>

definition dec_rec :: "mem \<Rightarrow> byte \<Rightarrow> byte \<Rightarrow> u32 \<Rightarrow> byte \<Rightarrow> nat \<Rightarrow> ndef_rec" where
  "dec_rec m h ty pl il q =
     \<lparr> r_tnf = h AND NDEF_TNF_MASK, r_cf = (h AND NDEF_CF_MASK \<noteq> 0),
       r_sr = (h AND NDEF_SR_MASK \<noteq> 0), r_il = (h AND NDEF_IL_MASK \<noteq> 0),
       r_type = take (unat ty) (drop q m),
       r_id = take (unat il) (drop (q + unat ty) m),
       r_payload = take (unat pl) (drop (q + unat ty + unat il) m) \<rparr>"

lemma ucast_ucast_byte_u32 [simp]: "ucast (ucast (b :: byte) :: u32) = b"
  by (simp add: word_unat_eq_iff unat_ucast_mod unat_byte_less)

lemma drop_rd: "rd m p = Some b \<Longrightarrow> drop p m = b # drop (Suc p) m"
  by (auto simp: rd_Some_iff Cons_nth_drop_Suc)

lemma drop_rd_be32: "rd_be32 m p = Some v \<Longrightarrow> drop p m = u32_be v @ drop (p + 4) m"
  using append_take_drop_id [of 4 "drop p m"] rd_be32_Some [of m p v] by (simp add: add.commute)

lemma ndef_fields_split:
  assumes "ndef_fields m p h = Some (ty, pl, il, q)"
  shows "drop p m = ty # (if h AND NDEF_SR_MASK \<noteq> 0 then [ucast pl] else u32_be pl)
      @ (if h AND NDEF_IL_MASK \<noteq> 0 then [il] else []) @ drop q m"
    and "h AND NDEF_SR_MASK \<noteq> 0 \<Longrightarrow> unat pl < 256"
    and "h AND NDEF_IL_MASK = 0 \<Longrightarrow> il = 0"
    and "q = p + 1 + (if h AND NDEF_SR_MASK \<noteq> 0 then 1 else 4)
      + (if h AND NDEF_IL_MASK \<noteq> 0 then 1 else 0)"
proof -
  show "drop p m = ty # (if h AND NDEF_SR_MASK \<noteq> 0 then [ucast pl] else u32_be pl)
      @ (if h AND NDEF_IL_MASK \<noteq> 0 then [il] else []) @ drop q m"
    using assms
    by (auto simp: ndef_fields_def drop_rd drop_rd_be32 add_ac split: bind_splits if_splits
        dest!: drop_rd drop_rd_be32)
  show "h AND NDEF_SR_MASK \<noteq> 0 \<Longrightarrow> unat pl < 256" "h AND NDEF_IL_MASK = 0 \<Longrightarrow> il = 0"
    "q = p + 1 + (if h AND NDEF_SR_MASK \<noteq> 0 then 1 else 4)
      + (if h AND NDEF_IL_MASK \<noteq> 0 then 1 else 0)"
    using assms by (auto simp: ndef_fields_def unat_byte_less split: bind_splits if_splits)
qed


lemma drop_take3:
  "drop q m = take a (drop q m) @ take b (drop (q + a) m) @ take c (drop (q + a + b) m)
     @ drop (q + a + b + c) m"
proof -
  have t: "drop n m = take k (drop n m) @ drop (n + k) m" for n k
    using append_take_drop_id [of k "drop n m"] by (simp add: add.commute)
  show ?thesis
    using t [of q a] t [of "q + a" b] t [of "q + a + b" c] by simp
qed

lemma of_nat_unat_byte: "(of_nat (unat (x :: u32)) :: byte) = ucast x"
  by (simp add: word_unat_eq_iff unat_ucast_mod unat_of_nat)

lemma dec_rec_enc:
  assumes h: "rd m p = Some h" and f: "ndef_fields m (p + 1) h = Some (ty, pl, il, q)"
    and fit: "unat pl + unat ty + unat il < 4294967296"
    and len: "q + unat ty + unat il + unat pl \<le> length m"
  shows "wf_rec (dec_rec m h ty pl il q)"
    and "hdr_byte (h AND NDEF_MB_MASK \<noteq> 0) (h AND NDEF_ME_MASK \<noteq> 0) (dec_rec m h ty pl il q) = h"
    and "take (rec_len (dec_rec m h ty pl il q)) (drop p m)
      = enc_rec (h AND NDEF_MB_MASK \<noteq> 0) (h AND NDEF_ME_MASK \<noteq> 0) (dec_rec m h ty pl il q)"
    and "q + rec_span ty pl il = p + rec_len (dec_rec m h ty pl il q)"
proof -
  let ?r = "dec_rec m h ty pl il q"
  note s = ndef_fields_split [OF f]
  have lens: "length (r_type ?r) = unat ty" "length (r_id ?r) = unat il"
    "length (r_payload ?r) = unat pl"
    using len by (simp_all add: dec_rec_def)
  have tnf: "r_tnf ?r < 8"
  proof -
    have "h AND NDEF_TNF_MASK \<le> NDEF_TNF_MASK" by (rule word_and_le1)
    then have "h AND NDEF_TNF_MASK < 8" by (rule order_le_less_trans) simp
    then show ?thesis by (simp add: dec_rec_def)
  qed
  show "wf_rec ?r"
    using tnf lens s(2,3) fit unat_byte_less [of ty] unat_byte_less [of il]
    by (auto simp: wf_rec_def dec_rec_def)
  show hdr: "hdr_byte (h AND NDEF_MB_MASK \<noteq> 0) (h AND NDEF_ME_MASK \<noteq> 0) ?r = h"
    using hdr_byte_decode [of h] by (simp add: hdr_byte_def dec_rec_def)
  have flags: "r_sr ?r = (h AND NDEF_SR_MASK \<noteq> 0)" "r_il ?r = (h AND NDEF_IL_MASK \<noteq> 0)"
    by (simp_all add: dec_rec_def)
  have rl: "rec_len ?r = (q - p) + unat ty + unat il + unat pl"
    unfolding rec_len_def hdr_len_def lens flags using s(4)
    by (cases "h AND NDEF_SR_MASK = 0"; cases "h AND NDEF_IL_MASK = 0") simp_all
  have pq: "p \<le> q"
    using s(4) by simp
  show "q + rec_span ty pl il = p + rec_len ?r"
    using pq fit by (simp add: rl rec_span_def unat_word_ariths)
  have d: "drop q m = r_type ?r @ r_id ?r @ r_payload ?r @ drop (q + unat ty + unat il + unat pl) m"
    using drop_take3 [of q m "unat ty" "unat il" "unat pl"] by (simp add: dec_rec_def)
  have plb: "paylen_bytes ?r = (if h AND NDEF_SR_MASK \<noteq> 0 then [ucast pl] else u32_be pl)"
    by (simp add: paylen_bytes_def lens flags of_nat_unat_byte)
  have ilb: "idlen_bytes ?r = (if h AND NDEF_IL_MASK \<noteq> 0 then [il] else [])"
    by (simp add: idlen_bytes_def lens flags)
  have "drop p m = enc_rec (h AND NDEF_MB_MASK \<noteq> 0) (h AND NDEF_ME_MASK \<noteq> 0) ?r
      @ drop (q + unat ty + unat il + unat pl) m"
    unfolding enc_rec_def hdr plb ilb lens drop_rd [OF h] using s(1) d by simp
  then show "take (rec_len ?r) (drop p m) = enc_rec (h AND NDEF_MB_MASK \<noteq> 0) (h AND NDEF_ME_MASK \<noteq> 0) ?r"
    by simp
qed

section \<open>Splitting an encoded message\<close>

lemma enc_from_ne_mb: "enc_from mb rs = [] \<longleftrightarrow> rs = []"
  by (cases rs) auto

lemma enc_from_append:
  "ys \<noteq> [] \<Longrightarrow> enc_from mb (xs @ ys) = enc_pre mb xs @ enc_from (mb \<and> xs = []) ys"
  by (induction mb xs rule: enc_pre.induct) auto

lemma length_enc_from [simp]: "length (enc_from mb rs) = sum_list (map rec_len rs)"
  by (induction mb rs rule: enc_from.induct) auto

lemma length_enc_pre [simp]: "length (enc_pre mb rs) = sum_list (map rec_len rs)"
  by (induction mb rs rule: enc_pre.induct) auto

lemma enc_from_split:
  assumes "i < length rs"
  shows "enc_from mb rs = enc_pre mb (take i rs)
    @ enc_rec (mb \<and> i = 0) (Suc i = length rs) (rs ! i) @ enc_from False (drop (Suc i) rs)"
proof -
  have "rs = take i rs @ rs ! i # drop (Suc i) rs"
    using assms by (simp add: id_take_nth_drop)
  moreover have "(drop (Suc i) rs = []) = (Suc i = length rs)"
    using assms by auto
  moreover have "(take i rs = []) = (i = 0)"
    using assms by auto
  ultimately show ?thesis
    using enc_from_append [of "rs ! i # drop (Suc i) rs" mb "take i rs"] by simp
qed

lemma offset_0 [simp]: "offset rs 0 = 0"
  by (simp add: offset_def)

lemma offset_Suc: "i < length rs \<Longrightarrow> offset rs (Suc i) = offset rs i + rec_len (rs ! i)"
  by (simp add: offset_def take_Suc_conv_app_nth)

lemma offset_length: "offset rs (length rs) = length (enc_msg rs)"
  by (simp add: offset_def enc_msg_def)

text \<open>The message object with the record at index \<open>i\<close> singled out.\<close>

lemma enc_msg_split:
  assumes "i < length rs"
  shows "enc_msg rs @ C = enc_pre True (take i rs)
    @ enc_rec (i = 0) (Suc i = length rs) (rs ! i) @ (enc_from False (drop (Suc i) rs) @ C)"
  using enc_from_split [OF assms, of True] by (simp add: enc_msg_def)

lemma length_enc_pre_offset: "length (enc_pre mb (take i rs)) = offset rs i"
  by (simp add: offset_def)

end
