(* ===== verification/Ndef_Nav.thy ===== *)
theory Ndef_Nav
  imports Ndef_Spec
begin

text \<open>
  As long as no record declares lengths with which the pointer of the code wraps, validation
  computes its function on offsets (\<open>validate_loop_walk\<close>): it accepts exactly the encodings of
  well-formed messages and never reads outside the object. On an encoded message the walking functions compute on offsets what
  the corresponding list functions compute on records.
\<close>

section \<open>Validation on offsets\<close>

text \<open>
  The loop of \<open>NDEF_MsgValidate\<close> without wrap-around: the same checks, with offsets in the message
  for the pointers and no end to the address space. \<open>validate_loop_walk\<close> below shows when the code
  computes this function.
\<close>

definition short_header :: "byte \<Rightarrow> nat \<Rightarrow> nat \<Rightarrow> bool" where
  "short_header rec_hdr p p_end =
     (let p1 = (if rec_hdr AND NDEF_SR_MASK \<noteq> 0 then p + 3 else p + 6) in
      (rec_hdr AND NDEF_SR_MASK = 0 \<and> p_end < p + 2 + 4)
      \<or> (rec_hdr AND NDEF_IL_MASK \<noteq> 0 \<and> p_end < p1 + 1))"

function validate_walk :: "mem \<Rightarrow> nat \<Rightarrow> bool \<Rightarrow> nat \<Rightarrow> nat \<Rightarrow> bool \<Rightarrow> tNDEF_STATUS option" where
  "validate_walk m p_end b_allow_chunks p count bInChunk =
     (if \<not> p < p_end then Some NDEF_MSG_NO_MSG_END
      else if p_end < p + 3 then Some NDEF_MSG_TOO_SHORT
      else case rd m p of None \<Rightarrow> None
      | Some rec_hdr \<Rightarrow>
          if 0 < count \<and> rec_hdr AND NDEF_MB_MASK \<noteq> 0 then Some NDEF_MSG_EXTRA_MSG_BEGIN
          else if short_header rec_hdr p p_end then Some NDEF_MSG_TOO_SHORT
          else case ndef_fields m (p + 1) rec_hdr of None \<Rightarrow> None
          | Some (type_len, payload_len, id_len, q) \<Rightarrow>
              (case chunk_check rec_hdr type_len id_len b_allow_chunks bInChunk of
                 Inl e \<Rightarrow> Some e
               | Inr bInChunk' \<Rightarrow>
                   (case content_check rec_hdr type_len payload_len id_len of
                      Some e \<Rightarrow> Some e
                    | None \<Rightarrow>
                        let p' = q + rec_span type_len payload_len id_len in
                        if rec_hdr AND NDEF_ME_MASK \<noteq> 0
                        then Some (if p' = p_end then NDEF_OK else NDEF_MSG_LENGTH_MISMATCH)
                        else validate_walk m p_end b_allow_chunks p' (count + 1) bInChunk')))"
  by pat_completeness auto
termination
  by (relation "measure (\<lambda>(m, e, a, p, c, b). e - p)") (auto dest!: ndef_fields_advances)

declare validate_walk.simps [simp del]

section \<open>The checks of one record\<close>

lemma of_nat_byte_0: "n < 256 \<Longrightarrow> (of_nat n = (0 :: byte)) = (n = 0)"
  by (auto simp: word_unat_eq_iff unat_of_nat)

lemma chunk_check_Inr:
  "chunk_check h ty il allow ic = Inr ic' \<longleftrightarrow>
     ic' = (h AND NDEF_CF_MASK \<noteq> 0) \<and> (h AND NDEF_CF_MASK \<noteq> 0 \<longrightarrow> allow)
     \<and> (if ic then ty = 0 \<and> il = 0 \<and> h AND NDEF_TNF_MASK = NDEF_TNF_UNCHANGED
        else h AND NDEF_TNF_MASK \<noteq> NDEF_TNF_UNCHANGED)"
  by (auto simp: chunk_check_def Let_def)

lemma content_check_None:
  "content_check h ty pl il = None \<longleftrightarrow>
     (h AND NDEF_TNF_MASK = NDEF_TNF_EMPTY \<longrightarrow> ty = 0 \<and> il = 0 \<and> pl = 0)
     \<and> (h AND NDEF_TNF_MASK = NDEF_TNF_UNKNOWN \<longrightarrow> ty = 0)"
  by (auto simp: content_check_def Let_def)

lemma record_checks:
  assumes "wf_rec r"
  shows "chunk_check (hdr_byte mb me r) (of_nat (length (r_type r))) (of_nat (length (r_id r))) allow ic
      = Inr ic' \<longleftrightarrow> ic' = r_cf r \<and> (r_cf r \<longrightarrow> allow)
        \<and> (if ic then r_type r = [] \<and> r_id r = [] \<and> r_tnf r = NDEF_TNF_UNCHANGED
           else r_tnf r \<noteq> NDEF_TNF_UNCHANGED)"
    and "content_check (hdr_byte mb me r) (of_nat (length (r_type r)))
      (of_nat (length (r_payload r))) (of_nat (length (r_id r))) = None \<longleftrightarrow> content_ok r"
proof -
  have t: "r_tnf r < 8" and l: "length (r_type r) < 256" "length (r_id r) < 256"
    "length (r_payload r) < 4294967296"
    using assms by (auto simp: wf_rec_def)
  then have p0: "(of_nat (length (r_payload r)) = (0 :: u32)) = (r_payload r = [])"
    by (auto simp: word_unat_eq_iff unat_of_nat)
  show "chunk_check (hdr_byte mb me r) (of_nat (length (r_type r))) (of_nat (length (r_id r))) allow ic
      = Inr ic' \<longleftrightarrow> ic' = r_cf r \<and> (r_cf r \<longrightarrow> allow)
        \<and> (if ic then r_type r = [] \<and> r_id r = [] \<and> r_tnf r = NDEF_TNF_UNCHANGED
           else r_tnf r \<noteq> NDEF_TNF_UNCHANGED)"
    by (simp add: chunk_check_Inr hdr_flags [OF t] of_nat_byte_0 l)
  show "content_check (hdr_byte mb me r) (of_nat (length (r_type r)))
      (of_nat (length (r_payload r))) (of_nat (length (r_id r))) = None \<longleftrightarrow> content_ok r"
    by (auto simp: content_check_None content_ok_def hdr_flags [OF t] of_nat_byte_0 l p0)
qed

lemma short_header_enc:
  assumes "wf_rec r" "p + rec_len r \<le> e"
  shows "\<not> short_header (hdr_byte mb me r) p e"
proof -
  have t: "r_tnf r < 8" using assms(1) by (simp add: wf_rec_def)
  show ?thesis
    using assms(2) by (auto simp: short_header_def Let_def hdr_flags [OF t] rec_len_def hdr_len_def)
qed

section \<open>Validation accepts well-formed messages\<close>

lemma validate_walk_enc:
  assumes "rs \<noteq> []" "\<forall>r \<in> set rs. wf_rec r \<and> content_ok r" "chunks_ok allow ic rs" "mb \<longrightarrow> count = 0"
  shows "validate_walk (A @ enc_from mb rs @ C) (length A + length (enc_from mb rs)) allow
    (length A) count ic = Some NDEF_OK"
  using assms
proof (induction rs arbitrary: A mb count ic)
  case Nil
  then show ?case by simp
next
  case (Cons r rs)
  define me where "me = (rs = [])"
  define M where "M = A @ enc_from mb (r # rs) @ C"
  define P where "P = length A"
  define E where "E = P + length (enc_from mb (r # rs))"
  define h where "h = hdr_byte mb me r"
  have wf: "wf_rec r" and t: "r_tnf r < 8" using Cons.prems by (auto simp: wf_rec_def)
  have m: "M = A @ enc_rec mb me r @ (enc_from False rs @ C)" by (simp add: M_def me_def)
  have e: "E = P + rec_len r + length (enc_from False rs)" by (simp add: E_def)
  have len: "P < E" "\<not> E < P + 3" "P + rec_len r \<le> E"
    using rec_len_ge_3 [of r] by (auto simp: e)
  have rd: "rd M P = Some h"
    unfolding m h_def by (rule rd_hdr) (simp add: P_def)
  have f: "ndef_fields M (P + 1) h
      = Some (of_nat (length (r_type r)), of_nat (length (r_payload r)), of_nat (length (r_id r)),
              P + hdr_len r)"
    unfolding m h_def by (rule ndef_fields_enc [OF wf]) (simp add: P_def)
  have cc: "chunk_check h (of_nat (length (r_type r))) (of_nat (length (r_id r))) allow ic
      = Inr (r_cf r)"
    using Cons.prems(3) by (simp add: record_checks [OF wf] h_def)
  have ct: "content_check h (of_nat (length (r_type r))) (of_nat (length (r_payload r)))
      (of_nat (length (r_id r))) = None"
    using Cons.prems(2) by (simp add: record_checks [OF wf] h_def)
  have p': "P + hdr_len r + rec_span (of_nat (length (r_type r)))
      (of_nat (length (r_payload r))) (of_nat (length (r_id r))) = P + rec_len r"
    by (simp add: rec_span_wf [OF wf] rec_len_def)
  have flags: "(h AND NDEF_MB_MASK = 0) = (\<not> mb)" "(h AND NDEF_ME_MASK = 0) = (\<not> me)"
    by (simp_all add: h_def hdr_flags [OF t])
  have IH: "validate_walk M E allow (P + rec_len r) (count + 1) (r_cf r) = Some NDEF_OK" if "\<not> me"
    using Cons.IH [of "r_cf r" False "count + 1" "A @ enc_rec mb me r"] Cons.prems that
    by (simp add: m e P_def me_def add.assoc)
  have fin: "P + rec_len r = E" if me
    using that by (simp add: e me_def)
  have "validate_walk M E allow P count ic = Some NDEF_OK"
    unfolding validate_walk.simps [of M E allow P count ic] rd f option.case prod.case cc sum.case ct
      Let_def p' flags
    using len short_header_enc [OF wf len(3), of mb me] Cons.prems(4) IH fin
    by (cases me) (auto simp: h_def)
  then show ?case by (simp add: M_def E_def P_def)
qed

section \<open>Validation never leaves the object\<close>

lemma ndef_fields_in_bounds:
  assumes "p + 3 \<le> e" "\<not> short_header h p e" "e \<le> length m"
  shows "\<exists>ty pl il q. ndef_fields m (p + 1) h = Some (ty, pl, il, q)"
  using assms
  by (cases "h AND NDEF_SR_MASK = 0"; cases "h AND NDEF_IL_MASK = 0")
    (simp_all add: ndef_fields_def rd_be32_def short_header_def Let_def)

lemma validate_walk_total:
  "e \<le> length m \<Longrightarrow> validate_walk m e allow p count ic \<noteq> None"
proof (induction m e allow p count ic rule: validate_walk.induct)
  case (1 m e allow p count ic)
  show ?case
  proof (cases "p < e \<and> p + 3 \<le> e")
    case False
    then show ?thesis by (subst validate_walk.simps) auto
  next
    case True
    with "1.prems" have rd: "rd m p = Some (m ! p)" by simp
    show ?thesis
    proof (cases "short_header (m ! p) p e")
      case True
      then show ?thesis using rd by (subst validate_walk.simps) auto
    next
      case False
      then obtain ty pl il q where f: "ndef_fields m (p + 1) (m ! p) = Some (ty, pl, il, q)"
        using ndef_fields_in_bounds [of p e "m ! p" m] True "1.prems" by blast
      show ?thesis
        unfolding validate_walk.simps [of m e allow p count ic]
        using rd f "1.IH" [OF _ _ rd _ _ f refl refl refl _ _ refl] "1.prems" True False
        by (auto simp: Let_def split: sum.splits option.splits)
    qed
  qed
qed


section \<open>Validation accepts only well-formed messages\<close>

text \<open>
  The walk over the declared lengths of the first \<open>e\<close> bytes of the message at the address \<open>a\<close>: the
  sum of the lengths of every record met on the way fits in \<open>UINT32\<close>, and the record ends inside the
  address space. Without this the sum or the pointer wraps.
\<close>

function lens_fit :: "u32 \<Rightarrow> mem \<Rightarrow> nat \<Rightarrow> nat \<Rightarrow> bool" where
  "lens_fit a m e p =
     (p < e \<and> p + 3 \<le> e \<longrightarrow>
       (case rd m p of None \<Rightarrow> True
        | Some h \<Rightarrow>
            short_header h p e \<or>
            (case ndef_fields m (p + 1) h of None \<Rightarrow> True
             | Some (ty, pl, il, q) \<Rightarrow>
                 unat a + q + unat pl + unat ty + unat il < 4294967296
                 \<and> (h AND NDEF_ME_MASK \<noteq> 0 \<or> lens_fit a m e (q + rec_span ty pl il)))))"
  by pat_completeness auto
termination
  by (relation "measure (\<lambda>(a, m, e, p). e - p)") (auto dest!: ndef_fields_advances)

declare lens_fit.simps [simp del]

lemma lens_fit_step:
  assumes "lens_fit a m e p" "p < e" "p + 3 \<le> e" "\<not> short_header h p e"
    "rd m p = Some h" "ndef_fields m (p + 1) h = Some (ty, pl, il, q)"
  shows "unat a + q + unat pl + unat ty + unat il < 4294967296"
    and "h AND NDEF_ME_MASK = 0 \<Longrightarrow> lens_fit a m e (q + rec_span ty pl il)"
  using assms unfolding lens_fit.simps [of a m e p] by simp_all

lemma validate_walk_OK_step:
  assumes "validate_walk m e allow p count ic = Some NDEF_OK"
  obtains h ty pl il q where "p < e" "p + 3 \<le> e" "\<not> short_header h p e"
    "rd m p = Some h" "ndef_fields m (p + 1) h = Some (ty, pl, il, q)"
    "0 < count \<longrightarrow> h AND NDEF_MB_MASK = 0"
    "chunk_check h ty il allow ic = Inr (h AND NDEF_CF_MASK \<noteq> 0)"
    "content_check h ty pl il = None"
    "h AND NDEF_ME_MASK \<noteq> 0 \<longrightarrow> q + rec_span ty pl il = e"
    "h AND NDEF_ME_MASK = 0 \<longrightarrow>
       validate_walk m e allow (q + rec_span ty pl il) (count + 1) (h AND NDEF_CF_MASK \<noteq> 0) = Some NDEF_OK"
proof -
  have v: "p < e" "\<not> e < p + 3" "rd m p \<noteq> None"
    using assms by (subst (asm) validate_walk.simps; auto split: if_splits option.splits)+
  then obtain h where h: "rd m p = Some h" by blast
  have mb: "0 < count \<longrightarrow> h AND NDEF_MB_MASK = 0" and sh: "\<not> short_header h p e"
    and nf: "ndef_fields m (p + 1) h \<noteq> None"
    using assms v h by (subst (asm) validate_walk.simps; auto split: if_splits option.splits)+
  then obtain ty pl il q where f: "ndef_fields m (p + 1) h = Some (ty, pl, il, q)"
    by (metis not_None_eq prod_cases4)
  have "(case chunk_check h ty il allow ic of Inl st \<Rightarrow> Some st
      | Inr ic' \<Rightarrow> (case content_check h ty pl il of Some st \<Rightarrow> Some st
         | None \<Rightarrow> let p' = q + rec_span ty pl il in
             if h AND NDEF_ME_MASK \<noteq> 0
             then Some (if p' = e then NDEF_OK else NDEF_MSG_LENGTH_MISMATCH)
             else validate_walk m e allow p' (count + 1) ic')) = Some NDEF_OK"
    using assms unfolding validate_walk.simps [of m e allow p count ic] h option.case f prod.case
    using v mb sh by auto
  then obtain ic' where cc: "chunk_check h ty il allow ic = Inr ic'"
    and ct: "content_check h ty pl il = None"
    and "h AND NDEF_ME_MASK \<noteq> 0 \<Longrightarrow> q + rec_span ty pl il = e"
    "h AND NDEF_ME_MASK = 0 \<Longrightarrow>
       validate_walk m e allow (q + rec_span ty pl il) (count + 1) ic' = Some NDEF_OK"
    by (cases "chunk_check h ty il allow ic"; cases "content_check h ty pl il")
      (auto simp: chunk_check_def content_check_def Let_def split: if_splits)
  moreover from cc have "ic' = (h AND NDEF_CF_MASK \<noteq> 0)" by (simp add: chunk_check_Inr)
  ultimately show thesis using that [OF _ _ sh h f mb] v by simp
qed

lemma validate_walk_sound:
  assumes "validate_walk m e allow p count ic = Some NDEF_OK" "lens_fit a m e p" "e \<le> length m"
  shows "\<exists>rs. rs \<noteq> [] \<and> (\<forall>r \<in> set rs. wf_rec r \<and> content_ok r) \<and> chunks_ok allow ic rs
    \<and> p + length (enc_from (m ! p AND NDEF_MB_MASK \<noteq> 0) rs) = e
    \<and> take (e - p) (drop p m) = enc_from (m ! p AND NDEF_MB_MASK \<noteq> 0) rs"
  using assms
proof (induction "length m - p" arbitrary: p count ic rule: less_induct)
  case less
  from less.prems(1) obtain h ty pl il q where
    pe: "p < e" "p + 3 \<le> e" "\<not> short_header h p e"
    and h: "rd m p = Some h" and f: "ndef_fields m (p + 1) h = Some (ty, pl, il, q)"
    and cc: "chunk_check h ty il allow ic = Inr (h AND NDEF_CF_MASK \<noteq> 0)"
    and ct: "content_check h ty pl il = None"
    and last': "h AND NDEF_ME_MASK \<noteq> 0 \<longrightarrow> q + rec_span ty pl il = e"
    and more': "h AND NDEF_ME_MASK = 0 \<longrightarrow>
      validate_walk m e allow (q + rec_span ty pl il) (count + 1) (h AND NDEF_CF_MASK \<noteq> 0) = Some NDEF_OK"
    by (rule validate_walk_OK_step)
  note last = last' [rule_format] and more = more' [rule_format]
  have hp: "p < length m" "m ! p = h" using h by (auto simp: rd_Some_iff)
  note nf = lens_fit_step [OF less.prems(2) pe h f]
  have fit: "unat pl + unat ty + unat il < 4294967296" using nf(1) by simp
  have span: "rec_span ty pl il = unat pl + unat ty + unat il"
    using fit by (simp add: rec_span_def unat_word_ariths)
  let ?r = "dec_rec m h ty pl il q"
  have qe: "q + rec_span ty pl il \<le> e"
  proof (cases "h AND NDEF_ME_MASK = 0")
    case True
    then show ?thesis using more by (subst (asm) validate_walk.simps) (auto split: if_splits)
  qed (use last in simp)
  then have ql: "q + unat ty + unat il + unat pl \<le> length m"
    using span less.prems(3) by simp
  note d = dec_rec_enc [OF h f fit ql]
  have fields: "of_nat (length (r_type ?r)) = ty" "of_nat (length (r_id ?r)) = il"
    "of_nat (length (r_payload ?r)) = pl" "r_cf ?r = (h AND NDEF_CF_MASK \<noteq> 0)"
    using ql by (simp_all add: dec_rec_def)
  have content: "content_ok ?r" and chunk: "chunks_ok allow ic [?r]"
    using record_checks [OF d(1), of "h AND NDEF_MB_MASK \<noteq> 0" "h AND NDEF_ME_MASK \<noteq> 0"] cc ct
    unfolding fields d(2) by (simp_all add: fields(4))
  show ?case
  proof (cases "h AND NDEF_ME_MASK = 0")
    case False
    with last d have e: "e = p + rec_len ?r" by simp
    then show ?thesis
      using d content chunk hp False by (intro exI [of _ "[?r]"]) simp
  next
    case True
    let ?p = "q + rec_span ty pl il"
    have pp: "?p = p + rec_len ?r" by (rule d(4))
    with rec_len_ge_3 [of ?r] hp have "length m - ?p < length m - p" by simp
    from less.hyps [OF this more [OF True] nf(2) [OF True] less.prems(3)] obtain rs where
      rs: "rs \<noteq> []" "\<forall>r \<in> set rs. wf_rec r \<and> content_ok r"
      "chunks_ok allow (h AND NDEF_CF_MASK \<noteq> 0) rs"
      "?p + length (enc_from (m ! ?p AND NDEF_MB_MASK \<noteq> 0) rs) = e"
      "take (e - ?p) (drop ?p m) = enc_from (m ! ?p AND NDEF_MB_MASK \<noteq> 0) rs" by blast
    have "\<not> m ! ?p AND NDEF_MB_MASK \<noteq> 0"
      using more [OF True] by (rule validate_walk_OK_step) (auto simp: rd_Some_iff)
    with rs have rs': "?p + length (enc_from False rs) = e" "take (e - ?p) (drop ?p m) = enc_from False rs"
      by simp_all
    have "take (e - p) (drop p m) = take (rec_len ?r) (drop p m) @ take (e - ?p) (drop ?p m)"
    proof -
      have "e - p = rec_len ?r + (e - ?p)" using qe pp by simp
      then show ?thesis by (simp add: take_add pp add.commute)
    qed
    then show ?thesis
      using d(1-3) content chunk hp True rs rs' pp
      by (intro exI [of _ "?r # rs"]) (simp add: fields(4))
  qed
qed

section \<open>The code's pointers and the offsets\<close>

text \<open>
  \<open>placed a m\<close>: the object \<open>m\<close> at the address \<open>a\<close> ends before the last three bytes of the address
  space, so that the sums \<open>p_rec + 3\<close> and \<open>p_rec + 4\<close> which the code compares with \<open>p_end\<close> do not
  wrap while \<open>p_rec\<close> is in the message. On such an object, and as long as the declared lengths fit,
  the loop of the code is the loop on offsets.
\<close>

definition placed :: "u32 \<Rightarrow> mem \<Rightarrow> bool" where
  "placed a m \<longleftrightarrow> unat a + length m + 3 < 4294967296"

lemma unat_at: "unat (a :: u32) + n < 4294967296 \<Longrightarrow> unat (a + of_nat n) = unat a + n"
  by (simp add: unat_word_ariths unat_of_nat)

lemma validate_fields_offsets:
  assumes "unat a + e + 3 < 4294967296" "p + 3 \<le> e" "e \<le> length m"
  shows "validate_fields m (a + of_nat e) (a + of_nat p) p h =
    (if short_header h p e then Some (Inl NDEF_MSG_TOO_SHORT)
     else case ndef_fields m (p + 1) h of None \<Rightarrow> None
       | Some (ty, pl, il, q) \<Rightarrow> Some (Inr (ty, pl, il, q - p)))"
proof -
  have sr: "a + of_nat e < a + of_nat p + 2 + 4 \<longleftrightarrow> e < p + 6"
    using unat_at [of a e] unat_at [of a "p + 6"] assms
    by (simp add: word_less_nat_alt add.assoc)
  have il3: "a + of_nat e < a + of_nat p + of_nat 3 + 1 \<longleftrightarrow> e < p + 4"
    using unat_at [of a e] unat_at [of a "p + 4"] assms
    by (simp add: word_less_nat_alt add.assoc)
  have il6: "a + of_nat e < a + of_nat p + of_nat 6 + 1 \<longleftrightarrow> e < p + 7" if "p + 6 \<le> e"
    using unat_at [of a e] unat_at [of a "p + 7"] assms that
    by (simp add: word_less_nat_alt add.assoc)
  show ?thesis
    using assms sr il3 il6
    by (cases "h AND NDEF_SR_MASK = 0"; cases "h AND NDEF_IL_MASK = 0")
      (auto simp: validate_fields_def ndef_fields_def short_header_def Let_def rd_be32_def rd_Some_iff
        numeral_3_eq_3 add.commute [of 6 p])
qed

lemma validate_rec_offsets:
  assumes s: "unat a + e + 3 < 4294967296" and e: "e \<le> length m" and p: "p < e"
  shows "validate_rec a m (a + of_nat e) allow (a + of_nat p) count ic =
    (if e < p + 3 then Some (Inl NDEF_MSG_TOO_SHORT)
     else if 0 < count \<and> m ! p AND NDEF_MB_MASK \<noteq> 0 then Some (Inl NDEF_MSG_EXTRA_MSG_BEGIN)
     else if short_header (m ! p) p e then Some (Inl NDEF_MSG_TOO_SHORT)
     else case ndef_fields m (p + 1) (m ! p) of None \<Rightarrow> None
       | Some (ty, pl, il, q) \<Rightarrow>
           (case chunk_check (m ! p) ty il allow ic of Inl st \<Rightarrow> Some (Inl st)
            | Inr ic' \<Rightarrow> (case content_check (m ! p) ty pl il of Some st \<Rightarrow> Some (Inl st)
               | None \<Rightarrow>
                   let p_rec' = a + of_nat q + (pl + ucast ty + ucast il) in
                   if m ! p AND NDEF_ME_MASK \<noteq> 0
                   then Some (Inl (if p_rec' = a + of_nat e then NDEF_OK else NDEF_MSG_LENGTH_MISMATCH))
                   else Some (Inr (p_rec', ic')))))"
proof -
  have ap: "unat (a + of_nat p) = unat a + p" using s p by (intro unat_at) simp
  have off': "unat (a + of_nat p - a) = p" and off: "unat (of_nat p :: u32) = p"
    using s p by (simp_all add: unat_of_nat)
  have sh: "a + of_nat e < a + of_nat p + 3 \<longleftrightarrow> e < p + 3"
    using unat_at [of a e] unat_at [of a "p + 3"] s p
    by (simp add: word_less_nat_alt add.assoc)
  have rd: "rd m p = Some (m ! p)" using p e by simp
  have q: "a + of_nat p + of_nat (q - p) = a + of_nat q" if "ndef_fields m (Suc p) h = Some (ty, pl, il, q)"
    for h ty pl il q
    using ndef_fields_advances [OF that] by (simp add: of_nat_diff less_imp_le)
  show ?thesis
  proof (cases "e < p + 3")
    case True
    then show ?thesis by (simp add: validate_rec_def sh)
  next
    case False
    then have vf: "validate_fields m (a + of_nat e) (a + of_nat p) p h =
      (if short_header h p e then Some (Inl NDEF_MSG_TOO_SHORT)
       else case ndef_fields m (p + 1) h of None \<Rightarrow> None
         | Some (ty, pl, il, q) \<Rightarrow> Some (Inr (ty, pl, il, q - p)))" for h
      using s e by (intro validate_fields_offsets) simp_all
    show ?thesis
    proof (cases "ndef_fields m (p + 1) (m ! p)")
      case None
      then show ?thesis using False by (simp add: validate_rec_def sh off rd vf)
    next
      case (Some f)
      then obtain ty pl il q where f: "ndef_fields m (p + 1) (m ! p) = Some (ty, pl, il, q)"
        by (cases f) auto
      then have nx: "a + of_nat p + of_nat (q - p) = a + of_nat q"
        using q by simp
      show ?thesis
        using False
        unfolding validate_rec_def Let_def sh off' rd vf f Option.bind.simps option.case prod.case
          if_False if_True
        by (cases "0 < count \<and> m ! p AND NDEF_MB_MASK \<noteq> 0"; cases "short_header (m ! p) p e")
          (simp_all only: if_False if_True simp_thms Option.bind.simps option.case prod.case sum.case nx)
    qed
  qed
qed

lemma validate_loop_walk:
  assumes "placed a m" "e \<le> length m" "lens_fit a m e p" "unat a + p < 4294967296"
  shows "validate_loop a m (a + of_nat e) allow (a + of_nat p) count ic
    = validate_walk m e allow p count ic"
  using assms
proof (induction m e allow p count ic rule: validate_walk.induct)
  case (1 m e allow p count ic)
  have s: "unat a + e + 3 < 4294967296" using "1.prems" by (simp add: placed_def)
  have lt: "a + of_nat p < a + of_nat e \<longleftrightarrow> p < e"
    using unat_at [of a p] unat_at [of a e] s "1.prems"(4) by (simp add: word_less_nat_alt)
  show ?case
  proof (cases "p < e \<and> p + 3 \<le> e \<and> \<not> short_header (m ! p) p e
      \<and> \<not> (0 < count \<and> m ! p AND NDEF_MB_MASK \<noteq> 0)")
    case False
    then show ?thesis
      using lt "1.prems"(2)
      by (auto simp: validate_loop.simps [of a m "a + of_nat e"] validate_walk.simps [of m e allow p]
          validate_rec_offsets [OF s "1.prems"(2)])
  next
    case True
    then have p: "p < e" "p + 3 \<le> e" "\<not> short_header (m ! p) p e" by auto
    have rd: "rd m p = Some (m ! p)" using p "1.prems"(2) by simp
    obtain ty pl il q where f: "ndef_fields m (p + 1) (m ! p) = Some (ty, pl, il, q)"
      using ndef_fields_in_bounds [OF p(2,3) "1.prems"(2)] by blast
    note fit = lens_fit_step [OF "1.prems"(3) p rd f]
    have span: "unat (pl + ucast ty + ucast il) = unat pl + unat ty + unat il"
      "rec_span ty pl il = unat pl + unat ty + unat il"
      using fit(1) by (simp_all add: unat_word_ariths rec_span_def)
    have nx: "a + of_nat q + (pl + ucast ty + ucast il) = a + of_nat (q + rec_span ty pl il)"
      by (simp add: rec_span_def)
    have eq: "a + of_nat (q + rec_span ty pl il) = a + of_nat e \<longleftrightarrow> q + rec_span ty pl il = e"
      using unat_at [of a "q + rec_span ty pl il"] unat_at [of a e] s fit(1) span
      by (auto simp: word_unat_eq_iff)
    have guard: "\<not> e < p + 3" "\<not> (0 < count \<and> m ! p AND NDEF_MB_MASK \<noteq> 0)" using True by auto
    have walk: "validate_walk m e allow p count ic =
      (case chunk_check (m ! p) ty il allow ic of Inl st \<Rightarrow> Some st
       | Inr ic' \<Rightarrow> (case content_check (m ! p) ty pl il of Some st \<Rightarrow> Some st
          | None \<Rightarrow>
              if m ! p AND NDEF_ME_MASK \<noteq> 0
              then Some (if q + rec_span ty pl il = e then NDEF_OK else NDEF_MSG_LENGTH_MISMATCH)
              else validate_walk m e allow (q + rec_span ty pl il) (count + 1) ic'))"
      unfolding validate_walk.simps [of m e allow p] rd option.case f prod.case Let_def
      by (simp only: guard p if_False not_True_eq_False)
    have loop: "validate_loop a m (a + of_nat e) allow (a + of_nat p) count ic =
      (case chunk_check (m ! p) ty il allow ic of Inl st \<Rightarrow> Some st
       | Inr ic' \<Rightarrow> (case content_check (m ! p) ty pl il of Some st \<Rightarrow> Some st
          | None \<Rightarrow>
              if m ! p AND NDEF_ME_MASK \<noteq> 0
              then Some (if q + rec_span ty pl il = e then NDEF_OK else NDEF_MSG_LENGTH_MISMATCH)
              else validate_loop a m (a + of_nat e) allow (a + of_nat (q + rec_span ty pl il))
                (count + 1) ic'))"
    proof -
      have "validate_rec a m (a + of_nat e) allow (a + of_nat p) count ic =
        (case chunk_check (m ! p) ty il allow ic of Inl st \<Rightarrow> Some (Inl st)
         | Inr ic' \<Rightarrow> (case content_check (m ! p) ty pl il of Some st \<Rightarrow> Some (Inl st)
            | None \<Rightarrow>
                if m ! p AND NDEF_ME_MASK \<noteq> 0
                then Some (Inl (if q + rec_span ty pl il = e then NDEF_OK else NDEF_MSG_LENGTH_MISMATCH))
                else Some (Inr (a + of_nat (q + rec_span ty pl il), ic'))))"
        unfolding validate_rec_offsets [OF s "1.prems"(2) p(1)] f option.case prod.case nx Let_def eq
        by (simp only: guard p if_False not_True_eq_False)
      then show ?thesis
        unfolding validate_loop.simps [of a m "a + of_nat e" allow "a + of_nat p"] lt
        using p(1) by (cases "chunk_check (m ! p) ty il allow ic"; cases "content_check (m ! p) ty pl il";
            cases "m ! p AND NDEF_ME_MASK = 0") simp_all
    qed
    show ?thesis
    proof (cases "chunk_check (m ! p) ty il allow ic")
      case (Inr ic')
      show ?thesis
      proof (cases "content_check (m ! p) ty pl il = None \<and> m ! p AND NDEF_ME_MASK = 0")
        case True
        then have "validate_loop a m (a + of_nat e) allow (a + of_nat (q + rec_span ty pl il)) (count + 1) ic'
          = validate_walk m e allow (q + rec_span ty pl il) (count + 1) ic'"
          using "1.IH" [OF _ _ rd _ _ f refl refl refl Inr _ refl _ "1.prems"(1,2) fit(2)]
            p guard fit(1) span(2) by simp
        then show ?thesis unfolding walk loop Inr by (simp split: option.split)
      qed (auto simp: walk loop Inr split: option.split)
    qed (simp add: walk loop)
  qed
qed

text \<open>On the encoding of well-formed records every length fits.\<close>

lemma lens_fit_enc:
  assumes "\<forall>r \<in> set rs. wf_rec r" "unat a + (length A + length (enc_from mb rs)) < 4294967296"
  shows "lens_fit a (A @ enc_from mb rs @ C) (length A + length (enc_from mb rs)) (length A)"
  using assms
proof (induction rs arbitrary: A mb)
  case Nil
  then show ?case by (subst lens_fit.simps) simp
next
  case (Cons r rs)
  define me where "me = (rs = [])"
  define M where "M = A @ enc_from mb (r # rs) @ C"
  define P where "P = length A"
  define E where "E = P + length (enc_from mb (r # rs))"
  have wf: "wf_rec r" and t: "r_tnf r < 8" using Cons.prems by (auto simp: wf_rec_def)
  have m: "M = A @ enc_rec mb me r @ (enc_from False rs @ C)" by (simp add: M_def me_def)
  have e: "E = P + rec_len r + length (enc_from False rs)" by (simp add: E_def)
  have rd: "rd M P = Some (hdr_byte mb me r)"
    unfolding m by (rule rd_hdr) (simp add: P_def)
  have f: "ndef_fields M (P + 1) (hdr_byte mb me r)
      = Some (of_nat (length (r_type r)), of_nat (length (r_payload r)), of_nat (length (r_id r)),
              P + hdr_len r)"
    unfolding m by (rule ndef_fields_enc [OF wf]) (simp add: P_def)
  have p': "P + hdr_len r + rec_span (of_nat (length (r_type r)))
      (of_nat (length (r_payload r))) (of_nat (length (r_id r))) = P + rec_len r"
    by (simp add: rec_span_wf [OF wf] rec_len_def)
  have IH: "lens_fit a M E (P + rec_len r)"
    using Cons.IH [of "A @ enc_rec mb me r" False] Cons.prems
    by (simp add: m e P_def me_def add.assoc)
  have lens: "unat (of_nat (length (r_payload r)) :: u32) = length (r_payload r)"
    "unat (of_nat (length (r_type r)) :: byte) = length (r_type r)"
    "unat (of_nat (length (r_id r)) :: byte) = length (r_id r)"
    using wf by (simp_all add: wf_rec_def unat_of_nat)
  have fit: "unat a + (P + hdr_len r) + length (r_payload r) + length (r_type r) + length (r_id r)
      < 4294967296"
    using Cons.prems(2) e by (simp add: E_def P_def rec_len_def)
  have "lens_fit a M E P"
    unfolding lens_fit.simps [of a M E P] rd f option.case prod.case p' lens using fit IH by simp
  then show ?case by (simp add: M_def E_def P_def)
qed


section \<open>Walking an encoded message\<close>

lemma hdr_span: "wf_rec r \<Longrightarrow> p + hdr_len r + rec_span (of_nat (length (r_type r)))
    (of_nat (length (r_payload r))) (of_nat (length (r_id r))) = p + rec_len r"
  by (simp add: rec_span_wf rec_len_def)

lemmas ndef_fields_enc_Suc = ndef_fields_enc [unfolded Suc_eq_plus1 [symmetric]]

lemma wf_rec_tnf [simp]: "wf_rec r \<Longrightarrow> r_tnf r < 8"
  by (simp add: wf_rec_def)

lemmas walk_simps = rd_hdr ndef_fields_enc_Suc hdr_span hdr_flags

lemma num_recs_loop_enc:
  assumes "rs \<noteq> []" "\<forall>r \<in> set rs. wf_rec r"
  shows "num_recs_loop (A @ enc_from mb rs @ C) (length A) c = Some (c + int (length rs))"
  using assms
proof (induction rs arbitrary: A mb c)
  case (Cons r rs)
  then show ?case
    using Cons.IH [of "A @ enc_rec mb (rs = []) r" False "c + 1"]
    by (subst num_recs_loop.simps) (simp add: walk_simps)
qed simp

lemma rec_by_index_loop_enc:
  assumes "rs \<noteq> []" "\<forall>r \<in> set rs. wf_rec r"
  shows "rec_by_index_loop (A @ enc_from mb rs @ C) (length A) c i
    = Some (if c \<le> i \<and> i < c + int (length rs) then Some (length A + offset rs (nat (i - c))) else None)"
  using assms
proof (induction rs arbitrary: A mb c)
  case (Cons r rs)
  have o: "offset (r # rs) (nat (i - c)) = rec_len r + offset rs (nat (i - (c + 1)))" if "c < i"
  proof -
    have "nat (i - c) = Suc (nat (i - (c + 1)))" using that by simp
    then show ?thesis by (simp add: offset_def)
  qed
  show ?case
  proof (cases "rs = []")
    case True
    with Cons.prems show ?thesis
      by (subst rec_by_index_loop.simps) (auto simp: walk_simps)
  next
    case False
    with Cons.prems Cons.IH [of "A @ enc_rec mb False r" False "c + 1"] show ?thesis
      by (subst rec_by_index_loop.simps) (auto simp: walk_simps o)
  qed
qed simp

lemma last_rec_loop_enc:
  assumes "rs \<noteq> []" "\<forall>r \<in> set rs. wf_rec r"
  shows "last_rec_loop (A @ enc_from mb rs @ C) (length A)
    = Some (Some (length A + offset rs (length rs - 1)))"
  using assms
proof (induction rs arbitrary: A mb)
  case (Cons r rs)
  have o: "offset (r # rs) (length rs) = rec_len r + offset rs (length rs - 1)" if "rs \<noteq> []"
    using that by (cases rs) (simp_all add: offset_def)
  from Cons show ?case
    using Cons.IH [of "A @ enc_rec mb False r" False]
    by (subst last_rec_loop.simps) (auto simp: walk_simps o)
qed simp

lemma NDEF_MsgGetNextRec_enc:
  assumes "i < length rs" "\<forall>r \<in> set rs. wf_rec r"
  shows "NDEF_MsgGetNextRec (enc_msg rs @ C) (offset rs i)
    = Some (if Suc i < length rs then Some (offset rs (Suc i)) else None)"
proof -
  have wf: "wf_rec (rs ! i)" using assms by simp
  note at = length_enc_pre_offset [of True i rs, symmetric]
  show ?thesis
    unfolding NDEF_MsgGetNextRec_def enc_msg_split [OF assms(1)] rd_hdr [OF at]
    using wf assms(1) by (simp add: ndef_fields_enc [OF wf at, simplified] hdr_flags hdr_span offset_Suc)
qed

text \<open>The offset of the first record that satisfies a predicate.\<close>

fun first_off :: "(ndef_rec \<Rightarrow> bool) \<Rightarrow> nat \<Rightarrow> ndef_rec list \<Rightarrow> ptr" where
  "first_off P p [] = None"
| "first_off P p (r # rs) = (if P r then Some p else first_off P (p + rec_len r) rs)"

lemma memcmp_eq_mid:
  "length A = p \<Longrightarrow> length B = n \<Longrightarrow> memcmp_eq (A @ B @ C) p s n = (if n \<le> length s then Some (B = take n s) else None)"
  by (simp add: memcmp_eq_def rd_bytes_mid) (simp add: rd_bytes_def)

lemma type_match_enc:
  assumes "wf_rec r" "P = length A" "length ty = unat tlen"
  shows "type_match (A @ enc_rec mb me r @ C) (P + hdr_len r) (hdr_byte mb me r)
      (of_nat (length (r_type r))) tnf ty tlen = Some (r_tnf r = tnf \<and> r_type r = ty)"
proof -
  have "(of_nat (length (r_type r)) = tlen) = (length (r_type r) = length ty)"
    using assms(3) wf_rec_small(1) [OF assms(1)] by (simp add: word_unat_eq_iff)
  moreover have "memcmp_eq (A @ enc_rec mb me r @ C) (P + hdr_len r) ty (unat tlen) = Some (r_type r = ty)"
    if "length (r_type r) = length ty"
  proof -
    let ?H = "A @ hdr_byte mb me r # of_nat (length (r_type r)) # paylen_bytes r @ idlen_bytes r"
    have "A @ enc_rec mb me r @ C = ?H @ r_type r @ (r_id r @ r_payload r @ C)"
      by (simp add: enc_rec_def)
    moreover have "length ?H = P + hdr_len r"
      using assms(2) by (simp add: hdr_len_def)
    ultimately show ?thesis
      using that assms(3) by (simp only: memcmp_eq_mid) simp
  qed
  ultimately show ?thesis
    using assms(1) by (auto simp: type_match_def hdr_flags)
qed

lemma first_by_type_loop_enc:
  assumes "rs \<noteq> []" "\<forall>r \<in> set rs. wf_rec r" "length ty = unat tlen"
  shows "first_by_type_loop (A @ enc_from mb rs @ C) (length A) tnf ty tlen
    = Some (first_off (\<lambda>r. r_tnf r = tnf \<and> r_type r = ty) (length A) rs)"
  using assms
proof (induction rs arbitrary: A mb)
  case (Cons r rs)
  then show ?case
    using Cons.IH [of "A @ enc_rec mb (rs = []) r" False]
    by (subst first_by_type_loop.simps) (auto simp: walk_simps type_match_enc)
qed simp

lemma id_match_enc:
  fixes ilen :: byte
  assumes "wf_rec r" "P = length A" "length s = unat ilen"
  shows "(if of_nat (length (r_id r)) = ilen
      then memcmp_eq (A @ enc_rec mb me r @ C)
        (P + hdr_len r + unat (of_nat (length (r_type r)) :: byte)) s (unat ilen)
      else Some False) = Some (r_id r = s)"
proof -
  have "(of_nat (length (r_id r)) = ilen) = (length (r_id r) = length s)"
    using assms(3) wf_rec_small(2) [OF assms(1)] by (simp add: word_unat_eq_iff)
  moreover have "memcmp_eq (A @ enc_rec mb me r @ C) (P + hdr_len r + length (r_type r)) s (unat ilen)
      = Some (r_id r = s)" if "length (r_id r) = length s"
  proof -
    let ?H = "A @ hdr_byte mb me r # of_nat (length (r_type r)) # paylen_bytes r @ idlen_bytes r @ r_type r"
    have "A @ enc_rec mb me r @ C = ?H @ r_id r @ (r_payload r @ C)"
      by (simp add: enc_rec_def)
    moreover have "length ?H = P + hdr_len r + length (r_type r)"
      using assms(2) by (simp add: hdr_len_def)
    ultimately show ?thesis
      using that assms(3) by (simp only: memcmp_eq_mid) simp
  qed
  ultimately show ?thesis
    using wf_rec_small(1) [OF assms(1)] by auto
qed

lemma first_by_id_loop_enc:
  assumes "rs \<noteq> []" "\<forall>r \<in> set rs. wf_rec r" "length s = unat ilen"
  shows "first_by_id_loop (A @ enc_from mb rs @ C) (length A) s ilen
    = Some (first_off (\<lambda>r. r_id r = s) (length A) rs)"
  using assms
proof (induction rs arbitrary: A mb)
  case (Cons r rs)
  have wf: "wf_rec r" using Cons.prems by simp
  have "unat (ucast (of_nat (length (r_id r)) :: byte) + of_nat (length (r_payload r)) :: u32)
      = length (r_id r) + length (r_payload r)"
    using wf wf_rec_small [OF wf] by (simp add: unat_word_ariths wf_rec_def)
  then have nxt: "p + hdr_len r + unat (of_nat (length (r_type r)) :: byte)
      + unat (ucast (of_nat (length (r_id r)) :: byte) + of_nat (length (r_payload r)) :: u32)
      = p + rec_len r" for p
    using wf_rec_small [OF wf] by (simp add: rec_len_def)
  show ?case
    using Cons.IH [of "A @ enc_rec mb (rs = []) r" False] Cons.prems
      id_match_enc [OF wf refl Cons.prems(3), of A mb "rs = []" "enc_from False rs @ C"]
    unfolding enc_from.simps append_assoc
    by (subst first_by_id_loop.simps)
      (simp add: rd_hdr ndef_fields_enc_Suc split del: if_split, auto simp: hdr_flags nxt)
qed simp

end
