(* ===== verification/Ndef_Build.thy ===== *)
theory Ndef_Build
  imports Ndef_Nav
begin

text \<open>
  The operations that add, insert, append and remove whole records. Each is shown to implement
  the list operation on the records of the message: \<open>holds m cur rs\<close> says that the first \<open>cur\<close>
  bytes of the object are the encoding of \<open>rs\<close>.
\<close>

section \<open>Block writes and block moves\<close>

lemma word_eq_of_natI: "unat (w :: 'a::len word) = n \<Longrightarrow> w = of_nat n"
  by auto

definition blit :: "mem \<Rightarrow> nat \<Rightarrow> byte list \<Rightarrow> mem" where
  "blit m p bs = take p m @ bs @ drop (p + length bs) m"

lemma wr_bytes_blit: "p + length bs \<le> length m \<Longrightarrow> wr_bytes m p bs = Some (blit m p bs)"
  by (simp add: wr_bytes_def blit_def)

lemma wr_blit: "p < length m \<Longrightarrow> wr m p b = Some (blit m p [b])"
  by (simp add: wr_eq_wr_bytes wr_bytes_blit)

lemma length_blit [simp]: "p + length bs \<le> length m \<Longrightarrow> length (blit m p bs) = length m"
  by (simp add: blit_def)

lemma blit_blit:
  "q = p + length xs \<Longrightarrow> p + length xs + length ys \<le> length m \<Longrightarrow>
     blit (blit m p xs) q ys = blit m p (xs @ ys)"
  by (cases xs) (auto simp: blit_def min_def add_ac)

lemma upd_byte_blit:
  "p < length m \<Longrightarrow> upd_byte (blit m p [b]) p f = Some (blit m p [f b])"
  by (simp add: blit_def upd_byte_mid)

lemma blit_Nil: "p \<le> length m \<Longrightarrow> blit m p [] = m"
  by (simp add: blit_def)

lemma blit_mid: "length A = p \<Longrightarrow> length B = length bs \<Longrightarrow> blit (A @ B @ C) p bs = A @ bs @ C"
  by (simp add: blit_def)

text \<open>\<open>src_holds src bs\<close>: the source argument supplies the bytes \<open>bs\<close>; NULL supplies none.\<close>

definition src_holds :: "byte list option \<Rightarrow> byte list \<Rightarrow> bool" where
  "src_holds src bs = (case src of None \<Rightarrow> bs = [] | Some xs \<Rightarrow> take (length bs) xs = bs)"

lemma memcpy_opt_blit:
  assumes "src_holds src bs" "n = length bs" "p + length bs \<le> length m"
  shows "memcpy_opt m p src n = Some (blit m p bs)"
proof (cases src)
  case None
  then show ?thesis using assms by (simp add: memcpy_opt_def src_holds_def blit_Nil)
next
  case (Some xs)
  then have t: "take (length bs) xs = bs" using assms by (simp add: src_holds_def)
  then have "length bs \<le> length xs" by (metis length_take min.cobounded1)
  then show ?thesis using assms Some t by (simp add: memcpy_opt_def wr_bytes_blit)
qed

lemma shiftdown_eq:
  "p + n + amt \<le> length m \<Longrightarrow>
     shiftdown m p n amt = Some (take (p + amt) m @ take n (drop p m) @ drop (p + n + amt) m)"
proof (induction n arbitrary: m)
  case 0
  then show ?case by simp
next
  case (Suc n)
  let ?m = "m[p + n + amt := m ! (p + n)]"
  have "shiftdown m p (Suc n) amt = shiftdown ?m p n amt"
    using Suc.prems by (simp add: rd_def wr_def)
  also have "\<dots> = Some (take (p + amt) ?m @ take n (drop p ?m) @ drop (p + n + amt) ?m)"
    using Suc.prems by (intro Suc.IH) simp
  also have "take (p + amt) ?m = take (p + amt) m" by simp
  also have "take n (drop p ?m) = take n (drop p m)"
    using Suc.prems by (simp add: drop_update_swap)
  also have "drop (p + n + amt) ?m = m ! (p + n) # drop (p + Suc n + amt) m"
    using Suc.prems by (simp add: drop_update_swap Cons_nth_drop_Suc [symmetric])
  also have "take n (drop p m) @ m ! (p + n) # drop (p + Suc n + amt) m
      = take (Suc n) (drop p m) @ drop (p + Suc n + amt) m"
    using Suc.prems by (simp add: take_Suc_conv_app_nth)
  finally show ?case .
qed

lemma shiftup_eq:
  "pd \<le> ps \<Longrightarrow> ps + n \<le> length m \<Longrightarrow>
     shiftup m pd ps n = Some (take pd m @ take n (drop ps m) @ drop (pd + n) m)"
proof (induction n arbitrary: m pd ps)
  case 0
  then show ?case by simp
next
  case (Suc n)
  let ?m = "m[pd := m ! ps]"
  have "shiftup m pd ps (Suc n) = shiftup ?m (Suc pd) (Suc ps) n"
    using Suc.prems by (simp add: rd_def wr_def)
  also have "\<dots> = Some (take (Suc pd) ?m @ take n (drop (Suc ps) ?m) @ drop (Suc pd + n) ?m)"
    using Suc.prems by (intro Suc.IH) simp_all
  also have "take (Suc pd) ?m = take pd m @ [m ! ps]"
    using Suc.prems by (simp add: take_Suc_conv_app_nth)
  also have "drop (Suc ps) ?m = drop (Suc ps) m"
    using Suc.prems by simp
  also have "drop (Suc pd + n) ?m = drop (pd + Suc n) m" by simp
  also have "(take pd m @ [m ! ps]) @ take n (drop (Suc ps) m) @ drop (pd + Suc n) m
      = take pd m @ take (Suc n) (drop ps m) @ drop (pd + Suc n) m"
    using Suc.prems by (simp add: Cons_nth_drop_Suc [symmetric])
  finally show ?case .
qed

lemma shiftdown_block:
  assumes "length A = p" "length B = n" "length S = amt"
  shows "shiftdown (A @ B @ S @ C) p n amt = Some (A @ take amt (B @ S) @ B @ C)"
  using assms by (subst shiftdown_eq) auto

lemma shiftup_block:
  assumes "length A = p" "q = p + length G" "length B = n"
  shows "shiftup (A @ G @ B @ C) p q n = Some (A @ B @ drop n (G @ B) @ C)"
  using assms by (subst shiftup_eq) auto

section \<open>Header bytes under MB and ME updates\<close>

lemma hdr_byte_updates:
  assumes "r_tnf r < 8"
  shows "hdr_byte mb me r AND NOT NDEF_ME_MASK = hdr_byte mb False r"
    and "hdr_byte mb me r AND NOT NDEF_MB_MASK = hdr_byte False me r"
    and "hdr_byte mb me r OR NDEF_ME_MASK = hdr_byte mb True r"
    and "hdr_byte mb me r OR NDEF_MB_MASK = hdr_byte True me r"
proof -
  have n: "r_tnf r AND NOT NDEF_ME_MASK = r_tnf r" "r_tnf r AND NOT NDEF_MB_MASK = r_tnf r"
    using tnf_cases [OF assms] by (elim disjE; simp)+
  show "hdr_byte mb me r AND NOT NDEF_ME_MASK = hdr_byte mb False r"
    "hdr_byte mb me r AND NOT NDEF_MB_MASK = hdr_byte False me r"
    unfolding hdr_byte_def bit.conj_disj_distrib2 n flag_and by (simp_all add: flag_def)
  show "hdr_byte mb me r OR NDEF_ME_MASK = hdr_byte mb True r"
    "hdr_byte mb me r OR NDEF_MB_MASK = hdr_byte True me r"
    by (cases mb; cases me; simp add: hdr_byte_def flag_def or.assoc or.left_commute)+
qed


section \<open>The abstraction relation\<close>

definition holds :: "mem \<Rightarrow> u32 \<Rightarrow> ndef_rec list \<Rightarrow> bool" where
  "holds m cur rs \<longleftrightarrow> unat cur \<le> length m \<and> take (unat cur) m = enc_msg rs \<and> (\<forall>r \<in> set rs. wf_rec r)"

lemma holdsD:
  assumes "holds m cur rs"
  shows "m = enc_msg rs @ drop (unat cur) m" "unat cur = length (enc_msg rs)" "\<forall>r \<in> set rs. wf_rec r"
    "unat cur \<le> length m"
proof -
  show "m = enc_msg rs @ drop (unat cur) m"
    using assms by (metis append_take_drop_id holds_def)
  show "unat cur = length (enc_msg rs)" using assms by (metis holds_def length_take min.absorb2)
  show "\<forall>r \<in> set rs. wf_rec r" "unat cur \<le> length m" using assms by (auto simp: holds_def)
qed

lemma holdsI:
  "m = enc_msg rs @ C \<Longrightarrow> unat cur = length (enc_msg rs) \<Longrightarrow> \<forall>r \<in> set rs. wf_rec r \<Longrightarrow> holds m cur rs"
  by (simp add: holds_def)

lemma length_enc_msg: "length (enc_msg rs) = sum_list (map rec_len rs)"
  by (simp add: enc_msg_def)

lemma enc_msg_Nil [simp]: "enc_msg [] = []"
  by (simp add: enc_msg_def)

lemma enc_msg_eq_Nil [simp]: "enc_msg rs = [] \<longleftrightarrow> rs = []"
  by (simp add: enc_msg_def enc_from_ne_mb)

lemma holds_0_iff: "holds m cur rs \<Longrightarrow> (cur = 0) = (rs = [])"
  using holdsD(2) [of m cur rs] by (auto simp: word_unat_eq_iff)

lemma enc_msg_snoc: "enc_msg (rs @ [r]) = enc_pre True rs @ enc_rec (rs = []) True r"
  using enc_from_append [of "[r]" True rs] by (simp add: enc_msg_def)

lemma enc_pre_snoc: "enc_pre mb (rs @ [r]) = enc_pre mb rs @ enc_rec (mb \<and> rs = []) False r"
  by (induction mb rs rule: enc_pre.induct) auto

text \<open>Clearing ME in the last record turns the encoding into the prefix of a longer one.\<close>

lemma clear_last_ME:
  assumes "rs \<noteq> []" "\<forall>r \<in> set rs. wf_rec r"
  shows "upd_byte (enc_msg rs @ C) (offset rs (length rs - 1)) (\<lambda>b. b AND NOT NDEF_ME_MASK)
    = Some (enc_pre True rs @ C)"
proof -
  obtain xs r where rs: "rs = xs @ [r]" using assms(1) by (metis append_butlast_last_id)
  have t: "r_tnf r < 8" using assms(2) by (simp add: rs)
  have o: "offset rs (length rs - 1) = length (enc_pre True xs)"
    by (simp add: rs offset_def)
  have "enc_msg rs @ C = enc_pre True xs @ hdr_byte (xs = []) True r # tl (enc_rec (xs = []) True r) @ C"
    by (simp add: rs enc_msg_snoc enc_rec_def)
  moreover have "tl (enc_rec (xs = []) True r) = tl (enc_rec (xs = []) False r)"
    by (simp add: enc_rec_def)
  ultimately show ?thesis
    unfolding o unfolding rs enc_pre_snoc
    by (simp only: upd_byte_mid hdr_byte_updates [OF t]) (simp add: enc_rec_def)
qed

lemma NDEF_MsgGetLastRecInMsg_enc:
  "rs \<noteq> [] \<Longrightarrow> \<forall>r \<in> set rs. wf_rec r \<Longrightarrow>
     NDEF_MsgGetLastRecInMsg (enc_msg rs @ C) = Some (Some (offset rs (length rs - 1)))"
  using last_rec_loop_enc [of rs "[]" True C] by (simp add: NDEF_MsgGetLastRecInMsg_def enc_msg_def)

lemma NDEF_MsgGetNumRecs_enc:
  "rs \<noteq> [] \<Longrightarrow> \<forall>r \<in> set rs. wf_rec r \<Longrightarrow> NDEF_MsgGetNumRecs (enc_msg rs @ C) = Some (int (length rs))"
  using num_recs_loop_enc [of rs "[]" True C 0] by (simp add: NDEF_MsgGetNumRecs_def enc_msg_def)

lemma NDEF_MsgGetRecByIndex_enc:
  "rs \<noteq> [] \<Longrightarrow> \<forall>r \<in> set rs. wf_rec r \<Longrightarrow>
     NDEF_MsgGetRecByIndex (enc_msg rs @ C) i
       = Some (if 0 \<le> i \<and> i < int (length rs) then Some (offset rs (nat i)) else None)"
  using rec_by_index_loop_enc [of rs "[]" True C 0 i]
  by (simp add: NDEF_MsgGetRecByIndex_def enc_msg_def)

section \<open>Writing one record\<close>

text \<open>The record that the building functions write: short form when the payload allows it.\<close>

definition new_rec :: "byte \<Rightarrow> byte list \<Rightarrow> byte list \<Rightarrow> byte list \<Rightarrow> ndef_rec" where
  "new_rec tnf ty idf pl = \<lparr> r_tnf = tnf, r_cf = False, r_sr = (length pl < 256),
     r_il = (idf \<noteq> []), r_type = ty, r_id = idf, r_payload = pl \<rparr>"

lemma new_rec_sel [simp]:
  "r_tnf (new_rec tnf ty idf pl) = tnf" "r_cf (new_rec tnf ty idf pl) = False"
  "r_sr (new_rec tnf ty idf pl) = (length pl < 256)" "r_il (new_rec tnf ty idf pl) = (idf \<noteq> [])"
  "r_type (new_rec tnf ty idf pl) = ty" "r_id (new_rec tnf ty idf pl) = idf"
  "r_payload (new_rec tnf ty idf pl) = pl"
  by (simp_all add: new_rec_def)

lemma u32_of_nat_less_256:
  "n < 4294967296 \<Longrightarrow> (of_nat n < (256 :: u32)) = (n < 256)"
  by (simp add: word_less_nat_alt unat_of_nat)

lemma rec_size_wf:
  assumes "wf_rec (new_rec tnf ty idf pl)"
    and "rec_len (new_rec tnf ty idf pl) < 4294967296"
  shows "unat (rec_size (of_nat (length ty)) (of_nat (length idf)) (of_nat (length pl)))
    = rec_len (new_rec tnf ty idf pl)"
  using assms wf_rec_small(1-3) [OF assms(1)]
  by (auto simp: rec_size_def unat_word_ariths rec_len_def hdr_len_def wf_rec_def of_nat_byte_0
      u32_of_nat_less_256)

text \<open>A payload argument supplies the bytes \<open>pl\<close>, or is NULL and they already stand where they belong.\<close>

definition supplies :: "byte list option \<Rightarrow> byte list \<Rightarrow> mem \<Rightarrow> nat \<Rightarrow> bool" where
  "supplies src pl m q \<longleftrightarrow> src_holds src pl \<or> (src = None \<and> take (length pl) (drop q m) = pl)"

lemma blit_same: "take (length bs) (drop (p + length H) m) = bs \<Longrightarrow> blit m p (H @ bs) = blit m p H"
proof -
  assume t: "take (length bs) (drop (p + length H) m) = bs"
  have "drop (p + length H) m = take (length bs) (drop (p + length H) m) @ drop (length bs) (drop (p + length H) m)"
    by (simp only: append_take_drop_id)
  then show ?thesis unfolding t by (simp add: blit_def add.commute add.left_commute)
qed

lemma put_record_blit:
  assumes wf: "wf_rec (new_rec tnf ty idf pl)"
    and src: "src_holds p_type ty" "src_holds p_id idf"
    and pay: "supplies p_payload pl m (p + rec_len (new_rec tnf ty idf pl) - length pl)"
    and fit: "p + rec_len (new_rec tnf ty idf pl) \<le> length m"
  shows "put_record (blit m p [h]) p p_type (of_nat (length ty)) p_id (of_nat (length idf))
      p_payload (of_nat (length pl))
    = Some (blit m p ((h OR flag NDEF_SR_MASK (length pl < 256) OR flag NDEF_IL_MASK (idf \<noteq> []))
        # tl (enc_rec mb me (new_rec tnf ty idf pl))))"
proof -
  let ?r = "new_rec tnf ty idf pl"
  have small: "unat (of_nat (length ty) :: byte) = length ty"
    "unat (of_nat (length idf) :: byte) = length idf"
    "unat (of_nat (length pl) :: u32) = length pl"
    "(of_nat (length ty) = (0 :: byte)) = (ty = [])" "(of_nat (length idf) = (0 :: byte)) = (idf = [])"
    "(of_nat (length pl) < (256 :: u32)) = (length pl < 256)"
    "(ucast (of_nat (length pl) :: u32) :: byte) = of_nat (length pl)"
    using wf wf_rec_small(1-3) [OF wf]
    by (simp_all add: wf_rec_def of_nat_byte_0 u32_of_nat_less_256 flip: of_nat_unat_byte)
  note eval = put_record_def small upd_byte_blit wr_blit wr_bytes_blit memcpy_opt_blit blit_blit
        enc_rec_def paylen_bytes_def idlen_bytes_def flag_def rec_len_def hdr_len_def or.assoc
  show ?thesis
  proof (cases "src_holds p_payload pl")
    case True
    then show ?thesis
      using fit src
      by (cases "length pl < 256"; cases "idf = []"; cases "ty = []") (simp_all add: eval)
  next
    case False
    let ?h = "h OR flag NDEF_SR_MASK (length pl < 256) OR flag NDEF_IL_MASK (idf \<noteq> [])"
    let ?H = "?h # of_nat (length ty) # paylen_bytes ?r @ idlen_bytes ?r @ ty @ idf"
    have n: "p_payload = None" "take (length pl) (drop (p + length ?H) m) = pl"
      using False pay by (simp_all add: supplies_def rec_len_def hdr_len_def)
    have "?h # tl (enc_rec mb me ?r) = ?H @ pl" by (simp add: enc_rec_def)
    then have "blit m p (?h # tl (enc_rec mb me ?r)) = blit m p ?H" using blit_same [OF n(2)] by (simp only:)
    moreover have "put_record (blit m p [h]) p p_type (of_nat (length ty)) p_id (of_nat (length idf))
      p_payload (of_nat (length pl)) = Some (blit m p ?H)"
      using fit src n(1)
      by (cases "length pl < 256"; cases "idf = []"; cases "ty = []") (simp_all add: eval memcpy_opt_def [of _ _ None])
    ultimately show ?thesis by (simp only:)
  qed
qed


lemma enc_new_rec:
  assumes "r_tnf r < 8"
  shows "enc_rec mb me r = hdr_byte mb me r # tl (enc_rec mb' me' r)"
  by (simp add: enc_rec_def)

lemma hdr_byte_new_rec:
  "hdr_byte mb me (new_rec tnf ty idf pl)
     = (tnf OR flag NDEF_MB_MASK mb OR flag NDEF_ME_MASK me)
       OR flag NDEF_SR_MASK (length pl < 256) OR flag NDEF_IL_MASK (idf \<noteq> [])"
  by (simp add: hdr_byte_def flag_def or.assoc)

lemma put_new_record:
  assumes wf: "wf_rec (new_rec tnf ty idf pl)"
    and src: "src_holds p_type ty" "src_holds p_id idf"
      "supplies p_payload pl m (p + rec_len (new_rec tnf ty idf pl) - length pl)"
    and fit: "p + rec_len (new_rec tnf ty idf pl) \<le> length m"
  shows "put_record (blit m p [tnf OR flag NDEF_MB_MASK mb OR flag NDEF_ME_MASK me]) p
      p_type (of_nat (length ty)) p_id (of_nat (length idf)) p_payload (of_nat (length pl))
    = Some (blit m p (enc_rec mb me (new_rec tnf ty idf pl)))"
  by (subst put_record_blit [OF assms, of _ mb me])
    (simp only: hdr_byte_new_rec enc_rec_def list.sel)

section \<open>Adding a record\<close>

lemma NDEF_MsgAddRec_supplied:
  assumes h: "holds m cur rs" and wf: "wf_rec (new_rec tnf ty idf pl)"
    and src: "src_holds p_type ty" "src_holds p_id idf"
      "supplies p_payload pl m (unat cur + rec_len (new_rec tnf ty idf pl) - length pl)"
    and fit: "unat cur + rec_len (new_rec tnf ty idf pl) \<le> unat max_size" "unat max_size \<le> length m"
  shows "NDEF_MsgAddRec m max_size cur tnf p_type (of_nat (length ty)) p_id (of_nat (length idf))
      p_payload (of_nat (length pl))
    = Some (NDEF_OK, enc_msg (rs @ [new_rec tnf ty idf pl])
        @ drop (length (enc_msg (rs @ [new_rec tnf ty idf pl]))) m,
        of_nat (length (enc_msg (rs @ [new_rec tnf ty idf pl]))))"
proof -
  let ?r = "new_rec tnf ty idf pl"
  let ?n = "rec_size (of_nat (length ty)) (of_nat (length idf)) (of_nat (length pl))"
  note D = holdsD [OF h]
  have t: "\<not> NDEF_TNF_RESERVED < tnf"
    using wf by (auto simp: wf_rec_def word_less_nat_alt)
  have rl: "rec_len ?r < 4294967296" using fit unat_u32_less [of max_size] by simp
  note n = rec_size_wf [OF wf rl]
  have sum: "unat (cur + ?n) = unat cur + rec_len ?r"
    using fit(1) unat_u32_less [of max_size] by (simp add: unat_word_ariths n)
  then have nofail: "\<not> max_size < cur + ?n" using fit(1) by (simp add: word_less_nat_alt)
  have cur': "cur + ?n = of_nat (length (enc_msg (rs @ [?r])))"
  proof -
    have "unat (cur + ?n) = length (enc_msg (rs @ [?r]))"
      unfolding sum D(2) by (simp add: length_enc_msg)
    then show ?thesis by (rule word_eq_of_natI)
  qed
  show ?thesis
  proof (cases "rs = []")
    case True
    then have c0: "cur = 0" using holds_0_iff [OF h] by simp
    have "wr m 0 (tnf OR NDEF_MB_MASK OR NDEF_ME_MASK)
        = Some (blit m 0 [tnf OR flag NDEF_MB_MASK True OR flag NDEF_ME_MASK True])"
      using fit rec_len_ge_3 [of ?r] by (intro wr_blit [THEN trans]) (auto simp: flag_def c0)
    moreover have "blit m 0 (enc_rec True True ?r) = enc_msg [?r] @ drop (rec_len ?r) m"
      by (simp add: blit_def enc_msg_def)
    ultimately show ?thesis
      using fit t nofail cur' src wf True
      by (simp add: NDEF_MsgAddRec_def Let_def c0 put_new_record length_enc_msg)
  next
    case False
    then have c: "cur \<noteq> 0" using holds_0_iff [OF h] by simp
    have last: "NDEF_MsgGetLastRecInMsg m = Some (Some (offset rs (length rs - 1)))"
      using NDEF_MsgGetLastRecInMsg_enc [OF False D(3), of "drop (unat cur) m"] D(1) by simp
    have clr: "upd_byte m (offset rs (length rs - 1)) (\<lambda>b. b AND NOT NDEF_ME_MASK)
        = Some (enc_pre True rs @ drop (unat cur) m)"
      using clear_last_ME [OF False D(3), of "drop (unat cur) m"] D(1) by simp
    let ?m = "enc_pre True rs @ drop (unat cur) m"
    have len: "length ?m = length m" "length (enc_pre True rs) = unat cur"
      using D(2,4) by (simp_all add: length_enc_msg)
    have w: "wr ?m (unat cur) (tnf OR NDEF_ME_MASK)
        = Some (blit ?m (unat cur) [tnf OR flag NDEF_MB_MASK False OR flag NDEF_ME_MASK True])"
      using fit rec_len_ge_3 [of ?r] len by (intro wr_blit [THEN trans]) (auto simp: flag_def)
    have sup: "supplies p_payload pl ?m (unat cur + rec_len ?r - length pl)"
    proof -
      have "unat cur \<le> unat cur + rec_len ?r - length pl" by (simp add: rec_len_def)
      then obtain k where k: "unat cur + rec_len ?r - length pl = unat cur + k" by (metis le_iff_add)
      show ?thesis using src(3) unfolding k using len(2) by (simp add: supplies_def add.commute del: length_enc_pre)
    qed
    have p: "put_record (blit ?m (unat cur) [tnf OR flag NDEF_MB_MASK False OR flag NDEF_ME_MASK True])
        (unat cur) p_type (of_nat (length ty)) p_id (of_nat (length idf)) p_payload (of_nat (length pl))
        = Some (blit ?m (unat cur) (enc_rec False True ?r))"
      using fit len by (intro put_new_record wf src sup) simp
    have "blit ?m (unat cur) (enc_rec False True ?r)
        = enc_msg (rs @ [?r]) @ drop (unat cur + rec_len ?r) m"
      using len False by (simp add: blit_def enc_msg_snoc add.commute)
    moreover have "unat cur + rec_len ?r = length (enc_msg (rs @ [?r]))"
      using D(2) by (simp add: length_enc_msg)
    ultimately show ?thesis
      unfolding NDEF_MsgAddRec_def Let_def
      by (simp only: nofail nofail [unfolded cur'] t c if_False last clr w p cur' Option.bind.simps option.case)
  qed
qed


lemma NDEF_MsgAddRec_fits:
  assumes h: "holds m cur rs" and wf: "wf_rec (new_rec tnf ty idf pl)"
    and src: "src_holds p_type ty" "src_holds p_id idf" "src_holds p_payload pl"
    and fit: "unat cur + rec_len (new_rec tnf ty idf pl) \<le> unat max_size" "unat max_size \<le> length m"
  shows "NDEF_MsgAddRec m max_size cur tnf p_type (of_nat (length ty)) p_id (of_nat (length idf))
      p_payload (of_nat (length pl))
    = Some (NDEF_OK, enc_msg (rs @ [new_rec tnf ty idf pl])
        @ drop (length (enc_msg (rs @ [new_rec tnf ty idf pl]))) m,
        of_nat (length (enc_msg (rs @ [new_rec tnf ty idf pl]))))"
  by (rule NDEF_MsgAddRec_supplied [OF h wf src(1,2) _ fit]) (simp add: supplies_def src(3))

lemma NDEF_MsgAddRec_full:
  assumes h: "holds m cur rs" and wf: "wf_rec (new_rec tnf ty idf pl)"
    and full: "unat max_size < unat cur + rec_len (new_rec tnf ty idf pl)"
    and nowrap: "unat cur + rec_len (new_rec tnf ty idf pl) < 4294967296"
  shows "NDEF_MsgAddRec m max_size cur tnf p_type (of_nat (length ty)) p_id (of_nat (length idf))
      p_payload (of_nat (length pl)) = Some (NDEF_MSG_INSUFFICIENT_MEM, m, cur)"
proof -
  have t: "\<not> NDEF_TNF_RESERVED < tnf"
    using wf by (auto simp: wf_rec_def word_less_nat_alt)
  have "unat (cur + rec_size (of_nat (length ty)) (of_nat (length idf)) (of_nat (length pl)))
      = unat cur + rec_len (new_rec tnf ty idf pl)"
    using nowrap by (simp add: unat_word_ariths rec_size_wf [OF wf])
  then have "max_size < cur + rec_size (of_nat (length ty)) (of_nat (length idf)) (of_nat (length pl))"
    using full by (simp add: word_less_nat_alt)
  then show ?thesis using t by (simp add: NDEF_MsgAddRec_def)
qed

section \<open>Inserting a record\<close>

lemma enc_msg_take_drop:
  assumes "i \<le> length rs" "ys \<noteq> []"
  shows "enc_msg (take i rs @ ys) = enc_pre True (take i rs) @ enc_from (i = 0) ys"
proof -
  have "(take i rs = []) = (i = 0 \<or> rs = [])" by simp
  then show ?thesis
    using enc_from_append [OF assms(2), of True "take i rs"] assms(1)
    by (cases "rs = []") (auto simp: enc_msg_def)
qed

lemma enc_msg_at:
  "i < length rs \<Longrightarrow> enc_msg rs = enc_pre True (take i rs) @ enc_from (i = 0) (drop i rs)"
  using enc_msg_take_drop [of i rs "drop i rs"] by simp

lemma upd_first_MB:
  assumes "rs \<noteq> []" "\<forall>r \<in> set rs. wf_rec r"
  shows "upd_byte (enc_from mb rs @ C) 0 (\<lambda>b. b AND NOT NDEF_MB_MASK) = Some (enc_from False rs @ C)"
    and "upd_byte (A @ enc_from mb rs @ C) (length A) (\<lambda>b. b OR NDEF_MB_MASK)
      = Some (A @ enc_from True rs @ C)"
proof -
  obtain r xs where rs: "rs = r # xs" using assms(1) by (cases rs) auto
  have t: "r_tnf r < 8" using assms(2) by (simp add: rs)
  have e: "enc_from b rs @ C = hdr_byte b (xs = []) r # tl (enc_rec mb (xs = []) r) @ enc_from False xs @ C"
    for b by (simp add: rs enc_rec_def)
  have "upd_byte ([] @ enc_from mb rs @ C) 0 (\<lambda>b. b AND NOT NDEF_MB_MASK)
      = Some ([] @ enc_from False rs @ C)"
    unfolding e by (subst upd_byte_mid) (simp_all only: list.size hdr_byte_updates [OF t])
  then show "upd_byte (enc_from mb rs @ C) 0 (\<lambda>b. b AND NOT NDEF_MB_MASK) = Some (enc_from False rs @ C)"
    by simp
  show "upd_byte (A @ enc_from mb rs @ C) (length A) (\<lambda>b. b OR NDEF_MB_MASK)
      = Some (A @ enc_from True rs @ C)"
    unfolding e by (subst upd_byte_mid) (simp_all only: hdr_byte_updates [OF t])
qed

lemma ulen_diff: "p \<le> unat cur \<Longrightarrow> ulen cur p = unat cur - p"
proof -
  assume a: "p \<le> unat cur"
  then have "unat (of_nat p :: u32) = p"
    using unat_u32_less [of cur] by (simp add: unat_of_nat)
  then show ?thesis
    using a unat_sub [of "of_nat p" cur] by (simp add: ulen_def word_le_nat_alt)
qed

lemma split_mem:
  assumes "unat cur + n \<le> length m"
  shows "drop (unat cur) m = take n (drop (unat cur) m) @ drop (unat cur + n) m"
    and "length (take n (drop (unat cur) m)) = n"
  using assms append_take_drop_id [of n "drop (unat cur) m"] by (simp_all add: add.commute)

lemma NDEF_MsgInsertRec_fits:
  assumes h: "holds m cur rs" and wf: "wf_rec (new_rec tnf ty idf pl)"
    and src: "src_holds p_type ty" "src_holds p_id idf" "src_holds p_payload pl"
    and fit: "unat cur + rec_len (new_rec tnf ty idf pl) \<le> unat max_size" "unat max_size \<le> length m"
    and i: "i < length rs"
  defines "rs' \<equiv> take i rs @ new_rec tnf ty idf pl # drop i rs"
  shows "NDEF_MsgInsertRec m max_size cur (int i) tnf p_type (of_nat (length ty)) p_id (of_nat (length idf))
      p_payload (of_nat (length pl))
    = Some (NDEF_OK, enc_msg rs' @ drop (length (enc_msg rs')) m, of_nat (length (enc_msg rs')))"
proof -
  let ?r = "new_rec tnf ty idf pl"
  let ?n = "rec_size (of_nat (length ty)) (of_nat (length idf)) (of_nat (length pl))"
  note D = holdsD [OF h]
  have ne: "rs \<noteq> []" "drop i rs \<noteq> []" using i by auto
  have rl: "rec_len ?r < 4294967296" using fit unat_u32_less [of max_size] by simp
  note n = rec_size_wf [OF wf rl]
  have sum: "unat (cur + ?n) = unat cur + rec_len ?r"
    using fit(1) unat_u32_less [of max_size] by (simp add: unat_word_ariths n)
  then have nofail: "\<not> max_size < cur + ?n" using fit(1) by (simp add: word_less_nat_alt)
  have rs': "enc_msg rs' = enc_pre True (take i rs) @ enc_rec (i = 0) False ?r @ enc_from False (drop i rs)"
    unfolding rs'_def using i ne by (subst enc_msg_take_drop) auto
  have len': "length (enc_msg rs') = unat cur + rec_len ?r"
    using arg_cong [OF enc_msg_at [OF i], of length] D(2) by (simp add: rs')
  have cur': "cur + ?n = of_nat (length (enc_msg rs'))"
    by (rule word_eq_of_natI) (simp only: sum len')
  define P where "P = enc_pre True (take i rs)"
  define B where "B = enc_from False (drop i rs)"
  define S where "S = take (rec_len ?r) (drop (unat cur) m)"
  define C where "C = drop (unat cur + rec_len ?r) m"
  have off: "offset rs i = length P" by (simp add: P_def offset_def)
  have m: "m = P @ enc_from (i = 0) (drop i rs) @ S @ C"
    using D(1) split_mem(1) [of cur "rec_len ?r" m] fit enc_msg_at [OF i] by (simp add: P_def S_def C_def)
  have lens: "length S = rec_len ?r" "length P + length B = unat cur"
    using split_mem(2) [of cur "rec_len ?r" m] fit arg_cong [OF enc_msg_at [OF i], of length] D(2)
    by (simp_all add: S_def P_def B_def)
  have num: "NDEF_MsgGetNumRecs m = Some (int (length rs))"
    using NDEF_MsgGetNumRecs_enc [OF ne(1) D(3), of "drop (unat cur) m"] D(1) by simp
  have idx: "NDEF_MsgGetRecByIndex m (int i) = Some (Some (length P))"
    using NDEF_MsgGetRecByIndex_enc [OF ne(1) D(3), of "drop (unat cur) m" "int i"] D(1) i
    by (simp add: off)
  have mb: "(if int i = 0 then upd_byte m 0 (\<lambda>b. b AND NOT NDEF_MB_MASK) else Some m) = Some (P @ B @ S @ C)"
  proof (cases "i = 0")
    case True
    then show ?thesis
      using upd_first_MB(1) [OF ne(1) D(3), of True "S @ C"] m by (simp add: P_def B_def)
  qed (use m in \<open>simp add: B_def\<close>)
  have sd: "shiftdown (P @ B @ S @ C) (length P) (ulen cur (length P)) (unat ?n)
      = Some (P @ take (rec_len ?r) (B @ S) @ B @ C)"
    using lens by (subst shiftdown_block) (simp_all add: n ulen_diff)
  let ?m = "P @ take (rec_len ?r) (B @ S) @ B @ C"
  have tl: "length (take (rec_len ?r) (B @ S)) = rec_len ?r" using lens by simp
  have w: "wr ?m (length P) (if int i = 0 then tnf OR NDEF_MB_MASK else tnf)
      = Some (blit ?m (length P) [tnf OR flag NDEF_MB_MASK (i = 0) OR flag NDEF_ME_MASK False])"
    using tl rec_len_ge_3 [of ?r] by (intro wr_blit [THEN trans]) (auto simp: flag_def)
  have p: "put_record (blit ?m (length P) [tnf OR flag NDEF_MB_MASK (i = 0) OR flag NDEF_ME_MASK False])
      (length P) p_type (of_nat (length ty)) p_id (of_nat (length idf)) p_payload (of_nat (length pl))
      = Some (blit ?m (length P) (enc_rec (i = 0) False ?r))"
    using tl by (intro put_new_record wf src(1,2)) (simp_all add: supplies_def src(3))
  have fin: "blit ?m (length P) (enc_rec (i = 0) False ?r) = enc_msg rs' @ drop (length (enc_msg rs')) m"
    using tl by (subst blit_mid) (simp_all add: rs' P_def B_def C_def flip: len')
  have idx_lt: "\<not> int (length rs) \<le> int i" using i by simp
  show ?thesis
    unfolding NDEF_MsgInsertRec_def Let_def
    by (simp only: nofail nofail [unfolded cur'] num idx idx_lt mb sd w p fin cur' if_False
        Option.bind.simps option.case)
qed


section \<open>Appending records\<close>

text \<open>
  \<open>p_new_rec\<close> holds a whole message. The appended records keep their encoding except for the MB
  bit of the first, which the code clears in the source object as well.
\<close>

lemma NDEF_MsgAppendRec_fits:
  assumes h: "holds m cur rs" and h2: "holds p_new new_len ns"
    and ok: "NDEF_MsgValidate a (Some p_new) new_len False = Some NDEF_OK"
    and fit: "unat cur + unat new_len \<le> unat max_size" "unat max_size \<le> length m"
  shows "NDEF_MsgAppendRec m max_size cur a p_new new_len
    = Some (NDEF_OK, enc_msg (rs @ ns) @ drop (length (enc_msg (rs @ ns))) m,
        of_nat (length (enc_msg (rs @ ns))),
        enc_from (rs = []) ns @ drop (unat new_len) p_new)"
proof -
  note D = holdsD [OF h] and E = holdsD [OF h2]
  have ne: "ns \<noteq> []"
  proof
    assume "ns = []"
    then have "new_len = 0" using holds_0_iff [OF h2] by simp
    with ok show False by (simp add: NDEF_MsgValidate_def)
  qed
  have sum: "unat (cur + new_len) = unat cur + unat new_len"
    using fit(1) unat_u32_less [of max_size] by (simp add: unat_word_ariths)
  then have nofail: "\<not> max_size < cur + new_len" using fit(1) by (simp add: word_less_nat_alt)
  have enc: "enc_msg (rs @ ns) = enc_pre True rs @ enc_from (rs = []) ns"
    unfolding enc_msg_def by (subst enc_from_append [OF ne]) simp
  have len': "length (enc_msg (rs @ ns)) = unat cur + unat new_len"
    using D(2) E(2) by (simp add: length_enc_msg)
  have cur': "cur + new_len = of_nat (length (enc_msg (rs @ ns)))"
    by (rule word_eq_of_natI) (simp only: sum len')
  have nl: "unat new_len = length (enc_from b ns)" for b
    using E(2) by (simp add: length_enc_msg)
  show ?thesis
  proof (cases "rs = []")
    case True
    then have c: "cur = 0" using holds_0_iff [OF h] by simp
    have src: "src_holds (Some p_new) (enc_msg ns)"
      using h2 E(2) by (simp add: src_holds_def holds_def)
    have cp: "memcpy_opt m 0 (Some p_new) (unat new_len) = Some (blit m 0 (enc_msg ns))"
      using fit src c by (intro memcpy_opt_blit) (simp_all add: E(2))
    have fin: "blit m 0 (enc_msg ns) = enc_msg (rs @ ns) @ drop (length (enc_msg (rs @ ns))) m"
      using True by (simp add: blit_def)
    have pn: "p_new = enc_from (rs = []) ns @ drop (unat new_len) p_new"
      using E(1) True by (simp add: enc_msg_def)
    show ?thesis
      unfolding NDEF_MsgAppendRec_def pn [symmetric]
      by (simp only: ok nofail [unfolded c] cur' [unfolded c] c refl if_False if_True cp fin
          nofail [unfolded cur'] Option.bind.simps simp_thms)
  next
    case False
    then have c: "cur \<noteq> 0" using holds_0_iff [OF h] by simp
    have last: "NDEF_MsgGetLastRecInMsg m = Some (Some (offset rs (length rs - 1)))"
      using NDEF_MsgGetLastRecInMsg_enc [OF False D(3), of "drop (unat cur) m"] D(1) by simp
    let ?m = "enc_pre True rs @ drop (unat cur) m"
    have clr: "upd_byte m (offset rs (length rs - 1)) (\<lambda>b. b AND NOT NDEF_ME_MASK) = Some ?m"
      using clear_last_ME [OF False D(3), of "drop (unat cur) m"] D(1) by simp
    let ?q = "enc_from False ns @ drop (unat new_len) p_new"
    have mb: "upd_byte p_new 0 (\<lambda>b. b AND NOT NDEF_MB_MASK) = Some ?q"
      using upd_first_MB(1) [OF ne E(3), of True "drop (unat new_len) p_new"] E(1) by (simp add: enc_msg_def)
    have len: "length ?m = length m" "length (enc_pre True rs) = unat cur"
      using D(2,4) by (simp_all add: length_enc_msg)
    have cp: "memcpy_opt ?m (unat cur) (Some ?q) (unat new_len) = Some (blit ?m (unat cur) (enc_from False ns))"
      using fit len by (intro memcpy_opt_blit) (simp_all add: src_holds_def nl [of False])
    have fin: "blit ?m (unat cur) (enc_from False ns) = enc_msg (rs @ ns) @ drop (length (enc_msg (rs @ ns))) m"
      using len False nl [of False] by (simp only: blit_def enc len') (simp add: add.commute)
    show ?thesis
      using False unfolding NDEF_MsgAppendRec_def
      by (simp only: ok nofail nofail [unfolded cur'] c if_False last clr mb cp fin cur'
          Option.bind.simps option.case simp_thms)
  qed
qed

lemma NDEF_MsgAppendRec_full:
  assumes "NDEF_MsgValidate a (Some p_new) new_len False = Some NDEF_OK"
    and "unat max_size < unat cur + unat new_len" "unat cur + unat new_len < 4294967296"
  shows "NDEF_MsgAppendRec m max_size cur a p_new new_len = Some (NDEF_MSG_INSUFFICIENT_MEM, m, cur, p_new)"
proof -
  have "max_size < cur + new_len"
    using assms(2,3) by (simp add: word_less_nat_alt unat_word_ariths)
  then show ?thesis using assms(1) by (simp add: NDEF_MsgAppendRec_def)
qed

section \<open>Removing a record\<close>

lemma set_last_ME:
  assumes "rs \<noteq> []" "\<forall>r \<in> set rs. wf_rec r"
  shows "upd_byte (enc_pre True rs @ C) (offset rs (length rs - 1)) (\<lambda>b. b OR NDEF_ME_MASK)
    = Some (enc_msg rs @ C)"
proof -
  obtain xs r where rs: "rs = xs @ [r]" using assms(1) by (metis append_butlast_last_id)
  have t: "r_tnf r < 8" using assms(2) by (simp add: rs)
  have o: "offset rs (length rs - 1) = length (enc_pre True xs)"
    by (simp add: rs offset_def)
  have "enc_pre True rs @ C = enc_pre True xs @ hdr_byte (xs = []) False r # tl (enc_rec (xs = []) False r) @ C"
    by (simp add: rs enc_pre_snoc enc_rec_def)
  then show ?thesis
    unfolding o unfolding rs enc_msg_snoc
    by (simp only: upd_byte_mid hdr_byte_updates [OF t]) (simp add: enc_rec_def)
qed

definition remove_at :: "nat \<Rightarrow> 'a list \<Rightarrow> 'a list" where
  "remove_at i xs = take i xs @ drop (Suc i) xs"

lemma offset_le: "i \<le> length rs \<Longrightarrow> offset rs i \<le> length (enc_msg rs)"
proof -
  have "sum_list (map rec_len rs) = sum_list (map rec_len (take i rs)) + sum_list (map rec_len (drop i rs))"
    by (metis append_take_drop_id map_append sum_list_append)
  then show ?thesis by (simp add: offset_def length_enc_msg)
qed

lemma rd_hdr_at:
  assumes "i < length rs" "\<forall>r \<in> set rs. wf_rec r"
  shows "rd (enc_msg rs @ C) (offset rs i) = Some (hdr_byte (i = 0) (Suc i = length rs) (rs ! i))"
  unfolding enc_msg_split [OF assms(1)]
  using length_enc_pre_offset [of True i rs] by (simp add: rd_hdr)

lemma remove_first:
  fixes cur :: u32
  assumes "rs = r # ns" "ns \<noteq> []" "\<forall>x \<in> set rs. wf_rec x" "unat cur = length (enc_msg rs)"
  shows "upd_byte (enc_msg rs @ C) (offset rs 1) (\<lambda>b. b OR NDEF_MB_MASK)
      = Some (enc_rec True False r @ enc_msg ns @ C)"
    and "shiftup (enc_rec True False r @ enc_msg ns @ C) 0 (offset rs 1) (unat (cur - of_nat (offset rs 1)))
      = Some (enc_msg ns @ drop (length (enc_msg ns)) (enc_rec True False r @ enc_msg ns @ C))"
    and "cur - of_nat (offset rs 1) = of_nat (length (enc_msg ns))"
proof -
  have o: "offset rs 1 = rec_len r" by (simp add: assms(1) offset_def)
  have "unat (cur - of_nat (rec_len r)) = length (enc_msg ns)"
    using assms(1,4) ulen_diff [of "rec_len r" cur] by (simp add: ulen_def length_enc_msg)
  then show c: "cur - of_nat (offset rs 1) = of_nat (length (enc_msg ns))"
    unfolding o by (rule word_eq_of_natI)
  show "upd_byte (enc_msg rs @ C) (offset rs 1) (\<lambda>b. b OR NDEF_MB_MASK)
      = Some (enc_rec True False r @ enc_msg ns @ C)"
    unfolding o using upd_first_MB(2) [of ns "enc_rec True False r" False C] assms(1-3)
    by (simp add: enc_msg_def)
  have "shiftup ([] @ enc_rec True False r @ enc_msg ns @ C) 0 (rec_len r) (length (enc_msg ns))
      = Some ([] @ enc_msg ns @ drop (length (enc_msg ns)) (enc_rec True False r @ enc_msg ns) @ C)"
    by (rule shiftup_block) simp_all
  then show "shiftup (enc_rec True False r @ enc_msg ns @ C) 0 (offset rs 1)
      (unat (cur - of_nat (offset rs 1)))
      = Some (enc_msg ns @ drop (length (enc_msg ns)) (enc_rec True False r @ enc_msg ns @ C))"
    unfolding o using \<open>unat (cur - of_nat (rec_len r)) = length (enc_msg ns)\<close> by simp
qed

lemma NDEF_MsgRemoveRec_ok:
  assumes h: "holds m cur rs" and i: "i < length rs"
  shows "\<exists>m' cur'. NDEF_MsgRemoveRec m cur (int i) = Some (NDEF_OK, m', cur')
    \<and> holds m' cur' (remove_at i rs) \<and> length m' = length m
    \<and> drop (unat cur) m' = drop (unat cur) m"
proof -
  note D = holdsD [OF h]
  define C where "C = drop (unat cur) m"
  have m: "m = enc_msg rs @ C" using D(1) by (simp add: C_def)
  have ne: "rs \<noteq> []" using i by auto
  have wfi: "r_tnf (rs ! i) < 8" using D(3) i by simp
  have idx: "NDEF_MsgGetRecByIndex m (int j) = Some (if j < length rs then Some (offset rs j) else None)" for j
    using NDEF_MsgGetRecByIndex_enc [OF ne D(3), of C "int j"] m by simp
  have rdh: "rd m (offset rs i) = Some (hdr_byte (i = 0) (Suc i = length rs) (rs ! i))"
    using rd_hdr_at [OF i D(3), of C] m by simp
  note flags = hdr_flags [OF wfi]
  have wf': "\<forall>r \<in> set (remove_at i rs). wf_rec r"
    using D(3) by (auto simp: remove_at_def dest: in_set_takeD in_set_dropD)
  consider (only) "rs = [rs ! 0]" "i = 0" | (first) "1 < length rs" "i = 0"
    | (last) "0 < i" "Suc i = length rs" | (middle) "0 < i" "Suc i < length rs"
    using i by (cases rs; cases "tl rs"; cases "i = 0"; force)
  then show ?thesis
  proof cases
    case only
    then have "remove_at i rs = []" by (metis drop0 drop_Suc list.sel(3) remove_at_def self_append_conv2 take0)
    moreover have "length rs = 1" using only(1) by (metis One_nat_def length_Cons list.size(3))
    ultimately show ?thesis
      using only(2) idx [of 0] idx [of 1] rdh wfi
      by (intro exI [of _ m] exI [of _ 0]) (simp add: NDEF_MsgRemoveRec_def hdr_flags holds_def)
  next
    case first
    then obtain r ns where rs: "rs = r # ns" "ns \<noteq> []" by (cases rs) auto
    note F = remove_first(1,2) [OF rs D(3,2), of C] remove_first(3) [OF rs D(3,2)]
    let ?m = "enc_msg ns @ drop (length (enc_msg ns)) (enc_rec True False r @ enc_msg ns @ C)"
    have len: "length (enc_msg rs) = rec_len r + length (enc_msg ns)"
      by (simp add: rs(1) length_enc_msg)
    have "NDEF_MsgRemoveRec m cur (int i) = Some (NDEF_OK, ?m, of_nat (length (enc_msg ns)))"
      using idx [of 0] idx [of 1] rdh first F(1,2)
        wfi ne unfolding NDEF_MsgRemoveRec_def F(3)
      by (simp add: hdr_flags F(3) [simplified] m)
    moreover have "unat (of_nat (length (enc_msg ns)) :: u32) = length (enc_msg ns)"
      using D(2) len unat_u32_less [of cur] by (simp add: unat_of_nat)
    then have "holds ?m (of_nat (length (enc_msg ns))) (remove_at i rs)"
      using first wf' by (intro holdsI) (simp_all add: remove_at_def rs(1))
    moreover have "length ?m = length m" using len by (simp add: m)
    moreover have "drop (unat cur) ?m = drop (unat cur) m"
      using len D(2) by (simp add: m drop_append)
    ultimately show ?thesis by blast
  next
    case last
    let ?xs = "take i rs"
    have split: "enc_msg rs = enc_pre True ?xs @ enc_rec False True (rs ! i)"
      using enc_msg_at [OF i] last i by (simp add: Cons_nth_drop_Suc [symmetric])
    have xs: "?xs \<noteq> []" "\<forall>r \<in> set ?xs. wf_rec r" "remove_at i rs = ?xs"
      using last D(3) by (auto simp: remove_at_def dest: in_set_takeD)
    have o: "offset rs (i - 1) = offset ?xs (length ?xs - 1)"
      using i by (simp add: offset_def min_def)
    let ?m = "enc_msg ?xs @ enc_rec False True (rs ! i) @ C"
    have up: "upd_byte m (offset rs (i - 1)) (\<lambda>b. b OR NDEF_ME_MASK) = Some ?m"
      unfolding m split append_assoc o by (rule set_last_ME [OF xs(1,2)])
    have "int i - 1 = int (i - 1)" using last by simp
    then have "NDEF_MsgRemoveRec m cur (int i) = Some (NDEF_OK, ?m, of_nat (offset rs i))"
      using idx [of i] idx [of "i - 1"] less_imp_diff_less [OF i, of 1] rdh last i up
      by (simp add: NDEF_MsgRemoveRec_def flags)
    moreover have ol: "offset rs i = length (enc_msg ?xs)"
      by (simp add: offset_def length_enc_msg)
    moreover have "unat (of_nat (length (enc_msg ?xs)) :: u32) = length (enc_msg ?xs)"
      using D(2) offset_le [of i rs] i unat_u32_less [of cur] by (simp add: unat_of_nat ol)
    then have "holds ?m (of_nat (offset rs i)) (remove_at i rs)"
      using xs by (intro holdsI) (simp_all add: ol)
    moreover have "length ?m = length m" "drop (unat cur) ?m = drop (unat cur) m"
      using ol D(2) by (simp_all add: m split length_enc_msg)
    ultimately show ?thesis by metis
  next
    case middle
    let ?xs = "take i rs" and ?ys = "drop (Suc i) rs"
    have ys: "?ys \<noteq> []" "remove_at i rs = ?xs @ ?ys" using middle by (auto simp: remove_at_def)
    have split: "enc_msg rs = enc_pre True ?xs @ enc_rec False False (rs ! i) @ enc_from False ?ys"
      using enc_msg_at [OF i] middle i by (simp add: Cons_nth_drop_Suc [symmetric])
    have new: "enc_msg (?xs @ ?ys) = enc_pre True ?xs @ enc_from False ?ys"
      using enc_msg_take_drop [of i rs ?ys] middle by simp
    have nxt: "NDEF_MsgGetNextRec m (offset rs i) = Some (Some (offset rs (Suc i)))"
      using NDEF_MsgGetNextRec_enc [OF i D(3), of C] middle m by simp
    let ?p = "offset rs i" and ?q = "offset rs (Suc i)"
    have pq: "?p = length (enc_pre True ?xs)" "?q = ?p + rec_len (rs ! i)"
      using i by (simp_all add: offset_def take_Suc_conv_app_nth)
    have cu: "unat cur = ?q + length (enc_from False ?ys)"
      using D(2) split pq by simp
    have ul: "ulen cur ?q = length (enc_from False ?ys)"
      using cu by (simp add: ulen_diff)
    let ?m = "enc_pre True ?xs @ enc_from False ?ys
      @ drop (length (enc_from False ?ys)) (enc_rec False False (rs ! i) @ enc_from False ?ys) @ C"
    have sh: "shiftup m ?p ?q (ulen cur ?q) = Some ?m"
      unfolding ul m split append_assoc
      by (rule shiftup_block) (simp_all add: pq)
    have rm: "NDEF_MsgRemoveRec m cur (int i) = Some (NDEF_OK, ?m, cur - of_nat (?q - ?p))"
      using idx [of i] i rdh middle nxt sh by (simp add: NDEF_MsgRemoveRec_def flags)
    have cu': "unat (cur - of_nat (?q - ?p)) = length (enc_msg (?xs @ ?ys))"
      using ulen_diff [of "?q - ?p" cur] cu pq by (simp add: ulen_def new)
    have "holds ?m (cur - of_nat (?q - ?p)) (remove_at i rs)"
      using wf' ys by (intro holdsI [where C = "drop (length (enc_from False ?ys))
        (enc_rec False False (rs ! i) @ enc_from False ?ys) @ C"]) (simp_all add: cu' new)
    moreover have "length ?m = length m" "drop (unat cur) ?m = drop (unat cur) m"
      using cu pq by (simp_all add: m split)
    ultimately show ?thesis using rm by metis
  qed
qed

lemma NDEF_MsgRemoveRec_not_found:
  assumes "holds m cur rs" "rs \<noteq> []" "i < 0 \<or> int (length rs) \<le> i"
  shows "NDEF_MsgRemoveRec m cur i = Some (NDEF_REC_NOT_FOUND, m, cur)"
proof -
  note D = holdsD [OF assms(1)]
  have "NDEF_MsgGetRecByIndex m i = Some None"
    using NDEF_MsgGetRecByIndex_enc [OF assms(2) D(3), of "drop (unat cur) m" i] D(1) assms(3) by auto
  then show ?thesis by (simp add: NDEF_MsgRemoveRec_def)
qed

end
