(* ===== verification/Ndef_Change.thy ===== *)
theory Ndef_Change
  imports Ndef_Build
begin

text \<open>
  The operations that change one record in place: append to or replace its payload, replace its
  type or its identifier. Each is shown to implement the update of that record in the list, on
  records in the short form exactly when the payload allows it (\<open>canon\<close>); where the code needs
  more than that, the hypothesis says so.
\<close>

section \<open>A record inside its message\<close>

definition canon :: "ndef_rec \<Rightarrow> bool" where
  "canon r \<longleftrightarrow> r_sr r = (length (r_payload r) < 256) \<and> r_il r = (r_id r \<noteq> [])"

lemma enc_msg_update:
  assumes "i < length rs"
  shows "enc_msg (rs[i := r]) = enc_pre True (take i rs)
    @ enc_rec (i = 0) (Suc i = length rs) r @ enc_from False (drop (Suc i) rs)"
  using enc_msg_split [of i "rs[i := r]" "[]"] assms by simp

lemma at_record:
  assumes h: "holds m cur rs" and i: "i < length rs"
  obtains P Q C where
    "m = P @ enc_rec (i = 0) (Suc i = length rs) (rs ! i) @ Q @ C" "length P = offset rs i"
    "unat cur = offset rs i + rec_len (rs ! i) + length Q" "Q = [] \<longleftrightarrow> Suc i = length rs"
    "C = drop (unat cur) m" "wf_rec (rs ! i)"
    "\<And>r. enc_msg (rs[i := r]) = P @ enc_rec (i = 0) (Suc i = length rs) r @ Q"
proof
  note D = holdsD [OF h]
  let ?P = "enc_pre True (take i rs)" and ?Q = "enc_from False (drop (Suc i) rs)"
  show "m = ?P @ enc_rec (i = 0) (Suc i = length rs) (rs ! i) @ ?Q @ drop (unat cur) m"
    using D(1) enc_msg_split [OF i, of "drop (unat cur) m"] by simp
  show "length ?P = offset rs i" by (simp add: offset_def)
  show "unat cur = offset rs i + rec_len (rs ! i) + length ?Q"
    using arg_cong [OF enc_msg_split [OF i, of "[]"], of length] D(2) by (simp add: offset_def)
  show "?Q = [] \<longleftrightarrow> Suc i = length rs" using i by (auto simp: enc_from_ne_mb)
  show "wf_rec (rs ! i)" using D(3) i by simp
qed (simp_all add: enc_msg_update i)

lemma holds_update:
  assumes "\<And>r. enc_msg (rs[i := r]) = P @ enc_rec mb me r @ Q" "holds m cur rs"
    and "m' = P @ enc_rec mb me r @ Q @ C'" "unat cur' = length P + rec_len r + length Q" "wf_rec r"
  shows "holds m' cur' (rs[i := r])"
  using assms holdsD(3) [OF assms(2)]
  by (intro holdsI [where C = C']) (auto dest!: set_update_subset_insert [THEN subsetD])

section \<open>Replacing the type\<close>

lemma NDEF_MsgReplaceType_ok:
  assumes h: "holds m cur rs" and i: "i < length rs" and ty: "length ty < 256" "src_holds p_ty ty"
  defines "r \<equiv> (rs ! i)\<lparr>r_type := ty\<rparr>"
  assumes wf: "wf_rec r" and max: "unat max_size \<le> length m" "unat cur \<le> unat max_size"
    and fit: "unat cur + length ty \<le> unat max_size + length (r_type (rs ! i))"
  shows "\<exists>m' cur'. NDEF_MsgReplaceType m max_size cur (offset rs i) p_ty (of_nat (length ty))
      = Some (NDEF_OK, m', cur') \<and> holds m' cur' (rs[i := r]) \<and> length m' = length m"
proof -
  obtain P Q C where
    m: "m = P @ enc_rec (i = 0) (Suc i = length rs) (rs ! i) @ Q @ C" and P: "length P = offset rs i"
    and cu: "unat cur = offset rs i + rec_len (rs ! i) + length Q"
    and wf0: "wf_rec (rs ! i)"
    and upd: "\<And>r. enc_msg (rs[i := r]) = P @ enc_rec (i = 0) (Suc i = length rs) r @ Q"
    by (rule at_record [OF h i]) blast
  define o0 where "o0 = rs ! i"
  define h0 where "h0 = hdr_byte (i = 0) (Suc i = length rs) o0"
  define F where "F = paylen_bytes o0 @ idlen_bytes o0"
  define R where "R = r_id o0 @ r_payload o0 @ Q"
  define p where "p = length P"
  have m': "m = P @ h0 # of_nat (length (r_type o0)) # F @ r_type o0 @ R @ C"
    using m by (simp add: enc_rec_def o0_def h0_def F_def R_def)
  have new: "P @ enc_rec (i = 0) (Suc i = length rs) r @ Q @ D
      = P @ h0 # of_nat (length ty) # F @ ty @ R @ D" for D
    by (simp add: r_def enc_rec_def o0_def h0_def F_def R_def hdr_byte_def paylen_bytes_def idlen_bytes_def)
  have t0: "r_tnf o0 < 8" using wf0 by (simp add: o0_def)
  have lF: "(if h0 AND NDEF_IL_MASK \<noteq> 0
       then (if h0 AND NDEF_SR_MASK \<noteq> 0 then p + 2 + 1 else p + 2 + 4) + 1
       else (if h0 AND NDEF_SR_MASK \<noteq> 0 then p + 2 + 1 else p + 2 + 4)) = p + 2 + length F"
    by (simp add: h0_def hdr_flags [OF t0] F_def)
  have rds: "rd m p = Some h0" "rd m (p + 1) = Some (of_nat (length (r_type o0)))"
    by (simp_all add: m' p_def rd_def nth_append)
  have small: "unat (of_nat (length (r_type o0)) :: byte) = length (r_type o0)"
    "unat (of_nat (length ty) :: byte) = length ty"
    using wf_rec_small(1) [OF wf0] ty by (simp_all add: o0_def unat_of_nat)
  let ?q = "p + 2 + length F + length (r_type o0)"
  have cuR: "unat cur = ?q + length R"
    using cu P by (simp add: p_def rec_len_def hdr_len_def F_def R_def o0_def)
  have ul: "ulen cur ?q = length R" using cuR by (simp add: ulen_diff)
  have hdr: "offset rs i = p" by (simp add: p_def P)
  have unfold: "NDEF_MsgReplaceType m max_size cur (offset rs i) p_ty (of_nat (length ty)) =
     (let prev_type_len = of_nat (length (r_type o0)) :: byte; new_type_len = of_nat (length ty) in
     if prev_type_len < new_type_len \<and> max_size < cur + ucast (new_type_len - prev_type_len)
     then Some (NDEF_MSG_INSUFFICIENT_MEM, m, cur)
     else do {
       (m, cur) \<leftarrow>
         (if prev_type_len < new_type_len then do {
            let typelen_delta = new_type_len - prev_type_len;
            m \<leftarrow> shiftdown m ?q (length R) (unat typelen_delta);
            Some (m, cur + ucast typelen_delta) }
          else if new_type_len < prev_type_len then do {
            let typelen_delta = prev_type_len - new_type_len;
            m \<leftarrow> shiftup m (?q - unat typelen_delta) ?q (length R);
            Some (m, cur - ucast typelen_delta) }
          else Some (m, cur));
       m \<leftarrow> wr m (p + 1) new_type_len;
       m \<leftarrow> memcpy_opt m (p + 2 + length F) p_ty (unat new_type_len);
       Some (NDEF_OK, m, cur) })"
    unfolding NDEF_MsgReplaceType_def hdr rds Option.bind.simps Let_def lF small ul ..
  text \<open>The two writes that end every branch.\<close>
  have fin: "(do { m \<leftarrow> wr (P @ h0 # x # F @ T @ D) (p + 1) (of_nat (length ty));
       m \<leftarrow> memcpy_opt m (p + 2 + length F) p_ty (length ty); Some (NDEF_OK, m, c) })
     = Some (NDEF_OK, P @ h0 # of_nat (length ty) # F @ ty @ D, c)" if "length T = length ty" for T D x and c :: u32
  proof -
    have 1: "wr (P @ h0 # x # F @ T @ D) (p + 1) (of_nat (length ty))
        = Some ((P @ h0 # of_nat (length ty) # F) @ T @ D)"
      by (simp add: wr_def p_def list_update_append)
    have "memcpy_opt ((P @ h0 # of_nat (length ty) # F) @ T @ D) (p + 2 + length F) p_ty (length ty)
        = Some (blit ((P @ h0 # of_nat (length ty) # F) @ T @ D) (p + 2 + length F) ty)"
      using that ty(2) by (intro memcpy_opt_blit) (simp_all add: p_def)
    also have "blit ((P @ h0 # of_nat (length ty) # F) @ T @ D) (p + 2 + length F) ty
        = (P @ h0 # of_nat (length ty) # F) @ ty @ D"
      using that by (intro blit_mid) (simp_all add: p_def)
    finally show ?thesis unfolding 1 by simp
  qed
  have lt: "(of_nat (length a) < (of_nat (length b) :: byte)) = (length a < length b)"
    if "length a < 256" "length b < 256" for a b :: "byte list"
    using that by (simp add: word_less_nat_alt unat_of_nat)
  have l0: "length (r_type o0) < 256" using wf0 by (simp add: wf_rec_def o0_def)
  have delta: "unat (of_nat (length a) - of_nat (length b) :: byte) = length a - length b"
    if "length b \<le> length a" "length a < 256" for a b :: "byte list"
    using that by (subst unat_sub) (simp_all add: word_le_nat_alt unat_of_nat)
  consider (grow) "length (r_type o0) < length ty" | (shrink) "length ty < length (r_type o0)"
    | (same) "length ty = length (r_type o0)" by linarith
  then show ?thesis
  proof cases
    case grow
    let ?d = "length ty - length (r_type o0)"
    define S C' where "S = take ?d C" and "C' = drop ?d C"
    have lS: "length S = ?d"
      using fit max grow cuR m' by (simp add: S_def o0_def p_def)
    have C: "C = S @ C'" by (simp add: S_def C'_def)
    have sum: "unat (cur + ucast (of_nat (length ty) - of_nat (length (r_type o0)) :: byte)) = unat cur + ?d"
      using fit grow ty(1) delta [of "r_type o0" ty] unat_u32_less [of max_size] o0_def
      by (simp add: unat_word_ariths)
    then have nf: "\<not> max_size < cur + ucast (of_nat (length ty) - of_nat (length (r_type o0)) :: byte)"
      using fit grow by (simp add: word_less_nat_alt o0_def)
    have sh: "shiftdown m ?q (length R) ?d
        = Some (P @ h0 # of_nat (length (r_type o0)) # F @ (r_type o0 @ take ?d (R @ S)) @ R @ C')"
      using shiftdown_block [of "P @ h0 # of_nat (length (r_type o0)) # F @ r_type o0" ?q R "length R" S ?d C'] lS
      by (simp add: m' C p_def)
    have len: "length (r_type o0 @ take ?d (R @ S)) = length ty" using grow lS by simp
    have res: "NDEF_MsgReplaceType m max_size cur (offset rs i) p_ty (of_nat (length ty))
        = Some (NDEF_OK, P @ enc_rec (i = 0) (Suc i = length rs) r @ Q @ C',
            cur + ucast (of_nat (length ty) - of_nat (length (r_type o0)) :: byte))"
      unfolding unfold Let_def lt [OF l0 ty(1)] delta [OF less_imp_le [OF grow] ty(1)] sh
        Option.bind.simps prod.case small
      using grow nf by (simp only: if_True if_False simp_thms fin [OF len] Option.bind.simps prod.case new)
    moreover have "unat (cur + ucast (of_nat (length ty) - of_nat (length (r_type o0)) :: byte))
        = length P + rec_len r + length Q"
      unfolding sum using cu P grow by (simp add: r_def rec_len_def hdr_len_def o0_def)
    then have "holds (P @ enc_rec (i = 0) (Suc i = length rs) r @ Q @ C')
        (cur + ucast (of_nat (length ty) - of_nat (length (r_type o0)) :: byte)) (rs[i := r])"
      by (intro holds_update [OF upd h refl] wf)
    moreover have "length (P @ enc_rec (i = 0) (Suc i = length rs) r @ Q @ C') = length m"
      using grow lS by (simp add: new m' C)
    ultimately show ?thesis by blast
  next
    case shrink
    let ?d = "length (r_type o0) - length ty"
    define T G where "T = take (length ty) (r_type o0)" and "G = drop (length ty) (r_type o0)"
    have TG: "r_type o0 = T @ G" "length T = length ty" "length G = ?d"
      using shrink by (simp_all add: T_def G_def)
    define C' where "C' = drop (length R) (G @ R) @ C"
    have sum: "unat (cur - ucast (of_nat (length (r_type o0)) - of_nat (length ty) :: byte)) = unat cur - ?d"
      using cuR shrink delta [OF less_imp_le [OF shrink] l0]
      by (subst unat_sub) (simp_all add: word_le_nat_alt)
    have sh: "shiftup m (?q - ?d) ?q (length R)
        = Some (P @ h0 # of_nat (length (r_type o0)) # F @ T @ R @ C')"
      using shiftup_block [of "P @ h0 # of_nat (length (r_type o0)) # F @ T" "?q - ?d" ?q G R "length R" C]
        TG(2) shrink
      by (simp add: m' TG(1) C'_def p_def)
    have nlt: "\<not> length (r_type o0) < length ty" using shrink by simp
    have res: "NDEF_MsgReplaceType m max_size cur (offset rs i) p_ty (of_nat (length ty))
        = Some (NDEF_OK, P @ enc_rec (i = 0) (Suc i = length rs) r @ Q @ C',
            cur - ucast (of_nat (length (r_type o0)) - of_nat (length ty) :: byte))"
      unfolding unfold Let_def lt [OF l0 ty(1)] lt [OF ty(1) l0] delta [OF less_imp_le [OF shrink] l0] sh
        Option.bind.simps prod.case small
      using shrink nlt by (simp only: if_True if_False simp_thms sh fin [OF TG(2)] Option.bind.simps prod.case new)
    moreover have "unat (cur - ucast (of_nat (length (r_type o0)) - of_nat (length ty) :: byte))
        = length P + rec_len r + length Q"
      unfolding sum using cu P shrink by (simp add: r_def rec_len_def hdr_len_def o0_def)
    then have "holds (P @ enc_rec (i = 0) (Suc i = length rs) r @ Q @ C')
        (cur - ucast (of_nat (length (r_type o0)) - of_nat (length ty) :: byte)) (rs[i := r])"
      by (intro holds_update [OF upd h refl] wf)
    moreover have "length (P @ enc_rec (i = 0) (Suc i = length rs) r @ Q @ C') = length m"
      using TG(2) by (simp add: new m' TG(1) C'_def)
    ultimately show ?thesis by blast
  next
    case same
    have nlt: "\<not> length (r_type o0) < length ty" "\<not> length ty < length (r_type o0)" using same by auto
    have "NDEF_MsgReplaceType m max_size cur (offset rs i) p_ty (of_nat (length ty))
        = Some (NDEF_OK, P @ enc_rec (i = 0) (Suc i = length rs) r @ Q @ C, cur)"
      unfolding unfold Let_def lt [OF l0 ty(1)] lt [OF ty(1) l0] Option.bind.simps prod.case small
      using nlt fin [OF same [symmetric], of _ "R @ C"]
      by (simp only: if_True if_False simp_thms m' Option.bind.simps prod.case new)
    moreover have "unat cur = length P + rec_len r + length Q"
      using cu P same by (simp add: r_def rec_len_def hdr_len_def o0_def)
    then have "holds (P @ enc_rec (i = 0) (Suc i = length rs) r @ Q @ C) cur (rs[i := r])"
      by (intro holds_update [OF upd h refl] wf)
    moreover have "length (P @ enc_rec (i = 0) (Suc i = length rs) r @ Q @ C) = length m"
      using same by (simp add: new m')
    ultimately show ?thesis by blast
  qed
qed

end
