(* ===== verification/Ndef_Payload.thy ===== *)
theory Ndef_Payload
  imports Ndef_Change
begin

text \<open>
  The two operations on the payload of a record, \<open>NDEF_MsgAppendPayload\<close> and
  \<open>NDEF_MsgReplacePayload\<close>: in every branch the object holds the list of records with the payload
  of that one record changed.
\<close>

section \<open>Appending to the payload\<close>

lemma hdr_byte_SR:
  assumes "r_tnf r < 8"
  shows "hdr_byte mb me r AND NOT NDEF_SR_MASK = hdr_byte mb me (r\<lparr>r_sr := False\<rparr>)"
    and "hdr_byte mb me r OR NDEF_SR_MASK = hdr_byte mb me (r\<lparr>r_sr := True\<rparr>)"
proof -
  have n: "r_tnf r AND NOT NDEF_SR_MASK = r_tnf r"
    using tnf_cases [OF assms] by (elim disjE; simp)
  show "hdr_byte mb me r AND NOT NDEF_SR_MASK = hdr_byte mb me (r\<lparr>r_sr := False\<rparr>)"
    unfolding hdr_byte_def bit.conj_disj_distrib2 n flag_and by (simp add: flag_def)
  show "hdr_byte mb me r OR NDEF_SR_MASK = hdr_byte mb me (r\<lparr>r_sr := True\<rparr>)"
    by (cases "r_sr r") (simp_all add: hdr_byte_def flag_def or.assoc or.left_commute)
qed

lemma of_nat_gt_255: "n < 4294967296 \<Longrightarrow> (255 < (of_nat n :: u32)) = (255 < n)"
  by (simp add: word_less_nat_alt unat_of_nat)

text \<open>Open a gap of the right size before the tail \<open>Q\<close> (unless there is none) and fill it.\<close>

lemma insert_before_tail:
  assumes "length A = pp" "length S = length add" "src_holds src add" "k \<Longrightarrow> Q = []"
    and "\<not> k \<Longrightarrow> n = length Q"
  shows "(do { m \<leftarrow> (if \<not> k then shiftdown (A @ Q @ S @ C) pp n (length add) else Some (A @ Q @ S @ C));
      m \<leftarrow> memcpy_opt m pp src (length add); f m }) = f (A @ add @ Q @ C)"
proof (cases k)
  case True
  then have "Q = []" by (rule assms(4))
  then show ?thesis
    using assms(1,2) memcpy_opt_blit [OF assms(3) refl, of pp "A @ S @ C"] blit_mid [of A pp S add C] True
    by simp
next
  case False
  have "memcpy_opt (A @ take (length add) (Q @ S) @ Q @ C) pp src (length add)
      = Some (blit (A @ take (length add) (Q @ S) @ Q @ C) pp add)"
    using assms(1,2) by (intro memcpy_opt_blit [OF assms(3) refl]) simp
  then show ?thesis
    using False assms shiftdown_block [of A pp Q n S "length add" C]
      blit_mid [of A pp "take (length add) (Q @ S)" add "Q @ C"]
    by simp
qed

text \<open>
  The code writes the four-byte length whenever the new payload is longer than 255 bytes, and moves
  only \<open>*p_cur_size - ...\<close> bytes with the size before the length field grew; so the record must be
  in the canonical form, and be the last one when its length field grows.
\<close>

lemma NDEF_MsgAppendPayload_ok:
  assumes h: "holds m cur rs" and i: "i < length rs" and cn: "canon (rs ! i)"
    and src: "src_holds (Some p_add) add"
  defines "crossing \<equiv> length (r_payload (rs ! i)) < 256 \<and> 255 < length (r_payload (rs ! i)) + length add"
  defines "r \<equiv> (rs ! i)\<lparr>r_payload := r_payload (rs ! i) @ add,
      r_sr := (length (r_payload (rs ! i)) + length add < 256)\<rparr>"
  assumes wf: "wf_rec r" and last: "crossing \<Longrightarrow> Suc i = length rs"
    and fit: "unat cur + length add + (if crossing then 3 else 0) \<le> unat max_size"
      "unat max_size \<le> length m"
  shows "\<exists>m' cur'. NDEF_MsgAppendPayload m max_size cur (offset rs i) p_add (of_nat (length add))
      = Some (NDEF_OK, m', cur') \<and> holds m' cur' (rs[i := r]) \<and> length m' = length m"
proof -
  obtain P Q C where
    m: "m = P @ enc_rec (i = 0) (Suc i = length rs) (rs ! i) @ Q @ C" and P: "length P = offset rs i"
    and cu: "unat cur = offset rs i + rec_len (rs ! i) + length Q" and Q0: "Q = [] \<longleftrightarrow> Suc i = length rs"
    and wf0: "wf_rec (rs ! i)"
    and upd: "\<And>r. enc_msg (rs[i := r]) = P @ enc_rec (i = 0) (Suc i = length rs) r @ Q"
    by (rule at_record [OF h i]) blast
  define o0 mb me where "o0 = rs ! i" and "mb = (i = 0)" and "me = (Suc i = length rs)"
  define pl where "pl = r_payload o0"
  define h0 where "h0 = hdr_byte mb me o0"
  define tn where "tn = (of_nat (length (r_type o0)) :: byte)"
  define X where "X = idlen_bytes o0 @ r_type o0 @ r_id o0"
  define p where "p = length P"
  have off: "offset rs i = p" by (simp add: p_def P)
  have m': "m = P @ h0 # tn # paylen_bytes o0 @ X @ pl @ Q @ C"
    using m by (simp add: enc_rec_def o0_def h0_def tn_def X_def pl_def mb_def me_def)
  have rs': "r = o0\<lparr>r_payload := pl @ add, r_sr := length pl + length add < 256\<rparr>"
    by (simp add: r_def o0_def pl_def)
  have new: "P @ enc_rec mb me r @ Q @ D
      = P @ hdr_byte mb me (o0\<lparr>r_sr := length pl + length add < 256\<rparr>) # tn # paylen_bytes r @ X @ pl @ add @ Q @ D" for D
    by (simp add: rs' enc_rec_def tn_def X_def hdr_byte_def idlen_bytes_def)
  have t0: "r_tnf o0 < 8" using wf0 by (simp add: o0_def)
  have sr: "r_sr o0 = (length pl < 256)" using cn by (simp add: canon_def o0_def pl_def)
  have bnd: "length pl + length add < 4294967296" using wf by (simp add: wf_rec_def rs')
  then have bnd1: "length pl < 4294967296" by simp
  note small = wf_rec_small [OF wf0, folded o0_def, folded pl_def]
  have un: "unat (of_nat (length add) :: u32) = length add"
    using bnd by (simp add: unat_of_nat)
  have f: "rd m p = Some h0" "ndef_fields m (p + 1) h0 = Some (tn, of_nat (length pl), of_nat (length (r_id o0)), p + hdr_len o0)"
  proof -
    show "rd m p = Some h0" by (simp add: m' p_def rd_def)
    show "ndef_fields m (p + 1) h0 = Some (tn, of_nat (length pl), of_nat (length (r_id o0)), p + hdr_len o0)"
      using ndef_fields_enc [OF wf0, of p P mb me "Q @ C"] m
      by (simp add: o0_def h0_def tn_def pl_def p_def mb_def me_def)
  qed
  have pos: "p + hdr_len o0 + unat tn + length (r_id o0) = p + 2 + length (paylen_bytes o0) + length X"
    by (simp add: hdr_len_def tn_def X_def small)
  have cuQ: "unat cur = p + 2 + length (paylen_bytes o0) + length X + length pl + length Q"
    using cu P pos by (simp add: rec_len_def hdr_len_def tn_def X_def small p_def o0_def pl_def)
  have sumw: "of_nat (length pl) + of_nat (length add) = (of_nat (length pl + length add) :: u32)" by simp
  have cpl: "crossing = (length pl < 256 \<and> 255 < length pl + length add)"
    by (simp add: crossing_def pl_def o0_def)
  define inc where "inc = (if crossing then 3 else 0 :: u32)"
  have inc': "(if length pl < 256 \<and> 255 < length pl + length add then 3 else 0) = inc"
    by (simp only: inc_def cpl)
  have uinc: "unat inc = (if crossing then 3 else 0)" by (simp add: inc_def)
  have sum: "unat (cur + (of_nat (length add) + inc)) = unat cur + length add + unat inc"
    using fit(1) unat_u32_less [of max_size] by (simp add: unat_word_ariths un uinc)
  have nofail: "\<not> max_size < cur + of_nat (length add) + inc"
    using fit(1) sum by (simp add: word_less_nat_alt uinc add.assoc)
  have lC: "length add + unat inc \<le> length C"
    using fit cuQ m' p_def by (simp add: uinc)

  define h1 L1 C1 where "h1 = hdr_byte mb me (o0\<lparr>r_sr := length pl + length add < 256\<rparr>)"
    and "L1 = paylen_bytes r" and "C1 = drop (unat inc) C"
  define S C2 where "S = take (length add) C1" and "C2 = drop (length add) C1"
  have C1: "C1 = S @ C2" by (simp add: S_def C2_def)
  have lS: "length S = length add" using lC by (simp add: S_def C1_def)
  define B where "B = p + 2 + length (paylen_bytes o0) + length X"
  have lens: "length L1 = length (paylen_bytes o0) + unat inc"
    using bnd1 by (auto simp: L1_def rs' uinc sr cpl)
  have me_cross: "crossing \<Longrightarrow> me" using last by (simp add: me_def)
  have hd1: "(h1 AND NDEF_ME_MASK = 0) = (\<not> me)"
    using t0 by (simp add: h1_def hdr_flags)
  text \<open>What is left once the header and the length field are written.\<close>
  have fin: "(do { rec_hdr \<leftarrow> rd (P @ h1 # tn # L1 @ X @ pl @ Q @ C1) p;
      m \<leftarrow> (if rec_hdr AND NDEF_ME_MASK = 0
           then shiftdown (P @ h1 # tn # L1 @ X @ pl @ Q @ C1) pp (ulen cur pp) (length add)
           else Some (P @ h1 # tn # L1 @ X @ pl @ Q @ C1));
      m \<leftarrow> memcpy_opt m pp (Some p_add) (length add); Some (NDEF_OK, m, c) })
    = Some (NDEF_OK, P @ enc_rec mb me r @ Q @ C2, c)"
    if pp: "pp = B + unat inc + length pl" for pp and c :: u32
  proof -
    let ?A = "P @ h1 # tn # L1 @ X @ pl"
    have 1: "length ?A = pp" by (simp add: pp B_def lens p_def)
    have 2: "\<not> me \<Longrightarrow> ulen cur pp = length Q"
      using me_cross cuQ by (subst ulen_diff) (auto simp: pp B_def uinc)
    have 3: "rd (?A @ Q @ C1) p = Some h1" by (simp add: p_def rd_def)
    have 4: "me \<Longrightarrow> Q = []" using Q0 by (simp add: me_def)
    have 5: "P @ h1 # tn # L1 @ X @ pl @ Q @ C1 = ?A @ Q @ S @ C2" by (simp add: C1)
    have 6: "?A @ add @ Q @ C2 = P @ enc_rec mb me r @ Q @ C2" by (simp add: new h1_def L1_def)
    show ?thesis
      unfolding 5 3 [unfolded C1] Option.bind.simps hd1
      by (subst insert_before_tail [where k = me, OF 1 lS src]) (simp_all only: 2 4 6 not_False_eq_True)
  qed

  let ?r = "P @ enc_rec mb me r @ Q @ C2" and ?cur = "cur + (of_nat (length add) + inc)"
  have cw: "unat (cur - of_nat (p + 2) - 1) = ulen cur (p + 3)"
    by (simp add: ulen_def diff_diff_eq add.commute)
  have unfold: "NDEF_MsgAppendPayload m max_size cur (offset rs i) p_add (of_nat (length add)) = do {
      (m, q) \<leftarrow> (if inc \<noteq> 0
        then do { m \<leftarrow> shiftdown m (p + 2 + 1) (ulen cur (p + 3)) 3; Some (m, B + 3) }
        else Some (m, B));
      m \<leftarrow> (if 255 < length pl + length add
        then do { m \<leftarrow> upd_byte m p (\<lambda>b. b AND NOT NDEF_SR_MASK);
                  wr_bytes m (p + 2) (u32_be (of_nat (length pl + length add))) }
        else wr m (p + 2) (ucast (of_nat (length pl + length add) :: u32)));
      let pp = q + length pl;
      rec_hdr \<leftarrow> rd m p;
      m \<leftarrow> (if rec_hdr AND NDEF_ME_MASK = 0 then shiftdown m pp (ulen cur pp) (length add) else Some m);
      m \<leftarrow> memcpy_opt m pp (Some p_add) (length add);
      Some (NDEF_OK, m, ?cur) }"
    unfolding NDEF_MsgAppendPayload_def off f Option.bind.simps prod.case Let_def small un pos sumw
      u32_of_nat_less_256 [OF bnd1] of_nat_gt_255 [OF bnd] inc' B_def [symmetric] cw
    by (simp only: nofail [unfolded add.assoc] if_False add.assoc)
  have "NDEF_MsgAppendPayload m max_size cur (offset rs i) p_add (of_nat (length add))
      = Some (NDEF_OK, ?r, ?cur)"
  proof -
    consider (cross) crossing | (long) "\<not> crossing" "255 < length pl + length add"
      | (short) "\<not> crossing" "\<not> 255 < length pl + length add" by blast
    then show ?thesis
    proof cases
      case cross
      note cp = cross [unfolded cpl]
      have Q: "Q = []" using Q0 me_cross [OF cross] by (simp add: me_def)
      have i3: "inc = 3" "unat inc = 3" using cross by (simp_all add: inc_def)
      define b where "b = (of_nat (length pl) :: byte)"
      define T where "T = take 3 C"
      have T: "length T = 3" "C = T @ C1" using lC by (simp_all add: T_def C1_def i3)
      have L0: "paylen_bytes o0 = [b]" using cp sr by (simp add: paylen_bytes_def pl_def b_def)
      have L1': "L1 = u32_be (of_nat (length pl + length add))"
        using cp by (simp add: L1_def rs' paylen_bytes_def)
      have ul: "ulen cur (p + 3) = length (X @ pl)"
        using cuQ by (subst ulen_diff) (auto simp: L0 Q)
      define V where "V = take 3 ((X @ pl) @ T)"
      have lV: "length V = 3" by (simp add: V_def T)
      have sh: "shiftdown m (p + 2 + 1) (ulen cur (p + 3)) 3 = Some (P @ h0 # tn # (b # V) @ X @ pl @ Q @ C1)"
        unfolding ul V_def
        using shiftdown_block [of "P @ [h0, tn, b]" "p + 2 + 1" "X @ pl" "length (X @ pl)" T 3 C1] T(1)
        by (simp add: m' L0 Q T(2) p_def)
      have up: "upd_byte (P @ h0 # Y) p (\<lambda>b. b AND NOT NDEF_SR_MASK) = Some (P @ h1 # Y)" for Y
        unfolding h0_def h1_def using cp
        by (subst upd_byte_mid) (simp_all only: p_def hdr_byte_SR [OF t0], simp)
      have wb: "wr_bytes (P @ h1 # tn # (b # V) @ Y) (p + 2) (u32_be (of_nat (length pl + length add)))
          = Some (P @ h1 # tn # L1 @ Y)" for Y
        using wr_bytes_fill [of "P @ [h1, tn]" "p + 2" "b # V" L1 Y] lV by (simp add: p_def L1')
      have "(inc \<noteq> 0) = True" "B + 3 + length pl = B + unat inc + length pl" by (simp_all add: i3)
      then show ?thesis
        unfolding unfold by (simp only: cp if_True sh up wb fin Option.bind.simps prod.case Let_def)
    next
      case long
      then have sr0: "\<not> r_sr o0" "\<not> length pl < 256" "inc = 0" using cpl sr by (simp_all add: inc_def)
      have C: "C1 = C" by (simp add: C1_def sr0)
      have h1: "h1 = h0" using sr0 long by (simp add: h1_def h0_def hdr_byte_def)
      have up: "upd_byte m p (\<lambda>b. b AND NOT NDEF_SR_MASK) = Some m"
        unfolding m' using sr0(1) by (subst upd_byte_mid) (simp_all only: p_def h0_def hdr_byte_SR [OF t0], simp add: hdr_byte_def)
      have L1': "L1 = u32_be (of_nat (length pl + length add))"
        using long by (simp add: L1_def rs' paylen_bytes_def)
      have wb: "wr_bytes m (p + 2) (u32_be (of_nat (length pl + length add)))
          = Some (P @ h1 # tn # L1 @ X @ pl @ Q @ C1)"
        using wr_bytes_fill [of "P @ [h1, tn]" "p + 2" "paylen_bytes o0" L1 "X @ pl @ Q @ C"] sr0(1)
        by (simp add: p_def L1' m' h1 C)
      have "(inc \<noteq> 0) = False" "B + length pl = B + unat inc + length pl" by (simp_all add: sr0)
      then show ?thesis
        unfolding unfold by (simp only: long if_True if_False up wb fin Option.bind.simps prod.case Let_def)
    next
      case short
      then have sr0: "r_sr o0" "length pl < 256" "length pl + length add < 256" "inc = 0"
        using cpl sr by (simp_all add: inc_def)
      have C: "C1 = C" by (simp add: C1_def sr0)
      have h1: "h1 = h0" using sr0 by (simp add: h1_def h0_def hdr_byte_def)
      have L1': "L1 = [of_nat (length pl + length add)]"
        using sr0 by (simp add: L1_def rs' paylen_bytes_def)
      have "(ucast (of_nat (length pl + length add) :: u32) :: byte) = of_nat (length pl + length add)"
        using bnd by (simp flip: of_nat_unat_byte add: unat_of_nat del: of_nat_add)
      then have wb: "wr m (p + 2) (ucast (of_nat (length pl + length add) :: u32))
          = Some (P @ h1 # tn # L1 @ X @ pl @ Q @ C1)"
        using wr_bytes_fill [of "P @ [h1, tn]" "p + 2" "paylen_bytes o0" L1 "X @ pl @ Q @ C"] sr0(1)
        by (simp add: p_def L1' m' h1 C wr_eq_wr_bytes)
      have "(inc \<noteq> 0) = False" "B + length pl = B + unat inc + length pl" by (simp_all add: sr0)
      then show ?thesis
        unfolding unfold by (simp only: short if_False wb fin Option.bind.simps prod.case Let_def)
    qed
  qed
  moreover have "rec_len r = 2 + length L1 + length X + length pl + length add"
    using arg_cong [where f = length, OF new [of "[]"]] unfolding length_append length_enc_rec L1_def by simp
  then have "unat ?cur = length P + rec_len r + length Q"
    unfolding sum cuQ lens p_def by simp
  then have "holds ?r ?cur (rs[i := r])"
    by (intro holds_update [OF upd [folded mb_def me_def] h refl] wf)
  moreover have "length ?r = length m"
    using lC unfolding new L1_def [symmetric] m' by (simp add: lens C2_def C1_def)
  ultimately show ?thesis by blast
qed

section \<open>Replacing the payload\<close>

definition with_payload :: "ndef_rec \<Rightarrow> byte list \<Rightarrow> ndef_rec" where
  "with_payload r pl = r\<lparr>r_payload := pl, r_sr := length pl < 256\<rparr>"

lemma payload_at:
  assumes h: "holds m cur rs" and i: "i < length rs" and cn: "canon (rs ! i)"
  obtains P tn X Q C il q where
    "m = P @ hdr_byte (i = 0) (Suc i = length rs) (rs ! i) # tn # paylen_bytes (rs ! i) @ X
       @ r_payload (rs ! i) @ Q @ C"
    "length P = offset rs i" "Q = [] \<longleftrightarrow> Suc i = length rs"
    "\<And>pl. enc_msg (rs[i := with_payload (rs ! i) pl])
       = P @ hdr_byte (i = 0) (Suc i = length rs) (with_payload (rs ! i) pl) # tn
         # paylen_bytes (with_payload (rs ! i) pl) @ X @ pl @ Q"
    "rd m (offset rs i) = Some (hdr_byte (i = 0) (Suc i = length rs) (rs ! i))"
    "ndef_fields m (offset rs i + 1) (hdr_byte (i = 0) (Suc i = length rs) (rs ! i))
       = Some (tn, of_nat (length (r_payload (rs ! i))), il, q)"
    "q + unat tn + unat il = offset rs i + 2 + (if length (r_payload (rs ! i)) < 256 then 1 else 4) + length X"
    "unat cur = offset rs i + 2 + (if length (r_payload (rs ! i)) < 256 then 1 else 4) + length X
       + length (r_payload (rs ! i)) + length Q"
proof -
  obtain P Q C where
    m: "m = P @ enc_rec (i = 0) (Suc i = length rs) (rs ! i) @ Q @ C" and P: "length P = offset rs i"
    and cu: "unat cur = offset rs i + rec_len (rs ! i) + length Q" and Q0: "Q = [] \<longleftrightarrow> Suc i = length rs"
    and wf0: "wf_rec (rs ! i)"
    and upd: "\<And>r. enc_msg (rs[i := r]) = P @ enc_rec (i = 0) (Suc i = length rs) r @ Q"
    by (rule at_record [OF h i]) blast
  let ?X = "idlen_bytes (rs ! i) @ r_type (rs ! i) @ r_id (rs ! i)"
  show thesis
  proof (rule that [of P "of_nat (length (r_type (rs ! i)))" ?X Q C "of_nat (length (r_id (rs ! i)))"
        "offset rs i + hdr_len (rs ! i)"])
    show "ndef_fields m (offset rs i + 1) (hdr_byte (i = 0) (Suc i = length rs) (rs ! i))
       = Some (of_nat (length (r_type (rs ! i))), of_nat (length (r_payload (rs ! i))),
           of_nat (length (r_id (rs ! i))), offset rs i + hdr_len (rs ! i))"
      using ndef_fields_enc [OF wf0 P [symmetric], of "i = 0" "Suc i = length rs" "Q @ C"] m by simp
    show "offset rs i + hdr_len (rs ! i) + unat (of_nat (length (r_type (rs ! i))) :: byte)
        + unat (of_nat (length (r_id (rs ! i))) :: byte)
      = offset rs i + 2 + (if length (r_payload (rs ! i)) < 256 then 1 else 4) + length ?X"
      using cn wf_rec_small [OF wf0] by (simp add: hdr_len_def canon_def)
    show "rd m (offset rs i) = Some (hdr_byte (i = 0) (Suc i = length rs) (rs ! i))"
      unfolding m by (rule rd_hdr) (simp add: P)
    show "unat cur = offset rs i + 2 + (if length (r_payload (rs ! i)) < 256 then 1 else 4) + length ?X
       + length (r_payload (rs ! i)) + length Q"
      using cu cn by (simp add: rec_len_def hdr_len_def canon_def)
  qed (simp_all add: m P Q0 upd enc_rec_def with_payload_def idlen_bytes_def)
qed

lemma hdr_with_payload:
  assumes "r_tnf r < 8" "canon r"
  shows "length pl < 256 \<longleftrightarrow> length (r_payload r) < 256 \<Longrightarrow>
      hdr_byte mb me (with_payload r pl) = hdr_byte mb me r"
    and "\<not> length pl < 256 \<Longrightarrow>
      hdr_byte mb me r AND NOT NDEF_SR_MASK = hdr_byte mb me (with_payload r pl)"
    and "length pl < 256 \<Longrightarrow>
      hdr_byte mb me r OR NDEF_SR_MASK = hdr_byte mb me (with_payload r pl)"
    and "(hdr_byte mb me (with_payload r pl) AND NDEF_ME_MASK = 0) = (\<not> me)"
proof -
  have "r_tnf (with_payload r pl) < 8" using assms by (simp add: with_payload_def)
  then show "(hdr_byte mb me (with_payload r pl) AND NDEF_ME_MASK = 0) = (\<not> me)"
    by (simp add: hdr_flags)
qed (use assms in \<open>simp_all only: hdr_byte_SR hdr_flags\<close>,
  simp_all add: hdr_byte_def with_payload_def canon_def)

lemma put_payload_len_fill:
  assumes "length A = p + 2" "length B = (if length pl < 256 then 1 else 4)" "length pl < 4294967296"
  shows "put_payload_len (A @ B @ C) (p + 2) (of_nat (length pl))
    = Some (A @ paylen_bytes (with_payload r pl) @ C)"
proof -
  have "(ucast (of_nat (length pl) :: u32) :: byte) = of_nat (length pl)"
    using assms(3) by (simp flip: of_nat_unat_byte add: unat_of_nat)
  then show ?thesis
    using assms wr_bytes_fill [of A "p + 2" B _ C]
    by (simp add: put_payload_len_def of_nat_gt_255 [OF assms(3)] wr_eq_wr_bytes paylen_bytes_def
        with_payload_def)
qed

lemma of_nat_less_u32:
  "a < 4294967296 \<Longrightarrow> b < 4294967296 \<Longrightarrow> ((of_nat a :: u32) < of_nat b) = (a < b)"
  by (simp add: word_less_nat_alt unat_of_nat)

lemma NDEF_MsgReplacePayload_grow:
  assumes h: "holds m cur rs" and i: "i < length rs" and cn: "canon (rs ! i)"
    and src: "src_holds p_new pl" and grow: "length (r_payload (rs ! i)) < length pl"
    and wf: "wf_rec (with_payload (rs ! i) pl)"
  defines "inc \<equiv> (if length (r_payload (rs ! i)) < 256 \<and> 255 < length pl then 3 else 0 :: nat)"
  assumes fit: "unat cur + (length pl - length (r_payload (rs ! i))) + inc \<le> unat max_size"
      "unat max_size \<le> length m"
  shows "\<exists>m' cur'. NDEF_MsgReplacePayload m max_size cur (offset rs i) p_new (of_nat (length pl))
      = Some (NDEF_OK, m', cur') \<and> holds m' cur' (rs[i := with_payload (rs ! i) pl])
      \<and> length m' = length m"
proof -
  obtain P tn X Q C il q where
    m: "m = P @ hdr_byte (i = 0) (Suc i = length rs) (rs ! i) # tn # paylen_bytes (rs ! i) @ X
       @ r_payload (rs ! i) @ Q @ C"
    and P: "length P = offset rs i" and Q0: "Q = [] \<longleftrightarrow> Suc i = length rs"
    and new: "\<And>pl. enc_msg (rs[i := with_payload (rs ! i) pl])
       = P @ hdr_byte (i = 0) (Suc i = length rs) (with_payload (rs ! i) pl) # tn
         # paylen_bytes (with_payload (rs ! i) pl) @ X @ pl @ Q"
    and r: "rd m (offset rs i) = Some (hdr_byte (i = 0) (Suc i = length rs) (rs ! i))"
    and f: "ndef_fields m (offset rs i + 1) (hdr_byte (i = 0) (Suc i = length rs) (rs ! i))
       = Some (tn, of_nat (length (r_payload (rs ! i))), il, q)"
    and pos: "q + unat tn + unat il = offset rs i + 2 + (if length (r_payload (rs ! i)) < 256 then 1 else 4) + length X"
    and cu: "unat cur = offset rs i + 2 + (if length (r_payload (rs ! i)) < 256 then 1 else 4) + length X
       + length (r_payload (rs ! i)) + length Q"
    by (rule payload_at [OF h i cn]) blast
  define o0 p0 p where "o0 = rs ! i" and "p0 = r_payload o0" and "p = offset rs i"
  define me h0 h1 where "me = (Suc i = length rs)" and "h0 = hdr_byte (i = 0) me o0"
    and "h1 = hdr_byte (i = 0) me (with_payload o0 pl)"
  define L0 L1 where "L0 = paylen_bytes o0" and "L1 = paylen_bytes (with_payload o0 pl)"
  note fold = o0_def [symmetric] p0_def [symmetric] p_def [symmetric] me_def [symmetric]
    h0_def [symmetric] h1_def [symmetric] L0_def [symmetric] L1_def [symmetric]
  note m = m [unfolded fold] and P = P [unfolded fold] and Q0 = Q0 [unfolded fold]
    and new = new [of pl, unfolded fold] and r = r [unfolded fold] and f = f [unfolded fold]
    and pos = pos [unfolded fold] and cu = cu [unfolded fold] and fit = fit [unfolded fold]
    and grow = grow [unfolded fold] and wf = wf [unfolded fold] and cn = cn [unfolded fold]
    and inc = inc_def [unfolded fold]
  have t0: "r_tnf o0 < 8" using wf by (simp add: wf_rec_def with_payload_def)
  have bnd: "length pl < 4294967296" using wf by (simp add: wf_rec_def with_payload_def)
  then have bnd0: "length p0 < 4294967296" using grow by simp
  have lL0: "length L0 = (if length p0 < 256 then 1 else 4)"
    using cn by (simp add: L0_def canon_def p0_def)
  have lL1: "length L1 = length L0 + inc"
    using grow by (simp add: lL0 L1_def with_payload_def inc)
  define B where "B = p + 2 + length L0 + length X"
  define delta where "delta = (of_nat (length pl - length p0) :: u32)"
  have dw: "of_nat (length pl) - of_nat (length p0) = delta"
    using grow by (simp add: delta_def of_nat_diff)
  have ud: "unat delta = length pl - length p0" using bnd by (simp add: delta_def unat_of_nat)
  define cur1 where "cur1 = (if length p0 < 256 \<and> 255 < length pl then cur + 3 else cur)"
  have uc1: "unat cur1 = unat cur + inc"
    using fit unat_u32_less [of max_size] by (auto simp: cur1_def inc unat_word_ariths split: if_splits)
  have uc: "unat (cur1 + delta) = unat cur + inc + (length pl - length p0)"
    using fit(1) unat_u32_less [of max_size] unfolding unat_word_ariths(1) uc1 ud by (intro mod_less) simp
  have nofail: "\<not> (if length p0 < 256 \<and> 255 < length pl then max_size < cur + delta + 3 else max_size < cur + delta)"
  proof -
    have "(if length p0 < 256 \<and> 255 < length pl then max_size < cur + delta + 3 else max_size < cur + delta)
        = (max_size < cur1 + delta)"
      by (simp add: cur1_def add.assoc add.commute [of 3 delta])
    moreover have "\<not> max_size < cur1 + delta"
      using fit(1) by (simp add: word_less_nat_alt uc)
    ultimately show ?thesis by simp
  qed
  have un: "unat (of_nat (length p0) :: u32) = length p0" "unat (of_nat (length pl) :: u32) = length pl"
    using bnd bnd0 by (simp_all add: unat_of_nat)
  have cw: "unat (cur - of_nat (p + 2) - 1) = ulen cur (p + 3)"
    by (simp add: ulen_def diff_diff_eq add.commute)
  have unfold: "NDEF_MsgReplacePayload m max_size cur (offset rs i) p_new (of_nat (length pl)) = do {
      (m, q, cur) \<leftarrow> (if length p0 < 256 \<and> 255 < length pl then do {
          m \<leftarrow> shiftdown m (p + 2 + 1) (ulen cur (p + 3)) 3;
          m \<leftarrow> upd_byte m p (\<lambda>b. b AND NOT NDEF_SR_MASK);
          Some (m, B + 3, cur + 3) }
        else Some (m, B, cur));
      m \<leftarrow> put_payload_len m (p + 2) (of_nat (length pl));
      let pp = q + length p0;
      rec_hdr \<leftarrow> rd m p;
      m \<leftarrow> (if rec_hdr AND NDEF_ME_MASK = 0 then shiftdown m pp (ulen cur pp) (length pl - length p0) else Some m);
      m \<leftarrow> memcpy_opt m q p_new (length pl);
      Some (NDEF_OK, m, cur + delta) }"
    unfolding NDEF_MsgReplacePayload_def fold r f Option.bind.simps prod.case Let_def un pos lL0 [symmetric]
      B_def [symmetric] dw of_nat_less_u32 [OF bnd0 bnd] u32_of_nat_less_256 [OF bnd0]
      of_nat_gt_255 [OF bnd] cw ud
    by (simp only: nofail grow if_False if_True)
  define C1 where "C1 = drop inc C"
  define S C2 where "S = take (length pl - length p0) C1" and "C2 = drop (length pl - length p0) C1"
  have lC: "length pl - length p0 + inc \<le> length C"
    using fit cu by (simp add: m lL0 P)
  have C1: "C1 = S @ C2" by (simp add: S_def C2_def)
  have lS: "length S = length pl - length p0" using lC by (simp add: S_def C1_def)
  have hd1: "(h1 AND NDEF_ME_MASK = 0) = (\<not> me)"
    unfolding h1_def by (rule hdr_with_payload(4) [OF t0 cn])
  text \<open>What is left once the length field is written.\<close>
  have fin: "(do { rec_hdr \<leftarrow> rd (P @ h1 # tn # L1 @ X @ p0 @ Q @ C1) p;
      m \<leftarrow> (if rec_hdr AND NDEF_ME_MASK = 0
           then shiftdown (P @ h1 # tn # L1 @ X @ p0 @ Q @ C1) (pp + length p0)
             (ulen cur1 (pp + length p0)) (length pl - length p0)
           else Some (P @ h1 # tn # L1 @ X @ p0 @ Q @ C1));
      m \<leftarrow> memcpy_opt m pp p_new (length pl); Some (NDEF_OK, m, c) })
    = Some (NDEF_OK, P @ h1 # tn # L1 @ X @ pl @ Q @ C2, c)"
    if pp: "pp = B + inc" for pp and c :: u32
  proof -
    let ?A = "P @ h1 # tn # L1 @ X"
    have 1: "length ?A = pp" by (simp add: pp B_def lL1 P)
    have 2: "ulen cur1 (pp + length p0) = length Q"
      using cu uc1 by (subst ulen_diff) (auto simp: pp B_def lL0)
    have 3: "rd (?A @ p0 @ Q @ C1) p = Some h1" by (simp add: P [symmetric] rd_def)
    define W where "W = (if me then S else take (length pl - length p0) (Q @ S))"
    have lW: "length W = length pl - length p0" using grow by (auto simp: W_def lS min_def)
    have 4: "(if \<not> me then shiftdown (P @ h1 # tn # L1 @ X @ p0 @ Q @ C1) (pp + length p0)
             (length Q) (length pl - length p0)
           else Some (P @ h1 # tn # L1 @ X @ p0 @ Q @ C1)) = Some (?A @ (p0 @ W) @ Q @ C2)"
      using shiftdown_block [of "?A @ p0" "pp + length p0" Q "length Q" S "length pl - length p0" C2] 1 lS Q0
      by (cases me) (simp_all add: C1 W_def)
    have 5: "memcpy_opt (?A @ (p0 @ W) @ Q @ C2) pp p_new (length pl) = Some (?A @ pl @ Q @ C2)"
      using 1 lW grow src blit_mid [of ?A pp "p0 @ W" pl "Q @ C2"]
      by (subst memcpy_opt_blit) simp_all
    show ?thesis
      using 3 unfolding 2 by (simp only: append_assoc append_Cons Option.bind.simps hd1 4 5 [unfolded append_assoc append_Cons])
  qed
  let ?m = "P @ h1 # tn # L1 @ X @ pl @ Q @ C2"
  have put: "put_payload_len (P @ h1 # tn # U @ Y) (p + 2) (of_nat (length pl)) = Some (P @ h1 # tn # L1 @ Y)"
    if "length U = length L1" for U Y
    using put_payload_len_fill [of "P @ [h1, tn]" p U pl Y o0] that bnd P grow lL1 lL0
    by (simp add: L1_def inc with_payload_def split: if_splits)
  have "NDEF_MsgReplacePayload m max_size cur (offset rs i) p_new (of_nat (length pl))
      = Some (NDEF_OK, ?m, cur1 + delta)"
  proof (cases "length p0 < 256 \<and> 255 < length pl")
    case True
    then have i3: "inc = 3" "cur + 3 = cur1" by (simp_all add: inc cur1_def)
    define T V where "T = take 3 C" and "V = take 3 ((X @ p0 @ Q) @ T)"
    have T: "length T = 3" "C = T @ C1" using lC i3 by (simp_all add: T_def C1_def)
    have ul: "ulen cur (p + 3) = length (X @ p0 @ Q)"
      using cu True by (subst ulen_diff) auto
    have sh: "shiftdown m (p + 2 + 1) (ulen cur (p + 3)) 3 = Some (P @ h0 # tn # (L0 @ V) @ X @ p0 @ Q @ C1)"
      unfolding ul V_def
      using shiftdown_block [of "P @ h0 # tn # L0" "p + 2 + 1" "X @ p0 @ Q" "length (X @ p0 @ Q)" T 3 C1] T(1) True
      by (simp add: m T(2) P lL0)
    have up: "upd_byte (P @ h0 # Y) p (\<lambda>b. b AND NOT NDEF_SR_MASK) = Some (P @ h1 # Y)" for Y
    proof -
      have n: "\<not> length pl < 256" using True by simp
      show ?thesis
        unfolding h0_def h1_def hdr_with_payload(2) [OF t0 cn n, symmetric]
        by (rule upd_byte_mid) (rule P)
    qed
    have "length (L0 @ V) = length L1" by (simp add: lL1 i3 V_def T)
    then show ?thesis
      unfolding unfold
      by (simp only: True if_True sh up put fin [unfolded i3, OF refl] Option.bind.simps prod.case Let_def i3 simp_thms)
  next
    case False
    then have i0: "inc = 0" "cur1 = cur" by (simp_all add: inc cur1_def)
    then have "h1 = h0" "C1 = C" "length L0 = length L1" "B = B + inc"
      using hdr_with_payload(1) [OF t0 cn] False grow
      by (auto simp: h1_def h0_def C1_def lL1 p0_def)
    then show ?thesis
      unfolding unfold using False fin [of B "cur + delta"] put [of L0 "X @ p0 @ Q @ C"]
      by (simp only: if_False m i0 Option.bind.simps prod.case Let_def)
  qed
  moreover have "rs[i := with_payload o0 pl] = rs[i := with_payload (rs ! i) pl]"
    by (simp add: o0_def)
  moreover have "holds ?m (cur1 + delta) (rs[i := with_payload o0 pl])"
  proof (rule holdsI [where C = C2])
    show "?m = enc_msg (rs[i := with_payload o0 pl]) @ C2" by (simp add: new)
    show "unat (cur1 + delta) = length (enc_msg (rs[i := with_payload o0 pl]))"
      using grow by (simp add: uc new cu P [symmetric] lL1 del: length_enc_from) (simp add: lL0)
    show "\<forall>r \<in> set (rs[i := with_payload o0 pl]). wf_rec r"
      using holdsD(3) [OF h] wf by (auto dest!: set_update_subset_insert [THEN subsetD])
  qed
  moreover have "length ?m = length m"
    using lC grow by (simp add: m lL1 C2_def C1_def)
  ultimately show ?thesis by (metis o0_def)
qed


lemma NDEF_MsgReplacePayload_shrink:
  assumes h: "holds m cur rs" and i: "i < length rs" and cn: "canon (rs ! i)"
    and src: "src_holds p_new pl" and shrink: "length pl < length (r_payload (rs ! i))"
    and wf: "wf_rec (with_payload (rs ! i) pl)"
  defines "dec \<equiv> (if 255 < length (r_payload (rs ! i)) \<and> length pl < 256 then 3 else 0 :: nat)"
  assumes slack: "dec = 3 \<Longrightarrow> unat cur < length m"
  shows "\<exists>m' cur'. NDEF_MsgReplacePayload m max_size cur (offset rs i) p_new (of_nat (length pl))
      = Some (NDEF_OK, m', cur') \<and> holds m' cur' (rs[i := with_payload (rs ! i) pl])
      \<and> length m' = length m"
proof -
  obtain P tn X Q C il q where
    m: "m = P @ hdr_byte (i = 0) (Suc i = length rs) (rs ! i) # tn # paylen_bytes (rs ! i) @ X
       @ r_payload (rs ! i) @ Q @ C"
    and P: "length P = offset rs i" and Q0: "Q = [] \<longleftrightarrow> Suc i = length rs"
    and new: "\<And>pl. enc_msg (rs[i := with_payload (rs ! i) pl])
       = P @ hdr_byte (i = 0) (Suc i = length rs) (with_payload (rs ! i) pl) # tn
         # paylen_bytes (with_payload (rs ! i) pl) @ X @ pl @ Q"
    and r: "rd m (offset rs i) = Some (hdr_byte (i = 0) (Suc i = length rs) (rs ! i))"
    and f: "ndef_fields m (offset rs i + 1) (hdr_byte (i = 0) (Suc i = length rs) (rs ! i))
       = Some (tn, of_nat (length (r_payload (rs ! i))), il, q)"
    and pos: "q + unat tn + unat il = offset rs i + 2 + (if length (r_payload (rs ! i)) < 256 then 1 else 4) + length X"
    and cu: "unat cur = offset rs i + 2 + (if length (r_payload (rs ! i)) < 256 then 1 else 4) + length X
       + length (r_payload (rs ! i)) + length Q"
    by (rule payload_at [OF h i cn]) blast
  define o0 p0 p where "o0 = rs ! i" and "p0 = r_payload o0" and "p = offset rs i"
  define me h0 h1 where "me = (Suc i = length rs)" and "h0 = hdr_byte (i = 0) me o0"
    and "h1 = hdr_byte (i = 0) me (with_payload o0 pl)"
  define L0 L1 where "L0 = paylen_bytes o0" and "L1 = paylen_bytes (with_payload o0 pl)"
  note fold = o0_def [symmetric] p0_def [symmetric] p_def [symmetric] me_def [symmetric]
    h0_def [symmetric] h1_def [symmetric] L0_def [symmetric] L1_def [symmetric]
  note m = m [unfolded fold] and P = P [unfolded fold] and Q0 = Q0 [unfolded fold]
    and new = new [of pl, unfolded fold] and r = r [unfolded fold] and f = f [unfolded fold]
    and pos = pos [unfolded fold] and cu = cu [unfolded fold] 
    and shrink = shrink [unfolded fold] and wf = wf [unfolded fold] and cn = cn [unfolded fold]
    and dec = dec_def [unfolded fold] and slack = slack [unfolded fold]
  have t0: "r_tnf o0 < 8" using wf by (simp add: wf_rec_def with_payload_def)
  have bnd0: "length p0 < 4294967296" using bspec [OF holdsD(3) [OF h] nth_mem [OF i]] by (simp add: p0_def o0_def wf_rec_def)
  then have bnd: "length pl < 4294967296" using shrink by simp
  have lL0: "length L0 = (if length p0 < 256 then 1 else 4)"
    using cn by (simp add: L0_def canon_def p0_def)
  have lL1: "length L0 = length L1 + dec"
    using shrink by (simp add: lL0 L1_def with_payload_def dec)
  define B where "B = p + 2 + length L0 + length X"
  define delta where "delta = (of_nat (length p0 - length pl) :: u32)"
  have dw: "of_nat (length p0) - of_nat (length pl) = delta"
    using shrink by (simp add: delta_def of_nat_diff)
  have ud: "unat delta = length p0 - length pl" using bnd0 by (simp add: delta_def unat_of_nat)
  define cur1 where "cur1 = (if 255 < length p0 \<and> length pl < 256 then cur - 3 else cur)"
  have uc1: "unat cur1 = unat cur - dec" "dec \<le> unat cur"
    using cu by (auto simp: cur1_def dec unat_sub word_le_nat_alt split: if_splits)
  have uc: "unat (cur1 - delta) = unat cur - dec - (length p0 - length pl)"
  proof -
    have "delta \<le> cur1" unfolding word_le_nat_alt uc1 ud using cu shrink by (auto simp: dec)
    then show ?thesis by (simp only: unat_sub uc1 ud)
  qed
  have un: "unat (of_nat (length p0) :: u32) = length p0" "unat (of_nat (length pl) :: u32) = length pl"
    using bnd bnd0 by (simp_all add: unat_of_nat)
  have cw: "unat (cur - of_nat (p + 2) - 3) = ulen cur (p + 5)"
    by (simp add: ulen_def diff_diff_eq add.commute)
  have nlt: "\<not> length p0 < length pl" using shrink by simp
  have unfold: "NDEF_MsgReplacePayload m max_size cur (offset rs i) p_new (of_nat (length pl)) = do {
      (m, q, cur) \<leftarrow> (if 255 < length p0 \<and> length pl < 256 then do {
          m \<leftarrow> shiftup m (p + 2 + 1) (p + 2 + 4) (ulen cur (p + 5));
          m \<leftarrow> upd_byte m p (\<lambda>b. b OR NDEF_SR_MASK);
          Some (m, B - 3, cur - 3) }
        else Some (m, B, cur));
      m \<leftarrow> put_payload_len m (p + 2) (of_nat (length pl));
      let pp = q + length p0;
      rec_hdr \<leftarrow> rd m p;
      m \<leftarrow> (if rec_hdr AND NDEF_ME_MASK = 0
           then shiftup m (pp - (length p0 - length pl)) pp (ulen cur pp) else Some m);
      m \<leftarrow> memcpy_opt m q p_new (length pl);
      Some (NDEF_OK, m, cur - delta) }"
    unfolding NDEF_MsgReplacePayload_def fold r f Option.bind.simps prod.case Let_def un pos lL0 [symmetric]
      B_def [symmetric] dw of_nat_less_u32 [OF bnd0 bnd] of_nat_less_u32 [OF bnd bnd0]
      u32_of_nat_less_256 [OF bnd] of_nat_gt_255 [OF bnd0] cw ud
    by (simp only: shrink nlt if_False if_True)
  have hd1: "(h1 AND NDEF_ME_MASK = 0) = (\<not> me)"
    unfolding h1_def by (rule hdr_with_payload(4) [OF t0 cn])
  define T G where "T = take (length pl) p0" and "G = drop (length pl) p0"
  have TG: "p0 = T @ G" "length T = length pl" using shrink by (simp_all add: T_def G_def)
  text \<open>What is left once the length field is written.\<close>
  have fin: "\<exists>C2. (do { rec_hdr \<leftarrow> rd (P @ h1 # tn # L1 @ X @ p0 @ Q @ C1) p;
      m \<leftarrow> (if rec_hdr AND NDEF_ME_MASK = 0
           then shiftup (P @ h1 # tn # L1 @ X @ p0 @ Q @ C1) (pp + length p0 - (length p0 - length pl))
             (pp + length p0) (ulen cur1 (pp + length p0))
           else Some (P @ h1 # tn # L1 @ X @ p0 @ Q @ C1));
      m \<leftarrow> memcpy_opt m pp p_new (length pl); Some (NDEF_OK, m, c) })
    = Some (NDEF_OK, P @ h1 # tn # L1 @ X @ pl @ Q @ C2, c) \<and> length C2 = length C1 + (length p0 - length pl)"
    if pp: "pp + dec = B" for pp C1 and c :: u32
  proof -
    let ?A = "P @ h1 # tn # L1 @ X"
    have 1: "length ?A = pp" using pp by (simp add: B_def lL1 P)
    have 2: "ulen cur1 (pp + length p0) = length Q"
      using cu uc1 lL1 lL0 1 P by (subst ulen_diff) auto
    have 3: "rd (?A @ p0 @ Q @ C1) p = Some h1" by (simp add: P [symmetric] rd_def)
    define C2 where "C2 = (if me then G @ C1 else drop (length Q) (G @ Q) @ C1)"
    have 4: "(if \<not> me then shiftup (P @ h1 # tn # L1 @ X @ p0 @ Q @ C1)
             (pp + length p0 - (length p0 - length pl)) (pp + length p0) (length Q)
           else Some (P @ h1 # tn # L1 @ X @ p0 @ Q @ C1)) = Some (?A @ T @ Q @ C2)"
      using shiftup_block [of "?A @ T" "pp + length pl" "pp + length p0" G Q "length Q" C1] 1 TG(2) Q0 shrink
      by (cases me) (simp_all add: TG(1) C2_def)
    have 5: "memcpy_opt (?A @ T @ Q @ C2) pp p_new (length pl) = Some (?A @ pl @ Q @ C2)"
      using 1 TG(2) src blit_mid [of ?A pp T pl "Q @ C2"]
      by (subst memcpy_opt_blit) simp_all
    have 6: "length C2 = length C1 + (length p0 - length pl)"
      using TG(2) by (auto simp: C2_def TG(1))
    show ?thesis
      using 3 6 unfolding 2
      by (intro exI [of _ C2]) (simp only: append_assoc append_Cons Option.bind.simps hd1 4 5 [unfolded append_assoc append_Cons] simp_thms)
  qed
  have put: "put_payload_len (P @ h1 # tn # U @ Y) (p + 2) (of_nat (length pl)) = Some (P @ h1 # tn # L1 @ Y)"
    if "length U = length L1" for U Y
    using put_payload_len_fill [of "P @ [h1, tn]" p U pl Y o0] that bnd P
    by (simp add: L1_def with_payload_def split: if_splits)
  have "\<exists>C2. NDEF_MsgReplacePayload m max_size cur (offset rs i) p_new (of_nat (length pl))
      = Some (NDEF_OK, P @ h1 # tn # L1 @ X @ pl @ Q @ C2, cur1 - delta)
      \<and> length C2 = length C + dec + (length p0 - length pl)"
  proof (cases "255 < length p0 \<and> length pl < 256")
    case True
    then have d3: "dec = 3" "cur - 3 = cur1" by (simp_all add: dec cur1_def)
    have "C \<noteq> []" using slack [OF d3(1)] cu P lL0 by (auto simp: m)
    then obtain c C' where C: "C = c # C'" by (cases C) auto
    obtain b U where L0: "L0 = b # U" "length U = 3" using lL0 True by (cases L0) auto
    define n where "n = length (X @ p0 @ Q @ [c])"
    have ul: "ulen cur (p + 5) = n"
      using cu True by (subst ulen_diff) (auto simp: n_def)
    define C1 where "C1 = c # drop n (U @ X @ p0 @ Q @ [c]) @ C'"
    have lC1: "length C1 = length C + 3" using L0(2) by (simp add: C1_def C n_def)
    have sh: "shiftup m (p + 2 + 1) (p + 2 + 4) (ulen cur (p + 5))
        = Some (P @ h0 # tn # [b] @ X @ p0 @ Q @ C1)"
    proof -
      have "shiftup ((P @ [h0, tn, b]) @ U @ (X @ p0 @ Q @ [c]) @ C') (p + 3) (p + 6) n
          = Some ((P @ [h0, tn, b]) @ (X @ p0 @ Q @ [c]) @ drop n (U @ X @ p0 @ Q @ [c]) @ C')"
        by (rule shiftup_block) (simp_all add: L0(2) P n_def)
      moreover have "p + 2 + 1 = p + 3" "p + 2 + 4 = p + 6" by simp_all
      ultimately show ?thesis by (simp only: ul m C L0(1) C1_def append_assoc append_Cons append_Nil)
    qed
    have up: "upd_byte (P @ h0 # Y) p (\<lambda>b. b OR NDEF_SR_MASK) = Some (P @ h1 # Y)" for Y
    proof -
      have n: "length pl < 256" using True by simp
      show ?thesis
        unfolding h0_def h1_def hdr_with_payload(3) [OF t0 cn n, symmetric]
        by (rule upd_byte_mid) (rule P)
    qed
    have "B - 3 + dec = B" by (simp add: d3 B_def lL1)
    moreover have "length [b] = length L1" using lL1 L0 by (simp add: d3)
    ultimately show ?thesis
      using fin [of "B - 3" C1 "cur1 - delta"] unfolding unfold lC1 d3(1)
      by (simp only: True if_True sh up put Option.bind.simps prod.case Let_def d3(2) simp_thms) 
  next
    case False
    then have d0: "dec = 0" "cur1 = cur" by (simp_all add: dec cur1_def)
    then have "h1 = h0" "length L0 = length L1" "B + dec = B"
      using hdr_with_payload(1) [OF t0 cn] False shrink
      by (auto simp: h1_def h0_def lL1 p0_def)
    then show ?thesis
      unfolding unfold using False fin [of B C "cur - delta"] put [of L0 "X @ p0 @ Q @ C"]
      by (simp only: if_False m d0 Option.bind.simps prod.case Let_def add_0_right simp_thms)
  qed
  then obtain C2 where C2: "NDEF_MsgReplacePayload m max_size cur (offset rs i) p_new (of_nat (length pl))
      = Some (NDEF_OK, P @ h1 # tn # L1 @ X @ pl @ Q @ C2, cur1 - delta)"
    "length C2 = length C + dec + (length p0 - length pl)" by blast
  let ?m = "P @ h1 # tn # L1 @ X @ pl @ Q @ C2"
  have "holds ?m (cur1 - delta) (rs[i := with_payload o0 pl])"
  proof (rule holdsI [where C = C2])
    show "?m = enc_msg (rs[i := with_payload o0 pl]) @ C2" by (simp add: new)
    show "unat (cur1 - delta) = length (enc_msg (rs[i := with_payload o0 pl]))"
      using shrink lL1 lL0 by (simp add: uc new cu P [symmetric] del: length_enc_from)
    show "\<forall>r \<in> set (rs[i := with_payload o0 pl]). wf_rec r"
      using holdsD(3) [OF h] wf by (auto dest!: set_update_subset_insert [THEN subsetD])
  qed
  moreover have "length ?m = length m"
    using C2(2) shrink lL1 by (simp add: m)
  ultimately show ?thesis using C2(1) by (metis o0_def)
qed

lemma NDEF_MsgReplacePayload_same:
  assumes h: "holds m cur rs" and i: "i < length rs" and cn: "canon (rs ! i)"
    and src: "src_holds p_new pl" and same: "length pl = length (r_payload (rs ! i))"
  shows "\<exists>m' cur'. NDEF_MsgReplacePayload m max_size cur (offset rs i) p_new (of_nat (length pl))
      = Some (NDEF_OK, m', cur') \<and> holds m' cur' (rs[i := with_payload (rs ! i) pl])
      \<and> length m' = length m"
proof -
  obtain P tn X Q C il q where
    m: "m = P @ hdr_byte (i = 0) (Suc i = length rs) (rs ! i) # tn # paylen_bytes (rs ! i) @ X
       @ r_payload (rs ! i) @ Q @ C"
    and P: "length P = offset rs i"
    and new: "\<And>pl. enc_msg (rs[i := with_payload (rs ! i) pl])
       = P @ hdr_byte (i = 0) (Suc i = length rs) (with_payload (rs ! i) pl) # tn
         # paylen_bytes (with_payload (rs ! i) pl) @ X @ pl @ Q"
    and r: "rd m (offset rs i) = Some (hdr_byte (i = 0) (Suc i = length rs) (rs ! i))"
    and f: "ndef_fields m (offset rs i + 1) (hdr_byte (i = 0) (Suc i = length rs) (rs ! i))
       = Some (tn, of_nat (length (r_payload (rs ! i))), il, q)"
    and pos: "q + unat tn + unat il = offset rs i + 2 + (if length (r_payload (rs ! i)) < 256 then 1 else 4) + length X"
    and cu: "unat cur = offset rs i + 2 + (if length (r_payload (rs ! i)) < 256 then 1 else 4) + length X
       + length (r_payload (rs ! i)) + length Q"
    by (rule payload_at [OF h i cn]) blast
  let ?r = "with_payload (rs ! i) pl"
  have wf: "wf_rec (rs ! i)" by (rule bspec [OF holdsD(3) [OF h] nth_mem [OF i]])
  then have t: "r_tnf (rs ! i) < 8" and bnd: "length pl < 4294967296"
    using same by (simp_all add: wf_rec_def)
  have lens: "hdr_byte (i = 0) (Suc i = length rs) ?r = hdr_byte (i = 0) (Suc i = length rs) (rs ! i)"
    "paylen_bytes ?r = paylen_bytes (rs ! i)"
    using hdr_with_payload(1) [OF t cn] cn same
    by (simp_all add: with_payload_def paylen_bytes_def canon_def)
  have l: "length (paylen_bytes (rs ! i)) = (if length (r_payload (rs ! i)) < 256 then 1 else 4)"
    using cn by (simp add: canon_def)
  let ?A = "P @ hdr_byte (i = 0) (Suc i = length rs) (rs ! i) # tn # paylen_bytes (rs ! i) @ X"
  have A: "length ?A = q + unat tn + unat il" using cn by (simp add: pos P canon_def)
  have un: "unat (of_nat (length pl) :: u32) = length pl" using bnd by (simp add: unat_of_nat)
  have "memcpy_opt (?A @ r_payload (rs ! i) @ Q @ C) (q + unat tn + unat il) p_new (length pl)
      = Some (blit (?A @ r_payload (rs ! i) @ Q @ C) (q + unat tn + unat il) pl)"
    using A same by (intro memcpy_opt_blit [OF src refl]) simp
  also have "blit (?A @ r_payload (rs ! i) @ Q @ C) (q + unat tn + unat il) pl = ?A @ pl @ Q @ C"
    using same by (intro blit_mid A) simp
  finally have cp: "memcpy_opt m (q + unat tn + unat il) p_new (length pl) = Some (?A @ pl @ Q @ C)"
    by (simp add: m)
  have "NDEF_MsgReplacePayload m max_size cur (offset rs i) p_new (of_nat (length pl))
      = Some (NDEF_OK, ?A @ pl @ Q @ C, cur)"
    unfolding NDEF_MsgReplacePayload_def r f Option.bind.simps prod.case Let_def un same [symmetric] cp
    by (simp only: less_irrefl if_False)
  moreover have "?A @ pl @ Q @ C = enc_msg (rs[i := ?r]) @ C" by (simp add: new lens)
  moreover have "wf_rec ?r" using wf same cn by (simp add: wf_rec_def with_payload_def canon_def)
  then have "\<forall>r \<in> set (rs[i := ?r]). wf_rec r"
    using holdsD(3) [OF h] by (auto dest!: set_update_subset_insert [THEN subsetD])
  moreover have "unat cur = length (enc_msg (rs[i := ?r]))"
    using l by (simp add: new lens cu P same del: length_enc_from length_paylen_bytes)
  moreover have "length (?A @ pl @ Q @ C) = length m" by (simp add: m same)
  ultimately show ?thesis by (metis holdsI)
qed

end
