(* ===== verification/Ndef_Ident.thy ===== *)
theory Ndef_Ident
  imports Ndef_Payload
begin

text \<open>
  \<open>NDEF_MsgReplaceId\<close>: an identifier appears, disappears or changes length, with its length field
  and the IL bit of the header.
\<close>

definition with_id :: "ndef_rec \<Rightarrow> byte list \<Rightarrow> ndef_rec" where
  "with_id r idf = r\<lparr>r_id := idf, r_il := idf \<noteq> []\<rparr>"

lemma hdr_byte_IL:
  assumes "r_tnf r < 8"
  shows "hdr_byte mb me r AND NOT NDEF_IL_MASK = hdr_byte mb me (with_id r [])"
    and "idf \<noteq> [] \<Longrightarrow> hdr_byte mb me r OR NDEF_IL_MASK = hdr_byte mb me (with_id r idf)"
    and "r_il r = (idf \<noteq> []) \<Longrightarrow> hdr_byte mb me (with_id r idf) = hdr_byte mb me r"
proof -
  have n: "r_tnf r AND NOT NDEF_IL_MASK = r_tnf r"
    using tnf_cases [OF assms] by (elim disjE; simp)
  show "hdr_byte mb me r AND NOT NDEF_IL_MASK = hdr_byte mb me (with_id r [])"
    unfolding hdr_byte_def bit.conj_disj_distrib2 n flag_and by (simp add: flag_def with_id_def)
  show "idf \<noteq> [] \<Longrightarrow> hdr_byte mb me r OR NDEF_IL_MASK = hdr_byte mb me (with_id r idf)"
    by (cases "r_il r") (simp_all add: hdr_byte_def flag_def or.assoc with_id_def)
  show "r_il r = (idf \<noteq> []) \<Longrightarrow> hdr_byte mb me (with_id r idf) = hdr_byte mb me r"
    by (simp add: hdr_byte_def with_id_def)
qed

text \<open>The steps of the operation over plain numbers, once the lengths in the record are read.\<close>

definition replace_id_steps ::
    "mem \<Rightarrow> u32 \<Rightarrow> u32 \<Rightarrow> nat \<Rightarrow> byte list option \<Rightarrow> nat \<Rightarrow> nat \<Rightarrow> nat \<Rightarrow> nat
      \<Rightarrow> (tNDEF_STATUS \<times> mem \<times> u32) option" where
  "replace_id_steps m max_size cur p_rec p_id new prev p_idlen_field ty_len =
    (let p_prev_id = p_idlen_field + (if prev = 0 then 0 else 1) + ty_len in
     if prev < new
        \<and> (if prev = 0 then max_size < cur + of_nat (new - prev) + 1
           else max_size < cur + of_nat (new - prev))
     then Some (NDEF_MSG_INSUFFICIENT_MEM, m, cur)
     else do {
       (m, p_prev_id, cur) \<leftarrow>
         (if prev < new then do {
            (m, p_prev_id, cur) \<leftarrow>
              (if prev = 0 then do {
                 m \<leftarrow> shiftdown m p_idlen_field (ulen cur p_idlen_field) 1;
                 m \<leftarrow> upd_byte m p_rec (\<lambda>b. b OR NDEF_IL_MASK);
                 Some (m, p_prev_id + 1, cur + 1) }
               else Some (m, p_prev_id, cur));
            m \<leftarrow> shiftdown m (p_prev_id + prev) (ulen cur (p_prev_id + prev)) (new - prev);
            Some (m, p_prev_id, cur + of_nat (new - prev)) }
          else if new < prev then do {
            m \<leftarrow> shiftup m (p_prev_id + prev - (prev - new)) (p_prev_id + prev) (ulen cur (p_prev_id + prev));
            let cur = cur - of_nat (prev - new);
            if new = 0 then do {
              m \<leftarrow> shiftup m p_idlen_field (p_idlen_field + 1)
                     (unat (cur - (of_nat p_idlen_field - 1)));
              m \<leftarrow> upd_byte m p_rec (\<lambda>b. b AND NOT NDEF_IL_MASK);
              Some (m, p_prev_id, cur - 1) }
            else Some (m, p_prev_id, cur) }
          else Some (m, p_prev_id, cur));
       m \<leftarrow> (if new \<noteq> 0
            then do { m \<leftarrow> wr m p_idlen_field (of_nat new);
                      memcpy_opt m p_prev_id p_id new }
            else Some m);
       Some (NDEF_OK, m, cur) })"

text \<open>What the operation reads of the record before it changes anything.\<close>

lemma ident_at:
  assumes h: "holds m cur rs" and i: "i < length rs" and il: "r_il (rs ! i) = (r_id (rs ! i) \<noteq> [])"
    and l: "length idf < 256"
  obtains P tn L ty R C where
    "m = P @ hdr_byte (i = 0) (Suc i = length rs) (rs ! i) # tn # L @ idlen_bytes (rs ! i) @ ty
       @ r_id (rs ! i) @ R @ C"
    "length P = offset rs i"
    "\<And>idf. enc_msg (rs[i := with_id (rs ! i) idf])
       = P @ hdr_byte (i = 0) (Suc i = length rs) (with_id (rs ! i) idf) # tn # L
         @ idlen_bytes (with_id (rs ! i) idf) @ ty @ idf @ R"
    "unat cur = offset rs i + 2 + length L + (if r_id (rs ! i) = [] then 0 else 1) + length ty
       + length (r_id (rs ! i)) + length R"
    "\<And>max_size p_id. NDEF_MsgReplaceId m max_size cur (offset rs i) p_id (of_nat (length idf))
       = replace_id_steps m max_size cur (offset rs i) p_id (length idf) (length (r_id (rs ! i)))
           (offset rs i + 2 + length L) (length ty)"
proof -
  obtain P Q C where
    m: "m = P @ enc_rec (i = 0) (Suc i = length rs) (rs ! i) @ Q @ C" and P: "length P = offset rs i"
    and cu: "unat cur = offset rs i + rec_len (rs ! i) + length Q"
    and wf0: "wf_rec (rs ! i)"
    and upd: "\<And>r. enc_msg (rs[i := r]) = P @ enc_rec (i = 0) (Suc i = length rs) r @ Q"
    by (rule at_record [OF h i]) blast
  define o0 h0 p L where "o0 = rs ! i" and "h0 = hdr_byte (i = 0) (Suc i = length rs) o0"
    and "p = offset rs i" and "L = paylen_bytes o0"
  define tn where "tn = (of_nat (length (r_type o0)) :: byte)"
  define prev new where "prev = length (r_id o0)" and "new = length idf"
  have t0: "r_tnf o0 < 8" using wf0 by (simp add: o0_def)
  have m': "m = P @ h0 # tn # L @ idlen_bytes o0 @ r_type o0 @ r_id o0 @ (r_payload o0 @ Q) @ C"
    using m by (simp add: enc_rec_def o0_def h0_def L_def tn_def)
  have rds: "rd m p = Some h0" "rd m (p + 1) = Some tn"
    by (simp_all add: m' p_def P [symmetric] rd_def nth_append)
  have fl: "(if h0 AND NDEF_SR_MASK \<noteq> 0 then p + 2 + 1 else p + 2 + 4) = p + 2 + length L"
    by (simp add: h0_def hdr_flags [OF t0] L_def)
  have b: "prev < 256" "new < 256" using wf0 l by (simp_all add: prev_def new_def wf_rec_def o0_def)
  have hil: "(h0 AND NDEF_IL_MASK = 0) = (prev = 0)" "r_il o0 = (prev \<noteq> 0)"
    using il by (simp_all add: h0_def hdr_flags [OF t0] prev_def) (simp_all add: o0_def)
  have idl: "(if h0 AND NDEF_IL_MASK \<noteq> 0
       then do { b \<leftarrow> rd m (p + 2 + length L); Some (b, p + 2 + length L + 1) }
       else Some (0, p + 2 + length L))
     = Some (of_nat prev, p + 2 + length L + (if prev = 0 then 0 else 1))"
  proof (cases "r_il o0")
    case True
    have "rd m (p + 2 + length L) = rd ((P @ h0 # tn # L) @ of_nat prev # r_type o0 @ r_id o0 @ (r_payload o0 @ Q) @ C) (p + 2 + length L)"
      using True by (simp add: m' idlen_bytes_def prev_def)
    also have "\<dots> = Some (of_nat prev)"
      by (subst rd_append_right) (simp_all add: p_def P)
    finally show ?thesis
      using True by (simp add: hil)
  next
    case False
    then show ?thesis by (simp add: hil)
  qed
  have sm: "unat tn = length (r_type o0)" "unat (of_nat prev :: byte) = prev" "unat (of_nat new :: byte) = new"
    using wf_rec_small(1) [OF wf0] b by (simp_all add: tn_def o0_def unat_of_nat)
  have lt: "((of_nat x :: byte) < of_nat y) = (x < y)" "((of_nat x :: byte) = 0) = (x = 0)"
    if "x < 256" "y < 256" for x y
    using that by (simp_all add: word_less_nat_alt word_unat_eq_iff unat_of_nat)
  have dl: "(ucast (of_nat x - of_nat y :: byte) :: u32) = of_nat (x - y)"
    "unat (of_nat x - of_nat y :: byte) = x - y" if "y \<le> x" "x < 256" for x y
  proof -
    have u: "(of_nat x - of_nat y :: byte) = of_nat (x - y)" using that by (simp add: of_nat_diff)
    show "(ucast (of_nat x - of_nat y :: byte) :: u32) = of_nat (x - y)"
      "unat (of_nat x - of_nat y :: byte) = x - y"
      unfolding u using that by (simp_all add: word_unat_eq_iff unat_of_nat del: of_nat_diff)
  qed
  note U = NDEF_MsgReplaceId_def replace_id_steps_def p_def [symmetric] o0_def [symmetric] prev_def [symmetric] new_def [symmetric]
             Let_def rds Option.bind.simps fl idl prod.case sm lt [OF b] lt [OF b(2,1)]
  show thesis
  proof (rule that [of P tn L "r_type o0" "r_payload o0 @ Q" C])
    show "unat cur = offset rs i + 2 + length L + (if r_id (rs ! i) = [] then 0 else 1) + length (r_type o0)
       + length (r_id (rs ! i)) + length (r_payload o0 @ Q)"
      using cu il by (simp add: rec_len_def hdr_len_def L_def o0_def)
    show "enc_msg (rs[i := with_id (rs ! i) idf])
       = P @ hdr_byte (i = 0) (Suc i = length rs) (with_id (rs ! i) idf) # tn # L
         @ idlen_bytes (with_id (rs ! i) idf) @ r_type o0 @ idf @ r_payload o0 @ Q" for idf
      by (simp add: upd enc_rec_def tn_def L_def o0_def with_id_def paylen_bytes_def)
    fix max_size p_id
    show "NDEF_MsgReplaceId m max_size cur (offset rs i) p_id (of_nat (length idf))
       = replace_id_steps m max_size cur (offset rs i) p_id (length idf) (length (r_id (rs ! i)))
           (offset rs i + 2 + length L) (length (r_type o0))"
    proof (cases "prev < new")
      case True
      note e = dl [OF less_imp_le [OF True] b(2)]
      show ?thesis unfolding U by (simp only: True e if_True simp_thms)
    next
      case False
      then consider "new < prev" | "new = prev" by linarith
      then show ?thesis
      proof cases
        case 1
        note e = dl [OF less_imp_le [OF 1] b(1)]
        show ?thesis unfolding U using False by (simp only: 1 e if_True if_False simp_thms)
      next
        case 2
        then show ?thesis unfolding U by (simp only: less_irrefl if_False simp_thms)
      qed
    qed
  qed (simp_all add: m' P o0_def h0_def [unfolded o0_def])
qed

lemma NDEF_MsgReplaceId_ok:
  assumes h: "holds m cur rs" and i: "i < length rs" and il: "r_il (rs ! i) = (r_id (rs ! i) \<noteq> [])"
    and l: "length idf < 256" and src: "src_holds p_id idf" and wf: "wf_rec (with_id (rs ! i) idf)"
    and fit: "length (r_id (rs ! i)) < length idf \<Longrightarrow>
      unat cur + length idf + (if r_id (rs ! i) = [] then 1 else 0) \<le> unat max_size + length (r_id (rs ! i))"
    and max: "unat max_size \<le> length m"
    and slack: "idf = [] \<Longrightarrow> r_id (rs ! i) \<noteq> [] \<Longrightarrow> unat cur + 2 \<le> length m + length (r_id (rs ! i))"
  shows "\<exists>m' cur'. NDEF_MsgReplaceId m max_size cur (offset rs i) p_id (of_nat (length idf))
      = Some (NDEF_OK, m', cur') \<and> holds m' cur' (rs[i := with_id (rs ! i) idf])
      \<and> length m' = length m"
proof -
  obtain P tn L ty R C where
    m: "m = P @ hdr_byte (i = 0) (Suc i = length rs) (rs ! i) # tn # L @ idlen_bytes (rs ! i) @ ty
       @ r_id (rs ! i) @ R @ C"
    and P: "length P = offset rs i"
    and new: "\<And>idf. enc_msg (rs[i := with_id (rs ! i) idf])
       = P @ hdr_byte (i = 0) (Suc i = length rs) (with_id (rs ! i) idf) # tn # L
         @ idlen_bytes (with_id (rs ! i) idf) @ ty @ idf @ R"
    and cu: "unat cur = offset rs i + 2 + length L + (if r_id (rs ! i) = [] then 0 else 1) + length ty
       + length (r_id (rs ! i)) + length R"
    and steps: "NDEF_MsgReplaceId m max_size cur (offset rs i) p_id (of_nat (length idf))
       = replace_id_steps m max_size cur (offset rs i) p_id (length idf) (length (r_id (rs ! i)))
           (offset rs i + 2 + length L) (length ty)"
    by (rule ident_at [OF h i il l]) blast
  define o0 id0 p where "o0 = rs ! i" and "id0 = r_id o0" and "p = offset rs i"
  define h0 h1 where "h0 = hdr_byte (i = 0) (Suc i = length rs) o0"
    and "h1 = hdr_byte (i = 0) (Suc i = length rs) (with_id o0 idf)"
  note fold = o0_def [symmetric] id0_def [symmetric] p_def [symmetric] h0_def [symmetric] h1_def [symmetric]
  note m = m [unfolded fold] and P = P [unfolded fold] and new = new [of idf, unfolded fold]
    and cu = cu [unfolded fold] and steps = steps [unfolded fold] and il = il [unfolded fold]
    and fit = fit [unfolded fold] and slack = slack [unfolded fold] and wf = wf [unfolded fold]
  define q where "q = p + 2 + length L"
  have t0: "r_tnf o0 < 8" using wf by (simp add: wf_rec_def with_id_def)
  have I0: "idlen_bytes o0 = (if id0 = [] then [] else [of_nat (length id0)])"
    using il by (simp add: idlen_bytes_def id0_def)
  have I1: "idlen_bytes (with_id o0 idf) = (if idf = [] then [] else [of_nat (length idf)])"
    by (simp add: idlen_bytes_def with_id_def)
  have id0: "length id0 < 256"
    using bspec [OF holdsD(3) [OF h] nth_mem [OF i]] by (simp add: wf_rec_def id0_def o0_def)
  text \<open>The two writes that end every branch with a new identifier.\<close>
  have fin: "(do { m \<leftarrow> wr (P @ h1 # tn # L @ x # ty @ V @ R @ D) q (of_nat (length idf));
      memcpy_opt m (q + 1 + length ty) p_id (length idf) })
    = Some (P @ h1 # tn # L @ idlen_bytes (with_id o0 idf) @ ty @ idf @ R @ D)"
    if "idf \<noteq> []" "length V = length idf" for x V D
  proof -
    let ?A = "P @ h1 # tn # L @ of_nat (length idf) # ty"
    have 1: "wr (P @ h1 # tn # L @ x # ty @ V @ R @ D) q (of_nat (length idf)) = Some (?A @ V @ R @ D)"
      using wr_bytes_fill [of "P @ h1 # tn # L" q "[x]" "[of_nat (length idf)]" "ty @ V @ R @ D"] P
      by (simp add: wr_eq_wr_bytes q_def)
    have "memcpy_opt (?A @ V @ R @ D) (q + 1 + length ty) p_id (length idf)
        = Some (blit (?A @ V @ R @ D) (q + 1 + length ty) idf)"
      using that P by (intro memcpy_opt_blit [OF src refl]) (simp add: q_def)
    also have "blit (?A @ V @ R @ D) (q + 1 + length ty) idf = ?A @ idf @ R @ D"
      using that P by (intro blit_mid) (simp_all add: q_def)
    finally show ?thesis using 1 that(1) by (simp add: I1)
  qed
  have close: ?thesis if "replace_id_steps m max_size cur p p_id (length idf) (length id0) q (length ty)
      = Some (NDEF_OK, P @ h1 # tn # L @ idlen_bytes (with_id o0 idf) @ ty @ idf @ R @ D, c)"
    "unat c = q + (if idf = [] then 0 else 1) + length ty + length idf + length R"
    "length D + (if idf = [] then 0 else 1) + length idf = length C + (if id0 = [] then 0 else 1) + length id0"
    for D c
  proof -
    let ?m = "P @ h1 # tn # L @ idlen_bytes (with_id o0 idf) @ ty @ idf @ R @ D"
    have "holds ?m c (rs[i := with_id o0 idf])"
    proof (rule holdsI [where C = D])
      show "?m = enc_msg (rs[i := with_id o0 idf]) @ D" by (simp add: new)
      show "unat c = length (enc_msg (rs[i := with_id o0 idf]))"
        using that(2) P by (simp add: new I1 q_def)
      show "\<forall>r \<in> set (rs[i := with_id o0 idf]). wf_rec r"
        using holdsD(3) [OF h] wf by (auto dest!: set_update_subset_insert [THEN subsetD])
    qed
    moreover have "length ?m = length m" using that(3) by (simp add: m I0 I1 split: if_splits)
    ultimately show ?thesis using steps that(1) by (metis o0_def p_def q_def)
  qed
  have sub: "unat (cur - of_nat k) = unat cur - k" if "k \<le> unat cur" for k
    using ulen_diff [OF that] by (simp add: ulen_def)
  have add: "unat (cur + of_nat k) = unat cur + k" if "unat cur + k \<le> unat max_size" for k
    using that unat_u32_less [of max_size] by (simp add: unat_word_ariths unat_of_nat)
  consider (appear) "id0 = []" "idf \<noteq> []" | (grow) "id0 \<noteq> []" "length id0 < length idf"
    | (shrink) "idf \<noteq> []" "length idf < length id0" | (vanish) "idf = []" "id0 \<noteq> []"
    | (same) "length idf = length id0" by fastforce
  then show ?thesis
  proof cases
    case grow
    let ?d = "length idf - length id0"
    have f: "unat cur + ?d \<le> unat max_size" using fit grow by simp
    define S D where "S = take ?d C" and "D = drop ?d C"
    have "length m = unat cur + length C" using cu P grow by (simp add: m I0)
    then have C: "C = S @ D" "length S = ?d" using f max by (simp_all add: S_def D_def)
    have h10: "h1 = h0"
      unfolding h0_def h1_def using grow il by (intro hdr_byte_IL(3) [OF t0]) (auto simp: id0_def)
    have ul: "ulen cur (q + 1 + length ty + length id0) = length R"
      using cu grow by (subst ulen_diff) (auto simp: q_def)
    define V where "V = id0 @ take ?d (R @ S)"
    have lV: "length V = length idf" using grow C by (simp add: V_def)
    have sh: "shiftdown m (q + 1 + length ty + length id0) (length R) ?d
        = Some (P @ h1 # tn # L @ of_nat (length id0) # ty @ V @ R @ D)"
      using shiftdown_block [of "P @ h1 # tn # L @ of_nat (length id0) # ty @ id0"
          "q + 1 + length ty + length id0" R "length R" S ?d D] C grow P
      by (simp add: m I0 h10 V_def q_def)
    have nf: "\<not> max_size < cur + of_nat ?d" using add [OF f] f by (simp add: word_less_nat_alt)
    have ne: "idf \<noteq> []" "(length idf \<noteq> 0) = True" "(length id0 = 0) = False" using grow by auto
    have "replace_id_steps m max_size cur p p_id (length idf) (length id0) q (length ty)
      = Some (NDEF_OK, P @ h1 # tn # L @ idlen_bytes (with_id o0 idf) @ ty @ idf @ R @ D, cur + of_nat ?d)"
      unfolding replace_id_steps_def Let_def
      by (simp only: ne grow nf if_True if_False Option.bind.simps prod.case ul sh fin [OF ne(1) lV] simp_thms)
    then show ?thesis
      by (rule close) (use add [OF f] cu grow C ne(1) in \<open>simp_all add: q_def\<close>)
  next
    case shrink
    let ?d = "length id0 - length idf"
    define T G where "T = take (length idf) id0" and "G = drop (length idf) id0"
    have TG: "id0 = T @ G" "length T = length idf" using shrink by (simp_all add: T_def G_def)
    define D where "D = drop (length R) (G @ R) @ C"
    have h10: "h1 = h0"
      unfolding h0_def h1_def using shrink il by (intro hdr_byte_IL(3) [OF t0]) (auto simp: id0_def)
    have ul: "ulen cur (q + 1 + length ty + length id0) = length R"
      using cu shrink by (subst ulen_diff) (auto simp: q_def)
    have e: "q + 1 + length ty + length id0 - ?d = q + 1 + length ty + length idf" using shrink by simp
    have sh: "shiftup m (q + 1 + length ty + length id0 - ?d) (q + 1 + length ty + length id0) (length R)
        = Some (P @ h1 # tn # L @ of_nat (length id0) # ty @ T @ R @ D)"
      unfolding e
      using shiftup_block [of "P @ h1 # tn # L @ of_nat (length id0) # ty @ T"
          "q + 1 + length ty + length idf" "q + 1 + length ty + length id0" G R "length R" C] TG(2) shrink P
      by (simp add: m I0 h10 TG(1) q_def D_def)
    have nl: "\<not> length id0 < length idf" "(length idf \<noteq> 0) = True" "(length id0 = 0) = False"
      "(length idf = 0) = False" using shrink by auto
    have "replace_id_steps m max_size cur p p_id (length idf) (length id0) q (length ty)
      = Some (NDEF_OK, P @ h1 # tn # L @ idlen_bytes (with_id o0 idf) @ ty @ idf @ R @ D, cur - of_nat ?d)"
      unfolding replace_id_steps_def Let_def
      by (simp only: nl shrink if_True if_False Option.bind.simps prod.case ul sh fin [OF shrink(1) TG(2)] simp_thms)
    then show ?thesis
      by (rule close) (use sub [of ?d] cu shrink TG(2) in \<open>auto simp: q_def D_def TG(1)\<close>)
  next
    case same
    have h10: "h1 = h0"
      unfolding h0_def h1_def using same il by (intro hdr_byte_IL(3) [OF t0]) (auto simp: id0_def)
    show ?thesis
    proof (cases "idf = []")
      case True
      then have "replace_id_steps m max_size cur p p_id (length idf) (length id0) q (length ty)
        = Some (NDEF_OK, P @ h1 # tn # L @ idlen_bytes (with_id o0 idf) @ ty @ idf @ R @ C, cur)"
        using same I1 by (simp add: replace_id_steps_def m I0 h10)
      then show ?thesis
        by (rule close) (use cu same True in \<open>simp_all add: q_def\<close>)
    next
      case False
      have m0: "m = P @ h1 # tn # L @ of_nat (length id0) # ty @ id0 @ R @ C"
        using False same by (auto simp: m I0 h10)
      have nl: "\<not> length id0 < length idf" "\<not> length idf < length id0" "(length idf \<noteq> 0) = True"
        "(length id0 = 0) = False" using same False by auto
      have "replace_id_steps m max_size cur p p_id (length idf) (length id0) q (length ty)
        = Some (NDEF_OK, P @ h1 # tn # L @ idlen_bytes (with_id o0 idf) @ ty @ idf @ R @ C, cur)"
        unfolding replace_id_steps_def Let_def
        by (simp only: nl if_True if_False Option.bind.simps prod.case simp_thms)
          (simp only: m0 fin [OF False same [symmetric]] Option.bind.simps)
      then show ?thesis
        by (rule close) (use cu same False in \<open>auto simp: q_def\<close>)
    qed
  next
    case appear
    let ?d = "length idf"
    have f: "unat cur + 1 + ?d \<le> unat max_size" using fit appear by simp
    define S D where "S = take ?d (drop 1 C)" and "D = drop ?d (drop 1 C)"
    have "length m = unat cur + length C" using cu P appear by (simp add: m I0)
    then obtain c where C: "C = c # S @ D" "length S = ?d"
      using f max by (cases C) (simp_all add: S_def D_def)
    have h10: "h0 OR NDEF_IL_MASK = h1"
      unfolding h0_def h1_def using appear by (intro hdr_byte_IL(2) [OF t0]) simp
    have ul: "ulen cur q = length (ty @ R)" "ulen (cur + 1) (q + 1 + length ty) = length R"
      using cu appear f add [of 1] by (subst ulen_diff; force simp: q_def)+
    obtain x W where xW: "take 1 ((ty @ R) @ [c]) = [x]" by (cases "ty @ R") auto
    have sh1: "shiftdown m q (length (ty @ R)) 1 = Some (P @ h0 # tn # L @ x # ty @ R @ S @ D)"
      using shiftdown_block [of "P @ h0 # tn # L" q "ty @ R" "length (ty @ R)" "[c]" 1 "S @ D"] P xW appear
      by (simp add: m I0 q_def C(1))
    have up: "upd_byte (P @ h0 # Y) p (\<lambda>b. b OR NDEF_IL_MASK) = Some (P @ h1 # Y)" for Y
      unfolding h10 [symmetric] by (rule upd_byte_mid) (rule P)
    define V where "V = take ?d (R @ S)"
    have lV: "length V = length idf" using C by (simp add: V_def)
    have sh2: "shiftdown (P @ h1 # tn # L @ x # ty @ R @ S @ D) (q + 1 + length ty) (length R) ?d
        = Some (P @ h1 # tn # L @ x # ty @ V @ R @ D)"
      using shiftdown_block [of "P @ h1 # tn # L @ x # ty" "q + 1 + length ty" R "length R" S ?d D] P C(2)
      by (simp add: q_def V_def)
    have c: "unat (cur + 1 + of_nat ?d) = unat cur + 1 + ?d"
      using add [of "1 + ?d"] f by (simp add: add.assoc)
    have nf: "\<not> max_size < cur + of_nat ?d + 1"
      using add [of "1 + ?d"] f by (simp add: word_less_nat_alt add.commute add.left_commute)
    have pe: "q + length ty + 1 = q + 1 + length ty" by simp
    have ne: "(0 < length idf) = True" "(length idf \<noteq> 0) = True" "length id0 = 0" using appear by auto
    have "replace_id_steps m max_size cur p p_id (length idf) (length id0) q (length ty)
      = Some (NDEF_OK, P @ h1 # tn # L @ idlen_bytes (with_id o0 idf) @ ty @ idf @ R @ D, cur + 1 + of_nat ?d)"
      unfolding replace_id_steps_def Let_def
      by (simp only: ne nf if_True if_False simp_thms Option.bind.simps prod.case diff_zero add_0_right pe
          ul sh1 up sh2 fin [OF appear(2) lV])
    then show ?thesis
      by (rule close) (use c cu appear C in \<open>simp_all add: q_def\<close>)
  next
    case vanish
    define x where "x = (of_nat (length id0) :: byte)"
    define D where "D = drop (length R) (id0 @ R) @ C"
    have lm: "length m = unat cur + length C" using cu P vanish by (simp add: m I0)
    then have lD: "length D = length id0 + length C" "2 \<le> length D"
      using slack vanish by (simp_all add: D_def)
    then obtain d1 d2 D' where D: "D = d1 # d2 # D'" by (metis Suc_le_length_iff numeral_2_eq_2)
    have e: "q + 1 + length ty + length id0 - length id0 = q + 1 + length ty" by simp
    have ul: "ulen cur (q + 1 + length ty + length id0) = length R"
      using cu vanish by (subst ulen_diff) (auto simp: q_def)
    have sh1: "shiftup m (q + 1 + length ty) (q + 1 + length ty + length id0) (length R)
        = Some (P @ h0 # tn # L @ x # ty @ R @ D)"
      using shiftup_block [of "P @ h0 # tn # L @ x # ty" "q + 1 + length ty" "q + 1 + length ty + length id0"
          id0 R "length R" C] P vanish
      by (simp add: m I0 q_def D_def x_def)
    define cur1 where "cur1 = cur - of_nat (length id0)"
    have c1: "unat cur1 = q + 1 + length ty + length R"
      using cu vanish sub [of "length id0"] by (simp add: cur1_def q_def)
    define n where "n = length ty + length R + 2"
    have n: "unat (cur1 - (of_nat q - 1)) = n"
    proof -
      have "(of_nat q - 1 :: u32) = of_nat (q - 1)" by (simp add: q_def)
      then show ?thesis
        using ulen_diff [of "q - 1" cur1] c1 by (simp add: ulen_def n_def q_def)
    qed
    define E where "E = d1 # d2 # drop n ([x] @ ty @ R @ [d1, d2]) @ D'"
    have sh2: "shiftup (P @ h0 # tn # L @ x # ty @ R @ D) q (q + 1) n = Some (P @ h0 # tn # L @ ty @ R @ E)"
    proof -
      have "shiftup ((P @ h0 # tn # L) @ [x] @ (ty @ R @ [d1, d2]) @ D') q (q + 1) n
          = Some ((P @ h0 # tn # L) @ (ty @ R @ [d1, d2]) @ drop n ([x] @ ty @ R @ [d1, d2]) @ D')"
        by (rule shiftup_block) (simp_all add: P q_def n_def)
      then show ?thesis by (simp only: D E_def append_assoc append_Cons append_Nil)
    qed
    have h10: "h0 AND NOT NDEF_IL_MASK = h1"
      unfolding h0_def h1_def vanish(1) by (rule hdr_byte_IL(1) [OF t0])
    have up: "upd_byte (P @ h0 # Y) p (\<lambda>b. b AND NOT NDEF_IL_MASK) = Some (P @ h1 # Y)" for Y
      unfolding h10 [symmetric] by (rule upd_byte_mid) (rule P)
    have nl: "length idf = 0" "(0 < length id0) = True" "(length id0 = 0) = False" "\<not> length id0 < 0"
      using vanish by auto
    have "replace_id_steps m max_size cur p p_id (length idf) (length id0) q (length ty)
      = Some (NDEF_OK, P @ h1 # tn # L @ ty @ R @ E, cur1 - 1)"
      unfolding replace_id_steps_def Let_def
      by (simp only: nl if_True if_False simp_thms Option.bind.simps prod.case diff_zero e
          ul sh1 cur1_def [symmetric] n sh2 up)
    moreover have "P @ h1 # tn # L @ ty @ R @ E
        = P @ h1 # tn # L @ idlen_bytes (with_id o0 idf) @ ty @ idf @ R @ E"
      using I1 vanish by simp
    moreover have "unat (cur1 - 1) = q + length ty + length R"
      using ulen_diff [of 1 cur1] c1 by (simp add: ulen_def)
    moreover have "length E = length D + 1" by (simp add: E_def D n_def)
    ultimately show ?thesis
      by (intro close [of E "cur1 - 1"]) (use vanish lD in simp_all)
  qed
qed

end
