(* ===== verification/Ndef_Dechunk.thy ===== *)
theory Ndef_Dechunk
  imports Ndef_Ident
begin

text \<open>
  Reading the fields of a record back, validation of an encoded message and of any first record,
  and \<open>NDEF_MsgCopyAndDechunk\<close>: a validated message whose records may be chunked is copied as the
  message of the joined records.
\<close>

section \<open>The fields of a record\<close>

lemma NDEF_RecGet_enc:
  assumes i: "i < length rs" and wf: "\<forall>r \<in> set rs. wf_rec r"
  shows "NDEF_RecGetType (enc_msg rs @ C) (offset rs i)
      = Some (if r_type (rs ! i) = [] then None else Some (offset rs i + hdr_len (rs ! i)),
          r_tnf (rs ! i), of_nat (length (r_type (rs ! i))))"
    and "NDEF_RecGetId (enc_msg rs @ C) (offset rs i)
      = Some (if r_id (rs ! i) = [] then None
              else Some (offset rs i + hdr_len (rs ! i) + length (r_type (rs ! i))),
          of_nat (length (r_id (rs ! i))))"
    and "NDEF_RecGetPayload (enc_msg rs @ C) (offset rs i)
      = Some (if r_payload (rs ! i) = [] then None
              else Some (offset rs i + hdr_len (rs ! i) + length (r_type (rs ! i)) + length (r_id (rs ! i))),
          of_nat (length (r_payload (rs ! i))))"
proof -
  have w: "wf_rec (rs ! i)" using assms by simp
  then have t: "r_tnf (rs ! i) < 8" by simp
  note at = length_enc_pre_offset [of True i rs, symmetric]
  let ?m = "enc_msg rs @ C" and ?p = "offset rs i" and ?r = "rs ! i"
  have m: "?m = enc_pre True (take i rs) @ enc_rec (i = 0) (Suc i = length rs) ?r
      @ (enc_from False (drop (Suc i) rs) @ C)" by (rule enc_msg_split [OF i])
  have h: "rd ?m ?p = Some (hdr_byte (i = 0) (Suc i = length rs) ?r)"
    unfolding m by (rule rd_hdr [OF at])
  have f: "ndef_fields ?m (?p + 1) (hdr_byte (i = 0) (Suc i = length rs) ?r)
      = Some (of_nat (length (r_type ?r)), of_nat (length (r_payload ?r)), of_nat (length (r_id ?r)), ?p + hdr_len ?r)"
    unfolding m by (rule ndef_fields_enc [OF w at])
  have z: "((of_nat (length (r_type ?r)) :: byte) = 0) = (r_type ?r = [])"
    "((of_nat (length (r_id ?r)) :: byte) = 0) = (r_id ?r = [])"
    "((of_nat (length (r_payload ?r)) :: u32) = 0) = (r_payload ?r = [])"
    using wf_rec_small [OF w] by (auto simp: word_unat_eq_iff)
  show "NDEF_RecGetPayload ?m ?p
      = Some (if r_payload ?r = [] then None
              else Some (?p + hdr_len ?r + length (r_type ?r) + length (r_id ?r)),
          of_nat (length (r_payload ?r)))"
    unfolding NDEF_RecGetPayload_def h Option.bind.simps f prod.case z wf_rec_small [OF w] ..
  have 1: "rd ?m (?p + 1) = Some (of_nat (length (r_type ?r)))"
    using f by (auto simp: ndef_fields_def split: bind_splits if_splits)
  show "NDEF_RecGetType ?m ?p
      = Some (if r_type ?r = [] then None else Some (?p + hdr_len ?r), r_tnf ?r, of_nat (length (r_type ?r)))"
    unfolding NDEF_RecGetType_def h 1 Option.bind.simps Let_def z hdr_flags [OF t]
    by (simp add: hdr_len_def)
  have 2: "rd ?m (if r_sr ?r then ?p + 2 + 1 else ?p + 2 + 4) = Some (of_nat (length (r_id ?r)))" if "r_il ?r"
    using f that by (auto simp: ndef_fields_def hdr_flags [OF t] split: bind_splits if_splits)
  show "NDEF_RecGetId ?m ?p
      = Some (if r_id ?r = [] then None else Some (?p + hdr_len ?r + length (r_type ?r)), of_nat (length (r_id ?r)))"
  proof (cases "r_il ?r")
    case True
    then show ?thesis
      unfolding NDEF_RecGetId_def h 1 Option.bind.simps Let_def hdr_flags [OF t]
      using 2 wf_rec_small [OF w] by (simp add: hdr_len_def z)
  next
    case False
    then have "r_id ?r = []" using w by (simp add: wf_rec_def)
    with False show ?thesis
      unfolding NDEF_RecGetId_def h 1 Option.bind.simps Let_def hdr_flags [OF t] by simp
  qed
qed

text \<open>What the pointers that these functions return point at.\<close>

lemma src_fields:
  assumes i: "i < length rs"
  defines "p \<equiv> offset rs i + hdr_len (rs ! i)"
  shows "src_holds (src_at (enc_msg rs @ C) (if r_type (rs ! i) = [] then None else Some p)) (r_type (rs ! i))"
    and "src_holds (src_at (enc_msg rs @ C)
      (if r_id (rs ! i) = [] then None else Some (p + length (r_type (rs ! i))))) (r_id (rs ! i))"
    and "src_holds (src_at (enc_msg rs @ C)
      (if r_payload (rs ! i) = [] then None
       else Some (p + length (r_type (rs ! i)) + length (r_id (rs ! i))))) (r_payload (rs ! i))"
proof -
  let ?r = "rs ! i"
  obtain H where H: "length H = p" and
    m: "enc_msg rs @ C = H @ r_type ?r @ r_id ?r @ r_payload ?r @ enc_from False (drop (Suc i) rs) @ C"
  proof
    show "enc_msg rs @ C = (enc_pre True (take i rs) @ hdr_byte (i = 0) (Suc i = length rs) ?r
        # of_nat (length (r_type ?r)) # paylen_bytes ?r @ idlen_bytes ?r)
      @ r_type ?r @ r_id ?r @ r_payload ?r @ enc_from False (drop (Suc i) rs) @ C"
      unfolding enc_msg_split [OF i] by (simp add: enc_rec_def)
  qed (simp add: p_def hdr_len_def length_enc_pre_offset del: length_enc_pre)
  show "src_holds (src_at (enc_msg rs @ C) (if r_type (rs ! i) = [] then None else Some p)) (r_type (rs ! i))"
    "src_holds (src_at (enc_msg rs @ C)
      (if r_id (rs ! i) = [] then None else Some (p + length (r_type (rs ! i))))) (r_id (rs ! i))"
    "src_holds (src_at (enc_msg rs @ C)
      (if r_payload (rs ! i) = [] then None
       else Some (p + length (r_type (rs ! i)) + length (r_id (rs ! i))))) (r_payload (rs ! i))"
    unfolding m by (simp_all add: src_holds_def src_at_def H)
qed

section \<open>Joining chunks\<close>

text \<open>
  The records of the output: \<open>join_rec\<close> handles one record of the source as the loop body does.
\<close>

definition join_rec :: "ndef_rec list \<Rightarrow> ndef_rec \<Rightarrow> ndef_rec list" where
  "join_rec out r =
     (if r_tnf r = NDEF_TNF_UNCHANGED
      then out[length out - 1 := with_payload (last out) (r_payload (last out) @ r_payload r)]
      else out @ [new_rec (r_tnf r) (r_type r) (r_id r) (r_payload r)])"

definition join_recs :: "ndef_rec list \<Rightarrow> ndef_rec list" where
  "join_recs rs = foldl join_rec [] rs"

text \<open>What the loop keeps of the output.\<close>

definition out_ok :: "mem \<Rightarrow> u32 \<Rightarrow> nat \<Rightarrow> ndef_rec list \<Rightarrow> nat \<Rightarrow> bool" where
  "out_ok d out_len p_prev out bound \<longleftrightarrow>
     holds d out_len out \<and> (out \<noteq> [] \<longrightarrow> p_prev = offset out (length out - 1))
     \<and> (\<forall>r \<in> set out. canon r) \<and> length (enc_msg out) \<le> bound"

lemma rec_len_new_rec: "wf_rec r \<Longrightarrow> rec_len (new_rec (r_tnf r) (r_type r) (r_id r) (r_payload r)) \<le> rec_len r"
  by (auto simp: rec_len_def hdr_len_def wf_rec_def)

lemma canon_new_rec [simp]: "canon (new_rec t ty idf pl)"
  by (simp add: canon_def)

lemma canon_with_payload: "canon r \<Longrightarrow> canon (with_payload r pl)"
  by (simp add: canon_def with_payload_def)

lemma dechunk_step_add:
  assumes i: "i < length rs" and wf: "\<forall>r \<in> set rs. wf_rec r" and ok: "out_ok d out_len p_prev out (offset rs i)"
    and max: "unat max_out = length (enc_msg rs)" "unat max_out \<le> length d"
    and tnf: "r_tnf (rs ! i) \<noteq> NDEF_TNF_UNCHANGED"
  shows "\<exists>d' len' p'. dechunk_step (enc_msg rs @ C) (offset rs i) d max_out out_len p_prev
      = Some (NDEF_OK, d', len', p') \<and> out_ok d' len' p' (join_rec out (rs ! i)) (offset rs (Suc i))
      \<and> length d' = length d"
proof -
  let ?r = "rs ! i"
  let ?n = "new_rec (r_tnf ?r) (r_type ?r) (r_id ?r) (r_payload ?r)"
  let ?out = "out @ [?n]"
  have w: "wf_rec ?r" using i wf by simp
  then have wn: "wf_rec ?n" by (simp add: wf_rec_def)
  note O = ok [unfolded out_ok_def]
  have h: "holds d out_len out" using O by simp
  have le: "length (enc_msg ?out) \<le> offset rs (Suc i)"
    using O rec_len_new_rec [OF w] i by (simp add: length_enc_msg offset_Suc)
  also have "offset rs (Suc i) \<le> length (enc_msg rs)" using i by (intro offset_le) simp
  finally have fits: "unat out_len + rec_len ?n \<le> unat max_out"
    using holdsD(2) [OF h] max by (simp add: length_enc_msg)
  let ?d = "enc_msg ?out @ drop (length (enc_msg ?out)) d"
  have len: "length (enc_msg ?out) = unat out_len + rec_len ?n"
    using holdsD(2) [OF h] by (simp add: length_enc_msg)
  then have b: "length (enc_msg ?out) < 4294967296"
    using fits unat_u32_less [of max_out] by simp
  have "dechunk_step (enc_msg rs @ C) (offset rs i) d max_out out_len p_prev
      = Some (NDEF_OK, ?d, of_nat (length (enc_msg ?out)), unat out_len)"
    unfolding dechunk_step_def NDEF_RecGet_enc [OF i wf] Option.bind.simps prod.case Let_def
      NDEF_MsgAddRec_fits [OF h wn src_fields [OF i] fits max(2)]
    using tnf by simp
  moreover have "out_ok ?d (of_nat (length (enc_msg ?out))) (unat out_len) ?out (offset rs (Suc i))"
  proof -
    have "holds ?d (of_nat (length (enc_msg ?out))) ?out"
      using holdsD(3) [OF h] wn b by (intro holdsI) (auto simp: unat_of_nat)
    moreover have "unat out_len = offset ?out (length ?out - 1)"
      using holdsD(2) [OF h] by (simp add: offset_def length_enc_msg)
    ultimately show ?thesis using O le by (simp add: out_ok_def)
  qed
  moreover have "length ?d = length d" using len fits max(2) by simp
  ultimately show ?thesis using tnf by (auto simp: join_rec_def)
qed

lemma with_payload_self: "canon r \<Longrightarrow> with_payload r (r_payload r) = r"
  by (simp add: with_payload_def canon_def)

lemma offset_update: "j \<le> i \<Longrightarrow> offset (rs[i := r]) j = offset rs j"
  by (simp add: offset_def)

lemma join_len:
  assumes "out \<noteq> []" "\<forall>r \<in> set out. canon r" "wf_rec r" "r_tnf r = NDEF_TNF_UNCHANGED"
  shows "length (enc_msg (join_rec out r)) =
      length (enc_msg out) + length (r_payload r)
        + (if length (r_payload (last out)) < 256 \<and> 255 < length (r_payload (last out)) + length (r_payload r)
           then 3 else 0)"
proof -
  obtain xs x where out: "out = xs @ [x]" using assms(1) by (metis append_butlast_last_id)
  have "canon x" using assms(2) out by simp
  then show ?thesis
    using assms(4) by (simp add: join_rec_def out length_enc_msg list_update_append rec_len_def hdr_len_def
        with_payload_def canon_def)
qed

lemma dechunk_step_append:
  assumes i: "i < length rs" and wf: "\<forall>r \<in> set rs. wf_rec r" and ok: "out_ok d out_len p_prev out (offset rs i)"
    and max: "unat max_out = length (enc_msg rs)" "unat max_out \<le> length d"
    and tnf: "r_tnf (rs ! i) = NDEF_TNF_UNCHANGED" and ne: "out \<noteq> []"
  shows "\<exists>d' len' p'. dechunk_step (enc_msg rs @ C) (offset rs i) d max_out out_len p_prev
      = Some (NDEF_OK, d', len', p') \<and> out_ok d' len' p' (join_rec out (rs ! i)) (offset rs (Suc i))
      \<and> length d' = length d"
proof -
  let ?r = "rs ! i" and ?k = "length out - 1" and ?l = "last out"
  have w: "wf_rec ?r" using i wf by simp
  note O = ok [unfolded out_ok_def]
  have h: "holds d out_len out" and p: "p_prev = offset out ?k" and cs: "\<forall>r \<in> set out. canon r"
    using O ne by auto
  have k: "?k < length out" "out ! ?k = ?l" "Suc ?k = length out"
    using ne by (simp_all add: last_conv_nth)
  have cl: "canon ?l" using cs ne by simp
  let ?n = "with_payload ?l (r_payload ?l @ r_payload ?r)"
  have join: "join_rec out ?r = out[?k := ?n]" using tnf by (simp add: join_rec_def)
  have le: "length (enc_msg (join_rec out ?r)) \<le> offset rs (Suc i)"
    using O i rec_len_ge_3 [of ?r] by (simp add: join_len [OF ne cs w tnf] offset_Suc rec_len_def hdr_len_def)
  also have os: "offset rs (Suc i) \<le> length (enc_msg rs)" using i by (intro offset_le) simp
  finally have lm: "length (enc_msg (join_rec out ?r)) \<le> unat max_out" by (simp add: max)
  then have fits: "unat out_len + length (r_payload ?r)
      + (if length (r_payload ?l) < 256 \<and> 255 < length (r_payload ?l) + length (r_payload ?r) then 3 else 0)
      \<le> unat max_out"
    using holdsD(2) [OF h] by (simp add: join_len [OF ne cs w tnf])
  have wl: "wf_rec ?l" using holdsD(3) [OF h] ne by simp
  have wn: "wf_rec ?n"
  proof -
    have "rec_len ?n \<le> length (enc_msg (out[?k := ?n]))"
      using k(1) by (simp add: length_enc_msg member_le_sum_list set_update_memI)
    then have "rec_len ?n < 4294967296"
      using lm unat_u32_less [of max_out] by (simp add: join)
    then show ?thesis using wl by (auto simp: wf_rec_def with_payload_def rec_len_def)
  qed
  show ?thesis
  proof (cases "r_payload ?r = []")
    case True
    then have "?n = ?l" using cl by (simp add: with_payload_self)
    then have j: "join_rec out ?r = out" using k(1,2) by (simp add: join) (metis list_update_id)
    have "dechunk_step (enc_msg rs @ C) (offset rs i) d max_out out_len p_prev
        = Some (NDEF_OK, d, out_len, p_prev)"
      unfolding dechunk_step_def NDEF_RecGet_enc [OF i wf] Option.bind.simps prod.case
      using True tnf by simp
    moreover have "out_ok d out_len p_prev out (offset rs (Suc i))"
      using ok i by (simp add: out_ok_def offset_Suc)
    ultimately show ?thesis using j by auto
  next
    case False
    let ?q = "offset rs i + hdr_len ?r + length (r_type ?r) + length (r_id ?r)"
    have src: "src_holds (Some (drop ?q (enc_msg rs @ C))) (r_payload ?r)"
      using src_fields(3) [OF i, of C] False by (simp add: src_at_def)
    have app: "\<exists>m' cur'. NDEF_MsgAppendPayload d max_out out_len p_prev (drop ?q (enc_msg rs @ C))
        (of_nat (length (r_payload ?r))) = Some (NDEF_OK, m', cur') \<and> holds m' cur' (out[?k := ?n])
        \<and> length m' = length d"
      using NDEF_MsgAppendPayload_ok [OF h k(1), of "drop ?q (enc_msg rs @ C)" "r_payload ?r" max_out]
        k cl src wn fits max(2) by (simp add: p with_payload_def)
    then obtain d' len' where app: "NDEF_MsgAppendPayload d max_out out_len p_prev (drop ?q (enc_msg rs @ C))
        (of_nat (length (r_payload ?r))) = Some (NDEF_OK, d', len')" "holds d' len' (out[?k := ?n])"
        "length d' = length d" by blast
    have "dechunk_step (enc_msg rs @ C) (offset rs i) d max_out out_len p_prev
        = Some (NDEF_OK, d', len', p_prev)"
      unfolding dechunk_step_def NDEF_RecGet_enc [OF i wf] Option.bind.simps prod.case
      using False tnf app(1) by simp
    moreover have "out_ok d' len' p_prev (join_rec out ?r) (offset rs (Suc i))"
      using app(2) le p cs canon_with_payload [OF cl] unfolding join
      by (auto simp: out_ok_def offset_update dest!: set_update_subset_insert [THEN subsetD])
    ultimately show ?thesis using app(3) by blast
  qed
qed

lemma join_rec_ne: "out \<noteq> [] \<or> r_tnf r \<noteq> NDEF_TNF_UNCHANGED \<Longrightarrow> join_rec out r \<noteq> []"
  by (auto simp: join_rec_def)

lemma dechunk_loop_enc:
  assumes "i < length rs" "\<forall>r \<in> set rs. wf_rec r" "out_ok d out_len p_prev out (offset rs i)"
    and "unat max_out = length (enc_msg rs)" "unat max_out \<le> length d"
    and "out \<noteq> [] \<or> r_tnf (rs ! i) \<noteq> NDEF_TNF_UNCHANGED"
  shows "\<exists>d' len' p'. dechunk_loop (enc_msg rs @ C) (offset rs i) d max_out out_len p_prev
      = Some (NDEF_OK, d', len') \<and> out_ok d' len' p' (foldl join_rec out (drop i rs)) (length (enc_msg rs))
      \<and> length d' = length d"
  using assms
proof (induction "length rs - i" arbitrary: i d out_len p_prev out rule: less_induct)
  case less
  note P = less.prems
  obtain d1 len1 p1 where step: "dechunk_step (enc_msg rs @ C) (offset rs i) d max_out out_len p_prev
      = Some (NDEF_OK, d1, len1, p1)"
    and ok: "out_ok d1 len1 p1 (join_rec out (rs ! i)) (offset rs (Suc i))" and len: "length d1 = length d"
    using dechunk_step_add [OF P(1-5)] dechunk_step_append [OF P(1-5)] P(6) by blast
  have dr: "drop i rs = rs ! i # drop (Suc i) rs" using P(1) by (simp add: Cons_nth_drop_Suc)
  show ?case
  proof (cases "Suc i < length rs")
    case True
    have "\<exists>d' len' p'. dechunk_loop (enc_msg rs @ C) (offset rs (Suc i)) d1 max_out len1 p1
        = Some (NDEF_OK, d', len')
        \<and> out_ok d' len' p' (foldl join_rec (join_rec out (rs ! i)) (drop (Suc i) rs)) (length (enc_msg rs))
        \<and> length d' = length d1"
      using True P(1,4,5,6) len join_rec_ne by (intro less.hyps P(2) ok) auto
    then show ?thesis
      by (subst dechunk_loop.simps)
        (simp add: step NDEF_MsgGetNextRec_enc [OF P(1,2)] True dr len)
  next
    case False
    then have "offset rs (Suc i) = length (enc_msg rs)"
      using P(1) offset_length [of rs] by (metis Suc_lessI)
    then show ?thesis
      using ok False P(1) len
      by (subst dechunk_loop.simps) (auto simp: step NDEF_MsgGetNextRec_enc [OF P(1,2)] dr)
  qed
qed

section \<open>Validation of an encoded message\<close>

lemma wf_msg_first: "wf_msg allow rs \<Longrightarrow> rs \<noteq> [] \<and> r_tnf (rs ! 0) \<noteq> NDEF_TNF_UNCHANGED"
  by (cases rs) (auto simp: wf_msg_def)

lemma holds_lens_fit:
  assumes "holds m len rs" "placed a m"
  shows "lens_fit a m (unat len) 0"
proof -
  note D = holdsD [OF assms(1)]
  have "lens_fit a (enc_msg rs @ drop (unat len) m) (unat len) 0"
    using lens_fit_enc [OF D(3), of a "[]" True "drop (unat len) m"] D(2,4) assms(2)
    by (simp add: enc_msg_def placed_def)
  then show ?thesis by (simp only: D(1) [symmetric])
qed

lemma validate_loop_offsets:
  assumes "placed a m" "unat len \<le> length m" "lens_fit a m (unat len) 0"
  shows "validate_loop a m (a + len) allow a 0 False = validate_walk m (unat len) allow 0 0 False"
  using validate_loop_walk [OF assms, of allow 0 False] assms(1)
  by (simp add: placed_def)

lemma NDEF_MsgValidate_holds:
  assumes "holds m len rs" "wf_msg allow rs" "placed a m"
  shows "NDEF_MsgValidate a (Some m) len allow = Some NDEF_OK"
proof -
  note D = holdsD [OF assms(1)]
  have ne: "rs \<noteq> []" and wf: "\<forall>r \<in> set rs. wf_rec r \<and> content_ok r" and ch: "chunks_ok allow False rs"
    using assms(2) by (auto simp: wf_msg_def)
  obtain r xs where rs: "rs = r # xs" using ne by (cases rs) auto
  have t: "r_tnf r < 8" using wf by (simp add: rs)
  have l: "\<not> len < 3"
    using rec_len_ge_3 [of r] D(2) by (simp add: word_less_nat_alt length_enc_msg rs)
  have h: "rd m 0 = Some (hdr_byte True (xs = []) r)"
    by (subst D(1)) (simp add: rs enc_msg_def enc_rec_def)
  have "validate_walk (enc_msg rs @ drop (unat len) m) (unat len) allow 0 0 False = Some NDEF_OK"
    using validate_walk_enc [OF ne wf ch, of True 0 "[]" "drop (unat len) m"]
    by (simp add: enc_msg_def D(2))
  then have "validate_walk m (unat len) allow 0 0 False = Some NDEF_OK"
    by (simp only: D(1) [symmetric])
  then have v: "validate_loop a m (a + len) allow a 0 False = Some NDEF_OK"
    using validate_loop_offsets [OF assms(3) _ holds_lens_fit [OF assms(1,3)]] D(4) by simp
  show ?thesis
    using wf_msg_first [OF assms(2)] l h v
    by (simp add: NDEF_MsgValidate_def hdr_flags [OF t] rs)
qed

section \<open>The whole operation\<close>

lemma NDEF_MsgInit_ok:
  "unat n \<le> length m \<Longrightarrow> NDEF_MsgInit m n = Some (replicate (unat n) 0 @ drop (unat n) m, 0)"
  by (simp add: NDEF_MsgInit_def wr_bytes_def)

lemma NDEF_MsgCopyAndDechunk_joins:
  assumes h: "holds s src_len rs" and wf: "wf_msg True rs" and pl: "placed a s" and d: "unat src_len \<le> length d"
  shows "\<exists>d' len p'. NDEF_MsgCopyAndDechunk a (Some s) src_len d = Some (NDEF_OK, d', Some len)
      \<and> out_ok d' len p' (join_recs rs) (unat src_len) \<and> length d' = length d"
proof -
  note D = holdsD [OF h] and F = wf_msg_first [OF wf]
  let ?d = "replicate (unat src_len) 0 @ drop (unat src_len) d"
  have i: "0 < length rs" using F by simp
  have ok: "out_ok ?d 0 0 [] (offset rs 0)" by (simp add: out_ok_def holds_def)
  obtain d' len' p' where "dechunk_loop (enc_msg rs @ drop (unat src_len) s) (offset rs 0) ?d src_len 0 0
      = Some (NDEF_OK, d', len')" "out_ok d' len' p' (foldl join_rec [] (drop 0 rs)) (length (enc_msg rs))"
    "length d' = length ?d"
    using dechunk_loop_enc [OF i D(3) ok D(2), of "drop (unat src_len) s"] F d by auto
  then show ?thesis
    using NDEF_MsgValidate_holds [OF h wf pl] d
    unfolding D(1) [symmetric]
    by (auto simp: NDEF_MsgCopyAndDechunk_def NDEF_MsgInit_ok join_recs_def D(2))
qed

text \<open>The result has no chunks left, and it is valid unless an empty record was chunked.\<close>

definition plain_rec :: "ndef_rec \<Rightarrow> bool" where
  "plain_rec r \<longleftrightarrow> content_ok r \<and> \<not> r_cf r \<and> r_tnf r \<noteq> NDEF_TNF_UNCHANGED"

lemma last_join_rec:
  "out \<noteq> [] \<or> r_tnf r \<noteq> NDEF_TNF_UNCHANGED \<Longrightarrow>
     r_tnf (last (join_rec out r)) = (if r_tnf r = NDEF_TNF_UNCHANGED then r_tnf (last out) else r_tnf r)"
  by (auto simp: join_rec_def with_payload_def last_conv_nth)

lemma join_rec_plain:
  assumes "content_ok r" "\<forall>x \<in> set out. plain_rec x"
    and "r_tnf r = NDEF_TNF_UNCHANGED \<Longrightarrow> out \<noteq> [] \<and> r_tnf (last out) \<noteq> NDEF_TNF_EMPTY"
  shows "\<forall>x \<in> set (join_rec out r). plain_rec x"
proof (cases "r_tnf r = NDEF_TNF_UNCHANGED")
  case True
  then have c: "out \<noteq> []" "r_tnf (last out) \<noteq> NDEF_TNF_EMPTY" using assms(3) by auto
  then have "plain_rec (last out)" using assms(2) by auto
  then have "plain_rec (with_payload (last out) pl)" for pl
    using c by (simp add: plain_rec_def content_ok_def with_payload_def)
  then show ?thesis
    using True assms(2) by (auto simp: join_rec_def dest!: set_update_subset_insert [THEN subsetD])
next
  case False
  then show ?thesis using assms(1,2) by (auto simp: join_rec_def plain_rec_def content_ok_def)
qed

lemma foldl_join_plain:
  assumes "chunks_ok True c rs" "\<forall>r \<in> set rs. content_ok r \<and> \<not> (r_cf r \<and> r_tnf r = NDEF_TNF_EMPTY)"
    and "\<forall>x \<in> set out. plain_rec x" "c \<Longrightarrow> out \<noteq> [] \<and> r_tnf (last out) \<noteq> NDEF_TNF_EMPTY"
  shows "\<forall>x \<in> set (foldl join_rec out rs). plain_rec x"
  using assms
proof (induction rs arbitrary: out c)
  case (Cons r rs)
  have u: "r_tnf r = NDEF_TNF_UNCHANGED \<Longrightarrow> out \<noteq> [] \<and> r_tnf (last out) \<noteq> NDEF_TNF_EMPTY"
    using Cons.prems(1,4) by (cases c) auto
  have "\<forall>x \<in> set (foldl join_rec (join_rec out r) rs). plain_rec x"
  proof (rule Cons.IH [of "r_cf r"])
    show "\<forall>x \<in> set (join_rec out r). plain_rec x"
      using Cons.prems(2,3) u by (intro join_rec_plain) auto
    show "join_rec out r \<noteq> [] \<and> r_tnf (last (join_rec out r)) \<noteq> NDEF_TNF_EMPTY" if "r_cf r"
    proof -
      have "out \<noteq> [] \<or> r_tnf r \<noteq> NDEF_TNF_UNCHANGED" using u by auto
      then show ?thesis
        using u that Cons.prems(2) join_rec_ne by (auto simp: last_join_rec)
    qed
  qed (use Cons.prems in auto)
  then show ?case by simp
qed simp

lemma chunks_ok_plain: "\<forall>x \<in> set rs. plain_rec x \<Longrightarrow> chunks_ok False False rs"
  by (induction rs) (auto simp: plain_rec_def)

lemma foldl_join_ne: "out \<noteq> [] \<Longrightarrow> foldl join_rec out rs \<noteq> []"
  by (induction rs arbitrary: out) (simp_all add: join_rec_ne)

lemma join_recs_wf:
  assumes "wf_msg True rs" "\<forall>r \<in> set rs. \<not> (r_cf r \<and> r_tnf r = NDEF_TNF_EMPTY)"
    and "\<forall>r \<in> set (join_recs rs). wf_rec r"
  shows "wf_msg False (join_recs rs)"
proof -
  have p: "\<forall>x \<in> set (join_recs rs). plain_rec x"
    unfolding join_recs_def using assms(1,2) by (intro foldl_join_plain [of False]) (auto simp: wf_msg_def)
  obtain r xs where "rs = r # xs" "r_tnf r \<noteq> NDEF_TNF_UNCHANGED"
    using wf_msg_first [OF assms(1)] by (cases rs) auto
  then have "join_recs rs \<noteq> []" by (simp add: join_recs_def foldl_join_ne join_rec_ne)
  then show ?thesis using p assms(3) chunks_ok_plain [OF p] by (auto simp: wf_msg_def plain_rec_def)
qed

text \<open>
  The contract under which the rest of the stack and its applications use the NDEF operations: a
  store that represents a list of records, with room for more. The clients of the contract, here
  the building and the emptying of a whole message, are proved once inside the locale; the
  interpretation on \<open>NDEF_MsgAddRec\<close>, \<open>NDEF_MsgRemoveRec\<close> and \<open>NDEF_MsgGetNumRecs\<close> discharges it.
\<close>

section \<open>The contract\<close>

locale record_store =
  fixes rep :: "'s \<Rightarrow> 'r list \<Rightarrow> bool"
    and good :: "'r \<Rightarrow> bool"
    and need :: "'r \<Rightarrow> nat"
    and room :: "'s \<Rightarrow> nat"
    and put :: "'r \<Rightarrow> 's \<Rightarrow> 's option"
    and del :: "nat \<Rightarrow> 's \<Rightarrow> 's option"
  assumes put_ok: "rep s rs \<Longrightarrow> good r \<Longrightarrow> need r \<le> room s \<Longrightarrow>
      \<exists>s'. put r s = Some s' \<and> rep s' (rs @ [r]) \<and> room s' + need r = room s"
    and put_full: "rep s rs \<Longrightarrow> good r \<Longrightarrow> room s < need r \<Longrightarrow> put r s = None"
    and del_ok: "rep s rs \<Longrightarrow> i < length rs \<Longrightarrow>
      \<exists>s'. del i s = Some s' \<and> rep s' (remove_at i rs) \<and> room s' = room s + need (rs ! i)"
begin

fun put_all :: "'r list \<Rightarrow> 's \<Rightarrow> 's option" where
  "put_all [] s = Some s"
| "put_all (r # rs) s = Option.bind (put r s) (put_all rs)"

fun del_all :: "nat \<Rightarrow> 's \<Rightarrow> 's option" where
  "del_all 0 s = Some s"
| "del_all (Suc n) s = Option.bind (del 0 s) (del_all n)"

lemma put_all_ok:
  "rep s rs \<Longrightarrow> \<forall>r \<in> set xs. good r \<Longrightarrow> sum_list (map need xs) \<le> room s \<Longrightarrow>
     \<exists>s'. put_all xs s = Some s' \<and> rep s' (rs @ xs) \<and> room s' + sum_list (map need xs) = room s"
proof (induction xs arbitrary: s rs)
  case (Cons x xs)
  obtain s1 where s1: "put x s = Some s1" "rep s1 (rs @ [x])" "room s1 + need x = room s"
    using put_ok [OF Cons.prems(1), of x] Cons.prems by auto
  then obtain s2 where "put_all xs s1 = Some s2" "rep s2 ((rs @ [x]) @ xs)"
    "room s2 + sum_list (map need xs) = room s1"
    using Cons.IH [OF s1(2)] Cons.prems by auto
  then show ?case using s1 by auto
qed simp

lemma put_all_full:
  "rep s rs \<Longrightarrow> \<forall>r \<in> set xs. good r \<Longrightarrow> room s < sum_list (map need xs) \<Longrightarrow> put_all xs s = None"
proof (induction xs arbitrary: s rs)
  case (Cons x xs)
  show ?case
  proof (cases "need x \<le> room s")
    case True
    then obtain s1 where "put x s = Some s1" "rep s1 (rs @ [x])" "room s1 + need x = room s"
      using put_ok [OF Cons.prems(1), of x] Cons.prems by auto
    then show ?thesis using Cons.IH [of s1] Cons.prems by auto
  next
    case False
    then show ?thesis using put_full [OF Cons.prems(1), of x] Cons.prems by simp
  qed
qed simp

lemma del_all_ok:
  "rep s rs \<Longrightarrow> \<exists>s'. del_all (length rs) s = Some s' \<and> rep s' [] \<and> room s' = room s + sum_list (map need rs)"
proof (induction rs arbitrary: s)
  case (Cons r rs)
  obtain s1 where s1: "del 0 s = Some s1" "rep s1 rs" "room s1 = room s + need r"
    using del_ok [OF Cons.prems, of 0] by (auto simp: remove_at_def)
  then show ?case using Cons.IH [OF s1(2)] by auto
qed simp

text \<open>Building a message and taking it apart again gives all the room back.\<close>

lemma put_del_all:
  assumes "rep s []" "\<forall>r \<in> set xs. good r" "sum_list (map need xs) \<le> room s"
  shows "\<exists>s'. Option.bind (put_all xs s) (del_all (length xs)) = Some s' \<and> rep s' [] \<and> room s' = room s"
proof -
  obtain s1 where "put_all xs s = Some s1" "rep s1 xs" "room s1 + sum_list (map need xs) = room s"
    using put_all_ok [OF assms] by auto
  then show ?thesis using del_all_ok [of s1 xs] by auto
qed

end

section \<open>The NDEF operations as a store\<close>

record ndef_store =
  st_mem :: mem
  st_max :: u32
  st_cur :: u32

definition store_rep :: "ndef_store \<Rightarrow> ndef_rec list \<Rightarrow> bool" where
  "store_rep s rs \<longleftrightarrow> holds (st_mem s) (st_cur s) rs \<and> unat (st_max s) \<le> length (st_mem s)
     \<and> unat (st_cur s) \<le> unat (st_max s) \<and> unat (st_max s) < 2147483648"

definition store_room :: "ndef_store \<Rightarrow> nat" where
  "store_room s = unat (st_max s) - unat (st_cur s)"

text \<open>
  The records that the operation can write. A record and a store are each below \<open>2 ^ 31\<close> bytes,
  so that the size check of \<open>NDEF_MsgAddRec\<close>, a sum in \<open>UINT32\<close>, does not wrap.
\<close>

definition addable :: "ndef_rec \<Rightarrow> bool" where
  "addable r \<longleftrightarrow> wf_rec r \<and> rec_len r < 2147483648 \<and> r = new_rec (r_tnf r) (r_type r) (r_id r) (r_payload r)"

definition store_result :: "u32 \<Rightarrow> (tNDEF_STATUS \<times> mem \<times> u32) option \<Rightarrow> ndef_store option" where
  "store_result mx res = (case res of None \<Rightarrow> None
     | Some (st, m, cur) \<Rightarrow>
         if st = NDEF_OK then Some \<lparr>st_mem = m, st_max = mx, st_cur = cur\<rparr> else None)"

definition store_add :: "ndef_rec \<Rightarrow> ndef_store \<Rightarrow> ndef_store option" where
  "store_add r s = store_result (st_max s)
     (NDEF_MsgAddRec (st_mem s) (st_max s) (st_cur s) (r_tnf r)
        (Some (r_type r)) (of_nat (length (r_type r))) (Some (r_id r)) (of_nat (length (r_id r)))
        (Some (r_payload r)) (of_nat (length (r_payload r))))"

definition store_remove :: "nat \<Rightarrow> ndef_store \<Rightarrow> ndef_store option" where
  "store_remove i s = store_result (st_max s) (NDEF_MsgRemoveRec (st_mem s) (st_cur s) (int i))"

lemma src_holds_self [simp]: "src_holds (Some bs) bs"
  by (simp add: src_holds_def)

lemma rec_len_le_msg: "r \<in> set rs \<Longrightarrow> rec_len r \<le> length (enc_msg rs)"
  by (simp add: length_enc_msg member_le_sum_list)

lemma length_remove_at:
  "i < length rs \<Longrightarrow> length (enc_msg (remove_at i rs)) + rec_len (rs ! i) = length (enc_msg rs)"
proof -
  assume i: "i < length rs"
  have "map rec_len rs = map rec_len (take i rs) @ rec_len (rs ! i) # map rec_len (drop (Suc i) rs)"
    using id_take_nth_drop [OF i] by (metis list.simps(9) map_append)
  then show ?thesis by (simp add: length_enc_msg remove_at_def)
qed

interpretation ndef: record_store store_rep addable rec_len store_room store_add store_remove
proof
  fix s rs r
  assume s: "store_rep s rs" and r: "addable r"
  have h: "holds (st_mem s) (st_cur s) rs" and mx: "unat (st_max s) \<le> length (st_mem s)"
    and cu: "unat (st_cur s) \<le> unat (st_max s)" using s by (auto simp: store_rep_def)
  have wf: "wf_rec (new_rec (r_tnf r) (r_type r) (r_id r) (r_payload r))"
    and rr: "new_rec (r_tnf r) (r_type r) (r_id r) (r_payload r) = r" using r by (auto simp: addable_def)
  { assume fit: "rec_len r \<le> store_room s"
    let ?rs = "rs @ [r]"
    have f: "unat (st_cur s) + rec_len (new_rec (r_tnf r) (r_type r) (r_id r) (r_payload r)) \<le> unat (st_max s)"
      using fit cu by (simp add: rr store_room_def)
    note ok = NDEF_MsgAddRec_fits [OF h wf src_holds_self src_holds_self src_holds_self f mx, unfolded rr]
    have len: "length (enc_msg ?rs) = unat (st_cur s) + rec_len r"
      using holdsD(2) [OF h] by (simp add: length_enc_msg)
    then have u: "unat (of_nat (length (enc_msg ?rs)) :: u32) = unat (st_cur s) + rec_len r"
      using f unat_u32_less [of "st_max s"] by (simp only: rr unat_of_nat) simp
    have "holds (enc_msg ?rs @ drop (length (enc_msg ?rs)) (st_mem s)) (of_nat (length (enc_msg ?rs))) ?rs"
      using holdsD(3) [OF h] wf u len by (intro holdsI) (auto simp: rr)
    then show "\<exists>s'. store_add r s = Some s' \<and> store_rep s' ?rs \<and> store_room s' + rec_len r = store_room s"
      using ok len u f mx s
      by (simp add: store_add_def store_result_def store_rep_def store_room_def rr) }
  { assume full: "store_room s < rec_len r"
    have "unat (st_cur s) + rec_len r < 4294967296"
      using cu s r by (simp add: store_rep_def addable_def)
    moreover have "unat (st_max s) < unat (st_cur s) + rec_len r" using full by (simp add: store_room_def)
    ultimately show "store_add r s = None"
      using NDEF_MsgAddRec_full [OF h wf] by (simp add: store_add_def store_result_def rr) }
next
  fix s rs i
  assume s: "store_rep s rs" and i: "i < length rs"
  have h: "holds (st_mem s) (st_cur s) rs" and mx: "unat (st_max s) \<le> length (st_mem s)"
    and cu: "unat (st_cur s) \<le> unat (st_max s)" using s by (auto simp: store_rep_def)
  obtain m' cur' where r: "NDEF_MsgRemoveRec (st_mem s) (st_cur s) (int i) = Some (NDEF_OK, m', cur')"
    "holds m' cur' (remove_at i rs)" "length m' = length (st_mem s)"
    using NDEF_MsgRemoveRec_ok [OF h i] by blast
  then show "\<exists>s'. store_remove i s = Some s' \<and> store_rep s' (remove_at i rs)
      \<and> store_room s' = store_room s + rec_len (rs ! i)"
    using length_remove_at [OF i] holdsD(2) [OF h] holdsD(2) [OF r(2)] cu mx s
    by (simp add: store_remove_def store_result_def store_rep_def store_room_def)
qed

section \<open>The first record, whatever its lengths\<close>

lemma u32_of_nat_eq: "n \<le> 4294967295 \<Longrightarrow> (of_nat k :: u32) = of_nat n \<longleftrightarrow> k mod 4294967296 = n"
  by (auto simp: word_unat_eq_iff unat_of_nat)

lemma word_end:
  "a + of_nat q + (pl + ucast ty + ucast il)
    = (a :: u32) + of_nat (q + unat (pl :: u32) + unat (ty :: byte) + unat (il :: byte))"
  by (simp add: of_nat_unat add.assoc)

lemma word_end_eq:
  assumes "n \<le> 4294967295"
  shows "a + of_nat q + (pl + ucast ty + ucast il) = (a :: u32) + of_nat n
    \<longleftrightarrow> (q + unat (pl :: u32) + unat (ty :: byte) + unat (il :: byte)) mod 4294967296 = n"
proof -
  have "a + of_nat q + (pl + ucast ty + ucast il) = a + of_nat n
    \<longleftrightarrow> (of_nat (q + unat pl + unat ty + unat il) :: u32) = of_nat n"
    unfolding word_end by (simp only: add_left_cancel)
  also have "\<dots> \<longleftrightarrow> (q + unat pl + unat ty + unat il) mod 4294967296 = n"
    using assms by (rule u32_of_nat_eq)
  finally show ?thesis .
qed

lemma NDEF_MsgValidate_step:
  assumes "placed a m" "unat len \<le> length m" "3 \<le> unat len"
    and f: "ndef_fields m 1 (m ! 0) = Some (ty, pl, il, q)" and q: "q \<le> unat len"
    and "m ! 0 AND NDEF_MB_MASK \<noteq> 0" "m ! 0 AND NDEF_TNF_MASK \<noteq> NDEF_TNF_UNCHANGED"
    and "m ! 0 AND NDEF_CF_MASK \<noteq> 0 \<longrightarrow> allow" "content_check (m ! 0) ty pl il = None"
  shows "NDEF_MsgValidate a (Some m) len allow =
    (let p_rec = a + of_nat q + (pl + ucast ty + ucast il) in
     if m ! 0 AND NDEF_ME_MASK \<noteq> 0
     then Some (if p_rec = a + len then NDEF_OK else NDEF_MSG_LENGTH_MISMATCH)
     else validate_loop a m (a + len) allow p_rec 1 (m ! 0 AND NDEF_CF_MASK \<noteq> 0))"
proof -
  have s: "unat a + unat len + 3 < 4294967296" using assms(1,2) by (simp add: placed_def)
  have sh: "\<not> short_header (m ! 0) 0 (unat len)"
    using f q by (auto simp: short_header_def ndef_fields_def split: if_splits bind_splits)
  have cc: "chunk_check (m ! 0) ty il allow False = Inr (m ! 0 AND NDEF_CF_MASK \<noteq> 0)"
    using assms(7,8) by (simp add: chunk_check_Inr)
  have lt: "a < a + len" using unat_at [of a "unat len"] s assms(3) by (simp add: word_less_nat_alt)
  have "validate_rec a m (a + len) allow a 0 False =
    (let p_rec = a + of_nat q + (pl + ucast ty + ucast il) in
     if m ! 0 AND NDEF_ME_MASK \<noteq> 0
     then Some (Inl (if p_rec = a + len then NDEF_OK else NDEF_MSG_LENGTH_MISMATCH))
     else Some (Inr (p_rec, m ! 0 AND NDEF_CF_MASK \<noteq> 0)))"
    using validate_rec_offsets [OF s assms(2), of 0 allow 0 False] assms(3,9) sh f cc by (simp add: of_nat_unat Let_def)
  then have loop: "validate_loop a m (a + len) allow a 0 False =
    (let p_rec = a + of_nat q + (pl + ucast ty + ucast il) in
     if m ! 0 AND NDEF_ME_MASK \<noteq> 0
     then Some (if p_rec = a + len then NDEF_OK else NDEF_MSG_LENGTH_MISMATCH)
     else validate_loop a m (a + len) allow p_rec 1 (m ! 0 AND NDEF_CF_MASK \<noteq> 0))"
    using lt unfolding validate_loop.simps [of a m "a + len" allow a 0 False] by (simp add: Let_def)
  have "0 < length m" using assms(2,3) by linarith
  then have "rd m 0 = Some (m ! 0)" "\<not> len < 3" using assms(3) by (simp_all add: word_less_nat_alt)
  then have "NDEF_MsgValidate a (Some m) len allow = validate_loop a m (a + len) allow a 0 False"
    using assms(6,7) by (simp add: NDEF_MsgValidate_def)
  with loop show ?thesis by (rule trans [rotated])
qed

lemma validate_loop_below:
  assumes "placed a m" "unat len \<le> length m" "3 \<le> unat len" "p_rec < a"
  shows "validate_loop a m (a + len) allow p_rec (Suc n) ic = None"
proof -
  have s: "unat (a + len) = unat a + unat len"
    using unat_at [of a "unat len"] assms(1,2) by (simp add: placed_def)
  have lt: "p_rec < a + len" using s assms(4) by (simp add: word_less_nat_alt)
  have "unat (p_rec + 3) = unat p_rec + 3"
    using unat_at [of p_rec 3] assms(1,4) by (simp add: placed_def word_less_nat_alt)
  then have nt: "\<not> a + len < p_rec + 3" using s assms(3,4) by (simp add: word_less_nat_alt)
  have "unat (p_rec - a) = 4294967296 + unat p_rec - unat a"
    using assms(4) by (simp add: unat_sub_if' word_less_nat_alt)
  then have "rd m (unat (p_rec - a)) = None"
    using assms(1,4) by (simp add: rd_def placed_def)
  then show ?thesis
    using lt nt by (simp add: validate_loop.simps [of a m "a + len" allow p_rec] validate_rec_def Let_def)
qed

lemma NDEF_MsgValidate_first:
  assumes "placed a m" "unat len \<le> length m" "3 \<le> unat len"
    and "ndef_fields m 1 (m ! 0) = Some (ty, pl, il, q)" "q \<le> unat len"
    and "m ! 0 AND NDEF_MB_MASK \<noteq> 0" "m ! 0 AND NDEF_TNF_MASK \<noteq> NDEF_TNF_UNCHANGED"
    and "m ! 0 AND NDEF_CF_MASK \<noteq> 0 \<longrightarrow> allow" "content_check (m ! 0) ty pl il = None"
  shows "m ! 0 AND NDEF_ME_MASK \<noteq> 0 \<Longrightarrow> NDEF_MsgValidate a (Some m) len allow
      = Some (if (q + unat pl + unat ty + unat il) mod 4294967296 = unat len
              then NDEF_OK else NDEF_MSG_LENGTH_MISMATCH)"
    and "\<lbrakk>m ! 0 AND NDEF_ME_MASK = 0; 4294967296 \<le> unat a + q + unat pl + unat ty + unat il;
        q + unat pl + unat ty + unat il < 4294967296\<rbrakk> \<Longrightarrow> NDEF_MsgValidate a (Some m) len allow = None"
proof -
  note step = NDEF_MsgValidate_step [OF assms]
  show "NDEF_MsgValidate a (Some m) len allow
      = Some (if (q + unat pl + unat ty + unat il) mod 4294967296 = unat len
              then NDEF_OK else NDEF_MSG_LENGTH_MISMATCH)" if "m ! 0 AND NDEF_ME_MASK \<noteq> 0"
    using step that word_end_eq [of "unat len" a q pl ty il] unat_u32_less [of len] by (simp add: Let_def of_nat_unat)
  assume me: "m ! 0 AND NDEF_ME_MASK = 0" and w: "4294967296 \<le> unat a + q + unat pl + unat ty + unat il"
    "q + unat pl + unat ty + unat il < 4294967296"
  have "unat (a + of_nat q + (pl + ucast ty + ucast il)) = unat a + (q + unat pl + unat ty + unat il) - 4294967296"
    using w unat_u32_less [of a] unfolding word_end
    by (simp add: unat_word_ariths unat_of_nat del: of_nat_add) (simp add: le_mod_geq)
  then have "a + of_nat q + (pl + ucast ty + ucast il) < a"
    using w by (simp add: word_less_nat_alt)
  then show "NDEF_MsgValidate a (Some m) len allow = None"
    using step me validate_loop_below [OF assms(1-3), of _ allow 0] by (simp add: Let_def)
qed

end
