(* ===== verification/Ndef_Properties.thy ===== *)
theory Ndef_Properties
  imports Ndef_Dechunk
begin

text \<open>
  What the NDEF message utilities promise, one theorem per promise, each with an instance on a
  small message. \<open>ex_mem\<close> holds the two-record message \<open>ex_recs\<close> (a text record with an identifier
  and a record of unknown type) in an object of 40 bytes.
\<close>

definition ex_r1 :: ndef_rec where
  "ex_r1 = new_rec 1 [0x54] [0x69] [1, 2, 3]"

definition ex_r2 :: ndef_rec where
  "ex_r2 = new_rec 5 [] [] [9]"

definition ex_mem :: mem where
  "ex_mem = [0x99, 1, 3, 1, 0x54, 0x69, 1, 2, 3, 0x55, 0, 1, 9] @ replicate 27 0"

lemmas ex_defs = ex_mem_def ex_r1_def ex_r2_def

lemma ex_enc: "enc_msg [ex_r1, ex_r2] = [0x99, 1, 3, 1, 0x54, 0x69, 1, 2, 3, 0x55, 0, 1, 9]"
  by (simp add: enc_msg_def enc_rec_def hdr_byte_def flag_def paylen_bytes_def idlen_bytes_def
      ex_r1_def ex_r2_def)

lemma ex_wf: "wf_rec ex_r1" "wf_rec ex_r2" "wf_msg False [ex_r1, ex_r2]"
  by (simp_all add: wf_msg_def wf_rec_def content_ok_def ex_r1_def ex_r2_def)

lemma ex_holds: "holds ex_mem 13 [ex_r1, ex_r2]"
  unfolding holds_def ex_enc using ex_wf by (simp add: ex_mem_def)

lemma ex_length [simp]: "length ex_mem = 40"
  by (simp add: ex_mem_def)

lemma ex_placed: "placed 0x1000 ex_mem"
  by (simp add: placed_def)

section \<open>Validation\<close>

text \<open>
  C1. Validation is exact, for a message at any address \<open>a\<close>: provided that no record declares lengths
  with which the pointer of the code wraps (\<open>lens_fit\<close>), \<open>NDEF_MsgValidate\<close> answers \<open>NDEF_OK\<close> exactly
  when the bytes are the encoding of a well-formed list of records.
\<close>

theorem validate_exact:
  assumes "placed a m" "unat len \<le> length m" "lens_fit a m (unat len) 0"
  shows "NDEF_MsgValidate a (Some m) len allow = Some NDEF_OK
    \<longleftrightarrow> (\<exists>rs. holds m len rs \<and> wf_msg allow rs)"
proof
  assume ok: "NDEF_MsgValidate a (Some m) len allow = Some NDEF_OK"
  then have b: "rd m 0 = Some (m ! 0)" "m ! 0 AND NDEF_MB_MASK \<noteq> 0"
    and "validate_loop a m (a + len) allow a 0 False = Some NDEF_OK"
    by (auto simp: NDEF_MsgValidate_def rd_Some_iff split: if_splits bind_splits)
  then have v: "validate_walk m (unat len) allow 0 0 False = Some NDEF_OK"
    by (simp add: validate_loop_offsets [OF assms])
  obtain rs where "rs \<noteq> []" "\<forall>r \<in> set rs. wf_rec r \<and> content_ok r" "chunks_ok allow False rs"
    "length (enc_from (m ! 0 AND NDEF_MB_MASK \<noteq> 0) rs) = unat len"
    "take (unat len) m = enc_from (m ! 0 AND NDEF_MB_MASK \<noteq> 0) rs"
    using validate_walk_sound [OF v assms(3,2)] by auto
  then have "holds m len rs" "wf_msg allow rs"
    using b(2) assms(2) by (auto simp: holds_def wf_msg_def enc_msg_def)
  then show "\<exists>rs. holds m len rs \<and> wf_msg allow rs" by blast
qed (use NDEF_MsgValidate_holds assms(1) in blast)

theorem validate_exact_witness: "\<exists>rs. holds ex_mem 13 rs \<and> wf_msg False rs"
proof -
  have "NDEF_MsgValidate 0x1000 (Some ex_mem) 13 False = Some NDEF_OK"
    by (rule NDEF_MsgValidate_holds [OF ex_holds ex_wf(3) ex_placed])
  then show ?thesis
    using validate_exact [OF ex_placed, of 13 False] holds_lens_fit [OF ex_holds ex_placed] by simp
qed

text \<open>
  C2. Validation of a message in which no declared length makes the pointer wrap (\<open>lens_fit\<close>, a
  condition on the bytes that holds whenever the record lengths stay inside the address space, true or
  not) ends with a status and never reads outside the message, however the bytes are formed otherwise.
\<close>

theorem validate_safe:
  assumes "placed a m" "unat len \<le> length m" "lens_fit a m (unat len) 0"
  shows "\<exists>st. NDEF_MsgValidate a (Some m) len allow = Some st"
proof (cases "len < 3")
  case True
  then show ?thesis by (simp add: NDEF_MsgValidate_def)
next
  case False
  then have "0 < length m" using assms(2) by (auto simp: word_less_nat_alt)
  then show ?thesis
    using False validate_walk_total [OF assms(2), of allow 0 0 False]
    by (auto simp: NDEF_MsgValidate_def validate_loop_offsets [OF assms])
qed

theorem validate_safe_witness:
  "\<exists>st. NDEF_MsgValidate 0x1000 (Some [0xC1, 0xFF, 0, 0, 0, 1]) 6 True = Some st"
proof -
  have "lens_fit 0x1000 [0xC1, 0xFF, 0, 0, 0, 1] 6 0"
    by (subst lens_fit.simps) (simp add: short_header_def ndef_fields_def rd_def rd_be32_def be32_def)
  then show ?thesis
    using validate_safe [of "0x1000" "[0xC1, 0xFF, 0, 0, 0, 1]" 6 True] by (simp add: placed_def)
qed



section \<open>Walking and reading\<close>

text \<open>
  C4. On an object that holds a non-empty list of records, the walking functions return the number
  of records, the start of the record at an index (NULL outside the range), the start of the last
  record and of the next one.
\<close>

theorem walk_correct:
  assumes "holds m cur rs" "rs \<noteq> []"
  shows "NDEF_MsgGetNumRecs m = Some (int (length rs))
    \<and> NDEF_MsgGetRecByIndex m i
        = Some (if 0 \<le> i \<and> i < int (length rs) then Some (offset rs (nat i)) else None)
    \<and> NDEF_MsgGetLastRecInMsg m = Some (Some (offset rs (length rs - 1)))
    \<and> (k < length rs \<longrightarrow> NDEF_MsgGetNextRec m (offset rs k)
        = Some (if Suc k < length rs then Some (offset rs (Suc k)) else None))"
proof -
  note D = holdsD [OF assms(1)]
  have m: "enc_msg rs @ drop (unat cur) m = m" by (rule D(1) [symmetric])
  show ?thesis
    using NDEF_MsgGetNumRecs_enc [OF assms(2) D(3), of "drop (unat cur) m"]
      NDEF_MsgGetRecByIndex_enc [OF assms(2) D(3), of "drop (unat cur) m" i]
      NDEF_MsgGetLastRecInMsg_enc [OF assms(2) D(3), of "drop (unat cur) m"]
      NDEF_MsgGetNextRec_enc [OF _ D(3), of k "drop (unat cur) m"]
    unfolding m by simp
qed

theorem walk_correct_witness:
  "NDEF_MsgGetNumRecs ex_mem = Some 2 \<and> NDEF_MsgGetRecByIndex ex_mem 1 = Some (Some 9)"
  using walk_correct [OF ex_holds, of 1 0]
  by (simp add: offset_def rec_len_def hdr_len_def ex_r1_def)

text \<open>The search by type and by identifier.\<close>

lemma holds_from:
  assumes "holds m cur rs" "Suc i < length rs"
  shows "m = enc_pre True (take (Suc i) rs) @ enc_from False (drop (Suc i) rs) @ drop (unat cur) m"
    and "length (enc_pre True (take (Suc i) rs)) = offset rs (Suc i)"
    and "drop (Suc i) rs \<noteq> []" "\<forall>r \<in> set (drop (Suc i) rs). wf_rec r"
proof -
  show "m = enc_pre True (take (Suc i) rs) @ enc_from False (drop (Suc i) rs) @ drop (unat cur) m"
    using holdsD(1) [OF assms(1)] enc_msg_at [OF assms(2)] by simp
  show "length (enc_pre True (take (Suc i) rs)) = offset rs (Suc i)"
    by (simp add: offset_def)
qed (use assms holdsD(3) [OF assms(1)] in \<open>auto dest: in_set_dropD\<close>)

lemma search_by_type:
  assumes h: "holds m cur rs" "rs \<noteq> []" and l: "length ty = unat tlen"
  shows "NDEF_MsgGetFirstRecByType m tnf ty tlen
      = Some (first_off (\<lambda>r. r_tnf r = tnf \<and> r_type r = ty) 0 rs)
    \<and> (i < length rs \<longrightarrow> NDEF_MsgGetNextRecByType m (offset rs i) tnf ty tlen
      = Some (first_off (\<lambda>r. r_tnf r = tnf \<and> r_type r = ty) (offset rs (Suc i)) (drop (Suc i) rs)))"
proof -
  note D = holdsD [OF h(1)]
  have m: "enc_msg rs @ drop (unat cur) m = m" by (rule D(1) [symmetric])
  have "NDEF_MsgGetNextRecByType m (offset rs i) tnf ty tlen
      = Some (first_off (\<lambda>r. r_tnf r = tnf \<and> r_type r = ty) (offset rs (Suc i)) (drop (Suc i) rs))"
    if i: "i < length rs"
  proof (cases "Suc i < length rs")
    case True
    note F = holds_from [OF h(1) True]
    show ?thesis
      using NDEF_MsgGetNextRec_enc [OF i D(3), of "drop (unat cur) m"] True
        first_by_type_loop_enc [OF F(3,4) l, of "enc_pre True (take (Suc i) rs)" False "drop (unat cur) m" tnf]
      unfolding m F(1) [symmetric] F(2) by (simp add: NDEF_MsgGetNextRecByType_def)
  next
    case False
    then show ?thesis
      using NDEF_MsgGetNextRec_enc [OF i D(3), of "drop (unat cur) m"] i
      unfolding m by (simp add: NDEF_MsgGetNextRecByType_def)
  qed
  then show ?thesis
    using first_by_type_loop_enc [OF h(2) D(3) l, of "[]" True "drop (unat cur) m" tnf]
    by (simp add: NDEF_MsgGetFirstRecByType_def m enc_msg_def [symmetric])
qed

lemma search_by_id:
  assumes h: "holds m cur rs" "rs \<noteq> []" and l: "length idf = unat ilen"
  shows "NDEF_MsgGetFirstRecById m idf ilen = Some (first_off (\<lambda>r. r_id r = idf) 0 rs)
    \<and> (i < length rs \<longrightarrow> NDEF_MsgGetNextRecById m (offset rs i) idf ilen
      = Some (first_off (\<lambda>r. r_id r = idf) (offset rs (Suc i)) (drop (Suc i) rs)))"
proof -
  note D = holdsD [OF h(1)]
  have m: "enc_msg rs @ drop (unat cur) m = m" by (rule D(1) [symmetric])
  have "NDEF_MsgGetNextRecById m (offset rs i) idf ilen
      = Some (first_off (\<lambda>r. r_id r = idf) (offset rs (Suc i)) (drop (Suc i) rs))"
    if i: "i < length rs"
  proof (cases "Suc i < length rs")
    case True
    note F = holds_from [OF h(1) True]
    show ?thesis
      using NDEF_MsgGetNextRec_enc [OF i D(3), of "drop (unat cur) m"] True
        first_by_id_loop_enc [OF F(3,4) l, of "enc_pre True (take (Suc i) rs)" False "drop (unat cur) m"]
      unfolding m F(1) [symmetric] F(2) by (simp add: NDEF_MsgGetNextRecById_def)
  next
    case False
    then show ?thesis
      using NDEF_MsgGetNextRec_enc [OF i D(3), of "drop (unat cur) m"] i
      unfolding m by (simp add: NDEF_MsgGetNextRecById_def)
  qed
  then show ?thesis
    using first_by_id_loop_enc [OF h(2) D(3) l, of "[]" True "drop (unat cur) m"]
    by (simp add: NDEF_MsgGetFirstRecById_def m enc_msg_def [symmetric])
qed

text \<open>
  C5. The searches return the first record whose TNF and type match, or whose identifier matches, from
  the start of the message or after a given record, and NULL when there is none.
\<close>

theorem search_records:
  assumes "holds m cur rs" "rs \<noteq> []" "length ty = unat tlen" "length idf = unat ilen"
  shows "NDEF_MsgGetFirstRecByType m tnf ty tlen
      = Some (first_off (\<lambda>r. r_tnf r = tnf \<and> r_type r = ty) 0 rs)
    \<and> NDEF_MsgGetFirstRecById m idf ilen = Some (first_off (\<lambda>r. r_id r = idf) 0 rs)
    \<and> (i < length rs \<longrightarrow>
        NDEF_MsgGetNextRecByType m (offset rs i) tnf ty tlen
          = Some (first_off (\<lambda>r. r_tnf r = tnf \<and> r_type r = ty) (offset rs (Suc i)) (drop (Suc i) rs))
        \<and> NDEF_MsgGetNextRecById m (offset rs i) idf ilen
          = Some (first_off (\<lambda>r. r_id r = idf) (offset rs (Suc i)) (drop (Suc i) rs)))"
  using search_by_type [OF assms(1,2,3)] search_by_id [OF assms(1,2,4)] by blast

theorem search_records_witness:
  "NDEF_MsgGetFirstRecByType ex_mem 1 [0x54] 1 = Some (Some 0)
    \<and> NDEF_MsgGetFirstRecById ex_mem [0x69] 1 = Some (Some 0)
    \<and> NDEF_MsgGetNextRecByType ex_mem (offset [ex_r1, ex_r2] 0) 1 [0x54] 1 = Some None
    \<and> NDEF_MsgGetNextRecById ex_mem (offset [ex_r1, ex_r2] 0) [0x69] 1 = Some None"
  using search_records [OF ex_holds, of "[0x54]" 1 "[0x69]" 1 1 0] by (simp add: ex_r1_def ex_r2_def)

text \<open>
  C6. Reading a record returns its TNF and the lengths of its three fields, and pointers (NULL for
  an empty field) at which the object holds exactly these fields.
\<close>

theorem read_back:
  assumes "holds m cur rs" "i < length rs"
  shows "\<exists>pt pi pp. NDEF_RecGetType m (offset rs i)
        = Some (pt, r_tnf (rs ! i), of_nat (length (r_type (rs ! i))))
      \<and> NDEF_RecGetId m (offset rs i) = Some (pi, of_nat (length (r_id (rs ! i))))
      \<and> NDEF_RecGetPayload m (offset rs i) = Some (pp, of_nat (length (r_payload (rs ! i))))
      \<and> src_holds (src_at m pt) (r_type (rs ! i)) \<and> src_holds (src_at m pi) (r_id (rs ! i))
      \<and> src_holds (src_at m pp) (r_payload (rs ! i))"
proof -
  note D = holdsD [OF assms(1)]
  have m: "enc_msg rs @ drop (unat cur) m = m" by (rule D(1) [symmetric])
  show ?thesis
    using NDEF_RecGet_enc [OF assms(2) D(3), of "drop (unat cur) m"]
      src_fields [OF assms(2), of "drop (unat cur) m"]
    unfolding m by blast
qed

theorem read_back_witness:
  "\<exists>pp. NDEF_RecGetPayload ex_mem (offset [ex_r1, ex_r2] 0) = Some (pp, 3) \<and> src_holds (src_at ex_mem pp) [1, 2, 3]"
  using read_back [OF ex_holds, of 0] by (auto simp: ex_r1_def)

section \<open>Building\<close>

lemma holds_of_nat:
  fixes max_size :: u32
  assumes "holds m cur rs" "\<forall>r \<in> set rs'. wf_rec r" "length (enc_msg rs') \<le> unat max_size"
    and "unat max_size \<le> length m"
  shows "holds (enc_msg rs' @ drop (length (enc_msg rs')) m) (of_nat (length (enc_msg rs'))) rs'"
    and "length (enc_msg rs' @ drop (length (enc_msg rs')) m) = length m"
proof -
  have "length (enc_msg rs') < 4294967296" using assms(3) unat_u32_less [of max_size] by simp
  then show "holds (enc_msg rs' @ drop (length (enc_msg rs')) m) (of_nat (length (enc_msg rs'))) rs'"
    using assms(2) by (intro holdsI) (simp_all add: unat_of_nat)
qed (use assms in simp)

text \<open>
  C7. \<open>NDEF_MsgAddRec\<close> appends the record, in short form when the payload has at most 255 bytes,
  moves the end mark to it and leaves the bytes behind it alone; when the record does not fit the
  capacity it changes nothing and says so.
\<close>

theorem add_record:
  assumes h: "holds m cur rs" and wf: "wf_rec (new_rec tnf ty idf pl)"
    and src: "src_holds p_type ty" "src_holds p_id idf" "src_holds p_payload pl"
    and sz: "unat max_size \<le> length m" "unat cur + rec_len (new_rec tnf ty idf pl) < 4294967296"
  defines "rs' \<equiv> rs @ [new_rec tnf ty idf pl]"
  shows "if unat cur + rec_len (new_rec tnf ty idf pl) \<le> unat max_size
    then \<exists>m' cur'. NDEF_MsgAddRec m max_size cur tnf p_type (of_nat (length ty)) p_id (of_nat (length idf))
        p_payload (of_nat (length pl)) = Some (NDEF_OK, m', cur') \<and> holds m' cur' rs'
        \<and> length m' = length m \<and> drop (unat cur') m' = drop (unat cur') m
    else NDEF_MsgAddRec m max_size cur tnf p_type (of_nat (length ty)) p_id (of_nat (length idf))
        p_payload (of_nat (length pl)) = Some (NDEF_MSG_INSUFFICIENT_MEM, m, cur)"
proof (cases "unat cur + rec_len (new_rec tnf ty idf pl) \<le> unat max_size")
  case True
  have len: "length (enc_msg rs') = unat cur + rec_len (new_rec tnf ty idf pl)"
    using holdsD(2) [OF h] by (simp add: rs'_def length_enc_msg)
  have "\<forall>r \<in> set rs'. wf_rec r" using holdsD(3) [OF h] wf by (simp add: rs'_def)
  note new = holds_of_nat [OF h this _ sz(1), unfolded len, OF True, folded len]
  have "unat (of_nat (length (enc_msg rs')) :: u32) = length (enc_msg rs')"
    using holdsD(2) [OF new(1)] .
  then show ?thesis
    using True new NDEF_MsgAddRec_fits [OF h wf src True sz(1)] unfolding rs'_def by simp
next
  case False
  then show ?thesis using NDEF_MsgAddRec_full [OF h wf _ sz(2)] by simp
qed

theorem add_record_witness:
  "\<exists>m' cur'. NDEF_MsgAddRec ex_mem 40 13 1 (Some [0x55]) 1 None 0 (Some [7, 7]) 2 = Some (NDEF_OK, m', cur')
    \<and> holds m' cur' ([ex_r1, ex_r2] @ [new_rec 1 [0x55] [] [7, 7]])"
  using add_record [OF ex_holds, of 1 "[0x55]" "[]" "[7, 7]" "Some [0x55]" None "Some [7, 7]" 40]
  by (simp add: wf_rec_def src_holds_def rec_len_def hdr_len_def) blast

text \<open>
  C8. \<open>NDEF_MsgInsertRec\<close> puts the record at the index, or at the end when the index is not below
  the number of records.
\<close>

theorem insert_record:
  fixes i :: nat
  assumes h: "holds m cur rs" "rs \<noteq> []" and wf: "wf_rec (new_rec tnf ty idf pl)"
    and src: "src_holds p_type ty" "src_holds p_id idf" "src_holds p_payload pl"
    and fit: "unat cur + rec_len (new_rec tnf ty idf pl) \<le> unat max_size" "unat max_size \<le> length m"
  defines "rs' \<equiv> take i rs @ new_rec tnf ty idf pl # drop i rs"
  shows "\<exists>m' cur'. NDEF_MsgInsertRec m max_size cur (int i) tnf p_type (of_nat (length ty)) p_id
      (of_nat (length idf)) p_payload (of_nat (length pl)) = Some (NDEF_OK, m', cur')
    \<and> holds m' cur' rs' \<and> length m' = length m"
proof -
  let ?r = "new_rec tnf ty idf pl"
  have wfs: "\<forall>r \<in> set rs'. wf_rec r"
    using holdsD(3) [OF h(1)] wf by (auto simp: rs'_def dest: in_set_takeD in_set_dropD)
  have "sum_list (map rec_len (take i rs)) + sum_list (map rec_len (drop i rs)) = sum_list (map rec_len rs)"
    by (metis append_take_drop_id map_append sum_list_append)
  then have "length (enc_msg rs') = unat cur + rec_len ?r"
    using holdsD(2) [OF h(1)] by (simp add: rs'_def length_enc_msg)
  then have "length (enc_msg rs') \<le> unat max_size" using fit by simp
  note new = holds_of_nat [OF h(1) wfs this fit(2)]
  show ?thesis
  proof (cases "i < length rs")
    case True
    show ?thesis
      using NDEF_MsgInsertRec_fits [OF h(1) wf src fit True] new unfolding rs'_def by blast
  next
    case False
    then have rs': "rs' = rs @ [?r]" by (simp add: rs'_def)
    let ?n = "rec_size (of_nat (length ty)) (of_nat (length idf)) (of_nat (length pl))"
    have u: "unat ?n = rec_len ?r"
      using fit unat_u32_less [of max_size] by (intro rec_size_wf wf) simp
    have "unat (cur + ?n) = unat cur + rec_len ?r"
      using fit(1) unat_u32_less [of max_size] unfolding unat_word_ariths(1) u by (intro mod_less) simp
    then have nf: "\<not> max_size < cur + ?n" using fit(1) by (simp add: word_less_nat_alt)
    have "NDEF_MsgGetNumRecs m = Some (int (length rs))"
      using NDEF_MsgGetNumRecs_enc [OF h(2) holdsD(3) [OF h(1)], of "drop (unat cur) m"]
        holdsD(1) [OF h(1)] by simp
    then show ?thesis
      using False nf NDEF_MsgAddRec_fits [OF h(1) wf src fit] new
      unfolding NDEF_MsgInsertRec_def Let_def rs' by simp
  qed
qed

theorem insert_record_witness:
  "\<exists>m' cur'. NDEF_MsgInsertRec ex_mem 40 13 0 1 (Some [0x55]) 1 None 0 (Some [7, 7]) 2 = Some (NDEF_OK, m', cur')
    \<and> holds m' cur' [new_rec 1 [0x55] [] [7, 7], ex_r1, ex_r2]"
  using insert_record [OF ex_holds, of 1 "[0x55]" "[]" "[7, 7]" "Some [0x55]" None "Some [7, 7]" 40 0]
  by (simp add: wf_rec_def src_holds_def rec_len_def hdr_len_def) blast

text \<open>
  C9. \<open>NDEF_MsgRemoveRec\<close> removes the record at the index, whether it is the only one, the first,
  the last or in the middle, and restores the begin and end marks; an index out of range is
  \<open>NDEF_REC_NOT_FOUND\<close> and changes nothing.
\<close>

theorem remove_record:
  assumes "holds m cur rs" "rs \<noteq> []"
  shows "if i < length rs
    then \<exists>m' cur'. NDEF_MsgRemoveRec m cur (int i) = Some (NDEF_OK, m', cur')
        \<and> holds m' cur' (remove_at i rs) \<and> length m' = length m \<and> drop (unat cur) m' = drop (unat cur) m
    else NDEF_MsgRemoveRec m cur (int i) = Some (NDEF_REC_NOT_FOUND, m, cur)"
  using NDEF_MsgRemoveRec_ok [OF assms(1)] NDEF_MsgRemoveRec_not_found [OF assms] by simp

theorem remove_record_witness:
  "\<exists>m' cur'. NDEF_MsgRemoveRec ex_mem 13 0 = Some (NDEF_OK, m', cur') \<and> holds m' cur' [ex_r2]"
  using remove_record [OF ex_holds, of 0] by (simp add: remove_at_def) blast

text \<open>Inserting a record and removing it again gives the list of records back.\<close>

theorem insert_remove:
  assumes h: "holds m cur rs" and i: "i < length rs" and wf: "wf_rec (new_rec tnf ty idf pl)"
    and src: "src_holds p_type ty" "src_holds p_id idf" "src_holds p_payload pl"
    and fit: "unat cur + rec_len (new_rec tnf ty idf pl) \<le> unat max_size" "unat max_size \<le> length m"
  shows "\<exists>m1 cur1 m2. NDEF_MsgInsertRec m max_size cur (int i) tnf p_type (of_nat (length ty)) p_id
      (of_nat (length idf)) p_payload (of_nat (length pl)) = Some (NDEF_OK, m1, cur1)
    \<and> NDEF_MsgRemoveRec m1 cur1 (int i) = Some (NDEF_OK, m2, cur) \<and> holds m2 cur rs"
proof -
  let ?r = "new_rec tnf ty idf pl" and ?rs = "take i rs @ new_rec tnf ty idf pl # drop i rs"
  have wfs: "\<forall>r \<in> set ?rs. wf_rec r"
    using holdsD(3) [OF h] wf by (auto dest: in_set_takeD in_set_dropD)
  have "sum_list (map rec_len (take i rs)) + sum_list (map rec_len (drop i rs)) = sum_list (map rec_len rs)"
    by (metis append_take_drop_id map_append sum_list_append)
  then have "length (enc_msg ?rs) = unat cur + rec_len ?r"
    using holdsD(2) [OF h] by (simp add: length_enc_msg)
  then have "length (enc_msg ?rs) \<le> unat max_size" using fit by simp
  note new = holds_of_nat(1) [OF h wfs this fit(2)]
  have i': "i < length ?rs" and eq: "remove_at i ?rs = rs" using i by (auto simp: remove_at_def)
  obtain m2 cur2 where rm: "NDEF_MsgRemoveRec (enc_msg ?rs @ drop (length (enc_msg ?rs)) m)
      (of_nat (length (enc_msg ?rs))) (int i) = Some (NDEF_OK, m2, cur2)" "holds m2 cur2 rs"
    using NDEF_MsgRemoveRec_ok [OF new i', unfolded eq] by blast
  moreover have "cur2 = cur" using holdsD(2) [OF h] holdsD(2) [OF rm(2)] by (simp add: word_unat_eq_iff)
  ultimately show ?thesis using NDEF_MsgInsertRec_fits [OF h wf src fit i] by blast
qed

theorem insert_remove_witness:
  "\<exists>m1 cur1 m2. NDEF_MsgInsertRec ex_mem 40 13 1 1 (Some [0x55]) 1 None 0 (Some [7, 7]) 2 = Some (NDEF_OK, m1, cur1)
    \<and> NDEF_MsgRemoveRec m1 cur1 1 = Some (NDEF_OK, m2, 13) \<and> holds m2 13 [ex_r1, ex_r2]"
  using insert_remove [OF ex_holds, of 1 1 "[0x55]" "[]" "[7, 7]" "Some [0x55]" None "Some [7, 7]" 40]
  by (simp add: wf_rec_def src_holds_def rec_len_def hdr_len_def)

text \<open>
  C10. \<open>NDEF_MsgAppendRec\<close> appends a whole validated message: the result holds the records of the
  one after those of the other, and only the begin mark of the appended message is changed in the
  source object, which lies at any address \<open>a\<close>. When it does not fit nothing changes.
\<close>

theorem append_records:
  assumes h: "holds m cur rs" and h2: "holds p_new new_len ns" and ok: "wf_msg False ns"
    and pl: "placed a p_new"
    and sz: "unat max_size \<le> length m" "unat cur + unat new_len < 4294967296"
  shows "if unat cur + unat new_len \<le> unat max_size
    then \<exists>m' cur'. NDEF_MsgAppendRec m max_size cur a p_new new_len
        = Some (NDEF_OK, m', cur', enc_from (rs = []) ns @ drop (unat new_len) p_new)
        \<and> holds m' cur' (rs @ ns) \<and> length m' = length m
    else NDEF_MsgAppendRec m max_size cur a p_new new_len = Some (NDEF_MSG_INSUFFICIENT_MEM, m, cur, p_new)"
proof (cases "unat cur + unat new_len \<le> unat max_size")
  case True
  note v = NDEF_MsgValidate_holds [OF h2 ok pl]
  have len: "length (enc_msg (rs @ ns)) = unat cur + unat new_len"
    using holdsD(2) [OF h] holdsD(2) [OF h2] by (simp add: length_enc_msg)
  have wf: "\<forall>r \<in> set (rs @ ns). wf_rec r" using holdsD(3) [OF h] holdsD(3) [OF h2] by auto
  show ?thesis
    using True NDEF_MsgAppendRec_fits [OF h h2 v True sz(1)]
      holds_of_nat [OF h wf, of max_size] sz(1) len by simp
next
  case False
  then show ?thesis
    using NDEF_MsgAppendRec_full [OF NDEF_MsgValidate_holds [OF h2 ok pl] _ sz(2)] by simp
qed

theorem append_records_witness:
  "\<exists>m' cur' p'. NDEF_MsgAppendRec ex_mem 40 13 0x1000 ex_mem 13 = Some (NDEF_OK, m', cur', p')
    \<and> holds m' cur' ([ex_r1, ex_r2] @ [ex_r1, ex_r2])"
  using append_records [OF ex_holds ex_holds ex_wf(3) ex_placed, of 40] by simp blast

section \<open>Changing a record\<close>

text \<open>
  C11. \<open>NDEF_MsgReplaceType\<close> and \<open>NDEF_MsgReplaceId\<close> replace the type, or the identifier, of one record
  and nothing else; the identifier length field and the IL bit appear and disappear with the
  identifier. Removing an identifier reads up to two bytes behind the message, so the object must
  reach that far.
\<close>

theorem replace_type_and_id:
  assumes "holds m cur rs" "i < length rs" "unat max_size \<le> length m"
  shows "(length ty < 256 \<and> src_holds p_type ty \<and> wf_rec ((rs ! i)\<lparr>r_type := ty\<rparr>) \<and> unat cur \<le> unat max_size
      \<and> unat cur + length ty \<le> unat max_size + length (r_type (rs ! i)) \<longrightarrow>
      (\<exists>m' cur'. NDEF_MsgReplaceType m max_size cur (offset rs i) p_type (of_nat (length ty))
        = Some (NDEF_OK, m', cur') \<and> holds m' cur' (rs[i := (rs ! i)\<lparr>r_type := ty\<rparr>]) \<and> length m' = length m))
    \<and> (r_il (rs ! i) = (r_id (rs ! i) \<noteq> []) \<and> length idf < 256 \<and> src_holds p_id idf \<and> wf_rec (with_id (rs ! i) idf)
      \<and> (length (r_id (rs ! i)) < length idf \<longrightarrow>
          unat cur + length idf + (if r_id (rs ! i) = [] then 1 else 0) \<le> unat max_size + length (r_id (rs ! i)))
      \<and> (idf = [] \<and> r_id (rs ! i) \<noteq> [] \<longrightarrow> unat cur + 2 \<le> length m + length (r_id (rs ! i))) \<longrightarrow>
      (\<exists>m' cur'. NDEF_MsgReplaceId m max_size cur (offset rs i) p_id (of_nat (length idf))
        = Some (NDEF_OK, m', cur') \<and> holds m' cur' (rs[i := with_id (rs ! i) idf]) \<and> length m' = length m))"
  using NDEF_MsgReplaceType_ok [OF assms(1,2), of ty p_type max_size] NDEF_MsgReplaceId_ok [OF assms(1,2), of idf p_id max_size]
    assms(3) by blast

theorem replace_type_and_id_witness:
  "(\<exists>m' cur'. NDEF_MsgReplaceType ex_mem 40 13 (offset [ex_r1, ex_r2] 0) (Some [0x53, 0x70]) 2
      = Some (NDEF_OK, m', cur') \<and> holds m' cur' [new_rec 1 [0x53, 0x70] [0x69] [1, 2, 3], ex_r2])
    \<and> (\<exists>m' cur'. NDEF_MsgReplaceId ex_mem 40 13 (offset [ex_r1, ex_r2] 1) (Some [0x41, 0x42]) 2
      = Some (NDEF_OK, m', cur') \<and> holds m' cur' [ex_r1, with_id ex_r2 [0x41, 0x42]])"
proof
  show "\<exists>m' cur'. NDEF_MsgReplaceType ex_mem 40 13 (offset [ex_r1, ex_r2] 0) (Some [0x53, 0x70]) 2
      = Some (NDEF_OK, m', cur') \<and> holds m' cur' [new_rec 1 [0x53, 0x70] [0x69] [1, 2, 3], ex_r2]"
    using conjunct1 [OF replace_type_and_id [OF ex_holds, of 0 40 "[0x53, 0x70]" "Some [0x53, 0x70]"]] ex_wf(1)
    by (simp add: wf_rec_def ex_r1_def new_rec_def) blast
  show "\<exists>m' cur'. NDEF_MsgReplaceId ex_mem 40 13 (offset [ex_r1, ex_r2] 1) (Some [0x41, 0x42]) 2
      = Some (NDEF_OK, m', cur') \<and> holds m' cur' [ex_r1, with_id ex_r2 [0x41, 0x42]]"
    using conjunct2 [OF replace_type_and_id [OF ex_holds, of 1 40 "[]" None "[0x41, 0x42]" "Some [0x41, 0x42]"]] ex_wf(2)
    by (simp add: wf_rec_def ex_r2_def with_id_def) blast
qed

text \<open>
  \<open>NDEF_MsgAppendPayload\<close> appends to the payload of one record and widens its length field
  when the payload passes 255 bytes. Needed: the record is in the form the library itself writes
  (short form exactly below 256 bytes), and it is the last one when its length field widens.
\<close>

theorem append_payload:
  assumes "holds m cur rs" "i < length rs" "canon (rs ! i)" "src_holds (Some p_add) add"
    and "wf_rec (with_payload (rs ! i) (r_payload (rs ! i) @ add))"
    and "length (r_payload (rs ! i)) < 256 \<and> 255 < length (r_payload (rs ! i)) + length add
      \<Longrightarrow> Suc i = length rs"
    and "unat cur + length add
      + (if length (r_payload (rs ! i)) < 256 \<and> 255 < length (r_payload (rs ! i)) + length add then 3 else 0)
      \<le> unat max_size" "unat max_size \<le> length m"
  shows "\<exists>m' cur'. NDEF_MsgAppendPayload m max_size cur (offset rs i) p_add (of_nat (length add))
      = Some (NDEF_OK, m', cur')
    \<and> holds m' cur' (rs[i := with_payload (rs ! i) (r_payload (rs ! i) @ add)]) \<and> length m' = length m"
  using NDEF_MsgAppendPayload_ok [OF assms(1-4)] assms(5-8) by (simp add: with_payload_def)

theorem append_payload_witness:
  "\<exists>m' cur'. NDEF_MsgAppendPayload ex_mem 40 13 (offset [ex_r1, ex_r2] 0) [4, 5] 2
      = Some (NDEF_OK, m', cur') \<and> holds m' cur' [new_rec 1 [0x54] [0x69] [1, 2, 3, 4, 5], ex_r2]"
proof -
  have e: "with_payload ex_r1 (r_payload ex_r1 @ [4, 5]) = new_rec 1 [0x54] [0x69] [1, 2, 3, 4, 5]"
    by (simp add: ex_r1_def with_payload_def new_rec_def)
  have w: "wf_rec (new_rec 1 [0x54] [0x69] [1, 2, 3, 4, 5])" by (simp add: wf_rec_def)
  have c: "canon ex_r1" "length (r_payload ex_r1) = 3" by (simp_all add: canon_def ex_r1_def)
  let ?rs = "[ex_r1, ex_r2]"
  have "\<exists>m' cur'. NDEF_MsgAppendPayload ex_mem 40 13 (offset ?rs 0) [4, 5] (of_nat (length [4, 5 :: byte]))
      = Some (NDEF_OK, m', cur')
    \<and> holds m' cur' (?rs[0 := with_payload (?rs ! 0) (r_payload (?rs ! 0) @ [4, 5])])
    \<and> length m' = length ex_mem"
    by (rule append_payload [OF ex_holds]) (simp_all add: e w c)
  then show ?thesis unfolding nth_Cons_0 e list_update_code by auto
qed

text \<open>
  \<open>NDEF_MsgReplacePayload\<close> replaces the payload of one record, whether it grows, shrinks or
  keeps its length and whether or not the length field changes its width. Narrowing the field
  reads one byte behind the message.
\<close>

theorem replace_payload:
  assumes h: "holds m cur rs" and i: "i < length rs" and cn: "canon (rs ! i)"
    and src: "src_holds p_new pl" and wf: "wf_rec (with_payload (rs ! i) pl)"
    and fit: "unat cur + length pl + (if length (r_payload (rs ! i)) < 256 \<and> 255 < length pl then 3 else 0)
      \<le> unat max_size + length (r_payload (rs ! i))" "unat cur \<le> unat max_size" "unat max_size \<le> length m"
    and slack: "255 < length (r_payload (rs ! i)) \<and> length pl < 256 \<Longrightarrow> unat cur < length m"
  shows "\<exists>m' cur'. NDEF_MsgReplacePayload m max_size cur (offset rs i) p_new (of_nat (length pl))
      = Some (NDEF_OK, m', cur') \<and> holds m' cur' (rs[i := with_payload (rs ! i) pl])
      \<and> length m' = length m"
proof -
  consider "length (r_payload (rs ! i)) < length pl" | "length pl < length (r_payload (rs ! i))"
    | "length pl = length (r_payload (rs ! i))" by linarith
  then show ?thesis
  proof cases
    case 1
    then show ?thesis
      using fit by (intro NDEF_MsgReplacePayload_grow [OF h i cn src _ wf]) simp_all
  next
    case 2
    then show ?thesis
      using slack by (intro NDEF_MsgReplacePayload_shrink [OF h i cn src _ wf]) (auto split: if_splits)
  next
    case 3
    then show ?thesis by (rule NDEF_MsgReplacePayload_same [OF h i cn src])
  qed
qed

theorem replace_payload_witness:
  "\<exists>m' cur'. NDEF_MsgReplacePayload ex_mem 40 13 (offset [ex_r1, ex_r2] 0) (Some [8]) 1
      = Some (NDEF_OK, m', cur') \<and> holds m' cur' [new_rec 1 [0x54] [0x69] [8], ex_r2]"
  using replace_payload [OF ex_holds, of 0 "Some [8]" "[8]" 40] ex_wf(1)
  by (simp add: wf_rec_def ex_r1_def new_rec_def canon_def with_payload_def) blast

section \<open>Chunks\<close>

text \<open>
  C12. \<open>NDEF_MsgCopyAndDechunk\<close> of a valid message succeeds without any hypothesis on room beyond
  a destination as large as the source, and leaves there the message with the chunks joined, no
  longer than the source; unless a record of type \<open>empty\<close> was chunked the result is a valid
  message without chunks. The objects lie at any addresses \<open>a\<close> and \<open>b\<close>.
\<close>

theorem dechunk_correct:
  assumes "holds s src_len rs" "wf_msg True rs" "placed a s" "unat src_len \<le> length d" "placed b d"
  shows "\<exists>d' len. NDEF_MsgCopyAndDechunk a (Some s) src_len d = Some (NDEF_OK, d', Some len)
      \<and> holds d' len (join_recs rs) \<and> unat len \<le> unat src_len \<and> length d' = length d
      \<and> ((\<forall>r \<in> set rs. \<not> (r_cf r \<and> r_tnf r = NDEF_TNF_EMPTY))
          \<longrightarrow> NDEF_MsgValidate b (Some d') len False = Some NDEF_OK)"
proof -
  obtain d' len p' where c: "NDEF_MsgCopyAndDechunk a (Some s) src_len d = Some (NDEF_OK, d', Some len)"
    and o: "out_ok d' len p' (join_recs rs) (unat src_len)" and l: "length d' = length d"
    using NDEF_MsgCopyAndDechunk_joins [OF assms(1-4)] by blast
  have h: "holds d' len (join_recs rs)" and le: "unat len \<le> unat src_len"
    using o holdsD(2) by (auto simp: out_ok_def)
  have "placed b d'" using assms(5) l by (simp add: placed_def)
  then show ?thesis
    using c l le h NDEF_MsgValidate_holds [OF h] join_recs_wf [OF assms(2) _ holdsD(3) [OF h]] by blast
qed

definition ex_chunks :: "ndef_rec list" where
  "ex_chunks = [(new_rec 1 [0x54] [] [1, 2])\<lparr>r_cf := True\<rparr>, new_rec 6 [] [] [3]]"

definition ex_chunked :: mem where
  "ex_chunked = [0xB1, 1, 2, 0x54, 1, 2, 0x56, 0, 1, 3]"

theorem dechunk_correct_witness:
  "\<exists>d' len. NDEF_MsgCopyAndDechunk 0x1000 (Some ex_chunked) 10 (replicate 10 7) = Some (NDEF_OK, d', Some len)
      \<and> holds d' len [new_rec 1 [0x54] [] [1, 2, 3]]
      \<and> NDEF_MsgValidate 0x2000 (Some d') len False = Some NDEF_OK"
proof -
  have w: "wf_msg True ex_chunks"
    by (simp add: ex_chunks_def new_rec_def wf_msg_def wf_rec_def content_ok_def)
  have "enc_msg ex_chunks = ex_chunked"
    by (simp add: ex_chunks_def ex_chunked_def new_rec_def enc_msg_def enc_rec_def hdr_byte_def flag_def
        paylen_bytes_def idlen_bytes_def)
  then have h: "holds ex_chunked 10 ex_chunks"
    using w by (simp add: holds_def wf_msg_def) (simp add: ex_chunked_def)
  have j: "join_recs ex_chunks = [new_rec 1 [0x54] [] [1, 2, 3]]"
    by (simp add: join_recs_def join_rec_def ex_chunks_def with_payload_def new_rec_def)
  have e: "\<forall>r \<in> set ex_chunks. \<not> (r_cf r \<and> r_tnf r = NDEF_TNF_EMPTY)"
    by (simp add: ex_chunks_def new_rec_def)
  show ?thesis
    using dechunk_correct [OF h w, of "0x1000" "replicate 10 7" "0x2000"] e unfolding j
    by (auto simp: placed_def ex_chunked_def)
qed

section \<open>The message as a store\<close>

text \<open>
  Starting from an initialised buffer, adding records one by one with \<open>NDEF_MsgAddRec\<close> succeeds
  exactly as long as they fit, the buffer then holds them in order, and removing the first record
  as many times with \<open>NDEF_MsgRemoveRec\<close> empties the buffer and gives all its room back.
\<close>

theorem build_and_empty:
  assumes "unat max_size \<le> length m" "unat max_size < 2147483648" "\<forall>r \<in> set rs. addable r"
  shows "\<exists>m0. NDEF_MsgInit m max_size = Some (m0, 0) \<and>
    (let s0 = \<lparr>st_mem = m0, st_max = max_size, st_cur = 0\<rparr> in
     if sum_list (map rec_len rs) \<le> unat max_size
     then \<exists>s1 s2. ndef.put_all rs s0 = Some s1 \<and> holds (st_mem s1) (st_cur s1) rs
       \<and> ndef.del_all (length rs) s1 = Some s2 \<and> st_cur s2 = 0
     else ndef.put_all rs s0 = None)"
proof -
  let ?m0 = "replicate (unat max_size) 0 @ drop (unat max_size) m"
  let ?s0 = "\<lparr>st_mem = ?m0, st_max = max_size, st_cur = 0\<rparr>"
  have i: "NDEF_MsgInit m max_size = Some (?m0, 0)" by (rule NDEF_MsgInit_ok [OF assms(1)])
  have r: "store_rep ?s0 []" "store_room ?s0 = unat max_size"
    using assms by (simp_all add: store_rep_def store_room_def holds_def)
  show ?thesis
  proof (cases "sum_list (map rec_len rs) \<le> unat max_size")
    case True
    then obtain s1 where s1: "ndef.put_all rs ?s0 = Some s1" "store_rep s1 rs"
      using ndef.put_all_ok [OF r(1) assms(3)] r(2) by auto
    then obtain s2 where "ndef.del_all (length rs) s1 = Some s2" "store_rep s2 []"
      using ndef.del_all_ok by blast
    then show ?thesis
      using i s1 True holds_0_iff by (fastforce simp: store_rep_def)
  next
    case False
    then have "ndef.put_all rs ?s0 = None"
      using ndef.put_all_full [OF r(1) assms(3)] r(2) by simp
    then show ?thesis using i False by simp
  qed
qed

theorem build_and_empty_witness:
  "\<exists>m0. NDEF_MsgInit ex_mem 40 = Some (m0, 0) \<and>
    (\<exists>s1. ndef.put_all [ex_r1, ex_r2] \<lparr>st_mem = m0, st_max = 40, st_cur = 0\<rparr> = Some s1
      \<and> holds (st_mem s1) (st_cur s1) [ex_r1, ex_r2])"
proof -
  have "addable ex_r1" "addable ex_r2" "sum_list (map rec_len [ex_r1, ex_r2]) \<le> 40"
    using ex_wf by (simp_all add: addable_def rec_len_def hdr_len_def ex_r1_def ex_r2_def)
  then show ?thesis using build_and_empty [of 40 ex_mem "[ex_r1, ex_r2]"] by (auto simp: Let_def)
qed

end
