(* ===== verification/Gki_Model.thy ===== *)
theory Gki_Model
  imports Nfc_Prelude
begin

text \<open>
  The buffer manager of the kernel interface layer, \<open>src/libnfc-nci/gki/common/gki_buffer.c\<close>:
  pools of fixed-size buffers with their free queues, the buffer queues of the applications and
  the task mailboxes.

  Buffer headers live in a heap from addresses to headers; a NULL pointer is \<open>None\<close> and an access
  through a pointer at which there is no header makes the whole operation \<open>None\<close>. \<open>words\<close> holds the
  magic numbers behind the buffers. A user pointer is the header address plus \<open>BUFFER_HDR_SIZE\<close>.
  What the code takes from the operating system is an argument: the task id of the running thread
  (\<open>tid\<close>) and the result of \<open>malloc\<close> (\<open>mal\<close>, from the requested size to the address or NULL).
  \<open>locks\<close> is the nesting depth of the mutex that \<open>GKI_disable\<close> takes and \<open>GKI_enable\<close> releases.
\<close>

section \<open>Data\<close>

definition GKI_NUM_TOTAL_BUF_POOLS :: nat where "GKI_NUM_TOTAL_BUF_POOLS = 10"
definition GKI_MAX_TASKS :: nat where "GKI_MAX_TASKS = 14"
definition NUM_TASK_MBOX :: nat where "NUM_TASK_MBOX = 4"
definition GKI_INVALID_TASK :: nat where "GKI_INVALID_TASK = 255"
definition BUFFER_HDR_SIZE :: nat where "BUFFER_HDR_SIZE = 8"
definition BUFFER_PADDING_SIZE :: nat where "BUFFER_PADDING_SIZE = BUFFER_HDR_SIZE + 4"
definition MAX_USER_BUF_SIZE :: nat where "MAX_USER_BUF_SIZE = 65535 - BUFFER_PADDING_SIZE"
definition MAGIC_NO :: u32 where "MAGIC_NO = 0xDDBADDBA"

definition ALIGN_POOL :: "nat \<Rightarrow> nat" where
  "ALIGN_POOL n = ((n + 3) div 4) * 4"

datatype buf_status = BUF_STATUS_FREE | BUF_STATUS_UNLINKED | BUF_STATUS_QUEUED

datatype gki_error =
    GKI_ERROR_BUF_CORRUPTED | GKI_ERROR_FREEBUF_BUF_LINKED | GKI_ERROR_FREEBUF_BAD_QID
  | GKI_ERROR_SEND_MSG_BAD_DEST | GKI_ERROR_SEND_MSG_BUF_LINKED | GKI_ERROR_ENQUEUE_BUF_LINKED
  | GKI_ERROR_DELETE_POOL_BAD_QID | GKI_ERROR_BUF_SIZE_TOOBIG | GKI_ERROR_BUF_SIZE_ZERO

record buffer_hdr =
  h_next :: ptr
  h_qid :: nat
  h_task :: nat
  h_status :: buf_status
  h_type :: nat

record free_queue =
  fq_first :: ptr
  fq_last :: ptr
  fq_size :: nat
  fq_total :: nat
  fq_cur :: nat
  fq_max :: nat

record buffer_q =
  bq_first :: ptr
  bq_last :: ptr
  bq_count :: u16

record gki_com =
  heap :: "nat \<Rightarrow> buffer_hdr option"
  words :: "nat \<Rightarrow> u32 option"
  freeq :: "nat \<Rightarrow> free_queue"
  pool_start :: "nat \<Rightarrow> ptr"
  pool_end :: "nat \<Rightarrow> ptr"
  pool_size :: "nat \<Rightarrow> nat"
  pool_list :: "nat \<Rightarrow> nat"
  pool_access_mask :: u16
  curr_total_no_of_pools :: nat
  task_q_first :: "nat \<Rightarrow> nat \<Rightarrow> ptr"
  task_q_last :: "nat \<Rightarrow> nat \<Rightarrow> ptr"
  task_dead :: "nat \<Rightarrow> bool"
  wait_evt :: "nat \<Rightarrow> u16"
  exceptions :: "gki_error list"
  locks :: nat

definition GKI_disable :: "gki_com \<Rightarrow> gki_com" where
  "GKI_disable s = s\<lparr>locks := locks s + 1\<rparr>"

definition GKI_enable :: "gki_com \<Rightarrow> gki_com" where
  "GKI_enable s = s\<lparr>locks := locks s - 1\<rparr>"

definition GKI_exception :: "gki_error \<Rightarrow> gki_com \<Rightarrow> gki_com" where
  "GKI_exception e s = s\<lparr>exceptions := exceptions s @ [e]\<rparr>"

definition hdr_upd :: "nat \<Rightarrow> (buffer_hdr \<Rightarrow> buffer_hdr) \<Rightarrow> gki_com \<Rightarrow> gki_com option" where
  "hdr_upd a f s = (case heap s a of None \<Rightarrow> None | Some h \<Rightarrow> Some (s\<lparr>heap := (heap s)(a \<mapsto> f h)\<rparr>))"

definition fq_upd :: "nat \<Rightarrow> (free_queue \<Rightarrow> free_queue) \<Rightarrow> gki_com \<Rightarrow> gki_com" where
  "fq_upd i f s = s\<lparr>freeq := (freeq s)(i := f (freeq s i))\<rparr>"

text \<open>From the user pointer to the header and back.\<close>

definition hdr_of :: "nat \<Rightarrow> nat" where
  "hdr_of p = p - BUFFER_HDR_SIZE"

definition buf_of :: "nat \<Rightarrow> nat" where
  "buf_of a = a + BUFFER_HDR_SIZE"

section \<open>Pools\<close>

text \<open>
  The index table of a pool: one header every \<open>act_size\<close> bytes, chained in address order, and the
  magic number behind each buffer. The \<open>Type\<close> byte of fresh memory is arbitrary and never read
  before an allocation clears it; it is taken as 0.
\<close>

primrec init_hdrs ::
    "nat \<Rightarrow> nat \<Rightarrow> nat \<Rightarrow> nat \<Rightarrow> nat \<Rightarrow> ptr \<Rightarrow> (nat \<Rightarrow> buffer_hdr option) \<times> (nat \<Rightarrow> u32 option)
      \<Rightarrow> (nat \<Rightarrow> buffer_hdr option) \<times> (nat \<Rightarrow> u32 option) \<times> ptr" where
  "init_hdrs pid tempsize act_size 0 hdr hdr1 hw = (fst hw, snd hw, hdr1)"
| "init_hdrs pid tempsize act_size (Suc n) hdr hdr1 hw =
     init_hdrs pid tempsize act_size n (hdr + act_size) (Some hdr)
       ((fst hw)(hdr \<mapsto> \<lparr>h_next = Some (hdr + act_size), h_qid = pid, h_task = GKI_INVALID_TASK,
                         h_status = BUF_STATUS_FREE, h_type = 0\<rparr>),
        (snd hw)(hdr + BUFFER_HDR_SIZE + tempsize \<mapsto> MAGIC_NO))"

definition gki_init_free_queue :: "nat \<Rightarrow> nat \<Rightarrow> nat \<Rightarrow> ptr \<Rightarrow> gki_com \<Rightarrow> gki_com option" where
  "gki_init_free_queue pid sz cnt p_mem s =
     (let tempsize = ALIGN_POOL sz;
          act_size = (tempsize + BUFFER_PADDING_SIZE) mod 65536;
          s = s\<lparr>pool_size := (pool_size s)(pid := act_size)\<rparr>;
          s = fq_upd pid (\<lambda>Q. Q\<lparr>fq_size := tempsize mod 65536, fq_total := cnt, fq_cur := 0, fq_max := 0\<rparr>) s in
      case p_mem of None \<Rightarrow> Some s
      | Some p \<Rightarrow>
          let s = s\<lparr>pool_start := (pool_start s)(pid := Some p),
                    pool_end := (pool_end s)(pid := Some (p + act_size * cnt))\<rparr>;
              (h, w, hdr1) = init_hdrs pid tempsize act_size cnt p None (heap s, words s) in
          do {
            l \<leftarrow> hdr1;
            s \<leftarrow> hdr_upd l (\<lambda>x. x\<lparr>h_next := None\<rparr>) (s\<lparr>heap := h, words := w\<rparr>);
            Some (fq_upd pid (\<lambda>Q. Q\<lparr>fq_first := Some p, fq_last := Some l\<rparr>) s) })"

text \<open>The deferred allocation. \<open>pid\<close> is a position of \<open>pool_list\<close> in one place and a pool in the other.\<close>

definition gki_alloc_free_queue :: "(nat \<Rightarrow> ptr) \<Rightarrow> nat \<Rightarrow> gki_com \<Rightarrow> (bool \<times> gki_com) option" where
  "gki_alloc_free_queue mal pid s =
     (let Q = freeq s (pool_list s pid) in
      if fq_first Q = None then
        (case mal ((fq_size Q + BUFFER_PADDING_SIZE) * fq_total Q) of
           None \<Rightarrow> Some (False, GKI_exception GKI_ERROR_BUF_SIZE_TOOBIG s)
         | Some p \<Rightarrow> do { s \<leftarrow> gki_init_free_queue pid (fq_size Q) (fq_total Q) (Some p) s;
                         Some (True, s) })
      else Some (False, s))"

text \<open>
  The start-up state. \<open>fixed_pools\<close> is the pool table of the build (\<open>Makefile.am\<close> sets
  \<open>NFC_NXP_NOT_OPEN_INCLUDED\<close>; \<open>buildcfg.h\<close> and \<open>gki_target.h\<close> give the sizes and numbers). The memory
  of a pool is not allocated before its first use.
\<close>

definition GKI_NUM_FIXED_BUF_POOLS :: nat where "GKI_NUM_FIXED_BUF_POOLS = 9"

definition fixed_pools :: "(nat \<times> nat) list" where
  "fixed_pools = [(268, 40), (128, 0), (660, 70), (0xFFB0, 70), (2400, 30), (748, 0), (268, 0),
     (9472, 0), (128, 0)]"

definition empty_fq :: free_queue where
  "empty_fq = \<lparr>fq_first = None, fq_last = None, fq_size = 0, fq_total = 0, fq_cur = 0, fq_max = 0\<rparr>"

definition init_fixed :: "nat \<Rightarrow> gki_com option \<Rightarrow> gki_com option" where
  "init_fixed i so = do { s \<leftarrow> so;
     gki_init_free_queue i (fst (fixed_pools ! i)) (snd (fixed_pools ! i)) None s }"

definition gki_buffer_init :: "gki_com \<Rightarrow> gki_com option" where
  "gki_buffer_init s = do {
     let s = s\<lparr>task_q_first := (\<lambda>t m. None), task_q_last := (\<lambda>t m. None),
               pool_start := (\<lambda>i. None), pool_end := (\<lambda>i. None), pool_size := (\<lambda>i. 0),
               freeq := (\<lambda>i. empty_fq), pool_access_mask := 0xfff0\<rparr>;
     s \<leftarrow> fold init_fixed [0..<GKI_NUM_FIXED_BUF_POOLS] (Some s);
     Some (s\<lparr>pool_list := (\<lambda>i. if i < GKI_NUM_FIXED_BUF_POOLS then i else pool_list s i),
              curr_total_no_of_pools := GKI_NUM_FIXED_BUF_POOLS\<rparr>) }"

section \<open>Allocation\<close>

text \<open>What the three allocating functions do with the first header of a free queue.\<close>

definition take_first :: "nat \<Rightarrow> nat \<Rightarrow> gki_com \<Rightarrow> (nat \<times> gki_com) option" where
  "take_first tid pid s = do {
     a \<leftarrow> fq_first (freeq s pid);
     h \<leftarrow> heap s a;
     let s = fq_upd pid (\<lambda>Q. Q\<lparr>fq_first := h_next h\<rparr>) s;
     let s = (if fq_first (freeq s pid) = None then fq_upd pid (\<lambda>Q. Q\<lparr>fq_last := None\<rparr>) s else s);
     let s = fq_upd pid (\<lambda>Q. Q\<lparr>fq_cur := fq_cur Q + 1, fq_max := max (fq_max Q) (fq_cur Q + 1)\<rparr>) s;
     s \<leftarrow> hdr_upd a (\<lambda>x. x\<lparr>h_task := tid, h_status := BUF_STATUS_UNLINKED, h_next := None, h_type := 0\<rparr>) s;
     Some (a, s) }"

definition restricted :: "nat \<Rightarrow> gki_com \<Rightarrow> bool" where
  "restricted p s \<longleftrightarrow> p < 16 \<and> bit (pool_access_mask s) p"

text \<open>The search loop of \<open>GKI_getbuf\<close> from position \<open>i\<close>; it runs with the lock held.\<close>

function getbuf_loop :: "(nat \<Rightarrow> ptr) \<Rightarrow> nat \<Rightarrow> nat \<Rightarrow> gki_com \<Rightarrow> (ptr \<times> gki_com) option" where
  "getbuf_loop mal tid i s =
     (if i < curr_total_no_of_pools s then
        let p = pool_list s i in
        if restricted p s then getbuf_loop mal tid (i + 1) s
        else if fq_cur (freeq s p) < fq_total (freeq s p) then do {
          (ok, s) \<leftarrow> (if fq_first (freeq s p) = None then gki_alloc_free_queue mal i s else Some (True, s));
          if \<not> ok then Some (None, GKI_enable s)
          else if fq_first (freeq s p) = None then Some (None, GKI_enable s)
          else do { (a, s) \<leftarrow> take_first tid p s; Some (Some (buf_of a), GKI_enable s) } }
        else getbuf_loop mal tid (i + 1) s
      else Some (None, GKI_enable s))"
  by pat_completeness auto
termination
  by (relation "measure (\<lambda>(mal, tid, i, s). curr_total_no_of_pools s - i)") auto

declare getbuf_loop.simps [simp del]

text \<open>The first position whose pool is large enough; restricted pools count here as well.\<close>

definition first_fit :: "nat \<Rightarrow> gki_com \<Rightarrow> nat" where
  "first_fit sz s =
     (let ok = filter (\<lambda>i. sz \<le> fq_size (freeq s (pool_list s i))) [0..<curr_total_no_of_pools s] in
      if ok = [] then curr_total_no_of_pools s else hd ok)"

definition GKI_getbuf :: "(nat \<Rightarrow> ptr) \<Rightarrow> nat \<Rightarrow> nat \<Rightarrow> gki_com \<Rightarrow> (ptr \<times> gki_com) option" where
  "GKI_getbuf mal tid sz s =
     (if sz = 0 then Some (None, GKI_exception GKI_ERROR_BUF_SIZE_ZERO s)
      else let i = first_fit sz s in
        if i = curr_total_no_of_pools s then Some (None, GKI_exception GKI_ERROR_BUF_SIZE_TOOBIG s)
        else getbuf_loop mal tid i (GKI_disable s))"

text \<open>On the two failing returns inside the guarded branch the lock is not released.\<close>

definition GKI_getpoolbuf :: "(nat \<Rightarrow> ptr) \<Rightarrow> nat \<Rightarrow> nat \<Rightarrow> gki_com \<Rightarrow> (ptr \<times> gki_com) option" where
  "GKI_getpoolbuf mal tid pool_id s =
     (if GKI_NUM_TOTAL_BUF_POOLS \<le> pool_id then Some (None, s)
      else let s = GKI_disable s in
        if fq_cur (freeq s pool_id) < fq_total (freeq s pool_id) then do {
          (ok, s) \<leftarrow> (if fq_first (freeq s pool_id) = None then gki_alloc_free_queue mal pool_id s
                       else Some (True, s));
          if \<not> ok then Some (None, s)
          else if fq_first (freeq s pool_id) = None then Some (None, s)
          else do { (a, s) \<leftarrow> take_first tid pool_id s; Some (Some (buf_of a), GKI_enable s) } }
        else let s = GKI_enable s in GKI_getbuf mal tid (fq_size (freeq s pool_id)) s)"

definition GKI_igetpoolbuf :: "nat \<Rightarrow> nat \<Rightarrow> gki_com \<Rightarrow> (ptr \<times> gki_com) option" where
  "GKI_igetpoolbuf tid pool_id s =
     (if GKI_NUM_TOTAL_BUF_POOLS \<le> pool_id then Some (None, s)
      else if fq_cur (freeq s pool_id) < fq_total (freeq s pool_id) then do {
        (a, s) \<leftarrow> take_first tid pool_id s; Some (Some (buf_of a), s) }
      else Some (None, s))"

definition GKI_get_buf_size :: "nat \<Rightarrow> gki_com \<Rightarrow> nat option" where
  "GKI_get_buf_size p_buf s =
     (let a = hdr_of p_buf in
      if odd a then Some 0
      else do { h \<leftarrow> heap s a;
                Some (if h_qid h < GKI_NUM_TOTAL_BUF_POOLS then fq_size (freeq s (h_qid h)) else 0) })"

definition gki_chk_buf_damage :: "nat \<Rightarrow> gki_com \<Rightarrow> bool option" where
  "gki_chk_buf_damage p_buf s = do {
     n \<leftarrow> GKI_get_buf_size p_buf s;
     if odd (p_buf + n) then Some True
     else do { w \<leftarrow> words s (p_buf + n); Some (w \<noteq> MAGIC_NO) } }"

definition GKI_freebuf :: "ptr \<Rightarrow> gki_com \<Rightarrow> gki_com option" where
  "GKI_freebuf p_buf s =
     (case p_buf of None \<Rightarrow> Some (GKI_exception GKI_ERROR_BUF_CORRUPTED s)
      | Some p \<Rightarrow> do {
          bad \<leftarrow> gki_chk_buf_damage p s;
          if bad then Some (GKI_exception GKI_ERROR_BUF_CORRUPTED s)
          else do {
            let a = hdr_of p;
            h \<leftarrow> heap s a;
            if h_status h \<noteq> BUF_STATUS_UNLINKED then Some (GKI_exception GKI_ERROR_FREEBUF_BUF_LINKED s)
            else if GKI_NUM_TOTAL_BUF_POOLS \<le> h_qid h then Some (GKI_exception GKI_ERROR_FREEBUF_BAD_QID s)
            else do {
              let s = GKI_disable s;
              let i = h_qid h;
              s \<leftarrow> (case fq_last (freeq s i) of
                     Some l \<Rightarrow> hdr_upd l (\<lambda>x. x\<lparr>h_next := Some a\<rparr>) s
                   | None \<Rightarrow> Some (fq_upd i (\<lambda>Q. Q\<lparr>fq_first := Some a\<rparr>) s));
              let s = fq_upd i (\<lambda>Q. Q\<lparr>fq_last := Some a\<rparr>) s;
              s \<leftarrow> hdr_upd a (\<lambda>x. x\<lparr>h_next := None, h_status := BUF_STATUS_FREE, h_task := GKI_INVALID_TASK\<rparr>) s;
              let s = (if 0 < fq_cur (freeq s i) then fq_upd i (\<lambda>Q. Q\<lparr>fq_cur := fq_cur Q - 1\<rparr>) s else s);
              Some (GKI_enable s) } } })"

text \<open>
  The second half of \<open>gki_buffer.c\<close>: the mailboxes of the tasks, the buffer queues of the
  applications, and the creation and deletion of pools. A queue \<open>p_q\<close> is the application's object:
  it is passed in and returned. The addresses in a queue are user pointers, those in a mailbox
  header pointers, as in the code.
\<close>

section \<open>Mailboxes\<close>

definition GKI_send_event :: "nat \<Rightarrow> u16 \<Rightarrow> gki_com \<Rightarrow> gki_com" where
  "GKI_send_event task event s =
     (if task < GKI_MAX_TASKS
      then s\<lparr>wait_evt := (wait_evt s)(task := wait_evt s task OR event)\<rparr> else s)"

definition mbox_upd :: "nat \<Rightarrow> nat \<Rightarrow> ptr \<Rightarrow> (nat \<Rightarrow> nat \<Rightarrow> ptr) \<Rightarrow> nat \<Rightarrow> nat \<Rightarrow> ptr" where
  "mbox_upd t m v f = f(t := (f t)(m := v))"

definition GKI_send_msg :: "nat \<Rightarrow> nat \<Rightarrow> nat \<Rightarrow> gki_com \<Rightarrow> gki_com option" where
  "GKI_send_msg task mbox msg s =
     (if GKI_MAX_TASKS \<le> task \<or> NUM_TASK_MBOX \<le> mbox \<or> task_dead s task
      then GKI_freebuf (Some msg) (GKI_exception GKI_ERROR_SEND_MSG_BAD_DEST s)
      else do {
        bad \<leftarrow> gki_chk_buf_damage msg s;
        if bad then Some (GKI_exception GKI_ERROR_BUF_CORRUPTED s)
        else do {
          let a = hdr_of msg;
          h \<leftarrow> heap s a;
          if h_status h \<noteq> BUF_STATUS_UNLINKED then Some (GKI_exception GKI_ERROR_SEND_MSG_BUF_LINKED s)
          else do {
            let s = GKI_disable s;
            s \<leftarrow> (if task_q_first s task mbox \<noteq> None
                  then do { l \<leftarrow> task_q_last s task mbox; hdr_upd l (\<lambda>x. x\<lparr>h_next := Some a\<rparr>) s }
                  else Some (s\<lparr>task_q_first := mbox_upd task mbox (Some a) (task_q_first s)\<rparr>));
            let s = s\<lparr>task_q_last := mbox_upd task mbox (Some a) (task_q_last s)\<rparr>;
            s \<leftarrow> hdr_upd a (\<lambda>x. x\<lparr>h_next := None, h_status := BUF_STATUS_QUEUED, h_task := task\<rparr>) s;
            let s = GKI_enable s;
            Some (GKI_send_event task (push_bit mbox 1) s) } } })"

definition GKI_read_mbox :: "nat \<Rightarrow> nat \<Rightarrow> gki_com \<Rightarrow> (ptr \<times> gki_com) option" where
  "GKI_read_mbox tid mbox s =
     (if GKI_MAX_TASKS \<le> tid \<or> NUM_TASK_MBOX \<le> mbox then Some (None, s)
      else let s = GKI_disable s in
        case task_q_first s tid mbox of None \<Rightarrow> Some (None, GKI_enable s)
        | Some a \<Rightarrow> do {
            h \<leftarrow> heap s a;
            let s = s\<lparr>task_q_first := mbox_upd tid mbox (h_next h) (task_q_first s)\<rparr>;
            s \<leftarrow> hdr_upd a (\<lambda>x. x\<lparr>h_next := None, h_status := BUF_STATUS_UNLINKED\<rparr>) s;
            Some (Some (buf_of a), GKI_enable s) })"

section \<open>Buffer queues\<close>

definition GKI_init_q :: "buffer_q \<Rightarrow> buffer_q" where
  "GKI_init_q q = q\<lparr>bq_first := None, bq_last := None, bq_count := 0\<rparr>"

definition GKI_enqueue :: "buffer_q \<Rightarrow> nat \<Rightarrow> gki_com \<Rightarrow> (gki_com \<times> buffer_q) option" where
  "GKI_enqueue q p_buf s = do {
     bad \<leftarrow> gki_chk_buf_damage p_buf s;
     if bad then Some (GKI_exception GKI_ERROR_BUF_CORRUPTED s, q)
     else do {
       let a = hdr_of p_buf;
       h \<leftarrow> heap s a;
       if h_status h \<noteq> BUF_STATUS_UNLINKED then Some (GKI_exception GKI_ERROR_ENQUEUE_BUF_LINKED s, q)
       else do {
         let s = GKI_disable s;
         (s, q) \<leftarrow> (if bq_first q \<noteq> None
                   then do { l \<leftarrow> bq_last q;
                             s \<leftarrow> hdr_upd (hdr_of l) (\<lambda>x. x\<lparr>h_next := Some a\<rparr>) s; Some (s, q) }
                   else Some (s, q\<lparr>bq_first := Some p_buf\<rparr>));
         let q = q\<lparr>bq_last := Some p_buf, bq_count := bq_count q + 1\<rparr>;
         s \<leftarrow> hdr_upd a (\<lambda>x. x\<lparr>h_next := None, h_status := BUF_STATUS_QUEUED\<rparr>) s;
         Some (GKI_enable s, q) } } }"

definition GKI_enqueue_head :: "buffer_q \<Rightarrow> nat \<Rightarrow> gki_com \<Rightarrow> (gki_com \<times> buffer_q) option" where
  "GKI_enqueue_head q p_buf s = do {
     bad \<leftarrow> gki_chk_buf_damage p_buf s;
     if bad then Some (GKI_exception GKI_ERROR_BUF_CORRUPTED s, q)
     else do {
       let a = hdr_of p_buf;
       h \<leftarrow> heap s a;
       if h_status h \<noteq> BUF_STATUS_UNLINKED then Some (GKI_exception GKI_ERROR_ENQUEUE_BUF_LINKED s, q)
       else do {
         let s = GKI_disable s;
         (s, q) \<leftarrow> (case bq_first q of
                     Some f \<Rightarrow> do { s \<leftarrow> hdr_upd a (\<lambda>x. x\<lparr>h_next := Some (hdr_of f)\<rparr>) s;
                                   Some (s, q\<lparr>bq_first := Some p_buf\<rparr>) }
                   | None \<Rightarrow> do { s \<leftarrow> hdr_upd a (\<lambda>x. x\<lparr>h_next := None\<rparr>) s;
                                 Some (s, q\<lparr>bq_first := Some p_buf, bq_last := Some p_buf\<rparr>) });
         let q = q\<lparr>bq_count := bq_count q + 1\<rparr>;
         s \<leftarrow> hdr_upd a (\<lambda>x. x\<lparr>h_status := BUF_STATUS_QUEUED\<rparr>) s;
         Some (GKI_enable s, q) } } }"

text \<open>A NULL queue pointer is answered like an empty queue.\<close>

definition GKI_dequeue :: "buffer_q option \<Rightarrow> gki_com \<Rightarrow> (ptr \<times> gki_com \<times> buffer_q option) option" where
  "GKI_dequeue p_q s =
     (let s = GKI_disable s in
      case p_q of None \<Rightarrow> Some (None, GKI_enable s, None)
      | Some q \<Rightarrow>
          if bq_count q = 0 then Some (None, GKI_enable s, Some q)
          else do {
            f \<leftarrow> bq_first q;
            let a = hdr_of f;
            h \<leftarrow> heap s a;
            let q = (case h_next h of Some n \<Rightarrow> q\<lparr>bq_first := Some (buf_of n)\<rparr>
                     | None \<Rightarrow> q\<lparr>bq_first := None, bq_last := None\<rparr>);
            let q = q\<lparr>bq_count := bq_count q - 1\<rparr>;
            s \<leftarrow> hdr_upd a (\<lambda>x. x\<lparr>h_next := None, h_status := BUF_STATUS_UNLINKED\<rparr>) s;
            Some (Some (buf_of a), GKI_enable s, Some q) })"

text \<open>The loop over the predecessors; the theorems show that it ends on every chain that ends.\<close>

definition unlink_after :: "gki_com \<Rightarrow> buffer_q \<Rightarrow> nat \<Rightarrow> nat \<Rightarrow> (ptr \<times> gki_com \<times> buffer_q) option" where
  "unlink_after s q p_buf a = do {
     hb \<leftarrow> heap s (hdr_of p_buf);
     s \<leftarrow> hdr_upd a (\<lambda>x. x\<lparr>h_next := h_next hb\<rparr>) s;
     let q = (if bq_last q = Some p_buf then q\<lparr>bq_last := Some (buf_of a)\<rparr> else q);
     let q = q\<lparr>bq_count := bq_count q - 1\<rparr>;
     s \<leftarrow> hdr_upd (hdr_of p_buf) (\<lambda>x. x\<lparr>h_next := None, h_status := BUF_STATUS_UNLINKED\<rparr>) s;
     Some (Some p_buf, GKI_enable s, q) }"

partial_function (option) remove_loop ::
    "gki_com \<Rightarrow> buffer_q \<Rightarrow> nat \<Rightarrow> ptr \<Rightarrow> (ptr \<times> gki_com \<times> buffer_q) option" where
  "remove_loop s q p_buf p_prev =
     (if p_prev = None then Some (None, GKI_enable s, q)
      else Option.bind (heap s (the p_prev)) (\<lambda>h.
        if h_next h = Some (hdr_of p_buf) then unlink_after s q p_buf (the p_prev)
        else remove_loop s q p_buf (h_next h)))"

text \<open>On an empty queue \<open>p_first - BUFFER_HDR_SIZE\<close> is computed from NULL and dereferenced.\<close>

definition GKI_remove_from_queue :: "buffer_q \<Rightarrow> nat \<Rightarrow> gki_com \<Rightarrow> (ptr \<times> gki_com \<times> buffer_q) option" where
  "GKI_remove_from_queue q p_buf s =
     (let s = GKI_disable s in
      if bq_first q = Some p_buf then do {
        (r, s, q') \<leftarrow> GKI_dequeue (Some q) (GKI_enable s);
        q' \<leftarrow> q';
        Some (r, s, q') }
      else do { f \<leftarrow> bq_first q; remove_loop s q p_buf (Some (hdr_of f)) })"

definition GKI_getfirst :: "buffer_q \<Rightarrow> ptr" where
  "GKI_getfirst q = bq_first q"

definition GKI_getlast :: "buffer_q \<Rightarrow> ptr" where
  "GKI_getlast q = bq_last q"

definition GKI_getnext :: "nat \<Rightarrow> gki_com \<Rightarrow> ptr option" where
  "GKI_getnext p_buf s = do { h \<leftarrow> heap s (hdr_of p_buf); Some (map_option buf_of (h_next h)) }"

definition GKI_queue_is_empty :: "buffer_q \<Rightarrow> bool" where
  "GKI_queue_is_empty q \<longleftrightarrow> bq_count q = 0"

section \<open>The pool table\<close>

definition GKI_find_buf_start :: "nat \<Rightarrow> gki_com \<Rightarrow> ptr \<times> gki_com" where
  "GKI_find_buf_start p_ua s =
     (case filter (\<lambda>i. (case (pool_start s i, pool_end s i) of (Some a, Some b) \<Rightarrow> a < p_ua \<and> p_ua < b | _ \<Rightarrow> False))
             [0..<GKI_NUM_TOTAL_BUF_POOLS] of
        i # _ \<Rightarrow> (let a = the (pool_start s i); yy = p_ua - a; sz = pool_size s i in
                 (Some (a + (yy div sz) * sz + BUFFER_HDR_SIZE), s))
      | [] \<Rightarrow> (None, GKI_exception GKI_ERROR_BUF_SIZE_ZERO s))"

datatype pool_result = GKI_SUCCESS | GKI_INVALID_POOL

definition GKI_set_pool_permission :: "nat \<Rightarrow> bool \<Rightarrow> gki_com \<Rightarrow> pool_result \<times> gki_com" where
  "GKI_set_pool_permission pool_id restrict s =
     (if pool_id < GKI_NUM_TOTAL_BUF_POOLS then
        (GKI_SUCCESS, s\<lparr>pool_access_mask :=
           (if restrict then pool_access_mask s OR push_bit pool_id 1
            else pool_access_mask s AND NOT (push_bit pool_id 1))\<rparr>)
      else (GKI_INVALID_POOL, s))"

text \<open>\<open>pool_list\<close> has one entry per pool: an insertion into a full list is out of bounds.\<close>

definition gki_add_to_pool_list :: "nat \<Rightarrow> gki_com \<Rightarrow> gki_com option" where
  "gki_add_to_pool_list pool_id s =
     (let n = curr_total_no_of_pools s;
          le = filter (\<lambda>i. fq_size (freeq s pool_id) \<le> fq_size (freeq s (pool_list s i))) [0..<n];
          i = (if le = [] then n else hd le) in
      if GKI_NUM_TOTAL_BUF_POOLS \<le> n then None
      else Some (s\<lparr>pool_list := (\<lambda>j. if j < i then pool_list s j else if j = i then pool_id
                                   else if j \<le> n then pool_list s (j - 1) else pool_list s j)\<rparr>))"

definition gki_remove_from_pool_list :: "nat \<Rightarrow> gki_com \<Rightarrow> gki_com" where
  "gki_remove_from_pool_list pool_id s =
     (let n = curr_total_no_of_pools s;
          eq = filter (\<lambda>i. pool_list s i = pool_id) [0..<n];
          i = (if eq = [] then n else hd eq) in
      s\<lparr>pool_list := (\<lambda>j. if i \<le> j \<and> j + 1 < n then pool_list s (j + 1) else pool_list s j)\<rparr>)"

definition GKI_create_pool :: "(nat \<Rightarrow> ptr) \<Rightarrow> nat \<Rightarrow> nat \<Rightarrow> bool \<Rightarrow> ptr \<Rightarrow> gki_com \<Rightarrow> (ptr \<times> gki_com) option" where
  "GKI_create_pool mal sz count restrict p_mem_pool s =
     (if MAX_USER_BUF_SIZE < sz then Some (None, s)
      else case filter (\<lambda>i. pool_start s i = None) [0..<GKI_NUM_TOTAL_BUF_POOLS] of
        [] \<Rightarrow> Some (None, s)
      | xx # _ \<Rightarrow>
          let mem_needed = (ALIGN_POOL sz + BUFFER_PADDING_SIZE) * count;
              p = (case p_mem_pool of None \<Rightarrow> mal mem_needed | Some a \<Rightarrow> Some a) in
          case p of None \<Rightarrow> Some (None, s)
          | Some a \<Rightarrow> do {
              s \<leftarrow> gki_init_free_queue xx sz count (Some a) s;
              s \<leftarrow> gki_add_to_pool_list xx s;
              let s = snd (GKI_set_pool_permission xx restrict s);
              Some (Some xx, s\<lparr>curr_total_no_of_pools := curr_total_no_of_pools s + 1\<rparr>) })"

definition GKI_delete_pool :: "nat \<Rightarrow> gki_com \<Rightarrow> gki_com" where
  "GKI_delete_pool pool_id s =
     (if GKI_NUM_TOTAL_BUF_POOLS \<le> pool_id \<or> pool_start s pool_id = None then s
      else let s = GKI_disable s in
        if fq_cur (freeq s pool_id) = 0 then
          let s = fq_upd pool_id (\<lambda>Q. empty_fq) s;
              s = s\<lparr>pool_start := (pool_start s)(pool_id := None),
                    pool_end := (pool_end s)(pool_id := None),
                    pool_size := (pool_size s)(pool_id := 0)\<rparr>;
              s = gki_remove_from_pool_list pool_id s in
          GKI_enable (s\<lparr>curr_total_no_of_pools := curr_total_no_of_pools s - 1\<rparr>)
        else GKI_enable (GKI_exception GKI_ERROR_DELETE_POOL_BAD_QID s))"

definition GKI_poolcount :: "nat \<Rightarrow> gki_com \<Rightarrow> nat" where
  "GKI_poolcount pool_id s = (if GKI_NUM_TOTAL_BUF_POOLS \<le> pool_id then 0 else fq_total (freeq s pool_id))"

definition GKI_poolfreecount :: "nat \<Rightarrow> gki_com \<Rightarrow> nat" where
  "GKI_poolfreecount pool_id s =
     (if GKI_NUM_TOTAL_BUF_POOLS \<le> pool_id then 0
      else fq_total (freeq s pool_id) - fq_cur (freeq s pool_id))"

definition GKI_change_buf_owner :: "nat \<Rightarrow> nat \<Rightarrow> gki_com \<Rightarrow> gki_com option" where
  "GKI_change_buf_owner p_buf task s = hdr_upd (hdr_of p_buf) (\<lambda>x. x\<lparr>h_task := task\<rparr>) s"

definition GKI_get_pool_bufsize :: "nat \<Rightarrow> gki_com \<Rightarrow> nat" where
  "GKI_get_pool_bufsize pool_id s =
     (if pool_id < GKI_NUM_TOTAL_BUF_POOLS then fq_size (freeq s pool_id) else 0)"

definition GKI_poolutilization :: "nat \<Rightarrow> gki_com \<Rightarrow> nat" where
  "GKI_poolutilization pool_id s =
     (if GKI_NUM_TOTAL_BUF_POOLS \<le> pool_id then 100
      else let Q = freeq s pool_id in
        if fq_total Q = 0 then 100 else (fq_cur Q * 100) div fq_total Q)"

end
