(* ===== verification/Gki_Spec.thy ===== *)
theory Gki_Spec
  imports Gki_Model
begin

text \<open>
  Linked lists of buffer headers as HOL lists of addresses, and the contract of a first-in
  first-out queue of buffers. The application queues and the task mailboxes both meet it.
\<close>

section \<open>Chains of headers\<close>

fun seg :: "(nat \<Rightarrow> buffer_hdr option) \<Rightarrow> ptr \<Rightarrow> nat list \<Rightarrow> ptr \<Rightarrow> bool" where
  "seg h p [] q = (p = q)"
| "seg h p (a # as) q = (p = Some a \<and> (case h a of None \<Rightarrow> False | Some x \<Rightarrow> seg h (h_next x) as q))"

lemma seg_append: "seg h p (as @ bs) q \<longleftrightarrow> (\<exists>r. seg h p as r \<and> seg h r bs q)"
  by (induction as arbitrary: p) (auto split: option.splits)

lemma seg_upd [simp]: "a \<notin> set as \<Longrightarrow> seg (h(a := x)) p as q = seg h p as q"
  by (induction as arbitrary: p) (auto split: option.splits)

lemma seg_in_heap: "seg h p as q \<Longrightarrow> a \<in> set as \<Longrightarrow> h a \<noteq> None"
  by (induction as arbitrary: p) (auto split: option.splits)

lemma seg_cong: "(\<And>a. a \<in> set as \<Longrightarrow> h a = h' a) \<Longrightarrow> seg h p as q = seg h' p as q"
  by (induction as arbitrary: p) (auto split: option.splits)

lemma seg_first: "seg h p as q \<Longrightarrow> p = (if as = [] then q else Some (hd as))"
  by (cases as) auto

text \<open>The writes of the code: redirect the last header, insert behind one, unlink one.\<close>

lemma seg_snoc:
  assumes "seg h p (as @ [l]) None" "distinct (as @ [l])" "h l = Some x"
  shows "seg (h(l \<mapsto> x\<lparr>h_next := q\<rparr>)) p (as @ [l]) q"
  using assms by (auto simp: seg_append)

lemma seg_extend:
  assumes "seg h p as None" "distinct as" "b \<notin> set as" "as \<noteq> []"
  shows "\<exists>x. h (last as) = Some x
    \<and> seg (h(last as \<mapsto> x\<lparr>h_next := Some b\<rparr>, b \<mapsto> y\<lparr>h_next := None\<rparr>)) p (as @ [b]) None"
proof -
  obtain cs l where as: "as = cs @ [l]" using assms(4) by (metis append_butlast_last_id)
  obtain x where x: "h l = Some x" using seg_in_heap [OF assms(1), of l] by (auto simp: as)
  have "seg (h(l \<mapsto> x\<lparr>h_next := Some b\<rparr>)) p (cs @ [l]) (Some b)"
    using assms x by (intro seg_snoc) (simp_all add: as)
  then have "seg (h(l \<mapsto> x\<lparr>h_next := Some b\<rparr>, b \<mapsto> y\<lparr>h_next := None\<rparr>)) p (cs @ [l]) (Some b)"
    using assms(3) by (simp add: as)
  then show ?thesis
    using x by (simp only: as seg_append [of _ _ "cs @ [l]"] last_snoc) simp
qed

section \<open>The contract of a buffer queue\<close>

text \<open>
  \<open>rep s q xs\<close>: in the shared state \<open>s\<close> the queue \<open>q\<close> holds the buffers \<open>xs\<close> in order. \<open>loose s a\<close>: the
  buffer \<open>a\<close> is allocated, undamaged and in no queue. \<open>cap xs\<close>: one more buffer may join. Operations
  on one queue leave the queues and loose buffers elsewhere alone.
\<close>

locale buffer_fifo =
  fixes rep :: "'s \<Rightarrow> 'q \<Rightarrow> nat list \<Rightarrow> bool"
    and loose :: "'s \<Rightarrow> nat \<Rightarrow> bool"
    and cap :: "nat list \<Rightarrow> bool"
    and enq :: "'q \<Rightarrow> nat \<Rightarrow> 's \<Rightarrow> ('s \<times> 'q) option"
    and deq :: "'q \<Rightarrow> 's \<Rightarrow> (ptr \<times> 's \<times> 'q) option"
  assumes enq_ok: "rep s q xs \<Longrightarrow> loose s a \<Longrightarrow> cap xs \<Longrightarrow>
      \<exists>s' q'. enq q a s = Some (s', q') \<and> rep s' q' (xs @ [a])
        \<and> (\<forall>b. b \<noteq> a \<longrightarrow> loose s b \<longrightarrow> loose s' b)"
    and deq_ok: "rep s q (x # xs) \<Longrightarrow>
      \<exists>s' q'. deq q s = Some (Some x, s', q') \<and> rep s' q' xs \<and> loose s' x
        \<and> (\<forall>b. loose s b \<longrightarrow> loose s' b)"
    and deq_empty: "rep s q [] \<Longrightarrow> \<exists>s'. deq q s = Some (None, s', q) \<and> rep s' q []"
    and rep_distinct: "rep s q xs \<Longrightarrow> distinct xs"
    and cap_mono: "cap (xs @ ys) \<Longrightarrow> cap xs"
begin

fun enq_all :: "'q \<Rightarrow> nat list \<Rightarrow> 's \<Rightarrow> ('s \<times> 'q) option" where
  "enq_all q [] s = Some (s, q)"
| "enq_all q (a # as) s = Option.bind (enq q a s) (\<lambda>(s, q). enq_all q as s)"

fun deq_n :: "nat \<Rightarrow> 'q \<Rightarrow> 's \<Rightarrow> (ptr list \<times> 's \<times> 'q) option" where
  "deq_n 0 q s = Some ([], s, q)"
| "deq_n (Suc n) q s = Option.bind (deq q s) (\<lambda>(p, s, q).
     Option.bind (deq_n n q s) (\<lambda>(ps, s, q). Some (p # ps, s, q)))"

lemma enq_all_ok:
  assumes "rep s q xs" "distinct as" "\<forall>a \<in> set as. loose s a" "cap (xs @ as)"
  shows "\<exists>s' q'. enq_all q as s = Some (s', q') \<and> rep s' q' (xs @ as)"
  using assms
proof (induction as arbitrary: s q xs)
  case (Cons a as)
  have "cap xs" using Cons.prems(4) by (rule cap_mono)
  with Cons.prems obtain s1 q1 where 1: "enq q a s = Some (s1, q1)" "rep s1 q1 (xs @ [a])"
    "\<forall>b. b \<noteq> a \<longrightarrow> loose s b \<longrightarrow> loose s1 b"
    using enq_ok [of s q xs a] by auto
  then have "\<forall>b \<in> set as. loose s1 b" using Cons.prems by auto
  then show ?case using Cons.IH [OF 1(2)] Cons.prems 1(1) by simp
qed simp

lemma deq_n_ok:
  assumes "rep s q (as @ xs)"
  shows "\<exists>s' q'. deq_n (length as) q s = Some (map Some as, s', q') \<and> rep s' q' xs
    \<and> (\<forall>a \<in> set as. loose s' a)"
proof -
  have "\<exists>s' q'. deq_n (length as) q s = Some (map Some as, s', q') \<and> rep s' q' xs
    \<and> (\<forall>a \<in> set as. loose s' a) \<and> (\<forall>b. loose s b \<longrightarrow> loose s' b)"
    using assms
  proof (induction as arbitrary: s q)
    case (Cons a as)
    then obtain s1 q1 where 1: "deq q s = Some (Some a, s1, q1)" "rep s1 q1 (as @ xs)" "loose s1 a"
      "\<forall>b. loose s b \<longrightarrow> loose s1 b"
      using deq_ok [of s q a "as @ xs"] by auto
    then show ?case using Cons.IH [OF 1(2)] by auto
  qed simp
  then show ?thesis by blast
qed

text \<open>First in, first out: what was put in comes out in order, behind what was there.\<close>

lemma fifo:
  assumes "rep s q xs" "distinct as" "\<forall>a \<in> set as. loose s a" "cap (xs @ as)"
  shows "\<exists>s1 q1 s2 q2. enq_all q as s = Some (s1, q1)
    \<and> deq_n (length xs + length as) q1 s1 = Some (map Some (xs @ as), s2, q2) \<and> rep s2 q2 []"
proof -
  obtain s1 q1 where 1: "enq_all q as s = Some (s1, q1)" "rep s1 q1 (xs @ as)"
    using enq_all_ok [OF assms] by blast
  then show ?thesis using deq_n_ok [of s1 q1 "xs @ as" "[]"] by auto
qed

end

section \<open>Application queues\<close>

lemma hdr_of_buf_of [simp]: "hdr_of (buf_of a) = a"
  by (simp add: hdr_of_def buf_of_def)

lemma buf_of_inj [simp]: "buf_of a = buf_of b \<longleftrightarrow> a = b"
  by (simp add: buf_of_def)

definition q_rep :: "gki_com \<Rightarrow> buffer_q \<Rightarrow> nat list \<Rightarrow> bool" where
  "q_rep s q xs \<longleftrightarrow> seg (heap s) (map_option hdr_of (bq_first q)) xs None
     \<and> bq_first q = (if xs = [] then None else Some (buf_of (hd xs)))
     \<and> bq_last q = (if xs = [] then None else Some (buf_of (last xs)))
     \<and> distinct xs \<and> unat (bq_count q) = length xs
     \<and> (\<forall>a \<in> set xs. map_option h_status (heap s a) = Some BUF_STATUS_QUEUED
           \<and> gki_chk_buf_damage (buf_of a) s = Some False)"

definition buf_loose :: "gki_com \<Rightarrow> nat \<Rightarrow> bool" where
  "buf_loose s a \<longleftrightarrow> map_option h_status (heap s a) = Some BUF_STATUS_UNLINKED
     \<and> gki_chk_buf_damage (buf_of a) s = Some False"

text \<open>The damage check looks only at the pool of a buffer, the pool sizes and the magic numbers.\<close>

lemma damage_cong:
  assumes "freeq s' = freeq s" "words s' = words s"
    and "map_option h_qid (heap s' a) = map_option h_qid (heap s a)"
  shows "gki_chk_buf_damage (buf_of a) s' = gki_chk_buf_damage (buf_of a) s"
  using assms
  by (cases "heap s a"; cases "heap s' a")
    (simp_all add: gki_chk_buf_damage_def GKI_get_buf_size_def Let_def)

definition heap_step :: "gki_com \<Rightarrow> nat set \<Rightarrow> gki_com \<Rightarrow> bool" where
  "heap_step s D s' \<longleftrightarrow> freeq s' = freeq s \<and> words s' = words s \<and> locks s' = locks s
     \<and> (\<forall>b. map_option h_qid (heap s' b) = map_option h_qid (heap s b))
     \<and> (\<forall>b. b \<notin> D \<longrightarrow> heap s' b = heap s b)"

lemma heap_step_damage:
  "heap_step s D s' \<Longrightarrow> gki_chk_buf_damage (buf_of a) s' = gki_chk_buf_damage (buf_of a) s"
  by (intro damage_cong) (simp_all add: heap_step_def)

lemma heap_step_loose:
  "heap_step s D s' \<Longrightarrow> b \<notin> D \<Longrightarrow> buf_loose s' b = buf_loose s b"
  by (simp add: buf_loose_def heap_step_damage) (simp add: heap_step_def)

lemma heap_step_q_rep:
  assumes "heap_step s D s'" "set xs \<inter> D = {}"
  shows "q_rep s' q xs = q_rep s q xs"
proof -
  have e: "heap s' a = heap s a" if "a \<in> set xs" for a using assms that by (auto simp: heap_step_def)
  then show ?thesis
    using seg_cong [of xs "heap s'" "heap s"]
    by (simp add: q_rep_def heap_step_damage [OF assms(1)])
qed

lemma q_rep_loose: "q_rep s q xs \<Longrightarrow> buf_loose s a \<Longrightarrow> a \<notin> set xs"
  by (auto simp: q_rep_def buf_loose_def)

lemma q_rep_status: "q_rep s q xs \<Longrightarrow> a \<in> set xs \<Longrightarrow> \<exists>x. heap s a = Some x \<and> h_status x = BUF_STATUS_QUEUED"
  by (auto simp: q_rep_def)

lemma buf_looseD: "buf_loose s a \<Longrightarrow> \<exists>x. heap s a = Some x \<and> h_status x = BUF_STATUS_UNLINKED"
  by (auto simp: buf_loose_def)

lemma GKI_enqueue_ok:
  assumes q: "q_rep s q xs" and a: "buf_loose s a" and c: "length xs < 65535"
  shows "\<exists>s' q'. GKI_enqueue q (buf_of a) s = Some (s', q') \<and> q_rep s' q' (xs @ [a])
    \<and> heap_step s (insert a (set xs)) s'"
proof -
  have na: "a \<notin> set xs" by (rule q_rep_loose [OF q a])
  obtain x where x: "heap s a = Some x" "h_status x = BUF_STATUS_UNLINKED" using buf_looseD [OF a] by blast
  have dmg: "gki_chk_buf_damage (buf_of a) s = Some False" using a by (simp add: buf_loose_def)
  have cnt: "unat (bq_count q + 1) = Suc (length xs)"
    using q c by (simp add: q_rep_def unat_word_ariths)
  show ?thesis
  proof (cases "xs = []")
    case True
    let ?s = "s\<lparr>heap := (heap s)(a \<mapsto> x\<lparr>h_next := None, h_status := BUF_STATUS_QUEUED\<rparr>)\<rparr>"
    let ?q = "q\<lparr>bq_first := Some (buf_of a), bq_last := Some (buf_of a), bq_count := bq_count q + 1\<rparr>"
    have "GKI_enqueue q (buf_of a) s = Some (?s, ?q)"
      using q True x dmg
      by (simp add: GKI_enqueue_def q_rep_def hdr_upd_def GKI_disable_def GKI_enable_def)
    moreover have st: "heap_step s (insert a (set xs)) ?s" using x by (simp add: heap_step_def)
    moreover have "q_rep ?s ?q (xs @ [a])"
      using True cnt dmg heap_step_damage [OF st] by (simp add: q_rep_def)
    ultimately show ?thesis by blast
  next
    case False
    obtain y where y: "heap s (last xs) = Some y"
      and sg: "seg ((heap s)(last xs \<mapsto> y\<lparr>h_next := Some a\<rparr>,
        a \<mapsto> x\<lparr>h_status := BUF_STATUS_QUEUED, h_next := None\<rparr>)) (map_option hdr_of (bq_first q)) (xs @ [a]) None"
      using seg_extend [of "heap s" "map_option hdr_of (bq_first q)" xs a "x\<lparr>h_status := BUF_STATUS_QUEUED\<rparr>"]
        q na False
      unfolding q_rep_def by blast
    have sy: "h_status y = BUF_STATUS_QUEUED"
      using q_rep_status [OF q last_in_set [OF False]] y by simp
    have comm: "x\<lparr>h_status := BUF_STATUS_QUEUED, h_next := None\<rparr> = x\<lparr>h_next := None, h_status := BUF_STATUS_QUEUED\<rparr>"
      by (cases x) simp
    let ?s = "s\<lparr>heap := (heap s)(last xs \<mapsto> y\<lparr>h_next := Some a\<rparr>,
        a \<mapsto> x\<lparr>h_next := None, h_status := BUF_STATUS_QUEUED\<rparr>)\<rparr>"
    let ?q = "q\<lparr>bq_last := Some (buf_of a), bq_count := bq_count q + 1\<rparr>"
    have ne: "last xs \<noteq> a" using na False by auto
    have "GKI_enqueue q (buf_of a) s = Some (?s, ?q)"
      using q False x dmg y ne
      by (simp add: GKI_enqueue_def q_rep_def hdr_upd_def GKI_disable_def GKI_enable_def)
    moreover have st: "heap_step s (insert a (set xs)) ?s" using x y False by (auto simp: heap_step_def)
    moreover have "q_rep ?s ?q (xs @ [a])"
      using q False cnt dmg sg [unfolded comm] na y x ne sy heap_step_damage [OF st]
      by (auto simp: q_rep_def)
    ultimately show ?thesis by blast
  qed
qed

lemma GKI_enqueue_head_ok:
  assumes q: "q_rep s q xs" and a: "buf_loose s a" and c: "length xs < 65535"
  shows "\<exists>s' q'. GKI_enqueue_head q (buf_of a) s = Some (s', q') \<and> q_rep s' q' (a # xs)
    \<and> heap_step s {a} s'"
proof -
  have na: "a \<notin> set xs" by (rule q_rep_loose [OF q a])
  obtain x where x: "heap s a = Some x" "h_status x = BUF_STATUS_UNLINKED" using buf_looseD [OF a] by blast
  have dmg: "gki_chk_buf_damage (buf_of a) s = Some False" using a by (simp add: buf_loose_def)
  have cnt: "unat (bq_count q + 1) = Suc (length xs)"
    using q c by (simp add: q_rep_def unat_word_ariths)
  let ?s = "s\<lparr>heap := (heap s)(a \<mapsto> x\<lparr>h_next := (if xs = [] then None else Some (hd xs)), h_status := BUF_STATUS_QUEUED\<rparr>)\<rparr>"
  let ?q = "q\<lparr>bq_first := Some (buf_of a), bq_last := (if xs = [] then Some (buf_of a) else bq_last q),
      bq_count := bq_count q + 1\<rparr>"
  have "GKI_enqueue_head q (buf_of a) s = Some (?s, ?q)"
    using q x dmg
    by (cases xs) (simp_all add: GKI_enqueue_head_def q_rep_def hdr_upd_def GKI_disable_def GKI_enable_def)
  moreover have st: "heap_step s {a} ?s" using x by (simp add: heap_step_def)
  moreover have "q_rep ?s ?q (a # xs)"
    using q cnt dmg na heap_step_damage [OF st] by (cases xs) (auto simp: q_rep_def)
  ultimately show ?thesis by blast
qed

lemma GKI_dequeue_ok:
  assumes q: "q_rep s q (a # xs)"
  shows "\<exists>s' q'. GKI_dequeue (Some q) s = Some (Some (buf_of a), s', Some q') \<and> q_rep s' q' xs
    \<and> heap_step s {a} s' \<and> buf_loose s' a"
proof -
  obtain x where x: "heap s a = Some x" "h_status x = BUF_STATUS_QUEUED"
    using q_rep_status [OF q, of a] by auto
  have nx: "seg (heap s) (h_next x) xs None" "a \<notin> set xs" using q x by (auto simp: q_rep_def)
  then have n: "h_next x = (if xs = [] then None else Some (hd xs))" using seg_first by fastforce
  have c: "unat (bq_count q) = Suc (length xs)" using q by (simp add: q_rep_def)
  then have c0: "bq_count q \<noteq> 0" and c1: "unat (bq_count q - 1) = length xs"
    by (auto simp: unat_sub word_le_nat_alt)
  let ?s = "s\<lparr>heap := (heap s)(a \<mapsto> x\<lparr>h_next := None, h_status := BUF_STATUS_UNLINKED\<rparr>)\<rparr>"
  let ?q = "q\<lparr>bq_first := (if xs = [] then None else Some (buf_of (hd xs))),
      bq_last := (if xs = [] then None else bq_last q), bq_count := bq_count q - 1\<rparr>"
  have "GKI_dequeue (Some q) s = Some (Some (buf_of a), ?s, Some ?q)"
    using q x c0 n
    by (cases xs) (simp_all add: GKI_dequeue_def q_rep_def hdr_upd_def GKI_disable_def GKI_enable_def Let_def)
  moreover have st: "heap_step s {a} ?s" using x by (simp add: heap_step_def)
  moreover have "q_rep ?s ?q xs"
    using q c1 nx n heap_step_damage [OF st] by (cases xs) (auto simp: q_rep_def)
  moreover have "buf_loose ?s a" using q heap_step_damage [OF st, of a] by (simp add: buf_loose_def q_rep_def)
  ultimately show ?thesis by blast
qed

lemma GKI_dequeue_empty:
  "q_rep s q [] \<Longrightarrow> GKI_dequeue (Some q) s = Some (None, s, Some q)"
  by (simp add: GKI_dequeue_def q_rep_def GKI_disable_def GKI_enable_def Let_def word_unat_eq_iff)

end
