(* ===== verification/Gki_Fifo.thy ===== *)
theory Gki_Fifo
  imports Gki_Spec
begin

text \<open>
  Removal from the middle of a queue, the mailboxes, and the interpretation of the queue contract
  on the application queues and on the mailboxes.
\<close>

section \<open>Removal from the middle\<close>

lemma seg_two:
  "seg h p (as @ a # b # bs) q \<Longrightarrow> \<exists>x. h a = Some x \<and> h_next x = Some b"
  by (auto simp: seg_append split: option.splits)

lemma remove_loop_hit:
  assumes "seg (heap s) p (cs @ c # a # zs) None" "distinct (cs @ c # a # zs)"
  shows "remove_loop s q (buf_of a) p = unlink_after s q (buf_of a) c"
  using assms
proof (induction cs arbitrary: p)
  case Nil
  then show ?case by (subst remove_loop.simps) (auto split: option.splits)
next
  case (Cons b cs)
  obtain x where x: "heap s b = Some x" "p = Some b" "seg (heap s) (h_next x) (cs @ c # a # zs) None"
    using Cons.prems(1) by (auto split: option.splits)
  have "h_next x \<noteq> Some a"
  proof
    assume "h_next x = Some a"
    then have "hd (cs @ c # a # zs) = a" using seg_first [OF x(3)] by simp
    then show False using Cons.prems(2) by (cases cs) auto
  qed
  then show ?case
    using Cons.IH [OF x(3)] Cons.prems(2) x by (subst remove_loop.simps) simp
qed

lemma remove_loop_miss:
  assumes "seg (heap s) p cs None" "a \<notin> set cs"
  shows "remove_loop s q (buf_of a) p = Some (None, GKI_enable s, q)"
  using assms
proof (induction cs arbitrary: p)
  case Nil
  then show ?case by (subst remove_loop.simps) simp
next
  case (Cons b cs)
  obtain x where x: "heap s b = Some x" "p = Some b" "seg (heap s) (h_next x) cs None"
    using Cons.prems(1) by (auto split: option.splits)
  have "h_next x \<noteq> Some a"
    using seg_first [OF x(3)] Cons.prems(2) by (cases cs) auto
  then show ?case
    using Cons.IH [OF x(3)] Cons.prems(2) x by (subst remove_loop.simps) simp
qed

lemma GKI_remove_from_queue_ok:
  assumes q: "q_rep s q (ys @ a # zs)"
  shows "\<exists>s' q'. GKI_remove_from_queue q (buf_of a) s = Some (Some (buf_of a), s', q')
    \<and> q_rep s' q' (ys @ zs) \<and> heap_step s (set (ys @ [a])) s' \<and> buf_loose s' a"
proof (cases "ys = []")
  case True
  then obtain s' q' where "GKI_dequeue (Some q) s = Some (Some (buf_of a), s', Some q')" "q_rep s' q' zs"
    "heap_step s {a} s'" "buf_loose s' a"
    using GKI_dequeue_ok [of s q a zs] q by auto
  moreover have "GKI_enable (GKI_disable s) = s" by (simp add: GKI_enable_def GKI_disable_def)
  moreover have "bq_first q = Some (buf_of a)" using q True by (simp add: q_rep_def)
  ultimately show ?thesis
    using True by (auto simp add: GKI_remove_from_queue_def)
next
  case False
  then obtain cs c where ys: "ys = cs @ [c]" by (metis append_butlast_last_id)
  have e: "ys @ a # zs = cs @ c # a # zs" by (simp add: ys)
  have D: "distinct (cs @ c # a # zs)" and sg: "seg (heap s) (map_option hdr_of (bq_first q)) (cs @ c # a # zs) None"
    using q unfolding q_rep_def e by blast+
  obtain xc where xc: "heap s c = Some xc" "h_next xc = Some a" using seg_two [OF sg] by blast
  obtain xa where xa: "heap s a = Some xa" "h_status xa = BUF_STATUS_QUEUED"
    using q_rep_status [OF q, of a] by auto
  obtain r where sg1: "seg (heap s) (map_option hdr_of (bq_first q)) (cs @ [c]) r"
    and sg2: "seg (heap s) r (a # zs) None"
    using sg by (auto simp: seg_append split: option.splits)
  have sz: "seg (heap s) (h_next xa) zs None" using sg2 xa by simp
  let ?s = "s\<lparr>heap := (heap s)(c \<mapsto> xc\<lparr>h_next := h_next xa\<rparr>, a \<mapsto> xa\<lparr>h_next := None, h_status := BUF_STATUS_UNLINKED\<rparr>)\<rparr>"
  let ?q = "(if bq_last q = Some (buf_of a) then q\<lparr>bq_last := Some (buf_of c)\<rparr> else q)\<lparr>bq_count := bq_count q - 1\<rparr>"
  have fst: "bq_first q = Some (buf_of (hd (cs @ [c])))" using q by (cases cs) (simp_all add: q_rep_def ys)
  have ca: "c \<noteq> a" "hd (cs @ [c]) \<noteq> a" using D by (cases cs; auto)+
  have "GKI_remove_from_queue q (buf_of a) s = remove_loop (GKI_disable s) q (buf_of a) (Some (hd (cs @ [c])))"
    using fst ca(2) by (simp add: GKI_remove_from_queue_def)
  also have "\<dots> = unlink_after (GKI_disable s) q (buf_of a) c"
    using sg fst D by (intro remove_loop_hit [of _ _ cs c a zs]) (simp_all add: GKI_disable_def)
  also have "\<dots> = Some (Some (buf_of a), ?s, ?q)"
    using xa xc ca by (simp add: unlink_after_def hdr_upd_def GKI_disable_def GKI_enable_def Let_def)
  finally have res: "GKI_remove_from_queue q (buf_of a) s = Some (Some (buf_of a), ?s, ?q)" .
  have st: "heap_step s (set (ys @ [a])) ?s" using xa xc by (auto simp: heap_step_def ys)
  have "seg (heap ?s) (map_option hdr_of (bq_first q)) (ys @ zs) None"
  proof -
    have "seg ((heap s)(c \<mapsto> xc\<lparr>h_next := h_next xa\<rparr>)) (map_option hdr_of (bq_first q)) (cs @ [c]) (h_next xa)"
      using sg1 D xc by (auto simp: seg_append)
    then show ?thesis using D sz by (auto simp: ys seg_append)
  qed
  moreover have "unat (bq_count q - 1) = length (ys @ zs)"
    using q by (auto simp: q_rep_def ys unat_sub word_le_nat_alt)
  moreover have "bq_last ?q = Some (buf_of (last (ys @ zs)))"
    using q D by (cases "zs = []") (auto simp: q_rep_def ys)
  ultimately have "q_rep ?s ?q (ys @ zs)"
    using q D fst heap_step_damage [OF st] xc xa
    by (auto simp: q_rep_def ys hd_append split: if_splits)
  moreover have "buf_loose ?s a" using q heap_step_damage [OF st, of a] by (simp add: buf_loose_def q_rep_def)
  ultimately show ?thesis using res st by blast
qed

lemma GKI_remove_from_queue_absent:
  assumes "q_rep s q xs" "xs \<noteq> []" "a \<notin> set xs"
  shows "GKI_remove_from_queue q (buf_of a) s = Some (None, s, q)"
proof -
  have f: "bq_first q = Some (buf_of (hd xs))" using assms by (simp add: q_rep_def)
  have "hd xs \<noteq> a" using assms by auto
  then have "GKI_remove_from_queue q (buf_of a) s = remove_loop (GKI_disable s) q (buf_of a) (Some (hd xs))"
    using f by (simp add: GKI_remove_from_queue_def)
  also have "\<dots> = Some (None, GKI_enable (GKI_disable s), q)"
    using assms f by (intro remove_loop_miss [of _ _ xs]) (simp_all add: q_rep_def GKI_disable_def)
  also have "GKI_enable (GKI_disable s) = s" by (simp add: GKI_enable_def GKI_disable_def)
  finally show ?thesis .
qed

section \<open>Mailboxes\<close>

definition m_rep :: "gki_com \<Rightarrow> nat \<times> nat \<Rightarrow> nat list \<Rightarrow> bool" where
  "m_rep s tm xs \<longleftrightarrow> fst tm < GKI_MAX_TASKS \<and> snd tm < NUM_TASK_MBOX \<and> \<not> task_dead s (fst tm)
     \<and> seg (heap s) (task_q_first s (fst tm) (snd tm)) xs None
     \<and> (xs \<noteq> [] \<longrightarrow> task_q_last s (fst tm) (snd tm) = Some (last xs)) \<and> distinct xs
     \<and> (\<forall>a \<in> set xs. map_option h_status (heap s a) = Some BUF_STATUS_QUEUED
           \<and> gki_chk_buf_damage (buf_of a) s = Some False)"

lemma m_rep_loose: "m_rep s tm xs \<Longrightarrow> buf_loose s a \<Longrightarrow> a \<notin> set xs"
  by (auto simp: m_rep_def buf_loose_def)

lemma GKI_send_msg_ok:
  assumes q: "m_rep s (t, m) xs" and a: "buf_loose s a"
  shows "\<exists>s'. GKI_send_msg t m (buf_of a) s = Some s' \<and> m_rep s' (t, m) (xs @ [a])
    \<and> heap_step s (insert a (set xs)) s' \<and> bit (wait_evt s' t) m"
proof -
  have na: "a \<notin> set xs" by (rule m_rep_loose [OF q a])
  obtain x where x: "heap s a = Some x" "h_status x = BUF_STATUS_UNLINKED" using buf_looseD [OF a] by blast
  have dmg: "gki_chk_buf_damage (buf_of a) s = Some False" using a by (simp add: buf_loose_def)
  have t: "t < GKI_MAX_TASKS" "m < NUM_TASK_MBOX" "\<not> task_dead s t" using q by (simp_all add: m_rep_def)
  have bt: "bit (w OR push_bit m 1 :: u16) m" for w
    using t(2) by (simp add: bit_simps NUM_TASK_MBOX_def)
  let ?e = "(wait_evt s)(t := wait_evt s t OR push_bit m 1)"
  show ?thesis
  proof (cases "xs = []")
    case True
    let ?s = "s\<lparr>heap := (heap s)(a \<mapsto> x\<lparr>h_next := None, h_status := BUF_STATUS_QUEUED, h_task := t\<rparr>),
      task_q_first := mbox_upd t m (Some a) (task_q_first s),
      task_q_last := mbox_upd t m (Some a) (task_q_last s), wait_evt := ?e\<rparr>"
    have "GKI_send_msg t m (buf_of a) s = Some ?s"
      using q True x dmg t
      by (simp add: GKI_send_msg_def m_rep_def hdr_upd_def GKI_disable_def GKI_enable_def GKI_send_event_def)
    moreover have st: "heap_step s (insert a (set xs)) ?s" using x by (simp add: heap_step_def)
    moreover have "m_rep ?s (t, m) (xs @ [a])"
      using True dmg heap_step_damage [OF st] t by (simp add: m_rep_def mbox_upd_def)
    ultimately show ?thesis using bt by auto
  next
    case False
    obtain y where y: "heap s (last xs) = Some y"
      and sg: "seg ((heap s)(last xs \<mapsto> y\<lparr>h_next := Some a\<rparr>,
        a \<mapsto> x\<lparr>h_status := BUF_STATUS_QUEUED, h_task := t, h_next := None\<rparr>)) (task_q_first s t m) (xs @ [a]) None"
      using seg_extend [of "heap s" "task_q_first s t m" xs a "x\<lparr>h_status := BUF_STATUS_QUEUED, h_task := t\<rparr>"]
        q na False
      by (auto simp: m_rep_def)
    have "\<forall>a \<in> set xs. map_option h_status (heap s a) = Some BUF_STATUS_QUEUED"
      using q by (simp add: m_rep_def)
    then have sy: "h_status y = BUF_STATUS_QUEUED" using last_in_set [OF False] y by force
    have comm: "x\<lparr>h_status := BUF_STATUS_QUEUED, h_task := t, h_next := None\<rparr>
        = x\<lparr>h_next := None, h_status := BUF_STATUS_QUEUED, h_task := t\<rparr>"
      by (cases x) simp
    let ?s = "s\<lparr>heap := (heap s)(last xs \<mapsto> y\<lparr>h_next := Some a\<rparr>,
        a \<mapsto> x\<lparr>h_next := None, h_status := BUF_STATUS_QUEUED, h_task := t\<rparr>),
      task_q_last := mbox_upd t m (Some a) (task_q_last s), wait_evt := ?e\<rparr>"
    have ne: "last xs \<noteq> a" "task_q_first s t m \<noteq> None"
      using na False q by (auto simp: m_rep_def dest: seg_first)
    have "GKI_send_msg t m (buf_of a) s = Some ?s"
      using q False x dmg y ne t
      by (simp add: GKI_send_msg_def m_rep_def hdr_upd_def GKI_disable_def GKI_enable_def GKI_send_event_def)
    moreover have st: "heap_step s (insert a (set xs)) ?s" using x y False by (auto simp: heap_step_def)
    moreover have "m_rep ?s (t, m) (xs @ [a])"
      using q False dmg sg [unfolded comm] na y x ne sy heap_step_damage [OF st]
      by (auto simp: m_rep_def mbox_upd_def)
    ultimately show ?thesis using bt by auto
  qed
qed

lemma GKI_read_mbox_ok:
  assumes q: "m_rep s (t, m) (a # xs)"
  shows "\<exists>s'. GKI_read_mbox t m s = Some (Some (buf_of a), s') \<and> m_rep s' (t, m) xs
    \<and> heap_step s {a} s' \<and> buf_loose s' a"
proof -
  obtain x where x: "heap s a = Some x" "h_status x = BUF_STATUS_QUEUED"
    using q by (auto simp: m_rep_def split: option.splits)
  have nx: "seg (heap s) (h_next x) xs None" "a \<notin> set xs" "task_q_first s t m = Some a"
    using q x by (auto simp: m_rep_def)
  let ?s = "s\<lparr>heap := (heap s)(a \<mapsto> x\<lparr>h_next := None, h_status := BUF_STATUS_UNLINKED\<rparr>),
    task_q_first := mbox_upd t m (h_next x) (task_q_first s)\<rparr>"
  have "GKI_read_mbox t m s = Some (Some (buf_of a), ?s)"
    using q x nx by (simp add: GKI_read_mbox_def m_rep_def hdr_upd_def GKI_disable_def GKI_enable_def Let_def)
  moreover have st: "heap_step s {a} ?s" using x by (simp add: heap_step_def)
  moreover have "m_rep ?s (t, m) xs"
    using q nx heap_step_damage [OF st] by (auto simp: m_rep_def mbox_upd_def)
  moreover have "buf_loose ?s a" using q heap_step_damage [OF st, of a] by (simp add: buf_loose_def m_rep_def)
  ultimately show ?thesis by blast
qed

lemma GKI_read_mbox_empty:
  "m_rep s (t, m) [] \<Longrightarrow> GKI_read_mbox t m s = Some (None, s)"
  by (simp add: GKI_read_mbox_def m_rep_def GKI_disable_def GKI_enable_def Let_def)

section \<open>The contract met twice\<close>

text \<open>The addresses of the contract are header addresses; the operations take user pointers.\<close>

definition q_enq :: "buffer_q \<Rightarrow> nat \<Rightarrow> gki_com \<Rightarrow> (gki_com \<times> buffer_q) option" where
  "q_enq q a s = GKI_enqueue q (buf_of a) s"

definition q_deq :: "buffer_q \<Rightarrow> gki_com \<Rightarrow> (ptr \<times> gki_com \<times> buffer_q) option" where
  "q_deq q s = (case GKI_dequeue (Some q) s of
     Some (p, s', Some q') \<Rightarrow> Some (map_option hdr_of p, s', q') | _ \<Rightarrow> None)"

interpretation appq: buffer_fifo q_rep buf_loose "\<lambda>xs. length xs < 65535" q_enq q_deq
proof
  fix s q xs a
  assume "q_rep s q xs" "buf_loose s a" "length xs < 65535"
  then obtain s' q' where r: "GKI_enqueue q (buf_of a) s = Some (s', q')" "q_rep s' q' (xs @ [a])"
    "heap_step s (insert a (set xs)) s'" using GKI_enqueue_ok by blast
  moreover have "buf_loose s' b" if "b \<noteq> a" "buf_loose s b" for b
    using heap_step_loose [OF r(3), of b] q_rep_loose [OF \<open>q_rep s q xs\<close>] that by auto
  ultimately show "\<exists>s' q'. q_enq q a s = Some (s', q') \<and> q_rep s' q' (xs @ [a])
      \<and> (\<forall>b. b \<noteq> a \<longrightarrow> buf_loose s b \<longrightarrow> buf_loose s' b)" by (auto simp: q_enq_def)
next
  fix s q x xs
  assume "q_rep s q (x # xs)"
  then obtain s' q' where r: "GKI_dequeue (Some q) s = Some (Some (buf_of x), s', Some q')" "q_rep s' q' xs"
    "heap_step s {x} s'" "buf_loose s' x" using GKI_dequeue_ok by blast
  moreover have "buf_loose s' b" if "buf_loose s b" for b
    using heap_step_loose [OF r(3), of b] r(4) that by (cases "b = x") auto
  ultimately show "\<exists>s' q'. q_deq q s = Some (Some x, s', q') \<and> q_rep s' q' xs \<and> buf_loose s' x
      \<and> (\<forall>b. buf_loose s b \<longrightarrow> buf_loose s' b)" by (auto simp: q_deq_def)
next
  fix s q
  assume "q_rep s q []"
  then show "\<exists>s'. q_deq q s = Some (None, s', q) \<and> q_rep s' q []"
    by (auto simp: q_deq_def GKI_dequeue_empty)
qed (auto simp: q_rep_def)

definition m_enq :: "nat \<times> nat \<Rightarrow> nat \<Rightarrow> gki_com \<Rightarrow> (gki_com \<times> nat \<times> nat) option" where
  "m_enq tm a s = map_option (\<lambda>s'. (s', tm)) (GKI_send_msg (fst tm) (snd tm) (buf_of a) s)"

definition m_deq :: "nat \<times> nat \<Rightarrow> gki_com \<Rightarrow> (ptr \<times> gki_com \<times> nat \<times> nat) option" where
  "m_deq tm s = map_option (\<lambda>(p, s'). (map_option hdr_of p, s', tm)) (GKI_read_mbox (fst tm) (snd tm) s)"

interpretation mbox: buffer_fifo m_rep buf_loose "\<lambda>xs. True" m_enq m_deq
proof
  fix s q xs a
  assume h: "m_rep s q xs" "buf_loose s a"
  obtain t m where q: "q = (t, m)" by (cases q)
  obtain s' where r: "GKI_send_msg t m (buf_of a) s = Some s'" "m_rep s' (t, m) (xs @ [a])"
    "heap_step s (insert a (set xs)) s'" using GKI_send_msg_ok h by (metis q)
  moreover have "buf_loose s' b" if "b \<noteq> a" "buf_loose s b" for b
    using heap_step_loose [OF r(3), of b] m_rep_loose [OF h(1)] that by auto
  ultimately show "\<exists>s' q'. m_enq q a s = Some (s', q') \<and> m_rep s' q' (xs @ [a])
      \<and> (\<forall>b. b \<noteq> a \<longrightarrow> buf_loose s b \<longrightarrow> buf_loose s' b)" by (auto simp: m_enq_def q)
next
  fix s q x xs
  assume h: "m_rep s q (x # xs)"
  obtain t m where q: "q = (t, m)" by (cases q)
  obtain s' where r: "GKI_read_mbox t m s = Some (Some (buf_of x), s')" "m_rep s' (t, m) xs"
    "heap_step s {x} s'" "buf_loose s' x" using GKI_read_mbox_ok h by (metis q)
  moreover have "buf_loose s' b" if "buf_loose s b" for b
    using heap_step_loose [OF r(3), of b] r(4) that by (cases "b = x") auto
  ultimately show "\<exists>s' q'. m_deq q s = Some (Some x, s', q') \<and> m_rep s' q' xs \<and> buf_loose s' x
      \<and> (\<forall>b. buf_loose s b \<longrightarrow> buf_loose s' b)" by (auto simp: m_deq_def q)
next
  fix s q
  assume h: "m_rep s q []"
  obtain t m where q: "q = (t, m)" by (cases q)
  from h show "\<exists>s'. m_deq q s = Some (None, s', q) \<and> m_rep s' q []"
    by (simp add: m_deq_def q GKI_read_mbox_empty)
qed (auto simp: m_rep_def)

text \<open>
  The free queues. \<open>pool_inv s p xs\<close>: the free buffers of pool \<open>p\<close> are the list \<open>xs\<close>, the counter of
  the pool is the number of its buffers that are out, and free and used buffers add up to its
  size. Allocation takes the head of the list, release appends to it.
\<close>

section \<open>The invariant of a pool\<close>

definition owned :: "gki_com \<Rightarrow> nat \<Rightarrow> nat set" where
  "owned s p = {a. \<exists>h. heap s a = Some h \<and> h_qid h = p \<and> h_status h \<noteq> BUF_STATUS_FREE}"

definition pool_inv :: "gki_com \<Rightarrow> nat \<Rightarrow> nat list \<Rightarrow> bool" where
  "pool_inv s p xs \<longleftrightarrow> seg (heap s) (fq_first (freeq s p)) xs None
     \<and> fq_last (freeq s p) = (if xs = [] then None else Some (last xs)) \<and> distinct xs
     \<and> (\<forall>a \<in> set xs. \<exists>h. heap s a = Some h \<and> h_status h = BUF_STATUS_FREE \<and> h_qid h = p)
     \<and> finite (owned s p) \<and> card (owned s p) = fq_cur (freeq s p)
     \<and> fq_cur (freeq s p) \<le> fq_max (freeq s p) \<and> fq_max (freeq s p) \<le> fq_total (freeq s p)
     \<and> (if pool_start s p = None then fq_cur (freeq s p) = 0 \<and> xs = []
        else fq_cur (freeq s p) + length xs = fq_total (freeq s p))"

text \<open>An invariant is kept by changes to other pools and to buffers that stay out.\<close>

lemma pool_inv_frame:
  assumes inv: "pool_inv s p xs" and fq: "freeq s' p = freeq s p" "pool_start s' p = pool_start s p"
    and hp: "\<And>a. a \<in> set xs \<Longrightarrow> heap s' a = heap s a"
    and own: "owned s' p = owned s p"
  shows "pool_inv s' p xs"
  using assms seg_cong [of xs "heap s'" "heap s"] by (simp add: pool_inv_def)

text \<open>Whether a buffer is free, and its pool: what queue operations leave alone.\<close>

definition free_view :: "gki_com \<Rightarrow> nat \<Rightarrow> (nat \<times> bool) option" where
  "free_view s a = map_option (\<lambda>h. (h_qid h, h_status h = BUF_STATUS_FREE)) (heap s a)"

lemma owned_view: "owned s p = {a. free_view s a = Some (p, False)}"
  by (auto simp: owned_def free_view_def)

lemma pool_inv_view:
  assumes inv: "pool_inv s p xs" and "freeq s' = freeq s" "pool_start s' = pool_start s"
    and "\<And>a. free_view s' a = free_view s a"
    and "\<And>a. free_view s a = Some (p, True) \<Longrightarrow> heap s' a = heap s a"
  shows "pool_inv s' p xs"
proof (rule pool_inv_frame [OF inv])
  fix a
  assume "a \<in> set xs"
  then have "free_view s a = Some (p, True)" using inv by (auto simp: pool_inv_def free_view_def)
  then show "heap s' a = heap s a" by (rule assms(5))
qed (use assms in \<open>simp_all add: owned_view\<close>)

section \<open>Taking the first free buffer\<close>

lemma fq_upd_sel [simp]:
  "heap (fq_upd p f s) = heap s" "words (fq_upd p f s) = words s" "locks (fq_upd p f s) = locks s"
  "pool_start (fq_upd p f s) = pool_start s" "pool_list (fq_upd p f s) = pool_list s"
  "pool_access_mask (fq_upd p f s) = pool_access_mask s"
  "curr_total_no_of_pools (fq_upd p f s) = curr_total_no_of_pools s"
  "freeq (fq_upd p f s) = (freeq s)(p := f (freeq s p))"
  by (simp_all add: fq_upd_def)

lemma locks_sel [simp]:
  "heap (GKI_disable s) = heap s" "heap (GKI_enable s) = heap s"
  "freeq (GKI_disable s) = freeq s" "freeq (GKI_enable s) = freeq s"
  "words (GKI_disable s) = words s" "words (GKI_enable s) = words s"
  "pool_start (GKI_disable s) = pool_start s" "pool_start (GKI_enable s) = pool_start s"
  "pool_list (GKI_disable s) = pool_list s" "pool_list (GKI_enable s) = pool_list s"
  "pool_access_mask (GKI_disable s) = pool_access_mask s" "pool_access_mask (GKI_enable s) = pool_access_mask s"
  "curr_total_no_of_pools (GKI_disable s) = curr_total_no_of_pools s"
  "curr_total_no_of_pools (GKI_enable s) = curr_total_no_of_pools s"
  "locks (GKI_disable s) = locks s + 1" "locks (GKI_enable s) = locks s - 1"
  by (simp_all add: GKI_disable_def GKI_enable_def)

text \<open>The result of an allocation from pool \<open>p\<close>: what changed and what did not.\<close>

definition alloc_step :: "gki_com \<Rightarrow> nat \<Rightarrow> nat \<Rightarrow> nat \<Rightarrow> gki_com \<Rightarrow> bool" where
  "alloc_step s p tid a s' \<longleftrightarrow>
     heap s' = (heap s)(a \<mapsto> \<lparr>h_next = None, h_qid = p, h_task = tid,
                              h_status = BUF_STATUS_UNLINKED, h_type = 0\<rparr>)
     \<and> (\<forall>q. q \<noteq> p \<longrightarrow> freeq s' q = freeq s q)
     \<and> fq_cur (freeq s' p) = fq_cur (freeq s p) + 1 \<and> fq_size (freeq s' p) = fq_size (freeq s p)
     \<and> fq_total (freeq s' p) = fq_total (freeq s p)
     \<and> words s' = words s \<and> locks s' = locks s \<and> pool_start s' = pool_start s
     \<and> pool_list s' = pool_list s \<and> pool_access_mask s' = pool_access_mask s
     \<and> curr_total_no_of_pools s' = curr_total_no_of_pools s \<and> task_dead s' = task_dead s"

lemma take_first_ok:
  assumes inv: "pool_inv s p (a # xs)"
  shows "\<exists>s'. take_first tid p s = Some (a, s') \<and> pool_inv s' p xs \<and> alloc_step s p tid a s'"
proof -
  obtain h where h: "heap s a = Some h" "h_status h = BUF_STATUS_FREE" "h_qid h = p"
    and f: "fq_first (freeq s p) = Some a" and sg: "seg (heap s) (h_next h) xs None"
    and na: "a \<notin> set xs" "distinct xs"
    using inv by (auto simp: pool_inv_def)
  have nx: "(h_next h = None) = (xs = [])" using seg_first [OF sg] by simp
  define h' where "h' = \<lparr>h_next = None, h_qid = p, h_task = tid, h_status = BUF_STATUS_UNLINKED, h_type = 0\<rparr>"
  have h': "h\<lparr>h_task := tid, h_status := BUF_STATUS_UNLINKED, h_next := None, h_type := 0\<rparr> = h'"
    using h(3) by (cases h) (simp add: h'_def)
  define Q where "Q = freeq s p"
  define Q' where "Q' = Q\<lparr>fq_first := h_next h, fq_last := (if xs = [] then None else fq_last Q),
      fq_cur := fq_cur Q + 1, fq_max := max (fq_max Q) (fq_cur Q + 1)\<rparr>"
  let ?s = "s\<lparr>freeq := (freeq s)(p := Q'), heap := (heap s)(a \<mapsto> h')\<rparr>"
  have Q': "Q\<lparr>fq_first := h_next h, fq_cur := fq_cur Q + 1, fq_max := max (fq_max Q) (fq_cur Q + 1)\<rparr> = Q'"
    if "xs \<noteq> []" using that by (cases Q) (simp add: Q'_def)
  have Q'': "Q\<lparr>fq_first := None, fq_last := None, fq_cur := fq_cur Q + 1, fq_max := max (fq_max Q) (fq_cur Q + 1)\<rparr> = Q'"
    if "xs = []" using that nx by (cases Q) (simp add: Q'_def)
  have "take_first tid p s = Some (a, ?s)"
    using f h h' nx Q' Q''
    by (cases "xs = []"; cases "h_next h") (simp_all add: take_first_def hdr_upd_def fq_upd_def Q_def Let_def)
  moreover have st: "alloc_step s p tid a ?s" by (simp add: alloc_step_def h'_def Q'_def Q_def)
  moreover have "pool_inv ?s p xs"
  proof -
    have own: "owned ?s p = insert a (owned s p)" "a \<notin> owned s p"
      using h by (auto simp: owned_def h'_def)
    have sg': "seg ((heap s)(a \<mapsto> h')) (h_next h) xs None" using sg na by simp
    have free: "\<forall>b \<in> set xs. \<exists>h. ((heap s)(a \<mapsto> h')) b = Some h \<and> h_status h = BUF_STATUS_FREE \<and> h_qid h = p"
      using inv na by (auto simp: pool_inv_def)
    have "fq_cur Q + 1 \<le> fq_total Q" "pool_start s p \<noteq> None" "fq_cur Q + 1 + length xs = fq_total Q"
      "fq_max Q \<le> fq_total Q" "fq_last Q = Some (if xs = [] then a else last xs)"
      "finite (owned s p)" "card (owned s p) = fq_cur Q"
      using inv by (auto simp: pool_inv_def Q_def split: if_splits)
    then show ?thesis
      using sg' free own na(2) by (simp add: pool_inv_def Q'_def)
  qed
  ultimately show ?thesis by blast
qed

text \<open>What allocation does to the other pools, to loose buffers and to the queues.\<close>

lemma alloc_step_pool_inv:
  assumes "alloc_step s p tid a s'" "pool_inv s q ys" "q \<noteq> p" "free_view s a = Some (p, True)"
  shows "pool_inv s' q ys"
proof (rule pool_inv_frame [OF assms(2)])
  have na: "a \<notin> set ys" using assms(2-4) by (auto simp: pool_inv_def free_view_def)
  show "heap s' b = heap s b" if "b \<in> set ys" for b
    using assms(1) na that by (auto simp: alloc_step_def)
  show "owned s' q = owned s q"
    using assms by (auto simp: owned_def alloc_step_def free_view_def)
qed (use assms in \<open>simp_all add: alloc_step_def\<close>)

lemma alloc_step_damage:
  assumes st: "alloc_step s p tid a s'" and q: "map_option h_qid (heap s a) = Some p"
  shows "gki_chk_buf_damage (buf_of b) s' = gki_chk_buf_damage (buf_of b) s"
proof -
  have "map_option h_qid (heap s' b) = map_option h_qid (heap s b)"
    using st q by (auto simp: alloc_step_def)
  moreover have "fq_size (freeq s' r) = fq_size (freeq s r)" for r
    using st by (cases "r = p") (auto simp: alloc_step_def)
  moreover have "words s' = words s" using st by (simp add: alloc_step_def)
  ultimately show ?thesis
    by (cases "heap s b"; cases "heap s' b")
      (simp_all add: gki_chk_buf_damage_def GKI_get_buf_size_def Let_def)
qed

section \<open>Releasing a buffer\<close>

definition free_step :: "gki_com \<Rightarrow> nat \<Rightarrow> nat \<Rightarrow> nat list \<Rightarrow> gki_com \<Rightarrow> bool" where
  "free_step s p a xs s' \<longleftrightarrow>
     (\<forall>b. b \<noteq> a \<and> b \<notin> set xs \<longrightarrow> heap s' b = heap s b)
     \<and> (\<forall>b. map_option h_qid (heap s' b) = map_option h_qid (heap s b))
     \<and> (\<forall>b. b \<noteq> a \<longrightarrow> free_view s' b = free_view s b)
     \<and> (\<forall>q. fq_size (freeq s' q) = fq_size (freeq s q) \<and> fq_total (freeq s' q) = fq_total (freeq s q))
     \<and> (\<forall>q. q \<noteq> p \<longrightarrow> freeq s' q = freeq s q)
     \<and> words s' = words s \<and> locks s' = locks s \<and> pool_start s' = pool_start s
     \<and> exceptions s' = exceptions s"

lemma GKI_freebuf_ok:
  assumes inv: "pool_inv s p xs" and a: "buf_loose s a" and p: "map_option h_qid (heap s a) = Some p"
    and pl: "p < GKI_NUM_TOTAL_BUF_POOLS" and st: "pool_start s p \<noteq> None"
  shows "\<exists>s'. GKI_freebuf (Some (buf_of a)) s = Some s' \<and> pool_inv s' p (xs @ [a])
    \<and> free_step s p a xs s' \<and> fq_cur (freeq s' p) = fq_cur (freeq s p) - 1"
proof -
  obtain x where x: "heap s a = Some x" "h_status x = BUF_STATUS_UNLINKED" "h_qid x = p"
    using buf_looseD [OF a] p by auto
  have na: "a \<notin> set xs" using inv x by (auto simp: pool_inv_def)
  have dmg: "gki_chk_buf_damage (buf_of a) s = Some False" using a by (simp add: buf_loose_def)
  have own: "a \<in> owned s p" using x by (simp add: owned_def)
  have fin: "finite (owned s p)" and cd: "card (owned s p) = fq_cur (freeq s p)"
    using inv by (auto simp: pool_inv_def)
  then have pos: "0 < fq_cur (freeq s p)" using own card_gt_0_iff [of "owned s p"] by auto
  define x' where "x' = \<lparr>h_next = None, h_qid = p, h_task = GKI_INVALID_TASK,
      h_status = BUF_STATUS_FREE, h_type = h_type x\<rparr>"
  have x': "x\<lparr>h_next := None, h_status := BUF_STATUS_FREE, h_task := GKI_INVALID_TASK\<rparr> = x'"
    using x(3) by (cases x) (simp add: x'_def)
  define Q where "Q = freeq s p"
  define Q' where "Q' = Q\<lparr>fq_first := (if xs = [] then Some a else fq_first Q), fq_last := Some a,
      fq_cur := fq_cur Q - 1\<rparr>"
  define H where "H = (if xs = [] then heap s
      else (heap s)(last xs \<mapsto> (the (heap s (last xs)))\<lparr>h_next := Some a\<rparr>))"
  let ?s = "s\<lparr>freeq := (freeq s)(p := Q'), heap := H(a \<mapsto> x')\<rparr>"
  have lq: "fq_last Q = (if xs = [] then None else Some (last xs))" using inv by (simp add: pool_inv_def Q_def)
  have last: "xs \<noteq> [] \<Longrightarrow> \<exists>y. heap s (last xs) = Some y \<and> h_status y = BUF_STATUS_FREE \<and> h_qid y = p"
    using inv last_in_set [of xs] by (simp add: pool_inv_def)
  have ne: "xs \<noteq> [] \<Longrightarrow> last xs \<noteq> a" using na by auto
  have res: "GKI_freebuf (Some (buf_of a)) s = Some ?s"
  proof (cases "xs = []")
    case True
    have "Q\<lparr>fq_first := Some a, fq_last := Some a, fq_cur := fq_cur Q - Suc 0\<rparr> = Q'"
      using True by (simp add: Q'_def)
    then show ?thesis
      using True x x' dmg pl lq pos
      by (simp add: GKI_freebuf_def hdr_upd_def fq_upd_def Q_def H_def GKI_disable_def GKI_enable_def Let_def)
  next
    case False
    obtain y where y: "heap s (last xs) = Some y" using last [OF False] by blast
    have "Q\<lparr>fq_last := Some a, fq_cur := fq_cur Q - Suc 0\<rparr> = Q'"
      using False by (simp add: Q'_def)
    then show ?thesis
      using False x x' dmg pl lq pos y ne [OF False]
      by (simp add: GKI_freebuf_def hdr_upd_def fq_upd_def Q_def H_def GKI_disable_def GKI_enable_def Let_def)
  qed
  have H: "H b = (if b = last xs \<and> xs \<noteq> [] then map_option (\<lambda>y. y\<lparr>h_next := Some a\<rparr>) (heap s b) else heap s b)" for b
    using last by (auto simp: H_def)
  have "free_step s p a xs ?s"
    using x last by (auto simp: free_step_def H free_view_def option.map_comp comp_def Q'_def Q_def x'_def
        split: option.splits)
  moreover have "pool_inv ?s p (xs @ [a])"
  proof -
    have o: "owned ?s p = owned s p - {a}"
      using last by (auto simp: owned_def H x'_def split: if_splits)
    have sg: "seg (H(a \<mapsto> x')) (if xs = [] then Some a else fq_first Q) (xs @ [a]) None"
    proof (cases "xs = []")
      case True
      then show ?thesis by (simp add: x'_def)
    next
      case False
      then obtain y where y: "heap s (last xs) = Some y"
        "seg ((heap s)(last xs \<mapsto> y\<lparr>h_next := Some a\<rparr>, a \<mapsto> x'\<lparr>h_next := None\<rparr>)) (fq_first Q) (xs @ [a]) None"
        using seg_extend [of "heap s" "fq_first Q" xs a x'] inv na by (auto simp: pool_inv_def Q_def)
      moreover have "x'\<lparr>h_next := None\<rparr> = x'" by (simp add: x'_def)
      ultimately show ?thesis using False by (simp add: H_def)
    qed
    have free: "\<forall>b \<in> set (xs @ [a]). \<exists>h. (H(a \<mapsto> x')) b = Some h \<and> h_status h = BUF_STATUS_FREE \<and> h_qid h = p"
      using inv na by (auto simp: pool_inv_def H x'_def)
    have "fq_cur Q + length xs = fq_total Q" "fq_cur Q \<le> fq_max Q" "fq_max Q \<le> fq_total Q" "distinct xs"
      using inv st by (auto simp: pool_inv_def Q_def)
    then show ?thesis
      using sg free o fin cd own na pos st by (simp add: pool_inv_def Q'_def Q_def)
  qed
  ultimately show ?thesis using res by (auto simp: Q'_def Q_def)
qed

end
