(* ===== verification/Gki_Alloc.thy ===== *)
theory Gki_Alloc
  imports Gki_Fifo
begin

text \<open>
  The creation of a pool's memory, on demand, and the two allocating functions: from one pool
  (\<open>GKI_getpoolbuf\<close>) and from the public pools (\<open>GKI_getbuf\<close>).
\<close>

section \<open>The memory of a pool\<close>

definition blocks :: "nat \<Rightarrow> nat \<Rightarrow> nat \<Rightarrow> nat list" where
  "blocks hdr act n = map (\<lambda>k. hdr + k * act) [0..<n]"

lemma set_blocks: "set (blocks hdr act n) = {hdr + k * act | k. k < n}"
  by (auto simp: blocks_def)

lemma blocks_Suc: "blocks hdr act (Suc n) = hdr # blocks (hdr + act) act n"
  by (simp add: blocks_def upt_conv_Cons map_Suc_upt [symmetric] add_ac comp_def del: upt_Suc map_Suc_upt)

lemma length_blocks [simp]: "length (blocks hdr act n) = n"
  by (simp add: blocks_def)

lemma distinct_blocks: "0 < act \<Longrightarrow> distinct (blocks hdr act n)"
  by (auto simp: blocks_def distinct_map inj_on_def)

lemma init_hdrs_spec:
  assumes "0 < act"
  shows "(\<forall>b. b \<notin> set (blocks hdr act n) \<longrightarrow> fst (init_hdrs p tmp act n hdr h1 hw) b = fst hw b)
    \<and> (\<forall>k < n. fst (init_hdrs p tmp act n hdr h1 hw) (hdr + k * act)
        = Some \<lparr>h_next = Some (hdr + k * act + act), h_qid = p, h_task = GKI_INVALID_TASK,
                h_status = BUF_STATUS_FREE, h_type = 0\<rparr>)
    \<and> (\<forall>k < n. fst (snd (init_hdrs p tmp act n hdr h1 hw)) (hdr + k * act + BUFFER_HDR_SIZE + tmp)
        = Some MAGIC_NO)
    \<and> (\<forall>b. (\<forall>k < n. b \<noteq> hdr + k * act + BUFFER_HDR_SIZE + tmp)
        \<longrightarrow> fst (snd (init_hdrs p tmp act n hdr h1 hw)) b = snd hw b)
    \<and> snd (snd (init_hdrs p tmp act n hdr h1 hw)) = (if n = 0 then h1 else Some (hdr + (n - 1) * act))"
proof (induction n arbitrary: hdr h1 hw)
  case 0
  then show ?case by simp
next
  case (Suc n)
  define hw' where "hw' = ((fst hw)(hdr \<mapsto> \<lparr>h_next = Some (hdr + act), h_qid = p, h_task = GKI_INVALID_TASK,
                         h_status = BUF_STATUS_FREE, h_type = 0\<rparr>),
        (snd hw)(hdr + BUFFER_HDR_SIZE + tmp \<mapsto> MAGIC_NO))"
  have e: "init_hdrs p tmp act (Suc n) hdr h1 hw = init_hdrs p tmp act n (hdr + act) (Some hdr) hw'"
    by (simp add: hw'_def)
  let ?r = "init_hdrs p tmp act n (hdr + act) (Some hdr) hw'"
  note IH = Suc.IH [of "hdr + act" "Some hdr" hw']
  have bl: "set (blocks hdr act (Suc n)) = insert hdr (set (blocks (hdr + act) act n))"
    using blocks_Suc [of hdr act n] by simp
  have hn: "hdr \<notin> set (blocks (hdr + act) act n)" using assms by (auto simp: set_blocks)
  have 1: "fst ?r b = fst hw b" if "b \<notin> set (blocks hdr act (Suc n))" for b
    using IH that bl by (simp add: hw'_def)
  have 2: "fst ?r (hdr + k * act) = Some \<lparr>h_next = Some (hdr + k * act + act), h_qid = p,
      h_task = GKI_INVALID_TASK, h_status = BUF_STATUS_FREE, h_type = 0\<rparr>" if "k < Suc n" for k
  proof (cases k)
    case 0
    then show ?thesis using IH hn by (simp add: hw'_def)
  next
    case (Suc j)
    then have "j < n" "hdr + k * act = (hdr + act) + j * act" using that by simp_all
    then show ?thesis using IH by (simp only:)
  qed
  have 3: "fst (snd ?r) (hdr + k * act + BUFFER_HDR_SIZE + tmp) = Some MAGIC_NO" if "k < Suc n" for k
  proof (cases k)
    case 0
    have "\<forall>j < n. hdr + BUFFER_HDR_SIZE + tmp \<noteq> hdr + act + j * act + BUFFER_HDR_SIZE + tmp"
      using assms by simp
    then show ?thesis using IH 0 by (simp add: hw'_def)
  next
    case (Suc j)
    then have "j < n" "hdr + k * act = (hdr + act) + j * act" using that by simp_all
    then show ?thesis using IH by (simp only:)
  qed
  have 4: "fst (snd ?r) b = snd hw b" if "\<forall>k < Suc n. b \<noteq> hdr + k * act + BUFFER_HDR_SIZE + tmp" for b
  proof -
    have "b \<noteq> hdr + act + k * act + BUFFER_HDR_SIZE + tmp" if "k < n" for k
      using \<open>\<forall>k < Suc n. b \<noteq> hdr + k * act + BUFFER_HDR_SIZE + tmp\<close> [rule_format, of "Suc k"] that by simp
    moreover have "b \<noteq> hdr + BUFFER_HDR_SIZE + tmp" using that [rule_format, of 0] by simp
    ultimately show ?thesis using IH by (simp add: hw'_def)
  qed
  have 5: "snd (snd ?r) = Some (hdr + n * act)"
    using IH by (cases n) simp_all
  show ?case unfolding e using 1 2 3 4 5 by auto
qed

lemma seg_blocks:
  assumes "\<And>k. k < n \<Longrightarrow> h (hdr + k * act) = Some (x k)" "\<And>k. Suc k < n \<Longrightarrow> h_next (x k) = Some (hdr + Suc k * act)"
    and "0 < n \<Longrightarrow> h_next (x (n - 1)) = q"
  shows "j < n \<Longrightarrow> seg h (Some (hdr + j * act)) (map (\<lambda>k. hdr + k * act) [j..<n]) q"
proof (induction "n - j" arbitrary: j)
  case 0
  then show ?case by simp
next
  case (Suc d)
  have u: "[j..<n] = j # [Suc j..<n]" using Suc.prems by (simp add: upt_conv_Cons)
  show ?case
  proof (cases "Suc j < n")
    case True
    then have "seg h (Some (hdr + Suc j * act)) (map (\<lambda>k. hdr + k * act) [Suc j..<n]) q"
      using Suc.hyps by (intro Suc.hyps(1)) simp_all
    then show ?thesis using assms(1,2) Suc.prems True by (simp add: u)
  next
    case False
    then have "n = Suc j" using Suc.prems by simp
    then show ?thesis using assms by (simp add: u)
  qed
qed


text \<open>
  What the creation of the memory of pool \<open>p\<close> at \<open>m\<close> changes: the headers of its blocks, their magic
  numbers, the free queue of the pool, its entries of the pool table.
\<close>

definition pool_step :: "gki_com \<Rightarrow> nat \<Rightarrow> nat list \<Rightarrow> gki_com \<Rightarrow> bool" where
  "pool_step s p bs s' \<longleftrightarrow>
     (\<forall>b. b \<notin> set bs \<longrightarrow> heap s' b = heap s b)
     \<and> (\<forall>b \<in> set bs. free_view s' b = Some (p, True))
     \<and> (\<forall>b. words s' b = words s b \<or> words s' b = Some MAGIC_NO)
     \<and> (\<forall>q. q \<noteq> p \<longrightarrow> freeq s' q = freeq s q \<and> pool_start s' q = pool_start s q)
     \<and> (\<forall>b \<in> set bs. words s' (buf_of b + fq_size (freeq s' p)) = Some MAGIC_NO)
     \<and> locks s' = locks s \<and> pool_list s' = pool_list s \<and> pool_access_mask s' = pool_access_mask s
     \<and> curr_total_no_of_pools s' = curr_total_no_of_pools s \<and> task_q_first s' = task_q_first s
     \<and> task_q_last s' = task_q_last s \<and> task_dead s' = task_dead s \<and> exceptions s' = exceptions s"

lemma gki_init_free_queue_ok:
  assumes n: "0 < n" and sz: "ALIGN_POOL sz + BUFFER_PADDING_SIZE < 65536"
    and own: "owned s p = {}"
  defines "act \<equiv> ALIGN_POOL sz + BUFFER_PADDING_SIZE"
  assumes fresh: "\<And>b. b \<in> set (blocks m act n) \<Longrightarrow> heap s b = None"
  shows "\<exists>s'. gki_init_free_queue p sz n (Some m) s = Some s' \<and> pool_inv s' p (blocks m act n)
    \<and> pool_step s p (blocks m act n) s' \<and> fq_size (freeq s' p) = ALIGN_POOL sz
    \<and> fq_total (freeq s' p) = n \<and> pool_start s' p = Some m"
proof -
  have act: "0 < act" "act mod 65536 = act" "ALIGN_POOL sz mod 65536 = ALIGN_POOL sz"
    using sz by (simp_all add: act_def BUFFER_PADDING_SIZE_def)
  define r where "r = init_hdrs p (ALIGN_POOL sz) act n m None (heap s, words s)"
  obtain h w l where r: "r = (h, w, l)" by (cases r)
  note I = init_hdrs_spec [OF act(1), of m n p "ALIGN_POOL sz" None "(heap s, words s)", folded r_def, unfolded r, simplified]
  define k where "k = m + (n - 1) * act"
  have l: "l = Some k" using I n by (simp add: k_def)
  define hk where "hk = \<lparr>h_next = None :: ptr, h_qid = p, h_task = GKI_INVALID_TASK,
      h_status = BUF_STATUS_FREE, h_type = 0\<rparr>"
  have hk: "h k = Some \<lparr>h_next = Some (k + act), h_qid = p, h_task = GKI_INVALID_TASK,
      h_status = BUF_STATUS_FREE, h_type = 0\<rparr>" using I n by (simp add: k_def)
  define Q where "Q = (freeq s p)\<lparr>fq_size := ALIGN_POOL sz, fq_total := n, fq_cur := 0, fq_max := 0,
      fq_first := Some m, fq_last := Some k\<rparr>"
  let ?s = "s\<lparr>pool_size := (pool_size s)(p := act), freeq := (freeq s)(p := Q),
      pool_start := (pool_start s)(p := Some m), pool_end := (pool_end s)(p := Some (m + act * n)),
      heap := h(k \<mapsto> hk), words := w\<rparr>"
  have "gki_init_free_queue p sz n (Some m) s = Some ?s"
    using act hk l r
    by (simp add: gki_init_free_queue_def r_def act_def [symmetric] Let_def fq_upd_def hdr_upd_def hk_def Q_def)
  moreover have "pool_step s p (blocks m act n) ?s"
  proof -
    have "words ?s b = words s b \<or> words ?s b = Some MAGIC_NO" for b
      using I by (cases "\<forall>j < n. b \<noteq> m + j * act + BUFFER_HDR_SIZE + ALIGN_POOL sz") auto
    moreover have "k \<in> set (blocks m act n)" using n by (auto simp: k_def set_blocks)
    ultimately show ?thesis
      using I by (auto simp: pool_step_def free_view_def set_blocks hk_def Q_def buf_of_def)
  qed
  moreover have "pool_inv ?s p (blocks m act n)"
  proof -
    define x where "x j = \<lparr>h_next = (if Suc j < n then Some (m + Suc j * act) else None), h_qid = p,
        h_task = GKI_INVALID_TASK, h_status = BUF_STATUS_FREE, h_type = 0\<rparr>" for j
    have hx: "(h(k \<mapsto> hk)) (m + j * act) = Some (x j)" if "j < n" for j
    proof (cases "j = n - 1")
      case True
      then show ?thesis using n by (simp add: k_def hk_def x_def)
    next
      case False
      then have "m + j * act \<noteq> k" "Suc j < n" using that act by (auto simp: k_def)
      then show ?thesis using I that by (simp add: x_def add_ac)
    qed
    have "seg (h(k \<mapsto> hk)) (Some (m + 0 * act)) (map (\<lambda>j. m + j * act) [0..<n]) None"
      by (rule seg_blocks [of n "h(k \<mapsto> hk)" m act x]) (use hx n in \<open>simp_all add: x_def\<close>)
    then have sg: "seg (h(k \<mapsto> hk)) (Some m) (blocks m act n) None" by (simp add: blocks_def)
    have ne: "blocks m act n \<noteq> []" using n by (simp add: blocks_def)
    have lst: "last (blocks m act n) = k" using n by (simp add: blocks_def k_def last_map)
    have o: "owned ?s p = {}"
    proof -
      have "owned ?s p \<subseteq> owned s p"
      proof
        fix b
        assume "b \<in> owned ?s p"
        then obtain y where y: "(h(k \<mapsto> hk)) b = Some y" "h_qid y = p" "h_status y \<noteq> BUF_STATUS_FREE"
          by (auto simp: owned_def)
        show "b \<in> owned s p"
        proof (cases "b \<in> set (blocks m act n)")
          case True
          then obtain j where "j < n" "b = m + j * act" by (auto simp: set_blocks)
          then have "y = x j" using y(1) hx by simp
          then show ?thesis using y(3) by (simp add: x_def)
        next
          case False
          then have "(h(k \<mapsto> hk)) b = heap s b" using I n by (auto simp: k_def set_blocks)
          then show ?thesis using y by (simp add: owned_def)
        qed
      qed
      then show ?thesis using own by simp
    qed
    have "\<exists>y. (h(k \<mapsto> hk)) b = Some y \<and> h_status y = BUF_STATUS_FREE \<and> h_qid y = p"
      if bs: "b \<in> set (blocks m act n)" for b
    proof -
      obtain j where "j < n" "b = m + j * act" using bs by (auto simp: set_blocks)
      then show ?thesis using hx by (simp only:) (simp add: x_def)
    qed
    then have "\<forall>b \<in> set (blocks m act n). \<exists>y. (h(k \<mapsto> hk)) b = Some y \<and> h_status y = BUF_STATUS_FREE \<and> h_qid y = p"
      by blast
    then show ?thesis
      using sg ne lst o act(1) unfolding pool_inv_def by (simp add: Q_def distinct_blocks)
  qed
  ultimately show ?thesis by (auto simp: Q_def)
qed


section \<open>Allocation on demand\<close>

text \<open>What \<open>malloc\<close> promises: aligned memory that no buffer occupies.\<close>

definition mal_fresh :: "(nat \<Rightarrow> ptr) \<Rightarrow> gki_com \<Rightarrow> bool" where
  "mal_fresh mal s \<longleftrightarrow>
     (\<forall>n m. mal n = Some m \<longrightarrow> 4 dvd m \<and> (\<forall>b. m \<le> b \<and> b < m + n \<longrightarrow> heap s b = None))"

definition pool_ok :: "gki_com \<Rightarrow> nat \<Rightarrow> bool" where
  "pool_ok s p \<longleftrightarrow> 4 dvd fq_size (freeq s p) \<and> fq_size (freeq s p) + BUFFER_PADDING_SIZE < 65536"

lemma ALIGN_POOL_dvd: "4 dvd n \<Longrightarrow> ALIGN_POOL n = n"
  by (auto simp: ALIGN_POOL_def dvd_def)

definition pool_bytes :: "gki_com \<Rightarrow> nat \<Rightarrow> nat" where
  "pool_bytes s p = (fq_size (freeq s p) + BUFFER_PADDING_SIZE) * fq_total (freeq s p)"

lemma gki_alloc_free_queue_ok:
  assumes inv: "pool_inv s p []" and st: "pool_start s p = None" and ok: "pool_ok s p"
    and pl: "pool_list s p = p" and t: "0 < fq_total (freeq s p)"
    and fr: "mal_fresh mal s" and m: "mal (pool_bytes s p) = Some m"
  shows "\<exists>s' bs. gki_alloc_free_queue mal p s = Some (True, s') \<and> pool_inv s' p bs \<and> bs \<noteq> []
    \<and> pool_step s p bs s' \<and> pool_start s' p \<noteq> None \<and> (\<forall>b \<in> set bs. even b \<and> heap s b = None)
    \<and> fq_size (freeq s' p) = fq_size (freeq s p) \<and> fq_total (freeq s' p) = fq_total (freeq s p)"
proof -
  define n where "n = fq_total (freeq s p)"
  define sz where "sz = fq_size (freeq s p)"
  define act where "act = sz + BUFFER_PADDING_SIZE"
  have al: "ALIGN_POOL sz = sz" using ok by (simp add: pool_ok_def sz_def ALIGN_POOL_dvd)
  have fresh: "heap s b = None" if bs: "b \<in> set (blocks m act n)" for b
  proof -
    obtain k where k: "k < n" "b = m + k * act" using bs by (auto simp: set_blocks)
    have "k * act < act * n" using k(1) by (simp add: act_def BUFFER_PADDING_SIZE_def)
    then show ?thesis
      using fr m k by (auto simp: mal_fresh_def pool_bytes_def act_def sz_def n_def)
  qed
  have own: "owned s p = {}" using inv st by (auto simp: pool_inv_def)
  have "\<exists>s'. gki_init_free_queue p sz n (Some m) s = Some s' \<and> pool_inv s' p (blocks m act n)
    \<and> pool_step s p (blocks m act n) s' \<and> fq_size (freeq s' p) = sz
    \<and> fq_total (freeq s' p) = n \<and> pool_start s' p = Some m"
  proof (rule gki_init_free_queue_ok [where n = n and sz = sz and s = s and p = p and m = m,
        unfolded al, folded act_def])
    show "0 < n" using t by (simp add: n_def)
    show "act < 65536" using ok by (simp add: act_def sz_def pool_ok_def)
  qed (use own fresh in auto)
  then obtain s' where s': "gki_init_free_queue p sz n (Some m) s = Some s'" "pool_inv s' p (blocks m act n)"
    "pool_step s p (blocks m act n) s'" "fq_size (freeq s' p) = sz" "fq_total (freeq s' p) = n"
    "pool_start s' p = Some m" by blast
  have "fq_first (freeq s p) = None" using inv by (simp add: pool_inv_def)
  then have e: "gki_alloc_free_queue mal p s = Some (True, s')"
    using m pl s'(1) by (simp add: gki_alloc_free_queue_def sz_def n_def pool_bytes_def Let_def)
  have "\<forall>b \<in> set (blocks m act n). even b \<and> heap s b = None"
  proof
    fix b
    assume b: "b \<in> set (blocks m act n)"
    have "4 dvd m" "4 dvd act"
      using fr m ok by (auto simp: mal_fresh_def pool_ok_def act_def sz_def BUFFER_PADDING_SIZE_def
          BUFFER_HDR_SIZE_def)
    then have "even m" "even act" by presburger+
    then show "even b \<and> heap s b = None" using b fresh by (auto simp: set_blocks)
  qed
  moreover have "blocks m act n \<noteq> []" using t by (simp add: blocks_def n_def)
  ultimately show ?thesis
    using e s' by (intro exI [of _ s'] exI [of _ "blocks m act n"]) (simp add: sz_def n_def)
qed

end
