(* ===== verification/Gki_Moves.thy ===== *)
theory Gki_Moves
  imports Gki_Alloc
begin

text \<open>
  The buffer system as a whole: ten pools, the queues of the applications, the mailboxes of the
  tasks. A step is one call of the interface; the invariant says that every buffer is free in
  its pool, or queued in exactly one place, or out in somebody's hands.
\<close>

section \<open>The invariant\<close>

datatype place = AppQ nat | Mbox nat nat

primrec place_rep :: "gki_com \<Rightarrow> (nat \<Rightarrow> buffer_q) \<Rightarrow> place \<Rightarrow> nat list \<Rightarrow> bool" where
  "place_rep s qs (AppQ i) xs = q_rep s (qs i) xs"
| "place_rep s qs (Mbox t m) xs =
     (if t < GKI_MAX_TASKS \<and> m < NUM_TASK_MBOX \<and> \<not> task_dead s t then m_rep s (t, m) xs else xs = [])"

text \<open>The pointers that belong to a place, and the part of the state that queue operations share.\<close>

primrec place_ptrs :: "gki_com \<Rightarrow> (nat \<Rightarrow> buffer_q) \<Rightarrow> place \<Rightarrow> buffer_q + ptr \<times> ptr" where
  "place_ptrs s qs (AppQ i) = Inl (qs i)"
| "place_ptrs s qs (Mbox t m) = Inr (task_q_first s t m, task_q_last s t m)"

definition table_inv :: "gki_com \<Rightarrow> bool" where
  "table_inv s \<longleftrightarrow> (\<forall>p < GKI_NUM_TOTAL_BUF_POOLS. pool_ok s p)
     \<and> curr_total_no_of_pools s \<le> GKI_NUM_TOTAL_BUF_POOLS
     \<and> (\<forall>i < curr_total_no_of_pools s. pool_list s i = i)
     \<and> (\<Sum>p < GKI_NUM_TOTAL_BUF_POOLS. fq_total (freeq s p)) < 65536"

definition heap_ok :: "gki_com \<Rightarrow> bool" where
  "heap_ok s \<longleftrightarrow> (\<forall>a h. heap s a = Some h \<longrightarrow>
     h_qid h < GKI_NUM_TOTAL_BUF_POOLS \<and> gki_chk_buf_damage (buf_of a) s = Some False
     \<and> pool_start s (h_qid h) \<noteq> None)"

text \<open>No buffer is lost: a free one is in the list of its pool, a queued one in some place.\<close>

definition covered :: "gki_com \<Rightarrow> (nat \<Rightarrow> nat list) \<Rightarrow> (place \<Rightarrow> nat list) \<Rightarrow> bool" where
  "covered s F G \<longleftrightarrow> (\<forall>a h. heap s a = Some h \<longrightarrow>
     (h_status h = BUF_STATUS_FREE \<longrightarrow> a \<in> set (F (h_qid h)))
     \<and> (h_status h = BUF_STATUS_QUEUED \<longrightarrow> (\<exists>x. a \<in> set (G x))))"

definition gki_inv :: "gki_com \<Rightarrow> (nat \<Rightarrow> buffer_q) \<Rightarrow> (nat \<Rightarrow> nat list) \<Rightarrow> (place \<Rightarrow> nat list) \<Rightarrow> bool" where
  "gki_inv s qs F G \<longleftrightarrow> table_inv s \<and> heap_ok s
     \<and> (\<forall>p < GKI_NUM_TOTAL_BUF_POOLS. pool_inv s p (F p))
     \<and> (\<forall>x. place_rep s qs x (G x))
     \<and> (\<forall>x y. x \<noteq> y \<longrightarrow> set (G x) \<inter> set (G y) = {}) \<and> covered s F G"

lemma gki_invD:
  assumes "gki_inv s qs F G"
  shows "table_inv s" "heap_ok s" "p < GKI_NUM_TOTAL_BUF_POOLS \<Longrightarrow> pool_inv s p (F p)"
    "place_rep s qs x (G x)" "x \<noteq> y \<Longrightarrow> set (G x) \<inter> set (G y) = {}" "covered s F G"
  using assms by (simp_all add: gki_inv_def)

lemma place_rep_status:
  "place_rep s qs x xs \<Longrightarrow> a \<in> set xs \<Longrightarrow> map_option h_status (heap s a) = Some BUF_STATUS_QUEUED"
  by (cases x) (auto simp: q_rep_def m_rep_def split: if_splits)

lemma place_rep_distinct: "place_rep s qs x xs \<Longrightarrow> distinct xs"
  by (cases x) (auto simp: q_rep_def m_rep_def split: if_splits)

lemma heap_ok_loose:
  "heap_ok s \<Longrightarrow> heap s a = Some h \<Longrightarrow> buf_loose s a = (h_status h = BUF_STATUS_UNLINKED)"
  by (auto simp: heap_ok_def buf_loose_def)

lemma place_rep_cong:
  assumes "place_rep s qs x xs" "place_ptrs s' qs' x = place_ptrs s qs x" "task_dead s' = task_dead s"
    and "\<And>a. a \<in> set xs \<Longrightarrow> heap s' a = heap s a"
    and "\<And>a. a \<in> set xs \<Longrightarrow> gki_chk_buf_damage (buf_of a) s' = gki_chk_buf_damage (buf_of a) s"
  shows "place_rep s' qs' x xs"
  using assms seg_cong [of xs "heap s'" "heap s"]
  by (cases x) (auto simp: q_rep_def m_rep_def split: if_splits)

lemma exceptions_locks [simp]:
  "gki_inv (s\<lparr>exceptions := e\<rparr>) qs F G = gki_inv s qs F G"
  "gki_inv (s\<lparr>locks := l\<rparr>) qs F G = gki_inv s qs F G"
proof -
  have d: "gki_chk_buf_damage b (s\<lparr>exceptions := e\<rparr>) = gki_chk_buf_damage b s"
    "gki_chk_buf_damage b (s\<lparr>locks := l\<rparr>) = gki_chk_buf_damage b s" for b
    by (cases "heap s (hdr_of b)"; simp add: gki_chk_buf_damage_def GKI_get_buf_size_def Let_def)+
  have p: "place_rep (s\<lparr>exceptions := e\<rparr>) qs x xs = place_rep s qs x xs"
    "place_rep (s\<lparr>locks := l\<rparr>) qs x xs = place_rep s qs x xs" for x xs
    by (cases x; simp add: q_rep_def m_rep_def d)+
  show "gki_inv (s\<lparr>exceptions := e\<rparr>) qs F G = gki_inv s qs F G"
    "gki_inv (s\<lparr>locks := l\<rparr>) qs F G = gki_inv s qs F G"
    by (simp_all add: gki_inv_def table_inv_def heap_ok_def pool_inv_def owned_def pool_ok_def covered_def p d)
qed

text \<open>No queue can overflow its counter: there are fewer buffers than that.\<close>

lemma used_bound:
  assumes inv: "gki_inv s qs F G"
    and A: "\<And>a. a \<in> A \<Longrightarrow> \<exists>h. heap s a = Some h \<and> h_status h \<noteq> BUF_STATUS_FREE"
  shows "card A < 65536"
proof -
  have sub: "A \<subseteq> (\<Union>p < GKI_NUM_TOTAL_BUF_POOLS. owned s p)"
    using A gki_invD(2) [OF inv] by (fastforce simp: heap_ok_def owned_def)
  have fin: "finite (owned s p)" "card (owned s p) \<le> fq_total (freeq s p)"
    if "p < GKI_NUM_TOTAL_BUF_POOLS" for p
    using gki_invD(3) [OF inv that] by (auto simp: pool_inv_def)
  have "card A \<le> card (\<Union>p < GKI_NUM_TOTAL_BUF_POOLS. owned s p)"
    using sub fin by (intro card_mono) auto
  also have "\<dots> \<le> (\<Sum>p < GKI_NUM_TOTAL_BUF_POOLS. card (owned s p))" by (rule card_UN_le) simp
  also have "\<dots> \<le> (\<Sum>p < GKI_NUM_TOTAL_BUF_POOLS. fq_total (freeq s p))" by (rule sum_mono) (use fin in auto)
  also have "\<dots> < 65536" using gki_invD(1) [OF inv] by (simp add: table_inv_def)
  finally show ?thesis .
qed

lemma cap_q_loose:
  assumes inv: "gki_inv s qs F G" and a: "buf_loose s a"
  shows "length (G x) < 65535"
proof -
  have D: "distinct (G x)" using gki_invD(4) [OF inv] by (rule place_rep_distinct)
  have na: "a \<notin> set (G x)"
    using place_rep_status [OF gki_invD(4) [OF inv], of a x] buf_looseD [OF a] by auto
  have "card (insert a (set (G x))) < 65536"
  proof (rule used_bound [OF inv])
    show "\<exists>h. heap s b = Some h \<and> h_status h \<noteq> BUF_STATUS_FREE" if "b \<in> insert a (set (G x))" for b
      using that place_rep_status [OF gki_invD(4) [OF inv], of b x] buf_looseD [OF a] by fastforce
  qed
  then show ?thesis using D na by (simp add: distinct_card)
qed

text \<open>
  The steps of the buffer system: every call of the interface keeps the invariant, and none of them
  follows a bad pointer.
\<close>

section \<open>What the operations leave alone\<close>

definition tables :: "gki_com \<Rightarrow> (nat \<Rightarrow> ptr) \<times> (nat \<Rightarrow> nat) \<times> u16 \<times> nat \<times> (nat \<Rightarrow> bool)" where
  "tables s = (pool_start s, pool_list s, pool_access_mask s, curr_total_no_of_pools s, task_dead s)"

lemma tables_sel [simp]:
  "tables (s\<lparr>heap := h\<rparr>) = tables s" "tables (s\<lparr>freeq := f\<rparr>) = tables s"
  "tables (s\<lparr>locks := l\<rparr>) = tables s" "tables (s\<lparr>exceptions := e\<rparr>) = tables s"
  "tables (s\<lparr>task_q_first := g\<rparr>) = tables s" "tables (s\<lparr>task_q_last := g\<rparr>) = tables s"
  "tables (s\<lparr>wait_evt := w\<rparr>) = tables s"
  "tables (GKI_disable s) = tables s" "tables (GKI_enable s) = tables s"
  "tables (GKI_exception x s) = tables s" "tables (GKI_send_event t v s) = tables s"
  "tables (fq_upd p k s) = tables s"
  by (simp_all add: tables_def GKI_disable_def GKI_enable_def GKI_exception_def GKI_send_event_def fq_upd_def)

text \<open>The pool table, apart from what the pools hold.\<close>

definition same_table :: "gki_com \<Rightarrow> gki_com \<Rightarrow> bool" where
  "same_table s s' \<longleftrightarrow>
     (\<forall>q. fq_size (freeq s' q) = fq_size (freeq s q) \<and> fq_total (freeq s' q) = fq_total (freeq s q))
     \<and> pool_list s' = pool_list s \<and> pool_access_mask s' = pool_access_mask s
     \<and> curr_total_no_of_pools s' = curr_total_no_of_pools s \<and> task_dead s' = task_dead s"

lemma same_tableI:
  "tables s' = tables s \<Longrightarrow>
     \<forall>q. fq_size (freeq s' q) = fq_size (freeq s q) \<and> fq_total (freeq s' q) = fq_total (freeq s q) \<Longrightarrow>
     same_table s s'"
  by (simp add: same_table_def tables_def)

lemma same_table_refl [simp]: "same_table s s"
  by (simp add: same_table_def)

lemma hdr_upd_eq:
  "hdr_upd a f s = Some s' \<longleftrightarrow> (\<exists>h. heap s a = Some h \<and> s' = s\<lparr>heap := (heap s)(a \<mapsto> f h)\<rparr>)"
  by (auto simp: hdr_upd_def split: option.splits)

lemma task_q_sel [simp]:
  "task_q_first (GKI_disable s) = task_q_first s" "task_q_last (GKI_disable s) = task_q_last s"
  "task_q_first (GKI_enable s) = task_q_first s" "task_q_last (GKI_enable s) = task_q_last s"
  "task_q_first (GKI_exception x s) = task_q_first s" "task_q_last (GKI_exception x s) = task_q_last s"
  "task_q_first (GKI_send_event t v s) = task_q_first s" "task_q_last (GKI_send_event t v s) = task_q_last s"
  "task_q_first (fq_upd p k s) = task_q_first s" "task_q_last (fq_upd p k s) = task_q_last s"
  "freeq (GKI_exception x s) = freeq s" "freeq (GKI_send_event t v s) = freeq s"
  by (simp_all add: GKI_disable_def GKI_enable_def GKI_exception_def GKI_send_event_def fq_upd_def)

lemmas op_split = option.splits if_splits prod.splits Option.bind_splits

lemma GKI_enqueue_frame:
  "GKI_enqueue q p s = Some (s', q') \<Longrightarrow>
     tables s' = tables s \<and> task_q_first s' = task_q_first s \<and> task_q_last s' = task_q_last s
     \<and> freeq s' = freeq s"
  by (auto simp: GKI_enqueue_def hdr_upd_eq Let_def split: op_split)

lemma GKI_enqueue_head_frame:
  "GKI_enqueue_head q p s = Some (s', q') \<Longrightarrow>
     tables s' = tables s \<and> task_q_first s' = task_q_first s \<and> task_q_last s' = task_q_last s
     \<and> freeq s' = freeq s"
  by (auto simp: GKI_enqueue_head_def hdr_upd_eq Let_def split: op_split)

lemma GKI_dequeue_frame:
  "GKI_dequeue q s = Some (r, s', q') \<Longrightarrow>
     tables s' = tables s \<and> task_q_first s' = task_q_first s \<and> task_q_last s' = task_q_last s
     \<and> freeq s' = freeq s"
  by (auto simp: GKI_dequeue_def hdr_upd_eq Let_def split: op_split)

lemma GKI_freebuf_frame:
  "GKI_freebuf p s = Some s' \<Longrightarrow>
     tables s' = tables s \<and> task_q_first s' = task_q_first s \<and> task_q_last s' = task_q_last s
     \<and> (\<forall>q. fq_size (freeq s' q) = fq_size (freeq s q) \<and> fq_total (freeq s' q) = fq_total (freeq s q))"
  by (auto simp: GKI_freebuf_def hdr_upd_eq Let_def split: op_split)

lemma GKI_read_mbox_frame:
  "GKI_read_mbox t m s = Some (r, s') \<Longrightarrow>
     tables s' = tables s \<and> task_q_last s' = task_q_last s \<and> freeq s' = freeq s
     \<and> (\<forall>t' m'. (t', m') \<noteq> (t, m) \<longrightarrow> task_q_first s' t' m' = task_q_first s t' m')"
  by (auto simp: GKI_read_mbox_def hdr_upd_eq Let_def mbox_upd_def split: op_split)

lemma GKI_send_msg_frame:
  "GKI_send_msg t m p s = Some s' \<Longrightarrow>
     tables s' = tables s
     \<and> (\<forall>q. fq_size (freeq s' q) = fq_size (freeq s q) \<and> fq_total (freeq s' q) = fq_total (freeq s q))
     \<and> (\<forall>t' m'. (t', m') \<noteq> (t, m) \<longrightarrow> task_q_first s' t' m' = task_q_first s t' m'
                                   \<and> task_q_last s' t' m' = task_q_last s t' m')"
  by (auto simp: GKI_send_msg_def hdr_upd_eq Let_def mbox_upd_def split: op_split dest!: GKI_freebuf_frame)


lemma unlink_after_frame:
  "unlink_after s q p a = Some (r, s', q') \<Longrightarrow>
     tables s' = tables s \<and> task_q_first s' = task_q_first s \<and> task_q_last s' = task_q_last s
     \<and> freeq s' = freeq s"
  by (auto simp: unlink_after_def hdr_upd_eq Let_def split: op_split)

lemma remove_loop_frame:
  "remove_loop s q p prev = Some (r, s', q') \<Longrightarrow>
     tables s' = tables s \<and> task_q_first s' = task_q_first s \<and> task_q_last s' = task_q_last s
     \<and> freeq s' = freeq s"
proof -
  let ?P = "\<lambda>s q p prev (y :: ptr \<times> gki_com \<times> buffer_q). tables (fst (snd y)) = tables s
     \<and> task_q_first (fst (snd y)) = task_q_first s \<and> task_q_last (fst (snd y)) = task_q_last s \<and> freeq (fst (snd y)) = freeq s"
  assume "remove_loop s q p prev = Some (r, s', q')"
  then have "?P s q p prev (r, s', q')"
    by (rule remove_loop.raw_induct [where P = ?P, rotated])
      (fastforce split: if_splits Option.bind_splits dest: unlink_after_frame)
  then show ?thesis by simp
qed

lemma GKI_remove_from_queue_frame:
  "GKI_remove_from_queue q p s = Some (r, s', q') \<Longrightarrow>
     tables s' = tables s \<and> task_q_first s' = task_q_first s \<and> task_q_last s' = task_q_last s
     \<and> freeq s' = freeq s"
  by (auto simp: GKI_remove_from_queue_def Let_def split: op_split dest!: remove_loop_frame GKI_dequeue_frame)

section \<open>Steps on one place\<close>

lemma heap_step_free_view:
  assumes st: "heap_step s D s'"
    and D: "\<And>a. a \<in> D \<Longrightarrow> map_option h_status (heap s a) \<noteq> Some BUF_STATUS_FREE
      \<and> map_option h_status (heap s' a) \<noteq> Some BUF_STATUS_FREE"
  shows "free_view s' a = free_view s a"
proof (cases "a \<in> D")
  case True
  have q: "map_option h_qid (heap s' a) = map_option h_qid (heap s a)" using st by (simp add: heap_step_def)
  show ?thesis using D [OF True] q by (cases "heap s a"; cases "heap s' a") (simp_all add: free_view_def)
next
  case False
  then show ?thesis using st by (simp add: heap_step_def free_view_def)
qed

lemma place_step:
  assumes inv: "gki_inv s qs F G" and st: "heap_step s D s'" and tb: "tables s' = tables s"
    and D: "\<And>a. a \<in> D \<Longrightarrow> map_option h_status (heap s a) \<noteq> Some BUF_STATUS_FREE
      \<and> map_option h_status (heap s' a) \<noteq> Some BUF_STATUS_FREE"
    and new: "place_rep s' qs' x ys"
    and pt: "\<And>y. y \<noteq> x \<Longrightarrow> place_ptrs s' qs' y = place_ptrs s qs y"
    and oth: "\<And>y. y \<noteq> x \<Longrightarrow> set (G y) \<inter> D = {}" and ys: "set ys \<subseteq> set (G x) \<union> D"
    and lv: "\<And>a. a \<in> set (G x) \<union> D \<Longrightarrow> a \<notin> set ys \<Longrightarrow> map_option h_status (heap s' a) \<noteq> Some BUF_STATUS_QUEUED"
  shows "gki_inv s' qs' F (G(x := ys))"
proof -
  have fq: "freeq s' = freeq s" and w: "words s' = words s"
    and qid: "\<And>a. map_option h_qid (heap s' a) = map_option h_qid (heap s a)"
    and hp: "\<And>a. a \<notin> D \<Longrightarrow> heap s' a = heap s a"
    using st by (simp_all add: heap_step_def)
  have tb': "pool_start s' = pool_start s" "pool_list s' = pool_list s"
    "curr_total_no_of_pools s' = curr_total_no_of_pools s" "task_dead s' = task_dead s"
    using tb by (simp_all add: tables_def)
  note fv = heap_step_free_view [OF st D]
  have "table_inv s'" using gki_invD(1) [OF inv] by (simp add: table_inv_def pool_ok_def fq tb')
  moreover have "heap_ok s'"
    unfolding heap_ok_def
  proof (intro allI impI)
    fix a h'
    assume "heap s' a = Some h'"
    then obtain h where "heap s a = Some h" "h_qid h' = h_qid h" using qid [of a] by (cases "heap s a") auto
    then show "h_qid h' < GKI_NUM_TOTAL_BUF_POOLS \<and> gki_chk_buf_damage (buf_of a) s' = Some False
        \<and> pool_start s' (h_qid h') \<noteq> None"
      using gki_invD(2) [OF inv] heap_step_damage [OF st] by (simp add: heap_ok_def tb')
  qed
  moreover have "pool_inv s' p (F p)" if "p < GKI_NUM_TOTAL_BUF_POOLS" for p
  proof (rule pool_inv_view [OF gki_invD(3) [OF inv that] fq tb'(1) fv])
    show "heap s' a = heap s a" if "free_view s a = Some (p, True)" for a
      using that D [of a] hp [of a] by (auto simp: free_view_def)
  qed
  moreover have "place_rep s' qs' y ((G(x := ys)) y)" for y
  proof (cases "y = x")
    case False
    have "place_rep s' qs' y (G y)"
      by (rule place_rep_cong [OF gki_invD(4) [OF inv] pt [OF False] tb'(4)])
        (use oth [OF False] in \<open>auto intro: hp heap_step_damage [OF st]\<close>)
    then show ?thesis using False by simp
  qed (use new in simp)
  moreover have "set ((G(x := ys)) y) \<inter> set ((G(x := ys)) z) = {}" if "y \<noteq> z" for y z
  proof -
    have e: "set ys \<inter> set (G w) = {}" if "w \<noteq> x" for w
      using ys oth [OF that] gki_invD(5) [OF inv that] by blast
    consider "y = x" | "z = x" | "y \<noteq> x" "z \<noteq> x" by blast
    then show ?thesis
    proof cases
      case 1
      then show ?thesis using e [of z] that by simp
    next
      case 2
      then show ?thesis using e [of y] that by (simp add: Int_commute)
    next
      case 3
      then show ?thesis using gki_invD(5) [OF inv that] by simp
    qed
  qed
  moreover have "covered s' F (G(x := ys))"
    unfolding covered_def
  proof (intro allI impI conjI)
    fix a h'
    assume h': "heap s' a = Some h'"
    then obtain h where h: "heap s a = Some h" "h_qid h' = h_qid h" using qid [of a] by (cases "heap s a") auto
    have sf: "(h_status h' = BUF_STATUS_FREE) = (h_status h = BUF_STATUS_FREE)"
      using fv [of a] h h' by (simp add: free_view_def)
    show "a \<in> set (F (h_qid h'))" if "h_status h' = BUF_STATUS_FREE"
      using that sf h gki_invD(6) [OF inv] by (simp add: covered_def)
    show "\<exists>y. a \<in> set ((G(x := ys)) y)" if qd: "h_status h' = BUF_STATUS_QUEUED"
    proof (cases "a \<in> set (G x) \<union> D")
      case True
      then have "a \<in> set ys" using lv [OF True] h' qd by auto
      then show ?thesis by (intro exI [of _ x]) simp
    next
      case False
      then have "heap s a = Some h'" using hp h' by simp
      then obtain y where "a \<in> set (G y)" using gki_invD(6) [OF inv] qd by (auto simp: covered_def)
      then show ?thesis using False by (intro exI [of _ y]) auto
    qed
  qed
  ultimately show ?thesis by (simp add: gki_inv_def)
qed

end
