(* ===== verification/Gki_Steps.thy ===== *)
theory Gki_Steps
  imports Gki_Moves
begin

text \<open>
  Each call of the queue and mailbox interface, in a state in which the invariant holds: it
  returns, and the invariant holds again with one place changed.
\<close>

section \<open>Application queues\<close>

lemma place_step_q:
  assumes inv: "gki_inv s qs F G" and st: "heap_step s D s'"
    and fr: "tables s' = tables s \<and> task_q_first s' = task_q_first s \<and> task_q_last s' = task_q_last s
      \<and> freeq s' = freeq s"
    and D: "\<And>a. a \<in> D \<Longrightarrow> map_option h_status (heap s a) \<noteq> Some BUF_STATUS_FREE
      \<and> map_option h_status (heap s' a) \<noteq> Some BUF_STATUS_FREE"
    and new: "q_rep s' q' ys"
    and oth: "\<And>y. y \<noteq> AppQ i \<Longrightarrow> set (G y) \<inter> D = {}" and ys: "set ys \<subseteq> set (G (AppQ i)) \<union> D"
    and lv: "\<And>a. a \<in> set (G (AppQ i)) \<union> D \<Longrightarrow> a \<notin> set ys \<Longrightarrow> map_option h_status (heap s' a) \<noteq> Some BUF_STATUS_QUEUED"
  shows "gki_inv s' (qs(i := q')) F (G(AppQ i := ys))"
proof (rule place_step [OF inv st])
  show "tables s' = tables s" using fr by simp
  show "place_rep s' (qs(i := q')) (AppQ i) ys" using new by simp
  show "place_ptrs s' (qs(i := q')) y = place_ptrs s qs y" if "y \<noteq> AppQ i" for y
    using that fr by (cases y) auto
qed (use D oth ys lv in auto)

lemma place_others:
  assumes inv: "gki_inv s qs F G" and "y \<noteq> x" and D: "D \<subseteq> insert a (set (G x))"
    and a: "a \<in> set (G x) \<or> buf_loose s a"
  shows "set (G y) \<inter> D = {}"
proof -
  have "set (G y) \<inter> set (G x) = {}" using gki_invD(5) [OF inv] assms(2) by blast
  moreover have "a \<notin> set (G y)" if "buf_loose s a"
    using that place_rep_status [OF gki_invD(4) [OF inv], of a y] by (auto simp: buf_loose_def)
  ultimately show ?thesis using D a by blast
qed

lemma q_rep_used: "q_rep s q xs \<Longrightarrow> b \<in> set xs \<Longrightarrow> map_option h_status (heap s b) \<noteq> Some BUF_STATUS_FREE"
  by (fastforce simp: q_rep_def)

lemma loose_used: "buf_loose s b \<Longrightarrow> map_option h_status (heap s b) \<noteq> Some BUF_STATUS_FREE"
  by (auto simp: buf_loose_def)

lemma gki_enqueue_step:
  assumes inv: "gki_inv s qs F G" and a: "buf_loose s a"
  shows "\<exists>s' q'. GKI_enqueue (qs i) (buf_of a) s = Some (s', q') \<and> locks s' = locks s
    \<and> gki_inv s' (qs(i := q')) F (G(AppQ i := G (AppQ i) @ [a]))"
proof -
  have q: "q_rep s (qs i) (G (AppQ i))" using gki_invD(4) [OF inv, of "AppQ i"] by simp
  obtain s' q' where r: "GKI_enqueue (qs i) (buf_of a) s = Some (s', q')" "q_rep s' q' (G (AppQ i) @ [a])"
    and st: "heap_step s (insert a (set (G (AppQ i)))) s'"
    using GKI_enqueue_ok [OF q a cap_q_loose [OF inv a]] by blast
  have "gki_inv s' (qs(i := q')) F (G(AppQ i := G (AppQ i) @ [a]))"
  proof (rule place_step_q [OF inv st GKI_enqueue_frame [OF r(1)] _ r(2)])
    show "map_option h_status (heap s b) \<noteq> Some BUF_STATUS_FREE
        \<and> map_option h_status (heap s' b) \<noteq> Some BUF_STATUS_FREE"
      if "b \<in> insert a (set (G (AppQ i)))" for b
      using that loose_used [OF a] q_rep_used [OF q] q_rep_used [OF r(2)] by auto
    show "set (G y) \<inter> insert a (set (G (AppQ i))) = {}" if "y \<noteq> AppQ i" for y
      by (rule place_others [OF inv that]) (use a in auto)
  qed auto
  then show ?thesis using r(1) st by (auto simp: heap_step_def)
qed

lemma gki_enqueue_head_step:
  assumes inv: "gki_inv s qs F G" and a: "buf_loose s a"
  shows "\<exists>s' q'. GKI_enqueue_head (qs i) (buf_of a) s = Some (s', q') \<and> locks s' = locks s
    \<and> gki_inv s' (qs(i := q')) F (G(AppQ i := a # G (AppQ i)))"
proof -
  have q: "q_rep s (qs i) (G (AppQ i))" using gki_invD(4) [OF inv, of "AppQ i"] by simp
  obtain s' q' where r: "GKI_enqueue_head (qs i) (buf_of a) s = Some (s', q')" "q_rep s' q' (a # G (AppQ i))"
    and st: "heap_step s {a} s'"
    using GKI_enqueue_head_ok [OF q a cap_q_loose [OF inv a]] by blast
  have "gki_inv s' (qs(i := q')) F (G(AppQ i := a # G (AppQ i)))"
  proof (rule place_step_q [OF inv st GKI_enqueue_head_frame [OF r(1)] _ r(2)])
    show "map_option h_status (heap s b) \<noteq> Some BUF_STATUS_FREE
        \<and> map_option h_status (heap s' b) \<noteq> Some BUF_STATUS_FREE" if "b \<in> {a}" for b
      using that loose_used [OF a] q_rep_used [OF r(2)] by auto
    show "set (G y) \<inter> {a} = {}" if "y \<noteq> AppQ i" for y
      by (rule place_others [OF inv that]) (use a in auto)
  qed auto
  then show ?thesis using r(1) st by (auto simp: heap_step_def)
qed

text \<open>A linked or free buffer is refused, with an exception and no other effect.\<close>

lemma gki_enqueue_refused:
  assumes inv: "gki_inv s qs F G" and h: "heap s a = Some h" "h_status h \<noteq> BUF_STATUS_UNLINKED"
  shows "GKI_enqueue q (buf_of a) s = Some (GKI_exception GKI_ERROR_ENQUEUE_BUF_LINKED s, q)"
    "GKI_enqueue_head q (buf_of a) s = Some (GKI_exception GKI_ERROR_ENQUEUE_BUF_LINKED s, q)"
  using gki_invD(2) [OF inv] h
  by (simp_all add: GKI_enqueue_def GKI_enqueue_head_def heap_ok_def)

lemma gki_dequeue_step:
  assumes inv: "gki_inv s qs F G"
  shows "\<exists>r s' q'. GKI_dequeue (Some (qs i)) s = Some (r, s', Some q') \<and> locks s' = locks s
    \<and> r = (if G (AppQ i) = [] then None else Some (buf_of (hd (G (AppQ i)))))
    \<and> gki_inv s' (qs(i := q')) F (G(AppQ i := tl (G (AppQ i))))"
proof (cases "G (AppQ i)")
  case Nil
  then have q: "q_rep s (qs i) []" using gki_invD(4) [OF inv, of "AppQ i"] by simp
  have "qs(i := qs i) = qs" "G(AppQ i := tl (G (AppQ i))) = G" using Nil by auto
  then show ?thesis using GKI_dequeue_empty [OF q] inv Nil by auto
next
  case (Cons a xs)
  then have q: "q_rep s (qs i) (a # xs)" using gki_invD(4) [OF inv, of "AppQ i"] by simp
  obtain s' q' where r: "GKI_dequeue (Some (qs i)) s = Some (Some (buf_of a), s', Some q')" "q_rep s' q' xs"
    and st: "heap_step s {a} s'" and l: "buf_loose s' a"
    using GKI_dequeue_ok [OF q] by blast
  have "gki_inv s' (qs(i := q')) F (G(AppQ i := xs))"
  proof (rule place_step_q [OF inv st GKI_dequeue_frame [OF r(1)] _ r(2)])
    show "map_option h_status (heap s b) \<noteq> Some BUF_STATUS_FREE
        \<and> map_option h_status (heap s' b) \<noteq> Some BUF_STATUS_FREE" if "b \<in> {a}" for b
      using that loose_used [OF l] q_rep_used [OF q] by auto
    show "set (G y) \<inter> {a} = {}" if "y \<noteq> AppQ i" for y
      by (rule place_others [OF inv that]) (use Cons in auto)
  qed (use Cons l in \<open>auto simp: buf_loose_def\<close>)
  then show ?thesis using r(1) st Cons by (auto simp: heap_step_def)
qed

lemma gki_remove_step:
  assumes inv: "gki_inv s qs F G" and a: "G (AppQ i) = ys @ a # zs"
  shows "\<exists>s' q'. GKI_remove_from_queue (qs i) (buf_of a) s = Some (Some (buf_of a), s', q')
    \<and> locks s' = locks s \<and> gki_inv s' (qs(i := q')) F (G(AppQ i := ys @ zs)) \<and> buf_loose s' a"
proof -
  have q: "q_rep s (qs i) (ys @ a # zs)" using gki_invD(4) [OF inv, of "AppQ i"] a by simp
  obtain s' q' where r: "GKI_remove_from_queue (qs i) (buf_of a) s = Some (Some (buf_of a), s', q')"
    "q_rep s' q' (ys @ zs)" and st: "heap_step s (set (ys @ [a])) s'" and l: "buf_loose s' a"
    using GKI_remove_from_queue_ok [OF q] by blast
  have "gki_inv s' (qs(i := q')) F (G(AppQ i := ys @ zs))"
  proof (rule place_step_q [OF inv st GKI_remove_from_queue_frame [OF r(1)] _ r(2)])
    show "map_option h_status (heap s b) \<noteq> Some BUF_STATUS_FREE
        \<and> map_option h_status (heap s' b) \<noteq> Some BUF_STATUS_FREE" if "b \<in> set (ys @ [a])" for b
      using that loose_used [OF l] q_rep_used [OF q, of b] q_rep_used [OF r(2), of b]
      by (cases "b = a") (simp_all only: set_append set_simps Un_iff insert_iff, blast+)
    show "set (G y) \<inter> set (ys @ [a]) = {}" if "y \<noteq> AppQ i" for y
      by (rule place_others [OF inv that, of _ a]) (use a in auto)
  qed (use a l in \<open>auto simp: buf_loose_def\<close>)
  then show ?thesis using r(1) st l by (auto simp: heap_step_def)
qed


section \<open>Mailboxes\<close>

lemma place_step_m:
  assumes inv: "gki_inv s qs F G" and st: "heap_step s D s'" and tb: "tables s' = tables s"
    and fr: "\<And>t' m'. (t', m') \<noteq> (t, m) \<Longrightarrow> task_q_first s' t' m' = task_q_first s t' m'
      \<and> task_q_last s' t' m' = task_q_last s t' m'"
    and D: "\<And>a. a \<in> D \<Longrightarrow> map_option h_status (heap s a) \<noteq> Some BUF_STATUS_FREE
      \<and> map_option h_status (heap s' a) \<noteq> Some BUF_STATUS_FREE"
    and new: "m_rep s' (t, m) ys"
    and oth: "\<And>y. y \<noteq> Mbox t m \<Longrightarrow> set (G y) \<inter> D = {}" and ys: "set ys \<subseteq> set (G (Mbox t m)) \<union> D"
    and lv: "\<And>a. a \<in> set (G (Mbox t m)) \<union> D \<Longrightarrow> a \<notin> set ys \<Longrightarrow> map_option h_status (heap s' a) \<noteq> Some BUF_STATUS_QUEUED"
  shows "gki_inv s' qs F (G(Mbox t m := ys))"
proof (rule place_step [OF inv st tb])
  show "place_rep s' qs (Mbox t m) ys" using new by (auto simp: m_rep_def)
  show "place_ptrs s' qs y = place_ptrs s qs y" if "y \<noteq> Mbox t m" for y
    using that fr by (cases y) auto
qed (use D oth ys lv in auto)

lemma m_rep_used: "m_rep s tm xs \<Longrightarrow> b \<in> set xs \<Longrightarrow> map_option h_status (heap s b) \<noteq> Some BUF_STATUS_FREE"
  by (fastforce simp: m_rep_def)

lemma gki_send_msg_step:
  assumes inv: "gki_inv s qs F G" and a: "buf_loose s a"
    and t: "t < GKI_MAX_TASKS" "m < NUM_TASK_MBOX" "\<not> task_dead s t"
  shows "\<exists>s'. GKI_send_msg t m (buf_of a) s = Some s' \<and> locks s' = locks s \<and> bit (wait_evt s' t) m
    \<and> gki_inv s' qs F (G(Mbox t m := G (Mbox t m) @ [a]))"
proof -
  have q: "m_rep s (t, m) (G (Mbox t m))" using gki_invD(4) [OF inv, of "Mbox t m"] t by simp
  obtain s' where r: "GKI_send_msg t m (buf_of a) s = Some s'" "m_rep s' (t, m) (G (Mbox t m) @ [a])"
    and st: "heap_step s (insert a (set (G (Mbox t m)))) s'" and ev: "bit (wait_evt s' t) m"
    using GKI_send_msg_ok [OF q a] by blast
  note fr = GKI_send_msg_frame [OF r(1)]
  have "gki_inv s' qs F (G(Mbox t m := G (Mbox t m) @ [a]))"
  proof (rule place_step_m [OF inv st _ _ _ r(2)])
    show "map_option h_status (heap s b) \<noteq> Some BUF_STATUS_FREE
        \<and> map_option h_status (heap s' b) \<noteq> Some BUF_STATUS_FREE"
      if "b \<in> insert a (set (G (Mbox t m)))" for b
      using that loose_used [OF a] m_rep_used [OF q, of b] m_rep_used [OF r(2), of b] by auto
    show "set (G y) \<inter> insert a (set (G (Mbox t m))) = {}" if "y \<noteq> Mbox t m" for y
      by (rule place_others [OF inv that]) (use a in auto)
  qed (use fr in auto)
  then show ?thesis using r(1) st ev by (auto simp: heap_step_def)
qed

lemma gki_send_msg_refused:
  assumes inv: "gki_inv s qs F G" and h: "heap s a = Some h" "h_status h \<noteq> BUF_STATUS_UNLINKED"
    and t: "t < GKI_MAX_TASKS" "m < NUM_TASK_MBOX" "\<not> task_dead s t"
  shows "GKI_send_msg t m (buf_of a) s = Some (GKI_exception GKI_ERROR_SEND_MSG_BUF_LINKED s)"
  using gki_invD(2) [OF inv] h t by (simp add: GKI_send_msg_def heap_ok_def)

lemma gki_read_mbox_step:
  assumes inv: "gki_inv s qs F G" and alive: "t < GKI_MAX_TASKS \<longrightarrow> \<not> task_dead s t"
  shows "\<exists>r s'. GKI_read_mbox t m s = Some (r, s') \<and> locks s' = locks s
    \<and> (t < GKI_MAX_TASKS \<and> m < NUM_TASK_MBOX \<and> \<not> task_dead s t \<longrightarrow>
         r = (if G (Mbox t m) = [] then None else Some (buf_of (hd (G (Mbox t m)))))
         \<and> gki_inv s' qs F (G(Mbox t m := tl (G (Mbox t m)))))
    \<and> (GKI_MAX_TASKS \<le> t \<or> NUM_TASK_MBOX \<le> m \<longrightarrow> r = None \<and> s' = s)"
proof (cases "t < GKI_MAX_TASKS \<and> m < NUM_TASK_MBOX")
  case False
  then show ?thesis by (auto simp: GKI_read_mbox_def)
next
  case True
  with alive have t: "t < GKI_MAX_TASKS" "m < NUM_TASK_MBOX" "\<not> task_dead s t" by auto
  have q: "m_rep s (t, m) (G (Mbox t m))" using gki_invD(4) [OF inv, of "Mbox t m"] t by simp
  show ?thesis
  proof (cases "G (Mbox t m)")
    case Nil
    then have "G(Mbox t m := tl (G (Mbox t m))) = G" by auto
    then show ?thesis using GKI_read_mbox_empty [of s t m] q inv Nil t by auto
  next
    case (Cons a xs)
    then have q': "m_rep s (t, m) (a # xs)" using q by simp
    obtain s' where r: "GKI_read_mbox t m s = Some (Some (buf_of a), s')" "m_rep s' (t, m) xs"
      and st: "heap_step s {a} s'" and l: "buf_loose s' a"
      using GKI_read_mbox_ok [OF q'] by blast
    note fr = GKI_read_mbox_frame [OF r(1)]
    have "gki_inv s' qs F (G(Mbox t m := xs))"
    proof (rule place_step_m [OF inv st _ _ _ r(2)])
      show "map_option h_status (heap s b) \<noteq> Some BUF_STATUS_FREE
          \<and> map_option h_status (heap s' b) \<noteq> Some BUF_STATUS_FREE" if "b \<in> {a}" for b
        using that loose_used [OF l] m_rep_used [OF q', of b] by auto
      show "set (G y) \<inter> {a} = {}" if "y \<noteq> Mbox t m" for y
        by (rule place_others [OF inv that]) (use Cons in auto)
    qed (use Cons fr l in \<open>auto simp: buf_loose_def\<close>)
    then show ?thesis using r(1) st Cons t by (auto simp: heap_step_def)
  qed
qed

section \<open>Releasing\<close>

lemma free_step_damage:
  assumes "free_step s p a xs s'"
  shows "gki_chk_buf_damage (buf_of b) s' = gki_chk_buf_damage (buf_of b) s"
proof -
  have "map_option h_qid (heap s' b) = map_option h_qid (heap s b)" using assms by (simp add: free_step_def)
  then show ?thesis
    using assms
    by (cases "heap s b"; cases "heap s' b")
      (simp_all add: free_step_def gki_chk_buf_damage_def GKI_get_buf_size_def Let_def)
qed

lemma gki_freebuf_step:
  assumes inv: "gki_inv s qs F G" and h: "heap s a = Some h" "h_status h = BUF_STATUS_UNLINKED"
  shows "\<exists>s'. GKI_freebuf (Some (buf_of a)) s = Some s' \<and> locks s' = locks s
    \<and> gki_inv s' qs (F(h_qid h := F (h_qid h) @ [a])) G
    \<and> fq_cur (freeq s' (h_qid h)) = fq_cur (freeq s (h_qid h)) - 1"
proof -
  define p where "p = h_qid h"
  have p: "p < GKI_NUM_TOTAL_BUF_POOLS" "pool_start s p \<noteq> None"
    using gki_invD(2) [OF inv] h by (auto simp: heap_ok_def p_def)
  have l: "buf_loose s a" using heap_ok_loose [OF gki_invD(2) [OF inv] h(1)] h(2) by simp
  have pi: "pool_inv s p (F p)" using gki_invD(3) [OF inv p(1)] .
  obtain s' where r: "GKI_freebuf (Some (buf_of a)) s = Some s'" "pool_inv s' p (F p @ [a])"
    and fs: "free_step s p a (F p) s'" and c: "fq_cur (freeq s' p) = fq_cur (freeq s p) - 1"
    using GKI_freebuf_ok [OF pi l] h p by (auto simp: p_def)
  note fr = GKI_freebuf_frame [OF r(1)]
  have tb: "pool_list s' = pool_list s" "curr_total_no_of_pools s' = curr_total_no_of_pools s"
    "task_dead s' = task_dead s" "pool_start s' = pool_start s"
    using fr by (simp_all add: tables_def)
  have fq: "fq_size (freeq s' q) = fq_size (freeq s q)" "fq_total (freeq s' q) = fq_total (freeq s q)" for q
    using fs by (simp_all add: free_step_def)
  have qid: "map_option h_qid (heap s' b) = map_option h_qid (heap s b)" for b
    using fs by (simp add: free_step_def)
  have Fa: "free_view s b = Some (p, True)" if "b \<in> set (F p)" for b
    using pi that by (auto simp: pool_inv_def free_view_def)
  have hp: "heap s' b = heap s b" if "map_option h_status (heap s b) = Some BUF_STATUS_QUEUED" for b
  proof -
    have "b \<noteq> a" "b \<notin> set (F p)" using that Fa [of b] h by (auto simp: free_view_def)
    then show ?thesis using fs by (simp add: free_step_def)
  qed
  have "table_inv s'" using gki_invD(1) [OF inv] by (simp add: table_inv_def pool_ok_def fq tb)
  moreover have "heap_ok s'"
    unfolding heap_ok_def
  proof (intro allI impI)
    fix b h'
    assume "heap s' b = Some h'"
    then obtain k where "heap s b = Some k" "h_qid h' = h_qid k" using qid [of b] by (cases "heap s b") auto
    then show "h_qid h' < GKI_NUM_TOTAL_BUF_POOLS \<and> gki_chk_buf_damage (buf_of b) s' = Some False
        \<and> pool_start s' (h_qid h') \<noteq> None"
      using gki_invD(2) [OF inv] free_step_damage [OF fs] by (simp add: heap_ok_def tb)
  qed
  moreover have "pool_inv s' q ((F(p := F p @ [a])) q)" if "q < GKI_NUM_TOTAL_BUF_POOLS" for q
  proof (cases "q = p")
    case False
    have pq: "pool_inv s q (F q)" by (rule gki_invD(3) [OF inv that])
    have "pool_inv s' q (F q)"
    proof (rule pool_inv_frame [OF pq])
      show "freeq s' q = freeq s q" using fs False by (simp add: free_step_def)
      show "heap s' b = heap s b" if "b \<in> set (F q)" for b
      proof -
        have "free_view s b = Some (q, True)" using pq that by (auto simp: pool_inv_def free_view_def)
        then have "b \<noteq> a" "b \<notin> set (F p)" using Fa [of b] False h by (auto simp: free_view_def)
        then show ?thesis using fs by (simp add: free_step_def)
      qed
      have fv: "free_view s' b = free_view s b" if "b \<noteq> a" for b using fs that by (simp add: free_step_def)
      have "free_view s a \<noteq> Some (q, False)" using h False by (auto simp: free_view_def p_def)
      moreover obtain k where "heap s' a = Some k" "h_qid k = p" using qid [of a] h by (auto simp: p_def)
      then have "free_view s' a \<noteq> Some (q, False)" using False by (auto simp: free_view_def)
      ultimately have "free_view s' b = Some (q, False) \<longleftrightarrow> free_view s b = Some (q, False)" for b
        using fv [of b] by (cases "b = a") simp_all
      then show "owned s' q = owned s q" by (simp add: owned_view)
    qed (simp add: tb)
    then show ?thesis using False by simp
  qed (use r(2) in simp)
  moreover have "place_rep s' qs x (G x)" for x
  proof (rule place_rep_cong [OF gki_invD(4) [OF inv] _ tb(3)])
    show "place_ptrs s' qs x = place_ptrs s qs x" using fr by (cases x) simp_all
    show "heap s' b = heap s b" if "b \<in> set (G x)" for b
      using place_rep_status [OF gki_invD(4) [OF inv] that] by (rule hp)
  qed (rule free_step_damage [OF fs])
  moreover have "covered s' (F(p := F p @ [a])) G"
    unfolding covered_def
  proof (intro allI impI conjI)
    fix b k'
    assume k': "heap s' b = Some k'"
    then obtain k where k: "heap s b = Some k" "h_qid k' = h_qid k" using qid [of b] by (cases "heap s b") auto
    have sf: "(h_status k' = BUF_STATUS_FREE) = (h_status k = BUF_STATUS_FREE)" if "b \<noteq> a"
      using fs k k' that by (auto simp: free_step_def free_view_def)
    show "b \<in> set ((F(p := F p @ [a])) (h_qid k'))" if "h_status k' = BUF_STATUS_FREE"
    proof (cases "b = a")
      case True
      then show ?thesis using k h by (simp add: p_def)
    next
      case False
      then have "h_status k = BUF_STATUS_FREE" using sf that by simp
      then have "b \<in> set (F (h_qid k))" using gki_invD(6) [OF inv] k(1) by (simp add: covered_def)
      then show ?thesis using k(2) by (cases "h_qid k = p") simp_all
    qed
    show "\<exists>x. b \<in> set (G x)" if "h_status k' = BUF_STATUS_QUEUED"
    proof -
      have "b \<notin> set (F p @ [a])" using r(2) k' that by (auto simp: pool_inv_def)
      then have "heap s b = Some k'" using fs k' by (simp add: free_step_def)
      then show ?thesis using that gki_invD(6) [OF inv] by (auto simp: covered_def)
    qed
  qed
  ultimately have "gki_inv s' qs (F(p := F p @ [a])) G"
    using gki_invD(5) [OF inv] by (simp add: gki_inv_def)
  moreover have "locks s' = locks s" using fs by (simp add: free_step_def)
  ultimately show ?thesis using r(1) c by (simp add: p_def)
qed

text \<open>A second release, or the release of a queued buffer, is refused.\<close>

lemma gki_freebuf_refused:
  assumes inv: "gki_inv s qs F G" and h: "heap s a = Some h" "h_status h \<noteq> BUF_STATUS_UNLINKED"
  shows "GKI_freebuf (Some (buf_of a)) s = Some (GKI_exception GKI_ERROR_FREEBUF_BUF_LINKED s)"
  using gki_invD(2) [OF inv] h by (simp add: GKI_freebuf_def heap_ok_def)

end
