(* ===== verification/Gki_Getbuf.thy ===== *)
theory Gki_Getbuf
  imports Gki_Steps
begin

text \<open>
  The allocating calls under the invariant of the buffer system: a pool is given memory when it
  has none, a buffer is taken from the head of its free queue, and \<open>GKI_getbuf\<close> searches the pools.
\<close>

section \<open>A pool that can serve\<close>

text \<open>What an allocation does not change: buffers that exist, the sizes, the pool table.\<close>

definition grows :: "gki_com \<Rightarrow> gki_com \<Rightarrow> bool" where
  "grows s s' \<longleftrightarrow> (\<forall>a. heap s a \<noteq> None \<longrightarrow> heap s' a = heap s a) \<and> same_table s s' \<and> locks s' = locks s"

lemma pool_step_gki_inv:
  assumes inv: "gki_inv s qs F G" and p: "p < GKI_NUM_TOTAL_BUF_POOLS" and np: "pool_start s p = None"
    and st: "pool_step s p bs s'" and pi: "pool_inv s' p bs" and ps: "pool_start s' p \<noteq> None"
    and bs: "\<forall>b \<in> set bs. even b \<and> heap s b = None"
    and fq: "fq_size (freeq s' p) = fq_size (freeq s p)" "fq_total (freeq s' p) = fq_total (freeq s p)"
  shows "gki_inv s' qs (F(p := bs)) G \<and> grows s s'"
proof -
  have oth: "freeq s' q = freeq s q" "pool_start s' q = pool_start s q" if "q \<noteq> p" for q
    using st that by (simp_all add: pool_step_def)
  have hp: "heap s' b = heap s b" if "heap s b \<noteq> None" for b
  proof -
    have "b \<notin> set bs" using bs that by auto
    then show ?thesis using st by (simp add: pool_step_def)
  qed
  have sz: "fq_size (freeq s' q) = fq_size (freeq s q)" "fq_total (freeq s' q) = fq_total (freeq s q)" for q
    using oth fq by (cases "q = p"; simp)+
  have w: "words s' b = words s b \<or> words s' b = Some MAGIC_NO" for b using st by (simp add: pool_step_def)
  have tb: "pool_list s' = pool_list s" "curr_total_no_of_pools s' = curr_total_no_of_pools s"
    "task_dead s' = task_dead s" "task_q_first s' = task_q_first s" "task_q_last s' = task_q_last s"
    "pool_access_mask s' = pool_access_mask s" "locks s' = locks s"
    using st by (simp_all add: pool_step_def)
  have fv: "free_view s' b = (if b \<in> set bs then Some (p, True) else free_view s b)" for b
    using st by (auto simp: pool_step_def free_view_def)
  have ok: "pool_ok s p" using gki_invD(1) [OF inv] p by (simp add: table_inv_def)
  have old: "h_qid h < GKI_NUM_TOTAL_BUF_POOLS \<and> gki_chk_buf_damage (buf_of b) s = Some False
      \<and> pool_start s (h_qid h) \<noteq> None" if "heap s b = Some h" for b h
    using gki_invD(2) [OF inv] that by (simp add: heap_ok_def)
  have dmg: "gki_chk_buf_damage (buf_of b) s' = Some False" if b: "heap s b = Some h" for b h
  proof -
    have "gki_chk_buf_damage (buf_of b) s = Some False" using old [OF b] by simp
    then show ?thesis
      using b hp [of b] w [of "buf_of b + (if odd b then 0 else if h_qid h < GKI_NUM_TOTAL_BUF_POOLS
          then fq_size (freeq s (h_qid h)) else 0)"] sz
      by (auto simp: gki_chk_buf_damage_def GKI_get_buf_size_def Let_def split: if_splits Option.bind_splits)
  qed
  have "table_inv s'" using gki_invD(1) [OF inv] by (simp add: table_inv_def pool_ok_def sz tb)
  moreover have "heap_ok s'"
    unfolding heap_ok_def
  proof (intro allI impI)
    fix b h'
    assume h': "heap s' b = Some h'"
    show "h_qid h' < GKI_NUM_TOTAL_BUF_POOLS \<and> gki_chk_buf_damage (buf_of b) s' = Some False
        \<and> pool_start s' (h_qid h') \<noteq> None"
    proof (cases "b \<in> set bs")
      case True
      then have "h_qid h' = p" using fv [of b] h' by (simp add: free_view_def)
      moreover have "even (buf_of b + fq_size (freeq s p))" "even b"
        using True bs ok by (auto simp: pool_ok_def buf_of_def BUFFER_HDR_SIZE_def)
      moreover have "words s' (buf_of b + fq_size (freeq s' p)) = Some MAGIC_NO"
        using st True by (simp add: pool_step_def)
      ultimately show ?thesis
        using p ps h' by (simp add: gki_chk_buf_damage_def GKI_get_buf_size_def fq)
    next
      case False
      then have h: "heap s b = Some h'" using st h' by (simp add: pool_step_def)
      then have "h_qid h' \<noteq> p" using old [OF h] np by auto
      then show ?thesis using old [OF h] dmg [OF h] oth(2) by simp
    qed
  qed
  moreover have "pool_inv s' q ((F(p := bs)) q)" if q: "q < GKI_NUM_TOTAL_BUF_POOLS" for q
  proof (cases "q = p")
    case False
    have pq: "pool_inv s q (F q)" by (rule gki_invD(3) [OF inv q])
    have "pool_inv s' q (F q)"
    proof (rule pool_inv_frame [OF pq oth(1) [OF False] oth(2) [OF False]])
      show "heap s' b = heap s b" if "b \<in> set (F q)" for b
        using pq that by (intro hp) (auto simp: pool_inv_def)
      have "free_view s b = None" if "b \<in> set bs" for b using bs that by (simp add: free_view_def)
      then show "owned s' q = owned s q" using False by (auto simp: owned_view fv)
    qed
    then show ?thesis using False by simp
  qed (use pi in simp)
  moreover have "place_rep s' qs x (G x)" for x
  proof (rule place_rep_cong [OF gki_invD(4) [OF inv] _ tb(3)])
    show "place_ptrs s' qs x = place_ptrs s qs x" by (cases x) (simp_all add: tb)
    fix b
    assume "b \<in> set (G x)"
    then obtain h where h: "heap s b = Some h" using place_rep_status [OF gki_invD(4) [OF inv]] by blast
    then show "heap s' b = heap s b" by (simp add: hp)
    show "gki_chk_buf_damage (buf_of b) s' = gki_chk_buf_damage (buf_of b) s"
      using dmg [OF h] old [OF h] by simp
  qed
  moreover have "covered s' (F(p := bs)) G"
    unfolding covered_def
  proof (intro allI impI)
    fix b k
    assume k: "heap s' b = Some k"
    show "(h_status k = BUF_STATUS_FREE \<longrightarrow> b \<in> set ((F(p := bs)) (h_qid k)))
      \<and> (h_status k = BUF_STATUS_QUEUED \<longrightarrow> (\<exists>x. b \<in> set (G x)))"
    proof (cases "b \<in> set bs")
      case True
      then show ?thesis using fv [of b] k by (simp add: free_view_def)
    next
      case False
      then have h: "heap s b = Some k" using st k by (simp add: pool_step_def)
      then have "h_qid k \<noteq> p" using old [OF h] np by auto
      then show ?thesis using gki_invD(6) [OF inv] h by (simp add: covered_def)
    qed
  qed
  ultimately have "gki_inv s' qs (F(p := bs)) G"
    using gki_invD(5) [OF inv] by (simp add: gki_inv_def)
  moreover have "grows s s'" using hp sz tb by (simp add: grows_def same_table_def)
  ultimately show ?thesis ..
qed


text \<open>The first half of an allocation: the pool gets memory if it has none and can have some.\<close>

definition provide :: "(nat \<Rightarrow> ptr) \<Rightarrow> nat \<Rightarrow> gki_com \<Rightarrow> (bool \<times> gki_com) option" where
  "provide mal p s = (if fq_first (freeq s p) = None then gki_alloc_free_queue mal p s else Some (True, s))"

lemma gki_supply:
  assumes inv: "gki_inv s qs F G" and p: "p < GKI_NUM_TOTAL_BUF_POOLS" and pl: "pool_list s p = p"
    and c: "fq_cur (freeq s p) < fq_total (freeq s p)" and fr: "mal_fresh mal s"
  shows "\<exists>ok s1 F1. provide mal p s = Some (ok, s1) \<and> gki_inv s1 qs F1 G \<and> grows s s1
    \<and> (if ok then F1 p \<noteq> [] else F1 = F \<and> fq_first (freeq s p) = None \<and> mal (pool_bytes s p) = None)
    \<and> (\<forall>b \<in> set (F1 p). b \<in> set (F p) \<or> heap s b = None)"
proof -
  have pi: "pool_inv s p (F p)" by (rule gki_invD(3) [OF inv p])
  have ff: "fq_first (freeq s p) = None \<longleftrightarrow> F p = []"
    using pi seg_first [of "heap s" "fq_first (freeq s p)" "F p" None] by (auto simp: pool_inv_def)
  have refl: "grows s s" by (simp add: grows_def)
  show ?thesis
  proof (cases "F p = []")
    case False
    then show ?thesis using inv ff refl by (intro exI [of _ True] exI [of _ s] exI [of _ F]) (auto simp: provide_def)
  next
    case True
    have np: "pool_start s p = None"
    proof (rule ccontr)
      assume "pool_start s p \<noteq> None"
      then have "fq_cur (freeq s p) + length (F p) = fq_total (freeq s p)" using pi by (auto simp: pool_inv_def)
      then show False using c True by simp
    qed
    show ?thesis
    proof (cases "mal (pool_bytes s p)")
      case None
      then have "provide mal p s = Some (False, GKI_exception GKI_ERROR_BUF_SIZE_TOOBIG s)"
        using ff True pl by (simp add: provide_def gki_alloc_free_queue_def pool_bytes_def Let_def)
      then show ?thesis
        using inv ff True None
        by (intro exI [of _ False] exI [of _ "GKI_exception GKI_ERROR_BUF_SIZE_TOOBIG s"] exI [of _ F])
          (simp add: GKI_exception_def grows_def same_table_def)
    next
      case (Some m)
      have ok: "pool_ok s p" using gki_invD(1) [OF inv] p by (simp add: table_inv_def)
      obtain s1 bs where r: "gki_alloc_free_queue mal p s = Some (True, s1)" "pool_inv s1 p bs" "bs \<noteq> []"
        "pool_step s p bs s1" "pool_start s1 p \<noteq> None" "\<forall>b \<in> set bs. even b \<and> heap s b = None"
        "fq_size (freeq s1 p) = fq_size (freeq s p)" "fq_total (freeq s1 p) = fq_total (freeq s p)"
        using gki_alloc_free_queue_ok [OF _ np ok pl _ fr Some] pi True c by auto
      have "gki_inv s1 qs (F(p := bs)) G \<and> grows s s1"
        by (rule pool_step_gki_inv [OF inv p np r(4,2,5,6,7,8)])
      then show ?thesis
        using r ff True by (intro exI [of _ True] exI [of _ s1] exI [of _ "F(p := bs)"]) (simp add: provide_def)
    qed
  qed
qed

lemma take_first_frame:
  "take_first tid p s = Some (a, s') \<Longrightarrow>
     tables s' = tables s \<and> task_q_first s' = task_q_first s \<and> task_q_last s' = task_q_last s"
  by (auto simp: take_first_def hdr_upd_eq Let_def split: op_split)

lemma gki_take:
  assumes inv: "gki_inv s qs F G" and p: "p < GKI_NUM_TOTAL_BUF_POOLS" and F: "F p = a # xs"
  shows "\<exists>s'. take_first tid p s = Some (a, s') \<and> gki_inv s' qs (F(p := xs)) G \<and> alloc_step s p tid a s'
    \<and> buf_loose s' a"
proof -
  have pi: "pool_inv s p (a # xs)" using gki_invD(3) [OF inv p] F by simp
  obtain s' where r: "take_first tid p s = Some (a, s')" "pool_inv s' p xs" "alloc_step s p tid a s'"
    using take_first_ok [OF pi] by blast
  note fr = take_first_frame [OF r(1)]
  obtain h where h: "heap s a = Some h" "h_qid h = p" "h_status h = BUF_STATUS_FREE"
    using pi by (auto simp: pool_inv_def)
  then have fva: "free_view s a = Some (p, True)" by (simp add: free_view_def)
  have hp: "heap s' b = heap s b" if "b \<noteq> a" for b using r(3) that by (simp add: alloc_step_def)
  have qid: "map_option h_qid (heap s' b) = map_option h_qid (heap s b)" for b
    using r(3) h by (simp add: alloc_step_def)
  have sz: "fq_size (freeq s' q) = fq_size (freeq s q)" "fq_total (freeq s' q) = fq_total (freeq s q)" for q
    using r(3) by (cases "q = p"; simp add: alloc_step_def)+
  have tb: "pool_list s' = pool_list s" "curr_total_no_of_pools s' = curr_total_no_of_pools s"
    "task_dead s' = task_dead s" "pool_start s' = pool_start s"
    using fr by (simp_all add: tables_def)
  have dmg: "gki_chk_buf_damage (buf_of b) s' = gki_chk_buf_damage (buf_of b) s" for b
    by (rule alloc_step_damage [OF r(3)]) (simp add: h)
  have "table_inv s'" using gki_invD(1) [OF inv] by (simp add: table_inv_def pool_ok_def sz tb)
  moreover have "heap_ok s'"
    unfolding heap_ok_def
  proof (intro allI impI)
    fix b h'
    assume "heap s' b = Some h'"
    then obtain k where "heap s b = Some k" "h_qid h' = h_qid k" using qid [of b] by (cases "heap s b") auto
    then show "h_qid h' < GKI_NUM_TOTAL_BUF_POOLS \<and> gki_chk_buf_damage (buf_of b) s' = Some False
        \<and> pool_start s' (h_qid h') \<noteq> None"
      using gki_invD(2) [OF inv] by (simp add: heap_ok_def dmg tb)
  qed
  moreover have "pool_inv s' q ((F(p := xs)) q)" if "q < GKI_NUM_TOTAL_BUF_POOLS" for q
    using r(2) alloc_step_pool_inv [OF r(3) gki_invD(3) [OF inv that] _ fva] by (cases "q = p") simp_all
  moreover have "place_rep s' qs x (G x)" for x
  proof (rule place_rep_cong [OF gki_invD(4) [OF inv] _ tb(3) _ dmg])
    show "place_ptrs s' qs x = place_ptrs s qs x" using fr by (cases x) simp_all
    show "heap s' b = heap s b" if "b \<in> set (G x)" for b
      using place_rep_status [OF gki_invD(4) [OF inv] that] h by (intro hp) auto
  qed
  moreover have "covered s' (F(p := xs)) G"
    unfolding covered_def
  proof (intro allI impI)
    fix b k
    assume k: "heap s' b = Some k"
    show "(h_status k = BUF_STATUS_FREE \<longrightarrow> b \<in> set ((F(p := xs)) (h_qid k)))
      \<and> (h_status k = BUF_STATUS_QUEUED \<longrightarrow> (\<exists>x. b \<in> set (G x)))"
    proof (cases "b = a")
      case True
      then show ?thesis using r(3) k by (auto simp: alloc_step_def)
    next
      case False
      then have "heap s b = Some k" using hp k by simp
      then have "(h_status k = BUF_STATUS_FREE \<longrightarrow> b \<in> set (F (h_qid k)))
        \<and> (h_status k = BUF_STATUS_QUEUED \<longrightarrow> (\<exists>x. b \<in> set (G x)))"
        using gki_invD(6) [OF inv] by (simp add: covered_def)
      then show ?thesis using F False by (cases "h_qid k = p") simp_all
    qed
  qed
  ultimately have g: "gki_inv s' qs (F(p := xs)) G" using gki_invD(5) [OF inv] by (simp add: gki_inv_def)
  have "heap s' a = Some \<lparr>h_next = None, h_qid = p, h_task = tid, h_status = BUF_STATUS_UNLINKED, h_type = 0\<rparr>"
    using r(3) by (simp add: alloc_step_def)
  then have "buf_loose s' a" using heap_ok_loose [OF gki_invD(2) [OF g]] by simp
  then show ?thesis using r g by blast
qed

text \<open>
  \<open>GKI_getpoolbuf\<close> and \<open>GKI_getbuf\<close>: which pool serves a request, and when a request fails.
\<close>

section \<open>A buffer from a given pool\<close>

text \<open>\<open>got\<close>: the buffer \<open>a\<close> of pool \<open>p\<close>, free or non-existent before, is now in the hands of task \<open>tid\<close>.\<close>

definition got :: "gki_com \<Rightarrow> (nat \<Rightarrow> nat list) \<Rightarrow> nat \<Rightarrow> nat \<Rightarrow> nat \<Rightarrow> gki_com \<Rightarrow> bool" where
  "got s F tid p a s' \<longleftrightarrow> buf_loose s' a \<and> map_option h_qid (heap s' a) = Some p
     \<and> map_option h_task (heap s' a) = Some tid \<and> (a \<in> set (F p) \<or> heap s a = None)
     \<and> (\<forall>b. b \<noteq> a \<longrightarrow> heap s b \<noteq> None \<longrightarrow> heap s' b = heap s b)
     \<and> same_table s s' \<and> locks s' = locks s"

lemma grows_got:
  assumes g: "grows s s1" and st: "alloc_step s1 p tid a s2" and l: "buf_loose s2 a"
    and a: "a \<in> set (F p) \<or> heap s a = None"
  shows "got s F tid p a s2"
proof -
  have "heap s2 b = heap s b" if "b \<noteq> a" "heap s b \<noteq> None" for b
    using g st that by (simp add: grows_def alloc_step_def)
  moreover have "fq_size (freeq s2 q) = fq_size (freeq s q) \<and> fq_total (freeq s2 q) = fq_total (freeq s q)" for q
    using g st by (cases "q = p") (simp_all add: grows_def alloc_step_def same_table_def)
  then have "same_table s s2" using g st by (simp add: grows_def alloc_step_def same_table_def)
  moreover have "locks s2 = locks s" using g st by (simp add: grows_def alloc_step_def)
  ultimately show ?thesis using st l a by (simp add: got_def alloc_step_def)
qed

lemma gki_obtain:
  assumes inv: "gki_inv s qs F G" and p: "p < GKI_NUM_TOTAL_BUF_POOLS" and pl: "pool_list s p = p"
    and c: "fq_cur (freeq s p) < fq_total (freeq s p)" and fr: "mal_fresh mal s"
  shows "(\<exists>s1. provide mal p s = Some (False, s1) \<and> gki_inv s1 qs F G \<and> grows s s1
        \<and> fq_first (freeq s p) = None \<and> mal (pool_bytes s p) = None)
    \<or> (\<exists>s1 a s2 F2. provide mal p s = Some (True, s1) \<and> fq_first (freeq s1 p) \<noteq> None
        \<and> take_first tid p s1 = Some (a, s2) \<and> gki_inv s2 qs F2 G \<and> got s F tid p a s2
        \<and> (fq_first (freeq s p) = None \<longrightarrow> mal (pool_bytes s p) \<noteq> None))"
proof -
  obtain ok s1 F1 where r: "provide mal p s = Some (ok, s1)" "gki_inv s1 qs F1 G" "grows s s1"
    and o: "if ok then F1 p \<noteq> [] else F1 = F \<and> fq_first (freeq s p) = None \<and> mal (pool_bytes s p) = None"
    and b: "\<forall>b \<in> set (F1 p). b \<in> set (F p) \<or> heap s b = None"
    using gki_supply [OF inv p pl c fr] by blast
  show ?thesis
  proof (cases ok)
    case False
    then show ?thesis using r o by auto
  next
    case True
    then obtain a xs where F1: "F1 p = a # xs" using o by (cases "F1 p") auto
    obtain s2 where t: "take_first tid p s1 = Some (a, s2)" "gki_inv s2 qs (F1(p := xs)) G"
      "alloc_step s1 p tid a s2" "buf_loose s2 a"
      using gki_take [OF r(2) p F1] by blast
    have g: "got s F tid p a s2" by (rule grows_got [OF r(3) t(3,4)]) (use b F1 in auto)
    have f1: "fq_first (freeq s1 p) \<noteq> None" using gki_invD(3) [OF r(2) p] F1 by (simp add: pool_inv_def)
    have "fq_first (freeq s p) = None \<longrightarrow> mal (pool_bytes s p) \<noteq> None"
      using r(1) True pl by (auto simp: provide_def gki_alloc_free_queue_def pool_bytes_def Let_def split: option.splits)
    moreover have "provide mal p s = Some (True, s1)" using r(1) True by simp
    ultimately show ?thesis
      using t(1,2) g f1
      by (intro disjI2 exI [of _ s1] exI [of _ a] exI [of _ s2] exI [of _ "F1(p := xs)"]) simp
  qed
qed

lemma same_table_locks [simp]:
  "same_table (GKI_disable s) s' = same_table s s'" "same_table s (GKI_enable s') = same_table s s'"
  "same_table s (GKI_exception e s') = same_table s s'"
  by (auto simp: same_table_def GKI_disable_def GKI_enable_def GKI_exception_def)

lemma got_same_table: "got s F tid p a s' \<Longrightarrow> same_table s s'"
  by (simp add: got_def)

lemma exception_locks [simp]: "locks (GKI_exception e s) = locks s"
  by (simp add: GKI_exception_def)

lemma enable_disable [simp]: "GKI_enable (GKI_disable s) = s"
  by (simp add: GKI_enable_def GKI_disable_def)

lemma pool_bytes_disable [simp]: "pool_bytes (GKI_disable s) p = pool_bytes s p"
  by (simp add: pool_bytes_def)

lemma gki_inv_locks [simp]:
  "gki_inv (GKI_disable s) qs F G = gki_inv s qs F G" "gki_inv (GKI_enable s) qs F G = gki_inv s qs F G"
  "gki_inv (GKI_exception e s) qs F G = gki_inv s qs F G"
  by (simp_all add: GKI_disable_def GKI_enable_def GKI_exception_def)

lemma mal_fresh_disable [simp]: "mal_fresh mal (GKI_disable s) = mal_fresh mal s"
  by (simp add: mal_fresh_def)

lemma got_enable [simp]: "got (GKI_disable s) F tid p a s' \<Longrightarrow> got s F tid p a (GKI_enable s')"
proof -
  assume g: "got (GKI_disable s) F tid p a s'"
  have "gki_chk_buf_damage (buf_of a) (GKI_enable s') = gki_chk_buf_damage (buf_of a) s'"
    by (rule damage_cong) simp_all
  moreover have "same_table s (GKI_enable s')" using g by (simp add: got_def)
  ultimately show ?thesis using g by (simp add: got_def buf_loose_def)
qed

section \<open>GKI_getbuf\<close>

definition avail :: "gki_com \<Rightarrow> nat \<Rightarrow> bool" where
  "avail s p \<longleftrightarrow> \<not> restricted p s \<and> fq_cur (freeq s p) < fq_total (freeq s p)"

text \<open>The search skips restricted and exhausted pools.\<close>

lemma getbuf_loop_skip:
  assumes "\<forall>q. i \<le> q \<and> q < j \<longrightarrow> \<not> avail s q" "\<forall>q < curr_total_no_of_pools s. pool_list s q = q"
    and "i \<le> j" "j \<le> curr_total_no_of_pools s"
  shows "getbuf_loop mal tid i s = getbuf_loop mal tid j s"
  using assms
proof (induction "j - i" arbitrary: i)
  case (Suc d)
  then have n: "i < j" "i < curr_total_no_of_pools s" "pool_list s i = i" "\<not> avail s i" by auto
  have "getbuf_loop mal tid i s = getbuf_loop mal tid (i + 1) s"
    using n by (subst getbuf_loop.simps) (auto simp: avail_def Let_def)
  also have "\<dots> = getbuf_loop mal tid j s" using Suc by (intro Suc.hyps) auto
  finally show ?case .
qed simp

lemma getbuf_loop_serve:
  assumes "p < curr_total_no_of_pools s" "pool_list s p = p" "avail s p"
  shows "getbuf_loop mal tid p s = Option.bind (provide mal p s) (\<lambda>(ok, s1).
     if \<not> ok then Some (None, GKI_enable s1)
     else if fq_first (freeq s1 p) = None then Some (None, GKI_enable s1)
     else Option.bind (take_first tid p s1) (\<lambda>(a, s2). Some (Some (buf_of a), GKI_enable s2)))"
  using assms by (subst getbuf_loop.simps) (simp add: avail_def provide_def Let_def)

definition serves :: "gki_com \<Rightarrow> nat \<Rightarrow> nat \<Rightarrow> bool" where
  "serves s i p \<longleftrightarrow> i \<le> p \<and> p < curr_total_no_of_pools s \<and> avail s p \<and> (\<forall>q. i \<le> q \<and> q < p \<longrightarrow> \<not> avail s q)"

lemma serves_or_none:
  "(\<exists>p. serves s i p) \<or> (\<forall>q. i \<le> q \<and> q < curr_total_no_of_pools s \<longrightarrow> \<not> avail s q)"
proof (cases "\<exists>q. i \<le> q \<and> q < curr_total_no_of_pools s \<and> avail s q")
  case True
  define p where "p = (LEAST q. i \<le> q \<and> q < curr_total_no_of_pools s \<and> avail s q)"
  have "i \<le> p \<and> p < curr_total_no_of_pools s \<and> avail s p" unfolding p_def by (rule LeastI_ex [OF True])
  moreover have "\<not> avail s q" if "i \<le> q" "q < p" for q
    using that not_less_Least [of q "\<lambda>q. i \<le> q \<and> q < curr_total_no_of_pools s \<and> avail s q"] calculation
    by (auto simp: p_def)
  ultimately show ?thesis by (auto simp: serves_def)
qed auto

lemma hd_filter_upt:
  "filter P [0..<n] \<noteq> [] \<Longrightarrow>
     hd (filter P [0..<n]) < n \<and> P (hd (filter P [0..<n])) \<and> (\<forall>q < hd (filter P [0..<n]). \<not> P q)"
proof (induction n)
  case (Suc n)
  show ?case
  proof (cases "filter P [0..<n] = []")
    case True
    then have "P n" "\<forall>q < n. \<not> P q" using Suc.prems by (auto simp: filter_empty_conv split: if_splits)
    then show ?thesis using True by simp
  next
    case False
    define h where "h = hd (filter P [0..<n])"
    have "hd (filter P [0..<Suc n]) = h" using False by (simp add: h_def)
    moreover have "h < n \<and> P h \<and> (\<forall>q < h. \<not> P q)" unfolding h_def by (rule Suc.IH [OF False])
    ultimately show ?thesis by (simp only:) simp
  qed
qed simp

lemma first_fit_spec:
  "first_fit sz s \<le> curr_total_no_of_pools s
   \<and> (\<forall>q < first_fit sz s. fq_size (freeq s (pool_list s q)) < sz)
   \<and> (first_fit sz s < curr_total_no_of_pools s \<longrightarrow> sz \<le> fq_size (freeq s (pool_list s (first_fit sz s))))"
proof -
  define P where "P i \<longleftrightarrow> sz \<le> fq_size (freeq s (pool_list s i))" for i
  define n where "n = curr_total_no_of_pools s"
  have ff: "first_fit sz s = (if filter P [0..<n] = [] then n else hd (filter P [0..<n]))"
    by (simp only: first_fit_def Let_def P_def [abs_def] n_def)
  show ?thesis
  proof (cases "filter P [0..<n] = []")
    case True
    then have "first_fit sz s = n" using ff by simp
    moreover have "\<forall>q < n. \<not> P q" using True by (auto simp: filter_empty_conv)
    ultimately show ?thesis by (simp add: P_def n_def not_le)
  next
    case False
    define h where "h = hd (filter P [0..<n])"
    have "first_fit sz s = h" using False ff by (simp only: h_def if_False)
    moreover have "h < n \<and> P h \<and> (\<forall>q < h. \<not> P q)" unfolding h_def by (rule hd_filter_upt [OF False])
    ultimately show ?thesis by (simp add: P_def n_def not_le)
  qed
qed

text \<open>
  The whole call: which pool serves a request of \<open>sz\<close> bytes is determined by the pool table; the
  request fails when it is empty, when no pool is large enough, when no public pool from the first
  large enough one on has a buffer left, or when \<open>malloc\<close> fails for the pool that would serve it.
\<close>

theorem gki_getbuf_step:
  assumes inv: "gki_inv s qs F G" and fr: "mal_fresh mal s"
  defines "n \<equiv> curr_total_no_of_pools s"
  shows "\<exists>r s' F'. GKI_getbuf mal tid sz s = Some (r, s') \<and> gki_inv s' qs F' G \<and> locks s' = locks s
    \<and> same_table s s'
    \<and> (case r of
         None \<Rightarrow> F' = F \<and> (sz = 0 \<or> first_fit sz s = n
           \<or> (\<forall>q. first_fit sz s \<le> q \<and> q < n \<longrightarrow> \<not> avail s q)
           \<or> (\<exists>p. serves s (first_fit sz s) p \<and> mal (pool_bytes s p) = None))
       | Some b \<Rightarrow> 0 < sz \<and> first_fit sz s < n
           \<and> (\<exists>a p. b = buf_of a \<and> serves s (first_fit sz s) p \<and> got s F tid p a s'))"
proof -
  let ?i = "first_fit sz s"
  let ?s = "GKI_disable s"
  have tab: "\<forall>q < n. pool_list s q = q" "n \<le> GKI_NUM_TOTAL_BUF_POOLS"
    using gki_invD(1) [OF inv] by (simp_all add: table_inv_def n_def)
  have le: "?i \<le> n" using first_fit_spec [of sz s] by (simp add: n_def)
  have av: "avail ?s q = avail s q" for q by (simp add: avail_def restricted_def)
  consider "sz = 0" | "0 < sz" "?i = n" | "0 < sz" "?i < n" using le by linarith
  then show ?thesis
  proof cases
    case 1
    then show ?thesis using inv by (auto simp: GKI_getbuf_def)
  next
    case 2
    then show ?thesis using inv by (auto simp: GKI_getbuf_def n_def)
  next
    case 3
    have e: "GKI_getbuf mal tid sz s = getbuf_loop mal tid ?i ?s" using 3 by (simp add: GKI_getbuf_def n_def)
    show ?thesis
    proof (cases "\<forall>q. ?i \<le> q \<and> q < n \<longrightarrow> \<not> avail s q")
      case True
      have "getbuf_loop mal tid ?i ?s = getbuf_loop mal tid n ?s"
        using True tab le by (intro getbuf_loop_skip) (simp_all add: av n_def)
      also have "\<dots> = Some (None, s)" by (subst getbuf_loop.simps) (simp add: n_def)
      finally show ?thesis using inv e True by auto
    next
      case False
      then obtain p where p: "serves s ?i p" using serves_or_none [of s ?i] by (auto simp: n_def)
      then have pn: "p < n" "avail s p" by (simp_all add: serves_def n_def)
      have "getbuf_loop mal tid ?i ?s = getbuf_loop mal tid p ?s"
        using p tab by (intro getbuf_loop_skip) (auto simp: av n_def serves_def)
      also have "\<dots> = Option.bind (provide mal p ?s) (\<lambda>(ok, s1).
         if \<not> ok then Some (None, GKI_enable s1)
         else if fq_first (freeq s1 p) = None then Some (None, GKI_enable s1)
         else Option.bind (take_first tid p s1) (\<lambda>(a, s2). Some (Some (buf_of a), GKI_enable s2)))"
        by (rule getbuf_loop_serve) (use pn tab av in \<open>simp_all add: n_def\<close>)
      finally have e': "GKI_getbuf mal tid sz s = \<dots>" using e by simp
      consider (fail) s1 where "provide mal p ?s = Some (False, s1)" "gki_inv s1 qs F G" "grows ?s s1"
          "mal (pool_bytes s p) = None"
        | (ok) s1 a s2 F2 where "provide mal p ?s = Some (True, s1)" "fq_first (freeq s1 p) \<noteq> None"
          "take_first tid p s1 = Some (a, s2)" "gki_inv s2 qs F2 G" "got ?s F tid p a s2"
        using gki_obtain [of ?s qs F G p mal tid] inv fr tab pn by (auto simp: avail_def)
      then show ?thesis
      proof cases
        case fail
        have "GKI_getbuf mal tid sz s = Some (None, GKI_enable s1)" using e' fail(1) by simp
        moreover have "locks (GKI_enable s1) = locks s" using fail(3) by (simp add: grows_def)
        moreover have "same_table s s1" using fail(3) by (simp add: grows_def)
        ultimately show ?thesis using fail(2,4) p by auto
      next
        case ok
        have "GKI_getbuf mal tid sz s = Some (Some (buf_of a), GKI_enable s2)" using e' ok by auto
        moreover have "got s F tid p a (GKI_enable s2)" using ok(5) by (rule got_enable)
        ultimately show ?thesis using ok(4) p 3 got_same_table [OF ok(5)] by (auto simp: got_def)
      qed
    qed
  qed
qed

text \<open>
  From a given pool: its own buffers first, then the search by size. When \<open>malloc\<close> fails the call
  returns with the lock still held.
\<close>

theorem gki_getpoolbuf_step:
  assumes inv: "gki_inv s qs F G" and fr: "mal_fresh mal s"
    and p: "p < GKI_NUM_TOTAL_BUF_POOLS" and pl: "pool_list s p = p"
    and c: "fq_cur (freeq s p) < fq_total (freeq s p)"
  shows "\<exists>r s' F'. GKI_getpoolbuf mal tid p s = Some (r, s') \<and> gki_inv s' qs F' G \<and> same_table s s'
    \<and> (case r of None \<Rightarrow> F' = F \<and> F p = [] \<and> mal (pool_bytes s p) = None \<and> locks s' = locks s + 1
       | Some b \<Rightarrow> \<exists>a. b = buf_of a \<and> got s F tid p a s')"
proof -
  let ?s = "GKI_disable s"
  have e: "GKI_getpoolbuf mal tid p s = Option.bind (provide mal p ?s) (\<lambda>(ok, s1).
         if \<not> ok then Some (None, s1)
         else if fq_first (freeq s1 p) = None then Some (None, s1)
         else Option.bind (take_first tid p s1) (\<lambda>(a, s2). Some (Some (buf_of a), GKI_enable s2)))"
    using p c by (simp add: GKI_getpoolbuf_def provide_def Let_def)
  have ff: "fq_first (freeq s p) = None \<longleftrightarrow> F p = []"
    using gki_invD(3) [OF inv p] seg_first [of "heap s" "fq_first (freeq s p)" "F p" None] by (auto simp: pool_inv_def)
  consider (fail) s1 where "provide mal p ?s = Some (False, s1)" "gki_inv s1 qs F G" "grows ?s s1"
      "fq_first (freeq s p) = None" "mal (pool_bytes s p) = None"
    | (ok) s1 a s2 F2 where "provide mal p ?s = Some (True, s1)" "fq_first (freeq s1 p) \<noteq> None"
      "take_first tid p s1 = Some (a, s2)" "gki_inv s2 qs F2 G" "got ?s F tid p a s2"
    using gki_obtain [of ?s qs F G p mal tid] inv fr p pl c by auto
  then show ?thesis
  proof cases
    case fail
    then show ?thesis using e ff by (auto simp: grows_def)
  next
    case ok
    have "GKI_getpoolbuf mal tid p s = Some (Some (buf_of a), GKI_enable s2)" using e ok by auto
    moreover have "got s F tid p a (GKI_enable s2)" using ok(5) by (rule got_enable)
    ultimately show ?thesis using ok(4) got_same_table [OF ok(5)] by auto
  qed
qed

lemma gki_getpoolbuf_exhausted:
  "p < GKI_NUM_TOTAL_BUF_POOLS \<Longrightarrow> fq_total (freeq s p) \<le> fq_cur (freeq s p) \<Longrightarrow>
     GKI_getpoolbuf mal tid p s = GKI_getbuf mal tid (fq_size (freeq s p)) s"
  by (simp add: GKI_getpoolbuf_def Let_def)

end
