(* ===== verification/Gki_Reach.thy ===== *)
theory Gki_Reach
  imports Gki_Getbuf
begin

text \<open>
  The start-up state, the calls of the interface as a step relation, and the reachable states.
\<close>

section \<open>Start-up\<close>

lemma init_none:
  "gki_init_free_queue p sz n None s = Some (fq_upd p (\<lambda>Q. Q\<lparr>fq_size := ALIGN_POOL sz mod 65536,
     fq_total := n, fq_cur := 0, fq_max := 0\<rparr>)
     (s\<lparr>pool_size := (pool_size s)(p := (ALIGN_POOL sz + BUFFER_PADDING_SIZE) mod 65536)\<rparr>))"
  by (simp add: gki_init_free_queue_def Let_def)

text \<open>The entry of pool \<open>i\<close> after start-up.\<close>

definition fixed_fq :: "nat \<Rightarrow> free_queue" where
  "fixed_fq i = (if i < GKI_NUM_FIXED_BUF_POOLS
     then empty_fq\<lparr>fq_size := ALIGN_POOL (fst (fixed_pools ! i)) mod 65536, fq_total := snd (fixed_pools ! i)\<rparr>
     else empty_fq)"

lemma init_fixed_fold:
  assumes "n \<le> GKI_NUM_FIXED_BUF_POOLS" "\<And>i. freeq s i = empty_fq"
  shows "\<exists>s'. fold init_fixed [0..<n] (Some s) = Some s' \<and> heap s' = heap s \<and> words s' = words s
    \<and> (\<forall>i. freeq s' i = (if i < n then fixed_fq i else empty_fq)) \<and> tables s' = tables s
    \<and> task_q_first s' = task_q_first s \<and> task_q_last s' = task_q_last s \<and> locks s' = locks s"
  using assms(1)
proof (induction n)
  case 0
  then show ?case by (simp add: assms)
next
  case (Suc n)
  then obtain s1 where 1: "fold init_fixed [0..<n] (Some s) = Some s1" "heap s1 = heap s" "words s1 = words s"
    "\<forall>i. freeq s1 i = (if i < n then fixed_fq i else empty_fq)" "tables s1 = tables s"
    "task_q_first s1 = task_q_first s" "task_q_last s1 = task_q_last s" "locks s1 = locks s" by auto
  have f: "fixed_fq n = empty_fq\<lparr>fq_size := ALIGN_POOL (fst (fixed_pools ! n)) mod 65536,
      fq_total := snd (fixed_pools ! n), fq_cur := 0, fq_max := 0\<rparr>"
    using Suc.prems by (simp add: fixed_fq_def empty_fq_def)
  have t: "tables (s1\<lparr>pool_size := z\<rparr>) = tables s1" for z by (simp add: tables_def)
  have "fold init_fixed [0..<Suc n] (Some s) = init_fixed n (Some s1)" using 1(1) by simp
  also have "\<dots> = Some (fq_upd n (\<lambda>Q. Q\<lparr>fq_size := ALIGN_POOL (fst (fixed_pools ! n)) mod 65536,
     fq_total := snd (fixed_pools ! n), fq_cur := 0, fq_max := 0\<rparr>)
     (s1\<lparr>pool_size := (pool_size s1)(n := (ALIGN_POOL (fst (fixed_pools ! n)) + BUFFER_PADDING_SIZE) mod 65536)\<rparr>))"
    (is "_ = Some ?s2") by (simp add: init_fixed_def init_none)
  finally have "fold init_fixed [0..<Suc n] (Some s) = Some ?s2" .
  then show ?case
    using 1(2-) f by (intro exI [of _ ?s2]) (simp add: less_Suc_eq t)
qed

lemma gki_buffer_init_ok:
  "\<exists>s'. gki_buffer_init s = Some s' \<and> heap s' = heap s \<and> words s' = words s \<and> locks s' = locks s
    \<and> (\<forall>i. freeq s' i = fixed_fq i) \<and> (\<forall>i. pool_start s' i = None) \<and> pool_access_mask s' = 0xfff0
    \<and> (\<forall>i < GKI_NUM_FIXED_BUF_POOLS. pool_list s' i = i)
    \<and> curr_total_no_of_pools s' = GKI_NUM_FIXED_BUF_POOLS \<and> task_dead s' = task_dead s
    \<and> (\<forall>t m. task_q_first s' t m = None \<and> task_q_last s' t m = None)"
proof -
  let ?s = "s\<lparr>task_q_first := (\<lambda>t m. None), task_q_last := (\<lambda>t m. None),
       pool_start := (\<lambda>i. None), pool_end := (\<lambda>i. None), pool_size := (\<lambda>i. 0),
       freeq := (\<lambda>i. empty_fq), pool_access_mask := 0xfff0\<rparr>"
  obtain s1 where 1: "fold init_fixed [0..<GKI_NUM_FIXED_BUF_POOLS] (Some ?s) = Some s1" "heap s1 = heap ?s"
    "words s1 = words ?s" "\<forall>i. freeq s1 i = (if i < GKI_NUM_FIXED_BUF_POOLS then fixed_fq i else empty_fq)"
    "tables s1 = tables ?s" "task_q_first s1 = task_q_first ?s" "task_q_last s1 = task_q_last ?s"
    "locks s1 = locks ?s"
    using init_fixed_fold [of GKI_NUM_FIXED_BUF_POOLS ?s] by auto
  have e: "gki_buffer_init s = Some (s1\<lparr>pool_list := (\<lambda>i. if i < GKI_NUM_FIXED_BUF_POOLS then i else pool_list s1 i),
      curr_total_no_of_pools := GKI_NUM_FIXED_BUF_POOLS\<rparr>)"
    by (simp only: gki_buffer_init_def Let_def 1(1) Option.bind.simps)
  have "fixed_fq i = empty_fq" if "\<not> i < GKI_NUM_FIXED_BUF_POOLS" for i using that by (simp add: fixed_fq_def)
  then show ?thesis
    using 1 by (auto simp: e tables_def)
qed

definition empty_q :: buffer_q where
  "empty_q = GKI_init_q \<lparr>bq_first = None, bq_last = None, bq_count = 0\<rparr>"

text \<open>The sizes of the build's pool table.\<close>

definition fixed_size :: "nat \<Rightarrow> nat" where
  "fixed_size i = (if i < GKI_NUM_FIXED_BUF_POOLS then ALIGN_POOL (fst (fixed_pools ! i)) else 0)"

lemma nine: "GKI_NUM_FIXED_BUF_POOLS = 9" "GKI_NUM_TOTAL_BUF_POOLS = 10"
  by (simp_all add: GKI_NUM_FIXED_BUF_POOLS_def GKI_NUM_TOTAL_BUF_POOLS_def)

lemma less_10_cases: "(i::nat) < 10 \<Longrightarrow> i \<in> {0, 1, 2, 3, 4, 5, 6, 7, 8, 9}"
  by auto

lemma fixed_fq_table:
  "p < 10 \<Longrightarrow> fq_size (fixed_fq p) = fixed_size p \<and> 4 dvd fixed_size p
     \<and> fixed_size p + BUFFER_PADDING_SIZE < 65536"
  by (drule less_10_cases)
    (auto simp: fixed_fq_def fixed_size_def nine fixed_pools_def ALIGN_POOL_def empty_fq_def
      BUFFER_PADDING_SIZE_def BUFFER_HDR_SIZE_def)

lemma fixed_fq_sum: "(\<Sum>p < 10. fq_total (fixed_fq p)) = 210"
proof -
  have "{..<10::nat} = {0, 1, 2, 3, 4, 5, 6, 7, 8, 9}" by auto
  then show ?thesis by (simp add: fixed_fq_def nine fixed_pools_def empty_fq_def)
qed

lemma gki_init_inv:
  assumes "gki_buffer_init s0 = Some s" "heap s0 = (\<lambda>a. None)"
  shows "gki_inv s (\<lambda>i. empty_q) (\<lambda>p. []) (\<lambda>x. [])"
proof -
  have 1: "heap s = (\<lambda>a. None)" "\<forall>i. freeq s i = fixed_fq i" "\<forall>i. pool_start s i = None"
    "\<forall>i < GKI_NUM_FIXED_BUF_POOLS. pool_list s i = i" "curr_total_no_of_pools s = GKI_NUM_FIXED_BUF_POOLS"
    "\<forall>t m. task_q_first s t m = None \<and> task_q_last s t m = None"
    using gki_buffer_init_ok [of s0] assms by auto
  have "table_inv s"
    using 1 fixed_fq_table fixed_fq_sum by (simp add: table_inv_def pool_ok_def nine)
  moreover have "heap_ok s" using 1 by (simp add: heap_ok_def)
  moreover have "pool_inv s p []" for p
    using 1 by (simp add: pool_inv_def owned_def fixed_fq_def empty_fq_def)
  moreover have "place_rep s (\<lambda>i. empty_q) x []" for x
    using 1 by (cases x) (simp_all add: q_rep_def m_rep_def empty_q_def GKI_init_q_def)
  moreover have "covered s (\<lambda>p. []) (\<lambda>x. [])" using 1 by (simp add: covered_def)
  ultimately show ?thesis by (simp add: gki_inv_def)
qed


section \<open>Calls and reachable states\<close>

type_synonym gki_sys = "gki_com \<times> (nat \<Rightarrow> buffer_q)"

text \<open>
  A task may allocate, may release, queue or send any buffer that exists (also one that is free or
  queued already: then the call must refuse it), and may take from any queue and from the
  mailboxes of a task that is alive.
\<close>

inductive gki_call :: "gki_sys \<Rightarrow> gki_sys \<Rightarrow> bool" where
  getbuf: "mal_fresh mal s \<Longrightarrow> GKI_getbuf mal tid sz s = Some (r, s') \<Longrightarrow> gki_call (s, qs) (s', qs)"
| getpoolbuf: "mal_fresh mal s \<Longrightarrow> p < curr_total_no_of_pools s \<Longrightarrow>
    GKI_getpoolbuf mal tid p s = Some (r, s') \<Longrightarrow> gki_call (s, qs) (s', qs)"
| freebuf: "heap s a \<noteq> None \<Longrightarrow> GKI_freebuf (Some (buf_of a)) s = Some s' \<Longrightarrow> gki_call (s, qs) (s', qs)"
| enqueue: "heap s a \<noteq> None \<Longrightarrow> GKI_enqueue (qs i) (buf_of a) s = Some (s', q') \<Longrightarrow>
    gki_call (s, qs) (s', qs(i := q'))"
| enqueue_head: "heap s a \<noteq> None \<Longrightarrow> GKI_enqueue_head (qs i) (buf_of a) s = Some (s', q') \<Longrightarrow>
    gki_call (s, qs) (s', qs(i := q'))"
| dequeue: "GKI_dequeue (Some (qs i)) s = Some (r, s', Some q') \<Longrightarrow> gki_call (s, qs) (s', qs(i := q'))"
| remove: "GKI_remove_from_queue (qs i) (buf_of a) s = Some (r, s', q') \<Longrightarrow>
    gki_call (s, qs) (s', qs(i := q'))"
| send_msg: "heap s a \<noteq> None \<Longrightarrow> GKI_send_msg t m (buf_of a) s = Some s' \<Longrightarrow> gki_call (s, qs) (s', qs)"
| read_mbox: "t < GKI_MAX_TASKS \<longrightarrow> \<not> task_dead s t \<Longrightarrow> GKI_read_mbox t m s = Some (r, s') \<Longrightarrow>
    gki_call (s, qs) (s', qs)"

inductive_cases gki_callE: "gki_call (s, qs) (s', qs')"

inductive gki_reach :: "gki_sys \<Rightarrow> bool" where
  start: "heap s0 = (\<lambda>a. None) \<Longrightarrow> gki_buffer_init s0 = Some s \<Longrightarrow> gki_reach (s, \<lambda>i. empty_q)"
| call: "gki_reach S \<Longrightarrow> gki_call S S' \<Longrightarrow> gki_reach S'"

lemma gki_remove_any:
  assumes inv: "gki_inv s qs F G" and r: "GKI_remove_from_queue (qs i) (buf_of a) s = Some (r, s', q')"
  shows "\<exists>G'. gki_inv s' (qs(i := q')) F G' \<and> same_table s s'"
proof -
  note fr = GKI_remove_from_queue_frame [OF r]
  have st: "same_table s s'" using fr by (intro same_tableI) simp_all
  have q: "q_rep s (qs i) (G (AppQ i))" using gki_invD(4) [OF inv, of "AppQ i"] by simp
  show ?thesis
  proof (cases "a \<in> set (G (AppQ i))")
    case True
    then obtain ys zs where "G (AppQ i) = ys @ a # zs" by (meson split_list)
    then show ?thesis using gki_remove_step [OF inv, of i ys a zs] r st by auto
  next
    case False
    have "G (AppQ i) \<noteq> []"
    proof
      assume "G (AppQ i) = []"
      then show False using q r by (simp add: q_rep_def GKI_remove_from_queue_def)
    qed
    then have "s' = s \<and> q' = qs i" using GKI_remove_from_queue_absent [OF q _ False] r by simp
    then show ?thesis using inv st by (intro exI [of _ G]) simp
  qed
qed

lemma gki_enqueue_any:
  assumes inv: "gki_inv s qs F G" and a: "heap s a \<noteq> None"
  shows "GKI_enqueue (qs i) (buf_of a) s = Some (s', q') \<Longrightarrow>
      \<exists>G'. gki_inv s' (qs(i := q')) F G' \<and> same_table s s'"
    and "GKI_enqueue_head (qs i) (buf_of a) s = Some (s', q') \<Longrightarrow>
      \<exists>G'. gki_inv s' (qs(i := q')) F G' \<and> same_table s s'"
proof -
  obtain h where h: "heap s a = Some h" using a by blast
  note refused = gki_enqueue_refused [OF inv h]
  have l: "buf_loose s a" if "h_status h = BUF_STATUS_UNLINKED"
    using heap_ok_loose [OF gki_invD(2) [OF inv] h] that by simp
  show "\<exists>G'. gki_inv s' (qs(i := q')) F G' \<and> same_table s s'"
    if r: "GKI_enqueue (qs i) (buf_of a) s = Some (s', q')"
  proof (cases "h_status h = BUF_STATUS_UNLINKED")
    case True
    have "same_table s s'" using GKI_enqueue_frame [OF r] by (intro same_tableI) simp_all
    then show ?thesis using gki_enqueue_step [OF inv l [OF True], of i] r by auto
  next
    case False
    then show ?thesis using refused(1) [OF False, of "qs i"] r inv by (auto intro!: exI [of _ G])
  qed
  show "\<exists>G'. gki_inv s' (qs(i := q')) F G' \<and> same_table s s'"
    if r: "GKI_enqueue_head (qs i) (buf_of a) s = Some (s', q')"
  proof (cases "h_status h = BUF_STATUS_UNLINKED")
    case True
    have "same_table s s'" using GKI_enqueue_head_frame [OF r] by (intro same_tableI) simp_all
    then show ?thesis using gki_enqueue_head_step [OF inv l [OF True], of i] r by auto
  next
    case False
    then show ?thesis using refused(2) [OF False, of "qs i"] r inv by (auto intro!: exI [of _ G])
  qed
qed

lemma gki_freebuf_any:
  assumes inv: "gki_inv s qs F G" and a: "heap s a \<noteq> None"
  shows "\<exists>s' F'. GKI_freebuf (Some (buf_of a)) s = Some s' \<and> gki_inv s' qs F' G \<and> same_table s s'"
proof -
  obtain h where h: "heap s a = Some h" using a by blast
  show ?thesis
  proof (cases "h_status h = BUF_STATUS_UNLINKED")
    case True
    obtain s' where r: "GKI_freebuf (Some (buf_of a)) s = Some s'" "gki_inv s' qs (F(h_qid h := F (h_qid h) @ [a])) G"
      using gki_freebuf_step [OF inv h True] by blast
    have "same_table s s'" using GKI_freebuf_frame [OF r(1)] by (intro same_tableI) simp_all
    then show ?thesis using r by blast
  next
    case False
    then show ?thesis using gki_freebuf_refused [OF inv h False] inv by (auto intro!: exI [of _ F])
  qed
qed

lemma gki_send_msg_any:
  assumes inv: "gki_inv s qs F G" and a: "heap s a \<noteq> None"
  shows "\<exists>s' F' G'. GKI_send_msg t m (buf_of a) s = Some s' \<and> gki_inv s' qs F' G' \<and> same_table s s'"
proof (cases "GKI_MAX_TASKS \<le> t \<or> NUM_TASK_MBOX \<le> m \<or> task_dead s t")
  case True
  let ?s = "GKI_exception GKI_ERROR_SEND_MSG_BAD_DEST s"
  have i: "gki_inv ?s qs F G" using inv by simp
  have "heap ?s a \<noteq> None" using a by (simp add: GKI_exception_def)
  then obtain s' F' where "GKI_freebuf (Some (buf_of a)) ?s = Some s'" "gki_inv s' qs F' G" "same_table ?s s'"
    using gki_freebuf_any [OF i] by blast
  moreover have "same_table ?s s' = same_table s s'" by (simp add: same_table_def GKI_exception_def)
  ultimately show ?thesis using True by (auto simp: GKI_send_msg_def)
next
  case False
  then have t: "t < GKI_MAX_TASKS" "m < NUM_TASK_MBOX" "\<not> task_dead s t" by auto
  obtain h where h: "heap s a = Some h" using a by blast
  show ?thesis
  proof (cases "h_status h = BUF_STATUS_UNLINKED")
    case True
    then have "buf_loose s a" using heap_ok_loose [OF gki_invD(2) [OF inv] h] by simp
    then obtain s' where r: "GKI_send_msg t m (buf_of a) s = Some s'"
      "gki_inv s' qs F (G(Mbox t m := G (Mbox t m) @ [a]))"
      using gki_send_msg_step [OF inv _ t] by blast
    have "same_table s s'" using GKI_send_msg_frame [OF r(1)] by (intro same_tableI) simp_all
    then show ?thesis using r by blast
  next
    case False
    then show ?thesis using gki_send_msg_refused [OF inv h False t] inv by (auto intro!: exI [of _ F] exI [of _ G])
  qed
qed

text \<open>
  Every reachable state of the buffer system satisfies the invariant and has the pool table of the
  build; no call on an existing buffer follows a bad pointer.
\<close>

definition build_table :: "gki_com \<Rightarrow> bool" where
  "build_table s \<longleftrightarrow> (\<forall>p. fq_size (freeq s p) = fq_size (fixed_fq p) \<and> fq_total (freeq s p) = fq_total (fixed_fq p))
     \<and> curr_total_no_of_pools s = GKI_NUM_FIXED_BUF_POOLS \<and> pool_access_mask s = 0xfff0
     \<and> (\<forall>i < GKI_NUM_FIXED_BUF_POOLS. pool_list s i = i)"

lemma build_table_step: "build_table s \<Longrightarrow> same_table s s' \<Longrightarrow> build_table s'"
  by (simp add: build_table_def same_table_def)

definition sys_ok :: "gki_sys \<Rightarrow> bool" where
  "sys_ok S \<longleftrightarrow> (\<exists>F G. gki_inv (fst S) (snd S) F G) \<and> build_table (fst S)"

lemma sys_okI: "gki_inv s' qs' F G \<Longrightarrow> build_table s \<Longrightarrow> same_table s s' \<Longrightarrow> sys_ok (s', qs')"
  using build_table_step by (auto simp: sys_ok_def)

lemma pool_index:
  "build_table s \<Longrightarrow> p < curr_total_no_of_pools s \<Longrightarrow> p < GKI_NUM_TOTAL_BUF_POOLS \<and> pool_list s p = p"
  by (simp add: build_table_def nine)

lemma getpoolbuf_any:
  assumes inv: "gki_inv s qs F G" and fr: "mal_fresh mal s"
    and p: "p < GKI_NUM_TOTAL_BUF_POOLS" and pl: "pool_list s p = p"
  shows "\<exists>r s' F'. GKI_getpoolbuf mal tid p s = Some (r, s') \<and> gki_inv s' qs F' G \<and> same_table s s'"
proof (cases "fq_cur (freeq s p) < fq_total (freeq s p)")
  case True
  then show ?thesis using gki_getpoolbuf_step [OF inv fr p pl, of tid] by blast
next
  case False
  then have "GKI_getpoolbuf mal tid p s = GKI_getbuf mal tid (fq_size (freeq s p)) s"
    using p by (intro gki_getpoolbuf_exhausted) simp_all
  then show ?thesis using gki_getbuf_step [OF inv fr, of tid "fq_size (freeq s p)"] by auto
qed

lemma gki_call_ok:
  assumes "gki_call S S'" "sys_ok S"
  shows "sys_ok S'"
  using assms
proof (induction rule: gki_call.induct)
  case (getbuf mal s tid sz r s' qs)
  then obtain F G where inv: "gki_inv s qs F G" "build_table s" by (auto simp: sys_ok_def)
  obtain F' where "gki_inv s' qs F' G" "same_table s s'"
    using gki_getbuf_step [OF inv(1) getbuf(1), of tid sz] getbuf(2) by auto
  then show ?case using inv(2) by (intro sys_okI)
next
  case (getpoolbuf mal s p tid r s' qs)
  then obtain F G where inv: "gki_inv s qs F G" "build_table s" by (auto simp: sys_ok_def)
  obtain F' where "gki_inv s' qs F' G" "same_table s s'"
    using getpoolbuf_any [OF inv(1) getpoolbuf(1), of p tid] pool_index [OF inv(2) getpoolbuf(2)] getpoolbuf(3)
    by auto
  then show ?case using inv(2) by (intro sys_okI)
next
  case (freebuf s a s' qs)
  then obtain F G where inv: "gki_inv s qs F G" "build_table s" by (auto simp: sys_ok_def)
  obtain F' where "gki_inv s' qs F' G" "same_table s s'"
    using gki_freebuf_any [OF inv(1) freebuf(1)] freebuf(2) by auto
  then show ?case using inv(2) by (intro sys_okI)
next
  case (enqueue s a qs i s' q')
  then obtain F G where inv: "gki_inv s qs F G" "build_table s" by (auto simp: sys_ok_def)
  then show ?case using gki_enqueue_any(1) [OF inv(1) enqueue(1,2)] sys_okI by blast
next
  case (enqueue_head s a qs i s' q')
  then obtain F G where inv: "gki_inv s qs F G" "build_table s" by (auto simp: sys_ok_def)
  then show ?case using gki_enqueue_any(2) [OF inv(1) enqueue_head(1,2)] sys_okI by blast
next
  case (dequeue qs i s r s' q')
  then obtain F G where inv: "gki_inv s qs F G" "build_table s" by (auto simp: sys_ok_def)
  have "same_table s s'" using GKI_dequeue_frame [OF dequeue(1)] by (intro same_tableI) simp_all
  moreover have "gki_inv s' (qs(i := q')) F (G(AppQ i := tl (G (AppQ i))))"
    using gki_dequeue_step [OF inv(1), of i] dequeue(1) by auto
  ultimately show ?case using inv(2) sys_okI by blast
next
  case (remove qs i a s r s' q')
  then obtain F G where inv: "gki_inv s qs F G" "build_table s" by (auto simp: sys_ok_def)
  then show ?case using gki_remove_any [OF inv(1) remove(1)] sys_okI by blast
next
  case (send_msg s a t m s' qs)
  then obtain F G where inv: "gki_inv s qs F G" "build_table s" by (auto simp: sys_ok_def)
  obtain F' G' where "gki_inv s' qs F' G'" "same_table s s'"
    using gki_send_msg_any [OF inv(1) send_msg(1), of t m] send_msg(2) by auto
  then show ?case using inv(2) by (intro sys_okI)
next
  case (read_mbox t s m r s' qs)
  then obtain F G where inv: "gki_inv s qs F G" "build_table s" by (auto simp: sys_ok_def)
  have st: "same_table s s'" using GKI_read_mbox_frame [OF read_mbox(2)] by (intro same_tableI) simp_all
  have "\<exists>G'. gki_inv s' qs F G'"
    using gki_read_mbox_step [OF inv(1) read_mbox(1), of m] read_mbox(1,2) inv(1) by (auto simp: not_less)
  then show ?case using inv(2) st sys_okI by blast
qed

lemma gki_reach_ok: "gki_reach S \<Longrightarrow> sys_ok S"
proof (induction rule: gki_reach.induct)
  case (start s0 s)
  have "build_table s"
    using gki_buffer_init_ok [of s0] start(2) by (auto simp: build_table_def)
  then show ?case using gki_init_inv [OF start(2,1)] by (auto simp: sys_ok_def)
qed (rule gki_call_ok)

section \<open>Sizes\<close>

text \<open>
  In the pool table of the build the public pools that have buffers come in the order of their sizes,
  and no pool before one of them is larger.
\<close>

lemma open_pools:
  assumes "p < 10" "\<not> bit (0xfff0 :: u16) p" "0 < fq_total (fixed_fq p)"
  shows "p = 0 \<or> p = 2 \<or> p = 3"
  using less_10_cases [OF assms(1)] assms(2,3)
  by (elim insertE emptyE) (simp_all add: fixed_fq_def nine fixed_pools_def empty_fq_def)

lemma open_pools_order:
  assumes "p = 0 \<or> p = 2 \<or> p = 3" "i \<le> p"
  shows "fq_size (fixed_fq i) \<le> fq_size (fixed_fq p)"
proof -
  have "i = 0 \<or> i = 1 \<or> i = 2 \<or> i = 3" using assms by linarith
  then show ?thesis
    using assms by (elim disjE) (simp_all add: fixed_fq_def nine fixed_pools_def empty_fq_def ALIGN_POOL_def)
qed

lemma build_table_fit:
  assumes t: "build_table s" and p: "serves s (first_fit sz s) p" and f: "first_fit sz s < curr_total_no_of_pools s"
  shows "sz \<le> fq_size (freeq s p)"
proof -
  let ?i = "first_fit sz s"
  have i: "?i < 9" "pool_list s ?i = ?i" "sz \<le> fq_size (freeq s ?i)"
    using f first_fit_spec [of sz s] t by (auto simp: build_table_def nine)
  have pi: "?i \<le> p" "p < 9" "avail s p" using p t by (auto simp: serves_def build_table_def nine)
  have "\<not> bit (0xfff0 :: u16) p" "0 < fq_total (fixed_fq p)"
    using pi t by (auto simp: avail_def restricted_def build_table_def)
  then have "fq_size (fixed_fq ?i) \<le> fq_size (fixed_fq p)"
    using pi(1,2) by (intro open_pools_order open_pools) simp_all
  then show ?thesis using i(3) t by (simp add: build_table_def)
qed

end
