(* ===== verification/Gki_Properties.thy ===== *)
theory Gki_Properties
  imports Gki_Reach
begin

text \<open>
  The properties of the buffer manager: what holds of every state the interface can reach from
  start-up, what the calls answer there, and the queues as first-in first-out lists.
\<close>

section \<open>A concrete start\<close>

definition demo0 :: gki_com where
  "demo0 = \<lparr>heap = (\<lambda>a. None), words = (\<lambda>a. None), freeq = (\<lambda>i. empty_fq), pool_start = (\<lambda>i. None),
     pool_end = (\<lambda>i. None), pool_size = (\<lambda>i. 0), pool_list = (\<lambda>i. 0), pool_access_mask = 0,
     curr_total_no_of_pools = 0, task_q_first = (\<lambda>t m. None), task_q_last = (\<lambda>t m. None),
     task_dead = (\<lambda>t. False), wait_evt = (\<lambda>t. 0), exceptions = [], locks = 0\<rparr>"

definition demo_mal :: "nat \<Rightarrow> ptr" where
  "demo_mal n = (if n \<le> 100000 then Some 4096 else None)"

lemma demo_start:
  "\<exists>s. gki_buffer_init demo0 = Some s \<and> gki_reach (s, \<lambda>i. empty_q) \<and> mal_fresh demo_mal s \<and> build_table s
     \<and> heap s = (\<lambda>a. None) \<and> (\<forall>p. freeq s p = fixed_fq p)"
proof -
  obtain s where s: "gki_buffer_init demo0 = Some s" "heap s = heap demo0" "\<forall>i. freeq s i = fixed_fq i"
    using gki_buffer_init_ok [of demo0] by blast
  have r: "gki_reach (s, \<lambda>i. empty_q)" by (rule gki_reach.start [OF _ s(1)]) (simp add: demo0_def)
  have h: "heap s = (\<lambda>a. None)" using s(2) by (simp add: demo0_def)
  then have "mal_fresh demo_mal s" by (simp add: mal_fresh_def demo_mal_def)
  then show ?thesis using s r h gki_reach_ok [OF r] by (auto simp: sys_ok_def)
qed

text \<open>Three buffers of 8 bytes in the hands of a task; queues and mailboxes empty.\<close>

definition demo_hdr :: buffer_hdr where
  "demo_hdr = \<lparr>h_next = None, h_qid = 0, h_task = 0, h_status = BUF_STATUS_UNLINKED, h_type = 0\<rparr>"

definition demo1 :: gki_com where
  "demo1 = demo0\<lparr>heap := [100 \<mapsto> demo_hdr, 200 \<mapsto> demo_hdr, 300 \<mapsto> demo_hdr],
     words := [116 \<mapsto> MAGIC_NO, 216 \<mapsto> MAGIC_NO, 316 \<mapsto> MAGIC_NO],
     freeq := (\<lambda>i. empty_fq\<lparr>fq_size := 8, fq_total := 3, fq_cur := 3, fq_max := 3\<rparr>)\<rparr>"

lemma demo1_loose: "buf_loose demo1 100" "buf_loose demo1 200" "buf_loose demo1 300"
  by (simp_all add: demo1_def demo_hdr_def buf_loose_def gki_chk_buf_damage_def GKI_get_buf_size_def buf_of_def
      hdr_of_def BUFFER_HDR_SIZE_def GKI_NUM_TOTAL_BUF_POOLS_def)

lemma demo1_empty: "q_rep demo1 empty_q []" "m_rep demo1 (2, 1) []"
  by (simp_all add: q_rep_def m_rep_def empty_q_def GKI_init_q_def demo1_def demo0_def GKI_MAX_TASKS_def NUM_TASK_MBOX_def)

text \<open>A reachable state in which a task has a buffer: the start-up state and one allocation.\<close>

lemma demo_first_fit: "build_table s \<Longrightarrow> first_fit 100 s = 0"
proof -
  assume b: "build_table s"
  have "fq_size (fixed_fq 0) = 268"
    by (simp add: fixed_fq_def nine fixed_pools_def empty_fq_def ALIGN_POOL_def)
  then have "\<not> fq_size (freeq s (pool_list s 0)) < 100" using b by (simp add: build_table_def nine)
  then show "first_fit 100 s = 0" using first_fit_spec [of 100 s] by (metis neq0_conv)
qed

lemma demo_buffer:
  "\<exists>s a. gki_reach (s, \<lambda>i. empty_q) \<and> buf_loose s a \<and> mal_fresh (\<lambda>n. None) s"
proof -
  obtain s where s: "gki_reach (s, \<lambda>i. empty_q)" "mal_fresh demo_mal s" "build_table s"
    "heap s = (\<lambda>a. None)" "\<forall>p. freeq s p = fixed_fq p" using demo_start by blast
  obtain F G where inv: "gki_inv s (\<lambda>i. empty_q) F G" using gki_reach_ok [OF s(1)] by (auto simp: sys_ok_def)
  obtain r s' F' where r: "GKI_getbuf demo_mal 1 100 s = Some (r, s')" and
    c: "case r of None \<Rightarrow> F' = F \<and> ((100::nat) = 0 \<or> first_fit 100 s = curr_total_no_of_pools s
           \<or> (\<forall>q. first_fit 100 s \<le> q \<and> q < curr_total_no_of_pools s \<longrightarrow> \<not> avail s q)
           \<or> (\<exists>p. serves s (first_fit 100 s) p \<and> demo_mal (pool_bytes s p) = None))
       | Some b \<Rightarrow> 0 < (100::nat) \<and> first_fit 100 s < curr_total_no_of_pools s
           \<and> (\<exists>a p. b = buf_of a \<and> serves s (first_fit 100 s) p \<and> got s F 1 p a s')"
    using gki_getbuf_step [OF inv s(2), of 1 100] by blast
  have t: "fq_size (fixed_fq 0) = 268" "fq_total (fixed_fq 0) = 40" "fq_cur (fixed_fq 0) = 0"
    by (simp_all add: fixed_fq_def nine fixed_pools_def empty_fq_def ALIGN_POOL_def)
  have av: "avail s 0" using s(3,5) t by (simp add: avail_def restricted_def build_table_def)
  have n: "curr_total_no_of_pools s = 9" using s(3) by (simp add: build_table_def nine)
  have "p = 0" if "serves s 0 p" for p using that av by (auto simp: serves_def)
  moreover have "demo_mal (pool_bytes s 0) \<noteq> None"
    using t s(5) by (simp add: demo_mal_def pool_bytes_def BUFFER_PADDING_SIZE_def BUFFER_HDR_SIZE_def)
  ultimately have no: "\<not> (\<exists>p. serves s 0 p \<and> demo_mal (pool_bytes s p) = None)" by metis
  have "r \<noteq> None"
  proof
    assume "r = None"
    with c have "F' = F \<and> ((100::nat) = 0 \<or> (0::nat) = 9
           \<or> (\<forall>q. 0 \<le> q \<and> q < 9 \<longrightarrow> \<not> avail s q)
           \<or> (\<exists>p. serves s 0 p \<and> demo_mal (pool_bytes s p) = None))"
      unfolding demo_first_fit [OF s(3)] n by (simp only: option.case)
    then have "\<forall>q. 0 \<le> q \<and> q < (9::nat) \<longrightarrow> \<not> avail s q" using no by (elim conjE disjE) simp_all
    then show False using av by force
  qed
  then obtain a where "buf_loose s' a" using c by (auto simp: got_def)
  moreover have "gki_reach (s', \<lambda>i. empty_q)"
    by (rule gki_reach.call [OF s(1) gki_call.getbuf [OF s(2) r]])
  ultimately show ?thesis by (auto simp: mal_fresh_def)
qed

section \<open>Reachable states\<close>

text \<open>
  C13. Start the buffer manager with no buffers and let tasks allocate, release, queue, send and
  receive in any order, with any buffers, also ones they must not touch. In every state reached:
  the free buffers of each pool are a list that its free queue represents, each application queue
  and each mailbox of a live task represents a list, every existing buffer is undamaged and is
  either free and in the list of its pool, or queued and in exactly one place, or out; and the
  count \<open>GKI_poolfreecount\<close> of an allocated pool is the length of its free list.
\<close>

theorem buffers_accounted:
  assumes "gki_reach (s, qs)"
  shows "\<exists>F G. (\<forall>p < GKI_NUM_TOTAL_BUF_POOLS. pool_inv s p (F p)
        \<and> (pool_start s p \<noteq> None \<longrightarrow> GKI_poolfreecount p s = length (F p)))
    \<and> (\<forall>x. place_rep s qs x (G x))
    \<and> (\<forall>a h. heap s a = Some h \<longrightarrow> gki_chk_buf_damage (buf_of a) s = Some False
        \<and> h_qid h < GKI_NUM_TOTAL_BUF_POOLS
        \<and> (a \<in> set (F (h_qid h)) \<longleftrightarrow> h_status h = BUF_STATUS_FREE)
        \<and> (\<forall>x y. a \<in> set (G x) \<and> a \<in> set (G y) \<longrightarrow> x = y)
        \<and> ((\<exists>x. a \<in> set (G x)) \<longleftrightarrow> h_status h = BUF_STATUS_QUEUED))"
proof -
  obtain F G where inv: "gki_inv s qs F G" using gki_reach_ok [OF assms] by (auto simp: sys_ok_def)
  have cnt: "GKI_poolfreecount p s = length (F p)" if "p < GKI_NUM_TOTAL_BUF_POOLS" "pool_start s p \<noteq> None" for p
    using gki_invD(3) [OF inv that(1)] that by (auto simp: pool_inv_def GKI_poolfreecount_def)
  have free: "a \<in> set (F (h_qid h)) \<longleftrightarrow> h_status h = BUF_STATUS_FREE" if h: "heap s a = Some h" for a h
    using gki_invD(3) [OF inv, of "h_qid h"] gki_invD(2,6) [OF inv] h
    by (auto simp: pool_inv_def heap_ok_def covered_def)
  have q: "(\<exists>x. a \<in> set (G x)) \<longleftrightarrow> h_status h = BUF_STATUS_QUEUED" if h: "heap s a = Some h" for a h
    using place_rep_status [OF gki_invD(4) [OF inv], of a] gki_invD(6) [OF inv] h by (auto simp: covered_def)
  have one: "x = y" if "a \<in> set (G x) \<and> a \<in> set (G y)" for a x y
    using gki_invD(5) [OF inv, of x y] that by blast
  have ok: "gki_chk_buf_damage (buf_of a) s = Some False \<and> h_qid h < GKI_NUM_TOTAL_BUF_POOLS"
    if "heap s a = Some h" for a h
    using gki_invD(2) [OF inv] that by (simp add: heap_ok_def)
  show ?thesis
  proof (rule exI [of _ F], rule exI [of _ G], intro conjI allI impI)
    fix a h
    assume h: "heap s a = Some h"
    show "gki_chk_buf_damage (buf_of a) s = Some False" "h_qid h < GKI_NUM_TOTAL_BUF_POOLS"
      using ok [OF h] by auto
    show "a \<in> set (F (h_qid h)) \<longleftrightarrow> h_status h = BUF_STATUS_FREE" by (rule free [OF h])
    show "(\<exists>x. a \<in> set (G x)) \<longleftrightarrow> h_status h = BUF_STATUS_QUEUED" by (rule q [OF h])
  qed (use cnt one gki_invD(3,4) [OF inv] in blast)+
qed

theorem buffers_accounted_witness:
  "\<exists>s. gki_buffer_init demo0 = Some s \<and> (\<exists>F. \<forall>p < GKI_NUM_TOTAL_BUF_POOLS. pool_inv s p (F p))"
proof -
  obtain s where s: "gki_buffer_init demo0 = Some s" "gki_reach (s, \<lambda>i. empty_q)" using demo_start by blast
  show ?thesis using buffers_accounted [OF s(2)] s(1) by blast
qed

text \<open>
  C14. No call follows a bad pointer: in every reachable state each call of the interface, with any
  existing buffer as argument, returns. The one exception is the removal from an empty queue.
\<close>

theorem calls_return:
  assumes "gki_reach (s, qs)" "mal_fresh mal s" "heap s a \<noteq> None" "p < curr_total_no_of_pools s"
    "t < GKI_MAX_TASKS \<longrightarrow> \<not> task_dead s t"
  shows "GKI_getbuf mal tid sz s \<noteq> None \<and> GKI_getpoolbuf mal tid p s \<noteq> None
    \<and> GKI_freebuf (Some (buf_of a)) s \<noteq> None \<and> GKI_send_msg t' m (buf_of a) s \<noteq> None
    \<and> GKI_enqueue (qs i) (buf_of a) s \<noteq> None \<and> GKI_enqueue_head (qs i) (buf_of a) s \<noteq> None
    \<and> GKI_dequeue (Some (qs i)) s \<noteq> None \<and> GKI_read_mbox t m s \<noteq> None
    \<and> (GKI_remove_from_queue (qs i) (buf_of a) s = None \<longleftrightarrow> GKI_queue_is_empty (qs i))"
proof -
  obtain F G where inv: "gki_inv s qs F G" and bt: "build_table s"
    using gki_reach_ok [OF assms(1)] by (auto simp: sys_ok_def)
  obtain h where h: "heap s a = Some h" using assms(3) by blast
  have l: "buf_loose s a" if "h_status h = BUF_STATUS_UNLINKED"
    using heap_ok_loose [OF gki_invD(2) [OF inv] h] that by simp
  have q: "q_rep s (qs i) (G (AppQ i))" using gki_invD(4) [OF inv, of "AppQ i"] by simp
  have "GKI_enqueue (qs i) (buf_of a) s \<noteq> None \<and> GKI_enqueue_head (qs i) (buf_of a) s \<noteq> None"
    using gki_enqueue_step [OF inv l, of i] gki_enqueue_head_step [OF inv l, of i]
      gki_enqueue_refused [OF inv h, of "qs i"]
    by (cases "h_status h = BUF_STATUS_UNLINKED") auto
  moreover have "GKI_remove_from_queue (qs i) (buf_of a) s = None \<longleftrightarrow> GKI_queue_is_empty (qs i)"
  proof (cases "G (AppQ i) = []")
    case True
    then show ?thesis
      using q by (simp add: q_rep_def GKI_remove_from_queue_def GKI_queue_is_empty_def word_unat_eq_iff)
  next
    case False
    then have "\<not> GKI_queue_is_empty (qs i)" using q by (auto simp: q_rep_def GKI_queue_is_empty_def)
    moreover have "GKI_remove_from_queue (qs i) (buf_of a) s \<noteq> None"
    proof (cases "a \<in> set (G (AppQ i))")
      case True
      then obtain ys zs where "G (AppQ i) = ys @ a # zs" by (meson split_list)
      then show ?thesis using gki_remove_step [OF inv, of i ys a zs] by auto
    next
      case False
      then show ?thesis using GKI_remove_from_queue_absent [OF q \<open>G (AppQ i) \<noteq> []\<close>] by simp
    qed
    ultimately show ?thesis by simp
  qed
  moreover have "GKI_getpoolbuf mal tid p s \<noteq> None"
    using getpoolbuf_any [OF inv assms(2)] pool_index [OF bt assms(4)] by fastforce
  ultimately show ?thesis
    using gki_getbuf_step [OF inv assms(2), of tid sz] gki_freebuf_any [OF inv assms(3)]
      gki_send_msg_any [OF inv assms(3), of t' m] gki_dequeue_step [OF inv, of i]
      gki_read_mbox_step [OF inv assms(5), of m]
    by auto
qed

theorem calls_return_witness:
  "\<exists>s a. gki_reach (s, \<lambda>i. empty_q) \<and> buf_loose s a \<and> GKI_freebuf (Some (buf_of a)) s \<noteq> None
     \<and> GKI_remove_from_queue empty_q (buf_of a) s = None"
proof -
  obtain s a where s: "gki_reach (s, \<lambda>i. empty_q)" "buf_loose s a" "mal_fresh (\<lambda>n. None) s"
    using demo_buffer by blast
  have "build_table s" using gki_reach_ok [OF s(1)] by (simp add: sys_ok_def)
  then have p: "0 < curr_total_no_of_pools s" by (simp add: build_table_def nine)
  have h: "heap s a \<noteq> None" using buf_looseD [OF s(2)] by auto
  have "GKI_queue_is_empty empty_q" by (simp add: GKI_queue_is_empty_def empty_q_def GKI_init_q_def)
  then have "GKI_freebuf (Some (buf_of a)) s \<noteq> None \<and> GKI_remove_from_queue empty_q (buf_of a) s = None"
    using calls_return [OF s(1,3) h p, where t = 20 and tid = 0 and sz = 0 and t' = 0 and m = 0]
    by (simp add: GKI_MAX_TASKS_def)
  then show ?thesis using s(1,2) by blast
qed

section \<open>Allocation and release\<close>

text \<open>
  C15. \<open>GKI_getbuf\<close> in a reachable state, with any request: a returned buffer is at least as large as
  requested, was free or did not exist before, is out now, belongs to a pool open to the public and
  carries the task's id, and no other buffer was touched; NULL is returned only for an empty
  request, one larger than every pool, when the open pools that are large enough are exhausted, or
  when no memory can be had. The lock is released on every path.
\<close>

theorem getbuf_serves:
  assumes "gki_reach (s, qs)" "mal_fresh mal s"
  shows "\<exists>r s'. GKI_getbuf mal tid sz s = Some (r, s') \<and> locks s' = locks s
    \<and> (case r of
         Some b \<Rightarrow> (\<exists>a h. b = buf_of a \<and> buf_loose s' a \<and> heap s' a = Some h \<and> h_task h = tid
             \<and> \<not> restricted (h_qid h) s \<and> sz \<le> fq_size (freeq s' (h_qid h))
             \<and> map_option h_status (heap s a) \<in> {None, Some BUF_STATUS_FREE}
             \<and> (\<forall>x. x \<noteq> a \<longrightarrow> heap s x \<noteq> None \<longrightarrow> heap s' x = heap s x))
       | None \<Rightarrow> sz = 0 \<or> (\<forall>p < curr_total_no_of_pools s. fq_size (freeq s p) < sz)
           \<or> (\<forall>p < curr_total_no_of_pools s. sz \<le> fq_size (freeq s p) \<longrightarrow>
                restricted p s \<or> fq_total (freeq s p) \<le> fq_cur (freeq s p))
           \<or> (\<exists>n. mal n = None))"
proof -
  obtain F G where inv: "gki_inv s qs F G" and bt: "build_table s"
    using gki_reach_ok [OF assms(1)] by (auto simp: sys_ok_def)
  let ?i = "first_fit sz s" and ?n = "curr_total_no_of_pools s"
  have pl: "q < ?n \<Longrightarrow> pool_list s q = q" for q using bt by (simp add: build_table_def)
  have small: "fq_size (freeq s q) < sz" if "q < ?i" for q
    using first_fit_spec [of sz s] that pl [of q] by auto
  obtain r s' F' where r: "GKI_getbuf mal tid sz s = Some (r, s')" "locks s' = locks s"
    and c: "case r of
         None \<Rightarrow> F' = F \<and> (sz = 0 \<or> ?i = ?n \<or> (\<forall>q. ?i \<le> q \<and> q < ?n \<longrightarrow> \<not> avail s q)
           \<or> (\<exists>p. serves s ?i p \<and> mal (pool_bytes s p) = None))
       | Some b \<Rightarrow> 0 < sz \<and> ?i < ?n \<and> (\<exists>a p. b = buf_of a \<and> serves s ?i p \<and> got s F tid p a s')"
    using gki_getbuf_step [OF inv assms(2), of tid sz] by blast
  show ?thesis
  proof (cases r)
    case None
    then consider "sz = 0" | "?i = ?n" | "\<forall>q. ?i \<le> q \<and> q < ?n \<longrightarrow> \<not> avail s q"
      | "\<exists>p. mal (pool_bytes s p) = None" using c by auto
    then have "sz = 0 \<or> (\<forall>p < ?n. fq_size (freeq s p) < sz)
           \<or> (\<forall>p < ?n. sz \<le> fq_size (freeq s p) \<longrightarrow> restricted p s \<or> fq_total (freeq s p) \<le> fq_cur (freeq s p))
           \<or> (\<exists>n. mal n = None)"
    proof cases
      case 3
      have "restricted p s \<or> fq_total (freeq s p) \<le> fq_cur (freeq s p)"
        if "p < ?n" "sz \<le> fq_size (freeq s p)" for p
      proof -
        have "\<not> p < ?i" using small [of p] that(2) by (meson not_less)
        then have "?i \<le> p" by simp
        then show ?thesis using 3 that(1) by (auto simp: avail_def not_less)
      qed
      then show ?thesis by blast
    qed (use small in auto)
    then show ?thesis using r None by simp
  next
    case (Some b)
    then obtain a p where b: "b = buf_of a" "serves s ?i p" "got s F tid p a s'" "?i < ?n" using c by auto
    obtain h where h: "heap s' a = Some h" "h_qid h = p" "h_task h = tid" using b(3) by (auto simp: got_def)
    have "sz \<le> fq_size (freeq s p)" by (rule build_table_fit [OF bt b(2,4)])
    moreover have "fq_size (freeq s' p) = fq_size (freeq s p)" using b(3) by (simp add: got_def same_table_def)
    moreover have "\<not> restricted p s" using b(2) by (simp add: serves_def avail_def)
    moreover have "p < GKI_NUM_TOTAL_BUF_POOLS" using b(2) pool_index [OF bt, of p] by (simp add: serves_def)
    then have "map_option h_status (heap s a) \<in> {None, Some BUF_STATUS_FREE}"
      using b(3) gki_invD(3) [OF inv] by (fastforce simp: got_def pool_inv_def)
    ultimately show ?thesis using r Some b h by (auto simp: got_def)
  qed
qed

theorem getbuf_serves_witness:
  "\<exists>s. gki_reach (s, \<lambda>i. empty_q) \<and> (\<exists>r s'. GKI_getbuf demo_mal 1 100 s = Some (r, s') \<and> locks s' = locks s)"
proof -
  obtain s where s: "gki_reach (s, \<lambda>i. empty_q)" "mal_fresh demo_mal s" using demo_start by blast
  show ?thesis using getbuf_serves [OF s, of 1 100] s(1) by blast
qed

text \<open>
  \<open>GKI_getpoolbuf\<close> on a pool of the table: while the pool has a buffer left the caller gets one of
  exactly that pool with the lock released; NULL means that the memory of the pool could not be
  allocated, and then the call returns with the lock still held. An exhausted pool is answered by
  \<open>GKI_getbuf\<close> for the size of its buffers.
\<close>

theorem getpoolbuf_serves:
  assumes "gki_reach (s, qs)" "mal_fresh mal s" "p < curr_total_no_of_pools s"
  shows "if fq_cur (freeq s p) < fq_total (freeq s p)
    then \<exists>r s'. GKI_getpoolbuf mal tid p s = Some (r, s')
      \<and> (case r of
           Some b \<Rightarrow> (\<exists>a h. b = buf_of a \<and> buf_loose s' a \<and> heap s' a = Some h \<and> h_qid h = p \<and> h_task h = tid
             \<and> map_option h_status (heap s a) \<in> {None, Some BUF_STATUS_FREE}) \<and> locks s' = locks s
         | None \<Rightarrow> pool_start s p = None \<and> mal (pool_bytes s p) = None \<and> locks s' = locks s + 1)
    else GKI_getpoolbuf mal tid p s = GKI_getbuf mal tid (GKI_get_pool_bufsize p s) s"
proof -
  obtain F G where inv: "gki_inv s qs F G" and bt: "build_table s"
    using gki_reach_ok [OF assms(1)] by (auto simp: sys_ok_def)
  have p: "p < GKI_NUM_TOTAL_BUF_POOLS" "pool_list s p = p" using pool_index [OF bt assms(3)] by auto
  show ?thesis
  proof (cases "fq_cur (freeq s p) < fq_total (freeq s p)")
    case True
    obtain r s' F' where r: "GKI_getpoolbuf mal tid p s = Some (r, s')" and
      c: "case r of None \<Rightarrow> F' = F \<and> F p = [] \<and> mal (pool_bytes s p) = None \<and> locks s' = locks s + 1
         | Some b \<Rightarrow> \<exists>a. b = buf_of a \<and> got s F tid p a s'"
      using gki_getpoolbuf_step [OF inv assms(2) p True, of tid] by blast
    show ?thesis
    proof (cases r)
      case None
      have "pool_start s p = None"
      proof (rule ccontr)
        assume "pool_start s p \<noteq> None"
        then have "fq_cur (freeq s p) + length (F p) = fq_total (freeq s p)"
          using gki_invD(3) [OF inv p(1)] by (auto simp: pool_inv_def)
        then show False using True c None by simp
      qed
      then show ?thesis using True r c None by simp
    next
      case (Some b)
      then obtain a where a: "b = buf_of a" "got s F tid p a s'" using c by auto
      have "map_option h_status (heap s a) \<in> {None, Some BUF_STATUS_FREE}"
        using a(2) gki_invD(3) [OF inv p(1)] by (fastforce simp: got_def pool_inv_def)
      then show ?thesis using True r Some a by (auto simp: got_def)
    qed
  next
    case False
    then show ?thesis using gki_getpoolbuf_exhausted [OF p(1)] p(1) by (simp add: GKI_get_pool_bufsize_def)
  qed
qed

theorem getpoolbuf_serves_witness:
  "\<exists>s. gki_reach (s, \<lambda>i. empty_q)
     \<and> (\<exists>r s'. GKI_getpoolbuf (\<lambda>n. None) 1 0 s = Some (r, s') \<and> (r = None \<longrightarrow> locks s' = locks s + 1))"
proof -
  obtain s where s: "gki_reach (s, \<lambda>i. empty_q)" "build_table s" "\<forall>p. freeq s p = fixed_fq p"
    using demo_start by blast
  have f: "mal_fresh (\<lambda>n. None) s" by (simp add: mal_fresh_def)
  have n: "0 < curr_total_no_of_pools s" using s(2) by (simp add: build_table_def nine)
  have "fq_cur (freeq s 0) < fq_total (freeq s 0)"
    using s(3) by (simp add: fixed_fq_def nine fixed_pools_def empty_fq_def)
  then obtain r s' where "GKI_getpoolbuf (\<lambda>n. None) 1 0 s = Some (r, s')" "r = None \<longrightarrow> locks s' = locks s + 1"
    using getpoolbuf_serves [OF s(1) f n, of 1] by (auto split: option.splits)
  then show ?thesis using s(1) by blast
qed

text \<open>
  C16. \<open>GKI_freebuf\<close> on an existing buffer of a reachable state: a buffer that is out goes back to its
  pool, which has one more free buffer then, and a second release of it is refused; a buffer that
  is queued or free is refused with an exception and nothing else changes.
\<close>

theorem freebuf_exact:
  assumes "gki_reach (s, qs)" "heap s a = Some h"
  shows "if h_status h = BUF_STATUS_UNLINKED
    then \<exists>s'. GKI_freebuf (Some (buf_of a)) s = Some s' \<and> locks s' = locks s
      \<and> map_option h_status (heap s' a) = Some BUF_STATUS_FREE
      \<and> GKI_poolfreecount (h_qid h) s' = GKI_poolfreecount (h_qid h) s + 1
      \<and> GKI_freebuf (Some (buf_of a)) s' = Some (GKI_exception GKI_ERROR_FREEBUF_BUF_LINKED s')
    else GKI_freebuf (Some (buf_of a)) s = Some (GKI_exception GKI_ERROR_FREEBUF_BUF_LINKED s)"
proof -
  obtain F G where inv: "gki_inv s qs F G" using gki_reach_ok [OF assms(1)] by (auto simp: sys_ok_def)
  let ?p = "h_qid h"
  have p: "?p < GKI_NUM_TOTAL_BUF_POOLS" using gki_invD(2) [OF inv] assms(2) by (auto simp: heap_ok_def)
  show ?thesis
  proof (cases "h_status h = BUF_STATUS_UNLINKED")
    case True
    obtain s' where r: "GKI_freebuf (Some (buf_of a)) s = Some s'" "locks s' = locks s"
      and inv': "gki_inv s' qs (F(?p := F ?p @ [a])) G" and c: "fq_cur (freeq s' ?p) = fq_cur (freeq s ?p) - 1"
      using gki_freebuf_step [OF inv assms(2) True] by blast
    have pi: "pool_inv s ?p (F ?p)" by (rule gki_invD(3) [OF inv p])
    have "a \<in> owned s ?p" using assms(2) True by (simp add: owned_def)
    then have "0 < fq_cur (freeq s ?p)" "fq_cur (freeq s ?p) \<le> fq_total (freeq s ?p)"
      using pi card_gt_0_iff [of "owned s ?p"] by (auto simp: pool_inv_def)
    moreover have "fq_total (freeq s' ?p) = fq_total (freeq s ?p)" using GKI_freebuf_frame [OF r(1)] by simp
    ultimately have cnt: "GKI_poolfreecount ?p s' = GKI_poolfreecount ?p s + 1"
      using p c by (simp add: GKI_poolfreecount_def)
    obtain h' where h': "heap s' a = Some h'" "h_status h' = BUF_STATUS_FREE"
      using gki_invD(3) [OF inv' p] by (auto simp: pool_inv_def)
    show ?thesis using True r cnt h' gki_freebuf_refused [OF inv' h'(1)] by simp
  next
    case False
    then show ?thesis using gki_freebuf_refused [OF inv assms(2)] by simp
  qed
qed

theorem freebuf_exact_witness:
  "\<exists>s a s'. gki_reach (s, \<lambda>i. empty_q) \<and> GKI_freebuf (Some (buf_of a)) s = Some s'
     \<and> GKI_freebuf (Some (buf_of a)) s' = Some (GKI_exception GKI_ERROR_FREEBUF_BUF_LINKED s')"
proof -
  obtain s a where s: "gki_reach (s, \<lambda>i. empty_q)" "buf_loose s a" using demo_buffer by blast
  obtain h where h: "heap s a = Some h" "h_status h = BUF_STATUS_UNLINKED" using buf_looseD [OF s(2)] by blast
  show ?thesis using freebuf_exact [OF s(1) h(1)] h(2) s(1) by auto
qed

section \<open>Queues\<close>

text \<open>Application queues and mailboxes as lists.\<close>

lemma application_queue_fifo:
  assumes "q_rep s q xs" "distinct as" "\<forall>a \<in> set as. buf_loose s a" "length xs + length as < 65535"
  shows "(\<exists>s1 q1 s2 q2. appq.enq_all q as s = Some (s1, q1)
      \<and> appq.deq_n (length xs + length as) q1 s1 = Some (map Some (xs @ as), s2, q2)
      \<and> q_rep s2 q2 [] \<and> GKI_queue_is_empty q2)
    \<and> (\<forall>a. buf_loose s a \<longrightarrow>
      (\<exists>s1 q1 s2 q2. GKI_enqueue_head q (buf_of a) s = Some (s1, q1) \<and> GKI_getfirst q1 = Some (buf_of a)
        \<and> GKI_dequeue (Some q1) s1 = Some (Some (buf_of a), s2, Some q2) \<and> q_rep s2 q2 xs))"
proof (intro conjI allI impI)
  have e: "GKI_queue_is_empty q'" if "q_rep s' q' []" for s' q'
    using that by (simp add: q_rep_def GKI_queue_is_empty_def word_unat_eq_iff)
  show "\<exists>s1 q1 s2 q2. appq.enq_all q as s = Some (s1, q1)
      \<and> appq.deq_n (length xs + length as) q1 s1 = Some (map Some (xs @ as), s2, q2)
      \<and> q_rep s2 q2 [] \<and> GKI_queue_is_empty q2"
    using appq.fifo [OF assms(1-3)] assms(4) e by fastforce
next
  fix a
  assume a: "buf_loose s a"
  have "length xs < 65535" using assms(4) by simp
  then obtain s1 q1 where 1: "GKI_enqueue_head q (buf_of a) s = Some (s1, q1)" "q_rep s1 q1 (a # xs)"
    using GKI_enqueue_head_ok [OF assms(1) a] by blast
  then show "\<exists>s1 q1 s2 q2. GKI_enqueue_head q (buf_of a) s = Some (s1, q1) \<and> GKI_getfirst q1 = Some (buf_of a)
        \<and> GKI_dequeue (Some q1) s1 = Some (Some (buf_of a), s2, Some q2) \<and> q_rep s2 q2 xs"
    using GKI_dequeue_ok [OF 1(2)] by (fastforce simp: GKI_getfirst_def q_rep_def)
qed

lemma mailbox_fifo:
  assumes "m_rep s (t, m) xs" "distinct as" "\<forall>a \<in> set as. buf_loose s a"
  shows "\<exists>s1 s2. mbox.enq_all (t, m) as s = Some (s1, (t, m))
      \<and> mbox.deq_n (length xs + length as) (t, m) s1 = Some (map Some (xs @ as), s2, (t, m)) \<and> m_rep s2 (t, m) []"
proof -
  obtain s1 q1 s2 q2 where 1: "mbox.enq_all (t, m) as s = Some (s1, q1)"
    "mbox.deq_n (length xs + length as) q1 s1 = Some (map Some (xs @ as), s2, q2)" "m_rep s2 q2 []"
    using mbox.fifo [OF assms] by auto
  have "q' = q" if "mbox.enq_all q bs s = Some (s', q')" for q q' bs s s'
    using that by (induction bs arbitrary: q s) (auto simp: m_enq_def split: Option.bind_splits)
  moreover have "q' = q" if "mbox.deq_n n q s = Some (ps, s', q')" for n q q' ps s s'
    using that by (induction n arbitrary: q s ps) (auto simp: m_deq_def split: Option.bind_splits)
  ultimately show ?thesis using 1 by metis
qed

text \<open>
  C17. Queues refine lists. Buffers queued by \<open>GKI_enqueue\<close> behind those already there come out of
  \<open>GKI_dequeue\<close> in the same order, after which the queue is empty; a buffer queued by
  \<open>GKI_enqueue_head\<close> comes out first; and messages sent to the mailbox of a live task by
  \<open>GKI_send_msg\<close> are read by \<open>GKI_read_mbox\<close> in the order in which they were sent, behind those already
  there.
\<close>

theorem queue_fifo:
  assumes "q_rep s q xs" "m_rep s (t, m) ys" "distinct as" "\<forall>a \<in> set as. buf_loose s a" "length xs + length as < 65535"
  shows "(\<exists>s1 q1 s2 q2. appq.enq_all q as s = Some (s1, q1)
      \<and> appq.deq_n (length xs + length as) q1 s1 = Some (map Some (xs @ as), s2, q2)
      \<and> q_rep s2 q2 [] \<and> GKI_queue_is_empty q2)
    \<and> (\<forall>a. buf_loose s a \<longrightarrow>
      (\<exists>s1 q1 s2 q2. GKI_enqueue_head q (buf_of a) s = Some (s1, q1) \<and> GKI_getfirst q1 = Some (buf_of a)
        \<and> GKI_dequeue (Some q1) s1 = Some (Some (buf_of a), s2, Some q2) \<and> q_rep s2 q2 xs))
    \<and> (\<exists>s1 s2. mbox.enq_all (t, m) as s = Some (s1, (t, m))
      \<and> mbox.deq_n (length ys + length as) (t, m) s1 = Some (map Some (ys @ as), s2, (t, m)) \<and> m_rep s2 (t, m) [])"
  using application_queue_fifo [OF assms(1,3,4,5)] mailbox_fifo [OF assms(2,3,4)] by blast

theorem queue_fifo_witness:
  "(\<exists>s1 q1 s2 q2. appq.enq_all empty_q [100, 300, 200] demo1 = Some (s1, q1)
     \<and> appq.deq_n 3 q1 s1 = Some ([Some 100, Some 300, Some 200], s2, q2))
   \<and> (\<exists>s1 s2. mbox.enq_all (2, 1) [100, 300, 200] demo1 = Some (s1, (2, 1))
     \<and> mbox.deq_n 3 (2, 1) s1 = Some ([Some 100, Some 300, Some 200], s2, (2, 1)))"
  using queue_fifo [OF demo1_empty, of "[100, 300, 200]"] demo1_loose by (auto simp: numeral_3_eq_3)

text \<open>
  C18. \<open>GKI_remove_from_queue\<close> takes a buffer out of the queue wherever it stands and leaves the others
  in order; for a buffer that is not in a non-empty queue it returns NULL and changes nothing. On
  an empty queue it follows the NULL head pointer.
\<close>

theorem remove_anywhere:
  assumes "q_rep s q xs"
  shows "if xs = [] then GKI_remove_from_queue q (buf_of a) s = None
    else if a \<in> set xs
    then \<exists>s' q'. GKI_remove_from_queue q (buf_of a) s = Some (Some (buf_of a), s', q')
      \<and> q_rep s' q' (remove1 a xs) \<and> buf_loose s' a
    else GKI_remove_from_queue q (buf_of a) s = Some (None, s, q)"
proof (cases "xs = []")
  case True
  then show ?thesis using assms by (simp add: q_rep_def GKI_remove_from_queue_def)
next
  case ne: False
  show ?thesis
  proof (cases "a \<in> set xs")
    case True
    then obtain ys zs where xs: "xs = ys @ a # zs" "a \<notin> set ys" by (meson split_list_first)
    then show ?thesis using GKI_remove_from_queue_ok [of s q ys a zs] assms by (auto simp: remove1_append)
  next
    case False
    then show ?thesis using ne GKI_remove_from_queue_absent [OF assms ne] by simp
  qed
qed

theorem remove_anywhere_witness:
  "\<exists>s1 q1 s2 q2. GKI_enqueue empty_q (buf_of 100) demo1 = Some (s1, q1)
     \<and> GKI_remove_from_queue q1 (buf_of 100) s1 = Some (Some (buf_of 100), s2, q2) \<and> q_rep s2 q2 []"
proof -
  obtain s1 q1 where 1: "GKI_enqueue empty_q (buf_of 100) demo1 = Some (s1, q1)" "q_rep s1 q1 [100]"
    using GKI_enqueue_ok [OF demo1_empty(1) demo1_loose(1)] by auto
  show ?thesis using remove_anywhere [OF 1(2), of 100] 1(1) by auto
qed

end
