(* ===== verification/Timer_Model.thy ===== *)
theory Timer_Model
  imports Nfc_Prelude
begin

text \<open>
  The timers of the kernel interface layer, \<open>src/libnfc-nci/gki/common/gki_time.c\<close>: three timers per
  task, driven by \<open>GKI_timer_update\<close>, and the timer lists of the applications, in which every entry
  holds the ticks that separate it from its predecessor.

  \<open>INT32\<close> values are integers here; the theorems show that they stay in range. The mutex around the
  operations is not modelled: each is one step. The callback that starts and stops the system tick
  is the application's: \<open>tick_cb\<close> says whether there is one, \<open>tick_log\<close> records its calls.
\<close>

section \<open>Task timers\<close>

definition TMR_TASKS :: nat where "TMR_TASKS = 14"
definition GKI_NUM_TIMERS :: nat where "GKI_NUM_TIMERS = 3"
definition GKI_NO_NEW_TMRS_STARTED :: int where "GKI_NO_NEW_TMRS_STARTED = 0x7fffffff"
definition GKI_UNUSED_LIST_ENTRY :: int where "GKI_UNUSED_LIST_ENTRY = - 0x80000000"
definition GKI_MAX_INT32 :: int where "GKI_MAX_INT32 = 0x7fffffff"
definition GKI_DELAY_STOP_SYS_TICK :: nat where "GKI_DELAY_STOP_SYS_TICK = 10"
definition GKI_MAX_TIMER_QUEUES :: nat where "GKI_MAX_TIMER_QUEUES = 3"

definition TIMER_EVT_MASK :: "nat \<Rightarrow> u16" where
  "TIMER_EVT_MASK k = push_bit k 0x0010"

datatype task_state = TASK_DEAD | TASK_READY | TASK_OTHER

record timer_com =
  OSTicks :: u32
  OSTicksTilExp :: int
  OSNumOrigTicks :: int
  OSTicksTilStop :: nat
  OSWaitTmr :: "nat \<Rightarrow> int"
  OSTaskTmr :: "nat \<Rightarrow> nat \<Rightarrow> int"
  OSTaskTmrR :: "nat \<Rightarrow> nat \<Rightarrow> int"
  OSRdyTbl :: "nat \<Rightarrow> task_state"
  OSWaitEvt :: "nat \<Rightarrow> u16"
  timer_nesting :: bool
  tick_cb :: bool
  system_tick_running :: bool
  tick_log :: "bool list"
  timer_queues :: "nat \<Rightarrow> nat option"

definition gki_timers_init :: "timer_com \<Rightarrow> timer_com" where
  "gki_timers_init s = s\<lparr>OSTicksTilExp := 0, OSNumOrigTicks := 0, OSTicksTilStop := 0,
     OSWaitTmr := (\<lambda>t. 0), OSTaskTmr := (\<lambda>k t. 0), OSTaskTmrR := (\<lambda>k t. 0),
     timer_queues := (\<lambda>i. None), tick_cb := False, system_tick_running := False\<rparr>"

definition gki_timers_is_timer_running :: "timer_com \<Rightarrow> bool" where
  "gki_timers_is_timer_running s \<longleftrightarrow>
     list_ex (\<lambda>t. list_ex (\<lambda>k. OSTaskTmr s k t \<noteq> 0) [0..<GKI_NUM_TIMERS]) [0..<TMR_TASKS]"

definition GKI_get_tick_count :: "timer_com \<Rightarrow> u32" where
  "GKI_get_tick_count s = OSTicks s"

definition GKI_ready_to_sleep :: "timer_com \<Rightarrow> int" where
  "GKI_ready_to_sleep s = OSTicksTilExp s"

definition call_tick_cb :: "bool \<Rightarrow> timer_com \<Rightarrow> timer_com" where
  "call_tick_cb b s = s\<lparr>tick_log := tick_log s @ [b]\<rparr>"

definition gki_adjust_timer_count :: "int \<Rightarrow> timer_com \<Rightarrow> timer_com" where
  "gki_adjust_timer_count n s =
     (if 0 < n \<and> (OSNumOrigTicks s = 0 \<or> n < OSTicksTilExp s \<and> 0 < OSTicksTilExp s)
      then s\<lparr>OSNumOrigTicks := OSNumOrigTicks s - OSTicksTilExp s + n, OSTicksTilExp := n\<rparr> else s)"

definition set_timer :: "nat \<Rightarrow> nat \<Rightarrow> int \<Rightarrow> int \<Rightarrow> timer_com \<Rightarrow> timer_com" where
  "set_timer k t v r s = s\<lparr>OSTaskTmrR := (OSTaskTmrR s)(k := (OSTaskTmrR s k)(t := r)),
     OSTaskTmr := (OSTaskTmr s)(k := (OSTaskTmr s k)(t := v))\<rparr>"

definition GKI_start_timer :: "nat \<Rightarrow> nat \<Rightarrow> int \<Rightarrow> bool \<Rightarrow> timer_com \<Rightarrow> timer_com" where
  "GKI_start_timer tid tnum ticks is_continuous s =
     (let ticks = (if ticks \<le> 0 then 1 else ticks);
          orig_ticks = ticks;
          reload = (if is_continuous then ticks else 0);
          s = (if \<not> gki_timers_is_timer_running s then
                 (if OSTicksTilStop s = 0 then
                    (if tick_cb s then call_tick_cb True (s\<lparr>system_tick_running := True\<rparr>) else s)
                  else s\<lparr>OSTicksTilStop := 0\<rparr>)
               else s);
          ticks = (if GKI_MAX_INT32 - (OSNumOrigTicks s - OSTicksTilExp s) > ticks
                   then ticks + (OSNumOrigTicks s - OSTicksTilExp s) else GKI_MAX_INT32) in
      if tnum < GKI_NUM_TIMERS then gki_adjust_timer_count orig_ticks (set_timer tnum tid ticks reload s)
      else s)"

definition GKI_stop_timer :: "nat \<Rightarrow> nat \<Rightarrow> timer_com \<Rightarrow> timer_com" where
  "GKI_stop_timer tid tnum s =
     (let s = (if tnum < GKI_NUM_TIMERS then set_timer tnum tid 0 0 s else s) in
      if \<not> gki_timers_is_timer_running s \<and> tick_cb s \<and> system_tick_running s \<and> OSTicksTilStop s = 0
      then s\<lparr>OSTicksTilStop := GKI_DELAY_STOP_SYS_TICK\<rparr> else s)"

definition send_timer_event :: "nat \<Rightarrow> u16 \<Rightarrow> timer_com \<Rightarrow> timer_com" where
  "send_timer_event t e s = s\<lparr>OSWaitEvt := (OSWaitEvt s)(t := OSWaitEvt s t OR e)\<rparr>"

text \<open>One timer in the sweep of \<open>GKI_timer_update\<close>, with the next expiration found so far.\<close>

definition sweep_timer :: "nat \<Rightarrow> nat \<Rightarrow> timer_com \<times> int \<Rightarrow> timer_com \<times> int" where
  "sweep_timer t k = (\<lambda>(s, nx).
     let s = (if 0 < OSTaskTmr s k t then
                (let v = OSTaskTmr s k t - OSNumOrigTicks s in
                 if v \<le> 0 then set_timer k t (OSTaskTmrR s k t) (OSTaskTmrR s k t)
                                 (send_timer_event t (TIMER_EVT_MASK k) s)
                 else set_timer k t v (OSTaskTmrR s k t) s)
              else s);
         nx = (if 0 < OSTaskTmr s k t \<and> OSTaskTmr s k t < nx then OSTaskTmr s k t else nx) in
     (s, nx))"

definition sweep_wait :: "nat \<Rightarrow> timer_com \<Rightarrow> timer_com" where
  "sweep_wait t s =
     (if 0 < OSWaitTmr s t then
        (let v = OSWaitTmr s t - OSNumOrigTicks s; s = s\<lparr>OSWaitTmr := (OSWaitTmr s)(t := v)\<rparr> in
         if v \<le> 0 then s\<lparr>OSRdyTbl := (OSRdyTbl s)(t := TASK_READY)\<rparr> else s)
      else s)"

definition sweep_task :: "nat \<Rightarrow> timer_com \<times> int \<Rightarrow> timer_com \<times> int" where
  "sweep_task t = (\<lambda>(s, nx).
     if OSRdyTbl s t = TASK_DEAD then (s, nx)
     else fold (sweep_timer t) [0..<GKI_NUM_TIMERS] (sweep_wait t s, nx))"

definition GKI_timer_update :: "int \<Rightarrow> timer_com \<Rightarrow> timer_com" where
  "GKI_timer_update n s =
     (let s = s\<lparr>OSTicks := OSTicks s + word_of_int n, OSTicksTilExp := OSTicksTilExp s - n\<rparr> in
      if timer_nesting s then s
      else let s = s\<lparr>timer_nesting := True\<rparr> in
      if OSTicksTilStop s \<noteq> 0 \<and> int (OSTicksTilStop s) \<le> n mod 2 ^ 32
      then (let s = (if tick_cb s then call_tick_cb False (s\<lparr>system_tick_running := False\<rparr>) else s) in
            s\<lparr>OSTicksTilStop := 0, timer_nesting := False\<rparr>)
      else let s = (if OSTicksTilStop s \<noteq> 0
                    then s\<lparr>OSTicksTilStop := nat ((int (OSTicksTilStop s) - n) mod 2 ^ 32)\<rparr> else s) in
      if 0 < OSTicksTilExp s then s\<lparr>timer_nesting := False\<rparr>
      else let s = s\<lparr>OSNumOrigTicks := OSNumOrigTicks s - OSTicksTilExp s\<rparr>;
               (s, nx) = fold sweep_task [0..<TMR_TASKS] (s, GKI_NO_NEW_TMRS_STARTED);
               v = (if nx < GKI_NO_NEW_TMRS_STARTED then nx else 0) in
           s\<lparr>OSTicksTilExp := v, OSNumOrigTicks := v, timer_nesting := False\<rparr>)"

definition GKI_timer_queue_empty :: "timer_com \<Rightarrow> bool" where
  "GKI_timer_queue_empty s \<longleftrightarrow> list_all (\<lambda>i. timer_queues s i = None) [0..<GKI_MAX_TIMER_QUEUES]"

definition GKI_timer_queue_register_callback :: "bool \<Rightarrow> timer_com \<Rightarrow> timer_com" where
  "GKI_timer_queue_register_callback c s = s\<lparr>tick_cb := c\<rparr>"

section \<open>Timer lists\<close>

text \<open>
  Entries live in a heap; a list object \<open>p_timer_listq\<close> is known to the control block by its
  address. An access through a bad pointer makes the operation \<open>None\<close>.
\<close>

record timer_ent =
  e_next :: ptr
  e_prev :: ptr
  e_ticks :: int
  e_in_use :: bool

record timer_q =
  tq_first :: ptr
  tq_last :: ptr
  tq_last_ticks :: int

type_synonym tl_heap = "nat \<Rightarrow> timer_ent option"

definition ent_upd :: "nat \<Rightarrow> (timer_ent \<Rightarrow> timer_ent) \<Rightarrow> tl_heap \<Rightarrow> tl_heap option" where
  "ent_upd a f h = (case h a of None \<Rightarrow> None | Some e \<Rightarrow> Some (h(a \<mapsto> f e)))"

definition GKI_init_timer_list :: "timer_q \<Rightarrow> timer_q" where
  "GKI_init_timer_list q = q\<lparr>tq_first := None, tq_last := None, tq_last_ticks := 0\<rparr>"

definition GKI_init_timer_list_entry :: "nat \<Rightarrow> tl_heap \<Rightarrow> tl_heap option" where
  "GKI_init_timer_list_entry a = ent_upd a (\<lambda>e. e\<lparr>e_next := None, e_prev := None,
     e_ticks := GKI_UNUSED_LIST_ENTRY, e_in_use := False\<rparr>)"

partial_function (option) skip_expired :: "tl_heap \<Rightarrow> ptr \<Rightarrow> u16 \<Rightarrow> (ptr \<times> u16) option" where
  "skip_expired h p num =
     (if p = None then Some (None, num)
      else Option.bind (h (the p)) (\<lambda>e.
        if e_ticks e \<le> 0 then skip_expired h (e_next e) (num + 1) else Some (p, num)))"

partial_function (option) age_entries :: "tl_heap \<Rightarrow> ptr \<Rightarrow> int \<Rightarrow> u16 \<Rightarrow> (tl_heap \<times> u16) option" where
  "age_entries h p rem num =
     (if p = None \<or> rem \<le> 0 then Some (h, num)
      else Option.bind (h (the p)) (\<lambda>e.
        let v = e_ticks e - rem in
        age_entries (h(the p \<mapsto> e\<lparr>e_ticks := (if v \<le> 0 then 0 else v)\<rparr>)) (e_next e) (rem - e_ticks e)
          (if v \<le> 0 then num + 1 else num)))"

definition GKI_update_timer_list :: "timer_q \<Rightarrow> int \<Rightarrow> tl_heap \<Rightarrow> (u16 \<times> tl_heap \<times> timer_q) option" where
  "GKI_update_timer_list q n h =
     Option.bind (skip_expired h (tq_first q) 0) (\<lambda>(p, num).
     Option.bind (age_entries h p n num) (\<lambda>(h, num).
     Some (num, h, if 0 < tq_last_ticks q
       then q\<lparr>tq_last_ticks := (if tq_last_ticks q - n < 0 then 0 else tq_last_ticks q - n)\<rparr> else q)))"

partial_function (option) sum_until :: "tl_heap \<Rightarrow> ptr \<Rightarrow> nat \<Rightarrow> u32 \<Rightarrow> u32 option" where
  "sum_until h p target acc =
     (if p = None then Some 0
      else Option.bind (h (the p)) (\<lambda>e.
        if p = Some target then Some (acc + word_of_int (e_ticks e))
        else sum_until h (e_next e) target (acc + word_of_int (e_ticks e))))"

definition GKI_get_remaining_ticks :: "timer_q \<Rightarrow> nat \<Rightarrow> tl_heap \<Rightarrow> u32 option" where
  "GKI_get_remaining_ticks q target h =
     Option.bind (h target) (\<lambda>e. if e_in_use e then sum_until h (tq_first q) target 0 else Some 0)"

text \<open>The walk to the entry in front of which a new one belongs: it and the ticks left.\<close>

partial_function (option) find_slot :: "tl_heap \<Rightarrow> ptr \<Rightarrow> int \<Rightarrow> (nat \<times> int) option" where
  "find_slot h p v =
     (if p = None then None
      else Option.bind (h (the p)) (\<lambda>e.
        if v > e_ticks e then find_slot h (e_next e) (if 0 < e_ticks e then v - e_ticks e else v)
        else Some (the p, v)))"

text \<open>The registration of a list with the control block: nothing happens when the table is full.\<close>

definition register_queue :: "nat \<Rightarrow> timer_com \<Rightarrow> timer_com" where
  "register_queue qa s =
     (if list_ex (\<lambda>i. timer_queues s i = Some qa) [0..<GKI_MAX_TIMER_QUEUES] then s
      else case filter (\<lambda>i. timer_queues s i = None) [0..<GKI_MAX_TIMER_QUEUES] of
             [] \<Rightarrow> s
           | i # _ \<Rightarrow> s\<lparr>timer_queues := (timer_queues s)(i \<mapsto> qa)\<rparr>)"

definition unregister_queue :: "nat \<Rightarrow> timer_com \<Rightarrow> timer_com" where
  "unregister_queue qa s =
     (case filter (\<lambda>i. timer_queues s i = Some qa) [0..<GKI_MAX_TIMER_QUEUES] of
        [] \<Rightarrow> s
      | i # _ \<Rightarrow> s\<lparr>timer_queues := (timer_queues s)(i := None)\<rparr>)"

definition append_entry :: "timer_q \<Rightarrow> nat \<Rightarrow> tl_heap \<Rightarrow> (tl_heap \<times> timer_q) option" where
  "append_entry q a h = do {
     e \<leftarrow> h a;
     (h, q) \<leftarrow> (if tq_first q = None then Some (h, q\<lparr>tq_first := Some a\<rparr>)
               else do {
                 h \<leftarrow> (case tq_last q of Some l \<Rightarrow> ent_upd l (\<lambda>x. x\<lparr>e_next := Some a\<rparr>) h | None \<Rightarrow> Some h);
                 h \<leftarrow> ent_upd a (\<lambda>x. x\<lparr>e_prev := tq_last q\<rparr>) h;
                 Some (h, q) });
     h \<leftarrow> ent_upd a (\<lambda>x. x\<lparr>e_next := None, e_ticks := e_ticks e - tq_last_ticks q\<rparr>) h;
     Some (h, q\<lparr>tq_last := Some a, tq_last_ticks := e_ticks e\<rparr>) }"

definition insert_entry :: "timer_q \<Rightarrow> nat \<Rightarrow> tl_heap \<Rightarrow> (tl_heap \<times> timer_q) option" where
  "insert_entry q a h = do {
     e \<leftarrow> h a;
     (b, v) \<leftarrow> find_slot h (tq_first q) (e_ticks e);
     h \<leftarrow> ent_upd a (\<lambda>x. x\<lparr>e_ticks := v\<rparr>) h;
     (h, q) \<leftarrow> (if tq_first q = Some b then do {
                 h \<leftarrow> ent_upd a (\<lambda>x. x\<lparr>e_next := Some b\<rparr>) h;
                 h \<leftarrow> ent_upd b (\<lambda>x. x\<lparr>e_prev := Some a\<rparr>) h;
                 Some (h, q\<lparr>tq_first := Some a\<rparr>) }
               else do {
                 y \<leftarrow> h b;
                 c \<leftarrow> e_prev y;
                 h \<leftarrow> ent_upd c (\<lambda>x. x\<lparr>e_next := Some a\<rparr>) h;
                 h \<leftarrow> ent_upd a (\<lambda>x. x\<lparr>e_prev := Some c\<rparr>) h;
                 h \<leftarrow> ent_upd b (\<lambda>x. x\<lparr>e_prev := Some a\<rparr>) h;
                 h \<leftarrow> ent_upd a (\<lambda>x. x\<lparr>e_next := Some b\<rparr>) h;
                 Some (h, q) });
     h \<leftarrow> ent_upd b (\<lambda>x. x\<lparr>e_ticks := e_ticks x - v\<rparr>) h;
     Some (h, q) }"

text \<open>\<open>qa\<close> is the address of the list object \<open>q\<close>. NULL arguments change nothing in the code.\<close>

definition GKI_add_to_timer_list :: "nat \<Rightarrow> timer_q \<Rightarrow> nat \<Rightarrow> tl_heap \<Rightarrow> timer_com \<Rightarrow> (tl_heap \<times> timer_q \<times> timer_com) option" where
  "GKI_add_to_timer_list qa q a h s = do {
     e \<leftarrow> h a;
     if 0 \<le> e_ticks e then do {
       (h, q) \<leftarrow> (if tq_last_ticks q \<le> e_ticks e then append_entry q a h else insert_entry q a h);
       h \<leftarrow> ent_upd a (\<lambda>x. x\<lparr>e_in_use := True\<rparr>) h;
       Some (h, q, register_queue qa s) }
     else Some (h, q, s) }"

text \<open>The four cases of unlinking; the answer \<open>False\<close> is the early return on a broken chain.\<close>

definition unlink_entry :: "timer_q \<Rightarrow> nat \<Rightarrow> timer_ent \<Rightarrow> tl_heap \<Rightarrow> (bool \<times> tl_heap \<times> timer_q) option" where
  "unlink_entry q a e h =
     (if tq_first q = Some a then do {
        let q = q\<lparr>tq_first := e_next e\<rparr>;
        h \<leftarrow> (case tq_first q of Some f \<Rightarrow> ent_upd f (\<lambda>x. x\<lparr>e_prev := None\<rparr>) h | None \<Rightarrow> Some h);
        Some (True, h, if tq_last q = Some a then q\<lparr>tq_last := None\<rparr> else q) }
      else if tq_last q = Some a then do {
        let q = q\<lparr>tq_last := e_prev e\<rparr>;
        h \<leftarrow> (case tq_last q of Some l \<Rightarrow> ent_upd l (\<lambda>x. x\<lparr>e_next := None\<rparr>) h | None \<Rightarrow> Some h);
        Some (True, h, q) }
      else case e_next e of None \<Rightarrow> Some (False, h, q)
        | Some n \<Rightarrow> do {
            y \<leftarrow> h n;
            if e_prev y \<noteq> Some a then Some (False, h, q)
            else do {
              h \<leftarrow> ent_upd n (\<lambda>x. x\<lparr>e_prev := e_prev e\<rparr>) h;
              case e_prev e of None \<Rightarrow> Some (False, h, q)
              | Some p \<Rightarrow> do {
                  z \<leftarrow> h p;
                  if e_next z \<noteq> Some a then Some (False, h, q)
                  else do { h \<leftarrow> ent_upd p (\<lambda>x. x\<lparr>e_next := Some n\<rparr>) h; Some (True, h, q) } } } })"

definition GKI_remove_from_timer_list :: "nat \<Rightarrow> timer_q \<Rightarrow> nat \<Rightarrow> tl_heap \<Rightarrow> timer_com \<Rightarrow> (tl_heap \<times> timer_q \<times> timer_com) option" where
  "GKI_remove_from_timer_list qa q a h s = do {
     e \<leftarrow> h a;
     if \<not> e_in_use e \<or> tq_first q = None then Some (h, q, s)
     else do {
       (h, q) \<leftarrow> (case e_next e of
                   Some n \<Rightarrow> do { h \<leftarrow> ent_upd n (\<lambda>x. x\<lparr>e_ticks := e_ticks x + e_ticks e\<rparr>) h; Some (h, q) }
                 | None \<Rightarrow> Some (h, q\<lparr>tq_last_ticks := tq_last_ticks q - e_ticks e\<rparr>));
       (ok, h, q) \<leftarrow> unlink_entry q a e h;
       if \<not> ok then Some (h, q, s)
       else do {
         h \<leftarrow> ent_upd a (\<lambda>x. x\<lparr>e_next := None, e_prev := None, e_ticks := GKI_UNUSED_LIST_ENTRY, e_in_use := False\<rparr>) h;
         Some (h, q, if tq_first q = None \<and> tq_last q = None then unregister_queue qa s else s) } } }"

end
