(* ===== verification/Timer_Update.thy ===== *)
theory Timer_Update
  imports Timer_Model
begin

text \<open>
  The task timers: the ticks that remain of a running timer, the invariant of the control block, and
  the effect of the operations on both.
\<close>

section \<open>Remaining ticks\<close>

text \<open>The counters are adjusted lazily: \<open>elapsed\<close> ticks have passed since the last sweep.\<close>

definition elapsed :: "timer_com \<Rightarrow> int" where
  "elapsed s = OSNumOrigTicks s - OSTicksTilExp s"

definition remaining :: "timer_com \<Rightarrow> nat \<Rightarrow> nat \<Rightarrow> int" where
  "remaining s k t = OSTaskTmr s k t - elapsed s"

definition live :: "timer_com \<Rightarrow> nat \<Rightarrow> nat \<Rightarrow> bool" where
  "live s k t \<longleftrightarrow> k < GKI_NUM_TIMERS \<and> t < TMR_TASKS \<and> OSRdyTbl s t \<noteq> TASK_DEAD"

definition fired :: "timer_com \<Rightarrow> nat \<Rightarrow> nat \<Rightarrow> bool" where
  "fired s k t \<longleftrightarrow> bit (OSWaitEvt s t) (k + 4)"

definition timer_inv :: "timer_com \<Rightarrow> bool" where
  "timer_inv s \<longleftrightarrow> 0 \<le> OSNumOrigTicks s \<and> OSNumOrigTicks s \<le> GKI_MAX_INT32
     \<and> 0 \<le> elapsed s \<and> \<not> timer_nesting s
     \<and> (\<forall>k t. 0 \<le> OSTaskTmr s k t \<and> 0 \<le> OSTaskTmrR s k t)
     \<and> (\<forall>k t. OSTaskTmr s k t \<le> GKI_MAX_INT32 \<and> OSTaskTmrR s k t \<le> GKI_MAX_INT32)
     \<and> (\<forall>k t. live s k t \<longrightarrow> OSTaskTmr s k t \<noteq> 0 \<longrightarrow> OSNumOrigTicks s = 0 \<longrightarrow>
          GKI_MAX_INT32 \<le> OSTaskTmr s k t \<and> elapsed s = 0)
     \<and> (\<forall>k t. live s k t \<longrightarrow> OSTaskTmr s k t \<noteq> 0 \<longrightarrow>
          OSNumOrigTicks s \<le> OSTaskTmr s k t \<and> elapsed s < OSTaskTmr s k t)
     \<and> (OSTicksTilStop s \<noteq> 0 \<longrightarrow> \<not> gki_timers_is_timer_running s)"

lemma running_iff:
  "gki_timers_is_timer_running s \<longleftrightarrow> (\<exists>t < TMR_TASKS. \<exists>k < GKI_NUM_TIMERS. OSTaskTmr s k t \<noteq> 0)"
  by (auto simp: gki_timers_is_timer_running_def list_ex_iff Bex_def)

lemma event_bit:
  assumes "j < GKI_NUM_TIMERS" "k < GKI_NUM_TIMERS"
  shows "bit (w OR TIMER_EVT_MASK j) (k + 4) \<longleftrightarrow> bit w (k + 4) \<or> j = k"
proof -
  have "j = 0 \<or> j = 1 \<or> j = 2" "k = 0 \<or> k = 1 \<or> k = 2" using assms by (auto simp: GKI_NUM_TIMERS_def)
  then show ?thesis by (elim disjE) (simp_all add: TIMER_EVT_MASK_def bit_simps)
qed

section \<open>One sweep\<close>

definition aged :: "timer_com \<Rightarrow> nat \<Rightarrow> nat \<Rightarrow> int" where
  "aged s k t = (let v = OSTaskTmr s k t in
     if 0 < v then (if v \<le> OSNumOrigTicks s then OSTaskTmrR s k t else v - OSNumOrigTicks s) else v)"

definition due :: "timer_com \<Rightarrow> nat \<Rightarrow> nat \<Rightarrow> bool" where
  "due s k t \<longleftrightarrow> 0 < OSTaskTmr s k t \<and> OSTaskTmr s k t \<le> OSNumOrigTicks s"

text \<open>What a sweep leaves alone.\<close>

definition sweep_frame :: "timer_com \<Rightarrow> timer_com \<Rightarrow> bool" where
  "sweep_frame s s' \<longleftrightarrow> OSNumOrigTicks s' = OSNumOrigTicks s \<and> OSTicksTilExp s' = OSTicksTilExp s
     \<and> OSTaskTmrR s' = OSTaskTmrR s \<and> OSTicksTilStop s' = OSTicksTilStop s \<and> OSTicks s' = OSTicks s
     \<and> timer_nesting s' = timer_nesting s \<and> tick_cb s' = tick_cb s
     \<and> (\<forall>t. OSRdyTbl s' t = TASK_DEAD \<longleftrightarrow> OSRdyTbl s t = TASK_DEAD)"

lemma sweep_frame_trans: "sweep_frame a b \<Longrightarrow> sweep_frame b c \<Longrightarrow> sweep_frame a c"
  by (simp add: sweep_frame_def)

lemma sweep_frame_refl: "sweep_frame a a"
  by (simp add: sweep_frame_def)

text \<open>
  The timers of the pairs in \<open>A\<close> have been swept: their values and events are those of \<open>aged\<close> and \<open>due\<close>,
  the others are unchanged, and \<open>nx\<close> is at most every swept timer that runs.
\<close>

definition swept :: "timer_com \<Rightarrow> int \<Rightarrow> (nat \<times> nat) set \<Rightarrow> timer_com \<times> int \<Rightarrow> bool" where
  "swept s nx A = (\<lambda>(s', nx'). sweep_frame s s' \<and> nx' \<le> nx \<and> (0 < nx \<longrightarrow> 0 < nx')
     \<and> (\<forall>k t. OSTaskTmr s' k t = (if (k, t) \<in> A then aged s k t else OSTaskTmr s k t))
     \<and> (\<forall>k t. (k, t) \<in> A \<longrightarrow> 0 < aged s k t \<longrightarrow> nx' \<le> aged s k t)
     \<and> (\<forall>k t. k < GKI_NUM_TIMERS \<longrightarrow> fired s' k t = (fired s k t \<or> (k, t) \<in> A \<and> due s k t)))"

lemma swept_timer:
  assumes "k < GKI_NUM_TIMERS" "swept s nx A (s', nx')" "(k, t) \<notin> A"
  shows "swept s nx (insert (k, t) A) (sweep_timer t k (s', nx'))"
proof -
  have v: "OSTaskTmr s' k t = OSTaskTmr s k t" "OSNumOrigTicks s' = OSNumOrigTicks s"
    "OSTaskTmrR s' = OSTaskTmrR s" using assms by (auto simp: swept_def sweep_frame_def)
  define s2 where "s2 = fst (sweep_timer t k (s', nx'))"
  define n2 where "n2 = snd (sweep_timer t k (s', nx'))"
  have fr: "sweep_frame s' s2"
    by (auto simp: s2_def sweep_timer_def Let_def set_timer_def send_timer_event_def sweep_frame_def)
  have tm: "OSTaskTmr s2 k' t' = (if k' = k \<and> t' = t then aged s k t else OSTaskTmr s' k' t')" for k' t'
    using v by (auto simp: s2_def sweep_timer_def Let_def set_timer_def send_timer_event_def aged_def)
  have ev: "OSWaitEvt s2 t' = (if t' = t \<and> due s k t then OSWaitEvt s' t OR TIMER_EVT_MASK k else OSWaitEvt s' t')" for t'
    using v by (auto simp: s2_def sweep_timer_def Let_def set_timer_def send_timer_event_def due_def)
  have n: "n2 = (if 0 < aged s k t \<and> aged s k t < nx' then aged s k t else nx')"
    using tm [of k t] by (simp add: s2_def n2_def sweep_timer_def Let_def)
  have fi: "fired s2 k' t' = (fired s' k' t' \<or> (k' = k \<and> t' = t \<and> due s k t))" if "k' < GKI_NUM_TIMERS" for k' t'
    using event_bit [OF assms(1) that] by (auto simp: fired_def ev)
  have nn: "n2 \<le> nx'" using n by simp
  have mn: "n2 \<le> aged s k' t'" if "(k', t') \<in> insert (k, t) A" "0 < aged s k' t'" for k' t'
  proof (cases "(k', t') \<in> A")
    case True
    then have "nx' \<le> aged s k' t'" using assms(2) that by (simp add: swept_def)
    then show ?thesis using nn by simp
  next
    case False
    then show ?thesis using that n by auto
  qed
  have ps: "0 < nx \<longrightarrow> 0 < n2" using n assms(2) by (simp add: swept_def)
  have "swept s nx (insert (k, t) A) (s2, n2)"
    using assms(2,3) sweep_frame_trans [OF _ fr, of s] tm nn mn ps fi
    unfolding swept_def by (simp add: case_prod_beta) auto
  then show ?thesis by (simp add: s2_def n2_def)
qed

lemma swept_timers:
  assumes "swept s nx A (s', nx')" "\<And>k. (k, t) \<notin> A" "n \<le> GKI_NUM_TIMERS"
  shows "swept s nx (A \<union> {..<n} \<times> {t}) (fold (sweep_timer t) [0..<n] (s', nx'))"
  using assms(3)
proof (induction n)
  case 0
  then show ?case using assms(1) by simp
next
  case (Suc n)
  obtain s1 n1 where 1: "fold (sweep_timer t) [0..<n] (s', nx') = (s1, n1)" by fastforce
  have "swept s nx (insert (n, t) (A \<union> {..<n} \<times> {t})) (sweep_timer t n (s1, n1))"
    using Suc 1 assms(2) by (intro swept_timer) simp_all
  moreover have "insert (n, t) (A \<union> {..<n} \<times> {t}) = A \<union> {..<Suc n} \<times> {t}" by (auto simp: less_Suc_eq)
  ultimately show ?case using 1 by simp
qed

lemma swept_wait:
  assumes "swept s nx A (s', nx')" "OSRdyTbl s' t \<noteq> TASK_DEAD"
  shows "swept s nx A (sweep_wait t s', nx')"
proof -
  have "sweep_frame s' (sweep_wait t s')" "OSTaskTmr (sweep_wait t s') = OSTaskTmr s'"
    "OSWaitEvt (sweep_wait t s') = OSWaitEvt s'"
    using assms(2) by (auto simp: sweep_frame_def sweep_wait_def Let_def)
  then show ?thesis using assms(1) sweep_frame_trans [of s s'] by (auto simp: swept_def fired_def)
qed

lemma swept_tasks:
  assumes "n \<le> TMR_TASKS"
  shows "swept s nx {(k, t). k < GKI_NUM_TIMERS \<and> t < n \<and> OSRdyTbl s t \<noteq> TASK_DEAD}
    (fold sweep_task [0..<n] (s, nx))"
  using assms
proof (induction n)
  case 0
  then show ?case by (simp add: swept_def sweep_frame_refl)
next
  case (Suc n)
  let ?A = "{(k, t). k < GKI_NUM_TIMERS \<and> t < n \<and> OSRdyTbl s t \<noteq> TASK_DEAD}"
  obtain s1 n1 where 1: "fold sweep_task [0..<n] (s, nx) = (s1, n1)" by fastforce
  have sw: "swept s nx ?A (s1, n1)" using Suc 1 by simp
  then have d: "OSRdyTbl s1 n = TASK_DEAD \<longleftrightarrow> OSRdyTbl s n = TASK_DEAD"
    by (simp add: swept_def sweep_frame_def)
  show ?case
  proof (cases "OSRdyTbl s n = TASK_DEAD")
    case True
    then have "{(k, t). k < GKI_NUM_TIMERS \<and> t < Suc n \<and> OSRdyTbl s t \<noteq> TASK_DEAD} = ?A"
      by (auto simp: less_Suc_eq)
    moreover have "fold sweep_task [0..<Suc n] (s, nx) = sweep_task n (s1, n1)" using 1 by simp
    moreover have "sweep_task n (s1, n1) = (s1, n1)" using d True by (simp add: sweep_task_def)
    ultimately show ?thesis using sw by (simp only:)
  next
    case False
    have "swept s nx (?A \<union> {..<GKI_NUM_TIMERS} \<times> {n}) (fold (sweep_timer n) [0..<GKI_NUM_TIMERS] (sweep_wait n s1, n1))"
      using swept_wait [OF sw] d False by (intro swept_timers) auto
    moreover have "?A \<union> {..<GKI_NUM_TIMERS} \<times> {n} = {(k, t). k < GKI_NUM_TIMERS \<and> t < Suc n \<and> OSRdyTbl s t \<noteq> TASK_DEAD}"
      using False by (auto simp: less_Suc_eq)
    moreover have "fold sweep_task [0..<Suc n] (s, nx) = sweep_task n (s1, n1)" using 1 by simp
    moreover have "sweep_task n (s1, n1) = fold (sweep_timer n) [0..<GKI_NUM_TIMERS] (sweep_wait n s1, n1)"
      using d False by (simp add: sweep_task_def)
    ultimately show ?thesis by (simp only:)
  qed
qed

lemma sweep_live:
  "swept s nx {(k, t). live s k t} (fold sweep_task [0..<TMR_TASKS] (s, nx))"
  using swept_tasks [of TMR_TASKS s nx] by (simp add: live_def)

text \<open>
  \<open>GKI_timer_update\<close>, \<open>GKI_start_timer\<close> and \<open>GKI_stop_timer\<close> keep the invariant and do to the remaining
  ticks what their names say; a timer fires in the first update in which its ticks have passed.
\<close>

section \<open>The update\<close>

definition ticked :: "timer_com \<Rightarrow> int \<Rightarrow> timer_com \<Rightarrow> nat \<Rightarrow> nat \<Rightarrow> bool" where
  "ticked s n s' k t \<longleftrightarrow> live s' k t = live s k t \<and>
     (if OSTaskTmr s k t = 0 then OSTaskTmr s' k t = 0 \<and> fired s' k t = fired s k t
      else if remaining s k t \<le> n
      then fired s' k t \<and> OSTaskTmr s' k t = OSTaskTmrR s k t \<and> elapsed s' = 0
      else fired s' k t = fired s k t \<and> OSTaskTmr s' k t \<noteq> 0 \<and> remaining s' k t = remaining s k t - n)"

lemma timer_invD:
  assumes "timer_inv s"
  shows "0 \<le> OSNumOrigTicks s" "0 \<le> elapsed s" "\<not> timer_nesting s" "0 \<le> OSTaskTmr s k t" "0 \<le> OSTaskTmrR s k t"
    "live s k t \<Longrightarrow> OSTaskTmr s k t \<noteq> 0 \<Longrightarrow> OSNumOrigTicks s \<le> OSTaskTmr s k t"
    "live s k t \<Longrightarrow> OSTaskTmr s k t \<noteq> 0 \<Longrightarrow> elapsed s < OSTaskTmr s k t"
    "OSTicksTilStop s \<noteq> 0 \<Longrightarrow> live s k t \<Longrightarrow> OSTaskTmr s k t = 0"
    "live s k t \<Longrightarrow> OSTaskTmr s k t \<noteq> 0 \<Longrightarrow> OSNumOrigTicks s = 0 \<Longrightarrow> GKI_MAX_INT32 \<le> OSTaskTmr s k t \<and> elapsed s = 0"
    "OSTaskTmr s k t \<le> GKI_MAX_INT32" "OSTaskTmrR s k t \<le> GKI_MAX_INT32" "OSNumOrigTicks s \<le> GKI_MAX_INT32"
  using assms by (auto simp: timer_inv_def running_iff live_def)

text \<open>Without a sweep only the distance to the next expiration shrinks.\<close>

lemma update_no_sweep:
  assumes inv: "timer_inv s" and n: "0 \<le> n"
    and s': "OSTaskTmr s' = OSTaskTmr s" "OSTaskTmrR s' = OSTaskTmrR s" "OSNumOrigTicks s' = OSNumOrigTicks s"
      "OSTicksTilExp s' = OSTicksTilExp s - n" "OSRdyTbl s' = OSRdyTbl s" "OSWaitEvt s' = OSWaitEvt s"
      "\<not> timer_nesting s'" "OSTicksTilStop s' \<noteq> 0 \<longrightarrow> OSTicksTilStop s \<noteq> 0"
    and ok: "0 < OSTicksTilExp s' \<or> OSTicksTilStop s \<noteq> 0"
  shows "timer_inv s' \<and> (\<forall>k t. live s k t \<longrightarrow> ticked s n s' k t)"
proof -
  have el: "elapsed s' = elapsed s + n" using s' by (simp add: elapsed_def)
  have lv: "live s' k t = live s k t" for k t using s' by (simp add: live_def)
  have lt: "elapsed s + n < OSTaskTmr s k t" if "live s k t" "OSTaskTmr s k t \<noteq> 0" for k t
    using ok
  proof
    assume "0 < OSTicksTilExp s'"
    then have "elapsed s + n < OSNumOrigTicks s" using s' by (simp add: elapsed_def)
    then show ?thesis using timer_invD(6) [OF inv that] by simp
  next
    assume "OSTicksTilStop s \<noteq> 0"
    then show ?thesis using timer_invD(8) [OF inv _ that(1)] that(2) by simp
  qed
  have z: "OSNumOrigTicks s \<noteq> 0" if "live s k t" "OSTaskTmr s k t \<noteq> 0" for k t
    using ok
  proof
    assume "0 < OSTicksTilExp s'"
    then show ?thesis using timer_invD(2) [OF inv] n s' by (auto simp: elapsed_def)
  next
    assume "OSTicksTilStop s \<noteq> 0"
    then show ?thesis using timer_invD(8) [OF inv _ that(1)] that(2) by simp
  qed
  have "gki_timers_is_timer_running s' = gki_timers_is_timer_running s" using s' by (simp add: running_iff)
  then have "timer_inv s'"
    using inv n s' el lt z by (auto simp: timer_inv_def lv)
  moreover have "ticked s n s' k t" if "live s k t" for k t
    using lt [OF that] s' el by (auto simp: ticked_def remaining_def fired_def lv)
  ultimately show ?thesis by blast
qed

lemma update_sweep:
  assumes inv: "timer_inv s" and n: "0 \<le> n"
    and s1: "OSTaskTmr s1 = OSTaskTmr s" "OSTaskTmrR s1 = OSTaskTmrR s" "OSNumOrigTicks s1 = elapsed s + n"
      "OSRdyTbl s1 = OSRdyTbl s" "OSWaitEvt s1 = OSWaitEvt s"
      "OSTicksTilStop s1 \<noteq> 0 \<longrightarrow> OSTicksTilStop s \<noteq> 0"
    and sw: "fold sweep_task [0..<TMR_TASKS] (s1, GKI_NO_NEW_TMRS_STARTED) = (s2, nx)"
    and v: "v = (if nx < GKI_NO_NEW_TMRS_STARTED then nx else 0)"
  shows "timer_inv (s2\<lparr>OSTicksTilExp := v, OSNumOrigTicks := v, timer_nesting := False\<rparr>)
    \<and> (\<forall>k t. live s k t \<longrightarrow> ticked s n (s2\<lparr>OSTicksTilExp := v, OSNumOrigTicks := v, timer_nesting := False\<rparr>) k t)"
proof -
  let ?s = "s2\<lparr>OSTicksTilExp := v, OSNumOrigTicks := v, timer_nesting := False\<rparr>"
  have swp: "swept s1 GKI_NO_NEW_TMRS_STARTED {(k, t). live s1 k t} (s2, nx)"
    using sweep_live [of s1 GKI_NO_NEW_TMRS_STARTED] sw by simp
  have lv: "live s1 k t = live s k t" "live s2 k t = live s k t" "live ?s k t = live s k t" for k t
    using swp s1 by (auto simp: live_def swept_def sweep_frame_def)
  have R: "OSTaskTmrR s2 = OSTaskTmrR s" using swp s1 by (simp add: swept_def sweep_frame_def)
  have tm: "OSTaskTmr s2 k t = (if live s k t then aged s1 k t else OSTaskTmr s k t)" for k t
    using swp s1 lv by (simp add: swept_def)
  have fi: "fired s2 k t = (fired s k t \<or> due s1 k t)" if "live s k t" for k t
    using swp that lv s1 by (simp add: swept_def live_def fired_def)
  have nx: "0 < nx" "nx \<le> GKI_NO_NEW_TMRS_STARTED" using swp by (auto simp: swept_def GKI_NO_NEW_TMRS_STARTED_def)
  have min: "v \<le> aged s1 k t" if "live s k t" "0 < aged s1 k t" for k t
    using swp that lv nx v by (auto simp: swept_def)
  have ag: "aged s1 k t = (if OSTaskTmr s k t = 0 then 0
      else if remaining s k t \<le> n then OSTaskTmrR s k t else remaining s k t - n)" for k t
    using timer_invD(4) [OF inv, of k t] s1 by (auto simp: aged_def remaining_def Let_def)
  have ag0: "0 \<le> aged s1 k t" for k t using timer_invD(4,5) [OF inv, of k t] by (simp add: ag)
  have "ticked s n ?s k t" if "live s k t" for k t
  proof -
    have "due s1 k t \<longleftrightarrow> OSTaskTmr s k t \<noteq> 0 \<and> remaining s k t \<le> n"
      using timer_invD(4) [OF inv, of k t] s1 by (auto simp: due_def remaining_def)
    then show ?thesis
      using fi [OF that] tm [of k t] that ag [of k t]
      by (auto simp: ticked_def remaining_def elapsed_def fired_def lv(3))
  qed
  moreover have "timer_inv ?s"
  proof -
    have "OSTicksTilStop s2 = OSTicksTilStop s1" using swp by (simp add: swept_def sweep_frame_def)
    then have stop: "\<not> gki_timers_is_timer_running ?s" if "OSTicksTilStop ?s \<noteq> 0"
    proof -
      have nr: "\<not> gki_timers_is_timer_running s"
        using that \<open>OSTicksTilStop s2 = OSTicksTilStop s1\<close> s1(6) inv by (simp add: timer_inv_def)
      have "OSTaskTmr s2 k t = 0" if "t < TMR_TASKS" "k < GKI_NUM_TIMERS" for k t
        using nr that tm [of k t] ag [of k t] by (auto simp: running_iff)
      then show ?thesis by (auto simp: running_iff)
    qed
    have "0 \<le> v" "v \<le> GKI_MAX_INT32" using nx v by (simp_all add: GKI_NO_NEW_TMRS_STARTED_def GKI_MAX_INT32_def)
    moreover have "OSTaskTmr s2 k t \<le> GKI_MAX_INT32" for k t
    proof -
      have "aged s1 k t \<le> GKI_MAX_INT32"
        using timer_invD(4,10,11) [OF inv, of k t] timer_invD(2) [OF inv] n
        by (auto simp: ag remaining_def GKI_MAX_INT32_def)
      then show ?thesis using tm [of k t] timer_invD(10) [OF inv, of k t] by simp
    qed
    moreover have "GKI_MAX_INT32 \<le> OSTaskTmr s2 k t" if "live s k t" "OSTaskTmr s2 k t \<noteq> 0" "v = 0" for k t
    proof -
      have "0 < aged s1 k t" using tm [of k t] that ag0 [of k t] by simp
      then have "nx \<le> aged s1 k t" using swp that(1) lv by (auto simp: swept_def)
      then show ?thesis
        using tm [of k t] that(1,3) v nx by (auto simp: GKI_NO_NEW_TMRS_STARTED_def GKI_MAX_INT32_def split: if_splits)
    qed
    moreover have "0 \<le> OSTaskTmr s2 k t" for k t using tm [of k t] ag0 timer_invD(4) [OF inv] by simp
    moreover have "v \<le> OSTaskTmr s2 k t \<and> 0 < OSTaskTmr s2 k t" if "live s k t" "OSTaskTmr s2 k t \<noteq> 0" for k t
    proof -
      have "0 < aged s1 k t" using tm [of k t] that ag0 [of k t] by simp
      then show ?thesis using min [OF that(1)] tm [of k t] that(1) by simp
    qed
    ultimately show ?thesis
      using R timer_invD(5,11) [OF inv] stop lv(3) unfolding timer_inv_def by (auto simp: elapsed_def)
  qed
  ultimately show ?thesis by blast
qed

lemma timer_update_ok:
  assumes inv: "timer_inv s" and n: "0 \<le> n" "n < 2 ^ 32"
  shows "timer_inv (GKI_timer_update n s) \<and> (\<forall>k t. live s k t \<longrightarrow> ticked s n (GKI_timer_update n s) k t)"
proof -
  let ?s0 = "s\<lparr>OSTicks := OSTicks s + word_of_int n, OSTicksTilExp := OSTicksTilExp s - n, timer_nesting := True\<rparr>"
  have nn: "\<not> timer_nesting s" "n mod 4294967296 = n" using inv n by (simp_all add: timer_inv_def)
  consider (stop) "OSTicksTilStop s \<noteq> 0" "int (OSTicksTilStop s) \<le> n"
    | (wait) "\<not> (OSTicksTilStop s \<noteq> 0 \<and> int (OSTicksTilStop s) \<le> n)" "0 < OSTicksTilExp s - n"
    | (sweep) "\<not> (OSTicksTilStop s \<noteq> 0 \<and> int (OSTicksTilStop s) \<le> n)" "\<not> 0 < OSTicksTilExp s - n"
    by blast
  then show ?thesis
  proof cases
    case stop
    then show ?thesis
      using nn by (intro update_no_sweep [OF inv n(1)]) (simp_all add: GKI_timer_update_def Let_def call_tick_cb_def)
  next
    case wait
    then show ?thesis
      using nn by (intro update_no_sweep [OF inv n(1)]) (auto simp: GKI_timer_update_def Let_def)
  next
    case sweep
    define s0 where "s0 = (if OSTicksTilStop s \<noteq> 0
      then ?s0\<lparr>OSTicksTilStop := nat ((int (OSTicksTilStop s) - n) mod 2 ^ 32)\<rparr> else ?s0)"
    define s1 where "s1 = s0\<lparr>OSNumOrigTicks := OSNumOrigTicks s - (OSTicksTilExp s - n)\<rparr>"
    obtain s2 nx where sw: "fold sweep_task [0..<TMR_TASKS] (s1, GKI_NO_NEW_TMRS_STARTED) = (s2, nx)" by fastforce
    let ?v = "if nx < GKI_NO_NEW_TMRS_STARTED then nx else 0"
    have "GKI_timer_update n s = s2\<lparr>OSTicksTilExp := ?v, OSNumOrigTicks := ?v, timer_nesting := False\<rparr>"
    proof -
      have a: "OSTicksTilExp s0 = OSTicksTilExp s - n" "OSNumOrigTicks s0 = OSNumOrigTicks s" by (simp_all add: s0_def)
      have "GKI_timer_update n s = (let (s, nx) = fold sweep_task [0..<TMR_TASKS]
            (s0\<lparr>OSNumOrigTicks := OSNumOrigTicks s0 - OSTicksTilExp s0\<rparr>, GKI_NO_NEW_TMRS_STARTED);
            v = (if nx < GKI_NO_NEW_TMRS_STARTED then nx else 0) in
           s\<lparr>OSTicksTilExp := v, OSNumOrigTicks := v, timer_nesting := False\<rparr>)"
        using sweep nn by (auto simp: GKI_timer_update_def Let_def s0_def)
      then show ?thesis using sw by (simp add: a s1_def Let_def)
    qed
    moreover have "timer_inv (s2\<lparr>OSTicksTilExp := ?v, OSNumOrigTicks := ?v, timer_nesting := False\<rparr>)
      \<and> (\<forall>k t. live s k t \<longrightarrow> ticked s n (s2\<lparr>OSTicksTilExp := ?v, OSNumOrigTicks := ?v, timer_nesting := False\<rparr>) k t)"
      by (rule update_sweep [OF inv n(1) _ _ _ _ _ _ sw refl])
        (simp_all add: s1_def s0_def elapsed_def)
    ultimately show ?thesis by simp
  qed
qed


section \<open>Starting and stopping\<close>

lemma adjust_ok:
  "elapsed (gki_adjust_timer_count n s) = elapsed s"
  "OSTaskTmr (gki_adjust_timer_count n s) = OSTaskTmr s"
  "OSTaskTmrR (gki_adjust_timer_count n s) = OSTaskTmrR s"
  "OSRdyTbl (gki_adjust_timer_count n s) = OSRdyTbl s" "OSWaitEvt (gki_adjust_timer_count n s) = OSWaitEvt s"
  "OSTicksTilStop (gki_adjust_timer_count n s) = OSTicksTilStop s"
  "timer_nesting (gki_adjust_timer_count n s) = timer_nesting s"
  by (auto simp: gki_adjust_timer_count_def elapsed_def)

lemma start_timer_ok:
  fixes c :: bool
  assumes inv: "timer_inv s" and lv: "live s k t" and n: "0 < n" "elapsed s + n < GKI_MAX_INT32"
  defines "s' \<equiv> GKI_start_timer t k n c s"
  shows "timer_inv s' \<and> OSTaskTmr s' k t \<noteq> 0 \<and> remaining s' k t = n
    \<and> OSTaskTmrR s' k t = (if c then n else 0) \<and> elapsed s' = elapsed s
    \<and> (\<forall>k' t'. (k', t') \<noteq> (k, t) \<longrightarrow> OSTaskTmr s' k' t' = OSTaskTmr s k' t' \<and> OSTaskTmrR s' k' t' = OSTaskTmrR s k' t')
    \<and> OSWaitEvt s' = OSWaitEvt s \<and> OSRdyTbl s' = OSRdyTbl s"
proof -
  define s0 where "s0 = (if \<not> gki_timers_is_timer_running s then
                 (if OSTicksTilStop s = 0 then
                    (if tick_cb s then call_tick_cb True (s\<lparr>system_tick_running := True\<rparr>) else s)
                  else s\<lparr>OSTicksTilStop := 0\<rparr>)
               else s)"
  have s0: "OSTaskTmr s0 = OSTaskTmr s" "OSTaskTmrR s0 = OSTaskTmrR s" "OSNumOrigTicks s0 = OSNumOrigTicks s"
    "OSTicksTilExp s0 = OSTicksTilExp s" "OSRdyTbl s0 = OSRdyTbl s" "OSWaitEvt s0 = OSWaitEvt s"
    "timer_nesting s0 = timer_nesting s" "OSTicksTilStop s0 = 0"
    using inv by (auto simp: s0_def call_tick_cb_def timer_inv_def)
  let ?r = "if c then n else 0"
  define s1 where "s1 = set_timer k t (n + elapsed s) ?r s0"
  have e: "s' = gki_adjust_timer_count n s1"
    using n lv by (auto simp: s'_def GKI_start_timer_def Let_def s0_def [symmetric] s0 s1_def elapsed_def live_def)
  have s1: "OSNumOrigTicks s1 = OSNumOrigTicks s" "OSTicksTilExp s1 = OSTicksTilExp s" "elapsed s1 = elapsed s"
    "OSRdyTbl s1 = OSRdyTbl s" "OSWaitEvt s1 = OSWaitEvt s" "\<not> timer_nesting s1" "OSTicksTilStop s1 = 0"
    using s0 inv by (simp_all add: s1_def set_timer_def elapsed_def timer_inv_def)
  have tm: "OSTaskTmr s1 k' t' = (if k' = k \<and> t' = t then n + elapsed s else OSTaskTmr s k' t')"
    "OSTaskTmrR s1 k' t' = (if k' = k \<and> t' = t then ?r else OSTaskTmrR s k' t')" for k' t'
    by (auto simp: s1_def set_timer_def s0)
  note ad = adjust_ok [of n s1]
  have lv': "live s' k' t' = live s k' t'" for k' t' by (simp add: e live_def ad s1)
  have el: "0 \<le> elapsed s" by (rule timer_invD(2) [OF inv])
  have num: "OSNumOrigTicks s' = (if OSNumOrigTicks s = 0 \<or> n < OSTicksTilExp s \<and> 0 < OSTicksTilExp s
      then elapsed s + n else OSNumOrigTicks s)"
    using n by (auto simp: e gki_adjust_timer_count_def s1 elapsed_def)
  have "timer_inv s'"
  proof -
    have "OSNumOrigTicks s' \<le> OSTaskTmr s' k' t' \<and> elapsed s' < OSTaskTmr s' k' t'"
      if l: "live s k' t'" "OSTaskTmr s' k' t' \<noteq> 0" for k' t'
    proof (cases "k' = k \<and> t' = t")
      case True
      have "OSNumOrigTicks s' \<le> n + elapsed s" using num n by (auto simp: elapsed_def)
      moreover have "OSTaskTmr s' k' t' = n + elapsed s" using True by (simp add: e ad tm)
      moreover have "elapsed s' = elapsed s" by (simp add: e ad s1)
      ultimately show ?thesis using n by simp
    next
      case False
      then have o1: "OSTaskTmr s' k' t' = OSTaskTmr s k' t'" by (auto simp: e ad tm)
      then have o: "OSTaskTmr s' k' t' = OSTaskTmr s k' t'" "OSTaskTmr s k' t' \<noteq> 0" using l by simp_all
      have "OSNumOrigTicks s' \<le> OSTaskTmr s k' t'"
        using num timer_invD(6,9) [OF inv l(1) o(2)] n by (auto simp: elapsed_def split: if_splits)
      then show ?thesis using timer_invD(7) [OF inv l(1) o(2)] o(1) by (simp add: e ad s1)
    qed
    moreover have "0 < OSNumOrigTicks s'" using num timer_invD(1) [OF inv] n el by auto
    moreover have "OSNumOrigTicks s' \<le> GKI_MAX_INT32" using num n timer_invD(12) [OF inv] by auto
    ultimately show ?thesis
      using inv n el s1 lv' unfolding timer_inv_def by (auto simp: e ad tm)
  qed
  then show ?thesis using n el by (auto simp: e ad tm remaining_def s1)
qed

lemma stop_timer_ok:
  fixes t :: nat
  assumes inv: "timer_inv s" and k: "k < GKI_NUM_TIMERS"
  defines "s' \<equiv> GKI_stop_timer t k s"
  shows "timer_inv s' \<and> OSTaskTmr s' k t = 0 \<and> OSTaskTmrR s' k t = 0 \<and> elapsed s' = elapsed s
    \<and> (\<forall>k' t'. (k', t') \<noteq> (k, t) \<longrightarrow> OSTaskTmr s' k' t' = OSTaskTmr s k' t' \<and> OSTaskTmrR s' k' t' = OSTaskTmrR s k' t')
    \<and> OSWaitEvt s' = OSWaitEvt s \<and> OSRdyTbl s' = OSRdyTbl s"
proof -
  define s1 where "s1 = set_timer k t 0 0 s"
  have s1: "OSTaskTmr s1 k' t' = (if k' = k \<and> t' = t then 0 else OSTaskTmr s k' t')"
    "OSTaskTmrR s1 k' t' = (if k' = k \<and> t' = t then 0 else OSTaskTmrR s k' t')"
    "OSNumOrigTicks s1 = OSNumOrigTicks s" "OSTicksTilExp s1 = OSTicksTilExp s" "elapsed s1 = elapsed s"
    "OSRdyTbl s1 = OSRdyTbl s" "OSWaitEvt s1 = OSWaitEvt s" "timer_nesting s1 = timer_nesting s"
    "OSTicksTilStop s1 = OSTicksTilStop s" for k' t'
    by (auto simp: s1_def set_timer_def elapsed_def)
  have r: "\<not> gki_timers_is_timer_running s \<Longrightarrow> \<not> gki_timers_is_timer_running s1"
    by (auto simp: running_iff s1)
  have e: "s' = s1 \<or> (s' = s1\<lparr>OSTicksTilStop := GKI_DELAY_STOP_SYS_TICK\<rparr> \<and> \<not> gki_timers_is_timer_running s1)"
    using k by (auto simp: s'_def GKI_stop_timer_def s1_def [symmetric] Let_def)
  have "timer_inv s1"
    using inv r unfolding timer_inv_def by (auto simp: s1 live_def)
  moreover have "timer_inv (s1\<lparr>OSTicksTilStop := GKI_DELAY_STOP_SYS_TICK\<rparr>)" if "\<not> gki_timers_is_timer_running s1"
    using that \<open>timer_inv s1\<close> unfolding timer_inv_def by (simp add: running_iff live_def elapsed_def)
  ultimately show ?thesis using e by (auto simp: s1 elapsed_def)
qed


section \<open>Runs\<close>

text \<open>A sequence of updates, of any sizes: the timer fires when the sum reaches its ticks, not before.\<close>

lemma ticked_fired: "ticked s n s' k t \<Longrightarrow> fired s k t \<Longrightarrow> fired s' k t"
  by (auto simp: ticked_def split: if_splits)

lemma run_fired:
  assumes "timer_inv s" "live s k t" "\<forall>n \<in> set ns. 0 \<le> n \<and> n < 2 ^ 32" "fired s k t"
  shows "fired (fold GKI_timer_update ns s) k t"
  using assms
proof (induction ns arbitrary: s)
  case (Cons n ns)
  have n: "0 \<le> n" "n < 2 ^ 32" using Cons.prems(3) by auto
  note u = timer_update_ok [OF Cons.prems(1) n]
  have t: "ticked s n (GKI_timer_update n s) k t" using u Cons.prems(2) by blast
  have "live (GKI_timer_update n s) k t" using t Cons.prems(2) by (simp add: ticked_def)
  moreover have "fired (GKI_timer_update n s) k t" by (rule ticked_fired [OF t Cons.prems(4)])
  ultimately show ?case using Cons.IH [of "GKI_timer_update n s"] u Cons.prems(3) by simp
qed simp

lemma run_timer:
  assumes "timer_inv s" "live s k t" "OSTaskTmr s k t \<noteq> 0" "\<forall>n \<in> set ns. 0 \<le> n \<and> n < 2 ^ 32"
  shows "if sum_list ns < remaining s k t
    then fired (fold GKI_timer_update ns s) k t = fired s k t
      \<and> remaining (fold GKI_timer_update ns s) k t = remaining s k t - sum_list ns
    else fired (fold GKI_timer_update ns s) k t"
  using assms
proof (induction ns arbitrary: s)
  case Nil
  then show ?case using timer_invD(7) [OF Nil(1-3)] by (simp add: remaining_def)
next
  case (Cons n ns)
  let ?s = "GKI_timer_update n s"
  have n: "0 \<le> n" "n < 2 ^ 32" and ns: "\<forall>n \<in> set ns. 0 \<le> n \<and> n < 2 ^ 32" using Cons.prems(4) by auto
  note u = timer_update_ok [OF Cons.prems(1) n]
  have t: "ticked s n ?s k t" using u Cons.prems(2) by blast
  then have l: "live ?s k t" using Cons.prems(2) by (simp add: ticked_def)
  show ?case
  proof (cases "remaining s k t \<le> n")
    case True
    then have "fired ?s k t" using t Cons.prems(3) by (simp add: ticked_def)
    then have "fired (fold GKI_timer_update ns ?s) k t" using run_fired [of ?s k t ns] u l ns by blast
    moreover have "0 \<le> sum_list ns" using ns by (intro sum_list_nonneg) simp
    ultimately show ?thesis using True by simp
  next
    case False
    then have a: "fired ?s k t = fired s k t" "OSTaskTmr ?s k t \<noteq> 0" "remaining ?s k t = remaining s k t - n"
      using t Cons.prems(3) by (auto simp: ticked_def)
    show ?thesis using Cons.IH [of ?s] u l a ns by (simp add: algebra_simps)
  qed
qed

lemma run_inv:
  assumes "timer_inv s" "\<forall>n \<in> set ns. 0 \<le> n \<and> n < 2 ^ 32"
  shows "timer_inv (fold GKI_timer_update ns s)"
  using assms by (induction ns arbitrary: s) (simp_all add: timer_update_ok)

lemma run_silent:
  assumes "timer_inv s" "live s k t" "OSTaskTmr s k t = 0" "\<forall>n \<in> set ns. 0 \<le> n \<and> n < 2 ^ 32"
  shows "OSTaskTmr (fold GKI_timer_update ns s) k t = 0
    \<and> fired (fold GKI_timer_update ns s) k t = fired s k t \<and> timer_inv (fold GKI_timer_update ns s)"
  using assms
proof (induction ns arbitrary: s)
  case (Cons n ns)
  have n: "0 \<le> n" "n < 2 ^ 32" using Cons.prems(4) by auto
  note u = timer_update_ok [OF Cons.prems(1) n]
  have "ticked s n (GKI_timer_update n s) k t" using u Cons.prems(2) by blast
  then show ?case using Cons.IH [of "GKI_timer_update n s"] Cons.prems u by (simp add: ticked_def)
qed simp

end
