(* ===== verification/Timer_List.thy ===== *)
theory Timer_List
  imports Timer_Model
begin

text \<open>
  A timer list as the list of its entries with their deadlines: the doubly linked structure, the
  deadlines as prefix sums of the relative ticks, and the effect of one tick update.
\<close>

section \<open>Neighbours in a list\<close>

definition hd_opt :: "'a list \<Rightarrow> 'a option" where
  "hd_opt xs = (if xs = [] then None else Some (hd xs))"

definition last_opt :: "'a list \<Rightarrow> 'a option" where
  "last_opt xs = (if xs = [] then None else Some (last xs))"

lemma hd_opt_simps [simp]: "hd_opt [] = None" "hd_opt (x # xs) = Some x" "hd_opt (xs @ ys) = (if xs = [] then hd_opt ys else hd_opt xs)"
  by (simp_all add: hd_opt_def)

lemma last_opt_simps [simp]:
  "last_opt [] = None" "last_opt [x] = Some x" "last_opt (xs @ ys) = (if ys = [] then last_opt xs else last_opt ys)"
  "last_opt (x # y # xs) = last_opt (y # xs)"
  by (simp_all add: last_opt_def)

definition nxt :: "'a list \<Rightarrow> 'a \<Rightarrow> 'a option" where
  "nxt xs x = hd_opt (tl (dropWhile (\<lambda>y. y \<noteq> x) xs))"

definition prv :: "'a list \<Rightarrow> 'a \<Rightarrow> 'a option" where
  "prv xs x = last_opt (takeWhile (\<lambda>y. y \<noteq> x) xs)"

lemma nxt_mid: "a \<notin> set ys \<Longrightarrow> nxt (ys @ a # zs) a = hd_opt zs"
  by (induction ys) (auto simp: nxt_def)

lemma prv_mid: "a \<notin> set ys \<Longrightarrow> prv (ys @ a # zs) a = last_opt ys"
proof -
  assume "a \<notin> set ys"
  then have "takeWhile (\<lambda>y. y \<noteq> a) (ys @ a # zs) = ys" by (induction ys) auto
  then show ?thesis by (simp add: prv_def)
qed

lemma nxt_insert:
  assumes "distinct (ys @ a # zs)" "x \<in> set (ys @ zs)"
  shows "nxt (ys @ a # zs) x = (if ys \<noteq> [] \<and> x = last ys then Some a else nxt (ys @ zs) x)"
    and "ys \<noteq> [] \<Longrightarrow> nxt (ys @ zs) (last ys) = hd_opt zs"
proof -
  show "nxt (ys @ zs) (last ys) = hd_opt zs" if "ys \<noteq> []"
  proof -
    have y: "ys = butlast ys @ [last ys]" using that by simp
    have "last ys \<notin> set (butlast ys)" using assms(1) that
      by (metis distinct_append not_distinct_conv_prefix y)
    then show ?thesis using nxt_mid [of "last ys" "butlast ys" zs] y by (metis append.assoc append_Cons append_Nil)
  qed
  show "nxt (ys @ a # zs) x = (if ys \<noteq> [] \<and> x = last ys then Some a else nxt (ys @ zs) x)"
  proof (cases "x \<in> set ys")
    case True
    then obtain us vs where u: "ys = us @ x # vs" "x \<notin> set us" by (meson split_list_first)
    have "x \<notin> set vs" using assms(1) u by simp
    then have "x = last ys \<longleftrightarrow> vs = []" using u by auto
    then show ?thesis
      using u nxt_mid [of x us "vs @ a # zs"] nxt_mid [of x us "vs @ zs"] by auto
  next
    case False
    then have "x \<in> set zs" using assms(2) by simp
    then obtain us vs where u: "zs = us @ x # vs" "x \<notin> set us" by (meson split_list_first)
    have "x \<noteq> a" "ys \<noteq> [] \<longrightarrow> x \<noteq> last ys" using assms(1) u False by auto
    then show ?thesis
      using u False nxt_mid [of x "ys @ a # us" vs] nxt_mid [of x "ys @ us" vs] by auto
  qed
qed

lemma prv_insert:
  assumes "distinct (ys @ a # zs)" "x \<in> set (ys @ zs)"
  shows "prv (ys @ a # zs) x = (if zs \<noteq> [] \<and> x = hd zs then Some a else prv (ys @ zs) x)"
    and "zs \<noteq> [] \<Longrightarrow> prv (ys @ zs) (hd zs) = last_opt ys"
proof -
  show p: "prv (ys @ zs) (hd zs) = last_opt ys" if "zs \<noteq> []"
    using that assms(1) prv_mid [of "hd zs" ys "tl zs"] by (cases zs) auto
  show "prv (ys @ a # zs) x = (if zs \<noteq> [] \<and> x = hd zs then Some a else prv (ys @ zs) x)"
  proof (cases "x \<in> set ys")
    case True
    then obtain us vs where u: "ys = us @ x # vs" "x \<notin> set us" by (meson split_list_first)
    then have "x \<notin> set zs" using assms(1) by auto
    then show ?thesis
      using u prv_mid [of x us "vs @ a # zs"] prv_mid [of x us "vs @ zs"] by auto
  next
    case False
    then have "x \<in> set zs" using assms(2) by simp
    then obtain us vs where u: "zs = us @ x # vs" "x \<notin> set us" by (meson split_list_first)
    have "x \<noteq> a" using assms(1) u by auto
    then show ?thesis
      using u False prv_mid [of x "ys @ a # us" vs] prv_mid [of x "ys @ us" vs] by (cases us) auto
  qed
qed

section \<open>Representation\<close>

definition tk :: "tl_heap \<Rightarrow> nat \<Rightarrow> int" where
  "tk h a = (case h a of None \<Rightarrow> 0 | Some e \<Rightarrow> e_ticks e)"

definition links :: "tl_heap \<Rightarrow> nat list \<Rightarrow> bool" where
  "links h xs \<longleftrightarrow> distinct xs \<and> (\<forall>x \<in> set xs. \<exists>e. h x = Some e \<and> e_next e = nxt xs x
     \<and> e_prev e = prv xs x \<and> e_in_use e \<and> 0 \<le> e_ticks e)"

definition tl_rep :: "tl_heap \<Rightarrow> timer_q \<Rightarrow> nat list \<Rightarrow> bool" where
  "tl_rep h q xs \<longleftrightarrow> links h xs \<and> tq_first q = hd_opt xs \<and> tq_last q = last_opt xs
     \<and> tq_last_ticks q = sum_list (map (tk h) xs)"

text \<open>The entries with the ticks until they expire, the soonest first.\<close>

primrec dls :: "tl_heap \<Rightarrow> int \<Rightarrow> nat list \<Rightarrow> (nat \<times> int) list" where
  "dls h acc [] = []"
| "dls h acc (a # as) = (a, acc + tk h a) # dls h (acc + tk h a) as"

abbreviation deadlines :: "tl_heap \<Rightarrow> nat list \<Rightarrow> (nat \<times> int) list" where
  "deadlines h xs \<equiv> dls h 0 xs"

lemma dls_append: "dls h acc (xs @ ys) = dls h acc xs @ dls h (acc + sum_list (map (tk h) xs)) ys"
  by (induction xs arbitrary: acc) (simp_all add: add.assoc)

lemma dls_shift: "dls h (acc + d) xs = map (\<lambda>(a, e). (a, e + d)) (dls h acc xs)"
proof (induction xs arbitrary: acc)
  case (Cons a xs)
  have "acc + d + tk h a = (acc + tk h a) + d" by simp
  then have "dls h (acc + d + tk h a) xs = dls h ((acc + tk h a) + d) xs" by (simp only:)
  then show ?case using Cons.IH [of "acc + tk h a"] by simp
qed simp

lemma dls_cong: "(\<And>a. a \<in> set xs \<Longrightarrow> tk h' a = tk h a) \<Longrightarrow> dls h' acc xs = dls h acc xs"
  by (induction xs arbitrary: acc) simp_all

lemma dls_fst [simp]: "map fst (dls h acc xs) = xs"
  by (induction xs arbitrary: acc) simp_all

lemma dls_ge: "(\<And>a. a \<in> set xs \<Longrightarrow> 0 \<le> tk h a) \<Longrightarrow> (b, d) \<in> set (dls h acc xs) \<Longrightarrow> acc \<le> d"
  by (induction xs arbitrary: acc) force+

lemma links_tk: "links h xs \<Longrightarrow> a \<in> set xs \<Longrightarrow> 0 \<le> tk h a"
  by (auto simp: links_def tk_def)

fun chain :: "tl_heap \<Rightarrow> ptr \<Rightarrow> nat list \<Rightarrow> bool" where
  "chain h p [] = (p = None)"
| "chain h p (a # as) = (p = Some a \<and> (case h a of None \<Rightarrow> False | Some e \<Rightarrow> chain h (e_next e) as))"

lemma chain_suffix:
  assumes "links h (us @ xs)"
  shows "chain h (hd_opt xs) xs"
  using assms
proof (induction xs arbitrary: us)
  case (Cons a xs)
  obtain e where e: "h a = Some e" "e_next e = nxt (us @ a # xs) a" "distinct (us @ a # xs)"
    using Cons.prems by (auto simp: links_def)
  then have "e_next e = hd_opt xs" by (simp add: nxt_mid)
  then show ?case using e Cons.IH [of "us @ [a]"] Cons.prems by simp
qed simp

lemma chain_cong: "(\<And>a. a \<in> set xs \<Longrightarrow> h' a = h a) \<Longrightarrow> chain h' p xs = chain h p xs"
  by (induction xs arbitrary: p) (auto split: option.splits)

section \<open>One update\<close>

lemma skip_expired_ok:
  "chain h p xs \<Longrightarrow> skip_expired h p num
     = Some (hd_opt (dropWhile (\<lambda>a. tk h a \<le> 0) xs), num + of_nat (length (takeWhile (\<lambda>a. tk h a \<le> 0) xs)))"
proof (induction xs arbitrary: p num)
  case Nil
  then show ?case by (subst skip_expired.simps) simp
next
  case (Cons a xs)
  then obtain e where e: "p = Some a" "h a = Some e" "chain h (e_next e) xs" by (auto split: option.splits)
  then show ?case
    using Cons.IH [OF e(3), of "num + 1"] by (subst skip_expired.simps) (simp add: tk_def)
qed

definition aged_heap :: "tl_heap \<Rightarrow> tl_heap \<Rightarrow> nat list \<Rightarrow> bool" where
  "aged_heap h h' xs \<longleftrightarrow> (\<forall>b. b \<notin> set xs \<longrightarrow> h' b = h b)
     \<and> (\<forall>b e. h b = Some e \<longrightarrow> (\<exists>v. h' b = Some (e\<lparr>e_ticks := v\<rparr>) \<and> (0 \<le> e_ticks e \<longrightarrow> 0 \<le> v)))"

lemma aged_heap_refl: "aged_heap h h xs"
  unfolding aged_heap_def
proof (intro conjI allI impI)
  fix b e
  assume "h b = Some e"
  then show "\<exists>v. h b = Some (e\<lparr>e_ticks := v\<rparr>) \<and> (0 \<le> e_ticks e \<longrightarrow> 0 \<le> v)"
    by (intro exI [of _ "e_ticks e"]) simp
qed simp

lemma age_entries_ok:
  assumes "chain h p xs" "distinct xs" "\<And>a. a \<in> set xs \<Longrightarrow> 0 \<le> tk h a"
  shows "\<exists>h'. age_entries h p n num = Some (h', num + of_nat (if n \<le> 0 then 0
        else length (filter (\<lambda>(a, d). d < n) (deadlines h xs)) + (if n \<in> snd ` set (deadlines h xs) then 1 else 0)))
    \<and> aged_heap h h' xs
    \<and> deadlines h' xs = map (\<lambda>(a, d). (a, max 0 (d - max 0 n))) (deadlines h xs)"
  using assms
proof (induction xs arbitrary: h p n num)
  case Nil
  then show ?case by (subst age_entries.simps) (simp add: aged_heap_refl)
next
  case (Cons a xs)
  obtain e where e: "p = Some a" "h a = Some e" "chain h (e_next e) xs"
    using Cons.prems(1) by (auto split: option.splits)
  have na: "a \<notin> set xs" "distinct xs" using Cons.prems(2) by auto
  let ?t = "e_ticks e"
  have t: "0 \<le> ?t" "tk h a = ?t" using Cons.prems(3) [of a] e by (simp_all add: tk_def)
  have pos: "0 \<le> d" if "(b, d) \<in> set (deadlines h xs)" for b d
    using dls_ge [OF _ that] Cons.prems(3) by simp
  have ge: "?t \<le> d" if "(b, d) \<in> set (dls h ?t xs)" for b d
    using dls_ge [OF _ that] Cons.prems(3) by simp
  show ?case
  proof (cases "n \<le> 0")
    case True
    have "age_entries h p n num = Some (h, num)" using True by (subst age_entries.simps) simp
    moreover have "map (\<lambda>(a, d). (a, max 0 (d - max 0 n))) (deadlines h (a # xs)) = deadlines h (a # xs)"
    proof -
      have "max 0 d = d" if "(b, d) \<in> set (dls h ?t xs)" for b d using ge [OF that] t by simp
      then show ?thesis using True t by (auto intro!: map_idI)
    qed
    ultimately show ?thesis using True by (auto simp: aged_heap_refl)
  next
    case False
    let ?v = "?t - n"
    define e1 where "e1 = e\<lparr>e_ticks := (if ?v \<le> 0 then 0 else ?v)\<rparr>"
    define h1 where "h1 = h(a \<mapsto> e1)"
    define num1 where "num1 = (if ?v \<le> 0 then num + 1 else num)"
    have st: "age_entries h p n num = age_entries h1 (e_next e) (n - ?t) num1"
      using False e by (subst age_entries.simps) (simp add: h1_def e1_def num1_def Let_def)
    have tk1: "tk h1 b = tk h b" if "b \<in> set xs" for b using that na by (auto simp: h1_def tk_def)
    have "chain h1 (e_next e) xs = chain h (e_next e) xs" by (rule chain_cong) (use na in \<open>auto simp: h1_def\<close>)
    then have ch1: "chain h1 (e_next e) xs" using e(3) by simp
    have d1: "dls h1 acc xs = dls h acc xs" for acc by (rule dls_cong) (rule tk1)
    obtain h' where r: "age_entries h1 (e_next e) (n - ?t) num1 = Some (h', num1 + of_nat (if n - ?t \<le> 0 then 0
        else length (filter (\<lambda>(a, d). d < n - ?t) (deadlines h xs)) + (if n - ?t \<in> snd ` set (deadlines h xs) then 1 else 0)))"
      and ag: "aged_heap h1 h' xs"
      and dl: "deadlines h' xs = map (\<lambda>(a, d). (a, max 0 (d - max 0 (n - ?t)))) (deadlines h xs)"
      using Cons.IH [OF ch1 na(2), of "n - ?t" num1] Cons.prems(3) tk1 d1 by auto
    have sh: "dls h ?t xs = map (\<lambda>(b, d). (b, d + ?t)) (deadlines h xs)" using dls_shift [of h 0 ?t xs] by simp
    have h'a: "h' a = Some e1" using ag na by (simp add: aged_heap_def h1_def)
    have "aged_heap h h' (a # xs)"
    proof -
      have "\<exists>v. h' b = Some (f\<lparr>e_ticks := v\<rparr>) \<and> (0 \<le> e_ticks f \<longrightarrow> 0 \<le> v)" if "h b = Some f" for b f
      proof (cases "b = a")
        case True
        then show ?thesis using that e h'a by (auto simp: e1_def)
      next
        case False
        then show ?thesis using that ag by (auto simp: aged_heap_def h1_def)
      qed
      then show ?thesis using ag by (auto simp: aged_heap_def h1_def)
    qed
    moreover have "deadlines h' (a # xs) = map (\<lambda>(a, d). (a, max 0 (d - max 0 n))) (deadlines h (a # xs))"
    proof -
      have ta: "tk h' a = max 0 ?v" using h'a by (simp add: tk_def e1_def)
      have "dls h' (max 0 ?v) xs = map (\<lambda>(b, d). (b, d + max 0 ?v)) (deadlines h' xs)"
        using dls_shift [of h' 0 "max 0 ?v" xs] by simp
      also have "\<dots> = map (\<lambda>(b, d). (b, max 0 (d + ?t - n))) (deadlines h xs)"
        unfolding dl using False t by (auto simp: comp_def max_def dest: pos)
      finally show ?thesis using False t ta sh by (auto simp: comp_def case_prod_beta)
    qed
    moreover have "num1 + of_nat (if n - ?t \<le> 0 then 0
        else length (filter (\<lambda>(a, d). d < n - ?t) (deadlines h xs)) + (if n - ?t \<in> snd ` set (deadlines h xs) then 1 else 0))
      = num + of_nat (length (filter (\<lambda>(a, d). d < n) (deadlines h (a # xs)))
          + (if n \<in> snd ` set (deadlines h (a # xs)) then 1 else 0))"
    proof -
      have f: "length (filter (\<lambda>(a, d). d < n) (dls h ?t xs)) = length (filter (\<lambda>(a, d). d < n - ?t) (deadlines h xs))"
        unfolding sh by (simp add: filter_map comp_def case_prod_unfold less_diff_eq)
      have m: "n \<in> snd ` set (dls h ?t xs) \<longleftrightarrow> n - ?t \<in> snd ` set (deadlines h xs)"
        unfolding sh by (force simp: image_iff)
      consider "?t < n" | "?t = n" | "n < ?t" by linarith
      then show ?thesis
      proof cases
        case 1
        then show ?thesis using t f m by (simp add: num1_def)
      next
        case 2
        have "filter (\<lambda>(a, d). d < n) (dls h ?t xs) = []" using 2 ge by (force simp: filter_empty_conv)
        then show ?thesis using 2 t by (simp add: num1_def)
      next
        case 3
        have "filter (\<lambda>(a, d). d < n) (dls h ?t xs) = []" using 3 ge by (force simp: filter_empty_conv)
        moreover have "n \<notin> snd ` set (dls h ?t xs)" using 3 ge by force
        ultimately show ?thesis using 3 t by (simp add: num1_def)
      qed
    qed
    ultimately show ?thesis using st r False by auto
  qed
qed

text \<open>
  The operations of a timer list in terms of its deadlines: update, query, insertion, removal.
\<close>

section \<open>Update and query\<close>

lemma sum_zero: "(\<And>a. a \<in> set xs \<Longrightarrow> f a = (0::int)) \<Longrightarrow> sum_list (map f xs) = 0"
  by (induction xs) simp_all

lemma sum_ge0: "links h xs \<Longrightarrow> 0 \<le> sum_list (map (tk h) xs)"
  using links_tk by (intro sum_list_nonneg) auto

lemma dls_eq_Nil [simp]: "dls h acc xs = [] \<longleftrightarrow> xs = []"
  by (cases xs) auto

lemma dls_last: "xs \<noteq> [] \<Longrightarrow> snd (last (dls h acc xs)) = acc + sum_list (map (tk h) xs)"
proof (induction xs arbitrary: acc)
  case (Cons a xs)
  then show ?case by (cases "xs = []") simp_all
qed simp

lemma sum_deadlines:
  "deadlines h' xs = map (\<lambda>(a, d). (a, max 0 (d - n))) (deadlines h xs) \<Longrightarrow> 0 \<le> sum_list (map (tk h) xs) \<Longrightarrow> 0 \<le> n \<Longrightarrow>
     sum_list (map (tk h') xs) = max 0 (sum_list (map (tk h) xs) - n)"
proof (cases "xs = []")
  case False
  assume d: "deadlines h' xs = map (\<lambda>(a, d). (a, max 0 (d - n))) (deadlines h xs)"
  have "sum_list (map (tk h') xs) = snd (last (deadlines h' xs))" using dls_last [OF False, of h' 0] by simp
  also have "\<dots> = max 0 (snd (last (deadlines h xs)) - n)" unfolding d using False by (simp add: last_map case_prod_beta)
  finally show ?thesis using dls_last [OF False, of h 0] by simp
qed simp

lemma aged_links:
  assumes "aged_heap h h' ys" "links h xs"
  shows "links h' xs"
proof -
  have "\<exists>e'. h' x = Some e' \<and> e_next e' = nxt xs x \<and> e_prev e' = prv xs x \<and> e_in_use e' \<and> 0 \<le> e_ticks e'"
    if x: "x \<in> set xs" for x
  proof -
    obtain e where e: "h x = Some e" "e_next e = nxt xs x" "e_prev e = prv xs x" "e_in_use e" "0 \<le> e_ticks e"
      using assms(2) x by (auto simp: links_def)
    then obtain v where "h' x = Some (e\<lparr>e_ticks := v\<rparr>)" "0 \<le> v"
      using assms(1) unfolding aged_heap_def by metis
    then show ?thesis using e by simp
  qed
  then show ?thesis using assms(2) by (simp add: links_def)
qed

definition expired_count :: "int \<Rightarrow> (nat \<times> int) list \<Rightarrow> nat" where
  "expired_count n L = length (filter (\<lambda>(a, d). d = 0 \<or> d < n) L) + (if 0 < n \<and> n \<in> snd ` set L then 1 else 0)"

lemma update_ok:
  assumes rep: "tl_rep h q xs" and n: "0 \<le> n"
  shows "\<exists>h' q'. GKI_update_timer_list q n h = Some (of_nat (expired_count n (deadlines h xs)), h', q')
    \<and> tl_rep h' q' xs \<and> deadlines h' xs = map (\<lambda>(a, d). (a, max 0 (d - n))) (deadlines h xs)
    \<and> (\<forall>b. b \<notin> set xs \<longrightarrow> h' b = h b)"
proof -
  have lk: "links h xs" and q: "tq_first q = hd_opt xs" "tq_last q = last_opt xs"
    "tq_last_ticks q = sum_list (map (tk h) xs)" using rep by (simp_all add: tl_rep_def)
  define us where "us = takeWhile (\<lambda>a. tk h a \<le> 0) xs"
  define vs where "vs = dropWhile (\<lambda>a. tk h a \<le> 0) xs"
  have xs: "xs = us @ vs" by (simp add: us_def vs_def)
  have u0: "tk h a = 0" if "a \<in> set us" for a
  proof -
    have "a \<in> set xs" using that xs by simp
    then have "0 \<le> tk h a" by (rule links_tk [OF lk])
    moreover have "tk h a \<le> 0" using that set_takeWhileD [of a "\<lambda>a. tk h a \<le> 0" xs] by (simp add: us_def)
    ultimately show ?thesis by simp
  qed
  then have su: "sum_list (map (tk h) us) = 0" by (intro sum_zero) simp
  have du: "d = 0" if "(a, d) \<in> set (deadlines h us)" for a d
    using that u0
  proof (induction us)
    case (Cons x us)
    then show ?case by auto
  qed simp
  have dv: "0 < d" if "(a, d) \<in> set (deadlines h vs)" for a d
  proof (cases vs)
    case Nil
    then show ?thesis using that by simp
  next
    case (Cons x ws)
    then have "0 < tk h x" using hd_dropWhile [of "\<lambda>a. tk h a \<le> 0" xs] by (simp add: vs_def [symmetric])
    moreover have "tk h x \<le> e" if "(b, e) \<in> set (dls h (tk h x) ws)" for b e
      using dls_ge [OF _ that] links_tk [OF lk] xs Cons by simp
    ultimately show ?thesis using that Cons by fastforce
  qed
  have L: "deadlines h xs = deadlines h us @ deadlines h vs" using su by (simp add: xs dls_append)
  have sk: "skip_expired h (tq_first q) 0 = Some (hd_opt vs, of_nat (length us))"
    using skip_expired_ok [of h "hd_opt xs" xs 0] chain_suffix [of h "[]" xs] lk q by (simp add: us_def vs_def)
  have ch: "chain h (hd_opt vs) vs" using chain_suffix [of h us vs] lk xs by simp
  have dvs: "distinct vs" "\<And>a. a \<in> set vs \<Longrightarrow> 0 \<le> tk h a"
    using lk xs links_tk [OF lk] by (auto simp: links_def)
  obtain h' where r: "age_entries h (hd_opt vs) n (of_nat (length us)) = Some (h', of_nat (length us) + of_nat (if n \<le> 0 then 0
        else length (filter (\<lambda>(a, d). d < n) (deadlines h vs)) + (if n \<in> snd ` set (deadlines h vs) then 1 else 0)))"
    and ag: "aged_heap h h' vs"
    and dl: "deadlines h' vs = map (\<lambda>(a, d). (a, max 0 (d - max 0 n))) (deadlines h vs)"
    using age_entries_ok [OF ch dvs, of n "of_nat (length us)"] by blast
  have f1: "filter (\<lambda>(a, d). d = 0 \<or> d < n) (deadlines h us) = deadlines h us"
    using du by (auto simp: filter_id_conv)
  have f2: "length (deadlines h us) = length us" by (metis dls_fst length_map)
  have f3: "filter (\<lambda>(a, d). d = 0 \<or> d < n) (deadlines h vs) = filter (\<lambda>(a, d). d < n) (deadlines h vs)"
    using dv by (auto intro!: filter_cong)
  have cnt: "length us + (if n \<le> 0 then 0 else length (filter (\<lambda>(a, d). d < n) (deadlines h vs))
      + (if n \<in> snd ` set (deadlines h vs) then 1 else 0)) = expired_count n (deadlines h xs)"
  proof (cases "n \<le> 0")
    case True
    have "filter (\<lambda>(a, d). d < n) (deadlines h vs) = []"
      using dv True by (force simp: filter_empty_conv)
    then show ?thesis using True f1 f2 f3 by (simp add: expired_count_def L)
  next
    case False
    then have "n \<notin> snd ` set (deadlines h us)" by (auto dest: du)
    then show ?thesis using False f1 f2 f3 by (simp add: expired_count_def L image_Un)
  qed
  have fr: "h' b = h b" if "b \<notin> set vs" for b using ag that by (simp add: aged_heap_def)
  have lk': "links h' xs" by (rule aged_links [OF ag lk])
  have tku: "tk h' a = tk h a" if "a \<in> set us" for a
  proof -
    have "a \<notin> set vs" using that lk xs by (auto simp: links_def)
    then show ?thesis using fr by (simp add: tk_def)
  qed
  have D: "deadlines h' xs = map (\<lambda>(a, d). (a, max 0 (d - n))) (deadlines h xs)"
  proof -
    have "sum_list (map (tk h') us) = 0" using tku u0 by (intro sum_zero) simp
    then have "deadlines h' xs = deadlines h' us @ deadlines h' vs" by (simp add: xs dls_append)
    moreover have "deadlines h' us = deadlines h us" by (rule dls_cong) (rule tku)
    moreover have "map (\<lambda>(a, d). (a, max 0 (d - n))) (deadlines h us) = deadlines h us"
      using n by (auto intro!: map_idI dest: du)
    ultimately show ?thesis using dl n by (simp add: L)
  qed
  let ?q = "if 0 < tq_last_ticks q
       then q\<lparr>tq_last_ticks := (if tq_last_ticks q - n < 0 then 0 else tq_last_ticks q - n)\<rparr> else q"
  have "GKI_update_timer_list q n h = Some (of_nat (length us) + of_nat (if n \<le> 0 then 0
        else length (filter (\<lambda>(a, d). d < n) (deadlines h vs)) + (if n \<in> snd ` set (deadlines h vs) then 1 else 0)), h', ?q)"
    by (simp only: GKI_update_timer_list_def sk r Option.bind.simps prod.case)
  also have "of_nat (length us) + of_nat (if n \<le> 0 then 0
        else length (filter (\<lambda>(a, d). d < n) (deadlines h vs)) + (if n \<in> snd ` set (deadlines h vs) then 1 else 0))
      = (of_nat (expired_count n (deadlines h xs)) :: u16)"
    unfolding cnt [symmetric] by (rule of_nat_add [symmetric])
  finally have res: "GKI_update_timer_list q n h = Some (of_nat (expired_count n (deadlines h xs)), h', ?q)" .
  have "tl_rep h' ?q xs"
    using lk' q n sum_ge0 [OF lk] sum_deadlines [OF D sum_ge0 [OF lk] n] by (auto simp: tl_rep_def max_def)
  then show ?thesis using res D fr xs by auto
qed

lemma sum_until_ok:
  "chain h p xs \<Longrightarrow> sum_until h p a (word_of_int acc) = Some (case map_of (dls h acc xs) a of None \<Rightarrow> 0 | Some d \<Rightarrow> word_of_int d)"
proof (induction xs arbitrary: p acc)
  case Nil
  then show ?case by (subst sum_until.simps) simp
next
  case (Cons b xs)
  then obtain e where e: "p = Some b" "h b = Some e" "chain h (e_next e) xs" by (auto split: option.splits)
  have w: "word_of_int acc + word_of_int (e_ticks e) = (word_of_int (acc + e_ticks e) :: u32)"
    by simp
  show ?case
    using e Cons.IH [OF e(3), of "acc + e_ticks e"] by (subst sum_until.simps) (simp add: w tk_def del: of_int_add)
qed

lemma remaining_ok:
  assumes "tl_rep h q xs" "h a = Some e"
  shows "GKI_get_remaining_ticks q a h =
    Some (if e_in_use e then (case map_of (deadlines h xs) a of None \<Rightarrow> 0 | Some d \<Rightarrow> word_of_int d) else 0)"
  using sum_until_ok [of h "hd_opt xs" xs a 0] chain_suffix [of h "[]" xs] assms
  by (simp add: GKI_get_remaining_ticks_def tl_rep_def)

section \<open>Insertion\<close>

definition tl_insert :: "nat \<Rightarrow> int \<Rightarrow> (nat \<times> int) list \<Rightarrow> (nat \<times> int) list" where
  "tl_insert a d L = (if L = [] \<or> snd (last L) \<le> d then L @ [(a, d)]
     else takeWhile (\<lambda>(b, e). e < d) L @ (a, d) # dropWhile (\<lambda>(b, e). e < d) L)"

lemma find_slot_ok:
  assumes "chain h p xs" "\<And>a. a \<in> set xs \<Longrightarrow> 0 \<le> tk h a" "v \<le> sum_list (map (tk h) xs)" "xs \<noteq> []"
  shows "\<exists>ys b zs. xs = ys @ b # zs \<and> find_slot h p v = Some (b, v - sum_list (map (tk h) ys))
    \<and> v - sum_list (map (tk h) ys) \<le> tk h b \<and> (\<forall>us w ws. ys = us @ w # ws \<longrightarrow> sum_list (map (tk h) (us @ [w])) < v)"
  using assms
proof (induction xs arbitrary: p v)
  case (Cons x xs)
  obtain e where e: "p = Some x" "h x = Some e" "chain h (e_next e) xs"
    using Cons.prems(1) by (auto split: option.splits)
  have t: "tk h x = e_ticks e" "0 \<le> e_ticks e" using Cons.prems(2) [of x] e by (simp_all add: tk_def)
  show ?case
  proof (cases "v > e_ticks e")
    case False
    then have "find_slot h p v = Some (x, v)" using e by (subst find_slot.simps) simp
    then show ?thesis using False t by (intro exI [of _ "[]"] exI [of _ x] exI [of _ xs]) simp
  next
    case True
    then have f: "find_slot h p v = find_slot h (e_next e) (v - e_ticks e)"
      using e t by (subst find_slot.simps) auto
    have "xs \<noteq> []" using Cons.prems(3) True t by auto
    then obtain ys b zs where r: "xs = ys @ b # zs"
      "find_slot h (e_next e) (v - e_ticks e) = Some (b, v - e_ticks e - sum_list (map (tk h) ys))"
      "v - e_ticks e - sum_list (map (tk h) ys) \<le> tk h b"
      "\<forall>us w ws. ys = us @ w # ws \<longrightarrow> sum_list (map (tk h) (us @ [w])) < v - e_ticks e"
      using Cons.IH [OF e(3), of "v - e_ticks e"] Cons.prems(2,3) t by auto
    have "sum_list (map (tk h) (us @ [w])) < v" if "x # ys = us @ w # ws" for us w ws
    proof (cases us)
      case Nil
      then show ?thesis using that True t by simp
    next
      case (Cons u us')
      then show ?thesis using that r(4) t by fastforce
    qed
    then show ?thesis
      using r f t by (intro exI [of _ "x # ys"] exI [of _ b] exI [of _ zs]) (simp add: algebra_simps)
  qed
qed simp

end
