(* ===== verification/Timer_Edit.thy ===== *)
theory Timer_Edit
  imports Timer_List
begin

text \<open>
  Insertion into a timer list and removal from it: the doubly linked structure after the pointer
  updates of the code, and the list of deadlines.
\<close>

section \<open>Links after an edit\<close>

lemma linksD: "links h xs \<Longrightarrow> x \<in> set xs \<Longrightarrow>
    \<exists>e. h x = Some e \<and> e_next e = nxt xs x \<and> e_prev e = prv xs x \<and> e_in_use e \<and> 0 \<le> e_ticks e"
  by (simp add: links_def)

lemma links_insertI:
  assumes lk: "links h (ys @ zs)" and a: "a \<notin> set (ys @ zs)"
    and ea: "H a = Some e" "e_next e = hd_opt zs" "e_prev e = last_opt ys" "e_in_use e" "0 \<le> e_ticks e"
    and oth: "\<And>x ex. x \<in> set (ys @ zs) \<Longrightarrow> h x = Some ex \<Longrightarrow> \<exists>v. 0 \<le> v \<and>
      H x = Some (ex\<lparr>e_next := (if ys \<noteq> [] \<and> x = last ys then Some a else e_next ex),
                     e_prev := (if zs \<noteq> [] \<and> x = hd zs then Some a else e_prev ex), e_ticks := v\<rparr>)"
  shows "links H (ys @ a # zs)"
proof -
  have D: "distinct (ys @ a # zs)" using lk a by (auto simp: links_def)
  have "\<exists>e. H x = Some e \<and> e_next e = nxt (ys @ a # zs) x \<and> e_prev e = prv (ys @ a # zs) x \<and> e_in_use e \<and> 0 \<le> e_ticks e"
    if x: "x \<in> set (ys @ a # zs)" for x
  proof (cases "x = a")
    case True
    then show ?thesis using ea a nxt_mid [of a ys zs] prv_mid [of a ys zs] by simp
  next
    case False
    then have xs: "x \<in> set (ys @ zs)" using x by simp
    obtain ex where ex: "h x = Some ex" "e_next ex = nxt (ys @ zs) x" "e_prev ex = prv (ys @ zs) x" "e_in_use ex"
      using linksD [OF lk xs] by blast
    show ?thesis
      using oth [OF xs ex(1)] ex nxt_insert(1) [OF D xs] prv_insert(1) [OF D xs] by auto
  qed
  then show ?thesis using D by (simp add: links_def)
qed

lemma links_removeI:
  assumes lk: "links h (ys @ a # zs)"
    and oth: "\<And>x ex. x \<in> set (ys @ zs) \<Longrightarrow> h x = Some ex \<Longrightarrow> \<exists>v. 0 \<le> v \<and>
      H x = Some (ex\<lparr>e_next := (if ys \<noteq> [] \<and> x = last ys then hd_opt zs else e_next ex),
                     e_prev := (if zs \<noteq> [] \<and> x = hd zs then last_opt ys else e_prev ex), e_ticks := v\<rparr>)"
  shows "links H (ys @ zs)"
proof -
  have D: "distinct (ys @ a # zs)" using lk by (simp add: links_def)
  have "\<exists>e. H x = Some e \<and> e_next e = nxt (ys @ zs) x \<and> e_prev e = prv (ys @ zs) x \<and> e_in_use e \<and> 0 \<le> e_ticks e"
    if x: "x \<in> set (ys @ zs)" for x
  proof -
    have x': "x \<in> set (ys @ a # zs)" using x by auto
    obtain ex where ex: "h x = Some ex" "e_next ex = nxt (ys @ a # zs) x" "e_prev ex = prv (ys @ a # zs) x" "e_in_use ex"
      using linksD [OF lk x'] by blast
    obtain v where v: "0 \<le> v" "H x = Some (ex\<lparr>e_next := (if ys \<noteq> [] \<and> x = last ys then hd_opt zs else e_next ex),
                     e_prev := (if zs \<noteq> [] \<and> x = hd zs then last_opt ys else e_prev ex), e_ticks := v\<rparr>)"
      using oth [OF x ex(1)] by blast
    have "(if ys \<noteq> [] \<and> x = last ys then hd_opt zs else e_next ex) = nxt (ys @ zs) x"
      using ex nxt_insert [OF D x] by auto
    moreover have "(if zs \<noteq> [] \<and> x = hd zs then last_opt ys else e_prev ex) = prv (ys @ zs) x"
      using ex prv_insert [OF D x] by auto
    ultimately show ?thesis using v ex by simp
  qed
  then show ?thesis using D by (simp add: links_def)
qed

section \<open>Insertion\<close>

text \<open>An entry that is in no list, with the ticks the application has put there.\<close>

definition tl_idle :: "tl_heap \<Rightarrow> nat \<Rightarrow> int \<Rightarrow> bool" where
  "tl_idle h a d \<longleftrightarrow> (\<exists>e. h a = Some e \<and> e_next e = None \<and> e_prev e = None \<and> e_ticks e = d)"

lemma tk_upd: "tk (h(a \<mapsto> e)) b = (if b = a then e_ticks e else tk h b)"
  by (simp add: tk_def)

lemma append_ok:
  assumes rep: "tl_rep h q xs" and a: "a \<notin> set xs" "tl_idle h a d" and d: "tq_last_ticks q \<le> d"
  shows "\<exists>H q'. append_entry q a h = Some (H, q') \<and> tl_rep (H(a \<mapsto> (the (H a))\<lparr>e_in_use := True\<rparr>)) q' (xs @ [a])
    \<and> deadlines (H(a \<mapsto> (the (H a))\<lparr>e_in_use := True\<rparr>)) (xs @ [a]) = deadlines h xs @ [(a, d)]
    \<and> H a \<noteq> None \<and> (\<forall>b. b \<notin> insert a (set xs) \<longrightarrow> H b = h b)"
proof -
  obtain e where e: "h a = Some e" "e_next e = None" "e_prev e = None" "e_ticks e = d" using a(2) by (auto simp: tl_idle_def)
  have lk: "links h xs" and q: "tq_first q = hd_opt xs" "tq_last q = last_opt xs"
    "tq_last_ticks q = sum_list (map (tk h) xs)" using rep by (simp_all add: tl_rep_def)
  let ?S = "sum_list (map (tk h) xs)"
  define ea where "ea = e\<lparr>e_prev := last_opt xs, e_next := None, e_ticks := d - ?S\<rparr>"
  define H where "H = (if xs = [] then h else (h(last xs \<mapsto> (the (h (last xs)))\<lparr>e_next := Some a\<rparr>)))(a \<mapsto> ea)"
  let ?q = "q\<lparr>tq_first := (if xs = [] then Some a else tq_first q), tq_last := Some a, tq_last_ticks := d\<rparr>"
  have app: "append_entry q a h = Some (H, ?q)"
  proof (cases "xs = []")
    case True
    have "e\<lparr>e_next := None, e_ticks := d - ?S\<rparr> = ea" using e True by (cases e) (simp add: ea_def)
    then show ?thesis using True e q by (simp add: append_entry_def ent_upd_def H_def)
  next
    case False
    then obtain x where x: "h (last xs) = Some x" using linksD [OF lk last_in_set [OF False]] by blast
    have "last xs \<noteq> a" using a(1) False by auto
    moreover have "hd_opt xs = Some (hd xs)" using False by (simp add: hd_opt_def)
    ultimately show ?thesis
      using False e x q by (simp add: append_entry_def ent_upd_def H_def ea_def last_opt_def)
  qed
  let ?H = "H(a \<mapsto> (the (H a))\<lparr>e_in_use := True\<rparr>)"
  have Ha: "?H a = Some (ea\<lparr>e_in_use := True\<rparr>)" by (simp add: H_def)
  have Hx: "?H x = Some (ex\<lparr>e_next := (if xs \<noteq> [] \<and> x = last xs then Some a else e_next ex)\<rparr>)"
    if "x \<in> set xs" "h x = Some ex" for x ex
    using that a(1) by (auto simp: H_def)
  have "links ?H (xs @ a # [])"
  proof (rule links_insertI [of h xs "[]" a ?H "ea\<lparr>e_in_use := True\<rparr>"])
    show "links h (xs @ [])" using lk by simp
    show "\<exists>v\<ge>0. ?H x = Some (ex\<lparr>e_next := if xs \<noteq> [] \<and> x = last xs then Some a else e_next ex,
        e_prev := if [] \<noteq> [] \<and> x = hd [] then Some a else e_prev ex, e_ticks := v\<rparr>)"
      if m: "x \<in> set (xs @ [])" "h x = Some ex" for x ex
    proof -
      have x: "x \<in> set xs" using m(1) by simp
      have "0 \<le> e_ticks ex" using linksD [OF lk x] m(2) by auto
      then show ?thesis using Hx [OF x m(2)] by (intro exI [of _ "e_ticks ex"]) simp
    qed
  qed (use a Ha d q e in \<open>simp_all add: ea_def\<close>)
  moreover have tx: "tk ?H x = tk h x" if m: "x \<in> set xs" for x
  proof -
    have "x \<noteq> a" using m a(1) by auto
    then show ?thesis using Hx [OF m] linksD [OF lk m] by (auto simp: tk_def)
  qed
  moreover have ta: "tk ?H a = d - ?S" using Ha by (simp add: tk_def ea_def)
  moreover have S: "sum_list (map (tk ?H) xs) = ?S" using tx by (intro arg_cong [where f = sum_list] map_cong) auto
  ultimately have "tl_rep ?H ?q (xs @ [a])"
    using q by (simp add: tl_rep_def hd_opt_def)
  moreover have "deadlines ?H (xs @ [a]) = deadlines h xs @ [(a, d)]"
    using ta S dls_cong [of xs ?H h 0] tx by (simp add: dls_append)
  moreover have "H a \<noteq> None" by (simp add: H_def)
  moreover have "H b = h b" if "b \<notin> insert a (set xs)" for b
    using that last_in_set [of xs] by (auto simp: H_def)
  ultimately show ?thesis using app by blast
qed


lemma dls_all_less:
  assumes "\<forall>us w ws. ys = us @ w # ws \<longrightarrow> sum_list (map (tk h) (us @ [w])) < v"
  shows "(b, d) \<in> set (deadlines h ys) \<Longrightarrow> d < v"
proof -
  assume "(b, d) \<in> set (deadlines h ys)"
  then obtain i where i: "i < length ys" "d = snd (deadlines h ys ! i)"
    by (metis in_set_conv_nth dls_fst length_map snd_conv)
  have "snd (dls h acc ys ! i) = acc + sum_list (map (tk h) (take (Suc i) ys))" if "i < length ys" for acc i
    using that
  proof (induction ys arbitrary: acc i)
    case (Cons y ys)
    then show ?case by (cases i) simp_all
  qed simp
  then have "d = sum_list (map (tk h) (take i ys @ [ys ! i]))" using i by (simp add: take_Suc_conv_app_nth)
  moreover have "ys = take i ys @ ys ! i # drop (Suc i) ys" using i(1) by (rule id_take_nth_drop)
  ultimately show "d < v" using assms by blast
qed

lemma insert_ok:
  assumes rep: "tl_rep h q xs" and a: "a \<notin> set xs" "tl_idle h a d" and d: "d < tq_last_ticks q" "0 \<le> d"
  shows "\<exists>H ys zs. insert_entry q a h = Some (H, q\<lparr>tq_first := hd_opt (ys @ a # zs)\<rparr>) \<and> xs = ys @ zs \<and> zs \<noteq> []
    \<and> tl_rep (H(a \<mapsto> (the (H a))\<lparr>e_in_use := True\<rparr>)) (q\<lparr>tq_first := hd_opt (ys @ a # zs)\<rparr>) (ys @ a # zs)
    \<and> deadlines (H(a \<mapsto> (the (H a))\<lparr>e_in_use := True\<rparr>)) (ys @ a # zs) = tl_insert a d (deadlines h xs)
    \<and> H a \<noteq> None \<and> (\<forall>b. b \<notin> insert a (set xs) \<longrightarrow> H b = h b)"
proof -
  obtain e where e: "h a = Some e" "e_next e = None" "e_prev e = None" "e_ticks e = d" using a(2) by (auto simp: tl_idle_def)
  have lk: "links h xs" and q: "tq_first q = hd_opt xs" "tq_last q = last_opt xs"
    "tq_last_ticks q = sum_list (map (tk h) xs)" using rep by (simp_all add: tl_rep_def)
  have ne: "xs \<noteq> []" using d q by auto
  obtain ys b zs where s: "xs = ys @ b # zs" "find_slot h (hd_opt xs) d = Some (b, d - sum_list (map (tk h) ys))"
    "d - sum_list (map (tk h) ys) \<le> tk h b" "\<forall>us w ws. ys = us @ w # ws \<longrightarrow> sum_list (map (tk h) (us @ [w])) < d"
  proof -
    have "chain h (hd_opt xs) xs" using chain_suffix [of h "[]" xs] lk by simp
    moreover have "d \<le> sum_list (map (tk h) xs)" using d q by simp
    ultimately show ?thesis using find_slot_ok [OF _ links_tk [OF lk] _ ne, of "hd_opt xs" d] that by blast
  qed
  define v where "v = d - sum_list (map (tk h) ys)"
  have less: "u < d" if "(c, u) \<in> set (deadlines h ys)" for c u by (rule dls_all_less [OF s(4) that])
  have v0: "0 \<le> v"
  proof (cases "ys = []")
    case False
    then have "snd (last (deadlines h ys)) < d" using less last_in_set [of "deadlines h ys"] by (metis dls_eq_Nil prod.collapse)
    then show ?thesis using dls_last [OF False, of h 0] by (simp add: v_def)
  qed (use d in \<open>simp add: v_def\<close>)
  have D: "distinct (ys @ b # zs)" using lk s(1) by (simp add: links_def)
  have b: "b \<in> set xs" "b \<noteq> a" using s(1) a(1) by auto
  obtain eb where eb: "h b = Some eb" "e_next eb = nxt xs b" "e_prev eb = prv xs b" "0 \<le> e_ticks eb"
    using linksD [OF lk b(1)] by blast
  have pb: "e_prev eb = last_opt ys" using eb(3) s(1) prv_mid [of b ys zs] D by simp
  have tb: "tk h b = e_ticks eb" using eb by (simp add: tk_def)
  define ea where "ea = e\<lparr>e_ticks := v, e_next := Some b, e_prev := last_opt ys\<rparr>"
  define eb' where "eb' = eb\<lparr>e_prev := Some a, e_ticks := e_ticks eb - v\<rparr>"
  define H where "H = (if ys = [] then h else h(last ys \<mapsto> (the (h (last ys)))\<lparr>e_next := Some a\<rparr>))(a \<mapsto> ea, b \<mapsto> eb')"
  have ins: "insert_entry q a h = Some (H, q\<lparr>tq_first := hd_opt (ys @ a # b # zs)\<rparr>)"
  proof (cases "ys = []")
    case True
    have "e\<lparr>e_ticks := v, e_next := Some b\<rparr> = ea" using e True by (cases e) (simp add: ea_def)
    then show ?thesis
      using True e eb b s(1,2) q by (simp add: insert_entry_def ent_upd_def H_def eb'_def v_def fun_upd_twist)
  next
    case False
    have l: "last ys \<in> set ys" using False by simp
    then obtain x where x: "h (last ys) = Some x" using linksD [OF lk, of "last ys"] s(1) by auto
    have ly: "last ys \<noteq> a" "last ys \<noteq> b" using l a(1) s(1) D by auto
    have pb': "e_prev eb = Some (last ys)" using pb False by (simp add: last_opt_def)
    have ea': "e\<lparr>e_ticks := v, e_prev := Some (last ys), e_next := Some b\<rparr> = ea"
      using False by (cases e) (simp add: ea_def last_opt_def)
    have nf: "hd_opt xs \<noteq> Some b" using s(1) D False by (cases ys) auto
    have qq: "q\<lparr>tq_first := hd_opt (ys @ a # b # zs)\<rparr> = q" using q(1) s(1) False by (cases q) simp
    have HH: "H = h(last ys \<mapsto> x\<lparr>e_next := Some a\<rparr>, a \<mapsto> ea, b \<mapsto> eb')" using False x by (simp add: H_def)
    show ?thesis
      unfolding qq HH
      using e(1,4) eb(1) b(2) s(2) q(1) x ly pb' ea' nf
      by (simp add: insert_entry_def ent_upd_def eb'_def v_def [symmetric] fun_upd_twist [of b a] fun_upd_twist [of a "last ys"] fun_upd_twist [of b "last ys"])
  qed
  let ?H = "H(a \<mapsto> (the (H a))\<lparr>e_in_use := True\<rparr>)"
  have Ha: "?H a = Some (ea\<lparr>e_in_use := True\<rparr>)" using b by (simp add: H_def)
  have Hb: "?H b = Some eb'" using b by (simp add: H_def)
  have Hx: "?H x = Some (ex\<lparr>e_next := (if ys \<noteq> [] \<and> x = last ys then Some a else e_next ex)\<rparr>)"
    if "x \<in> set xs" "x \<noteq> b" "h x = Some ex" for x ex
    using that a(1) by (auto simp: H_def)
  have lyb: "\<not> (ys \<noteq> [] \<and> b = last ys)" using D last_in_set [of ys] by auto
  have "links ?H (ys @ a # b # zs)"
  proof (rule links_insertI [of h ys "b # zs" a ?H "ea\<lparr>e_in_use := True\<rparr>"])
    show "links h (ys @ b # zs)" using lk s(1) by simp
    show "\<exists>w\<ge>0. ?H x = Some (ex\<lparr>e_next := if ys \<noteq> [] \<and> x = last ys then Some a else e_next ex,
        e_prev := if b # zs \<noteq> [] \<and> x = hd (b # zs) then Some a else e_prev ex, e_ticks := w\<rparr>)"
      if "x \<in> set (ys @ b # zs)" "h x = Some ex" for x ex
    proof (cases "x = b")
      case True
      then show ?thesis
        using Hb that eb lyb s(3) tb v0 by (intro exI [of _ "e_ticks eb - v"]) (auto simp: eb'_def v_def)
    next
      case False
      have "0 \<le> e_ticks ex" using linksD [OF lk, of x] that s(1) by auto
      then show ?thesis
        using Hx [of x ex] False that s(1) by (intro exI [of _ "e_ticks ex"]) simp
    qed
  qed (use a s(1) Ha v0 in \<open>simp_all add: ea_def\<close>)
  moreover have tx: "tk ?H x = tk h x" if m: "x \<in> set xs" "x \<noteq> b" for x
  proof -
    have "x \<noteq> a" using m a(1) by auto
    then show ?thesis using Hx [OF m] linksD [OF lk m(1)] by (auto simp: tk_def)
  qed
  have tab: "tk ?H a = v" "tk ?H b = tk h b - v" using Ha Hb tb by (simp_all add: tk_def ea_def eb'_def)
  have bn: "b \<notin> set ys" "b \<notin> set zs" using D by auto
  have Sy: "sum_list (map (tk ?H) ys) = sum_list (map (tk h) ys)"
    using tx s(1) bn by (intro arg_cong [where f = sum_list] map_cong) auto
  have Sz: "sum_list (map (tk ?H) zs) = sum_list (map (tk h) zs)"
    using tx s(1) bn by (intro arg_cong [where f = sum_list] map_cong) auto
  ultimately have "tl_rep ?H (q\<lparr>tq_first := hd_opt (ys @ a # b # zs)\<rparr>) (ys @ a # b # zs)"
    using q s(1) tab Sy Sz by (simp add: tl_rep_def del: hd_opt_simps)
  moreover have "deadlines ?H (ys @ a # b # zs) = tl_insert a d (deadlines h xs)"
  proof -
    have dy: "dls ?H acc ys = dls h acc ys" for acc by (rule dls_cong) (use tx s(1) bn in auto)
    have dz: "dls ?H acc zs = dls h acc zs" for acc by (rule dls_cong) (use tx s(1) bn in auto)
    let ?S = "sum_list (map (tk h) ys)"
    have L: "deadlines h xs = deadlines h ys @ dls h ?S (b # zs)" by (simp add: s(1) dls_append)
    have "takeWhile (\<lambda>(c, u). u < d) (deadlines h xs) = deadlines h ys"
      "dropWhile (\<lambda>(c, u). u < d) (deadlines h xs) = dls h ?S (b # zs)"
      unfolding L using less s(3) by (auto simp: takeWhile_append dropWhile_append)
    moreover have "\<not> (deadlines h xs = [] \<or> snd (last (deadlines h xs)) \<le> d)"
      using dls_last [OF ne, of h 0] d q ne by simp
    ultimately show ?thesis using dy dz tab Sy by (simp add: tl_insert_def dls_append v_def add.commute)
  qed
  moreover have "H a \<noteq> None" using b by (simp add: H_def)
  moreover have "H c = h c" if "c \<notin> insert a (set xs)" for c
    using that last_in_set [of ys] s(1) by (auto simp: H_def)
  ultimately show ?thesis using ins s(1) by (intro exI [of _ H] exI [of _ ys] exI [of _ "b # zs"]) simp
qed

text \<open>\<open>tl_insert\<close> keeps the order of the deadlines and puts the entry behind those that expire before it.\<close>

lemma add_ok:
  assumes rep: "tl_rep h q xs" and a: "a \<notin> set xs" "tl_idle h a d" and d: "0 \<le> d"
  shows "\<exists>H q' xs'. GKI_add_to_timer_list qa q a h s = Some (H, q', register_queue qa s)
    \<and> tl_rep H q' xs' \<and> deadlines H xs' = tl_insert a d (deadlines h xs)
    \<and> (\<forall>b. b \<notin> insert a (set xs) \<longrightarrow> H b = h b)"
proof -
  obtain e where e: "h a = Some e" "e_ticks e = d" using a(2) by (auto simp: tl_idle_def)
  have l: "tq_last_ticks q = sum_list (map (tk h) xs)" using rep by (simp add: tl_rep_def)
  show ?thesis
  proof (cases "tq_last_ticks q \<le> d")
    case True
    from append_ok [OF rep a True] obtain H q' where H: "append_entry q a h = Some (H, q')"
      "tl_rep (H(a \<mapsto> (the (H a))\<lparr>e_in_use := True\<rparr>)) q' (xs @ [a])"
      "deadlines (H(a \<mapsto> (the (H a))\<lparr>e_in_use := True\<rparr>)) (xs @ [a]) = deadlines h xs @ [(a, d)]"
      "H a \<noteq> None" "\<forall>b. b \<notin> insert a (set xs) \<longrightarrow> H b = h b" by blast
    have "tl_insert a d (deadlines h xs) = deadlines h xs @ [(a, d)]"
      using True l dls_last [of xs h 0] by (auto simp: tl_insert_def)
    moreover have "GKI_add_to_timer_list qa q a h s = Some (H(a \<mapsto> (the (H a))\<lparr>e_in_use := True\<rparr>), q', register_queue qa s)"
      using e d True H(1,4) by (auto simp: GKI_add_to_timer_list_def ent_upd_def)
    moreover have "(H(a \<mapsto> (the (H a))\<lparr>e_in_use := True\<rparr>)) b = h b" if "b \<notin> insert a (set xs)" for b
      using H(5) that by simp
    ultimately show ?thesis using H(2,3) by metis
  next
    case False
    then have lt: "d < tq_last_ticks q" by simp
    from insert_ok [OF rep a lt d] obtain H q' xs' where H: "insert_entry q a h = Some (H, q')"
      "tl_rep (H(a \<mapsto> (the (H a))\<lparr>e_in_use := True\<rparr>)) q' xs'"
      "deadlines (H(a \<mapsto> (the (H a))\<lparr>e_in_use := True\<rparr>)) xs' = tl_insert a d (deadlines h xs)"
      "H a \<noteq> None" "\<forall>b. b \<notin> insert a (set xs) \<longrightarrow> H b = h b" by blast
    moreover have "GKI_add_to_timer_list qa q a h s = Some (H(a \<mapsto> (the (H a))\<lparr>e_in_use := True\<rparr>), q', register_queue qa s)"
      using e d lt H(1,4) by (auto simp: GKI_add_to_timer_list_def ent_upd_def)
    moreover have "(H(a \<mapsto> (the (H a))\<lparr>e_in_use := True\<rparr>)) b = h b" if "b \<notin> insert a (set xs)" for b
      using H(5) that by simp
    ultimately show ?thesis by blast
  qed
qed

section \<open>Removal\<close>

lemma remove_ok:
  assumes rep: "tl_rep h q (ys @ a # zs)"
  shows "\<exists>H q'. GKI_remove_from_timer_list qa q a h s = Some (H, q', if ys @ zs = [] then unregister_queue qa s else s)
    \<and> tl_rep H q' (ys @ zs) \<and> deadlines H (ys @ zs) = filter (\<lambda>(b, d). b \<noteq> a) (deadlines h (ys @ a # zs))
    \<and> tl_idle H a GKI_UNUSED_LIST_ENTRY \<and> (\<forall>b. b \<notin> set (ys @ a # zs) \<longrightarrow> H b = h b)"
proof -
  have lk: "links h (ys @ a # zs)" and q: "tq_first q = hd_opt (ys @ a # zs)" "tq_last q = last_opt (a # zs)"
    "tq_last_ticks q = sum_list (map (tk h) (ys @ a # zs))" using rep by (simp_all add: tl_rep_def)
  have D: "distinct (ys @ a # zs)" using lk by (simp add: links_def)
  then have na: "a \<notin> set ys" "a \<notin> set zs" "distinct ys" "distinct zs" "set ys \<inter> set zs = {}" by auto
  obtain e where e: "h a = Some e" "e_next e = hd_opt zs" "e_prev e = last_opt ys" "e_in_use e" "0 \<le> e_ticks e"
    using linksD [OF lk, of a] na by (auto simp: nxt_mid prv_mid)
  define H0 where "H0 = (if ys = [] then h else h(last ys \<mapsto> (the (h (last ys)))\<lparr>e_next := hd_opt zs\<rparr>))"
  define H1 where "H1 = (if zs = [] then H0 else H0(hd zs \<mapsto> (the (h (hd zs)))\<lparr>e_prev := last_opt ys,
    e_ticks := e_ticks (the (h (hd zs))) + e_ticks e\<rparr>))"
  let ?i = "e\<lparr>e_next := None, e_prev := None, e_ticks := GKI_UNUSED_LIST_ENTRY, e_in_use := False\<rparr>"
  let ?q = "q\<lparr>tq_first := hd_opt (ys @ zs), tq_last := last_opt (ys @ zs),
    tq_last_ticks := sum_list (map (tk h) (ys @ a # zs)) - (if zs = [] then e_ticks e else 0)\<rparr>"
  have last: "last ys \<noteq> a \<and> (\<exists>x. h (last ys) = Some x \<and> e_next x = Some a)" if "ys \<noteq> []"
    using that na linksD [OF lk, of "last ys"] nxt_insert(1) [OF D, of "last ys"] last_in_set [OF that] by auto
  have head: "hd zs \<noteq> a \<and> (\<exists>x. h (hd zs) = Some x \<and> e_prev x = Some a)" if "zs \<noteq> []"
    using that na linksD [OF lk, of "hd zs"] prv_insert(1) [OF D, of "hd zs"] hd_in_set [OF that] by auto
  have rm: "GKI_remove_from_timer_list qa q a h s = Some (H1(a \<mapsto> ?i), ?q, if ys @ zs = [] then unregister_queue qa s else s)"
  proof (cases "ys = []")
    case True
    show ?thesis
    proof (cases "zs = []")
      case zs: True
      then show ?thesis
        using e(1-4) q True by (simp add: GKI_remove_from_timer_list_def unlink_entry_def ent_upd_def H1_def H0_def)
    next
      case zs: False
      obtain z where z: "h (hd zs) = Some z" "hd zs \<noteq> a" using head [OF zs] by blast
      have hp: "hd_opt zs = Some (hd zs)" "last_opt zs = Some (last zs)" using zs by (simp_all add: hd_opt_def last_opt_def)
      have lz: "last zs \<noteq> a" using zs na last_in_set [OF zs] by auto
      have lq: "last_opt (a # zs) = last_opt zs" using zs by (simp add: last_opt_def)
      have qq: "?q = q\<lparr>tq_first := Some (hd zs)\<rparr>" using q zs True lq hp by (cases q) simp
      have zz: "z\<lparr>e_ticks := e_ticks z + e_ticks e, e_prev := None\<rparr> = z\<lparr>e_prev := None, e_ticks := e_ticks z + e_ticks e\<rparr>"
        by (cases z) simp
      show ?thesis
        unfolding qq
        using e(1-4) q z hp lz lq zs True
        by (simp add: GKI_remove_from_timer_list_def unlink_entry_def ent_upd_def H1_def H0_def Let_def) (simp only: zz)
    qed
  next
    case False
    have nf: "hd_opt (ys @ a # zs) \<noteq> Some a" using False na by (cases ys) auto
    obtain y where y: "h (last ys) = Some y" "e_next y = Some a" "last ys \<noteq> a" using last [OF False] by blast
    have lp: "last_opt ys = Some (last ys)" "hd_opt ys = Some (hd ys)" using False by (simp_all add: last_opt_def hd_opt_def)
    show ?thesis
    proof (cases "zs = []")
      case True
      have qq: "?q = q\<lparr>tq_last_ticks := sum_list (map (tk h) (ys @ a # zs)) - e_ticks e, tq_last := Some (last ys)\<rparr>"
        using q True False lp by (cases q) simp
      show ?thesis
        unfolding qq
        using e(1-4) q y nf lp False True
        by (simp add: GKI_remove_from_timer_list_def unlink_entry_def ent_upd_def H1_def H0_def)
    next
      case zs: False
      obtain z where z: "h (hd zs) = Some z" "e_prev z = Some a" "hd zs \<noteq> a" using head [OF zs] by blast
      have hp: "hd_opt zs = Some (hd zs)" "last_opt zs = Some (last zs)" using zs by (simp_all add: hd_opt_def last_opt_def)
      have zz: "z\<lparr>e_ticks := e_ticks z + e_ticks e, e_prev := Some (last ys)\<rparr>
        = z\<lparr>e_prev := Some (last ys), e_ticks := e_ticks z + e_ticks e\<rparr>" by (cases z) simp
      have lz: "hd zs \<noteq> last ys" using na last_in_set [OF False] hd_in_set [OF zs] by auto
      have nl: "last_opt (a # zs) \<noteq> Some a" using zs na last_in_set [OF zs] by (auto simp: last_opt_def)
      have lq: "last_opt (a # zs) = last_opt zs" using zs by (simp add: last_opt_def)
      have qq: "?q = q" using q zs False lq by (cases q) simp
      show ?thesis
        unfolding qq
        using e(1-4) q y z nf nl lp hp lq lz zs False
        by (simp add: GKI_remove_from_timer_list_def unlink_entry_def ent_upd_def H1_def H0_def fun_upd_twist) (simp only: zz)
    qed
  qed
  let ?H = "H1(a \<mapsto> ?i)"
  have Hx: "?H x = Some (ex\<lparr>e_next := (if ys \<noteq> [] \<and> x = last ys then hd_opt zs else e_next ex),
      e_prev := (if zs \<noteq> [] \<and> x = hd zs then last_opt ys else e_prev ex),
      e_ticks := (if zs \<noteq> [] \<and> x = hd zs then e_ticks ex + e_ticks e else e_ticks ex)\<rparr>)"
    if m: "x \<in> set (ys @ zs)" "h x = Some ex" for x ex
  proof -
    have xa: "x \<noteq> a" using m na by auto
    have lh: "zs \<noteq> [] \<Longrightarrow> ys \<noteq> [] \<Longrightarrow> last ys \<noteq> hd zs" using na(5) by (metis disjoint_iff hd_in_set last_in_set)
    show ?thesis
    proof (cases "ys \<noteq> [] \<and> x = last ys")
      case True
      then show ?thesis using m(2) xa lh by (cases "zs = []") (simp_all add: H1_def H0_def)
    next
      case False
      then have "H0 x = h x" by (auto simp: H0_def)
      have c: "(if ys \<noteq> [] \<and> x = last ys then hd_opt zs else e_next ex) = e_next ex" using False by (rule if_not_P)
      show ?thesis unfolding c using \<open>H0 x = h x\<close> m(2) xa by (cases "zs = []"; cases "x = hd zs") (simp_all add: H1_def)
    qed
  qed
  have ge: "0 \<le> e_ticks ex" if "x \<in> set (ys @ zs)" "h x = Some ex" for x ex
    using linksD [OF lk, of x] that by auto
  have "links ?H (ys @ zs)"
  proof (rule links_removeI [OF lk])
    fix x ex
    assume m: "x \<in> set (ys @ zs)" "h x = Some ex"
    have "0 \<le> (if zs \<noteq> [] \<and> x = hd zs then e_ticks ex + e_ticks e else e_ticks ex)" using ge [OF m] e(5) by simp
    then show "\<exists>v. 0 \<le> v \<and> ?H x = Some (ex\<lparr>e_next := (if ys \<noteq> [] \<and> x = last ys then hd_opt zs else e_next ex),
                     e_prev := (if zs \<noteq> [] \<and> x = hd zs then last_opt ys else e_prev ex), e_ticks := v\<rparr>)"
      using Hx [OF m] by blast
  qed
  have tx: "tk ?H x = (if zs \<noteq> [] \<and> x = hd zs then tk h x + tk h a else tk h x)" if m: "x \<in> set (ys @ zs)" for x
  proof -
    have "x \<in> set (ys @ a # zs)" using m by auto
    then obtain ex where "h x = Some ex" using linksD [OF lk] by blast
    then show ?thesis using Hx [OF m] e(1) by (auto simp: tk_def)
  qed
  have ta: "tk h a = e_ticks e" using e(1) by (simp add: tk_def)
  have ty: "tk ?H x = tk h x" if m: "x \<in> set ys" for x
  proof -
    have "\<not> (zs \<noteq> [] \<and> x = hd zs)" using m na(5) by (metis disjoint_iff hd_in_set)
    then have "(if zs \<noteq> [] \<and> x = hd zs then tk h x + tk h a else tk h x) = tk h x" by (rule if_not_P)
    moreover have "x \<in> set (ys @ zs)" using m by simp
    ultimately show ?thesis using tx [of x] by (simp only:)
  qed
  have dy: "dls ?H acc ys = dls h acc ys" for acc by (rule dls_cong) (rule ty)
  have sy: "sum_list (map (tk ?H) ys) = sum_list (map (tk h) ys)"
    by (intro arg_cong [where f = sum_list] map_cong refl) (rule ty)
  have sz: "dls ?H acc zs = dls h (acc + tk h a) zs \<and> (zs \<noteq> [] \<longrightarrow> sum_list (map (tk ?H) zs) = tk h a + sum_list (map (tk h) zs))" for acc
  proof (cases zs)
    case (Cons z ws)
    have "tk ?H x = tk h x" if "x \<in> set ws" for x using tx [of x] that Cons na by auto
    then have "dls ?H acc' ws = dls h acc' ws" "sum_list (map (tk ?H) ws) = sum_list (map (tk h) ws)" for acc'
      by (auto intro: dls_cong arg_cong [where f = sum_list] map_cong)
    then show ?thesis using Cons tx [of z] by (simp add: add.commute add.left_commute)
  qed simp
  have "tl_rep ?H ?q (ys @ zs)"
    unfolding tl_rep_def using \<open>links ?H (ys @ zs)\<close> sy sz ta by simp
  moreover have "deadlines ?H (ys @ zs) = filter (\<lambda>(b, d). b \<noteq> a) (deadlines h (ys @ a # zs))"
  proof -
    have f: "filter (\<lambda>(b, d). b \<noteq> a) (dls h acc ws) = dls h acc ws" if "a \<notin> set ws" for ws acc
      using that by (induction ws arbitrary: acc) auto
    show ?thesis using f na dy sy sz by (simp add: dls_append)
  qed
  moreover have "tl_idle ?H a GKI_UNUSED_LIST_ENTRY" by (simp add: tl_idle_def)
  moreover have "?H b = h b" if "b \<notin> set (ys @ a # zs)" for b
  proof -
    have "b \<noteq> a" "ys \<noteq> [] \<Longrightarrow> b \<noteq> last ys" "zs \<noteq> [] \<Longrightarrow> b \<noteq> hd zs" using that by auto
    then show ?thesis by (simp add: H1_def H0_def)
  qed
  ultimately show ?thesis using rm by blast
qed

section \<open>Order\<close>

lemma dls_sorted: "(\<And>a. a \<in> set xs \<Longrightarrow> 0 \<le> tk h a) \<Longrightarrow> sorted (map snd (dls h acc xs))"
proof (induction xs arbitrary: acc)
  case (Cons x xs)
  have "acc + tk h x \<le> d" if "(b, d) \<in> set (dls h (acc + tk h x) xs)" for b d
    using dls_ge [OF _ that] Cons.prems by simp
  then show ?case using Cons by force
qed simp

lemma tl_rep_sorted: "tl_rep h q xs \<Longrightarrow> sorted (map snd (deadlines h xs))"
  by (rule dls_sorted) (auto simp: tl_rep_def intro: links_tk)

lemma tl_insert_facts:
  assumes "a \<notin> set xs"
  shows "a \<in> fst ` set (tl_insert a d (deadlines h xs))" "map_of (tl_insert a d (deadlines h xs)) a = Some d"
    "filter (\<lambda>(b, d). b \<noteq> a) (tl_insert a d (deadlines h xs)) = deadlines h xs"
proof -
  define L where "L = deadlines h xs"
  have nL: "a \<notin> fst ` set L" unfolding L_def using assms dls_fst [of h 0 xs] by (metis list.set_map)
  obtain us vs where s: "tl_insert a d L = us @ (a, d) # vs" "us @ vs = L"
    unfolding tl_insert_def by (metis append_Nil2 takeWhile_dropWhile_id)
  have n: "a \<notin> fst ` set us" "a \<notin> fst ` set vs" using nL unfolding s(2) [symmetric] by auto
  have m: "map_of us a = None" using n(1) by (simp add: map_of_eq_None_iff)
  have f: "filter (\<lambda>(b, d). b \<noteq> a) ws = ws" if "a \<notin> fst ` set ws" for ws :: "(nat \<times> int) list"
    using that by (induction ws) auto
  show "a \<in> fst ` set (tl_insert a d (deadlines h xs))" unfolding L_def [symmetric] s(1) by simp
  show "map_of (tl_insert a d (deadlines h xs)) a = Some d" unfolding L_def [symmetric] s(1) using m by (simp add: map_add_def)
  show "filter (\<lambda>(b, d). b \<noteq> a) (tl_insert a d (deadlines h xs)) = deadlines h xs"
    unfolding L_def [symmetric] s(1) using f [OF n(1)] f [OF n(2)] s(2) by simp
qed

end
