(* ===== verification/Timer_Properties.thy ===== *)
theory Timer_Properties
  imports Timer_Update Timer_Edit
begin

text \<open>
  The properties of the timers: a task timer fires when its ticks have passed and not before, and a
  timer list is a list of deadlines.
\<close>

section \<open>Task timers\<close>

text \<open>A control block as \<open>gki_timers_init\<close> leaves it, every task alive.\<close>

definition tdemo :: timer_com where
  "tdemo = gki_timers_init \<lparr>OSTicks = 0, OSTicksTilExp = 5, OSNumOrigTicks = 5, OSTicksTilStop = 1,
     OSWaitTmr = (\<lambda>t. 1), OSTaskTmr = (\<lambda>k t. 1), OSTaskTmrR = (\<lambda>k t. 1), OSRdyTbl = (\<lambda>t. TASK_READY),
     OSWaitEvt = (\<lambda>t. 0), timer_nesting = False, tick_cb = True, system_tick_running = True, tick_log = [],
     timer_queues = (\<lambda>i. None)\<rparr>"

lemma tdemo_ok: "timer_inv tdemo" "live tdemo 0 3" "elapsed tdemo = 0" "\<not> fired tdemo 0 3"
  by (simp_all add: tdemo_def gki_timers_init_def timer_inv_def elapsed_def running_iff live_def fired_def
      GKI_MAX_INT32_def GKI_NUM_TIMERS_def TMR_TASKS_def)

text \<open>
  C19. A timer fires on time, over any sequence of updates of any sizes: after \<open>GKI_start_timer\<close> of
  timer k of a task for n ticks, the event of the timer is pending as soon as the updates add up to
  n ticks; before that its event flag is what it was, and the ticks that remain are n minus the
  ticks that have passed.
\<close>
theorem timer_on_time:
  fixes c :: bool
  assumes "timer_inv s" "live s k t" "0 < n" "elapsed s + n < GKI_MAX_INT32" "\<forall>m \<in> set ms. 0 \<le> m \<and> m < 2 ^ 32"
  defines "s' \<equiv> fold GKI_timer_update ms (GKI_start_timer t k n c s)"
  shows "if sum_list ms < n then fired s' k t = fired s k t \<and> remaining s' k t = n - sum_list ms
    else fired s' k t"
proof -
  note a = start_timer_ok [OF assms(1-4), of c]
  let ?s = "GKI_start_timer t k n c s"
  have "live ?s k t" "fired ?s k t = fired s k t" using a assms(2) by (simp_all add: live_def fired_def)
  then show ?thesis using run_timer [of ?s k t ms] a assms(5) by (simp add: s'_def)
qed

theorem timer_on_time_witness:
  "fired (fold GKI_timer_update [1, 2] (GKI_start_timer 3 0 3 False tdemo)) 0 3
     \<and> \<not> fired (fold GKI_timer_update [1, 1] (GKI_start_timer 3 0 3 False tdemo)) 0 3"
  using timer_on_time [OF tdemo_ok(1,2), of 3 "[1, 2]" False] timer_on_time [OF tdemo_ok(1,2), of 3 "[1, 1]" False]
    tdemo_ok(3,4) by (simp add: GKI_MAX_INT32_def)

text \<open>
  C20. The invariant of the timer control block (counters in range and never behind the running
  timers, no sweep in progress, no delayed stop of the tick while a timer runs) holds after
  \<open>gki_timers_init\<close> and is kept by starting, stopping and updating; a stopped timer stays silent over
  any sequence of updates, whatever the other timers do.
\<close>
theorem timer_inv_kept:
  assumes "timer_inv s" "live s k t" "0 < n" "elapsed s + n < GKI_MAX_INT32"
    "\<forall>m \<in> set ms. 0 \<le> m \<and> m < 2 ^ 32" "\<not> timer_nesting s0"
  shows "timer_inv (gki_timers_init s0) \<and> timer_inv (GKI_start_timer t k n c s)
    \<and> timer_inv (GKI_stop_timer t k s) \<and> timer_inv (fold GKI_timer_update ms s)
    \<and> (let s' = fold GKI_timer_update ms (GKI_stop_timer t k s) in
         timer_inv s' \<and> OSTaskTmr s' k t = 0 \<and> fired s' k t = fired s k t)"
proof -
  have k: "k < GKI_NUM_TIMERS" using assms(2) by (simp add: live_def)
  note p = stop_timer_ok [OF assms(1) k, of t]
  have l: "live (GKI_stop_timer t k s) k t" "fired (GKI_stop_timer t k s) k t = fired s k t"
    using p assms(2) by (simp_all add: live_def fired_def)
  have "timer_inv (gki_timers_init s0)"
    using assms(6) by (simp add: gki_timers_init_def timer_inv_def elapsed_def running_iff GKI_MAX_INT32_def)
  then show ?thesis
    using start_timer_ok [OF assms(1-4), of c] p run_inv [OF assms(1,5)] run_silent [OF _ l(1) _ assms(5)] l(2)
    by (simp add: Let_def)
qed

theorem timer_inv_kept_witness:
  "timer_inv (GKI_start_timer 3 0 7 True tdemo) \<and> timer_inv (fold GKI_timer_update [4, 3, 9] tdemo)"
  using timer_inv_kept [OF tdemo_ok(1,2), of 7 "[4, 3, 9]" tdemo True] tdemo_ok
  by (simp add: GKI_MAX_INT32_def timer_inv_def)

section \<open>Timer lists\<close>

text \<open>Three entries in the application's memory; the list object is at address 50.\<close>

definition idle_ent :: "int \<Rightarrow> timer_ent" where
  "idle_ent d = \<lparr>e_next = None, e_prev = None, e_ticks = d, e_in_use = False\<rparr>"

definition ldemo :: tl_heap where
  "ldemo = [1 \<mapsto> \<lparr>e_next = Some 2, e_prev = None, e_ticks = 5, e_in_use = True\<rparr>,
            2 \<mapsto> \<lparr>e_next = None, e_prev = Some 1, e_ticks = 4, e_in_use = True\<rparr>, 3 \<mapsto> idle_ent 6]"

definition lq_demo :: timer_q where
  "lq_demo = \<lparr>tq_first = Some 1, tq_last = Some 2, tq_last_ticks = 9\<rparr>"

lemma ldemo_ok: "tl_rep ldemo lq_demo [1, 2]" "tl_idle ldemo 3 6" "deadlines ldemo [1, 2] = [(1, 5), (2, 9)]"
  by (simp_all add: tl_rep_def links_def ldemo_def lq_demo_def idle_ent_def tl_idle_def tk_def nxt_def prv_def)

text \<open>
  C21. Insertion refines insertion into a list of deadlines: on a well-linked list, adding an entry
  of d ticks returns (the walk through the relative ticks ends), the heap then holds a well-linked
  list again, its deadlines are the old ones with the new entry put before the first deadline that
  is not sooner (at the end when all are at most d), the sorted order is kept and no other entry of
  the heap is touched. An entry with negative ticks leaves everything as it was.
\<close>
theorem timer_list_add:
  assumes "tl_rep h q xs" "a \<notin> set xs" "tl_idle h a d"
  shows "if d < 0 then GKI_add_to_timer_list qa q a h s = Some (h, q, s)
    else \<exists>h' q' xs'. GKI_add_to_timer_list qa q a h s = Some (h', q', register_queue qa s)
      \<and> tl_rep h' q' xs' \<and> deadlines h' xs' = tl_insert a d (deadlines h xs)
      \<and> sorted (map snd (deadlines h' xs')) \<and> (\<forall>b. b \<notin> insert a (set xs) \<longrightarrow> h' b = h b)"
proof (cases "d < 0")
  case True
  then show ?thesis using assms(3) by (auto simp: tl_idle_def GKI_add_to_timer_list_def)
next
  case False
  then obtain h' q' xs' where "GKI_add_to_timer_list qa q a h s = Some (h', q', register_queue qa s)"
    "tl_rep h' q' xs'" "deadlines h' xs' = tl_insert a d (deadlines h xs)" "\<forall>b. b \<notin> insert a (set xs) \<longrightarrow> h' b = h b"
    using add_ok [OF assms] by fastforce
  moreover from this have "sorted (map snd (deadlines h' xs'))" using tl_rep_sorted by blast
  ultimately show ?thesis unfolding if_not_P [OF False] by blast
qed

theorem timer_list_add_witness:
  "\<exists>h' q' xs'. GKI_add_to_timer_list 50 lq_demo 3 ldemo tdemo = Some (h', q', register_queue 50 tdemo)
     \<and> tl_rep h' q' xs' \<and> deadlines h' xs' = [(1, 5), (3, 6), (2, 9)]"
  using timer_list_add [OF ldemo_ok(1) _ ldemo_ok(2), of 50 tdemo] ldemo_ok(3)
  by (auto simp: tl_insert_def)

text \<open>
  One update by n ticks: every deadline drops by n, down to 0 at the lowest, the order and the
  links of the list stay, and the answer is the number of entries whose deadline was 0 or below n,
  plus one if some deadline was exactly n (however many entries share it), modulo 2^16.
\<close>
theorem timer_list_update:
  assumes "tl_rep h q xs" "0 \<le> n"
  shows "\<exists>h' q'. GKI_update_timer_list q n h = Some (of_nat (expired_count n (deadlines h xs)), h', q')
    \<and> tl_rep h' q' xs \<and> deadlines h' xs = map (\<lambda>(a, d). (a, max 0 (d - n))) (deadlines h xs)
    \<and> (\<forall>b. b \<notin> set xs \<longrightarrow> h' b = h b)"
  by (rule update_ok [OF assms])

theorem timer_list_update_witness:
  "\<exists>h' q'. GKI_update_timer_list lq_demo 5 ldemo = Some (1, h', q') \<and> deadlines h' [1, 2] = [(1, 0), (2, 4)]"
  using timer_list_update [OF ldemo_ok(1), of 5] ldemo_ok(3) by (auto simp: expired_count_def)

text \<open>
  Round trip: an entry that was added is found with exactly its deadline by
  \<open>GKI_get_remaining_ticks\<close>, and removing it gives back the list of the same entries with the same
  deadlines and an idle entry; the list is taken out of the control block's table exactly when it
  becomes empty.
\<close>
theorem timer_list_round_trip:
  assumes "tl_rep h q xs" "a \<notin> set xs" "tl_idle h a d" "0 \<le> d"
  shows "\<exists>h1 q1 s1 h2 q2. GKI_add_to_timer_list qa q a h s = Some (h1, q1, s1)
    \<and> GKI_get_remaining_ticks q1 a h1 = Some (word_of_int d)
    \<and> GKI_remove_from_timer_list qa q1 a h1 s1 = Some (h2, q2, if xs = [] then unregister_queue qa s1 else s1)
    \<and> tl_rep h2 q2 xs \<and> deadlines h2 xs = deadlines h xs \<and> tl_idle h2 a GKI_UNUSED_LIST_ENTRY"
proof -
  obtain h1 q1 xs1 where add: "GKI_add_to_timer_list qa q a h s = Some (h1, q1, register_queue qa s)"
    "tl_rep h1 q1 xs1" "deadlines h1 xs1 = tl_insert a d (deadlines h xs)" using add_ok [OF assms] by blast
  have ins: "a \<in> set xs1" "map_of (deadlines h1 xs1) a = Some d"
    "filter (\<lambda>(b, d). b \<noteq> a) (deadlines h1 xs1) = deadlines h xs"
    using tl_insert_facts [OF assms(2), of d h] add(3) dls_fst [of h1 0 xs1] by (metis list.set_map)+
  obtain e where e: "h1 a = Some e" "e_in_use e" using linksD [of h1 xs1 a] add(2) ins(1) by (auto simp: tl_rep_def)
  have "GKI_get_remaining_ticks q1 a h1 = Some (word_of_int d)"
    using remaining_ok [OF add(2) e(1)] e(2) ins(2) by simp
  moreover obtain ys zs where s: "xs1 = ys @ a # zs" using ins(1) by (meson split_list)
  then obtain h2 q2 where rm: "GKI_remove_from_timer_list qa q1 a h1 (register_queue qa s)
      = Some (h2, q2, if ys @ zs = [] then unregister_queue qa (register_queue qa s) else register_queue qa s)"
    "tl_rep h2 q2 (ys @ zs)" "deadlines h2 (ys @ zs) = deadlines h xs" "tl_idle h2 a GKI_UNUSED_LIST_ENTRY"
    using remove_ok [of h1 q1 ys a zs qa "register_queue qa s"] add(2) ins(3) by auto
  moreover have "ys @ zs = xs" using rm(3) dls_fst by metis
  ultimately show ?thesis using add(1) by (metis (no_types, lifting))
qed

theorem timer_list_round_trip_witness:
  "\<exists>h1 q1 s1 h2 q2. GKI_add_to_timer_list 50 lq_demo 3 ldemo tdemo = Some (h1, q1, s1)
     \<and> GKI_get_remaining_ticks q1 3 h1 = Some 6 \<and> GKI_remove_from_timer_list 50 q1 3 h1 s1 = Some (h2, q2, s1)
     \<and> deadlines h2 [1, 2] = [(1, 5), (2, 9)]"
  using timer_list_round_trip [OF ldemo_ok(1) _ ldemo_ok(2), of 50 tdemo] ldemo_ok(3) by auto

end
