(* ===== verification/Cho_Model.thy ===== *)
theory Cho_Model
  imports Ndef_Edit
begin

text \<open>
  The connection handover records, \<open>src/libnfc-nci/nfc/ndef/ndef_cho_utils.c\<close>: compositions of the
  NDEF message utilities that build Handover Request, Select and Carrier messages and fill the
  Bluetooth out-of-band record. A C string is the list of its bytes before the terminating zero,
  so \<open>strlen\<close> is \<open>length\<close>; the code casts it to \<open>UINT8\<close>.
\<close>

section \<open>Constants\<close>

definition ascii :: "string \<Rightarrow> byte list" where
  "ascii s = map of_char s"

abbreviation (input) NDEF_TNF_WKT :: byte where "NDEF_TNF_WKT \<equiv> 1"
abbreviation (input) NDEF_TNF_MEDIA :: byte where "NDEF_TNF_MEDIA \<equiv> 2"

definition hr_rec_type :: "byte list" where "hr_rec_type = [0x48, 0x72]"
definition hs_rec_type :: "byte list" where "hs_rec_type = [0x48, 0x73]"
definition hc_rec_type :: "byte list" where "hc_rec_type = [0x48, 0x63]"
definition cr_rec_type :: "byte list" where "cr_rec_type = [0x63, 0x72]"
definition ac_rec_type :: "byte list" where "ac_rec_type = [0x61, 0x63]"
definition err_rec_type :: "byte list" where "err_rec_type = [0x65, 0x72, 0x72]"
definition bt_oob_rec_type :: "byte list" where "bt_oob_rec_type = ascii ''application/vnd.bluetooth.ep.oob''"
definition wifi_wsc_rec_type :: "byte list" where "wifi_wsc_rec_type = ascii ''application/vnd.wfa.wsc''"

definition BT_OOB_REC_TYPE_LEN :: byte where "BT_OOB_REC_TYPE_LEN = 32"
definition WIFI_WSC_REC_TYPE_LEN :: byte where "WIFI_WSC_REC_TYPE_LEN = 23"
definition BD_ADDR_LEN :: nat where "BD_ADDR_LEN = 6"
definition BT_OOB_COD_SIZE :: nat where "BT_OOB_COD_SIZE = 3"
definition BT_EIR_SHORTENED_LOCAL_NAME_TYPE :: byte where "BT_EIR_SHORTENED_LOCAL_NAME_TYPE = 0x08"
definition BT_EIR_COMPLETE_LOCAL_NAME_TYPE :: byte where "BT_EIR_COMPLETE_LOCAL_NAME_TYPE = 0x09"
definition BT_EIR_OOB_COD_TYPE :: byte where "BT_EIR_OOB_COD_TYPE = 0x0D"
definition BT_EIR_OOB_SSP_HASH_C_TYPE :: byte where "BT_EIR_OOB_SSP_HASH_C_TYPE = 0x0E"
definition BT_EIR_OOB_SSP_RAND_R_TYPE :: byte where "BT_EIR_OOB_SSP_RAND_R_TYPE = 0x0F"

section \<open>Streams\<close>

definition strlen8 :: "byte list \<Rightarrow> byte" where
  "strlen8 s = of_nat (length s)"

text \<open>\<open>ARRAY_TO_STREAM\<close> reads the bytes in order, \<open>ARRAY16_TO_STREAM\<close> and its like backwards.\<close>

definition arr :: "byte list \<Rightarrow> nat \<Rightarrow> byte list option" where
  "arr a n = rd_bytes a 0 n"

definition arr_rev :: "byte list \<Rightarrow> nat \<Rightarrow> byte list option" where
  "arr_rev a n = map_option rev (rd_bytes a 0 n)"

definition u16_be :: "u16 \<Rightarrow> byte list" where
  "u16_be x = [ucast (drop_bit 8 x), ucast x]"

definition u16_le :: "u32 \<Rightarrow> byte list" where
  "u16_le x = [ucast x, ucast (drop_bit 8 x)]"

text \<open>The bytes written to a local array of \<open>n\<close> bytes: undefined when they do not fit.\<close>

definition local_buf :: "nat \<Rightarrow> byte list \<Rightarrow> byte list option" where
  "local_buf n bs = (if length bs \<le> n then Some bs else None)"

section \<open>Handover messages\<close>

definition NDEF_MsgCreateWktHr :: "mem \<Rightarrow> u32 \<Rightarrow> byte \<Rightarrow> (tNDEF_STATUS \<times> mem \<times> u32) option" where
  "NDEF_MsgCreateWktHr m max_size version = do {
     (m, cur) \<leftarrow> NDEF_MsgInit m max_size;
     NDEF_MsgAddRec m max_size cur NDEF_TNF_WKT (Some hr_rec_type) 2 None 0 (Some [version]) 1 }"

definition NDEF_MsgCreateWktHs :: "mem \<Rightarrow> u32 \<Rightarrow> byte \<Rightarrow> (tNDEF_STATUS \<times> mem \<times> u32) option" where
  "NDEF_MsgCreateWktHs m max_size version = do {
     (m, cur) \<leftarrow> NDEF_MsgInit m max_size;
     NDEF_MsgAddRec m max_size cur NDEF_TNF_WKT (Some hs_rec_type) 2 None 0 (Some [version]) 1 }"

definition NDEF_MsgAddWktHc ::
    "mem \<Rightarrow> u32 \<Rightarrow> u32 \<Rightarrow> byte list \<Rightarrow> byte \<Rightarrow> byte \<Rightarrow> byte list \<Rightarrow> byte \<Rightarrow> byte list \<Rightarrow> (tNDEF_STATUS \<times> mem \<times> u32) option" where
  "NDEF_MsgAddWktHc m max_size cur p_id_str ctf carrier_type_len p_carrier_type carrier_data_len p_carrier_data =
     (if 256 < unat carrier_type_len + unat carrier_data_len + 2 then Some (NDEF_MSG_INSUFFICIENT_MEM, m, cur)
      else do {
        ct \<leftarrow> arr p_carrier_type (unat carrier_type_len);
        cd \<leftarrow> arr p_carrier_data (unat carrier_data_len);
        payload \<leftarrow> local_buf 256 ((ctf AND 0x07) # carrier_type_len # ct @ cd);
        let payload_len = ucast carrier_type_len + ucast carrier_data_len + 2;
        let id_len = strlen8 p_id_str;
        NDEF_MsgAddRec m max_size cur NDEF_TNF_WKT (Some hc_rec_type) 2 (Some p_id_str) id_len
          (Some payload) payload_len })"

text \<open>
  The Alternative Carrier record: its payload is reserved first (a NULL payload leaves the bytes as
  they are), then found again as the last record and filled through the pointer \<open>p\<close>.
\<close>

definition ac_payload_len :: "byte list \<Rightarrow> byte list list \<Rightarrow> u32" where
  "ac_payload_len ref aux = fold (\<lambda>s n. n + (1 + ucast (strlen8 s))) aux (3 + ucast (strlen8 ref))"

definition put_ref :: "byte list \<Rightarrow> mem \<times> nat \<Rightarrow> (mem \<times> nat) option" where
  "put_ref s = (\<lambda>(m, p). do {
     let ref_str_len = strlen8 s;
     m \<leftarrow> wr m p ref_str_len;
     a \<leftarrow> arr s (unat ref_str_len);
     m \<leftarrow> wr_bytes m (p + 1) a;
     Some (m, p + 1 + unat ref_str_len) })"

primrec put_refs :: "byte list list \<Rightarrow> mem \<times> nat \<Rightarrow> (mem \<times> nat) option" where
  "put_refs [] mp = Some mp"
| "put_refs (s # ss) mp = do { mp \<leftarrow> put_ref s mp; put_refs ss mp }"

definition NDEF_MsgAddWktAc ::
    "mem \<Rightarrow> u32 \<Rightarrow> u32 \<Rightarrow> byte \<Rightarrow> byte list \<Rightarrow> byte \<Rightarrow> byte list list \<Rightarrow> (tNDEF_STATUS \<times> mem \<times> u32) option" where
  "NDEF_MsgAddWktAc m max_size cur cps p_carrier_data_ref_str aux_data_ref_count p_aux_data_ref_str =
     (if length p_aux_data_ref_str < unat aux_data_ref_count then None
      else do {
        let aux = take (unat aux_data_ref_count) p_aux_data_ref_str;
        let payload_len = ac_payload_len p_carrier_data_ref_str aux;
        (status, m, cur) \<leftarrow> NDEF_MsgAddRec m max_size cur NDEF_TNF_WKT (Some ac_rec_type) 2 None 0 None payload_len;
        if status \<noteq> NDEF_OK then Some (status, m, cur)
        else do {
          r \<leftarrow> NDEF_MsgGetLastRecInMsg m;
          p_rec \<leftarrow> r;
          (q, payload_len) \<leftarrow> NDEF_RecGetPayload m p_rec;
          p \<leftarrow> q;
          m \<leftarrow> wr m p cps;
          (m, p) \<leftarrow> put_ref p_carrier_data_ref_str (m, p + 1);
          m \<leftarrow> wr m p aux_data_ref_count;
          (m, p) \<leftarrow> put_refs aux (m, p + 1);
          Some (status, m, cur) } })"

definition NDEF_MsgAddWktCr :: "mem \<Rightarrow> u32 \<Rightarrow> u32 \<Rightarrow> u16 \<Rightarrow> (tNDEF_STATUS \<times> mem \<times> u32) option" where
  "NDEF_MsgAddWktCr m max_size cur random_number =
     NDEF_MsgAddRec m max_size cur NDEF_TNF_WKT (Some cr_rec_type) 2 None 0 (Some (u16_be random_number)) 2"

definition NDEF_MsgAddWktErr :: "mem \<Rightarrow> u32 \<Rightarrow> u32 \<Rightarrow> byte \<Rightarrow> u32 \<Rightarrow> (tNDEF_STATUS \<times> mem \<times> u32) option" where
  "NDEF_MsgAddWktErr m max_size cur error_reason error_data =
     (let (payload, payload_len) =
        (if error_reason = 0x02 then (error_reason # u32_be error_data, 5)
         else ([error_reason, ucast error_data], 2)) in
      NDEF_MsgAddRec m max_size cur NDEF_TNF_WKT (Some err_rec_type) 3 None 0 (Some payload) payload_len)"

section \<open>Carrier configuration records\<close>

definition NDEF_MsgAddMediaBtOob ::
    "mem \<Rightarrow> u32 \<Rightarrow> u32 \<Rightarrow> byte list \<Rightarrow> byte list \<Rightarrow> (tNDEF_STATUS \<times> mem \<times> u32) option" where
  "NDEF_MsgAddMediaBtOob m max_size cur p_id_str bd_addr = do {
     a \<leftarrow> arr_rev bd_addr BD_ADDR_LEN;
     payload \<leftarrow> local_buf (BD_ADDR_LEN + 2) (u16_le (of_nat BD_ADDR_LEN + 2) @ a);
     let payload_len = of_nat BD_ADDR_LEN + 2;
     let id_len = strlen8 p_id_str;
     NDEF_MsgAddRec m max_size cur NDEF_TNF_MEDIA (Some bt_oob_rec_type) BT_OOB_REC_TYPE_LEN
       (Some p_id_str) id_len (Some payload) payload_len }"

definition ndef_get_bt_oob_record :: "mem \<Rightarrow> byte list \<Rightarrow> ptr option" where
  "ndef_get_bt_oob_record m p_id_str = do {
     r \<leftarrow> NDEF_MsgGetFirstRecById m p_id_str (strlen8 p_id_str);
     (case r of None \<Rightarrow> Some None
      | Some p_rec \<Rightarrow> do {
          (p_type, tnf, type_len) \<leftarrow> NDEF_RecGetType m p_rec;
          if tnf \<noteq> NDEF_TNF_MEDIA \<or> type_len \<noteq> BT_OOB_REC_TYPE_LEN then Some None
          else do {
            t \<leftarrow> p_type;
            same \<leftarrow> memcmp_eq m t bt_oob_rec_type (unat BT_OOB_REC_TYPE_LEN);
            Some (if same then Some p_rec else None) } }) }"

text \<open>
  The four \<open>NDEF_MsgAppendMediaBtOob...\<close> end alike: the EIR data is appended to the payload of the
  record, then the length in its first two bytes is set from the payload length.
\<close>

definition append_eir ::
    "mem \<Rightarrow> u32 \<Rightarrow> u32 \<Rightarrow> nat \<Rightarrow> byte list \<Rightarrow> byte \<Rightarrow> (tNDEF_STATUS \<times> mem \<times> u32) option" where
  "append_eir m max_size cur p_rec eir_data eir_data_len = do {
     (status, m, cur) \<leftarrow> NDEF_MsgAppendPayload m max_size cur p_rec eir_data (ucast eir_data_len);
     if status = NDEF_OK then do {
       (q, oob_data_len) \<leftarrow> NDEF_RecGetPayload m p_rec;
       p \<leftarrow> q;
       m \<leftarrow> wr_bytes m p (u16_le oob_data_len);
       Some (status, m, cur) }
     else Some (status, m, cur) }"

definition NDEF_MsgAppendMediaBtOobCod ::
    "mem \<Rightarrow> u32 \<Rightarrow> u32 \<Rightarrow> byte list \<Rightarrow> byte list \<Rightarrow> (tNDEF_STATUS \<times> mem \<times> u32) option" where
  "NDEF_MsgAppendMediaBtOobCod m max_size cur p_id_str cod = do {
     r \<leftarrow> ndef_get_bt_oob_record m p_id_str;
     (case r of None \<Rightarrow> Some (NDEF_REC_NOT_FOUND, m, cur)
      | Some p_rec \<Rightarrow> do {
          c \<leftarrow> arr_rev cod BT_OOB_COD_SIZE;
          eir_data \<leftarrow> local_buf (BT_OOB_COD_SIZE + 2) (of_nat (BT_OOB_COD_SIZE + 1) # BT_EIR_OOB_COD_TYPE # c);
          append_eir m max_size cur p_rec eir_data (of_nat BT_OOB_COD_SIZE + 2) }) }"

definition NDEF_MsgAppendMediaBtOobName ::
    "mem \<Rightarrow> u32 \<Rightarrow> u32 \<Rightarrow> byte list \<Rightarrow> bool \<Rightarrow> byte \<Rightarrow> byte list \<Rightarrow> (tNDEF_STATUS \<times> mem \<times> u32) option" where
  "NDEF_MsgAppendMediaBtOobName m max_size cur p_id_str is_complete name_len p_name = do {
     r \<leftarrow> ndef_get_bt_oob_record m p_id_str;
     (case r of None \<Rightarrow> Some (NDEF_REC_NOT_FOUND, m, cur)
      | Some p_rec \<Rightarrow> do {
          n \<leftarrow> arr p_name (unat name_len);
          eir_data \<leftarrow> local_buf 256 ((name_len + 1)
            # (if is_complete then BT_EIR_COMPLETE_LOCAL_NAME_TYPE else BT_EIR_SHORTENED_LOCAL_NAME_TYPE) # n);
          append_eir m max_size cur p_rec eir_data (name_len + 2) }) }"

definition NDEF_MsgAppendMediaBtOobHashCRandR ::
    "mem \<Rightarrow> u32 \<Rightarrow> u32 \<Rightarrow> byte list \<Rightarrow> byte list \<Rightarrow> byte list \<Rightarrow> (tNDEF_STATUS \<times> mem \<times> u32) option" where
  "NDEF_MsgAppendMediaBtOobHashCRandR m max_size cur p_id_str p_hash_c p_rand_r = do {
     r \<leftarrow> ndef_get_bt_oob_record m p_id_str;
     (case r of None \<Rightarrow> Some (NDEF_REC_NOT_FOUND, m, cur)
      | Some p_rec \<Rightarrow> do {
          hc \<leftarrow> arr_rev p_hash_c 16;
          rr \<leftarrow> arr_rev p_rand_r 16;
          eir_data \<leftarrow> local_buf 36 (17 # BT_EIR_OOB_SSP_HASH_C_TYPE # hc @ 17 # BT_EIR_OOB_SSP_RAND_R_TYPE # rr);
          append_eir m max_size cur p_rec eir_data 36 }) }"

definition NDEF_MsgAppendMediaBtOobEirData ::
    "mem \<Rightarrow> u32 \<Rightarrow> u32 \<Rightarrow> byte list \<Rightarrow> byte \<Rightarrow> byte \<Rightarrow> byte list \<Rightarrow> (tNDEF_STATUS \<times> mem \<times> u32) option" where
  "NDEF_MsgAppendMediaBtOobEirData m max_size cur p_id_str eir_type data_len p_data = do {
     r \<leftarrow> ndef_get_bt_oob_record m p_id_str;
     (case r of None \<Rightarrow> Some (NDEF_REC_NOT_FOUND, m, cur)
      | Some p_rec \<Rightarrow> do {
          d \<leftarrow> arr p_data (unat data_len);
          eir_data \<leftarrow> local_buf 256 ((data_len + 1) # eir_type # d);
          append_eir m max_size cur p_rec eir_data (data_len + 2) }) }"

definition NDEF_MsgAddMediaWifiWsc ::
    "mem \<Rightarrow> u32 \<Rightarrow> u32 \<Rightarrow> byte list option \<Rightarrow> byte list option \<Rightarrow> u32 \<Rightarrow> (tNDEF_STATUS \<times> mem \<times> u32) option" where
  "NDEF_MsgAddMediaWifiWsc m max_size cur p_id_str p_payload payload_len =
     (let id_len = (case p_id_str of None \<Rightarrow> 0 | Some s \<Rightarrow> strlen8 s) in
      NDEF_MsgAddRec m max_size cur NDEF_TNF_MEDIA (Some wifi_wsc_rec_type) WIFI_WSC_REC_TYPE_LEN
        p_id_str id_len p_payload payload_len)"

end
