(* ===== verification/Cho_Build.thy ===== *)
theory Cho_Build
  imports Cho_Model Ndef_Dechunk
begin

text \<open>
  The connection handover operations on the list of records: every \<open>Add\<close> appends one record or
  reports that it does not fit, every \<open>Append\<close> extends the payload of the Bluetooth record.
\<close>

section \<open>Adding a record\<close>

text \<open>The answer of an operation that appends the record \<open>r\<close> to a message.\<close>

definition adds :: "mem \<Rightarrow> u32 \<Rightarrow> u32 \<Rightarrow> ndef_rec list \<Rightarrow> ndef_rec \<Rightarrow> (tNDEF_STATUS \<times> mem \<times> u32) option \<Rightarrow> bool" where
  "adds m max_size cur rs r res \<longleftrightarrow>
     (if unat cur + rec_len r \<le> unat max_size
      then \<exists>m' cur'. res = Some (NDEF_OK, m', cur') \<and> holds m' cur' (rs @ [r]) \<and> length m' = length m
      else res = Some (NDEF_MSG_INSUFFICIENT_MEM, m, cur))"

lemma adds_supplied:
  assumes h: "holds m cur rs" and wf: "wf_rec (new_rec tnf ty idf pl)"
    and src: "src_holds p_type ty" "src_holds p_id idf"
      "supplies p_payload pl m (unat cur + rec_len (new_rec tnf ty idf pl) - length pl)"
    and sz: "unat max_size \<le> length m" "unat cur + rec_len (new_rec tnf ty idf pl) < 4294967296"
  shows "adds m max_size cur rs (new_rec tnf ty idf pl)
    (NDEF_MsgAddRec m max_size cur tnf p_type (of_nat (length ty)) p_id (of_nat (length idf)) p_payload (of_nat (length pl)))"
proof (cases "unat cur + rec_len (new_rec tnf ty idf pl) \<le> unat max_size")
  case True
  let ?rs = "rs @ [new_rec tnf ty idf pl]"
  have len: "length (enc_msg ?rs) = unat cur + rec_len (new_rec tnf ty idf pl)"
    using holdsD(2) [OF h] by (simp add: length_enc_msg)
  have "unat (of_nat (length (enc_msg ?rs)) :: u32) = length (enc_msg ?rs)"
    using len sz(2) by (simp only: unat_of_nat) simp
  then have "holds (enc_msg ?rs @ drop (length (enc_msg ?rs)) m) (of_nat (length (enc_msg ?rs))) ?rs"
    using holdsD(3) [OF h] wf by (intro holdsI [OF refl]) auto
  moreover have "length (enc_msg ?rs @ drop (length (enc_msg ?rs)) m) = length m" using len True sz(1) by simp
  ultimately show ?thesis using True NDEF_MsgAddRec_supplied [OF h wf src True sz(1)] by (simp add: adds_def)
next
  case False
  then show ?thesis using NDEF_MsgAddRec_full [OF h wf _ sz(2)] by (simp add: adds_def)
qed

lemma adds_given:
  assumes "holds m cur rs" "wf_rec (new_rec tnf ty idf pl)" "src_holds p_id idf"
    "unat max_size \<le> length m" "unat cur + rec_len (new_rec tnf ty idf pl) < 4294967296"
    "tlen = of_nat (length ty)" "il = of_nat (length idf)" "n = of_nat (length pl)"
  shows "adds m max_size cur rs (new_rec tnf ty idf pl) (NDEF_MsgAddRec m max_size cur tnf (Some ty) tlen p_id il (Some pl) n)"
  unfolding assms(6-8)
  by (rule adds_supplied [OF assms(1,2) _ assms(3) _ assms(4,5)]) (simp_all add: src_holds_def supplies_def)

section \<open>The payload of one record\<close>

lemma payload_split:
  assumes h: "holds m cur rs" and i: "i < length rs"
  obtains A B where "m = A @ r_payload (rs ! i) @ B"
    "length A = offset rs i + hdr_len (rs ! i) + length (r_type (rs ! i)) + length (r_id (rs ! i))"
    "\<And>pl. length pl = length (r_payload (rs ! i)) \<Longrightarrow> holds (A @ pl @ B) cur (rs[i := (rs ! i)\<lparr>r_payload := pl\<rparr>])"
proof -
  obtain P Q C where m: "m = P @ enc_rec (i = 0) (Suc i = length rs) (rs ! i) @ Q @ C" and P: "length P = offset rs i"
    and cu: "unat cur = offset rs i + rec_len (rs ! i) + length Q" and wf: "wf_rec (rs ! i)"
    and upd: "\<And>r. enc_msg (rs[i := r]) = P @ enc_rec (i = 0) (Suc i = length rs) r @ Q"
    by (rule at_record [OF h i]) blast
  let ?r = "rs ! i"
  define H where "H = hdr_byte (i = 0) (Suc i = length rs) ?r # of_nat (length (r_type ?r)) # paylen_bytes ?r @ idlen_bytes ?r
     @ r_type ?r @ r_id ?r"
  show thesis
  proof (rule that [of "P @ H" "Q @ C"])
    show "m = (P @ H) @ r_payload ?r @ Q @ C" using m by (simp add: enc_rec_def H_def)
    show "length (P @ H) = offset rs i + hdr_len ?r + length (r_type ?r) + length (r_id ?r)"
      using P by (simp add: H_def hdr_len_def)
  next
    fix pl :: "byte list"
    assume l: "length pl = length (r_payload ?r)"
    have "enc_rec (i = 0) (Suc i = length rs) (?r\<lparr>r_payload := pl\<rparr>) = H @ pl"
      using l by (simp add: enc_rec_def H_def hdr_byte_def paylen_bytes_def idlen_bytes_def)
    moreover have "rec_len (?r\<lparr>r_payload := pl\<rparr>) = rec_len ?r" using l by (simp add: rec_len_def hdr_len_def)
    moreover have "wf_rec (?r\<lparr>r_payload := pl\<rparr>)" using wf l by (simp add: wf_rec_def)
    ultimately show "holds ((P @ H) @ pl @ Q @ C) cur (rs[i := ?r\<lparr>r_payload := pl\<rparr>])"
      using cu P by (intro holds_update [OF upd h]) simp_all
  qed
qed

lemma get_payload:
  assumes h: "holds m cur rs" and i: "i < length rs" and ne: "r_payload (rs ! i) \<noteq> []"
  shows "NDEF_RecGetPayload m (offset rs i)
    = Some (Some (offset rs i + hdr_len (rs ! i) + length (r_type (rs ! i)) + length (r_id (rs ! i))),
        of_nat (length (r_payload (rs ! i))))"
  using NDEF_RecGet_enc(3) [OF i holdsD(3) [OF h], of "drop (unat cur) m"] holdsD(1) [OF h] ne by simp

section \<open>The Alternative Carrier record\<close>

definition lv :: "byte list \<Rightarrow> byte list" where
  "lv s = strlen8 s # take (unat (strlen8 s)) s"

definition ac_payload :: "byte \<Rightarrow> byte list \<Rightarrow> byte \<Rightarrow> byte list list \<Rightarrow> byte list" where
  "ac_payload cps ref n aux = cps # lv ref @ n # concat (map lv aux)"

lemma strlen8_le: "unat (strlen8 s) \<le> length s"
  by (simp add: strlen8_def unat_of_nat)

lemma length_lv [simp]: "length (lv s) = 1 + unat (strlen8 s)"
  using strlen8_le [of s] by (simp add: lv_def)

lemma put_ref_ok: "length A = p \<Longrightarrow> length X = length (lv s) \<Longrightarrow>
    put_ref s (A @ X @ B, p) = Some (A @ lv s @ B, p + length (lv s))"
proof -
  assume a: "length A = p" "length X = length (lv s)"
  then obtain x Y where X: "X = x # Y" "length Y = unat (strlen8 s)" by (cases X) simp_all
  have "wr (A @ X @ B) p (strlen8 s) = Some (A @ strlen8 s # Y @ B)" using a X by (simp add: wr_def list_update_append)
  moreover have "arr s (unat (strlen8 s)) = Some (take (unat (strlen8 s)) s)"
    using strlen8_le [of s] by (simp add: arr_def rd_bytes_def)
  moreover have "wr_bytes (A @ strlen8 s # Y @ B) (p + 1) (take (unat (strlen8 s)) s)
      = Some (A @ strlen8 s # take (unat (strlen8 s)) s @ B)"
    using wr_bytes_fill [of "A @ [strlen8 s]" "p + 1" Y "take (unat (strlen8 s)) s" B] a X strlen8_le [of s] by simp
  ultimately show ?thesis using strlen8_le [of s] by (simp add: put_ref_def lv_def Let_def min_def)
qed

lemma put_refs_ok: "length A = p \<Longrightarrow> length X = length (concat (map lv ss)) \<Longrightarrow>
    \<exists>q. put_refs ss (A @ X @ B, p) = Some (A @ concat (map lv ss) @ B, q)"
proof (induction ss arbitrary: A X p)
  case (Cons s ss)
  define Y Z where "Y = take (length (lv s)) X" and "Z = drop (length (lv s)) X"
  have X: "X = Y @ Z" "length Y = length (lv s)" "length Z = length (concat (map lv ss))"
    using Cons.prems(2) by (simp_all add: Y_def Z_def)
  have 1: "put_ref s (A @ Y @ Z @ B, p) = Some (A @ lv s @ Z @ B, p + length (lv s))"
    using put_ref_ok [OF Cons.prems(1) X(2)] by simp
  obtain q where "put_refs ss ((A @ lv s) @ Z @ B, p + length (lv s)) = Some ((A @ lv s) @ concat (map lv ss) @ B, q)"
    using Cons.IH [of "A @ lv s" "p + length (lv s)" Z] Cons.prems(1) X(3) by auto
  then show ?case using 1 X(1) by simp
qed simp

lemma ac_payload_len: "length aux < 256 \<Longrightarrow>
    ac_payload_len ref aux = of_nat (length (ac_payload cps ref n aux)) \<and> length (ac_payload cps ref n aux) < 70000"
proof -
  have f: "fold (\<lambda>s n. n + (1 + ucast (strlen8 s))) aux (of_nat k) = (of_nat (k + length (concat (map lv aux))) :: u32)" for k
  proof (induction aux arbitrary: k)
    case (Cons s ss)
    have "of_nat k + (1 + ucast (strlen8 s)) = (of_nat (k + (1 + unat (strlen8 s))) :: u32)" by simp
    then have "fold (\<lambda>s n. n + (1 + ucast (strlen8 s))) (s # ss) (of_nat k)
      = fold (\<lambda>s n. n + (1 + ucast (strlen8 s))) ss (of_nat (k + (1 + unat (strlen8 s))) :: u32)"
      by (simp only: fold_simps)
    then show ?case unfolding Cons.IH by (simp add: algebra_simps)
  qed simp
  have "length (concat (map lv aux)) \<le> 256 * length aux"
  proof (induction aux)
    case (Cons s ss)
    then show ?case using unat_byte_less [of "strlen8 s"] by simp
  qed simp
  moreover assume "length aux < 256"
  ultimately have "length (ac_payload cps ref n aux) < 70000"
    using unat_byte_less [of "strlen8 ref"] by (simp add: ac_payload_def)
  moreover have "(3 + ucast (strlen8 ref) :: u32) = of_nat (3 + unat (strlen8 ref))" by simp
  then have "ac_payload_len ref aux = of_nat (3 + unat (strlen8 ref) + length (concat (map lv aux)))"
    using f [of "3 + unat (strlen8 ref)"] by (simp add: ac_payload_len_def del: of_nat_add)
  ultimately show ?thesis by (simp add: ac_payload_def)
qed

lemma GetLastRec_snoc:
  assumes "holds m cur (rs @ [r])"
  shows "NDEF_MsgGetLastRecInMsg m = Some (Some (offset (rs @ [r]) (length rs)))"
  using NDEF_MsgGetLastRecInMsg_enc [of "rs @ [r]" "drop (unat cur) m"] holdsD [OF assms] by simp

lemma fill_ac:
  assumes "length old = length (ac_payload cps ref n aux)" "length A = p"
  shows "do { m \<leftarrow> wr (A @ old @ B) p cps; (m, p) \<leftarrow> put_ref ref (m, p + 1); m \<leftarrow> wr m p n;
      (m, p) \<leftarrow> put_refs aux (m, p + 1); Some (st, m, cur) } = Some (st, A @ ac_payload cps ref n aux @ B, cur)"
proof -
  obtain x X where x: "old = x # X" using assms(1) by (cases old) (simp_all add: ac_payload_def)
  define Y Z where "Y = take (length (lv ref)) X" and "Z = drop (length (lv ref)) X"
  have XY: "X = Y @ Z" "length Y = length (lv ref)" "length Z = 1 + length (concat (map lv aux))"
    using assms(1) x by (simp_all add: Y_def Z_def ac_payload_def)
  obtain z W where z: "Z = z # W" "length W = length (concat (map lv aux))" using XY(3) by (cases Z) simp_all
  have 1: "wr (A @ old @ B) p cps = Some ((A @ [cps]) @ Y @ z # W @ B)"
    using assms(2) x XY z by (simp add: wr_def list_update_append)
  have 2: "put_ref ref ((A @ [cps]) @ Y @ z # W @ B, p + 1) = Some ((A @ [cps]) @ lv ref @ z # W @ B, p + 1 + length (lv ref))"
    using assms(2) XY(2) by (intro put_ref_ok) simp_all
  have 3: "wr ((A @ [cps]) @ lv ref @ z # W @ B) (p + 1 + length (lv ref)) n
      = Some ((A @ cps # lv ref @ [n]) @ W @ B)"
    using assms(2) by (simp add: wr_def list_update_append)
  obtain q where 4: "put_refs aux ((A @ cps # lv ref @ [n]) @ W @ B, p + 1 + length (lv ref) + 1)
      = Some ((A @ cps # lv ref @ [n]) @ concat (map lv aux) @ B, q)"
    using put_refs_ok [of "A @ cps # lv ref @ [n]" "p + 1 + length (lv ref) + 1" W aux B] assms(2) z(2) by auto
  show ?thesis
    unfolding 1 Option.bind.simps 2 prod.case 3 4 by (simp add: ac_payload_def)
qed

lemma NDEF_MsgAddWktAc_ok:
  fixes cps :: byte and ref :: "byte list"
  assumes h: "holds m cur rs" and n: "unat n \<le> length auxs" and mx: "unat max_size \<le> length m"
  defines "L \<equiv> ac_payload cps ref n (take (unat n) auxs)"
  defines "r \<equiv> new_rec NDEF_TNF_WKT ac_rec_type [] L"
  assumes sz: "unat cur + rec_len r < 4294967296"
  shows "adds m max_size cur rs r (NDEF_MsgAddWktAc m max_size cur cps ref n auxs)"
proof -
  let ?aux = "take (unat n) auxs"
  have la: "length ?aux < 256" using unat_byte_less [of n] n by simp
  have pl: "ac_payload_len ref ?aux = of_nat (length L)" "length L < 70000"
    using ac_payload_len [OF la, of ref cps n] by (simp_all add: L_def)
  have wf: "wf_rec (new_rec NDEF_TNF_WKT ac_rec_type [] X)" if "length X = length L" for X
    using that pl(2) by (simp add: wf_rec_def ac_rec_type_def)
  have rl: "rec_len (new_rec NDEF_TNF_WKT ac_rec_type [] X) = rec_len r" if "length X = length L" for X
    using that by (simp add: r_def rec_len_def hdr_len_def)
  have ty: "of_nat (length ac_rec_type) = (2 :: byte)" "of_nat (length ([] :: byte list)) = (0 :: byte)"
    by (simp_all add: ac_rec_type_def)
  show ?thesis
  proof (cases "unat cur + rec_len r \<le> unat max_size")
    case False
    then have "NDEF_MsgAddRec m max_size cur NDEF_TNF_WKT (Some ac_rec_type) 2 None 0 None (of_nat (length L))
        = Some (NDEF_MSG_INSUFFICIENT_MEM, m, cur)"
      using NDEF_MsgAddRec_full [OF h wf [OF refl]] sz unfolding r_def ty [symmetric] by simp
    then show ?thesis using False n pl(1) by (simp add: adds_def NDEF_MsgAddWktAc_def Let_def)
  next
    case True
    let ?q = "unat cur + rec_len r - length L"
    define old where "old = take (length L) (drop ?q m)"
    have "length L \<le> rec_len r" by (simp add: r_def rec_len_def)
    then have lo: "length old = length L" using True mx by (simp add: old_def)
    let ?r = "new_rec NDEF_TNF_WKT ac_rec_type [] old"
    have "adds m max_size cur rs ?r (NDEF_MsgAddRec m max_size cur NDEF_TNF_WKT (Some ac_rec_type)
        (of_nat (length ac_rec_type)) None (of_nat (length ([] :: byte list))) None (of_nat (length old)))"
      using rl [OF lo] sz lo
      by (intro adds_supplied [OF h wf [OF lo] _ _ _ mx]) (simp_all add: src_holds_def supplies_def old_def)
    then obtain m1 cur1 where add: "NDEF_MsgAddRec m max_size cur NDEF_TNF_WKT (Some ac_rec_type) 2 None 0 None (of_nat (length L))
        = Some (NDEF_OK, m1, cur1)" "holds m1 cur1 (rs @ [?r])" "length m1 = length m"
      using True rl [OF lo] lo by (auto simp: adds_def ty)
    have i: "length rs < length (rs @ [?r])" by simp
    obtain A B where sp: "m1 = A @ old @ B"
      "length A = offset (rs @ [?r]) (length rs) + hdr_len ?r + length ac_rec_type"
      "\<And>pl. length pl = length old \<Longrightarrow> holds (A @ pl @ B) cur1 ((rs @ [?r])[length rs := ?r\<lparr>r_payload := pl\<rparr>])"
      using payload_split [OF add(2) i] by auto
    have ne: "old \<noteq> []" using lo by (auto simp: L_def ac_payload_def)
    then have gp: "NDEF_RecGetPayload m1 (offset (rs @ [?r]) (length rs)) = Some (Some (length A), of_nat (length old))"
      using get_payload [OF add(2) i] sp(2) by simp
    have "?r\<lparr>r_payload := L\<rparr> = r" using lo by (simp add: r_def new_rec_def)
    then have H: "holds (A @ L @ B) cur1 (rs @ [r])" using sp(3) [of L] lo by simp
    have "NDEF_MsgAddWktAc m max_size cur cps ref n auxs = Some (NDEF_OK, A @ L @ B, cur1)"
      unfolding NDEF_MsgAddWktAc_def Let_def pl(1) add(1)
      using n GetLastRec_snoc [OF add(2)] gp fill_ac [of old cps ref n ?aux A "length A" B NDEF_OK cur1] lo sp(1)
      by (simp add: L_def [symmetric])
    moreover have "length (A @ L @ B) = length m" using add(3) sp(1) lo by simp
    ultimately show ?thesis using H True by (simp add: adds_def)
  qed
qed

text \<open>
  The Bluetooth out-of-band record: how it is found, and what appending EIR data does to it.
\<close>

section \<open>Finding the record\<close>

lemma first_off_index:
  "first_off P p rs = (let i = length (takeWhile (\<lambda>r. \<not> P r) rs) in
     if i < length rs then Some (p + offset rs i) else None)"
  by (induction P p rs rule: first_off.induct) (auto simp: Let_def offset_def)

definition oob_index :: "ndef_rec list \<Rightarrow> byte list \<Rightarrow> nat option" where
  "oob_index rs s = (let i = length (takeWhile (\<lambda>r. r_id r \<noteq> s) rs) in
     if i < length rs \<and> r_tnf (rs ! i) = NDEF_TNF_MEDIA \<and> r_type (rs ! i) = bt_oob_rec_type then Some i else None)"

lemma oob_indexD:
  "oob_index rs s = Some i \<Longrightarrow> i < length rs \<and> r_id (rs ! i) = s \<and> r_tnf (rs ! i) = NDEF_TNF_MEDIA
     \<and> r_type (rs ! i) = bt_oob_rec_type"
  using nth_length_takeWhile [of "\<lambda>r. r_id r \<noteq> s" rs] by (auto simp: oob_index_def Let_def split: if_splits)

lemma length_bt_oob [simp]: "length bt_oob_rec_type = 32"
  by (simp add: bt_oob_rec_type_def ascii_def)

lemma length_wifi [simp]: "length wifi_wsc_rec_type = 23"
  by (simp add: wifi_wsc_rec_type_def ascii_def)

lemma get_bt_oob_ok:
  assumes h: "holds m cur rs" "rs \<noteq> []" and s: "length s < 256"
  shows "ndef_get_bt_oob_record m s = Some (map_option (offset rs) (oob_index rs s))"
proof -
  let ?i = "length (takeWhile (\<lambda>r. r_id r \<noteq> s) rs)"
  note D = holdsD [OF h(1)]
  have m: "enc_msg rs @ drop (unat cur) m = m" by (rule D(1) [symmetric])
  have l: "length s = unat (strlen8 s)" using s by (simp add: strlen8_def unat_of_nat)
  have "NDEF_MsgGetFirstRecById m s (strlen8 s) = Some (first_off (\<lambda>r. r_id r = s) 0 rs)"
    using first_by_id_loop_enc [OF h(2) D(3) l, of "[]" True "drop (unat cur) m"]
    by (simp add: NDEF_MsgGetFirstRecById_def m enc_msg_def [symmetric])
  then have f: "NDEF_MsgGetFirstRecById m s (strlen8 s) = Some (if ?i < length rs then Some (offset rs ?i) else None)"
    by (simp add: first_off_index Let_def)
  show ?thesis
  proof (cases "?i < length rs")
    case False
    then show ?thesis using f by (simp add: ndef_get_bt_oob_record_def oob_index_def)
  next
    case i: True
    let ?r = "rs ! ?i"
    have tl: "length (r_type ?r) < 256" using D(3) i by (simp add: wf_rec_def)
    have t: "NDEF_RecGetType m (offset rs ?i)
      = Some (if r_type ?r = [] then None else Some (offset rs ?i + hdr_len ?r), r_tnf ?r, of_nat (length (r_type ?r)))"
      using NDEF_RecGet_enc(1) [OF i D(3), of "drop (unat cur) m"] unfolding m .
    have w: "of_nat (length (r_type ?r)) = BT_OOB_REC_TYPE_LEN \<longleftrightarrow> length (r_type ?r) = 32"
      using tl by (simp add: BT_OOB_REC_TYPE_LEN_def word_unat_eq_iff unat_of_nat)
    note t_w = t w
    have c: "memcmp_eq m (offset rs ?i + hdr_len ?r) bt_oob_rec_type 32 = Some (r_type ?r = bt_oob_rec_type)"
      if l: "length (r_type ?r) = 32"
    proof -
      have ne: "r_type ?r \<noteq> []" using l by auto
      have "src_holds (Some (drop (offset rs ?i + hdr_len ?r) m)) (r_type ?r)"
        using src_fields(1) [OF i, of "drop (unat cur) m"] ne unfolding m by (simp add: src_at_def)
      then have "take 32 (drop (offset rs ?i + hdr_len ?r) m) = r_type ?r"
        using l by (simp add: src_holds_def)
      moreover have "offset rs ?i + hdr_len ?r + 32 \<le> length m"
        using arg_cong [OF calculation, of length] l by simp
      ultimately show ?thesis by (simp add: memcmp_eq_def rd_bytes_def)
    qed
    define p t where "p = offset rs ?i" and "t = ?r"
    have e: "ndef_get_bt_oob_record m s = (if r_tnf t \<noteq> NDEF_TNF_MEDIA \<or> length (r_type t) \<noteq> 32 then Some None
      else do { same \<leftarrow> memcmp_eq m (p + hdr_len t) bt_oob_rec_type 32; Some (if same then Some p else None) })"
      unfolding p_def t_def using f i t_w by (auto simp: ndef_get_bt_oob_record_def BT_OOB_REC_TYPE_LEN_def)
    show ?thesis
    proof (cases "length (r_type t) = 32")
      case True
      then show ?thesis using e c i by (simp add: oob_index_def p_def t_def)
    next
      case False
      then have "r_type t \<noteq> bt_oob_rec_type" by auto
      then show ?thesis using e i False by (simp add: oob_index_def t_def)
    qed
  qed
qed

section \<open>Appending to it\<close>

definition widens :: "ndef_rec \<Rightarrow> byte list \<Rightarrow> bool" where
  "widens r add \<longleftrightarrow> length (r_payload r) < 256 \<and> 255 < length (r_payload r) + length add"

lemma NDEF_MsgAppendPayload_full:
  assumes h: "holds m cur rs" and i: "i < length rs"
    and sz: "unat cur + length add + 3 < 4294967296"
    and full: "unat max_size < unat cur + length add + (if widens (rs ! i) add then 3 else 0)"
  shows "NDEF_MsgAppendPayload m max_size cur (offset rs i) p_add (of_nat (length add)) = Some (NDEF_MSG_INSUFFICIENT_MEM, m, cur)"
proof -
  obtain P Q C where
    m: "m = P @ enc_rec (i = 0) (Suc i = length rs) (rs ! i) @ Q @ C" and P: "length P = offset rs i"
    and cu: "unat cur = offset rs i + rec_len (rs ! i) + length Q" and wf: "wf_rec (rs ! i)"
    by (rule at_record [OF h i]) blast
  let ?r = "rs ! i" and ?h = "hdr_byte (i = 0) (Suc i = length rs) (rs ! i)"
  have f: "rd m (offset rs i) = Some ?h" "ndef_fields m (offset rs i + 1) ?h
      = Some (of_nat (length (r_type ?r)), of_nat (length (r_payload ?r)), of_nat (length (r_id ?r)), offset rs i + hdr_len ?r)"
    using ndef_fields_enc [OF wf P [symmetric]] by (simp_all add: m enc_rec_def rd_def P [symmetric])
  have "length (r_payload ?r) \<le> unat cur" using cu by (simp add: rec_len_def)
  then have b: "length (r_payload ?r) + length add < 4294967296" "length (r_payload ?r) < 4294967296" using sz by simp_all
  have sw: "of_nat (length (r_payload ?r)) + of_nat (length add) = (of_nat (length (r_payload ?r) + length add) :: u32)" by simp
  have w: "(of_nat (length (r_payload ?r)) < (256 :: u32) \<and> 255 < (of_nat (length (r_payload ?r)) + of_nat (length add) :: u32))
      = widens ?r add"
    unfolding sw widens_def by (simp only: u32_of_nat_less_256 [OF b(2)] of_nat_gt_255 [OF b(1)])
  define inc where "inc = (if widens ?r add then 3 else 0 :: u32)"
  have ui: "unat inc = (if widens ?r add then 3 else 0)" by (simp add: inc_def)
  have "unat (cur + of_nat (length add) + inc) = unat cur + length add + unat inc"
    using sz ui by (simp add: unat_word_ariths unat_of_nat)
  then have "max_size < cur + of_nat (length add) + inc" using full ui by (simp add: word_less_nat_alt)
  then show ?thesis
    unfolding NDEF_MsgAppendPayload_def f Option.bind.simps Let_def prod.case w inc_def by simp
qed

text \<open>The payload after EIR data was appended and the length in the first two bytes set.\<close>

definition oob_payload :: "byte list \<Rightarrow> byte list" where
  "oob_payload pl = u16_le (of_nat (length pl)) @ drop 2 pl"

definition extends :: "mem \<Rightarrow> u32 \<Rightarrow> u32 \<Rightarrow> ndef_rec list \<Rightarrow> nat \<Rightarrow> byte list \<Rightarrow> (tNDEF_STATUS \<times> mem \<times> u32) option \<Rightarrow> bool" where
  "extends m max_size cur rs i eir res \<longleftrightarrow>
     (if unat cur + length eir + (if widens (rs ! i) eir then 3 else 0) \<le> unat max_size
      then \<exists>m' cur'. res = Some (NDEF_OK, m', cur') \<and> length m' = length m
        \<and> holds m' cur' (rs[i := with_payload (rs ! i) (oob_payload (r_payload (rs ! i) @ eir))])
      else res = Some (NDEF_MSG_INSUFFICIENT_MEM, m, cur))"

lemma append_eir_ok:
  assumes h: "holds m cur rs" and i: "i < length rs" and cn: "canon (rs ! i)"
    and dat: "src_holds (Some dat) eir"
    and eir: "2 \<le> length (r_payload (rs ! i) @ eir)" "length eir < 256" "n = of_nat (length eir)"
    and wf: "wf_rec (with_payload (rs ! i) (r_payload (rs ! i) @ eir))"
    and last: "widens (rs ! i) eir \<Longrightarrow> Suc i = length rs"
    and sz: "unat cur + 258 < 4294967296" "unat max_size \<le> length m"
  shows "extends m max_size cur rs i eir (append_eir m max_size cur (offset rs i) dat n)"
proof -
  have n: "ucast n = (of_nat (length eir) :: u32)" using eir(2,3) by (simp add: word_unat_eq_iff unat_of_nat unat_ucast_mod)
  show ?thesis
  proof (cases "unat cur + length eir + (if widens (rs ! i) eir then 3 else 0) \<le> unat max_size")
    case False
    then have "NDEF_MsgAppendPayload m max_size cur (offset rs i) dat (of_nat (length eir)) = Some (NDEF_MSG_INSUFFICIENT_MEM, m, cur)"
      using eir(2) sz(1) by (intro NDEF_MsgAppendPayload_full [OF h i]) simp_all
    then show ?thesis using False by (simp add: extends_def append_eir_def n)
  next
    case True
    let ?pl = "r_payload (rs ! i) @ eir"
    let ?r = "with_payload (rs ! i) ?pl"
    obtain m1 cur1 where ap: "NDEF_MsgAppendPayload m max_size cur (offset rs i) dat (of_nat (length eir)) = Some (NDEF_OK, m1, cur1)"
      "holds m1 cur1 (rs[i := ?r])" "length m1 = length m"
      using NDEF_MsgAppendPayload_ok [OF h i cn dat, of max_size] wf last True sz(2)
      by (auto simp: with_payload_def widens_def)
    let ?rs = "rs[i := ?r]"
    have i': "i < length ?rs" and ri: "?rs ! i = ?r" using i by simp_all
    have rp: "r_payload ?r = ?pl" by (simp add: with_payload_def)
    have off: "offset ?rs i = offset rs i" by (simp add: offset_def)
    have ne: "r_payload (?rs ! i) \<noteq> []" using eir(1) unfolding ri rp by auto
    obtain A B where sp: "m1 = A @ ?pl @ B"
      "length A = offset rs i + hdr_len ?r + length (r_type ?r) + length (r_id ?r)"
      "\<And>pl. length pl = length ?pl \<Longrightarrow> holds (A @ pl @ B) cur1 (?rs[i := ?r\<lparr>r_payload := pl\<rparr>])"
      using payload_split [OF ap(2) i'] unfolding ri rp off by blast
    have gp: "NDEF_RecGetPayload m1 (offset rs i) = Some (Some (length A), of_nat (length ?pl))"
      using get_payload [OF ap(2) i' ne] unfolding ri rp off sp(2) .
    have l2: "length (u16_le w) = 2" for w by (simp add: u16_le_def)
    define T where "T = take 2 ?pl"
    have T: "?pl = T @ drop 2 ?pl" unfolding T_def by (rule append_take_drop_id [symmetric])
    have T2: "length T = 2" using eir(1) by (simp add: T_def)
    have "wr_bytes (A @ T @ (drop 2 ?pl @ B)) (length A) (u16_le (of_nat (length ?pl)))
        = Some (A @ u16_le (of_nat (length ?pl)) @ (drop 2 ?pl @ B))"
      using T2 l2 by (intro wr_bytes_fill) simp_all
    moreover have "A @ T @ (drop 2 ?pl @ B) = m1" unfolding sp(1) using T by (metis append.assoc)
    ultimately have w: "wr_bytes m1 (length A) (u16_le (of_nat (length ?pl))) = Some (A @ oob_payload ?pl @ B)"
      by (simp only: oob_payload_def append.assoc)
    have lo: "length (oob_payload ?pl) = length ?pl" using eir(1) by (simp add: oob_payload_def l2)
    have "?r\<lparr>r_payload := oob_payload ?pl\<rparr> = with_payload (rs ! i) (oob_payload ?pl)"
      unfolding with_payload_def lo by simp
    then have "holds (A @ oob_payload ?pl @ B) cur1 (rs[i := with_payload (rs ! i) (oob_payload ?pl)])"
      using sp(3) [OF lo] by simp
    moreover have "append_eir m max_size cur (offset rs i) dat n = Some (NDEF_OK, A @ oob_payload ?pl @ B, cur1)"
      by (simp only: append_eir_def n ap(1) Option.bind.simps prod.case gp w if_True refl)
    moreover have "length (A @ oob_payload ?pl @ B) = length m" using ap(3) sp(1) lo by simp
    ultimately show ?thesis using True by (simp add: extends_def)
  qed
qed

section \<open>The four append operations\<close>

datatype oob_op =
    OobCod "byte list"
  | OobName bool byte "byte list"
  | OobHashRand "byte list" "byte list"
  | OobEir byte byte "byte list"

fun oob_call :: "oob_op \<Rightarrow> mem \<Rightarrow> u32 \<Rightarrow> u32 \<Rightarrow> byte list \<Rightarrow> (tNDEF_STATUS \<times> mem \<times> u32) option" where
  "oob_call (OobCod c) m max_size cur s = NDEF_MsgAppendMediaBtOobCod m max_size cur s c"
| "oob_call (OobName b n nm) m max_size cur s = NDEF_MsgAppendMediaBtOobName m max_size cur s b n nm"
| "oob_call (OobHashRand h r) m max_size cur s = NDEF_MsgAppendMediaBtOobHashCRandR m max_size cur s h r"
| "oob_call (OobEir t n d) m max_size cur s = NDEF_MsgAppendMediaBtOobEirData m max_size cur s t n d"

text \<open>An EIR structure: its length (of what follows), its type, its data.\<close>

definition eir :: "byte \<Rightarrow> byte list \<Rightarrow> byte list" where
  "eir t d = of_nat (length d + 1) # t # d"

fun eir_of :: "oob_op \<Rightarrow> byte list" where
  "eir_of (OobCod c) = eir BT_EIR_OOB_COD_TYPE (rev (take 3 c))"
| "eir_of (OobName b n nm) =
     eir (if b then BT_EIR_COMPLETE_LOCAL_NAME_TYPE else BT_EIR_SHORTENED_LOCAL_NAME_TYPE) (take (unat n) nm)"
| "eir_of (OobHashRand h r) = eir BT_EIR_OOB_SSP_HASH_C_TYPE (rev (take 16 h)) @ eir BT_EIR_OOB_SSP_RAND_R_TYPE (rev (take 16 r))"
| "eir_of (OobEir t n d) = eir t (take (unat n) d)"

text \<open>The arguments supply the bytes they announce, and the length of the EIR data fits one byte.\<close>

fun oob_args :: "oob_op \<Rightarrow> bool" where
  "oob_args (OobCod c) = (3 \<le> length c)"
| "oob_args (OobName b n nm) = (unat n \<le> length nm \<and> n < 254)"
| "oob_args (OobHashRand h r) = (16 \<le> length h \<and> 16 \<le> length r)"
| "oob_args (OobEir t n d) = (unat n \<le> length d \<and> n < 254)"

lemma length_eir [simp]: "length (eir t d) = length d + 2"
  by (simp add: eir_def)

lemma length_eir_of: "oob_args op \<Longrightarrow> 2 \<le> length (eir_of op) \<and> length (eir_of op) < 256"
  by (cases op) (auto simp: word_less_nat_alt)

lemma oob_call_found:
  assumes g: "ndef_get_bt_oob_record m s = Some (Some p)" and op: "oob_args op"
  shows "oob_call op m max_size cur s = append_eir m max_size cur p (eir_of op) (of_nat (length (eir_of op)))"
proof (cases op)
  case (OobName b n nm)
  have n: "unat n \<le> length nm" "unat n < 254" using op OobName by (simp_all add: word_less_nat_alt)
  have "of_nat (unat n + 1) = n + 1" "of_nat (unat n + 2) = n + 2" by simp_all
  then show ?thesis
    using g n OobName by (simp add: NDEF_MsgAppendMediaBtOobName_def arr_def rd_bytes_def local_buf_def eir_def add.commute)
next
  case (OobEir t n d)
  have n: "unat n \<le> length d" "unat n < 254" using op OobEir by (simp_all add: word_less_nat_alt)
  have "of_nat (unat n + 1) = n + 1" "of_nat (unat n + 2) = n + 2" by simp_all
  then show ?thesis
    using g n OobEir by (simp add: NDEF_MsgAppendMediaBtOobEirData_def arr_def rd_bytes_def local_buf_def eir_def add.commute)
qed (use g op in \<open>simp_all add: NDEF_MsgAppendMediaBtOobCod_def NDEF_MsgAppendMediaBtOobHashCRandR_def
    arr_rev_def rd_bytes_def local_buf_def eir_def BT_OOB_COD_SIZE_def\<close>)

lemma oob_call_missing:
  "ndef_get_bt_oob_record m s = Some None \<Longrightarrow> oob_call op m max_size cur s = Some (NDEF_REC_NOT_FOUND, m, cur)"
  by (cases op) (simp_all add: NDEF_MsgAppendMediaBtOobName_def NDEF_MsgAppendMediaBtOobEirData_def
      NDEF_MsgAppendMediaBtOobCod_def NDEF_MsgAppendMediaBtOobHashCRandR_def)

end
