(* ===== verification/Cho_Properties.thy ===== *)
theory Cho_Properties
  imports Cho_Build Ndef_Properties
begin

text \<open>
  The properties of the connection handover records: each one appended to the list of records with
  the content its function promises, and the Bluetooth record over any sequence of appends.
\<close>

section \<open>Records of a handover message\<close>

text \<open>
  C22. On an encoded message, each of the \<open>NDEF_MsgAdd...\<close> functions of the handover records appends
  exactly one record with the announced type and payload, or reports insufficient memory and changes
  nothing: the carrier record (a payload that fits the local array), the alternative carrier record
  with all its references, the collision resolution record, the error record, the Bluetooth record
  and the Wi-Fi record.
\<close>
theorem handover_records:
  fixes cps ctf n reason :: byte and ref :: "byte list"
  assumes h: "holds m cur rs" and mx: "unat max_size \<le> length m" and sz: "unat cur + 100000 < 4294967296"
    and args: "length idf < 256" "unat tlen \<le> length ct" "unat dlen \<le> length cd" "unat tlen + unat dlen \<le> 254"
      "unat n \<le> length aux" "6 \<le> length bd" "length pl < 70000"
  shows "adds m max_size cur rs (new_rec NDEF_TNF_WKT hc_rec_type idf ((ctf AND 7) # tlen # take (unat tlen) ct @ take (unat dlen) cd))
      (NDEF_MsgAddWktHc m max_size cur idf ctf tlen ct dlen cd)
    \<and> adds m max_size cur rs (new_rec NDEF_TNF_WKT ac_rec_type [] (ac_payload cps ref n (take (unat n) aux)))
      (NDEF_MsgAddWktAc m max_size cur cps ref n aux)
    \<and> adds m max_size cur rs (new_rec NDEF_TNF_WKT cr_rec_type [] (u16_be num)) (NDEF_MsgAddWktCr m max_size cur num)
    \<and> adds m max_size cur rs (new_rec NDEF_TNF_WKT err_rec_type []
        (reason # (if reason = 2 then u32_be edata else [ucast edata]))) (NDEF_MsgAddWktErr m max_size cur reason edata)
    \<and> adds m max_size cur rs (new_rec NDEF_TNF_MEDIA bt_oob_rec_type idf (u16_le 8 @ rev (take 6 bd)))
      (NDEF_MsgAddMediaBtOob m max_size cur idf bd)
    \<and> adds m max_size cur rs (new_rec NDEF_TNF_MEDIA wifi_wsc_rec_type idf pl)
      (NDEF_MsgAddMediaWifiWsc m max_size cur (Some idf) (Some pl) (of_nat (length pl)))"
proof (intro conjI)
  note add = adds_given [OF h _ _ mx]
  note small = wf_rec_def rec_len_def hdr_len_def src_holds_def strlen8_def
  have b: "unat (ucast tlen + ucast dlen + 2 :: u32) = unat tlen + unat dlen + 2"
    using args(4) by (simp add: unat_word_ariths)
  show "adds m max_size cur rs (new_rec NDEF_TNF_WKT hc_rec_type idf ((ctf AND 7) # tlen # take (unat tlen) ct @ take (unat dlen) cd))
      (NDEF_MsgAddWktHc m max_size cur idf ctf tlen ct dlen cd)"
  proof -
    have "NDEF_MsgAddWktHc m max_size cur idf ctf tlen ct dlen cd = NDEF_MsgAddRec m max_size cur NDEF_TNF_WKT (Some hc_rec_type) 2
        (Some idf) (strlen8 idf) (Some ((ctf AND 7) # tlen # take (unat tlen) ct @ take (unat dlen) cd)) (ucast tlen + ucast dlen + 2)"
      using args by (simp add: NDEF_MsgAddWktHc_def arr_def rd_bytes_def local_buf_def Let_def min_def)
    moreover have "(ucast tlen + ucast dlen + 2 :: u32) = of_nat (length ((ctf AND 7) # tlen # take (unat tlen) ct @ take (unat dlen) cd))"
      using b args by (intro word_eq_of_natI) (simp add: min_def)
    ultimately show ?thesis
      using args sz by (simp only:) (intro add; simp add: small hc_rec_type_def min_def)
  qed
  show "adds m max_size cur rs (new_rec NDEF_TNF_WKT ac_rec_type [] (ac_payload cps ref n (take (unat n) aux)))
      (NDEF_MsgAddWktAc m max_size cur cps ref n aux)"
  proof -
    have "length (take (unat n) aux) < 256" using unat_byte_less [of n] args(5) by simp
    then have "length (ac_payload cps ref n (take (unat n) aux)) < 70000"
      using ac_payload_len [of "take (unat n) aux" ref cps n] by simp
    then show ?thesis using sz by (intro NDEF_MsgAddWktAc_ok [OF h args(5) mx]) (simp add: small ac_rec_type_def)
  qed
  show "adds m max_size cur rs (new_rec NDEF_TNF_WKT cr_rec_type [] (u16_be num)) (NDEF_MsgAddWktCr m max_size cur num)"
    unfolding NDEF_MsgAddWktCr_def using sz by (intro add) (simp_all add: small cr_rec_type_def u16_be_def)
  show "adds m max_size cur rs (new_rec NDEF_TNF_WKT err_rec_type []
        (reason # (if reason = 2 then u32_be edata else [ucast edata]))) (NDEF_MsgAddWktErr m max_size cur reason edata)"
  proof (cases "reason = 2")
    case True
    show ?thesis
      unfolding NDEF_MsgAddWktErr_def if_P [OF True] Let_def prod.case
      using sz by (intro add) (simp_all add: small err_rec_type_def)
  next
    case False
    show ?thesis
      unfolding NDEF_MsgAddWktErr_def if_not_P [OF False] Let_def prod.case
      using sz by (intro add) (simp_all add: small err_rec_type_def)
  qed
  show "adds m max_size cur rs (new_rec NDEF_TNF_MEDIA bt_oob_rec_type idf (u16_le 8 @ rev (take 6 bd)))
      (NDEF_MsgAddMediaBtOob m max_size cur idf bd)"
  proof -
    have "NDEF_MsgAddMediaBtOob m max_size cur idf bd = NDEF_MsgAddRec m max_size cur NDEF_TNF_MEDIA (Some bt_oob_rec_type)
        BT_OOB_REC_TYPE_LEN (Some idf) (strlen8 idf) (Some (u16_le 8 @ rev (take 6 bd))) 8"
      using args(6) by (simp add: NDEF_MsgAddMediaBtOob_def arr_rev_def rd_bytes_def local_buf_def Let_def BD_ADDR_LEN_def u16_le_def)
    then show ?thesis
      using args sz by (simp only:) (intro add; simp add: small BT_OOB_REC_TYPE_LEN_def u16_le_def)
  qed
  show "adds m max_size cur rs (new_rec NDEF_TNF_MEDIA wifi_wsc_rec_type idf pl)
      (NDEF_MsgAddMediaWifiWsc m max_size cur (Some idf) (Some pl) (of_nat (length pl)))"
    unfolding NDEF_MsgAddMediaWifiWsc_def
    using sz args by (simp only: option.case Let_def) (intro add; simp add: small WIFI_WSC_REC_TYPE_LEN_def)
qed

theorem handover_records_witness:
  "\<exists>m' cur'. NDEF_MsgAddWktAc ex_mem 40 13 1 [0x30] 1 [[0x41, 0x42]] = Some (NDEF_OK, m', cur')
    \<and> holds m' cur' [ex_r1, ex_r2, new_rec 1 [0x61, 0x63] [] [1, 1, 0x30, 1, 2, 0x41, 0x42]]"
proof -
  have "adds ex_mem 40 13 [ex_r1, ex_r2] (new_rec 1 ac_rec_type [] (ac_payload 1 [0x30] 1 [[0x41, 0x42]]))
      (NDEF_MsgAddWktAc ex_mem 40 13 1 [0x30] 1 [[0x41, 0x42]])"
    using handover_records [OF ex_holds, of 40 "[]" 0 "[]" 0 "[]" 1 "[[0x41, 0x42]]" "replicate 6 0" "[]" 0 1 "[0x30]" 0 0 0]
    by simp
  then show ?thesis by (simp add: adds_def ac_payload_def lv_def strlen8_def ac_rec_type_def rec_len_def hdr_len_def) blast
qed

section \<open>The Bluetooth record\<close>

text \<open>A caller that adds EIR data step by step and stops at the first status that is not \<open>NDEF_OK\<close>.\<close>

primrec oob_calls :: "oob_op list \<Rightarrow> u32 \<Rightarrow> byte list \<Rightarrow> tNDEF_STATUS \<times> mem \<times> u32 \<Rightarrow> (tNDEF_STATUS \<times> mem \<times> u32) option" where
  "oob_calls [] max_size s r = Some r"
| "oob_calls (op # ops) max_size s r = (case r of (st, m, cur) \<Rightarrow>
     if st = NDEF_OK then Option.bind (oob_call op m max_size cur s) (oob_calls ops max_size s) else Some r)"

definition oob_rec :: "byte list \<Rightarrow> byte list \<Rightarrow> ndef_rec" where
  "oob_rec s body = new_rec NDEF_TNF_MEDIA bt_oob_rec_type s (u16_le (of_nat (length body + 2)) @ body)"

lemma oob_rec_step:
  assumes h: "holds m cur (rs @ [oob_rec s body])" and s: "length s < 256" "\<forall>r \<in> set rs. r_id r \<noteq> s"
    and op: "oob_args op" and mx: "unat max_size \<le> length m"
    and fit: "length (enc_msg (rs @ [oob_rec s (body @ eir_of op)])) \<le> unat max_size" "unat max_size + 258 < 4294967296"
  shows "\<exists>m' cur'. oob_call op m max_size cur s = Some (NDEF_OK, m', cur')
    \<and> holds m' cur' (rs @ [oob_rec s (body @ eir_of op)]) \<and> length m' = length m"
proof -
  let ?rs = "rs @ [oob_rec s body]" and ?e = "eir_of op"
  have sel: "r_id (oob_rec s body) = s" "r_payload (oob_rec s body) = u16_le (of_nat (length body + 2)) @ body"
    "r_tnf (oob_rec s body) = NDEF_TNF_MEDIA" "r_type (oob_rec s body) = bt_oob_rec_type" "canon (oob_rec s body)"
    by (simp_all add: oob_rec_def canon_def)
  have "takeWhile (\<lambda>r. r_id r \<noteq> s) ?rs = rs" using s(2) sel(1) by (simp add: takeWhile_append)
  then have "oob_index ?rs s = Some (length rs)" using sel by (simp add: oob_index_def)
  then have g: "ndef_get_bt_oob_record m s = Some (Some (offset ?rs (length rs)))"
    using get_bt_oob_ok [OF h _ s(1)] by simp
  have l2: "length (u16_le w) = 2" for w by (simp add: u16_le_def)
  have e: "2 \<le> length ?e" "length ?e < 256" using length_eir_of [OF op] by auto
  have wp: "with_payload (oob_rec s body) X = new_rec NDEF_TNF_MEDIA bt_oob_rec_type s X" for X
    by (simp add: oob_rec_def with_payload_def new_rec_def)
  have pl: "oob_payload (r_payload (oob_rec s body) @ ?e) = u16_le (of_nat (length (body @ ?e) + 2)) @ body @ ?e"
    unfolding sel oob_payload_def using l2 by (simp add: add.commute add.left_commute)
  have cu: "unat cur = length (enc_msg ?rs)" by (rule holdsD(2) [OF h])
  have rl: "length (enc_msg (rs @ [oob_rec s (body @ ?e)])) = length (enc_msg ?rs) + length ?e
      + (if widens (oob_rec s body) ?e then 3 else 0)"
    by (auto simp: length_enc_msg widens_def sel rec_len_def hdr_len_def oob_rec_def l2)
  have sz: "unat cur + 258 < 4294967296" "length body + length ?e + 34 + length s < 4294967296"
    using fit unfolding rl cu by (simp_all add: length_enc_msg rec_len_def sel l2)
  have "extends m max_size cur ?rs (length rs) ?e
      (append_eir m max_size cur (offset ?rs (length rs)) ?e (of_nat (length ?e)))"
    using sz sel s(1) e l2 mx by (intro append_eir_ok [OF h]) (simp_all add: wp wf_rec_def src_holds_def)
  moreover have "unat cur + length ?e + (if widens (?rs ! length rs) ?e then 3 else 0) \<le> unat max_size"
    using fit unfolding rl cu by simp
  ultimately show ?thesis
    unfolding extends_def oob_call_found [OF g op] by (simp add: wp pl, simp add: oob_rec_def, blast)
qed

lemma oob_rec_mono: "length body \<le> length body' \<Longrightarrow>
    length (enc_msg (rs @ [oob_rec s body])) \<le> length (enc_msg (rs @ [oob_rec s body']))"
  by (auto simp: length_enc_msg rec_len_def hdr_len_def oob_rec_def u16_le_def)

lemma oob_calls_ok:
  assumes "holds m cur (rs @ [oob_rec s body])" "length s < 256" "\<forall>r \<in> set rs. r_id r \<noteq> s"
    "\<forall>op \<in> set ops. oob_args op" "unat max_size \<le> length m" "unat max_size + 258 < 4294967296"
    "length (enc_msg (rs @ [oob_rec s (body @ concat (map eir_of ops))])) \<le> unat max_size"
  shows "\<exists>m' cur'. oob_calls ops max_size s (NDEF_OK, m, cur) = Some (NDEF_OK, m', cur')
    \<and> holds m' cur' (rs @ [oob_rec s (body @ concat (map eir_of ops))]) \<and> length m' = length m"
  using assms
proof (induction ops arbitrary: m cur body)
  case (Cons op ops)
  have op: "oob_args op" using Cons.prems(4) by simp
  have fit: "length (enc_msg (rs @ [oob_rec s (body @ eir_of op)])) \<le> unat max_size"
    using oob_rec_mono [of "body @ eir_of op" "body @ concat (map eir_of (op # ops))" rs s] Cons.prems(7) by simp
  obtain m1 cur1 where 1: "oob_call op m max_size cur s = Some (NDEF_OK, m1, cur1)"
    "holds m1 cur1 (rs @ [oob_rec s (body @ eir_of op)])" "length m1 = length m"
    using oob_rec_step [OF Cons.prems(1-3) op Cons.prems(5) fit Cons.prems(6)] by blast
  then show ?case
    using Cons.IH [OF 1(2) Cons.prems(2,3)] Cons.prems(4-7) by simp
qed simp

text \<open>
  C23. The Bluetooth out-of-band record. Created with \<open>NDEF_MsgAddMediaBtOob\<close> at the end of a message in
  which no other record has its identifier, and extended by any sequence of the four append operations,
  it always consists of its own payload length in the first two bytes, the device address and the EIR
  structures in the order of the calls, each with its length and type byte; the other records stay. The
  message must fit the buffer, and device names and EIR data are at most 253 bytes long.
\<close>
theorem bt_oob_built:
  assumes h: "holds m cur rs" and s: "length s < 256" "\<forall>r \<in> set rs. r_id r \<noteq> s" and bd: "6 \<le> length bd"
    and ops: "\<forall>op \<in> set ops. oob_args op" and mx: "unat max_size \<le> length m" "unat max_size + 258 < 4294967296"
    and fit: "length (enc_msg (rs @ [oob_rec s (rev (take 6 bd) @ concat (map eir_of ops))])) \<le> unat max_size"
  shows "\<exists>m' cur'. Option.bind (NDEF_MsgAddMediaBtOob m max_size cur s bd) (oob_calls ops max_size s) = Some (NDEF_OK, m', cur')
    \<and> holds m' cur' (rs @ [oob_rec s (rev (take 6 bd) @ concat (map eir_of ops))]) \<and> length m' = length m"
proof -
  let ?b = "rev (take 6 bd)"
  have r: "new_rec NDEF_TNF_MEDIA bt_oob_rec_type s (u16_le 8 @ ?b) = oob_rec s ?b" using bd by (simp add: oob_rec_def)
  have "length (enc_msg (rs @ [oob_rec s ?b])) \<le> unat max_size"
    using oob_rec_mono [of ?b "?b @ concat (map eir_of ops)" rs s] fit by simp
  then have f1: "unat cur + rec_len (oob_rec s ?b) \<le> unat max_size" using holdsD(2) [OF h] by (simp add: length_enc_msg)
  have "NDEF_MsgAddMediaBtOob m max_size cur s bd = NDEF_MsgAddRec m max_size cur NDEF_TNF_MEDIA (Some bt_oob_rec_type)
      BT_OOB_REC_TYPE_LEN (Some s) (strlen8 s) (Some (u16_le 8 @ ?b)) 8"
    using bd by (simp add: NDEF_MsgAddMediaBtOob_def arr_rev_def rd_bytes_def local_buf_def Let_def BD_ADDR_LEN_def u16_le_def)
  moreover have "adds m max_size cur rs (oob_rec s ?b) (NDEF_MsgAddRec m max_size cur NDEF_TNF_MEDIA (Some bt_oob_rec_type)
      BT_OOB_REC_TYPE_LEN (Some s) (strlen8 s) (Some (u16_le 8 @ ?b)) 8)"
    using s(1) bd f1 mx unfolding r [symmetric]
    by (intro adds_given [OF h]) (simp_all add: wf_rec_def src_holds_def BT_OOB_REC_TYPE_LEN_def strlen8_def u16_le_def)
  ultimately obtain m1 cur1 where 1: "NDEF_MsgAddMediaBtOob m max_size cur s bd = Some (NDEF_OK, m1, cur1)"
    "holds m1 cur1 (rs @ [oob_rec s ?b])" "length m1 = length m"
    using f1 by (auto simp: adds_def)
  then show ?thesis using oob_calls_ok [OF 1(2) s ops _ mx(2) fit] mx(1) by simp
qed

theorem bt_oob_built_witness:
  "\<exists>m' cur'. Option.bind (NDEF_MsgAddMediaBtOob (replicate 100 0) 100 0 [0x62] [1, 2, 3, 4, 5, 6])
      (oob_calls [OobCod [7, 8, 9], OobName True 2 [0x68, 0x69]] 100 [0x62]) = Some (NDEF_OK, m', cur')
    \<and> holds m' cur' [oob_rec [0x62] [6, 5, 4, 3, 2, 1, 4, 0x0D, 9, 8, 7, 3, 9, 0x68, 0x69]]"
proof -
  have h: "holds (replicate 100 0) 0 []" by (simp add: holds_def)
  have e: "concat (map eir_of [OobCod [7, 8, 9], OobName True 2 [0x68, 0x69]]) = [4, 0x0D, 9, 8, 7, 3, 9, 0x68, 0x69]"
    by (simp add: eir_def BT_EIR_OOB_COD_TYPE_def BT_EIR_COMPLETE_LOCAL_NAME_TYPE_def)
  have "length (enc_msg ([] @ [oob_rec [0x62] (rev (take 6 [1, 2, 3, 4, 5, 6])
      @ concat (map eir_of [OobCod [7, 8, 9], OobName True 2 [0x68, 0x69]]))])) \<le> unat (100 :: u32)"
    unfolding e by (simp add: length_enc_msg rec_len_def hdr_len_def oob_rec_def u16_le_def)
  from bt_oob_built [OF h _ _ _ _ _ _ this] show ?thesis unfolding e by auto
qed

text \<open>
  Errors of the append operations. Without a Bluetooth record under the identifier they change
  nothing and answer \<open>NDEF_REC_NOT_FOUND\<close>. A device name of 255 bytes overruns the local array of 256
  bytes, and for a name of 254 bytes the one-byte length of the EIR data wraps to 0: the call answers
  \<open>NDEF_OK\<close> and only rewrites the length bytes of the record, the name is lost.
\<close>
theorem bt_oob_errors:
  assumes h: "holds m cur rs" "rs \<noteq> []" and s: "length s < 256" and nm: "255 \<le> length nm"
    and mx: "unat cur \<le> unat max_size" "unat max_size \<le> length m" "unat max_size + 258 < 4294967296"
  shows "case oob_index rs s of
      None \<Rightarrow> \<forall>op. oob_call op m max_size cur s = Some (NDEF_REC_NOT_FOUND, m, cur)
    | Some i \<Rightarrow> canon (rs ! i) \<and> 2 \<le> length (r_payload (rs ! i)) \<longrightarrow>
        oob_call (OobName b 255 nm) m max_size cur s = None
        \<and> (\<exists>m' cur'. oob_call (OobName b 254 nm) m max_size cur s = Some (NDEF_OK, m', cur')
            \<and> holds m' cur' (rs[i := with_payload (rs ! i) (oob_payload (r_payload (rs ! i)))]))"
proof (cases "oob_index rs s")
  case None
  then show ?thesis using get_bt_oob_ok [OF h s] oob_call_missing by simp
next
  case (Some i)
  have g: "ndef_get_bt_oob_record m s = Some (Some (offset rs i))" using get_bt_oob_ok [OF h s] Some by simp
  have i: "i < length rs" using oob_indexD [OF Some] by simp
  have "\<exists>m' cur'. oob_call (OobName b 254 nm) m max_size cur s = Some (NDEF_OK, m', cur')
      \<and> holds m' cur' (rs[i := with_payload (rs ! i) (oob_payload (r_payload (rs ! i)))])"
    if c: "canon (rs ! i)" "2 \<le> length (r_payload (rs ! i))"
  proof -
    let ?d = "(255 :: byte) # (if b then BT_EIR_COMPLETE_LOCAL_NAME_TYPE else BT_EIR_SHORTENED_LOCAL_NAME_TYPE) # take 254 nm"
    have "with_payload (rs ! i) (r_payload (rs ! i) @ []) = rs ! i" using c(1) by (cases "rs ! i") (simp add: with_payload_def canon_def)
    then have w: "wf_rec (with_payload (rs ! i) (r_payload (rs ! i) @ []))" using holdsD(3) [OF h(1)] i by simp
    have "extends m max_size cur rs i [] (append_eir m max_size cur (offset rs i) ?d 0)"
      using c mx w by (intro append_eir_ok [OF h(1) i]) (simp_all add: src_holds_def widens_def)
    moreover have "oob_call (OobName b 254 nm) m max_size cur s = append_eir m max_size cur (offset rs i) ?d 0"
    proof -
      have z: "(256 :: byte) = 0" by simp
      show ?thesis
        using g nm by (simp add: NDEF_MsgAppendMediaBtOobName_def arr_def rd_bytes_def local_buf_def) (simp only: z simp_thms)
    qed
    moreover have "\<not> widens (rs ! i) []" by (simp add: widens_def)
    ultimately show ?thesis using mx(1) unfolding extends_def by (cases b) auto
  qed
  moreover have "oob_call (OobName b 255 nm) m max_size cur s = None"
    using g nm by (simp add: NDEF_MsgAppendMediaBtOobName_def arr_def rd_bytes_def local_buf_def)
  ultimately show ?thesis using Some by simp
qed

theorem bt_oob_errors_witness:
  "\<forall>op. oob_call op ex_mem 40 13 [0x62] = Some (NDEF_REC_NOT_FOUND, ex_mem, 13)"
proof -
  have "oob_index [ex_r1, ex_r2] [0x62] = None" by (simp add: oob_index_def ex_r1_def ex_r2_def)
  then show ?thesis using bt_oob_errors [OF ex_holds, of "[0x62]" "replicate 255 0" 40] by simp
qed

end
