(* ===== verification/Nfc_Msg.thy ===== *)
theory Nfc_Msg
  imports Nfc_Prelude
begin

text \<open>
  The message buffers of the stack, \<open>BT_HDR\<close> of \<open>include/bt_types.h\<close> in a GKI buffer: the record
  \<open>bt_hdr\<close> holds the \<open>len\<close> bytes that start at \<open>offset\<close> as the list \<open>body\<close>, and in \<open>bsize\<close> the answer
  of \<open>GKI_get_buf_size\<close>. Queues of buffers are lists, which is what the theories \<open>Gki_*\<close> prove of
  \<open>GKI_enqueue\<close> and \<open>GKI_dequeue\<close>.
\<close>

definition NCI_MSG_OFFSET_SIZE :: nat where "NCI_MSG_OFFSET_SIZE = 1"
definition NCI_DATA_HDR_SIZE :: nat where "NCI_DATA_HDR_SIZE = 3"
definition BT_HDR_SIZE :: nat where "BT_HDR_SIZE = 8"

record bt_hdr =
  bsize :: u16
  offset :: u16
  layer_specific :: u16
  body :: "byte list"

definition blen :: "bt_hdr \<Rightarrow> u16" where
  "blen b = of_nat (length (body b))"

text \<open>
  Header bytes put in front of the bytes of a buffer, and bytes written behind them: undefined when
  the write would leave the buffer.
\<close>

definition push_hdr :: "byte list \<Rightarrow> bt_hdr \<Rightarrow> bt_hdr" where
  "push_hdr bs b = b\<lparr>offset := offset b - of_nat (length bs), body := bs @ body b\<rparr>"

definition append_bytes :: "byte list \<Rightarrow> bt_hdr \<Rightarrow> bt_hdr option" where
  "append_bytes bs b =
     (if BT_HDR_SIZE + unat (offset b) + length (body b) + length bs \<le> unat (bsize b)
      then Some (b\<lparr>body := body b @ bs\<rparr>) else None)"

end
