(* ===== verification/Llcp_Model.thy ===== *)
theory Llcp_Model
  imports Nfc_Msg
begin

text \<open>
  The control blocks of LLCP, \<open>src/libnfc-nci/nfc/int/llcp_int.h\<close> and \<open>nfc/include/llcp_defs.h\<close>.

  Buffers are those of the theory \<open>Nfc_Msg\<close>. A pointer to a data link connection
  control block is its index in the array \<open>dlcb\<close>, a pointer to an application control block one of
  the three arrays with an index. The answers of \<open>GKI_getpoolbuf (LLCP_POOL_ID)\<close> are the list
  \<open>pool\<close>, one entry per call, so a statement about every state covers every pattern of successes
  and failures. What leaves the component, the buffers given to \<open>NFC_SendData\<close>, is collected in
  \<open>sent\<close>, the calls of \<open>p_link_cback\<close> in \<open>link_events\<close> and
  those of the service discovery callbacks in \<open>sdp_events\<close>. The trace macros and the secured peer-to-peer code (\<open>NFC_NXP_LLCP_SECURED_P2P\<close>, off
  in the default configuration) are left out.
\<close>

section \<open>Constants\<close>

definition LLCP_PDU_HEADER_SIZE :: nat where "LLCP_PDU_HEADER_SIZE = 2"
definition LLCP_SEQUENCE_SIZE :: nat where "LLCP_SEQUENCE_SIZE = 1"
definition LLCP_PDU_AGF_LEN_SIZE :: nat where "LLCP_PDU_AGF_LEN_SIZE = 2"
definition LLCP_MIN_OFFSET :: nat where
  "LLCP_MIN_OFFSET = NCI_MSG_OFFSET_SIZE + NCI_DATA_HDR_SIZE + LLCP_PDU_HEADER_SIZE + LLCP_SEQUENCE_SIZE"
definition LLCP_POOL_BUF_SIZE :: u16 where "LLCP_POOL_BUF_SIZE = 0xFFB0"
definition LLCP_MAX_DATA_LINK :: nat where "LLCP_MAX_DATA_LINK = 16"
definition LLCP_MAX_WKS :: nat where "LLCP_MAX_WKS = 5"
definition LLCP_MAX_SERVER :: nat where "LLCP_MAX_SERVER = 10"
definition LLCP_MAX_CLIENT :: nat where "LLCP_MAX_CLIENT = 20"
definition LLCP_MAX_SDP_TRANSAC :: nat where "LLCP_MAX_SDP_TRANSAC = 16"
definition LLCP_MAX_SN_LEN :: nat where "LLCP_MAX_SN_LEN = 255"
definition LLCP_NUM_SAPS :: nat where "LLCP_NUM_SAPS = 64"
definition LLCP_DL_MIN_RX_CONGEST :: nat where "LLCP_DL_MIN_RX_CONGEST = 4"
definition LLCP_SEQ_MODULO :: byte where "LLCP_SEQ_MODULO = 16"

lemmas llcp_sizes = LLCP_PDU_HEADER_SIZE_def LLCP_SEQUENCE_SIZE_def LLCP_PDU_AGF_LEN_SIZE_def
  NCI_MSG_OFFSET_SIZE_def NCI_DATA_HDR_SIZE_def BT_HDR_SIZE_def LLCP_MIN_OFFSET_def

abbreviation (input) LLCP_SAP_LM :: byte where "LLCP_SAP_LM \<equiv> 0"
abbreviation (input) LLCP_SAP_SDP :: byte where "LLCP_SAP_SDP \<equiv> 1"
abbreviation (input) LLCP_UPPER_BOUND_WK_SAP :: byte where "LLCP_UPPER_BOUND_WK_SAP \<equiv> 0x0F"
abbreviation (input) LLCP_LOWER_BOUND_SDP_SAP :: byte where "LLCP_LOWER_BOUND_SDP_SAP \<equiv> 0x10"
abbreviation (input) LLCP_UPPER_BOUND_SDP_SAP :: byte where "LLCP_UPPER_BOUND_SDP_SAP \<equiv> 0x1F"
abbreviation (input) LLCP_LOWER_BOUND_LOCAL_SAP :: byte where "LLCP_LOWER_BOUND_LOCAL_SAP \<equiv> 0x20"
abbreviation (input) LLCP_UPPER_BOUND_LOCAL_SAP :: byte where "LLCP_UPPER_BOUND_LOCAL_SAP \<equiv> 0x3F"
abbreviation (input) LLCP_INVALID_SAP :: byte where "LLCP_INVALID_SAP \<equiv> 0xFF"

abbreviation (input) LLCP_PDU_SYMM_TYPE :: byte where "LLCP_PDU_SYMM_TYPE \<equiv> 0"
abbreviation (input) LLCP_PDU_PAX_TYPE :: byte where "LLCP_PDU_PAX_TYPE \<equiv> 1"
abbreviation (input) LLCP_PDU_AGF_TYPE :: byte where "LLCP_PDU_AGF_TYPE \<equiv> 2"
abbreviation (input) LLCP_PDU_UI_TYPE :: byte where "LLCP_PDU_UI_TYPE \<equiv> 3"
abbreviation (input) LLCP_PDU_CONNECT_TYPE :: byte where "LLCP_PDU_CONNECT_TYPE \<equiv> 4"
abbreviation (input) LLCP_PDU_DISC_TYPE :: byte where "LLCP_PDU_DISC_TYPE \<equiv> 5"
abbreviation (input) LLCP_PDU_CC_TYPE :: byte where "LLCP_PDU_CC_TYPE \<equiv> 6"
abbreviation (input) LLCP_PDU_DM_TYPE :: byte where "LLCP_PDU_DM_TYPE \<equiv> 7"
abbreviation (input) LLCP_PDU_FRMR_TYPE :: byte where "LLCP_PDU_FRMR_TYPE \<equiv> 8"
abbreviation (input) LLCP_PDU_SNL_TYPE :: byte where "LLCP_PDU_SNL_TYPE \<equiv> 9"
abbreviation (input) LLCP_PDU_I_TYPE :: byte where "LLCP_PDU_I_TYPE \<equiv> 12"
abbreviation (input) LLCP_PDU_RR_TYPE :: byte where "LLCP_PDU_RR_TYPE \<equiv> 13"
abbreviation (input) LLCP_PDU_RNR_TYPE :: byte where "LLCP_PDU_RNR_TYPE \<equiv> 14"

abbreviation (input) LLCP_SAP_DM_REASON_RESP_DISC :: byte where "LLCP_SAP_DM_REASON_RESP_DISC \<equiv> 0x00"
abbreviation (input) LLCP_SAP_DM_REASON_NO_ACTIVE_CONNECTION :: byte where "LLCP_SAP_DM_REASON_NO_ACTIVE_CONNECTION \<equiv> 0x01"
abbreviation (input) LLCP_SAP_DM_REASON_NO_SERVICE :: byte where "LLCP_SAP_DM_REASON_NO_SERVICE \<equiv> 0x02"
abbreviation (input) LLCP_SAP_DM_REASON_PERM_REJECT_THIS :: byte where "LLCP_SAP_DM_REASON_PERM_REJECT_THIS \<equiv> 0x10"
abbreviation (input) LLCP_SAP_DM_REASON_TEMP_REJECT_THIS :: byte where "LLCP_SAP_DM_REASON_TEMP_REJECT_THIS \<equiv> 0x20"
abbreviation (input) LLCP_SAP_DM_REASON_TEMP_REJECT_ANY :: byte where "LLCP_SAP_DM_REASON_TEMP_REJECT_ANY \<equiv> 0x21"

abbreviation (input) LLCP_FRMR_W_ERROR_FLAG :: byte where "LLCP_FRMR_W_ERROR_FLAG \<equiv> 0x08"
abbreviation (input) LLCP_FRMR_I_ERROR_FLAG :: byte where "LLCP_FRMR_I_ERROR_FLAG \<equiv> 0x04"
abbreviation (input) LLCP_FRMR_R_ERROR_FLAG :: byte where "LLCP_FRMR_R_ERROR_FLAG \<equiv> 0x02"
abbreviation (input) LLCP_FRMR_S_ERROR_FLAG :: byte where "LLCP_FRMR_S_ERROR_FLAG \<equiv> 0x01"

abbreviation (input) LLCP_VERSION_TYPE :: byte where "LLCP_VERSION_TYPE \<equiv> 1"
abbreviation (input) LLCP_MIUX_TYPE :: byte where "LLCP_MIUX_TYPE \<equiv> 2"
abbreviation (input) LLCP_WKS_TYPE :: byte where "LLCP_WKS_TYPE \<equiv> 3"
abbreviation (input) LLCP_LTO_TYPE :: byte where "LLCP_LTO_TYPE \<equiv> 4"
abbreviation (input) LLCP_RW_TYPE :: byte where "LLCP_RW_TYPE \<equiv> 5"
abbreviation (input) LLCP_SN_TYPE :: byte where "LLCP_SN_TYPE \<equiv> 6"
abbreviation (input) LLCP_OPT_TYPE :: byte where "LLCP_OPT_TYPE \<equiv> 7"
abbreviation (input) LLCP_SDREQ_TYPE :: byte where "LLCP_SDREQ_TYPE \<equiv> 8"
abbreviation (input) LLCP_SDRES_TYPE :: byte where "LLCP_SDRES_TYPE \<equiv> 9"
abbreviation (input) LLCP_MIUX_LEN :: byte where "LLCP_MIUX_LEN \<equiv> 2"
abbreviation (input) LLCP_RW_LEN :: byte where "LLCP_RW_LEN \<equiv> 1"
abbreviation (input) LLCP_SDRES_LEN :: byte where "LLCP_SDRES_LEN \<equiv> 2"
abbreviation (input) LLCP_SDREQ_MIN_LEN :: nat where "LLCP_SDREQ_MIN_LEN \<equiv> 3"
abbreviation (input) LLCP_MIUX_MASK :: u16 where "LLCP_MIUX_MASK \<equiv> 0x07FF"
abbreviation (input) LLCP_DEFAULT_MIU :: u16 where "LLCP_DEFAULT_MIU \<equiv> 128"
abbreviation (input) LLCP_DEFAULT_RW :: byte where "LLCP_DEFAULT_RW \<equiv> 1"
abbreviation (input) LLCP_LTO_UNIT :: u16 where "LLCP_LTO_UNIT \<equiv> 10"

abbreviation (input) LLCP_LINK_TYPE_LOGICAL_DATA_LINK :: byte where "LLCP_LINK_TYPE_LOGICAL_DATA_LINK \<equiv> 1"
abbreviation (input) LLCP_LINK_TYPE_DATA_LINK_CONNECTION :: byte where "LLCP_LINK_TYPE_DATA_LINK_CONNECTION \<equiv> 2"
abbreviation (input) LLCP_LSC_UNKNOWN :: byte where "LLCP_LSC_UNKNOWN \<equiv> 0"
abbreviation (input) LLCP_LSC_1 :: byte where "LLCP_LSC_1 \<equiv> 1"
abbreviation (input) LLCP_LSC_2 :: byte where "LLCP_LSC_2 \<equiv> 2"

abbreviation (input) LLCP_DATA_LINK_FLAG_PENDING_DISC :: byte where "LLCP_DATA_LINK_FLAG_PENDING_DISC \<equiv> 0x01"
abbreviation (input) LLCP_DATA_LINK_FLAG_PENDING_RR_RNR :: byte where "LLCP_DATA_LINK_FLAG_PENDING_RR_RNR \<equiv> 0x02"
abbreviation (input) LLCP_DATA_LINK_FLAG_NOTIFY_TX_DONE :: byte where "LLCP_DATA_LINK_FLAG_NOTIFY_TX_DONE \<equiv> 0x04"

datatype llcp_status = LLCP_STATUS_SUCCESS | LLCP_STATUS_FAIL | LLCP_STATUS_CONGESTED

section \<open>Headers\<close>

definition LLCP_GET_PDU_HEADER :: "byte \<Rightarrow> byte \<Rightarrow> byte \<Rightarrow> u16" where
  "LLCP_GET_PDU_HEADER dsap ptype ssap =
     push_bit 10 (ucast dsap) OR push_bit 6 (ucast ptype) OR ucast ssap"

definition LLCP_GET_DSAP :: "u16 \<Rightarrow> byte" where "LLCP_GET_DSAP x = ucast (drop_bit 10 (x AND 0xFC00))"
definition LLCP_GET_PTYPE :: "u16 \<Rightarrow> byte" where "LLCP_GET_PTYPE x = ucast (drop_bit 6 (x AND 0x03C0))"
definition LLCP_GET_SSAP :: "u16 \<Rightarrow> byte" where "LLCP_GET_SSAP x = ucast (x AND 0x003F)"
definition LLCP_GET_NS :: "byte \<Rightarrow> byte" where "LLCP_GET_NS x = drop_bit 4 x"
definition LLCP_GET_NR :: "byte \<Rightarrow> byte" where "LLCP_GET_NR x = x AND 0x0F"
definition LLCP_GET_SEQUENCE :: "byte \<Rightarrow> byte \<Rightarrow> byte" where "LLCP_GET_SEQUENCE ns nr = push_bit 4 ns OR nr"

section \<open>Buffers and queues\<close>

text \<open>A signalling PDU in a fresh buffer.\<close>

definition new_pdu :: "byte list \<Rightarrow> bt_hdr" where
  "new_pdu bs = \<lparr>bsize = LLCP_POOL_BUF_SIZE, offset = of_nat (NCI_MSG_OFFSET_SIZE + NCI_DATA_HDR_SIZE),
     layer_specific = 0, body = bs\<rparr>"

text \<open>
  The room behind the bytes of a buffer, as the code computes it in 16 bits.
\<close>

definition available_bytes :: "bt_hdr \<Rightarrow> u16" where
  "available_bytes b = bsize b - of_nat BT_HDR_SIZE - offset b - blen b"

section \<open>Control blocks\<close>

datatype dlc_state =
    LLCP_DLC_STATE_IDLE
  | LLCP_DLC_STATE_W4_REMOTE_RESP
  | LLCP_DLC_STATE_W4_LOCAL_RESP
  | LLCP_DLC_STATE_CONNECTED
  | LLCP_DLC_STATE_W4_REMOTE_DM

datatype link_state =
    LLCP_LINK_STATE_DEACTIVATED
  | LLCP_LINK_STATE_ACTIVATED
  | LLCP_LINK_STATE_DEACTIVATING
  | LLCP_LINK_STATE_ACTIVATION_FAILED

datatype symm_state = LLCP_LINK_SYMM_LOCAL_XMIT_NEXT | LLCP_LINK_SYMM_REMOTE_XMIT_NEXT

datatype app_ref = Wks nat | Server nat | Client nat

record conn_params =
  miu :: u16
  rw :: byte
  sn :: "byte list"

definition strlen :: "byte list \<Rightarrow> nat" where
  "strlen s = length (takeWhile (\<lambda>b. b \<noteq> 0) s)"

datatype dlc_event =
    LLCP_DLC_EVENT_API_CONNECT_REQ conn_params
  | LLCP_DLC_EVENT_API_CONNECT_CFM conn_params
  | LLCP_DLC_EVENT_API_CONNECT_REJECT byte
  | LLCP_DLC_EVENT_PEER_CONNECT_IND conn_params
  | LLCP_DLC_EVENT_PEER_CONNECT_CFM conn_params
  | LLCP_DLC_EVENT_API_DATA_REQ bt_hdr
  | LLCP_DLC_EVENT_PEER_DATA_IND
  | LLCP_DLC_EVENT_API_DISCONNECT_REQ bool
  | LLCP_DLC_EVENT_PEER_DISCONNECT_IND
  | LLCP_DLC_EVENT_PEER_DISCONNECT_RESP byte
  | LLCP_DLC_EVENT_FRAME_ERROR
  | LLCP_DLC_EVENT_LINK_ERROR
  | LLCP_DLC_EVENT_TIMEOUT byte

datatype sap_event =
    LLCP_SAP_EVT_DATA_IND byte byte byte
  | LLCP_SAP_EVT_CONNECT_IND byte byte u16 byte "byte list"
  | LLCP_SAP_EVT_CONNECT_RESP byte byte u16 byte
  | LLCP_SAP_EVT_DISCONNECT_IND byte byte
  | LLCP_SAP_EVT_DISCONNECT_RESP byte byte byte
  | LLCP_SAP_EVT_CONGEST byte byte bool byte
  | LLCP_SAP_EVT_LINK_STATUS byte bool bool
  | LLCP_SAP_EVT_TX_COMPLETE byte byte

record app_cb =
  link_type :: byte
  p_service_name :: "byte list option"
  p_app_cback :: bool
  ui_xmit_q :: "bt_hdr list"
  ui_rx_q :: "bt_hdr list"
  is_ui_tx_congested :: bool

record dlcb =
  dl_state :: dlc_state
  dl_flags :: byte
  p_app_cb :: "app_ref option"
  dl_timer :: "u32 option"
  local_sap :: byte
  local_miu :: u16
  local_rw :: byte
  local_busy :: bool
  remote_sap :: byte
  remote_miu :: u16
  remote_rw :: byte
  remote_busy :: bool
  next_tx_seq :: byte
  rcvd_ack_seq :: byte
  next_rx_seq :: byte
  sent_ack_seq :: byte
  i_xmit_q :: "bt_hdr list"
  is_tx_congested :: bool
  i_rx_q :: "bt_hdr list"
  is_rx_congested :: bool
  num_rx_i_pdu :: byte
  rx_congest_threshold :: byte

record lcb =
  link_state :: link_state
  wks :: u16
  is_initiator :: bool
  is_sending_data :: bool
  rx_any_llc_pdu :: bool
  received_first_packet :: bool
  agreed_major_version :: byte
  agreed_minor_version :: byte
  peer_version :: byte
  peer_miu :: u16
  peer_wks :: u16
  peer_lto :: u16
  peer_opt :: byte
  effective_miu :: u16
  symm_state :: symm_state
  ll_served :: bool
  ll_idx :: byte
  dl_idx :: byte
  lcb_timer :: "u32 option"
  inact_timer :: "u32 option"
  inact_timeout :: u16
  link_deact_reason :: byte
  sig_xmit_q :: "bt_hdr list"
  local_link_miu :: u16
  local_opt :: byte
  local_wt :: byte
  local_lto :: u16
  symm_delay :: u16
  data_link_timeout :: u16
  inact_timeout_init :: u16
  inact_timeout_target :: u16
  delay_first_pdu_timeout :: u16

record sdp_cb =
  next_tid :: byte
  transac :: "nat \<Rightarrow> byte \<times> bool"
  p_snl :: "bt_hdr option"

record llcp_cb =
  sdp :: sdp_cb
  lcb :: lcb
  wks_cb :: "nat \<Rightarrow> app_cb"
  server_cb :: "nat \<Rightarrow> app_cb"
  client_cb :: "nat \<Rightarrow> app_cb"
  dlcb :: "nat \<Rightarrow> dlcb"
  max_num_ll_tx_buff :: byte
  max_num_tx_buff :: byte
  num_logical_data_link :: byte
  num_data_link_connection :: byte
  ll_tx_congest_start :: byte
  ll_tx_congest_end :: byte
  total_tx_ui_pdu :: byte
  total_tx_i_pdu :: byte
  overall_tx_congested :: bool
  ll_tx_uncongest_ntf_start_sap :: byte
  dl_tx_uncongest_ntf_start_idx :: byte
  num_rx_buff :: byte
  overall_rx_congest_start :: byte
  overall_rx_congest_end :: byte
  max_num_ll_rx_buff :: byte
  ll_rx_congest_start :: byte
  total_rx_ui_pdu :: byte
  total_rx_i_pdu :: byte
  overall_rx_congested :: bool
  p_dta_cback :: bool
  dta_snl_resp :: bool
  pool :: "bool list"
  sent :: "bt_hdr list"
  link_events :: "(byte \<times> byte) list"
  sdp_events :: "(byte \<times> byte) list"
  static_rf_cback :: bool

end
