(* ===== verification/Llcp_Util.thy ===== *)
theory Llcp_Util
  imports Llcp_Model
begin

text \<open>
  The parameter lists of LLCP in \<open>llcp_util.c\<close>: the parsers of the general bytes, of CONNECT and of
  CC, and the encoders of CONNECT and CC. The received bytes are a memory \<open>m\<close> with a pointer \<open>p\<close>
  into it; the parsers trust the length bytes of the parameters, so a read outside \<open>m\<close> is possible
  and is \<open>None\<close>.
\<close>

section \<open>Parsers\<close>

text \<open>
  The loop that the three parsers share. The switch over the type is the argument \<open>switch\<close>; it
  answers the length byte it read, the new pointer and the parameters.
\<close>

function ltv_loop ::
    "(byte \<Rightarrow> nat \<Rightarrow> 'a \<Rightarrow> (byte \<times> nat \<times> 'a) option) \<Rightarrow> mem \<Rightarrow> nat \<Rightarrow> nat \<Rightarrow> 'a \<Rightarrow> (bool \<times> 'a) option" where
  "ltv_loop switch m len p a =
     (if len = 0 then Some (True, a)
      else Option.bind (rd m p) (\<lambda>param_type.
        Option.bind (switch param_type (p + 1) a) (\<lambda>(param_len, p, a).
          if unat param_len + 1 \<le> len - 1
          then ltv_loop switch m (len - 1 - (unat param_len + 1)) p a
          else Some (False, a))))"
  by pat_completeness auto
termination by (relation "measure (\<lambda>(_, _, len, _, _). len)") auto

declare ltv_loop.simps [simp del]

definition link_param :: "mem \<Rightarrow> byte \<Rightarrow> nat \<Rightarrow> lcb \<Rightarrow> (byte \<times> nat \<times> lcb) option" where
  "link_param m ty p l = do {
     param_len \<leftarrow> rd m p;
     let p = p + 1;
     if ty = LLCP_VERSION_TYPE then do {
       v \<leftarrow> rd m p; Some (param_len, p + 1, l\<lparr>peer_version := v\<rparr>) }
     else if ty = LLCP_MIUX_TYPE then do {
       v \<leftarrow> rd_be16 m p; Some (param_len, p + 2, l\<lparr>peer_miu := (v AND LLCP_MIUX_MASK) + LLCP_DEFAULT_MIU\<rparr>) }
     else if ty = LLCP_WKS_TYPE then do {
       v \<leftarrow> rd_be16 m p; Some (param_len, p + 2, l\<lparr>peer_wks := v\<rparr>) }
     else if ty = LLCP_LTO_TYPE then do {
       v \<leftarrow> rd m p; Some (param_len, p + 1, l\<lparr>peer_lto := ucast v * LLCP_LTO_UNIT\<rparr>) }
     else if ty = LLCP_OPT_TYPE then do {
       v \<leftarrow> rd m p; Some (param_len, p + 1, l\<lparr>peer_opt := v\<rparr>) }
     else Some (param_len, p + unat param_len, l) }"

definition llcp_util_parse_link_params :: "u16 \<Rightarrow> mem \<Rightarrow> nat \<Rightarrow> llcp_cb \<Rightarrow> (bool \<times> llcp_cb) option" where
  "llcp_util_parse_link_params len m p s = do {
     (ok, l) \<leftarrow> ltv_loop (link_param m) m (unat len) p (lcb s);
     Some (ok, s\<lparr>lcb := l\<rparr>) }"

text \<open>The copy of a service name into the array \<open>sn\<close>, ended by a zero.\<close>

definition put_sn :: "byte list \<Rightarrow> byte list \<Rightarrow> byte list" where
  "put_sn bs arr = bs @ 0 # drop (length bs + 1) arr"

definition connect_param :: "mem \<Rightarrow> byte \<Rightarrow> nat \<Rightarrow> conn_params \<Rightarrow> (byte \<times> nat \<times> conn_params) option" where
  "connect_param m ty p c = do {
     param_len \<leftarrow> rd m p;
     let p = p + 1;
     if ty = LLCP_MIUX_TYPE then do {
       v \<leftarrow> rd_be16 m p; Some (param_len, p + 2, c\<lparr>miu := (v AND LLCP_MIUX_MASK) + LLCP_DEFAULT_MIU\<rparr>) }
     else if ty = LLCP_RW_TYPE then do {
       v \<leftarrow> rd m p; Some (param_len, p + 1, c\<lparr>rw := v AND 0x0F\<rparr>) }
     else if ty = LLCP_SN_TYPE then
       (if param_len = 0 then Some (param_len, p, c\<lparr>sn := (sn c)[1 := LLCP_SN_TYPE]\<rparr>)
        else do {
          bs \<leftarrow> rd_bytes m p (if unat param_len \<le> LLCP_MAX_SN_LEN then unat param_len else LLCP_MAX_SN_LEN);
          Some (param_len, p + unat param_len, c\<lparr>sn := put_sn bs (sn c)\<rparr>) })
     else Some (param_len, p + unat param_len, c) }"

definition llcp_util_parse_connect ::
    "mem \<Rightarrow> nat \<Rightarrow> u16 \<Rightarrow> conn_params \<Rightarrow> (llcp_status \<times> conn_params) option" where
  "llcp_util_parse_connect m p len params = do {
     let c = params\<lparr>miu := LLCP_DEFAULT_MIU, rw := LLCP_DEFAULT_RW, sn := (sn params)[0 := 0, 1 := 0]\<rparr>;
     (ok, c) \<leftarrow> ltv_loop (connect_param m) m (unat len) p c;
     Some (if ok then LLCP_STATUS_SUCCESS else LLCP_STATUS_FAIL, c) }"

definition cc_param :: "mem \<Rightarrow> byte \<Rightarrow> nat \<Rightarrow> conn_params \<Rightarrow> (byte \<times> nat \<times> conn_params) option" where
  "cc_param m ty p c = do {
     param_len \<leftarrow> rd m p;
     let p = p + 1;
     if ty = LLCP_MIUX_TYPE then do {
       v \<leftarrow> rd_be16 m p; Some (param_len, p + 2, c\<lparr>miu := (v AND LLCP_MIUX_MASK) + LLCP_DEFAULT_MIU\<rparr>) }
     else if ty = LLCP_RW_TYPE then do {
       v \<leftarrow> rd m p; Some (param_len, p + 1, c\<lparr>rw := v AND 0x0F\<rparr>) }
     else Some (param_len, p + unat param_len, c) }"

definition llcp_util_parse_cc ::
    "mem \<Rightarrow> nat \<Rightarrow> u16 \<Rightarrow> conn_params \<Rightarrow> (llcp_status \<times> conn_params) option" where
  "llcp_util_parse_cc m p len params = do {
     let c = params\<lparr>miu := LLCP_DEFAULT_MIU, rw := LLCP_DEFAULT_RW\<rparr>;
     (ok, c) \<leftarrow> ltv_loop (cc_param m) m (unat len) p c;
     Some (if ok then LLCP_STATUS_SUCCESS else LLCP_STATUS_FAIL, c) }"

section \<open>Encoders\<close>

text \<open>
  The parameters that \<open>llcp_util_send_connect\<close> and \<open>llcp_util_send_cc\<close> write behind the header. Both
  first reduce the receive window to four bits, in the record of the caller.
\<close>

definition mask_rw :: "conn_params \<Rightarrow> conn_params" where
  "mask_rw c = (if rw c \<noteq> LLCP_DEFAULT_RW then c\<lparr>rw := rw c AND 0x0F\<rparr> else c)"

definition miu_bytes :: "conn_params \<Rightarrow> byte list" where
  "miu_bytes c = (if miu c \<noteq> LLCP_DEFAULT_MIU
     then [LLCP_MIUX_TYPE, LLCP_MIUX_LEN] @ be16_bytes (miu c - LLCP_DEFAULT_MIU) else [])"

definition rw_bytes :: "conn_params \<Rightarrow> byte list" where
  "rw_bytes c = (if rw c \<noteq> LLCP_DEFAULT_RW
     then [LLCP_RW_TYPE, LLCP_RW_LEN, rw (mask_rw c)] else [])"

definition sn_bytes :: "byte \<Rightarrow> conn_params \<Rightarrow> byte list" where
  "sn_bytes remote c = (if strlen (sn c) \<noteq> 0 \<and> remote = LLCP_SAP_SDP
     then [LLCP_SN_TYPE, of_nat (strlen (sn c))] @ take (strlen (sn c)) (sn c) else [])"

definition connect_bytes :: "byte \<Rightarrow> byte \<Rightarrow> conn_params \<Rightarrow> byte list" where
  "connect_bytes remote local c =
     be16_bytes (LLCP_GET_PDU_HEADER remote LLCP_PDU_CONNECT_TYPE local)
       @ miu_bytes c @ rw_bytes c @ sn_bytes remote c"

definition cc_bytes :: "byte \<Rightarrow> byte \<Rightarrow> conn_params \<Rightarrow> byte list" where
  "cc_bytes remote local c =
     be16_bytes (LLCP_GET_PDU_HEADER remote LLCP_PDU_CC_TYPE local) @ miu_bytes c @ rw_bytes c"

text \<open>
  \<open>src/libnfc-nci/nfc/llcp/llcp_util.c\<close>: congestion thresholds, allocation of data link connections,
  and the signalling PDUs.

  Two things these functions call are arguments, gathered in the record \<open>llcp_env\<close>: the
  application's callback of a SAP and \<open>llcp_link_check_send_data\<close>. The latter is defined in
  \<open>Llcp_Link\<close> from the functions below; there they run with \<open>is_sending_data\<close> set, where the
  nested call returns at once. Every operation answers \<open>None\<close> where the C code is undefined.
\<close>

section \<open>Environment and access to the control blocks\<close>

record llcp_env =
  check_send_data :: "llcp_cb \<Rightarrow> llcp_cb option"
  app_cback :: "app_ref option \<Rightarrow> sap_event \<Rightarrow> llcp_cb \<Rightarrow> llcp_cb option"

definition upd_dl :: "nat \<Rightarrow> (dlcb \<Rightarrow> dlcb) \<Rightarrow> llcp_cb \<Rightarrow> llcp_cb" where
  "upd_dl i f s = s\<lparr>dlcb := (dlcb s)(i := f (dlcb s i))\<rparr>"

definition upd_lcb :: "(lcb \<Rightarrow> lcb) \<Rightarrow> llcp_cb \<Rightarrow> llcp_cb" where
  "upd_lcb f s = s\<lparr>lcb := f (lcb s)\<rparr>"

definition app_at :: "app_ref \<Rightarrow> llcp_cb \<Rightarrow> app_cb" where
  "app_at r s = (case r of Wks k \<Rightarrow> wks_cb s k | Server k \<Rightarrow> server_cb s k | Client k \<Rightarrow> client_cb s k)"

definition upd_app :: "app_ref \<Rightarrow> (app_cb \<Rightarrow> app_cb) \<Rightarrow> llcp_cb \<Rightarrow> llcp_cb" where
  "upd_app r f s = (case r of
     Wks k \<Rightarrow> s\<lparr>wks_cb := (wks_cb s)(k := f (wks_cb s k))\<rparr>
   | Server k \<Rightarrow> s\<lparr>server_cb := (server_cb s)(k := f (server_cb s k))\<rparr>
   | Client k \<Rightarrow> s\<lparr>client_cb := (client_cb s)(k := f (client_cb s k))\<rparr>)"

definition GKI_getpoolbuf_llcp :: "llcp_cb \<Rightarrow> bool \<times> llcp_cb" where
  "GKI_getpoolbuf_llcp s = (case pool s of [] \<Rightarrow> (False, s) | b # bs \<Rightarrow> (b, s\<lparr>pool := bs\<rparr>))"

definition set_flag :: "byte \<Rightarrow> dlcb \<Rightarrow> dlcb" where
  "set_flag f d = d\<lparr>dl_flags := dl_flags d OR f\<rparr>"

definition clear_flag :: "byte \<Rightarrow> dlcb \<Rightarrow> dlcb" where
  "clear_flag f d = d\<lparr>dl_flags := dl_flags d AND NOT f\<rparr>"

definition has_flag :: "byte \<Rightarrow> dlcb \<Rightarrow> bool" where
  "has_flag f d \<longleftrightarrow> dl_flags d AND f \<noteq> 0"

definition for_dl :: "(dlcb \<Rightarrow> dlcb) \<Rightarrow> llcp_cb \<Rightarrow> llcp_cb" where
  "for_dl f s = s\<lparr>dlcb := (\<lambda>i. if i < LLCP_MAX_DATA_LINK then f (dlcb s i) else dlcb s i)\<rparr>"

section \<open>Congestion thresholds\<close>

definition llcp_util_adjust_ll_congestion :: "llcp_cb \<Rightarrow> llcp_cb" where
  "llcp_util_adjust_ll_congestion s =
     (let n = num_logical_data_link s;
          tx = (if n \<noteq> 0 then max_num_ll_tx_buff s div n else max_num_ll_tx_buff s);
          rx = (if n \<noteq> 0 then max_num_ll_rx_buff s div n else max_num_ll_rx_buff s);
          tx = (if tx = 0 then 1 else tx);
          rx = (if rx = 0 then 1 else rx) in
      s\<lparr>ll_tx_congest_start := tx, ll_rx_congest_start := rx,
        ll_tx_congest_end := (if tx > 1 then 1 else 0)\<rparr>)"

definition rx_threshold :: "byte \<Rightarrow> dlcb \<Rightarrow> byte" where
  "rx_threshold rx_congest_start d =
     (if rx_congest_start > local_rw d
      then if unat (local_rw d) + 1 > LLCP_DL_MIN_RX_CONGEST then local_rw d + 1
           else of_nat LLCP_DL_MIN_RX_CONGEST
      else of_nat LLCP_DL_MIN_RX_CONGEST)"

definition llcp_util_adjust_dl_rx_congestion :: "llcp_cb \<Rightarrow> llcp_cb" where
  "llcp_util_adjust_dl_rx_congestion s =
     (if num_data_link_connection s \<noteq> 0 then
        let rx_congest_start = num_rx_buff s div num_data_link_connection s in
        for_dl (\<lambda>d. if dl_state d = LLCP_DLC_STATE_CONNECTED
          then d\<lparr>rx_congest_threshold := rx_threshold rx_congest_start d\<rparr> else d) s
      else s)"

definition mark_rr_rnr :: "dlcb \<Rightarrow> dlcb" where
  "mark_rr_rnr d = (if dl_state d = LLCP_DLC_STATE_CONNECTED \<and> \<not> is_rx_congested d
     then set_flag LLCP_DATA_LINK_FLAG_PENDING_RR_RNR d else d)"

definition llcp_util_check_rx_congested_status :: "llcp_cb \<Rightarrow> llcp_cb" where
  "llcp_util_check_rx_congested_status s =
     (let total = unat (total_rx_ui_pdu s) + unat (total_rx_i_pdu s) in
      if overall_rx_congested s then
        if total \<le> unat (overall_rx_congest_end s)
        then for_dl mark_rr_rnr (s\<lparr>overall_rx_congested := False\<rparr>) else s
      else
        if unat (overall_rx_congest_start s) \<le> total
        then for_dl mark_rr_rnr (s\<lparr>overall_rx_congested := True\<rparr>) else s)"

section \<open>Signalling PDUs\<close>

text \<open>\<open>GKI_enqueue (&llcp_cb.lcb.sig_xmit_q, p_msg)\<close>, then \<open>llcp_link_check_send_data ()\<close>.\<close>

definition enqueue_sig :: "bt_hdr \<Rightarrow> llcp_cb \<Rightarrow> llcp_cb" where
  "enqueue_sig b = upd_lcb (\<lambda>l. l\<lparr>sig_xmit_q := sig_xmit_q l @ [b]\<rparr>)"

definition send_sig :: "llcp_env \<Rightarrow> byte list \<Rightarrow> llcp_cb \<Rightarrow> llcp_cb option" where
  "send_sig E bs s = check_send_data E (enqueue_sig (new_pdu bs) s)"

definition llcp_util_send_ui ::
    "llcp_env \<Rightarrow> byte \<Rightarrow> byte \<Rightarrow> app_ref \<Rightarrow> bt_hdr \<Rightarrow> llcp_cb \<Rightarrow> (llcp_status \<times> llcp_cb) option" where
  "llcp_util_send_ui E ssap dsap r b s = do {
     let b = push_hdr (be16_bytes (LLCP_GET_PDU_HEADER dsap LLCP_PDU_UI_TYPE ssap)) b;
     let s = upd_app r (\<lambda>a. a\<lparr>ui_xmit_q := ui_xmit_q a @ [b]\<rparr>) s;
     s \<leftarrow> check_send_data E (s\<lparr>total_tx_ui_pdu := total_tx_ui_pdu s + 1\<rparr>);
     if is_ui_tx_congested (app_at r s)
        \<or> unat (ll_tx_congest_start s) \<le> length (ui_xmit_q (app_at r s))
        \<or> overall_tx_congested s
        \<or> max_num_ll_tx_buff s \<le> total_tx_ui_pdu s
     then Some (LLCP_STATUS_CONGESTED, upd_app r (\<lambda>a. a\<lparr>is_ui_tx_congested := True\<rparr>) s)
     else Some (LLCP_STATUS_SUCCESS, s) }"

definition llcp_util_send_disc :: "llcp_env \<Rightarrow> byte \<Rightarrow> byte \<Rightarrow> llcp_cb \<Rightarrow> llcp_cb option" where
  "llcp_util_send_disc E dsap ssap s =
     (let (got, s) = GKI_getpoolbuf_llcp s in
      if got then send_sig E (be16_bytes (LLCP_GET_PDU_HEADER dsap LLCP_PDU_DISC_TYPE ssap)) s
      else Some s)"

definition llcp_util_get_app_cb :: "byte \<Rightarrow> app_ref option" where
  "llcp_util_get_app_cb sap =
     (if sap \<le> LLCP_UPPER_BOUND_WK_SAP then
        if sap \<noteq> LLCP_SAP_LM \<and> unat sap < LLCP_MAX_WKS then Some (Wks (unat sap)) else None
      else if sap \<le> LLCP_UPPER_BOUND_SDP_SAP then
        if unat (sap - LLCP_LOWER_BOUND_SDP_SAP) < LLCP_MAX_SERVER
        then Some (Server (unat (sap - LLCP_LOWER_BOUND_SDP_SAP))) else None
      else if sap \<le> LLCP_UPPER_BOUND_LOCAL_SAP then
        if unat (sap - LLCP_LOWER_BOUND_LOCAL_SAP) < LLCP_MAX_CLIENT
        then Some (Client (unat (sap - LLCP_LOWER_BOUND_LOCAL_SAP))) else None
      else None)"

definition zero_dlcb :: dlcb where
  "zero_dlcb = \<lparr>dl_state = LLCP_DLC_STATE_IDLE, dl_flags = 0, p_app_cb = None, dl_timer = None,
     local_sap = 0, local_miu = 0, local_rw = 0, local_busy = False,
     remote_sap = 0, remote_miu = 0, remote_rw = 0, remote_busy = False,
     next_tx_seq = 0, rcvd_ack_seq = 0, next_rx_seq = 0, sent_ack_seq = 0,
     i_xmit_q = [], is_tx_congested = False, i_rx_q = [], is_rx_congested = False,
     num_rx_i_pdu = 0, rx_congest_threshold = 0\<rparr>"

definition find_idx :: "(dlcb \<Rightarrow> bool) \<Rightarrow> llcp_cb \<Rightarrow> nat option" where
  "find_idx P s = List.find (\<lambda>i. P (dlcb s i)) [0..<LLCP_MAX_DATA_LINK]"

definition llcp_util_allocate_data_link :: "byte \<Rightarrow> byte \<Rightarrow> llcp_cb \<Rightarrow> nat option \<times> llcp_cb" where
  "llcp_util_allocate_data_link reg_sap remote s =
     (case find_idx (\<lambda>d. dl_state d = LLCP_DLC_STATE_IDLE) s of
        None \<Rightarrow> (None, s)
      | Some i \<Rightarrow>
          (Some i, (upd_dl i (\<lambda>_. zero_dlcb\<lparr>p_app_cb := llcp_util_get_app_cb reg_sap,
              local_sap := reg_sap, remote_sap := remote\<rparr>) s)
            \<lparr>num_data_link_connection := num_data_link_connection s + 1\<rparr>))"

definition llcp_util_send_connect ::
    "llcp_env \<Rightarrow> nat \<Rightarrow> conn_params \<Rightarrow> llcp_cb \<Rightarrow> (llcp_status \<times> conn_params \<times> llcp_cb) option" where
  "llcp_util_send_connect E i c s =
     (let d = dlcb s i; (got, s) = GKI_getpoolbuf_llcp s in
      if got then do {
        s \<leftarrow> send_sig E (connect_bytes (remote_sap d) (local_sap d) c) s;
        Some (LLCP_STATUS_SUCCESS, mask_rw c, s) }
      else Some (LLCP_STATUS_FAIL, mask_rw c, s))"

definition llcp_util_send_cc ::
    "llcp_env \<Rightarrow> nat \<Rightarrow> conn_params \<Rightarrow> llcp_cb \<Rightarrow> (llcp_status \<times> llcp_cb) option" where
  "llcp_util_send_cc E i c s =
     (let d = dlcb s i; (got, s) = GKI_getpoolbuf_llcp s in
      if got then do {
        s \<leftarrow> send_sig E (cc_bytes (remote_sap d) (local_sap d) c) s;
        Some (LLCP_STATUS_SUCCESS, s) }
      else Some (LLCP_STATUS_FAIL, s))"

definition llcp_util_send_dm :: "llcp_env \<Rightarrow> byte \<Rightarrow> byte \<Rightarrow> byte \<Rightarrow> llcp_cb \<Rightarrow> llcp_cb option" where
  "llcp_util_send_dm E dsap ssap reason s =
     (let (got, s) = GKI_getpoolbuf_llcp s in
      if got then send_sig E (be16_bytes (LLCP_GET_PDU_HEADER dsap LLCP_PDU_DM_TYPE ssap) @ [reason]) s
      else Some s)"

definition rx_flow_off :: "llcp_cb \<Rightarrow> dlcb \<Rightarrow> bool" where
  "rx_flow_off s d \<longleftrightarrow> local_busy d \<or> is_rx_congested d \<or> overall_rx_congested s"

text \<open>\<open>llcp_util_build_info_pdu\<close> answers the buffer it completed; it updates V(RA).\<close>

definition llcp_util_build_info_pdu :: "nat \<Rightarrow> bt_hdr \<Rightarrow> llcp_cb \<Rightarrow> bt_hdr \<times> llcp_cb" where
  "llcp_util_build_info_pdu i b s =
     (let d = dlcb s i;
          s' = (if rx_flow_off s d then s else upd_dl i (\<lambda>d. d\<lparr>sent_ack_seq := next_rx_seq d\<rparr>) s);
          rcv_seq = sent_ack_seq (dlcb s' i) in
      (push_hdr (be16_bytes (LLCP_GET_PDU_HEADER (remote_sap d) LLCP_PDU_I_TYPE (local_sap d))
         @ [LLCP_GET_SEQUENCE (next_tx_seq d) rcv_seq]) b, s'))"

definition frmr_bytes :: "dlcb \<Rightarrow> byte \<Rightarrow> byte \<Rightarrow> byte \<Rightarrow> byte list" where
  "frmr_bytes d flags ptype sequence =
     be16_bytes (LLCP_GET_PDU_HEADER (remote_sap d) LLCP_PDU_FRMR_TYPE (local_sap d))
       @ [push_bit 4 flags OR ptype, sequence,
          push_bit 4 (next_tx_seq d) OR next_rx_seq d,
          push_bit 4 (rcvd_ack_seq d) OR sent_ack_seq d]"

definition llcp_util_send_frmr ::
    "llcp_env \<Rightarrow> nat \<Rightarrow> byte \<Rightarrow> byte \<Rightarrow> byte \<Rightarrow> llcp_cb \<Rightarrow> (llcp_status \<times> llcp_cb) option" where
  "llcp_util_send_frmr E i flags ptype sequence s =
     (let (got, s) = GKI_getpoolbuf_llcp s in
      if got then do {
        s \<leftarrow> send_sig E (frmr_bytes (dlcb s i) flags ptype sequence) s;
        Some (LLCP_STATUS_SUCCESS, s) }
      else Some (LLCP_STATUS_FAIL, s))"

definition rr_rnr_needed :: "llcp_cb \<Rightarrow> dlcb \<Rightarrow> bool" where
  "rr_rnr_needed s d \<longleftrightarrow> has_flag LLCP_DATA_LINK_FLAG_PENDING_RR_RNR d
     \<or> (sent_ack_seq d \<noteq> next_rx_seq d \<and> \<not> rx_flow_off s d)"

definition llcp_util_send_rr_rnr :: "llcp_env \<Rightarrow> nat \<Rightarrow> llcp_cb \<Rightarrow> llcp_cb option" where
  "llcp_util_send_rr_rnr E i s =
     (if \<not> rr_rnr_needed s (dlcb s i) then Some s
      else
        let off = rx_flow_off s (dlcb s i);
            pdu_type = (if off then LLCP_PDU_RNR_TYPE else LLCP_PDU_RR_TYPE);
            s = (if off then s else upd_dl i (\<lambda>d. d\<lparr>sent_ack_seq := next_rx_seq d\<rparr>) s);
            rcv_seq = sent_ack_seq (dlcb s i);
            (got, s) = GKI_getpoolbuf_llcp s in
        if got then
          let s = upd_dl i (clear_flag LLCP_DATA_LINK_FLAG_PENDING_RR_RNR) s; d = dlcb s i in
          send_sig E (be16_bytes (LLCP_GET_PDU_HEADER (remote_sap d) pdu_type (local_sap d)) @ [rcv_seq]) s
        else Some s)"

end
