(* ===== verification/Llcp_Dlc.thy ===== *)
theory Llcp_Dlc
  imports Llcp_Util
begin

text \<open>
  \<open>src/libnfc-nci/nfc/llcp/llcp_dlc.c\<close>: the state machine of a data link connection and the
  processing of its PDUs, with the two functions of \<open>llcp_util.c\<close> and \<open>llcp_api.c\<close> that release a
  connection.
\<close>

section \<open>Release of a connection\<close>

definition llcp_dlc_find_dlcb_by_sap :: "byte \<Rightarrow> byte \<Rightarrow> llcp_cb \<Rightarrow> nat option" where
  "llcp_dlc_find_dlcb_by_sap local remote s =
     find_idx (\<lambda>d. dl_state d \<noteq> LLCP_DLC_STATE_IDLE \<and> local_sap d = local
       \<and> (remote = LLCP_INVALID_SAP \<and> dl_state d = LLCP_DLC_STATE_W4_REMOTE_RESP
          \<or> remote_sap d = remote)) s"

text \<open>
  The loop of \<open>LLCP_FlushDataLinkRxData\<close>: it walks over the length fields inside each buffer and
  returns \<open>total_rx_i_pdu\<close> and the number of bytes discarded. \<open>None\<close>: a length field announces more
  bytes than the buffer holds.
\<close>

definition skip_i_pdu :: "u16 \<Rightarrow> bt_hdr \<Rightarrow> bt_hdr" where
  "skip_i_pdu n b = b\<lparr>layer_specific := 0, offset := offset b + of_nat (LLCP_PDU_AGF_LEN_SIZE + unat n),
     body := drop (LLCP_PDU_AGF_LEN_SIZE + unat n) (body b)\<rparr>"

lemma length_skip_i_pdu: "length (body (skip_i_pdu n b)) = length (body b) - (2 + unat n)"
  by (simp add: skip_i_pdu_def LLCP_PDU_AGF_LEN_SIZE_def)

function flush_rx_loop :: "bt_hdr list \<Rightarrow> byte \<Rightarrow> u32 \<Rightarrow> (byte \<times> u32) option" where
  "flush_rx_loop [] tot flushed = Some (tot, flushed)"
| "flush_rx_loop (b # q) tot flushed =
     (case rd_be16 (body b) 0 of
        None \<Rightarrow> None
      | Some n \<Rightarrow>
          if length (body b) < LLCP_PDU_AGF_LEN_SIZE + unat n then None
          else if body (skip_i_pdu n b) = []
          then flush_rx_loop q (tot - 1) (flushed + (ucast n - ucast (layer_specific b)))
          else flush_rx_loop (skip_i_pdu n b # q) tot (flushed + (ucast n - ucast (layer_specific b))))"
  by pat_completeness auto
termination
  by (relation "measure (\<lambda>(q, _). sum_list (map (\<lambda>b. Suc (length (body b))) q))")
     (auto simp: LLCP_PDU_AGF_LEN_SIZE_def length_skip_i_pdu)

definition LLCP_FlushDataLinkRxData :: "byte \<Rightarrow> byte \<Rightarrow> llcp_cb \<Rightarrow> (u32 \<times> llcp_cb) option" where
  "LLCP_FlushDataLinkRxData local remote s =
     (case llcp_dlc_find_dlcb_by_sap local remote s of
        None \<Rightarrow> Some (0, s)
      | Some i \<Rightarrow> do {
          (tot, flushed) \<leftarrow> flush_rx_loop (i_rx_q (dlcb s i)) (total_rx_i_pdu s) 0;
          let s = upd_dl i (\<lambda>d. d\<lparr>i_rx_q := [], num_rx_i_pdu := 0\<rparr>) (s\<lparr>total_rx_i_pdu := tot\<rparr>);
          let s = (if \<not> local_busy (dlcb s i) \<and> is_rx_congested (dlcb s i)
                   then upd_dl i (\<lambda>d. set_flag LLCP_DATA_LINK_FLAG_PENDING_RR_RNR (d\<lparr>is_rx_congested := False\<rparr>)) s
                   else s);
          Some (flushed, llcp_util_check_rx_congested_status s) })"

definition llcp_dlc_flush_q :: "nat \<Rightarrow> llcp_cb \<Rightarrow> llcp_cb option" where
  "llcp_dlc_flush_q i s = do {
     let s = s\<lparr>total_tx_i_pdu := total_tx_i_pdu s - of_nat (length (i_xmit_q (dlcb s i)))\<rparr>;
     let s = upd_dl i (\<lambda>d. d\<lparr>i_xmit_q := []\<rparr>) s;
     (_, s) \<leftarrow> LLCP_FlushDataLinkRxData (local_sap (dlcb s i)) (remote_sap (dlcb s i)) s;
     Some s }"

definition llcp_util_deallocate_data_link :: "nat \<Rightarrow> llcp_cb \<Rightarrow> llcp_cb option" where
  "llcp_util_deallocate_data_link i s =
     (if dl_state (dlcb s i) \<noteq> LLCP_DLC_STATE_IDLE then do {
        s \<leftarrow> llcp_dlc_flush_q i (upd_dl i (\<lambda>d. d\<lparr>dl_timer := None\<rparr>) s);
        let s = upd_dl i (\<lambda>d. d\<lparr>dl_state := LLCP_DLC_STATE_IDLE\<rparr>) s;
        Some (if num_data_link_connection s > 0
              then s\<lparr>num_data_link_connection := num_data_link_connection s - 1\<rparr> else s) }
      else Some s)"

section \<open>State machine\<close>

definition notify :: "llcp_env \<Rightarrow> nat \<Rightarrow> sap_event \<Rightarrow> llcp_cb \<Rightarrow> llcp_cb option" where
  "notify E i ev s = app_cback E (p_app_cb (dlcb s i)) ev s"

definition start_dl_timer :: "nat \<Rightarrow> llcp_cb \<Rightarrow> llcp_cb" where
  "start_dl_timer i s =
     upd_dl i (\<lambda>d. d\<lparr>dl_timer := Some (ucast (data_link_timeout (lcb s)) * 100 div 1000)\<rparr>) s"

definition stop_dl_timer :: "nat \<Rightarrow> llcp_cb \<Rightarrow> llcp_cb" where
  "stop_dl_timer i = upd_dl i (\<lambda>d. d\<lparr>dl_timer := None\<rparr>)"

definition set_dl_state :: "dlc_state \<Rightarrow> nat \<Rightarrow> llcp_cb \<Rightarrow> llcp_cb" where
  "set_dl_state st i = upd_dl i (\<lambda>d. d\<lparr>dl_state := st\<rparr>)"

text \<open>The last two calls of most branches, and the branch of the events FRAME_ERROR and LINK_ERROR.\<close>

definition release_dl :: "nat \<Rightarrow> llcp_cb \<Rightarrow> (llcp_status \<times> llcp_cb) option" where
  "release_dl i s = do {
     s \<leftarrow> llcp_util_deallocate_data_link i s;
     Some (LLCP_STATUS_SUCCESS, llcp_util_adjust_dl_rx_congestion s) }"

definition dl_error :: "llcp_env \<Rightarrow> nat \<Rightarrow> llcp_cb \<Rightarrow> (llcp_status \<times> llcp_cb) option" where
  "dl_error E i s = do {
     s \<leftarrow> notify E i (LLCP_SAP_EVT_DISCONNECT_IND (local_sap (dlcb s i)) (remote_sap (dlcb s i))) s;
     release_dl i s }"

definition llcp_dlsm_idle :: "llcp_env \<Rightarrow> nat \<Rightarrow> dlc_event \<Rightarrow> llcp_cb \<Rightarrow> (llcp_status \<times> llcp_cb) option" where
  "llcp_dlsm_idle E i ev s = (case ev of
     LLCP_DLC_EVENT_API_CONNECT_REQ c \<Rightarrow> do {
       (status, c, s) \<leftarrow> llcp_util_send_connect E i c s;
       if status = LLCP_STATUS_SUCCESS then
         Some (status, start_dl_timer i (upd_dl i (\<lambda>d. d\<lparr>local_miu := miu c, local_rw := rw c,
           dl_state := LLCP_DLC_STATE_W4_REMOTE_RESP\<rparr>) s))
       else Some (status, s) }
   | LLCP_DLC_EVENT_PEER_CONNECT_IND c \<Rightarrow> do {
       let c = (if miu c > peer_miu (lcb s) then c\<lparr>miu := peer_miu (lcb s)\<rparr> else c);
       let d = dlcb s i;
       let s = start_dl_timer i (upd_dl i (\<lambda>d. d\<lparr>remote_miu := miu c, remote_rw := rw c,
           dl_state := LLCP_DLC_STATE_W4_LOCAL_RESP\<rparr>) s);
       s \<leftarrow> notify E i (LLCP_SAP_EVT_CONNECT_IND (local_sap d) (remote_sap d) (miu c) (rw c) (sn c)) s;
       Some (LLCP_STATUS_SUCCESS, s) }
   | _ \<Rightarrow> Some (LLCP_STATUS_FAIL, s))"

definition llcp_dlsm_w4_remote_resp ::
    "llcp_env \<Rightarrow> nat \<Rightarrow> dlc_event \<Rightarrow> llcp_cb \<Rightarrow> (llcp_status \<times> llcp_cb) option" where
  "llcp_dlsm_w4_remote_resp E i ev s =
     (let disc_resp = (\<lambda>reason. do {
            s \<leftarrow> notify E i (LLCP_SAP_EVT_DISCONNECT_RESP (local_sap (dlcb s i)) (remote_sap (dlcb s i)) reason) s;
            release_dl i s }) in
      case ev of
     LLCP_DLC_EVENT_PEER_CONNECT_CFM c \<Rightarrow> do {
       let s = stop_dl_timer i s;
       let c = (if miu c > peer_miu (lcb s) then c\<lparr>miu := peer_miu (lcb s)\<rparr> else c);
       let s = upd_dl i (\<lambda>d. d\<lparr>remote_miu := miu c, remote_rw := rw c, dl_state := LLCP_DLC_STATE_CONNECTED\<rparr>) s;
       let s = llcp_util_adjust_dl_rx_congestion s;
       s \<leftarrow> notify E i (LLCP_SAP_EVT_CONNECT_RESP (local_sap (dlcb s i)) (remote_sap (dlcb s i)) (miu c) (rw c)) s;
       Some (LLCP_STATUS_SUCCESS,
         if overall_rx_congested s then upd_dl i (set_flag LLCP_DATA_LINK_FLAG_PENDING_RR_RNR) s else s) }
   | LLCP_DLC_EVENT_PEER_DISCONNECT_RESP reason \<Rightarrow> disc_resp reason
   | LLCP_DLC_EVENT_TIMEOUT reason \<Rightarrow> disc_resp reason
   | LLCP_DLC_EVENT_FRAME_ERROR \<Rightarrow> dl_error E i s
   | LLCP_DLC_EVENT_LINK_ERROR \<Rightarrow> dl_error E i s
   | _ \<Rightarrow> Some (LLCP_STATUS_FAIL, s))"

definition llcp_dlsm_w4_local_resp ::
    "llcp_env \<Rightarrow> nat \<Rightarrow> dlc_event \<Rightarrow> llcp_cb \<Rightarrow> (llcp_status \<times> llcp_cb) option" where
  "llcp_dlsm_w4_local_resp E i ev s =
     (let reject = (\<lambda>reason. do {
            s \<leftarrow> llcp_util_send_dm E (remote_sap (dlcb s i)) (local_sap (dlcb s i)) reason s;
            release_dl i s }) in
      case ev of
     LLCP_DLC_EVENT_API_CONNECT_CFM c \<Rightarrow> do {
       let s = upd_dl i (\<lambda>d. d\<lparr>local_miu := miu c, local_rw := rw c, dl_state := LLCP_DLC_STATE_CONNECTED\<rparr>)
                 (stop_dl_timer i s);
       let s = (if overall_rx_congested s then upd_dl i (set_flag LLCP_DATA_LINK_FLAG_PENDING_RR_RNR) s else s);
       (status, s) \<leftarrow> llcp_util_send_cc E i c s;
       if status = LLCP_STATUS_SUCCESS then Some (status, llcp_util_adjust_dl_rx_congestion s)
       else do {
         s \<leftarrow> notify E i (LLCP_SAP_EVT_DISCONNECT_IND (local_sap (dlcb s i)) (remote_sap (dlcb s i))) s;
         s \<leftarrow> llcp_util_deallocate_data_link i s;
         Some (status, s) } }
   | LLCP_DLC_EVENT_API_CONNECT_REJECT reason \<Rightarrow> reject reason
   | LLCP_DLC_EVENT_TIMEOUT _ \<Rightarrow> reject LLCP_SAP_DM_REASON_TEMP_REJECT_THIS
   | LLCP_DLC_EVENT_FRAME_ERROR \<Rightarrow> dl_error E i s
   | LLCP_DLC_EVENT_LINK_ERROR \<Rightarrow> dl_error E i s
   | _ \<Rightarrow> Some (LLCP_STATUS_FAIL, s))"

text \<open>No data is pending, every received PDU is acknowledged, and every PDU that was sent.\<close>

definition all_acked :: "dlcb \<Rightarrow> bool" where
  "all_acked d \<longleftrightarrow> i_xmit_q d = [] \<and> next_rx_seq d = sent_ack_seq d \<and> next_tx_seq d = rcvd_ack_seq d"

definition llcp_dlsm_connected ::
    "llcp_env \<Rightarrow> nat \<Rightarrow> dlc_event \<Rightarrow> llcp_cb \<Rightarrow> (llcp_status \<times> llcp_cb) option" where
  "llcp_dlsm_connected E i ev s = (case ev of
     LLCP_DLC_EVENT_API_DISCONNECT_REQ flush \<Rightarrow>
       if flush \<or> all_acked (dlcb s i) then do {
         let s = set_dl_state LLCP_DLC_STATE_W4_REMOTE_DM i s;
         s \<leftarrow> llcp_util_send_disc E (remote_sap (dlcb s i)) (local_sap (dlcb s i)) s;
         Some (LLCP_STATUS_SUCCESS, start_dl_timer i s) }
       else Some (LLCP_STATUS_SUCCESS, upd_dl i (set_flag LLCP_DATA_LINK_FLAG_PENDING_DISC) s)
   | LLCP_DLC_EVENT_PEER_DISCONNECT_IND \<Rightarrow> do {
       s \<leftarrow> llcp_util_send_dm E (remote_sap (dlcb s i)) (local_sap (dlcb s i)) LLCP_SAP_DM_REASON_RESP_DISC s;
       dl_error E i s }
   | LLCP_DLC_EVENT_API_DATA_REQ b \<Rightarrow>
       if remote_rw (dlcb s i) \<noteq> 0 then do {
         let s = upd_dl i (\<lambda>d. d\<lparr>i_xmit_q := i_xmit_q d @ [b]\<rparr>) s;
         s \<leftarrow> check_send_data E (s\<lparr>total_tx_i_pdu := total_tx_i_pdu s + 1\<rparr>);
         let d = dlcb s i;
         if is_tx_congested d \<or> overall_tx_congested s \<or> remote_busy d
            \<or> unat (remote_rw d) \<le> length (i_xmit_q d)
         then Some (LLCP_STATUS_CONGESTED, upd_dl i (\<lambda>d. d\<lparr>is_tx_congested := True\<rparr>) s)
         else Some (LLCP_STATUS_SUCCESS, s) }
       else Some (LLCP_STATUS_FAIL, s)
   | LLCP_DLC_EVENT_PEER_DATA_IND \<Rightarrow> do {
       s \<leftarrow> notify E i (LLCP_SAP_EVT_DATA_IND (local_sap (dlcb s i)) (remote_sap (dlcb s i))
              LLCP_LINK_TYPE_DATA_LINK_CONNECTION) s;
       Some (LLCP_STATUS_SUCCESS, s) }
   | LLCP_DLC_EVENT_FRAME_ERROR \<Rightarrow> dl_error E i s
   | LLCP_DLC_EVENT_LINK_ERROR \<Rightarrow> dl_error E i s
   | _ \<Rightarrow> Some (LLCP_STATUS_FAIL, s))"

definition llcp_dlsm_w4_remote_dm ::
    "llcp_env \<Rightarrow> nat \<Rightarrow> dlc_event \<Rightarrow> llcp_cb \<Rightarrow> (llcp_status \<times> llcp_cb) option" where
  "llcp_dlsm_w4_remote_dm E i ev s =
     (let disc_resp = do {
            s \<leftarrow> notify E i (LLCP_SAP_EVT_DISCONNECT_RESP (local_sap (dlcb s i)) (remote_sap (dlcb s i))
                   LLCP_SAP_DM_REASON_RESP_DISC) s;
            release_dl i s } in
      case ev of
     LLCP_DLC_EVENT_PEER_DISCONNECT_RESP _ \<Rightarrow> disc_resp
   | LLCP_DLC_EVENT_TIMEOUT _ \<Rightarrow> disc_resp
   | LLCP_DLC_EVENT_FRAME_ERROR \<Rightarrow> dl_error E i s
   | LLCP_DLC_EVENT_LINK_ERROR \<Rightarrow> dl_error E i s
   | LLCP_DLC_EVENT_PEER_DATA_IND \<Rightarrow> Some (LLCP_STATUS_SUCCESS, s)
   | LLCP_DLC_EVENT_PEER_DISCONNECT_IND \<Rightarrow> do {
       s \<leftarrow> llcp_util_send_dm E (remote_sap (dlcb s i)) (local_sap (dlcb s i)) LLCP_SAP_DM_REASON_RESP_DISC s;
       Some (LLCP_STATUS_SUCCESS, s) }
   | _ \<Rightarrow> Some (LLCP_STATUS_FAIL, s))"

definition llcp_dlsm_execute ::
    "llcp_env \<Rightarrow> nat \<Rightarrow> dlc_event \<Rightarrow> llcp_cb \<Rightarrow> (llcp_status \<times> llcp_cb) option" where
  "llcp_dlsm_execute E i ev s = (case dl_state (dlcb s i) of
     LLCP_DLC_STATE_IDLE \<Rightarrow> llcp_dlsm_idle E i ev s
   | LLCP_DLC_STATE_W4_REMOTE_RESP \<Rightarrow> llcp_dlsm_w4_remote_resp E i ev s
   | LLCP_DLC_STATE_W4_LOCAL_RESP \<Rightarrow> llcp_dlsm_w4_local_resp E i ev s
   | LLCP_DLC_STATE_CONNECTED \<Rightarrow> llcp_dlsm_connected E i ev s
   | LLCP_DLC_STATE_W4_REMOTE_DM \<Rightarrow> llcp_dlsm_w4_remote_dm E i ev s)"

text \<open>A call whose status the caller ignores.\<close>

definition dlsm :: "llcp_env \<Rightarrow> nat \<Rightarrow> dlc_event \<Rightarrow> llcp_cb \<Rightarrow> llcp_cb option" where
  "dlsm E i ev s = map_option snd (llcp_dlsm_execute E i ev s)"

text \<open>The pair of calls that answers a bad frame.\<close>

definition reject_frame :: "llcp_env \<Rightarrow> nat \<Rightarrow> byte \<Rightarrow> byte \<Rightarrow> byte \<Rightarrow> llcp_cb \<Rightarrow> llcp_cb option" where
  "reject_frame E i flags ptype sequence s = do {
     (_, s) \<leftarrow> llcp_util_send_frmr E i flags ptype sequence s;
     dlsm E i LLCP_DLC_EVENT_FRAME_ERROR s }"

text \<open>
  \<open>llcp_dlc.c\<close>, second part: the processing of the PDUs of data link connections and the choice of
  the next PDU to send, with \<open>llcp_sdp_get_sap_by_name\<close> of \<open>llcp_sdp.c\<close>.

  A received PDU is a memory \<open>m\<close> with a pointer \<open>p\<close>: the body of its buffer, or of the AGF PDU it
  came in. A read behind \<open>m\<close>, that is behind the received bytes, is \<open>None\<close>.
\<close>

section \<open>Connection\<close>

text \<open>\<open>strlen\<close> of a service name that was registered as NULL is undefined.\<close>

definition dta_name :: "byte list" where
  "dta_name = map of_char ''urn:nfc:sn:cl-echo-in''"

fun sap_by_name_loop :: "byte list \<Rightarrow> llcp_cb \<Rightarrow> byte list \<Rightarrow> (byte \<times> llcp_cb) option" where
  "sap_by_name_loop name s [] = Some (0, s)"
| "sap_by_name_loop name s (sap # saps) =
     (case llcp_util_get_app_cb sap of
        None \<Rightarrow> sap_by_name_loop name s saps
      | Some r \<Rightarrow>
          if \<not> p_app_cback (app_at r s) then sap_by_name_loop name s saps
          else case p_service_name (app_at r s) of
            None \<Rightarrow> None
          | Some service \<Rightarrow>
              if service = name
              then Some (sap, if p_dta_cback s \<and> take (length name) dta_name = service
                              then s\<lparr>dta_snl_resp := True\<rparr> else s)
              else sap_by_name_loop name s saps)"

definition llcp_sdp_get_sap_by_name :: "byte list \<Rightarrow> llcp_cb \<Rightarrow> (byte \<times> llcp_cb) option" where
  "llcp_sdp_get_sap_by_name name s =
     sap_by_name_loop name s (map of_nat [unat LLCP_SAP_SDP ..< unat LLCP_UPPER_BOUND_SDP_SAP + 1])"

definition accepts_connection :: "byte \<Rightarrow> llcp_cb \<Rightarrow> bool" where
  "accepts_connection sap s = (case llcp_util_get_app_cb sap of
     None \<Rightarrow> False
   | Some r \<Rightarrow> p_app_cback (app_at r s) \<and> link_type (app_at r s) AND LLCP_LINK_TYPE_DATA_LINK_CONNECTION \<noteq> 0)"

text \<open>The last part of \<open>llcp_dlc_proc_connect_pdu\<close>, when the service is known.\<close>

definition connect_to :: "llcp_env \<Rightarrow> byte \<Rightarrow> byte \<Rightarrow> conn_params \<Rightarrow> llcp_cb \<Rightarrow> llcp_cb option" where
  "connect_to E dsap ssap params s =
     (case llcp_dlc_find_dlcb_by_sap dsap ssap s of
        Some _ \<Rightarrow> llcp_util_send_dm E ssap dsap LLCP_SAP_DM_REASON_TEMP_REJECT_THIS s
      | None \<Rightarrow>
          (case llcp_util_allocate_data_link dsap ssap s of
             (None, s) \<Rightarrow> llcp_util_send_dm E ssap dsap LLCP_SAP_DM_REASON_TEMP_REJECT_ANY s
           | (Some i, s) \<Rightarrow> do {
               (status, s) \<leftarrow> llcp_dlsm_execute E i (LLCP_DLC_EVENT_PEER_CONNECT_IND params) s;
               if status \<noteq> LLCP_STATUS_SUCCESS then llcp_util_deallocate_data_link i s else Some s }))"

text \<open>\<open>params\<close> is the local variable of the function, with arbitrary content at the start.\<close>

definition llcp_dlc_proc_connect_pdu ::
    "llcp_env \<Rightarrow> byte \<Rightarrow> byte \<Rightarrow> u16 \<Rightarrow> mem \<Rightarrow> nat \<Rightarrow> conn_params \<Rightarrow> llcp_cb \<Rightarrow> llcp_cb option" where
  "llcp_dlc_proc_connect_pdu E dsap ssap len m p params s =
     (if \<not> accepts_connection dsap s
      then llcp_util_send_dm E ssap dsap LLCP_SAP_DM_REASON_NO_SERVICE s
      else do {
        (status, params) \<leftarrow> llcp_util_parse_connect m p len params;
        if status \<noteq> LLCP_STATUS_SUCCESS
        then llcp_util_send_dm E ssap dsap LLCP_SAP_DM_REASON_NO_SERVICE s
        else if dsap = LLCP_SAP_SDP then
          if strlen (sn params) \<noteq> 0 then do {
            (dsap, s) \<leftarrow> llcp_sdp_get_sap_by_name
               (take (unat (of_nat (strlen (sn params)) :: byte)) (sn params)) s;
            if dsap = LLCP_SAP_SDP
            then llcp_util_send_dm E ssap LLCP_SAP_SDP LLCP_SAP_DM_REASON_PERM_REJECT_THIS s
            else if dsap = 0
            then llcp_util_send_dm E ssap LLCP_SAP_SDP LLCP_SAP_DM_REASON_NO_SERVICE s
            else if \<not> accepts_connection dsap s
            then llcp_util_send_dm E ssap dsap LLCP_SAP_DM_REASON_NO_SERVICE s
            else connect_to E dsap ssap params s }
          else if sn params ! 1 = LLCP_SN_TYPE
          then llcp_util_send_dm E ssap LLCP_SAP_SDP LLCP_SAP_DM_REASON_NO_SERVICE s
          else llcp_util_send_dm E ssap LLCP_SAP_SDP LLCP_SAP_DM_REASON_PERM_REJECT_THIS s
        else connect_to E dsap ssap params s })"

definition llcp_dlc_proc_disc_pdu :: "llcp_env \<Rightarrow> byte \<Rightarrow> byte \<Rightarrow> u16 \<Rightarrow> llcp_cb \<Rightarrow> llcp_cb option" where
  "llcp_dlc_proc_disc_pdu E dsap ssap len s =
     (case llcp_dlc_find_dlcb_by_sap dsap ssap s of
        None \<Rightarrow> Some s
      | Some i \<Rightarrow>
          if len > 0
          then reject_frame E i (LLCP_FRMR_W_ERROR_FLAG OR LLCP_FRMR_I_ERROR_FLAG) LLCP_PDU_DISC_TYPE 0 s
          else dlsm E i LLCP_DLC_EVENT_PEER_DISCONNECT_IND s)"

definition llcp_dlc_proc_cc_pdu ::
    "llcp_env \<Rightarrow> byte \<Rightarrow> byte \<Rightarrow> u16 \<Rightarrow> mem \<Rightarrow> nat \<Rightarrow> conn_params \<Rightarrow> llcp_cb \<Rightarrow> llcp_cb option" where
  "llcp_dlc_proc_cc_pdu E dsap ssap len m p params s =
     (case llcp_dlc_find_dlcb_by_sap dsap LLCP_INVALID_SAP s of
        None \<Rightarrow> Some s
      | Some i \<Rightarrow> do {
          let s = upd_dl i (\<lambda>d. d\<lparr>remote_sap := ssap\<rparr>) s;
          (status, params) \<leftarrow> llcp_util_parse_cc m p len params;
          if status = LLCP_STATUS_SUCCESS then do {
            (status, s) \<leftarrow> llcp_dlsm_execute E i (LLCP_DLC_EVENT_PEER_CONNECT_CFM params) s;
            if status \<noteq> LLCP_STATUS_SUCCESS then llcp_util_deallocate_data_link i s else Some s }
          else reject_frame E i (LLCP_FRMR_W_ERROR_FLAG OR LLCP_FRMR_I_ERROR_FLAG) LLCP_PDU_DISC_TYPE 0 s })"

definition llcp_dlc_proc_dm_pdu ::
    "llcp_env \<Rightarrow> byte \<Rightarrow> byte \<Rightarrow> u16 \<Rightarrow> mem \<Rightarrow> nat \<Rightarrow> llcp_cb \<Rightarrow> llcp_cb option" where
  "llcp_dlc_proc_dm_pdu E dsap ssap len m p s =
     (if len \<noteq> 1 then Some s
      else do {
        reason \<leftarrow> rd m p;
        case (if reason = LLCP_SAP_DM_REASON_RESP_DISC
              then llcp_dlc_find_dlcb_by_sap dsap ssap s
              else llcp_dlc_find_dlcb_by_sap dsap LLCP_INVALID_SAP s) of
          None \<Rightarrow> Some s
        | Some i \<Rightarrow> dlsm E i (LLCP_DLC_EVENT_PEER_DISCONNECT_RESP reason) s })"

section \<open>Information and acknowledgement\<close>

text \<open>The test of N(R): V(SA) \<open>\<le>\<close> N(R) \<open>\<le>\<close> V(S), modulo 16.\<close>

definition nr_valid :: "dlcb \<Rightarrow> byte \<Rightarrow> bool" where
  "nr_valid d rcv_seq \<longleftrightarrow>
     (rcv_seq - rcvd_ack_seq d) mod LLCP_SEQ_MODULO + (next_tx_seq d - rcv_seq) mod LLCP_SEQ_MODULO
       = (next_tx_seq d - rcvd_ack_seq d) mod LLCP_SEQ_MODULO"

text \<open>The error flags of an I PDU with sequence byte \<open>sq\<close> and \<open>info_len\<close> bytes of information.\<close>

definition i_pdu_errors :: "dlcb \<Rightarrow> u16 \<Rightarrow> byte \<Rightarrow> byte" where
  "i_pdu_errors d info_len sq =
     (if info_len > local_miu d then LLCP_FRMR_I_ERROR_FLAG else 0)
     OR (if next_rx_seq d \<noteq> LLCP_GET_NS sq
            \<or> local_rw d \<le> (LLCP_GET_NS sq - sent_ack_seq d) mod LLCP_SEQ_MODULO
         then LLCP_FRMR_S_ERROR_FLAG else 0)
     OR (if \<not> nr_valid d (LLCP_GET_NR sq) then LLCP_FRMR_R_ERROR_FLAG else 0)"

text \<open>
  Appending to the last buffer of the receive queue: \<open>Some (Some q)\<close> when it has room, \<open>Some None\<close>
  when it has not.
\<close>

definition append_last :: "u16 \<Rightarrow> byte list \<Rightarrow> bt_hdr list \<Rightarrow> bt_hdr list option option" where
  "append_last info_len info q =
     (if q = [] \<or> unat (available_bytes (last q)) < LLCP_PDU_AGF_LEN_SIZE + unat info_len then Some None
      else do { b \<leftarrow> append_bytes (be16_bytes info_len @ info) (last q); Some (Some (butlast q @ [b])) })"

text \<open>
  The buffer that receives the PDU otherwise: the buffer it came in, with the length written over
  the last two bytes of its header, or a fresh one.
\<close>

definition rx_buffer :: "bt_hdr option \<Rightarrow> u16 \<Rightarrow> byte list \<Rightarrow> llcp_cb \<Rightarrow> (bt_hdr option \<times> llcp_cb) option" where
  "rx_buffer p_msg info_len info s = (case p_msg of
     Some b \<Rightarrow> Some (Some (b\<lparr>offset := offset b + 1, layer_specific := 0,
                            body := be16_bytes info_len @ drop 3 (body b)\<rparr>), s)
   | None \<Rightarrow>
       (let (got, s) = GKI_getpoolbuf_llcp s in
        if got then do {
          b \<leftarrow> append_bytes (be16_bytes info_len @ info) ((new_pdu [])\<lparr>offset := 0\<rparr>);
          Some (Some b, s) }
        else Some (None, s)))"

definition store_i_pdu :: "nat \<Rightarrow> u16 \<Rightarrow> byte list \<Rightarrow> bt_hdr option \<Rightarrow> llcp_cb \<Rightarrow> llcp_cb option" where
  "store_i_pdu i info_len info p_msg s = do {
     appended \<leftarrow> append_last info_len info (i_rx_q (dlcb s i));
     case appended of
       Some q \<Rightarrow> Some (upd_dl i (\<lambda>d. d\<lparr>i_rx_q := q\<rparr>) s)
     | None \<Rightarrow> do {
         (b, s) \<leftarrow> rx_buffer p_msg info_len info s;
         case b of
           None \<Rightarrow> Some s
         | Some b \<Rightarrow>
             Some (llcp_util_check_rx_congested_status
               ((upd_dl i (\<lambda>d. d\<lparr>i_rx_q := i_rx_q d @ [b]\<rparr>) s)\<lparr>total_rx_i_pdu := total_rx_i_pdu s + 1\<rparr>)) } }"

definition accept_i_pdu ::
    "llcp_env \<Rightarrow> nat \<Rightarrow> byte \<Rightarrow> u16 \<Rightarrow> byte list \<Rightarrow> bt_hdr option \<Rightarrow> llcp_cb \<Rightarrow> llcp_cb option" where
  "accept_i_pdu E i rcv_seq info_len info p_msg s = do {
     let s = upd_dl i (\<lambda>d. d\<lparr>next_rx_seq := (next_rx_seq d + 1) mod LLCP_SEQ_MODULO, rcvd_ack_seq := rcv_seq\<rparr>) s;
     s \<leftarrow> store_i_pdu i info_len info p_msg s;
     let s = upd_dl i (\<lambda>d. d\<lparr>num_rx_i_pdu := num_rx_i_pdu d + 1\<rparr>) s;
     s \<leftarrow> (if \<not> local_busy (dlcb s i) \<and> num_rx_i_pdu (dlcb s i) = 1
           then dlsm E i LLCP_DLC_EVENT_PEER_DATA_IND s else Some s);
     Some (if \<not> is_rx_congested (dlcb s i) \<and> rx_congest_threshold (dlcb s i) \<le> num_rx_i_pdu (dlcb s i)
           then upd_dl i (\<lambda>d. set_flag LLCP_DATA_LINK_FLAG_PENDING_RR_RNR (d\<lparr>is_rx_congested := True\<rparr>)) s
           else s) }"

definition llcp_dlc_proc_i_pdu ::
    "llcp_env \<Rightarrow> byte \<Rightarrow> byte \<Rightarrow> u16 \<Rightarrow> mem \<Rightarrow> nat \<Rightarrow> bt_hdr option \<Rightarrow> llcp_cb \<Rightarrow> llcp_cb option" where
  "llcp_dlc_proc_i_pdu E dsap ssap i_pdu_length m p p_msg s =
     (case llcp_dlc_find_dlcb_by_sap dsap ssap s of
        Some i \<Rightarrow>
          if dl_state (dlcb s i) = LLCP_DLC_STATE_CONNECTED then do {
            let (i_pdu_length, m, p) =
              (case p_msg of Some b \<Rightarrow> (blen b, body b, 0) | None \<Rightarrow> (i_pdu_length, m, p));
            let info_len = i_pdu_length - of_nat LLCP_PDU_HEADER_SIZE - of_nat LLCP_SEQUENCE_SIZE;
            sq \<leftarrow> rd m (p + LLCP_PDU_HEADER_SIZE);
            let error_flags = i_pdu_errors (dlcb s i) info_len sq;
            if error_flags \<noteq> 0 then reject_frame E i error_flags LLCP_PDU_I_TYPE sq s
            else do {
              info \<leftarrow> rd_bytes m (p + LLCP_PDU_HEADER_SIZE + LLCP_SEQUENCE_SIZE) (unat info_len);
              accept_i_pdu E i (LLCP_GET_NR sq) info_len info p_msg s } }
          else llcp_util_send_dm E ssap dsap LLCP_SAP_DM_REASON_NO_ACTIVE_CONNECTION s
      | None \<Rightarrow> llcp_util_send_dm E ssap dsap LLCP_SAP_DM_REASON_NO_ACTIVE_CONNECTION s)"

text \<open>The deferred DISC: sent when the flag is set and everything is acknowledged.\<close>

definition check_pending_disc :: "llcp_env \<Rightarrow> nat \<Rightarrow> llcp_cb \<Rightarrow> llcp_cb option" where
  "check_pending_disc E i s =
     (if has_flag LLCP_DATA_LINK_FLAG_PENDING_DISC (dlcb s i) \<and> all_acked (dlcb s i)
      then dlsm E i (LLCP_DLC_EVENT_API_DISCONNECT_REQ True)
             (upd_dl i (clear_flag LLCP_DATA_LINK_FLAG_PENDING_DISC) s)
      else Some s)"

definition set_remote_busy :: "llcp_env \<Rightarrow> nat \<Rightarrow> bool \<Rightarrow> llcp_cb \<Rightarrow> llcp_cb option" where
  "set_remote_busy E i busy s =
     (let old = remote_busy (dlcb s i);
          s = upd_dl i (\<lambda>d. d\<lparr>remote_busy := busy\<rparr>) s;
          d = dlcb s i in
      if old \<noteq> busy \<and> \<not> is_tx_congested d
      then notify E i (LLCP_SAP_EVT_CONGEST (local_sap d) (remote_sap d) busy
             LLCP_LINK_TYPE_DATA_LINK_CONNECTION) s
      else Some s)"

definition llcp_dlc_proc_rr_rnr_pdu ::
    "llcp_env \<Rightarrow> byte \<Rightarrow> byte \<Rightarrow> byte \<Rightarrow> u16 \<Rightarrow> mem \<Rightarrow> nat \<Rightarrow> llcp_cb \<Rightarrow> llcp_cb option" where
  "llcp_dlc_proc_rr_rnr_pdu E dsap ptype ssap len m p s =
     (case llcp_dlc_find_dlcb_by_sap dsap ssap s of
        None \<Rightarrow> Some s
      | Some i \<Rightarrow> do {
          sq \<leftarrow> rd m p;
          let rcv_seq = LLCP_GET_NR sq;
          let error_flags =
            (if len \<noteq> 1 then LLCP_FRMR_W_ERROR_FLAG OR LLCP_FRMR_I_ERROR_FLAG else 0)
            OR (if \<not> nr_valid (dlcb s i) rcv_seq then LLCP_FRMR_R_ERROR_FLAG else 0);
          if error_flags \<noteq> 0 then reject_frame E i error_flags ptype sq s
          else do {
            let s = upd_dl i (\<lambda>d. d\<lparr>rcvd_ack_seq := rcv_seq\<rparr>) s;
            s \<leftarrow> set_remote_busy E i (ptype = LLCP_PDU_RNR_TYPE) s;
            check_pending_disc E i s } })"

definition llcp_dlc_proc_rx_pdu ::
    "llcp_env \<Rightarrow> byte \<Rightarrow> byte \<Rightarrow> byte \<Rightarrow> u16 \<Rightarrow> mem \<Rightarrow> nat \<Rightarrow> conn_params \<Rightarrow> llcp_cb \<Rightarrow> llcp_cb option" where
  "llcp_dlc_proc_rx_pdu E dsap ptype ssap len m p params s =
     (if dsap = LLCP_SAP_LM then Some s
      else if ptype = LLCP_PDU_CONNECT_TYPE then llcp_dlc_proc_connect_pdu E dsap ssap len m p params s
      else if ptype = LLCP_PDU_DISC_TYPE then llcp_dlc_proc_disc_pdu E dsap ssap len s
      else if ptype = LLCP_PDU_CC_TYPE then llcp_dlc_proc_cc_pdu E dsap ssap len m p params s
      else if ptype = LLCP_PDU_DM_TYPE then llcp_dlc_proc_dm_pdu E dsap ssap len m p s
      else if ptype = LLCP_PDU_FRMR_TYPE then
        (case llcp_dlc_find_dlcb_by_sap dsap ssap s of
           None \<Rightarrow> Some s | Some i \<Rightarrow> dlsm E i LLCP_DLC_EVENT_FRAME_ERROR s)
      else if ptype = LLCP_PDU_RR_TYPE \<or> ptype = LLCP_PDU_RNR_TYPE
      then llcp_dlc_proc_rr_rnr_pdu E dsap ptype ssap len m p s
      else (case llcp_dlc_find_dlcb_by_sap dsap ssap s of
              None \<Rightarrow> Some s | Some i \<Rightarrow> reject_frame E i LLCP_FRMR_W_ERROR_FLAG ptype 0 s))"

section \<open>Transmission\<close>

fun check_rr_loop :: "llcp_env \<Rightarrow> nat list \<Rightarrow> llcp_cb \<Rightarrow> llcp_cb option" where
  "check_rr_loop E [] s = Some s"
| "check_rr_loop E (i # is) s =
     (if dl_state (dlcb s i) = LLCP_DLC_STATE_CONNECTED then do {
        s \<leftarrow> llcp_util_send_rr_rnr E i s;
        s \<leftarrow> check_pending_disc E i s;
        check_rr_loop E is s }
      else check_rr_loop E is s)"

definition llcp_dlc_check_to_send_rr_rnr :: "llcp_env \<Rightarrow> llcp_cb \<Rightarrow> llcp_cb option" where
  "llcp_dlc_check_to_send_rr_rnr E = check_rr_loop E [0..<LLCP_MAX_DATA_LINK]"

definition llcp_dlc_is_rw_open :: "dlcb \<Rightarrow> bool" where
  "llcp_dlc_is_rw_open d \<longleftrightarrow> (next_tx_seq d - rcvd_ack_seq d) mod LLCP_SEQ_MODULO < remote_rw d"

definition may_send :: "dlcb \<Rightarrow> bool" where
  "may_send d \<longleftrightarrow> i_xmit_q d \<noteq> [] \<and> \<not> remote_busy d \<and> llcp_dlc_is_rw_open d"

text \<open>The two flags checked at the end of \<open>llcp_dlc_get_next_pdu\<close>.\<close>

definition tx_done :: "llcp_env \<Rightarrow> nat \<Rightarrow> llcp_cb \<Rightarrow> llcp_cb option" where
  "tx_done E i s =
     (if all_acked (dlcb s i) then do {
        s \<leftarrow> (if has_flag LLCP_DATA_LINK_FLAG_PENDING_DISC (dlcb s i)
              then dlsm E i (LLCP_DLC_EVENT_API_DISCONNECT_REQ True)
                     (upd_dl i (clear_flag LLCP_DATA_LINK_FLAG_PENDING_DISC) s)
              else Some s);
        if has_flag LLCP_DATA_LINK_FLAG_NOTIFY_TX_DONE (dlcb s i) then
          let s = upd_dl i (clear_flag LLCP_DATA_LINK_FLAG_NOTIFY_TX_DONE) s in
          notify E i (LLCP_SAP_EVT_TX_COMPLETE (local_sap (dlcb s i)) (remote_sap (dlcb s i))) s
        else Some s }
      else Some s)"

definition llcp_dlc_get_next_pdu :: "llcp_env \<Rightarrow> nat \<Rightarrow> llcp_cb \<Rightarrow> (bt_hdr option \<times> llcp_cb) option" where
  "llcp_dlc_get_next_pdu E i s =
     (let (p_msg, s) =
        (case i_xmit_q (dlcb s i) of
           b # q \<Rightarrow>
             if may_send (dlcb s i) then
               let s = (upd_dl i (\<lambda>d. d\<lparr>i_xmit_q := q\<rparr>) s)\<lparr>total_tx_i_pdu := total_tx_i_pdu s - 1\<rparr> in
               if LLCP_MIN_OFFSET \<le> unat (offset b) then
                 let (b, s) = llcp_util_build_info_pdu i b s in
                 (Some b, upd_dl i (\<lambda>d. d\<lparr>next_tx_seq := (next_tx_seq d + 1) mod LLCP_SEQ_MODULO\<rparr>) s)
               else (None, s)
             else (None, s)
         | [] \<Rightarrow> (None, s)) in
      do { s \<leftarrow> tx_done E i s; Some (p_msg, s) })"

definition llcp_dlc_get_next_pdu_length :: "dlcb \<Rightarrow> u16" where
  "llcp_dlc_get_next_pdu_length d =
     (case i_xmit_q d of
        b # _ \<Rightarrow> if may_send d then blen b + of_nat LLCP_PDU_HEADER_SIZE + of_nat LLCP_SEQUENCE_SIZE else 0
      | [] \<Rightarrow> 0)"

end
