(* ===== verification/Llcp_Sdp.thy ===== *)
theory Llcp_Sdp
  imports Llcp_Dlc
begin

text \<open>
  Service discovery, \<open>src/libnfc-nci/nfc/llcp/llcp_sdp.c\<close>: the SNL PDU that collects requests and
  responses, and the processing of a received one. A transaction is its TID and whether its callback
  is set. The answer that the
  DTA mode of \<open>nfa_dm_cb\<close> forces for a malformed request is not modelled (the flag belongs to the
  device manager and is off outside of conformance tests).
\<close>

definition put_snl :: "byte list \<Rightarrow> llcp_cb \<Rightarrow> llcp_cb option" where
  "put_snl bs s = (case p_snl (sdp s) of
     None \<Rightarrow> None
   | Some b \<Rightarrow> do { b \<leftarrow> append_bytes bs b; Some (s\<lparr>sdp := (sdp s)\<lparr>p_snl := Some b\<rparr>\<rparr>) })"

definition new_snl :: "llcp_cb \<Rightarrow> llcp_cb" where
  "new_snl s = (let (got, s) = GKI_getpoolbuf_llcp s in
     s\<lparr>sdp := (sdp s)\<lparr>p_snl := (if got
        then Some ((new_pdu [])\<lparr>offset := of_nat (NCI_MSG_OFFSET_SIZE + NCI_DATA_HDR_SIZE + LLCP_PDU_HEADER_SIZE)\<rparr>)
        else None)\<rparr>\<rparr>)"

definition llcp_sdp_check_send_snl :: "llcp_cb \<Rightarrow> llcp_cb" where
  "llcp_sdp_check_send_snl s = (case p_snl (sdp s) of
     Some b \<Rightarrow>
       (enqueue_sig (push_hdr (be16_bytes (LLCP_GET_PDU_HEADER LLCP_SAP_SDP LLCP_PDU_SNL_TYPE LLCP_SAP_SDP)) b) s)
         \<lparr>sdp := (sdp s)\<lparr>p_snl := None\<rparr>\<rparr>
   | None \<Rightarrow> if p_dta_cback s \<and> dta_snl_resp s then s\<lparr>dta_snl_resp := False\<rparr> else s)"

definition sdreq_bytes :: "byte \<Rightarrow> byte list \<Rightarrow> byte list" where
  "sdreq_bytes tid name = [LLCP_SDREQ_TYPE, of_nat (1 + length name), tid] @ name"

definition sdres_bytes :: "byte \<Rightarrow> byte \<Rightarrow> byte list" where
  "sdres_bytes tid sap = [LLCP_SDRES_TYPE, LLCP_SDRES_LEN, tid, sap]"

text \<open>
  \<open>llcp_sdp_send_sdreq\<close> and \<open>llcp_sdp_send_sdres\<close> differ in the parameter they add only; \<open>p_name\<close> is
  the C string without its end, shorter than 65536 bytes.
\<close>

definition send_snl_param :: "llcp_env \<Rightarrow> byte list \<Rightarrow> llcp_cb \<Rightarrow> (llcp_status \<times> llcp_cb) option" where
  "send_snl_param E bs s = do {
     let s = (if p_snl (sdp s) = None then new_snl s else s);
     (status, s) \<leftarrow> (case p_snl (sdp s) of
        None \<Rightarrow> Some (LLCP_STATUS_FAIL, s)
      | Some b \<Rightarrow>
          if length bs \<le> unat (available_bytes b)
             \<and> length (body b) + length bs \<le> unat (effective_miu (lcb s))
          then do { s \<leftarrow> put_snl bs s; Some (LLCP_STATUS_SUCCESS, s) }
          else
            let s = new_snl (llcp_sdp_check_send_snl s) in
            if p_snl (sdp s) \<noteq> None then do { s \<leftarrow> put_snl bs s; Some (LLCP_STATUS_SUCCESS, s) }
            else Some (LLCP_STATUS_FAIL, s));
     if status = LLCP_STATUS_SUCCESS \<and> symm_state (lcb s) = LLCP_LINK_SYMM_LOCAL_XMIT_NEXT
     then do { s \<leftarrow> check_send_data E s; Some (status, s) }
     else Some (status, s) }"

definition llcp_sdp_send_sdreq ::
    "llcp_env \<Rightarrow> byte \<Rightarrow> byte list \<Rightarrow> llcp_cb \<Rightarrow> (llcp_status \<times> llcp_cb) option" where
  "llcp_sdp_send_sdreq E tid p_name = send_snl_param E (sdreq_bytes tid p_name)"

definition llcp_sdp_send_sdres ::
    "llcp_env \<Rightarrow> byte \<Rightarrow> byte \<Rightarrow> llcp_cb \<Rightarrow> (llcp_status \<times> llcp_cb) option" where
  "llcp_sdp_send_sdres E tid sap = send_snl_param E (sdres_bytes tid sap)"

definition clear_transac :: "(byte \<Rightarrow> bool) \<Rightarrow> llcp_cb \<Rightarrow> llcp_cb" where
  "clear_transac P s = s\<lparr>sdp := (sdp s)\<lparr>transac := (\<lambda>i.
     if i < LLCP_MAX_SDP_TRANSAC \<and> P (fst (transac (sdp s) i)) then (fst (transac (sdp s) i), False)
     else transac (sdp s) i)\<rparr>\<rparr>"

definition llcp_sdp_return_sap :: "byte \<Rightarrow> byte \<Rightarrow> llcp_cb \<Rightarrow> llcp_cb" where
  "llcp_sdp_return_sap tid sap s =
     (clear_transac (\<lambda>t. t = tid) s)\<lparr>sdp_events := sdp_events s
        @ map (\<lambda>i. (tid, sap)) (filter (\<lambda>i. transac (sdp s) i = (tid, True)) [0..<LLCP_MAX_SDP_TRANSAC])\<rparr>"

definition llcp_sdp_proc_deactivation :: "llcp_cb \<Rightarrow> llcp_cb" where
  "llcp_sdp_proc_deactivation s =
     (let calls = map (\<lambda>i. (fst (transac (sdp s) i), 0))
                    (filter (\<lambda>i. snd (transac (sdp s) i)) [0..<LLCP_MAX_SDP_TRANSAC]);
          s = clear_transac (\<lambda>_. True) s in
      s\<lparr>sdp_events := sdp_events s @ calls,
        sdp := (sdp s)\<lparr>p_snl := None, next_tid := 0\<rparr>, dta_snl_resp := False\<rparr>)"

text \<open>One parameter of a received SNL PDU, at \<open>p\<close> behind its type and length.\<close>

definition snl_param ::
    "llcp_env \<Rightarrow> mem \<Rightarrow> byte \<Rightarrow> byte \<Rightarrow> nat \<Rightarrow> nat \<Rightarrow> llcp_cb \<Rightarrow> llcp_cb option" where
  "snl_param E m ty len sdu_length p s =
     (if ty = LLCP_SDREQ_TYPE then
        if len > 1 \<and> 2 + unat len \<le> sdu_length then do {
          tid \<leftarrow> rd m p;
          name \<leftarrow> rd_bytes m (p + 1) (unat (len - 1));
          (sap, s) \<leftarrow> llcp_sdp_get_sap_by_name name s;
          (_, s) \<leftarrow> llcp_sdp_send_sdres E tid sap s;
          Some s }
        else Some s
      else if ty = LLCP_SDRES_TYPE then
        if len = LLCP_SDRES_LEN \<and> 2 + unat len \<le> sdu_length then do {
          tid \<leftarrow> rd m p;
          sap \<leftarrow> rd m (p + 1);
          Some (llcp_sdp_return_sap tid sap s) }
        else Some s
      else Some s)"

function snl_loop :: "llcp_env \<Rightarrow> mem \<Rightarrow> nat \<Rightarrow> nat \<Rightarrow> llcp_cb \<Rightarrow> (nat \<times> llcp_cb) option" where
  "snl_loop E m sdu_length p s =
     (if sdu_length < 2 then Some (sdu_length, s)
      else Option.bind (rd m p) (\<lambda>ty. Option.bind (rd m (p + 1)) (\<lambda>len.
        Option.bind (snl_param E m ty len sdu_length (p + 2) s) (\<lambda>s.
          if 2 + unat len \<le> sdu_length
          then snl_loop E m (sdu_length - (2 + unat len)) (p + 2 + unat len) s
          else Some (sdu_length, s)))))"
  by pat_completeness auto
termination by (relation "measure (\<lambda>(_, _, n, _, _). n)") auto

declare snl_loop.simps [simp del]

definition llcp_sdp_proc_snl ::
    "llcp_env \<Rightarrow> u16 \<Rightarrow> mem \<Rightarrow> nat \<Rightarrow> llcp_cb \<Rightarrow> (llcp_status \<times> llcp_cb) option" where
  "llcp_sdp_proc_snl E sdu_length m p s =
     (let l = lcb s in
      if agreed_major_version l < 1 \<or> agreed_major_version l = 1 \<and> agreed_minor_version l < 1
      then Some (LLCP_STATUS_FAIL, s)
      else do {
        (rest, s) \<leftarrow> snl_loop E m (unat sdu_length) p s;
        Some (if rest \<noteq> 0 then LLCP_STATUS_FAIL else LLCP_STATUS_SUCCESS, s) })"

definition LLCP_DiscoverService ::
    "llcp_env \<Rightarrow> byte list \<Rightarrow> bool \<Rightarrow> llcp_cb \<Rightarrow> (llcp_status \<times> byte option \<times> llcp_cb) option" where
  "LLCP_DiscoverService E p_name p_cback s =
     (if link_state (lcb s) \<noteq> LLCP_LINK_STATE_ACTIVATED \<or> \<not> p_cback
         \<or> agreed_major_version (lcb s) = 1 \<and> agreed_minor_version (lcb s) < 1
      then Some (LLCP_STATUS_FAIL, None, s)
      else case List.find (\<lambda>i. \<not> snd (transac (sdp s) i)) [0..<LLCP_MAX_SDP_TRANSAC] of
        None \<Rightarrow> Some (LLCP_STATUS_FAIL, None, s)
      | Some i \<Rightarrow> do {
          let tid = next_tid (sdp s);
          let s = s\<lparr>sdp := (sdp s)\<lparr>next_tid := tid + 1, transac := (transac (sdp s))(i := (tid, True))\<rparr>\<rparr>;
          (status, s) \<leftarrow> llcp_sdp_send_sdreq E tid p_name s;
          let s = (if status = LLCP_STATUS_FAIL
                   then s\<lparr>sdp := (sdp s)\<lparr>transac := (transac (sdp s))(i := (fst (transac (sdp s) i), False))\<rparr>\<rparr>
                   else s);
          Some (status, Some (fst (transac (sdp s) i)), s) })"

end
