(* ===== verification/Llcp_Api.thy ===== *)
theory Llcp_Api
  imports Llcp_Sdp
begin

text \<open>
  The interface of LLCP to the applications, \<open>src/libnfc-nci/nfc/llcp/llcp_api.c\<close>: registration,
  logical links and data link connections. \<open>p_params\<close> is \<open>None\<close> for a NULL pointer; a buffer that the
  function frees disappears.
\<close>

section \<open>Registration\<close>

definition zero_app_cb :: app_cb where
  "zero_app_cb = \<lparr>link_type = 0, p_service_name = None, p_app_cback = False, ui_xmit_q = [], ui_rx_q = [],
     is_ui_tx_congested = False\<rparr>"

definition add_logical_link :: "byte \<Rightarrow> llcp_cb \<Rightarrow> llcp_cb" where
  "add_logical_link ty s =
     (if ty AND LLCP_LINK_TYPE_LOGICAL_DATA_LINK \<noteq> 0
      then llcp_util_adjust_ll_congestion (s\<lparr>num_logical_data_link := num_logical_data_link s + 1\<rparr>) else s)"

definition no_link_type :: "byte \<Rightarrow> bool" where
  "no_link_type ty \<longleftrightarrow> ty AND LLCP_LINK_TYPE_LOGICAL_DATA_LINK = 0 \<and> ty AND LLCP_LINK_TYPE_DATA_LINK_CONNECTION = 0"

text \<open>The choice of the control block: the SAP and its block, or no result.\<close>

definition server_slot :: "byte \<Rightarrow> llcp_cb \<Rightarrow> (byte \<times> app_ref) option" where
  "server_slot reg_sap s =
     (if reg_sap = LLCP_INVALID_SAP then
        map_option (\<lambda>k. (LLCP_LOWER_BOUND_SDP_SAP + of_nat k, Server k))
          (List.find (\<lambda>k. \<not> p_app_cback (server_cb s k)) [0..<LLCP_MAX_SERVER])
      else if reg_sap = LLCP_SAP_LM then None
      else if reg_sap \<le> LLCP_UPPER_BOUND_WK_SAP then
        if LLCP_MAX_WKS \<le> unat reg_sap \<or> p_app_cback (wks_cb s (unat reg_sap)) then None
        else Some (reg_sap, Wks (unat reg_sap))
      else if reg_sap \<le> LLCP_UPPER_BOUND_SDP_SAP then
        let k = unat (reg_sap - LLCP_LOWER_BOUND_SDP_SAP) in
        if LLCP_MAX_SERVER \<le> k \<or> p_app_cback (server_cb s k) then None
        else Some (reg_sap, Server k)
      else None)"

text \<open>\<open>got\<close> is the answer of \<open>GKI_getbuf\<close> for the copy of the name.\<close>

definition LLCP_RegisterServer ::
    "bool \<Rightarrow> byte \<Rightarrow> byte \<Rightarrow> byte list option \<Rightarrow> bool \<Rightarrow> llcp_cb \<Rightarrow> byte \<times> llcp_cb" where
  "LLCP_RegisterServer got reg_sap ty p_name cback s =
     (if \<not> cback \<or> no_link_type ty then (LLCP_INVALID_SAP, s)
      else case server_slot reg_sap s of
        None \<Rightarrow> (LLCP_INVALID_SAP, s)
      | Some (sap, r) \<Rightarrow>
          let s = upd_app r (\<lambda>_. zero_app_cb) s in
          if p_name \<noteq> None \<and> \<not> got then (LLCP_INVALID_SAP, s)
          else
            let name = map_option (\<lambda>n. take (length n mod 256) n) p_name;
                s = upd_app r (\<lambda>a. a\<lparr>p_service_name := name, p_app_cback := True, link_type := ty\<rparr>) s;
                s = (if sap \<le> LLCP_UPPER_BOUND_WK_SAP
                     then upd_lcb (\<lambda>l. l\<lparr>wks := wks l OR push_bit (unat sap) 1\<rparr>) s else s) in
            (sap, add_logical_link ty s))"

definition LLCP_RegisterClient :: "byte \<Rightarrow> bool \<Rightarrow> llcp_cb \<Rightarrow> byte \<times> llcp_cb" where
  "LLCP_RegisterClient ty cback s =
     (if \<not> cback \<or> no_link_type ty then (LLCP_INVALID_SAP, s)
      else case List.find (\<lambda>k. \<not> p_app_cback (client_cb s k)) [0..<LLCP_MAX_CLIENT] of
        None \<Rightarrow> (LLCP_INVALID_SAP, s)
      | Some k \<Rightarrow>
          (LLCP_LOWER_BOUND_LOCAL_SAP + of_nat k,
           add_logical_link ty (upd_app (Client k) (\<lambda>_. zero_app_cb\<lparr>p_app_cback := True, link_type := ty\<rparr>) s)))"

text \<open>The loop of \<open>LLCP_FlushLogicalLinkRxData\<close>; \<open>layer_specific\<close> is zero when the next PDU is read.\<close>

function flush_ui_loop :: "bt_hdr list \<Rightarrow> byte \<Rightarrow> u32 \<Rightarrow> (byte \<times> u32) option" where
  "flush_ui_loop [] tot flushed = Some (tot, flushed)"
| "flush_ui_loop (b # q) tot flushed =
     (case rd_be16 (body b) 0 of
        None \<Rightarrow> None
      | Some n \<Rightarrow>
          if length (body b) < LLCP_PDU_AGF_LEN_SIZE + unat n then None
          else if body (skip_i_pdu n b) = []
          then flush_ui_loop q (tot - 1)
                 (flushed + (ucast n - of_nat LLCP_PDU_HEADER_SIZE - ucast (layer_specific b)))
          else flush_ui_loop (skip_i_pdu n b # q) tot
                 (flushed + (ucast n - of_nat LLCP_PDU_HEADER_SIZE - ucast (layer_specific b))))"
  by pat_completeness auto
termination
  by (relation "measure (\<lambda>(q, _). sum_list (map (\<lambda>b. Suc (length (body b))) q))")
     (auto simp: LLCP_PDU_AGF_LEN_SIZE_def length_skip_i_pdu)

definition registered :: "byte \<Rightarrow> llcp_cb \<Rightarrow> app_ref option" where
  "registered sap s = (case llcp_util_get_app_cb sap of
     None \<Rightarrow> None | Some r \<Rightarrow> if p_app_cback (app_at r s) then Some r else None)"

definition LLCP_FlushLogicalLinkRxData :: "byte \<Rightarrow> llcp_cb \<Rightarrow> (u32 \<times> llcp_cb) option" where
  "LLCP_FlushLogicalLinkRxData sap s =
     (case registered sap s of
        None \<Rightarrow> Some (0, s)
      | Some r \<Rightarrow> do {
          (tot, flushed) \<leftarrow> flush_ui_loop (ui_rx_q (app_at r s)) (total_rx_ui_pdu s) 0;
          let s = upd_app r (\<lambda>a. a\<lparr>ui_rx_q := []\<rparr>) (s\<lparr>total_rx_ui_pdu := tot\<rparr>);
          Some (flushed, llcp_util_check_rx_congested_status s) })"

fun dealloc_sap :: "byte \<Rightarrow> nat list \<Rightarrow> llcp_cb \<Rightarrow> llcp_cb option" where
  "dealloc_sap sap [] s = Some s"
| "dealloc_sap sap (i # is) s =
     (if dl_state (dlcb s i) \<noteq> LLCP_DLC_STATE_IDLE \<and> local_sap (dlcb s i) = sap
      then do { s \<leftarrow> llcp_util_deallocate_data_link i s; dealloc_sap sap is s }
      else dealloc_sap sap is s)"

definition LLCP_Deregister :: "byte \<Rightarrow> llcp_cb \<Rightarrow> (llcp_status \<times> llcp_cb) option" where
  "LLCP_Deregister sap s =
     (case registered sap s of
        None \<Rightarrow> Some (LLCP_STATUS_FAIL, s)
      | Some r \<Rightarrow> do {
          let s = (if sap \<le> LLCP_UPPER_BOUND_WK_SAP
                   then upd_lcb (\<lambda>l. l\<lparr>wks := wks l AND NOT (push_bit (unat sap) 1)\<rparr>) s else s);
          (_, s) \<leftarrow> LLCP_FlushLogicalLinkRxData sap s;
          let s = s\<lparr>total_rx_ui_pdu := 0\<rparr>;
          s \<leftarrow> dealloc_sap sap [0..<LLCP_MAX_DATA_LINK] s;
          let s = upd_app r (\<lambda>a. a\<lparr>p_app_cback := False\<rparr>) s;
          let s = s\<lparr>total_tx_ui_pdu := total_tx_ui_pdu s - of_nat (length (ui_xmit_q (app_at r s)))\<rparr>;
          let s = upd_app r (\<lambda>a. a\<lparr>ui_xmit_q := []\<rparr>) s;
          let s = (if link_type (app_at r s) AND LLCP_LINK_TYPE_LOGICAL_DATA_LINK \<noteq> 0
                   then llcp_util_adjust_ll_congestion
                          (s\<lparr>num_logical_data_link := num_logical_data_link s - 1\<rparr>) else s);
          Some (LLCP_STATUS_SUCCESS, llcp_util_check_rx_congested_status s) })"

section \<open>Logical links\<close>

definition LLCP_IsLogicalLinkCongested :: "byte \<Rightarrow> byte \<Rightarrow> byte \<Rightarrow> byte \<Rightarrow> llcp_cb \<Rightarrow> bool \<times> llcp_cb" where
  "LLCP_IsLogicalLinkCongested sap num_pending_ui total_pending_ui total_pending_i s =
     (case registered sap s of
        None \<Rightarrow> (True, s)
      | Some r \<Rightarrow>
          let a = app_at r s in
          if link_state (lcb s) \<noteq> LLCP_LINK_STATE_ACTIVATED
             \<or> link_type a AND LLCP_LINK_TYPE_LOGICAL_DATA_LINK = 0 \<or> is_ui_tx_congested a
          then (True, s)
          else if unat (ll_tx_congest_start s) \<le> unat num_pending_ui + length (ui_xmit_q a)
               \<or> unat (max_num_ll_tx_buff s) \<le> unat total_pending_ui + unat (total_tx_ui_pdu s)
               \<or> unat (max_num_tx_buff s) \<le> unat total_pending_ui + unat total_pending_i
                    + unat (total_tx_ui_pdu s) + unat (total_tx_i_pdu s)
          then (True, upd_app r (\<lambda>a. a\<lparr>is_ui_tx_congested := True\<rparr>) s)
          else (False, s))"

definition LLCP_SendUI :: "llcp_env \<Rightarrow> byte \<Rightarrow> byte \<Rightarrow> bt_hdr \<Rightarrow> llcp_cb \<Rightarrow> (llcp_status \<times> llcp_cb) option" where
  "LLCP_SendUI E ssap dsap b s =
     (case registered ssap s of
        None \<Rightarrow> Some (LLCP_STATUS_FAIL, s)
      | Some r \<Rightarrow>
          if link_type (app_at r s) AND LLCP_LINK_TYPE_LOGICAL_DATA_LINK \<noteq> 0
             \<and> link_state (lcb s) = LLCP_LINK_STATE_ACTIVATED
             \<and> (peer_opt (lcb s) = LLCP_LSC_UNKNOWN \<or> peer_opt (lcb s) AND LLCP_LSC_1 \<noteq> 0)
             \<and> blen b \<le> peer_miu (lcb s)
             \<and> LLCP_MIN_OFFSET \<le> unat (offset b)
          then llcp_util_send_ui E ssap dsap r b s
          else Some (LLCP_STATUS_FAIL, s))"

text \<open>
  Reading a UI PDU: the sender, the bytes copied and the buffer left. The length in front of the PDU
  counts its header.
\<close>

definition read_ui_pdu :: "u32 \<Rightarrow> bt_hdr \<Rightarrow> (byte \<times> byte list \<times> bt_hdr) option" where
  "read_ui_pdu max_data_len b = do {
     n \<leftarrow> rd_be16 (body b) 0;
     pdu_hdr \<leftarrow> rd_be16 (body b) LLCP_PDU_AGF_LEN_SIZE;
     let rest = ucast n - of_nat LLCP_PDU_HEADER_SIZE - ucast (layer_specific b);
     let data_len = (if max_data_len \<ge> rest then rest else max_data_len);
     data \<leftarrow> rd_bytes (body b) (LLCP_PDU_AGF_LEN_SIZE + LLCP_PDU_HEADER_SIZE + unat (layer_specific b)) (unat data_len);
     if max_data_len \<ge> rest then
       if length (body b) < LLCP_PDU_AGF_LEN_SIZE + unat n then None
       else Some (LLCP_GET_SSAP pdu_hdr, data, skip_i_pdu n b)
     else Some (LLCP_GET_SSAP pdu_hdr, data, b\<lparr>layer_specific := layer_specific b + ucast max_data_len\<rparr>) }"

text \<open>The answer: more data pending, the remote SAP (when something was read), the bytes.\<close>

definition LLCP_ReadLogicalLinkData ::
    "byte \<Rightarrow> u32 \<Rightarrow> llcp_cb \<Rightarrow> (bool \<times> byte option \<times> byte list \<times> llcp_cb) option" where
  "LLCP_ReadLogicalLinkData sap max_data_len s =
     (case registered sap s of
        None \<Rightarrow> Some (False, None, [], s)
      | Some r \<Rightarrow> do {
          (remote, data, s) \<leftarrow> (case ui_rx_q (app_at r s) of
             [] \<Rightarrow> Some (None, [], s)
           | b # q \<Rightarrow> do {
               (remote, data, b) \<leftarrow> read_ui_pdu max_data_len b;
               Some (Some remote, data,
                 if body b = [] then
                   llcp_util_check_rx_congested_status
                     ((upd_app r (\<lambda>a. a\<lparr>ui_rx_q := q\<rparr>) s)\<lparr>total_rx_ui_pdu := total_rx_ui_pdu s - 1\<rparr>)
                 else upd_app r (\<lambda>a. a\<lparr>ui_rx_q := b # q\<rparr>) s) });
          Some (ui_rx_q (app_at r s) \<noteq> [], remote, data, s) })"

section \<open>Data link connections\<close>

definition default_params :: conn_params where
  "default_params = \<lparr>miu = LLCP_DEFAULT_MIU, rw = LLCP_DEFAULT_RW, sn = [0]\<rparr>"

definition LLCP_ConnectReq ::
    "llcp_env \<Rightarrow> byte \<Rightarrow> byte \<Rightarrow> conn_params option \<Rightarrow> llcp_cb \<Rightarrow> (llcp_status \<times> llcp_cb) option" where
  "LLCP_ConnectReq E reg_sap dsap p_params s =
     (let c = (case p_params of Some c \<Rightarrow> c | None \<Rightarrow> default_params) in
      if peer_opt (lcb s) \<noteq> LLCP_LSC_UNKNOWN \<and> peer_opt (lcb s) AND LLCP_LSC_2 = 0
         \<or> registered reg_sap s = None
         \<or> dsap = LLCP_SAP_LM
         \<or> dsap = LLCP_SAP_SDP \<and> LLCP_MAX_SN_LEN < strlen (sn c)
         \<or> miu c > local_link_miu (lcb s)
         \<or> llcp_dlc_find_dlcb_by_sap reg_sap LLCP_INVALID_SAP s \<noteq> None
      then Some (LLCP_STATUS_FAIL, s)
      else case llcp_util_allocate_data_link reg_sap dsap s of
        (None, s) \<Rightarrow> Some (LLCP_STATUS_FAIL, s)
      | (Some i, s) \<Rightarrow> do {
          (status, s) \<leftarrow> llcp_dlsm_execute E i (LLCP_DLC_EVENT_API_CONNECT_REQ c) s;
          if status \<noteq> LLCP_STATUS_SUCCESS then do {
            s \<leftarrow> llcp_util_deallocate_data_link i s;
            Some (LLCP_STATUS_FAIL, s) }
          else Some (LLCP_STATUS_SUCCESS, s) })"

text \<open>The calls that find the connection of a pair of SAPs and pass an event to it.\<close>

definition on_dlcb ::
    "byte \<Rightarrow> byte \<Rightarrow> (nat \<Rightarrow> llcp_cb \<Rightarrow> (llcp_status \<times> llcp_cb) option) \<Rightarrow> llcp_cb \<Rightarrow> (llcp_status \<times> llcp_cb) option" where
  "on_dlcb local remote f s = (case llcp_dlc_find_dlcb_by_sap local remote s of
     None \<Rightarrow> Some (LLCP_STATUS_FAIL, s) | Some i \<Rightarrow> f i s)"

definition LLCP_ConnectCfm ::
    "llcp_env \<Rightarrow> byte \<Rightarrow> byte \<Rightarrow> conn_params option \<Rightarrow> llcp_cb \<Rightarrow> (llcp_status \<times> llcp_cb) option" where
  "LLCP_ConnectCfm E local remote p_params s =
     (let c = (case p_params of Some c \<Rightarrow> c | None \<Rightarrow> default_params) in
      if miu c > local_link_miu (lcb s) then Some (LLCP_STATUS_FAIL, s)
      else on_dlcb local remote (\<lambda>i. llcp_dlsm_execute E i (LLCP_DLC_EVENT_API_CONNECT_CFM c)) s)"

definition LLCP_ConnectReject ::
    "llcp_env \<Rightarrow> byte \<Rightarrow> byte \<Rightarrow> byte \<Rightarrow> llcp_cb \<Rightarrow> (llcp_status \<times> llcp_cb) option" where
  "LLCP_ConnectReject E local remote reason =
     on_dlcb local remote (\<lambda>i s. do {
       (status, s) \<leftarrow> llcp_dlsm_execute E i (LLCP_DLC_EVENT_API_CONNECT_REJECT reason) s;
       s \<leftarrow> llcp_util_deallocate_data_link i s;
       Some (status, s) })"

definition LLCP_IsDataLinkCongested ::
    "byte \<Rightarrow> byte \<Rightarrow> byte \<Rightarrow> byte \<Rightarrow> byte \<Rightarrow> llcp_cb \<Rightarrow> bool \<times> llcp_cb" where
  "LLCP_IsDataLinkCongested local remote num_pending total_pending_ui total_pending_i s =
     (case llcp_dlc_find_dlcb_by_sap local remote s of
        None \<Rightarrow> (True, s)
      | Some i \<Rightarrow>
          let d = dlcb s i in
          if is_tx_congested d \<or> remote_busy d then (True, s)
          else if unat (remote_rw d) \<le> unat num_pending + length (i_xmit_q d)
               \<or> unat (max_num_tx_buff s) \<le> unat total_pending_ui + unat total_pending_i
                    + unat (total_tx_ui_pdu s) + unat (total_tx_i_pdu s)
          then (True, upd_dl i (\<lambda>d. d\<lparr>is_tx_congested := True\<rparr>) s)
          else (False, s))"

definition LLCP_SendData ::
    "llcp_env \<Rightarrow> byte \<Rightarrow> byte \<Rightarrow> bt_hdr \<Rightarrow> llcp_cb \<Rightarrow> (llcp_status \<times> llcp_cb) option" where
  "LLCP_SendData E local remote b =
     on_dlcb local remote (\<lambda>i s.
       if blen b \<le> remote_miu (dlcb s i) \<and> LLCP_MIN_OFFSET \<le> unat (offset b)
       then llcp_dlsm_execute E i (LLCP_DLC_EVENT_API_DATA_REQ b) s
       else Some (LLCP_STATUS_FAIL, s))"

text \<open>
  Reading from the first buffer of a receive queue: the bytes copied, the buffer left, and whether
  \<open>layer_specific\<close> ended at zero, which is what the code takes for the end of the PDU.
\<close>

definition read_i_pdu :: "u32 \<Rightarrow> bt_hdr \<Rightarrow> (byte list \<times> bt_hdr) option" where
  "read_i_pdu max_data_len b = do {
     n \<leftarrow> rd_be16 (body b) 0;
     let rest = ucast n - ucast (layer_specific b);
     let data_len = (if max_data_len \<ge> rest then rest else max_data_len);
     data \<leftarrow> rd_bytes (body b) (LLCP_PDU_AGF_LEN_SIZE + unat (layer_specific b)) (unat data_len);
     if max_data_len \<ge> rest then
       if length (body b) < LLCP_PDU_AGF_LEN_SIZE + unat n then None
       else Some (data, skip_i_pdu n b)
     else Some (data, b\<lparr>layer_specific := layer_specific b + ucast max_data_len\<rparr>) }"

definition LLCP_ReadDataLinkData ::
    "byte \<Rightarrow> byte \<Rightarrow> u32 \<Rightarrow> llcp_cb \<Rightarrow> (bool \<times> byte list \<times> llcp_cb) option" where
  "LLCP_ReadDataLinkData local remote max_data_len s =
     (case llcp_dlc_find_dlcb_by_sap local remote s of
        None \<Rightarrow> Some (False, [], s)
      | Some i \<Rightarrow> do {
          (data, s) \<leftarrow> (case i_rx_q (dlcb s i) of
             [] \<Rightarrow> Some ([], s)
           | b # q \<Rightarrow> do {
               (data, b) \<leftarrow> read_i_pdu max_data_len b;
               let s = (if layer_specific b = 0 then upd_dl i (\<lambda>d. d\<lparr>num_rx_i_pdu := num_rx_i_pdu d - 1\<rparr>) s else s);
               Some (data,
                 if body b = [] then
                   llcp_util_check_rx_congested_status
                     ((upd_dl i (\<lambda>d. d\<lparr>i_rx_q := q\<rparr>) s)\<lparr>total_rx_i_pdu := total_rx_i_pdu s - 1\<rparr>)
                 else upd_dl i (\<lambda>d. d\<lparr>i_rx_q := b # q\<rparr>) s) });
          let s = (if \<not> local_busy (dlcb s i) \<and> is_rx_congested (dlcb s i)
                      \<and> num_rx_i_pdu (dlcb s i) \<le> rx_congest_threshold (dlcb s i) div 2
                   then upd_dl i (\<lambda>d. set_flag LLCP_DATA_LINK_FLAG_PENDING_RR_RNR (d\<lparr>is_rx_congested := False\<rparr>)) s
                   else s);
          Some (i_rx_q (dlcb s i) \<noteq> [], data, s) })"

definition LLCP_DisconnectReq ::
    "llcp_env \<Rightarrow> byte \<Rightarrow> byte \<Rightarrow> bool \<Rightarrow> llcp_cb \<Rightarrow> (llcp_status \<times> llcp_cb) option" where
  "LLCP_DisconnectReq E local remote flush =
     on_dlcb local remote (\<lambda>i. llcp_dlsm_execute E i (LLCP_DLC_EVENT_API_DISCONNECT_REQ flush))"

definition LLCP_SetTxCompleteNtf :: "byte \<Rightarrow> byte \<Rightarrow> llcp_cb \<Rightarrow> (llcp_status \<times> llcp_cb) option" where
  "LLCP_SetTxCompleteNtf local remote =
     on_dlcb local remote (\<lambda>i s.
       Some (LLCP_STATUS_SUCCESS, upd_dl i (set_flag LLCP_DATA_LINK_FLAG_NOTIFY_TX_DONE) s))"

definition LLCP_SetLocalBusyStatus ::
    "llcp_env \<Rightarrow> byte \<Rightarrow> byte \<Rightarrow> bool \<Rightarrow> llcp_cb \<Rightarrow> (llcp_status \<times> llcp_cb) option" where
  "LLCP_SetLocalBusyStatus E local remote is_busy =
     on_dlcb local remote (\<lambda>i s. do {
       s \<leftarrow> (if local_busy (dlcb s i) \<noteq> is_busy then
               let s = upd_dl i (\<lambda>d. set_flag LLCP_DATA_LINK_FLAG_PENDING_RR_RNR (d\<lparr>local_busy := is_busy\<rparr>)) s in
               if \<not> is_busy \<and> i_rx_q (dlcb s i) \<noteq> []
               then dlsm E i LLCP_DLC_EVENT_PEER_DATA_IND s else Some s
             else Some s);
       Some (LLCP_STATUS_SUCCESS, s) })"

end
