(* ===== verification/Llcp_Link.thy ===== *)
theory Llcp_Link
  imports Llcp_Api
begin

text \<open>
  The link of LLCP, transmitting side of \<open>src/libnfc-nci/nfc/llcp/llcp_link.c\<close>: congestion of the
  whole link, the schedule of the queues, aggregation, and \<open>llcp_link_check_send_data\<close>.
\<close>

section \<open>Timers\<close>

definition ticks :: "u16 \<Rightarrow> u32" where
  "ticks ms = ucast ms * 100 div 1000"

definition llcp_link_start_inactivity_timer :: "llcp_cb \<Rightarrow> llcp_cb" where
  "llcp_link_start_inactivity_timer s =
     (if inact_timer (lcb s) = None \<and> inact_timeout (lcb s) > 0
      then upd_lcb (\<lambda>l. l\<lparr>inact_timer := Some (ticks (inact_timeout l))\<rparr>) s else s)"

definition llcp_link_stop_inactivity_timer :: "llcp_cb \<Rightarrow> llcp_cb" where
  "llcp_link_stop_inactivity_timer s =
     (if inact_timer (lcb s) \<noteq> None then upd_lcb (\<lambda>l. l\<lparr>inact_timer := None\<rparr>) s else s)"

definition llcp_link_start_link_timer :: "llcp_cb \<Rightarrow> llcp_cb" where
  "llcp_link_start_link_timer =
     upd_lcb (\<lambda>l. l\<lparr>lcb_timer := Some (ticks
       (if symm_state l = LLCP_LINK_SYMM_LOCAL_XMIT_NEXT then symm_delay l else peer_lto l))\<rparr>)"

definition llcp_link_stop_link_timer :: "llcp_cb \<Rightarrow> llcp_cb" where
  "llcp_link_stop_link_timer = upd_lcb (\<lambda>l. l\<lparr>lcb_timer := None\<rparr>)"

section \<open>Congestion of the link\<close>

text \<open>A loop over SAPs or connections that calls the application: \<open>act\<close> is its body.\<close>

fun run_loop :: "('a \<Rightarrow> llcp_cb \<Rightarrow> llcp_cb option) \<Rightarrow> 'a list \<Rightarrow> llcp_cb \<Rightarrow> llcp_cb option" where
  "run_loop act [] s = Some s"
| "run_loop act (x # xs) s = do { s \<leftarrow> act x s; run_loop act xs s }"

definition saps :: "byte list" where
  "saps = map of_nat [2..<LLCP_NUM_SAPS]"

definition logical_app :: "byte \<Rightarrow> llcp_cb \<Rightarrow> app_ref option" where
  "logical_app sap s = (case registered sap s of
     Some r \<Rightarrow> if link_type (app_at r s) AND LLCP_LINK_TYPE_LOGICAL_DATA_LINK \<noteq> 0 then Some r else None
   | None \<Rightarrow> None)"

definition congest_sap :: "llcp_env \<Rightarrow> byte \<Rightarrow> llcp_cb \<Rightarrow> llcp_cb option" where
  "congest_sap E sap s = (case logical_app sap s of
     Some r \<Rightarrow> if \<not> is_ui_tx_congested (app_at r s)
       then app_cback E (Some r) (LLCP_SAP_EVT_CONGEST sap LLCP_INVALID_SAP True LLCP_LINK_TYPE_LOGICAL_DATA_LINK)
              (upd_app r (\<lambda>a. a\<lparr>is_ui_tx_congested := True\<rparr>) s)
       else Some s
   | None \<Rightarrow> Some s)"

definition congest_dl :: "llcp_env \<Rightarrow> nat \<Rightarrow> llcp_cb \<Rightarrow> llcp_cb option" where
  "congest_dl E i s =
     (let d = dlcb s i in
      if dl_state d = LLCP_DLC_STATE_CONNECTED \<and> \<not> remote_busy d \<and> \<not> is_tx_congested d
      then notify E i (LLCP_SAP_EVT_CONGEST (local_sap d) (remote_sap d) True LLCP_LINK_TYPE_DATA_LINK_CONNECTION)
             (upd_dl i (\<lambda>d. d\<lparr>is_tx_congested := True\<rparr>) s)
      else Some s)"

definition llcp_link_check_congestion :: "llcp_env \<Rightarrow> llcp_cb \<Rightarrow> llcp_cb option" where
  "llcp_link_check_congestion E s =
     (if overall_tx_congested s then Some s
      else if unat (max_num_tx_buff s) \<le> unat (total_tx_ui_pdu s) + unat (total_tx_i_pdu s) then do {
        s \<leftarrow> run_loop (congest_sap E) saps (s\<lparr>overall_tx_congested := True\<rparr>);
        run_loop (congest_dl E) [0..<LLCP_MAX_DATA_LINK] s }
      else Some s)"

definition uncongest_sap :: "llcp_env \<Rightarrow> byte \<Rightarrow> llcp_cb \<Rightarrow> llcp_cb option" where
  "uncongest_sap E sap s =
     (if sap \<le> LLCP_SAP_SDP then Some s
      else case logical_app sap s of
        Some r \<Rightarrow> if is_ui_tx_congested (app_at r s)
                    \<and> length (ui_xmit_q (app_at r s)) \<le> unat (ll_tx_congest_end s)
          then app_cback E (Some r) (LLCP_SAP_EVT_CONGEST sap LLCP_INVALID_SAP False LLCP_LINK_TYPE_LOGICAL_DATA_LINK)
                 (upd_app r (\<lambda>a. a\<lparr>is_ui_tx_congested := False\<rparr>) s)
          else Some s
      | None \<Rightarrow> Some s)"

definition uncongest_dl :: "llcp_env \<Rightarrow> nat \<Rightarrow> llcp_cb \<Rightarrow> llcp_cb option" where
  "uncongest_dl E i s =
     (let d = dlcb s i in
      if dl_state d = LLCP_DLC_STATE_CONNECTED \<and> is_tx_congested d
         \<and> length (i_xmit_q d) \<le> unat (remote_rw d) div 2
      then let s = upd_dl i (\<lambda>d. d\<lparr>is_tx_congested := False\<rparr>) s in
           if \<not> remote_busy d
           then notify E i (LLCP_SAP_EVT_CONGEST (local_sap d) (remote_sap d) False LLCP_LINK_TYPE_DATA_LINK_CONNECTION) s
           else Some s
      else Some s)"

text \<open>The round robin of the notifications: the order of the SAPs or connections from a start.\<close>

definition rr_saps :: "byte \<Rightarrow> byte list" where
  "rr_saps start = map (\<lambda>k. (start + of_nat k) mod 64) [0..<LLCP_NUM_SAPS - 2]"

definition rr_dls :: "byte \<Rightarrow> nat list" where
  "rr_dls start = map (\<lambda>k. (unat start + k) mod LLCP_MAX_DATA_LINK) [0..<LLCP_MAX_DATA_LINK]"

text \<open>
  The code looks for the next start of the SAPs at the successor of the start only: the body of its
  loop does not depend on the loop counter. The same holds for the connections.
\<close>

definition next_start_sap :: "llcp_cb \<Rightarrow> llcp_cb" where
  "next_start_sap s =
     (let sap = (ll_tx_uncongest_ntf_start_sap s + 1) mod 64 in
      if sap > LLCP_SAP_SDP \<and> logical_app sap s \<noteq> None
      then s\<lparr>ll_tx_uncongest_ntf_start_sap := sap\<rparr> else s)"

definition next_start_dl :: "llcp_cb \<Rightarrow> llcp_cb" where
  "next_start_dl s =
     (let i = (unat (dl_tx_uncongest_ntf_start_idx s) + 1) mod LLCP_MAX_DATA_LINK in
      if dl_state (dlcb s i) = LLCP_DLC_STATE_CONNECTED
      then s\<lparr>dl_tx_uncongest_ntf_start_idx := of_nat i\<rparr> else s)"

definition llcp_link_check_uncongested :: "llcp_env \<Rightarrow> llcp_cb \<Rightarrow> llcp_cb option" where
  "llcp_link_check_uncongested E s =
     (if overall_tx_congested s
         \<and> unat (max_num_tx_buff s) div 2 < unat (total_tx_ui_pdu s) + unat (total_tx_i_pdu s)
      then Some s
      else do {
        let s = s\<lparr>overall_tx_congested := False\<rparr>;
        s \<leftarrow> (if total_tx_ui_pdu s < max_num_ll_tx_buff s then do {
                s \<leftarrow> run_loop (uncongest_sap E) (rr_saps (ll_tx_uncongest_ntf_start_sap s)) s;
                Some (next_start_sap s) }
              else Some s);
        s \<leftarrow> run_loop (uncongest_dl E) (rr_dls (dl_tx_uncongest_ntf_start_idx s)) s;
        Some (next_start_dl s) })"

section \<open>Schedule\<close>

definition llcp_link_send_to_lower :: "bt_hdr \<Rightarrow> llcp_cb \<Rightarrow> llcp_cb" where
  "llcp_link_send_to_lower b s =
     (upd_lcb (\<lambda>l. l\<lparr>symm_state := LLCP_LINK_SYMM_REMOTE_XMIT_NEXT\<rparr>) s)\<lparr>sent := sent s @ [b]\<rparr>"

definition llcp_link_send_SYMM :: "llcp_cb \<Rightarrow> llcp_cb" where
  "llcp_link_send_SYMM s =
     (let (got, s) = GKI_getpoolbuf_llcp s in
      if got then llcp_link_send_to_lower
        (new_pdu (be16_bytes (LLCP_GET_PDU_HEADER LLCP_SAP_LM LLCP_PDU_SYMM_TYPE LLCP_SAP_LM))) s
      else s)"

definition llcp_link_send_invalid_pdu :: "llcp_cb \<Rightarrow> llcp_cb" where
  "llcp_link_send_invalid_pdu s =
     (let (got, s) = GKI_getpoolbuf_llcp s in
      if got then s\<lparr>sent := sent s @ [new_pdu [0]]\<rparr> else s)"

definition next_ll :: "llcp_cb \<Rightarrow> llcp_cb" where
  "next_ll = upd_lcb (\<lambda>l. l\<lparr>ll_idx := (ll_idx l + 1) mod 64\<rparr>)"

definition next_dl :: "llcp_cb \<Rightarrow> llcp_cb" where
  "next_dl = upd_lcb (\<lambda>l. l\<lparr>dl_idx := (dl_idx l + 1) mod 16\<rparr>)"

definition toggle_served :: "llcp_cb \<Rightarrow> llcp_cb" where
  "toggle_served = upd_lcb (\<lambda>l. l\<lparr>ll_served := \<not> ll_served l\<rparr>)"

text \<open>
  The result of a step of the schedule: a PDU taken, the length of the next PDU when only the length
  is wanted, or nothing found.
\<close>

datatype sched = Taken bt_hdr | Length u16 | Nothing

text \<open>The loop over the logical links, \<open>n\<close> rounds left.\<close>

fun ll_scan :: "bool \<Rightarrow> nat \<Rightarrow> llcp_cb \<Rightarrow> sched \<times> llcp_cb" where
  "ll_scan length_only 0 s = (Nothing, toggle_served s)"
| "ll_scan length_only (Suc n) s =
     (case registered (ll_idx (lcb s)) s of
        None \<Rightarrow> ll_scan length_only n (next_ll s)
      | Some r \<Rightarrow>
          (case ui_xmit_q (app_at r s) of
             [] \<Rightarrow> ll_scan length_only n (next_ll s)
           | b # q \<Rightarrow>
               if length_only then (Length (blen b), s)
               else (Taken b, next_ll ((upd_app r (\<lambda>a. a\<lparr>ui_xmit_q := q\<rparr>) (toggle_served s))
                       \<lparr>total_tx_ui_pdu := total_tx_ui_pdu s - 1\<rparr>))))"

text \<open>The loop over the data link connections.\<close>

fun dl_scan :: "llcp_env \<Rightarrow> bool \<Rightarrow> nat \<Rightarrow> llcp_cb \<Rightarrow> (sched \<times> llcp_cb) option" where
  "dl_scan E length_only 0 s = Some (Nothing, toggle_served s)"
| "dl_scan E length_only (Suc n) s =
     (let i = unat (dl_idx (lcb s)) in
      if dl_state (dlcb s i) = LLCP_DLC_STATE_IDLE then dl_scan E length_only n (next_dl s)
      else if length_only then
        if llcp_dlc_get_next_pdu_length (dlcb s i) > 0
        then Some (Length (llcp_dlc_get_next_pdu_length (dlcb s i)), s)
        else dl_scan E length_only n (next_dl s)
      else do {
        (p_msg, s) \<leftarrow> llcp_dlc_get_next_pdu E i s;
        case p_msg of
          Some b \<Rightarrow> Some (Taken b, toggle_served (next_dl s))
        | None \<Rightarrow> dl_scan E length_only n (next_dl s) })"

fun sched_rounds :: "llcp_env \<Rightarrow> bool \<Rightarrow> nat \<Rightarrow> llcp_cb \<Rightarrow> (sched \<times> llcp_cb) option" where
  "sched_rounds E length_only 0 s = Some (Nothing, s)"
| "sched_rounds E length_only (Suc n) s = do {
     (r, s) \<leftarrow> (if \<not> ll_served (lcb s) then Some (ll_scan length_only LLCP_NUM_SAPS s)
                else dl_scan E length_only LLCP_MAX_DATA_LINK s);
     if r = Nothing then sched_rounds E length_only n s else Some (r, s) }"

definition llcp_link_get_next_pdu :: "llcp_env \<Rightarrow> bool \<Rightarrow> llcp_cb \<Rightarrow> (sched \<times> llcp_cb) option" where
  "llcp_link_get_next_pdu E length_only s =
     (case sig_xmit_q (lcb s) of
        b # q \<Rightarrow> if length_only then Some (Length (blen b), s)
                else Some (Taken b, upd_lcb (\<lambda>l. l\<lparr>sig_xmit_q := q\<rparr>) s)
      | [] \<Rightarrow> sched_rounds E length_only 2 s)"

definition next_pdu_length :: "llcp_env \<Rightarrow> llcp_cb \<Rightarrow> (u16 \<times> llcp_cb) option" where
  "next_pdu_length E s = do {
     (r, s) \<leftarrow> llcp_link_get_next_pdu E True s;
     Some (case r of Length n \<Rightarrow> n | _ \<Rightarrow> 0, s) }"

section \<open>Aggregation\<close>

definition agf_header :: "byte list" where
  "agf_header = be16_bytes (LLCP_GET_PDU_HEADER LLCP_SAP_LM LLCP_PDU_AGF_TYPE LLCP_SAP_LM)"

text \<open>
  The loop that fills an AGF PDU. A NULL answer of \<open>llcp_link_get_next_pdu\<close> after a length was
  announced is dereferenced by the code and is \<open>None\<close>; a loop that would not end is \<open>None\<close> too.
\<close>

partial_function (option) agf_loop ::
    "llcp_env \<Rightarrow> u16 \<Rightarrow> bt_hdr \<Rightarrow> llcp_cb \<Rightarrow> (bt_hdr \<times> llcp_cb) option" where
  "agf_loop E next_len agf s =
     (if next_len = 0 \<or> unat (effective_miu (lcb s)) < length (body agf) - LLCP_PDU_HEADER_SIZE + 2 + unat next_len
      then Some (agf, s)
      else Option.bind (llcp_link_get_next_pdu E False s) (\<lambda>(r, s).
        Option.bind (case r of Taken b \<Rightarrow> append_bytes (be16_bytes (blen b) @ body b) agf | _ \<Rightarrow> None) (\<lambda>agf.
        Option.bind (next_pdu_length E s) (\<lambda>(next_len, s). agf_loop E next_len agf s))))"

text \<open>The first round, when there is no AGF PDU yet.\<close>

definition agf_start :: "llcp_env \<Rightarrow> u16 \<Rightarrow> bt_hdr \<Rightarrow> llcp_cb \<Rightarrow> (bt_hdr \<times> llcp_cb) option" where
  "agf_start E next_len b s =
     (if next_len = 0 \<or> unat (effective_miu (lcb s)) < 2 + length (body b) + 2 + unat next_len
      then Some (b, s)
      else let (got, s) = GKI_getpoolbuf_llcp s in
        if got then do {
          agf \<leftarrow> append_bytes (agf_header @ be16_bytes (blen b) @ body b) (new_pdu []);
          agf_loop E next_len agf s }
        else Some (b, s))"

definition llcp_link_build_next_pdu ::
    "llcp_env \<Rightarrow> bt_hdr option \<Rightarrow> llcp_cb \<Rightarrow> (bt_hdr option \<times> llcp_cb) option" where
  "llcp_link_build_next_pdu E p_pdu s = do {
     let s = llcp_sdp_check_send_snl s;
     case p_pdu of
       Some b \<Rightarrow> do {
         pdu_hdr \<leftarrow> rd_be16 (body b) 0;
         (next_len, s) \<leftarrow> next_pdu_length E s;
         (b, s) \<leftarrow> (if LLCP_GET_PTYPE pdu_hdr = LLCP_PDU_AGF_TYPE then agf_loop E next_len b s
                    else agf_start E next_len b s);
         Some (Some b, s) }
     | None \<Rightarrow> do {
         (r, s) \<leftarrow> llcp_link_get_next_pdu E False s;
         case r of
           Taken b \<Rightarrow> do {
             (next_len, s) \<leftarrow> next_pdu_length E s;
             (b, s) \<leftarrow> agf_start E next_len b s;
             Some (Some b, s) }
         | _ \<Rightarrow> Some (None, s) } }"

section \<open>Sending\<close>

definition set_sending :: "bool \<Rightarrow> llcp_cb \<Rightarrow> llcp_cb" where
  "set_sending x = upd_lcb (\<lambda>l. l\<lparr>is_sending_data := x\<rparr>)"

text \<open>The end of \<open>llcp_link_check_send_data\<close> after something was sent.\<close>

definition after_send :: "llcp_cb \<Rightarrow> llcp_cb" where
  "after_send s =
     (if link_state (lcb s) = LLCP_LINK_STATE_DEACTIVATING
      then upd_lcb (\<lambda>l. l\<lparr>lcb_timer := Some (ticks 50)\<rparr>) s
      else llcp_link_start_link_timer s)"

text \<open>The branch for an empty link: a SYMM PDU now, or later when \<open>symm_delay\<close> is set.\<close>

definition send_symm_or_wait :: "llcp_cb \<Rightarrow> llcp_cb" where
  "send_symm_or_wait s =
     (if link_state (lcb s) = LLCP_LINK_STATE_ACTIVATED then
        if symm_delay (lcb s) > 0 then llcp_link_start_link_timer s
        else
          let s = llcp_link_send_SYMM s;
              s = (if num_data_link_connection s = 0 then llcp_link_start_inactivity_timer s else s) in
          after_send s
      else s)"

text \<open>The next frame: what waits, then the acknowledgements, added to it.\<close>

definition next_frame :: "llcp_env \<Rightarrow> llcp_cb \<Rightarrow> (bt_hdr option \<times> llcp_cb) option" where
  "next_frame E s = do {
     (p_pdu, s) \<leftarrow> llcp_link_build_next_pdu E None s;
     s \<leftarrow> llcp_dlc_check_to_send_rr_rnr E s;
     llcp_link_build_next_pdu E p_pdu s }"

definition transmit :: "llcp_env \<Rightarrow> llcp_cb \<Rightarrow> llcp_cb option" where
  "transmit E s = do {
     (p_pdu, s) \<leftarrow> next_frame E s;
     case p_pdu of
       Some b \<Rightarrow> do {
         let s = llcp_link_stop_inactivity_timer (llcp_link_send_to_lower b s);
         s \<leftarrow> llcp_link_check_uncongested E s;
         Some (after_send s) }
     | None \<Rightarrow> Some (send_symm_or_wait s) }"

text \<open>
  Inside \<open>llcp_link_check_send_data\<close> the flag \<open>is_sending_data\<close> is set, so that the calls of it made
  by the functions of the other theories return at once: they run in \<open>nested_env\<close>.
\<close>

definition nested_env :: "(app_ref option \<Rightarrow> sap_event \<Rightarrow> llcp_cb \<Rightarrow> llcp_cb option) \<Rightarrow> llcp_env" where
  "nested_env app = \<lparr>check_send_data = Some, app_cback = app\<rparr>"

definition llcp_link_check_send_data ::
    "(app_ref option \<Rightarrow> sap_event \<Rightarrow> llcp_cb \<Rightarrow> llcp_cb option) \<Rightarrow> llcp_cb \<Rightarrow> llcp_cb option" where
  "llcp_link_check_send_data app s =
     (if is_sending_data (lcb s) then Some s
      else do {
        s \<leftarrow> llcp_link_check_congestion (nested_env app) (set_sending True s);
        s \<leftarrow> (if symm_state (lcb s) = LLCP_LINK_SYMM_LOCAL_XMIT_NEXT then transmit (nested_env app) s
              else Some s);
        Some (set_sending False s) })"

definition link_env :: "(app_ref option \<Rightarrow> sap_event \<Rightarrow> llcp_cb \<Rightarrow> llcp_cb option) \<Rightarrow> llcp_env" where
  "link_env app = \<lparr>check_send_data = llcp_link_check_send_data app, app_cback = app\<rparr>"

text \<open>An application that does not call back into the stack, and the environment of a nested call.\<close>

definition quiet_app :: "app_ref option \<Rightarrow> sap_event \<Rightarrow> llcp_cb \<Rightarrow> llcp_cb option" where
  "quiet_app r ev s = Some s"

definition quiet_env :: llcp_env where
  "quiet_env = nested_env quiet_app"

end
