(* ===== verification/Llcp_Activate.thy ===== *)
theory Llcp_Activate
  imports Llcp_Link
begin

text \<open>
  Configuration, activation and deactivation of the link: \<open>llcp_main.c\<close>, the first functions of
  \<open>llcp_api.c\<close> and of \<open>llcp_link.c\<close>. The functions run in \<open>llcp_env\<close>, whose \<open>check_send_data\<close> is
  \<open>llcp_link_check_send_data\<close> in the running stack. The warnings about the payload size and the
  response waiting time, which change nothing, are left out.
\<close>

section \<open>Configuration\<close>

definition LLCP_MAX_MIU :: u16 where "LLCP_MAX_MIU = 2175"
definition LLCP_MIU :: u16 where "LLCP_MIU = LLCP_POOL_BUF_SIZE - 8 - 1 - 3 - 2"
definition LLCP_DEFAULT_LTO_IN_MS :: u16 where "LLCP_DEFAULT_LTO_IN_MS = 100"
definition LLCP_MAX_LTO_IN_MS :: u16 where "LLCP_MAX_LTO_IN_MS = 2550"
definition LLCP_MIN_GEN_BYTES :: byte where "LLCP_MIN_GEN_BYTES = 20"
definition LLCP_VERSION_MAJOR :: byte where "LLCP_VERSION_MAJOR = 1"
definition LLCP_VERSION_MINOR :: byte where "LLCP_VERSION_MINOR = 1"
definition LLCP_MIN_MAJOR_VERSION :: byte where "LLCP_MIN_MAJOR_VERSION = 1"
definition magic :: "byte list" where "magic = [0x46, 0x66, 0x6D]"

text \<open>\<open>llcp_init\<close>; \<open>pool_count\<close> is the answer of \<open>GKI_poolcount (LLCP_POOL_ID)\<close>.\<close>

definition zero_lcb :: lcb where
  "zero_lcb = \<lparr>link_state = LLCP_LINK_STATE_DEACTIVATED, wks = 0, is_initiator = False, is_sending_data = False,
     rx_any_llc_pdu = False, received_first_packet = False, agreed_major_version = 0, agreed_minor_version = 0,
     peer_version = 0, peer_miu = 0, peer_wks = 0, peer_lto = 0, peer_opt = 0, effective_miu = 0,
     symm_state = LLCP_LINK_SYMM_LOCAL_XMIT_NEXT, ll_served = False, ll_idx = 0, dl_idx = 0,
     lcb_timer = None, inact_timer = None, inact_timeout = 0, link_deact_reason = 0, sig_xmit_q = [],
     local_link_miu = 0, local_opt = 0, local_wt = 0, local_lto = 0, symm_delay = 0, data_link_timeout = 0,
     inact_timeout_init = 0, inact_timeout_target = 0, delay_first_pdu_timeout = 0\<rparr>"

definition zero_llcp_cb :: "bool list \<Rightarrow> llcp_cb" where
  "zero_llcp_cb answers = \<lparr>sdp = \<lparr>next_tid = 0, transac = (\<lambda>_. (0, False)), p_snl = None\<rparr>, lcb = zero_lcb,
     wks_cb = (\<lambda>_. zero_app_cb), server_cb = (\<lambda>_. zero_app_cb), client_cb = (\<lambda>_. zero_app_cb),
     dlcb = (\<lambda>_. zero_dlcb), max_num_ll_tx_buff = 0, max_num_tx_buff = 0, num_logical_data_link = 0,
     num_data_link_connection = 0, ll_tx_congest_start = 0, ll_tx_congest_end = 0, total_tx_ui_pdu = 0,
     total_tx_i_pdu = 0, overall_tx_congested = False, ll_tx_uncongest_ntf_start_sap = 0,
     dl_tx_uncongest_ntf_start_idx = 0, num_rx_buff = 0, overall_rx_congest_start = 0,
     overall_rx_congest_end = 0, max_num_ll_rx_buff = 0, ll_rx_congest_start = 0, total_rx_ui_pdu = 0,
     total_rx_i_pdu = 0, overall_rx_congested = False, p_dta_cback = False, dta_snl_resp = False,
     pool = answers, sent = [], link_events = [], sdp_events = [], static_rf_cback = False\<rparr>"

definition llcp_init :: "bool \<Rightarrow> u32 \<Rightarrow> bool list \<Rightarrow> llcp_cb" where
  "llcp_init got pool_count answers =
     (let rx = ucast (pool_count * 30 div 100) :: byte;
          tx = ucast (pool_count - ucast rx) :: byte;
          l = zero_lcb\<lparr>local_link_miu := (if LLCP_MIU \<le> LLCP_MAX_MIU then LLCP_MIU else LLCP_MAX_MIU),
                local_opt := 3, local_wt := 7, local_lto := 1000,
                inact_timeout_init := 0, inact_timeout_target := 0, symm_delay := 20,
                data_link_timeout := 1000, delay_first_pdu_timeout := 50, wks := 1\<rparr>;
          s = (zero_llcp_cb answers)\<lparr>lcb := l, num_rx_buff := rx,
                overall_rx_congest_start := of_nat (unat rx * 70 div 100),
                overall_rx_congest_end := of_nat (unat rx * 50 div 100),
                max_num_ll_rx_buff := of_nat (unat rx * 30 div 100),
                max_num_tx_buff := tx, max_num_ll_tx_buff := of_nat (unat tx * 30 div 100),
                ll_tx_uncongest_ntf_start_sap := 2\<rparr> in
      snd (LLCP_RegisterServer got LLCP_SAP_SDP LLCP_LINK_TYPE_DATA_LINK_CONNECTION
             (Some (map of_char ''urn:nfc:sn:sdp'')) True s))"

definition LLCP_SetConfig ::
    "u16 \<Rightarrow> byte \<Rightarrow> byte \<Rightarrow> u16 \<Rightarrow> u16 \<Rightarrow> u16 \<Rightarrow> u16 \<Rightarrow> u16 \<Rightarrow> u16 \<Rightarrow> llcp_cb \<Rightarrow> llcp_cb" where
  "LLCP_SetConfig link_miu opt wt link_timeout init_tout target_tout symm dl_tout first_tout =
     (let link_miu = (if link_miu < LLCP_DEFAULT_MIU then LLCP_DEFAULT_MIU
                      else if link_miu > LLCP_MAX_MIU then LLCP_MAX_MIU else link_miu) in
      upd_lcb (\<lambda>l. l\<lparr>local_link_miu := (if link_miu > LLCP_MIU then LLCP_MIU else link_miu),
        local_opt := opt, local_wt := wt,
        local_lto := (if link_timeout < LLCP_LTO_UNIT then LLCP_DEFAULT_LTO_IN_MS
                      else if link_timeout > LLCP_MAX_LTO_IN_MS then LLCP_MAX_LTO_IN_MS else link_timeout),
        inact_timeout_init := init_tout, inact_timeout_target := target_tout, symm_delay := symm,
        data_link_timeout := dl_tout, delay_first_pdu_timeout := first_tout\<rparr>))"

definition LLCP_GetConfig :: "llcp_cb \<Rightarrow> u16 \<times> byte \<times> byte \<times> u16 \<times> u16 \<times> u16 \<times> u16 \<times> u16 \<times> u16" where
  "LLCP_GetConfig s = (let l = lcb s in
     (local_link_miu l, local_opt l, local_wt l, local_lto l, inact_timeout_init l, inact_timeout_target l,
      symm_delay l, data_link_timeout l, delay_first_pdu_timeout l))"

text \<open>The general bytes, written to a buffer of \<open>p_gen_bytes_len\<close> bytes; empty when it is too small.\<close>

definition LLCP_GetDiscoveryConfig :: "byte \<Rightarrow> llcp_cb \<Rightarrow> byte list" where
  "LLCP_GetDiscoveryConfig p_gen_bytes_len s =
     (if p_gen_bytes_len < LLCP_MIN_GEN_BYTES then []
      else let l = lcb s in
        magic
        @ [LLCP_VERSION_TYPE, 1, push_bit 4 LLCP_VERSION_MAJOR OR LLCP_VERSION_MINOR]
        @ [LLCP_MIUX_TYPE, LLCP_MIUX_LEN] @ be16_bytes (local_link_miu l - LLCP_DEFAULT_MIU)
        @ [LLCP_WKS_TYPE, 2] @ be16_bytes (wks l)
        @ [LLCP_LTO_TYPE, 1, ucast (local_lto l div LLCP_LTO_UNIT)]
        @ [LLCP_OPT_TYPE, 1, local_opt l])"

definition LLCP_GetRemoteWKS :: "llcp_cb \<Rightarrow> u16" where
  "LLCP_GetRemoteWKS s = (if link_state (lcb s) = LLCP_LINK_STATE_ACTIVATED then peer_wks (lcb s) else 0)"

definition LLCP_GetRemoteLSC :: "llcp_cb \<Rightarrow> byte" where
  "LLCP_GetRemoteLSC s =
     (if link_state (lcb s) = LLCP_LINK_STATE_ACTIVATED then peer_opt (lcb s) AND (LLCP_LSC_1 OR LLCP_LSC_2)
      else LLCP_LSC_UNKNOWN)"

definition LLCP_GetLinkMIU :: "llcp_cb \<Rightarrow> u16 \<times> u16" where
  "LLCP_GetLinkMIU s =
     (if link_state (lcb s) = LLCP_LINK_STATE_ACTIVATED then (local_link_miu (lcb s), effective_miu (lcb s))
      else (0, 0))"

section \<open>Activation\<close>

definition llcp_link_parse_gen_bytes :: "byte \<Rightarrow> mem \<Rightarrow> llcp_cb \<Rightarrow> (bool \<times> llcp_cb) option" where
  "llcp_link_parse_gen_bytes gen_bytes_len m s =
     (if gen_bytes_len < 3 then Some (False, s)
      else do {
        mg \<leftarrow> rd_bytes m 0 3;
        if mg = magic then
          llcp_util_parse_link_params (ucast (gen_bytes_len - 3)) m 3
            (upd_lcb (\<lambda>l. l\<lparr>peer_miu := LLCP_DEFAULT_MIU, peer_lto := LLCP_DEFAULT_LTO_IN_MS\<rparr>) s)
        else Some (False, s) })"

definition llcp_link_version_agreement :: "llcp_cb \<Rightarrow> bool \<times> llcp_cb" where
  "llcp_link_version_agreement s =
     (let major = drop_bit 4 (peer_version (lcb s)) AND 0x0F; minor = peer_version (lcb s) AND 0x0F;
          agree = (\<lambda>x y. upd_lcb (\<lambda>l. l\<lparr>agreed_major_version := x, agreed_minor_version := y\<rparr>) s) in
      if major < LLCP_MIN_MAJOR_VERSION then (False, s)
      else if major = LLCP_VERSION_MAJOR
      then (True, agree LLCP_VERSION_MAJOR (if minor \<ge> LLCP_VERSION_MINOR then LLCP_VERSION_MINOR else minor))
      else if major < LLCP_VERSION_MAJOR then (True, agree major minor)
      else (True, agree LLCP_VERSION_MAJOR LLCP_VERSION_MINOR))"

definition status_sap :: "llcp_env \<Rightarrow> bool \<Rightarrow> byte \<Rightarrow> llcp_cb \<Rightarrow> llcp_cb option" where
  "status_sap E is_activated sap s = (case registered sap s of
     Some r \<Rightarrow> app_cback E (Some r) (LLCP_SAP_EVT_LINK_STATUS sap is_activated (is_initiator (lcb s))) s
   | None \<Rightarrow> Some s)"

definition llcp_link_update_status :: "llcp_env \<Rightarrow> bool \<Rightarrow> llcp_cb \<Rightarrow> llcp_cb option" where
  "llcp_link_update_status E is_activated = run_loop (status_sap E is_activated) saps"

definition link_cback :: "byte \<Rightarrow> byte \<Rightarrow> llcp_cb \<Rightarrow> llcp_cb" where
  "link_cback ev reason s = s\<lparr>link_events := link_events s @ [(ev, reason)]\<rparr>"

definition llcp_data_transfer :: "llcp_env \<Rightarrow> llcp_cb \<Rightarrow> llcp_cb option" where
  "llcp_data_transfer E s =
     (let s = (if is_initiator (lcb s) then
          let s = upd_lcb (\<lambda>l. l\<lparr>inact_timeout := inact_timeout_init l,
                    symm_state := LLCP_LINK_SYMM_LOCAL_XMIT_NEXT\<rparr>) s in
          if delay_first_pdu_timeout (lcb s) > 0
          then upd_lcb (\<lambda>l. l\<lparr>lcb_timer := Some (ticks (delay_first_pdu_timeout l))\<rparr>) s
          else llcp_link_send_SYMM s
        else llcp_link_start_link_timer (upd_lcb (\<lambda>l. l\<lparr>inact_timeout := inact_timeout_target l,
               symm_state := LLCP_LINK_SYMM_REMOTE_XMIT_NEXT\<rparr>) s)) in
      llcp_link_update_status E True
        (link_cback 1 0 (upd_lcb (\<lambda>l. l\<lparr>link_state := LLCP_LINK_STATE_ACTIVATED\<rparr>) s)))"

text \<open>An activation that failed: the reason, and the state that answers an initiator.\<close>

definition activation_failed :: "bool \<Rightarrow> byte \<Rightarrow> llcp_cb \<Rightarrow> llcp_cb" where
  "activation_failed initiator reason s =
     (let s = link_cback 0 reason s in
      if initiator then s
      else (upd_lcb (\<lambda>l. l\<lparr>link_state := LLCP_LINK_STATE_ACTIVATION_FAILED\<rparr>) s)\<lparr>static_rf_cback := True\<rparr>)"

text \<open>\<open>dta\<close> is \<open>appl_dta_mode_flag\<close>; the delays for transmission and reception are 210 ms each.\<close>

definition llcp_link_activate ::
    "llcp_env \<Rightarrow> bool \<Rightarrow> bool \<Rightarrow> byte \<Rightarrow> mem \<Rightarrow> llcp_cb \<Rightarrow> (llcp_status \<times> llcp_cb) option" where
  "llcp_link_activate E dta initiator gen_bytes_len gen_bytes s = do {
     (ok, s) \<leftarrow> llcp_link_parse_gen_bytes gen_bytes_len gen_bytes s;
     if \<not> ok then Some (LLCP_STATUS_FAIL, activation_failed initiator 2 s)
     else do {
       let s = (if dta then s else upd_lcb (\<lambda>l. l\<lparr>peer_lto := peer_lto l + 420\<rparr>) s);
       let (ok, s) = llcp_link_version_agreement s;
       if \<not> ok then Some (LLCP_STATUS_FAIL, activation_failed initiator 1 s)
       else do {
         s \<leftarrow> llcp_data_transfer E (upd_lcb (\<lambda>l. l\<lparr>received_first_packet := False, is_initiator := initiator,
                rx_any_llc_pdu := False, effective_miu := min (local_link_miu l) (peer_miu l)\<rparr>) s);
         Some (LLCP_STATUS_SUCCESS, s\<lparr>static_rf_cback := True\<rparr>) } } }"

definition LLCP_ActivateLink ::
    "llcp_env \<Rightarrow> bool \<Rightarrow> bool \<Rightarrow> byte \<Rightarrow> mem \<Rightarrow> bool \<Rightarrow> llcp_cb \<Rightarrow> (llcp_status \<times> llcp_cb) option" where
  "LLCP_ActivateLink E dta initiator gen_bytes_len gen_bytes p_link_cback s =
     (if link_state (lcb s) = LLCP_LINK_STATE_DEACTIVATED \<and> p_link_cback
      then llcp_link_activate E dta initiator gen_bytes_len gen_bytes s
      else Some (LLCP_STATUS_FAIL, s))"

section \<open>Deactivation\<close>

abbreviation (input) LLCP_LINK_LOCAL_INITIATED :: byte where "LLCP_LINK_LOCAL_INITIATED \<equiv> 4"
abbreviation (input) LLCP_LINK_REMOTE_INITIATED :: byte where "LLCP_LINK_REMOTE_INITIATED \<equiv> 5"
abbreviation (input) LLCP_LINK_TIMEOUT :: byte where "LLCP_LINK_TIMEOUT \<equiv> 6"
abbreviation (input) LLCP_LINK_FRAME_ERROR :: byte where "LLCP_LINK_FRAME_ERROR \<equiv> 7"
abbreviation (input) LLCP_LINK_RF_LINK_LOSS_NO_RX_LLC :: byte where "LLCP_LINK_RF_LINK_LOSS_NO_RX_LLC \<equiv> 8"
abbreviation (input) LLCP_LINK_RF_LINK_LOSS_ERR :: byte where "LLCP_LINK_RF_LINK_LOSS_ERR \<equiv> 0xFC"

definition llcp_deactivate_cleanup :: "llcp_env \<Rightarrow> byte \<Rightarrow> llcp_cb \<Rightarrow> llcp_cb option" where
  "llcp_deactivate_cleanup E reason s = do {
     s \<leftarrow> llcp_link_update_status E False (llcp_sdp_proc_deactivation s);
     let s = upd_lcb (\<lambda>l. l\<lparr>link_state := LLCP_LINK_STATE_DEACTIVATED\<rparr>) s;
     Some (link_cback 2 reason (llcp_link_stop_inactivity_timer (llcp_link_stop_link_timer s))) }"

definition clear_sap :: "byte \<Rightarrow> llcp_cb \<Rightarrow> llcp_cb" where
  "clear_sap sap s = (case registered sap s of
     Some r \<Rightarrow> upd_app r (\<lambda>a. a\<lparr>ui_xmit_q := [], is_ui_tx_congested := False, ui_rx_q := []\<rparr>) s
   | None \<Rightarrow> s)"

definition dl_link_error :: "llcp_env \<Rightarrow> nat \<Rightarrow> llcp_cb \<Rightarrow> llcp_cb option" where
  "dl_link_error E i s =
     (if dl_state (dlcb s i) \<noteq> LLCP_DLC_STATE_IDLE then dlsm E i LLCP_DLC_EVENT_LINK_ERROR s else Some s)"

text \<open>\<open>NFC_FlushData\<close> drops what the lower layer has not sent yet: no effect on this state.\<close>

definition llcp_link_deactivate :: "llcp_env \<Rightarrow> byte \<Rightarrow> llcp_cb \<Rightarrow> llcp_cb option" where
  "llcp_link_deactivate E reason s = do {
     let s = fold clear_sap saps (upd_lcb (\<lambda>l. l\<lparr>sig_xmit_q := []\<rparr>) s);
     s \<leftarrow> run_loop (dl_link_error E) [0..<LLCP_MAX_DATA_LINK] (s\<lparr>total_tx_ui_pdu := 0, total_rx_ui_pdu := 0\<rparr>);
     let s = s\<lparr>total_tx_i_pdu := 0, total_rx_i_pdu := 0, overall_tx_congested := False,
               overall_rx_congested := False\<rparr>;
     if reason = LLCP_LINK_FRAME_ERROR \<or> reason = LLCP_LINK_LOCAL_INITIATED then do {
       s \<leftarrow> llcp_util_send_disc E LLCP_SAP_LM LLCP_SAP_LM s;
       let s = upd_lcb (\<lambda>l. l\<lparr>link_state := LLCP_LINK_STATE_DEACTIVATING\<rparr>) s;
       let s = (if sig_xmit_q (lcb s) = [] then upd_lcb (\<lambda>l. l\<lparr>lcb_timer := Some (ticks 50)\<rparr>) s else s);
       Some (upd_lcb (\<lambda>l. l\<lparr>link_deact_reason := reason\<rparr>) s) }
     else if reason = LLCP_LINK_REMOTE_INITIATED \<and> \<not> is_initiator (lcb s)
     then llcp_deactivate_cleanup E reason (llcp_link_send_SYMM s)
     else llcp_deactivate_cleanup E
       (if reason = LLCP_LINK_RF_LINK_LOSS_ERR \<and> \<not> rx_any_llc_pdu (lcb s)
        then LLCP_LINK_RF_LINK_LOSS_NO_RX_LLC else reason) s }"

definition LLCP_DeactivateLink :: "llcp_env \<Rightarrow> llcp_cb \<Rightarrow> (llcp_status \<times> llcp_cb) option" where
  "LLCP_DeactivateLink E s =
     (if link_state (lcb s) \<noteq> LLCP_LINK_STATE_DEACTIVATED then do {
        s \<leftarrow> llcp_link_deactivate E LLCP_LINK_LOCAL_INITIATED s; Some (LLCP_STATUS_SUCCESS, s) }
      else Some (LLCP_STATUS_FAIL, s))"

definition llcp_link_process_link_timeout :: "llcp_env \<Rightarrow> llcp_cb \<Rightarrow> llcp_cb option" where
  "llcp_link_process_link_timeout E s = (case link_state (lcb s) of
     LLCP_LINK_STATE_ACTIVATED \<Rightarrow>
       if symm_delay (lcb s) > 0 \<and> symm_state (lcb s) = LLCP_LINK_SYMM_LOCAL_XMIT_NEXT then
         let s = llcp_link_start_link_timer (llcp_link_send_SYMM s) in
         Some (if num_data_link_connection s = 0 then llcp_link_start_inactivity_timer s else s)
       else llcp_link_deactivate E LLCP_LINK_TIMEOUT s
   | LLCP_LINK_STATE_DEACTIVATING \<Rightarrow> do {
       s \<leftarrow> llcp_deactivate_cleanup E (link_deact_reason (lcb s)) s;
       Some (s\<lparr>static_rf_cback := False\<rparr>) }
   | _ \<Rightarrow> Some s)"

text \<open>\<open>llcp_process_timeout\<close> by the event of the timer; the data link timer carries its connection.\<close>

datatype llcp_timer = Link_manager | Link_inact | Data_link nat | Delay_first_pdu

definition llcp_process_timeout :: "llcp_env \<Rightarrow> llcp_timer \<Rightarrow> llcp_cb \<Rightarrow> llcp_cb option" where
  "llcp_process_timeout E t s = (case t of
     Link_manager \<Rightarrow> llcp_link_process_link_timeout E s
   | Link_inact \<Rightarrow> llcp_link_deactivate E LLCP_LINK_LOCAL_INITIATED s
   | Data_link i \<Rightarrow> dlsm E i (LLCP_DLC_EVENT_TIMEOUT 0x80) s
   | Delay_first_pdu \<Rightarrow> check_send_data E s)"

definition cleanup_sap :: "byte \<Rightarrow> llcp_cb \<Rightarrow> llcp_cb option" where
  "cleanup_sap sap s = (case registered sap s of
     Some _ \<Rightarrow> map_option snd (LLCP_Deregister sap s) | None \<Rightarrow> Some s)"

definition llcp_cleanup :: "llcp_cb \<Rightarrow> llcp_cb option" where
  "llcp_cleanup s = do {
     s \<leftarrow> run_loop cleanup_sap (LLCP_SAP_SDP # saps) s;
     Some (upd_lcb (\<lambda>l. l\<lparr>inact_timer := None, lcb_timer := None\<rparr>) s) }"

end
