(* ===== verification/Llcp_Coding.thy ===== *)
theory Llcp_Coding
  imports Llcp_Activate
begin

text \<open>The encodings of LLCP: PDU headers, sequence bytes.\<close>

declare be16_word_bytes [simp] be16_bytes_word [simp] length_be16_bytes [simp] rd_be16_bytes [simp]

section \<open>PDU headers and sequence bytes\<close>

lemma small_byte_bits:
  assumes "take_bit k (b :: byte) = b" and "k \<le> n" shows "\<not> bit b n"
  using assms by (metis bit_take_bit_iff not_le)

lemma byte_index: "n < LENGTH(8) \<Longrightarrow> n \<in> {0, 1, 2, 3, 4, 5, 6, 7 :: nat}"
  by auto

lemma header_fields:
  assumes d: "take_bit 6 dsap = dsap" and p: "take_bit 4 ptype = ptype" and s: "take_bit 6 ssap = ssap"
  shows "LLCP_GET_DSAP (LLCP_GET_PDU_HEADER dsap ptype ssap) = dsap"
    and "LLCP_GET_PTYPE (LLCP_GET_PDU_HEADER dsap ptype ssap) = ptype"
    and "LLCP_GET_SSAP (LLCP_GET_PDU_HEADER dsap ptype ssap) = ssap"
proof -
  note b = small_byte_bits [OF d] small_byte_bits [OF p] small_byte_bits [OF s]
  show "LLCP_GET_DSAP (LLCP_GET_PDU_HEADER dsap ptype ssap) = dsap"
    by (rule bit_word_eqI, drule byte_index)
       (auto simp: LLCP_GET_DSAP_def LLCP_GET_PDU_HEADER_def bit_simps b)
  show "LLCP_GET_PTYPE (LLCP_GET_PDU_HEADER dsap ptype ssap) = ptype"
    by (rule bit_word_eqI, drule byte_index)
       (auto simp: LLCP_GET_PTYPE_def LLCP_GET_PDU_HEADER_def bit_simps b)
  show "LLCP_GET_SSAP (LLCP_GET_PDU_HEADER dsap ptype ssap) = ssap"
    by (rule bit_word_eqI, drule byte_index)
       (auto simp: LLCP_GET_SSAP_def LLCP_GET_PDU_HEADER_def bit_simps b)
qed

lemma sequence_fields:
  assumes s: "take_bit 4 ns = ns" and r: "take_bit 4 nr = nr"
  shows "LLCP_GET_NS (LLCP_GET_SEQUENCE ns nr) = ns" "LLCP_GET_NR (LLCP_GET_SEQUENCE ns nr) = nr"
proof -
  note b = small_byte_bits [OF s] small_byte_bits [OF r]
  show "LLCP_GET_NS (LLCP_GET_SEQUENCE ns nr) = ns"
    by (rule bit_word_eqI, drule byte_index)
       (auto simp: LLCP_GET_NS_def LLCP_GET_SEQUENCE_def bit_simps b)
  show "LLCP_GET_NR (LLCP_GET_SEQUENCE ns nr) = nr"
    by (rule bit_word_eqI, drule byte_index)
       (auto simp: LLCP_GET_NR_def LLCP_GET_SEQUENCE_def bit_simps b)
qed

lemma small_byte_iff: "take_bit k (b :: byte) = b \<longleftrightarrow> unat b < 2 ^ k"
  by (metis (no_types) take_bit_nat_eq_self_iff unsigned_take_bit_eq word_unat_eq_iff)

section \<open>Bytes at a place of a memory\<close>

definition at :: "mem \<Rightarrow> nat \<Rightarrow> byte list \<Rightarrow> bool" where
  "at m p bs \<longleftrightarrow> p + length bs \<le> length m \<and> take (length bs) (drop p m) = bs"

lemma at_append: "at m p (xs @ ys) \<longleftrightarrow> at m p xs \<and> at m (p + length xs) ys"
proof
  assume a: "at m p (xs @ ys)"
  then have t: "take (length xs + length ys) (drop p m) = xs @ ys" and l: "p + length xs + length ys \<le> length m"
    by (simp_all add: at_def)
  have "take (length xs) (drop p m) = take (length xs) (take (length xs + length ys) (drop p m))" by simp
  moreover have "take (length ys) (drop (p + length xs) m)
      = drop (length xs) (take (length xs + length ys) (drop p m))"
    by (simp add: drop_take add.commute)
  ultimately show "at m p xs \<and> at m (p + length xs) ys" using l by (simp add: at_def t)
next
  assume a: "at m p xs \<and> at m (p + length xs) ys"
  then have "take (length xs + length ys) (drop p m) = xs @ ys"
    by (simp add: at_def take_add add.commute)
  then show "at m p (xs @ ys)" using a by (simp add: at_def)
qed

lemma at_Cons: "at m p (x # xs) \<longleftrightarrow> rd m p = Some x \<and> at m (p + 1) xs"
proof -
  have "at m p [x] \<longleftrightarrow> rd m p = Some x"
  proof (cases "p < length m")
    case True
    then have "take 1 (drop p m) = [m ! p]" by (simp add: take_Suc_conv_app_nth)
    then show ?thesis using True by (simp add: at_def)
  qed (simp add: at_def rd_def)
  then show ?thesis using at_append [of m p "[x]" xs] by simp
qed

lemma at_be16: "at m p (be16_bytes x) \<Longrightarrow> rd_be16 m p = Some x"
  by (simp add: be16_bytes_def at_Cons rd_be16_def)

lemma at_rd_bytes: "at m p bs \<Longrightarrow> n = length bs \<Longrightarrow> rd_bytes m p n = Some bs"
  by (simp add: at_def rd_bytes_def)

lemma at_whole: "at (A @ bs @ C) (length A) bs"
  by (simp add: at_def)

end
