(* ===== verification/Llcp_Link_Params.thy ===== *)
theory Llcp_Link_Params
  imports Llcp_Coding
begin

text \<open>
  What the parsers of the parameter lists make of the lists the encoders write: single steps of the
  common loop, then CONNECT, CC and the general bytes.
\<close>

section \<open>Steps of the loop\<close>

lemma ltv_end: "ltv_loop sw m 0 p a = Some (True, a)"
  by (simp add: ltv_loop.simps)

lemma ltv_step:
  assumes "rd m p = Some ty" and "sw ty (p + 1) a = Some (k, q, a')" and "n = 2 + unat k + l"
  shows "ltv_loop sw m n p a = ltv_loop sw m l q a'"
  by (subst ltv_loop.simps) (simp add: assms(1) assms(2) [simplified] assms(3))

lemma connect_steps:
  "at m p [LLCP_MIUX_TYPE, LLCP_MIUX_LEN, a, b] \<Longrightarrow>
     connect_param m LLCP_MIUX_TYPE (p + 1) c
       = Some (2, p + 4, c\<lparr>miu := (be16_word a b AND LLCP_MIUX_MASK) + LLCP_DEFAULT_MIU\<rparr>)"
  "at m p [LLCP_RW_TYPE, LLCP_RW_LEN, x] \<Longrightarrow>
     connect_param m LLCP_RW_TYPE (p + 1) c = Some (1, p + 3, c\<lparr>rw := x AND 0x0F\<rparr>)"
  by (simp_all add: connect_param_def at_Cons rd_be16_def)

lemma cc_steps:
  "at m p [LLCP_MIUX_TYPE, LLCP_MIUX_LEN, a, b] \<Longrightarrow>
     cc_param m LLCP_MIUX_TYPE (p + 1) c
       = Some (2, p + 4, c\<lparr>miu := (be16_word a b AND LLCP_MIUX_MASK) + LLCP_DEFAULT_MIU\<rparr>)"
  "at m p [LLCP_RW_TYPE, LLCP_RW_LEN, x] \<Longrightarrow>
     cc_param m LLCP_RW_TYPE (p + 1) c = Some (1, p + 3, c\<lparr>rw := x AND 0x0F\<rparr>)"
  by (simp_all add: cc_param_def at_Cons rd_be16_def)

lemma connect_sn_step:
  assumes m: "at m p (LLCP_SN_TYPE # of_nat (length name) # name)" and l: "0 < length name" "length name \<le> 255"
  shows "connect_param m LLCP_SN_TYPE (p + 1) c
    = Some (of_nat (length name), p + 2 + length name, c\<lparr>sn := put_sn name (sn c)\<rparr>)"
proof -
  have u: "unat (of_nat (length name) :: byte) = length name" using l by (simp add: unat_of_nat)
  have z: "(of_nat (length name) :: byte) \<noteq> 0" using l u by (metis not_less_zero unsigned_0)
  have n: "at m (p + 2) name" using m by (simp add: at_Cons)
  show ?thesis
    using m l z by (simp add: connect_param_def at_Cons u LLCP_MAX_SN_LEN_def at_rd_bytes [OF n, simplified])
qed

section \<open>The values\<close>

definition miu_ok :: "conn_params \<Rightarrow> bool" where
  "miu_ok c \<longleftrightarrow> LLCP_DEFAULT_MIU \<le> miu c \<and> miu c \<le> LLCP_MAX_MIU"

lemma miux_round:
  assumes "(128 :: u16) \<le> x" "x \<le> 2175"
  shows "((x - 128) AND 0x07FF) + 128 = x"
proof -
  have x: "128 \<le> unat x" "unat x \<le> 2175" using assms by (simp_all add: word_le_nat_alt)
  have s: "unat (x - 128) = unat x - 128" using assms by (simp add: unat_sub)
  have "(x - 128) AND 0x07FF = take_bit 11 (x - 128)"
    by (simp add: take_bit_eq_mask mask_eq_exp_minus_1)
  also have "\<dots> = x - 128"
    using x by (simp add: word_unat_eq_iff unsigned_take_bit_eq take_bit_eq_mod unat_mod_distrib s)
  finally show ?thesis by simp
qed

lemma mask_rw_idem: "rw (mask_rw c) AND 0x0F = rw (mask_rw c)"
  by (simp add: mask_rw_def and.assoc)

lemma strlen_le [simp]: "strlen s \<le> length s"
  by (simp add: strlen_def length_takeWhile_le)

lemma strlen_put_sn: "strlen (put_sn (take (strlen s) s) arr) = strlen s"
proof -
  have a: "\<forall>b \<in> set (take (strlen s) s). b \<noteq> 0"
    unfolding strlen_def by (metis set_takeWhileD takeWhile_eq_take)
  have "takeWhile (\<lambda>b. b \<noteq> 0) (take (strlen s) s @ 0 # drop n arr) = take (strlen s) s" for n
    using a by (simp add: takeWhile_tail)
  then show ?thesis
    unfolding strlen_def [of "put_sn _ _"] by (simp add: put_sn_def strlen_def takeWhile_eq_take [symmetric])
qed

section \<open>CONNECT and CC\<close>

text \<open>The part of the loop that reads MIU and RW, for a switch that treats them as the two parsers do.\<close>

definition reads_params :: "(byte \<Rightarrow> nat \<Rightarrow> conn_params \<Rightarrow> (byte \<times> nat \<times> conn_params) option) \<Rightarrow> mem \<Rightarrow> bool" where
  "reads_params sw m \<longleftrightarrow>
     (\<forall>p a b c. at m p [LLCP_MIUX_TYPE, LLCP_MIUX_LEN, a, b] \<longrightarrow> sw LLCP_MIUX_TYPE (p + 1) c
        = Some (2, p + 4, c\<lparr>miu := (be16_word a b AND LLCP_MIUX_MASK) + LLCP_DEFAULT_MIU\<rparr>))
     \<and> (\<forall>p x c. at m p [LLCP_RW_TYPE, LLCP_RW_LEN, x] \<longrightarrow> sw LLCP_RW_TYPE (p + 1) c
        = Some (1, p + 3, c\<lparr>rw := x AND 0x0F\<rparr>))"

lemma reads_params_both: "reads_params (connect_param m) m" "reads_params (cc_param m) m"
  unfolding reads_params_def using connect_steps cc_steps by blast+

lemma loop_miu:
  assumes sw: "reads_params sw m" and m: "at m p (miu_bytes c)" and c: "miu_ok c"
    and d: "miu d = LLCP_DEFAULT_MIU" and n: "n = length (miu_bytes c) + l"
  shows "ltv_loop sw m n p d = ltv_loop sw m l (p + length (miu_bytes c)) (d\<lparr>miu := miu c\<rparr>)"
proof (cases "miu c = LLCP_DEFAULT_MIU")
  case True
  then have "d\<lparr>miu := miu c\<rparr> = d" using d by simp
  then show ?thesis using True n by (simp add: miu_bytes_def)
next
  case False
  let ?v = "miu c - LLCP_DEFAULT_MIU"
  have m': "at m p [LLCP_MIUX_TYPE, LLCP_MIUX_LEN, ucast (drop_bit 8 ?v), ucast ?v]"
    using m False by (simp add: miu_bytes_def be16_bytes_def)
  have v: "(?v AND LLCP_MIUX_MASK) + LLCP_DEFAULT_MIU = miu c"
    using c by (intro miux_round) (simp_all add: miu_ok_def LLCP_MAX_MIU_def)
  have st: "sw LLCP_MIUX_TYPE (p + 1) d = Some (2, p + 4, d\<lparr>miu := miu c\<rparr>)"
    using sw m' unfolding reads_params_def by (auto simp: v)
  have r: "rd m p = Some LLCP_MIUX_TYPE" using m' by (simp add: at_Cons)
  show ?thesis
    using ltv_step [where sw = sw, OF r st, of n l] False n by (simp add: miu_bytes_def)
qed

lemma loop_rw:
  assumes sw: "reads_params sw m" and m: "at m p (rw_bytes c)"
    and d: "rw d = LLCP_DEFAULT_RW" and n: "n = length (rw_bytes c) + l"
  shows "ltv_loop sw m n p d = ltv_loop sw m l (p + length (rw_bytes c)) (d\<lparr>rw := rw (mask_rw c)\<rparr>)"
proof (cases "rw c = LLCP_DEFAULT_RW")
  case True
  then have "d\<lparr>rw := rw (mask_rw c)\<rparr> = d" using d by (simp add: mask_rw_def)
  then show ?thesis using True n by (simp add: rw_bytes_def)
next
  case False
  have m': "at m p [LLCP_RW_TYPE, LLCP_RW_LEN, rw (mask_rw c)]" using m False by (simp add: rw_bytes_def)
  have st: "sw LLCP_RW_TYPE (p + 1) d = Some (1, p + 3, d\<lparr>rw := rw (mask_rw c)\<rparr>)"
    using sw m' unfolding reads_params_def by (auto simp: mask_rw_idem)
  have r: "rd m p = Some LLCP_RW_TYPE" using m' by (simp add: at_Cons)
  show ?thesis using ltv_step [where sw = sw, OF r st, of n l] False n by (simp add: rw_bytes_def numeral_3_eq_3)
qed

text \<open>The parameters a peer reads from a CONNECT or CC PDU with parameters \<open>c\<close>.\<close>

definition peer_reads :: "conn_params \<Rightarrow> byte list \<Rightarrow> conn_params" where
  "peer_reads c arr = \<lparr>miu = miu c, rw = rw (mask_rw c), sn = arr\<rparr>"

lemma parse_cc_built:
  assumes c: "miu_ok c" and m: "at m p (miu_bytes c @ rw_bytes c)"
  shows "llcp_util_parse_cc m p (of_nat (length (miu_bytes c @ rw_bytes c))) init
    = Some (LLCP_STATUS_SUCCESS, peer_reads c (sn init))"
proof -
  let ?d = "init\<lparr>miu := LLCP_DEFAULT_MIU, rw := LLCP_DEFAULT_RW\<rparr>"
  let ?n = "length (miu_bytes c) + length (rw_bytes c)"
  have m1: "at m p (miu_bytes c)" and m2: "at m (p + length (miu_bytes c)) (rw_bytes c)"
    using m by (simp_all add: at_append)
  have l: "unat (of_nat ?n :: u16) = ?n"
    by (simp add: unat_of_nat miu_bytes_def rw_bytes_def)
  have "ltv_loop (cc_param m) m ?n p ?d
      = ltv_loop (cc_param m) m (length (rw_bytes c)) (p + length (miu_bytes c)) (?d\<lparr>miu := miu c\<rparr>)"
    by (rule loop_miu [OF reads_params_both(2) m1 c]) simp_all
  also have "\<dots> = Some (True, (?d\<lparr>miu := miu c\<rparr>)\<lparr>rw := rw (mask_rw c)\<rparr>)"
    by (subst loop_rw [OF reads_params_both(2) m2, of _ _ 0]) (simp_all add: ltv_end)
  finally show ?thesis
    using l by (simp add: llcp_util_parse_cc_def peer_reads_def)
qed

lemma loop_sn:
  assumes m: "at m p (sn_bytes remote c)" and l: "strlen (sn c) \<le> 255"
    and n: "n = length (sn_bytes remote c)"
  shows "ltv_loop (connect_param m) m n p d
    = Some (True, if strlen (sn c) \<noteq> 0 \<and> remote = LLCP_SAP_SDP
                  then d\<lparr>sn := put_sn (take (strlen (sn c)) (sn c)) (sn d)\<rparr> else d)"
proof (cases "strlen (sn c) \<noteq> 0 \<and> remote = LLCP_SAP_SDP")
  case False
  then show ?thesis using n by (auto simp: sn_bytes_def ltv_end)
next
  case True
  let ?name = "take (strlen (sn c)) (sn c)"
  have k: "length ?name = strlen (sn c)" by simp
  have m': "at m p (LLCP_SN_TYPE # of_nat (length ?name) # ?name)"
    using m True by (simp add: sn_bytes_def k)
  have st: "connect_param m LLCP_SN_TYPE (p + 1) d
      = Some (of_nat (length ?name), p + 2 + length ?name, d\<lparr>sn := put_sn ?name (sn d)\<rparr>)"
    using True l by (intro connect_sn_step [OF m']) (simp_all only: k, simp_all)
  have r: "rd m p = Some LLCP_SN_TYPE" using m' by (simp add: at_Cons)
  have u: "unat (of_nat (length ?name) :: byte) = length ?name" using l by (simp only: k) (simp add: unat_of_nat)
  have n': "n = 2 + unat (of_nat (length ?name) :: byte) + 0"
    using True n by (simp only: u) (simp add: sn_bytes_def)
  show ?thesis
    using ltv_step [where sw = "connect_param m", OF r st n'] True by (simp add: ltv_end)
qed

text \<open>The service name a peer reads: the name sent to the discovery service, else the empty name.\<close>

definition peer_sn :: "byte \<Rightarrow> conn_params \<Rightarrow> byte list \<Rightarrow> byte list" where
  "peer_sn remote c arr =
     (if strlen (sn c) \<noteq> 0 \<and> remote = LLCP_SAP_SDP
      then put_sn (take (strlen (sn c)) (sn c)) (arr[0 := 0, 1 := 0]) else arr[0 := 0, 1 := 0])"

lemma length_params:
  "length (miu_bytes c) \<le> 4" "length (rw_bytes c) \<le> 3"
  "strlen (sn c) \<le> 255 \<Longrightarrow> length (sn_bytes remote c) \<le> 257"
  by (simp_all add: miu_bytes_def rw_bytes_def sn_bytes_def)

lemma parse_connect_built:
  assumes c: "miu_ok c" and l: "strlen (sn c) \<le> 255"
    and m: "at m p (miu_bytes c @ rw_bytes c @ sn_bytes remote c)"
  shows "llcp_util_parse_connect m p (of_nat (length (miu_bytes c @ rw_bytes c @ sn_bytes remote c))) init
    = Some (LLCP_STATUS_SUCCESS, peer_reads c (peer_sn remote c (sn init)))"
proof -
  let ?d = "init\<lparr>miu := LLCP_DEFAULT_MIU, rw := LLCP_DEFAULT_RW, sn := (sn init)[0 := 0, 1 := 0]\<rparr>"
  let ?n = "length (miu_bytes c) + (length (rw_bytes c) + length (sn_bytes remote c))"
  have m1: "at m p (miu_bytes c)" and m2: "at m (p + length (miu_bytes c)) (rw_bytes c)"
    and m3: "at m (p + length (miu_bytes c) + length (rw_bytes c)) (sn_bytes remote c)"
    using m by (simp_all add: at_append)
  have u: "unat (of_nat ?n :: u16) = ?n"
  proof -
    have "?n < 65536" using length_params(1,2) [of c] length_params(3) [OF l, of remote] by linarith
    then show ?thesis by (simp only: unat_of_nat) simp
  qed
  have "ltv_loop (connect_param m) m ?n p ?d
      = ltv_loop (connect_param m) m (length (rw_bytes c) + length (sn_bytes remote c))
          (p + length (miu_bytes c)) (?d\<lparr>miu := miu c\<rparr>)"
    by (rule loop_miu [OF reads_params_both(1) m1 c]) simp_all
  also have "\<dots> = ltv_loop (connect_param m) m (length (sn_bytes remote c))
      (p + length (miu_bytes c) + length (rw_bytes c)) (?d\<lparr>miu := miu c, rw := rw (mask_rw c)\<rparr>)"
    by (rule trans [OF loop_rw [OF reads_params_both(1) m2]]) simp_all
  also have "\<dots> = Some (True, ?d\<lparr>miu := miu c, rw := rw (mask_rw c), sn := peer_sn remote c (sn init)\<rparr>)"
    by (subst loop_sn [OF m3 l refl]) (simp add: peer_sn_def)
  finally show ?thesis
    using u by (simp add: llcp_util_parse_connect_def peer_reads_def)
qed

section \<open>General bytes\<close>

lemma link_steps:
  "at m p [LLCP_VERSION_TYPE, 1, v] \<Longrightarrow>
     link_param m LLCP_VERSION_TYPE (p + 1) l = Some (1, p + 3, l\<lparr>peer_version := v\<rparr>)"
  "at m p ([LLCP_MIUX_TYPE, LLCP_MIUX_LEN] @ be16_bytes x) \<Longrightarrow>
     link_param m LLCP_MIUX_TYPE (p + 1) l
       = Some (2, p + 4, l\<lparr>peer_miu := (x AND LLCP_MIUX_MASK) + LLCP_DEFAULT_MIU\<rparr>)"
  "at m p ([LLCP_WKS_TYPE, 2] @ be16_bytes x) \<Longrightarrow>
     link_param m LLCP_WKS_TYPE (p + 1) l = Some (2, p + 4, l\<lparr>peer_wks := x\<rparr>)"
  "at m p [LLCP_LTO_TYPE, 1, v] \<Longrightarrow>
     link_param m LLCP_LTO_TYPE (p + 1) l = Some (1, p + 3, l\<lparr>peer_lto := ucast v * LLCP_LTO_UNIT\<rparr>)"
  "at m p [LLCP_OPT_TYPE, 1, v] \<Longrightarrow>
     link_param m LLCP_OPT_TYPE (p + 1) l = Some (1, p + 3, l\<lparr>peer_opt := v\<rparr>)"
  by (auto simp: link_param_def at_Cons at_append dest!: at_be16)

text \<open>What a peer learns from the general bytes of a device configured as in \<open>l\<close>.\<close>

definition learns :: "lcb \<Rightarrow> lcb \<Rightarrow> lcb" where
  "learns l t = t\<lparr>peer_version := push_bit 4 LLCP_VERSION_MAJOR OR LLCP_VERSION_MINOR,
     peer_miu := local_link_miu l, peer_wks := wks l,
     peer_lto := ucast (ucast (local_lto l div LLCP_LTO_UNIT) :: byte) * LLCP_LTO_UNIT, peer_opt := local_opt l\<rparr>"

definition gen_params :: "lcb \<Rightarrow> byte list" where
  "gen_params l =
     [LLCP_VERSION_TYPE, 1, push_bit 4 LLCP_VERSION_MAJOR OR LLCP_VERSION_MINOR]
     @ ([LLCP_MIUX_TYPE, LLCP_MIUX_LEN] @ be16_bytes (local_link_miu l - LLCP_DEFAULT_MIU))
     @ ([LLCP_WKS_TYPE, 2] @ be16_bytes (wks l))
     @ [LLCP_LTO_TYPE, 1, ucast (local_lto l div LLCP_LTO_UNIT)]
     @ [LLCP_OPT_TYPE, 1, local_opt l]"

lemma GetDiscoveryConfig_eq:
  "LLCP_MIN_GEN_BYTES \<le> n \<Longrightarrow> LLCP_GetDiscoveryConfig n s = magic @ gen_params (lcb s)"
  by (simp add: LLCP_GetDiscoveryConfig_def gen_params_def Let_def not_less [symmetric])

lemma loop_gen_params:
  assumes m: "at m p (gen_params l)"
    and miu: "LLCP_DEFAULT_MIU \<le> local_link_miu l" "local_link_miu l \<le> LLCP_MAX_MIU"
  shows "ltv_loop (link_param m) m 17 p t = Some (True, learns l t)"
proof -
  let ?ver = "[LLCP_VERSION_TYPE, 1, push_bit 4 LLCP_VERSION_MAJOR OR LLCP_VERSION_MINOR]"
  have v: "(local_link_miu l - LLCP_DEFAULT_MIU AND LLCP_MIUX_MASK) + LLCP_DEFAULT_MIU = local_link_miu l"
    using miu by (intro miux_round) (simp_all add: LLCP_MAX_MIU_def)
  have m1: "at m p ?ver"
    and m2: "at m (p + 3) ([LLCP_MIUX_TYPE, LLCP_MIUX_LEN] @ be16_bytes (local_link_miu l - LLCP_DEFAULT_MIU))"
    and m3: "at m (p + 7) ([LLCP_WKS_TYPE, 2] @ be16_bytes (wks l))"
    and m4: "at m (p + 11) [LLCP_LTO_TYPE, 1, ucast (local_lto l div LLCP_LTO_UNIT)]"
    and m5: "at m (p + 14) [LLCP_OPT_TYPE, 1, local_opt l]"
    using m unfolding gen_params_def
    by (auto simp: at_append at_Cons eval_nat_numeral at_def [of _ _ "[]"] be16_bytes_def rd_Some_iff)
  have r: "rd m p = Some LLCP_VERSION_TYPE" "rd m (p + 3) = Some LLCP_MIUX_TYPE"
    "rd m (p + 7) = Some LLCP_WKS_TYPE" "rd m (p + 11) = Some LLCP_LTO_TYPE" "rd m (p + 14) = Some LLCP_OPT_TYPE"
    using m1 m2 m3 m4 m5 by (simp_all add: at_Cons)
  note st = ltv_step [where sw = "link_param m"]
  show ?thesis
    using st [OF r(1) link_steps(1) [OF m1], of 17 14] st [OF r(2) link_steps(2) [OF m2], of 14 10]
      st [OF r(3) link_steps(3) [OF m3], of 10 6] st [OF r(4) link_steps(4) [OF m4], of 6 3]
      st [OF r(5) link_steps(5) [OF m5], of 3 0]
    by (simp add: ltv_end learns_def v add.assoc)
qed

lemma gen_bytes_learnt:
  assumes n: "LLCP_MIN_GEN_BYTES \<le> n"
    and miu: "LLCP_DEFAULT_MIU \<le> local_link_miu (lcb s)" "local_link_miu (lcb s) \<le> LLCP_MAX_MIU"
  shows "llcp_link_parse_gen_bytes 20 (LLCP_GetDiscoveryConfig n s) t
    = Some (True, upd_lcb (learns (lcb s)) t)"
proof -
  have a: "at (magic @ gen_params (lcb s)) 3 (gen_params (lcb s))"
    by (simp add: at_def magic_def)
  have e: "learns l (x\<lparr>peer_miu := a, peer_lto := b\<rparr>) = learns l x" for l x a b
    by (simp add: learns_def)
  show ?thesis
    using loop_gen_params [OF a miu]
    by (simp add: llcp_link_parse_gen_bytes_def GetDiscoveryConfig_eq [OF n] magic_def rd_bytes_def
        llcp_util_parse_link_params_def upd_lcb_def e gen_params_def)
qed

end
