(* ===== verification/Llcp_Recv.thy ===== *)
theory Llcp_Recv
  imports Llcp_Activate
begin

text \<open>
  The receiving side of \<open>llcp_link.c\<close>: UI PDUs, AGF PDUs, the dispatch by PDU type, the symmetry
  procedure, and the events of the lower layer. \<open>params\<close> is the local variable in which
  \<open>llcp_dlc_proc_connect_pdu\<close> and \<open>llcp_dlc_proc_cc_pdu\<close> collect the connection parameters: its
  initial content is arbitrary.
\<close>

section \<open>UI PDUs\<close>

text \<open>
  The receive queue after a UI PDU: appended to the last buffer, in its own buffer with the length in
  front (in the room of the NCI header), or in a fresh one. The flag says whether it was appended.
\<close>

definition store_ui_pdu ::
    "app_ref \<Rightarrow> u16 \<Rightarrow> byte list \<Rightarrow> bt_hdr option \<Rightarrow> llcp_cb \<Rightarrow> (bool \<times> llcp_cb) option" where
  "store_ui_pdu r n pdu p_msg s = do {
     appended \<leftarrow> append_last n pdu (ui_rx_q (app_at r s));
     case appended of
       Some q \<Rightarrow> Some (True, upd_app r (\<lambda>a. a\<lparr>ui_rx_q := q\<rparr>) s)
     | None \<Rightarrow> do {
         (b, s) \<leftarrow> (case p_msg of
            Some b \<Rightarrow> Some (Some ((push_hdr (be16_bytes n) b)\<lparr>layer_specific := 0\<rparr>), s)
          | None \<Rightarrow>
              (let (got, s) = GKI_getpoolbuf_llcp s in
               if got then do {
                 b \<leftarrow> append_bytes (be16_bytes n @ pdu) ((new_pdu [])\<lparr>offset := 0\<rparr>);
                 Some (Some b, s) }
               else Some (None, s)));
         Some (False, case b of
             None \<Rightarrow> s
           | Some b \<Rightarrow> (upd_app r (\<lambda>a. a\<lparr>ui_rx_q := ui_rx_q a @ [b]\<rparr>) s)
                         \<lparr>total_rx_ui_pdu := total_rx_ui_pdu s + 1\<rparr>) } }"

definition llcp_link_proc_ui_pdu ::
    "llcp_env \<Rightarrow> byte \<Rightarrow> byte \<Rightarrow> u16 \<Rightarrow> mem \<Rightarrow> nat \<Rightarrow> bt_hdr option \<Rightarrow> llcp_cb \<Rightarrow> llcp_cb option" where
  "llcp_link_proc_ui_pdu E local remote ui_pdu_length m p p_msg s =
     (case llcp_dlc_find_dlcb_by_sap local remote s of
        Some i \<Rightarrow> reject_frame E i LLCP_FRMR_W_ERROR_FLAG LLCP_PDU_UI_TYPE 0 s
      | None \<Rightarrow>
          (case logical_app local s of
             None \<Rightarrow> Some s
           | Some r \<Rightarrow> do {
               let (n, m, p) = (case p_msg of Some b \<Rightarrow> (blen b, body b, 0) | None \<Rightarrow> (ui_pdu_length, m, p));
               pdu \<leftarrow> rd_bytes m p (unat n);
               (appended, s) \<leftarrow> store_ui_pdu r n pdu p_msg s;
               let s = (if unat (ll_rx_congest_start s) < length (ui_rx_q (app_at r s))
                        then (upd_app r (\<lambda>a. a\<lparr>ui_rx_q := tl (ui_rx_q a)\<rparr>) s)
                               \<lparr>total_rx_ui_pdu := total_rx_ui_pdu s - 1\<rparr>
                        else s);
               if length (ui_rx_q (app_at r s)) = 1 \<and> \<not> appended
               then app_cback E (Some r) (LLCP_SAP_EVT_DATA_IND local remote LLCP_LINK_TYPE_LOGICAL_DATA_LINK) s
               else Some s }))"

section \<open>AGF PDUs\<close>

text \<open>
  The first pass over the lengths. \<open>n\<close> is what is left of the PDU; the result is what is left when
  the loop ends, zero for a well-formed PDU.
\<close>

function agf_check :: "mem \<Rightarrow> nat \<Rightarrow> nat \<Rightarrow> nat option" where
  "agf_check m n p =
     (if n \<le> LLCP_PDU_AGF_LEN_SIZE then Some n
      else case rd_be16 m p of
        None \<Rightarrow> None
      | Some k \<Rightarrow>
          if unat k \<le> n - 2 then agf_check m (n - 2 - unat k) (p + 2 + unat k)
          else Some (n - 2))"
  by pat_completeness auto
termination by (relation "measure (\<lambda>(_, n, _). n)") (auto simp: LLCP_PDU_AGF_LEN_SIZE_def)

declare agf_check.simps [simp del]

text \<open>One PDU of an AGF PDU, at \<open>p\<close> with \<open>pdu_length\<close> bytes; \<open>Inr\<close> when the link was deactivated.\<close>

definition agf_pdu ::
    "llcp_env \<Rightarrow> conn_params \<Rightarrow> mem \<Rightarrow> nat \<Rightarrow> u16 \<Rightarrow> llcp_cb \<Rightarrow> (llcp_cb + llcp_cb) option" where
  "agf_pdu E params m p pdu_length s = do {
     pdu_hdr \<leftarrow> rd_be16 m p;
     let dsap = LLCP_GET_DSAP pdu_hdr;
     let ptype = LLCP_GET_PTYPE pdu_hdr;
     let ssap = LLCP_GET_SSAP pdu_hdr;
     if ptype = LLCP_PDU_DISC_TYPE \<and> dsap = LLCP_SAP_LM \<and> ssap = LLCP_SAP_LM
     then map_option Inr (llcp_link_deactivate E LLCP_LINK_REMOTE_INITIATED s)
     else map_option Inl
       (if ptype = LLCP_PDU_SYMM_TYPE \<or> ptype = LLCP_PDU_PAX_TYPE then Some s
        else if ptype = LLCP_PDU_SNL_TYPE
        then map_option snd (llcp_sdp_proc_snl E (pdu_length - of_nat LLCP_PDU_HEADER_SIZE) m (p + 2) s)
        else if ptype = LLCP_PDU_UI_TYPE \<and> unat pdu_length > LLCP_PDU_HEADER_SIZE
        then llcp_link_proc_ui_pdu E dsap ssap pdu_length m p None s
        else if ptype = LLCP_PDU_I_TYPE then llcp_dlc_proc_i_pdu E dsap ssap pdu_length m p None s
        else llcp_dlc_proc_rx_pdu E dsap ptype ssap (pdu_length - of_nat LLCP_PDU_HEADER_SIZE) m (p + 2) params s) }"

text \<open>
  The second pass, over \<open>n\<close> bytes left. Its length arithmetic relies on the first pass; a length
  beyond what is left would wrap around and is \<open>None\<close>.
\<close>

function agf_process ::
    "llcp_env \<Rightarrow> conn_params \<Rightarrow> mem \<Rightarrow> nat \<Rightarrow> nat \<Rightarrow> llcp_cb \<Rightarrow> llcp_cb option" where
  "agf_process E params m n p s =
     (if n = 0 then Some s
      else case rd_be16 m p of
        None \<Rightarrow> None
      | Some k \<Rightarrow>
          if n < 2 + unat k then None
          else case agf_pdu E params m (p + 2) k s of
            None \<Rightarrow> None
          | Some (Inr s) \<Rightarrow> Some s
          | Some (Inl s) \<Rightarrow> agf_process E params m (n - 2 - unat k) (p + 2 + unat k) s)"
  by pat_completeness auto
termination by (relation "measure (\<lambda>(_, _, _, n, _, _). n)") auto

declare agf_process.simps [simp del]

definition llcp_link_proc_agf_pdu :: "llcp_env \<Rightarrow> conn_params \<Rightarrow> bt_hdr \<Rightarrow> llcp_cb \<Rightarrow> llcp_cb option" where
  "llcp_link_proc_agf_pdu E params b s = do {
     let m = drop LLCP_PDU_HEADER_SIZE (body b);
     rest \<leftarrow> agf_check m (length m) 0;
     if rest \<noteq> 0 then Some s else agf_process E params m (length m) 0 s }"

section \<open>Dispatch\<close>

definition llcp_link_proc_rx_pdu ::
    "llcp_env \<Rightarrow> conn_params \<Rightarrow> byte \<Rightarrow> byte \<Rightarrow> byte \<Rightarrow> bt_hdr \<Rightarrow> llcp_cb \<Rightarrow> llcp_cb option" where
  "llcp_link_proc_rx_pdu E params dsap ptype ssap b s =
     (let n = blen b - of_nat LLCP_PDU_HEADER_SIZE in
      if ptype = LLCP_PDU_PAX_TYPE then Some s
      else if ptype = LLCP_PDU_DISC_TYPE then
        if dsap = LLCP_SAP_LM \<and> ssap = LLCP_SAP_LM then llcp_link_deactivate E LLCP_LINK_REMOTE_INITIATED s
        else llcp_dlc_proc_rx_pdu E dsap ptype ssap n (body b) 2 params s
      else if ptype = LLCP_PDU_SNL_TYPE then map_option snd (llcp_sdp_proc_snl E n (body b) 2 s)
      else if ptype = LLCP_PDU_AGF_TYPE then llcp_link_proc_agf_pdu E params b s
      else if ptype = LLCP_PDU_UI_TYPE then llcp_link_proc_ui_pdu E dsap ssap 0 [] 0 (Some b) s
      else if ptype = LLCP_PDU_I_TYPE then llcp_dlc_proc_i_pdu E dsap ssap 0 [] 0 (Some b) s
      else llcp_dlc_proc_rx_pdu E dsap ptype ssap n (body b) 2 params s)"

text \<open>
  The frame check of \<open>llcp_link_proc_rx_data\<close>: is the PDU passed on? An I, RR or RNR PDU without its
  sequence byte is reported as an error, but the code takes the branch of the valid PDUs then.
\<close>

definition frame_passes :: "bt_hdr \<Rightarrow> byte \<Rightarrow> llcp_cb \<Rightarrow> bool" where
  "frame_passes b ptype s =
     (let n = length (body b) in
      if ptype = LLCP_PDU_I_TYPE \<or> ptype = LLCP_PDU_RR_TYPE \<or> ptype = LLCP_PDU_RNR_TYPE
      then n < 3 \<or> n - 3 \<le> unat (local_link_miu (lcb s))
      else n - 2 \<le> unat (local_link_miu (lcb s)))"

definition rx_frame :: "llcp_env \<Rightarrow> conn_params \<Rightarrow> bt_hdr \<Rightarrow> llcp_cb \<Rightarrow> llcp_cb option" where
  "rx_frame E params b s =
     (if length (body b) < LLCP_PDU_HEADER_SIZE then Some s
      else do {
        pdu_hdr \<leftarrow> rd_be16 (body b) 0;
        let ptype = LLCP_GET_PTYPE pdu_hdr;
        if \<not> frame_passes b ptype s \<or> ptype = LLCP_PDU_SYMM_TYPE then Some s
        else llcp_link_proc_rx_pdu E params (LLCP_GET_DSAP pdu_hdr) ptype (LLCP_GET_SSAP pdu_hdr) b
               (llcp_link_stop_inactivity_timer s) })"

definition llcp_link_proc_rx_data :: "llcp_env \<Rightarrow> conn_params \<Rightarrow> bt_hdr \<Rightarrow> llcp_cb \<Rightarrow> llcp_cb option" where
  "llcp_link_proc_rx_data E params b s =
     (if symm_state (lcb s) \<noteq> LLCP_LINK_SYMM_REMOTE_XMIT_NEXT then Some s
      else
        let s = llcp_link_stop_link_timer s;
            s = (if received_first_packet (lcb s) then s
                 else link_cback 3 0 (upd_lcb (\<lambda>l. l\<lparr>received_first_packet := True\<rparr>) s)) in
        if link_state (lcb s) = LLCP_LINK_STATE_DEACTIVATING \<and> sig_xmit_q (lcb s) = []
        then llcp_link_process_link_timeout E s
        else do {
          s \<leftarrow> rx_frame E params b s;
          check_send_data E (upd_lcb (\<lambda>l. l\<lparr>symm_state := LLCP_LINK_SYMM_LOCAL_XMIT_NEXT\<rparr>) s) })"

section \<open>Events of the lower layer\<close>

datatype conn_event =
    NFC_DATA_CEVT bt_hdr
  | NFC_ERROR_CEVT byte
  | NFC_DEACTIVATE_CEVT
  | NFC_DATA_START_CEVT
  | Other_CEVT

definition llcp_link_connection_cback :: "llcp_env \<Rightarrow> conn_params \<Rightarrow> conn_event \<Rightarrow> llcp_cb \<Rightarrow> llcp_cb option" where
  "llcp_link_connection_cback E params ev s = (case ev of
     NFC_DATA_CEVT b \<Rightarrow>
       (case link_state (lcb s) of
          LLCP_LINK_STATE_DEACTIVATED \<Rightarrow> Some (llcp_link_send_SYMM s)
        | LLCP_LINK_STATE_ACTIVATION_FAILED \<Rightarrow> Some (llcp_link_send_invalid_pdu s)
        | _ \<Rightarrow> llcp_link_proc_rx_data E params b (upd_lcb (\<lambda>l. l\<lparr>rx_any_llc_pdu := True\<rparr>) s))
   | NFC_ERROR_CEVT reason \<Rightarrow> llcp_link_deactivate E reason s
   | NFC_DEACTIVATE_CEVT \<Rightarrow> do {
       s \<leftarrow> (case link_state (lcb s) of
          LLCP_LINK_STATE_DEACTIVATING \<Rightarrow>
            if \<not> is_initiator (lcb s) then llcp_link_process_link_timeout E (llcp_link_stop_link_timer s)
            else llcp_link_deactivate E LLCP_LINK_RF_LINK_LOSS_ERR s
        | LLCP_LINK_STATE_ACTIVATION_FAILED \<Rightarrow>
            Some (upd_lcb (\<lambda>l. l\<lparr>link_state := LLCP_LINK_STATE_DEACTIVATED\<rparr>) s)
        | LLCP_LINK_STATE_DEACTIVATED \<Rightarrow> Some s
        | LLCP_LINK_STATE_ACTIVATED \<Rightarrow> llcp_link_deactivate E LLCP_LINK_RF_LINK_LOSS_ERR s);
       Some (s\<lparr>static_rf_cback := False\<rparr>) }
   | NFC_DATA_START_CEVT \<Rightarrow>
       Some (if symm_state (lcb s) = LLCP_LINK_SYMM_REMOTE_XMIT_NEXT then llcp_link_stop_link_timer s else s)
   | Other_CEVT \<Rightarrow> Some s)"

end
