(* ===== verification/Llcp_Properties.thy ===== *)
theory Llcp_Properties
  imports Llcp_Link_Params Llcp_Recv
begin

text \<open>The properties of LLCP.\<close>

section \<open>Parameters\<close>

text \<open>
  C24. Connection parameters survive the trip to the peer: from the CONNECT PDU and from the CC PDU
  that this code writes for parameters with a legal MIU, this code reads back, whatever follows the
  PDU in memory and whatever its local variable held, the same MIU, the receive window reduced to
  four bits, and, for a CONNECT to the discovery service, the same service name; a CONNECT to
  another SAP carries no name. The header names the two SAPs and the PDU type.
\<close>

theorem connection_params_round_trip:
  assumes c: "LLCP_DEFAULT_MIU \<le> miu c" "miu c \<le> LLCP_MAX_MIU" and l: "strlen (sn c) \<le> LLCP_MAX_SN_LEN"
    and sap: "unat remote < 64" "unat local < 64" and arr: "2 \<le> length (sn init)"
  shows "(\<exists>c'. llcp_util_parse_connect (connect_bytes remote local c @ tail) 2
              (of_nat (length (connect_bytes remote local c) - 2)) init = Some (LLCP_STATUS_SUCCESS, c')
            \<and> miu c' = miu c \<and> rw c' = rw c AND 0x0F
            \<and> (if remote = LLCP_SAP_SDP
               then take (strlen (sn c')) (sn c') = take (strlen (sn c)) (sn c) else strlen (sn c') = 0))
    \<and> (\<exists>c'. llcp_util_parse_cc (cc_bytes remote local c @ tail) 2
              (of_nat (length (cc_bytes remote local c) - 2)) init = Some (LLCP_STATUS_SUCCESS, c')
            \<and> miu c' = miu c \<and> rw c' = rw c AND 0x0F)
    \<and> (\<forall>pdu \<in> {(connect_bytes remote local c, LLCP_PDU_CONNECT_TYPE), (cc_bytes remote local c, LLCP_PDU_CC_TYPE)}.
         \<exists>h. rd_be16 (fst pdu) 0 = Some h \<and> LLCP_GET_DSAP h = remote \<and> LLCP_GET_PTYPE h = snd pdu
           \<and> LLCP_GET_SSAP h = local)"
proof -
  have ok: "miu_ok c" using c by (simp add: miu_ok_def)
  have l': "strlen (sn c) \<le> 255" using l by (simp add: LLCP_MAX_SN_LEN_def)
  have w: "rw (mask_rw c) = rw c AND 0x0F" by (simp add: mask_rw_def)
  have t: "take_bit 6 remote = remote" "take_bit 6 local = local"
    using sap by (simp_all add: small_byte_iff)
  have a1: "at (connect_bytes remote local c @ tail) 2 (miu_bytes c @ rw_bytes c @ sn_bytes remote c)"
    by (simp add: connect_bytes_def at_def)
  have a2: "at (cc_bytes remote local c @ tail) 2 (miu_bytes c @ rw_bytes c)"
    by (simp add: cc_bytes_def at_def)
  have n1: "length (connect_bytes remote local c) - 2 = length (miu_bytes c @ rw_bytes c @ sn_bytes remote c)"
    and n2: "length (cc_bytes remote local c) - 2 = length (miu_bytes c @ rw_bytes c)"
    by (simp_all add: connect_bytes_def cc_bytes_def)
  have e: "strlen ((sn init)[0 := 0, 1 := 0]) = 0"
    using arr by (cases "sn init") (auto simp: strlen_def)
  have sn: "if remote = LLCP_SAP_SDP
      then take (strlen (peer_sn remote c (sn init))) (peer_sn remote c (sn init)) = take (strlen (sn c)) (sn c)
      else strlen (peer_sn remote c (sn init)) = 0"
    by (simp add: peer_sn_def strlen_put_sn e [simplified]) (simp add: put_sn_def)
  have types: "take_bit 4 (LLCP_PDU_CONNECT_TYPE :: byte) = LLCP_PDU_CONNECT_TYPE"
    "take_bit 4 (LLCP_PDU_CC_TYPE :: byte) = LLCP_PDU_CC_TYPE" by simp_all
  show ?thesis
    unfolding n1 n2 parse_connect_built [OF ok l' a1] parse_cc_built [OF ok a2]
    using sn by (cases "remote = LLCP_SAP_SDP")
      (simp_all add: peer_reads_def w connect_bytes_def cc_bytes_def header_fields t types)
qed

theorem connection_params_round_trip_witness:
  "(let c = \<lparr>miu = 1000, rw = 2, sn = [0x61, 0x62, 0]\<rparr> in
    \<exists>c'. llcp_util_parse_connect (connect_bytes 1 32 c @ [7]) 2 (of_nat (length (connect_bytes 1 32 c) - 2))
           \<lparr>miu = 0, rw = 0, sn = replicate 256 9\<rparr> = Some (LLCP_STATUS_SUCCESS, c')
         \<and> miu c' = 1000)"
proof -
  let ?c = "\<lparr>miu = 1000, rw = 2, sn = [0x61, 0x62, 0]\<rparr>"
  let ?i = "\<lparr>miu = 0, rw = 0, sn = replicate 256 9\<rparr>"
  have 1: "LLCP_DEFAULT_MIU \<le> miu ?c" and 2: "miu ?c \<le> LLCP_MAX_MIU" by (simp_all add: LLCP_MAX_MIU_def)
  have 3: "strlen (sn ?c) \<le> LLCP_MAX_SN_LEN" by (simp add: strlen_def LLCP_MAX_SN_LEN_def)
  have 4: "unat (1::byte) < 64" "unat (32::byte) < 64" "2 \<le> length (sn ?i)" by simp_all
  note r = connection_params_round_trip [OF 1 2 3 4, of "[7]"]
  have "\<exists>c'. llcp_util_parse_connect (connect_bytes 1 32 ?c @ [7]) 2 (of_nat (length (connect_bytes 1 32 ?c) - 2))
           ?i = Some (LLCP_STATUS_SUCCESS, c') \<and> miu c' = miu ?c"
    using r by blast
  then show ?thesis unfolding Let_def by simp
qed

lemma update_status_quiet: "app_cback E = quiet_app \<Longrightarrow> llcp_link_update_status E x s = Some s"
proof -
  assume "app_cback E = quiet_app"
  then have "run_loop (status_sap E x) xs s = Some s" for xs
    by (induction xs) (auto simp: status_sap_def quiet_app_def split: option.splits)
  then show ?thesis by (simp add: llcp_link_update_status_def)
qed

lemma set_config_bounds:
  "LLCP_DEFAULT_MIU \<le> local_link_miu (lcb (LLCP_SetConfig m opt wt lt i1 i2 sy dl f s))"
  "local_link_miu (lcb (LLCP_SetConfig m opt wt lt i1 i2 sy dl f s)) \<le> LLCP_MAX_MIU"
  "LLCP_LTO_UNIT \<le> local_lto (lcb (LLCP_SetConfig m opt wt lt i1 i2 sy dl f s))"
  "local_lto (lcb (LLCP_SetConfig m opt wt lt i1 i2 sy dl f s)) \<le> LLCP_MAX_LTO_IN_MS"
  "link_state (lcb (LLCP_SetConfig m opt wt lt i1 i2 sy dl f s)) = link_state (lcb s)"
  "sent (LLCP_SetConfig m opt wt lt i1 i2 sy dl f s) = sent s"
  by (auto simp: LLCP_SetConfig_def Let_def upd_lcb_def LLCP_MAX_MIU_def LLCP_MIU_def LLCP_POOL_BUF_SIZE_def
      LLCP_DEFAULT_LTO_IN_MS_def LLCP_MAX_LTO_IN_MS_def not_less word_le_nat_alt)

lemma peer_lto_learnt:
  assumes "(10::u16) \<le> t" "t \<le> 2550"
  shows "ucast (ucast (t div 10) :: byte) * 10 = (t div 10) * (10::u16)"
proof -
  have t: "10 \<le> unat t" "unat t \<le> 2550" using assms by (simp_all add: word_le_nat_alt)
  have "unat (t div 10) \<le> 255" using t by (simp add: unat_div_distrib)
  then have "ucast (ucast (t div 10) :: byte) = t div 10"
    by (simp add: word_unat_eq_iff unat_ucast_mod del: unat_div_distrib)
  then show ?thesis by simp
qed

text \<open>What one station reaches, from the general bytes of the other.\<close>

definition activated_with :: "bool \<Rightarrow> lcb \<Rightarrow> llcp_cb \<Rightarrow> llcp_cb \<Rightarrow> bool" where
  "activated_with initiator peer s s' \<longleftrightarrow>
     (let l = lcb s' in
      link_state l = LLCP_LINK_STATE_ACTIVATED \<and> is_initiator l = initiator
      \<and> agreed_major_version l = 1 \<and> agreed_minor_version l = 1
      \<and> effective_miu l = min (local_link_miu (lcb s)) (local_link_miu peer)
      \<and> peer_wks l = wks peer \<and> peer_opt l = local_opt peer
      \<and> peer_lto l = (local_lto peer div 10) * 10 + 420
      \<and> (if initiator
         then symm_state l = LLCP_LINK_SYMM_LOCAL_XMIT_NEXT \<and> sent s' = sent s
              \<or> symm_state l = LLCP_LINK_SYMM_REMOTE_XMIT_NEXT \<and> sent s' = sent s @ [new_pdu [0, 0]]
         else symm_state l = LLCP_LINK_SYMM_REMOTE_XMIT_NEXT \<and> sent s' = sent s))"

lemma version_1_1:
  "peer_version (lcb s) = 0x11 \<Longrightarrow> llcp_link_version_agreement s
     = (True, upd_lcb (\<lambda>l. l\<lparr>agreed_major_version := 1, agreed_minor_version := 1\<rparr>) s)"
  by (simp add: llcp_link_version_agreement_def LLCP_MIN_MAJOR_VERSION_def LLCP_VERSION_MAJOR_def
      LLCP_VERSION_MINOR_def)

lemma send_SYMM_cases:
  "lcb (llcp_link_send_SYMM s) = lcb s \<and> sent (llcp_link_send_SYMM s) = sent s
   \<or> lcb (llcp_link_send_SYMM s) = (lcb s)\<lparr>symm_state := LLCP_LINK_SYMM_REMOTE_XMIT_NEXT\<rparr>
     \<and> sent (llcp_link_send_SYMM s) = sent s @ [new_pdu [0, 0]]"
  by (auto simp: llcp_link_send_SYMM_def GKI_getpoolbuf_llcp_def llcp_link_send_to_lower_def upd_lcb_def
      be16_bytes_def LLCP_GET_PDU_HEADER_def split: list.splits)

lemma activation:
  assumes E: "app_cback E = quiet_app" and d: "link_state (lcb s) = LLCP_LINK_STATE_DEACTIVATED"
    and n: "LLCP_MIN_GEN_BYTES \<le> n"
    and miu: "LLCP_DEFAULT_MIU \<le> local_link_miu (lcb t)" "local_link_miu (lcb t) \<le> LLCP_MAX_MIU"
    and lto: "LLCP_LTO_UNIT \<le> local_lto (lcb t)" "local_lto (lcb t) \<le> LLCP_MAX_LTO_IN_MS"
  shows "\<exists>s'. LLCP_ActivateLink E False initiator 20 (LLCP_GetDiscoveryConfig n t) True s
      = Some (LLCP_STATUS_SUCCESS, s') \<and> activated_with initiator (lcb t) s s'"
proof -
  have l: "ucast (ucast (local_lto (lcb t) div 10) :: byte) * 10 = (local_lto (lcb t) div 10) * (10::u16)"
    using lto by (intro peer_lto_learnt) (simp_all add: LLCP_MAX_LTO_IN_MS_def)
  define s2 where "s2 = upd_lcb (\<lambda>l. l\<lparr>peer_lto := peer_lto l + 420\<rparr>) (upd_lcb (learns (lcb t)) s)"
  have v: "llcp_link_version_agreement s2
      = (True, upd_lcb (\<lambda>l. l\<lparr>agreed_major_version := 1, agreed_minor_version := 1\<rparr>) s2)"
    by (rule version_1_1) (simp add: s2_def upd_lcb_def learns_def LLCP_VERSION_MAJOR_def LLCP_VERSION_MINOR_def)
  let ?s3 = "upd_lcb (\<lambda>l. l\<lparr>received_first_packet := False, is_initiator := initiator, rx_any_llc_pdu := False,
      effective_miu := min (local_link_miu l) (peer_miu l)\<rparr>)
      (upd_lcb (\<lambda>l. l\<lparr>agreed_major_version := 1, agreed_minor_version := 1\<rparr>) s2)"
  have "LLCP_ActivateLink E False initiator 20 (LLCP_GetDiscoveryConfig n t) True s
      = Option.bind (llcp_data_transfer E ?s3) (\<lambda>s. Some (LLCP_STATUS_SUCCESS, s\<lparr>static_rf_cback := True\<rparr>))"
    by (simp add: LLCP_ActivateLink_def d llcp_link_activate_def gen_bytes_learnt [OF n miu] Let_def
        s2_def [symmetric] v)
  moreover obtain s' where s': "llcp_data_transfer E ?s3 = Some s'"
      "activated_with initiator (lcb t) s (s'\<lparr>static_rf_cback := True\<rparr>)"
  proof (cases "initiator \<and> delay_first_pdu_timeout (lcb s) = 0")
    case True
    let ?x = "upd_lcb (\<lambda>l. l\<lparr>inact_timeout := inact_timeout_init l,
        symm_state := LLCP_LINK_SYMM_LOCAL_XMIT_NEXT\<rparr>) ?s3"
    have "llcp_data_transfer E ?s3
        = Some (link_cback 1 0 (upd_lcb (\<lambda>l. l\<lparr>link_state := LLCP_LINK_STATE_ACTIVATED\<rparr>) (llcp_link_send_SYMM ?x)))"
      using True
      by (simp add: llcp_data_transfer_def Let_def update_status_quiet [OF E]) (simp add: upd_lcb_def s2_def learns_def)
    then show ?thesis
      by (rule that) (use True send_SYMM_cases [of ?x] in \<open>auto simp: activated_with_def Let_def link_cback_def
        upd_lcb_def s2_def learns_def l\<close>)
  next
    case False
    have z: "0 < delay_first_pdu_timeout (lcb s) \<longleftrightarrow> delay_first_pdu_timeout (lcb s) \<noteq> 0"
      by (simp add: word_neq_0_conv)
    have "\<exists>s'. llcp_data_transfer E ?s3 = Some s' \<and> activated_with initiator (lcb t) s (s'\<lparr>static_rf_cback := True\<rparr>)"
      using False
      by (auto simp: llcp_data_transfer_def Let_def update_status_quiet [OF E] activated_with_def z link_cback_def
          upd_lcb_def s2_def learns_def l llcp_link_start_link_timer_def)
    then show ?thesis using that by blast
  qed
  ultimately show ?thesis by auto
qed

text \<open>
  C25. Link activation. Two stations that set any configuration, whose links are down, and that are
  activated with each other's general bytes, one as initiator and one as target, both reach
  ACTIVATED; they agree on version 1.1 and on the same MIU for sending, the smaller of the two
  configured link MIUs; each knows the other's services, options and timeout (in steps of 10 ms,
  extended by the processing delays). The target waits for the initiator; the initiator may send, or
  has sent a SYMM PDU and waits. Applications are not called back into the stack here.
\<close>

theorem link_agreement:
  assumes E: "app_cback E = quiet_app"
    and down: "link_state (lcb s) = LLCP_LINK_STATE_DEACTIVATED" "link_state (lcb t) = LLCP_LINK_STATE_DEACTIVATED"
    and s': "a = LLCP_SetConfig m opt wt lt i1 i2 sy dl f s"
    and t': "b = LLCP_SetConfig m' opt' wt' lt' i1' i2' sy' dl' f' t"
    and n: "LLCP_MIN_GEN_BYTES \<le> n"
  shows "\<exists>a' b'.
      LLCP_ActivateLink E False True 20 (LLCP_GetDiscoveryConfig n b) True a = Some (LLCP_STATUS_SUCCESS, a')
    \<and> LLCP_ActivateLink E False False 20 (LLCP_GetDiscoveryConfig n a) True b = Some (LLCP_STATUS_SUCCESS, b')
    \<and> activated_with True (lcb b) a a' \<and> activated_with False (lcb a) b b'
    \<and> effective_miu (lcb a') = effective_miu (lcb b')"
proof -
  note bounds = set_config_bounds [of m opt wt lt i1 i2 sy dl f s, folded s']
    set_config_bounds [of m' opt' wt' lt' i1' i2' sy' dl' f' t, folded t']
  obtain a' where a: "LLCP_ActivateLink E False True 20 (LLCP_GetDiscoveryConfig n b) True a
      = Some (LLCP_STATUS_SUCCESS, a')" "activated_with True (lcb b) a a'"
    using activation [OF E, of a n b True] bounds down n by auto
  obtain b' where b: "LLCP_ActivateLink E False False 20 (LLCP_GetDiscoveryConfig n a) True b
      = Some (LLCP_STATUS_SUCCESS, b')" "activated_with False (lcb a) b b'"
    using activation [OF E, of b n a False] bounds down n by auto
  have "effective_miu (lcb a') = effective_miu (lcb b')"
    using a(2) b(2) by (simp add: activated_with_def Let_def min.commute)
  with a b show ?thesis by blast
qed

theorem link_agreement_witness:
  "(let E = \<lparr>check_send_data = Some, app_cback = quiet_app\<rparr>;
        a = LLCP_SetConfig 500 3 7 1000 0 0 20 1000 50 (zero_llcp_cb [True]);
        b = LLCP_SetConfig 4000 3 7 5 0 0 20 1000 50 (zero_llcp_cb []) in
    \<exists>a'. LLCP_ActivateLink E False True 20 (LLCP_GetDiscoveryConfig 48 b) True a = Some (LLCP_STATUS_SUCCESS, a')
      \<and> activated_with True (lcb b) a a')"
proof -
  let ?E = "\<lparr>check_send_data = Some, app_cback = quiet_app\<rparr>"
  let ?s = "zero_llcp_cb [True]" and ?t = "zero_llcp_cb []"
  have E: "app_cback ?E = quiet_app" by simp
  have d: "link_state (lcb ?s) = LLCP_LINK_STATE_DEACTIVATED" "link_state (lcb ?t) = LLCP_LINK_STATE_DEACTIVATED"
    by (simp_all add: zero_llcp_cb_def zero_lcb_def)
  have n: "LLCP_MIN_GEN_BYTES \<le> 48" by (simp add: LLCP_MIN_GEN_BYTES_def)
  show ?thesis
    using link_agreement [OF E d refl refl n, of 4000 3 7 5 0 0 20 1000 50 500 3 7 1000 0 0 20 1000 50]
    unfolding Let_def by blast
qed

end
