(* ===== verification/Llcp_View.thy ===== *)
theory Llcp_View
  imports Llcp_Coding Llcp_Recv
begin

text \<open>
  Sequence numbers of a data link connection. The code keeps them modulo 16 in bytes; here they are
  related to the unbounded counters they stand for: \<open>sq n\<close> is the byte of counter \<open>n\<close>.
\<close>

section \<open>Counters modulo 16\<close>

definition sq :: "nat \<Rightarrow> byte" where
  "sq n = of_nat (n mod 16)"

lemma unat_sq [simp]: "unat (sq n) = n mod 16"
  by (simp add: sq_def unat_of_nat)

lemma sq_eq_iff: "sq m = sq n \<longleftrightarrow> m mod 16 = n mod 16"
  by (simp add: word_unat_eq_iff)

lemma byte_mod_16: "unat ((x :: byte) mod LLCP_SEQ_MODULO) = unat x mod 16"
  by (simp add: LLCP_SEQ_MODULO_def unat_mod_distrib)

lemma byte_diff_mod_16: "unat ((x - y :: byte) mod LLCP_SEQ_MODULO) = (unat x + 256 - unat y) mod 16"
proof (cases "y \<le> x")
  case True
  then have "unat y \<le> unat x" by (simp add: word_le_nat_alt)
  then have "unat x + 256 - unat y = unat x - unat y + 16 * 16" by simp
  then have "(unat x + 256 - unat y) mod 16 = (unat x - unat y) mod 16" by (simp only: mod_mult_self2)
  then show ?thesis using True by (simp add: byte_mod_16 unat_sub)
next
  case False
  then have "unat (x - y) = unat x + 256 - unat y" by (simp add: unat_sub_if' word_le_nat_alt)
  then show ?thesis by (simp add: byte_mod_16)
qed

lemma sq_Suc: "(sq n + 1) mod LLCP_SEQ_MODULO = sq (Suc n)"
proof -
  have "unat (sq n + 1) = n mod 16 + 1" by (simp add: unat_word_ariths)
  then show ?thesis by (simp add: word_unat_eq_iff byte_mod_16 mod_Suc_eq)
qed

lemma sq_diff: "n \<le> m \<Longrightarrow> unat ((sq m - sq n) mod LLCP_SEQ_MODULO) = (m - n) mod 16"
proof -
  assume "n \<le> m"
  then obtain d where m: "m = n + d" using le_Suc_ex by blast
  define r e where "r = n mod 16" and "e = d mod 16"
  have b: "r < 16" "e < 16" by (simp_all add: r_def e_def)
  have mm: "m mod 16 = (r + e) mod 16" by (simp add: m r_def e_def mod_add_eq)
  have "((r + e) mod 16 + 256 - r) mod 16 = e"
  proof (cases "r + e < 16")
    case True
    then have "(r + e) mod 16 + 256 - r = e + 16 * 16" by simp
    then show ?thesis using b by (simp only: mod_mult_self2) simp
  next
    case False
    then have "(r + e) mod 16 + 256 - r = e + 16 * 15" using b by (simp add: mod_if)
    then show ?thesis using b by (simp only: mod_mult_self2) simp
  qed
  then show ?thesis by (simp only: byte_diff_mod_16 unat_sq mm r_def [symmetric]) (simp add: e_def m)
qed

lemma sq_diff_small: "n \<le> m \<Longrightarrow> m < n + 16 \<Longrightarrow> unat ((sq m - sq n) mod LLCP_SEQ_MODULO) = m - n"
  by (simp add: sq_diff)

text \<open>The test of N(R) accepts exactly the counters between V(SA) and V(S).\<close>

lemma nr_valid_unat:
  "nr_valid d r \<longleftrightarrow>
     unat ((r - rcvd_ack_seq d) mod LLCP_SEQ_MODULO) + unat ((next_tx_seq d - r) mod LLCP_SEQ_MODULO)
       = unat ((next_tx_seq d - rcvd_ack_seq d) mod LLCP_SEQ_MODULO)"
proof -
  have s: "unat ((x :: byte) mod LLCP_SEQ_MODULO + y mod LLCP_SEQ_MODULO)
      = unat (x mod LLCP_SEQ_MODULO) + unat (y mod LLCP_SEQ_MODULO)" for x y
  proof -
    have "unat (x mod LLCP_SEQ_MODULO) < 16" "unat (y mod LLCP_SEQ_MODULO) < 16" by (simp_all add: byte_mod_16)
    then show ?thesis by (simp add: unat_word_ariths)
  qed
  show ?thesis unfolding nr_valid_def word_unat_eq_iff s ..
qed

lemma nr_valid_counters:
  assumes "rcvd_ack_seq d = sq a" "next_tx_seq d = sq n" "a \<le> r" "r \<le> n" "n < a + 16"
  shows "nr_valid d (sq r)"
  using assms by (simp add: nr_valid_unat sq_diff_small)

lemma rw_open_counters:
  assumes "rcvd_ack_seq d = sq a" "next_tx_seq d = sq n" "a \<le> n" "n < a + 16"
  shows "llcp_dlc_is_rw_open d \<longleftrightarrow> n - a < unat (remote_rw d)"
  using assms by (simp add: llcp_dlc_is_rw_open_def word_less_nat_alt sq_diff_small)

lemma nr_valid_window:
  assumes "unat (rcvd_ack_seq d) < 16" "unat (next_tx_seq d) < 16" "unat r < 16"
  shows "nr_valid d r \<longleftrightarrow>
    (\<exists>k \<le> unat ((next_tx_seq d - rcvd_ack_seq d) mod LLCP_SEQ_MODULO). unat r = (unat (rcvd_ack_seq d) + k) mod 16)"
proof -
  have *: "((r + 256 - a) mod 16 + (s + 256 - r) mod 16 = (s + 256 - a) mod 16)
      \<longleftrightarrow> (\<exists>k \<le> (s + 256 - a) mod 16. r = (a + k) mod 16)"
    if "a < 16" "s < 16" "r < 16" for a s r :: nat
  proof -
    have m: "(x + 256 - y) mod 16 = (if y \<le> x then x - y else x + 16 - y)" if "x < 16" "y < 16" for x y :: nat
    proof (cases "y \<le> x")
      case True
      then have "x + 256 - y = x - y + 16 * 16" by simp
      then show ?thesis using True that by (simp only: mod_mult_self2) simp
    next
      case False
      then have "x + 256 - y = x + 16 - y + 16 * 15" using that by simp
      then show ?thesis using False that by (simp only: mod_mult_self2) simp
    qed
    have w: "(a + k) mod 16 = (if a + k < 16 then a + k else a + k - 16)" if "k < 16" for k
      using that \<open>a < 16\<close> by (simp add: mod_if)
    let ?z = "if a \<le> s then s - a else s + 16 - a"
    have z: "?z < 16" using that by (cases "a \<le> s") simp_all
    have "(if a \<le> r then r - a else r + 16 - a) + (if r \<le> s then s - r else s + 16 - r) = ?z
        \<longleftrightarrow> (\<exists>k \<le> ?z. r = (if a + k < 16 then a + k else a + k - 16))" (is "?l \<longleftrightarrow> ?r")
    proof
      assume ?l
      then show ?r
        using that by (intro exI [of _ "if a \<le> r then r - a else r + 16 - a"]) (auto split: if_splits)
    next
      assume ?r
      then obtain k where "k \<le> ?z" "r = (if a + k < 16 then a + k else a + k - 16)" by blast
      then show ?l using that by (auto split: if_splits)
    qed
    moreover have "(\<exists>k \<le> ?z. r = (a + k) mod 16) \<longleftrightarrow> (\<exists>k \<le> ?z. r = (if a + k < 16 then a + k else a + k - 16))"
      using z w by (metis (no_types, lifting) le_less_trans)
    ultimately show ?thesis
      unfolding m [OF that(3,1)] m [OF that(2,3)] m [OF that(2,1)] by simp
  qed
  show ?thesis unfolding nr_valid_unat byte_diff_mod_16 using * [OF assms(1,2,3)] by simp
qed

text \<open>
  The part of the control block that the exchange of I, RR and RNR PDUs depends on: for every
  connection its state, SAPs, limits, sequence variables and queues (\<open>core\<close> drops the rest), the
  application blocks, the signalling queue and the SNL PDU that waits. Each operation is described by its effect on the view.
\<close>

section \<open>The view\<close>

definition core :: "dlcb \<Rightarrow> dlcb" where
  "core d = d\<lparr>dl_flags := dl_flags d AND LLCP_DATA_LINK_FLAG_PENDING_DISC, p_app_cb := None, dl_timer := None,
     local_busy := False, remote_busy := False, is_tx_congested := False, is_rx_congested := False,
     num_rx_i_pdu := 0, rx_congest_threshold := 0\<rparr>"

record dl_view =
  v_dl :: "nat \<Rightarrow> dlcb"
  v_sig :: "bt_hdr list"
  v_link_miu :: u16
  v_eff_miu :: u16
  v_snl :: "bt_hdr option"
  v_wks :: "nat \<Rightarrow> app_cb"
  v_server :: "nat \<Rightarrow> app_cb"
  v_client :: "nat \<Rightarrow> app_cb"

definition view :: "llcp_cb \<Rightarrow> dl_view" where
  "view s = \<lparr>v_dl = (\<lambda>j. core (dlcb s j)), v_sig = sig_xmit_q (lcb s), v_link_miu = local_link_miu (lcb s),
     v_eff_miu = effective_miu (lcb s), v_snl = p_snl (sdp s),
     v_wks = wks_cb s, v_server = server_cb s, v_client = client_cb s\<rparr>"

definition set_dl :: "nat \<Rightarrow> (dlcb \<Rightarrow> dlcb) \<Rightarrow> dl_view \<Rightarrow> dl_view" where
  "set_dl i f v = v\<lparr>v_dl := (v_dl v)(i := f (v_dl v i))\<rparr>"

lemma core_simps [simp]:
  "dl_state (core d) = dl_state d" "local_sap (core d) = local_sap d" "remote_sap (core d) = remote_sap d"
  "local_miu (core d) = local_miu d" "remote_miu (core d) = remote_miu d"
  "local_rw (core d) = local_rw d" "remote_rw (core d) = remote_rw d"
  "next_tx_seq (core d) = next_tx_seq d" "rcvd_ack_seq (core d) = rcvd_ack_seq d"
  "next_rx_seq (core d) = next_rx_seq d" "sent_ack_seq (core d) = sent_ack_seq d"
  "i_xmit_q (core d) = i_xmit_q d" "i_rx_q (core d) = i_rx_q d"
  by (simp_all add: core_def)

lemma core_drops [simp]:
  "core (d\<lparr>local_busy := a\<rparr>) = core d" "core (d\<lparr>remote_busy := a\<rparr>) = core d"
  "core (d\<lparr>is_tx_congested := a\<rparr>) = core d" "core (d\<lparr>is_rx_congested := a\<rparr>) = core d"
  "core (d\<lparr>num_rx_i_pdu := b\<rparr>) = core d" "core (d\<lparr>rx_congest_threshold := b\<rparr>) = core d"
  by (simp_all add: core_def)

lemma core_keeps [simp]:
  "core (d\<lparr>i_xmit_q := q\<rparr>) = (core d)\<lparr>i_xmit_q := q\<rparr>"
  "core (d\<lparr>i_rx_q := q\<rparr>) = (core d)\<lparr>i_rx_q := q\<rparr>"
  "core (d\<lparr>next_tx_seq := b\<rparr>) = (core d)\<lparr>next_tx_seq := b\<rparr>"
  "core (d\<lparr>rcvd_ack_seq := b\<rparr>) = (core d)\<lparr>rcvd_ack_seq := b\<rparr>"
  "core (d\<lparr>next_rx_seq := b\<rparr>) = (core d)\<lparr>next_rx_seq := b\<rparr>"
  "core (d\<lparr>sent_ack_seq := b\<rparr>) = (core d)\<lparr>sent_ack_seq := b\<rparr>"
  by (simp_all add: core_def)

lemma core_flags [simp]:
  "core (set_flag LLCP_DATA_LINK_FLAG_PENDING_RR_RNR d) = core d"
  "core (set_flag LLCP_DATA_LINK_FLAG_NOTIFY_TX_DONE d) = core d"
  "core (clear_flag LLCP_DATA_LINK_FLAG_PENDING_RR_RNR d) = core d"
  "core (clear_flag LLCP_DATA_LINK_FLAG_NOTIFY_TX_DONE d) = core d"
  by (simp_all add: core_def set_flag_def clear_flag_def bit.conj_disj_distrib2 and.assoc)

lemma pending_disc_core: "has_flag LLCP_DATA_LINK_FLAG_PENDING_DISC d \<longleftrightarrow> dl_flags (core d) \<noteq> 0"
  by (simp add: has_flag_def core_def)

lemma dlcb_upd_dl [simp]: "dlcb (upd_dl i f s) j = (if j = i then f (dlcb s i) else dlcb s j)"
  by (simp add: upd_dl_def)

lemma upd_dl_other [simp]:
  "lcb (upd_dl i f s) = lcb s" "wks_cb (upd_dl i f s) = wks_cb s" "server_cb (upd_dl i f s) = server_cb s"
  "client_cb (upd_dl i f s) = client_cb s" "overall_rx_congested (upd_dl i f s) = overall_rx_congested s"
  "total_tx_i_pdu (upd_dl i f s) = total_tx_i_pdu s" "total_rx_i_pdu (upd_dl i f s) = total_rx_i_pdu s"
  "pool (upd_dl i f s) = pool s" "sdp (upd_dl i f s) = sdp s"
  by (simp_all add: upd_dl_def)

lemma set_dl_simps [simp]:
  "v_dl (set_dl i f v) j = (if j = i then f (v_dl v i) else v_dl v j)" "v_sig (set_dl i f v) = v_sig v"
  "v_link_miu (set_dl i f v) = v_link_miu v" "v_eff_miu (set_dl i f v) = v_eff_miu v" "v_snl (set_dl i f v) = v_snl v"
  "set_dl i f (set_dl i g v) = set_dl i (\<lambda>d. f (g d)) v" "set_dl i (\<lambda>d. d) v = v"
  by (simp_all add: set_dl_def)

lemma view_upd_dl: "(\<And>d. core (f d) = g (core d)) \<Longrightarrow> view (upd_dl i f s) = set_dl i g (view s)"
  by (auto simp: view_def upd_dl_def set_dl_def)

lemma view_upd_dl_drop: "(\<And>d. core (f d) = core d) \<Longrightarrow> view (upd_dl i f s) = view s"
  by (auto simp: view_def upd_dl_def)

lemma view_drops [simp]:
  "view (s\<lparr>total_tx_i_pdu := b\<rparr>) = view s" "view (s\<lparr>total_rx_i_pdu := b\<rparr>) = view s"
  "view (s\<lparr>overall_rx_congested := c\<rparr>) = view s" "view (s\<lparr>pool := p\<rparr>) = view s"
  by (simp_all add: view_def)

lemma view_for_dl: "(\<And>d. core (f d) = core d) \<Longrightarrow> view (for_dl f s) = view s"
  by (auto simp: view_def for_dl_def)

lemma view_enqueue_sig [simp]: "view (enqueue_sig b s) = (view s)\<lparr>v_sig := v_sig (view s) @ [b]\<rparr>"
  by (simp add: view_def enqueue_sig_def upd_lcb_def)

lemma dl_of_view: "core (dlcb s i) = v_dl (view s) i"
  by (simp add: view_def)

lemma view_getpoolbuf: "GKI_getpoolbuf_llcp s = (got, s') \<Longrightarrow> view s' = view s \<and> dlcb s' = dlcb s"
  by (auto simp: GKI_getpoolbuf_llcp_def split: list.splits)

lemma view_check_rx [simp]: "view (llcp_util_check_rx_congested_status s) = view s"
  by (auto simp: llcp_util_check_rx_congested_status_def Let_def mark_rr_rnr_def intro!: trans [OF view_for_dl])

section \<open>A connection alone\<close>

text \<open>
  The only connection of the station is \<open>i\<close>, between the SAPs \<open>own\<close> and \<open>peer\<close>; no application has UI
  PDUs to send; no disconnection was asked for.
\<close>

definition alone :: "nat \<Rightarrow> byte \<Rightarrow> byte \<Rightarrow> dl_view \<Rightarrow> bool" where
  "alone i own peer v \<longleftrightarrow>
     i < LLCP_MAX_DATA_LINK \<and> unat own < 64 \<and> unat peer < 64 \<and> own \<noteq> LLCP_SAP_LM
     \<and> dl_state (v_dl v i) = LLCP_DLC_STATE_CONNECTED \<and> dl_flags (v_dl v i) = 0
     \<and> local_sap (v_dl v i) = own \<and> remote_sap (v_dl v i) = peer
     \<and> (\<forall>j. j \<noteq> i \<longrightarrow> dl_state (v_dl v j) = LLCP_DLC_STATE_IDLE)
     \<and> (\<forall>k. ui_xmit_q (v_wks v k) = [] \<and> ui_xmit_q (v_server v k) = [] \<and> ui_xmit_q (v_client v k) = [])"

lemma find_Some_unique:
  assumes "i \<in> set xs" "P i" "\<And>j. P j \<Longrightarrow> j = i" shows "List.find P xs = Some i"
proof (cases "List.find P xs")
  case None
  then show ?thesis using assms(1,2) by (simp add: find_None_iff)
next
  case (Some j)
  then show ?thesis using assms(3) by (auto simp: find_Some_iff)
qed

lemma alone_find:
  assumes a: "alone i own peer (view s)"
  shows "llcp_dlc_find_dlcb_by_sap own peer s = Some i"
  unfolding llcp_dlc_find_dlcb_by_sap_def find_idx_def
proof (rule find_Some_unique)
  show "i \<in> set [0..<LLCP_MAX_DATA_LINK]" using a by (simp add: alone_def)
  show "dl_state (dlcb s i) \<noteq> LLCP_DLC_STATE_IDLE \<and> local_sap (dlcb s i) = own \<and>
      (peer = LLCP_INVALID_SAP \<and> dl_state (dlcb s i) = LLCP_DLC_STATE_W4_REMOTE_RESP \<or> remote_sap (dlcb s i) = peer)"
    using a by (simp add: alone_def view_def)
  show "j = i" if "dl_state (dlcb s j) \<noteq> LLCP_DLC_STATE_IDLE \<and> local_sap (dlcb s j) = own \<and>
      (peer = LLCP_INVALID_SAP \<and> dl_state (dlcb s j) = LLCP_DLC_STATE_W4_REMOTE_RESP \<or> remote_sap (dlcb s j) = peer)" for j
    using a that by (auto simp: alone_def view_def)
qed

lemma alone_state:
  assumes "alone i own peer (view s)"
  shows "dl_state (dlcb s i) = LLCP_DLC_STATE_CONNECTED" "local_sap (dlcb s i) = own"
    "remote_sap (dlcb s i) = peer" "\<not> has_flag LLCP_DATA_LINK_FLAG_PENDING_DISC (dlcb s i)"
    "i < LLCP_MAX_DATA_LINK"
  using assms by (simp_all add: alone_def view_def pending_disc_core)

end
