(* ===== verification/Llcp_Effects.thy ===== *)
theory Llcp_Effects
  imports Llcp_View
begin

text \<open>
  The effect on the view of each operation of a station with one connection, in the environment in
  which \<open>llcp_link_check_send_data\<close> runs and with an application that does not call back.
\<close>

lemma quiet_env_simps [simp]:
  "check_send_data quiet_env = Some" "app_cback quiet_env = quiet_app" "notify quiet_env i ev s = Some s"
  by (simp_all add: quiet_env_def nested_env_def notify_def quiet_app_def)

lemma alone_set_dl:
  assumes "alone i own peer v" and "\<And>d. dl_state (f d) = dl_state d" "\<And>d. dl_flags (f d) = dl_flags d"
    "\<And>d. local_sap (f d) = local_sap d" "\<And>d. remote_sap (f d) = remote_sap d"
  shows "alone i own peer (set_dl i f v)"
  using assms by (simp add: alone_def set_dl_def)

lemma alone_sig: "alone i own peer v \<Longrightarrow> alone i own peer (v\<lparr>v_sig := q\<rparr>)"
  by (simp add: alone_def)

section \<open>Sending data\<close>

lemma send_data_effect:
  assumes a: "alone i own peer (view s)"
  shows "\<exists>st s'. LLCP_SendData quiet_env own peer b s = Some (st, s')
    \<and> (if unat (blen b) \<le> unat (remote_miu (dlcb s i)) \<and> LLCP_MIN_OFFSET \<le> unat (offset b) \<and> remote_rw (dlcb s i) \<noteq> 0
       then st \<noteq> LLCP_STATUS_FAIL \<and> view s' = set_dl i (\<lambda>d. d\<lparr>i_xmit_q := i_xmit_q d @ [b]\<rparr>) (view s)
       else st = LLCP_STATUS_FAIL \<and> s' = s)"
proof -
  have q: "view (upd_dl i (\<lambda>d. d\<lparr>i_xmit_q := i_xmit_q d @ [b]\<rparr>) s)
      = set_dl i (\<lambda>d. d\<lparr>i_xmit_q := i_xmit_q d @ [b]\<rparr>) (view s)"
    by (rule view_upd_dl) simp
  show ?thesis
    using alone_state(1) [OF a]
    by (auto simp: LLCP_SendData_def on_dlcb_def alone_find [OF a] llcp_dlsm_execute_def llcp_dlsm_connected_def
        word_le_nat_alt Let_def view_upd_dl_drop q)
qed

section \<open>Choosing the next PDU\<close>

definition i_bytes :: "byte \<Rightarrow> byte \<Rightarrow> byte \<Rightarrow> byte \<Rightarrow> byte list \<Rightarrow> byte list" where
  "i_bytes own peer ns nr sdu =
     be16_bytes (LLCP_GET_PDU_HEADER peer LLCP_PDU_I_TYPE own) @ [LLCP_GET_SEQUENCE ns nr] @ sdu"

definition ack_bytes :: "byte \<Rightarrow> byte \<Rightarrow> bool \<Rightarrow> byte \<Rightarrow> byte list" where
  "ack_bytes own peer rnr nr =
     be16_bytes (LLCP_GET_PDU_HEADER peer (if rnr then LLCP_PDU_RNR_TYPE else LLCP_PDU_RR_TYPE) own) @ [nr]"

lemma tx_done_effect:
  assumes a: "alone i own peer (view s)"
  shows "\<exists>s'. tx_done quiet_env i s = Some s' \<and> view s' = view s"
  using alone_state(4) [OF a] by (auto simp: tx_done_def Let_def view_upd_dl_drop)

definition sent_i :: "bt_hdr list \<Rightarrow> byte \<Rightarrow> dlcb \<Rightarrow> dlcb" where
  "sent_i q k d = d\<lparr>i_xmit_q := q, sent_ack_seq := k, next_tx_seq := (next_tx_seq d + 1) mod LLCP_SEQ_MODULO\<rparr>"

lemma get_next_pdu_effect:
  assumes a: "alone i own peer (view s)" and off: "\<forall>b \<in> set (i_xmit_q (dlcb s i)). LLCP_MIN_OFFSET \<le> unat (offset b)"
  obtains (none) s' where "llcp_dlc_get_next_pdu quiet_env i s = Some (None, s')" "view s' = view s" "\<not> may_send (dlcb s i)"
  | (pdu) b q k b' s' where "llcp_dlc_get_next_pdu quiet_env i s = Some (Some b', s')"
      "i_xmit_q (dlcb s i) = b # q" "llcp_dlc_is_rw_open (dlcb s i)"
      "k = sent_ack_seq (dlcb s i) \<or> k = next_rx_seq (dlcb s i)"
      "body b' = i_bytes own peer (next_tx_seq (dlcb s i)) k (body b)"
      "view s' = set_dl i (sent_i q k) (view s)"
proof (cases "may_send (dlcb s i)")
  case False
  obtain s' where "tx_done quiet_env i s = Some s'" "view s' = view s" using tx_done_effect [OF a] by blast
  with False show ?thesis
    by (intro none [of s']) (auto simp: llcp_dlc_get_next_pdu_def split: list.splits)
next
  case True
  then obtain b q where bq: "i_xmit_q (dlcb s i) = b # q" by (auto simp: may_send_def neq_Nil_conv)
  let ?s1 = "(upd_dl i (\<lambda>d. d\<lparr>i_xmit_q := q\<rparr>) s)\<lparr>total_tx_i_pdu := total_tx_i_pdu s - 1\<rparr>"
  obtain b' s2 where h: "llcp_util_build_info_pdu i b ?s1 = (b', s2)" by fastforce
  define k where "k = sent_ack_seq (dlcb s2 i)"
  have k: "k = sent_ack_seq (dlcb s i) \<or> k = next_rx_seq (dlcb s i)"
    and b': "body b' = i_bytes own peer (next_tx_seq (dlcb s i)) k (body b)"
    and v2: "view s2 = set_dl i (\<lambda>d. d\<lparr>i_xmit_q := q, sent_ack_seq := k\<rparr>) (view s)"
    using h alone_state [OF a]
    by (auto simp: llcp_util_build_info_pdu_def Let_def k_def i_bytes_def push_hdr_def set_dl_def fun_eq_iff
        view_def core_def split: if_splits)
  let ?s3 = "upd_dl i (\<lambda>d. d\<lparr>next_tx_seq := (next_tx_seq d + 1) mod LLCP_SEQ_MODULO\<rparr>) s2"
  have v3: "view ?s3 = set_dl i (sent_i q k) (view s)"
    by (subst view_upd_dl [where g = "\<lambda>d. d\<lparr>next_tx_seq := (next_tx_seq d + 1) mod LLCP_SEQ_MODULO\<rparr>"])
       (simp_all add: v2 set_dl_def sent_i_def)
  have a3: "alone i own peer (view ?s3)" unfolding v3 by (rule alone_set_dl [OF a]) (simp_all add: sent_i_def)
  obtain s' where t: "tx_done quiet_env i ?s3 = Some s'" "view s' = view ?s3" using tx_done_effect [OF a3] by blast
  have o: "LLCP_MIN_OFFSET \<le> unat (offset b)" using off bq by simp
  have "llcp_dlc_get_next_pdu quiet_env i s = Some (Some b', s')"
    using True o h t by (simp add: llcp_dlc_get_next_pdu_def bq Let_def)
  moreover have "llcp_dlc_is_rw_open (dlcb s i)" using True by (simp add: may_send_def)
  ultimately show ?thesis using bq k b' t(2) v3 by (intro pdu) simp_all
qed

text \<open>The scheduler changes only its own indices while it searches.\<close>

lemma sched_fields [simp]:
  "view (next_ll s) = view s" "dlcb (next_ll s) = dlcb s"
  "view (next_dl s) = view s" "dlcb (next_dl s) = dlcb s"
  "view (toggle_served s) = view s" "dlcb (toggle_served s) = dlcb s"
  by (simp_all add: next_ll_def next_dl_def toggle_served_def view_def upd_lcb_def)

lemma no_ui_pending:
  "alone i own peer (view s) \<Longrightarrow> ui_xmit_q (app_at r s) = []"
  by (auto simp: alone_def view_def app_at_def split: app_ref.splits)

lemma ll_scan_effect:
  "alone i own peer (view s) \<Longrightarrow>
     \<exists>s'. ll_scan lo n s = (Nothing, s') \<and> view s' = view s \<and> dlcb s' = dlcb s"
proof (induction n arbitrary: s)
  case (Suc n)
  have "\<exists>s'. ll_scan lo n (next_ll s) = (Nothing, s') \<and> view s' = view (next_ll s) \<and> dlcb s' = dlcb (next_ll s)"
    by (rule Suc.IH) (simp add: Suc.prems)
  then show ?case using no_ui_pending [OF Suc.prems] by (auto split: option.splits)
qed simp

text \<open>What taking the next PDU does to the view when only connection \<open>i\<close> can have one.\<close>

definition taken :: "nat \<Rightarrow> byte \<Rightarrow> byte \<Rightarrow> dlcb \<Rightarrow> dl_view \<Rightarrow> bt_hdr \<Rightarrow> dl_view \<Rightarrow> bool" where
  "taken i own peer d v b' v' \<longleftrightarrow>
     (\<exists>b q k. i_xmit_q d = b # q \<and> llcp_dlc_is_rw_open d \<and> (k = sent_ack_seq d \<or> k = next_rx_seq d)
        \<and> body b' = i_bytes own peer (next_tx_seq d) k (body b) \<and> v' = set_dl i (sent_i q k) v)"

lemma dl_scan_effect:
  "alone i own peer (view s) \<Longrightarrow> \<forall>b \<in> set (i_xmit_q (dlcb s i)). LLCP_MIN_OFFSET \<le> unat (offset b) \<Longrightarrow>
     (\<exists>s'. dl_scan quiet_env False n s = Some (Nothing, s') \<and> view s' = view s)
   \<or> (\<exists>b s'. dl_scan quiet_env False n s = Some (Taken b, s') \<and> taken i own peer (dlcb s i) (view s) b (view s'))"
proof (induction n arbitrary: s)
  case (Suc n)
  let ?j = "unat (dl_idx (lcb s))"
  show ?case
  proof (cases "?j = i")
    case False
    then have idle: "dl_state (dlcb s ?j) = LLCP_DLC_STATE_IDLE"
      using Suc.prems(1) by (auto simp: alone_def view_def)
    then show ?thesis using Suc.IH [of "next_dl s"] Suc.prems by simp
  next
    case True
    note c = alone_state(1) [OF Suc.prems(1)]
    from Suc.prems show ?thesis
    proof (cases rule: get_next_pdu_effect)
      case (none s')
      have dl: "i_xmit_q (dlcb s' i) = i_xmit_q (dlcb s i)" "next_tx_seq (dlcb s' i) = next_tx_seq (dlcb s i)"
        "rcvd_ack_seq (dlcb s' i) = rcvd_ack_seq (dlcb s i)" "sent_ack_seq (dlcb s' i) = sent_ack_seq (dlcb s i)"
        "next_rx_seq (dlcb s' i) = next_rx_seq (dlcb s i)" "remote_rw (dlcb s' i) = remote_rw (dlcb s i)"
        using none(2) by (metis core_simps dl_of_view)+
      have t: "taken i own peer (dlcb s' i) v b w = taken i own peer (dlcb s i) v b w" for v b w
        by (simp add: taken_def dl llcp_dlc_is_rw_open_def)
      show ?thesis
        using Suc.IH [of "next_dl s'"] none Suc.prems True c by (simp add: dl t)
    next
      case (pdu b q k b' s')
      then show ?thesis using True c by (simp add: taken_def) blast
    qed
  qed
qed simp

lemma sched_effect:
  assumes "alone i own peer (view s)" "\<forall>b \<in> set (i_xmit_q (dlcb s i)). LLCP_MIN_OFFSET \<le> unat (offset b)"
  shows "(\<exists>s'. sched_rounds quiet_env False n s = Some (Nothing, s') \<and> view s' = view s)
   \<or> (\<exists>b s'. sched_rounds quiet_env False n s = Some (Taken b, s') \<and> taken i own peer (dlcb s i) (view s) b (view s'))"
  using assms
proof (induction n arbitrary: s)
  case (Suc n)
  show ?case
  proof (cases "ll_served (lcb s)")
    case False
    obtain s1 where s1: "ll_scan False LLCP_NUM_SAPS s = (Nothing, s1)" "view s1 = view s" "dlcb s1 = dlcb s"
      using ll_scan_effect [OF Suc.prems(1)] by blast
    then show ?thesis using Suc.IH [of s1] Suc.prems False by simp
  next
    case True
    consider s' where "dl_scan quiet_env False LLCP_MAX_DATA_LINK s = Some (Nothing, s')" "view s' = view s"
      | b s' where "dl_scan quiet_env False LLCP_MAX_DATA_LINK s = Some (Taken b, s')"
          "taken i own peer (dlcb s i) (view s) b (view s')"
      using dl_scan_effect [OF Suc.prems] by blast
    then show ?thesis
    proof cases
      case 1
      have dl: "i_xmit_q (dlcb s' i) = i_xmit_q (dlcb s i)" "next_tx_seq (dlcb s' i) = next_tx_seq (dlcb s i)"
        "rcvd_ack_seq (dlcb s' i) = rcvd_ack_seq (dlcb s i)" "sent_ack_seq (dlcb s' i) = sent_ack_seq (dlcb s i)"
        "next_rx_seq (dlcb s' i) = next_rx_seq (dlcb s i)" "remote_rw (dlcb s' i) = remote_rw (dlcb s i)"
        using 1(2) by (metis core_simps dl_of_view)+
      have t: "taken i own peer (dlcb s' i) v b w = taken i own peer (dlcb s i) v b w" for v b w
        by (simp add: taken_def dl llcp_dlc_is_rw_open_def)
      show ?thesis using Suc.IH [of s'] 1 Suc.prems True by (simp add: dl t)
    next
      case 2
      then show ?thesis using True by auto
    qed
  qed
qed simp

lemma next_pdu_effect:
  assumes a: "alone i own peer (view s)" "\<forall>b \<in> set (i_xmit_q (dlcb s i)). LLCP_MIN_OFFSET \<le> unat (offset b)"
    and r: "llcp_link_get_next_pdu quiet_env False s = Some (Taken b, s')"
  shows "if v_sig (view s) = [] then taken i own peer (dlcb s i) (view s) b (view s')
    else b = hd (v_sig (view s)) \<and> view s' = (view s)\<lparr>v_sig := tl (v_sig (view s))\<rparr>"
proof (cases "sig_xmit_q (lcb s)")
  case Nil
  then show ?thesis using sched_effect [OF a, of 2] r by (auto simp: llcp_link_get_next_pdu_def view_def)
next
  case (Cons x q)
  then show ?thesis using r by (auto simp: llcp_link_get_next_pdu_def view_def upd_lcb_def)
qed

section \<open>Acknowledging\<close>

text \<open>RR and RNR: nothing, only a new V(RA) (no buffer was available), or one more PDU to send.\<close>

definition acked :: "nat \<Rightarrow> byte \<Rightarrow> byte \<Rightarrow> dl_view \<Rightarrow> dl_view \<Rightarrow> bool" where
  "acked i own peer v v' \<longleftrightarrow>
     (\<exists>k q. (k = sent_ack_seq (v_dl v i) \<or> k = next_rx_seq (v_dl v i))
        \<and> (q = [] \<or> (\<exists>rnr. q = [new_pdu (ack_bytes own peer rnr k)]))
        \<and> v' = (set_dl i (\<lambda>d. d\<lparr>sent_ack_seq := k\<rparr>) v)\<lparr>v_sig := v_sig v @ q\<rparr>)"

lemma acked_none: "acked i own peer v v"
proof -
  have "v = (set_dl i (\<lambda>d. d\<lparr>sent_ack_seq := sent_ack_seq (v_dl v i)\<rparr>) v)\<lparr>v_sig := v_sig v @ []\<rparr>"
    by (simp add: set_dl_def)
  then show ?thesis unfolding acked_def by blast
qed

lemma send_rr_rnr_effect:
  assumes a: "alone i own peer (view s)"
  shows "\<exists>s'. llcp_util_send_rr_rnr quiet_env i s = Some s' \<and> acked i own peer (view s) (view s')"
proof (cases "rr_rnr_needed s (dlcb s i)")
  case False
  then show ?thesis by (simp add: llcp_util_send_rr_rnr_def acked_none)
next
  case True
  let ?off = "rx_flow_off s (dlcb s i)"
  define s1 where "s1 = (if ?off then s else upd_dl i (\<lambda>d. d\<lparr>sent_ack_seq := next_rx_seq d\<rparr>) s)"
  define k where "k = sent_ack_seq (dlcb s1 i)"
  obtain got s2 where g: "GKI_getpoolbuf_llcp s1 = (got, s2)" by fastforce
  note g' = view_getpoolbuf [OF g]
  have k: "k = sent_ack_seq (v_dl (view s) i) \<or> k = next_rx_seq (v_dl (view s) i)"
    by (simp add: k_def s1_def dl_of_view [symmetric])
  have v1: "view s1 = set_dl i (\<lambda>d. d\<lparr>sent_ack_seq := k\<rparr>) (view s)"
    by (auto simp: s1_def k_def view_def set_dl_def fun_eq_iff)
  have sap: "local_sap (dlcb s2 i) = own" "remote_sap (dlcb s2 i) = peer"
    using alone_state(2,3) [OF a] g' by (simp_all add: s1_def)
  let ?s3 = "upd_dl i (clear_flag LLCP_DATA_LINK_FLAG_PENDING_RR_RNR) s2"
  have v3: "view ?s3 = view s1" using g' by (simp add: view_upd_dl_drop)
  have e: "llcp_util_send_rr_rnr quiet_env i s = Some (if got then enqueue_sig (new_pdu (ack_bytes own peer ?off k)) ?s3 else s2)"
    using True sap g' by (simp add: llcp_util_send_rr_rnr_def Let_def s1_def [symmetric] k_def [symmetric] g
        send_sig_def ack_bytes_def clear_flag_def)
  have w: "view (if got then enqueue_sig (new_pdu (ack_bytes own peer ?off k)) ?s3 else s2)
      = (set_dl i (\<lambda>d. d\<lparr>sent_ack_seq := k\<rparr>) (view s))\<lparr>v_sig := v_sig (view s)
          @ (if got then [new_pdu (ack_bytes own peer ?off k)] else [])\<rparr>"
    using g' v1 v3 by simp
  show ?thesis unfolding e acked_def using k w by (intro exI conjI) (rule refl, assumption, auto)
qed

end
