(* ===== verification/Llcp_Receive.thy ===== *)
theory Llcp_Receive
  imports Llcp_Effects
begin

text \<open>
  The receiving side of a station with one connection: the content of a receive queue, and the effect
  of an I, RR or RNR PDU, of reading and of the busy flag on the view.
\<close>

section \<open>Content of the receive queue\<close>

definition frames :: "byte list list \<Rightarrow> byte list" where
  "frames xs = concat (map (\<lambda>x. be16_bytes (of_nat (length x)) @ x) xs)"

definition fits :: "bt_hdr \<Rightarrow> bool" where
  "fits b \<longleftrightarrow> BT_HDR_SIZE + unat (offset b) + length (body b) \<le> unat (bsize b)"

definition rx_buf :: "bt_hdr \<Rightarrow> byte list list \<Rightarrow> bool" where
  "rx_buf b xs \<longleftrightarrow> xs \<noteq> [] \<and> body b = frames xs \<and> (\<forall>x \<in> set xs. length x < 65536) \<and> fits b \<and> layer_specific b = 0"

text \<open>The SDUs a queue holds, in order.\<close>

primrec rx_holds :: "bt_hdr list \<Rightarrow> byte list list \<Rightarrow> bool" where
  "rx_holds [] xs \<longleftrightarrow> xs = []"
| "rx_holds (b # q) xs \<longleftrightarrow> (\<exists>ys zs. rx_buf b ys \<and> rx_holds q zs \<and> xs = ys @ zs)"

lemma frames_simps [simp]:
  "frames [] = []" "frames (x # xs) = be16_bytes (of_nat (length x)) @ x @ frames xs"
  "frames (xs @ ys) = frames xs @ frames ys"
  by (simp_all add: frames_def)

lemma rx_holds_append: "rx_holds (q @ r) xs \<longleftrightarrow> (\<exists>ys zs. rx_holds q ys \<and> rx_holds r zs \<and> xs = ys @ zs)"
proof (induction q arbitrary: xs)
  case (Cons b q)
  then show ?case by simp (metis append.assoc)
qed simp

lemma rx_holds_single: "rx_holds [b] xs \<longleftrightarrow> rx_buf b xs"
  by simp

lemma fits_available:
  assumes "fits b" shows "unat (available_bytes b) = unat (bsize b) - BT_HDR_SIZE - unat (offset b) - length (body b)"
proof -
  have b: "8 + unat (offset b) + length (body b) \<le> unat (bsize b)" using assms by (simp add: fits_def BT_HDR_SIZE_def)
  have u: "unat (bsize b) < 65536" by (rule unat_u16_less)
  have l: "unat (blen b) = length (body b)" using b u by (simp add: blen_def unat_of_nat)
  have 1: "unat (bsize b - 8) = unat (bsize b) - 8" using b by (simp add: unat_sub word_le_nat_alt)
  have 2: "unat (bsize b - 8 - offset b) = unat (bsize b) - 8 - unat (offset b)"
    using b by (simp add: unat_sub word_le_nat_alt 1)
  show ?thesis
    using b by (simp add: available_bytes_def BT_HDR_SIZE_def unat_sub word_le_nat_alt 2 l)
qed

lemma append_last_holds:
  assumes q: "rx_holds q xs" and x: "length x < 65536"
  shows "(append_last (of_nat (length x)) x q = Some None)
    \<or> (\<exists>q'. append_last (of_nat (length x)) x q = Some (Some q') \<and> rx_holds q' (xs @ [x]))"
proof (cases "q = [] \<or> unat (available_bytes (last q)) < LLCP_PDU_AGF_LEN_SIZE + unat (of_nat (length x) :: u16)")
  case True
  then show ?thesis by (simp add: append_last_def)
next
  case False
  then obtain p b where qb: "q = p @ [b]" by (metis rev_exhaust)
  obtain ys zs where h: "rx_holds p ys" "rx_buf b zs" "xs = ys @ zs"
    using q unfolding qb rx_holds_append rx_holds_single by blast
  have u: "unat (of_nat (length x) :: u16) = length x" using x by (simp add: unat_of_nat)
  have room: "2 + length x \<le> unat (bsize b) - 8 - unat (offset b) - length (body b)"
    using False fits_available [of b] h(2) u by (simp add: qb rx_buf_def LLCP_PDU_AGF_LEN_SIZE_def BT_HDR_SIZE_def)
  let ?b = "b\<lparr>body := body b @ be16_bytes (of_nat (length x)) @ x\<rparr>"
  have a: "append_bytes (be16_bytes (of_nat (length x)) @ x) b = Some ?b"
    using room by (simp add: append_bytes_def BT_HDR_SIZE_def)
  have "rx_buf ?b (zs @ [x])" using h(2) x room by (simp add: rx_buf_def fits_def BT_HDR_SIZE_def)
  then have "rx_holds (p @ [?b]) (xs @ [x])"
    unfolding rx_holds_append rx_holds_single h(3) using h(1) by (metis append.assoc)
  then show ?thesis using False by (simp add: append_last_def qb a)
qed

section \<open>A received I PDU\<close>

lemma blen_pdu:
  assumes "fits b" "body b = h @ [sb] @ x" "length h = 2"
  shows "blen b - of_nat LLCP_PDU_HEADER_SIZE - of_nat LLCP_SEQUENCE_SIZE = of_nat (length x)" "length x < 65536"
proof -
  have "unat (bsize b) < 65536" by (rule unat_u16_less)
  then show "length x < 65536" using assms by (simp add: fits_def)
  show "blen b - of_nat LLCP_PDU_HEADER_SIZE - of_nat LLCP_SEQUENCE_SIZE = of_nat (length x)"
    using assms by (simp add: blen_def llcp_sizes)
qed

text \<open>Where the PDU can be put: the buffer it came in, or, for a part of an AGF PDU, a fresh one.\<close>

definition free_buffers :: "llcp_cb \<Rightarrow> nat" where
  "free_buffers s = length (takeWhile id (pool s))"

lemma free_buffers_upd [simp]:
  "free_buffers (upd_dl i f s) = free_buffers s" "free_buffers (s\<lparr>total_rx_i_pdu := n\<rparr>) = free_buffers s"
  "free_buffers (llcp_util_check_rx_congested_status s) = free_buffers s"
  by (simp_all add: free_buffers_def llcp_util_check_rx_congested_status_def mark_rr_rnr_def for_dl_def Let_def)

definition rx_room :: "bt_hdr option \<Rightarrow> byte list \<Rightarrow> llcp_cb \<Rightarrow> bool" where
  "rx_room p x s \<longleftrightarrow> (case p of
     Some b \<Rightarrow> fits b \<and> (\<exists>h sb. body b = h @ [sb] @ x \<and> length h = 2)
   | None \<Rightarrow> 0 < free_buffers s \<and> length x \<le> unat LLCP_POOL_BUF_SIZE - 16)"

lemma rx_room_upd [simp]: "rx_room p x (upd_dl i f s) = rx_room p x s"
  by (simp add: rx_room_def split: option.split)

lemma rx_room_length: "rx_room p x s \<Longrightarrow> length x < 65536"
  using blen_pdu(2) by (auto simp: rx_room_def LLCP_POOL_BUF_SIZE_def split: option.splits)

lemma rx_buffer_effect:
  assumes "rx_room p x s"
  shows "\<exists>b s'. rx_buffer p (of_nat (length x)) x s = Some (Some b, s') \<and> rx_buf b [x]
    \<and> view s' = view s \<and> dlcb s' = dlcb s \<and> free_buffers s \<le> Suc (free_buffers s')"
proof (cases p)
  case (Some b)
  obtain h sb where b: "fits b" "body b = h @ [sb] @ x" "length h = 2" using assms by (auto simp: rx_room_def Some)
  have o: "unat (offset b) + 1 < 65536" using b unat_u16_less [of "bsize b"] by (simp add: fits_def BT_HDR_SIZE_def)
  then have "unat (offset b + 1) = unat (offset b) + 1" by (simp add: unat_word_ariths)
  then show ?thesis using b rx_room_length [OF assms] by (simp add: rx_buffer_def Some rx_buf_def fits_def)
next
  case None
  then obtain bs where f: "pool s = True # bs" and x: "length x \<le> unat LLCP_POOL_BUF_SIZE - 16"
    using assms by (cases "pool s") (auto simp: rx_room_def free_buffers_def split: if_splits)
  then have "GKI_getpoolbuf_llcp s = (True, s\<lparr>pool := bs\<rparr>)" by (simp add: GKI_getpoolbuf_llcp_def)
  then show ?thesis
    using x rx_room_length [OF assms]
    by (simp add: rx_buffer_def None append_bytes_def new_pdu_def rx_buf_def fits_def BT_HDR_SIZE_def
        LLCP_POOL_BUF_SIZE_def free_buffers_def f)
qed

lemma store_effect:
  assumes q: "rx_holds (i_rx_q (dlcb s i)) xs" and p: "rx_room p x s"
  shows "\<exists>q' s'. store_i_pdu i (of_nat (length x)) x p s = Some s' \<and> rx_holds q' (xs @ [x])
    \<and> view s' = set_dl i (\<lambda>d. d\<lparr>i_rx_q := q'\<rparr>) (view s) \<and> free_buffers s \<le> Suc (free_buffers s')"
proof -
  note x = rx_room_length [OF p]
  have v: "view (upd_dl i (\<lambda>d. d\<lparr>i_rx_q := q'\<rparr>) s) = set_dl i (\<lambda>d. d\<lparr>i_rx_q := q'\<rparr>) (view s)" for q'
    by (rule view_upd_dl) simp
  show ?thesis
    using append_last_holds [OF q x]
  proof (elim disjE exE conjE)
    fix q' assume "append_last (of_nat (length x)) x (i_rx_q (dlcb s i)) = Some (Some q')" "rx_holds q' (xs @ [x])"
    then show ?thesis using v by (auto simp: store_i_pdu_def)
  next
    assume n: "append_last (of_nat (length x)) x (i_rx_q (dlcb s i)) = Some None"
    obtain b s1 where b: "rx_buffer p (of_nat (length x)) x s = Some (Some b, s1)" "rx_buf b [x]" "view s1 = view s"
      "dlcb s1 = dlcb s" "free_buffers s \<le> Suc (free_buffers s1)"
      using rx_buffer_effect [OF p] by blast
    let ?q = "i_rx_q (dlcb s i) @ [b]"
    have h: "rx_holds ?q (xs @ [x])" unfolding rx_holds_append rx_holds_single using q b(2) by blast
    have v': "view (upd_dl i (\<lambda>d. d\<lparr>i_rx_q := i_rx_q d @ [b]\<rparr>) s1) = set_dl i (\<lambda>d. d\<lparr>i_rx_q := ?q\<rparr>) (view s)"
      by (subst view_upd_dl [where g = "\<lambda>d. d\<lparr>i_rx_q := i_rx_q d @ [b]\<rparr>"])
         (simp_all add: set_dl_def b(3) dl_of_view [symmetric])
    show ?thesis using h v' n b(1,5) by (auto simp: store_i_pdu_def)
  qed
qed

lemma data_ind_quiet:
  assumes "alone i own peer (view s)" shows "dlsm quiet_env i LLCP_DLC_EVENT_PEER_DATA_IND s = Some s"
  using alone_state(1) [OF assms] by (simp add: dlsm_def llcp_dlsm_execute_def llcp_dlsm_connected_def)

text \<open>The connection after the I PDU with N(R) = \<open>nr\<close> was stored in \<open>q\<close>.\<close>

definition got_i :: "bt_hdr list \<Rightarrow> byte \<Rightarrow> dlcb \<Rightarrow> dlcb" where
  "got_i q nr d = d\<lparr>next_rx_seq := (next_rx_seq d + 1) mod LLCP_SEQ_MODULO, rcvd_ack_seq := nr, i_rx_q := q\<rparr>"

lemma got_i_fields [simp]:
  "dl_state (got_i q nr d) = dl_state d" "dl_flags (got_i q nr d) = dl_flags d"
  "local_sap (got_i q nr d) = local_sap d" "remote_sap (got_i q nr d) = remote_sap d"
  by (simp_all add: got_i_def)

lemma accept_effect:
  assumes a: "alone i own peer (view s)" and q: "rx_holds (i_rx_q (dlcb s i)) xs" and p: "rx_room p x s"
  shows "\<exists>q' s'. accept_i_pdu quiet_env i nr (of_nat (length x)) x p s = Some s'
    \<and> rx_holds q' (xs @ [x]) \<and> view s' = set_dl i (got_i q' nr) (view s) \<and> free_buffers s \<le> Suc (free_buffers s')"
proof -
  define f :: "dlcb \<Rightarrow> dlcb" where "f = (\<lambda>d. d\<lparr>next_rx_seq := (next_rx_seq d + 1) mod LLCP_SEQ_MODULO, rcvd_ack_seq := nr\<rparr>)"
  let ?s1 = "upd_dl i f s"
  have v1: "view ?s1 = set_dl i f (view s)" by (rule view_upd_dl) (simp add: f_def)
  have q1: "rx_holds (i_rx_q (dlcb ?s1 i)) xs" using q by (simp add: f_def)
  have p1: "rx_room p x ?s1" using p by simp
  obtain q' s2 where s2: "store_i_pdu i (of_nat (length x)) x p ?s1 = Some s2" "rx_holds q' (xs @ [x])"
    "view s2 = set_dl i (\<lambda>d. d\<lparr>i_rx_q := q'\<rparr>) (view ?s1)" "free_buffers ?s1 \<le> Suc (free_buffers s2)"
    using store_effect [OF q1 p1] by blast
  let ?s3 = "upd_dl i (\<lambda>d. d\<lparr>num_rx_i_pdu := num_rx_i_pdu d + 1\<rparr>) s2"
  have v2: "view s2 = set_dl i (got_i q' nr) (view s)"
    unfolding s2(3) v1 by (simp add: f_def got_i_def [abs_def])
  have v3: "view ?s3 = set_dl i (got_i q' nr) (view s)" by (subst view_upd_dl_drop) (simp_all add: v2)
  have a3: "alone i own peer (view ?s3)" unfolding v3 by (rule alone_set_dl [OF a]) simp_all
  let ?c = "\<not> is_rx_congested (dlcb ?s3 i) \<and> rx_congest_threshold (dlcb ?s3 i) \<le> num_rx_i_pdu (dlcb ?s3 i)"
  let ?s4 = "if ?c then upd_dl i (\<lambda>d. set_flag LLCP_DATA_LINK_FLAG_PENDING_RR_RNR (d\<lparr>is_rx_congested := True\<rparr>)) ?s3 else ?s3"
  have v4: "view ?s4 = view ?s3" by (simp add: view_upd_dl_drop)
  have p4: "free_buffers ?s4 = free_buffers s2" by simp
  have "accept_i_pdu quiet_env i nr (of_nat (length x)) x p s = Some ?s4"
    unfolding accept_i_pdu_def Let_def f_def [symmetric] using s2(1) data_ind_quiet [OF a3] by simp
  then show ?thesis using s2(2,4) v4 v3 p4 by auto
qed

lemma view_stop_inactivity [simp]:
  "view (llcp_link_stop_inactivity_timer s) = view s" "dlcb (llcp_link_stop_inactivity_timer s) = dlcb s"
  by (simp_all add: llcp_link_stop_inactivity_timer_def upd_lcb_def view_def)

lemma ptype_fields:
  assumes "unat dsap < 64" "unat ssap < 64" "unat ptype < 16"
  shows "LLCP_GET_DSAP (LLCP_GET_PDU_HEADER dsap ptype ssap) = dsap"
    "LLCP_GET_PTYPE (LLCP_GET_PDU_HEADER dsap ptype ssap) = ptype"
    "LLCP_GET_SSAP (LLCP_GET_PDU_HEADER dsap ptype ssap) = ssap"
  using assms by (simp_all add: header_fields small_byte_iff)

lemma seq_fields:
  assumes "unat ns < 16" "unat nr < 16"
  shows "LLCP_GET_NS (LLCP_GET_SEQUENCE ns nr) = ns" "LLCP_GET_NR (LLCP_GET_SEQUENCE ns nr) = nr"
  using assms by (simp_all add: sequence_fields small_byte_iff)

lemma receive_i_effect:
  assumes a: "alone i own peer (view s)" and q: "rx_holds (i_rx_q (dlcb s i)) xs"
    and b: "fits b" "body b = i_bytes peer own ns nr x"
    and sb: "unat ns < 16" "unat nr < 16" and ok: "i_pdu_errors (dlcb s i) (of_nat (length x)) (LLCP_GET_SEQUENCE ns nr) = 0"
    and m: "length x \<le> unat (local_link_miu (lcb s))"
  shows "\<exists>q' s'. rx_frame quiet_env params b s = Some s'
    \<and> rx_holds q' (xs @ [x]) \<and> view s' = set_dl i (got_i q' nr) (view s)"
proof -
  let ?h = "LLCP_GET_PDU_HEADER own LLCP_PDU_I_TYPE peer"
  let ?sb = "LLCP_GET_SEQUENCE ns nr"
  have sap: "unat own < 64" "unat peer < 64" using a by (simp_all add: alone_def)
  have bb: "body b = be16_bytes ?h @ [?sb] @ x" using b(2) by (simp add: i_bytes_def)
  let ?s = "llcp_link_stop_inactivity_timer s"
  have a': "alone i own peer (view ?s)" using a by simp
  have q': "rx_holds (i_rx_q (dlcb ?s i)) xs" using q by simp
  have n: "blen b - of_nat LLCP_PDU_HEADER_SIZE - of_nat LLCP_SEQUENCE_SIZE = of_nat (length x)" and x: "length x < 65536"
    using blen_pdu [OF b(1) bb] by simp_all
  have u: "unat (of_nat (length x) :: u16) = length x" using x by (simp add: unat_of_nat)
  have room: "rx_room (Some b) x ?s" unfolding rx_room_def option.case using b(1) bb length_be16_bytes by blast
  have r1: "rd (body b) LLCP_PDU_HEADER_SIZE = Some ?sb" by (simp add: bb rd_def llcp_sizes nth_append)
  have r2: "rd_bytes (body b) (LLCP_PDU_HEADER_SIZE + LLCP_SEQUENCE_SIZE) (length x) = Some x"
    by (simp add: bb rd_bytes_def llcp_sizes be16_bytes_def)
  have p: "llcp_dlc_proc_i_pdu quiet_env own peer 0 [] 0 (Some b) ?s
      = accept_i_pdu quiet_env i nr (of_nat (length x)) x (Some b) ?s"
    using alone_state(1) [OF a] ok n r1 r2 u seq_fields [OF sb]
    by (simp add: llcp_dlc_proc_i_pdu_def alone_find [OF a'] Let_def add.commute)
  have "rx_frame quiet_env params b s = accept_i_pdu quiet_env i nr (of_nat (length x)) x (Some b) ?s"
    using m sap by (simp add: rx_frame_def bb ptype_fields frame_passes_def llcp_link_proc_rx_pdu_def p llcp_sizes)
  moreover obtain q2 s2 where "accept_i_pdu quiet_env i nr (of_nat (length x)) x (Some b) ?s = Some s2"
    "rx_holds q2 (xs @ [x])" "view s2 = set_dl i (got_i q2 nr) (view ?s)"
    using accept_effect [OF a' q' room, of nr] by blast
  ultimately show ?thesis by auto
qed

section \<open>A received RR or RNR PDU\<close>

lemma rr_rnr_effect:
  assumes a: "alone i own peer (view s)" and r: "rd m p = Some nr" "unat nr < 16" and ok: "nr_valid (dlcb s i) nr"
  shows "\<exists>s'. llcp_dlc_proc_rx_pdu quiet_env own (if rnr then LLCP_PDU_RNR_TYPE else LLCP_PDU_RR_TYPE) peer 1 m p params s = Some s'
    \<and> view s' = set_dl i (\<lambda>d. d\<lparr>rcvd_ack_seq := nr\<rparr>) (view s) \<and> free_buffers s' = free_buffers s"
proof -
  let ?p = "if rnr then LLCP_PDU_RNR_TYPE else LLCP_PDU_RR_TYPE"
  have n: "LLCP_GET_NR nr = nr"
    using r(2) seq_fields(2) [of 0 nr] by (simp add: LLCP_GET_SEQUENCE_def)
  define s1 where "s1 = upd_dl i (\<lambda>d. d\<lparr>rcvd_ack_seq := nr\<rparr>) s"
  have v1: "view s1 = set_dl i (\<lambda>d. d\<lparr>rcvd_ack_seq := nr\<rparr>) (view s)"
    unfolding s1_def by (subst view_upd_dl [where g = "\<lambda>d. d\<lparr>rcvd_ack_seq := nr\<rparr>"]) simp_all
  define s2 where "s2 = upd_dl i (\<lambda>d. d\<lparr>remote_busy := rnr\<rparr>) s1"
  have s2: "set_remote_busy quiet_env i rnr s1 = Some s2" "view s2 = view s1" "free_buffers s2 = free_buffers s"
    by (simp_all add: s2_def s1_def set_remote_busy_def Let_def view_upd_dl_drop)
  have a2: "alone i own peer (view s2)" unfolding s2(2) v1 by (rule alone_set_dl [OF a]) simp_all
  have c: "check_pending_disc quiet_env i s2 = Some s2"
    using alone_state(4) [OF a2] by (simp add: check_pending_disc_def)
  have "llcp_dlc_proc_rr_rnr_pdu quiet_env own ?p peer 1 m p s = Some s2"
    using ok r(1) n s2(1) c by (cases rnr) (simp_all add: llcp_dlc_proc_rr_rnr_pdu_def alone_find [OF a] Let_def s1_def)
  moreover have "own \<noteq> LLCP_SAP_LM" using a by (simp add: alone_def)
  ultimately show ?thesis using s2(2,3) v1 by (cases rnr) (simp_all add: llcp_dlc_proc_rx_pdu_def)
qed

lemma receive_ack_effect:
  assumes a: "alone i own peer (view s)" and b: "body b = ack_bytes peer own rnr nr"
    and nr: "unat nr < 16" and ok: "nr_valid (dlcb s i) nr"
  shows "\<exists>s'. rx_frame quiet_env params b s = Some s' \<and> view s' = set_dl i (\<lambda>d. d\<lparr>rcvd_ack_seq := nr\<rparr>) (view s)"
proof -
  let ?h = "LLCP_GET_PDU_HEADER own (if rnr then LLCP_PDU_RNR_TYPE else LLCP_PDU_RR_TYPE) peer"
  have sap: "unat own < 64" "unat peer < 64" using a by (simp_all add: alone_def)
  have bb: "body b = be16_bytes ?h @ [nr]" using b by (simp add: ack_bytes_def)
  let ?s = "llcp_link_stop_inactivity_timer s"
  have "alone i own peer (view ?s)" "nr_valid (dlcb ?s i) nr" using a ok by simp_all
  moreover have "rd (body b) 2 = Some nr" by (simp add: rd_def nth_append bb)
  ultimately obtain s2 where s2: "llcp_dlc_proc_rx_pdu quiet_env own (if rnr then LLCP_PDU_RNR_TYPE else LLCP_PDU_RR_TYPE) peer 1
      (body b) 2 params ?s = Some s2" "view s2 = set_dl i (\<lambda>d. d\<lparr>rcvd_ack_seq := nr\<rparr>) (view ?s)"
    using rr_rnr_effect nr by blast
  have bl: "blen b - of_nat LLCP_PDU_HEADER_SIZE = 1" by (simp add: blen_def bb llcp_sizes)
  have "rx_frame quiet_env params b s = Some s2"
    using sap bl s2(1) by (cases rnr) (simp_all add: rx_frame_def ptype_fields frame_passes_def llcp_link_proc_rx_pdu_def
        bb llcp_sizes)
  then show ?thesis using s2(2) by simp
qed

section \<open>The parts of an AGF PDU\<close>

lemma part_i_accept:
  assumes a: "alone i own peer (view s)"
    and m: "at m p (i_bytes peer own ns nr x)" and sb: "unat ns < 16" "unat nr < 16"
    and ok: "i_pdu_errors (dlcb s i) (of_nat (length x)) (LLCP_GET_SEQUENCE ns nr) = 0" and l: "length x < 65536"
  shows "agf_pdu quiet_env params m p (of_nat (length (i_bytes peer own ns nr x))) s
    = map_option Inl (accept_i_pdu quiet_env i nr (of_nat (length x)) x None s)"
proof -
  let ?h = "LLCP_GET_PDU_HEADER own LLCP_PDU_I_TYPE peer"
  let ?sb = "LLCP_GET_SEQUENCE ns nr"
  have sap: "unat own < 64" "unat peer < 64" using a by (simp_all add: alone_def)
  have m': "at m p (be16_bytes ?h)" "rd m (p + 2) = Some ?sb" "at m (p + 3) x"
    using m by (simp_all add: i_bytes_def at_append at_Cons numeral_3_eq_3)
  have r3: "rd_bytes m (Suc (Suc (Suc p))) (length x) = Some x"
    using at_rd_bytes [OF m'(3) refl] by (simp add: numeral_3_eq_3)
  have u: "unat (of_nat (length x) :: u16) = length x" using l by (simp add: unat_of_nat)
  have n: "of_nat (length (i_bytes peer own ns nr x)) - of_nat LLCP_PDU_HEADER_SIZE - of_nat LLCP_SEQUENCE_SIZE
      = (of_nat (length x) :: u16)"
    by (simp add: i_bytes_def llcp_sizes)
  have "llcp_dlc_proc_i_pdu quiet_env own peer (of_nat (length (i_bytes peer own ns nr x))) m p None s
      = accept_i_pdu quiet_env i nr (of_nat (length x)) x None s"
    using alone_state(1) [OF a] ok n m'(2) r3 u seq_fields [OF sb]
    by (simp add: llcp_dlc_proc_i_pdu_def alone_find [OF a] Let_def llcp_sizes)
  then show ?thesis using sap by (simp add: agf_pdu_def at_be16 [OF m'(1)] ptype_fields)
qed

lemma part_i_effect:
  assumes a: "alone i own peer (view s)" and q: "rx_holds (i_rx_q (dlcb s i)) xs"
    and m: "at m p (i_bytes peer own ns nr x)" and sb: "unat ns < 16" "unat nr < 16"
    and ok: "i_pdu_errors (dlcb s i) (of_nat (length x)) (LLCP_GET_SEQUENCE ns nr) = 0" and r: "rx_room None x s"
  shows "\<exists>q' s'. agf_pdu quiet_env params m p (of_nat (length (i_bytes peer own ns nr x))) s = Some (Inl s')
    \<and> rx_holds q' (xs @ [x]) \<and> view s' = set_dl i (got_i q' nr) (view s) \<and> free_buffers s \<le> Suc (free_buffers s')"
  using accept_effect [OF a q r, of nr] part_i_accept [OF a m sb ok rx_room_length [OF r], of params] by auto

text \<open>Without a buffer, and without room in the last one of the queue, the PDU is acknowledged and lost.\<close>

lemma aggregated_pdu_lost:
  assumes a: "alone i own peer (view s)"
    and m: "at m p (i_bytes peer own ns nr x)" and sb: "unat ns < 16" "unat nr < 16"
    and ok: "i_pdu_errors (dlcb s i) (of_nat (length x)) (LLCP_GET_SEQUENCE ns nr) = 0" and l: "length x < 65536"
    and full: "append_last (of_nat (length x)) x (i_rx_q (dlcb s i)) = Some None" "free_buffers s = 0"
  shows "\<exists>s'. agf_pdu quiet_env params m p (of_nat (length (i_bytes peer own ns nr x))) s = Some (Inl s')
    \<and> view s' = set_dl i (got_i (i_rx_q (dlcb s i)) nr) (view s)"
proof -
  define f :: "dlcb \<Rightarrow> dlcb" where "f = (\<lambda>d. d\<lparr>next_rx_seq := (next_rx_seq d + 1) mod LLCP_SEQ_MODULO, rcvd_ack_seq := nr\<rparr>)"
  obtain s1 where g: "GKI_getpoolbuf_llcp (upd_dl i f s) = (False, s1)"
    using full(2) by (cases "pool s") (auto simp: GKI_getpoolbuf_llcp_def free_buffers_def split: if_splits)
  have v1: "view s1 = view (upd_dl i f s)" using view_getpoolbuf [OF g] by simp
  have v2: "view (upd_dl i f s) = set_dl i (got_i (i_rx_q (dlcb s i)) nr) (view s)"
    by (subst view_upd_dl [where g = f]) (auto simp: f_def set_dl_def got_i_def fun_eq_iff view_def)
  have st: "store_i_pdu i (of_nat (length x)) x None (upd_dl i f s) = Some s1"
    using full(1) g by (simp add: store_i_pdu_def rx_buffer_def f_def)
  let ?s3 = "upd_dl i (\<lambda>d. d\<lparr>num_rx_i_pdu := num_rx_i_pdu d + 1\<rparr>) s1"
  have v3: "view ?s3 = view s1" by (simp add: view_upd_dl_drop)
  have a3: "alone i own peer (view ?s3)" unfolding v3 v1 v2 by (rule alone_set_dl [OF a]) simp_all
  have "\<exists>s'. accept_i_pdu quiet_env i nr (of_nat (length x)) x None s = Some s' \<and> view s' = view s1"
    unfolding accept_i_pdu_def Let_def f_def [symmetric] using st data_ind_quiet [OF a3] v3 by (auto simp: view_upd_dl_drop)
  then show ?thesis using part_i_accept [OF a m sb ok l, of params] v1 v2 by auto
qed

lemma part_ack_effect:
  assumes a: "alone i own peer (view s)" and m: "at m p (ack_bytes peer own rnr nr)"
    and nr: "unat nr < 16" and ok: "nr_valid (dlcb s i) nr"
  shows "\<exists>s'. agf_pdu quiet_env params m p (of_nat (length (ack_bytes peer own rnr nr))) s = Some (Inl s')
    \<and> view s' = set_dl i (\<lambda>d. d\<lparr>rcvd_ack_seq := nr\<rparr>) (view s) \<and> free_buffers s \<le> Suc (free_buffers s')"
proof -
  let ?h = "LLCP_GET_PDU_HEADER own (if rnr then LLCP_PDU_RNR_TYPE else LLCP_PDU_RR_TYPE) peer"
  have sap: "unat own < 64" "unat peer < 64" using a by (simp_all add: alone_def)
  have m': "at m p (be16_bytes ?h)" "rd m (p + 2) = Some nr"
    using m by (simp_all add: ack_bytes_def at_append at_Cons)
  obtain s2 where s2: "llcp_dlc_proc_rx_pdu quiet_env own (if rnr then LLCP_PDU_RNR_TYPE else LLCP_PDU_RR_TYPE) peer 1
      m (p + 2) params s = Some s2" "view s2 = set_dl i (\<lambda>d. d\<lparr>rcvd_ack_seq := nr\<rparr>) (view s)" "free_buffers s2 = free_buffers s"
    using rr_rnr_effect [OF a m'(2) nr ok] by blast
  then show ?thesis
    using sap at_be16 [OF m'(1)] by (cases rnr) (simp_all add: agf_pdu_def ptype_fields ack_bytes_def llcp_sizes)
qed

section \<open>Acknowledging all connections\<close>

lemma acked_alone: "alone i own peer v \<Longrightarrow> acked i own peer v v' \<Longrightarrow> alone i own peer v'"
  unfolding acked_def by (elim exE conjE) (simp add: alone_def set_dl_def)

lemma check_rr_loop_effect:
  "alone i own peer (view s) \<Longrightarrow> distinct xs \<Longrightarrow>
     \<exists>s'. check_rr_loop quiet_env xs s = Some s'
       \<and> (if i \<in> set xs then acked i own peer (view s) (view s') else s' = s)"
proof (induction xs arbitrary: s)
  case (Cons j xs)
  show ?case
  proof (cases "j = i")
    case True
    obtain s1 where s1: "llcp_util_send_rr_rnr quiet_env i s = Some s1" "acked i own peer (view s) (view s1)"
      using send_rr_rnr_effect [OF Cons.prems(1)] by blast
    have a1: "alone i own peer (view s1)" by (rule acked_alone [OF Cons.prems(1) s1(2)])
    have "check_pending_disc quiet_env i s1 = Some s1"
      using alone_state(4) [OF a1] by (simp add: check_pending_disc_def)
    moreover have "check_rr_loop quiet_env xs s1 = Some s1"
      using Cons.IH [OF a1] Cons.prems(2) True by auto
    ultimately show ?thesis using True s1 alone_state(1) [OF Cons.prems(1)] by simp
  next
    case False
    then have "dl_state (dlcb s j) = LLCP_DLC_STATE_IDLE" using Cons.prems(1) by (auto simp: alone_def view_def)
    then show ?thesis using Cons.IH [OF Cons.prems(1)] Cons.prems(2) False by auto
  qed
qed simp

lemma check_to_send_effect:
  assumes a: "alone i own peer (view s)"
  shows "\<exists>s'. llcp_dlc_check_to_send_rr_rnr quiet_env s = Some s' \<and> acked i own peer (view s) (view s')"
  using check_rr_loop_effect [OF a, of "[0..<LLCP_MAX_DATA_LINK]"] alone_state(5) [OF a]
  by (simp add: llcp_dlc_check_to_send_rr_rnr_def)

section \<open>Reading and flow control by the application\<close>

lemma read_i_pdu_effect:
  assumes b: "rx_buf b (x # xs)" and n: "65535 \<le> unat n"
  shows "\<exists>b'. read_i_pdu n b = Some (x, b') \<and> layer_specific b' = 0 \<and> body b' = frames xs \<and> (xs = [] \<or> rx_buf b' xs)"
proof -
  have bb: "body b = be16_bytes (of_nat (length x)) @ x @ frames xs" and l: "length x < 65536"
    and ls: "layer_specific b = 0" and f: "BT_HDR_SIZE + unat (offset b) + length (body b) \<le> unat (bsize b)"
    and m: "\<forall>y \<in> set xs. length y < 65536"
    using b by (auto simp: rx_buf_def fits_def)
  have u: "unat (of_nat (length x) :: u16) = length x" using l by (simp add: unat_of_nat)
  have u': "unat (ucast (of_nat (length x) :: u16) :: u32) = length x" using l by (simp add: unat_ucast_mod u)
  have c: "(ucast (of_nat (length x) :: u16) :: u32) \<le> n" using n l by (simp add: word_le_nat_alt u')
  let ?b = "skip_i_pdu (of_nat (length x)) b"
  have r: "rd_bytes (body b) 2 (length x) = Some x" by (simp add: bb rd_bytes_def be16_bytes_def)
  have e: "read_i_pdu n b = Some (x, ?b)"
    using c r by (simp add: read_i_pdu_def ls u u' bb llcp_sizes)
  have bo: "body ?b = frames xs" by (simp add: skip_i_pdu_def bb u llcp_sizes be16_bytes_def)
  have "unat (bsize b) < 65536" by (rule unat_u16_less)
  then have "unat (offset b + of_nat (LLCP_PDU_AGF_LEN_SIZE + length x)) = unat (offset b) + (2 + length x)"
    using f by (simp add: unat_word_ariths unat_of_nat bb llcp_sizes)
  then have "fits ?b" using f by (simp add: fits_def bo bb) (simp add: skip_i_pdu_def u)
  then have "xs = [] \<or> rx_buf ?b xs" using bo m by (auto simp: rx_buf_def skip_i_pdu_def)
  then show ?thesis using e bo by (intro exI [of _ ?b]) (simp add: skip_i_pdu_def)
qed

lemma frames_Nil_iff [simp]: "frames xs = [] \<longleftrightarrow> xs = []"
  by (cases xs) (auto simp: be16_bytes_def)

lemma read_effect:
  assumes a: "alone i own peer (view s)" and q: "rx_holds (i_rx_q (dlcb s i)) xs" and n: "65535 \<le> unat n"
  shows "\<exists>q' more s'. LLCP_ReadDataLinkData own peer n s = Some (more, (case xs of [] \<Rightarrow> [] | x # _ \<Rightarrow> x), s')
    \<and> rx_holds q' (tl xs) \<and> view s' = set_dl i (\<lambda>d. d\<lparr>i_rx_q := q'\<rparr>) (view s)"
proof -
  define g where "g = (\<lambda>s. if \<not> local_busy (dlcb s i) \<and> is_rx_congested (dlcb s i)
      \<and> num_rx_i_pdu (dlcb s i) \<le> rx_congest_threshold (dlcb s i) div 2
    then upd_dl i (\<lambda>d. set_flag LLCP_DATA_LINK_FLAG_PENDING_RR_RNR (d\<lparr>is_rx_congested := False\<rparr>)) s else s)"
  have vg: "view (g t) = view t" for t by (simp add: g_def view_upd_dl_drop)
  show ?thesis
  proof (cases "i_rx_q (dlcb s i)")
    case Nil
    have "set_dl i (\<lambda>d. d\<lparr>i_rx_q := []\<rparr>) (view s) = view s"
      using Nil by (auto simp: set_dl_def view_def fun_eq_iff core_def)
    then show ?thesis
      using q Nil vg [of s] by (intro exI [of _ "[]"]) (simp add: LLCP_ReadDataLinkData_def alone_find [OF a] g_def Let_def)
  next
    case (Cons b r)
    obtain ys zs where y: "rx_buf b ys" "rx_holds r zs" "xs = ys @ zs" using q unfolding Cons by auto
    obtain x ys' where ys: "ys = x # ys'" using y(1) by (cases ys) (auto simp: rx_buf_def)
    obtain b' where b': "read_i_pdu n b = Some (x, b')" "layer_specific b' = 0" "body b' = frames ys'" "ys' = [] \<or> rx_buf b' ys'"
      using read_i_pdu_effect [OF y(1) [unfolded ys] n] by blast
    let ?q = "if ys' = [] then r else b' # r"
    have h: "rx_holds ?q (tl xs)" using y b'(4) by (auto simp: ys)
    let ?s1 = "upd_dl i (\<lambda>d. d\<lparr>num_rx_i_pdu := num_rx_i_pdu d - 1\<rparr>) s"
    let ?s2 = "upd_dl i (\<lambda>d. d\<lparr>i_rx_q := ?q\<rparr>) ?s1"
    let ?s3 = "if ys' = [] then llcp_util_check_rx_congested_status (?s2\<lparr>total_rx_i_pdu := total_rx_i_pdu s - 1\<rparr>) else ?s2"
    have v: "view ?s3 = set_dl i (\<lambda>d. d\<lparr>i_rx_q := ?q\<rparr>) (view s)"
      by (auto simp: view_upd_dl_drop view_upd_dl [where g = "\<lambda>d. d\<lparr>i_rx_q := r\<rparr>"]
          view_upd_dl [where g = "\<lambda>d. d\<lparr>i_rx_q := b' # r\<rparr>"])
    have "LLCP_ReadDataLinkData own peer n s = Some (i_rx_q (dlcb (g ?s3) i) \<noteq> [], x, g ?s3)"
      using b' by (simp add: LLCP_ReadDataLinkData_def alone_find [OF a] Cons Let_def g_def)
    then show ?thesis using h v vg [of ?s3] by (auto simp: y(3) ys)
  qed
qed

lemma busy_effect:
  assumes a: "alone i own peer (view s)"
  shows "\<exists>st s'. LLCP_SetLocalBusyStatus quiet_env own peer busy s = Some (st, s') \<and> view s' = view s"
proof -
  let ?s1 = "upd_dl i (\<lambda>d. set_flag LLCP_DATA_LINK_FLAG_PENDING_RR_RNR (d\<lparr>local_busy := busy\<rparr>)) s"
  have v: "view ?s1 = view s" by (simp add: view_upd_dl_drop)
  have "dlsm quiet_env i LLCP_DLC_EVENT_PEER_DATA_IND ?s1 = Some ?s1"
    by (rule data_ind_quiet [where own = own and peer = peer]) (simp only: v a)
  then show ?thesis
    using v by (cases busy) (simp_all add: LLCP_SetLocalBusyStatus_def on_dlcb_def alone_find [OF a] Let_def)
qed

end
