(* ===== verification/Llcp_Station.thy ===== *)
theory Llcp_Station
  imports Nfc_Prelude Llcp_Receive
begin

text \<open>
  The abstract specification of a data link connection: two stations that exchange numbered SDUs over
  two FIFO channels, with unbounded counters and a window. Its receiver takes whatever arrives; the
  invariant says that what arrives is what the receivers of the code insist on.
\<close>

datatype side = Near | Far

primrec other :: "side \<Rightarrow> side" where
  "other Near = Far"
| "other Far = Near"

lemma other_simps [simp]: "other (other X) = X" "other X \<noteq> X" "X \<noteq> other X"
  by (cases X; simp)+

text \<open>An SDU with its number and the number expected next; an acknowledgement, busy or not.\<close>

datatype msg = Info nat nat "byte list" | Ack bool nat

record station =
  s_next :: nat
  s_ack :: nat
  r_next :: nat
  r_ack :: nat
  to_send :: "byte list list"
  unread :: "byte list list"
  on_way :: "msg list"
  submitted :: "byte list list"
  delivered :: "byte list list"

type_synonym exchange = "side \<Rightarrow> station"

definition fresh_station :: station where
  "fresh_station = \<lparr>s_next = 0, s_ack = 0, r_next = 0, r_ack = 0, to_send = [], unread = [], on_way = [],
     submitted = [], delivered = []\<rparr>"

inductive xstep :: "(side \<Rightarrow> nat) \<Rightarrow> exchange \<Rightarrow> exchange \<Rightarrow> bool" for W where
  submit: "xstep W a (a(X := (a X)\<lparr>to_send := to_send (a X) @ [x], submitted := submitted (a X) @ [x]\<rparr>))"
| send: "to_send (a X) = x # q \<Longrightarrow> s_next (a X) < s_ack (a X) + W X \<Longrightarrow> k = r_ack (a X) \<or> k = r_next (a X) \<Longrightarrow>
    xstep W a (a(X := (a X)\<lparr>to_send := q, r_ack := k, s_next := Suc (s_next (a X)),
      on_way := on_way (a X) @ [Info (s_next (a X)) k x]\<rparr>))"
| ack: "k = r_ack (a X) \<or> k = r_next (a X) \<Longrightarrow> ms = [] \<or> (\<exists>busy. ms = [Ack busy k]) \<Longrightarrow>
    xstep W a (a(X := (a X)\<lparr>r_ack := k, on_way := on_way (a X) @ ms\<rparr>))"
| info: "on_way (a (other X)) = Info n k x # ms \<Longrightarrow>
    xstep W a (a(X := (a X)\<lparr>r_next := Suc (r_next (a X)), s_ack := k, unread := unread (a X) @ [x]\<rparr>,
      other X := (a (other X))\<lparr>on_way := ms\<rparr>))"
| acknowledged: "on_way (a (other X)) = Ack busy k # ms \<Longrightarrow>
    xstep W a (a(X := (a X)\<lparr>s_ack := k\<rparr>, other X := (a (other X))\<lparr>on_way := ms\<rparr>))"
| read: "unread (a X) = x # xs \<Longrightarrow>
    xstep W a (a(X := (a X)\<lparr>unread := xs, delivered := delivered (a X) @ [x]\<rparr>))"

section \<open>Invariant\<close>

fun seqs :: "msg list \<Rightarrow> nat list" where
  "seqs [] = []"
| "seqs (Info n k x # ms) = n # seqs ms"
| "seqs (Ack b k # ms) = seqs ms"

fun sdus :: "msg list \<Rightarrow> byte list list" where
  "sdus [] = []"
| "sdus (Info n k x # ms) = x # sdus ms"
| "sdus (Ack b k # ms) = sdus ms"

fun nrs :: "msg list \<Rightarrow> nat list" where
  "nrs [] = []"
| "nrs (Info n k x # ms) = k # nrs ms"
| "nrs (Ack b k # ms) = k # nrs ms"

lemma seqs_append [simp]: "seqs (ms @ ns) = seqs ms @ seqs ns"
  by (induction ms rule: seqs.induct) simp_all

lemma sdus_append [simp]: "sdus (ms @ ns) = sdus ms @ sdus ns"
  by (induction ms rule: sdus.induct) simp_all

lemma nrs_append [simp]: "nrs (ms @ ns) = nrs ms @ nrs ns"
  by (induction ms rule: nrs.induct) simp_all

text \<open>One direction: \<open>p\<close> sends with window \<open>w\<close>, \<open>q\<close> receives.\<close>

definition flows :: "nat \<Rightarrow> station \<Rightarrow> station \<Rightarrow> bool" where
  "flows w p q \<longleftrightarrow>
     sorted (s_ack p # nrs (on_way q) @ [r_ack q]) \<and> r_ack q \<le> r_next q \<and> r_next q \<le> s_next p
     \<and> seqs (on_way p) = [r_next q ..< s_next p] \<and> s_next p \<le> s_ack p + w
     \<and> submitted p = delivered q @ unread q @ sdus (on_way p) @ to_send p"

definition xinv :: "(side \<Rightarrow> nat) \<Rightarrow> exchange \<Rightarrow> bool" where
  "xinv W a \<longleftrightarrow> (\<forall>X. flows (W X) (a X) (a (other X)))"

lemma sorted_raise:
  "sorted (xs @ [r]) \<Longrightarrow> r \<le> k \<Longrightarrow> sorted (xs @ [k])" "sorted (xs @ [r]) \<Longrightarrow> r \<le> k \<Longrightarrow> sorted (xs @ [k, k])"
  by (auto simp: sorted_append intro: order_trans)

lemma upt_head: "n # ns = [i ..< j] \<Longrightarrow> n = i \<and> ns = [Suc i ..< j] \<and> i < j"
  by (cases "i < j") (auto simp: upt_rec)

lemma all_sides: "(\<forall>Z. P Z) \<longleftrightarrow> P X \<and> P (other X)"
  by (cases X) (metis other.simps side.exhaust)+

lemma xinv_at: "xinv W a \<longleftrightarrow> flows (W X) (a X) (a (other X)) \<and> flows (W (other X)) (a (other X)) (a X)"
  unfolding xinv_def by (subst all_sides [where X = X]) simp

lemma flows_submit:
  "flows w p q \<Longrightarrow> flows w (p\<lparr>to_send := to_send p @ [x], submitted := submitted p @ [x]\<rparr>) q"
  "flows w q p \<Longrightarrow> flows w q (p\<lparr>to_send := b, submitted := c\<rparr>)"
  by (simp_all add: flows_def)

lemma flows_send:
  assumes "to_send p = x # q" "s_next p < s_ack p + w" "k = r_ack p \<or> k = r_next p"
    and f: "flows w p p'" "flows w' p' p"
  defines "n \<equiv> p\<lparr>to_send := q, r_ack := k, s_next := Suc (s_next p), on_way := on_way p @ [Info (s_next p) k x]\<rparr>"
  shows "flows w n p'" "flows w' p' n"
proof -
  show "flows w n p'" using f(1) assms(1,2) by (simp add: n_def flows_def)
  have "r_ack p \<le> k" "k \<le> r_next p" using assms(3) f(2) by (auto simp: flows_def)
  then show "flows w' p' n"
    using f(2) sorted_raise(2) [of "s_ack p' # nrs (on_way p)" "r_ack p" k] by (simp add: n_def flows_def)
qed

lemma flows_ack:
  assumes "k = r_ack p \<or> k = r_next p" "ms = [] \<or> (\<exists>busy. ms = [Ack busy k])"
    and f: "flows w p p'" "flows w' p' p"
  defines "n \<equiv> p\<lparr>r_ack := k, on_way := on_way p @ ms\<rparr>"
  shows "flows w n p'" "flows w' p' n"
proof -
  show "flows w n p'" using f(1) assms(2) by (auto simp: n_def flows_def)
  have "r_ack p \<le> k" "k \<le> r_next p" using assms(1) f(2) by (auto simp: flows_def)
  then show "flows w' p' n"
    using f(2) assms(2) sorted_raise [of "s_ack p' # nrs (on_way p)" "r_ack p" k] by (auto simp: n_def flows_def)
qed

lemma flows_info:
  assumes m: "on_way p = Info n k x # ms" and f: "flows w p q" "flows w' q p"
  defines "q' \<equiv> q\<lparr>r_next := Suc (r_next q), s_ack := k, unread := unread q @ [x]\<rparr>" and "p' \<equiv> p\<lparr>on_way := ms\<rparr>"
  shows "flows w p' q'" "flows w' q' p'" "n = r_next q"
proof -
  have h: "n = r_next q" "seqs ms = [Suc (r_next q) ..< s_next p]" "r_next q < s_next p"
    using f(1) m upt_head [of n "seqs ms" "r_next q" "s_next p"] by (auto simp: flows_def)
  then show "n = r_next q" by simp
  show "flows w p' q'" using f(1) m h by (simp add: flows_def p'_def q'_def)
  show "flows w' q' p'" using f(2) m by (auto simp: flows_def p'_def q'_def)
qed

lemma flows_acknowledged:
  assumes m: "on_way p = Ack busy k # ms" and f: "flows w p q" "flows w' q p"
  shows "flows w (p\<lparr>on_way := ms\<rparr>) (q\<lparr>s_ack := k\<rparr>)" "flows w' (q\<lparr>s_ack := k\<rparr>) (p\<lparr>on_way := ms\<rparr>)"
  using f m by (auto simp: flows_def)

lemma flows_read:
  assumes "unread q = x # xs" and f: "flows w p q" "flows w' q p"
  shows "flows w p (q\<lparr>unread := xs, delivered := delivered q @ [x]\<rparr>)"
    "flows w' (q\<lparr>unread := xs, delivered := delivered q @ [x]\<rparr>) p"
  using assms by (simp_all add: flows_def)

theorem xinv_step: "xstep W a b \<Longrightarrow> xinv W a \<Longrightarrow> xinv W b"
proof (induction rule: xstep.induct)
  case (submit a X x)
  then show ?case by (simp add: xinv_at [of _ _ X] flows_submit)
next
  case (send a X x q k)
  then show ?case using flows_send [OF send(1-3), of "a (other X)" "W (other X)"]
    by (simp add: xinv_at [of _ _ X] del: disj_not1)
next
  case (ack k a X ms)
  then show ?case using flows_ack [OF ack(1,2), of "W X" "a (other X)" "W (other X)"]
    by (simp add: xinv_at [of _ _ X])
next
  case (info a X n k x ms)
  then show ?case using flows_info [OF info(1), of "W (other X)" "a X" "W X"] by (simp add: xinv_at [of _ _ X])
next
  case (acknowledged a X busy k ms)
  then show ?case using flows_acknowledged [OF acknowledged(1), of "W (other X)" "a X" "W X"] by (simp add: xinv_at [of _ _ X])
next
  case (read a X x xs)
  then show ?case using flows_read [OF read(1), of "W (other X)" "a (other X)" "W X"] by (simp add: xinv_at [of _ _ X])
qed

text \<open>What a receiver may rely on when \<open>m\<close> is the next to arrive.\<close>

lemma xinv_info:
  assumes "xinv W a" "on_way (a (other X)) = Info n k x # ms"
  shows "n = r_next (a X)" "n < r_ack (a X) + W (other X)" "r_ack (a X) \<le> n"
    "s_ack (a X) \<le> k" "k \<le> s_next (a X)" "s_next (a X) \<le> s_ack (a X) + W X"
proof -
  have f: "flows (W X) (a X) (a (other X))" "flows (W (other X)) (a (other X)) (a X)"
    using assms(1) by (simp_all add: xinv_at [of _ _ X])
  show n: "n = r_next (a X)" using flows_info(3) [OF assms(2) f(2) f(1)] .
  have "r_next (a X) < s_next (a (other X))"
    using f(2) assms(2) upt_head [of n "seqs ms" "r_next (a X)" "s_next (a (other X))"] by (auto simp: flows_def)
  moreover have "s_ack (a (other X)) \<le> r_ack (a X)" using f(2) by (auto simp: flows_def)
  moreover have "s_next (a (other X)) \<le> s_ack (a (other X)) + W (other X)" using f(2) by (simp add: flows_def)
  ultimately show "n < r_ack (a X) + W (other X)" using n by linarith
  show "r_ack (a X) \<le> n" using f(2) n by (simp add: flows_def)
  show "s_ack (a X) \<le> k" "k \<le> s_next (a X)" using f(1) assms(2) by (auto simp: flows_def)
  show "s_next (a X) \<le> s_ack (a X) + W X" using f(1) by (simp add: flows_def)
qed

lemma xinv_ack:
  assumes "xinv W a" "on_way (a (other X)) = Ack busy k # ms"
  shows "s_ack (a X) \<le> k" "k \<le> s_next (a X)" "s_next (a X) \<le> s_ack (a X) + W X"
  using assms by (auto simp: xinv_at [of _ _ X] flows_def)

lemma xinv_window: "xinv W a \<Longrightarrow> s_ack (a X) \<le> s_next (a X) \<and> s_next (a X) \<le> s_ack (a X) + W X"
  by (auto simp: xinv_at [of _ _ X] flows_def)

lemma xinv_fresh: "xinv W (\<lambda>_. fresh_station)"
  by (simp add: xinv_def flows_def fresh_station_def)

lemma xinv_delivery:
  "xinv W a \<Longrightarrow> submitted (a X) = delivered (a (other X)) @ unread (a (other X)) @ sdus (on_way (a X)) @ to_send (a X)"
  by (simp add: xinv_at [of _ _ X] flows_def)

text \<open>
  One station of the code against one station of the specification: \<open>side_rel\<close> relates the view of
  the control block, with the frames it has handed to the channel, to the counters and lists of the
  specification. Each effect on the view is a step of the specification.
\<close>

definition enc :: "byte \<Rightarrow> byte \<Rightarrow> msg \<Rightarrow> byte list" where
  "enc own peer m = (case m of
     Info n k x \<Rightarrow> i_bytes own peer (sq n) (sq k) x
   | Ack busy k \<Rightarrow> ack_bytes own peer busy (sq k))"

text \<open>The limits of a connection, which no step changes.\<close>

record limits =
  l_miu :: u16
  l_rw :: byte
  l_peer_miu :: u16
  l_peer_rw :: byte
  l_link_miu :: u16
  l_eff_miu :: u16
  l_snl :: "bt_hdr option"

definition limits_of :: "nat \<Rightarrow> dl_view \<Rightarrow> limits" where
  "limits_of i v = \<lparr>l_miu = local_miu (v_dl v i), l_rw = local_rw (v_dl v i), l_peer_miu = remote_miu (v_dl v i),
     l_peer_rw = remote_rw (v_dl v i), l_link_miu = v_link_miu v,
     l_eff_miu = v_eff_miu v, l_snl = v_snl v\<rparr>"

definition side_rel :: "nat \<Rightarrow> byte \<Rightarrow> byte \<Rightarrow> limits \<Rightarrow> dl_view \<Rightarrow> byte list list \<Rightarrow> station \<Rightarrow> bool" where
  "side_rel i own peer l v ch st \<longleftrightarrow>
     alone i own peer v \<and> limits_of i v = l
     \<and> next_tx_seq (v_dl v i) = sq (s_next st) \<and> rcvd_ack_seq (v_dl v i) = sq (s_ack st)
     \<and> next_rx_seq (v_dl v i) = sq (r_next st) \<and> sent_ack_seq (v_dl v i) = sq (r_ack st)
     \<and> map body (i_xmit_q (v_dl v i)) = to_send st
     \<and> (\<forall>b \<in> set (i_xmit_q (v_dl v i)). LLCP_MIN_OFFSET \<le> unat (offset b))
     \<and> rx_holds (i_rx_q (v_dl v i)) (unread st)
     \<and> (\<forall>x \<in> set (to_send st) \<union> set (sdus (on_way st)). length x \<le> unat (l_peer_miu l))
     \<and> ch @ map body (v_sig v) = map (enc own peer) (on_way st)"

lemma side_rel_alone: "side_rel i own peer l v ch st \<Longrightarrow> alone i own peer v"
  by (simp add: side_rel_def)

lemma limits_of_set_dl:
  "(\<And>d. local_miu (f d) = local_miu d \<and> local_rw (f d) = local_rw d \<and> remote_miu (f d) = remote_miu d
     \<and> remote_rw (f d) = remote_rw d) \<Longrightarrow> limits_of i (set_dl i f v) = limits_of i v"
  by (simp add: limits_of_def)

lemma limits_of_sig [simp]: "limits_of i (v\<lparr>v_sig := q\<rparr>) = limits_of i v"
  by (simp add: limits_of_def)

section \<open>Sending\<close>

lemma side_submit:
  assumes r: "side_rel i own peer l v ch st" and b: "LLCP_MIN_OFFSET \<le> unat (offset b)" "length (body b) \<le> unat (l_peer_miu l)"
  shows "side_rel i own peer l (set_dl i (\<lambda>d. d\<lparr>i_xmit_q := i_xmit_q d @ [b]\<rparr>) v) ch
    (st\<lparr>to_send := to_send st @ [body b], submitted := submitted st @ [body b]\<rparr>)"
  using r b alone_set_dl [OF side_rel_alone [OF r], of "\<lambda>d. d\<lparr>i_xmit_q := i_xmit_q d @ [b]\<rparr>"]
  by (auto simp: side_rel_def limits_of_set_dl)

lemma side_taken:
  assumes r: "side_rel i own peer l v ch st" and s: "v_sig v = []" and t: "taken i own peer (v_dl v i) v b v'"
  shows "\<exists>x q k. to_send st = x # q \<and> llcp_dlc_is_rw_open (v_dl v i) \<and> (k = r_ack st \<or> k = r_next st)
    \<and> side_rel i own peer l v' (ch @ [body b])
        (st\<lparr>to_send := q, r_ack := k, s_next := Suc (s_next st), on_way := on_way st @ [Info (s_next st) k x]\<rparr>)"
proof -
  obtain c q kb where t': "i_xmit_q (v_dl v i) = c # q" "llcp_dlc_is_rw_open (v_dl v i)"
    "kb = sent_ack_seq (v_dl v i) \<or> kb = next_rx_seq (v_dl v i)"
    "body b = i_bytes own peer (next_tx_seq (v_dl v i)) kb (body c)" "v' = set_dl i (sent_i q kb) v"
    using t unfolding taken_def by blast
  obtain k where k: "kb = sq k" "k = r_ack st \<or> k = r_next st" using t'(3) r by (auto simp: side_rel_def)
  have ts: "to_send st = body c # map body q" using r t'(1) by (auto simp: side_rel_def)
  have a: "alone i own peer v'" unfolding t'(5) by (rule alone_set_dl [OF side_rel_alone [OF r]]) (simp_all add: sent_i_def)
  have "side_rel i own peer l v' (ch @ [body b])
        (st\<lparr>to_send := map body q, r_ack := k, s_next := Suc (s_next st), on_way := on_way st @ [Info (s_next st) k (body c)]\<rparr>)"
    unfolding side_rel_def
  proof (intro conjI)
    show "limits_of i v' = l" unfolding t'(5) using r by (subst limits_of_set_dl) (simp_all add: sent_i_def side_rel_def)
    show "alone i own peer v'" by (rule a)
  qed (use r s ts t' k in \<open>auto simp: side_rel_def sent_i_def sq_Suc enc_def\<close>)
  then show ?thesis using ts t'(2) k(2) by blast
qed

lemma side_signal:
  assumes r: "side_rel i own peer l v ch st" and s: "v_sig v = b # q"
  shows "side_rel i own peer l (v\<lparr>v_sig := q\<rparr>) (ch @ [body b]) st"
  using r s alone_sig [OF side_rel_alone [OF r]] by (simp add: side_rel_def)

lemma side_acked:
  assumes r: "side_rel i own peer l v ch st" and a: "acked i own peer v v'"
  shows "\<exists>k ms. (k = r_ack st \<or> k = r_next st) \<and> (ms = [] \<or> (\<exists>busy. ms = [Ack busy k]))
    \<and> side_rel i own peer l v' ch (st\<lparr>r_ack := k, on_way := on_way st @ ms\<rparr>)"
proof -
  obtain kb q where a': "kb = sent_ack_seq (v_dl v i) \<or> kb = next_rx_seq (v_dl v i)"
    "q = [] \<or> (\<exists>rnr. q = [new_pdu (ack_bytes own peer rnr kb)])"
    "v' = (set_dl i (\<lambda>d. d\<lparr>sent_ack_seq := kb\<rparr>) v)\<lparr>v_sig := v_sig v @ q\<rparr>"
    using a unfolding acked_def by blast
  obtain k where k: "kb = sq k" "k = r_ack st \<or> k = r_next st" using a'(1) r by (auto simp: side_rel_def)
  obtain ms where ms: "map body q = map (enc own peer) ms" "ms = [] \<or> (\<exists>busy. ms = [Ack busy k])" "sdus ms = []"
    using a'(2) by (auto simp: k(1) enc_def new_pdu_def intro: that [of "[]"] that [of "[Ack _ k]"])
  have al: "alone i own peer v'" using acked_alone [OF side_rel_alone [OF r] a] .
  have li: "limits_of i v' = l" using r by (simp add: a'(3) side_rel_def limits_of_def)
  have "side_rel i own peer l v' ch (st\<lparr>r_ack := k, on_way := on_way st @ ms\<rparr>)"
    using r al li k(1) ms(1,3) by (simp add: side_rel_def a'(3))
  then show ?thesis using k(2) ms(2) by blast
qed

section \<open>Receiving\<close>

lemma side_sent_head:
  assumes r: "side_rel i own peer l v (bs # ch) st"
  obtains m ms where "on_way st = m # ms" "bs = enc own peer m"
    "side_rel i own peer l v ch (st\<lparr>on_way := ms\<rparr>)"
proof -
  obtain m ms where m: "on_way st = m # ms" "bs = enc own peer m" "ch @ map body (v_sig v) = map (enc own peer) ms"
    using r by (cases "on_way st") (auto simp: side_rel_def)
  moreover have "set (sdus ms) \<subseteq> set (sdus (on_way st))" by (cases m) (auto simp: m(1))
  ultimately show ?thesis using r by (intro that) (auto simp: side_rel_def)
qed

lemma side_got_i:
  assumes r: "side_rel i own peer l v ch st" and q: "rx_holds q (unread st @ [x])"
  shows "side_rel i own peer l (set_dl i (got_i q (sq k)) v) ch
    (st\<lparr>r_next := Suc (r_next st), s_ack := k, unread := unread st @ [x]\<rparr>)"
proof -
  have a: "alone i own peer (set_dl i (got_i q (sq k)) v)" by (rule alone_set_dl [OF side_rel_alone [OF r]]) simp_all
  have "limits_of i (set_dl i (got_i q (sq k)) v) = l"
    using r by (subst limits_of_set_dl) (simp_all add: got_i_def side_rel_def)
  then show ?thesis using r q a by (simp add: side_rel_def got_i_def sq_Suc)
qed

lemma side_got_ack:
  assumes r: "side_rel i own peer l v ch st"
  shows "side_rel i own peer l (set_dl i (\<lambda>d. d\<lparr>rcvd_ack_seq := sq k\<rparr>) v) ch (st\<lparr>s_ack := k\<rparr>)"
  using r alone_set_dl [OF side_rel_alone [OF r], of "\<lambda>d. d\<lparr>rcvd_ack_seq := sq k\<rparr>"]
  by (simp add: side_rel_def limits_of_set_dl)

lemma side_read:
  assumes r: "side_rel i own peer l v ch st" and q: "rx_holds q xs"
  shows "side_rel i own peer l (set_dl i (\<lambda>d. d\<lparr>i_rx_q := q\<rparr>) v) ch (st\<lparr>unread := xs, delivered := ys\<rparr>)"
  using r q alone_set_dl [OF side_rel_alone [OF r], of "\<lambda>d. d\<lparr>i_rx_q := q\<rparr>"]
  by (simp add: side_rel_def limits_of_set_dl)

text \<open>The checks of the receiver pass for the PDU with the counters that are due.\<close>

lemma i_pdu_ok:
  assumes "next_rx_seq d = sq rn" "sent_ack_seq d = sq ra" "ra \<le> rn" "rn < ra + w" "w \<le> unat (local_rw d)" "w < 16"
    and "rcvd_ack_seq d = sq a" "next_tx_seq d = sq n" "a \<le> k" "k \<le> n" "n < a + 16"
    and x: "length x \<le> unat (local_miu d)" "length x < 65536"
  shows "i_pdu_errors d (of_nat (length x)) (LLCP_GET_SEQUENCE (sq rn) (sq k)) = 0"
proof -
  have f: "LLCP_GET_NS (LLCP_GET_SEQUENCE (sq rn) (sq k)) = sq rn" "LLCP_GET_NR (LLCP_GET_SEQUENCE (sq rn) (sq k)) = sq k"
    by (simp_all add: seq_fields)
  have u: "unat (of_nat (length x) :: u16) = length x" using x(2) by (simp add: unat_of_nat)
  have "\<not> local_rw d \<le> (sq rn - sq ra) mod LLCP_SEQ_MODULO"
    using assms(3-6) by (simp add: word_le_nat_alt sq_diff_small)
  moreover have "nr_valid d (sq k)" using assms(7-11) by (intro nr_valid_counters) simp_all
  moreover have "\<not> of_nat (length x) > local_miu d" using x(1) u by (simp add: word_less_nat_alt)
  ultimately show ?thesis using assms(1,2) by (simp add: i_pdu_errors_def f)
qed

end
