(* ===== verification/Llcp_Peers.thy ===== *)
theory Llcp_Peers
  imports Llcp_Station
begin

text \<open>
  Two stations that run the code and one data link connection between them, at the level of single
  PDUs. A step is a call of an application (send, read, busy), the sending of acknowledgements, the
  choice of the next PDU, which goes to the channel of the station, or the arrival of the oldest PDU of a
  channel, in a frame of its own or as a part of an AGF PDU, or a change that the view does not show. The steps may happen in any order; applications do not
  call back into the stack. The frames are in the next theory.
\<close>

section \<open>The system\<close>

record net =
  node :: "side \<Rightarrow> llcp_cb"
  chan :: "side \<Rightarrow> byte list list"
  subm :: "side \<Rightarrow> byte list list"
  got :: "side \<Rightarrow> byte list list"

inductive pdu_step :: "(side \<Rightarrow> byte) \<Rightarrow> net \<Rightarrow> net \<Rightarrow> bool" for sap where
  send_data: "fits b \<Longrightarrow> LLCP_SendData quiet_env (sap X) (sap (other X)) b (node c X) = Some (st, s) \<Longrightarrow>
    pdu_step sap c (c\<lparr>node := (node c)(X := s),
      subm := (subm c)(X := subm c X @ (if st = LLCP_STATUS_FAIL then [] else [body b]))\<rparr>)"
| read_data: "llcp_dlc_find_dlcb_by_sap (sap X) (sap (other X)) (node c X) = Some i \<Longrightarrow>
    i_rx_q (dlcb (node c X) i) \<noteq> [] \<Longrightarrow> 65535 \<le> unat n \<Longrightarrow>
    LLCP_ReadDataLinkData (sap X) (sap (other X)) n (node c X) = Some (pending, x, s) \<Longrightarrow>
    pdu_step sap c (c\<lparr>node := (node c)(X := s), got := (got c)(X := got c X @ [x])\<rparr>)"
| set_busy: "LLCP_SetLocalBusyStatus quiet_env (sap X) (sap (other X)) busy (node c X) = Some (st, s) \<Longrightarrow>
    pdu_step sap c (c\<lparr>node := (node c)(X := s)\<rparr>)"
| send_acks: "llcp_dlc_check_to_send_rr_rnr quiet_env (node c X) = Some s \<Longrightarrow>
    pdu_step sap c (c\<lparr>node := (node c)(X := s)\<rparr>)"
| transmit_pdu: "llcp_link_get_next_pdu quiet_env False (node c X) = Some (Taken b, s) \<Longrightarrow>
    pdu_step sap c (c\<lparr>node := (node c)(X := s), chan := (chan c)(X := chan c X @ [body b])\<rparr>)"
| receive_pdu: "chan c (other X) = body b # fs \<Longrightarrow> fits b \<Longrightarrow> rx_frame quiet_env params b (node c X) = Some s \<Longrightarrow>
    pdu_step sap c (c\<lparr>node := (node c)(X := s), chan := (chan c)(other X := fs)\<rparr>)"
| receive_part: "chan c (other X) = p # fs \<Longrightarrow> at m q p \<Longrightarrow> length p + 2 \<le> unat (local_link_miu (lcb (node c X))) \<Longrightarrow>
    0 < free_buffers (node c X) \<Longrightarrow> agf_pdu quiet_env params m q (of_nat (length p)) (node c X) = Some (Inl s) \<Longrightarrow>
    pdu_step sap c (c\<lparr>node := (node c)(X := s), chan := (chan c)(other X := fs)\<rparr>)"
| internal: "view s = view (node c X) \<Longrightarrow> pdu_step sap c (c\<lparr>node := (node c)(X := s)\<rparr>)"

text \<open>
  A connection just set up: on both sides the sequence variables are zero and the queues empty, the
  limits that one side uses for sending are those the other side accepts, and the window has four bits.
\<close>

definition fresh_side :: "nat \<Rightarrow> byte \<Rightarrow> byte \<Rightarrow> llcp_cb \<Rightarrow> bool" where
  "fresh_side i own peer s \<longleftrightarrow>
     alone i own peer (view s) \<and> sig_xmit_q (lcb s) = []
     \<and> (let d = dlcb s i in next_tx_seq d = 0 \<and> rcvd_ack_seq d = 0 \<and> next_rx_seq d = 0 \<and> sent_ack_seq d = 0
        \<and> i_xmit_q d = [] \<and> i_rx_q d = [])"

definition limits_agree :: "limits \<Rightarrow> limits \<Rightarrow> bool" where
  "limits_agree l l' \<longleftrightarrow> unat (l_peer_rw l) < 16 \<and> l_peer_rw l \<le> l_rw l'
     \<and> l_peer_miu l \<le> l_miu l' \<and> l_peer_miu l \<le> l_link_miu l'"

definition fresh_net :: "(side \<Rightarrow> nat) \<Rightarrow> (side \<Rightarrow> byte) \<Rightarrow> net \<Rightarrow> bool" where
  "fresh_net idx sap c \<longleftrightarrow>
     (\<forall>X. fresh_side (idx X) (sap X) (sap (other X)) (node c X)
        \<and> limits_agree (limits_of (idx X) (view (node c X))) (limits_of (idx (other X)) (view (node c (other X))))
        \<and> chan c X = [] \<and> subm c X = [] \<and> got c X = [])"

section \<open>Simulation\<close>

lemma view_dl [simp]: "v_dl (view s) i = core (dlcb s i)" "v_sig (view s) = sig_xmit_q (lcb s)"
  "v_link_miu (view s) = local_link_miu (lcb s)" "v_eff_miu (view s) = effective_miu (lcb s)" "v_snl (view s) = p_snl (sdp s)"
  by (simp_all add: view_def)

lemma core_checks [simp]:
  "nr_valid (core d) r = nr_valid d r" "llcp_dlc_is_rw_open (core d) = llcp_dlc_is_rw_open d"
  "i_pdu_errors (core d) n b = i_pdu_errors d n b" "taken i own peer (core d) v h v' = taken i own peer d v h v'"
  by (simp_all add: nr_valid_def llcp_dlc_is_rw_open_def i_pdu_errors_def taken_def)

lemma side_fields:
  assumes "side_rel i own peer l (view s) ch st"
  shows "next_tx_seq (dlcb s i) = sq (s_next st)" "rcvd_ack_seq (dlcb s i) = sq (s_ack st)"
    "next_rx_seq (dlcb s i) = sq (r_next st)" "sent_ack_seq (dlcb s i) = sq (r_ack st)"
    "rx_holds (i_rx_q (dlcb s i)) (unread st)"
    "local_rw (dlcb s i) = l_rw l" "local_miu (dlcb s i) = l_miu l" "remote_rw (dlcb s i) = l_peer_rw l"
    "remote_miu (dlcb s i) = l_peer_miu l" "local_link_miu (lcb s) = l_link_miu l"
    "\<forall>b \<in> set (i_xmit_q (dlcb s i)). LLCP_MIN_OFFSET \<le> unat (offset b)"
  using assms by (auto simp: side_rel_def limits_of_def)

definition net_rel :: "(side \<Rightarrow> nat) \<Rightarrow> (side \<Rightarrow> byte) \<Rightarrow> (side \<Rightarrow> limits) \<Rightarrow> net \<Rightarrow> exchange \<Rightarrow> bool" where
  "net_rel idx sap L c a \<longleftrightarrow>
     (\<forall>X. side_rel (idx X) (sap X) (sap (other X)) (L X) (view (node c X)) (chan c X) (a X)
        \<and> subm c X = submitted (a X) \<and> got c X = delivered (a X))"

definition windows :: "(side \<Rightarrow> limits) \<Rightarrow> side \<Rightarrow> nat" where
  "windows L X = unat (l_peer_rw (L X))"

lemma net_rel_at:
  "net_rel idx sap L c a \<longleftrightarrow>
     side_rel (idx X) (sap X) (sap (other X)) (L X) (view (node c X)) (chan c X) (a X)
     \<and> subm c X = submitted (a X) \<and> got c X = delivered (a X)
     \<and> side_rel (idx (other X)) (sap (other X)) (sap X) (L (other X)) (view (node c (other X))) (chan c (other X)) (a (other X))
     \<and> subm c (other X) = submitted (a (other X)) \<and> got c (other X) = delivered (a (other X))"
  unfolding net_rel_def by (subst all_sides [where X = X]) auto

lemma net_rel_fresh:
  assumes "fresh_net idx sap c"
  shows "net_rel idx sap (\<lambda>X. limits_of (idx X) (view (node c X))) c (\<lambda>_. fresh_station)"
  using assms by (auto simp: net_rel_def fresh_net_def fresh_side_def side_rel_def fresh_station_def Let_def sq_def)

text \<open>
  The arrival of a PDU is accepted, and is the step of the specification that takes it: for any way \<open>P\<close> to process it
  with the effects of an I PDU and of an RR or RNR PDU.
\<close>

lemma arrival:
  assumes r: "net_rel idx sap L c a" and iv: "xinv (windows L) a" and ag: "\<And>X. limits_agree (L X) (L (other X))"
    and ch: "chan c (other X) = bs # fs"
    and info: "\<And>ns nr x xs. alone (idx X) (sap X) (sap (other X)) (view (node c X)) \<Longrightarrow> bs = i_bytes (sap (other X)) (sap X) ns nr x \<Longrightarrow>
      rx_holds (i_rx_q (dlcb (node c X) (idx X))) xs \<Longrightarrow> unat ns < 16 \<Longrightarrow> unat nr < 16 \<Longrightarrow>
      i_pdu_errors (dlcb (node c X) (idx X)) (of_nat (length x)) (LLCP_GET_SEQUENCE ns nr) = 0 \<Longrightarrow>
      length x \<le> unat (local_link_miu (lcb (node c X))) \<Longrightarrow>
      \<exists>q s. P s \<and> rx_holds q (xs @ [x]) \<and> view s = set_dl (idx X) (got_i q nr) (view (node c X))"
    and ack: "\<And>rnr nr. alone (idx X) (sap X) (sap (other X)) (view (node c X)) \<Longrightarrow> bs = ack_bytes (sap (other X)) (sap X) rnr nr \<Longrightarrow>
      unat nr < 16 \<Longrightarrow> nr_valid (dlcb (node c X) (idx X)) nr \<Longrightarrow>
      \<exists>s. P s \<and> view s = set_dl (idx X) (\<lambda>d. d\<lparr>rcvd_ack_seq := nr\<rparr>) (view (node c X))"
  shows "\<exists>s a'. P s \<and> xstep (windows L) a a'
    \<and> net_rel idx sap L (c\<lparr>node := (node c)(X := s), chan := (chan c)(other X := fs)\<rparr>) a'"
proof -
  let ?Y = "other X"
  have rx: "side_rel (idx X) (sap X) (sap ?Y) (L X) (view (node c X)) (chan c X) (a X)"
    and ry: "side_rel (idx ?Y) (sap ?Y) (sap X) (L ?Y) (view (node c ?Y)) (bs # fs) (a ?Y)"
    and h: "subm c X = submitted (a X)" "got c X = delivered (a X)" "subm c ?Y = submitted (a ?Y)" "got c ?Y = delivered (a ?Y)"
    using r ch by (simp_all add: net_rel_at [of _ _ _ _ _ X])
  have al: "alone (idx X) (sap X) (sap ?Y) (view (node c X))" by (rule side_rel_alone [OF rx])
  obtain m ms where m: "on_way (a ?Y) = m # ms" "bs = enc (sap ?Y) (sap X) m"
    and ry': "side_rel (idx ?Y) (sap ?Y) (sap X) (L ?Y) (view (node c ?Y)) fs ((a ?Y)\<lparr>on_way := ms\<rparr>)"
    by (rule side_sent_head [OF ry])
  have w: "windows L X < 16" "windows L ?Y < 16" "windows L ?Y \<le> unat (l_rw (L X))"
    using ag [of X] ag [of ?Y] by (simp_all add: windows_def limits_agree_def word_le_nat_alt)
  have wx: "s_next (a X) < s_ack (a X) + 16" using xinv_window [OF iv, of X] w(1) by linarith
  show ?thesis
  proof (cases m)
    case (Info n k x)
    note iv' = xinv_info [OF iv, of X n k x ms]
    have c: "n = r_next (a X)" "n < r_ack (a X) + windows L ?Y" "r_ack (a X) \<le> n" "s_ack (a X) \<le> k" "k \<le> s_next (a X)"
      using iv' m(1) Info by simp_all
    have lx: "length x \<le> unat (l_peer_miu (L ?Y))" using ry m(1) Info by (simp add: side_rel_def)
    then have ll: "length x \<le> unat (l_miu (L X))" "length x \<le> unat (l_link_miu (L X))"
      using ag [of ?Y] by (simp_all add: limits_agree_def word_le_nat_alt)
    have lw: "length x < 65536" using lx unat_u16_less [of "l_peer_miu (L ?Y)"] by linarith
    have ok: "i_pdu_errors (dlcb (node c X) (idx X)) (of_nat (length x)) (LLCP_GET_SEQUENCE (sq n) (sq k)) = 0"
      using c w wx ll lw
      by (subst c(1), intro i_pdu_ok [of _ "r_next (a X)" "r_ack (a X)" "windows L ?Y" "s_ack (a X)" "s_next (a X)" k x])
         (simp_all add: side_fields [OF rx])
    have "rx_holds (i_rx_q (dlcb (node c X) (idx X))) (unread (a X))" by (rule side_fields [OF rx])
    moreover have "length x \<le> unat (local_link_miu (lcb (node c X)))" using ll by (simp add: side_fields [OF rx])
    moreover have "bs = i_bytes (sap ?Y) (sap X) (sq n) (sq k) x" using m(2) Info by (simp add: enc_def)
    ultimately obtain q s where s: "P s"
      "rx_holds q (unread (a X) @ [x])" "view s = set_dl (idx X) (got_i q (sq k)) (view (node c X))"
      using info [OF al _ _ _ _ ok] by (metis mod_less_divisor unat_sq zero_less_numeral)
    note rx' = side_got_i [OF rx s(2), of k]
    have "xstep (windows L) a (a(X := (a X)\<lparr>r_next := Suc (r_next (a X)), s_ack := k, unread := unread (a X) @ [x]\<rparr>,
        ?Y := (a ?Y)\<lparr>on_way := ms\<rparr>))"
      using m(1) Info by (intro xstep.info) simp
    then show ?thesis using s(1,3) rx' ry' h by (intro exI conjI) (auto simp: net_rel_at [of _ _ _ _ _ X])
  next
    case (Ack busy k)
    have c: "s_ack (a X) \<le> k" "k \<le> s_next (a X)" using xinv_ack [OF iv, of X busy k ms] m(1) Ack by simp_all
    have "nr_valid (dlcb (node c X) (idx X)) (sq k)"
      by (intro nr_valid_counters [OF _ _ c wx]) (simp_all add: side_fields [OF rx])
    moreover have "bs = ack_bytes (sap ?Y) (sap X) busy (sq k)" using m(2) Ack by (simp add: enc_def)
    ultimately obtain s where s: "P s"
      "view s = set_dl (idx X) (\<lambda>d. d\<lparr>rcvd_ack_seq := sq k\<rparr>) (view (node c X))"
      using ack [OF al] by (metis mod_less_divisor unat_sq zero_less_numeral)
    note rx' = side_got_ack [OF rx, of k]
    have "xstep (windows L) a (a(X := (a X)\<lparr>s_ack := k\<rparr>, ?Y := (a ?Y)\<lparr>on_way := ms\<rparr>))"
      using m(1) Ack by (intro xstep.acknowledged) simp
    then show ?thesis using s rx' ry' h by (intro exI conjI) (auto simp: net_rel_at [of _ _ _ _ _ X])
  qed
qed

lemma receive_accepted:
  assumes "net_rel idx sap L c a" "xinv (windows L) a" "\<And>X. limits_agree (L X) (L (other X))"
    and "chan c (other X) = body b # fs" "fits b"
  shows "\<exists>s a'. rx_frame quiet_env params b (node c X) = Some s \<and> xstep (windows L) a a'
    \<and> net_rel idx sap L (c\<lparr>node := (node c)(X := s), chan := (chan c)(other X := fs)\<rparr>) a'"
  by (rule arrival [OF assms(1-4)]) (auto intro: receive_i_effect [OF _ _ assms(5)] receive_ack_effect)

lemma part_accepted:
  assumes r: "net_rel idx sap L c a" and iv: "xinv (windows L) a" and ag: "\<And>X. limits_agree (L X) (L (other X))"
    and lk: "l_link_miu (L X) \<le> LLCP_MIU" and ch: "chan c (other X) = p # fs"
    and m: "at m q p" "length p + 2 \<le> unat (local_link_miu (lcb (node c X)))" and f: "0 < free_buffers (node c X)"
  shows "\<exists>s a'. (agf_pdu quiet_env params m q (of_nat (length p)) (node c X) = Some (Inl s)
      \<and> free_buffers (node c X) \<le> Suc (free_buffers s)) \<and> xstep (windows L) a a'
    \<and> net_rel idx sap L (c\<lparr>node := (node c)(X := s), chan := (chan c)(other X := fs)\<rparr>) a'"
proof (rule arrival [OF r iv ag ch], goal_cases)
  case (1 ns nr x xs)
  have "side_rel (idx X) (sap X) (sap (other X)) (L X) (view (node c X)) (chan c X) (a X)" using r by (simp add: net_rel_def)
  from side_fields(10) [OF this] have "local_link_miu (lcb (node c X)) \<le> LLCP_MIU" using lk by simp
  then have "length x \<le> unat LLCP_POOL_BUF_SIZE - 16"
    using m(2) 1(2) by (simp add: word_le_nat_alt LLCP_MIU_def LLCP_POOL_BUF_SIZE_def i_bytes_def)
  then have room: "rx_room None x (node c X)" using f by (simp add: rx_room_def)
  show ?case using part_i_effect [OF 1(1,3) m(1) [unfolded 1(2)] 1(4-6) room, of params] 1(2) by blast
next
  case (2 rnr nr)
  show ?case using part_ack_effect [OF 2(1) m(1) [unfolded 2(2)] 2(3,4), of params] 2(2) by blast
qed

lemma simulated:
  "xstep W a a' \<Longrightarrow> net_rel idx sap L d a' \<Longrightarrow> \<exists>a'. (xstep W a a' \<or> a' = a) \<and> net_rel idx sap L d a'"
  by blast

text \<open>Every other step is a step of the specification, or changes nothing there.\<close>

lemma other_steps:
  assumes step: "pdu_step sap c d" and r: "net_rel idx sap L c a" and iv: "xinv (windows L) a"
    and ag: "\<And>X. limits_agree (L X) (L (other X))" and lk: "\<And>X. l_link_miu (L X) \<le> LLCP_MIU"
  shows "\<exists>a'. (xstep (windows L) a a' \<or> a' = a) \<and> net_rel idx sap L d a'"
  using step
proof (cases rule: pdu_step.cases)
  case (send_data b X st s)
  have rx: "side_rel (idx X) (sap X) (sap (other X)) (L X) (view (node c X)) (chan c X) (a X)"
    using r by (simp add: net_rel_def)
  have al: "alone (idx X) (sap X) (sap (other X)) (view (node c X))" by (rule side_rel_alone [OF rx])
  note e = send_data_effect [OF al, of b] send_data(3)
  show ?thesis
  proof (cases "st = LLCP_STATUS_FAIL")
    case True
    then have "s = node c X" using e by (auto split: if_splits)
    then show ?thesis using r True send_data(1) by (intro exI [of _ a]) simp
  next
    case False
    then have m: "blen b \<le> l_peer_miu (L X)" "LLCP_MIN_OFFSET \<le> unat (offset b)"
      and v: "view s = set_dl (idx X) (\<lambda>d. d\<lparr>i_xmit_q := i_xmit_q d @ [b]\<rparr>) (view (node c X))"
      using e by (auto simp: side_fields [OF rx] word_le_nat_alt split: if_splits)
    have "length (body b) < 65536" using send_data(2) unat_u16_less [of "bsize b"] by (simp add: fits_def)
    then have "length (body b) \<le> unat (l_peer_miu (L X))" using m(1) by (simp add: blen_def word_le_nat_alt unat_of_nat)
    note rx' = side_submit [OF rx m(2) this]
    show ?thesis
      using r rx' False by (intro simulated [OF xstep.submit [where X = X and x = "body b"]])
        (auto simp: net_rel_at [of _ _ _ _ _ X] send_data(1) v)
  qed
next
  case (read_data X i n pending x s)
  have rx: "side_rel (idx X) (sap X) (sap (other X)) (L X) (view (node c X)) (chan c X) (a X)"
    using r by (simp add: net_rel_def)
  have al: "alone (idx X) (sap X) (sap (other X)) (view (node c X))" by (rule side_rel_alone [OF rx])
  have i: "i = idx X" using alone_find [OF al] read_data(2) by simp
  obtain y ys where u: "unread (a X) = y # ys"
    using side_fields(5) [OF rx] read_data(3) by (cases "unread (a X)"; cases "i_rx_q (dlcb (node c X) i)")
      (auto simp: i rx_buf_def)
  obtain q where q: "rx_holds q ys" "x = y" "view s = set_dl (idx X) (\<lambda>d. d\<lparr>i_rx_q := q\<rparr>) (view (node c X))"
    using read_effect [OF al side_fields(5) [OF rx] read_data(4)] read_data(5) by (auto simp: u)
  note rx' = side_read [OF rx q(1), of "delivered (a X) @ [y]"]
  show ?thesis
    using r rx' by (intro simulated [OF xstep.read [where a = a and X = X, OF u]])
      (auto simp: net_rel_at [of _ _ _ _ _ X] read_data(1) q(2,3))
next
  case (set_busy X busy st s)
  have "alone (idx X) (sap X) (sap (other X)) (view (node c X))"
    using r by (auto simp: net_rel_def intro: side_rel_alone)
  then have "view s = view (node c X)" using busy_effect [of "idx X" "sap X" "sap (other X)" "node c X" busy] set_busy(2) by auto
  then show ?thesis using r by (intro exI [of _ a]) (auto simp: net_rel_at [of _ _ _ _ _ X] set_busy(1))
next
  case (send_acks X s)
  have rx: "side_rel (idx X) (sap X) (sap (other X)) (L X) (view (node c X)) (chan c X) (a X)"
    using r by (simp add: net_rel_def)
  have "acked (idx X) (sap X) (sap (other X)) (view (node c X)) (view s)"
    using check_to_send_effect [OF side_rel_alone [OF rx]] send_acks(2) by auto
  from side_acked [OF rx this] obtain k ms where k: "k = r_ack (a X) \<or> k = r_next (a X)" "ms = [] \<or> (\<exists>busy. ms = [Ack busy k])"
    "side_rel (idx X) (sap X) (sap (other X)) (L X) (view s) (chan c X) ((a X)\<lparr>r_ack := k, on_way := on_way (a X) @ ms\<rparr>)"
    by blast
  show ?thesis
    using r k(3) by (intro simulated [OF xstep.ack [where a = a and X = X, OF k(1,2)]])
      (auto simp: net_rel_at [of _ _ _ _ _ X] send_acks(1))
next
  case (transmit_pdu X b s)
  have rx: "side_rel (idx X) (sap X) (sap (other X)) (L X) (view (node c X)) (chan c X) (a X)"
    using r by (simp add: net_rel_def)
  have e: "if v_sig (view (node c X)) = [] then taken (idx X) (sap X) (sap (other X)) (dlcb (node c X) (idx X)) (view (node c X)) b (view s)
    else b = hd (v_sig (view (node c X))) \<and> view s = (view (node c X))\<lparr>v_sig := tl (v_sig (view (node c X)))\<rparr>"
    by (rule next_pdu_effect [OF side_rel_alone [OF rx] side_fields(11) [OF rx] transmit_pdu(2)])
  show ?thesis
  proof (cases "v_sig (view (node c X))")
    case Nil
    obtain x q k where t: "to_send (a X) = x # q" "llcp_dlc_is_rw_open (dlcb (node c X) (idx X))"
      "k = r_ack (a X) \<or> k = r_next (a X)"
      "side_rel (idx X) (sap X) (sap (other X)) (L X) (view s) (chan c X @ [body b])
        ((a X)\<lparr>to_send := q, r_ack := k, s_next := Suc (s_next (a X)), on_way := on_way (a X) @ [Info (s_next (a X)) k x]\<rparr>)"
      using side_taken [OF rx Nil, of b "view s"] e Nil by auto
    have w: "s_ack (a X) \<le> s_next (a X)" "s_next (a X) \<le> s_ack (a X) + windows L X" using xinv_window [OF iv] by auto
    have "windows L X < 16" using ag [of X] by (simp add: windows_def limits_agree_def)
    then have "s_next (a X) < s_ack (a X) + windows L X"
      using t(2) w rw_open_counters [OF side_fields(2,1) [OF rx]] by (simp add: side_fields [OF rx] windows_def)
    then show ?thesis
      using r t(4) by (intro simulated [OF xstep.send [where a = a and X = X, OF t(1) _ t(3)]])
        (auto simp: net_rel_at [of _ _ _ _ _ X] transmit_pdu(1))
  next
    case (Cons h q)
    have "side_rel (idx X) (sap X) (sap (other X)) (L X) (view s) (chan c X @ [body b]) (a X)"
      using side_signal [OF rx Cons] e Cons by simp
    then show ?thesis using r by (intro exI [of _ a]) (auto simp: net_rel_at [of _ _ _ _ _ X] transmit_pdu(1))
  qed
next
  case (receive_pdu X b fs params s)
  then show ?thesis using receive_accepted [OF r iv ag receive_pdu(2,3), of params] by auto
next
  case (receive_part X p fs m q params s)
  then show ?thesis using part_accepted [OF r iv ag lk receive_part(2-5), of params] by auto
next
  case (internal s X)
  then show ?thesis using r by (intro exI [of _ a]) (auto simp: net_rel_at [of _ _ _ _ _ X])
qed

text \<open>
  The links of the two sides: no side aggregates more than the other takes, a buffer holds what is taken, and no
  SNL PDU waits.
\<close>

definition links_agree :: "(side \<Rightarrow> limits) \<Rightarrow> bool" where
  "links_agree L \<longleftrightarrow>
     (\<forall>X. l_eff_miu (L X) \<le> l_link_miu (L (other X)) \<and> l_link_miu (L X) \<le> LLCP_MIU \<and> l_snl (L X) = None)"

definition refines :: "(side \<Rightarrow> nat) \<Rightarrow> (side \<Rightarrow> byte) \<Rightarrow> (side \<Rightarrow> limits) \<Rightarrow> net \<Rightarrow> bool" where
  "refines idx sap L c \<longleftrightarrow>
     (\<exists>a. net_rel idx sap L c a \<and> xinv (windows L) a) \<and> (\<forall>X. limits_agree (L X) (L (other X))) \<and> links_agree L"

lemma refines_fresh:
  assumes "fresh_net idx sap c" "links_agree (\<lambda>X. limits_of (idx X) (view (node c X)))"
  shows "refines idx sap (\<lambda>X. limits_of (idx X) (view (node c X))) c"
  using net_rel_fresh [OF assms(1)] xinv_fresh assms by (auto simp: refines_def fresh_net_def)

lemma refines_step: "pdu_step sap c d \<Longrightarrow> refines idx sap L c \<Longrightarrow> refines idx sap L d"
proof -
  assume step: "pdu_step sap c d" and r: "refines idx sap L c"
  obtain a where a: "net_rel idx sap L c a" "xinv (windows L) a" using r by (auto simp: refines_def)
  have ag: "limits_agree (L X) (L (other X))" and lk: "l_link_miu (L X) \<le> LLCP_MIU" for X
    using r by (simp_all add: refines_def links_agree_def)
  obtain a' where "xstep (windows L) a a' \<or> a' = a" "net_rel idx sap L d a'"
    using other_steps [OF step a ag lk] by blast
  then have "\<exists>a. net_rel idx sap L d a \<and> xinv (windows L) a" using a(2) xinv_step by blast
  then show ?thesis using r by (simp add: refines_def)
qed

lemma refines_steps: "(pdu_step sap)\<^sup>*\<^sup>* c d \<Longrightarrow> refines idx sap L c \<Longrightarrow> refines idx sap L d"
  by (induction rule: rtranclp_induct) (auto intro: refines_step)

end
