(* ===== verification/Llcp_Frames.thy ===== *)
theory Llcp_Frames
  imports Llcp_Peers
begin

text \<open>
  The frames between two stations: a frame is a PDU or an AGF PDU with several of them, as
  \<open>llcp_link_build_next_pdu\<close> makes it and \<open>llcp_link_proc_agf_pdu\<close> takes it apart. What a station does with a frame is a
  sequence of the steps of \<open>Llcp_Peers\<close>.
\<close>

section \<open>The length of the next PDU\<close>

lemma sched_indices [simp]:
  "ll_served (lcb (next_ll s)) = ll_served (lcb s)" "dl_idx (lcb (next_ll s)) = dl_idx (lcb s)"
  "sig_xmit_q (lcb (next_ll s)) = sig_xmit_q (lcb s)" "ll_served (lcb (next_dl s)) = ll_served (lcb s)"
  "sig_xmit_q (lcb (next_dl s)) = sig_xmit_q (lcb s)" "sig_xmit_q (lcb (toggle_served s)) = sig_xmit_q (lcb s)"
  by (simp_all add: next_ll_def next_dl_def toggle_served_def upd_lcb_def)

lemma ll_scan_length_view: "ll_scan True n s = (r, s') \<Longrightarrow> view s' = view s"
  by (induction n arbitrary: s) (auto split: option.splits list.splits)

lemma dl_scan_length_view: "dl_scan E True n s = Some (r, s') \<Longrightarrow> view s' = view s"
  by (induction n arbitrary: s) (auto simp: Let_def split: if_splits)

lemma sched_length_view: "sched_rounds E True n s = Some (r, s') \<Longrightarrow> view s' = view s"
  by (induction n arbitrary: s)
    (auto split: if_splits Option.bind_splits prod.splits dest: ll_scan_length_view dl_scan_length_view)

lemma next_length_view: "next_pdu_length E s = Some (n, s') \<Longrightarrow> view s' = view s"
  by (auto simp: next_pdu_length_def llcp_link_get_next_pdu_def split: list.splits Option.bind_splits sched.splits
      dest: sched_length_view)

lemma dl_scan_length:
  "dl_scan E True n s = Some (Length k, s') \<Longrightarrow>
     ll_served (lcb s') = ll_served (lcb s) \<and> sig_xmit_q (lcb s') = sig_xmit_q (lcb s)
     \<and> dl_state (dlcb s' (unat (dl_idx (lcb s')))) \<noteq> LLCP_DLC_STATE_IDLE
     \<and> llcp_dlc_get_next_pdu_length (dlcb s' (unat (dl_idx (lcb s')))) = k \<and> 0 < k"
  by (induction n arbitrary: s) (auto simp: Let_def split: if_splits)

lemma dl_scan_not_taken: "dl_scan E True n s \<noteq> Some (Taken b, s')"
  by (induction n arbitrary: s) (auto simp: Let_def)

lemma dl_scan_nothing: "dl_scan E True n s = Some (Nothing, s') \<Longrightarrow> ll_served (lcb s') = (\<not> ll_served (lcb s))"
  by (induction n arbitrary: s) (auto simp: Let_def toggle_served_def upd_lcb_def split: if_splits)

text \<open>
  The length that was announced is that of the PDU taken next: \<open>due s n\<close> is the state in which the search for the length
  \<open>n\<close> has stopped.
\<close>

definition due :: "llcp_cb \<Rightarrow> u16 \<Rightarrow> bool" where
  "due s n \<longleftrightarrow> n \<noteq> 0 \<longrightarrow> (case sig_xmit_q (lcb s) of
       b # q \<Rightarrow> blen b = n
     | [] \<Rightarrow> ll_served (lcb s) \<and> dl_state (dlcb s (unat (dl_idx (lcb s)))) \<noteq> LLCP_DLC_STATE_IDLE
         \<and> llcp_dlc_get_next_pdu_length (dlcb s (unat (dl_idx (lcb s)))) = n)"

lemma sched_length:
  assumes a: "alone i own peer (view s)" and l: "sched_rounds quiet_env True 2 s = Some (Length n, s')"
  shows "ll_served (lcb s') \<and> sig_xmit_q (lcb s') = sig_xmit_q (lcb s)
     \<and> dl_state (dlcb s' (unat (dl_idx (lcb s')))) \<noteq> LLCP_DLC_STATE_IDLE
     \<and> llcp_dlc_get_next_pdu_length (dlcb s' (unat (dl_idx (lcb s')))) = n \<and> 0 < n"
proof -
  have ll: "\<exists>s1. ll_scan True LLCP_NUM_SAPS t = (Nothing, s1) \<and> ll_served (lcb s1) = (\<not> ll_served (lcb t))
      \<and> sig_xmit_q (lcb s1) = sig_xmit_q (lcb t)"
    if "alone i own peer (view t)" for t
  proof -
    have "alone i own peer (view t) \<Longrightarrow> \<exists>s1. ll_scan True k t = (Nothing, s1) \<and> ll_served (lcb s1) = (\<not> ll_served (lcb t))
      \<and> sig_xmit_q (lcb s1) = sig_xmit_q (lcb t)" for k
    proof (induction k arbitrary: t)
      case 0
      then show ?case by (simp add: toggle_served_def upd_lcb_def)
    next
      case (Suc k)
      then show ?case using Suc.IH [of "next_ll t"] no_ui_pending [OF Suc.prems] by (auto split: option.splits)
    qed
    then show ?thesis using that by blast
  qed
  have two: "sched_rounds quiet_env True 2 s = sched_rounds quiet_env True (Suc (Suc 0)) s" by (simp add: numeral_2_eq_2)
  show ?thesis
  proof (cases "ll_served (lcb s)")
    case False
    obtain s1 where s1: "ll_scan True LLCP_NUM_SAPS s = (Nothing, s1)" "ll_served (lcb s1)"
      "sig_xmit_q (lcb s1) = sig_xmit_q (lcb s)" using ll [OF a] False by blast
    then have "dl_scan quiet_env True LLCP_MAX_DATA_LINK s1 = Some (Length n, s')"
      using l False unfolding two by (auto split: Option.bind_splits if_splits)
    from dl_scan_length [OF this] s1 show ?thesis by simp
  next
    case True
    obtain r s1 where d: "dl_scan quiet_env True LLCP_MAX_DATA_LINK s = Some (r, s1)"
      using l True unfolding two by (auto split: Option.bind_splits)
    have v: "alone i own peer (view s1)" using a dl_scan_length_view [OF d] by simp
    have "r = Length n \<and> s1 = s'"
    proof (cases r)
      case Nothing
      then have "\<not> ll_served (lcb s1)" using dl_scan_nothing d True by blast
      moreover obtain s2 where "ll_scan True LLCP_NUM_SAPS s1 = (Nothing, s2)" using ll [OF v] by blast
      ultimately show ?thesis using l True d Nothing unfolding two by simp
    qed (use l True d dl_scan_not_taken in \<open>auto simp: two\<close>)
    then show ?thesis using dl_scan_length [of quiet_env LLCP_MAX_DATA_LINK s n s'] d True by simp
  qed
qed

lemma length_due:
  assumes a: "alone i own peer (view s)" and l: "next_pdu_length quiet_env s = Some (n, s')"
  shows "due s' n"
proof (cases "sig_xmit_q (lcb s)")
  case (Cons h q)
  then show ?thesis using l by (auto simp: next_pdu_length_def llcp_link_get_next_pdu_def due_def)
next
  case Nil
  show ?thesis
  proof (cases "n = 0")
    case False
    then have "sched_rounds quiet_env True 2 s = Some (Length n, s')"
      using l Nil by (auto simp: next_pdu_length_def llcp_link_get_next_pdu_def split: Option.bind_splits sched.splits)
    from sched_length [OF a this] Nil show ?thesis by (simp add: due_def)
  qed (simp add: due_def)
qed

lemma due_taken:
  assumes a: "alone i own peer (view s)" and off: "\<forall>b \<in> set (i_xmit_q (dlcb s i)). LLCP_MIN_OFFSET \<le> unat (offset b)"
    and n: "n \<noteq> 0" "due s n"
  shows "\<exists>b t. llcp_link_get_next_pdu quiet_env False s = Some (Taken b, t) \<and> blen b = n"
proof (cases "sig_xmit_q (lcb s)")
  case (Cons h q)
  then show ?thesis using n by (auto simp: due_def llcp_link_get_next_pdu_def)
next
  case Nil
  let ?j = "unat (dl_idx (lcb s))"
  have f: "ll_served (lcb s)" "dl_state (dlcb s ?j) \<noteq> LLCP_DLC_STATE_IDLE" "llcp_dlc_get_next_pdu_length (dlcb s ?j) = n"
    using n Nil by (simp_all add: due_def)
  have j: "?j = i" using f(2) a by (auto simp: alone_def view_def)
  have m: "may_send (dlcb s i)" "n = blen (hd (i_xmit_q (dlcb s i))) + 3"
    using f(3) n(1) by (auto simp: j llcp_dlc_get_next_pdu_length_def llcp_sizes split: list.splits if_splits)
  obtain c q k b' t' where c: "llcp_dlc_get_next_pdu quiet_env i s = Some (Some b', t')" "i_xmit_q (dlcb s i) = c # q"
    "body b' = i_bytes own peer (next_tx_seq (dlcb s i)) k (body c)"
    using get_next_pdu_effect [OF a off] m(1) by metis
  have "dl_scan quiet_env False (Suc k') s = Some (Taken b', toggle_served (next_dl t'))" for k'
    using f c(1) by (simp add: j)
  then have "dl_scan quiet_env False LLCP_MAX_DATA_LINK s = Some (Taken b', toggle_served (next_dl t'))"
    by (metis LLCP_MAX_DATA_LINK_def numeral_eq_Suc)
  then have "llcp_link_get_next_pdu quiet_env False s = Some (Taken b', toggle_served (next_dl t'))"
    using f Nil by (simp add: llcp_link_get_next_pdu_def numeral_2_eq_2)
  moreover have "blen b' = n" using m(2) c(2,3) by (simp add: blen_def i_bytes_def add.commute)
  ultimately show ?thesis by blast
qed

section \<open>Facts of a station\<close>

lemma refines_side:
  assumes "refines idx sap L c"
  obtains st where "side_rel (idx X) (sap X) (sap (other X)) (L X) (view (node c X)) (chan c X) st"
  using assms by (auto simp: refines_def net_rel_def)

lemma station_facts:
  assumes "refines idx sap L c"
  shows "alone (idx X) (sap X) (sap (other X)) (view (node c X))"
    "\<forall>b \<in> set (i_xmit_q (dlcb (node c X) (idx X))). LLCP_MIN_OFFSET \<le> unat (offset b)"
    "local_link_miu (lcb (node c X)) = l_link_miu (L X)" "effective_miu (lcb (node c X)) = l_eff_miu (L X)"
    "p_snl (sdp (node c X)) = None"
    "l_eff_miu (L X) \<le> l_link_miu (L (other X))" "l_link_miu (L X) \<le> LLCP_MIU"
proof -
  obtain st where r: "side_rel (idx X) (sap X) (sap (other X)) (L X) (view (node c X)) (chan c X) st"
    by (rule refines_side [OF assms])
  show "alone (idx X) (sap X) (sap (other X)) (view (node c X))" by (rule side_rel_alone [OF r])
  show "\<forall>b \<in> set (i_xmit_q (dlcb (node c X) (idx X))). LLCP_MIN_OFFSET \<le> unat (offset b)" by (rule side_fields(11) [OF r])
  show "local_link_miu (lcb (node c X)) = l_link_miu (L X)" by (rule side_fields(10) [OF r])
  have "limits_of (idx X) (view (node c X)) = L X" using r by (simp add: side_rel_def)
  then have l: "l_eff_miu (L X) = effective_miu (lcb (node c X))" "l_snl (L X) = p_snl (sdp (node c X))"
    by (simp_all add: limits_of_def flip: \<open>limits_of (idx X) (view (node c X)) = L X\<close>)
  then show "effective_miu (lcb (node c X)) = l_eff_miu (L X)" by simp
  show "p_snl (sdp (node c X)) = None" using assms l by (simp add: refines_def links_agree_def)
  show "l_eff_miu (L X) \<le> l_link_miu (L (other X))" "l_link_miu (L X) \<le> LLCP_MIU"
    using assms by (simp_all add: refines_def links_agree_def)
qed

text \<open>The PDUs in a channel are not AGF PDUs, and their lengths are numbers of 16 bits.\<close>

lemma chan_pdu:
  assumes "refines idx sap L c" "p \<in> set (chan c X)"
  shows "2 \<le> length p" "length p < 65536"
    "\<exists>h. rd_be16 p 0 = Some h \<and> LLCP_GET_PTYPE h \<noteq> LLCP_PDU_AGF_TYPE \<and> LLCP_GET_PTYPE h \<noteq> LLCP_PDU_SYMM_TYPE"
proof -
  obtain st where r: "side_rel (idx X) (sap X) (sap (other X)) (L X) (view (node c X)) (chan c X) st"
    by (rule refines_side [OF assms(1)])
  have e: "chan c X @ map body (v_sig (view (node c X))) = map (enc (sap X) (sap (other X))) (on_way st)"
    and b: "\<forall>x \<in> set (sdus (on_way st)). length x \<le> unat (l_peer_miu (L X))" using r by (auto simp: side_rel_def)
  have "set (chan c X) \<subseteq> enc (sap X) (sap (other X)) ` set (on_way st)"
    using arg_cong [OF e, of set] by auto
  then obtain m where m: "m \<in> set (on_way st)" "p = enc (sap X) (sap (other X)) m" using assms(2) by blast
  have ag: "limits_agree (L X) (L (other X))" using assms(1) by (simp add: refines_def)
  have sap: "unat (sap X) < 64" "unat (sap (other X)) < 64" using station_facts(1) [OF assms(1), of X] by (simp_all add: alone_def)
  have "l_peer_miu (L X) \<le> l_link_miu (L (other X))" using ag by (simp add: limits_agree_def)
  then have pm: "unat (l_peer_miu (L X)) \<le> unat LLCP_MIU"
    using station_facts(7) [OF assms(1), of "other X"] by (simp add: word_le_nat_alt)
  have x: "x \<in> set (sdus ms)" if "Info n k x \<in> set ms" for n k x ms
    using that by (induction ms rule: sdus.induct) auto
  show "2 \<le> length p" by (simp add: m(2) enc_def i_bytes_def ack_bytes_def split: msg.split)
  have "unat LLCP_MIU + 3 < 65536" by (simp add: LLCP_MIU_def LLCP_POOL_BUF_SIZE_def)
  then show "length p < 65536"
    using b x [of _ _ _ "on_way st"] m(1) pm by (fastforce simp: m(2) enc_def i_bytes_def ack_bytes_def split: msg.split)
  show "\<exists>h. rd_be16 p 0 = Some h \<and> LLCP_GET_PTYPE h \<noteq> LLCP_PDU_AGF_TYPE \<and> LLCP_GET_PTYPE h \<noteq> LLCP_PDU_SYMM_TYPE"
    using sap by (simp add: m(2) enc_def i_bytes_def ack_bytes_def ptype_fields split: msg.split)
qed

text \<open>The station \<open>X\<close> after something it did alone: it has become \<open>s\<close> and has sent \<open>ps\<close>.\<close>

definition sends_pdus :: "side \<Rightarrow> llcp_cb \<Rightarrow> byte list list \<Rightarrow> net \<Rightarrow> net" where
  "sends_pdus X s ps c = c\<lparr>node := (node c)(X := s), chan := (chan c)(X := chan c X @ ps)\<rparr>"

lemma sends_pdus_simps [simp]:
  "node (sends_pdus X s ps c) X = s" "chan (sends_pdus X s ps c) X = chan c X @ ps"
  "sends_pdus X s' qs (sends_pdus X s ps c) = sends_pdus X s' (ps @ qs) c"
  by (simp_all add: sends_pdus_def)

lemma sends_nothing: "node c X = s \<Longrightarrow> sends_pdus X s [] c = c"
  by (cases c) (auto simp: sends_pdus_def)

lemma internal_pdus: "view s = view (node c X) \<Longrightarrow> pdu_step sap c (sends_pdus X s [] c)"
  using pdu_step.internal [of s c X sap] by (simp add: sends_pdus_def)

lemma transmit_pdus:
  "llcp_link_get_next_pdu quiet_env False (node c X) = Some (Taken b, s) \<Longrightarrow> pdu_step sap c (sends_pdus X s [body b] c)"
  unfolding sends_pdus_def by (rule pdu_step.transmit_pdu)

lemma not_taken:
  assumes "refines idx sap L c" "llcp_link_get_next_pdu quiet_env False (node c X) = Some (r, s)" "\<nexists>b. r = Taken b"
  shows "view s = view (node c X)"
proof (cases "sig_xmit_q (lcb (node c X))")
  case Nil
  then show ?thesis
    using sched_effect [OF station_facts(1,2) [OF assms(1), of X], of 2] assms(2,3)
    by (auto simp: llcp_link_get_next_pdu_def)
qed (use assms in \<open>auto simp: llcp_link_get_next_pdu_def\<close>)

lemma snl_view: "refines idx sap L c \<Longrightarrow> view (llcp_sdp_check_send_snl (node c X)) = view (node c X)"
  using station_facts(5) [of idx sap L c X] by (simp add: llcp_sdp_check_send_snl_def view_def)

section \<open>Aggregation\<close>

definition frame_of :: "nat \<Rightarrow> byte list \<Rightarrow> byte list list \<Rightarrow> bool" where
  "frame_of M f ps \<longleftrightarrow> ps = [f] \<or> f = agf_header @ frames ps \<and> length (frames ps) \<le> M"

lemma agf_loop_steps:
  assumes ret: "agf_loop quiet_env n agf s = Some (b, s')"
    and "refines idx sap L c" "node c X = s" "due s n" "body agf = agf_header @ frames ps"
    and "length (frames ps) \<le> unat (l_eff_miu (L X))"
  shows "\<exists>qs. body b = agf_header @ frames (ps @ qs) \<and> length (frames (ps @ qs)) \<le> unat (l_eff_miu (L X))
    \<and> (pdu_step sap)\<^sup>*\<^sup>* c (sends_pdus X s' qs c)"
  using assms
proof -
  define P where "P = (\<lambda>E n (agf :: bt_hdr) s (r :: bt_hdr \<times> llcp_cb). \<forall>c ps. E = quiet_env \<longrightarrow> refines idx sap L c \<longrightarrow> node c X = s \<longrightarrow> due s n
    \<longrightarrow> body agf = agf_header @ frames ps \<longrightarrow> length (frames ps) \<le> unat (l_eff_miu (L X)) \<longrightarrow>
    (\<exists>qs. body (fst r) = agf_header @ frames (ps @ qs) \<and> length (frames (ps @ qs)) \<le> unat (l_eff_miu (L X))
      \<and> (pdu_step sap)\<^sup>*\<^sup>* c (sends_pdus X (snd r) qs c)))"
  have "P quiet_env n agf s (b, s')"
  proof (rule agf_loop.raw_induct [where P = P, OF _ ret], unfold P_def, intro allI impI, goal_cases)
    case (1 loop E n agf s r c ps)
    note IH = 1(1) [rule_format] and eq = 1(2) and rc = 1(4) and nd = 1(5) and an = 1(6) and bd = 1(7) and len = 1(8)
    have hd: "length agf_header = 2" by (simp add: agf_header_def)
    show ?case
    proof (cases "n = 0 \<or> unat (effective_miu (lcb s)) < length (body agf) - LLCP_PDU_HEADER_SIZE + 2 + unat n")
      case True
      then have "r = (agf, s)" using eq by simp
      moreover have "sends_pdus X s [] c = c" by (rule sends_nothing [OF nd])
      ultimately show ?thesis using bd len by (intro exI [of _ "[]"]) simp
    next
      case False
      obtain b1 s1 agf' n2 s2 where g: "llcp_link_get_next_pdu quiet_env False s = Some (Taken b1, s1)"
        and ap: "append_bytes (be16_bytes (blen b1) @ body b1) agf = Some agf'"
        and nx: "next_pdu_length quiet_env s1 = Some (n2, s2)" and lp: "loop E n2 agf' s2 = Some r"
        using eq 1(3) unfolding if_not_P [OF False]
        by (auto split: Option.bind_splits prod.splits sched.splits)
      let ?c1 = "sends_pdus X s1 [body b1] c" and ?c2 = "sends_pdus X s2 [body b1] c"
      have st1: "pdu_step sap c ?c1" using transmit_pdus g nd by blast
      have r1: "refines idx sap L ?c1" by (rule refines_step [OF st1 rc])
      have v2: "view s2 = view (node ?c1 X)" using next_length_view [OF nx] by simp
      have st2: "pdu_step sap ?c1 ?c2" using internal_pdus [OF v2] by simp
      have r2: "refines idx sap L ?c2" by (rule refines_step [OF st2 r1])
      have an2: "due s2 n2" by (rule length_due [OF station_facts(1) [OF r1, of X], unfolded sends_pdus_simps, OF nx])
      have bl: "blen b1 = n"
        using due_taken [OF station_facts(1,2) [OF rc, of X], of n] an g False nd by auto
      have "length (body b1) < 65536" by (rule chan_pdu(2) [OF r1, of _ X]) simp
      then have bn: "unat n = length (body b1)" using bl by (simp add: blen_def unat_of_nat flip: bl)
      have b2: "body agf' = agf_header @ frames (ps @ [body b1])"
        using ap bd by (auto simp: append_bytes_def blen_def split: if_splits)
      have l2: "length (frames (ps @ [body b1])) \<le> unat (l_eff_miu (L X))"
        using False bd bn hd station_facts(4) [OF rc, of X] nd by (simp add: llcp_sizes)
      obtain qs where qs: "body (fst r) = agf_header @ frames ((ps @ [body b1]) @ qs)"
        "length (frames ((ps @ [body b1]) @ qs)) \<le> unat (l_eff_miu (L X))"
        "(pdu_step sap)\<^sup>*\<^sup>* ?c2 (sends_pdus X (snd r) qs ?c2)"
        using IH [OF lp 1(3) r2 _ an2 b2 l2] by auto
      have "(pdu_step sap)\<^sup>*\<^sup>* c (sends_pdus X (snd r) (body b1 # qs) c)"
        using st1 st2 qs(3) by (simp add: converse_rtranclp_into_rtranclp)
      then show ?thesis using qs(1,2) by (intro exI [of _ "body b1 # qs"]) simp
    qed
  qed
  then show ?thesis using assms(2-) unfolding P_def by auto
qed

lemma agf_start_steps:
  assumes ret: "agf_start quiet_env n b s = Some (b', s')"
    and rc: "refines idx sap L c" and nd: "node c X = s" and an: "due s n" and b: "body b \<in> set (chan c X)"
  shows "\<exists>qs. frame_of (unat (l_eff_miu (L X))) (body b') (body b # qs) \<and> (pdu_step sap)\<^sup>*\<^sup>* c (sends_pdus X s' qs c)"
proof -
  obtain got s1 where g: "GKI_getpoolbuf_llcp s = (got, s1)" by fastforce
  have v1: "view s1 = view (node c X)" using view_getpoolbuf [OF g] nd by simp
  have an1: "due s1 n" using an g by (auto simp: due_def GKI_getpoolbuf_llcp_def split: list.splits)
  let ?big = "n = 0 \<or> unat (effective_miu (lcb s)) < 2 + length (body b) + 2 + unat n"
  consider (big) "?big" "b' = b" "s' = s" | (none) "b' = b" "s' = s1"
    | (agf) agf where "\<not> ?big" "append_bytes (agf_header @ be16_bytes (blen b) @ body b) (new_pdu []) = Some agf"
        "agf_loop quiet_env n agf s1 = Some (b', s')"
    using ret g by (auto simp: agf_start_def Let_def split: if_splits Option.bind_splits)
  then show ?thesis
  proof cases
    case big
    then show ?thesis using sends_nothing [OF nd] by (intro exI [of _ "[]"]) (simp add: frame_of_def)
  next
    case none
    then show ?thesis using internal_pdus [OF v1] by (intro exI [of _ "[]"]) (auto simp: frame_of_def)
  next
    case agf
    let ?c = "sends_pdus X s1 [] c"
    have st: "pdu_step sap c ?c" by (rule internal_pdus [OF v1])
    have bd: "body agf = agf_header @ frames [body b]"
      using agf(2) by (auto simp: append_bytes_def new_pdu_def blen_def split: if_splits)
    have len: "length (frames [body b]) \<le> unat (l_eff_miu (L X))"
      using agf(1) station_facts(4) [OF rc, of X] nd by simp
    obtain qs where qs: "body b' = agf_header @ frames ([body b] @ qs)" "length (frames ([body b] @ qs)) \<le> unat (l_eff_miu (L X))"
      "(pdu_step sap)\<^sup>*\<^sup>* ?c (sends_pdus X s' qs ?c)"
      using agf_loop_steps [OF agf(3) refines_step [OF st rc] _ an1 bd len] by auto
    then show ?thesis using st by (intro exI [of _ qs]) (simp add: frame_of_def converse_rtranclp_into_rtranclp)
  qed
qed

lemma build_first_steps:
  assumes ret: "llcp_link_build_next_pdu quiet_env None (node c X) = Some (r, s')" and rc: "refines idx sap L c"
  shows "\<exists>ps. (case r of None \<Rightarrow> ps = [] | Some b \<Rightarrow> frame_of (unat (l_eff_miu (L X))) (body b) ps)
    \<and> (pdu_step sap)\<^sup>*\<^sup>* c (sends_pdus X s' ps c)"
proof -
  let ?s = "llcp_sdp_check_send_snl (node c X)"
  let ?c0 = "sends_pdus X ?s [] c"
  have st0: "pdu_step sap c ?c0" by (rule internal_pdus [OF snl_view [OF rc]])
  have r0: "refines idx sap L ?c0" by (rule refines_step [OF st0 rc])
  obtain t s1 where g: "llcp_link_get_next_pdu quiet_env False ?s = Some (t, s1)"
    using ret by (auto simp: llcp_link_build_next_pdu_def Let_def split: Option.bind_splits)
  show ?thesis
  proof (cases "\<exists>b. t = Taken b")
    case True
    then obtain b where Taken: "t = Taken b" by blast
    let ?c1 = "sends_pdus X s1 [body b] c"
    have st1: "pdu_step sap ?c0 ?c1" using transmit_pdus [of ?c0 X b s1] g Taken by simp
    have r1: "refines idx sap L ?c1" by (rule refines_step [OF st1 r0])
    obtain n s2 b' where n: "next_pdu_length quiet_env s1 = Some (n, s2)" "agf_start quiet_env n b s2 = Some (b', s')" "r = Some b'"
      using ret g Taken by (auto simp: llcp_link_build_next_pdu_def Let_def split: Option.bind_splits)
    let ?c2 = "sends_pdus X s2 [body b] c"
    have st2: "pdu_step sap ?c1 ?c2" using internal_pdus [of s2 ?c1 X] next_length_view [OF n(1)] by simp
    have d2: "due s2 n" by (rule length_due [OF station_facts(1) [OF r1, of X], unfolded sends_pdus_simps, OF n(1)])
    obtain qs where qs: "frame_of (unat (l_eff_miu (L X))) (body b') (body b # qs)" "(pdu_step sap)\<^sup>*\<^sup>* ?c2 (sends_pdus X s' qs ?c2)"
      using agf_start_steps [where X = X, OF n(2) refines_step [OF st2 r1] _ d2] by auto
    have "(pdu_step sap)\<^sup>*\<^sup>* c (sends_pdus X s' (body b # qs) c)"
      using st0 st1 st2 qs(2) by (simp add: converse_rtranclp_into_rtranclp)
    then show ?thesis using qs(1) n(3) by (intro exI [of _ "body b # qs"]) simp
  next
    case False
    then have r: "r = None" "s1 = s'" using ret g by (auto simp: llcp_link_build_next_pdu_def Let_def split: sched.splits)
    have "view s' = view (node ?c0 X)" using not_taken [OF r0, of X t s1] g False r(2) by simp
    from internal_pdus [OF this] have "(pdu_step sap)\<^sup>*\<^sup>* c (sends_pdus X s' [] c)"
      using st0 by (simp add: converse_rtranclp_into_rtranclp r_into_rtranclp)
    then show ?thesis using r(1) by (intro exI [of _ "[]"]) simp
  qed
qed

lemma agf_header_type: "LLCP_GET_PTYPE (LLCP_GET_PDU_HEADER LLCP_SAP_LM LLCP_PDU_AGF_TYPE LLCP_SAP_LM) = LLCP_PDU_AGF_TYPE"
  by (simp add: ptype_fields)

lemma build_more_steps:
  assumes ret: "llcp_link_build_next_pdu quiet_env (Some b) (node c X) = Some (r, s')" and rc: "refines idx sap L c"
    and f: "frame_of (unat (l_eff_miu (L X))) (body b) ps" and p: "set ps \<subseteq> set (chan c X)"
  shows "\<exists>b' qs. r = Some b' \<and> frame_of (unat (l_eff_miu (L X))) (body b') (ps @ qs)
    \<and> (pdu_step sap)\<^sup>*\<^sup>* c (sends_pdus X s' qs c)"
proof -
  let ?s = "llcp_sdp_check_send_snl (node c X)"
  let ?c0 = "sends_pdus X ?s [] c"
  have st0: "pdu_step sap c ?c0" by (rule internal_pdus [OF snl_view [OF rc]])
  have r0: "refines idx sap L ?c0" by (rule refines_step [OF st0 rc])
  obtain h n s1 b' where h: "rd_be16 (body b) 0 = Some h" and n: "next_pdu_length quiet_env ?s = Some (n, s1)"
    and b': "(if LLCP_GET_PTYPE h = LLCP_PDU_AGF_TYPE then agf_loop quiet_env n b s1 else agf_start quiet_env n b s1) = Some (b', s')"
      "r = Some b'"
    using ret by (auto simp: llcp_link_build_next_pdu_def Let_def split: Option.bind_splits)
  let ?c1 = "sends_pdus X s1 [] c"
  have st1: "pdu_step sap ?c0 ?c1" using internal_pdus [of s1 ?c0 X] next_length_view [OF n] by simp
  have r1: "refines idx sap L ?c1" by (rule refines_step [OF st1 r0])
  have d1: "due s1 n" by (rule length_due [OF station_facts(1) [OF r0, of X], unfolded sends_pdus_simps, OF n])
  have "\<exists>qs. frame_of (unat (l_eff_miu (L X))) (body b') (ps @ qs) \<and> (pdu_step sap)\<^sup>*\<^sup>* ?c1 (sends_pdus X s' qs ?c1)"
  proof (cases "LLCP_GET_PTYPE h = LLCP_PDU_AGF_TYPE")
    case True
    have "body b \<notin> set (chan c X)" using chan_pdu(3) [OF rc, of "body b" X] h True by auto
    then have bd: "body b = agf_header @ frames ps" and len: "length (frames ps) \<le> unat (l_eff_miu (L X))"
      using f p by (auto simp: frame_of_def)
    show ?thesis
      using agf_loop_steps [OF b'(1) [unfolded if_P [OF True]] r1 _ d1 bd len] by (auto simp: frame_of_def)
  next
    case False
    have "rd_be16 (agf_header @ frames ps) 0 = Some (LLCP_GET_PDU_HEADER LLCP_SAP_LM LLCP_PDU_AGF_TYPE LLCP_SAP_LM)"
      by (simp add: agf_header_def)
    then have ps: "ps = [body b]" using f h False agf_header_type by (auto simp: frame_of_def)
    show ?thesis
      using agf_start_steps [where X = X, OF b'(1) [unfolded if_not_P [OF False]] r1 _ d1] p by (auto simp: ps)
  qed
  then show ?thesis using b'(2) st0 st1 by (auto intro: converse_rtranclp_into_rtranclp)
qed

lemma next_frame_steps:
  assumes ret: "next_frame quiet_env (node c X) = Some (r, s')" and rc: "refines idx sap L c"
  shows "\<exists>ps. (case r of None \<Rightarrow> ps = [] | Some b \<Rightarrow> frame_of (unat (l_eff_miu (L X))) (body b) ps)
    \<and> (pdu_step sap)\<^sup>*\<^sup>* c (sends_pdus X s' ps c)"
proof -
  obtain r1 s1 s2 where e: "llcp_link_build_next_pdu quiet_env None (node c X) = Some (r1, s1)"
    "llcp_dlc_check_to_send_rr_rnr quiet_env s1 = Some s2" "llcp_link_build_next_pdu quiet_env r1 s2 = Some (r, s')"
    using ret by (auto simp: next_frame_def split: Option.bind_splits)
  obtain ps where ps: "case r1 of None \<Rightarrow> ps = [] | Some b \<Rightarrow> frame_of (unat (l_eff_miu (L X))) (body b) ps"
    "(pdu_step sap)\<^sup>*\<^sup>* c (sends_pdus X s1 ps c)"
    using build_first_steps [OF e(1) rc] by blast
  have st: "pdu_step sap (sends_pdus X s1 ps c) (sends_pdus X s2 ps c)"
  proof -
    have "(sends_pdus X s1 ps c)\<lparr>node := (node (sends_pdus X s1 ps c))(X := s2)\<rparr> = sends_pdus X s2 ps c"
      by (cases c) (simp add: sends_pdus_def)
    then show ?thesis using pdu_step.send_acks [of "sends_pdus X s1 ps c" X s2 sap] e(2) by simp
  qed
  have st2: "(pdu_step sap)\<^sup>*\<^sup>* c (sends_pdus X s2 ps c)" using ps(2) st by simp
  note rc2 = refines_steps [OF st2 rc]
  show ?thesis
  proof (cases r1)
    case None
    obtain qs where "case r of None \<Rightarrow> qs = [] | Some b \<Rightarrow> frame_of (unat (l_eff_miu (L X))) (body b) qs"
      "(pdu_step sap)\<^sup>*\<^sup>* (sends_pdus X s2 ps c) (sends_pdus X s' (ps @ qs) c)"
      using build_first_steps [of "sends_pdus X s2 ps c" X r s', OF _ rc2] e(3) None by auto
    then show ?thesis using ps(1) None st2 by (intro exI [of _ qs]) auto
  next
    case (Some b)
    have f: "frame_of (unat (l_eff_miu (L X))) (body b) ps" using ps(1) Some by simp
    have e3: "llcp_link_build_next_pdu quiet_env (Some b) (node (sends_pdus X s2 ps c) X) = Some (r, s')" using e(3) Some by simp
    have p: "set ps \<subseteq> set (chan (sends_pdus X s2 ps c) X)" by simp
    obtain b' qs where "r = Some b'" "frame_of (unat (l_eff_miu (L X))) (body b') (ps @ qs)"
      "(pdu_step sap)\<^sup>*\<^sup>* (sends_pdus X s2 ps c) (sends_pdus X s' (ps @ qs) c)"
      using build_more_steps [OF e3 rc2 f p] by auto
    then show ?thesis using st2 by (intro exI [of _ "ps @ qs"]) auto
  qed
qed

text \<open>A frame can always be composed: the loop ends, and the buffer of an AGF PDU has room for what is added.\<close>

definition agf_buf :: "bt_hdr \<Rightarrow> bool" where
  "agf_buf b \<longleftrightarrow> bsize b = LLCP_POOL_BUF_SIZE \<and> offset b = offset (new_pdu [])"

lemma agf_append:
  assumes "agf_buf b" "length (body b) + length bs \<le> unat LLCP_MIU + 2"
  shows "append_bytes bs b = Some (b\<lparr>body := body b @ bs\<rparr>)" "agf_buf (b\<lparr>body := c\<rparr>)"
  using assms by (simp_all add: agf_buf_def append_bytes_def new_pdu_def LLCP_MIU_def LLCP_POOL_BUF_SIZE_def llcp_sizes)

lemma dl_scan_length_total: "\<exists>r s'. dl_scan E True n s = Some (r, s')"
  by (induction n arbitrary: s) (auto simp: Let_def)

lemma sched_length_total: "\<exists>r s'. sched_rounds E True n s = Some (r, s')"
proof (induction n arbitrary: s)
  case (Suc n)
  obtain r s1 where "(if \<not> ll_served (lcb s) then Some (ll_scan True LLCP_NUM_SAPS s) else dl_scan E True LLCP_MAX_DATA_LINK s) = Some (r, s1)"
    using dl_scan_length_total [of E LLCP_MAX_DATA_LINK s]
    by (cases "ll_served (lcb s)"; cases "ll_scan True LLCP_NUM_SAPS s") auto
  then show ?case using Suc.IH [of s1] by simp
qed simp

lemma next_length_total: "\<exists>n s'. next_pdu_length E s = Some (n, s')"
proof (cases "sig_xmit_q (lcb s)")
  case Nil
  then show ?thesis using sched_length_total [of E 2 s] by (auto simp: next_pdu_length_def llcp_link_get_next_pdu_def)
qed (simp add: next_pdu_length_def llcp_link_get_next_pdu_def)

lemma agf_loop_total:
  assumes "refines idx sap L c" "node c X = s" "due s n" "body agf = agf_header @ frames ps" "agf_buf agf"
  shows "\<exists>b s'. agf_loop quiet_env n agf s = Some (b, s') \<and> agf_buf b"
  using assms
proof (induction "unat (l_eff_miu (L X)) - length (frames ps)" arbitrary: c s n agf ps rule: less_induct)
  case less
  note rc = less(2) and nd = less(3) and d = less(4) and bd = less(5) and ab = less(6)
  have hd: "length agf_header = 2" by (simp add: agf_header_def)
  have M: "unat (l_eff_miu (L X)) \<le> unat LLCP_MIU"
    using station_facts(6,7) [OF rc, of X] station_facts(7) [OF rc, of "other X"] by (simp add: word_le_nat_alt)
  let ?stop = "n = 0 \<or> unat (effective_miu (lcb s)) < length (body agf) - LLCP_PDU_HEADER_SIZE + 2 + unat n"
  show ?case
  proof (cases ?stop)
    case True
    then show ?thesis using ab by (subst agf_loop.simps) simp
  next
    case False
    obtain b t where g: "llcp_link_get_next_pdu quiet_env False s = Some (Taken b, t)" "blen b = n"
      using due_taken [OF station_facts(1,2) [OF rc, of X], of n] d False nd by auto
    let ?c1 = "sends_pdus X t [body b] c"
    have st: "pdu_step sap c ?c1" using transmit_pdus g(1) nd by blast
    have r1: "refines idx sap L ?c1" by (rule refines_step [OF st rc])
    have "length (body b) < 65536" by (rule chan_pdu(2) [OF r1, of _ X]) simp
    then have bn: "unat n = length (body b)" using g(2) by (simp add: blen_def unat_of_nat flip: g(2))
    have len: "length (frames ps) + 2 + length (body b) \<le> unat (l_eff_miu (L X))"
      using False bd bn hd station_facts(4) [OF rc, of X] nd by (simp add: llcp_sizes)
    let ?agf = "agf\<lparr>body := body agf @ be16_bytes (blen b) @ body b\<rparr>"
    have ap: "append_bytes (be16_bytes (blen b) @ body b) agf = Some ?agf"
      using len M bd hd by (intro agf_append(1) [OF ab]) simp
    have ab': "agf_buf ?agf" using ab by (simp add: agf_buf_def)
    obtain n2 s2 where nx: "next_pdu_length quiet_env t = Some (n2, s2)" using next_length_total by blast
    let ?c2 = "sends_pdus X s2 [body b] c"
    have st2: "pdu_step sap ?c1 ?c2" using internal_pdus [of s2 ?c1 X] next_length_view [OF nx] by simp
    have r2: "refines idx sap L ?c2" by (rule refines_step [OF st2 r1])
    have d2: "due s2 n2" by (rule length_due [OF station_facts(1) [OF r1, of X], unfolded sends_pdus_simps, OF nx])
    have bd2: "body ?agf = agf_header @ frames (ps @ [body b])" using bd by (simp add: blen_def)
    have "\<exists>b s'. agf_loop quiet_env n2 ?agf s2 = Some (b, s') \<and> agf_buf b"
      by (rule less(1) [OF _ r2 _ d2 bd2 ab']) (use len in simp_all)
    then show ?thesis using False g(1) ap nx by (subst agf_loop.simps) simp
  qed
qed

lemma agf_start_total:
  assumes rc: "refines idx sap L c" and nd: "node c X = s" and d: "due s n"
  shows "\<exists>b' s'. agf_start quiet_env n b s = Some (b', s') \<and> (b' = b \<or> agf_buf b')"
proof -
  let ?big = "n = 0 \<or> unat (effective_miu (lcb s)) < 2 + length (body b) + 2 + unat n"
  obtain got s1 where g: "GKI_getpoolbuf_llcp s = (got, s1)" by fastforce
  show ?thesis
  proof (cases "?big \<or> \<not> got")
    case False
    have M: "unat (l_eff_miu (L X)) \<le> unat LLCP_MIU"
      using station_facts(6,7) [OF rc, of X] station_facts(7) [OF rc, of "other X"] by (simp add: word_le_nat_alt)
    have ab: "agf_buf (new_pdu [])" by (simp add: agf_buf_def new_pdu_def)
    let ?agf = "(new_pdu [])\<lparr>body := agf_header @ be16_bytes (blen b) @ body b\<rparr>"
    have ap: "append_bytes (agf_header @ be16_bytes (blen b) @ body b) (new_pdu []) = Some ?agf"
      using agf_append(1) [OF ab, of "agf_header @ be16_bytes (blen b) @ body b"] False M station_facts(4) [OF rc, of X] nd
      by (simp add: new_pdu_def agf_header_def)
    have v1: "view s1 = view (node c X)" using view_getpoolbuf [OF g] nd by simp
    have d1: "due s1 n" using d g by (auto simp: due_def GKI_getpoolbuf_llcp_def split: list.splits)
    have r1: "refines idx sap L (sends_pdus X s1 [] c)" by (rule refines_step [OF internal_pdus [OF v1] rc])
    have bd: "body ?agf = agf_header @ frames [body b]" by (simp add: blen_def)
    have "agf_buf ?agf" using ab by (simp add: agf_buf_def)
    then obtain b' s' where "agf_loop quiet_env n ?agf s1 = Some (b', s')" "agf_buf b'"
      using agf_loop_total [where X = X, OF r1 _ d1 bd] by auto
    then show ?thesis using False g ap by (auto simp: agf_start_def Let_def)
  qed (use g in \<open>auto simp: agf_start_def Let_def\<close>)
qed

lemma get_total:
  assumes "refines idx sap L c"
  shows "\<exists>r s'. llcp_link_get_next_pdu quiet_env False (node c X) = Some (r, s')"
proof (cases "sig_xmit_q (lcb (node c X))")
  case Nil
  then show ?thesis
    using sched_effect [OF station_facts(1,2) [OF assms, of X], of 2] by (auto simp: llcp_link_get_next_pdu_def)
qed (simp add: llcp_link_get_next_pdu_def)

lemma build_first_total:
  assumes rc: "refines idx sap L c"
  shows "\<exists>r s'. llcp_link_build_next_pdu quiet_env None (node c X) = Some (r, s')
    \<and> (\<forall>b. r = Some b \<longrightarrow> agf_buf b \<or> (\<exists>p. body b = p \<and> LLCP_GET_PTYPE (the (rd_be16 p 0)) \<noteq> LLCP_PDU_AGF_TYPE))"
proof -
  let ?s = "llcp_sdp_check_send_snl (node c X)"
  have r0: "refines idx sap L (sends_pdus X ?s [] c)" by (rule refines_step [OF internal_pdus [OF snl_view [OF rc]] rc])
  obtain t s1 where g: "llcp_link_get_next_pdu quiet_env False ?s = Some (t, s1)" using get_total [OF r0, of X] by auto
  show ?thesis
  proof (cases "\<exists>b. t = Taken b")
    case True
    then obtain b where t: "t = Taken b" by blast
    let ?c1 = "sends_pdus X s1 [body b] c"
    have "pdu_step sap (sends_pdus X ?s [] c) ?c1" using transmit_pdus [of "sends_pdus X ?s [] c" X b s1] g t by simp
    then have r1: "refines idx sap L ?c1" using refines_step r0 by blast
    obtain n s2 where n: "next_pdu_length quiet_env s1 = Some (n, s2)" using next_length_total by blast
    have "pdu_step sap ?c1 (sends_pdus X s2 [body b] c)" using internal_pdus [of s2 ?c1 X] next_length_view [OF n] by simp
    then have r2: "refines idx sap L (sends_pdus X s2 [body b] c)" using refines_step r1 by blast
    have d2: "due s2 n" by (rule length_due [OF station_facts(1) [OF r1, of X], unfolded sends_pdus_simps, OF n])
    obtain b' s' where b': "agf_start quiet_env n b s2 = Some (b', s')" "b' = b \<or> agf_buf b'"
      using agf_start_total [of idx sap L "sends_pdus X s2 [body b] c" X s2 n b, OF r2 _ d2] by auto
    have "LLCP_GET_PTYPE (the (rd_be16 (body b) 0)) \<noteq> LLCP_PDU_AGF_TYPE" using chan_pdu(3) [OF r1, of "body b" X] by auto
    then show ?thesis using g t n b' by (auto simp: llcp_link_build_next_pdu_def Let_def)
  qed (use g in \<open>auto simp: llcp_link_build_next_pdu_def Let_def split: sched.splits\<close>)
qed

lemma next_frame_total:
  assumes rc: "refines idx sap L c"
  shows "\<exists>r s'. next_frame quiet_env (node c X) = Some (r, s')"
proof -
  obtain r1 s1 where e: "llcp_link_build_next_pdu quiet_env None (node c X) = Some (r1, s1)"
    "\<forall>b. r1 = Some b \<longrightarrow> agf_buf b \<or> (\<exists>p. body b = p \<and> LLCP_GET_PTYPE (the (rd_be16 p 0)) \<noteq> LLCP_PDU_AGF_TYPE)"
    using build_first_total [OF rc] by blast
  obtain ps where ps: "case r1 of None \<Rightarrow> ps = [] | Some b \<Rightarrow> frame_of (unat (l_eff_miu (L X))) (body b) ps"
    "(pdu_step sap)\<^sup>*\<^sup>* c (sends_pdus X s1 ps c)"
    using build_first_steps [OF e(1) rc] by blast
  have r1': "refines idx sap L (sends_pdus X s1 ps c)" by (rule refines_steps [OF ps(2) rc])
  obtain s2 where s2: "llcp_dlc_check_to_send_rr_rnr quiet_env s1 = Some s2"
    using check_to_send_effect [OF station_facts(1) [OF r1', of X]] by auto
  have c2: "(sends_pdus X s1 ps c)\<lparr>node := (node (sends_pdus X s1 ps c))(X := s2)\<rparr> = sends_pdus X s2 ps c"
    by (cases c) (simp add: sends_pdus_def)
  have "pdu_step sap (sends_pdus X s1 ps c) (sends_pdus X s2 ps c)"
    using pdu_step.send_acks [of "sends_pdus X s1 ps c" X s2 sap] s2 c2 by simp
  then have r2: "refines idx sap L (sends_pdus X s2 ps c)" using refines_step r1' by blast
  have "\<exists>r s'. llcp_link_build_next_pdu quiet_env r1 s2 = Some (r, s')"
  proof (cases r1)
    case None
    then show ?thesis using build_first_total [OF r2, of X] by auto
  next
    case (Some b)
    let ?s = "llcp_sdp_check_send_snl s2"
    have r3: "refines idx sap L (sends_pdus X ?s ps c)"
      using refines_step [OF internal_pdus [OF snl_view [OF r2, of X]] r2] by simp
    obtain n s3 where n: "next_pdu_length quiet_env ?s = Some (n, s3)" using next_length_total by blast
    have "pdu_step sap (sends_pdus X ?s ps c) (sends_pdus X s3 ps c)"
      using internal_pdus [of s3 "sends_pdus X ?s ps c" X] next_length_view [OF n] by simp
    then have r4: "refines idx sap L (sends_pdus X s3 ps c)" using refines_step r3 by blast
    have d3: "due s3 n" by (rule length_due [OF station_facts(1) [OF r3, of X], unfolded sends_pdus_simps, OF n])
    have f: "frame_of (unat (l_eff_miu (L X))) (body b) ps" using ps(1) Some by simp
    show ?thesis
    proof (cases "ps = [body b]")
      case True
      obtain h where h: "rd_be16 (body b) 0 = Some h" "LLCP_GET_PTYPE h \<noteq> LLCP_PDU_AGF_TYPE"
        using chan_pdu(3) [OF r2, of "body b" X] True by auto
      obtain b' s' where "agf_start quiet_env n b s3 = Some (b', s')"
        using agf_start_total [of idx sap L "sends_pdus X s3 ps c" X s3 n b, OF r4 _ d3] by auto
      then show ?thesis using n h Some by (simp add: llcp_link_build_next_pdu_def Let_def)
    next
      case False
      then have bd: "body b = agf_header @ frames ps" using f by (auto simp: frame_of_def)
      have h: "rd_be16 (body b) 0 = Some (LLCP_GET_PDU_HEADER LLCP_SAP_LM LLCP_PDU_AGF_TYPE LLCP_SAP_LM)"
        by (simp add: bd agf_header_def)
      then have "agf_buf b" using e(2) Some agf_header_type by auto
      then obtain b' s' where "agf_loop quiet_env n b s3 = Some (b', s')"
        using agf_loop_total [OF r4 _ d3 bd, of X] by auto
      then show ?thesis using n h agf_header_type Some by (simp add: llcp_link_build_next_pdu_def Let_def)
    qed
  qed
  then show ?thesis using e(1) s2 by (auto simp: next_frame_def)
qed

section \<open>Taking an AGF PDU apart\<close>

text \<open>
  The station \<open>X\<close> after it took the first PDUs of the channel of the other: it has become \<open>s\<close>, and \<open>fs\<close> are left.
\<close>

definition takes_pdus :: "side \<Rightarrow> llcp_cb \<Rightarrow> byte list list \<Rightarrow> net \<Rightarrow> net" where
  "takes_pdus X s fs c = c\<lparr>node := (node c)(X := s), chan := (chan c)(other X := fs)\<rparr>"

lemma takes_pdus_simps [simp]:
  "node (takes_pdus X s fs c) X = s" "chan (takes_pdus X s fs c) (other X) = fs"
  "takes_pdus X s' gs (takes_pdus X s fs c) = takes_pdus X s' gs c"
  by (simp_all add: takes_pdus_def)

lemma takes_nothing: "chan c (other X) = fs \<Longrightarrow> takes_pdus X (node c X) fs c = c"
  by (cases c) (auto simp: takes_pdus_def)

lemma be16_length: "length p < 65536 \<Longrightarrow> unat (of_nat (length p) :: u16) = length p"
  by (simp add: unat_of_nat)

lemma agf_check_frames:
  "at m q (frames ps) \<Longrightarrow> \<forall>p \<in> set ps. 2 \<le> length p \<and> length p < 65536 \<Longrightarrow> agf_check m (length (frames ps)) q = Some 0"
proof (induction ps arbitrary: q)
  case (Cons p ps)
  then have m: "at m q (be16_bytes (of_nat (length p)))" "at m (q + 2 + length p) (frames ps)"
    by (simp_all add: at_append add.assoc)
  show ?case
    using at_be16 [OF m(1)] Cons.IH [OF m(2)] Cons.prems(2)
    by (subst agf_check.simps) (auto simp: LLCP_PDU_AGF_LEN_SIZE_def be16_length)
qed (simp add: agf_check.simps)

lemma agf_process_steps:
  assumes "refines idx sap L c" "chan c (other X) = ps @ fs" "at m q (frames ps)"
    and "length ps \<le> free_buffers (node c X)" "length (frames ps) \<le> unat (l_link_miu (L X))"
  shows "\<exists>s. agf_process quiet_env params m (length (frames ps)) q (node c X) = Some s
    \<and> (pdu_step sap)\<^sup>*\<^sup>* c (takes_pdus X s fs c)"
  using assms
proof (induction ps arbitrary: c q)
  case Nil
  then show ?case using takes_nothing [of c X fs] by (simp add: agf_process.simps)
next
  case (Cons p ps)
  have p: "2 \<le> length p" "length p < 65536" using chan_pdu(1,2) [OF Cons.prems(1), of p "other X"] Cons.prems(2) by simp_all
  have m: "at m q (be16_bytes (of_nat (length p)))" "at m (q + 2) p" "at m (q + 2 + length p) (frames ps)"
    using Cons.prems(3) by (simp_all add: at_append add.assoc)
  have ag: "limits_agree (L X) (L (other X))" for X using Cons.prems(1) by (simp add: refines_def)
  have lm: "length p + 2 \<le> unat (local_link_miu (lcb (node c X)))"
    using Cons.prems(5) station_facts(3) [OF Cons.prems(1), of X] by simp
  obtain a where a: "net_rel idx sap L c a" "xinv (windows L) a" using Cons.prems(1) by (auto simp: refines_def)
  have ch: "chan c (other X) = p # (ps @ fs)" and fb: "0 < free_buffers (node c X)" using Cons.prems(2,4) by simp_all
  obtain s where s: "agf_pdu quiet_env params m (q + 2) (of_nat (length p)) (node c X) = Some (Inl s)"
    "free_buffers (node c X) \<le> Suc (free_buffers s)"
    using part_accepted [OF a ag station_facts(7) [OF Cons.prems(1)] ch m(2) lm fb, of params] by blast
  let ?c = "takes_pdus X s (ps @ fs) c"
  have st: "pdu_step sap c ?c" unfolding takes_pdus_def by (rule pdu_step.receive_part [OF ch m(2) lm fb s(1)])
  have "length (frames ps) \<le> unat (l_link_miu (L X))" "length ps \<le> free_buffers (node ?c X)"
    using Cons.prems(4,5) s(2) by simp_all
  from Cons.IH [OF refines_step [OF st Cons.prems(1)] _ m(3) this(2,1)] obtain s'
    where s': "agf_process quiet_env params m (length (frames ps)) (q + 2 + length p) s = Some s'"
      "(pdu_step sap)\<^sup>*\<^sup>* ?c (takes_pdus X s' fs c)" by auto
  have "agf_process quiet_env params m (length (frames (p # ps))) q (node c X) = Some s'"
    using at_be16 [OF m(1)] p s(1) s'(1) by (subst agf_process.simps) (simp add: be16_length)
  then show ?case using st s'(2) by (auto intro: converse_rtranclp_into_rtranclp)
qed

text \<open>A station has a buffer for every PDU of an AGF PDU that it gets.\<close>

definition room_for :: "byte list \<Rightarrow> llcp_cb \<Rightarrow> bool" where
  "room_for f s \<longleftrightarrow> (\<forall>ps. f = agf_header @ frames ps \<longrightarrow> length ps \<le> free_buffers s)"

lemma frame_accepted:
  assumes rc: "refines idx sap L c" and ch: "chan c (other X) = ps @ fs"
    and f: "frame_of (unat (l_eff_miu (L (other X)))) (body b) ps" "fits b" "room_for (body b) (node c X)"
  shows "\<exists>s. rx_frame quiet_env params b (node c X) = Some s \<and> (pdu_step sap)\<^sup>*\<^sup>* c (takes_pdus X s fs c)"
proof (cases "ps = [body b]")
  case True
  obtain a where a: "net_rel idx sap L c a" "xinv (windows L) a" using rc by (auto simp: refines_def)
  have ag: "limits_agree (L X) (L (other X))" for X using rc by (simp add: refines_def)
  have ch': "chan c (other X) = body b # fs" using ch True by simp
  obtain s where s: "rx_frame quiet_env params b (node c X) = Some s"
    using receive_accepted [OF a ag ch' f(2), of params] by blast
  have "pdu_step sap c (takes_pdus X s fs c)" unfolding takes_pdus_def by (rule pdu_step.receive_pdu [OF ch' f(2) s])
  then show ?thesis using s by blast
next
  case False
  then have bd: "body b = agf_header @ frames ps" and len: "length (frames ps) \<le> unat (l_eff_miu (L (other X)))"
    using f(1) by (auto simp: frame_of_def)
  have lk: "length (frames ps) \<le> unat (l_link_miu (L X))"
    using len station_facts(6) [OF rc, of "other X"] by (simp add: word_le_nat_alt)
  let ?s = "llcp_link_stop_inactivity_timer (node c X)"
  let ?c = "takes_pdus X ?s (ps @ fs) c"
  have "takes_pdus X (node c X) (ps @ fs) c = c" by (rule takes_nothing [OF ch])
  then have st: "pdu_step sap c ?c" using pdu_step.internal [of ?s c X sap] ch by (simp add: takes_pdus_def fun_upd_idem)
  have fb: "length ps \<le> free_buffers ?s"
    using f(3) bd by (simp add: room_for_def free_buffers_def llcp_link_stop_inactivity_timer_def upd_lcb_def)
  have ok: "\<forall>p \<in> set ps. 2 \<le> length p \<and> length p < 65536" using chan_pdu(1,2) [OF rc, of _ "other X"] ch by auto
  have at: "at (frames ps) 0 (frames ps)" by (simp add: at_def)
  obtain s where s: "agf_process quiet_env params (frames ps) (length (frames ps)) 0 ?s = Some s"
    "(pdu_step sap)\<^sup>*\<^sup>* ?c (takes_pdus X s fs c)"
    using agf_process_steps [OF refines_step [OF st rc] _ at, of X fs params] fb lk by auto
  have dr: "drop LLCP_PDU_HEADER_SIZE (body b) = frames ps" by (simp add: bd agf_header_def llcp_sizes)
  have "rx_frame quiet_env params b (node c X) = Some s"
    using s(1) lk station_facts(3) [OF rc, of X] agf_check_frames [OF at ok]
    by (simp add: rx_frame_def bd [unfolded agf_header_def] agf_header_type frame_passes_def llcp_link_proc_rx_pdu_def
        llcp_link_proc_agf_pdu_def llcp_sizes)
  then show ?thesis using st s(2) by (auto intro: converse_rtranclp_into_rtranclp)
qed

section \<open>The system with frames\<close>

text \<open>
  A step is a call of an application (send, read of a whole SDU, busy), the composition of the next frame, with the
  acknowledgements that are due, which goes to the channel of the station, or the arrival of the oldest frame of a channel,
  in any buffer that holds it, at a station with a buffer for each PDU of an AGF PDU. The steps may happen in any order.
\<close>

inductive net_step :: "(side \<Rightarrow> byte) \<Rightarrow> net \<Rightarrow> net \<Rightarrow> bool" for sap where
  send_data: "fits b \<Longrightarrow> LLCP_SendData quiet_env (sap X) (sap (other X)) b (node c X) = Some (st, s) \<Longrightarrow>
    net_step sap c (c\<lparr>node := (node c)(X := s),
      subm := (subm c)(X := subm c X @ (if st = LLCP_STATUS_FAIL then [] else [body b]))\<rparr>)"
| read_data: "llcp_dlc_find_dlcb_by_sap (sap X) (sap (other X)) (node c X) = Some i \<Longrightarrow>
    i_rx_q (dlcb (node c X) i) \<noteq> [] \<Longrightarrow> 65535 \<le> unat n \<Longrightarrow>
    LLCP_ReadDataLinkData (sap X) (sap (other X)) n (node c X) = Some (pending, x, s) \<Longrightarrow>
    net_step sap c (c\<lparr>node := (node c)(X := s), got := (got c)(X := got c X @ [x])\<rparr>)"
| set_busy: "LLCP_SetLocalBusyStatus quiet_env (sap X) (sap (other X)) busy (node c X) = Some (st, s) \<Longrightarrow>
    net_step sap c (c\<lparr>node := (node c)(X := s)\<rparr>)"
| transmit: "next_frame quiet_env (node c X) = Some (r, s) \<Longrightarrow>
    net_step sap c (c\<lparr>node := (node c)(X := s),
      chan := (chan c)(X := chan c X @ (case r of None \<Rightarrow> [] | Some b \<Rightarrow> [body b]))\<rparr>)"
| receive: "chan c (other X) = body b # fs \<Longrightarrow> fits b \<Longrightarrow> room_for (body b) (node c X) \<Longrightarrow>
    rx_frame quiet_env params b (node c X) = Some s \<Longrightarrow>
    net_step sap c (c\<lparr>node := (node c)(X := s), chan := (chan c)(other X := fs)\<rparr>)"

text \<open>The frames of \<open>c\<close> are made of the PDUs of \<open>d\<close>.\<close>

definition carried :: "(side \<Rightarrow> limits) \<Rightarrow> net \<Rightarrow> net \<Rightarrow> bool" where
  "carried L c d \<longleftrightarrow> node d = node c \<and> subm d = subm c \<and> got d = got c
     \<and> (\<forall>X. \<exists>pss. list_all2 (frame_of (unat (l_eff_miu (L X)))) (chan c X) pss \<and> chan d X = concat pss)"

lemma carried_at:
  "carried L c d \<longleftrightarrow> node d = node c \<and> subm d = subm c \<and> got d = got c
     \<and> (\<exists>pss. list_all2 (frame_of (unat (l_eff_miu (L X)))) (chan c X) pss \<and> chan d X = concat pss)
     \<and> (\<exists>pss. list_all2 (frame_of (unat (l_eff_miu (L (other X))))) (chan c (other X)) pss \<and> chan d (other X) = concat pss)"
  unfolding carried_def by (subst all_sides [where X = X]) blast

lemma arrives:
  assumes k: "carried L c d" and r: "refines idx sap L d" and ch: "chan c (other X) = body b # fs"
    and f: "fits b" "room_for (body b) (node c X)"
  shows "\<exists>s d'. rx_frame quiet_env params b (node c X) = Some s \<and> (pdu_step sap)\<^sup>*\<^sup>* d d'
    \<and> carried L (c\<lparr>node := (node c)(X := s), chan := (chan c)(other X := fs)\<rparr>) d'"
proof -
  have n: "node d = node c" "subm d = subm c" "got d = got c" using k by (simp_all add: carried_def)
  obtain pss where pss: "list_all2 (frame_of (unat (l_eff_miu (L (other X))))) (body b # fs) pss" "chan d (other X) = concat pss"
    using k ch unfolding carried_at [of L c d X] by auto
  then obtain ps qss where p: "pss = ps # qss" "frame_of (unat (l_eff_miu (L (other X)))) (body b) ps"
    "list_all2 (frame_of (unat (l_eff_miu (L (other X))))) fs qss" by (auto simp: list_all2_Cons1)
  obtain rss where rss: "list_all2 (frame_of (unat (l_eff_miu (L X)))) (chan c X) rss" "chan d X = concat rss"
    using k unfolding carried_at [of L c d X] by auto
  have "chan d (other X) = ps @ concat qss" "room_for (body b) (node d X)" using pss(2) p(1) f(2) n by simp_all
  from frame_accepted [OF r this(1) p(2) f(1) this(2), of params] obtain s
    where s: "rx_frame quiet_env params b (node c X) = Some s" "(pdu_step sap)\<^sup>*\<^sup>* d (takes_pdus X s (concat qss) d)"
    using n by auto
  have "carried L (c\<lparr>node := (node c)(X := s), chan := (chan c)(other X := fs)\<rparr>) (takes_pdus X s (concat qss) d)"
    unfolding carried_at [of L _ _ X] using n p(3) rss by (auto simp: takes_pdus_def)
  then show ?thesis using s by blast
qed

lemma net_simulated:
  assumes step: "net_step sap c c'" and k: "carried L c d" and r: "refines idx sap L d"
  shows "\<exists>d'. (pdu_step sap)\<^sup>*\<^sup>* d d' \<and> carried L c' d'"
  using step
proof cases
  case (send_data b X st s)
  have "pdu_step sap d (d\<lparr>node := (node d)(X := s),
      subm := (subm d)(X := subm d X @ (if st = LLCP_STATUS_FAIL then [] else [body b]))\<rparr>)"
    using send_data k by (intro pdu_step.send_data) (simp_all add: carried_def)
  moreover have "carried L c' (d\<lparr>node := (node d)(X := s),
      subm := (subm d)(X := subm d X @ (if st = LLCP_STATUS_FAIL then [] else [body b]))\<rparr>)"
    using k by (simp add: send_data(1) carried_def)
  ultimately show ?thesis by blast
next
  case (read_data X i n pending x s)
  have "pdu_step sap d (d\<lparr>node := (node d)(X := s), got := (got d)(X := got d X @ [x])\<rparr>)"
    using read_data k by (intro pdu_step.read_data) (simp_all add: carried_def)
  moreover have "carried L c' (d\<lparr>node := (node d)(X := s), got := (got d)(X := got d X @ [x])\<rparr>)"
    using k by (simp add: read_data(1) carried_def)
  ultimately show ?thesis by blast
next
  case (set_busy X busy st s)
  have "pdu_step sap d (d\<lparr>node := (node d)(X := s)\<rparr>)"
    using set_busy k by (intro pdu_step.set_busy) (simp add: carried_def)
  moreover have "carried L c' (d\<lparr>node := (node d)(X := s)\<rparr>)" using k by (simp add: set_busy(1) carried_def)
  ultimately show ?thesis by blast
next
  case (transmit X b s)
  have n: "node d = node c" "subm d = subm c" "got d = got c" using k by (simp_all add: carried_def)
  obtain ps where ps: "case b of None \<Rightarrow> ps = [] | Some b \<Rightarrow> frame_of (unat (l_eff_miu (L X))) (body b) ps"
    "(pdu_step sap)\<^sup>*\<^sup>* d (sends_pdus X s ps d)"
    using next_frame_steps [of d X b s, OF _ r] transmit(2) n by auto
  obtain qss rss where q: "list_all2 (frame_of (unat (l_eff_miu (L X)))) (chan c X) qss" "chan d X = concat qss"
    "list_all2 (frame_of (unat (l_eff_miu (L (other X))))) (chan c (other X)) rss" "chan d (other X) = concat rss"
    using k unfolding carried_at [of L c d X] by auto
  have "\<exists>pss. list_all2 (frame_of (unat (l_eff_miu (L X)))) (chan c X @ (case b of None \<Rightarrow> [] | Some b \<Rightarrow> [body b])) pss
      \<and> chan d X @ ps = concat pss"
  proof (cases b)
    case None
    then show ?thesis using q ps(1) by auto
  next
    case (Some b')
    then show ?thesis using q ps(1) by (intro exI [of _ "qss @ [ps]"]) (simp add: list_all2_appendI)
  qed
  then have "carried L c' (sends_pdus X s ps d)"
    unfolding carried_at [of L _ _ X] using n q(3,4) by (auto simp: transmit(1) sends_pdus_def)
  then show ?thesis using ps(2) by blast
next
  case (receive X b fs params s)
  then show ?thesis using arrives [OF k r receive(2-4), of params] by auto
qed

text \<open>The links of a net: what \<open>links_agree\<close> says, of the control blocks.\<close>

definition links_fit :: "net \<Rightarrow> bool" where
  "links_fit c \<longleftrightarrow> (\<forall>X. effective_miu (lcb (node c X)) \<le> local_link_miu (lcb (node c (other X)))
     \<and> local_link_miu (lcb (node c X)) \<le> LLCP_MIU \<and> p_snl (sdp (node c X)) = None)"

lemma net_refines:
  assumes "(net_step sap)\<^sup>*\<^sup>* c0 c" "fresh_net idx sap c0" "links_fit c0"
  shows "\<exists>d. carried (\<lambda>X. limits_of (idx X) (view (node c0 X))) c d
    \<and> refines idx sap (\<lambda>X. limits_of (idx X) (view (node c0 X))) d"
  using assms(1)
proof induction
  case base
  have "carried (\<lambda>X. limits_of (idx X) (view (node c0 X))) c0 c0" using assms(2) by (simp add: carried_def fresh_net_def)
  moreover have "links_agree (\<lambda>X. limits_of (idx X) (view (node c0 X)))"
    using assms(3) by (simp add: links_fit_def links_agree_def limits_of_def)
  ultimately show ?case using refines_fresh [OF assms(2)] by blast
next
  case (step c c')
  then show ?case using net_simulated refines_steps by blast
qed

end
