(* ===== verification/Llcp_Setup.thy ===== *)
theory Llcp_Setup
  imports Llcp_Frames Llcp_Link_Params
begin

text \<open>
  Setting up a connection: what CONNECT and CC, and the calls of the applications around them, make of
  two stations that have no connection. \<open>conn_state\<close> describes a station whose only connection, in
  the first control block, is \<open>d\<close>, with the PDUs \<open>sig\<close> to send.
\<close>

definition no_connection :: "llcp_cb \<Rightarrow> bool" where
  "no_connection s \<longleftrightarrow> (\<forall>j. dl_state (dlcb s j) = LLCP_DLC_STATE_IDLE) \<and> sig_xmit_q (lcb s) = []
     \<and> (\<forall>k. ui_xmit_q (wks_cb s k) = [] \<and> ui_xmit_q (server_cb s k) = [] \<and> ui_xmit_q (client_cb s k) = [])"

definition conn_state :: "dlcb \<Rightarrow> byte list list \<Rightarrow> bool list \<Rightarrow> llcp_cb \<Rightarrow> llcp_cb \<Rightarrow> bool" where
  "conn_state d sig p s s' \<longleftrightarrow>
     core (dlcb s' 0) = core d \<and> (\<forall>j. j \<noteq> 0 \<longrightarrow> dl_state (dlcb s' j) = LLCP_DLC_STATE_IDLE)
     \<and> map body (sig_xmit_q (lcb s')) = sig \<and> pool s' = p
     \<and> wks_cb s' = wks_cb s \<and> server_cb s' = server_cb s \<and> client_cb s' = client_cb s
     \<and> local_link_miu (lcb s') = local_link_miu (lcb s) \<and> peer_miu (lcb s') = peer_miu (lcb s)
     \<and> effective_miu (lcb s') = effective_miu (lcb s) \<and> p_snl (sdp s') = p_snl (sdp s)"

lemma find_first: "P (dlcb s 0) \<Longrightarrow> find_idx P s = Some 0"
  by (simp add: find_idx_def LLCP_MAX_DATA_LINK_def upt_conv_Cons)

lemma find_none: "(\<And>j. \<not> P (dlcb s j)) \<Longrightarrow> find_idx P s = None"
  by (simp add: find_idx_def find_None_iff)

lemma no_connection_find:
  assumes "no_connection s"
  shows "llcp_dlc_find_dlcb_by_sap own peer s = None"
    "llcp_util_allocate_data_link own peer s
       = (Some 0, (upd_dl 0 (\<lambda>_. zero_dlcb\<lparr>p_app_cb := llcp_util_get_app_cb own, local_sap := own, remote_sap := peer\<rparr>) s)
            \<lparr>num_data_link_connection := num_data_link_connection s + 1\<rparr>)"
  using assms
  by (simp_all add: llcp_dlc_find_dlcb_by_sap_def find_none llcp_util_allocate_data_link_def find_first no_connection_def)

definition may_connect :: "byte \<Rightarrow> byte \<Rightarrow> conn_params \<Rightarrow> llcp_cb \<Rightarrow> bool" where
  "may_connect own peer c s \<longleftrightarrow>
     (peer_opt (lcb s) = LLCP_LSC_UNKNOWN \<or> peer_opt (lcb s) AND LLCP_LSC_2 \<noteq> 0) \<and> registered own s \<noteq> None
     \<and> LLCP_DEFAULT_MIU \<le> miu c \<and> miu c \<le> LLCP_MAX_MIU \<and> miu c \<le> local_link_miu (lcb s)"

text \<open>The connections of the two sides on the way to CONNECTED.\<close>

definition asking :: "byte \<Rightarrow> byte \<Rightarrow> conn_params \<Rightarrow> dlcb" where
  "asking own peer c = zero_dlcb\<lparr>dl_state := LLCP_DLC_STATE_W4_REMOTE_RESP, local_sap := own, remote_sap := peer,
     local_miu := miu c, local_rw := rw (mask_rw c)\<rparr>"

definition asked :: "byte \<Rightarrow> byte \<Rightarrow> conn_params \<Rightarrow> u16 \<Rightarrow> dlcb" where
  "asked own peer c m = zero_dlcb\<lparr>dl_state := LLCP_DLC_STATE_W4_LOCAL_RESP, local_sap := own, remote_sap := peer,
     remote_miu := min (miu c) m, remote_rw := rw (mask_rw c)\<rparr>"

definition linked :: "byte \<Rightarrow> byte \<Rightarrow> u16 \<Rightarrow> byte \<Rightarrow> conn_params \<Rightarrow> u16 \<Rightarrow> dlcb" where
  "linked own peer miu_l rw_l c m = zero_dlcb\<lparr>dl_state := LLCP_DLC_STATE_CONNECTED, local_sap := own, remote_sap := peer,
     local_miu := miu_l, local_rw := rw_l, remote_miu := min (miu c) m, remote_rw := rw (mask_rw c)\<rparr>"

lemma connect_req_effect:
  assumes n: "no_connection s" and m: "may_connect own peer c s" and p: "pool s = True # ps"
    and peer: "peer \<noteq> LLCP_SAP_LM" "peer \<noteq> LLCP_SAP_SDP"
  shows "\<exists>s'. LLCP_ConnectReq quiet_env own peer (Some c) s = Some (LLCP_STATUS_SUCCESS, s')
    \<and> conn_state (asking own peer c) [connect_bytes peer own c] ps s s'"
proof -
  have g: "\<not> (peer_opt (lcb s) \<noteq> LLCP_LSC_UNKNOWN \<and> peer_opt (lcb s) AND LLCP_LSC_2 = 0 \<or> registered own s = None
      \<or> peer = LLCP_SAP_LM \<or> peer = LLCP_SAP_SDP \<and> LLCP_MAX_SN_LEN < strlen (sn c)
      \<or> miu c > local_link_miu (lcb s) \<or> llcp_dlc_find_dlcb_by_sap own LLCP_INVALID_SAP s \<noteq> None)"
    using m peer no_connection_find(1) [OF n] by (auto simp: may_connect_def)
  show ?thesis
    unfolding LLCP_ConnectReq_def Let_def option.case if_not_P [OF g] no_connection_find(2) [OF n]
    using n p
    by (simp add: llcp_dlsm_execute_def llcp_dlsm_idle_def llcp_util_send_connect_def GKI_getpoolbuf_llcp_def
        send_sig_def enqueue_sig_def upd_lcb_def new_pdu_def conn_state_def asking_def no_connection_def
        zero_dlcb_def start_dl_timer_def mask_rw_def core_def upd_dl_def)
qed

lemma take_signal:
  assumes "conn_state d (bs # sig) p s t"
  shows "\<exists>b t'. llcp_link_get_next_pdu quiet_env False t = Some (Taken b, t') \<and> body b = bs \<and> conn_state d sig p s t'"
  using assms by (cases "sig_xmit_q (lcb t)") (auto simp: llcp_link_get_next_pdu_def conn_state_def upd_lcb_def)

lemma take_signal_miu: "conn_state d sig p s t \<Longrightarrow> local_link_miu (lcb t) = local_link_miu (lcb s)"
  by (simp add: conn_state_def)

lemma core_dest: "core d = core e \<Longrightarrow> dl_state d = dl_state e \<and> local_sap d = local_sap e \<and> remote_sap d = remote_sap e
    \<and> local_miu d = local_miu e \<and> local_rw d = local_rw e \<and> remote_miu d = remote_miu e \<and> remote_rw d = remote_rw e
    \<and> next_tx_seq d = next_tx_seq e \<and> rcvd_ack_seq d = rcvd_ack_seq e \<and> next_rx_seq d = next_rx_seq e
    \<and> sent_ack_seq d = sent_ack_seq e \<and> i_xmit_q d = i_xmit_q e \<and> i_rx_q d = i_rx_q e"
  by (metis core_simps)

lemma min_miu: "(if x > m then m else x) = min x (m :: u16)"
  by (auto simp: min_def)

lemma stop_inactivity_fields:
  "peer_miu (lcb (llcp_link_stop_inactivity_timer s)) = peer_miu (lcb s)"
  "local_link_miu (lcb (llcp_link_stop_inactivity_timer s)) = local_link_miu (lcb s)"
  "sig_xmit_q (lcb (llcp_link_stop_inactivity_timer s)) = sig_xmit_q (lcb s)"
  "wks_cb (llcp_link_stop_inactivity_timer s) = wks_cb s" "server_cb (llcp_link_stop_inactivity_timer s) = server_cb s"
  "client_cb (llcp_link_stop_inactivity_timer s) = client_cb s" "pool (llcp_link_stop_inactivity_timer s) = pool s"
  "effective_miu (lcb (llcp_link_stop_inactivity_timer s)) = effective_miu (lcb s)"
  "sdp (llcp_link_stop_inactivity_timer s) = sdp s"
  by (simp_all add: llcp_link_stop_inactivity_timer_def upd_lcb_def)

section \<open>Arrival of CONNECT\<close>

lemma connect_frame:
  assumes sap: "unat own < 64" "unat peer < 64" and sdp: "peer \<noteq> LLCP_SAP_SDP" "peer \<noteq> LLCP_SAP_LM"
    and b: "body b = connect_bytes peer own c" and m: "LLCP_DEFAULT_MIU \<le> local_link_miu (lcb s)"
  shows "rx_frame quiet_env params b s
    = llcp_dlc_proc_connect_pdu quiet_env peer own (blen b - 2) (body b) 2 params (llcp_link_stop_inactivity_timer s)"
proof -
  have n: "length (miu_bytes c) + length (rw_bytes c) \<le> 7" using length_params(1,2) [of c] by linarith
  have "128 \<le> unat (local_link_miu (lcb s))" using m by (simp add: word_le_nat_alt)
  then show ?thesis
    using n sap sdp by (simp add: rx_frame_def b connect_bytes_def ptype_fields frame_passes_def sn_bytes_def
        llcp_link_proc_rx_pdu_def llcp_dlc_proc_rx_pdu_def llcp_sizes)
qed

lemma connect_ind_effect:
  assumes n: "no_connection s" and acc: "accepts_connection peer s" and ok: "miu_ok c"
    and sap: "unat own < 64" "unat peer < 64" "peer \<noteq> LLCP_SAP_LM" "peer \<noteq> LLCP_SAP_SDP"
    and b: "body b = connect_bytes peer own c" and m: "LLCP_DEFAULT_MIU \<le> local_link_miu (lcb s)" and p: "pool s = ps"
  shows "\<exists>s'. rx_frame quiet_env params b s = Some s' \<and> conn_state (asked peer own c (peer_miu (lcb s))) [] ps s s'"
proof -
  let ?s = "llcp_link_stop_inactivity_timer s"
  let ?c = "c\<lparr>sn := []\<rparr>"
  have e: "miu_bytes ?c = miu_bytes c" "rw_bytes ?c = rw_bytes c" "sn_bytes peer ?c = []" "sn_bytes peer c = []" "mask_rw ?c = (mask_rw c)\<lparr>sn := []\<rparr>"
    using sap by (simp_all add: miu_bytes_def rw_bytes_def sn_bytes_def mask_rw_def)
  have at: "at (body b) 2 (miu_bytes ?c @ rw_bytes ?c @ sn_bytes peer ?c)"
    by (simp add: b connect_bytes_def at_def e)
  have bl: "blen b - 2 = of_nat (length (miu_bytes ?c @ rw_bytes ?c @ sn_bytes peer ?c))"
    by (simp add: blen_def b connect_bytes_def e)
  have pc: "llcp_util_parse_connect (body b) 2 (blen b - 2) params
      = Some (LLCP_STATUS_SUCCESS, peer_reads ?c (peer_sn peer ?c (sn params)))"
    unfolding bl by (rule parse_connect_built [OF _ _ at]) (use ok in \<open>simp_all add: miu_ok_def strlen_def\<close>)
  have n': "no_connection ?s" using n by (simp add: no_connection_def llcp_link_stop_inactivity_timer_def upd_lcb_def)
  have acc': "accepts_connection peer ?s"
    using acc by (simp add: accepts_connection_def llcp_link_stop_inactivity_timer_def upd_lcb_def app_at_def split: option.splits app_ref.splits)
  note l = stop_inactivity_fields [of s]
  have "rx_frame quiet_env params b s = connect_to quiet_env peer own (peer_reads ?c (peer_sn peer ?c (sn params))) ?s"
    using sap acc' pc by (simp add: connect_frame [OF sap(1,2,4,3) b m] llcp_dlc_proc_connect_pdu_def)
  also have "\<exists>s'. \<dots> = Some s' \<and> conn_state (asked peer own c (peer_miu (lcb s))) [] ps s s'"
    using n' p l unfolding connect_to_def no_connection_find [OF n']
    by (simp add: llcp_dlsm_execute_def llcp_dlsm_idle_def Let_def conn_state_def asked_def no_connection_def
        zero_dlcb_def start_dl_timer_def core_def upd_dl_def peer_reads_def min_def not_less e) auto
  finally show ?thesis .
qed

section \<open>The answer\<close>

lemma view_adjust [simp]: "view (llcp_util_adjust_dl_rx_congestion s) = view s"
  by (auto simp: llcp_util_adjust_dl_rx_congestion_def Let_def intro!: view_for_dl)

lemma adjust_fields:
  "pool (llcp_util_adjust_dl_rx_congestion s) = pool s" "lcb (llcp_util_adjust_dl_rx_congestion s) = lcb s"
  by (simp_all add: llcp_util_adjust_dl_rx_congestion_def for_dl_def Let_def)

lemma conn_state_view:
  "conn_state d sig p s s' \<longleftrightarrow>
     v_dl (view s') 0 = core d \<and> (\<forall>j. j \<noteq> 0 \<longrightarrow> dl_state (v_dl (view s') j) = LLCP_DLC_STATE_IDLE)
     \<and> map body (v_sig (view s')) = sig \<and> pool s' = p
     \<and> v_wks (view s') = v_wks (view s) \<and> v_server (view s') = v_server (view s) \<and> v_client (view s') = v_client (view s)
     \<and> v_link_miu (view s') = v_link_miu (view s) \<and> peer_miu (lcb s') = peer_miu (lcb s)
     \<and> v_eff_miu (view s') = v_eff_miu (view s) \<and> v_snl (view s') = v_snl (view s)"
  by (simp add: conn_state_def) (simp add: view_def)

lemma conn_find:
  assumes "conn_state d sig p s t" "dl_state d \<noteq> LLCP_DLC_STATE_IDLE" "local_sap d = own"
    and "remote = LLCP_INVALID_SAP \<and> dl_state d = LLCP_DLC_STATE_W4_REMOTE_RESP \<or> remote_sap d = remote"
  shows "llcp_dlc_find_dlcb_by_sap own remote t = Some 0"
  using assms core_dest [of "dlcb t 0" d]
  by (simp add: llcp_dlc_find_dlcb_by_sap_def find_first conn_state_def)

lemma core_idem [simp]: "core (core d) = core d"
  by (simp add: core_def)

lemma connect_cfm_effect:
  assumes t: "conn_state (asked own peer c m) [] (True # ps) s t" and ok: "miu d \<le> local_link_miu (lcb s)"
  shows "\<exists>t'. LLCP_ConnectCfm quiet_env own peer (Some d) t = Some (LLCP_STATUS_SUCCESS, t')
    \<and> conn_state (linked own peer (miu d) (rw d) c m) [cc_bytes peer own d] ps s t'"
proof -
  have f: "llcp_dlc_find_dlcb_by_sap own peer t = Some 0"
    by (rule conn_find [OF t]) (simp_all add: asked_def)
  have g: "\<not> miu d > local_link_miu (lcb t)" using ok t by (simp add: conn_state_def)
  have st: "dl_state (dlcb t 0) = LLCP_DLC_STATE_W4_LOCAL_RESP" "local_sap (dlcb t 0) = own" "remote_sap (dlcb t 0) = peer"
    and co: "core (dlcb t 0) = core (asked own peer c m)"
    using t core_dest [of "dlcb t 0" "asked own peer c m"] by (simp_all add: conn_state_def asked_def)
  define f1 where "f1 = (\<lambda>e :: dlcb. e\<lparr>local_miu := miu d, local_rw := rw d, dl_state := LLCP_DLC_STATE_CONNECTED\<rparr>)"
  define t1 where "t1 = upd_dl 0 f1 (stop_dl_timer 0 t)"
  define t2 where "t2 = (if overall_rx_congested t1 then upd_dl 0 (set_flag LLCP_DATA_LINK_FLAG_PENDING_RR_RNR) t1 else t1)"
  define t3 where "t3 = llcp_util_adjust_dl_rx_congestion (enqueue_sig (new_pdu (cc_bytes peer own d)) (t2\<lparr>pool := ps\<rparr>))"
  have p2: "pool t2 = True # ps" "peer_miu (lcb t2) = peer_miu (lcb t)" "local_sap (dlcb t2 0) = own" "remote_sap (dlcb t2 0) = peer"
    using t st by (simp_all add: t2_def t1_def f1_def stop_dl_timer_def conn_state_def set_flag_def)
  have v2: "view t2 = set_dl 0 (\<lambda>_. f1 (core (dlcb t 0))) (view t)"
    by (auto simp: t2_def t1_def f1_def stop_dl_timer_def view_def set_dl_def fun_eq_iff core_def set_flag_def
        bit.conj_disj_distrib2)
  have "LLCP_ConnectCfm quiet_env own peer (Some d) t = Some (LLCP_STATUS_SUCCESS, t3)"
    using g p2 by (simp add: LLCP_ConnectCfm_def on_dlcb_def f llcp_dlsm_execute_def st llcp_dlsm_w4_local_resp_def Let_def
        f1_def [symmetric] t1_def [symmetric] t2_def [symmetric] llcp_util_send_cc_def GKI_getpoolbuf_llcp_def
        send_sig_def t3_def)
  moreover have "conn_state (linked own peer (miu d) (rw d) c m) [cc_bytes peer own d] ps s t3"
  proof -
    have v3: "view t3 = (view t2)\<lparr>v_sig := v_sig (view t2) @ [new_pdu (cc_bytes peer own d)]\<rparr>" by (simp add: t3_def)
    have "f1 (core (dlcb t 0)) = core (linked own peer (miu d) (rw d) c m)"
      unfolding co by (simp add: f1_def asked_def linked_def core_def zero_dlcb_def)
    moreover have "pool t3 = ps" "peer_miu (lcb t3) = peer_miu (lcb t)"
      using p2 by (simp_all add: t3_def adjust_fields enqueue_sig_def upd_lcb_def)
    ultimately show ?thesis
      using t by (simp add: conn_state_view v3 v2 set_dl_def new_pdu_def del: view_dl)
  qed
  ultimately show ?thesis by blast
qed

section \<open>Arrival of CC\<close>

lemma cc_frame:
  assumes sap: "unat own < 64" "unat peer < 64" "own \<noteq> LLCP_SAP_LM"
    and b: "body b = cc_bytes own peer d" and m: "LLCP_DEFAULT_MIU \<le> local_link_miu (lcb s)"
  shows "rx_frame quiet_env params b s
    = llcp_dlc_proc_cc_pdu quiet_env own peer (blen b - 2) (body b) 2 params (llcp_link_stop_inactivity_timer s)"
proof -
  have n: "length (miu_bytes d) + length (rw_bytes d) \<le> 7" using length_params(1,2) [of d] by linarith
  have "128 \<le> unat (local_link_miu (lcb s))" using m by (simp add: word_le_nat_alt)
  then show ?thesis
    using n sap by (simp add: rx_frame_def b cc_bytes_def ptype_fields frame_passes_def
        llcp_link_proc_rx_pdu_def llcp_dlc_proc_rx_pdu_def llcp_sizes)
qed

lemma conn_state_stop:
  "conn_state d sig p s t \<Longrightarrow> conn_state d sig p s (llcp_link_stop_inactivity_timer t)"
  by (simp add: conn_state_def stop_inactivity_fields)

lemma cc_effect:
  assumes t: "conn_state (asking own peer c) [] ps s t" and ok: "miu_ok d"
    and sap: "unat own < 64" "unat peer < 64" "own \<noteq> LLCP_SAP_LM"
    and b: "body b = cc_bytes own peer d" and m: "LLCP_DEFAULT_MIU \<le> local_link_miu (lcb s)"
  shows "\<exists>t'. rx_frame quiet_env params b t = Some t'
    \<and> conn_state (linked own peer (miu c) (rw (mask_rw c)) d (peer_miu (lcb s))) [] ps s t'"
proof -
  let ?t = "llcp_link_stop_inactivity_timer t"
  note t' = conn_state_stop [OF t]
  have f: "llcp_dlc_find_dlcb_by_sap own LLCP_INVALID_SAP ?t = Some 0"
    by (rule conn_find [OF t']) (simp_all add: asking_def)
  have at: "at (body b) 2 (miu_bytes d @ rw_bytes d)" by (simp add: b cc_bytes_def at_def)
  have bl: "blen b - 2 = of_nat (length (miu_bytes d @ rw_bytes d))" by (simp add: blen_def b cc_bytes_def)
  have pc: "llcp_util_parse_cc (body b) 2 (blen b - 2) params = Some (LLCP_STATUS_SUCCESS, peer_reads d (sn params))"
    unfolding bl by (rule parse_cc_built [OF ok at])
  define t1 where "t1 = upd_dl 0 (\<lambda>d. d\<lparr>remote_sap := peer\<rparr>) ?t"
  define f2 where "f2 = (\<lambda>e :: dlcb. e\<lparr>remote_miu := min (miu d) (peer_miu (lcb s)), remote_rw := rw (mask_rw d),
      dl_state := LLCP_DLC_STATE_CONNECTED\<rparr>)"
  define t2 where "t2 = llcp_util_adjust_dl_rx_congestion (upd_dl 0 f2 (stop_dl_timer 0 t1))"
  define t3 where "t3 = (if overall_rx_congested t2 then upd_dl 0 (set_flag LLCP_DATA_LINK_FLAG_PENDING_RR_RNR) t2 else t2)"
  have co: "core (dlcb ?t 0) = core (asking own peer c)" using t' by (simp add: conn_state_def)
  have st: "dl_state (dlcb t1 0) = LLCP_DLC_STATE_W4_REMOTE_RESP"
    using core_dest [OF co] by (simp add: t1_def asking_def)
  have pm: "peer_miu (lcb (stop_dl_timer 0 t1)) = peer_miu (lcb s)"
    using t' by (simp add: t1_def stop_dl_timer_def conn_state_def)
  have e: "miu d = min (miu d) m" if "\<not> m < miu d" for m using that by (auto simp: min_def)
  have e': "m = min (miu d) m" if "m < miu d" for m using that by (auto simp: min_def)
  have "rx_frame quiet_env params b t = Some t3"
  proof -
    have x: "llcp_dlsm_execute quiet_env 0 (LLCP_DLC_EVENT_PEER_CONNECT_CFM (peer_reads d (sn params))) t1
        = Some (LLCP_STATUS_SUCCESS, t3)"
    proof (cases "peer_miu (lcb s) < miu d")
      case True
      then show ?thesis
        using pm e' [OF True] by (simp add: llcp_dlsm_execute_def st llcp_dlsm_w4_remote_resp_def Let_def peer_reads_def
            t3_def t2_def f2_def)
    next
      case False
      then show ?thesis
        using pm e [OF False] by (simp add: llcp_dlsm_execute_def st llcp_dlsm_w4_remote_resp_def Let_def peer_reads_def
            t3_def t2_def f2_def)
    qed
    have m': "LLCP_DEFAULT_MIU \<le> local_link_miu (lcb t)" using m t by (simp add: conn_state_def)
    show ?thesis
      using pc x by (simp add: cc_frame [OF sap b m'] llcp_dlc_proc_cc_pdu_def f t1_def [symmetric] Let_def)
  qed
  moreover have "conn_state (linked own peer (miu c) (rw (mask_rw c)) d (peer_miu (lcb s))) [] ps s t3"
  proof -
    have v3: "view t3 = set_dl 0 (\<lambda>_. f2 ((core (dlcb ?t 0))\<lparr>remote_sap := peer\<rparr>)) (view t)"
    proof -
      have "view t3 = view t2" by (simp add: t3_def view_upd_dl_drop)
      also have "\<dots> = view (upd_dl 0 f2 (stop_dl_timer 0 t1))" by (simp only: t2_def view_adjust)
      also have "\<dots> = set_dl 0 (\<lambda>_. f2 ((core (dlcb ?t 0))\<lparr>remote_sap := peer\<rparr>)) (view t)"
        by (auto simp: t1_def f2_def stop_dl_timer_def view_def set_dl_def fun_eq_iff core_def
            llcp_link_stop_inactivity_timer_def upd_lcb_def)
      finally show ?thesis .
    qed
    have "f2 ((core (dlcb ?t 0))\<lparr>remote_sap := peer\<rparr>) = core (linked own peer (miu c) (rw (mask_rw c)) d (peer_miu (lcb s)))"
      unfolding co by (simp add: f2_def asking_def linked_def core_def zero_dlcb_def)
    moreover have "pool t3 = ps" "peer_miu (lcb t3) = peer_miu (lcb s)"
      using t' by (simp_all add: t3_def t2_def adjust_fields t1_def stop_dl_timer_def conn_state_def)
    ultimately show ?thesis
      using t by (simp add: conn_state_view v3 set_dl_def del: view_dl)
  qed
  ultimately show ?thesis by blast
qed

section \<open>Both sides\<close>

lemma get_app_cb_sap: "llcp_util_get_app_cb sap \<noteq> None \<Longrightarrow> sap \<noteq> LLCP_SAP_LM \<and> unat sap < 64"
  by (auto simp: llcp_util_get_app_cb_def word_le_nat_alt split: if_splits)

lemma linked_fresh:
  assumes c: "conn_state (linked own peer m w d k) [] ps s t" and n: "no_connection s"
    and sap: "unat own < 64" "unat peer < 64" "own \<noteq> LLCP_SAP_LM"
  shows "fresh_side 0 own peer t"
    "limits_of 0 (view t) = \<lparr>l_miu = m, l_rw = w, l_peer_miu = min (miu d) k, l_peer_rw = rw (mask_rw d),
       l_link_miu = local_link_miu (lcb s), l_eff_miu = effective_miu (lcb s), l_snl = p_snl (sdp s)\<rparr>"
proof -
  have d: "core (dlcb t 0) = core (linked own peer m w d k)" and o: "\<forall>j. j \<noteq> 0 \<longrightarrow> dl_state (dlcb t j) = LLCP_DLC_STATE_IDLE"
    using c by (simp_all add: conn_state_def)
  note f = core_dest [OF d]
  have fl: "dl_flags (core (dlcb t 0)) = 0" unfolding d by (simp add: core_def linked_def zero_dlcb_def)
  have "alone 0 own peer (view t)"
    using c n sap f o fl
    by (simp add: alone_def LLCP_MAX_DATA_LINK_def linked_def conn_state_view no_connection_def del: view_dl)
       (simp add: view_def)
  then show "fresh_side 0 own peer t"
    using c f by (simp add: fresh_side_def conn_state_def linked_def zero_dlcb_def Let_def)
  show "limits_of 0 (view t) = \<lparr>l_miu = m, l_rw = w, l_peer_miu = min (miu d) k, l_peer_rw = rw (mask_rw d),
       l_link_miu = local_link_miu (lcb s), l_eff_miu = effective_miu (lcb s), l_snl = p_snl (sdp s)\<rparr>"
    using f c by (simp add: limits_of_def linked_def conn_state_def)
qed

definition two_ends :: "'a \<Rightarrow> 'a \<Rightarrow> side \<Rightarrow> 'a" where
  "two_ends x y X = (case X of Near \<Rightarrow> x | Far \<Rightarrow> y)"

lemma two_ends_simps [simp]: "two_ends x y Near = x" "two_ends x y Far = y"
  by (simp_all add: two_ends_def)

definition start_net :: "llcp_cb \<Rightarrow> llcp_cb \<Rightarrow> net" where
  "start_net s t = \<lparr>node = two_ends s t, chan = (\<lambda>_. []), subm = (\<lambda>_. []), got = (\<lambda>_. [])\<rparr>"

text \<open>A station that can take part: \<open>m\<close> is the MIU it announces for the connection.\<close>

definition link_ready :: "conn_params \<Rightarrow> llcp_cb \<Rightarrow> bool" where
  "link_ready c s \<longleftrightarrow> no_connection s \<and> LLCP_DEFAULT_MIU \<le> miu c \<and> miu c \<le> LLCP_MAX_MIU
     \<and> miu c \<le> local_link_miu (lcb s) \<and> (\<exists>p. pool s = True # p)"

lemma mask_rw_bounds: "unat (rw (mask_rw c)) < 16" "rw (mask_rw c) \<le> rw c"
proof -
  have "unat (rw c AND 0xF) < 16"
    using word_and_le1 [of "rw c" "0xF"] by (simp add: word_le_nat_alt)
  then show "unat (rw (mask_rw c)) < 16" by (auto simp: mask_rw_def)
  show "rw (mask_rw c) \<le> rw c" by (auto simp: mask_rw_def word_and_le2)
qed

lemma connection_made:
  assumes s: "link_ready c s" and t: "link_ready d t"
    and lsc: "peer_opt (lcb s) = LLCP_LSC_UNKNOWN \<or> peer_opt (lcb s) AND LLCP_LSC_2 \<noteq> 0"
    and own: "registered own s \<noteq> None" and acc: "accepts_connection peer t" and sdp: "peer \<noteq> LLCP_SAP_SDP"
  shows "\<exists>s1 b1 s2 s3 t1 t2 b2 t3.
      LLCP_ConnectReq quiet_env own peer (Some c) s = Some (LLCP_STATUS_SUCCESS, s1)
    \<and> llcp_link_get_next_pdu quiet_env False s1 = Some (Taken b1, s2)
    \<and> rx_frame quiet_env params b1 t = Some t1
    \<and> LLCP_ConnectCfm quiet_env peer own (Some d) t1 = Some (LLCP_STATUS_SUCCESS, t2)
    \<and> llcp_link_get_next_pdu quiet_env False t2 = Some (Taken b2, t3)
    \<and> rx_frame quiet_env params' b2 s2 = Some s3
    \<and> fresh_net (\<lambda>_. 0) (two_ends own peer) (start_net s3 t3)
    \<and> limits_of 0 (view s3) = \<lparr>l_miu = miu c, l_rw = rw (mask_rw c), l_peer_miu = min (miu d) (peer_miu (lcb s)),
        l_peer_rw = rw (mask_rw d), l_link_miu = local_link_miu (lcb s), l_eff_miu = effective_miu (lcb s), l_snl = p_snl (sdp s)\<rparr>
    \<and> limits_of 0 (view t3) = \<lparr>l_miu = miu d, l_rw = rw d, l_peer_miu = min (miu c) (peer_miu (lcb t)),
        l_peer_rw = rw (mask_rw c), l_link_miu = local_link_miu (lcb t), l_eff_miu = effective_miu (lcb t), l_snl = p_snl (sdp t)\<rparr>"
proof -
  obtain ps qs where p: "pool s = True # ps" "pool t = True # qs" using s t by (auto simp: link_ready_def)
  have n: "no_connection s" "no_connection t" and ok: "miu_ok c" "miu_ok d" using s t by (simp_all add: link_ready_def miu_ok_def)
  have lm: "miu c \<le> local_link_miu (lcb s)" "miu d \<le> local_link_miu (lcb t)"
    "LLCP_DEFAULT_MIU \<le> local_link_miu (lcb s)" "LLCP_DEFAULT_MIU \<le> local_link_miu (lcb t)"
    using s t by (auto simp: link_ready_def)
  have so: "own \<noteq> LLCP_SAP_LM" "unat own < 64"
    using own get_app_cb_sap [of own] by (auto simp: registered_def split: option.splits)
  have sp: "peer \<noteq> LLCP_SAP_LM" "unat peer < 64"
    using acc get_app_cb_sap [of peer] by (auto simp: accepts_connection_def split: option.splits)
  have mc: "may_connect own peer c s" using lsc own s by (simp add: may_connect_def link_ready_def)
  obtain s1 where s1: "LLCP_ConnectReq quiet_env own peer (Some c) s = Some (LLCP_STATUS_SUCCESS, s1)"
    "conn_state (asking own peer c) [connect_bytes peer own c] ps s s1"
    using connect_req_effect [OF n(1) mc p(1) sp(1) sdp] by blast
  obtain b1 s2 where b1: "llcp_link_get_next_pdu quiet_env False s1 = Some (Taken b1, s2)"
    "body b1 = connect_bytes peer own c" "conn_state (asking own peer c) [] ps s s2"
    using take_signal [OF s1(2)] by blast
  obtain t1 where t1: "rx_frame quiet_env params b1 t = Some t1"
    "conn_state (asked peer own c (peer_miu (lcb t))) [] (True # qs) t t1"
    using connect_ind_effect [OF n(2) acc ok(1) so(2) sp(2,1) sdp b1(2) lm(4) p(2)] by blast
  obtain t2 where t2: "LLCP_ConnectCfm quiet_env peer own (Some d) t1 = Some (LLCP_STATUS_SUCCESS, t2)"
    "conn_state (linked peer own (miu d) (rw d) c (peer_miu (lcb t))) [cc_bytes own peer d] qs t t2"
    using connect_cfm_effect [OF t1(2) lm(2)] by blast
  obtain b2 t3 where b2: "llcp_link_get_next_pdu quiet_env False t2 = Some (Taken b2, t3)"
    "body b2 = cc_bytes own peer d" "conn_state (linked peer own (miu d) (rw d) c (peer_miu (lcb t))) [] qs t t3"
    using take_signal [OF t2(2)] by blast
  obtain s3 where s3: "rx_frame quiet_env params' b2 s2 = Some s3"
    "conn_state (linked own peer (miu c) (rw (mask_rw c)) d (peer_miu (lcb s))) [] ps s s3"
    using cc_effect [OF b1(3) ok(2) so(2) sp(2) so(1) b2(2) lm(3)] by blast
  note fs = linked_fresh [OF s3(2) n(1) so(2) sp(2) so(1)] and ft = linked_fresh [OF b2(3) n(2) sp(2) so(2) sp(1)]
  have mm: "min a b \<le> (a :: u16)" for a b by (rule min.cobounded1)
  have "fresh_net (\<lambda>_. 0) (two_ends own peer) (start_net s3 t3)"
    unfolding fresh_net_def
  proof
    fix X
    have "min (miu d) (peer_miu (lcb s)) \<le> local_link_miu (lcb t)" "min (miu c) (peer_miu (lcb t)) \<le> local_link_miu (lcb s)"
      using mm lm by (meson order_trans)+
    then show "fresh_side 0 (two_ends own peer X) (two_ends own peer (other X)) (node (start_net s3 t3) X)
        \<and> limits_agree (limits_of 0 (view (node (start_net s3 t3) X))) (limits_of 0 (view (node (start_net s3 t3) (other X))))
        \<and> chan (start_net s3 t3) X = [] \<and> subm (start_net s3 t3) X = [] \<and> got (start_net s3 t3) X = []"
      using fs ft mask_rw_bounds by (cases X) (simp_all add: start_net_def limits_agree_def)
  qed
  then show ?thesis using s1(1) b1(1) t1(1) t2(1) b2(1) s3(1) fs(2) ft(2) by blast
qed

section \<open>An instance\<close>

text \<open>
  Two stations as \<open>llcp_init\<close> leaves them, with a link to a peer of the default MIU, one with a client,
  the other with a server at SAP 16.
\<close>

definition demo_station :: llcp_cb where
  "demo_station = upd_lcb (\<lambda>l. l\<lparr>link_state := LLCP_LINK_STATE_ACTIVATED, peer_miu := LLCP_DEFAULT_MIU,
       effective_miu := LLCP_DEFAULT_MIU\<rparr>)
     (llcp_init True 50 [True, True])"

definition demo_client :: llcp_cb where
  "demo_client = snd (LLCP_RegisterClient LLCP_LINK_TYPE_DATA_LINK_CONNECTION True demo_station)"

definition demo_server :: llcp_cb where
  "demo_server = snd (LLCP_RegisterServer True 0x10 LLCP_LINK_TYPE_DATA_LINK_CONNECTION (Some [0x61]) True
     demo_station)"

definition demo_params :: conn_params where
  "demo_params = \<lparr>miu = 200, rw = 3, sn = [0]\<rparr>"

lemmas init_defs = llcp_init_def zero_llcp_cb_def zero_lcb_def LLCP_RegisterServer_def no_link_type_def server_slot_def
  LLCP_MAX_WKS_def upd_app_def upd_lcb_def zero_app_cb_def add_logical_link_def Let_def LLCP_MAX_MIU_def LLCP_MIU_def
  LLCP_POOL_BUF_SIZE_def

lemma demo_ready:
  "link_ready demo_params demo_client" "link_ready demo_params demo_server"
  "peer_opt (lcb demo_client) = LLCP_LSC_UNKNOWN" "registered 0x20 demo_client \<noteq> None" "accepts_connection 0x10 demo_server"
  by (simp_all add: link_ready_def no_connection_def demo_station_def demo_client_def demo_server_def demo_params_def init_defs
      LLCP_RegisterClient_def LLCP_MAX_CLIENT_def LLCP_MAX_SERVER_def upt_conv_Cons registered_def llcp_util_get_app_cb_def
      accepts_connection_def app_at_def zero_dlcb_def word_le_nat_alt)

end
