(* ===== verification/Llcp_Delivery.thy ===== *)
theory Llcp_Delivery
  imports Llcp_Setup
begin

text \<open>The properties of the exchange of data over a data link connection.\<close>

section \<open>Sequence numbers\<close>

text \<open>
  C26. The window. For sequence variables below 16, the test of N(R) in the received I, RR and RNR PDUs
  accepts exactly the numbers V(SA), V(SA) + 1, ..., V(S) modulo 16; an I PDU is accepted without a
  frame reject exactly when its information fits the local MIU, N(S) is V(R), fewer than RW PDUs are
  unacknowledged by this side, and N(R) is in that range; and the sender takes an I PDU from its queue
  only while fewer than the peer's RW are outstanding, so never more than RW are.
\<close>

theorem window_bounds:
  assumes v: "unat (rcvd_ack_seq d) < 16" "unat (next_tx_seq d) < 16" "unat (next_rx_seq d) < 16" "unat (sent_ack_seq d) < 16"
    and n: "unat ns < 16" and r: "unat nr < 16"
  defines "outstanding \<equiv> unat ((next_tx_seq d - rcvd_ack_seq d) mod LLCP_SEQ_MODULO)"
  shows "(nr_valid d nr \<longleftrightarrow> (\<exists>k \<le> outstanding. unat nr = (unat (rcvd_ack_seq d) + k) mod 16))
    \<and> (i_pdu_errors d len (LLCP_GET_SEQUENCE ns nr) = 0 \<longleftrightarrow>
         unat len \<le> unat (local_miu d) \<and> ns = next_rx_seq d
         \<and> unat ((next_rx_seq d - sent_ack_seq d) mod LLCP_SEQ_MODULO) < unat (local_rw d) \<and> nr_valid d nr)
    \<and> (may_send d \<longrightarrow> outstanding < unat (remote_rw d)
         \<and> unat (((next_tx_seq d + 1) mod LLCP_SEQ_MODULO - rcvd_ack_seq d) mod LLCP_SEQ_MODULO) \<le> unat (remote_rw d))"
proof -
  have f: "LLCP_GET_NS (LLCP_GET_SEQUENCE ns nr) = ns" "LLCP_GET_NR (LLCP_GET_SEQUENCE ns nr) = nr"
    using n r by (simp_all add: seq_fields)
  have e: "i_pdu_errors d len (LLCP_GET_SEQUENCE ns nr) = 0 \<longleftrightarrow>
       unat len \<le> unat (local_miu d) \<and> ns = next_rx_seq d
       \<and> unat ((next_rx_seq d - sent_ack_seq d) mod LLCP_SEQ_MODULO) < unat (local_rw d) \<and> nr_valid d nr"
    by (auto simp: i_pdu_errors_def f word_le_nat_alt word_less_nat_alt not_le not_less or_eq_0_iff)
  have s: "unat ((next_tx_seq d + 1) mod LLCP_SEQ_MODULO) = (unat (next_tx_seq d) + 1) mod 16"
  proof -
    have "unat (next_tx_seq d + 1) = unat (next_tx_seq d) + 1" using v(2) by (simp add: unat_word_ariths)
    then show ?thesis by (simp add: byte_mod_16)
  qed
  have "unat (((next_tx_seq d + 1) mod LLCP_SEQ_MODULO - rcvd_ack_seq d) mod LLCP_SEQ_MODULO)
      = ((unat (next_tx_seq d) + 1) mod 16 + 256 - unat (rcvd_ack_seq d)) mod 16"
    by (simp only: byte_diff_mod_16 s)
  also have "\<dots> \<le> Suc ((unat (next_tx_seq d) + 256 - unat (rcvd_ack_seq d)) mod 16)"
  proof -
    have *: "((x + 1) mod 16 + 256 - y) mod 16 \<le> Suc ((x + 256 - y) mod 16)" if "x < 16" "y < 16" for x y :: nat
    proof (cases "x = 15")
      case True
      have "(256 - y) mod 16 = (15 + 256 - y + 1) mod 16"
      proof -
        have "15 + 256 - y + 1 = (256 - y) + 16 * 1" using that by simp
        then show ?thesis by (simp only: mod_mult_self2)
      qed
      then show ?thesis using True by (simp add: mod_Suc)
    next
      case False
      then have "(x + 1) mod 16 + 256 - y = Suc (x + 256 - y)" using that by simp
      then show ?thesis by (simp add: mod_Suc)
    qed
    show ?thesis using * v(1,2) by blast
  qed
  finally have "unat (((next_tx_seq d + 1) mod LLCP_SEQ_MODULO - rcvd_ack_seq d) mod LLCP_SEQ_MODULO) \<le> Suc outstanding"
    by (simp add: outstanding_def byte_diff_mod_16)
  moreover have "may_send d \<Longrightarrow> outstanding < unat (remote_rw d)"
    by (simp add: may_send_def llcp_dlc_is_rw_open_def outstanding_def word_less_nat_alt)
  ultimately show ?thesis using nr_valid_window [OF v(1,2) r] e unfolding outstanding_def by fastforce
qed

theorem window_bounds_witness:
  "let d = zero_dlcb\<lparr>next_tx_seq := 1, rcvd_ack_seq := 15, remote_rw := 3, i_xmit_q := [new_pdu []],
             local_rw := 1, local_miu := 128\<rparr> in
   may_send d \<and> i_pdu_errors d 5 (LLCP_GET_SEQUENCE 0 0) = 0 \<and> \<not> nr_valid d 2"
  using window_bounds [of "zero_dlcb\<lparr>next_tx_seq := 1, rcvd_ack_seq := 15, remote_rw := 3, i_xmit_q := [new_pdu []],
      local_rw := 1, local_miu := 128\<rparr>" 0 0 5]
    window_bounds [of "zero_dlcb\<lparr>next_tx_seq := 1, rcvd_ack_seq := 15, remote_rw := 3, i_xmit_q := [new_pdu []],
      local_rw := 1, local_miu := 128\<rparr>" 0 2 5]
  by (simp add: zero_dlcb_def may_send_def llcp_dlc_is_rw_open_def nr_valid_def LLCP_SEQ_MODULO_def Let_def)

section \<open>Delivery\<close>

text \<open>
  C27. Delivery of data. From a fresh connection between two stations, each of which aggregates PDUs at most up to the
  link MIU of the other, and without an SNL PDU waiting, after any sequence of these steps in any order: an application
  submits an SDU, reads a whole SDU or changes its busy state; a station composes its next frame, one PDU or an AGF PDU with
  all that fits, acknowledgements included; the oldest frame of a channel arrives, in a buffer that
  holds it, and at a station with a free buffer for each PDU of an AGF PDU. Then both ends are still connected; what
  the application of one side has read is, in order and without loss or duplicate, a prefix of what the application of the
  other side has submitted successfully; when nothing is left in the queues and in the channel, all of
  it was delivered; the next frame of a channel is always processed, under the condition on buffers above: no frame makes the receiver
  answer with a frame reject or leave the defined behaviour; and a station can always compose its next frame. Outside the claim: applications that call the stack from their
  callbacks or read an SDU in pieces, the end of the connection, and a receiver without buffers, where
  \<open>llcp_dlc_proc_i_pdu\<close> acknowledges a part of an AGF PDU and drops it (\<open>aggregated_pdu_lost\<close>).
\<close>

theorem data_delivery:
  assumes "fresh_net idx sap c0" "links_fit c0" "(net_step sap)\<^sup>*\<^sup>* c0 c"
  shows "\<forall>X. dl_state (dlcb (node c X) (idx X)) = LLCP_DLC_STATE_CONNECTED
    \<and> (\<exists>rest. subm c X = got c (other X) @ rest)
    \<and> (chan c X = [] \<and> sig_xmit_q (lcb (node c X)) = [] \<and> i_xmit_q (dlcb (node c X) (idx X)) = []
        \<and> i_rx_q (dlcb (node c (other X)) (idx (other X))) = [] \<longrightarrow> got c (other X) = subm c X)
    \<and> (\<forall>b fs params. chan c (other X) = body b # fs \<and> fits b \<and> room_for (body b) (node c X) \<longrightarrow>
        (\<exists>s. rx_frame quiet_env params b (node c X) = Some s
           \<and> dl_state (dlcb s (idx X)) = LLCP_DLC_STATE_CONNECTED))
    \<and> (\<exists>r s. next_frame quiet_env (node c X) = Some (r, s))"
proof -
  define L where "L = (\<lambda>X. limits_of (idx X) (view (node c0 X)))"
  obtain d where k: "carried L c d" and rd: "refines idx sap L d"
    using net_refines [OF assms(3,1,2)] unfolding L_def by blast
  have n: "node d = node c" "subm d = subm c" "got d = got c" using k by (simp_all add: carried_def)
  obtain a where r: "net_rel idx sap L d a" and iv: "xinv (windows L) a" using rd by (auto simp: refines_def)
  have sr: "side_rel (idx X) (sap X) (sap (other X)) (L X) (view (node c X)) (chan d X) (a X)"
    "subm c X = submitted (a X)" "got c X = delivered (a X)" for X
    using r by (simp_all add: net_rel_def n)
  have con: "dl_state (dlcb (node c X) (idx X)) = LLCP_DLC_STATE_CONNECTED" for X
    by (rule alone_state(1) [OF side_rel_alone [OF sr(1)]])
  have all: "subm c X = got c (other X) @ unread (a (other X)) @ sdus (on_way (a X)) @ to_send (a X)" for X
    using xinv_delivery [OF iv, of X] by (simp add: sr(2,3))
  have empty: "chan d X = []" if "chan c X = []" for X
    using k that unfolding carried_at [of L c d X] by auto
  have whole: "got c (other X) = subm c X"
    if "chan c X = [] \<and> sig_xmit_q (lcb (node c X)) = [] \<and> i_xmit_q (dlcb (node c X) (idx X)) = []
        \<and> i_rx_q (dlcb (node c (other X)) (idx (other X))) = []" for X
    using all [of X] that empty [of X] sr(1) [of X] side_fields(5) [OF sr(1), of "other X"] by (simp add: side_rel_def)
  have acc: "\<exists>s. rx_frame quiet_env params b (node c X) = Some s \<and> dl_state (dlcb s (idx X)) = LLCP_DLC_STATE_CONNECTED"
    if h: "chan c (other X) = body b # fs" "fits b" "room_for (body b) (node c X)" for X b fs params
  proof -
    obtain s d' where s: "rx_frame quiet_env params b (node c X) = Some s" "(pdu_step sap)\<^sup>*\<^sup>* d d'"
      "carried L (c\<lparr>node := (node c)(X := s), chan := (chan c)(other X := fs)\<rparr>) d'"
      using arrives [OF k rd h, of params] by blast
    have "node d' X = s" using s(3) by (simp add: carried_def)
    then show ?thesis
      using alone_state(1) [OF station_facts(1) [OF refines_steps [OF s(2) rd], of X]] s(1) by simp
  qed
  have "\<exists>r s. next_frame quiet_env (node c X) = Some (r, s)" for X using next_frame_total [OF rd, of X] n by simp
  then show ?thesis using con all whole acc by blast
qed

lemma demo_connected: "\<exists>s t. fresh_net (\<lambda>_. 0) (two_ends 0x20 0x10) (start_net s t)
    \<and> links_fit (start_net s t) \<and> remote_miu (dlcb s 0) = 128 \<and> remote_rw (dlcb s 0) = 3"
proof -
  have lsc: "peer_opt (lcb demo_client) = LLCP_LSC_UNKNOWN \<or> peer_opt (lcb demo_client) AND LLCP_LSC_2 \<noteq> 0"
    using demo_ready(3) by simp
  have sdp: "(0x10 :: byte) \<noteq> LLCP_SAP_SDP" by simp
  obtain s t where "fresh_net (\<lambda>_. 0) (two_ends 0x20 0x10) (start_net s t)"
    and l: "limits_of 0 (view s) = \<lparr>l_miu = miu demo_params, l_rw = rw (mask_rw demo_params),
       l_peer_miu = min (miu demo_params) (peer_miu (lcb demo_client)), l_peer_rw = rw (mask_rw demo_params),
       l_link_miu = local_link_miu (lcb demo_client), l_eff_miu = effective_miu (lcb demo_client), l_snl = p_snl (sdp demo_client)\<rparr>"
    and l': "limits_of 0 (view t) = \<lparr>l_miu = miu demo_params, l_rw = rw demo_params,
       l_peer_miu = min (miu demo_params) (peer_miu (lcb demo_server)), l_peer_rw = rw (mask_rw demo_params),
       l_link_miu = local_link_miu (lcb demo_server), l_eff_miu = effective_miu (lcb demo_server), l_snl = p_snl (sdp demo_server)\<rparr>"
    using connection_made [OF demo_ready(1,2) lsc demo_ready(4,5) sdp, of demo_params demo_params] by blast
  moreover have "remote_miu (dlcb s 0) = 128 \<and> remote_rw (dlcb s 0) = 3"
    using l by (simp add: limits_of_def demo_params_def mask_rw_def demo_client_def demo_station_def init_defs
        LLCP_RegisterClient_def LLCP_MAX_CLIENT_def upt_conv_Cons)
  moreover have "links_fit (start_net s t)"
    unfolding links_fit_def all_sides [where X = Near]
    using l l' by (simp add: limits_of_def start_net_def demo_client_def demo_server_def demo_station_def init_defs
        LLCP_RegisterClient_def LLCP_MAX_CLIENT_def LLCP_MAX_SERVER_def upt_conv_Cons)
  ultimately show ?thesis by blast
qed

lemma first_submission:
  assumes f: "fresh_net (\<lambda>_. 0) (two_ends 0x20 0x10) (start_net s t)" and l: "remote_miu (dlcb s 0) = 128" "remote_rw (dlcb s 0) = 3"
  shows "\<exists>c. net_step (two_ends 0x20 0x10) (start_net s t) c \<and> subm c Near = [[1, 2, 3]]"
proof -
  let ?b = "\<lparr>bsize = LLCP_POOL_BUF_SIZE, offset = 7, layer_specific = 0, body = [1, 2, 3]\<rparr>"
  have "fresh_side 0 (two_ends 0x20 0x10 Near) (two_ends 0x20 0x10 (other Near)) (node (start_net s t) Near)"
    using spec [OF f [unfolded fresh_net_def], of Near] by blast
  then have a: "alone 0 0x20 0x10 (view s)" by (simp add: fresh_side_def start_net_def del: view_dl)
  have c: "unat (blen ?b) \<le> unat (remote_miu (dlcb s 0)) \<and> LLCP_MIN_OFFSET \<le> unat (offset ?b) \<and> remote_rw (dlcb s 0) \<noteq> 0"
    by (simp add: l blen_def llcp_sizes)
  obtain st s' where s': "LLCP_SendData quiet_env 0x20 0x10 ?b s = Some (st, s')" "st \<noteq> LLCP_STATUS_FAIL"
    using send_data_effect [OF a, of ?b] unfolding if_P [OF c] by blast
  have "net_step (two_ends 0x20 0x10) (start_net s t) ((start_net s t)\<lparr>node := (node (start_net s t))(Near := s'),
      subm := (subm (start_net s t))(Near := subm (start_net s t) Near @ (if st = LLCP_STATUS_FAIL then [] else [body ?b]))\<rparr>)"
    using s' by (intro net_step.send_data) (simp_all add: fits_def llcp_sizes LLCP_POOL_BUF_SIZE_def start_net_def)
  then show ?thesis using s'(2) by (intro exI conjI) (assumption, simp add: start_net_def)
qed

theorem data_delivery_witness:
  "\<exists>c0 c. (net_step (two_ends 0x20 0x10))\<^sup>*\<^sup>* c0 c \<and> subm c Near = [[1, 2, 3]]
    \<and> (\<exists>rest. subm c Near = got c Far @ rest) \<and> dl_state (dlcb (node c Far) 0) = LLCP_DLC_STATE_CONNECTED"
proof -
  obtain s t where f: "fresh_net (\<lambda>_. 0) (two_ends 0x20 0x10) (start_net s t)" "links_fit (start_net s t)"
    "remote_miu (dlcb s 0) = 128" "remote_rw (dlcb s 0) = 3" using demo_connected by blast
  obtain c where c: "net_step (two_ends 0x20 0x10) (start_net s t) c" "subm c Near = [[1, 2, 3]]"
    using first_submission [OF f(1,3,4)] by blast
  then have r: "(net_step (two_ends 0x20 0x10))\<^sup>*\<^sup>* (start_net s t) c" by blast
  note d = data_delivery [OF f(1,2) r]
  have "\<exists>rest. subm c Near = got c Far @ rest" using d [THEN spec, of Near] by simp
  moreover have "dl_state (dlcb (node c Far) 0) = LLCP_DLC_STATE_CONNECTED" using d [THEN spec, of Far] by blast
  ultimately show ?thesis using r c(2) by blast
qed

section \<open>Connection setup\<close>

text \<open>
  C28. Setting up a connection. Two stations without connections, whose links are up and which have
  buffers for their PDUs, a client application on one and a server that accepts connections on the
  other: when the client asks for a connection to the server's SAP, the CONNECT PDU is transmitted and
  processed, the server confirms, and the CC PDU is transmitted and processed, then both ends are a
  fresh connection (\<open>fresh_net\<close>), and each end uses for sending the limits that the other
  announced: the MIU, reduced to the link MIU of the peer, and the receive window in four bits.
\<close>

theorem connection_setup:
  assumes "link_ready c s" "link_ready d t"
    and "peer_opt (lcb s) = LLCP_LSC_UNKNOWN \<or> peer_opt (lcb s) AND LLCP_LSC_2 \<noteq> 0"
    and "registered own s \<noteq> None" "accepts_connection peer t" "peer \<noteq> LLCP_SAP_SDP"
  shows "\<exists>s1 b1 s2 s3 t1 t2 b2 t3.
      LLCP_ConnectReq quiet_env own peer (Some c) s = Some (LLCP_STATUS_SUCCESS, s1)
    \<and> llcp_link_get_next_pdu quiet_env False s1 = Some (Taken b1, s2)
    \<and> rx_frame quiet_env params b1 t = Some t1
    \<and> LLCP_ConnectCfm quiet_env peer own (Some d) t1 = Some (LLCP_STATUS_SUCCESS, t2)
    \<and> llcp_link_get_next_pdu quiet_env False t2 = Some (Taken b2, t3)
    \<and> rx_frame quiet_env params' b2 s2 = Some s3
    \<and> fresh_net (\<lambda>_. 0) (two_ends own peer) (start_net s3 t3)
    \<and> remote_miu (dlcb s3 0) = min (miu d) (peer_miu (lcb s)) \<and> remote_rw (dlcb s3 0) = rw (mask_rw d)
    \<and> remote_miu (dlcb t3 0) = min (miu c) (peer_miu (lcb t)) \<and> remote_rw (dlcb t3 0) = rw (mask_rw c)"
proof -
  have l: "limits_of 0 (view u) = l \<Longrightarrow> remote_miu (dlcb u 0) = l_peer_miu l \<and> remote_rw (dlcb u 0) = l_peer_rw l" for u l
    by (auto simp: limits_of_def)
  show ?thesis
    using connection_made [OF assms, of params params'] by (elim exE conjE, intro exI conjI) (assumption | drule l, force)+
qed

theorem connection_setup_witness:
  "\<exists>s3 t3. fresh_net (\<lambda>_. 0) (two_ends 0x20 0x10) (start_net s3 t3) \<and> remote_rw (dlcb s3 0) = rw (mask_rw demo_params)"
proof -
  have lsc: "peer_opt (lcb demo_client) = LLCP_LSC_UNKNOWN \<or> peer_opt (lcb demo_client) AND LLCP_LSC_2 \<noteq> 0"
    using demo_ready(3) by simp
  have sdp: "(0x10 :: byte) \<noteq> LLCP_SAP_SDP" by simp
  show ?thesis
    using connection_setup [OF demo_ready(1,2) lsc demo_ready(4,5) sdp, of demo_params demo_params] by blast
qed

end
