(* ===== verification/Nci_Params.thy ===== *)
theory Nci_Params
  imports Nfc_Msg
begin

text \<open>
  The parameters that the NFC controller (NFCC) reports in its notifications, as
  \<open>nfc/nfc/nfc_ncif.c\<close> and \<open>nfc/nci/nci_hrcv.c\<close> decode them into the structures of
  \<open>nfc/include/nfc_api.h\<close>. All fields of the unions \<open>tNFC_RF_TECH_PARAMU\<close>, \<open>intf_param\<close> and of
  \<open>tNFC_ACTION_DATA\<close> are bytes; a union is the list of its bytes, so that a field read through
  another member than the one that was written has the value it has in the code. A message is the list
  of the received bytes: reading behind them, and writing more into an array than it holds, is
  \<open>None\<close>.
\<close>

section \<open>Fields of unions\<close>

definition set_at :: "nat \<Rightarrow> byte list \<Rightarrow> byte list \<Rightarrow> byte list" where
  "set_at off bs u = take off u @ bs @ drop (off + length bs) u"

lemma length_set_at [simp]: "off + length bs \<le> length u \<Longrightarrow> length (set_at off bs u) = length u"
  by (simp add: set_at_def)

text \<open>A value that an array of \<open>cap\<close> bytes must hold.\<close>

definition fits :: "nat \<Rightarrow> byte list \<Rightarrow> byte list option" where
  "fits cap bs = (if length bs \<le> cap then Some bs else None)"

section \<open>RF technology parameters\<close>

abbreviation (input) NCI_DISCOVERY_TYPE_POLL_A :: byte where "NCI_DISCOVERY_TYPE_POLL_A \<equiv> 0x00"
abbreviation (input) NCI_DISCOVERY_TYPE_POLL_B :: byte where "NCI_DISCOVERY_TYPE_POLL_B \<equiv> 0x01"
abbreviation (input) NCI_DISCOVERY_TYPE_POLL_F :: byte where "NCI_DISCOVERY_TYPE_POLL_F \<equiv> 0x02"
abbreviation (input) NCI_DISCOVERY_TYPE_POLL_A_ACTIVE :: byte where "NCI_DISCOVERY_TYPE_POLL_A_ACTIVE \<equiv> 0x03"
abbreviation (input) NCI_DISCOVERY_TYPE_POLL_F_ACTIVE :: byte where "NCI_DISCOVERY_TYPE_POLL_F_ACTIVE \<equiv> 0x05"
abbreviation (input) NCI_DISCOVERY_TYPE_POLL_ISO15693 :: byte where "NCI_DISCOVERY_TYPE_POLL_ISO15693 \<equiv> 0x06"
abbreviation (input) NCI_DISCOVERY_TYPE_LISTEN_A :: byte where "NCI_DISCOVERY_TYPE_LISTEN_A \<equiv> 0x80"
abbreviation (input) NCI_DISCOVERY_TYPE_LISTEN_B :: byte where "NCI_DISCOVERY_TYPE_LISTEN_B \<equiv> 0x81"
abbreviation (input) NCI_DISCOVERY_TYPE_LISTEN_F :: byte where "NCI_DISCOVERY_TYPE_LISTEN_F \<equiv> 0x82"
abbreviation (input) NCI_DISCOVERY_TYPE_LISTEN_A_ACTIVE :: byte where "NCI_DISCOVERY_TYPE_LISTEN_A_ACTIVE \<equiv> 0x83"
abbreviation (input) NCI_DISCOVERY_TYPE_LISTEN_F_ACTIVE :: byte where "NCI_DISCOVERY_TYPE_LISTEN_F_ACTIVE \<equiv> 0x85"

text \<open>
  The members of the union, by offset: \<open>pa\<close> has sens_res 0, nfcid1_len 2, nfcid1 3, sel_rsp 13, hr_len
  14 and hr 15; \<open>pb\<close> sensb_res_len 0, sensb_res 1 and nfcid0 13; \<open>pf\<close> bit_rate 0, sensf_res_len 1,
  sensf_res 2, nfcid2 20, mrti_check 28 and mrti_update 29; \<open>lf\<close> nfcid2 0; \<open>pi93\<close> flag 0, dsfid 1 and
  uid 2; \<open>pk\<close> uid_len 0 and uid 1. The length of the parameters is \<open>len\<close>, they start at \<open>p\<close>.
\<close>

definition no_tech_param :: "byte list" where
  "no_tech_param = replicate 33 0"

definition decode_poll_a :: "byte list \<Rightarrow> nat \<Rightarrow> byte \<Rightarrow> byte list option" where
  "decode_poll_a m p len = do {
     sens_res \<leftarrow> rd_bytes m p 2;
     n \<leftarrow> rd m (p + 2);
     let n = min n 10;
     nfcid1 \<leftarrow> rd_bytes m (p + 3) (unat n);
     let u = set_at 3 nfcid1 (set_at 2 [n] (set_at 0 sens_res no_tech_param));
     let p = p + 3 + unat n;
     u8 \<leftarrow> rd m p;
     (u, p) \<leftarrow> (if u8 \<noteq> 0 then do { sel_rsp \<leftarrow> rd m (p + 1); Some (set_at 13 [sel_rsp] u, p + 2) } else Some (u, p + 1));
     if unat len = 7 + unat n + unat u8 then do {
       hr_len \<leftarrow> rd m p;
       if hr_len = 2 then do { hr \<leftarrow> rd_bytes m (p + 1) 2; Some (set_at 15 hr (set_at 14 [hr_len] u)) }
       else Some (set_at 14 [hr_len] u) }
     else Some u }"

definition decode_poll_b :: "byte list \<Rightarrow> nat \<Rightarrow> byte list option" where
  "decode_poll_b m p = do {
     n \<leftarrow> rd m p;
     let n = min n 12;
     sensb_res \<leftarrow> rd_bytes m (p + 1) (unat n);
     let u = set_at 1 sensb_res (set_at 0 [n] no_tech_param);
     Some (set_at 13 (take 4 (drop 1 u)) u) }"

definition decode_poll_f :: "byte list \<Rightarrow> nat \<Rightarrow> byte list option" where
  "decode_poll_f m p = do {
     bit_rate \<leftarrow> rd m p;
     n \<leftarrow> rd m (p + 1);
     let n = min n 18;
     sensf_res \<leftarrow> rd_bytes m (p + 2) (unat n);
     let u = set_at 2 sensf_res (set_at 0 [bit_rate, n] no_tech_param);
     Some (set_at 28 [u ! 15, u ! 16] (set_at 20 (take 8 (drop 2 u)) u)) }"

definition nfc_ncif_decode_rf_params :: "byte \<Rightarrow> byte \<Rightarrow> byte list \<Rightarrow> nat \<Rightarrow> (byte list \<times> nat) option" where
  "nfc_ncif_decode_rf_params kovio mode m p = do {
     len \<leftarrow> rd m p;
     let p = p + 1;
     u \<leftarrow> (if mode = NCI_DISCOVERY_TYPE_POLL_A \<or> mode = NCI_DISCOVERY_TYPE_POLL_A_ACTIVE then decode_poll_a m p len
          else if mode = NCI_DISCOVERY_TYPE_POLL_B then decode_poll_b m p
          else if mode = NCI_DISCOVERY_TYPE_POLL_F \<or> mode = NCI_DISCOVERY_TYPE_POLL_F_ACTIVE then decode_poll_f m p
          else if mode = NCI_DISCOVERY_TYPE_LISTEN_F \<or> mode = NCI_DISCOVERY_TYPE_LISTEN_F_ACTIVE then do {
            u8 \<leftarrow> rd m p;
            if u8 \<noteq> 0 then do { nfcid2 \<leftarrow> rd_bytes m (p + 1) 8; Some (set_at 0 nfcid2 no_tech_param) } else Some no_tech_param }
          else if mode = NCI_DISCOVERY_TYPE_POLL_ISO15693 then do {
            bs \<leftarrow> rd_bytes m p 10; Some (set_at 0 bs no_tech_param) }
          else if mode = kovio then do {
            n \<leftarrow> rd m p;
            let n = min n 32;
            uid \<leftarrow> rd_bytes m (p + 1) (unat n);
            Some (set_at 1 uid (set_at 0 [n] no_tech_param)) }
          else Some no_tech_param);
     Some (u, p + unat len) }"

section \<open>Activation\<close>

abbreviation (input) NCI_INTERFACE_FRAME :: byte where "NCI_INTERFACE_FRAME \<equiv> 1"
abbreviation (input) NCI_INTERFACE_ISO_DEP :: byte where "NCI_INTERFACE_ISO_DEP \<equiv> 2"
abbreviation (input) NCI_INTERFACE_NFC_DEP :: byte where "NCI_INTERFACE_NFC_DEP \<equiv> 3"
abbreviation (input) NCI_PROTOCOL_T3BT :: byte where "NCI_PROTOCOL_T3BT \<equiv> 0x8B"

record activation =
  act_disc_id :: byte
  ntf_protocol :: byte
  rf_mode :: byte
  tech_param :: "byte list"
  data_mode :: byte
  tx_bitrate :: byte
  rx_bitrate :: byte
  intf_type :: byte
  intf_param :: "byte list"

definition no_intf_param :: "byte list" where
  "no_intf_param = replicate 115 0"

text \<open>
  ISO-DEP. \<open>pa_iso\<close> has ats_res_len 0, ats_res 1 (60 bytes), nad_used 61, fwi 62, sfgi 63, his_byte_len
  64 and his_byte 65 (50 bytes); \<open>la_iso\<close> rats 0; \<open>pb_iso\<close> and \<open>lb_iso\<close> the length 0, the ATTRIB
  response or request 1 (58 bytes), hi_info_len 59 and hi_info 60 (48 bytes), then mbli 108 in \<open>pb_iso\<close>
  and nfcid0 108 in \<open>lb_iso\<close>. The length of the historical bytes is taken from the positions of the
  interface bytes that T0 announces, in eight bits; more than 50 of them do not fit.
\<close>

definition decode_ats :: "byte list \<Rightarrow> nat \<Rightarrow> byte list \<Rightarrow> byte list option" where
  "decode_ats m p u = do {
     n \<leftarrow> rd m p;
     let u = set_at 0 [n] u;
     if n = 0 then Some u
     else do {
       let n = min n 60;
       ats \<leftarrow> rd_bytes m (p + 1) (unat n);
       let u = set_at 1 ats (set_at 0 [n] u);
       let t0 = u ! 1;
       let k = 1;
       let k = (if t0 AND 0x10 \<noteq> 0 then k + 1 else k);
       let (u, k) = (if t0 AND 0x20 \<noteq> 0
         then (set_at 62 [drop_bit 4 (u ! (1 + k)) AND 0x0F, u ! (1 + k) AND 0x0F] u, k + 1) else (u, k));
       let (u, k) = (if t0 AND 0x40 \<noteq> 0 then (set_at 61 [u ! (1 + k) AND 0x01] u, k + 1) else (u, k));
       let his_len = n - of_nat k;
       his \<leftarrow> fits 50 (take (unat his_len) (drop (1 + k) u @ replicate 255 0));
       Some (set_at 65 his (set_at 64 [his_len] u)) } }"

definition decode_attrib :: "nat \<Rightarrow> (byte list \<Rightarrow> byte list) \<Rightarrow> byte list \<Rightarrow> nat \<Rightarrow> byte list \<Rightarrow> byte list option" where
  "decode_attrib fixed extra m p u = do {
     n \<leftarrow> rd m p;
     let u = set_at 0 [n] u;
     if n = 0 then Some u
     else do {
       let n = min n 58;
       bs \<leftarrow> rd_bytes m (p + 1) (unat n);
       let u = extra (set_at 1 bs (set_at 0 [n] u));
       if fixed < unat n then do {
         let hl = min (n - of_nat fixed) 48;
         Some (set_at 60 (take (unat hl) (drop (1 + fixed) u)) (set_at 59 [hl] u)) }
       else Some u } }"

definition decode_iso_dep :: "byte \<Rightarrow> byte list \<Rightarrow> nat \<Rightarrow> byte list \<Rightarrow> byte list option" where
  "decode_iso_dep mode m p u =
     (if mode = NCI_DISCOVERY_TYPE_POLL_A then decode_ats m p u
      else if mode = NCI_DISCOVERY_TYPE_LISTEN_A then do { rats \<leftarrow> rd m p; Some (set_at 0 [rats] u) }
      else if mode = NCI_DISCOVERY_TYPE_POLL_B then
        decode_attrib 1 (\<lambda>u. set_at 108 [drop_bit 4 (u ! 1)] u) m p u
      else if mode = NCI_DISCOVERY_TYPE_LISTEN_B then
        decode_attrib 8 (\<lambda>u. set_at 108 (take 4 (drop 1 u)) u) m p u
      else Some u)"

text \<open>
  NFC-DEP. \<open>pa_nfc\<close> has atr_res_len 0, atr_res 1 (60 bytes), max_payload_size 61, gen_bytes_len 62,
  gen_bytes 63 (48 bytes) and waiting_time 111.
\<close>

definition nfc_mpl_code_to_size :: "byte list" where
  "nfc_mpl_code_to_size = [64, 128, 192, 254]"

definition decode_nfc_dep :: "byte \<Rightarrow> byte list \<Rightarrow> nat \<Rightarrow> byte list \<Rightarrow> byte list option" where
  "decode_nfc_dep mode m p u = do {
     n \<leftarrow> rd m p;
     let u = set_at 0 [n] u;
     if n = 0 then Some u
     else do {
       let n = min n 60;
       atr \<leftarrow> rd_bytes m (p + 1) (unat n);
       let u = set_at 1 atr (set_at 0 [n] u);
       let polls = (mode = NCI_DISCOVERY_TYPE_POLL_A \<or> mode = NCI_DISCOVERY_TYPE_POLL_F
                    \<or> mode = NCI_DISCOVERY_TYPE_POLL_A_ACTIVE \<or> mode = NCI_DISCOVERY_TYPE_POLL_F_ACTIVE);
       let listens = (mode = NCI_DISCOVERY_TYPE_LISTEN_A \<or> mode = NCI_DISCOVERY_TYPE_LISTEN_F
                      \<or> mode = NCI_DISCOVERY_TYPE_LISTEN_A_ACTIVE \<or> mode = NCI_DISCOVERY_TYPE_LISTEN_F_ACTIVE);
       let mpl_idx = (if polls then 14 else if listens then 13 else 0);
       let gb_idx = (if polls then 15 else if listens then 14 else 0 :: nat);
       let u = (if polls then set_at 111 [u ! 14 AND 0x0F] u else u);
       let mpl = drop_bit 4 (u ! (1 + mpl_idx)) AND 0x03;
       let u = set_at 61 [nfc_mpl_code_to_size ! unat mpl] u;
       if gb_idx < unat n then do {
         let gl = min (n - of_nat gb_idx) 48;
         Some (set_at 63 (take (unat gl) (drop (1 + gb_idx) u)) (set_at 62 [gl] u)) }
       else Some u } }"

text \<open>
  The notification RF_INTF_ACTIVATED from position \<open>p\<close> on: the event, and the packet size and the
  credits of the RF connection. The raw parameters go into the member \<open>frame\<close> (param_len 0, param 1, at
  most 16) before the interface is looked at.
\<close>

definition decode_activation :: "byte \<Rightarrow> byte list \<Rightarrow> nat \<Rightarrow> (activation \<times> byte \<times> byte) option" where
  "decode_activation kovio m p = do {
     disc_id \<leftarrow> rd m p; itype \<leftarrow> rd m (p + 1); proto \<leftarrow> rd m (p + 2);
     let proto = (if proto = 0 \<and> itype = NCI_INTERFACE_FRAME then NCI_PROTOCOL_T3BT else proto);
     mode \<leftarrow> rd m (p + 3); bsz \<leftarrow> rd m (p + 4); num \<leftarrow> rd m (p + 5);
     (tech, p) \<leftarrow> nfc_ncif_decode_rf_params kovio mode m (p + 6);
     dmode \<leftarrow> rd m p; tx \<leftarrow> rd m (p + 1); rx \<leftarrow> rd m (p + 2); len_act \<leftarrow> rd m (p + 3);
     let p = p + 4;
     let raw_len = min len_act 16;
     raw \<leftarrow> rd_bytes m p (unat raw_len);
     let u = set_at 1 raw (set_at 0 [raw_len] no_intf_param);
     (u, tech, bsz) \<leftarrow> (if itype = NCI_INTERFACE_ISO_DEP then do {
            u \<leftarrow> decode_iso_dep mode m p u; Some (u, tech, min bsz 253) }
          else if itype = NCI_INTERFACE_NFC_DEP then do {
            u \<leftarrow> decode_nfc_dep mode m p u; Some (u, tech, min bsz 251) }
          else if itype = NCI_INTERFACE_FRAME \<and> proto = 1 \<and> len_act = 2 \<and> tech ! 14 = 0 then do {
            hr \<leftarrow> rd_bytes m p 2; Some (u, set_at 14 (2 # hr) tech, bsz) }
          else Some (u, tech, bsz));
     Some (\<lparr>act_disc_id = disc_id, ntf_protocol = proto, rf_mode = mode, tech_param = tech, data_mode = dmode,
            tx_bitrate = tx, rx_bitrate = rx, intf_type = itype, intf_param = u\<rparr>, bsz, num) }"

section \<open>NFCEE notifications\<close>

text \<open>
  The event of NFCEE_DISCOVER: three interfaces of eight bytes of one TLV at most are kept. A tag of
  0xA0 or more takes two bytes.
\<close>

definition NFC_MAX_EE_INTERFACE :: byte where "NFC_MAX_EE_INTERFACE = 3"
definition NFC_MAX_EE_TLVS :: byte where "NFC_MAX_EE_TLVS = 1"
definition NFC_MAX_EE_INFO :: byte where "NFC_MAX_EE_INFO = 8"

primrec decode_ee_tlvs :: "nat \<Rightarrow> byte list \<Rightarrow> nat \<Rightarrow> (u16 \<times> byte list) list option" where
  "decode_ee_tlvs 0 m p = Some []"
| "decode_ee_tlvs (Suc n) m p = do {
     t \<leftarrow> rd m p;
     (tag, p) \<leftarrow> (if t < 0xA0 then Some (ucast t, p + 1)
                 else do { t2 \<leftarrow> rd m (p + 1); Some (push_bit 8 (ucast t) OR ucast t2 :: u16, p + 2) });
     len \<leftarrow> rd m p;
     info \<leftarrow> rd_bytes m (p + 1) (unat (min len NFC_MAX_EE_INFO));
     rest \<leftarrow> decode_ee_tlvs n m (p + 1 + unat len);
     Some ((tag, info) # rest) }"

definition decode_ee_info :: "byte list \<Rightarrow> nat \<Rightarrow> (byte \<times> byte \<times> byte list \<times> (u16 \<times> byte list) list) option" where
  "decode_ee_info m p = do {
     ee \<leftarrow> rd m p; ee_status \<leftarrow> rd m (p + 1); yy \<leftarrow> rd m (p + 2);
     intfs \<leftarrow> rd_bytes m (p + 3) (unat (min yy NFC_MAX_EE_INTERFACE));
     num_tlvs \<leftarrow> rd m (p + 3 + unat yy);
     tlvs \<leftarrow> decode_ee_tlvs (unat (min num_tlvs NFC_MAX_EE_TLVS)) m (p + 4 + unat yy);
     Some (ee, ee_status, intfs, tlvs) }"

text \<open>
  The event of RF_NFCEE_ACTION. The union has \<open>protocol\<close>, \<open>technology\<close> and \<open>len_aid\<close> at 0, aid at 1 (16
  bytes), len_data at 17 and data at 18 (40 bytes). In the list of TLVs the position moves by the bytes
  that are copied only: not over a value that is cut, and not over one with another tag.
\<close>

definition no_ee_param :: "byte list" where
  "no_ee_param = replicate 58 0"

lemma data_len_less:
  fixes d x :: byte
  assumes "\<not> d \<le> 2"
  shows "unat (d - 2 - min x (d - 2)) < unat d"
proof -
  have "2 < unat d" using assms by (simp add: word_le_nat_alt)
  then have a: "unat (d - 2) = unat d - 2" by (subst unat_sub) (simp_all add: word_le_nat_alt)
  have "unat (d - 2 - min x (d - 2)) = unat (d - 2) - unat (min x (d - 2))" by (rule unat_sub) simp
  then show ?thesis using a \<open>2 < unat d\<close> by simp
qed

function ee_app_init :: "byte list \<Rightarrow> nat \<Rightarrow> byte \<Rightarrow> byte list \<Rightarrow> byte list option" where
  "ee_app_init m p data_len u =
     (if data_len \<le> 2 then Some u
      else case (rd m p, rd m (p + 1)) of
        (Some tag, Some ulen) \<Rightarrow>
          let ulen = min ulen (data_len - 2) in
          if tag = 0xC0 then
            let n = min ulen 16 in
            (case rd_bytes m (p + 2) (unat n) of None \<Rightarrow> None
             | Some bs \<Rightarrow> ee_app_init m (p + 2 + unat n) (data_len - 2 - ulen) (set_at 1 bs (set_at 0 [n] u)))
          else if tag = 0xC3 then
            let n = min ulen 40 in
            (case rd_bytes m (p + 2) (unat n) of None \<Rightarrow> None
             | Some bs \<Rightarrow> ee_app_init m (p + 2 + unat n) (data_len - 2 - ulen) (set_at 18 bs (set_at 17 [n] u)))
          else ee_app_init m (p + 2) (data_len - 2 - ulen) u
      | _ \<Rightarrow> None)"
  by pat_completeness auto

termination
  by (relation "measure (\<lambda>(m, p, data_len, u). unat data_len)") (auto dest: data_len_less)

definition decode_ee_action :: "byte list \<Rightarrow> nat \<Rightarrow> byte \<Rightarrow> (byte \<times> byte \<times> byte list) option" where
  "decode_ee_action m p plen = do {
     ee \<leftarrow> rd m p; trigger \<leftarrow> rd m (p + 1); data_len \<leftarrow> rd m (p + 2);
     let p = p + 3;
     let data_len = min data_len (if 3 \<le> plen then plen - 3 else plen);
     u \<leftarrow> (if trigger = 0x00 then do {
            let n = min data_len 16;
            aid \<leftarrow> rd_bytes m p (unat n);
            Some (set_at 1 aid (set_at 0 [n] no_ee_param)) }
          else if trigger = 0x01 \<or> trigger = 0x02 then do { b \<leftarrow> rd m p; Some (set_at 0 [b] no_ee_param) }
          else if trigger = 0x10 then ee_app_init m p data_len no_ee_param
          else Some no_ee_param);
     Some (ee, trigger, u) }"

text \<open>
  The entries of RF_NFCEE_DISCOVERY_REQ: \<open>Some None\<close> when one of them has a bad length, which ends the
  handling. The array has room for six.
\<close>

definition NFC_MAX_EE_DISC_ENTRIES :: nat where "NFC_MAX_EE_DISC_ENTRIES = 6"

primrec ee_discover_loop ::
    "nat \<Rightarrow> nat \<Rightarrow> byte list \<Rightarrow> nat \<Rightarrow> nat \<Rightarrow> (byte \<times> byte \<times> byte \<times> byte) list \<Rightarrow> (byte \<times> byte \<times> byte \<times> byte) list option option" where
  "ee_discover_loop 0 j m p plen es = Some (Some es)"
| "ee_discover_loop (Suc n) j m p plen es =
     (if plen < 5 then Some (Some es)
      else if NFC_MAX_EE_DISC_ENTRIES \<le> j then None
      else do {
        t \<leftarrow> rd m p; l \<leftarrow> rd m (p + 1);
        if l \<noteq> 3 then Some None
        else do {
          ee \<leftarrow> rd m (p + 2); tech \<leftarrow> rd m (p + 3); proto \<leftarrow> rd m (p + 4);
          ee_discover_loop n (Suc j) m (p + 5) (plen - 5) (es @ [(t, ee, tech, proto)]) } })"

definition decode_ee_discover_req :: "byte list \<Rightarrow> nat \<Rightarrow> byte \<Rightarrow> (byte \<times> (byte \<times> byte \<times> byte \<times> byte) list) option option" where
  "decode_ee_discover_req m p plen = do {
     num \<leftarrow> rd m p;
     es \<leftarrow> ee_discover_loop (unat num) 0 m (p + 1) (unat plen - 1) [];
     Some (map_option (Pair num) es) }"

text \<open>The parameter identifiers of a rejected SET_CONFIG, at most 125.\<close>

definition decode_set_config :: "byte list \<Rightarrow> nat \<Rightarrow> (byte \<times> byte list) option" where
  "decode_set_config m p = do {
     status \<leftarrow> rd m p;
     if status = 0 then Some (status, [])
     else do {
       n \<leftarrow> rd m (p + 1);
       ids \<leftarrow> rd_bytes m (p + 2) (unat n);
       ids \<leftarrow> fits 125 ids;
       Some (status, ids) } }"

end
