(* ===== verification/Nci_Model.thy ===== *)
theory Nci_Model
  imports Nci_Params "HOL-Library.Stream"
begin

text \<open>
  The control block of the NFC core, \<open>src/libnfc-nci/nfc/int/nfc_int.h\<close>, and the control blocks of the
  logical connections to the NFC controller (NFCC), \<open>nfc/nfc/nfc_utils.c\<close>.

  A pointer to a connection control block is its index in the array \<open>conn_cb\<close>; the table \<open>conn_id_map\<close>
  is the array \<open>nfc_cb.conn_id\<close> of handles. A callback pointer is an optional number that tells the
  functions apart. The environment \<open>nfc_env\<close> holds the code the core calls: \<open>app\<close> answers every call
  of a callback of the upper layers and may change the control block, as a callback that calls back
  into the core does; \<open>prediscover\<close> is the answer of the HAL function of that name, \<open>p2p_prio\<close> the
  function \<open>nfa_dm_p2p_prio_logic\<close> of the device manager, \<open>t3t_poll\<close> the function
  \<open>rw_t3t_handle_nci_poll_ntf\<close> of the type 3 tags, \<open>kovio_poll\<close> the configured discovery type of Kovio
  tags and \<open>chip_pn547\<close> the answer of the HAL about the chip. What the core gives to the HAL is collected
  in \<open>hal_out\<close>; the environment \<open>quiet_nfc\<close>, whose functions return without calling back, collects the
  calls in \<open>app_log\<close>. The answers of the allocations are the stream \<open>buffers\<close>, one element per call.

  The record \<open>nfc_cb\<close> also has the file-level variables of the core and, because the core writes
  them itself, \<open>disc_state\<close> and \<open>disc_flags\<close> of the device manager, the flags of the card emulation, whether the
  HCI waits for a response (\<open>hci_wait_rsp\<close>) and the number of its timeouts that were posted. Timers are
  modelled by whether they run. Traces are left out, and so is the release of buffers, which \<open>Gki_*\<close> treats.
\<close>

section \<open>Constants\<close>

definition NCI_MAX_CONN_CBS :: nat where "NCI_MAX_CONN_CBS = 4"
definition NFC_MAX_CONN_ID :: nat where "NFC_MAX_CONN_ID = 15"
definition NCI_MSG_HDR_SIZE :: nat where "NCI_MSG_HDR_SIZE = 3"
definition NFC_NCI_POOL_BUF_SIZE :: u16 where "NFC_NCI_POOL_BUF_SIZE = 660"
definition GKI_MAX_BUF_SIZE :: u16 where "GKI_MAX_BUF_SIZE = 0xFFB0"
definition NFC_RECEIVE_MSGS_OFFSET :: nat where "NFC_RECEIVE_MSGS_OFFSET = 10"

abbreviation (input) NFC_RF_CONN_ID :: byte where "NFC_RF_CONN_ID \<equiv> 0"
abbreviation (input) NFC_PEND_CONN_ID :: byte where "NFC_PEND_CONN_ID \<equiv> 0xFE"
abbreviation (input) NFC_ILLEGAL_CONN_ID :: byte where "NFC_ILLEGAL_CONN_ID \<equiv> 0xFF"
abbreviation (input) NFC_CONN_NO_FC :: byte where "NFC_CONN_NO_FC \<equiv> 0xFF"
abbreviation (input) NCI_CID_MASK :: byte where "NCI_CID_MASK \<equiv> 0x0F"
abbreviation (input) NCI_MAX_CMD_WINDOW :: byte where "NCI_MAX_CMD_WINDOW \<equiv> 1"
abbreviation (input) NFC_TEST_ID :: byte where "NFC_TEST_ID \<equiv> 0xFE"

abbreviation (input) NFC_STATUS_OK :: byte where "NFC_STATUS_OK \<equiv> 0"
abbreviation (input) NFC_STATUS_FAILED :: byte where "NFC_STATUS_FAILED \<equiv> 3"
abbreviation (input) NFC_STATUS_NOT_INITIALIZED :: byte where "NFC_STATUS_NOT_INITIALIZED \<equiv> 4"
abbreviation (input) NFC_STATUS_INVALID_PARAM :: byte where "NFC_STATUS_INVALID_PARAM \<equiv> 9"
abbreviation (input) NFC_STATUS_BUFFER_FULL :: byte where "NFC_STATUS_BUFFER_FULL \<equiv> 0xE0"
abbreviation (input) NFC_STATUS_CMD_STARTED :: byte where "NFC_STATUS_CMD_STARTED \<equiv> 0xE3"
abbreviation (input) NFC_STATUS_CONTINUE :: byte where "NFC_STATUS_CONTINUE \<equiv> 0xE5"
abbreviation (input) NFC_STATUS_NO_BUFFERS :: byte where "NFC_STATUS_NO_BUFFERS \<equiv> 0xE9"
abbreviation (input) NFC_STATUS_BUSY :: byte where "NFC_STATUS_BUSY \<equiv> 0xEB"
abbreviation (input) NFC_STATUS_HW_TIMEOUT :: byte where "NFC_STATUS_HW_TIMEOUT \<equiv> 0xEC"

abbreviation (input) NFC_DEACTIVATE_TYPE_IDLE :: byte where "NFC_DEACTIVATE_TYPE_IDLE \<equiv> 0"
abbreviation (input) NFC_DEACTIVATE_TYPE_DISCOVERY :: byte where "NFC_DEACTIVATE_TYPE_DISCOVERY \<equiv> 3"

abbreviation (input) NCI_PROTOCOL_UNKNOWN :: byte where "NCI_PROTOCOL_UNKNOWN \<equiv> 0"
abbreviation (input) NCI_PROTOCOL_T1T :: byte where "NCI_PROTOCOL_T1T \<equiv> 1"
abbreviation (input) NCI_PROTOCOL_T2T :: byte where "NCI_PROTOCOL_T2T \<equiv> 2"
abbreviation (input) NCI_PROTOCOL_T3T :: byte where "NCI_PROTOCOL_T3T \<equiv> 3"
abbreviation (input) NCI_PROTOCOL_NFC_DEP :: byte where "NCI_PROTOCOL_NFC_DEP \<equiv> 5"
abbreviation (input) NCI_INTERFACE_FIRST_VS :: byte where "NCI_INTERFACE_FIRST_VS \<equiv> 0x80"

abbreviation (input) NFC_FL_DEACTIVATING :: u16 where "NFC_FL_DEACTIVATING \<equiv> 0x0001"
abbreviation (input) NFC_FL_RESTARTING :: u16 where "NFC_FL_RESTARTING \<equiv> 0x0002"
abbreviation (input) NFC_FL_POWER_OFF_SLEEP :: u16 where "NFC_FL_POWER_OFF_SLEEP \<equiv> 0x0004"
abbreviation (input) NFC_FL_POWER_CYCLE_NFCC :: u16 where "NFC_FL_POWER_CYCLE_NFCC \<equiv> 0x0008"
abbreviation (input) NFC_FL_CONTROL_REQUESTED :: u16 where "NFC_FL_CONTROL_REQUESTED \<equiv> 0x0010"
abbreviation (input) NFC_FL_CONTROL_GRANTED :: u16 where "NFC_FL_CONTROL_GRANTED \<equiv> 0x0020"
abbreviation (input) NFC_FL_DISCOVER_PENDING :: u16 where "NFC_FL_DISCOVER_PENDING \<equiv> 0x0040"
abbreviation (input) NFC_FL_HAL_REQUESTED :: u16 where "NFC_FL_HAL_REQUESTED \<equiv> 0x0080"

abbreviation (input) NFC_RAS_FRAGMENTED :: u16 where "NFC_RAS_FRAGMENTED \<equiv> 0x01"
abbreviation (input) NFC_RAS_TOO_BIG :: u16 where "NFC_RAS_TOO_BIG \<equiv> 0x08"
abbreviation (input) NFC_WAIT_RSP_VSC :: u16 where "NFC_WAIT_RSP_VSC \<equiv> 0x01"
abbreviation (input) NFC_WAIT_RSP_NXP :: u16 where "NFC_WAIT_RSP_NXP \<equiv> 0x02"

lemmas nci_sizes = NCI_MAX_CONN_CBS_def NFC_MAX_CONN_ID_def NCI_MSG_HDR_SIZE_def NFC_NCI_POOL_BUF_SIZE_def
  GKI_MAX_BUF_SIZE_def NFC_RECEIVE_MSGS_OFFSET_def NCI_MSG_OFFSET_SIZE_def NCI_DATA_HDR_SIZE_def BT_HDR_SIZE_def

section \<open>Control blocks\<close>

datatype nfc_state =
    NFC_STATE_NONE
  | NFC_STATE_W4_HAL_OPEN
  | NFC_STATE_CORE_INIT
  | NFC_STATE_W4_POST_INIT_CPLT
  | NFC_STATE_IDLE
  | NFC_STATE_OPEN
  | NFC_STATE_CLOSING
  | NFC_STATE_W4_HAL_CLOSE
  | NFC_STATE_NFCC_POWER_OFF_SLEEP

datatype conn_evt =
    NFC_CONN_CREATE_CEVT byte byte byte byte byte
  | NFC_CONN_CLOSE_CEVT byte
  | NFC_DEACTIVATE_CEVT byte byte bool
  | NFC_DATA_CEVT byte bt_hdr
  | NFC_ERROR_CEVT byte
  | NFC_DATA_START_CEVT
  | NFC_RF_WTX_CEVT

datatype resp_evt =
    NFC_ENABLE_REVT byte
  | NFC_NFCC_RESTART_REVT byte
  | NFC_DISABLE_REVT
  | NFC_NFCC_POWER_OFF_REVT
  | NFC_SET_CONFIG_REVT byte "byte list"
  | NFC_GET_CONFIG_REVT byte u16 "byte list"
  | NFC_NFCEE_DISCOVER_REVT byte byte
  | NFC_NFCEE_INFO_REVT byte byte "byte list" "(u16 \<times> byte list) list"
  | NFC_NFCEE_MODE_SET_REVT byte byte byte
  | NFC_RF_FIELD_REVT byte
  | NFC_EE_ACTION_REVT byte byte "byte list"
  | NFC_EE_DISCOVER_REQ_REVT byte "(byte \<times> byte \<times> byte \<times> byte) list"
  | NFC_SET_ROUTING_REVT byte
  | NFC_GET_ROUTING_REVT byte byte "byte list"
  | NFC_RF_COMM_PARAMS_UPDATE_REVT byte
  | NFC_GEN_ERROR_REVT byte
  | NFC_NFCC_TIMEOUT_REVT byte
  | NFC_NFCC_TRANSPORT_ERR_REVT

datatype discv_evt =
    NFC_START_DEVT byte
  | NFC_MAP_DEVT byte
  | NFC_RESULT_DEVT byte byte byte "byte list" byte
  | NFC_SELECT_DEVT byte
  | NFC_ACTIVATE_DEVT activation
  | NFC_DEACTIVATE_DEVT byte byte bool

datatype cb_call =
    Conn_cback nat byte conn_evt
  | Resp_cback resp_evt
  | Discv_cback discv_evt
  | Vs_cback nat byte "byte list"

datatype hal_call =
    Hal_write "byte list"
  | Hal_open
  | Hal_close
  | Hal_power_cycle
  | Hal_control_granted
  | Hal_core_initialized "byte list"

text \<open>A message in the mailbox of the NFC task.\<close>

datatype mbox_msg =
    Nci_msg bt_hdr
  | Hal_evt byte byte

record conn_cb =
  p_cback :: "nat option"
  tx_q :: "bt_hdr list"
  rx_q :: "bt_hdr list"
  cb_id :: byte
  act_protocol :: byte
  conn_id :: byte
  buff_size :: byte
  num_buff :: byte
  init_credits :: byte
  act_interface :: byte
  sel_res :: byte

record nfc_cb =
  nfc_flags :: u16
  conn_cb :: "nat \<Rightarrow> conn_cb"
  conn_id_map :: "nat \<Rightarrow> byte"
  p_discv_cback :: bool
  p_resp_cback :: bool
  p_vs_cb :: "nat option list"
  nxpCbflag :: bool
  nci_features :: u32
  max_ce_table :: u16
  max_conn :: byte
  nci_ctrl_size :: byte
  p_disc_maps :: "(byte \<times> byte \<times> byte) list"
  vs_interface :: "byte list"
  nci_interfaces :: u16
  num_disc_maps :: byte
  p_disc_pending :: "byte list option"
  p_last_disc :: "byte list option"
  deactivate_timer :: bool
  deactivate_param :: byte
  nfc_state :: nfc_state
  reassembly :: bool
  last_hdr :: "byte list"
  last_cmd :: "byte list"
  last_cmd_buf :: "byte list option"
  cmd_size :: byte
  p_vsc_cback :: "nat option"
  nci_cmd_xmit_q :: "(bt_hdr \<times> nat option) list"
  nci_wait_rsp_timer :: bool
  nci_wait_data_ntf_timer :: bool
  nci_cmd_window :: byte
  p_nci_init_rsp :: "bt_hdr option"
  cmd_channel_busy :: bool
  data_stored :: bool
  i2c_conn_id :: byte
  i2c_fragmentation :: bool
  sListenActivated :: bool
  core_reset_init_num_buff :: bool
  nfcc_dh_conn_id :: byte
  etsi_reader_in_progress :: bool
  p_cb_stored :: "nat option"
  nfc_fw_version :: "byte \<times> byte \<times> byte"
  retry_cnt :: byte
  transport_ready :: bool
  nfc_mbox :: "mbox_msg list"
  dm_disc_state :: byte
  dm_disc_flags :: u16
  ce_flags :: u32
  hci_wait_rsp :: bool
  hci_timeouts :: nat
  buffers :: "bool stream"
  hal_out :: "hal_call list"
  app_log :: "cb_call list"

record nfc_env =
  app :: "cb_call \<Rightarrow> nfc_cb \<Rightarrow> nfc_cb option"
  prediscover :: "nfc_cb \<Rightarrow> bool"
  p2p_prio :: "byte \<Rightarrow> byte list \<Rightarrow> byte \<Rightarrow> nfc_cb \<Rightarrow> bool \<times> nfc_cb"
  t3t_poll :: "byte \<Rightarrow> byte \<Rightarrow> byte list \<Rightarrow> nfc_cb \<Rightarrow> nfc_cb option"
  kovio_poll :: byte
  chip_pn547 :: bool

definition quiet_nfc :: nfc_env where
  "quiet_nfc = \<lparr>app = (\<lambda>c s. Some (s\<lparr>app_log := app_log s @ [c]\<rparr>)),
     prediscover = (\<lambda>_. False), p2p_prio = (\<lambda>_ _ _ s. (True, s)), t3t_poll = (\<lambda>_ _ _ s. Some s),
     kovio_poll = 0x77, chip_pn547 = False\<rparr>"

definition upd_conn :: "nat \<Rightarrow> (conn_cb \<Rightarrow> conn_cb) \<Rightarrow> nfc_cb \<Rightarrow> nfc_cb" where
  "upd_conn i f s = s\<lparr>conn_cb := (conn_cb s)(i := f (conn_cb s i))\<rparr>"

lemma upd_conn_simps [simp]:
  "conn_cb (upd_conn i f s) j = (if j = i then f (conn_cb s i) else conn_cb s j)"
  "nfc_state (upd_conn i f s) = nfc_state s" "i2c_fragmentation (upd_conn i f s) = i2c_fragmentation s"
  "core_reset_init_num_buff (upd_conn i f s) = core_reset_init_num_buff s"
  "buffers (upd_conn i f s) = buffers s" "hal_out (upd_conn i f s) = hal_out s"
  "app_log (upd_conn i f s) = app_log s" "reassembly (upd_conn i f s) = reassembly s"
  "conn_id_map (upd_conn i f s) = conn_id_map s"
  by (simp_all add: upd_conn_def)

definition has_fl :: "u16 \<Rightarrow> nfc_cb \<Rightarrow> bool" where
  "has_fl f s \<longleftrightarrow> nfc_flags s AND f \<noteq> 0"

definition set_fl :: "u16 \<Rightarrow> nfc_cb \<Rightarrow> nfc_cb" where
  "set_fl f s = s\<lparr>nfc_flags := nfc_flags s OR f\<rparr>"

definition clear_fl :: "u16 \<Rightarrow> nfc_cb \<Rightarrow> nfc_cb" where
  "clear_fl f s = s\<lparr>nfc_flags := nfc_flags s AND NOT f\<rparr>"

definition nfc_set_state :: "nfc_state \<Rightarrow> nfc_cb \<Rightarrow> nfc_cb" where
  "nfc_set_state st s = s\<lparr>nfc_state := st\<rparr>"

text \<open>The allocation of a buffer, and the HAL call that writes a packet and frees its buffer.\<close>

definition take_buffer :: "nfc_cb \<Rightarrow> bool \<times> nfc_cb" where
  "take_buffer s = (shd (buffers s), s\<lparr>buffers := stl (buffers s)\<rparr>)"

definition hal :: "hal_call \<Rightarrow> nfc_cb \<Rightarrow> nfc_cb" where
  "hal c s = s\<lparr>hal_out := hal_out s @ [c]\<rparr>"

section \<open>Logical connections\<close>

definition first_conn :: "(conn_cb \<Rightarrow> bool) \<Rightarrow> nat \<Rightarrow> nfc_cb \<Rightarrow> nat option" where
  "first_conn P n s = List.find (\<lambda>i. P (conn_cb s i)) [0..<n]"

definition nfc_alloc_conn_cb :: "nat option \<Rightarrow> nfc_cb \<Rightarrow> nat option \<times> nfc_cb" where
  "nfc_alloc_conn_cb cback s =
     (case first_conn (\<lambda>c. conn_id c = NFC_ILLEGAL_CONN_ID) (min NCI_MAX_CONN_CBS (unat (max_conn s))) s of
        None \<Rightarrow> (None, s)
      | Some i \<Rightarrow> (Some i, upd_conn i (\<lambda>c. c\<lparr>conn_id := NFC_PEND_CONN_ID, p_cback := cback\<rparr>) s))"

text \<open>A write to the table of handles, undefined behind its 16 entries.\<close>

definition set_handle :: "byte \<Rightarrow> byte \<Rightarrow> nfc_cb \<Rightarrow> nfc_cb option" where
  "set_handle cid h s =
     (if unat cid \<le> NFC_MAX_CONN_ID then Some (s\<lparr>conn_id_map := (conn_id_map s)(unat cid := h)\<rparr>) else None)"

definition nfc_set_conn_id :: "nat \<Rightarrow> byte \<Rightarrow> nfc_cb \<Rightarrow> nfc_cb option" where
  "nfc_set_conn_id i cid s =
     set_handle cid (of_nat (i + 1)) (upd_conn i (\<lambda>c. c\<lparr>conn_id := cid\<rparr>) s)"

definition nfc_find_conn_cb_by_handle :: "byte \<Rightarrow> nfc_cb \<Rightarrow> nat option" where
  "nfc_find_conn_cb_by_handle x s = first_conn (\<lambda>c. cb_id c = x) NCI_MAX_CONN_CBS s"

definition nfc_find_conn_cb_by_conn_id :: "byte \<Rightarrow> nfc_cb \<Rightarrow> nat option" where
  "nfc_find_conn_cb_by_conn_id cid s =
     (if cid = NFC_PEND_CONN_ID then first_conn (\<lambda>c. conn_id c = NFC_PEND_CONN_ID) NCI_MAX_CONN_CBS s
      else let k = unat (cid AND NCI_CID_MASK) in
        if k < NFC_MAX_CONN_ID \<and> 0 < conn_id_map s k then Some (unat (conn_id_map s k) - 1) else None)"

definition nfc_free_conn_cb :: "nat \<Rightarrow> nfc_cb \<Rightarrow> nfc_cb option" where
  "nfc_free_conn_cb i s = do {
     let s = upd_conn i (\<lambda>c. c\<lparr>rx_q := [], tx_q := []\<rparr>) s;
     s \<leftarrow> set_handle (conn_id (conn_cb s i)) 0 s;
     Some (upd_conn i (\<lambda>c. c\<lparr>p_cback := None, conn_id := NFC_ILLEGAL_CONN_ID\<rparr>) s) }"

text \<open>A call of the callback of a connection, if it has one.\<close>

definition conn_cback :: "nfc_env \<Rightarrow> nat option \<Rightarrow> byte \<Rightarrow> conn_evt \<Rightarrow> nfc_cb \<Rightarrow> nfc_cb option" where
  "conn_cback E cb cid e s = (case cb of None \<Rightarrow> Some s | Some k \<Rightarrow> app E (Conn_cback k cid e) s)"

primrec reset_conns :: "nfc_env \<Rightarrow> nat list \<Rightarrow> nfc_cb \<Rightarrow> nfc_cb option" where
  "reset_conns E [] s = Some s"
| "reset_conns E (i # is) s = do {
     s \<leftarrow> (let c = conn_cb s i in
          if conn_id c \<noteq> NFC_ILLEGAL_CONN_ID then do {
            s \<leftarrow> conn_cback E (p_cback c) (conn_id c)
                 (NFC_DEACTIVATE_CEVT NFC_STATUS_NOT_INITIALIZED NFC_DEACTIVATE_TYPE_IDLE True) s;
            nfc_free_conn_cb i s }
          else Some s);
     reset_conns E is s }"

definition nfc_reset_all_conn_cbs :: "nfc_env \<Rightarrow> nfc_cb \<Rightarrow> nfc_cb option" where
  "nfc_reset_all_conn_cbs E s = reset_conns E [0..<NCI_MAX_CONN_CBS] s"

end
