(* ===== verification/Nci_Cmd.thy ===== *)
theory Nci_Cmd
  imports Nci_Model
begin

text \<open>
  The commands to the NFCC: the queue and window of \<open>nfc/nfc/nfc_ncif.c\<close>, the formatting functions of
  \<open>nfc/nci/nci_hmsgs.c\<close> and the vendor specific commands of \<open>nfc/nfc/nfc_vs.c\<close>. A queued command is
  its buffer with the callback that the structure \<open>tNFC_NCI_VS_MSG\<close> adds.
\<close>

type_synonym cmd = "bt_hdr \<times> nat option"

section \<open>Headers\<close>

abbreviation (input) NCI_MT_DATA :: byte where "NCI_MT_DATA \<equiv> 0"
abbreviation (input) NCI_MT_CMD :: byte where "NCI_MT_CMD \<equiv> 1"
abbreviation (input) NCI_MT_RSP :: byte where "NCI_MT_RSP \<equiv> 2"
abbreviation (input) NCI_MT_NTF :: byte where "NCI_MT_NTF \<equiv> 3"
abbreviation (input) NCI_GID_CORE :: byte where "NCI_GID_CORE \<equiv> 0"
abbreviation (input) NCI_GID_RF_MANAGE :: byte where "NCI_GID_RF_MANAGE \<equiv> 1"
abbreviation (input) NCI_GID_EE_MANAGE :: byte where "NCI_GID_EE_MANAGE \<equiv> 2"
abbreviation (input) NCI_GID_PROP :: byte where "NCI_GID_PROP \<equiv> 0x0F"

definition hdr_mt :: "byte \<Rightarrow> byte" where "hdr_mt b = drop_bit 5 (b AND 0xE0)"
definition hdr_pbf :: "byte \<Rightarrow> byte" where "hdr_pbf b = drop_bit 4 (b AND 0x10)"
definition hdr_gid :: "byte \<Rightarrow> byte" where "hdr_gid b = b AND 0x0F"
definition hdr_oid :: "byte \<Rightarrow> byte" where "hdr_oid b = b AND 0x3F"

definition cmd_bytes :: "byte \<Rightarrow> byte \<Rightarrow> byte \<Rightarrow> byte list \<Rightarrow> byte list" where
  "cmd_bytes gid oid len ps = [push_bit 5 NCI_MT_CMD OR gid, oid, len] @ ps"

section \<open>Queue and window\<close>

text \<open>
  The part of \<open>nfc_ncif_check_cmd_queue\<close> that hands one command to the HAL. Header and length are saved,
  and up to two bytes of the payload; the copy for the recovery is taken for four commands, into a
  buffer that is not checked. The bytes behind a short payload, which the code also saves, are
  indeterminate and left out of \<open>last_cmd\<close>.
\<close>

definition saved_cmd :: "byte list \<Rightarrow> bool" where
  "saved_cmd h \<longleftrightarrow> h = [0x20, 0x02] \<or> h = [0x2F, 0x15] \<or> h = [0x21, 0x01] \<or> h = [0x21, 0x06]"

definition transmit_cmd :: "cmd \<Rightarrow> nfc_cb \<Rightarrow> nfc_cb option" where
  "transmit_cmd p s = do {
     let (b, cback) = p;
     h \<leftarrow> rd_bytes (body b) 0 2;
     size \<leftarrow> rd (body b) 2;
     let s = s\<lparr>last_hdr := h, cmd_size := size, last_cmd := take 2 (drop NCI_MSG_HDR_SIZE (body b))\<rparr>;
     s \<leftarrow> (if saved_cmd h then do {
            let (got, s) = take_buffer s;
            copy \<leftarrow> (if got then rd_bytes (body b) 2 (unat size + 1) else None);
            Some (s\<lparr>last_cmd_buf := Some copy\<rparr>) }
          else Some s);
     let s = (if layer_specific b = NFC_WAIT_RSP_VSC then s\<lparr>p_vsc_cback := cback\<rparr>
              else if layer_specific b = NFC_WAIT_RSP_NXP then s\<lparr>p_vsc_cback := cback, nxpCbflag := True\<rparr>
              else s);
     let s = hal (Hal_write (body b)) s;
     let s = (if i2c_fragmentation s then s\<lparr>cmd_channel_busy := True\<rparr> else s);
     Some (s\<lparr>nci_cmd_window := nci_cmd_window s - 1, nci_wait_rsp_timer := True\<rparr>) }"

definition send_next_cmd :: "cmd option \<Rightarrow> nfc_cb \<Rightarrow> nfc_cb option" where
  "send_next_cmd p s =
     (let (p, s) = (case p of
          Some b \<Rightarrow> if nci_cmd_xmit_q s \<noteq> [] \<or> nci_cmd_window s = 0
                    then (None, s\<lparr>nci_cmd_xmit_q := nci_cmd_xmit_q s @ [b]\<rparr>) else (Some b, s)
        | None \<Rightarrow> (None, s)) in
      if 0 < nci_cmd_window s then
        case p of
          Some b \<Rightarrow> transmit_cmd b s
        | None \<Rightarrow> (case nci_cmd_xmit_q s of [] \<Rightarrow> Some s | b # q \<Rightarrow> transmit_cmd b (s\<lparr>nci_cmd_xmit_q := q\<rparr>))
      else Some s)"

text \<open>
  \<open>nfc_ncif_send_cmd\<close> and the formatting functions get the queue function as an argument, because
  \<open>nfc_ncif_check_cmd_queue\<close> calls \<open>nci_snd_discover_cmd\<close> itself. \<open>snd_cmd\<close> is the common shape: a
  buffer of the NCI pool, filled with \<open>bs\<close>, of which \<open>len\<close> bytes are sent; bytes that do not fit the
  buffer are undefined behaviour. Where the length of the message is computed from the one-byte length
  field, a longer payload is cut.
\<close>

definition send_cmd_via :: "(cmd option \<Rightarrow> nfc_cb \<Rightarrow> nfc_cb option) \<Rightarrow> bt_hdr \<Rightarrow> nfc_cb \<Rightarrow> nfc_cb option" where
  "send_cmd_via chk b s = chk (Some (b\<lparr>layer_specific := 0\<rparr>, None)) (s\<lparr>sListenActivated := False\<rparr>)"

definition new_cmd :: "nat \<Rightarrow> byte list \<Rightarrow> bt_hdr option" where
  "new_cmd len bs =
     (if BT_HDR_SIZE + NCI_MSG_OFFSET_SIZE + length bs \<le> unat NFC_NCI_POOL_BUF_SIZE
      then Some \<lparr>bsize = NFC_NCI_POOL_BUF_SIZE, offset = of_nat NCI_MSG_OFFSET_SIZE, layer_specific = 0,
                 body = take len bs\<rparr>
      else None)"

definition snd_cmd_via ::
    "(cmd option \<Rightarrow> nfc_cb \<Rightarrow> nfc_cb option) \<Rightarrow> nat \<Rightarrow> byte list \<Rightarrow> nfc_cb \<Rightarrow> (byte \<times> nfc_cb) option" where
  "snd_cmd_via chk len bs s =
     (let (got, s) = take_buffer s in
      if got then do { b \<leftarrow> new_cmd len bs; s \<leftarrow> send_cmd_via chk b s; Some (NFC_STATUS_OK, s) }
      else Some (NFC_STATUS_FAILED, s))"

definition discover_via ::
    "(cmd option \<Rightarrow> nfc_cb \<Rightarrow> nfc_cb option) \<Rightarrow> byte \<Rightarrow> byte list \<Rightarrow> nfc_cb \<Rightarrow> (byte \<times> nfc_cb) option" where
  "discover_via chk num params s = do {
     ps \<leftarrow> rd_bytes params 0 (2 * unat num);
     let size = (of_nat (1 + 2 * unat num) :: byte);
     snd_cmd_via chk (NCI_MSG_HDR_SIZE + unat size) (cmd_bytes NCI_GID_RF_MANAGE 3 size (num # ps)) s }"

text \<open>
  \<open>nfc_ncif_check_cmd_queue\<close>. Its call of \<open>nci_snd_discover_cmd\<close> comes back to it once, with
  \<open>NFC_FL_CONTROL_REQUESTED\<close> cleared, so that two rounds are always enough (\<open>check_cmd_queue_rounds\<close>
  below).
\<close>

fun check_cmd_queue_rounds :: "nat \<Rightarrow> nfc_env \<Rightarrow> cmd option \<Rightarrow> nfc_cb \<Rightarrow> nfc_cb option" where
  "check_cmd_queue_rounds 0 E p s = None"
| "check_cmd_queue_rounds (Suc n) E p s = do {
     s \<leftarrow> send_next_cmd p s;
     if nci_cmd_window s = NCI_MAX_CMD_WINDOW \<and> has_fl NFC_FL_CONTROL_REQUESTED s then
       let s = clear_fl NFC_FL_CONTROL_REQUESTED s in
       if has_fl NFC_FL_DISCOVER_PENDING s then
         if prediscover E s then Some (set_fl NFC_FL_CONTROL_GRANTED s\<lparr>nci_cmd_window := 0\<rparr>)
         else do {
           let s = clear_fl NFC_FL_DISCOVER_PENDING s;
           ps \<leftarrow> p_disc_pending s;
           num \<leftarrow> rd ps 0;
           (st, s) \<leftarrow> discover_via (check_cmd_queue_rounds n E) num (drop 1 ps) s;
           Some (s\<lparr>p_last_disc := p_disc_pending s, p_disc_pending := None\<rparr>) }
       else if has_fl NFC_FL_HAL_REQUESTED s then
         let s = clear_fl NFC_FL_HAL_REQUESTED s in
         Some (hal Hal_control_granted (set_fl NFC_FL_CONTROL_GRANTED s\<lparr>nci_cmd_window := 0\<rparr>))
       else Some s
     else Some s }"

definition nfc_ncif_check_cmd_queue :: "nfc_env \<Rightarrow> cmd option \<Rightarrow> nfc_cb \<Rightarrow> nfc_cb option" where
  "nfc_ncif_check_cmd_queue E = check_cmd_queue_rounds 2 E"

definition nfc_ncif_send_cmd :: "nfc_env \<Rightarrow> bt_hdr \<Rightarrow> nfc_cb \<Rightarrow> nfc_cb option" where
  "nfc_ncif_send_cmd E = send_cmd_via (nfc_ncif_check_cmd_queue E)"

definition nfc_ncif_update_window :: "nfc_env \<Rightarrow> nfc_cb \<Rightarrow> nfc_cb option" where
  "nfc_ncif_update_window E s =
     (if nci_cmd_window s = NCI_MAX_CMD_WINDOW then Some s
      else nfc_ncif_check_cmd_queue E None
        (s\<lparr>nci_wait_rsp_timer := False, p_vsc_cback := None, nci_cmd_window := nci_cmd_window s + 1\<rparr>))"

definition nfc_ncif_update_data_queue :: "nfc_env \<Rightarrow> nfc_cb \<Rightarrow> nfc_cb option" where
  "nfc_ncif_update_data_queue E s =
     nfc_ncif_check_cmd_queue E None
       (s\<lparr>nci_wait_data_ntf_timer := False, nci_cmd_window := nci_cmd_window s + 1\<rparr>)"

definition nfc_main_flush_cmd_queue :: "nfc_cb \<Rightarrow> nfc_cb" where
  "nfc_main_flush_cmd_queue s =
     s\<lparr>nci_cmd_window := NCI_MAX_CMD_WINDOW, nci_wait_rsp_timer := False, nci_cmd_xmit_q := [],
       last_cmd_buf := None\<rparr>"

section \<open>Commands\<close>

definition snd_cmd :: "nfc_env \<Rightarrow> byte list \<Rightarrow> nfc_cb \<Rightarrow> (byte \<times> nfc_cb) option" where
  "snd_cmd E bs = snd_cmd_via (nfc_ncif_check_cmd_queue E) (length bs) bs"

definition snd_sized :: "nfc_env \<Rightarrow> byte \<Rightarrow> byte list \<Rightarrow> nfc_cb \<Rightarrow> (byte \<times> nfc_cb) option" where
  "snd_sized E sz bs = snd_cmd_via (nfc_ncif_check_cmd_queue E) (NCI_MSG_HDR_SIZE + unat sz) bs"

definition nci_snd_core_reset :: "nfc_env \<Rightarrow> byte \<Rightarrow> nfc_cb \<Rightarrow> (byte \<times> nfc_cb) option" where
  "nci_snd_core_reset E reset_type = snd_cmd E (cmd_bytes NCI_GID_CORE 0 1 [reset_type])"

definition nci_snd_core_init :: "nfc_env \<Rightarrow> nfc_cb \<Rightarrow> (byte \<times> nfc_cb) option" where
  "nci_snd_core_init E = snd_cmd E (cmd_bytes NCI_GID_CORE 1 0 [])"

text \<open>An identifier 0xA0 takes two bytes.\<close>

primrec count_prop :: "nat \<Rightarrow> byte list \<Rightarrow> nat \<Rightarrow> nat option" where
  "count_prop 0 ids p = Some 0"
| "count_prop (Suc n) ids p = do {
     b \<leftarrow> rd ids p;
     if b = 0xA0 then map_option Suc (count_prop n ids (p + 2)) else count_prop n ids (p + 1) }"

definition nci_snd_core_get_config :: "nfc_env \<Rightarrow> byte list \<Rightarrow> byte \<Rightarrow> nfc_cb \<Rightarrow> (byte \<times> nfc_cb) option" where
  "nci_snd_core_get_config E param_ids num_ids s =
     (let (got, s) = take_buffer s in
      if \<not> got then Some (NFC_STATUS_FAILED, s)
      else do {
        props \<leftarrow> count_prop (unat num_ids) param_ids 0;
        let bytes = num_ids - of_nat props + push_bit 1 (of_nat props :: byte);
        ids \<leftarrow> rd_bytes param_ids 0 (unat bytes);
        let bs = cmd_bytes NCI_GID_CORE 3 (bytes + 1) (num_ids # ids);
        b \<leftarrow> new_cmd (length bs) bs;
        s \<leftarrow> nfc_ncif_send_cmd E b s;
        Some (NFC_STATUS_OK, s) })"

text \<open>
  The number of TLVs, counted by \<open>nci_snd_core_set_config\<close> and \<open>nci_snd_parameter_update_cmd\<close>; \<open>None\<close>
  inside is a value that is longer than what is left. One byte left behind the last TLV is not noticed.
\<close>

function count_tlvs :: "byte list \<Rightarrow> nat \<Rightarrow> byte \<Rightarrow> byte \<Rightarrow> byte option option" where
  "count_tlvs m p len num =
     (if len \<le> 1 then Some (Some num)
      else case rd m (p + 1) of
        None \<Rightarrow> None
      | Some ulen \<Rightarrow>
          if ulen \<le> len - 2 then count_tlvs m (p + 2 + unat ulen) (len - 2 - ulen) (num + 1)
          else Some None)"
  by pat_completeness auto

termination
proof (relation "measure (\<lambda>(m, p, len, num). unat len)")
  fix m p len num x2
  assume a: "\<not> len \<le> (1 :: byte)" "rd m (p + 1) = Some x2" "x2 \<le> len - 2"
  have "2 \<le> unat len" using a(1) by (simp add: word_le_nat_alt)
  then have "unat (len - 2) = unat len - 2" by (subst unat_sub) (simp_all add: word_le_nat_alt)
  moreover have "unat (len - 2 - x2) = unat (len - 2) - unat x2" using a(3) by (rule unat_sub)
  ultimately show "((m, p + 2 + unat x2, len - 2 - x2, num + 1), (m, p, len, num))
      \<in> measure (\<lambda>(m, p, len, num). unat len)" using \<open>2 \<le> unat len\<close> by simp
qed simp

definition snd_tlvs :: "nfc_env \<Rightarrow> byte \<Rightarrow> byte \<Rightarrow> byte list \<Rightarrow> byte \<Rightarrow> nfc_cb \<Rightarrow> (byte \<times> nfc_cb) option" where
  "snd_tlvs E gid oid tlvs tlv_size s =
     (let (got, s) = take_buffer s in
      if \<not> got then Some (NFC_STATUS_FAILED, s)
      else do {
        n \<leftarrow> count_tlvs tlvs 0 tlv_size 0;
        case n of
          None \<Rightarrow> Some (NFC_STATUS_FAILED, s)
        | Some num \<Rightarrow> do {
            ps \<leftarrow> rd_bytes tlvs 0 (unat tlv_size);
            let bs = cmd_bytes gid oid (tlv_size + 1) (num # ps);
            b \<leftarrow> new_cmd (length bs) bs;
            s \<leftarrow> nfc_ncif_send_cmd E b s;
            Some (NFC_STATUS_OK, s) } })"

definition nci_snd_core_set_config :: "nfc_env \<Rightarrow> byte list \<Rightarrow> byte \<Rightarrow> nfc_cb \<Rightarrow> (byte \<times> nfc_cb) option" where
  "nci_snd_core_set_config E = snd_tlvs E NCI_GID_CORE 2"

definition nci_snd_parameter_update_cmd :: "nfc_env \<Rightarrow> byte list \<Rightarrow> byte \<Rightarrow> nfc_cb \<Rightarrow> (byte \<times> nfc_cb) option" where
  "nci_snd_parameter_update_cmd E = snd_tlvs E NCI_GID_RF_MANAGE 11"

definition nci_snd_core_conn_create ::
    "nfc_env \<Rightarrow> byte \<Rightarrow> byte \<Rightarrow> byte list \<Rightarrow> nfc_cb \<Rightarrow> (byte \<times> nfc_cb) option" where
  "nci_snd_core_conn_create E dest_type num_tlv tlvs =
     snd_cmd E (cmd_bytes NCI_GID_CORE 4 (2 + of_nat (length tlvs)) (dest_type # num_tlv # tlvs))"

definition nci_snd_core_conn_close :: "nfc_env \<Rightarrow> byte \<Rightarrow> nfc_cb \<Rightarrow> (byte \<times> nfc_cb) option" where
  "nci_snd_core_conn_close E cid = snd_cmd E (cmd_bytes NCI_GID_CORE 5 1 [cid])"

definition nci_snd_nfcee_discover :: "nfc_env \<Rightarrow> byte \<Rightarrow> nfc_cb \<Rightarrow> (byte \<times> nfc_cb) option" where
  "nci_snd_nfcee_discover E act = snd_cmd E (cmd_bytes NCI_GID_EE_MANAGE 0 1 [act])"

definition nci_snd_nfcee_mode_set :: "nfc_env \<Rightarrow> byte \<Rightarrow> byte \<Rightarrow> nfc_cb \<Rightarrow> (byte \<times> nfc_cb) option" where
  "nci_snd_nfcee_mode_set E nfcee mode = snd_cmd E (cmd_bytes NCI_GID_EE_MANAGE 1 2 [nfcee, mode])"

definition nci_snd_discover_cmd ::
    "nfc_env \<Rightarrow> byte \<Rightarrow> byte list option \<Rightarrow> nfc_cb \<Rightarrow> (byte \<times> nfc_cb) option" where
  "nci_snd_discover_cmd E num p_param s =
     (case p_param of None \<Rightarrow> Some (NFC_STATUS_FAILED, s)
      | Some ps \<Rightarrow> discover_via (nfc_ncif_check_cmd_queue E) num ps s)"

definition nci_snd_discover_select_cmd :: "nfc_env \<Rightarrow> byte \<Rightarrow> byte \<Rightarrow> byte \<Rightarrow> nfc_cb \<Rightarrow> (byte \<times> nfc_cb) option" where
  "nci_snd_discover_select_cmd E rf_disc_id protocol rf_interface =
     snd_cmd E (cmd_bytes NCI_GID_RF_MANAGE 4 3 [rf_disc_id, protocol, rf_interface])"

definition nci_snd_deactivate_cmd :: "nfc_env \<Rightarrow> byte \<Rightarrow> nfc_cb \<Rightarrow> (byte \<times> nfc_cb) option" where
  "nci_snd_deactivate_cmd E de_act_type s =
     snd_cmd E (cmd_bytes NCI_GID_RF_MANAGE 6 1 [de_act_type]) (s\<lparr>reassembly := True\<rparr>)"

definition nci_snd_discover_map_cmd :: "nfc_env \<Rightarrow> byte \<Rightarrow> byte list \<Rightarrow> nfc_cb \<Rightarrow> (byte \<times> nfc_cb) option" where
  "nci_snd_discover_map_cmd E num maps s = do {
     ms \<leftarrow> rd_bytes maps 0 (3 * unat num);
     let size = (of_nat (1 + 3 * unat num) :: byte);
     snd_sized E size (cmd_bytes NCI_GID_RF_MANAGE 0 size (num # ms)) s }"

definition nci_snd_t3t_polling :: "nfc_env \<Rightarrow> u16 \<Rightarrow> byte \<Rightarrow> byte \<Rightarrow> nfc_cb \<Rightarrow> (byte \<times> nfc_cb) option" where
  "nci_snd_t3t_polling E system_code rc tsn =
     snd_cmd E (cmd_bytes NCI_GID_RF_MANAGE 8 4 [ucast (drop_bit 8 system_code), ucast system_code, rc, tsn])"

definition nci_snd_set_routing_cmd ::
    "nfc_env \<Rightarrow> bool \<Rightarrow> byte \<Rightarrow> byte \<Rightarrow> byte list \<Rightarrow> nfc_cb \<Rightarrow> (byte \<times> nfc_cb) option" where
  "nci_snd_set_routing_cmd E mre num_tlv tlv_size tlvs s =
     (let size = tlv_size + 2; m = (if mre then 1 else 0) in
      if size = 2 then snd_cmd E (cmd_bytes NCI_GID_RF_MANAGE 1 2 [m, 0]) s
      else do {
        ps \<leftarrow> rd_bytes tlvs 0 (unat tlv_size);
        snd_sized E size (cmd_bytes NCI_GID_RF_MANAGE 1 size (m # num_tlv # ps)) s })"

definition nci_snd_get_routing_cmd :: "nfc_env \<Rightarrow> nfc_cb \<Rightarrow> (byte \<times> nfc_cb) option" where
  "nci_snd_get_routing_cmd E = snd_cmd E (cmd_bytes NCI_GID_RF_MANAGE 2 0 [])"

section \<open>Vendor specific commands\<close>

definition NCI_VSC_MSG_HDR_SIZE :: nat where "NCI_VSC_MSG_HDR_SIZE = 12"
definition NCI_MAX_VSC_SIZE :: nat where "NCI_MAX_VSC_SIZE = 0xFF"
definition NFC_NUM_VS_CBACKS :: nat where "NFC_NUM_VS_CBACKS = 3"

definition NFC_RegVSCback :: "bool \<Rightarrow> nat option \<Rightarrow> nfc_cb \<Rightarrow> byte \<times> nfc_cb" where
  "NFC_RegVSCback is_register cback s =
     (case List.find (\<lambda>i. p_vs_cb s ! i = (if is_register then None else cback)) [0..<NFC_NUM_VS_CBACKS] of
        None \<Rightarrow> (NFC_STATUS_FAILED, s)
      | Some i \<Rightarrow> (NFC_STATUS_OK, s\<lparr>p_vs_cb := (p_vs_cb s)[i := (if is_register then cback else None)]\<rparr>))"

text \<open>
  The buffer of \<open>NFC_SendVsCommand\<close> may be missing. The store of the callback behind the \<open>BT_HDR\<close>, in
  the bytes before \<open>offset\<close>, is the second component of the queued command.
\<close>

definition NFC_SendVsCommand ::
    "nfc_env \<Rightarrow> byte \<Rightarrow> bt_hdr option \<Rightarrow> nat option \<Rightarrow> nfc_cb \<Rightarrow> (byte \<times> nfc_cb) option" where
  "NFC_SendVsCommand E oid p_data cback s =
     (let (p, s) = (case p_data of
          Some b \<Rightarrow> (Some b, s)
        | None \<Rightarrow> (let (got, s) = take_buffer s in
            (if got then Some \<lparr>bsize = NFC_NCI_POOL_BUF_SIZE, offset = of_nat NCI_VSC_MSG_HDR_SIZE, layer_specific = 0, body = []\<rparr>
             else None, s))) in
      case p of
        None \<Rightarrow> Some (NFC_STATUS_INVALID_PARAM, s)
      | Some b \<Rightarrow>
          if unat (offset b) < NCI_VSC_MSG_HDR_SIZE \<or> NCI_MAX_VSC_SIZE < unat (blen b)
          then Some (NFC_STATUS_INVALID_PARAM, s)
          else do {
            s \<leftarrow> nfc_ncif_check_cmd_queue E
                 (Some (push_hdr (cmd_bytes NCI_GID_PROP oid (ucast (blen b)) []) (b\<lparr>layer_specific := NFC_WAIT_RSP_VSC\<rparr>), cback)) s;
            Some (NFC_STATUS_OK, s) })"

definition NFC_SendNxpNciCommand ::
    "nfc_env \<Rightarrow> bt_hdr option \<Rightarrow> nat option \<Rightarrow> nfc_cb \<Rightarrow> (byte \<times> nfc_cb) option" where
  "NFC_SendNxpNciCommand E p_data cback s =
     (case p_data of
        None \<Rightarrow> Some (NFC_STATUS_INVALID_PARAM, s)
      | Some b \<Rightarrow>
          if NCI_MAX_VSC_SIZE < unat (blen b) then Some (NFC_STATUS_INVALID_PARAM, s)
          else do {
            s \<leftarrow> nfc_ncif_check_cmd_queue E (Some (b\<lparr>layer_specific := NFC_WAIT_RSP_NXP\<rparr>, cback)) s;
            Some (NFC_STATUS_OK, s) })"

section \<open>Two rounds are enough\<close>

lemma flag_simps [simp]:
  "nci_cmd_window (set_fl f s) = nci_cmd_window s" "nci_cmd_window (clear_fl f s) = nci_cmd_window s"
  "nci_cmd_window (hal c s) = nci_cmd_window s"
  "nfc_flags (hal c s) = nfc_flags s"
  "nci_cmd_xmit_q (set_fl f s) = nci_cmd_xmit_q s" "nci_cmd_xmit_q (clear_fl f s) = nci_cmd_xmit_q s"
  "nci_cmd_xmit_q (hal c s) = nci_cmd_xmit_q s"
  by (simp_all add: set_fl_def clear_fl_def hal_def)

lemma transmit_flags: "transmit_cmd p s = Some s' \<Longrightarrow> nfc_flags s' = nfc_flags s"
  by (auto simp: transmit_cmd_def Let_def take_buffer_def hal_def split: prod.splits bind_split_asm if_splits)

lemma send_next_flags: "send_next_cmd p s = Some s' \<Longrightarrow> nfc_flags s' = nfc_flags s"
  by (auto simp: send_next_cmd_def Let_def dest!: transmit_flags split: option.splits if_splits list.splits)

lemma snd_cmd_via_None:
  "snd_cmd_via chk n bs s = None \<Longrightarrow> take_buffer s = (True, s') \<Longrightarrow> new_cmd n bs = Some b \<Longrightarrow>
     chk (Some (b\<lparr>layer_specific := 0\<rparr>, None)) (s'\<lparr>sListenActivated := False\<rparr>) = None"
  by (auto simp: snd_cmd_via_def send_cmd_via_def split: bind_split_asm)

lemma has_fl_simps [simp]:
  "has_fl f (s\<lparr>sListenActivated := x\<rparr>) = has_fl f s" "has_fl f (s\<lparr>buffers := b\<rparr>) = has_fl f s"
  "has_fl f (s\<lparr>nci_cmd_window := w\<rparr>) = has_fl f s"
  by (simp_all add: has_fl_def)

lemma has_fl_clear [simp]: "\<not> has_fl f (clear_fl f s)"
  by (simp add: has_fl_def clear_fl_def and.assoc)

lemma has_fl_clear_other [simp]:
  "f AND g = 0 \<Longrightarrow> has_fl f (clear_fl g s) = has_fl f s"
proof -
  assume a: "f AND g = 0"
  have "NOT g AND f = f"
  proof (rule bit_word_eqI)
    fix n
    have "\<not> bit (f AND g) n" using a by simp
    then show "bit (NOT g AND f) n = bit f n" if "n < LENGTH(16)" using that by (auto simp: bit_and_iff bit_not_iff)
  qed
  then have "(nfc_flags s AND NOT g) AND f = nfc_flags s AND f" by (simp only: and.assoc)
  then show ?thesis unfolding has_fl_def clear_fl_def by simp
qed

text \<open>Without a request for control a call is one step of the queue, for any number of rounds.\<close>

lemma check_no_request:
  assumes "\<not> has_fl NFC_FL_CONTROL_REQUESTED s"
  shows "check_cmd_queue_rounds (Suc n) E p s = send_next_cmd p s"
proof (cases "send_next_cmd p s")
  case (Some s')
  then have "\<not> has_fl NFC_FL_CONTROL_REQUESTED s'" using assms send_next_flags by (simp add: has_fl_def)
  then show ?thesis using Some by simp
qed simp

lemma check_rounds_enough:
  "check_cmd_queue_rounds (Suc (Suc n)) E p s = nfc_ncif_check_cmd_queue E p s"
proof -
  have e: "snd_cmd_via (check_cmd_queue_rounds (Suc k) E) len bs s = snd_cmd_via send_next_cmd len bs s"
    if "\<not> has_fl NFC_FL_CONTROL_REQUESTED s" for k len bs s
    using that by (simp add: snd_cmd_via_def send_cmd_via_def take_buffer_def check_no_request del: check_cmd_queue_rounds.simps)
  have "discover_via (check_cmd_queue_rounds (Suc k) E) num ps (clear_fl NFC_FL_DISCOVER_PENDING (clear_fl NFC_FL_CONTROL_REQUESTED s))
      = discover_via send_next_cmd num ps (clear_fl NFC_FL_DISCOVER_PENDING (clear_fl NFC_FL_CONTROL_REQUESTED s))"
    for k num ps s
    by (simp add: discover_via_def e del: check_cmd_queue_rounds.simps)
  then show ?thesis
    unfolding nfc_ncif_check_cmd_queue_def numeral_2_eq_2
    by (subst (1 2) check_cmd_queue_rounds.simps(2)) (simp add: Let_def cong: if_cong del: check_cmd_queue_rounds.simps)
qed

end
