(* ===== verification/Nci_Data.thy ===== *)
theory Nci_Data
  imports Nci_Cmd
begin

text \<open>
  The data packets of the logical connections: transmission in fragments as far as the credits go and
  reassembly, \<open>nfc/nfc/nfc_ncif.c\<close>, with the calls of \<open>nfc/nfc/nfc_main.c\<close> on connections. The two
  loops that are not bounded by an argument are partial functions: the transmission loop does not end
  for some states (see \<open>Nci_Send\<close>), the loop over the received buffers calls the application. Fields
  of a message that lie behind the received bytes are \<open>None\<close>.
\<close>

section \<open>Transmission\<close>

definition data_packet :: "bool \<Rightarrow> byte \<Rightarrow> byte list \<Rightarrow> byte list" where
  "data_packet pbf cid bs = [push_bit 4 (if pbf then 1 else 0) OR cid, 0, of_nat (length bs)] @ bs"

definition post_packet :: "nat \<Rightarrow> bool \<Rightarrow> byte list \<Rightarrow> nfc_cb \<Rightarrow> nfc_cb" where
  "post_packet i pbf bs s =
     (let c = conn_cb s i;
          s = upd_conn i (\<lambda>c. c\<lparr>num_buff := if num_buff c \<noteq> NFC_CONN_NO_FC then num_buff c - 1 else num_buff c\<rparr>) s;
          s = hal (Hal_write (data_packet pbf (conn_id c) bs)) s in
      if i2c_fragmentation s then s\<lparr>nci_wait_data_ntf_timer := True, nci_cmd_window := nci_cmd_window s - 1\<rparr> else s)"

text \<open>
  The loop of \<open>nfc_ncif_send_data\<close>. Its variable \<open>pbf\<close> is 1 before the loop; a packet that holds the
  rest of a message sets it to 0, and nothing sets it back: a fragment takes the value it finds.
\<close>

partial_function (option) send_loop :: "nat \<Rightarrow> bool \<Rightarrow> nfc_cb \<Rightarrow> (byte \<times> nfc_cb) option" where
  "send_loop i pbf s =
     (case tx_q (conn_cb s i) of
        [] \<Rightarrow> Some (NFC_STATUS_OK, s)
      | d # q \<Rightarrow>
          if num_buff (conn_cb s i) = 0 then Some (NFC_STATUS_OK, s)
          else if blen d \<le> ucast (buff_size (conn_cb s i)) then
            if unat (offset d) < NCI_DATA_HDR_SIZE then None
            else send_loop i False (post_packet i False (body d) (upd_conn i (\<lambda>c. c\<lparr>tx_q := q\<rparr>) s))
          else if \<not> fst (take_buffer s) then Some (NFC_STATUS_BUFFER_FULL, snd (take_buffer s))
          else let n = unat (buff_size (conn_cb s i)) in
            send_loop i pbf (post_packet i pbf (take n (body d))
              (upd_conn i (\<lambda>c. c\<lparr>tx_q := d\<lparr>offset := offset d + of_nat n, body := drop n (body d)\<rparr> # q\<rparr>)
                 (snd (take_buffer s)))))"

definition nfc_ncif_send_data ::
    "nfc_env \<Rightarrow> nat \<Rightarrow> bt_hdr option \<Rightarrow> nfc_cb \<Rightarrow> (byte \<times> nfc_cb) option" where
  "nfc_ncif_send_data E i p_data s =
     (let s = (if core_reset_init_num_buff s
               then upd_conn i (\<lambda>c. c\<lparr>num_buff := num_buff c + 1\<rparr>) s\<lparr>core_reset_init_num_buff := False\<rparr> else s);
          enqueue = (\<lambda>s. case p_data of None \<Rightarrow> s | Some b \<Rightarrow> upd_conn i (\<lambda>c. c\<lparr>tx_q := tx_q c @ [b]\<rparr>) s);
          c = conn_cb s i in
      if i2c_fragmentation s \<and> cmd_channel_busy s \<and> p_data \<noteq> None
      then Some (NFC_STATUS_OK, enqueue (s\<lparr>i2c_conn_id := conn_id c, data_stored := True\<rparr>))
      else if cb_id c = NFC_RF_CONN_ID \<and> nfc_state s \<noteq> NFC_STATE_OPEN then
        if nfc_state s = NFC_STATE_CLOSING \<and> p_data = None \<and> has_fl NFC_FL_DEACTIVATING s
           \<and> init_credits c = num_buff c
        then do {
          (st, s) \<leftarrow> nci_snd_deactivate_cmd E (deactivate_param s) (clear_fl NFC_FL_DEACTIVATING s\<lparr>deactivate_timer := False\<rparr>);
          Some (NFC_STATUS_FAILED, s) }
        else Some (NFC_STATUS_FAILED, s)
      else send_loop i True (enqueue s))"

primrec credits_loop :: "nfc_env \<Rightarrow> nat \<Rightarrow> byte list \<Rightarrow> nat \<Rightarrow> nfc_cb \<Rightarrow> nfc_cb option" where
  "credits_loop E 0 m p s = Some s"
| "credits_loop E (Suc n) m p s = do {
     cid \<leftarrow> rd m p;
     s \<leftarrow> (case nfc_find_conn_cb_by_conn_id cid s of
            None \<Rightarrow> Some s
          | Some i \<Rightarrow>
              if num_buff (conn_cb s i) = NFC_CONN_NO_FC then Some s
              else do {
                credit \<leftarrow> rd m (p + 1);
                let s = upd_conn i (\<lambda>c. c\<lparr>num_buff := min (num_buff c + credit) (init_credits c)\<rparr>) s;
                s \<leftarrow> (if i2c_fragmentation s then nfc_ncif_update_data_queue E s else Some s);
                (st, s) \<leftarrow> nfc_ncif_send_data E i None s;
                Some s });
     credits_loop E n m (p + 2) s }"

definition nfc_ncif_proc_credits :: "nfc_env \<Rightarrow> byte list \<Rightarrow> nat \<Rightarrow> nfc_cb \<Rightarrow> nfc_cb option" where
  "nfc_ncif_proc_credits E m p s = do { num \<leftarrow> rd m p; credits_loop E (unat num) m (p + 1) s }"

text \<open>
  A buffer that is not accepted is given to \<open>GKI_freebuf\<close>, which refuses it when it is in the queue
  (\<open>freebuf_exact\<close>).
\<close>

definition NFC_SendData :: "nfc_env \<Rightarrow> byte \<Rightarrow> bt_hdr option \<Rightarrow> nfc_cb \<Rightarrow> (byte \<times> nfc_cb) option" where
  "NFC_SendData E cid p_data s =
     (case (nfc_find_conn_cb_by_conn_id cid s, p_data) of
        (Some i, Some b) \<Rightarrow>
          if NCI_MSG_OFFSET_SIZE + NCI_DATA_HDR_SIZE \<le> unat (offset b) then nfc_ncif_send_data E i (Some b) s
          else Some (NFC_STATUS_FAILED, s)
      | _ \<Rightarrow> Some (NFC_STATUS_FAILED, s))"

definition NFC_FlushData :: "byte \<Rightarrow> nfc_cb \<Rightarrow> byte \<times> nfc_cb" where
  "NFC_FlushData cid s =
     (case nfc_find_conn_cb_by_conn_id cid s of
        None \<Rightarrow> (NFC_STATUS_FAILED, s)
      | Some i \<Rightarrow> (NFC_STATUS_OK, upd_conn i (\<lambda>c. c\<lparr>tx_q := []\<rparr>) s))"

section \<open>Reception\<close>

definition ras_flag :: "u16 \<Rightarrow> bt_hdr \<Rightarrow> bool" where
  "ras_flag f b \<longleftrightarrow> layer_specific b AND f \<noteq> 0"

text \<open>A fragment that waits for the rest of its message.\<close>

definition incomplete :: "nfc_cb \<Rightarrow> nat \<Rightarrow> bt_hdr \<Rightarrow> bool" where
  "incomplete s i b \<longleftrightarrow> ras_flag NFC_RAS_FRAGMENTED b \<and> \<not> ras_flag NFC_RAS_TOO_BIG b
     \<and> (conn_id (conn_cb s i) \<noteq> NFC_RF_CONN_ID \<or> reassembly s)"

text \<open>
  The header comes off; on the RF connection with a T1T, T2T or T3T target the last byte is the status.
  Lengths that would become negative are undefined.
\<close>

definition has_status_byte :: "conn_cb \<Rightarrow> bool" where
  "has_status_byte c \<longleftrightarrow> conn_id c = NFC_RF_CONN_ID
     \<and> NCI_PROTOCOL_T1T \<le> act_protocol c \<and> act_protocol c \<le> NCI_PROTOCOL_T3T
     \<and> \<not> (act_protocol c = NCI_PROTOCOL_T2T \<and> act_interface c = NCI_INTERFACE_FIRST_VS \<and> sel_res c = 1)"

definition data_cevt :: "conn_cb \<Rightarrow> bt_hdr \<Rightarrow> conn_evt option" where
  "data_cevt c b =
     (if length (body b) < NCI_MSG_HDR_SIZE then None
      else let b' = b\<lparr>offset := offset b + of_nat NCI_MSG_HDR_SIZE, body := drop NCI_MSG_HDR_SIZE (body b)\<rparr> in
        if has_status_byte c then
          if body b' = [] then None
          else Some (NFC_DATA_CEVT (last (body b')) (b'\<lparr>body := butlast (body b')\<rparr>))
        else Some (NFC_DATA_CEVT (if layer_specific b \<noteq> 0 then NFC_STATUS_CONTINUE else NFC_STATUS_OK) b'))"

partial_function (option) data_loop :: "nfc_env \<Rightarrow> nat \<Rightarrow> nfc_cb \<Rightarrow> nfc_cb option" where
  "data_loop E i s =
     (case rx_q (conn_cb s i) of
        [] \<Rightarrow> Some s
      | b # q \<Rightarrow>
          if incomplete s i b then Some s
          else do {
            let s = upd_conn i (\<lambda>c. c\<lparr>rx_q := q\<rparr>) s;
            let s = (if layer_specific b = 0 then s\<lparr>reassembly := True\<rparr> else s);
            e \<leftarrow> data_cevt (conn_cb s i) b;
            k \<leftarrow> p_cback (conn_cb s i);
            s \<leftarrow> app E (Conn_cback k (conn_id (conn_cb s i)) e) s;
            data_loop E i s })"

definition nfc_data_event :: "nfc_env \<Rightarrow> nat \<Rightarrow> nfc_cb \<Rightarrow> nfc_cb option" where
  "nfc_data_event E i s = (if p_cback (conn_cb s i) = None then Some s else data_loop E i s)"

text \<open>
  The last received buffer is made big enough for another packet, in a buffer of the biggest pool if
  necessary, or marked.
\<close>

definition grow_last :: "bt_hdr \<Rightarrow> byte \<Rightarrow> nfc_cb \<Rightarrow> bt_hdr \<times> nfc_cb" where
  "grow_last l len s =
     (if unat (bsize l) < BT_HDR_SIZE + length (body l) + unat (offset l) + unat len then
        let (got, s) = (if bsize l \<noteq> GKI_MAX_BUF_SIZE then take_buffer s else (False, s)) in
        (if got then l\<lparr>bsize := GKI_MAX_BUF_SIZE\<rparr> else l\<lparr>layer_specific := layer_specific l OR NFC_RAS_TOO_BIG\<rparr>, s)
      else (l, s))"

definition nfc_ncif_proc_data :: "nfc_env \<Rightarrow> bt_hdr \<Rightarrow> nfc_cb \<Rightarrow> nfc_cb option" where
  "nfc_ncif_proc_data E b s = do {
     h \<leftarrow> rd (body b) 0;
     len \<leftarrow> rd (body b) 2;
     case nfc_find_conn_cb_by_conn_id (h AND NCI_CID_MASK) s of
       None \<Rightarrow> Some s
     | Some i \<Rightarrow>
         if unat (blen b) < NCI_DATA_HDR_SIZE then Some s
         else do {
           let pbf = (hdr_pbf h \<noteq> 0);
           let b = b\<lparr>layer_specific := if pbf then NFC_RAS_FRAGMENTED else 0\<rparr>;
           let s = (if pbf then s\<lparr>reassembly := True\<rparr> else s);
           let q = rx_q (conn_cb s i);
           if q \<noteq> [] \<and> ras_flag NFC_RAS_FRAGMENTED (last q) then do {
             let (l, s) = grow_last (last q) len s;
             if \<not> ras_flag NFC_RAS_TOO_BIG l then do {
               l \<leftarrow> append_bytes (drop NCI_MSG_HDR_SIZE (body b)) l;
               nfc_data_event E i (upd_conn i (\<lambda>c. c\<lparr>rx_q := butlast q @ [l\<lparr>layer_specific := layer_specific b\<rparr>]\<rparr>) s) }
             else do {
               s \<leftarrow> nfc_data_event E i (upd_conn i (\<lambda>c. c\<lparr>rx_q := butlast q @ [l]\<rparr>) s);
               Some (upd_conn i (\<lambda>c. c\<lparr>rx_q := rx_q c @ [b]\<rparr>) s) } }
           else do {
             s \<leftarrow> (if pbf \<and> conn_id (conn_cb s i) = NFC_RF_CONN_ID
                  then conn_cback E (p_cback (conn_cb s i)) (conn_id (conn_cb s i)) NFC_DATA_START_CEVT s else Some s);
             nfc_data_event E i (upd_conn i (\<lambda>c. c\<lparr>rx_q := rx_q c @ [b]\<rparr>) s) } } }"

definition NFC_SetStaticRfCback :: "nfc_env \<Rightarrow> nat option \<Rightarrow> nfc_cb \<Rightarrow> nfc_cb option" where
  "NFC_SetStaticRfCback E cback s = nfc_data_event E 0 (upd_conn 0 (\<lambda>c. c\<lparr>p_cback := cback\<rparr>) s)"

definition NFC_SetReassemblyFlag :: "bool \<Rightarrow> nfc_cb \<Rightarrow> nfc_cb" where
  "NFC_SetReassemblyFlag r s = s\<lparr>reassembly := r\<rparr>"

section \<open>Opening and closing connections\<close>

definition discv_cback :: "nfc_env \<Rightarrow> discv_evt \<Rightarrow> nfc_cb \<Rightarrow> nfc_cb option" where
  "discv_cback E e s = (if p_discv_cback s then app E (Discv_cback e) s else Some s)"

definition resp_cback :: "nfc_env \<Rightarrow> resp_evt \<Rightarrow> nfc_cb \<Rightarrow> nfc_cb option" where
  "resp_cback E e s = (if p_resp_cback s then app E (Resp_cback e) s else Some s)"

definition nfc_ncif_proc_deactivate :: "nfc_env \<Rightarrow> byte \<Rightarrow> byte \<Rightarrow> bool \<Rightarrow> nfc_cb \<Rightarrow> nfc_cb option" where
  "nfc_ncif_proc_deactivate E status deact_type is_ntf s = do {
     let s = upd_conn 0 (\<lambda>c. c\<lparr>rx_q := [], tx_q := []\<rparr>) (nfc_set_state NFC_STATE_IDLE s);
     s \<leftarrow> conn_cback E (p_cback (conn_cb s 0)) NFC_RF_CONN_ID (NFC_DEACTIVATE_CEVT status deact_type is_ntf) s;
     if has_fl (NFC_FL_DISCOVER_PENDING OR NFC_FL_CONTROL_REQUESTED) s \<and> deact_type = NFC_DEACTIVATE_TYPE_DISCOVERY \<and> is_ntf
     then Some s
     else discv_cback E (NFC_DEACTIVATE_DEVT status deact_type is_ntf) s }"

abbreviation (input) NCI_DEST_TYPE_NFCC :: byte where "NCI_DEST_TYPE_NFCC \<equiv> 1"
abbreviation (input) NCI_DEST_TYPE_REMOTE :: byte where "NCI_DEST_TYPE_REMOTE \<equiv> 2"
abbreviation (input) NCI_DEST_TYPE_NFCEE :: byte where "NCI_DEST_TYPE_NFCEE \<equiv> 3"

definition NFC_ConnCreate ::
    "nfc_env \<Rightarrow> byte \<Rightarrow> byte \<Rightarrow> byte \<Rightarrow> nat option \<Rightarrow> nfc_cb \<Rightarrow> (byte \<times> nfc_cb) option" where
  "NFC_ConnCreate E dest_type cbid protocol cback s =
     (case nfc_alloc_conn_cb cback s of
        (None, s) \<Rightarrow> Some (NFC_STATUS_FAILED, s)
      | (Some i, s) \<Rightarrow> do {
          let (num_tlv, tlvs) =
            (if dest_type = NCI_DEST_TYPE_NFCEE then (1, [1, 2, cbid, protocol])
             else if dest_type = NCI_DEST_TYPE_REMOTE then (1, [0, 1, cbid])
             else (0, []));
          let s = upd_conn i (\<lambda>c. c\<lparr>cb_id := if dest_type = NCI_DEST_TYPE_NFCC then NFC_TEST_ID else cbid,
                                   act_protocol := protocol, p_cback := cback\<rparr>) s;
          (status, s) \<leftarrow> nci_snd_core_conn_create E dest_type num_tlv tlvs s;
          if status = NFC_STATUS_FAILED then do { s \<leftarrow> nfc_free_conn_cb i s; Some (status, s) }
          else Some (status, s) })"

definition NFC_ConnClose :: "nfc_env \<Rightarrow> byte \<Rightarrow> nfc_cb \<Rightarrow> (byte \<times> nfc_cb) option" where
  "NFC_ConnClose E cid s =
     (case nfc_find_conn_cb_by_conn_id cid s of
        None \<Rightarrow> Some (NFC_STATUS_FAILED, s)
      | Some i \<Rightarrow> nci_snd_core_conn_close E cid s)"

definition nfc_ncif_proc_conn_create_rsp :: "nfc_env \<Rightarrow> byte list \<Rightarrow> byte \<Rightarrow> nfc_cb \<Rightarrow> nfc_cb option" where
  "nfc_ncif_proc_conn_create_rsp E m dest_type s =
     (case nfc_find_conn_cb_by_conn_id NFC_PEND_CONN_ID s of
        None \<Rightarrow> Some s
      | Some i \<Rightarrow> do {
          status \<leftarrow> rd m 3; bsz \<leftarrow> rd m 4; num \<leftarrow> rd m 5; cid \<leftarrow> rd m 6;
          let s = upd_conn i (\<lambda>c. c\<lparr>buff_size := bsz, num_buff := num, init_credits := num\<rparr>) s;
          let c = conn_cb s i;
          s \<leftarrow> (if status = NFC_STATUS_OK then do {
                 s \<leftarrow> nfc_set_conn_id i cid s;
                 Some (if cb_id c = 1 then s\<lparr>nfcc_dh_conn_id := cid\<rparr> else s) }
               else nfc_free_conn_cb i s);
          conn_cback E (p_cback c) cid (NFC_CONN_CREATE_CEVT status dest_type (cb_id c) bsz num) s })"

definition nfc_ncif_report_conn_close_evt :: "nfc_env \<Rightarrow> byte \<Rightarrow> byte \<Rightarrow> nfc_cb \<Rightarrow> nfc_cb option" where
  "nfc_ncif_report_conn_close_evt E cid status s =
     (case nfc_find_conn_cb_by_conn_id cid s of
        None \<Rightarrow> Some s
      | Some i \<Rightarrow> do {
          let cback = p_cback (conn_cb s i);
          s \<leftarrow> nfc_free_conn_cb i s;
          conn_cback E cback cid (NFC_CONN_CLOSE_CEVT status) s })"

text \<open>
  Closing the RF link: with NFC-DEP the command waits until the credits of the packets under way are
  back, or for the timer.
\<close>

definition NFC_Deactivate :: "nfc_env \<Rightarrow> byte \<Rightarrow> nfc_cb \<Rightarrow> (byte \<times> nfc_cb) option" where
  "NFC_Deactivate E deactivate_type s =
     (let c = conn_cb s 0 in
      if has_fl NFC_FL_DISCOVER_PENDING s then
        let s = clear_fl NFC_FL_DISCOVER_PENDING s;
            s = (if has_fl NFC_FL_HAL_REQUESTED s then s else clear_fl NFC_FL_CONTROL_REQUESTED s) in
        Some (NFC_STATUS_OK, s\<lparr>p_last_disc := p_disc_pending s, p_disc_pending := None\<rparr>)
      else if nfc_state s = NFC_STATE_OPEN \<and> act_protocol c = NCI_PROTOCOL_NFC_DEP \<and> init_credits c \<noteq> num_buff c
      then Some (NFC_STATUS_OK, set_fl NFC_FL_DEACTIVATING (nfc_set_state NFC_STATE_CLOSING s)
             \<lparr>deactivate_param := deactivate_type, deactivate_timer := True\<rparr>)
      else nci_snd_deactivate_cmd E deactivate_type
             (if nfc_state s = NFC_STATE_OPEN then nfc_set_state NFC_STATE_CLOSING s else s))"

definition nfc_wait_2_deactivate_timeout :: "nfc_env \<Rightarrow> nfc_cb \<Rightarrow> nfc_cb option" where
  "nfc_wait_2_deactivate_timeout E s = do {
     (st, s) \<leftarrow> nci_snd_deactivate_cmd E (deactivate_param s) (clear_fl NFC_FL_DEACTIVATING s);
     Some s }"

end
