(* ===== verification/Nci_Send.thy ===== *)
theory Nci_Send
  imports Nci_Data
begin

text \<open>
  What the transmission loop does: it hands the fragments of the queued messages to the HAL, in order,
  as long as there are credits and buffers. Messages are at most what a 16-bit length can describe
  (\<open>tx_ok\<close>).
\<close>

section \<open>Fragments\<close>

function frags :: "nat \<Rightarrow> byte list \<Rightarrow> (bool \<times> byte list) list" where
  "frags n m = (if n = 0 \<or> length m \<le> n then [(False, m)] else (True, take n m) # frags n (drop n m))"
  by pat_completeness auto
termination by (relation "measure (\<lambda>(n, m). length m)") auto

declare frags.simps [simp del]

lemma frags_short: "length m \<le> n \<Longrightarrow> frags n m = [(False, m)]"
  by (simp add: frags.simps)

lemma frags_long: "0 < n \<Longrightarrow> n < length m \<Longrightarrow> frags n m = (True, take n m) # frags n (drop n m)"
  by (simp add: frags.simps)

lemma frags_not_Nil [simp]: "frags n m \<noteq> []"
  by (subst frags.simps) simp

lemma frags_concat: "concat (map snd (frags n m)) = m"
proof (induction n m rule: frags.induct)
  case (1 n m)
  then show ?case by (cases "n = 0 \<or> length m \<le> n") (simp_all add: frags.simps [of n m])
qed

text \<open>All fragments but the last have the flag and are full.\<close>

lemma frags_shape: "0 < n \<Longrightarrow> \<exists>fs bs. frags n m = map (Pair True) fs @ [(False, bs)]
    \<and> (\<forall>f \<in> set fs. length f = n) \<and> length bs \<le> n \<and> (fs \<noteq> [] \<longrightarrow> bs \<noteq> [])"
proof (induction n m rule: frags.induct)
  case (1 n m)
  show ?case
  proof (cases "length m \<le> n")
    case True
    then show ?thesis by (intro exI [of _ "[]"] exI [of _ m]) (simp add: frags_short)
  next
    case False
    then obtain fs bs where f: "frags n (drop n m) = map (Pair True) fs @ [(False, bs)]"
      "\<forall>f \<in> set fs. length f = n" "length bs \<le> n" "fs \<noteq> [] \<longrightarrow> bs \<noteq> []"
      using 1 by blast
    have "concat (map snd (frags n (drop n m))) = concat fs @ bs"
      unfolding f(1) by (simp add: comp_def)
    then have e: "drop n m = concat fs @ bs" by (simp add: frags_concat)
    have "bs \<noteq> []" using e f(4) False by (cases fs) auto
    moreover have "frags n m = map (Pair True) (take n m # fs) @ [(False, bs)]"
      using f(1) False 1(2) by (simp add: frags_long)
    moreover have "\<forall>f \<in> set (take n m # fs). length f = n" using f(2) False by simp
    ultimately show ?thesis using f(3) by blast
  qed
qed

lemma frags_parts: "0 < n \<Longrightarrow> (pbf, bs) \<in> set (frags n m) \<Longrightarrow> length bs \<le> n"
  using frags_shape [of n m] by auto

definition wire :: "byte \<Rightarrow> (bool \<times> byte list) list \<Rightarrow> hal_call list" where
  "wire cid fs = map (\<lambda>(pbf, bs). Hal_write (data_packet pbf cid bs)) fs"

lemma wire_simps [simp]:
  "wire cid [] = []" "wire cid ((pbf, bs) # fs) = Hal_write (data_packet pbf cid bs) # wire cid fs"
  "wire cid (fs @ gs) = wire cid fs @ wire cid gs"
  by (simp_all add: wire_def)

definition fragments :: "nat \<Rightarrow> bt_hdr list \<Rightarrow> (bool \<times> byte list) list" where
  "fragments n q = concat (map (\<lambda>b. frags n (body b)) q)"

lemma fragments_simps [simp]:
  "fragments n [] = []" "fragments n (b # q) = frags n (body b) @ fragments n q"
  "fragments n (p @ q) = fragments n p @ fragments n q"
  by (simp_all add: fragments_def)

lemma fragments_Nil_iff [simp]: "fragments n q = [] \<longleftrightarrow> q = []"
  by (cases q) simp_all

text \<open>
  What goes on the wire: \<open>flags p fs\<close> are the fragments \<open>fs\<close> with the boundary flags that one call of
  the loop gives them, when its variable \<open>pbf\<close> is \<open>p\<close>. They are the flags of the fragments as long as no
  last one has been sent; from then on all flags are 0.
\<close>

primrec flags :: "bool \<Rightarrow> (bool \<times> byte list) list \<Rightarrow> (bool \<times> byte list) list" where
  "flags p [] = []"
| "flags p (f # fs) = (p \<and> fst f, snd f) # flags (p \<and> fst f) fs"

definition flag_after :: "bool \<Rightarrow> (bool \<times> byte list) list \<Rightarrow> bool" where
  "flag_after p fs \<longleftrightarrow> p \<and> (\<forall>f \<in> set fs. fst f)"

lemma flag_after_simps [simp]: "flag_after p [] = p" "flag_after p (f # fs) = flag_after (p \<and> fst f) fs"
  by (auto simp: flag_after_def)

lemma flags_append [simp]: "flags p (fs @ gs) = flags p fs @ flags (flag_after p fs) gs"
  by (induction fs arbitrary: p) simp_all

lemma length_flags [simp]: "length (flags p fs) = length fs"
  by (induction fs arbitrary: p) simp_all

lemma map_snd_flags [simp]: "map snd (flags p fs) = map snd fs"
  by (induction fs arbitrary: p) simp_all

lemma flags_True_map: "flags True (map (Pair True) fs) = map (Pair True) fs" "flag_after True (map (Pair True) fs)"
  by (induction fs) (auto simp: flag_after_def)

text \<open>Fragments that one call sends with their own flags.\<close>

definition own_flags :: "(bool \<times> byte list) list \<Rightarrow> bool" where
  "own_flags fs \<longleftrightarrow> flags True fs = fs"

lemma flags_False: "flags False fs = map (Pair False) (map snd fs)"
  by (induction fs) simp_all

lemma own_flags_frags: "0 < n \<Longrightarrow> own_flags (frags n m)"
  using frags_shape [of n m] by (auto simp: own_flags_def flags_True_map flag_after_def)

lemma own_flags_prefix: "own_flags (fs @ gs) \<Longrightarrow> own_flags fs"
  unfolding own_flags_def by (simp add: append_eq_append_conv)

lemma own_flags_suffix: "own_flags (fs @ gs) \<Longrightarrow> own_flags gs"
proof -
  assume "own_flags (fs @ gs)"
  then have g: "flags (flag_after True fs) gs = gs"
    unfolding own_flags_def by (simp add: append_eq_append_conv)
  have "flags True gs = gs" if "flags False gs = gs" for gs
    using that by (induction gs) auto
  with g show ?thesis by (cases "flag_after True fs") (auto simp: own_flags_def)
qed

lemma own_flags_last: "own_flags fs \<Longrightarrow> own_flags (fs @ [(False, m)])"
  by (simp add: own_flags_def)

section \<open>The loop\<close>

definition tx_ok :: "bt_hdr \<Rightarrow> bool" where
  "tx_ok b \<longleftrightarrow> NCI_DATA_HDR_SIZE \<le> unat (offset b) \<and> unat (offset b) + length (body b) < 65536"

lemma tx_ok_len: "tx_ok b \<Longrightarrow> unat (blen b) = length (body b)"
  by (simp add: tx_ok_def blen_def unat_of_nat)

lemma tx_ok_drop:
  assumes "tx_ok b" "n \<le> length (body b)"
  shows "tx_ok (b\<lparr>offset := offset b + of_nat n, body := drop n (body b)\<rparr>)"
proof -
  have "unat (offset b + of_nat n) = unat (offset b) + n"
    using assms by (simp add: tx_ok_def unat_word_ariths unat_of_nat)
  then show ?thesis using assms by (simp add: tx_ok_def)
qed

text \<open>The state after packets with the fragments \<open>fs\<close> of connection \<open>i\<close>, with queue \<open>q\<close> and \<open>bs\<close> the buffers left.\<close>

definition after_packets :: "nat \<Rightarrow> bool \<Rightarrow> (bool \<times> byte list) list \<Rightarrow> bt_hdr list \<Rightarrow> bool stream \<Rightarrow> nfc_cb \<Rightarrow> nfc_cb" where
  "after_packets i p fs q bs s =
     s\<lparr>conn_cb := (conn_cb s)(i := (conn_cb s i)\<lparr>tx_q := q,
          num_buff := if num_buff (conn_cb s i) = NFC_CONN_NO_FC then NFC_CONN_NO_FC
                      else num_buff (conn_cb s i) - of_nat (length fs)\<rparr>),
       hal_out := hal_out s @ wire (conn_id (conn_cb s i)) (flags p fs), buffers := bs\<rparr>"

lemma after_packets_simps [simp]:
  "tx_q (conn_cb (after_packets i p fs q bs s) i) = q"
  "conn_id (conn_cb (after_packets i p fs q bs s) i) = conn_id (conn_cb s i)"
  "buff_size (conn_cb (after_packets i p fs q bs s) i) = buff_size (conn_cb s i)"
  "i2c_fragmentation (after_packets i p fs q bs s) = i2c_fragmentation s"
  "buffers (after_packets i p fs q bs s) = bs"
  by (simp_all add: after_packets_def)

definition credits :: "conn_cb \<Rightarrow> nat \<Rightarrow> bool" where
  "credits c n \<longleftrightarrow> num_buff c = NFC_CONN_NO_FC \<or> n \<le> unat (num_buff c)"

lemma packet_step:
  assumes "\<not> i2c_fragmentation s" "num_buff (conn_cb s i) \<noteq> 0"
  shows "post_packet i (p \<and> chain) bs (upd_conn i (\<lambda>c. c\<lparr>tx_q := q\<rparr>) (s\<lparr>buffers := bf\<rparr>)) = after_packets i p [(chain, bs)] q bf s"
  using assms by (simp add: post_packet_def after_packets_def upd_conn_def hal_def Let_def)

lemma after_packets_twice:
  assumes "num_buff (conn_cb s i) \<noteq> 0" "num_buff (conn_cb s i) \<noteq> NFC_CONN_NO_FC \<longrightarrow> length fs \<le> unat (num_buff (conn_cb s i))"
  shows "after_packets i (flag_after p fs) gs q' bs' (after_packets i p fs q bs s) = after_packets i p (fs @ gs) q' bs' s"
proof -
  have "num_buff (conn_cb s i) - of_nat (length fs) \<noteq> NFC_CONN_NO_FC" if "num_buff (conn_cb s i) \<noteq> NFC_CONN_NO_FC"
  proof -
    have l: "length fs \<le> unat (num_buff (conn_cb s i))" using assms(2) that by blast
    then have "unat (num_buff (conn_cb s i) - of_nat (length fs)) = unat (num_buff (conn_cb s i)) - length fs"
      using unat_byte_less [of "num_buff (conn_cb s i)"] by (subst unat_sub) (auto simp: word_le_nat_alt unat_of_nat)
    moreover have "unat (num_buff (conn_cb s i)) \<noteq> 255" using that by (auto simp: word_unat_eq_iff)
    ultimately show ?thesis using unat_byte_less [of "num_buff (conn_cb s i)"] by (auto simp: word_unat_eq_iff)
  qed
  then show ?thesis by (simp add: after_packets_def diff_diff_eq)
qed

lemma conn_eta: "c\<lparr>tx_q := tx_q c, num_buff := num_buff c\<rparr> = c"
  by (cases c) simp

lemma after_no_packets: "q = tx_q (conn_cb s i) \<Longrightarrow> after_packets i p [] q bs s = s\<lparr>buffers := bs\<rparr>"
proof -
  assume q: "q = tx_q (conn_cb s i)"
  have n: "(if num_buff c = NFC_CONN_NO_FC then NFC_CONN_NO_FC else num_buff c - of_nat (length [])) = num_buff c" for c
    by simp
  show ?thesis unfolding after_packets_def q n conn_eta by simp
qed

definition tx_size :: "bt_hdr list \<Rightarrow> nat" where
  "tx_size q = sum_list (map (\<lambda>b. Suc (length (body b))) q)"

text \<open>What a run of the loop has done, with \<open>B\<close> the size of the packets.\<close>

definition tx_run :: "nat \<Rightarrow> nat \<Rightarrow> nfc_cb \<Rightarrow> byte \<Rightarrow> (bool \<times> byte list) list \<Rightarrow> bt_hdr list \<Rightarrow> bool stream \<Rightarrow> bool" where
  "tx_run B i s st fs q bs \<longleftrightarrow>
     fragments B (tx_q (conn_cb s i)) = fs @ fragments B q \<and> (\<forall>b \<in> set q. tx_ok b)
     \<and> credits (conn_cb s i) (length fs) \<and> sset bs \<subseteq> sset (buffers s)
     \<and> (st = NFC_STATUS_OK \<and> (q = [] \<or> num_buff (conn_cb s i) \<noteq> NFC_CONN_NO_FC \<and> length fs = unat (num_buff (conn_cb s i)))
        \<or> st = NFC_STATUS_BUFFER_FULL \<and> q \<noteq> [] \<and> False \<in> sset (buffers s))"

lemma tx_run_step:
  assumes r: "tx_run B i (after_packets i p [f] q1 bs1 s) st fs q bs"
    and nb: "num_buff (conn_cb s i) \<noteq> 0" and fr: "fragments B (tx_q (conn_cb s i)) = f # fragments B q1"
    and bs: "sset bs1 \<subseteq> sset (buffers s)"
  shows "tx_run B i s st (f # fs) q bs \<and> after_packets i (p \<and> fst f) fs q bs (after_packets i p [f] q1 bs1 s) = after_packets i p (f # fs) q bs s"
proof -
  let ?n = "num_buff (conn_cb s i)"
  have n: "num_buff (conn_cb (after_packets i p [f] q1 bs1 s) i) = (if ?n = NFC_CONN_NO_FC then NFC_CONN_NO_FC else ?n - 1)"
    by (simp add: after_packets_def)
  have u: "unat (?n - 1) = unat ?n - 1" using nb by (rule unat_minus_one)
  have p: "0 < unat ?n" using nb by (simp add: unat_gt_0)
  have m: "?n - 1 \<noteq> NFC_CONN_NO_FC"
  proof
    assume "?n - 1 = NFC_CONN_NO_FC"
    then have "?n = NFC_CONN_NO_FC + 1" by (simp only: diff_eq_eq)
    then show False using nb by simp
  qed
  have c: "credits (conn_cb s i) (length (f # fs))"
    using r p m unfolding tx_run_def credits_def n by (auto simp: u split: if_splits)
  have l: "?n \<noteq> NFC_CONN_NO_FC \<Longrightarrow> length fs = unat (?n - 1) \<Longrightarrow> length (f # fs) = unat ?n"
    using u p by simp
  have "tx_run B i s st (f # fs) q bs"
    using r fr bs c l m unfolding tx_run_def n after_packets_simps by (auto split: if_splits)
  moreover have "after_packets i (flag_after p [f]) fs q bs (after_packets i p [f] q1 bs1 s) = after_packets i p ([f] @ fs) q bs s"
    by (rule after_packets_twice) (use nb c in \<open>auto simp: credits_def\<close>)
  ultimately show ?thesis by simp
qed

text \<open>One iteration: the loop ends, sends a whole buffer, or sends a fragment of the first one.\<close>

definition cut :: "nat \<Rightarrow> bt_hdr \<Rightarrow> bt_hdr" where
  "cut n d = d\<lparr>offset := offset d + of_nat n, body := drop n (body d)\<rparr>"

lemma cut_body [simp]: "body (cut n d) = drop n (body d)"
  by (simp add: cut_def)

definition send_body ::
    "(nat \<Rightarrow> bool \<Rightarrow> nfc_cb \<Rightarrow> (byte \<times> nfc_cb) option) \<Rightarrow> nat \<Rightarrow> bool \<Rightarrow> nfc_cb \<Rightarrow> (byte \<times> nfc_cb) option" where
  "send_body f i p s =
     (case tx_q (conn_cb s i) of
        [] \<Rightarrow> Some (NFC_STATUS_OK, s)
      | d # q \<Rightarrow>
          if num_buff (conn_cb s i) = 0 then Some (NFC_STATUS_OK, s)
          else if blen d \<le> ucast (buff_size (conn_cb s i)) then
            if unat (offset d) < NCI_DATA_HDR_SIZE then None
            else f i False (post_packet i False (body d) (upd_conn i (\<lambda>c. c\<lparr>tx_q := q\<rparr>) s))
          else if \<not> fst (take_buffer s) then Some (NFC_STATUS_BUFFER_FULL, snd (take_buffer s))
          else let n = unat (buff_size (conn_cb s i)) in
            f i p (post_packet i p (take n (body d))
              (upd_conn i (\<lambda>c. c\<lparr>tx_q := d\<lparr>offset := offset d + of_nat n, body := drop n (body d)\<rparr> # q\<rparr>)
                 (snd (take_buffer s)))))"

lemma send_loop_body: "send_loop i p s = send_body send_loop i p s"
  unfolding send_body_def by (rule send_loop.simps)

lemma send_body_step:
  assumes "\<not> i2c_fragmentation s" "\<forall>b \<in> set (tx_q (conn_cb s i)). tx_ok b"
  defines "B \<equiv> unat (buff_size (conn_cb s i))"
  obtains (stop) "send_body f i p s = Some (NFC_STATUS_OK, s)" "tx_q (conn_cb s i) = [] \<or> num_buff (conn_cb s i) = 0"
  | (full) d q where "send_body f i p s = Some (NFC_STATUS_BUFFER_FULL, s\<lparr>buffers := stl (buffers s)\<rparr>)"
      "tx_q (conn_cb s i) = d # q" "B < length (body d)" "num_buff (conn_cb s i) \<noteq> 0" "\<not> shd (buffers s)"
  | (whole) d q where "send_body f i p s = f i False (after_packets i p [(False, body d)] q (buffers s) s)"
      "tx_q (conn_cb s i) = d # q" "length (body d) \<le> B" "num_buff (conn_cb s i) \<noteq> 0"
  | (part) d q where "send_body f i p s = f i p (after_packets i p [(True, take B (body d))] (cut B d # q) (stl (buffers s)) s)"
      "tx_q (conn_cb s i) = d # q" "B < length (body d)" "num_buff (conn_cb s i) \<noteq> 0" "shd (buffers s)" "tx_ok (cut B d)"
proof (cases "tx_q (conn_cb s i)")
  case Nil
  then show ?thesis by (intro stop) (simp_all add: send_body_def)
next
  case (Cons d q)
  then have d: "tx_ok d" using assms(2) by simp
  have len: "blen d \<le> ucast (buff_size (conn_cb s i)) \<longleftrightarrow> length (body d) \<le> B"
    using tx_ok_len [OF d] unat_byte_less [of "buff_size (conn_cb s i)"] by (simp add: B_def word_le_nat_alt unat_ucast_mod)
  consider "num_buff (conn_cb s i) = 0" | "num_buff (conn_cb s i) \<noteq> 0" "length (body d) \<le> B"
    | "num_buff (conn_cb s i) \<noteq> 0" "B < length (body d)" "shd (buffers s)"
    | "num_buff (conn_cb s i) \<noteq> 0" "B < length (body d)" "\<not> shd (buffers s)"
    by linarith
  then show ?thesis
  proof cases
    case 1
    then show ?thesis using Cons by (intro stop) (simp_all add: send_body_def)
  next
    case 2
    have "send_body f i p s = f i False (after_packets i p [(False, body d)] q (buffers s) s)"
      using Cons 2 d packet_step [OF assms(1) 2(1), of p False "body d" q "buffers s"]
      by (simp add: send_body_def len tx_ok_def)
    then show ?thesis using Cons 2 by (intro whole)
  next
    case 3
    have "send_body f i p s = f i p (after_packets i p [(True, take B (body d))] (cut B d # q) (stl (buffers s)) s)"
      using Cons 3 packet_step [OF assms(1) 3(1), of p True "take B (body d)" "cut B d # q" "stl (buffers s)"]
      by (simp add: send_body_def len take_buffer_def Let_def cut_def flip: B_def)
    moreover have "tx_ok (cut B d)" unfolding cut_def using d 3 by (intro tx_ok_drop) auto
    ultimately show ?thesis using Cons 3 by (intro part)
  next
    case 4
    then show ?thesis using Cons
      by (intro full) (simp_all add: send_body_def len take_buffer_def)
  qed
qed

lemmas send_loop_step = send_body_step [where f = send_loop, folded send_loop_body]

lemma sset_stl: "sset (stl bs) \<subseteq> sset bs"
  by (cases bs) auto

lemma send_loop_run:
  assumes "buff_size (conn_cb s i) \<noteq> 0" "\<not> i2c_fragmentation s" "\<forall>b \<in> set (tx_q (conn_cb s i)). tx_ok b"
  shows "\<exists>st fs q bs. send_loop i p s = Some (st, after_packets i p fs q bs s)
    \<and> tx_run (unat (buff_size (conn_cb s i))) i s st fs q bs"
  using assms
proof (induction "tx_size (tx_q (conn_cb s i))" arbitrary: s p rule: less_induct)
  case less
  let ?B = "unat (buff_size (conn_cb s i))"
  have B: "0 < ?B" using less.prems(1) by (simp add: unat_gt_0)
  have step: "\<exists>st fs q bs. send_loop i p s = Some (st, after_packets i p fs q bs s) \<and> tx_run ?B i s st fs q bs"
    if e: "send_loop i p s = send_loop i (p \<and> fst f) (after_packets i p [f] q1 bs1 s)"
      and fr: "fragments ?B (tx_q (conn_cb s i)) = f # fragments ?B q1" and nb: "num_buff (conn_cb s i) \<noteq> 0"
      and bs: "sset bs1 \<subseteq> sset (buffers s)"
      and ok: "\<forall>b \<in> set q1. tx_ok b" and sz: "tx_size q1 < tx_size (tx_q (conn_cb s i))" for f q1 bs1
  proof -
    obtain st fs q' bs where r: "send_loop i (p \<and> fst f) (after_packets i p [f] q1 bs1 s) = Some (st, after_packets i (p \<and> fst f) fs q' bs (after_packets i p [f] q1 bs1 s))"
      "tx_run ?B i (after_packets i p [f] q1 bs1 s) st fs q' bs"
      using less.hyps [of "after_packets i p [f] q1 bs1 s" "p \<and> fst f"] less.prems ok sz by auto
    show ?thesis using tx_run_step [OF r(2) nb fr bs] r(1) e by auto
  qed
  show ?case
  proof (cases rule: send_loop_step [OF less.prems(2,3), where p = p])
    case 1
    then show ?thesis using less.prems(3)
      by (intro exI [of _ NFC_STATUS_OK] exI [of _ "[]"] exI [of _ "tx_q (conn_cb s i)"] exI [of _ "buffers s"])
        (auto simp: after_no_packets tx_run_def credits_def)
  next
    case (2 d q)
    have "False \<in> sset (buffers s)" using 2(5) shd_sset [of "buffers s"] by simp
    then show ?thesis using 2 less.prems(3)
      by (intro exI [of _ NFC_STATUS_BUFFER_FULL] exI [of _ "[]"] exI [of _ "d # q"] exI [of _ "stl (buffers s)"])
        (simp add: after_no_packets tx_run_def credits_def sset_stl)
  next
    case (3 d q)
    show ?thesis
      by (rule step [of "(False, body d)" q "buffers s"]) (use 3 less.prems(3) in \<open>simp_all add: frags_short tx_size_def\<close>)
  next
    case (4 d q)
    show ?thesis
      by (rule step [of "(True, take ?B (body d))" "cut ?B d # q" "stl (buffers s)"]) (use 4 B less.prems(3) in \<open>simp_all add: frags_long tx_size_def sset_stl\<close>)
  qed
qed

section \<open>Termination\<close>

text \<open>
  A packet size of 0 without flow control: a fragment takes nothing off the message, so that the loop
  sends empty packets as long as it gets buffers.
\<close>

definition tx_endless :: "nat \<Rightarrow> nfc_cb \<Rightarrow> bool" where
  "tx_endless i s \<longleftrightarrow> buff_size (conn_cb s i) = 0 \<and> num_buff (conn_cb s i) = NFC_CONN_NO_FC
     \<and> (\<exists>b \<in> set (tx_q (conn_cb s i)). body b \<noteq> []) \<and> sset (buffers s) = {True}"

definition tx_state :: "nat \<Rightarrow> nfc_cb \<Rightarrow> bool" where
  "tx_state i s \<longleftrightarrow> \<not> i2c_fragmentation s \<and> (\<forall>b \<in> set (tx_q (conn_cb s i)). tx_ok b)"

lemma tx_state_after: "tx_state i s \<Longrightarrow> \<forall>b \<in> set q. tx_ok b \<Longrightarrow> tx_state i (after_packets i p fs q bs s)"
  by (simp add: tx_state_def)

lemma after_num_buff:
  "num_buff (conn_cb (after_packets i p fs q bs s) i) =
     (if num_buff (conn_cb s i) = NFC_CONN_NO_FC then NFC_CONN_NO_FC else num_buff (conn_cb s i) - of_nat (length fs))"
  by (simp add: after_packets_def)

lemma endlessD:
  assumes "tx_endless i s"
  shows "buff_size (conn_cb s i) = 0" "num_buff (conn_cb s i) = NFC_CONN_NO_FC" "shd (buffers s)"
    "sset (stl (buffers s)) = {True}" "tx_q (conn_cb s i) \<noteq> []"
proof -
  show "buff_size (conn_cb s i) = 0" "num_buff (conn_cb s i) = NFC_CONN_NO_FC" using assms by (simp_all add: tx_endless_def)
  have a: "sset (buffers s) = {True}" using assms by (simp add: tx_endless_def)
  show "shd (buffers s)" using shd_sset [of "buffers s"] unfolding a by simp
  show "sset (stl (buffers s)) = {True}"
  proof (rule ccontr)
    assume n: "sset (stl (buffers s)) \<noteq> {True}"
    have "sset (stl (buffers s)) \<subseteq> {True}" using sset_stl [of "buffers s"] unfolding a .
    then have "sset (stl (buffers s)) = {}" using n by (meson subset_singletonD)
    then show False using shd_sset [of "stl (buffers s)"] by simp
  qed
  have "\<exists>b \<in> set (tx_q (conn_cb s i)). body b \<noteq> []" using assms by (simp add: tx_endless_def)
  then show "tx_q (conn_cb s i) \<noteq> []" by (cases "tx_q (conn_cb s i)") simp_all
qed

lemma endless_step:
  assumes e: "tx_endless i s" and t: "tx_state i s"
  shows "\<exists>p' s'. send_body f i p s = f i p' s' \<and> tx_endless i s' \<and> tx_state i s'"
proof -
  have nb: "num_buff (conn_cb s i) \<noteq> 0" and B: "unat (buff_size (conn_cb s i)) = 0" using endlessD [OF e] by simp_all
  have t': "\<not> i2c_fragmentation s" "\<forall>b \<in> set (tx_q (conn_cb s i)). tx_ok b" using t by (simp_all add: tx_state_def)
  show ?thesis
  proof (cases rule: send_body_step [OF t', where f = f and p = p])
    case 1
    then show ?thesis using endlessD(5) [OF e] nb by simp
  next
    case (2 d q)
    then show ?thesis using endlessD(3) [OF e] by simp
  next
    case (3 d q)
    let ?s = "after_packets i p [(False, body d)] q (buffers s) s"
    have "body d = []" using 3(3) B by simp
    then have "tx_endless i ?s" using e 3(2) unfolding tx_endless_def by (simp add: after_num_buff)
    moreover have "tx_state i ?s" using tx_state_after [OF t] t'(2) 3(2) by simp
    ultimately show ?thesis using 3(1) by blast
  next
    case (4 d q)
    let ?s = "after_packets i p [(True, take (unat (buff_size (conn_cb s i))) (body d))] (cut (unat (buff_size (conn_cb s i))) d # q) (stl (buffers s)) s"
    have "tx_endless i ?s" using endlessD [OF e] 4(3) unfolding tx_endless_def by (simp add: after_num_buff)
    moreover have "tx_state i ?s" using tx_state_after [OF t] t'(2) 4(2,6) by simp
    ultimately show ?thesis using 4(1) by blast
  qed
qed

lemma endless_None:
  assumes "tx_endless i s" "tx_state i s"
  shows "send_loop i p s = None"
proof (rule ccontr)
  assume "send_loop i p s \<noteq> None"
  then obtain r where r: "send_loop i p s = Some r" by blast
  have "\<not> (tx_endless i s \<and> tx_state i s)"
  proof (rule send_loop.raw_induct [where P = "\<lambda>i p s r. \<not> (tx_endless i s \<and> tx_state i s)", OF _ r])
    fix f i p s r
    assume IH: "\<And>i p s r. f i p s = Some r \<Longrightarrow> \<not> (tx_endless i s \<and> tx_state i s)"
      and eq: "(case tx_q (conn_cb s i) of
        [] \<Rightarrow> Some (NFC_STATUS_OK, s)
      | d # q \<Rightarrow>
          if num_buff (conn_cb s i) = 0 then Some (NFC_STATUS_OK, s)
          else if blen d \<le> ucast (buff_size (conn_cb s i)) then
            if unat (offset d) < NCI_DATA_HDR_SIZE then None
            else f i False (post_packet i False (body d) (upd_conn i (\<lambda>c. c\<lparr>tx_q := q\<rparr>) s))
          else if \<not> fst (take_buffer s) then Some (NFC_STATUS_BUFFER_FULL, snd (take_buffer s))
          else let n = unat (buff_size (conn_cb s i)) in
            f i p (post_packet i p (take n (body d))
              (upd_conn i (\<lambda>c. c\<lparr>tx_q := d\<lparr>offset := offset d + of_nat n, body := drop n (body d)\<rparr> # q\<rparr>)
                 (snd (take_buffer s))))) = Some r"
    show "\<not> (tx_endless i s \<and> tx_state i s)"
    proof
      assume "tx_endless i s \<and> tx_state i s"
      then obtain p' s' where s': "send_body f i p s = f i p' s'" "tx_endless i s' \<and> tx_state i s'"
        using endless_step [where f = f and p = p] by blast
      have "send_body f i p s = Some r" unfolding send_body_def by (rule eq)
      then show False using IH [of i p' s' r] s' by simp
    qed
  qed
  then show False using assms by blast
qed

text \<open>The step of the loop for the proofs that it ends.\<close>

lemma send_loop_next:
  assumes t: "tx_state i s"
  obtains (returns) r where "send_loop i p s = Some r"
  | (again) f q bs p' where "send_loop i p s = send_loop i p' (after_packets i p [f] q bs s)" "num_buff (conn_cb s i) \<noteq> 0"
      "tx_state i (after_packets i p [f] q bs s)"
      "bs = buffers s \<and> (\<exists>d. tx_q (conn_cb s i) = d # q) \<or> shd (buffers s) \<and> bs = stl (buffers s)
        \<and> (\<exists>d q'. tx_q (conn_cb s i) = d # q' \<and> q = cut (unat (buff_size (conn_cb s i))) d # q' \<and> body d \<noteq> [])"
proof -
  have t': "\<not> i2c_fragmentation s" "\<forall>b \<in> set (tx_q (conn_cb s i)). tx_ok b" using t by (simp_all add: tx_state_def)
  show ?thesis
  proof (cases rule: send_loop_step [OF t', where p = p])
    case 1
    show ?thesis by (rule returns [OF 1(1)])
  next
    case (2 d q)
    show ?thesis by (rule returns [OF 2(1)])
  next
    case (3 d q)
    show ?thesis
      by (rule again [OF 3(1,4) tx_state_after [OF t]]) (use t'(2) 3(2) in simp_all)
  next
    case (4 d q)
    have "body d \<noteq> []" using 4(3) by auto
    then show ?thesis
      by (intro again [OF 4(1,4) tx_state_after [OF t]] disjI2) (use t'(2) 4(2,5,6) in simp_all)
  qed
qed

lemma returns_fc:
  "num_buff (conn_cb s i) \<noteq> NFC_CONN_NO_FC \<Longrightarrow> tx_state i s \<Longrightarrow> \<exists>r. send_loop i p s = Some r"
proof (induction "unat (num_buff (conn_cb s i))" arbitrary: s p rule: less_induct)
  case less
  show ?case
  proof (cases rule: send_loop_next [OF less.prems(2), where p = p])
    case (2 f q bs p')
    let ?n = "num_buff (conn_cb s i)" and ?s = "after_packets i p [f] q bs s"
    have u: "unat (?n - 1) = unat ?n - 1" "0 < unat ?n" using 2(2) by (simp_all add: unat_minus_one unat_gt_0)
    have n: "num_buff (conn_cb ?s i) = ?n - 1" using less.prems(1) by (simp add: after_num_buff)
    have "unat (?n - 1) \<noteq> 255" using u unat_byte_less [of ?n] by simp
    then have "num_buff (conn_cb ?s i) \<noteq> NFC_CONN_NO_FC" unfolding n by auto
    moreover have "unat (num_buff (conn_cb ?s i)) < unat ?n" unfolding n using u by simp
    ultimately show ?thesis using less.hyps [of ?s p'] 2(1,3) by simp
  qed blast
qed

lemma returns_full:
  "\<not> bf !! n \<Longrightarrow> buffers s = bf \<Longrightarrow> tx_state i s \<Longrightarrow> \<exists>r. send_loop i p s = Some r"
proof (induction "n + length (tx_q (conn_cb s i))" arbitrary: n bf s p rule: less_induct)
  case less
  show ?case
  proof (cases rule: send_loop_next [OF less.prems(3), where p = p])
    case (2 f q bs p')
    let ?s = "after_packets i p [f] q bs s"
    from 2(4) show ?thesis
    proof (elim disjE conjE exE)
      fix d assume a: "bs = buffers s" "tx_q (conn_cb s i) = d # q"
      then show ?thesis using less.hyps [of n ?s bf p'] less.prems(1,2) 2(1,3) by simp
    next
      fix d q' assume a: "shd (buffers s)" "bs = stl (buffers s)" "tx_q (conn_cb s i) = d # q'"
        "q = cut (unat (buff_size (conn_cb s i))) d # q'"
      have "n \<noteq> 0" using a(1) less.prems(1,2) by (cases n) simp_all
      then obtain m where m: "n = Suc m" by (cases n) simp_all
      have "\<not> stl bf !! m" using less.prems(1) unfolding m by simp
      then show ?thesis using less.hyps [of m ?s "stl bf" p'] less.prems(2) 2(1,3) a m by simp
    qed
  qed blast
qed

lemma returns_empty:
  "\<forall>b \<in> set (tx_q (conn_cb s i)). body b = [] \<Longrightarrow> tx_state i s \<Longrightarrow> \<exists>r. send_loop i p s = Some r"
proof (induction "length (tx_q (conn_cb s i))" arbitrary: s p rule: less_induct)
  case less
  show ?case
  proof (cases rule: send_loop_next [OF less.prems(2), where p = p])
    case (2 f q bs p')
    let ?s = "after_packets i p [f] q bs s"
    obtain d where "tx_q (conn_cb s i) = d # q" using 2(4) less.prems(1) by auto
    then show ?thesis using less.hyps [of ?s p'] less.prems(1) 2(1,3) by simp
  qed blast
qed

lemma send_loop_returns_iff:
  assumes t: "tx_state i s"
  shows "(\<exists>r. send_loop i p s = Some r) \<longleftrightarrow> \<not> tx_endless i s"
proof
  show "\<exists>r. send_loop i p s = Some r \<Longrightarrow> \<not> tx_endless i s" using endless_None [OF _ t] by auto
next
  assume e: "\<not> tx_endless i s"
  consider "buff_size (conn_cb s i) \<noteq> 0" | "num_buff (conn_cb s i) \<noteq> NFC_CONN_NO_FC"
    | "\<forall>b \<in> set (tx_q (conn_cb s i)). body b = []" | "sset (buffers s) \<noteq> {True}"
    using e unfolding tx_endless_def by blast
  then show "\<exists>r. send_loop i p s = Some r"
  proof cases
    case 1
    then show ?thesis using send_loop_run [of s i] t unfolding tx_state_def by blast
  next
    case 2
    then show ?thesis using returns_fc t by blast
  next
    case 3
    then show ?thesis using returns_empty t by blast
  next
    case 4
    have "False \<in> sset (buffers s)"
    proof (rule ccontr)
      assume "False \<notin> sset (buffers s)"
      then have "x = True" if "x \<in> sset (buffers s)" for x using that by (cases x) simp_all
      then have "sset (buffers s) \<subseteq> {True}" by (intro subsetI) simp
      then have "sset (buffers s) = {}" using 4 by (blast dest: subset_singletonD)
      then show False using shd_sset [of "buffers s"] by simp
    qed
    then obtain n where "\<not> buffers s !! n" unfolding sset_range by auto
    then show ?thesis using returns_full t by blast
  qed
qed

text \<open>
  A connection over time: the application submits messages, the NFCC takes packets, as many as it has
  given credits for, and returns credits. The record \<open>tx_link\<close> adds to the control block what was
  submitted, the number of credits that the NFCC has returned, and what each call of the core, for a
  message or for credits, has handed to the HAL.
\<close>

record tx_link =
  core :: nfc_cb
  messages :: "byte list list"
  returned :: nat
  calls :: "hal_call list list"

definition handed :: "nfc_cb \<Rightarrow> nfc_cb \<Rightarrow> hal_call list" where
  "handed s s' = drop (length (hal_out s)) (hal_out s')"

text \<open>A connection \<open>cid\<close> on which data can be sent, with packets of \<open>B\<close> bytes and \<open>C\<close> credits.\<close>

definition tx_open :: "nat \<Rightarrow> byte \<Rightarrow> byte \<Rightarrow> byte \<Rightarrow> nfc_cb \<Rightarrow> bool" where
  "tx_open i cid B C s \<longleftrightarrow>
     nfc_find_conn_cb_by_conn_id cid s = Some i \<and> conn_id (conn_cb s i) = cid
     \<and> buff_size (conn_cb s i) = B \<and> B \<noteq> 0 \<and> init_credits (conn_cb s i) = C \<and> C \<noteq> NFC_CONN_NO_FC
     \<and> (cb_id (conn_cb s i) = NFC_RF_CONN_ID \<longrightarrow> nfc_state s = NFC_STATE_OPEN)
     \<and> \<not> i2c_fragmentation s \<and> \<not> core_reset_init_num_buff s \<and> sset (buffers s) = {True}"

inductive tx_step :: "byte \<Rightarrow> tx_link \<Rightarrow> tx_link \<Rightarrow> bool" for cid where
  submit: "NCI_MSG_OFFSET_SIZE + NCI_DATA_HDR_SIZE \<le> unat (offset b) \<Longrightarrow> tx_ok b \<Longrightarrow>
    NFC_SendData quiet_nfc cid (Some b) (core c) = Some (st, s) \<Longrightarrow>
    tx_step cid c (c\<lparr>core := s, messages := messages c @ [body b], calls := calls c @ [handed (core c) s]\<rparr>)"
| credit: "nfc_ncif_proc_credits quiet_nfc [1, cid, n] 0 (core c) = Some s \<Longrightarrow>
    returned c + unat n \<le> length (hal_out (core c)) \<Longrightarrow>
    tx_step cid c (c\<lparr>core := s, returned := returned c + unat n, calls := calls c @ [handed (core c) s]\<rparr>)"

text \<open>
  \<open>runs\<close> are the fragments that the calls have sent, one list for each call; on the wire they have the
  flags that a call gives them.
\<close>

definition tx_inv :: "nat \<Rightarrow> byte \<Rightarrow> byte \<Rightarrow> byte \<Rightarrow> (bool \<times> byte list) list list \<Rightarrow> tx_link \<Rightarrow> bool" where
  "tx_inv i cid B C runs c \<longleftrightarrow>
     tx_open i cid B C (core c)
     \<and> calls c = map (\<lambda>fs. wire cid (flags True fs)) runs \<and> hal_out (core c) = concat (calls c)
     \<and> concat (map (frags (unat B)) (messages c)) = concat runs @ fragments (unat B) (tx_q (conn_cb (core c) i))
     \<and> returned c + unat C = length (concat runs) + unat (num_buff (conn_cb (core c) i))
     \<and> num_buff (conn_cb (core c) i) \<le> C
     \<and> (\<forall>b \<in> set (tx_q (conn_cb (core c) i)). tx_ok b)
     \<and> (tx_q (conn_cb (core c) i) = [] \<or> num_buff (conn_cb (core c) i) = 0)"

lemma wire_concat: "wire cid (concat fss) = concat (map (wire cid) fss)"
  by (induction fss) simp_all

lemma wire_length [simp]: "length (wire cid fs) = length fs"
  by (simp add: wire_def)

lemma find_conn_cong:
  "conn_id_map s' = conn_id_map s \<Longrightarrow> (\<And>j. conn_id (conn_cb s' j) = conn_id (conn_cb s j)) \<Longrightarrow>
     nfc_find_conn_cb_by_conn_id cid s' = nfc_find_conn_cb_by_conn_id cid s"
  by (simp add: nfc_find_conn_cb_by_conn_id_def first_conn_def Let_def)

lemma after_find [simp]:
  "nfc_find_conn_cb_by_conn_id cid (after_packets i p fs q bs s) = nfc_find_conn_cb_by_conn_id cid s"
  "nfc_find_conn_cb_by_conn_id cid (upd_conn i (\<lambda>c. c\<lparr>num_buff := f c\<rparr>) s) = nfc_find_conn_cb_by_conn_id cid s"
  "nfc_find_conn_cb_by_conn_id cid (upd_conn i (\<lambda>c. c\<lparr>tx_q := g c\<rparr>) s) = nfc_find_conn_cb_by_conn_id cid s"
  by (rule find_conn_cong; simp add: after_packets_def upd_conn_def)+

lemma after_packets_frame [simp]:
  "init_credits (conn_cb (after_packets i p fs q bs s) i) = init_credits (conn_cb s i)"
  "cb_id (conn_cb (after_packets i p fs q bs s) i) = cb_id (conn_cb s i)"
  "nfc_state (after_packets i p fs q bs s) = nfc_state s"
  "core_reset_init_num_buff (after_packets i p fs q bs s) = core_reset_init_num_buff s"
  "hal_out (after_packets i p fs q bs s) = hal_out s @ wire (conn_id (conn_cb s i)) (flags p fs)"
  by (simp_all add: after_packets_def)

lemma tx_open_after:
  assumes "tx_open i cid B C s" "sset bs \<subseteq> {True}"
  shows "tx_open i cid B C (after_packets i p fs q bs s)"
proof -
  have "sset bs = {True}" using assms(2) shd_sset [of bs] by (blast dest: subset_singletonD)
  then show ?thesis using assms(1) unfolding tx_open_def by simp
qed

text \<open>A run of the loop from a state whose queue holds what is left to send.\<close>

lemma length_calls [simp]: "length (concat (map (\<lambda>fs. wire cid (flags True fs)) runs)) = length (concat runs)"
  by (induction runs) simp_all

lemma tx_run_inv:
  assumes o: "tx_open i cid B C s" and ok: "\<forall>b \<in> set (tx_q (conn_cb s i)). tx_ok b"
    and nc: "num_buff (conn_cb s i) \<le> C"
    and cs: "cs = map (\<lambda>fs. wire cid (flags True fs)) runs" and out: "hal_out s = concat cs"
    and ms: "concat (map (frags (unat B)) ms) = concat runs @ fragments (unat B) (tx_q (conn_cb s i))"
    and r: "r + unat C = length (concat runs) + unat (num_buff (conn_cb s i))"
  shows "\<exists>s' gs. send_loop i True s = Some (NFC_STATUS_OK, s')
    \<and> fragments (unat B) (tx_q (conn_cb s i)) = gs @ fragments (unat B) (tx_q (conn_cb s' i))
    \<and> tx_inv i cid B C (runs @ [gs]) \<lparr>core = s', messages = ms, returned = r, calls = cs @ [handed s s']\<rparr>"
proof -
  have nb: "num_buff (conn_cb s i) \<noteq> NFC_CONN_NO_FC"
    using o nc unat_byte_less [of C] by (auto simp: tx_open_def word_le_nat_alt word_unat_eq_iff)
  have c: "conn_id (conn_cb s i) = cid" "buff_size (conn_cb s i) = B" "B \<noteq> 0" "\<not> i2c_fragmentation s" "sset (buffers s) = {True}"
    using o by (simp_all add: tx_open_def)
  obtain st gs q bs where l: "send_loop i True s = Some (st, after_packets i True gs q bs s)"
    and t: "tx_run (unat B) i s st gs q bs"
    using send_loop_run [of s i True] c ok by auto
  have run: "fragments (unat B) (tx_q (conn_cb s i)) = gs @ fragments (unat B) q" "\<forall>b \<in> set q. tx_ok b"
    "length gs \<le> unat (num_buff (conn_cb s i))" "sset bs \<subseteq> {True}" "st = NFC_STATUS_OK"
    "q = [] \<or> length gs = unat (num_buff (conn_cb s i))"
    using t nb unfolding tx_run_def credits_def c(5) by auto
  let ?s = "after_packets i True gs q bs s"
  have n: "num_buff (conn_cb ?s i) = num_buff (conn_cb s i) - of_nat (length gs)" using nb by (simp add: after_num_buff)
  have u: "unat (num_buff (conn_cb ?s i)) = unat (num_buff (conn_cb s i)) - length gs"
    unfolding n using run(3) unat_byte_less [of "num_buff (conn_cb s i)"]
    by (subst unat_sub) (auto simp: word_le_nat_alt unat_of_nat)
  have h: "handed s ?s = wire cid (flags True gs)" using c(1) by (simp add: handed_def)
  have "cs @ [handed s ?s] = map (\<lambda>fs. wire cid (flags True fs)) (runs @ [gs])" using cs h by simp
  moreover have "hal_out ?s = concat (cs @ [handed s ?s])" using out h c(1) by simp
  moreover have "concat (map (frags (unat B)) ms) = concat (runs @ [gs]) @ fragments (unat B) q" using ms run(1) by simp
  moreover have "r + unat C = length (concat (runs @ [gs])) + unat (num_buff (conn_cb ?s i))" using r u run(3) by simp
  moreover have "num_buff (conn_cb ?s i) \<le> C" using u nc by (simp add: word_le_nat_alt)
  moreover have "q = [] \<or> num_buff (conn_cb ?s i) = 0" using run(6) u by (auto simp: unat_eq_0)
  ultimately have "tx_inv i cid B C (runs @ [gs]) \<lparr>core = ?s, messages = ms, returned = r, calls = cs @ [handed s ?s]\<rparr>"
    using run(2) tx_open_after [OF o run(4)] unfolding tx_inv_def tx_link.simps after_packets_simps(1)
    by (intro conjI)
  then show ?thesis using l run(1,5) by (intro exI [of _ ?s] exI [of _ gs]) simp
qed

lemma send_data_open:
  assumes "tx_open i cid B C s"
  shows "nfc_ncif_send_data E i (Some b) s = send_loop i True (upd_conn i (\<lambda>c. c\<lparr>tx_q := tx_q c @ [b]\<rparr>) s)"
    "nfc_ncif_send_data E i None s = send_loop i True s"
  using assms by (auto simp: nfc_ncif_send_data_def tx_open_def Let_def)

lemma tx_invE:
  assumes "tx_inv i cid B C runs c"
  obtains "tx_open i cid B C (core c)" "calls c = map (\<lambda>fs. wire cid (flags True fs)) runs"
    "hal_out (core c) = concat (calls c)"
    "concat (map (frags (unat B)) (messages c)) = concat runs @ fragments (unat B) (tx_q (conn_cb (core c) i))"
    "returned c + unat C = length (concat runs) + unat (num_buff (conn_cb (core c) i))"
    "\<forall>b \<in> set (tx_q (conn_cb (core c) i)). tx_ok b" "num_buff (conn_cb (core c) i) \<le> C"
    "tx_q (conn_cb (core c) i) = [] \<or> num_buff (conn_cb (core c) i) = 0"
  using assms unfolding tx_inv_def by blast

text \<open>The packets sent are as many of the fragments as there were credits.\<close>

lemma tx_inv_sent:
  assumes "tx_inv i cid B C runs c"
  shows "concat runs = take (returned c + unat C) (concat (map (frags (unat B)) (messages c)))"
    "fragments (unat B) (tx_q (conn_cb (core c) i)) = drop (returned c + unat C) (concat (map (frags (unat B)) (messages c)))"
proof -
  note v = assms [unfolded tx_inv_def]
  have l: "returned c + unat C = length (concat runs) + unat (num_buff (conn_cb (core c) i))"
    and q: "tx_q (conn_cb (core c) i) = [] \<or> unat (num_buff (conn_cb (core c) i)) = 0" using v by auto
  have "take (returned c + unat C) (fs @ gs) = fs \<and> drop (returned c + unat C) (fs @ gs) = gs"
    if "length fs = length (concat runs)" "gs = fragments (unat B) (tx_q (conn_cb (core c) i))" for fs gs
    using q l that by auto
  then show "concat runs = take (returned c + unat C) (concat (map (frags (unat B)) (messages c)))"
    "fragments (unat B) (tx_q (conn_cb (core c) i)) = drop (returned c + unat C) (concat (map (frags (unat B)) (messages c)))"
    using v by simp_all
qed

text \<open>The two steps: \<open>gs\<close> are the fragments that the call sends.\<close>

lemma submit_inv:
  assumes v: "tx_inv i cid B C runs c" and off: "NCI_MSG_OFFSET_SIZE + NCI_DATA_HDR_SIZE \<le> unat (offset b)" and b: "tx_ok b"
  shows "\<exists>s gs. NFC_SendData quiet_nfc cid (Some b) (core c) = Some (NFC_STATUS_OK, s)
    \<and> fragments (unat B) (tx_q (conn_cb (core c) i)) @ frags (unat B) (body b) = gs @ fragments (unat B) (tx_q (conn_cb s i))
    \<and> tx_inv i cid B C (runs @ [gs]) (c\<lparr>core := s, messages := messages c @ [body b], calls := calls c @ [handed (core c) s]\<rparr>)"
proof -
  let ?s = "core c" and ?s1 = "upd_conn i (\<lambda>c. c\<lparr>tx_q := tx_q c @ [b]\<rparr>) (core c)"
  from v show ?thesis
  proof (rule tx_invE)
    assume o: "tx_open i cid B C ?s" and fs: "calls c = map (\<lambda>fs. wire cid (flags True fs)) runs" "hal_out ?s = concat (calls c)"
      "concat (map (frags (unat B)) (messages c)) = concat runs @ fragments (unat B) (tx_q (conn_cb ?s i))"
      "returned c + unat C = length (concat runs) + unat (num_buff (conn_cb ?s i))"
      and ok: "\<forall>b \<in> set (tx_q (conn_cb ?s i)). tx_ok b" and n: "num_buff (conn_cb ?s i) \<le> C"
    have e: "NFC_SendData quiet_nfc cid (Some b) ?s = send_loop i True ?s1"
      using o off by (simp add: NFC_SendData_def send_data_open [OF o] tx_open_def)
    have o1: "tx_open i cid B C ?s1" using o unfolding tx_open_def by simp
    obtain s' gs where s': "send_loop i True ?s1 = Some (NFC_STATUS_OK, s')"
      "fragments (unat B) (tx_q (conn_cb ?s i)) @ frags (unat B) (body b) = gs @ fragments (unat B) (tx_q (conn_cb s' i))"
      "tx_inv i cid B C (runs @ [gs]) \<lparr>core = s', messages = messages c @ [body b], returned = returned c, calls = calls c @ [handed ?s1 s']\<rparr>"
      using tx_run_inv [OF o1 _ _ fs(1), of "messages c @ [body b]" "returned c"] fs ok n b by auto
    have h: "handed ?s1 s' = handed ?s s'" by (simp add: handed_def)
    have eq: "c\<lparr>core := s', messages := messages c @ [body b], calls := calls c @ [handed ?s s']\<rparr>
      = \<lparr>core = s', messages = messages c @ [body b], returned = returned c, calls = calls c @ [handed ?s s']\<rparr>"
      by (cases c) simp
    show ?thesis using s'(1,2) e by (intro exI [of _ s'] exI [of _ gs] conjI) (simp, simp, simp only: eq s'(3) [unfolded h])
  qed
qed

lemma credit_inv:
  assumes v: "tx_inv i cid B C runs c" and n: "returned c + unat n \<le> length (hal_out (core c))"
  shows "\<exists>s gs. nfc_ncif_proc_credits quiet_nfc [1, cid, n] 0 (core c) = Some s
    \<and> fragments (unat B) (tx_q (conn_cb (core c) i)) = gs @ fragments (unat B) (tx_q (conn_cb s i))
    \<and> tx_inv i cid B C (runs @ [gs]) (c\<lparr>core := s, returned := returned c + unat n, calls := calls c @ [handed (core c) s]\<rparr>)"
  using v
proof (rule tx_invE)
  let ?s = "core c" and ?s1 = "upd_conn i (\<lambda>c. c\<lparr>num_buff := min (num_buff c + n) (init_credits c)\<rparr>) (core c)"
  assume o: "tx_open i cid B C ?s" and fs: "calls c = map (\<lambda>fs. wire cid (flags True fs)) runs" "hal_out ?s = concat (calls c)"
    "concat (map (frags (unat B)) (messages c)) = concat runs @ fragments (unat B) (tx_q (conn_cb ?s i))"
    "returned c + unat C = length (concat runs) + unat (num_buff (conn_cb ?s i))"
    and ok: "\<forall>b \<in> set (tx_q (conn_cb ?s i)). tx_ok b" and nc: "num_buff (conn_cb ?s i) \<le> C"
  have C: "unat C < 255" "init_credits (conn_cb ?s i) = C" using o unat_byte_less [of C] by (auto simp: tx_open_def word_unat_eq_iff)
  have "length (hal_out ?s) = length (concat runs)" unfolding fs(2) unfolding fs(1) by simp
  then have le: "unat (num_buff (conn_cb ?s i)) + unat n \<le> unat C" using n fs by simp
  then have s: "unat (num_buff (conn_cb ?s i) + n) = unat (num_buff (conn_cb ?s i)) + unat n"
    using C by (simp add: unat_word_ariths)
  have m: "min (num_buff (conn_cb ?s i) + n) C = num_buff (conn_cb ?s i) + n"
    using le s by (simp add: min_def word_le_nat_alt)
  have nb: "num_buff (conn_cb ?s i) \<noteq> NFC_CONN_NO_FC" using nc C by (auto simp: word_le_nat_alt)
  have o1: "tx_open i cid B C ?s1" using o unfolding tx_open_def by simp
  have e: "nfc_ncif_proc_credits quiet_nfc [1, cid, n] 0 ?s = map_option snd (send_loop i True ?s1)"
    using o nb send_data_open(2) [OF o1]
    by (cases "send_loop i True ?s1") (auto simp: nfc_ncif_proc_credits_def tx_open_def numeral_eq_Suc)
  obtain s' gs where s': "send_loop i True ?s1 = Some (NFC_STATUS_OK, s')"
    "fragments (unat B) (tx_q (conn_cb ?s i)) = gs @ fragments (unat B) (tx_q (conn_cb s' i))"
    "tx_inv i cid B C (runs @ [gs]) \<lparr>core = s', messages = messages c, returned = returned c + unat n, calls = calls c @ [handed ?s1 s']\<rparr>"
    using tx_run_inv [OF o1 _ _ fs(1), of "messages c" "returned c + unat n"] fs ok le m s C by (auto simp: word_le_nat_alt)
  have h: "handed ?s1 s' = handed ?s s'" by (simp add: handed_def)
  have eq: "c\<lparr>core := s', returned := returned c + unat n, calls := calls c @ [handed ?s s']\<rparr>
    = \<lparr>core = s', messages = messages c, returned = returned c + unat n, calls = calls c @ [handed ?s s']\<rparr>"
    by (cases c) simp
  show ?thesis using s'(1,2) e by (intro exI [of _ s'] exI [of _ gs] conjI) (simp, simp, simp only: eq s'(3) [unfolded h])
qed

lemma tx_inv_step:
  "tx_step cid c c' \<Longrightarrow> tx_inv i cid B C runs c \<Longrightarrow> \<exists>gs. tx_inv i cid B C (runs @ [gs]) c'
    \<and> (\<exists>b. messages c' = messages c @ [b]
          \<and> fragments (unat B) (tx_q (conn_cb (core c) i)) @ frags (unat B) b = gs @ fragments (unat B) (tx_q (conn_cb (core c') i))
      \<or> messages c' = messages c
          \<and> fragments (unat B) (tx_q (conn_cb (core c) i)) = gs @ fragments (unat B) (tx_q (conn_cb (core c') i)))"
proof (induction rule: tx_step.induct)
  case (submit b c st s)
  then show ?case using submit_inv [OF submit(4,1,2)] by fastforce
next
  case (credit n c s)
  then show ?case using credit_inv [OF credit(3,2)] by fastforce
qed

lemma tx_inv_reach: "(tx_step cid)\<^sup>*\<^sup>* c c' \<Longrightarrow> tx_inv i cid B C runs c \<Longrightarrow> \<exists>runs'. tx_inv i cid B C runs' c'"
proof (induction rule: rtranclp_induct)
  case (step c' c'')
  then show ?case using tx_inv_step by blast
qed blast

text \<open>
  Submissions after which no call sends the fragment of another message behind a last one: a message
  that is longer than a packet is submitted only when nothing is queued.
\<close>

definition polite :: "nat \<Rightarrow> byte \<Rightarrow> tx_link \<Rightarrow> tx_link \<Rightarrow> bool" where
  "polite i B c c' \<longleftrightarrow> messages c' = messages c \<or> tx_q (conn_cb (core c) i) = [] \<or> length (last (messages c')) \<le> unat B"

lemma polite_step:
  assumes st: "tx_step cid c c'" "polite i B c c'" and v: "tx_inv i cid B C runs c"
    and own: "\<forall>fs \<in> set runs. own_flags fs" "own_flags (fragments (unat B) (tx_q (conn_cb (core c) i)))"
  shows "\<exists>runs'. tx_inv i cid B C runs' c' \<and> (\<forall>fs \<in> set runs'. own_flags fs)
    \<and> own_flags (fragments (unat B) (tx_q (conn_cb (core c') i)))"
proof -
  let ?q = "fragments (unat B) (tx_q (conn_cb (core c) i))" and ?q' = "fragments (unat B) (tx_q (conn_cb (core c') i))"
  have B: "0 < unat B" using v by (auto simp: tx_inv_def tx_open_def unat_gt_0)
  obtain gs where gs: "tx_inv i cid B C (runs @ [gs]) c'"
    "(\<exists>b. messages c' = messages c @ [b] \<and> ?q @ frags (unat B) b = gs @ ?q') \<or> messages c' = messages c \<and> ?q = gs @ ?q'"
    using tx_inv_step [OF st(1) v] by blast
  have "own_flags (gs @ ?q')"
    using gs(2)
  proof (elim disjE exE conjE)
    fix b assume b: "messages c' = messages c @ [b]" "?q @ frags (unat B) b = gs @ ?q'"
    then consider "tx_q (conn_cb (core c) i) = []" | "length b \<le> unat B"
      using st(2) by (auto simp: polite_def)
    then have "own_flags (?q @ frags (unat B) b)"
    proof cases
      case 1
      then show ?thesis using own_flags_frags [OF B] by simp
    next
      case 2
      then show ?thesis using own_flags_last [OF own(2)] by (simp add: frags_short)
    qed
    then show ?thesis using b(2) by simp
  next
    assume "?q = gs @ ?q'"
    then show ?thesis using own(2) by simp
  qed
  then have "own_flags gs" "own_flags ?q'" by (rule own_flags_prefix, rule own_flags_suffix)
  then show ?thesis using gs(1) own(1) by (intro exI [of _ "runs @ [gs]"]) auto
qed

lemma polite_reach:
  "(\<lambda>c c'. tx_step cid c c' \<and> polite i B c c')\<^sup>*\<^sup>* c c' \<Longrightarrow> tx_inv i cid B C runs c \<Longrightarrow>
    \<forall>fs \<in> set runs. own_flags fs \<Longrightarrow> own_flags (fragments (unat B) (tx_q (conn_cb (core c) i))) \<Longrightarrow>
    \<exists>runs'. tx_inv i cid B C runs' c' \<and> (\<forall>fs \<in> set runs'. own_flags fs)
      \<and> own_flags (fragments (unat B) (tx_q (conn_cb (core c') i)))"
proof (induction rule: rtranclp_induct)
  case (step c' c'')
  then show ?case using polite_step by blast
qed blast

text \<open>A connection as its creation leaves it.\<close>

definition tx_start :: "nat \<Rightarrow> byte \<Rightarrow> byte \<Rightarrow> byte \<Rightarrow> tx_link \<Rightarrow> bool" where
  "tx_start i cid B C c \<longleftrightarrow> tx_open i cid B C (core c) \<and> tx_q (conn_cb (core c) i) = []
     \<and> num_buff (conn_cb (core c) i) = C \<and> hal_out (core c) = [] \<and> messages c = [] \<and> returned c = 0 \<and> calls c = []"

lemma tx_start_inv: "tx_start i cid B C c \<Longrightarrow> tx_inv i cid B C [] c"
  unfolding tx_start_def tx_inv_def by simp

end
