(* ===== verification/Nci_Receive.thy ===== *)
theory Nci_Receive
  imports Nci_Send
begin

text \<open>
  What the reassembly delivers. The contents of packets, of received buffers and of data events are
  compared as streams of bytes in which \<open>None\<close> stands for the end of a message. The properties are
  for connections without the status byte of the T1T, T2T and T3T targets and with callbacks that do not
  call back (\<open>quiet_nfc\<close>).
\<close>

definition marked :: "byte list \<Rightarrow> bool \<Rightarrow> byte option list" where
  "marked bs final = map Some bs @ (if final then [None] else [])"

definition frag_stream :: "(bool \<times> byte list) list \<Rightarrow> byte option list" where
  "frag_stream fs = concat (map (\<lambda>(pbf, bs). marked bs (\<not> pbf)) fs)"

definition queue_stream :: "bt_hdr list \<Rightarrow> byte option list" where
  "queue_stream q = concat (map (\<lambda>b. marked (drop NCI_MSG_HDR_SIZE (body b)) (layer_specific b = 0)) q)"

text \<open>The data events of callback \<open>k\<close>.\<close>

fun data_of :: "nat \<Rightarrow> byte \<Rightarrow> cb_call \<Rightarrow> (byte \<times> byte list) list" where
  "data_of k cid (Conn_cback k' cid' (NFC_DATA_CEVT st b)) = (if k' = k \<and> cid' = cid then [(st, body b)] else [])"
| "data_of k cid _ = []"

definition data_events :: "nat \<Rightarrow> byte \<Rightarrow> cb_call list \<Rightarrow> (byte \<times> byte list) list" where
  "data_events k cid cs = concat (map (data_of k cid) cs)"

definition event_stream :: "(byte \<times> byte list) list \<Rightarrow> byte option list" where
  "event_stream es = concat (map (\<lambda>(st, bs). marked bs (st = NFC_STATUS_OK)) es)"

lemma stream_simps [simp]:
  "frag_stream [] = []" "frag_stream ((pbf, bs) # fs) = marked bs (\<not> pbf) @ frag_stream fs"
  "frag_stream (fs @ gs) = frag_stream fs @ frag_stream gs"
  "queue_stream [] = []"
  "queue_stream (b # q) = marked (drop NCI_MSG_HDR_SIZE (body b)) (layer_specific b = 0) @ queue_stream q"
  "queue_stream (q @ r) = queue_stream q @ queue_stream r"
  "event_stream [] = []" "event_stream ((st, bs) # es) = marked bs (st = NFC_STATUS_OK) @ event_stream es"
  "event_stream (es @ es') = event_stream es @ event_stream es'"
  "data_events k cid [] = []" "data_events k cid (cs @ cs') = data_events k cid cs @ data_events k cid cs'"
  "data_events k cid (c # cs) = data_of k cid c @ data_events k cid cs"
  by (simp_all add: frag_stream_def queue_stream_def event_stream_def data_events_def)

lemma marked_split: "marked (xs @ ys) f = marked xs False @ marked ys f"
  by (simp add: marked_def)

section \<open>Connections that receive\<close>

text \<open>
  The received buffers: at most one is kept, from the pool of the HAL or, grown, from the biggest pool.
\<close>

definition rx_buffer :: "bt_hdr \<Rightarrow> bool" where
  "rx_buffer b \<longleftrightarrow> NCI_MSG_HDR_SIZE \<le> length (body b) \<and> (layer_specific b = 0 \<or> layer_specific b = NFC_RAS_FRAGMENTED)
     \<and> (bsize b = NFC_NCI_POOL_BUF_SIZE \<or> bsize b = GKI_MAX_BUF_SIZE) \<and> BT_HDR_SIZE + unat (offset b) + length (body b) \<le> unat (bsize b)
     \<and> unat (offset b) = NFC_RECEIVE_MSGS_OFFSET"

definition rx_open :: "nat \<Rightarrow> byte \<Rightarrow> nat \<Rightarrow> nfc_cb \<Rightarrow> bool" where
  "rx_open i cid k s \<longleftrightarrow>
     nfc_find_conn_cb_by_conn_id cid s = Some i \<and> conn_id (conn_cb s i) = cid \<and> cid AND NCI_CID_MASK = cid
     \<and> p_cback (conn_cb s i) = Some k \<and> \<not> has_status_byte (conn_cb s i)"

definition rx_inv :: "nat \<Rightarrow> byte \<Rightarrow> nat \<Rightarrow> nfc_cb \<Rightarrow> bool" where
  "rx_inv i cid k s \<longleftrightarrow> rx_open i cid k s
     \<and> (rx_q (conn_cb s i) = []
        \<or> (\<exists>b. rx_q (conn_cb s i) = [b] \<and> rx_buffer b))"

text \<open>A data packet as the HAL callback puts it into a buffer of the NCI pool.\<close>

definition rx_packet :: "byte list \<Rightarrow> bt_hdr" where
  "rx_packet bs = \<lparr>bsize = NFC_NCI_POOL_BUF_SIZE, offset = of_nat NFC_RECEIVE_MSGS_OFFSET, layer_specific = 0, body = bs\<rparr>"

text \<open>The event of a buffer without status byte, and the state after it, with queue \<open>q\<close>.\<close>

definition status_of :: "bt_hdr \<Rightarrow> byte" where
  "status_of b = (if layer_specific b \<noteq> 0 then NFC_STATUS_CONTINUE else NFC_STATUS_OK)"

definition without_hdr :: "bt_hdr \<Rightarrow> bt_hdr" where
  "without_hdr b = b\<lparr>offset := offset b + of_nat NCI_MSG_HDR_SIZE, body := drop NCI_MSG_HDR_SIZE (body b)\<rparr>"

lemma data_cevt_plain:
  "\<not> has_status_byte c \<Longrightarrow> NCI_MSG_HDR_SIZE \<le> length (body b) \<Longrightarrow>
     data_cevt c b = Some (NFC_DATA_CEVT (status_of b) (without_hdr b))"
  by (simp add: data_cevt_def status_of_def without_hdr_def Let_def)

lemma status_byte_rx_q [simp]: "has_status_byte (c\<lparr>rx_q := q\<rparr>) = has_status_byte c"
  by (simp add: has_status_byte_def)

definition deliver_one :: "nat \<Rightarrow> bt_hdr \<Rightarrow> bt_hdr list \<Rightarrow> nfc_cb \<Rightarrow> nfc_cb" where
  "deliver_one i b q s =
     (let s = upd_conn i (\<lambda>c. c\<lparr>rx_q := q\<rparr>) s;
          s = (if layer_specific b = 0 then s\<lparr>reassembly := True\<rparr> else s) in
      s\<lparr>app_log := app_log s @ [Conn_cback (the (p_cback (conn_cb s i))) (conn_id (conn_cb s i))
        (NFC_DATA_CEVT (status_of b) (without_hdr b))]\<rparr>)"

lemma data_loop_Nil: "rx_q (conn_cb s i) = [] \<Longrightarrow> data_loop E i s = Some s"
  by (simp add: data_loop.simps)

lemma data_loop_wait: "rx_q (conn_cb s i) = b # q \<Longrightarrow> incomplete s i b \<Longrightarrow> data_loop E i s = Some s"
  by (simp add: data_loop.simps)

lemma data_loop_deliver:
  assumes "rx_q (conn_cb s i) = b # q" "\<not> incomplete s i b" "rx_open i cid k s" "NCI_MSG_HDR_SIZE \<le> length (body b)"
  shows "data_loop quiet_nfc i s = data_loop quiet_nfc i (deliver_one i b q s)"
proof -
  have p: "p_cback (conn_cb s i) = Some k" and n: "\<not> has_status_byte (conn_cb s i)"
    using assms(3) by (simp_all add: rx_open_def)
  show ?thesis
    by (subst data_loop.simps)
      (simp add: assms(1,2) p n data_cevt_plain [OF _ assms(4)] deliver_one_def quiet_nfc_def Let_def)
qed

lemma deliver_one_frame:
  assumes "rx_open i cid k s"
  shows "rx_open i cid k (deliver_one i b q s)" "rx_q (conn_cb (deliver_one i b q s) i) = q"
    "data_events k cid (app_log (deliver_one i b q s)) = data_events k cid (app_log s)
      @ [(status_of b, drop NCI_MSG_HDR_SIZE (body b))]"
    "reassembly (deliver_one i b q s) = (reassembly s \<or> layer_specific b = 0)"
    "buffers (deliver_one i b q s) = buffers s"
proof -
  have "nfc_find_conn_cb_by_conn_id cid (deliver_one i b q s) = nfc_find_conn_cb_by_conn_id cid s"
    by (rule find_conn_cong) (simp_all add: deliver_one_def upd_conn_def Let_def)
  then show "rx_open i cid k (deliver_one i b q s)" using assms
    by (simp add: rx_open_def) (simp add: deliver_one_def has_status_byte_def upd_conn_def Let_def)
  show "rx_q (conn_cb (deliver_one i b q s) i) = q" "reassembly (deliver_one i b q s) = (reassembly s \<or> layer_specific b = 0)"
    "buffers (deliver_one i b q s) = buffers s"
    by (simp_all add: deliver_one_def Let_def)
  show "data_events k cid (app_log (deliver_one i b q s)) = data_events k cid (app_log s)
      @ [(status_of b, drop NCI_MSG_HDR_SIZE (body b))]"
    using assms by (simp add: deliver_one_def without_hdr_def rx_open_def Let_def)
qed

text \<open>The loop over one and over two buffers.\<close>

lemma event_wait:
  assumes "rx_open i cid k s" "rx_q (conn_cb s i) = [b]" "layer_specific b = NFC_RAS_FRAGMENTED"
    "cid = NFC_RF_CONN_ID \<longrightarrow> reassembly s"
  shows "nfc_data_event quiet_nfc i s = Some s"
  using assms by (auto simp: nfc_data_event_def rx_open_def incomplete_def ras_flag_def intro!: data_loop_wait)

lemma event_last:
  assumes "rx_open i cid k s" "rx_q (conn_cb s i) = [b]" "NCI_MSG_HDR_SIZE \<le> length (body b)"
    "layer_specific b = 0 \<or> ras_flag NFC_RAS_TOO_BIG b"
  shows "nfc_data_event quiet_nfc i s = Some (deliver_one i b [] s)"
proof -
  have "\<not> incomplete s i b" using assms(4) by (auto simp: incomplete_def ras_flag_def)
  then have "data_loop quiet_nfc i s = Some (deliver_one i b [] s)"
    using data_loop_deliver [OF assms(2) _ assms(1,3)] data_loop_Nil deliver_one_frame(2) [OF assms(1)] by metis
  then show ?thesis using assms(1) by (simp add: nfc_data_event_def rx_open_def)
qed

lemma event_next:
  assumes "rx_open i cid k s" "rx_q (conn_cb s i) = [b0, b]" "NCI_MSG_HDR_SIZE \<le> length (body b0)" "layer_specific b0 = 0"
  shows "nfc_data_event quiet_nfc i s = nfc_data_event quiet_nfc i (deliver_one i b0 [b] s)"
proof -
  have "\<not> incomplete s i b0" using assms(4) by (auto simp: incomplete_def ras_flag_def)
  then have "data_loop quiet_nfc i s = data_loop quiet_nfc i (deliver_one i b0 [b] s)"
    using data_loop_deliver [OF assms(2) _ assms(1,3)] by simp
  then show ?thesis using assms(1) deliver_one_frame(1) [OF assms(1), of b0 "[b]"] by (simp add: nfc_data_event_def rx_open_def)
qed

text \<open>The effect of one packet on the events and on what is kept.\<close>

definition rx_effect :: "nat \<Rightarrow> byte \<Rightarrow> nat \<Rightarrow> nfc_cb \<Rightarrow> (byte \<times> byte list) list \<Rightarrow> bt_hdr list \<Rightarrow> nfc_cb \<Rightarrow> bool" where
  "rx_effect i cid k s es q s' \<longleftrightarrow>
     rx_open i cid k s' \<and> rx_q (conn_cb s' i) = q \<and> data_events k cid (app_log s') = data_events k cid (app_log s) @ es
     \<and> (reassembly s \<longrightarrow> reassembly s') \<and> sset (buffers s') \<subseteq> sset (buffers s)"

lemma rx_effect_trans:
  "rx_effect i cid k s es q s' \<Longrightarrow> rx_effect i cid k s' es' q' s'' \<Longrightarrow> rx_effect i cid k s (es @ es') q' s''"
  unfolding rx_effect_def by auto

lemma rx_effect_deliver:
  "rx_open i cid k s \<Longrightarrow> rx_effect i cid k s [(status_of b, drop NCI_MSG_HDR_SIZE (body b))] q (deliver_one i b q s)"
  by (simp add: rx_effect_def deliver_one_frame)

lemma rx_effect_queue:
  "rx_open i cid k s \<Longrightarrow> rx_effect i cid k s [] q (upd_conn i (\<lambda>c. c\<lparr>rx_q := q\<rparr>) s)"
proof -
  assume o: "rx_open i cid k s"
  have "nfc_find_conn_cb_by_conn_id cid (upd_conn i (\<lambda>c. c\<lparr>rx_q := q\<rparr>) s) = nfc_find_conn_cb_by_conn_id cid s"
    by (rule find_conn_cong) simp_all
  then show ?thesis using o by (simp add: rx_effect_def rx_open_def)
qed

text \<open>Received packets.\<close>

lemma packet_header:
  fixes cid :: byte
  assumes "cid AND NCI_CID_MASK = cid"
  shows "(push_bit 4 (if pbf then 1 else 0) OR cid) AND NCI_CID_MASK = cid"
    "hdr_pbf (push_bit 4 (if pbf then 1 else 0) OR cid) \<noteq> 0 \<longleftrightarrow> pbf"
proof -
  have "push_bit 4 (1 :: byte) AND 0x0F = 0" by (simp add: push_bit_eq_mult)
  then show "(push_bit 4 (if pbf then 1 else 0) OR cid) AND NCI_CID_MASK = cid"
    using assms by (simp add: bit.conj_disj_distrib2)
  have "cid AND 0x10 = 0"
  proof -
    have "cid AND 0x10 = cid AND (0x0F AND 0x10)" using assms by (simp only: and.assoc [symmetric])
    then show ?thesis by simp
  qed
  then show "hdr_pbf (push_bit 4 (if pbf then 1 else 0) OR cid) \<noteq> 0 \<longleftrightarrow> pbf"
    by (simp add: hdr_pbf_def bit.conj_disj_distrib2 push_bit_eq_mult drop_bit_eq_div)
qed

definition rx_new :: "bool \<Rightarrow> byte \<Rightarrow> byte list \<Rightarrow> bt_hdr" where
  "rx_new pbf cid bs = rx_packet (data_packet pbf cid bs)\<lparr>layer_specific := if pbf then NFC_RAS_FRAGMENTED else 0\<rparr>"

lemma rx_new_simps [simp]:
  "drop NCI_MSG_HDR_SIZE (body (rx_new pbf cid bs)) = bs"
  "layer_specific (rx_new pbf cid bs) = (if pbf then NFC_RAS_FRAGMENTED else 0)"
  "NCI_MSG_HDR_SIZE \<le> length (body (rx_new pbf cid bs))"
  by (simp_all add: rx_new_def rx_packet_def data_packet_def nci_sizes)

lemma rx_new_buffer: "length bs < 256 \<Longrightarrow> rx_buffer (rx_new pbf cid bs)"
  by (simp add: rx_buffer_def rx_new_def rx_packet_def data_packet_def nci_sizes)

section \<open>One packet\<close>

definition chained :: "bool \<Rightarrow> nfc_cb \<Rightarrow> nfc_cb" where
  "chained pbf s = (if pbf then s\<lparr>reassembly := True\<rparr> else s)"

lemma chained_effect: "rx_open i cid k s \<Longrightarrow> rx_effect i cid k s [] (rx_q (conn_cb s i)) (chained pbf s)"
proof -
  assume o: "rx_open i cid k s"
  have "nfc_find_conn_cb_by_conn_id cid (chained pbf s) = nfc_find_conn_cb_by_conn_id cid s"
    by (rule find_conn_cong) (simp_all add: chained_def)
  then show ?thesis using o by (simp add: rx_effect_def rx_open_def) (simp add: chained_def)
qed

lemma proc_data_open:
  assumes o: "rx_open i cid k s" and bs: "length bs < 256"
  shows "nfc_ncif_proc_data quiet_nfc (rx_packet (data_packet pbf cid bs)) s =
     (let s = chained pbf s; q = rx_q (conn_cb s i) in
      if q \<noteq> [] \<and> ras_flag NFC_RAS_FRAGMENTED (last q) then do {
        let (l, s) = grow_last (last q) (of_nat (length bs)) s;
        if \<not> ras_flag NFC_RAS_TOO_BIG l then do {
          l \<leftarrow> append_bytes bs l;
          nfc_data_event quiet_nfc i (upd_conn i (\<lambda>c. c\<lparr>rx_q := butlast q @ [l\<lparr>layer_specific := layer_specific (rx_new pbf cid bs)\<rparr>]\<rparr>) s) }
        else do {
          s \<leftarrow> nfc_data_event quiet_nfc i (upd_conn i (\<lambda>c. c\<lparr>rx_q := butlast q @ [l]\<rparr>) s);
          Some (upd_conn i (\<lambda>c. c\<lparr>rx_q := rx_q c @ [rx_new pbf cid bs]\<rparr>) s) } }
      else do {
        s \<leftarrow> (if pbf \<and> cid = NFC_RF_CONN_ID then conn_cback quiet_nfc (Some k) cid NFC_DATA_START_CEVT s else Some s);
        nfc_data_event quiet_nfc i (upd_conn i (\<lambda>c. c\<lparr>rx_q := rx_q c @ [rx_new pbf cid bs]\<rparr>) s) })"
proof -
  define h where "h = push_bit 4 (if pbf then 1 else 0) OR cid"
  define b where "b = rx_packet (data_packet pbf cid bs)"
  have m: "h AND NCI_CID_MASK = cid" "hdr_pbf h \<noteq> 0 \<longleftrightarrow> pbf" using o packet_header [of cid pbf] by (simp_all add: rx_open_def h_def)
  have f: "nfc_find_conn_cb_by_conn_id cid s = Some i" and c: "conn_id (conn_cb s i) = cid" "p_cback (conn_cb s i) = Some k"
    using o by (simp_all add: rx_open_def)
  have r: "rd (body b) 0 = Some h" "rd (body b) 2 = Some (of_nat (length bs))"
    by (simp_all add: b_def h_def rx_packet_def data_packet_def numeral_2_eq_2)
  have n: "b\<lparr>layer_specific := if pbf then NFC_RAS_FRAGMENTED else 0\<rparr> = rx_new pbf cid bs"
    by (simp add: b_def rx_new_def)
  have d: "drop NCI_MSG_HDR_SIZE (body b) = bs"
    by (simp add: b_def rx_packet_def data_packet_def nci_sizes)
  have l: "\<not> unat (blen b) < NCI_DATA_HDR_SIZE"
    using bs by (simp add: b_def rx_packet_def data_packet_def nci_sizes blen_def unat_of_nat unat_word_ariths)
  have a: "(if pbf then s\<lparr>reassembly := True\<rparr> else s) = chained pbf s" by (simp add: chained_def)
  have q: "conn_cb (chained pbf s) = conn_cb s" by (simp add: chained_def)
  have x: "body (b\<lparr>layer_specific := y\<rparr>) = body b" for y by simp
  show ?thesis
    unfolding b_def [symmetric] nfc_ncif_proc_data_def r bind.bind_lunit m f option.case Let_def x n d q c
    by (simp only: l if_False bind.bind_lunit a q c n d refl)
qed

text \<open>A packet that is not joined to a kept fragment: after what is complete, it starts a message.\<close>

lemma new_packet:
  assumes "rx_open i cid k s" "rx_q (conn_cb s i) = [rx_new pbf cid bs]" "pbf \<longrightarrow> reassembly s"
  shows "\<exists>s'. nfc_data_event quiet_nfc i s = Some s'
    \<and> rx_effect i cid k s (if pbf then [] else [(NFC_STATUS_OK, bs)]) (if pbf then [rx_new pbf cid bs] else []) s'"
proof (cases pbf)
  case True
  then have "nfc_data_event quiet_nfc i s = Some s" using event_wait [OF assms(1,2)] assms(3) by simp
  then show ?thesis using True assms(1,2) by (simp add: rx_effect_def)
next
  case False
  then have "nfc_data_event quiet_nfc i s = Some (deliver_one i (rx_new False cid bs) [] s)"
    using event_last [OF assms(1,2)] by simp
  then show ?thesis using False rx_effect_deliver [OF assms(1), of "rx_new False cid bs" "[]"] by (simp add: status_of_def)
qed

lemma start_event:
  assumes "rx_open i cid k s"
  shows "\<exists>s'. (if p then conn_cback quiet_nfc (Some k) cid NFC_DATA_START_CEVT s else Some s) = Some s'
    \<and> rx_effect i cid k s [] (rx_q (conn_cb s i)) s' \<and> rx_q (conn_cb s' i) = rx_q (conn_cb s i)"
proof (cases p)
  case True
  let ?s = "s\<lparr>app_log := app_log s @ [Conn_cback k cid NFC_DATA_START_CEVT]\<rparr>"
  have "nfc_find_conn_cb_by_conn_id cid ?s = nfc_find_conn_cb_by_conn_id cid s" by (rule find_conn_cong) simp_all
  then have "rx_effect i cid k s [] (rx_q (conn_cb s i)) ?s" using assms by (simp add: rx_effect_def rx_open_def)
  then show ?thesis using True by (simp add: conn_cback_def quiet_nfc_def)
qed (simp add: assms rx_effect_def)

lemma rx_effect_open: "rx_effect i cid k s es q s' \<Longrightarrow> rx_open i cid k s'"
  by (simp add: rx_effect_def)

lemma rx_effect_q: "rx_effect i cid k s es q s' \<Longrightarrow> rx_q (conn_cb s' i) = q"
  by (simp add: rx_effect_def)

definition packet_of :: "bool \<Rightarrow> byte \<Rightarrow> byte list \<Rightarrow> bt_hdr" where
  "packet_of pbf cid bs = rx_packet (data_packet pbf cid bs)"

text \<open>The events and the queue after a packet that is not joined.\<close>

definition fresh :: "bool \<Rightarrow> byte \<Rightarrow> byte list \<Rightarrow> bt_hdr list" where
  "fresh pbf cid bs = (if pbf then [rx_new pbf cid bs] else [])"

definition whole :: "bool \<Rightarrow> byte list \<Rightarrow> (byte \<times> byte list) list" where
  "whole pbf bs = (if pbf then [] else [(NFC_STATUS_OK, bs)])"

text \<open>The event for what is kept.\<close>

definition kept_event :: "bt_hdr \<Rightarrow> byte \<times> byte list" where
  "kept_event b = (status_of b, drop NCI_MSG_HDR_SIZE (body b))"

lemma kept_then_new:
  assumes o: "rx_open i cid k s" and r: "pbf \<longrightarrow> reassembly s"
    and q: "rx_q (conn_cb s i) = kept @ [rx_new pbf cid bs]"
    and k: "kept = [] \<or> (\<exists>b. kept = [b] \<and> layer_specific b = 0 \<and> NCI_MSG_HDR_SIZE \<le> length (body b))"
  shows "\<exists>s'. nfc_data_event quiet_nfc i s = Some s'
    \<and> rx_effect i cid k s (map kept_event kept @ whole pbf bs) (fresh pbf cid bs) s'"
proof (cases kept)
  case Nil
  then show ?thesis using new_packet [OF o _ r, of bs] q by (simp add: whole_def fresh_def)
next
  case (Cons b bs')
  then have b: "kept = [b]" "layer_specific b = 0" "NCI_MSG_HDR_SIZE \<le> length (body b)" using k by auto
  let ?d = "deliver_one i b [rx_new pbf cid bs] s"
  have d: "rx_effect i cid k s [kept_event b] [rx_new pbf cid bs] ?d" unfolding kept_event_def by (rule rx_effect_deliver [OF o])
  then have "pbf \<longrightarrow> reassembly ?d" using r unfolding rx_effect_def by blast
  then obtain s' where s': "nfc_data_event quiet_nfc i ?d = Some s'" "rx_effect i cid k ?d (whole pbf bs) (fresh pbf cid bs) s'"
    using new_packet [OF rx_effect_open [OF d] rx_effect_q [OF d]] unfolding whole_def fresh_def by blast
  have "nfc_data_event quiet_nfc i s = Some s'" using event_next [OF o _ b(3,2), of "rx_new pbf cid bs"] q b(1) s'(1) by simp
  then show ?thesis using rx_effect_trans [OF d s'(2)] b(1) by auto
qed

lemma packet_first:
  assumes o: "rx_open i cid k s" and bs: "length bs < 256"
    and k: "rx_q (conn_cb s i) = [] \<or> (\<exists>b. rx_q (conn_cb s i) = [b] \<and> layer_specific b = 0 \<and> NCI_MSG_HDR_SIZE \<le> length (body b))"
  shows "\<exists>s'. nfc_ncif_proc_data quiet_nfc (packet_of pbf cid bs) s = Some s'
    \<and> rx_effect i cid k s (map kept_event (rx_q (conn_cb s i)) @ whole pbf bs) (fresh pbf cid bs) s'"
proof -
  let ?c = "chained pbf s" and ?q = "rx_q (conn_cb s i)"
  have c: "rx_effect i cid k s [] ?q ?c" using chained_effect [OF o, of pbf] by simp
  obtain s1 where s1: "(if pbf \<and> cid = NFC_RF_CONN_ID then conn_cback quiet_nfc (Some k) cid NFC_DATA_START_CEVT ?c else Some ?c) = Some s1"
    "rx_effect i cid k ?c [] ?q s1"
    using start_event [OF rx_effect_open [OF c], of "pbf \<and> cid = NFC_RF_CONN_ID"] rx_effect_q [OF c] by auto
  let ?s2 = "upd_conn i (\<lambda>c. c\<lparr>rx_q := ?q @ [rx_new pbf cid bs]\<rparr>) s1"
  have s2: "rx_effect i cid k s1 [] (?q @ [rx_new pbf cid bs]) ?s2" by (rule rx_effect_queue [OF rx_effect_open [OF s1(2)]])
  have "pbf \<longrightarrow> reassembly ?s2" using s1(2) s2 by (auto simp: rx_effect_def chained_def)
  then obtain s' where s': "nfc_data_event quiet_nfc i ?s2 = Some s'"
    "rx_effect i cid k ?s2 (map kept_event ?q @ whole pbf bs) (fresh pbf cid bs) s'"
    using kept_then_new [OF rx_effect_open [OF s2] _ rx_effect_q [OF s2] k] by blast
  have e: "upd_conn i (\<lambda>c. c\<lparr>rx_q := rx_q c @ [rx_new pbf cid bs]\<rparr>) s1 = ?s2"
    using rx_effect_q [OF s1(2)] by (simp add: upd_conn_def)
  have n: "\<not> (?q \<noteq> [] \<and> ras_flag NFC_RAS_FRAGMENTED (last ?q))" using k by (auto simp: ras_flag_def)
  have "nfc_ncif_proc_data quiet_nfc (packet_of pbf cid bs) s = Some s'"
    unfolding packet_of_def proc_data_open [OF o bs] Let_def rx_effect_q [OF c] if_not_P [OF n] s1(1) bind.bind_lunit e by (rule s'(1))
  moreover have "rx_effect i cid k s (map kept_event ?q @ whole pbf bs) (fresh pbf cid bs) s'"
    using rx_effect_trans [OF c rx_effect_trans [OF s1(2) rx_effect_trans [OF s2 s'(2)]]] by simp
  ultimately show ?thesis by blast
qed

text \<open>A packet after a kept fragment: joined to it if the fragment can grow.\<close>

definition joined :: "bool \<Rightarrow> byte list \<Rightarrow> bt_hdr \<Rightarrow> bt_hdr" where
  "joined pbf bs l = l\<lparr>body := body l @ bs, layer_specific := if pbf then NFC_RAS_FRAGMENTED else 0\<rparr>"

lemma joined_simps [simp]:
  "layer_specific (joined pbf bs l) = (if pbf then NFC_RAS_FRAGMENTED else 0)" "body (joined pbf bs l) = body l @ bs"
  by (simp_all add: joined_def)

lemma packet_join:
  assumes o: "rx_open i cid k s" and bs: "length bs < 256" and q: "rx_q (conn_cb s i) = [b]"
    and b: "layer_specific b = NFC_RAS_FRAGMENTED" "NCI_MSG_HDR_SIZE \<le> length (body b)"
    and g: "grow_last b (of_nat (length bs)) (chained pbf s) = (l, s1)" "\<not> ras_flag NFC_RAS_TOO_BIG l"
    and l: "append_bytes bs l = Some (l\<lparr>body := body l @ bs\<rparr>)" "body l = body b"
    and s1: "rx_effect i cid k (chained pbf s) [] [b] s1"
  shows "\<exists>s'. nfc_ncif_proc_data quiet_nfc (packet_of pbf cid bs) s = Some s'
    \<and> rx_effect i cid k s (whole pbf (drop NCI_MSG_HDR_SIZE (body b) @ bs)) (if pbf then [joined pbf bs l] else []) s'"
proof -
  let ?s2 = "upd_conn i (\<lambda>c. c\<lparr>rx_q := [joined pbf bs l]\<rparr>) s1"
  have c: "rx_effect i cid k s [] [b] (chained pbf s)" using chained_effect [OF o, of pbf] q by simp
  have s2: "rx_effect i cid k s1 [] [joined pbf bs l] ?s2" by (rule rx_effect_queue [OF rx_effect_open [OF s1]])
  have h: "NCI_MSG_HDR_SIZE \<le> length (body (joined pbf bs l))" using b(2) l(2) by simp
  have j: "l\<lparr>body := body l @ bs\<rparr>\<lparr>layer_specific := layer_specific (rx_new pbf cid bs)\<rparr> = joined pbf bs l"
    by (simp add: joined_def)
  have p: "nfc_ncif_proc_data quiet_nfc (packet_of pbf cid bs) s = nfc_data_event quiet_nfc i ?s2"
    using b(1) g l(1) q j rx_effect_q [OF c] unfolding packet_of_def proc_data_open [OF o bs] by (simp add: ras_flag_def Let_def)
  have "\<exists>s'. nfc_data_event quiet_nfc i ?s2 = Some s'
    \<and> rx_effect i cid k ?s2 (whole pbf (drop NCI_MSG_HDR_SIZE (body b) @ bs)) (if pbf then [joined pbf bs l] else []) s'"
  proof (cases pbf)
    case True
    have "reassembly ?s2" using True s1 s2 by (auto simp: rx_effect_def chained_def)
    then have "nfc_data_event quiet_nfc i ?s2 = Some ?s2"
      using True by (intro event_wait [OF rx_effect_open [OF s2] rx_effect_q [OF s2]]) simp_all
    then show ?thesis using True rx_effect_open [OF s2] rx_effect_q [OF s2] by (simp add: rx_effect_def whole_def)
  next
    case False
    have "nfc_data_event quiet_nfc i ?s2 = Some (deliver_one i (joined pbf bs l) [] ?s2)"
      using False by (intro event_last [OF rx_effect_open [OF s2] rx_effect_q [OF s2] h]) simp
    then show ?thesis using False rx_effect_deliver [OF rx_effect_open [OF s2], of "joined pbf bs l" "[]"] l(2) b(2)
      by (simp add: status_of_def whole_def)
  qed
  then show ?thesis using p rx_effect_trans [OF c rx_effect_trans [OF s1 rx_effect_trans [OF s2]]] by fastforce
qed

text \<open>If it cannot grow, it is delivered and the packet is kept, even when it ends its message.\<close>

lemma packet_too_big:
  assumes o: "rx_open i cid k s" and bs: "length bs < 256" and q: "rx_q (conn_cb s i) = [b]"
    and b: "layer_specific b = NFC_RAS_FRAGMENTED" "NCI_MSG_HDR_SIZE \<le> length (body b)"
    and g: "grow_last b (of_nat (length bs)) (chained pbf s) = (l, s1)"
    and l: "l = b\<lparr>layer_specific := NFC_RAS_FRAGMENTED OR NFC_RAS_TOO_BIG\<rparr>"
    and s1: "rx_effect i cid k (chained pbf s) [] [b] s1"
  shows "\<exists>s'. nfc_ncif_proc_data quiet_nfc (packet_of pbf cid bs) s = Some s'
    \<and> rx_effect i cid k s [(NFC_STATUS_CONTINUE, drop NCI_MSG_HDR_SIZE (body b))] [rx_new pbf cid bs] s'"
proof -
  let ?s2 = "upd_conn i (\<lambda>c. c\<lparr>rx_q := [l]\<rparr>) s1" and ?n = "rx_new pbf cid bs"
  have c: "rx_effect i cid k s [] [b] (chained pbf s)" using chained_effect [OF o, of pbf] q by simp
  have s2: "rx_effect i cid k s1 [] [l] ?s2" by (rule rx_effect_queue [OF rx_effect_open [OF s1]])
  let ?d = "deliver_one i l [] ?s2"
  have big: "ras_flag NFC_RAS_TOO_BIG l" using l by (simp add: ras_flag_def)
  then have e: "nfc_data_event quiet_nfc i ?s2 = Some ?d"
    using b(2) l by (intro event_last [OF rx_effect_open [OF s2] rx_effect_q [OF s2]]) simp_all
  have d: "rx_effect i cid k ?s2 [(NFC_STATUS_CONTINUE, drop NCI_MSG_HDR_SIZE (body b))] [] ?d"
    using rx_effect_deliver [OF rx_effect_open [OF s2], of l "[]"] l by (simp add: status_of_def)
  let ?s' = "upd_conn i (\<lambda>c. c\<lparr>rx_q := [?n]\<rparr>) ?d"
  have s': "rx_effect i cid k ?d [] [?n] ?s'" by (rule rx_effect_queue [OF rx_effect_open [OF d]])
  have a: "upd_conn i (\<lambda>c. c\<lparr>rx_q := rx_q c @ [?n]\<rparr>) ?d = ?s'"
    using rx_effect_q [OF d] by (simp add: upd_conn_def)
  have "nfc_ncif_proc_data quiet_nfc (packet_of pbf cid bs) s = Some ?s'"
    using b(1) g big q e a rx_effect_q [OF c] unfolding packet_of_def proc_data_open [OF o bs] by (simp add: ras_flag_def Let_def)
  moreover have "rx_effect i cid k s [(NFC_STATUS_CONTINUE, drop NCI_MSG_HDR_SIZE (body b))] [?n] ?s'"
    using rx_effect_trans [OF c rx_effect_trans [OF s1 rx_effect_trans [OF s2 rx_effect_trans [OF d s']]]] by simp
  ultimately show ?thesis by blast
qed

text \<open>Whether the kept fragment can take \<open>n\<close> more bytes: they fit, or a bigger buffer is given.\<close>

definition takes :: "bt_hdr \<Rightarrow> nat \<Rightarrow> nfc_cb \<Rightarrow> bool" where
  "takes b n s \<longleftrightarrow> BT_HDR_SIZE + unat (offset b) + length (body b) + n \<le> unat (bsize b)
     \<or> bsize b \<noteq> GKI_MAX_BUF_SIZE \<and> shd (buffers s)"

lemma rx_effect_buffers:
  assumes "rx_open i cid k s" "sset bs \<subseteq> sset (buffers s)"
  shows "rx_effect i cid k s [] (rx_q (conn_cb s i)) (s\<lparr>buffers := bs\<rparr>)"
proof -
  have "nfc_find_conn_cb_by_conn_id cid (s\<lparr>buffers := bs\<rparr>) = nfc_find_conn_cb_by_conn_id cid s" by (rule find_conn_cong) simp_all
  then show ?thesis using assms by (simp add: rx_effect_def rx_open_def)
qed

lemma grow_effect:
  "grow_last b n s = (l, s1) \<Longrightarrow> rx_open i cid k s \<Longrightarrow> rx_effect i cid k s [] (rx_q (conn_cb s i)) s1"
  using rx_effect_buffers [of i cid k s "stl (buffers s)"] rx_effect_buffers [of i cid k s "buffers s"]
  by (auto simp: grow_last_def take_buffer_def stl_sset subset_iff split: if_splits)

lemma rx_bufferE:
  assumes "rx_buffer b"
  obtains "NCI_MSG_HDR_SIZE \<le> length (body b)" "unat (offset b) = 10" "18 + length (body b) \<le> unat (bsize b)"
    "bsize b = NFC_NCI_POOL_BUF_SIZE \<or> bsize b = GKI_MAX_BUF_SIZE"
  using assms unfolding rx_buffer_def by (auto simp: nci_sizes)

lemma grow_takes:
  assumes b: "rx_buffer b" "layer_specific b = NFC_RAS_FRAGMENTED" and n: "n < 256"
  shows "takes b n s \<Longrightarrow> \<exists>s1 z. grow_last b (of_nat n) s = (b\<lparr>bsize := z\<rparr>, s1)
      \<and> (z = NFC_NCI_POOL_BUF_SIZE \<or> z = GKI_MAX_BUF_SIZE) \<and> 18 + length (body b) + n \<le> unat z"
    and "\<not> takes b n s \<Longrightarrow> \<exists>s1. grow_last b (of_nat n) s = (b\<lparr>layer_specific := NFC_RAS_FRAGMENTED OR NFC_RAS_TOO_BIG\<rparr>, s1)"
proof -
  have u: "unat (of_nat n :: byte) = n" using n by (simp add: unat_of_nat)
  from b(1) have o: "unat (offset b) = 10" and l: "18 + length (body b) \<le> unat (bsize b)"
    and z: "bsize b = NFC_NCI_POOL_BUF_SIZE \<or> bsize b = GKI_MAX_BUF_SIZE" by (auto elim: rx_bufferE)
  have e: "b\<lparr>bsize := bsize b\<rparr> = b" by simp
  show "takes b n s \<Longrightarrow> \<exists>s1 z. grow_last b (of_nat n) s = (b\<lparr>bsize := z\<rparr>, s1)
      \<and> (z = NFC_NCI_POOL_BUF_SIZE \<or> z = GKI_MAX_BUF_SIZE) \<and> 18 + length (body b) + n \<le> unat z"
  proof (cases "18 + length (body b) + n \<le> unat (bsize b)")
    case True
    then have "grow_last b (of_nat n) s = (b\<lparr>bsize := bsize b\<rparr>, s)" using u o by (simp add: grow_last_def BT_HDR_SIZE_def)
    then show ?thesis using z True by blast
  next
    case False
    assume "takes b n s"
    then have t: "bsize b \<noteq> GKI_MAX_BUF_SIZE" "shd (buffers s)" using False o by (auto simp: takes_def BT_HDR_SIZE_def)
    then have "grow_last b (of_nat n) s = (b\<lparr>bsize := GKI_MAX_BUF_SIZE\<rparr>, snd (take_buffer s))"
      using False u o by (simp add: grow_last_def BT_HDR_SIZE_def take_buffer_def)
    moreover have "18 + length (body b) + n \<le> unat GKI_MAX_BUF_SIZE" using l z t(1) n by (auto simp: nci_sizes)
    ultimately show ?thesis by blast
  qed
  show "\<not> takes b n s \<Longrightarrow> \<exists>s1. grow_last b (of_nat n) s = (b\<lparr>layer_specific := NFC_RAS_FRAGMENTED OR NFC_RAS_TOO_BIG\<rparr>, s1)"
    using u o b(2) by (auto simp: takes_def grow_last_def take_buffer_def BT_HDR_SIZE_def)
qed

lemma packet_after_fragment:
  assumes o: "rx_open i cid k s" and bs: "length bs < 256" and q: "rx_q (conn_cb s i) = [b]"
    and b: "rx_buffer b" "layer_specific b = NFC_RAS_FRAGMENTED"
  shows "takes b (length bs) s \<Longrightarrow> \<exists>s' b'. nfc_ncif_proc_data quiet_nfc (packet_of pbf cid bs) s = Some s' \<and> rx_buffer b'
      \<and> layer_specific b' = (if pbf then NFC_RAS_FRAGMENTED else 0) \<and> body b' = body b @ bs
      \<and> rx_effect i cid k s (whole pbf (drop NCI_MSG_HDR_SIZE (body b) @ bs)) (if pbf then [b'] else []) s'"
    and "\<not> takes b (length bs) s \<Longrightarrow> \<exists>s'. nfc_ncif_proc_data quiet_nfc (packet_of pbf cid bs) s = Some s'
      \<and> rx_effect i cid k s [(NFC_STATUS_CONTINUE, drop NCI_MSG_HDR_SIZE (body b))] [rx_new pbf cid bs] s'"
proof -
  from b(1) have h: "NCI_MSG_HDR_SIZE \<le> length (body b)" and off: "unat (offset b) = 10" by (auto elim: rx_bufferE)
  have c: "rx_effect i cid k s [] [b] (chained pbf s)" using chained_effect [OF o, of pbf] q by simp
  have t: "takes b n (chained pbf s) = takes b n s" for n by (simp add: takes_def chained_def)
  have ge: "grow_last b (of_nat (length bs)) (chained pbf s) = (l, s1) \<Longrightarrow> rx_effect i cid k (chained pbf s) [] [b] s1" for l s1
    using grow_effect [OF _ rx_effect_open [OF c]] rx_effect_q [OF c] by metis
  show "\<exists>s' b'. nfc_ncif_proc_data quiet_nfc (packet_of pbf cid bs) s = Some s' \<and> rx_buffer b'
      \<and> layer_specific b' = (if pbf then NFC_RAS_FRAGMENTED else 0) \<and> body b' = body b @ bs
      \<and> rx_effect i cid k s (whole pbf (drop NCI_MSG_HDR_SIZE (body b) @ bs)) (if pbf then [b'] else []) s'"
    if "takes b (length bs) s"
  proof -
    obtain s1 z where g: "grow_last b (of_nat (length bs)) (chained pbf s) = (b\<lparr>bsize := z\<rparr>, s1)"
      and z: "z = NFC_NCI_POOL_BUF_SIZE \<or> z = GKI_MAX_BUF_SIZE" "18 + length (body b) + length bs \<le> unat z"
      using grow_takes(1) [OF b bs, of "chained pbf s"] \<open>takes b (length bs) s\<close> t by blast
    let ?l = "b\<lparr>bsize := z\<rparr>"
    have "rx_buffer (joined pbf bs ?l)" using z h off b(1) by (auto simp: rx_buffer_def joined_def nci_sizes)
    moreover have "append_bytes bs ?l = Some (?l\<lparr>body := body ?l @ bs\<rparr>)"
      using z(2) off by (simp add: append_bytes_def BT_HDR_SIZE_def)
    moreover have "\<not> ras_flag NFC_RAS_TOO_BIG ?l" using b(2) by (simp add: ras_flag_def)
    ultimately show ?thesis using packet_join [OF o bs q b(2) h g _ _ _ ge [OF g]]
      by (metis bt_hdr.select_convs(4) bt_hdr.update_convs(1) bt_hdr.surjective joined_simps)
  qed
  show "\<exists>s'. nfc_ncif_proc_data quiet_nfc (packet_of pbf cid bs) s = Some s'
      \<and> rx_effect i cid k s [(NFC_STATUS_CONTINUE, drop NCI_MSG_HDR_SIZE (body b))] [rx_new pbf cid bs] s'"
    if "\<not> takes b (length bs) s"
  proof -
    obtain s1 where g: "grow_last b (of_nat (length bs)) (chained pbf s) = (b\<lparr>layer_specific := NFC_RAS_FRAGMENTED OR NFC_RAS_TOO_BIG\<rparr>, s1)"
      using grow_takes(2) [OF b bs, of "chained pbf s"] \<open>\<not> takes b (length bs) s\<close> t by blast
    show ?thesis by (rule packet_too_big [OF o bs q b(2) h g refl ge [OF g]])
  qed
qed

text \<open>
  Sequences of data packets on a connection: whatever the allocations answer, the events and what is
  kept are the bytes received, in order and with their message boundaries; with buffers every message
  arrives as one event.
\<close>

primrec receive_all :: "byte list list \<Rightarrow> nfc_cb \<Rightarrow> nfc_cb option" where
  "receive_all [] s = Some s"
| "receive_all (p # ps) s = do { s \<leftarrow> nfc_ncif_proc_data quiet_nfc (rx_packet p) s; receive_all ps s }"

definition packets :: "byte \<Rightarrow> (bool \<times> byte list) list \<Rightarrow> byte list list" where
  "packets cid fs = map (\<lambda>(pbf, bs). data_packet pbf cid bs) fs"

lemma packets_simps [simp]:
  "packets cid [] = []" "packets cid ((pbf, bs) # fs) = data_packet pbf cid bs # packets cid fs"
  "packets cid (fs @ gs) = packets cid fs @ packets cid gs"
  by (simp_all add: packets_def)

lemma wire_packets: "wire cid fs = map Hal_write (packets cid fs)"
  by (simp add: wire_def packets_def case_prod_beta)

lemma receive_all_append: "receive_all (ps @ qs) s = do { s \<leftarrow> receive_all ps s; receive_all qs s }"
  by (induction ps arbitrary: s) (simp_all add: Option.bind_assoc)

lemma marked_append [simp]: "marked (xs @ ys) f = map Some xs @ marked ys f"
  by (simp add: marked_def)

lemma marked_False [simp]: "marked xs False = map Some xs"
  by (simp add: marked_def)

lemma event_stream_whole: "event_stream (whole pbf bs) @ (if pbf then map Some bs else []) = marked bs (\<not> pbf)"
  by (simp add: whole_def)

lemma packet_stream:
  assumes v: "rx_inv i cid k s" and bs: "length bs < 256"
  shows "\<exists>s' es q. nfc_ncif_proc_data quiet_nfc (packet_of pbf cid bs) s = Some s' \<and> rx_effect i cid k s es q s' \<and> rx_inv i cid k s'
    \<and> event_stream es @ queue_stream q = queue_stream (rx_q (conn_cb s i)) @ marked bs (\<not> pbf)"
proof -
  have o: "rx_open i cid k s" using v by (simp add: rx_inv_def)
  have n: "rx_buffer (rx_new pbf cid bs)" by (rule rx_new_buffer [OF bs])
  consider (first) "rx_q (conn_cb s i) = [] \<or> (\<exists>b. rx_q (conn_cb s i) = [b] \<and> layer_specific b = 0 \<and> NCI_MSG_HDR_SIZE \<le> length (body b))"
    | (join) b where "rx_q (conn_cb s i) = [b]" "rx_buffer b" "layer_specific b = NFC_RAS_FRAGMENTED" "takes b (length bs) s"
    | (big) b where "rx_q (conn_cb s i) = [b]" "rx_buffer b" "layer_specific b = NFC_RAS_FRAGMENTED" "\<not> takes b (length bs) s"
    using v unfolding rx_inv_def rx_buffer_def by blast
  then show ?thesis
  proof cases
    case first
    obtain s' where s': "nfc_ncif_proc_data quiet_nfc (packet_of pbf cid bs) s = Some s'"
      "rx_effect i cid k s (map kept_event (rx_q (conn_cb s i)) @ whole pbf bs) (fresh pbf cid bs) s'"
      using packet_first [OF o bs first] by blast
    have "rx_inv i cid k s'" using s'(2) n by (auto simp: rx_effect_def rx_inv_def fresh_def)
    moreover have "event_stream (map kept_event (rx_q (conn_cb s i)) @ whole pbf bs) @ queue_stream (fresh pbf cid bs)
        = queue_stream (rx_q (conn_cb s i)) @ marked bs (\<not> pbf)"
      using first by (auto simp: whole_def fresh_def kept_event_def status_of_def)
    ultimately show ?thesis using s' by blast
  next
    case join
    obtain s' b' where s': "nfc_ncif_proc_data quiet_nfc (packet_of pbf cid bs) s = Some s'" "rx_buffer b'"
      "layer_specific b' = (if pbf then NFC_RAS_FRAGMENTED else 0)" "body b' = body b @ bs"
      "rx_effect i cid k s (whole pbf (drop NCI_MSG_HDR_SIZE (body b) @ bs)) (if pbf then [b'] else []) s'"
      using packet_after_fragment(1) [OF o bs join] by blast
    have "rx_inv i cid k s'" using s'(2,5) by (auto simp: rx_effect_def rx_inv_def)
    moreover have "event_stream (whole pbf (drop NCI_MSG_HDR_SIZE (body b) @ bs)) @ queue_stream (if pbf then [b'] else [])
        = queue_stream (rx_q (conn_cb s i)) @ marked bs (\<not> pbf)"
      using s'(3,4) join(1,2,3) by (cases pbf) (auto simp: whole_def rx_buffer_def)
    ultimately show ?thesis using s'(1,5) by blast
  next
    case big
    obtain s' where s': "nfc_ncif_proc_data quiet_nfc (packet_of pbf cid bs) s = Some s'"
      "rx_effect i cid k s [(NFC_STATUS_CONTINUE, drop NCI_MSG_HDR_SIZE (body b))] [rx_new pbf cid bs] s'"
      using packet_after_fragment(2) [OF o bs big] by blast
    have "rx_inv i cid k s'" using s'(2) n by (auto simp: rx_effect_def rx_inv_def)
    moreover have "event_stream [(NFC_STATUS_CONTINUE, drop NCI_MSG_HDR_SIZE (body b))] @ queue_stream [rx_new pbf cid bs]
        = queue_stream (rx_q (conn_cb s i)) @ marked bs (\<not> pbf)"
      using big(1,3) by simp
    ultimately show ?thesis using s' by blast
  qed
qed

lemma receive_stream:
  "rx_inv i cid k s \<Longrightarrow> \<forall>(pbf, bs) \<in> set fs. length bs < 256 \<Longrightarrow>
     \<exists>s' es. receive_all (packets cid fs) s = Some s' \<and> rx_inv i cid k s'
       \<and> data_events k cid (app_log s') = data_events k cid (app_log s) @ es
       \<and> event_stream es @ queue_stream (rx_q (conn_cb s' i)) = queue_stream (rx_q (conn_cb s i)) @ frag_stream fs"
proof (induction fs arbitrary: s)
  case (Cons f fs)
  obtain pbf bs where f: "f = (pbf, bs)" by (cases f)
  obtain s1 es1 q where s1: "nfc_ncif_proc_data quiet_nfc (packet_of pbf cid bs) s = Some s1" "rx_effect i cid k s es1 q s1"
    "rx_inv i cid k s1" "event_stream es1 @ queue_stream q = queue_stream (rx_q (conn_cb s i)) @ marked bs (\<not> pbf)"
    using packet_stream [OF Cons.prems(1), of bs pbf] Cons.prems(2) f by auto
  obtain s' es where s': "receive_all (packets cid fs) s1 = Some s'" "rx_inv i cid k s'"
    "data_events k cid (app_log s') = data_events k cid (app_log s1) @ es"
    "event_stream es @ queue_stream (rx_q (conn_cb s' i)) = queue_stream (rx_q (conn_cb s1 i)) @ frag_stream fs"
    using Cons.IH [OF s1(3)] Cons.prems(2) by auto
  have "receive_all (packets cid (f # fs)) s = Some s'" using s1(1) s'(1) f by (simp add: packet_of_def)
  moreover have "data_events k cid (app_log s') = data_events k cid (app_log s) @ (es1 @ es)"
    using s1(2) s'(3) by (simp add: rx_effect_def)
  moreover have "event_stream (es1 @ es) @ queue_stream (rx_q (conn_cb s' i)) = queue_stream (rx_q (conn_cb s i)) @ frag_stream (f # fs)"
    using s1(4) s'(4) rx_effect_q [OF s1(2)] f by simp
  ultimately show ?case using s'(2) by blast
qed simp

section \<open>Whole messages\<close>

lemma takes_more:
  assumes "rx_buffer b" "sset (buffers s) \<subseteq> {True}" "length (body b) + n + 18 \<le> unat GKI_MAX_BUF_SIZE"
  shows "takes b n s"
proof -
  have "shd (buffers s)" using assms(2) shd_sset [of "buffers s"] by blast
  then show ?thesis using assms(1,3) by (auto elim!: rx_bufferE simp: takes_def BT_HDR_SIZE_def)
qed

text \<open>The fragments of the rest of a message, of which \<open>acc\<close> is kept.\<close>

lemma receive_rest:
  assumes "0 < n" "n < 256" "rx_open i cid k s" "rx_q (conn_cb s i) = [b]" "rx_buffer b" "layer_specific b = NFC_RAS_FRAGMENTED"
    "sset (buffers s) \<subseteq> {True}" "length (body b) + length m + 18 \<le> unat GKI_MAX_BUF_SIZE"
  shows "\<exists>s'. receive_all (packets cid (frags n m)) s = Some s'
    \<and> rx_effect i cid k s [(NFC_STATUS_OK, drop NCI_MSG_HDR_SIZE (body b) @ m)] [] s'"
  using assms
proof (induction n m arbitrary: s b rule: frags.induct)
  case (1 n m)
  note o = "1.prems"(3) and q = "1.prems"(4) and b = "1.prems"(5,6)
  show ?case
  proof (cases "length m \<le> n")
    case True
    have t: "takes b (length m) s" using "1.prems" by (intro takes_more) simp_all
    obtain s' where "nfc_ncif_proc_data quiet_nfc (packet_of False cid m) s = Some s'"
      "rx_effect i cid k s (whole False (drop NCI_MSG_HDR_SIZE (body b) @ m)) [] s'"
      using packet_after_fragment(1) [OF o _ q b t, of False] True "1.prems"(2) by auto
    then show ?thesis using True by (simp add: frags_short packet_of_def whole_def)
  next
    case False
    have t: "takes b (length (take n m)) s" using "1.prems" False by (intro takes_more) simp_all
    obtain s1 b' where s1: "nfc_ncif_proc_data quiet_nfc (packet_of True cid (take n m)) s = Some s1" "rx_buffer b'"
      "layer_specific b' = NFC_RAS_FRAGMENTED" "body b' = body b @ take n m" "rx_effect i cid k s [] [b'] s1"
      using packet_after_fragment(1) [OF o _ q b t, of True] "1.prems"(2) by (auto simp: whole_def min_less_iff_disj)
    have "sset (buffers s1) \<subseteq> {True}" using s1(5) "1.prems"(7) unfolding rx_effect_def by blast
    moreover have "length (body b') + length (drop n m) + 18 \<le> unat GKI_MAX_BUF_SIZE"
      using "1.prems"(8) s1(4) False by simp
    ultimately obtain s' where s': "receive_all (packets cid (frags n (drop n m))) s1 = Some s'"
      "rx_effect i cid k s1 [(NFC_STATUS_OK, drop NCI_MSG_HDR_SIZE (body b') @ drop n m)] [] s'"
      using "1.IH" [OF _ "1.prems"(1,2) rx_effect_open [OF s1(5)] rx_effect_q [OF s1(5)] s1(2,3)] False "1.prems"(1) by auto
    have "drop NCI_MSG_HDR_SIZE (body b') @ drop n m = drop NCI_MSG_HDR_SIZE (body b) @ m"
      using s1(4) b(1) by (auto elim: rx_bufferE)
    then show ?thesis using s1(1) s' rx_effect_trans [OF s1(5) s'(2)] False "1.prems"(1) by (simp add: frags_long packet_of_def)
  qed
qed

lemma receive_message:
  assumes n: "0 < n" "n < 256" and o: "rx_open i cid k s" "rx_q (conn_cb s i) = []" "sset (buffers s) \<subseteq> {True}"
    and m: "length m + 21 \<le> unat GKI_MAX_BUF_SIZE"
  shows "\<exists>s'. receive_all (packets cid (frags n m)) s = Some s' \<and> rx_effect i cid k s [(NFC_STATUS_OK, m)] [] s'"
proof (cases "length m \<le> n")
  case True
  then obtain s' where "nfc_ncif_proc_data quiet_nfc (packet_of False cid m) s = Some s'"
    "rx_effect i cid k s (whole False m) (fresh False cid m) s'"
    using packet_first [OF o(1), of m False] o(2) n(2) by auto
  then show ?thesis using True by (simp add: frags_short packet_of_def whole_def fresh_def)
next
  case False
  let ?b = "rx_new True cid (take n m)"
  obtain s1 where s1: "nfc_ncif_proc_data quiet_nfc (packet_of True cid (take n m)) s = Some s1" "rx_effect i cid k s [] [?b] s1"
    using packet_first [OF o(1), of "take n m" True] o(2) n(2) by (auto simp: whole_def fresh_def min_less_iff_disj)
  have l: "length (body ?b) = n + 3" using False by (simp add: rx_new_def rx_packet_def data_packet_def)
  have b: "rx_buffer ?b" using n(2) by (intro rx_new_buffer) simp
  have "sset (buffers s1) \<subseteq> {True}" using s1(2) o(3) unfolding rx_effect_def by blast
  then obtain s' where s': "receive_all (packets cid (frags n (drop n m))) s1 = Some s'"
    "rx_effect i cid k s1 [(NFC_STATUS_OK, take n m @ drop n m)] [] s'"
    using receive_rest [OF n rx_effect_open [OF s1(2)] rx_effect_q [OF s1(2)] b, of "drop n m"] l m False by auto
  then show ?thesis using s1(1) rx_effect_trans [OF s1(2) s'(2)] False n(1) by (simp add: frags_long packet_of_def)
qed

lemma receive_messages:
  assumes n: "0 < n" "n < 256"
  shows "rx_open i cid k s \<Longrightarrow> rx_q (conn_cb s i) = [] \<Longrightarrow> sset (buffers s) \<subseteq> {True} \<Longrightarrow>
    \<forall>m \<in> set ms. length m + 21 \<le> unat GKI_MAX_BUF_SIZE \<Longrightarrow>
    \<exists>s'. receive_all (packets cid (concat (map (frags n) ms))) s = Some s' \<and> rx_effect i cid k s (map (Pair NFC_STATUS_OK) ms) [] s'"
proof (induction ms arbitrary: s)
  case Nil
  then show ?case by (simp add: rx_effect_def)
next
  case (Cons m ms)
  obtain s1 where s1: "receive_all (packets cid (frags n m)) s = Some s1" "rx_effect i cid k s [(NFC_STATUS_OK, m)] [] s1"
    using receive_message [OF n Cons.prems(1,2,3), of m] Cons.prems(4) by auto
  have "sset (buffers s1) \<subseteq> {True}" using s1(2) Cons.prems(3) unfolding rx_effect_def by blast
  then obtain s' where s': "receive_all (packets cid (concat (map (frags n) ms))) s1 = Some s'"
    "rx_effect i cid k s1 (map (Pair NFC_STATUS_OK) ms) [] s'"
    using Cons.IH [OF rx_effect_open [OF s1(2)] rx_effect_q [OF s1(2)]] Cons.prems(4) by auto
  then show ?case using s1(1) rx_effect_trans [OF s1(2) s'(2)] by (simp add: receive_all_append)
qed

end
