(* ===== verification/Nci_Properties.thy ===== *)
theory Nci_Properties
  imports Nci_Receive
begin

text \<open>
  The properties of the data path of the NFC core, over the transmission of \<open>Nci_Send\<close>
  and the reassembly of \<open>Nci_Receive\<close>.
\<close>

section \<open>A core with an open connection\<close>

text \<open>
  A control block for the witnesses: connection 3 in entry 1, with packets of two bytes and two
  credits, and buffers for every request.
\<close>

definition no_conn :: conn_cb where
  "no_conn = \<lparr>p_cback = None, tx_q = [], rx_q = [], cb_id = 0, act_protocol = 0, conn_id = NFC_ILLEGAL_CONN_ID,
     buff_size = 0, num_buff = 0, init_credits = 0, act_interface = 0, sel_res = 0\<rparr>"

definition conn3 :: conn_cb where
  "conn3 = no_conn\<lparr>p_cback := Some 7, cb_id := 5, conn_id := 3, buff_size := 2, num_buff := 2, init_credits := 2\<rparr>"

definition core3 :: nfc_cb where
  "core3 = \<lparr>nfc_flags = 0, conn_cb = (\<lambda>_. no_conn)(1 := conn3), conn_id_map = (\<lambda>_. 0)(3 := 2), p_discv_cback = True,
     p_resp_cback = True, p_vs_cb = [None, None, None, None, None, None, None], nxpCbflag = False, nci_features = 0,
     max_ce_table = 0, max_conn = 2, nci_ctrl_size = 32, p_disc_maps = [], vs_interface = [0, 0, 0, 0], nci_interfaces = 0,
     num_disc_maps = 0, p_disc_pending = None, p_last_disc = None, deactivate_timer = False, deactivate_param = 0,
     nfc_state = NFC_STATE_IDLE, reassembly = True, last_hdr = [0, 0], last_cmd = [0, 0], last_cmd_buf = None, cmd_size = 0,
     p_vsc_cback = None, nci_cmd_xmit_q = [], nci_wait_rsp_timer = False, nci_wait_data_ntf_timer = False,
     nci_cmd_window = 1, p_nci_init_rsp = None, cmd_channel_busy = False, data_stored = False, i2c_conn_id = 0,
     i2c_fragmentation = False, sListenActivated = False, core_reset_init_num_buff = False, nfcc_dh_conn_id = 0,
     etsi_reader_in_progress = False, p_cb_stored = None, nfc_fw_version = (0, 0, 0), retry_cnt = 0,
     transport_ready = False, nfc_mbox = [], dm_disc_state = 0, dm_disc_flags = 0, ce_flags = 0, hci_wait_rsp = False,
     hci_timeouts = 0, buffers = sconst True, hal_out = [], app_log = []\<rparr>"

definition message3 :: "byte list \<Rightarrow> bt_hdr" where
  "message3 bs = \<lparr>bsize = 660, offset = 10, layer_specific = 0, body = bs\<rparr>"

definition link3 :: tx_link where
  "link3 = \<lparr>core = core3, messages = [], returned = 0, calls = []\<rparr>"

lemma find3: "nfc_find_conn_cb_by_conn_id 3 core3 = Some 1"
  by (simp add: nfc_find_conn_cb_by_conn_id_def core3_def NFC_MAX_CONN_ID_def)

lemma conn3_simps [simp]:
  "conn_cb core3 (Suc 0) = conn3" "tx_q conn3 = []" "rx_q conn3 = []" "conn_id conn3 = 3" "buff_size conn3 = 2" "num_buff conn3 = 2"
  "init_credits conn3 = 2" "cb_id conn3 = 5" "p_cback conn3 = Some 7" "buffers core3 = sconst True" "hal_out core3 = []"
  "i2c_fragmentation core3 = False" "core_reset_init_num_buff core3 = False" "app_log core3 = []"
  by (simp_all add: core3_def conn3_def no_conn_def)

lemma open3: "tx_start 1 3 2 2 link3" "rx_open 1 3 7 core3"
  by (simp_all add: tx_start_def tx_open_def link3_def find3 rx_open_def has_status_byte_def)

lemma message3_ok: "length bs < 1000 \<Longrightarrow> tx_ok (message3 bs)" "NCI_MSG_OFFSET_SIZE + NCI_DATA_HDR_SIZE \<le> unat (offset (message3 bs))"
  "body (message3 bs) = bs"
  by (simp_all add: message3_def tx_ok_def nci_sizes)

text \<open>Steps of the link of the witnesses.\<close>

lemma submit3:
  assumes "tx_inv 1 3 2 2 runs c" "length m < 1000"
  obtains c' gs where "tx_step 3 c c'" "messages c' = messages c @ [m]" "returned c' = returned c" "tx_inv 1 3 2 2 (runs @ [gs]) c'"
proof -
  let ?b = "message3 m"
  note b = message3_ok(1) [OF assms(2)] message3_ok(2) [of m] message3_ok(3) [of m]
  obtain s gs where s: "NFC_SendData quiet_nfc 3 (Some ?b) (core c) = Some (NFC_STATUS_OK, s)"
    "tx_inv 1 3 2 2 (runs @ [gs]) (c\<lparr>core := s, messages := messages c @ [body ?b], calls := calls c @ [handed (core c) s]\<rparr>)"
    using submit_inv [OF assms(1), of ?b] b by auto
  show ?thesis
    by (rule that [OF tx_step.submit [OF b(2,1) s(1)] _ _ s(2)]) (simp_all add: b(3))
qed

lemma credit3:
  fixes n :: byte
  assumes "tx_inv 1 3 2 2 runs c" "returned c + unat n \<le> length (concat runs)"
  obtains c' gs where "tx_step 3 c c'" "messages c' = messages c" "returned c' = returned c + unat n" "tx_inv 1 3 2 2 (runs @ [gs]) c'"
proof -
  have h: "calls c = map (\<lambda>fs. wire 3 (flags True fs)) runs" "hal_out (core c) = concat (calls c)"
    using assms(1) by (auto elim!: tx_invE)
  have l: "returned c + unat n \<le> length (hal_out (core c))"
    unfolding h(2) unfolding h(1) using assms(2) by simp
  obtain s gs where s: "nfc_ncif_proc_credits quiet_nfc [1, 3, n] 0 (core c) = Some s"
    "tx_inv 1 3 2 2 (runs @ [gs]) (c\<lparr>core := s, returned := returned c + unat n, calls := calls c @ [handed (core c) s]\<rparr>)"
    using credit_inv [OF assms(1) l] by blast
  show ?thesis
    by (rule that [OF tx_step.credit [OF s(1) l] _ _ s(2)]) simp_all
qed

section \<open>Transmission\<close>

text \<open>
  C29. Sending returns, except in one case. Without the fragmentation on I2C, for any number of queued messages, any allocation
  answers and any callbacks, \<open>NFC_SendData\<close> on a connection that may transmit ends unless the NFCC has announced a
  packet size of 0 without flow control, one of the messages is not empty and the allocations never
  fail: then the loop hands empty packets to the HAL for ever.
\<close>

theorem send_returns:
  assumes "nfc_find_conn_cb_by_conn_id cid s = Some i" "NCI_MSG_OFFSET_SIZE + NCI_DATA_HDR_SIZE \<le> unat (offset b)"
    and "tx_ok b" "\<forall>m \<in> set (tx_q (conn_cb s i)). tx_ok m"
    and "\<not> i2c_fragmentation s" "\<not> core_reset_init_num_buff s"
    and "cb_id (conn_cb s i) = NFC_RF_CONN_ID \<longrightarrow> nfc_state s = NFC_STATE_OPEN"
  shows "(\<exists>r. NFC_SendData E cid (Some b) s = Some r) \<longleftrightarrow>
    \<not> (buff_size (conn_cb s i) = 0 \<and> num_buff (conn_cb s i) = NFC_CONN_NO_FC
       \<and> (\<exists>m \<in> set (tx_q (conn_cb s i) @ [b]). body m \<noteq> []) \<and> sset (buffers s) = {True})"
proof -
  let ?s = "upd_conn i (\<lambda>c. c\<lparr>tx_q := tx_q c @ [b]\<rparr>) s"
  have "NFC_SendData E cid (Some b) s = send_loop i True ?s"
    using assms(1,2,5,6,7) by (auto simp: NFC_SendData_def nfc_ncif_send_data_def Let_def)
  moreover have "tx_state i ?s" using assms(3-5) by (auto simp: tx_state_def)
  ultimately show ?thesis using send_loop_returns_iff [of i ?s True] by (simp add: tx_endless_def)
qed

theorem send_returns_witness:
  "(\<exists>r. NFC_SendData quiet_nfc 3 (Some (message3 [1, 2, 3])) core3 = Some r)
   \<and> NFC_SendData quiet_nfc 3 (Some (message3 [1]))
       (upd_conn 1 (\<lambda>c. c\<lparr>buff_size := 0, num_buff := NFC_CONN_NO_FC\<rparr>) core3) = None"
proof
  show "\<exists>r. NFC_SendData quiet_nfc 3 (Some (message3 [1, 2, 3])) core3 = Some r"
    using send_returns [OF find3, of "message3 [1, 2, 3]" quiet_nfc] message3_ok [of "[1, 2, 3]"] by simp
  let ?s = "upd_conn 1 (\<lambda>c. c\<lparr>buff_size := 0, num_buff := NFC_CONN_NO_FC\<rparr>) core3"
  have "nfc_find_conn_cb_by_conn_id 3 ?s = nfc_find_conn_cb_by_conn_id 3 core3"
    by (rule find_conn_cong) (simp_all add: upd_conn_def)
  then have "\<not> (\<exists>r. NFC_SendData quiet_nfc 3 (Some (message3 [1])) ?s = Some r)"
    using send_returns [of 3 ?s 1 "message3 [1]" quiet_nfc] find3 message3_ok [of "[1]"] by simp
  then show "NFC_SendData quiet_nfc 3 (Some (message3 [1])) ?s = None" using option.exhaust by metis
qed

text \<open>
  C30. Credit based flow control. On a connection that the NFCC opened with packets of \<open>B\<close> bytes, not 0, and
  \<open>C\<close> credits, in a core without the fragmentation on I2C that has buffers for its requests, in any order of calls of \<open>NFC_SendData\<close> and of credits returned for packets that were
  sent: what was handed to the HAL are data packets with the first fragments of the messages, in
  order; what is queued are the remaining ones; never more than \<open>C\<close> packets are without returned
  credit, and if fewer are, nothing waits. The packets of one call have the boundary flags of their
  fragments up to the first last fragment of a message, and 0 from there on, also on fragments that
  are not the last ones of their message (\<open>flags\<close>): \<open>nfc_ncif_send_data\<close> sets its flag only when it is called. Every further call of \<open>NFC_SendData\<close> succeeds.
\<close>

theorem credit_flow:
  assumes "tx_start i cid B C c0" "(tx_step cid)\<^sup>*\<^sup>* c0 c"
  shows "(\<exists>runs. hal_out (core c) = concat (calls c) \<and> calls c = map (\<lambda>fs. wire cid (flags True fs)) runs
      \<and> concat runs @ fragments (unat B) (tx_q (conn_cb (core c) i)) = concat (map (frags (unat B)) (messages c))
      \<and> length (concat runs) \<le> returned c + unat C
      \<and> (length (concat runs) < returned c + unat C \<longrightarrow> tx_q (conn_cb (core c) i) = []))
    \<and> (\<forall>b. tx_ok b \<longrightarrow> NCI_MSG_OFFSET_SIZE + NCI_DATA_HDR_SIZE \<le> unat (offset b) \<longrightarrow>
        (\<exists>s. NFC_SendData quiet_nfc cid (Some b) (core c) = Some (NFC_STATUS_OK, s)))"
proof -
  obtain runs where v: "tx_inv i cid B C runs c"
    using tx_inv_reach [OF assms(2) tx_start_inv [OF assms(1)]] by blast
  from v have fs: "calls c = map (\<lambda>fs. wire cid (flags True fs)) runs" "hal_out (core c) = concat (calls c)"
    "concat (map (frags (unat B)) (messages c)) = concat runs @ fragments (unat B) (tx_q (conn_cb (core c) i))"
    "returned c + unat C = length (concat runs) + unat (num_buff (conn_cb (core c) i))"
    "tx_q (conn_cb (core c) i) = [] \<or> num_buff (conn_cb (core c) i) = 0"
    by (auto elim!: tx_invE)
  show ?thesis
    using fs submit_inv [OF v] by (intro conjI exI [of _ runs]) auto
qed

text \<open>
  Five bytes and then three, with packets of two bytes and two credits: when the credits come back the
  last byte of the first message and the first two of the second one leave in the same call, the
  latter marked as the end of a message.
\<close>

theorem credit_flow_witness:
  "\<exists>c. (tx_step 3)\<^sup>*\<^sup>* link3 c \<and> messages c = [[1, 2, 3, 4, 5], [6, 7, 8]]
     \<and> hal_out (core c) = wire 3 [(True, [1, 2]), (True, [3, 4]), (False, [5]), (False, [6, 7])]
     \<and> fragments 2 (tx_q (conn_cb (core c) 1)) = [(False, [8])]"
proof -
  let ?p = "[1, 2, 3, 4, 5] :: byte list" and ?q = "[6, 7, 8] :: byte list"
  have N: "unat (2 :: byte) = 2" by simp
  have fr: "frags 2 ?p = [(True, [1, 2]), (True, [3, 4]), (False, [5])]" "frags 2 ?q = [(True, [6, 7]), (False, [8])]"
    by (simp_all add: frags_long frags_short)
  have m0: "messages link3 = []" "returned link3 = 0" by (simp_all add: link3_def)
  obtain c1 r1 where c1: "tx_step 3 link3 c1" "messages c1 = [?p]" "returned c1 = 0" "tx_inv 1 3 2 2 [r1] c1"
    using submit3 [OF tx_start_inv [OF open3(1)], of ?p] m0 by auto
  obtain c2 r2 where c2: "tx_step 3 c1 c2" "messages c2 = [?p, ?q]" "returned c2 = 0" "tx_inv 1 3 2 2 [r1, r2] c2"
    using submit3 [OF c1(4), of ?q] c1(2,3) by auto
  have r: "r1 = [(True, [1, 2]), (True, [3, 4])]" "r2 = []"
    using tx_inv_sent(1) [OF c1(4)] tx_inv_sent(1) [OF c2(4)] c1(2,3) c2(2,3) fr N by simp_all
  obtain c3 r3 where c3: "tx_step 3 c2 c3" "messages c3 = [?p, ?q]" "returned c3 = 2" "tx_inv 1 3 2 2 [r1, r2, r3] c3"
  proof (rule credit3 [OF c2(4), of 2])
    show "returned c2 + unat (2 :: byte) \<le> length (concat [r1, r2])" unfolding N using c2(3) r by simp
  next
    fix c' gs assume "tx_step 3 c2 c'" "messages c' = messages c2" "returned c' = returned c2 + unat (2 :: byte)"
      "tx_inv 1 3 2 2 ([r1, r2] @ [gs]) c'"
    then show thesis using that [of c' gs] c2(2,3) unfolding N by simp
  qed
  have reach: "(tx_step 3)\<^sup>*\<^sup>* link3 c3" using c1(1) c2(1) c3(1) by (meson r_into_rtranclp rtranclp.rtrancl_into_rtrancl)
  from credit_flow [OF open3(1) reach] obtain runs where
    runs: "hal_out (core c3) = concat (calls c3)" "calls c3 = map (\<lambda>fs. wire 3 (flags True fs)) runs" by blast
  have "r3 = [(False, [5]), (True, [6, 7])]" "fragments 2 (tx_q (conn_cb (core c3) 1)) = [(False, [8])]"
    using tx_inv_sent [OF c3(4)] c3(2,3) r fr N by simp_all
  moreover have "calls c3 = map (\<lambda>fs. wire 3 (flags True fs)) [r1, r2, r3]" using c3(4) by (auto elim!: tx_invE)
  ultimately show ?thesis using reach c3(2) runs(1) r by auto
qed

section \<open>Reception\<close>

text \<open>
  C31. Reassembly loses, repeats and reorders nothing. For any sequence of data packets on an open
  connection without status byte, with any answers of the allocations, every packet is handled, at most one
  buffer is kept, and the bytes and message ends of the data events, followed by those of the kept
  buffer, are exactly the ones received.
\<close>

theorem reassembly_complete:
  assumes "rx_inv i cid k s" "\<forall>(pbf, bs) \<in> set fs. length bs < 256"
  shows "\<exists>s' es. receive_all (packets cid fs) s = Some s'
    \<and> data_events k cid (app_log s') = data_events k cid (app_log s) @ es
    \<and> event_stream es @ queue_stream (rx_q (conn_cb s' i)) = queue_stream (rx_q (conn_cb s i)) @ frag_stream fs
    \<and> length (rx_q (conn_cb s' i)) \<le> 1"
  using receive_stream [OF assms] by (force simp: rx_inv_def)

theorem reassembly_complete_witness:
  "\<exists>s' es. receive_all [[0x13, 0, 2, 1, 2], [3, 0, 1, 4]] (core3\<lparr>buffers := sconst False\<rparr>) = Some s'
    \<and> data_events 7 3 (app_log s') = es
    \<and> event_stream es @ queue_stream (rx_q (conn_cb s' 1)) = [Some 1, Some 2, Some 4, None]"
proof -
  have "nfc_find_conn_cb_by_conn_id 3 (core3\<lparr>buffers := sconst False\<rparr>) = nfc_find_conn_cb_by_conn_id 3 core3"
    by (rule find_conn_cong) simp_all
  then have "rx_inv 1 3 7 (core3\<lparr>buffers := sconst False\<rparr>)"
    using find3 by (simp add: rx_inv_def rx_open_def has_status_byte_def)
  from reassembly_complete [OF this, of "[(True, [1, 2]), (False, [4])]"] show ?thesis
    by (auto simp: data_packet_def marked_def push_bit_eq_mult)
qed

text \<open>
  C32. From the messages of one core to the data events of another. When all fragments of the messages
  submitted on connection \<open>cid\<close> have been handed to the HAL, a core to which these packets come on its
  connection \<open>cid\<close>, with buffers for its requests, reports exactly the messages, in order and each as one event, and keeps nothing,
  whatever the packet size, the credits and the order of steps were, provided that a message that is
  longer than a packet was only submitted when nothing was queued (\<open>polite\<close>): otherwise a fragment
  may leave with the flag of a last one. The messages must fit the biggest buffer of the receiver.
\<close>

theorem data_round_trip:
  assumes tx: "tx_start i cid B C c0" "(\<lambda>c c'. tx_step cid c c' \<and> polite i B c c')\<^sup>*\<^sup>* c0 c" "tx_q (conn_cb (core c) i) = []"
    and rx: "rx_open j cid k s" "rx_q (conn_cb s j) = []" "sset (buffers s) = {True}"
    and m: "\<forall>m \<in> set (messages c). BT_HDR_SIZE + NFC_RECEIVE_MSGS_OFFSET + NCI_MSG_HDR_SIZE + length m \<le> unat GKI_MAX_BUF_SIZE"
  shows "\<exists>ps s'. hal_out (core c) = map Hal_write ps \<and> receive_all ps s = Some s'
    \<and> data_events k cid (app_log s') = data_events k cid (app_log s) @ map (Pair NFC_STATUS_OK) (messages c)
    \<and> rx_q (conn_cb s' j) = []"
proof -
  obtain runs where v: "tx_inv i cid B C runs c" and own: "\<forall>fs \<in> set runs. own_flags fs"
    using polite_reach [OF tx(2) tx_start_inv [OF tx(1)]] tx(1) by (auto simp: tx_start_def own_flags_def)
  have o: "tx_open i cid B C (core c)" and out: "hal_out (core c) = concat (calls c)" "calls c = map (\<lambda>fs. wire cid (flags True fs)) runs"
    and fs: "concat (map (frags (unat B)) (messages c)) = concat runs"
    using v tx(3) by (auto elim!: tx_invE)
  have B: "0 < unat B" "unat B < 256" using o unat_byte_less [of B] by (simp_all add: tx_open_def unat_gt_0)
  have eq: "map (\<lambda>fs. wire cid (flags True fs)) runs = map (wire cid) runs" using own by (auto simp: own_flags_def)
  have hal: "hal_out (core c) = map Hal_write (packets cid (concat runs))"
    unfolding out eq wire_packets [symmetric] wire_concat ..
  have "\<forall>m \<in> set (messages c). length m + 21 \<le> unat GKI_MAX_BUF_SIZE"
    using m by (auto simp: BT_HDR_SIZE_def NFC_RECEIVE_MSGS_OFFSET_def NCI_MSG_HDR_SIZE_def)
  then obtain s' where "receive_all (packets cid (concat runs)) s = Some s'"
    "rx_effect j cid k s (map (Pair NFC_STATUS_OK) (messages c)) [] s'"
    using receive_messages [OF B rx(1,2), of "messages c"] rx(3) unfolding fs by blast
  then show ?thesis using hal by (auto simp: rx_effect_def)
qed

theorem data_round_trip_witness:
  "\<exists>c ps s'. (tx_step 3)\<^sup>*\<^sup>* link3 c \<and> messages c = [[1, 2, 3], [4]] \<and> hal_out (core c) = map Hal_write ps
    \<and> receive_all ps core3 = Some s' \<and> data_events 7 3 (app_log s') = [(NFC_STATUS_OK, [1, 2, 3]), (NFC_STATUS_OK, [4])]"
proof -
  let ?p = "[1, 2, 3] :: byte list" and ?q = "[4] :: byte list"
  have N: "unat (2 :: byte) = 2" by simp
  have fr: "frags 2 ?p = [(True, [1, 2]), (False, [3])]" "frags 2 ?q = [(False, [4])]"
    by (simp_all add: frags_long frags_short)
  have m0: "messages link3 = []" "returned link3 = 0" "tx_q (conn_cb (core link3) 1) = []"
    by (simp_all add: link3_def)
  obtain c1 r1 where c1: "tx_step 3 link3 c1" "messages c1 = [?p]" "returned c1 = 0" "tx_inv 1 3 2 2 [r1] c1"
    using submit3 [OF tx_start_inv [OF open3(1)], of ?p] m0 by auto
  obtain c2 r2 where c2: "tx_step 3 c1 c2" "messages c2 = [?p, ?q]" "returned c2 = 0" "tx_inv 1 3 2 2 [r1, r2] c2"
    using submit3 [OF c1(4), of ?q] c1(2,3) by auto
  have r: "r1 = [(True, [1, 2]), (False, [3])]" "r2 = []"
    using tx_inv_sent(1) [OF c1(4)] tx_inv_sent(1) [OF c2(4)] c1(2,3) c2(2,3) fr N by simp_all
  obtain c3 r3 where c3: "tx_step 3 c2 c3" "messages c3 = [?p, ?q]" "returned c3 = 1" "tx_inv 1 3 2 2 [r1, r2, r3] c3"
    using credit3 [OF c2(4), of 1] c2(2,3) r by auto
  have q: "tx_q (conn_cb (core c3) 1) = []"
    using tx_inv_sent(2) [OF c3(4)] c3(2,3) fr N by simp
  have "polite 1 2 link3 c1" "polite 1 2 c1 c2" "polite 1 2 c2 c3"
    using m0 c1(2) c2(2) c3(2) by (simp_all add: polite_def)
  then have reach: "(\<lambda>c c'. tx_step 3 c c' \<and> polite 1 2 c c')\<^sup>*\<^sup>* link3 c3"
    using c1(1) c2(1) c3(1) by (intro converse_rtranclp_into_rtranclp [where a = link3 and b = c1]
      converse_rtranclp_into_rtranclp [where a = c1 and b = c2] r_into_rtranclp) simp_all
  then have "(tx_step 3)\<^sup>*\<^sup>* link3 c3" by (rule rtranclp_mono [THEN predicate2D, rotated]) blast
  moreover have "sset (buffers core3) = {True}" by simp
  with data_round_trip [OF open3(1) reach q open3(2)] have "\<exists>ps s'. hal_out (core c3) = map Hal_write ps \<and> receive_all ps core3 = Some s'
      \<and> data_events 7 3 (app_log s') = [(NFC_STATUS_OK, ?p), (NFC_STATUS_OK, ?q)]"
    unfolding c3(2) by (auto simp: nci_sizes)
  ultimately show ?thesis using c3(2) by blast
qed

end
