(* ===== verification/Nci_Start.thy ===== *)
theory Nci_Start
  imports Nci_Data
begin

text \<open>
  The start of the NFCC and what is cleaned up when it is shut down, \<open>nfc/nfc/nfc_main.c\<close>, with the calls
  for the discovery of remote devices, and the interface of the NFCEEs, \<open>nfc/nfc/nfc_ee.c\<close>.
\<close>

section \<open>Discovery\<close>

abbreviation (input) NCI_INTERFACE_MAX :: byte where "NCI_INTERFACE_MAX \<equiv> 3"
definition NFC_NFCC_MAX_NUM_VS_INTERFACE :: nat where "NFC_NFCC_MAX_NUM_VS_INTERFACE = 4"

text \<open>The mappings that the NFCC supports; there is room for seven.\<close>

definition map_supported :: "nfc_cb \<Rightarrow> byte \<times> byte \<times> byte \<Rightarrow> bool" where
  "map_supported s = (\<lambda>(proto, mode, itype).
     if NCI_INTERFACE_MAX < itype then itype \<in> set (vs_interface s)
     else push_bit (unat itype) 1 AND nci_interfaces s \<noteq> 0)"

definition NFC_DiscoveryMap ::
    "nfc_env \<Rightarrow> byte \<Rightarrow> (byte \<times> byte \<times> byte) list \<Rightarrow> bool \<Rightarrow> nfc_cb \<Rightarrow> (byte \<times> nfc_cb) option" where
  "NFC_DiscoveryMap E num maps cback s =
     (let s = s\<lparr>num_disc_maps := num, p_discv_cback := cback\<rparr>;
          ms = filter (map_supported s) (take (unat num) maps) in
      if length maps < unat num \<or> NFC_NFCC_MAX_NUM_VS_INTERFACE + unat NCI_INTERFACE_MAX < length ms then None
      else nci_snd_discover_map_cmd E (of_nat (length ms)) (concat (map (\<lambda>(proto, mode, itype). [proto, mode, itype]) ms)) s)"

definition NFC_DiscoveryStart :: "nfc_env \<Rightarrow> byte \<Rightarrow> byte list \<Rightarrow> bool \<Rightarrow> nfc_cb \<Rightarrow> (byte \<times> nfc_cb) option" where
  "NFC_DiscoveryStart E num_params params cback s =
     (if p_disc_pending s \<noteq> None then Some (NFC_STATUS_BUSY, s)
      else
        let s = set_fl NFC_FL_CONTROL_REQUESTED (set_fl NFC_FL_DISCOVER_PENDING (s\<lparr>p_discv_cback := cback\<rparr>));
            (got, s) = take_buffer s in
        if \<not> got then Some (NFC_STATUS_NO_BUFFERS, s)
        else do {
          ps \<leftarrow> rd_bytes params 0 (2 * unat num_params);
          s \<leftarrow> nfc_ncif_check_cmd_queue E None (s\<lparr>p_disc_pending := Some (num_params # ps)\<rparr>);
          Some (NFC_STATUS_CMD_STARTED, s) })"

definition NFC_DiscoverySelect :: "nfc_env \<Rightarrow> byte \<Rightarrow> byte \<Rightarrow> byte \<Rightarrow> nfc_cb \<Rightarrow> (byte \<times> nfc_cb) option" where
  "NFC_DiscoverySelect = nci_snd_discover_select_cmd"

definition NFC_SetConfig :: "nfc_env \<Rightarrow> byte \<Rightarrow> byte list \<Rightarrow> nfc_cb \<Rightarrow> (byte \<times> nfc_cb) option" where
  "NFC_SetConfig E tlv_size tlvs = nci_snd_core_set_config E tlvs tlv_size"

definition NFC_GetConfig :: "nfc_env \<Rightarrow> byte \<Rightarrow> byte list \<Rightarrow> nfc_cb \<Rightarrow> (byte \<times> nfc_cb) option" where
  "NFC_GetConfig E num_ids ids = nci_snd_core_get_config E ids num_ids"

text \<open>
  The parameters of \<open>NFC_UpdateRFCommParams\<close> that are included: technology and mode; transmit and
  receive bit rate, both together under the flag of the transmit bit rate; the NFC-B parameters.
\<close>

definition NFC_UpdateRFCommParams ::
    "nfc_env \<Rightarrow> byte option \<Rightarrow> (byte \<times> byte) option \<Rightarrow> (byte \<times> byte \<times> byte \<times> byte \<times> byte) option \<Rightarrow> nfc_cb \<Rightarrow> (byte \<times> nfc_cb) option" where
  "NFC_UpdateRFCommParams E tech rates nfc_b s =
     (let tlvs =
        (case tech of None \<Rightarrow> [] | Some x \<Rightarrow> [0x00, 1, x])
        @ (case rates of None \<Rightarrow> [] | Some (tx, rx) \<Rightarrow> [0x01, 1, tx, 0x02, 1, rx])
        @ (case nfc_b of None \<Rightarrow> [] | Some (tr0, tr1, eos, sos, tr2) \<Rightarrow>
             [0x03, 1, push_bit 6 (tr0 AND 0x03) OR push_bit 4 (tr1 AND 0x03) OR push_bit 3 (eos AND 0x01)
                       OR push_bit 2 (sos AND 0x01) OR (tr2 AND 0x03)]) in
      nci_snd_parameter_update_cmd E tlvs (of_nat (length tlvs)) s)"

section \<open>NFC execution environments\<close>

definition NFC_NfceeDiscover :: "nfc_env \<Rightarrow> bool \<Rightarrow> nfc_cb \<Rightarrow> (byte \<times> nfc_cb) option" where
  "NFC_NfceeDiscover E discover = nci_snd_nfcee_discover E (if discover then 1 else 0)"

definition NFC_NfceeModeSet :: "nfc_env \<Rightarrow> byte \<Rightarrow> byte \<Rightarrow> nfc_cb \<Rightarrow> (byte \<times> nfc_cb) option" where
  "NFC_NfceeModeSet E nfcee mode s = (if 2 \<le> mode then Some (NFC_STATUS_FAILED, s) else nci_snd_nfcee_mode_set E nfcee mode s)"

definition NFC_SetRouting :: "nfc_env \<Rightarrow> bool \<Rightarrow> byte \<Rightarrow> byte \<Rightarrow> byte list \<Rightarrow> nfc_cb \<Rightarrow> (byte \<times> nfc_cb) option" where
  "NFC_SetRouting = nci_snd_set_routing_cmd"

definition NFC_GetRouting :: "nfc_env \<Rightarrow> nfc_cb \<Rightarrow> (byte \<times> nfc_cb) option" where
  "NFC_GetRouting = nci_snd_get_routing_cmd"

definition NFC_TestLoopback :: "nfc_env \<Rightarrow> bt_hdr option \<Rightarrow> nfc_cb \<Rightarrow> (byte \<times> nfc_cb) option" where
  "NFC_TestLoopback E p_data s =
     (case (nfc_find_conn_cb_by_handle NFC_TEST_ID s, p_data) of
        (Some i, Some b) \<Rightarrow>
          if NCI_MSG_OFFSET_SIZE + NCI_DATA_HDR_SIZE \<le> unat (offset b) then nfc_ncif_send_data E i (Some b) s
          else Some (NFC_STATUS_FAILED, s)
      | _ \<Rightarrow> Some (NFC_STATUS_FAILED, s))"

section \<open>Start\<close>

definition nfc_main_notify_enable_status :: "nfc_env \<Rightarrow> byte \<Rightarrow> nfc_cb \<Rightarrow> nfc_cb option" where
  "nfc_main_notify_enable_status E status s =
     (if \<not> p_resp_cback s then Some s
      else if has_fl (NFC_FL_RESTARTING OR NFC_FL_POWER_CYCLE_NFCC) s then
        let s = clear_fl (NFC_FL_RESTARTING OR NFC_FL_POWER_CYCLE_NFCC) s;
            s = (if status \<noteq> NFC_STATUS_OK then set_fl NFC_FL_POWER_OFF_SLEEP s else s) in
        app E (Resp_cback (NFC_NFCC_RESTART_REVT status)) s
      else app E (Resp_cback (NFC_ENABLE_REVT status)) s)"

text \<open>The interfaces that the NFCC supports: those of the standard as a mask, four of the vendor.\<close>

primrec enable_interfaces :: "nat \<Rightarrow> byte list \<Rightarrow> nat \<Rightarrow> nat \<Rightarrow> u16 \<Rightarrow> byte list \<Rightarrow> (u16 \<times> byte list) option" where
  "enable_interfaces 0 m p yy msk vs = Some (msk, vs)"
| "enable_interfaces (Suc n) m p yy msk vs = do {
     b \<leftarrow> rd m p;
     if b \<le> NCI_INTERFACE_MAX then enable_interfaces n m (p + 1) yy (msk OR push_bit (unat b) 1) vs
     else if NCI_INTERFACE_FIRST_VS \<le> b \<and> yy < NFC_NFCC_MAX_NUM_VS_INTERFACE
     then enable_interfaces n m (p + 1) (yy + 1) msk (vs[yy := b])
     else enable_interfaces n m (p + 1) yy msk vs }"

definition rd_le16 :: "byte list \<Rightarrow> nat \<Rightarrow> u16 option" where
  "rd_le16 m p = do { a \<leftarrow> rd m p; b \<leftarrow> rd m (p + 1); Some (ucast a + push_bit 8 (ucast b)) }"

definition rd_le32 :: "byte list \<Rightarrow> nat \<Rightarrow> u32 option" where
  "rd_le32 m p = do {
     a \<leftarrow> rd m p; b \<leftarrow> rd m (p + 1); c \<leftarrow> rd m (p + 2); d \<leftarrow> rd m (p + 3);
     Some (ucast a + push_bit 8 (ucast b) + push_bit 16 (ucast c) + push_bit 24 (ucast d)) }"

text \<open>
  \<open>nfc_enabled\<close>: with the status OK, the response to CORE_INIT is evaluated. The fields that are read
  but only stored in a local event are read here as well.
\<close>

definition nfc_enabled_ok :: "nfc_env \<Rightarrow> byte list \<Rightarrow> nfc_cb \<Rightarrow> nfc_cb option" where
  "nfc_enabled_ok E m s = do {
     let s = nfc_set_state NFC_STATE_IDLE s;
     features \<leftarrow> rd_le32 m 4;
     num \<leftarrow> rd m 8;
     (msk, vs) \<leftarrow> enable_interfaces (unat num) m 9 0 0 (vs_interface s);
     let p = 9 + unat num;
     mconn \<leftarrow> rd m p;
     ce_table \<leftarrow> rd_le16 m (p + 1);
     ctrl_size \<leftarrow> rd m (p + 3);
     param_size \<leftarrow> rd_le16 m (p + 4);
     let s = s\<lparr>vs_interface := vs, nci_interfaces := msk, max_ce_table := ce_table, nci_features := features,
               max_conn := mconn, nci_ctrl_size := ctrl_size\<rparr>;
     s \<leftarrow> nfc_set_conn_id 0 NFC_RF_CONN_ID (upd_conn 0 (\<lambda>c. c\<lparr>init_credits := 0, num_buff := 0\<rparr>) s);
     manufacturer \<leftarrow> rd_bytes m (p + 6) 5;
     (st, s) \<leftarrow> NFC_DiscoveryMap E (num_disc_maps s) (p_disc_maps s) False s;
     Some s }"

definition nfc_enabled :: "nfc_env \<Rightarrow> byte \<Rightarrow> bt_hdr option \<Rightarrow> nfc_cb \<Rightarrow> nfc_cb option" where
  "nfc_enabled E status p_init s =
     (if status = NFC_STATUS_OK then do {
        b \<leftarrow> p_init;
        s \<leftarrow> nfc_enabled_ok E (body b) s;
        nfc_main_notify_enable_status E status s }
      else if has_fl NFC_FL_RESTARTING s then
        nfc_main_notify_enable_status E status (nfc_set_state NFC_STATE_NFCC_POWER_OFF_SLEEP s)
      else do {
        s \<leftarrow> nfc_free_conn_cb 0 s;
        if nfc_state s = NFC_STATE_CORE_INIT then Some (hal Hal_close s)
        else nfc_main_notify_enable_status E status (nfc_set_state NFC_STATE_NONE s) })"

section \<open>Shutdown\<close>

definition nfc_gen_cleanup :: "nfc_env \<Rightarrow> nfc_cb \<Rightarrow> nfc_cb option" where
  "nfc_gen_cleanup E s = do {
     let s = clear_fl NFC_FL_DEACTIVATING s;
     let s = (if has_fl NFC_FL_DISCOVER_PENDING s
              then clear_fl NFC_FL_DISCOVER_PENDING s\<lparr>p_last_disc := p_disc_pending s, p_disc_pending := None\<rparr> else s);
     let s = clear_fl (NFC_FL_CONTROL_REQUESTED OR NFC_FL_CONTROL_GRANTED OR NFC_FL_HAL_REQUESTED) s;
     s \<leftarrow> nfc_reset_all_conn_cbs E (s\<lparr>deactivate_timer := False\<rparr>);
     Some (nfc_main_flush_cmd_queue (s\<lparr>p_nci_init_rsp := None, p_last_disc := None\<rparr>)) }"

text \<open>The messages in the mailbox are dropped; the cleanup of LLCP is \<open>Llcp_Link\<close>.\<close>

definition nfc_task_shutdown_nfcc :: "nfc_env \<Rightarrow> nfc_cb \<Rightarrow> nfc_cb option" where
  "nfc_task_shutdown_nfcc E s = do {
     s \<leftarrow> nfc_gen_cleanup E (s\<lparr>nfc_mbox := []\<rparr>);
     Some (if has_fl NFC_FL_POWER_OFF_SLEEP s then hal Hal_close (nfc_set_state NFC_STATE_W4_HAL_CLOSE s)
           else if has_fl NFC_FL_POWER_CYCLE_NFCC s then hal Hal_power_cycle (nfc_set_state NFC_STATE_W4_HAL_OPEN s)
           else hal Hal_close (nfc_set_state NFC_STATE_W4_HAL_CLOSE s)) }"

definition NFC_Disable :: "nfc_env \<Rightarrow> nfc_cb \<Rightarrow> nfc_cb option" where
  "NFC_Disable E s =
     (if nfc_state s = NFC_STATE_NONE \<or> nfc_state s = NFC_STATE_NFCC_POWER_OFF_SLEEP then
        let s = nfc_set_state NFC_STATE_NONE s in
        if p_resp_cback s then do { s \<leftarrow> app E (Resp_cback NFC_DISABLE_REVT) s; Some (s\<lparr>p_resp_cback := False\<rparr>) }
        else Some s
      else nfc_task_shutdown_nfcc E s)"

definition NFC_SetPowerOffSleep :: "nfc_env \<Rightarrow> bool \<Rightarrow> nfc_cb \<Rightarrow> (byte \<times> nfc_cb) option" where
  "NFC_SetPowerOffSleep E enable s =
     (if \<not> enable \<and> nfc_state s = NFC_STATE_NFCC_POWER_OFF_SLEEP then
        Some (NFC_STATUS_OK, hal Hal_open (nfc_set_state NFC_STATE_W4_HAL_OPEN (set_fl NFC_FL_RESTARTING s)))
      else if enable \<and> nfc_state s = NFC_STATE_IDLE then do {
        s \<leftarrow> nfc_task_shutdown_nfcc E (set_fl NFC_FL_POWER_OFF_SLEEP s);
        Some (NFC_STATUS_OK, s) }
      else Some (NFC_STATUS_FAILED, s))"

definition NFC_PowerCycleNFCC :: "nfc_env \<Rightarrow> nfc_cb \<Rightarrow> (byte \<times> nfc_cb) option" where
  "NFC_PowerCycleNFCC E s =
     (if nfc_state s = NFC_STATE_IDLE then do {
        s \<leftarrow> nfc_task_shutdown_nfcc E (set_fl NFC_FL_POWER_CYCLE_NFCC s);
        Some (NFC_STATUS_OK, s) }
      else Some (NFC_STATUS_FAILED, s))"

text \<open>The state after \<open>NFC_Init\<close>; the variables outside \<open>nfc_cb\<close> keep their values.\<close>

definition nfc_interface_mapping :: "(byte \<times> byte \<times> byte) list" where
  "nfc_interface_mapping = [(0x04, 3, 2), (0x05, 3, 3), (0x80, 1, 0x80), (0x03, 2, 1)]"

definition zero_conn :: conn_cb where
  "zero_conn = \<lparr>p_cback = None, tx_q = [], rx_q = [], cb_id = 0, act_protocol = 0, conn_id = NFC_ILLEGAL_CONN_ID,
     buff_size = 0, num_buff = 0, init_credits = 0, act_interface = 0, sel_res = 0\<rparr>"

definition NFC_Init :: "nfc_cb \<Rightarrow> nfc_cb" where
  "NFC_Init s = s\<lparr>nfc_flags := 0, conn_cb := (\<lambda>_. zero_conn), conn_id_map := (\<lambda>_. 0), p_discv_cback := False,
     p_resp_cback := False, p_vs_cb := replicate NFC_NUM_VS_CBACKS None, nxpCbflag := False, nci_features := 0,
     max_ce_table := 0, max_conn := 1, nci_ctrl_size := 32, p_disc_maps := nfc_interface_mapping,
     vs_interface := replicate NFC_NFCC_MAX_NUM_VS_INTERFACE 0, nci_interfaces := 0, num_disc_maps := 4,
     p_disc_pending := None, p_last_disc := None, deactivate_timer := False, deactivate_param := 0,
     nfc_state := NFC_STATE_NONE, reassembly := True, last_hdr := [0, 0], last_cmd := [0, 0], last_cmd_buf := None,
     cmd_size := 0, p_vsc_cback := None, nci_cmd_xmit_q := [], nci_wait_rsp_timer := False,
     nci_wait_data_ntf_timer := False, nci_cmd_window := NCI_MAX_CMD_WINDOW, p_nci_init_rsp := None,
     cmd_channel_busy := False, data_stored := False, i2c_conn_id := 0\<rparr>"

definition NFC_Enable :: "nfc_env \<Rightarrow> bool \<Rightarrow> nfc_cb \<Rightarrow> byte \<times> nfc_cb" where
  "NFC_Enable E cback s =
     (if \<not> cback then (NFC_STATUS_INVALID_PARAM, s)
      else
        let s = hal Hal_open (nfc_set_state NFC_STATE_W4_HAL_OPEN (s\<lparr>p_resp_cback := True\<rparr>)) in
        (NFC_STATUS_OK, if chip_pn547 E then s\<lparr>num_disc_maps := num_disc_maps s - 1\<rparr> else s))"

end
