(* ===== verification/Nci_Recv.thy ===== *)
theory Nci_Recv
  imports Nci_Start
begin

text \<open>
  What arrives from the NFCC: the handlers of responses and notifications of \<open>nfc/nfc/nfc_ncif.c\<close>, their
  dispatch in \<open>nfc/nci/nci_hrcv.c\<close>, and the recovery after a command timeout. A message is a buffer that
  starts with the header of three bytes; its parameters start at position 3.
\<close>

section \<open>Events\<close>

definition nfc_ncif_rf_management_status :: "nfc_env \<Rightarrow> discv_evt \<Rightarrow> nfc_cb \<Rightarrow> nfc_cb option" where
  "nfc_ncif_rf_management_status = discv_cback"

definition nfc_ncif_event_status :: "nfc_env \<Rightarrow> resp_evt \<Rightarrow> nfc_cb \<Rightarrow> nfc_cb option" where
  "nfc_ncif_event_status = resp_cback"

definition nfc_ncif_set_config_status :: "nfc_env \<Rightarrow> byte list \<Rightarrow> nat \<Rightarrow> nfc_cb \<Rightarrow> nfc_cb option" where
  "nfc_ncif_set_config_status E m p s =
     (if p_resp_cback s then do {
        (status, ids) \<leftarrow> decode_set_config m p;
        app E (Resp_cback (NFC_SET_CONFIG_REVT status ids)) s }
      else Some s)"

definition nfc_ncif_error_status :: "nfc_env \<Rightarrow> byte \<Rightarrow> byte \<Rightarrow> nfc_cb \<Rightarrow> nfc_cb option" where
  "nfc_ncif_error_status E cid status s =
     (case nfc_find_conn_cb_by_conn_id cid s of
        None \<Rightarrow> Some s
      | Some i \<Rightarrow> conn_cback E (p_cback (conn_cb s i)) cid (NFC_ERROR_CEVT status) s)"

definition nfc_ncif_proc_rf_field_ntf :: "nfc_env \<Rightarrow> byte \<Rightarrow> nfc_cb \<Rightarrow> nfc_cb option" where
  "nfc_ncif_proc_rf_field_ntf E rf_status = resp_cback E (NFC_RF_FIELD_REVT rf_status)"

definition nfc_ncif_proc_discover_ntf :: "nfc_env \<Rightarrow> byte list \<Rightarrow> nfc_cb \<Rightarrow> nfc_cb option" where
  "nfc_ncif_proc_discover_ntf E m s =
     (if p_discv_cback s then do {
        disc \<leftarrow> rd m 3; proto \<leftarrow> rd m 4; mode \<leftarrow> rd m 5;
        (tech, p) \<leftarrow> nfc_ncif_decode_rf_params (kovio_poll E) mode m 6;
        mre \<leftarrow> rd m p;
        app E (Discv_cback (NFC_RESULT_DEVT disc proto mode tech mre)) s }
      else Some s)"

definition nfc_ncif_proc_rf_wtx_ntf :: "nfc_env \<Rightarrow> nfc_cb \<Rightarrow> nfc_cb option" where
  "nfc_ncif_proc_rf_wtx_ntf E s = do {
     i \<leftarrow> nfc_find_conn_cb_by_conn_id NFC_RF_CONN_ID s;
     if conn_id (conn_cb s i) = NFC_RF_CONN_ID
     then conn_cback E (p_cback (conn_cb s i)) NFC_RF_CONN_ID NFC_RF_WTX_CEVT s else Some s }"

definition nfc_ncif_proc_activate :: "nfc_env \<Rightarrow> byte list \<Rightarrow> nat \<Rightarrow> nfc_cb \<Rightarrow> nfc_cb option" where
  "nfc_ncif_proc_activate E m p s = do {
     let s = nfc_set_state NFC_STATE_OPEN s;
     (a, bsz, num) \<leftarrow> decode_activation (kovio_poll E) m p;
     let s = (if ntf_protocol a = NCI_PROTOCOL_NFC_DEP \<and> rf_mode a = NCI_DISCOVERY_TYPE_LISTEN_F
              then s\<lparr>sListenActivated := True\<rparr> else s);
     let s = upd_conn 0 (\<lambda>c. c\<lparr>act_protocol := ntf_protocol a, act_interface := intf_type a, sel_res := tech_param a ! 13,
                            buff_size := bsz, num_buff := num, init_credits := num\<rparr>) s;
     discv_cback E (NFC_ACTIVATE_DEVT a) s }"

definition nfc_ncif_proc_ee_action :: "nfc_env \<Rightarrow> byte list \<Rightarrow> nat \<Rightarrow> byte \<Rightarrow> nfc_cb \<Rightarrow> nfc_cb option" where
  "nfc_ncif_proc_ee_action E m p plen s =
     (if p_resp_cback s then do {
        (ee, trigger, u) \<leftarrow> decode_ee_action m p plen;
        app E (Resp_cback (NFC_EE_ACTION_REVT ee trigger u)) s }
      else Some s)"

definition nfc_ncif_proc_ee_discover_req :: "nfc_env \<Rightarrow> byte list \<Rightarrow> nat \<Rightarrow> byte \<Rightarrow> nfc_cb \<Rightarrow> nfc_cb option" where
  "nfc_ncif_proc_ee_discover_req E m p plen s =
     (if p_resp_cback s then do {
        r \<leftarrow> decode_ee_discover_req m p plen;
        case r of None \<Rightarrow> Some s | Some (num, es) \<Rightarrow> app E (Resp_cback (NFC_EE_DISCOVER_REQ_REVT num es)) s }
      else Some s)"

definition nfc_ncif_proc_get_routing :: "nfc_env \<Rightarrow> byte list \<Rightarrow> nat \<Rightarrow> byte \<Rightarrow> nfc_cb \<Rightarrow> nfc_cb option" where
  "nfc_ncif_proc_get_routing E m p len s =
     (if p_resp_cback s then do {
        mre \<leftarrow> rd m p; num \<leftarrow> rd m (p + 1); tlvs \<leftarrow> rd_bytes m p (unat len);
        app E (Resp_cback (NFC_GET_ROUTING_REVT (if mre = 0 then NFC_STATUS_OK else NFC_STATUS_CONTINUE) num tlvs)) s }
      else Some s)"

text \<open>The size that is announced with the parameters of GET_CONFIG counts the status byte too.\<close>

definition nfc_ncif_proc_get_config_rsp :: "nfc_env \<Rightarrow> bt_hdr \<Rightarrow> nfc_cb \<Rightarrow> nfc_cb option" where
  "nfc_ncif_proc_get_config_rsp E b s =
     (if p_resp_cback s then do {
        status \<leftarrow> rd (body b) 3;
        app E (Resp_cback (NFC_GET_CONFIG_REVT status (blen b - of_nat NCI_MSG_HDR_SIZE) (drop 4 (body b)))) s }
      else Some s)"

definition nfc_ncif_proc_t3t_polling_ntf :: "nfc_env \<Rightarrow> byte list \<Rightarrow> nat \<Rightarrow> byte \<Rightarrow> nfc_cb \<Rightarrow> nfc_cb option" where
  "nfc_ncif_proc_t3t_polling_ntf E m p plen s = do {
     status \<leftarrow> rd m p; num \<leftarrow> rd m (p + 1); bs \<leftarrow> rd_bytes m (p + 2) (unat (plen - 2));
     t3t_poll E status num bs s }"

section \<open>Recovery\<close>

text \<open>
  The buffer for the HAL: what kind of recovery, the discovery command if the discovery was running,
  and the last command. A missing copy of the discovery parameters or of the last command, and a
  missing connection for the data of the DH, are null pointers that the code follows.
\<close>

definition default_discovery :: "byte list" where
  "default_discovery = [0x21, 0x03, 0x17, 0x0B, 0x00, 0x01, 0x01, 0x01, 0x02, 0x01, 0x03, 0x01, 0x80, 0x01, 0x81, 0x01,
     0x82, 0x01, 0x83, 0x01, 0x85, 0x01, 0x06, 0x01]"

definition recovery_discovery :: "nfc_cb \<Rightarrow> byte list option" where
  "recovery_discovery s =
     (if dm_disc_state s = 0 then Some (set_at 0 [1, 0] (replicate 2040 0))
      else do {
        ps \<leftarrow> p_last_disc s;
        n \<leftarrow> rd ps 0;
        let u = set_at 0 [1, 1] (replicate 2040 0);
        if n \<noteq> 0 then do {
          bs \<leftarrow> rd_bytes ps 0 (unat (1 + n * 2));
          Some (set_at 6 bs (set_at 2 [4 + n * 2, 0x21, 0x03, 1 + n * 2] u)) }
        else Some (set_at 2 (26 # default_discovery) u) })"

definition recovery_command :: "nfc_cb \<Rightarrow> byte list \<Rightarrow> byte list option" where
  "recovery_command s u =
     (if saved_cmd (last_hdr s) then do {
        copy \<leftarrow> last_cmd_buf s;
        bs \<leftarrow> rd_bytes copy 0 (unat (cmd_size s) + 1);
        Some (set_at 38 bs (set_at 36 (last_hdr s) (set_at 35 [cmd_size s + 3] u))) }
      else
        let u = set_at 38 [cmd_size s] (set_at 36 (last_hdr s) (set_at 35 [3 + cmd_size s] u));
            u = (if 0 < cmd_size s then set_at 39 (last_cmd s) u else u) in
        Some (if last_hdr s = [0x20, 0x00] then set_at 0 [2] u
              else if last_hdr s = [0x20, 0x01] then set_at 0 [3] u else u))"

definition nfc_ncif_cmd_timeout :: "nfc_env \<Rightarrow> nfc_cb \<Rightarrow> nfc_cb option" where
  "nfc_ncif_cmd_timeout E s =
     (let (got, s) = take_buffer (s\<lparr>nci_wait_rsp_timer := False\<rparr>) in
      if \<not> got then Some s
      else do {
        u \<leftarrow> recovery_discovery s;
        let s = (if dm_disc_state s = 0 then s else s\<lparr>dm_disc_state := 1, ce_flags := 0\<rparr>);
        u \<leftarrow> recovery_command s u;
        let s = (if hci_wait_rsp s then let (got, s) = take_buffer s in if got then s\<lparr>hci_timeouts := hci_timeouts s + 1\<rparr> else s
                 else s);
        i \<leftarrow> nfc_find_conn_cb_by_conn_id (nfcc_dh_conn_id s) s;
        let (st, s) = NFC_FlushData (conn_id (conn_cb s i)) s;
        Some (hal (Hal_core_initialized u) s) })"

text \<open>A credit notification that does not come, with fragmentation on I2C.\<close>

definition nfc_ncif_credit_ntf_timeout :: "nfc_env \<Rightarrow> nfc_cb \<Rightarrow> nfc_cb option" where
  "nfc_ncif_credit_ntf_timeout E s = do {
     let s = hal Hal_power_cycle (s\<lparr>nci_cmd_window := nci_cmd_window s + 1\<rparr>)\<lparr>nci_cmd_xmit_q := []\<rparr>;
     i \<leftarrow> p_cb_stored s;
     nfc_ncif_cmd_timeout E (upd_conn i (\<lambda>c. c\<lparr>tx_q := []\<rparr>) s) }"

definition disc_deact_ntf_timeout_handler :: "nfc_env \<Rightarrow> nfc_cb \<Rightarrow> nfc_cb option" where
  "disc_deact_ntf_timeout_handler E s =
     resp_cback E (NFC_NFCC_TIMEOUT_REVT NFC_STATUS_HW_TIMEOUT) (s\<lparr>etsi_reader_in_progress := False\<rparr>)"

section \<open>Reset and initialisation\<close>

abbreviation (input) NCI_VERSION :: byte where "NCI_VERSION \<equiv> 0x10"
abbreviation (input) NCI_VERSION_0_F :: byte where "NCI_VERSION_0_F \<equiv> 0x0F"

definition nfc_ncif_proc_reset_rsp :: "nfc_env \<Rightarrow> byte list \<Rightarrow> bool \<Rightarrow> nfc_cb \<Rightarrow> nfc_cb option" where
  "nfc_ncif_proc_reset_rsp E m is_ntf s = do {
     status \<leftarrow> rd m 3;
     if is_ntf then nfc_ncif_cmd_timeout E (s\<lparr>core_reset_init_num_buff := True\<rparr>)
     else do {
       s \<leftarrow> (if has_fl (NFC_FL_RESTARTING OR NFC_FL_POWER_CYCLE_NFCC) s then nfc_reset_all_conn_cbs E s else Some s);
       status \<leftarrow> (if status = NFC_STATUS_OK then do {
                   v \<leftarrow> rd m 4;
                   Some (if v \<noteq> NCI_VERSION \<and> v < NCI_VERSION_0_F then NFC_STATUS_FAILED else status) }
                 else Some status);
       if status = NFC_STATUS_OK then do { (st, s) \<leftarrow> nci_snd_core_init E s; Some s }
       else nfc_enabled E status None s } }"

definition nfc_ncif_store_FWVersion :: "byte list \<Rightarrow> nfc_cb \<Rightarrow> (byte \<times> nfc_cb) option" where
  "nfc_ncif_store_FWVersion m s = do {
     l \<leftarrow> rd m 2;
     rom \<leftarrow> rd m (unat l); major \<leftarrow> rd m (unat l + 1); minor \<leftarrow> rd m (unat l + 2);
     Some (if rom = 0 \<or> major = 0 then NFC_STATUS_FAILED else NFC_STATUS_OK, s\<lparr>nfc_fw_version := (rom, major, minor)\<rparr>) }"

definition nfc_ncif_proc_init_rsp :: "nfc_env \<Rightarrow> bt_hdr \<Rightarrow> nfc_cb \<Rightarrow> nfc_cb option" where
  "nfc_ncif_proc_init_rsp E b s = do {
     status \<leftarrow> rd (body b) 3;
     (fw_status, s) \<leftarrow> nfc_ncif_store_FWVersion (body b) s;
     if status = NFC_STATUS_OK \<and> fw_status = NFC_STATUS_OK then
       Some (hal (Hal_core_initialized (body b))
         (nfc_set_state NFC_STATE_W4_POST_INIT_CPLT
           (upd_conn 0 (\<lambda>c. c\<lparr>cb_id := NFC_RF_CONN_ID, act_protocol := NCI_PROTOCOL_UNKNOWN\<rparr>) s)
            \<lparr>retry_cnt := 0, p_nci_init_rsp := Some b\<rparr>))
     else if retry_cnt s < 2 \<and> fw_status \<noteq> NFC_STATUS_OK then
       Some (s\<lparr>retry_cnt := retry_cnt s + 1, transport_ready := True\<rparr>)
     else nfc_enabled E NFC_STATUS_FAILED None (s\<lparr>retry_cnt := 0\<rparr>) }"

section \<open>Responses\<close>

definition nci_proc_core_rsp :: "nfc_env \<Rightarrow> bt_hdr \<Rightarrow> nfc_cb \<Rightarrow> nfc_cb option" where
  "nci_proc_core_rsp E b s = do {
     op \<leftarrow> rd (body b) 1; len \<leftarrow> rd (body b) 2;
     let op = hdr_oid op;
     if op = 0 then nfc_ncif_proc_reset_rsp E (body b) False s
     else if op = 1 then nfc_ncif_proc_init_rsp E b s
     else if op = 3 then nfc_ncif_proc_get_config_rsp E b s
     else if op = 2 then nfc_ncif_set_config_status E (body b) 3 s
     else if op = 4 then do {
       old \<leftarrow> rd (last_cmd s) 0; nfc_ncif_proc_conn_create_rsp E (body b) old s }
     else if op = 5 then do {
       old \<leftarrow> rd (last_cmd s) 0; status \<leftarrow> rd (body b) 3; nfc_ncif_report_conn_close_evt E old status s }
     else Some s }"

definition nci_proc_rf_management_rsp :: "nfc_env \<Rightarrow> bt_hdr \<Rightarrow> nfc_cb \<Rightarrow> nfc_cb option" where
  "nci_proc_rf_management_rsp E b s = do {
     op \<leftarrow> rd (body b) 1; len \<leftarrow> rd (body b) 2;
     let op = hdr_oid op;
     if op = 3 then do {
       let (go, s) = p2p_prio E op (drop 3 (body b)) 1 s;
       status \<leftarrow> rd (body b) 3;
       nfc_ncif_rf_management_status E (NFC_START_DEVT status) s }
     else if op = 4 then do { status \<leftarrow> rd (body b) 3; nfc_ncif_rf_management_status E (NFC_SELECT_DEVT status) s }
     else if op = 8 then Some s
     else if op = 0 then do { status \<leftarrow> rd (body b) 3; nfc_ncif_rf_management_status E (NFC_MAP_DEVT status) s }
     else if op = 6 then do {
       let (go, s) = p2p_prio E op (drop 3 (body b)) 1 s;
       if \<not> go then Some s
       else do {
         status \<leftarrow> rd (body b) 3; old \<leftarrow> rd (last_cmd s) 0;
         nfc_ncif_proc_deactivate E status old False s } }
     else if op = 1 then do { status \<leftarrow> rd (body b) 3; nfc_ncif_event_status E (NFC_SET_ROUTING_REVT status) s }
     else if op = 2 then do {
       status \<leftarrow> rd (body b) 3;
       if status \<noteq> NFC_STATUS_OK then nfc_ncif_event_status E (NFC_GET_ROUTING_REVT status 0 []) s else Some s }
     else if op = 11 then do { status \<leftarrow> rd (body b) 3; nfc_ncif_event_status E (NFC_RF_COMM_PARAMS_UPDATE_REVT status) s }
     else Some s }"

definition nci_proc_ee_management_rsp :: "nfc_env \<Rightarrow> bt_hdr \<Rightarrow> nfc_cb \<Rightarrow> nfc_cb option" where
  "nci_proc_ee_management_rsp E b s = do {
     op \<leftarrow> rd (body b) 1; len \<leftarrow> rd (body b) 2;
     let op = hdr_oid op;
     if op = 0 then do {
       status \<leftarrow> rd (body b) 3; num \<leftarrow> rd (body b) 4;
       resp_cback E (NFC_NFCEE_DISCOVER_REVT status (if status \<noteq> NFC_STATUS_OK then 0 else num)) s }
     else if op = 1 then do {
       status \<leftarrow> rd (body b) 3; ee \<leftarrow> rd (last_cmd s) 0; mode \<leftarrow> rd (last_cmd s) 1;
       resp_cback E (NFC_NFCEE_MODE_SET_REVT status ee mode) s }
     else Some s }"

definition nci_proc_prop_rsp :: "nfc_env \<Rightarrow> bt_hdr \<Rightarrow> nfc_cb \<Rightarrow> nfc_cb option" where
  "nci_proc_prop_rsp E b s = do {
     op \<leftarrow> rd (body b) 1; len \<leftarrow> rd (body b) 2;
     case p_vsc_cback s of None \<Rightarrow> Some s | Some k \<Rightarrow> app E (Vs_cback k (0x40 OR hdr_oid op) (body b)) s }"

definition nci_proc_prop_nxp_rsp :: "nfc_env \<Rightarrow> bt_hdr \<Rightarrow> nfc_cb \<Rightarrow> nfc_cb option" where
  "nci_proc_prop_nxp_rsp E b s = do {
     op \<leftarrow> rd (body b) 1; len \<leftarrow> rd (body b) 2;
     s \<leftarrow> (case p_vsc_cback s of
            None \<Rightarrow> Some s
          | Some k \<Rightarrow> do { s \<leftarrow> app E (Vs_cback k (0x40 OR hdr_oid op) (body b)) s; Some (s\<lparr>p_vsc_cback := None\<rparr>) });
     nfc_ncif_update_window E s }"

section \<open>Notifications\<close>

definition nci_proc_core_ntf :: "nfc_env \<Rightarrow> bt_hdr \<Rightarrow> nfc_cb \<Rightarrow> nfc_cb option" where
  "nci_proc_core_ntf E b s = do {
     op \<leftarrow> rd (body b) 1; len \<leftarrow> rd (body b) 2;
     let op = hdr_oid op;
     if op = 0 then nfc_ncif_proc_reset_rsp E (body b) True s
     else if op = 7 then do {
       status \<leftarrow> rd (body b) 3;
       s \<leftarrow> nfc_ncif_event_status E (NFC_GEN_ERROR_REVT status) s;
       nfc_ncif_error_status E NFC_RF_CONN_ID status s }
     else if op = 8 then do {
       status \<leftarrow> rd (body b) 3; cid \<leftarrow> rd (body b) 4; nfc_ncif_error_status E cid status s }
     else if op = 6 then nfc_ncif_proc_credits E (body b) 3 s
     else Some s }"

definition nci_proc_rf_management_ntf :: "nfc_env \<Rightarrow> bt_hdr \<Rightarrow> nfc_cb \<Rightarrow> nfc_cb option" where
  "nci_proc_rf_management_ntf E b s = do {
     op \<leftarrow> rd (body b) 1; len \<leftarrow> rd (body b) 2;
     let op = hdr_oid op;
     if op = 3 then nfc_ncif_proc_discover_ntf E (body b) s
     else if op = 6 then do {
       let (go, s) = p2p_prio E op (drop 3 (body b)) 2 s;
       if \<not> go then Some s
       else do { deact_type \<leftarrow> rd (body b) 3; nfc_ncif_proc_deactivate E NFC_STATUS_OK deact_type True s } }
     else if op = 5 then do {
       let (go, s) = p2p_prio E op (drop 3 (body b)) 2 s;
       if \<not> go then Some s else nfc_ncif_proc_activate E (body b) 3 s }
     else if op = 7 then do { st \<leftarrow> rd (body b) 3; nfc_ncif_proc_rf_field_ntf E st s }
     else if op = 8 then nfc_ncif_proc_t3t_polling_ntf E (body b) 3 len s
     else if op = 2 then nfc_ncif_proc_get_routing E (body b) 3 len s
     else if op = 9 then nfc_ncif_proc_ee_action E (body b) 3 len s
     else if op = 10 then nfc_ncif_proc_ee_discover_req E (body b) 3 len s
     else Some s }"

definition nci_proc_ee_management_ntf :: "nfc_env \<Rightarrow> bt_hdr \<Rightarrow> nfc_cb \<Rightarrow> nfc_cb option" where
  "nci_proc_ee_management_ntf E b s = do {
     op \<leftarrow> rd (body b) 1; len \<leftarrow> rd (body b) 2;
     if hdr_oid op = 0 then do {
       (ee, st, intfs, tlvs) \<leftarrow> decode_ee_info (body b) 3;
       resp_cback E (NFC_NFCEE_INFO_REVT ee st intfs tlvs) s }
     else Some s }"

primrec vs_cbacks :: "nfc_env \<Rightarrow> nat list \<Rightarrow> byte \<Rightarrow> byte list \<Rightarrow> nfc_cb \<Rightarrow> nfc_cb option" where
  "vs_cbacks E [] ev m s = Some s"
| "vs_cbacks E (i # is) ev m s = do {
     s \<leftarrow> (case p_vs_cb s ! i of None \<Rightarrow> Some s | Some k \<Rightarrow> app E (Vs_cback k ev m) s);
     vs_cbacks E is ev m s }"

definition nci_proc_prop_ntf :: "nfc_env \<Rightarrow> bt_hdr \<Rightarrow> nfc_cb \<Rightarrow> nfc_cb option" where
  "nci_proc_prop_ntf E b s = do {
     op \<leftarrow> rd (body b) 1; len \<leftarrow> rd (body b) 2;
     if hdr_oid op = 0x17 then nfc_ncif_proc_rf_wtx_ntf E s
     else vs_cbacks E [0..<NFC_NUM_VS_CBACKS] (0x80 OR hdr_oid op) (body b) s }"

section \<open>Dispatch\<close>

text \<open>
  Whether a message answers a command of \<open>NFC_SendNxpNciCommand\<close>. In the group of the RF management the
  exception for object 6 falls through to the default.
\<close>

definition nfc_ncif_proc_proprietary_rsp :: "byte \<Rightarrow> byte \<Rightarrow> byte \<Rightarrow> bool" where
  "nfc_ncif_proc_proprietary_rsp mt gid oid =
     (if mt = NCI_MT_DATA then \<not> (gid = 0x03 \<and> oid = 0x00)
      else if mt = NCI_MT_NTF then \<not> (gid = NCI_GID_CORE \<and> oid = 0x06)
      else True)"

definition process_rsp :: "nfc_env \<Rightarrow> bt_hdr \<Rightarrow> byte \<Rightarrow> nfc_cb \<Rightarrow> nfc_cb option" where
  "process_rsp E b gid s = do {
     s \<leftarrow> (if gid = NCI_GID_CORE then nci_proc_core_rsp E b s
          else if gid = NCI_GID_RF_MANAGE then nci_proc_rf_management_rsp E b s
          else if gid = NCI_GID_EE_MANAGE then nci_proc_ee_management_rsp E b s
          else if gid = NCI_GID_PROP then nci_proc_prop_rsp E b s
          else Some s);
     if i2c_fragmentation s then do {
       let stored = nfc_find_conn_cb_by_conn_id (i2c_conn_id s) s;
       let s = s\<lparr>cmd_channel_busy := False, p_cb_stored := stored\<rparr>;
       case stored of
         None \<Rightarrow> Some s
       | Some i \<Rightarrow> do {
           s \<leftarrow> nfc_ncif_update_window E s;
           if data_stored s \<and> \<not> cmd_channel_busy s
           then do { (st, s) \<leftarrow> nfc_ncif_send_data E i None s; Some (s\<lparr>data_stored := False\<rparr>) }
           else Some s } }
     else nfc_ncif_update_window E s }"

definition process_ntf :: "nfc_env \<Rightarrow> bt_hdr \<Rightarrow> byte \<Rightarrow> nfc_cb \<Rightarrow> nfc_cb option" where
  "process_ntf E b gid s =
     (if gid = NCI_GID_CORE then nci_proc_core_ntf E b s
      else if gid = NCI_GID_RF_MANAGE then nci_proc_rf_management_ntf E b s
      else if gid = NCI_GID_EE_MANAGE then nci_proc_ee_management_ntf E b s
      else if gid = NCI_GID_PROP then nci_proc_prop_ntf E b s
      else Some s)"

definition nfc_ncif_process_event :: "nfc_env \<Rightarrow> bt_hdr \<Rightarrow> nfc_cb \<Rightarrow> nfc_cb option" where
  "nfc_ncif_process_event E b s = do {
     h \<leftarrow> rd (body b) 0;
     o1 \<leftarrow> rd (body b) 1;
     let mt = hdr_mt h;
     let gid = hdr_gid h;
     let oid = hdr_oid o1;
     let s = s\<lparr>sListenActivated := False\<rparr>;
     if nxpCbflag s \<and> nfc_ncif_proc_proprietary_rsp mt gid oid then do {
       s \<leftarrow> nci_proc_prop_nxp_rsp E b s;
       Some (s\<lparr>nxpCbflag := False\<rparr>) }
     else if mt = NCI_MT_DATA then nfc_ncif_proc_data E b s
     else if mt = NCI_MT_RSP then do {
       h0 \<leftarrow> rd (last_hdr s) 0; h1 \<leftarrow> rd (last_hdr s) 1;
       if hdr_gid h0 = gid \<and> hdr_oid h1 = oid then process_rsp E b gid s
       else if gid = NCI_GID_RF_MANAGE \<and> oid = 3 \<and> etsi_reader_in_progress s then do {
         s \<leftarrow> disc_deact_ntf_timeout_handler E
           (s\<lparr>dm_disc_state := 0, dm_disc_flags := (dm_disc_flags s AND NOT (0x0040 OR 0x0002)) OR (0x0020 OR 0x0010 OR 0x0001)\<rparr>);
         process_rsp E b gid s }
       else Some s }
     else if mt = NCI_MT_NTF then process_ntf E b gid s
     else Some s }"

end
