(* ===== verification/Nci_Main.thy ===== *)
theory Nci_Main
  imports Nci_Recv
begin

text \<open>
  The task of the NFC core, \<open>nfc/nfc/nfc_task.c\<close>, and its connection to the HAL, the second half of
  \<open>nfc/nfc/nfc_main.c\<close>: the callbacks that the HAL calls put messages into the mailbox, the task takes
  them out. A step of the task handles one event. The messages that only start the periodic timer of
  GKI and the quick timers, which belong to LLCP and to the tags, are left out.
\<close>

section \<open>Events of the HAL\<close>

abbreviation (input) HAL_NFC_OPEN_CPLT_EVT :: byte where "HAL_NFC_OPEN_CPLT_EVT \<equiv> 0"
abbreviation (input) HAL_NFC_CLOSE_CPLT_EVT :: byte where "HAL_NFC_CLOSE_CPLT_EVT \<equiv> 1"
abbreviation (input) HAL_NFC_POST_INIT_CPLT_EVT :: byte where "HAL_NFC_POST_INIT_CPLT_EVT \<equiv> 2"
abbreviation (input) HAL_NFC_PRE_DISCOVER_CPLT_EVT :: byte where "HAL_NFC_PRE_DISCOVER_CPLT_EVT \<equiv> 3"
abbreviation (input) HAL_NFC_REQUEST_CONTROL_EVT :: byte where "HAL_NFC_REQUEST_CONTROL_EVT \<equiv> 4"
abbreviation (input) HAL_NFC_RELEASE_CONTROL_EVT :: byte where "HAL_NFC_RELEASE_CONTROL_EVT \<equiv> 5"
abbreviation (input) HAL_NFC_ERROR_EVT :: byte where "HAL_NFC_ERROR_EVT \<equiv> 6"
abbreviation (input) HAL_NFC_ENABLE_I2C_FRAGMENTATION_EVT :: byte where "HAL_NFC_ENABLE_I2C_FRAGMENTATION_EVT \<equiv> 7"

abbreviation (input) HAL_NFC_STATUS_OK :: byte where "HAL_NFC_STATUS_OK \<equiv> 0"
abbreviation (input) HAL_NFC_STATUS_ERR_TRANSPORT :: byte where "HAL_NFC_STATUS_ERR_TRANSPORT \<equiv> 2"
abbreviation (input) HAL_NFC_STATUS_ERR_CMD_TIMEOUT :: byte where "HAL_NFC_STATUS_ERR_CMD_TIMEOUT \<equiv> 3"

text \<open>The states before \<open>NFC_STATE_IDLE\<close>: the NFCC is being enabled.\<close>

definition enabling :: "nfc_state \<Rightarrow> bool" where
  "enabling st \<longleftrightarrow> st \<in> {NFC_STATE_NONE, NFC_STATE_W4_HAL_OPEN, NFC_STATE_CORE_INIT, NFC_STATE_W4_POST_INIT_CPLT}"

definition nfc_hal_closed :: "nfc_env \<Rightarrow> nfc_cb \<Rightarrow> nfc_cb option" where
  "nfc_hal_closed E s =
     (if \<not> p_resp_cback s then Some s
      else if nfc_state s = NFC_STATE_W4_HAL_CLOSE then
        if has_fl NFC_FL_POWER_OFF_SLEEP s
        then app E (Resp_cback NFC_NFCC_POWER_OFF_REVT)
               (nfc_set_state NFC_STATE_NFCC_POWER_OFF_SLEEP (clear_fl NFC_FL_POWER_OFF_SLEEP s))
        else do {
          s \<leftarrow> app E (Resp_cback NFC_DISABLE_REVT) (nfc_set_state NFC_STATE_NONE s);
          Some (s\<lparr>p_resp_cback := False\<rparr>) }
      else nfc_main_notify_enable_status E NFC_STATUS_FAILED (nfc_set_state NFC_STATE_NONE s))"

definition nfc_hal_post_init :: "nfc_env \<Rightarrow> byte \<Rightarrow> nfc_cb \<Rightarrow> nfc_cb option" where
  "nfc_hal_post_init E status s =
     (case p_nci_init_rsp s of
        None \<Rightarrow> Some s
      | Some b \<Rightarrow> do {
          s \<leftarrow> (if nfc_state s = NFC_STATE_W4_POST_INIT_CPLT then
                 if status = HAL_NFC_STATUS_OK then nfc_enabled E NFC_STATUS_OK (Some b) s
                 else nfc_enabled E NFC_STATUS_FAILED None s
               else Some s);
          Some (s\<lparr>p_nci_init_rsp := None\<rparr>) })"

definition nfc_hal_pre_discover :: "nfc_env \<Rightarrow> byte \<Rightarrow> nfc_cb \<Rightarrow> nfc_cb option" where
  "nfc_hal_pre_discover E status s = do {
     let s = clear_fl NFC_FL_CONTROL_GRANTED s\<lparr>nci_cmd_window := NCI_MAX_CMD_WINDOW\<rparr>;
     s \<leftarrow> (if has_fl NFC_FL_DISCOVER_PENDING s then do {
            ps \<leftarrow> p_disc_pending s;
            num \<leftarrow> rd ps 0;
            (st, s) \<leftarrow> nci_snd_discover_cmd E num (Some (drop 1 ps)) (clear_fl NFC_FL_DISCOVER_PENDING s);
            Some (s\<lparr>p_last_disc := p_disc_pending s, p_disc_pending := None\<rparr>) }
          else nfc_ncif_check_cmd_queue E None s);
     if status = HAL_NFC_STATUS_ERR_CMD_TIMEOUT
     then nfc_ncif_event_status E (NFC_NFCC_TIMEOUT_REVT NFC_STATUS_HW_TIMEOUT) s else Some s }"

definition nfc_hal_release_control :: "nfc_env \<Rightarrow> byte \<Rightarrow> nfc_cb \<Rightarrow> nfc_cb option" where
  "nfc_hal_release_control E status s =
     (if has_fl NFC_FL_CONTROL_GRANTED s then do {
        s \<leftarrow> nfc_ncif_check_cmd_queue E None (clear_fl NFC_FL_CONTROL_GRANTED s\<lparr>nci_cmd_window := NCI_MAX_CMD_WINDOW\<rparr>);
        if status = HAL_NFC_STATUS_ERR_CMD_TIMEOUT
        then nfc_ncif_event_status E (NFC_NFCC_TIMEOUT_REVT NFC_STATUS_HW_TIMEOUT) s else Some s }
      else Some s)"

definition nfc_hal_error :: "nfc_env \<Rightarrow> byte \<Rightarrow> nfc_cb \<Rightarrow> nfc_cb option" where
  "nfc_hal_error E status s =
     (if status = HAL_NFC_STATUS_ERR_TRANSPORT then
        if p_resp_cback s then do {
          s \<leftarrow> app E (Resp_cback NFC_NFCC_TRANSPORT_ERR_REVT) s;
          if enabling (nfc_state s) then nfc_enabled E NFC_STATUS_FAILED None s else Some s }
        else Some s
      else if status = HAL_NFC_STATUS_ERR_CMD_TIMEOUT then do {
        s \<leftarrow> nfc_ncif_event_status E (NFC_NFCC_TIMEOUT_REVT NFC_STATUS_HW_TIMEOUT) s;
        if enabling (nfc_state s) then nfc_enabled E NFC_STATUS_FAILED None s else Some s }
      else Some s)"

definition nfc_main_handle_hal_evt :: "nfc_env \<Rightarrow> byte \<Rightarrow> byte \<Rightarrow> nfc_cb \<Rightarrow> nfc_cb option" where
  "nfc_main_handle_hal_evt E ev status s =
     (if ev = HAL_NFC_OPEN_CPLT_EVT then nfc_enabled E NFC_STATUS_FAILED None s
      else if ev = HAL_NFC_CLOSE_CPLT_EVT then nfc_hal_closed E s
      else if ev = HAL_NFC_POST_INIT_CPLT_EVT then nfc_hal_post_init E status s
      else if ev = HAL_NFC_PRE_DISCOVER_CPLT_EVT then nfc_hal_pre_discover E status s
      else if ev = HAL_NFC_REQUEST_CONTROL_EVT
      then nfc_ncif_check_cmd_queue E None (set_fl NFC_FL_HAL_REQUESTED (set_fl NFC_FL_CONTROL_REQUESTED s))
      else if ev = HAL_NFC_RELEASE_CONTROL_EVT then nfc_hal_release_control E status s
      else if ev = HAL_NFC_ERROR_EVT then nfc_hal_error E status s
      else Some s)"

section \<open>Callbacks of the HAL\<close>

definition nfc_main_post_hal_evt :: "byte \<Rightarrow> byte \<Rightarrow> nfc_cb \<Rightarrow> nfc_cb" where
  "nfc_main_post_hal_evt ev status s =
     (let (got, s) = take_buffer s in if got then s\<lparr>nfc_mbox := nfc_mbox s @ [Hal_evt ev status]\<rparr> else s)"

definition nfc_main_hal_cback :: "byte \<Rightarrow> byte \<Rightarrow> nfc_cb \<Rightarrow> nfc_cb" where
  "nfc_main_hal_cback ev status s =
     (if ev = HAL_NFC_OPEN_CPLT_EVT then
        if nfc_state s = NFC_STATE_W4_HAL_OPEN then
          if status = HAL_NFC_STATUS_OK then s\<lparr>transport_ready := True\<rparr>
          else nfc_main_post_hal_evt ev status s
        else s
      else if ev \<le> HAL_NFC_ERROR_EVT then nfc_main_post_hal_evt ev status s
      else if ev = HAL_NFC_ENABLE_I2C_FRAGMENTATION_EVT then s\<lparr>i2c_fragmentation := True\<rparr>
      else s)"

text \<open>
  The packet is copied without a check of its length, which is undefined for one that is longer than
  the buffers of the NCI pool.
\<close>

definition rx_buffer :: "byte list \<Rightarrow> bt_hdr" where
  "rx_buffer p = \<lparr>bsize = NFC_NCI_POOL_BUF_SIZE, offset = of_nat NFC_RECEIVE_MSGS_OFFSET, layer_specific = 0, body = p\<rparr>"

definition nfc_main_hal_data_cback :: "byte list \<Rightarrow> nfc_cb \<Rightarrow> nfc_cb option" where
  "nfc_main_hal_data_cback p s =
     (if nfc_state s = NFC_STATE_W4_HAL_CLOSE then Some s
      else let (got, s) = take_buffer s in
        if \<not> got then Some s
        else if BT_HDR_SIZE + NFC_RECEIVE_MSGS_OFFSET + length p \<le> unat NFC_NCI_POOL_BUF_SIZE
        then Some (s\<lparr>nfc_mbox := nfc_mbox s @ [Nci_msg (rx_buffer p)]\<rparr>)
        else None)"

section \<open>Timers\<close>

datatype nfc_timer =
    NFC_TTYPE_NCI_WAIT_RSP
  | NFC_TTYPE_WAIT_2_DEACTIVATE
  | NFC_TTYPE_NCI_WAIT_DATA_NTF
  | NFC_TTYPE_LISTEN_ACTIVATION

fun timer_runs :: "nfc_timer \<Rightarrow> nfc_cb \<Rightarrow> bool" where
  "timer_runs NFC_TTYPE_NCI_WAIT_RSP s = nci_wait_rsp_timer s"
| "timer_runs NFC_TTYPE_WAIT_2_DEACTIVATE s = deactivate_timer s"
| "timer_runs NFC_TTYPE_NCI_WAIT_DATA_NTF s = nci_wait_data_ntf_timer s"
| "timer_runs NFC_TTYPE_LISTEN_ACTIVATION s = sListenActivated s"

text \<open>One round of the loop of \<open>nfc_process_timer_evt\<close>: a timer that has expired.\<close>

fun nfc_process_timer :: "nfc_env \<Rightarrow> nfc_timer \<Rightarrow> nfc_cb \<Rightarrow> nfc_cb option" where
  "nfc_process_timer E NFC_TTYPE_NCI_WAIT_RSP s = nfc_ncif_cmd_timeout E (s\<lparr>nci_wait_rsp_timer := False\<rparr>)"
| "nfc_process_timer E NFC_TTYPE_WAIT_2_DEACTIVATE s = nfc_wait_2_deactivate_timeout E (s\<lparr>deactivate_timer := False\<rparr>)"
| "nfc_process_timer E NFC_TTYPE_NCI_WAIT_DATA_NTF s =
     nfc_ncif_credit_ntf_timeout E (s\<lparr>nci_wait_data_ntf_timer := False, cmd_channel_busy := False, data_stored := False\<rparr>)"
| "nfc_process_timer E NFC_TTYPE_LISTEN_ACTIVATION s = nfc_ncif_cmd_timeout E (s\<lparr>sListenActivated := False\<rparr>)"

section \<open>The task\<close>

definition nfc_task_transport_ready :: "nfc_env \<Rightarrow> nfc_cb \<Rightarrow> nfc_cb option" where
  "nfc_task_transport_ready E s = do {
     (st, s) \<leftarrow> nci_snd_core_reset E 1 (nfc_set_state NFC_STATE_CORE_INIT (s\<lparr>transport_ready := False\<rparr>));
     Some s }"

fun nfc_task_message :: "nfc_env \<Rightarrow> mbox_msg \<Rightarrow> nfc_cb \<Rightarrow> nfc_cb option" where
  "nfc_task_message E (Nci_msg b) s = nfc_ncif_process_event E b s"
| "nfc_task_message E (Hal_evt ev status) s = nfc_main_handle_hal_evt E ev status s"

text \<open>
  One round of the loop of the task, when the HAL adds nothing to the mailbox meanwhile: the event of the
  transport, then all messages.
\<close>

partial_function (option) nfc_task_mbox :: "nfc_env \<Rightarrow> nfc_cb \<Rightarrow> nfc_cb option" where
  "nfc_task_mbox E s =
     (case nfc_mbox s of
        [] \<Rightarrow> Some s
      | m # q \<Rightarrow> do { s \<leftarrow> nfc_task_message E m (s\<lparr>nfc_mbox := q\<rparr>); nfc_task_mbox E s })"

definition nfc_task :: "nfc_env \<Rightarrow> nfc_cb \<Rightarrow> nfc_cb option" where
  "nfc_task E s = do {
     s \<leftarrow> (if transport_ready s then nfc_task_transport_ready E s else Some s);
     nfc_task_mbox E s }"

text \<open>
  Steps of the task and of the HAL in any order. The task never takes a message before it has seen the event
  of the transport, and empties the mailbox before it looks at the events again; the relation also has
  other orders of the two.
\<close>

inductive nfc_step :: "nfc_env \<Rightarrow> nfc_cb \<Rightarrow> nfc_cb \<Rightarrow> bool" for E where
  ready: "transport_ready s \<Longrightarrow> nfc_task_transport_ready E s = Some s' \<Longrightarrow> nfc_step E s s'"
| message: "nfc_mbox s = m # q \<Longrightarrow> nfc_task_message E m (s\<lparr>nfc_mbox := q\<rparr>) = Some s' \<Longrightarrow> nfc_step E s s'"
| timer: "timer_runs t s \<Longrightarrow> nfc_process_timer E t s = Some s' \<Longrightarrow> nfc_step E s s'"
| hal_event: "nfc_step E s (nfc_main_hal_cback ev status s)"
| hal_data: "nfc_main_hal_data_cback p s = Some s' \<Longrightarrow> nfc_step E s s'"

text \<open>A round of the task is a sequence of steps.\<close>

lemma task_mbox_steps:
  assumes "nfc_task_mbox E s = Some s'"
  shows "(nfc_step E)\<^sup>*\<^sup>* s s'"
proof (rule nfc_task_mbox.raw_induct [where P = "\<lambda>E s r. (nfc_step E)\<^sup>*\<^sup>* s r", OF _ assms])
  fix f E s s'
  assume ih: "\<And>E s y. f E s = Some y \<Longrightarrow> (nfc_step E)\<^sup>*\<^sup>* s y"
    and b: "(case nfc_mbox s of [] \<Rightarrow> Some s
        | m # q \<Rightarrow> nfc_task_message E m (s\<lparr>nfc_mbox := q\<rparr>) \<bind> f E) = Some s'"
  show "(nfc_step E)\<^sup>*\<^sup>* s s'"
  proof (cases "nfc_mbox s")
    case (Cons m q)
    then obtain t where "nfc_task_message E m (s\<lparr>nfc_mbox := q\<rparr>) = Some t" "f E t = Some s'"
      using b by (auto split: bind_split_asm)
    then show ?thesis using nfc_step.message [OF Cons] ih by (meson converse_rtranclp_into_rtranclp)
  qed (use b in simp)
qed

lemma task_steps: "nfc_task E s = Some s' \<Longrightarrow> (nfc_step E)\<^sup>*\<^sup>* s s'"
  by (auto simp: nfc_task_def split: bind_split_asm if_splits dest!: task_mbox_steps nfc_step.ready
      intro: converse_rtranclp_into_rtranclp)

end
