(* ===== verification/Nci_Window.thy ===== *)
theory Nci_Window
  imports Nci_Main
begin

text \<open>
  Commands and responses: the commands go to the NFCC in the order in which they were given, each response
  lets one more out, and at most one is without a response unless the NFCC answers what was not asked. \<open>cmds\<close> are the commands that were handed to the HAL, \<open>accepted\<close>
  these and the queued ones, and \<open>keeps s s'\<close> is what every function of the core does to them, whatever
  it handles: it may add commands, but neither loses nor reorders one, and a command that is handed to
  the HAL uses up the window. Only a response opens it again.

  The control of the HAL (\<open>NFC_FL_HAL_REQUESTED\<close>), the fragmentation on I2C, which lets the data share the
  window, and the commands of \<open>NFC_SendNxpNciCommand\<close>, after which any message is taken as the response,
  are excluded. The callbacks are those of any client that itself does to the core what the functions of the core
  do (\<open>cmd_client\<close>).
\<close>

section \<open>The invariant\<close>

definition is_cmd :: "byte list \<Rightarrow> bool" where
  "is_cmd bs \<longleftrightarrow> (case bs of [] \<Rightarrow> False | b # _ \<Rightarrow> hdr_mt b = NCI_MT_CMD)"

definition written :: "hal_call list \<Rightarrow> byte list list" where
  "written hs = concat (map (\<lambda>h. case h of Hal_write bs \<Rightarrow> [bs] | _ \<Rightarrow> []) hs)"

definition cmds :: "nfc_cb \<Rightarrow> byte list list" where
  "cmds s = filter is_cmd (written (hal_out s))"

definition accepted :: "nfc_cb \<Rightarrow> byte list list" where
  "accepted s = cmds s @ map (body \<circ> fst) (nci_cmd_xmit_q s)"

definition plain_cmd :: "cmd \<Rightarrow> bool" where
  "plain_cmd p \<longleftrightarrow> is_cmd (body (fst p)) \<and> layer_specific (fst p) \<noteq> NFC_WAIT_RSP_NXP"

definition plain :: "nfc_cb \<Rightarrow> bool" where
  "plain s \<longleftrightarrow> nci_cmd_window s \<le> NCI_MAX_CMD_WINDOW \<and> (\<forall>p \<in> set (nci_cmd_xmit_q s). plain_cmd p)
     \<and> \<not> has_fl NFC_FL_HAL_REQUESTED s \<and> \<not> i2c_fragmentation s \<and> \<not> nxpCbflag s
     \<and> (\<forall>i. hdr_mt (conn_id (conn_cb s i)) \<noteq> NCI_MT_CMD)"

definition cmd_inv :: "nfc_cb \<Rightarrow> bool" where
  "cmd_inv s \<longleftrightarrow> plain s \<and> (nci_cmd_xmit_q s = [] \<or> nci_cmd_window s = 0)"

text \<open>The window and the commands that were handed over, together.\<close>

definition slots :: "nfc_cb \<Rightarrow> nat" where
  "slots s = unat (nci_cmd_window s) + length (cmds s)"

definition cmd_step_ok :: "nfc_cb \<Rightarrow> byte list list \<Rightarrow> nfc_cb \<Rightarrow> bool" where
  "cmd_step_ok s ns s' \<longleftrightarrow> cmd_inv s' \<and> accepted s' = accepted s @ ns \<and> (\<exists>ms. cmds s' = cmds s @ ms) \<and> slots s' = slots s"

definition keeps :: "nfc_cb \<Rightarrow> nfc_cb \<Rightarrow> bool" where
  "keeps s s' \<longleftrightarrow> (cmd_inv s \<longrightarrow> (\<exists>ns. cmd_step_ok s ns s'))"

lemma keeps_refl: "keeps s s"
  by (auto simp: keeps_def cmd_step_ok_def)

lemma keeps_trans [trans]: "keeps s t \<Longrightarrow> keeps t u \<Longrightarrow> keeps s u"
  by (fastforce simp: keeps_def cmd_step_ok_def)

text \<open>Updates that touch none of the fields that count.\<close>

definition same_cmds :: "nfc_cb \<Rightarrow> nfc_cb \<Rightarrow> bool" where
  "same_cmds s s' \<longleftrightarrow> nci_cmd_window s' = nci_cmd_window s \<and> nci_cmd_xmit_q s' = nci_cmd_xmit_q s
     \<and> has_fl NFC_FL_HAL_REQUESTED s' = has_fl NFC_FL_HAL_REQUESTED s \<and> i2c_fragmentation s' = i2c_fragmentation s
     \<and> nxpCbflag s' = nxpCbflag s \<and> cmds s' = cmds s
     \<and> ((\<forall>i. hdr_mt (conn_id (conn_cb s i)) \<noteq> NCI_MT_CMD) \<longrightarrow> (\<forall>i. hdr_mt (conn_id (conn_cb s' i)) \<noteq> NCI_MT_CMD))"

lemma same_keeps: "same_cmds s s' \<Longrightarrow> keeps s s'"
  by (auto simp: keeps_def cmd_step_ok_def cmd_inv_def plain_def same_cmds_def accepted_def slots_def)

lemma same_trans: "same_cmds s t \<Longrightarrow> same_cmds t u \<Longrightarrow> same_cmds s u"
  by (simp add: same_cmds_def)

section \<open>The queue\<close>

lemma written_append [simp]: "written (xs @ ys) = written xs @ written ys"
  by (simp add: written_def)

lemma written_simps [simp]:
  "written [Hal_write bs] = [bs]" "written [Hal_open] = []" "written [Hal_close] = []" "written [Hal_power_cycle] = []"
  "written [Hal_control_granted] = []" "written [Hal_core_initialized u] = []"
  by (simp_all add: written_def)

lemma window_cases: "nci_cmd_window s \<le> NCI_MAX_CMD_WINDOW \<Longrightarrow> nci_cmd_window s = 0 \<or> nci_cmd_window s = 1"
proof -
  assume "nci_cmd_window s \<le> NCI_MAX_CMD_WINDOW"
  then have "unat (nci_cmd_window s) \<le> 1" by (simp add: word_le_nat_alt)
  then consider "unat (nci_cmd_window s) = 0" | "unat (nci_cmd_window s) = 1" by linarith
  then show ?thesis
  proof cases
    case 1
    then show ?thesis by (simp add: unat_eq_0)
  next
    case 2
    have "nci_cmd_window s = of_nat (unat (nci_cmd_window s))" by simp
    also have "\<dots> = 1" unfolding 2 by simp
    finally show ?thesis by simp
  qed
qed

lemma transmit_ok:
  assumes "transmit_cmd p s = Some s'" "plain s" "plain_cmd p" "nci_cmd_window s = 1"
  shows "plain s' \<and> nci_cmd_window s' = 0 \<and> nci_cmd_xmit_q s' = nci_cmd_xmit_q s \<and> cmds s' = cmds s @ [body (fst p)]
    \<and> conn_cb s' = conn_cb s"
  using assms
  by (cases p) (auto simp: transmit_cmd_def Let_def take_buffer_def hal_def plain_def plain_cmd_def cmds_def has_fl_def
      split: bind_split_asm if_splits)

lemma send_next_ok:
  assumes "send_next_cmd p s = Some s'" "plain s" "\<forall>b. p = Some b \<longrightarrow> plain_cmd b"
    and "cmd_inv s \<or> p = None"
  shows "cmd_step_ok s (case p of None \<Rightarrow> [] | Some b \<Rightarrow> [body (fst b)]) s'"

proof -
  have w: "nci_cmd_window s = 0 \<or> nci_cmd_window s = 1" using assms(2) window_cases unfolding plain_def by blast
  show ?thesis
  proof (cases p)
    case None
    show ?thesis
    proof (cases "nci_cmd_window s = 0")
      case True
      then show ?thesis using assms(1,2) None by (auto simp: send_next_cmd_def cmd_step_ok_def cmd_inv_def)
    next
      case False
      then have 1: "nci_cmd_window s = 1" using w by simp
      show ?thesis
      proof (cases "nci_cmd_xmit_q s")
        case Nil
        then show ?thesis using assms(1,2) None 1 by (auto simp: send_next_cmd_def cmd_step_ok_def cmd_inv_def)
      next
        case (Cons b q)
        then have t: "transmit_cmd b (s\<lparr>nci_cmd_xmit_q := q\<rparr>) = Some s'" using assms(1) None 1 by (simp add: send_next_cmd_def)
        have "plain (s\<lparr>nci_cmd_xmit_q := q\<rparr>)" "plain_cmd b" using assms(2) Cons by (auto simp: plain_def has_fl_def)
        from transmit_ok [OF t this] show ?thesis
          using 1 Cons None by (simp add: cmd_step_ok_def cmd_inv_def accepted_def slots_def cmds_def)
      qed
    qed
  next
    case (Some b)
    then have b: "plain_cmd b" and c: "cmd_inv s" using assms(3,4) by auto
    show ?thesis
    proof (cases "nci_cmd_window s = 0")
      case True
      then have "s' = s\<lparr>nci_cmd_xmit_q := nci_cmd_xmit_q s @ [b]\<rparr>" using assms(1) Some by (simp add: send_next_cmd_def)
      then show ?thesis using Some b c True by (auto simp: cmd_step_ok_def cmd_inv_def plain_def has_fl_def accepted_def slots_def cmds_def)
    next
      case False
      then have q: "nci_cmd_xmit_q s = []" and 1: "nci_cmd_window s = 1" using c w by (auto simp: cmd_inv_def)
      then have "transmit_cmd b s = Some s'" using assms(1) Some by (simp add: send_next_cmd_def)
      from transmit_ok [OF this assms(2) b 1] show ?thesis
        using 1 q Some by (simp add: cmd_step_ok_def cmd_inv_def accepted_def slots_def)
    qed
  qed
qed

section \<open>Clients\<close>

text \<open>
  What the core needs of the callbacks and of the functions of the tags and of the device manager: they do to
  the commands what the functions of the core do, as all do that only use its interface.
\<close>

locale cmd_client =
  fixes E :: nfc_env
  assumes app_keeps: "app E c s = Some s' \<Longrightarrow> keeps s s'"
    and prio_keeps: "keeps s (snd (p2p_prio E op bs is_ntf s))"
    and poll_keeps: "t3t_poll E status num bs s = Some s' \<Longrightarrow> keeps s s'"
    and no_prediscover: "\<not> prediscover E s"

lemma is_cmd_bytes [simp]: "hdr_mt (push_bit 5 NCI_MT_CMD OR gid) = NCI_MT_CMD \<Longrightarrow> 0 < n \<Longrightarrow> is_cmd (take n (cmd_bytes gid oid len ps))"
  by (cases n) (simp_all add: is_cmd_def cmd_bytes_def)

lemma new_cmd_plain:
  assumes "new_cmd n (cmd_bytes gid oid len ps) = Some b" "hdr_mt (push_bit 5 NCI_MT_CMD OR gid) = NCI_MT_CMD" "0 < n"
  shows "is_cmd (body b)"
  using assms by (auto simp: new_cmd_def split: if_splits)

lemma plain_cong:
  "same_cmds s s' \<Longrightarrow> plain s \<Longrightarrow> plain s' \<and> accepted s' = accepted s \<and> cmds s' = cmds s \<and> slots s' = slots s
     \<and> nci_cmd_window s' = nci_cmd_window s \<and> nci_cmd_xmit_q s' = nci_cmd_xmit_q s"
  by (auto simp: plain_def same_cmds_def accepted_def slots_def)

lemma same_cmds_flags [simp]:
  "same_cmds s (s\<lparr>buffers := x1, sListenActivated := x2\<rparr>)" "same_cmds s (s\<lparr>sListenActivated := x2\<rparr>)"
  by (simp_all add: same_cmds_def cmds_def)

lemma snd_cmd_via_ok:
  assumes r: "snd_cmd_via chk n (cmd_bytes gid oid len ps) s = Some (st, s')" "cmd_inv s"
    and g: "hdr_mt (push_bit 5 NCI_MT_CMD OR gid) = NCI_MT_CMD" "0 < n"
    and chk: "\<And>b t. cmd_inv t \<Longrightarrow> nfc_flags t = nfc_flags s \<Longrightarrow> plain_cmd b \<Longrightarrow> chk (Some b) t = Some s' \<Longrightarrow> \<exists>ns. cmd_step_ok t ns s'"
  shows "\<exists>ns. cmd_step_ok s ns s'"
proof (cases "fst (take_buffer s)")
  case False
  then have "s' = s\<lparr>buffers := stl (buffers s)\<rparr>" using r(1) by (auto simp: snd_cmd_via_def take_buffer_def)
  then have "same_cmds s s'" by (simp add: same_cmds_def cmds_def has_fl_def)
  then show ?thesis using same_keeps r(2) by (simp add: keeps_def)
next
  case True
  let ?t = "s\<lparr>buffers := stl (buffers s), sListenActivated := False\<rparr>"
  obtain b where b: "new_cmd n (cmd_bytes gid oid len ps) = Some b" "chk (Some (b\<lparr>layer_specific := 0\<rparr>, None)) ?t = Some s'"
    using r(1) True by (auto simp: snd_cmd_via_def take_buffer_def send_cmd_via_def split: bind_split_asm)
  have t: "plain ?t \<and> accepted ?t = accepted s \<and> cmds ?t = cmds s \<and> slots ?t = slots s \<and> nci_cmd_window ?t = nci_cmd_window s \<and> nci_cmd_xmit_q ?t = nci_cmd_xmit_q s"
    using r(2) by (intro plain_cong) (simp_all add: cmd_inv_def)
  have "plain_cmd (b\<lparr>layer_specific := 0\<rparr>, None)" using new_cmd_plain [OF b(1) g] by (simp add: plain_cmd_def)
  moreover have "cmd_inv ?t" using t r(2) by (simp add: cmd_inv_def)
  ultimately obtain ns where "cmd_step_ok ?t ns s'" using chk [OF _ _ _ b(2)] by auto
  then show ?thesis using t by (auto simp: cmd_step_ok_def)
qed

lemma keeps_clear_fl [simp]: "same_cmds s (clear_fl f s)" if "NFC_FL_HAL_REQUESTED AND f = 0"
  using has_fl_clear_other [OF that] by (simp add: same_cmds_def cmds_def clear_fl_def)

context cmd_client
begin

lemma check_ok:
  assumes r: "nfc_ncif_check_cmd_queue E p s = Some s'" "plain s" "\<forall>b. p = Some b \<longrightarrow> plain_cmd b" "cmd_inv s \<or> p = None"
  shows "\<exists>ns. cmd_step_ok s ((case p of None \<Rightarrow> [] | Some b \<Rightarrow> [body (fst b)]) @ ns) s'"
proof -
  obtain t where t: "send_next_cmd p s = Some t"
    using r(1) by (auto simp: nfc_ncif_check_cmd_queue_def numeral_2_eq_2 split: bind_split_asm)
  note n = send_next_ok [OF t r(2-4)]
  let ?c = "clear_fl NFC_FL_CONTROL_REQUESTED t"
  have fin: ?thesis if "same_cmds t s'"
  proof -
    from same_keeps [OF that] n obtain ms where "cmd_step_ok t ms s'" by (auto simp: keeps_def cmd_step_ok_def [of s])
    then show ?thesis using n by (auto simp: cmd_step_ok_def)
  qed
  show ?thesis
  proof (cases "nci_cmd_window t = NCI_MAX_CMD_WINDOW \<and> has_fl NFC_FL_CONTROL_REQUESTED t")
    case False
    then have "s' = t" using r(1) t by (auto simp: nfc_ncif_check_cmd_queue_def numeral_2_eq_2)
    then show ?thesis using n by (auto simp: cmd_step_ok_def)
  next
    case True
    have h: "\<not> has_fl NFC_FL_HAL_REQUESTED ?c" using n by (simp add: cmd_step_ok_def cmd_inv_def plain_def)
    show ?thesis
    proof (cases "has_fl NFC_FL_DISCOVER_PENDING ?c")
      case False
      then have "s' = ?c" using r(1) t True h by (auto simp: nfc_ncif_check_cmd_queue_def numeral_2_eq_2 Let_def)
      then show ?thesis using fin by simp
    next
      case pend: True
      let ?d = "clear_fl NFC_FL_DISCOVER_PENDING ?c"
      obtain ps num st u where u: "discover_via (check_cmd_queue_rounds (Suc 0) E) num (drop 1 ps) ?d = Some (st, u)"
        and s': "s' = u\<lparr>p_last_disc := p_disc_pending u, p_disc_pending := None\<rparr>"
        using r(1) t True pend no_prediscover [of ?c]
        unfolding nfc_ncif_check_cmd_queue_def numeral_2_eq_2 check_cmd_queue_rounds.simps(2) [of "Suc 0"]
        by (auto simp: Let_def simp del: check_cmd_queue_rounds.simps split: bind_split_asm)
      have nr: "\<not> has_fl NFC_FL_CONTROL_REQUESTED ?d" by simp
      have d: "same_cmds t ?d" by (rule same_trans [of _ ?c]) simp_all
      have d: "cmd_inv ?d \<and> accepted ?d = accepted t \<and> cmds ?d = cmds t \<and> slots ?d = slots t"
        using plain_cong [OF d] n by (simp add: cmd_inv_def cmd_step_ok_def)
      obtain bs sz where "snd_cmd_via (check_cmd_queue_rounds (Suc 0) E) (NCI_MSG_HDR_SIZE + unat sz) (cmd_bytes NCI_GID_RF_MANAGE 3 sz bs) ?d = Some (st, u)"
        using u by (auto simp: discover_via_def Let_def split: bind_split_asm)
      then have "\<exists>ns. cmd_step_ok ?d ns u"
      proof (rule snd_cmd_via_ok)
        fix b v
        assume v: "cmd_inv v" "nfc_flags v = nfc_flags ?d" "plain_cmd b" "check_cmd_queue_rounds (Suc 0) E (Some b) v = Some u"
        then have "send_next_cmd (Some b) v = Some u" using check_no_request [of v 0 E "Some b"] nr by (simp add: has_fl_def del: check_cmd_queue_rounds.simps)
        from send_next_ok [OF this] v show "\<exists>ns. cmd_step_ok v ns u" by (auto simp: cmd_step_ok_def cmd_inv_def)
      qed (use d in \<open>simp_all add: hdr_mt_def NCI_MSG_HDR_SIZE_def\<close>)
      moreover have "same_cmds u s'" by (simp add: s' same_cmds_def cmds_def has_fl_def)
      ultimately obtain ns where "cmd_step_ok ?d ns s'" using same_keeps by (fastforce simp: keeps_def cmd_step_ok_def)
      then have "cmd_step_ok t ns s'" using d by (simp add: cmd_step_ok_def)
      then show ?thesis using n by (auto simp: cmd_step_ok_def)
    qed
  qed
qed

end

end
