(* ===== verification/Nci_Commands.thy ===== *)
theory Nci_Commands
  imports Nci_Window
begin

text \<open>
  Every function that handles a message of the NFCC \<open>keeps\<close> the commands, inside the locale of the clients.
  \<open>ok s r\<close> says it of a result: a state that is answered is one that a function may leave when it starts
  from \<open>s\<close>. The rules in \<open>oks\<close> follow the shape of the definitions, so that a lemma about a function
  only has to unfold it.
\<close>

section \<open>Rules\<close>

named_theorems oks \<open>what a function does to the commands, by the shape of its definition\<close>

definition ok :: "nfc_cb \<Rightarrow> nfc_cb option \<Rightarrow> bool" where
  "ok s r \<longleftrightarrow> (\<forall>t. r = Some t \<longrightarrow> keeps s t)"

definition okv :: "nfc_cb \<Rightarrow> ('a \<times> nfc_cb) option \<Rightarrow> bool" where
  "okv s r \<longleftrightarrow> (\<forall>x t. r = Some (x, t) \<longrightarrow> keeps s t)"

lemma ok_Some [oks]: "keeps s t \<Longrightarrow> ok s (Some t)"
  by (simp add: ok_def)

lemma ok_None [oks]: "ok s None" "okv s None"
  by (simp_all add: ok_def okv_def)

lemma okv_Some [oks]: "keeps s t \<Longrightarrow> okv s (Some (x, t))"
  by (simp add: okv_def)

lemma ok_if [oks]: "ok s a \<Longrightarrow> ok s b \<Longrightarrow> ok s (if c then a else b)" "okv s v \<Longrightarrow> okv s w \<Longrightarrow> okv s (if c then v else w)"
  "keeps s t \<Longrightarrow> keeps s u \<Longrightarrow> keeps s (if c then t else u)"
  by simp_all

lemma ok_option [oks]:
  "ok s a \<Longrightarrow> (\<And>x. ok s (f x)) \<Longrightarrow> ok s (case p of None \<Rightarrow> a | Some x \<Rightarrow> f x)"
  "okv s v \<Longrightarrow> (\<And>x. okv s (g x)) \<Longrightarrow> okv s (case p of None \<Rightarrow> v | Some x \<Rightarrow> g x)"
  "keeps s t \<Longrightarrow> (\<And>x. keeps s (h x)) \<Longrightarrow> keeps s (case p of None \<Rightarrow> t | Some x \<Rightarrow> h x)"
  by (simp_all split: option.splits)

lemma ok_list:
  "ok s a \<Longrightarrow> (\<And>x xs. ok s (f x xs)) \<Longrightarrow> ok s (case ys of [] \<Rightarrow> a | x # xs \<Rightarrow> f x xs)"
  "okv s v \<Longrightarrow> (\<And>x xs. okv s (g x xs)) \<Longrightarrow> okv s (case ys of [] \<Rightarrow> v | x # xs \<Rightarrow> g x xs)"
  by (simp_all split: list.splits)

lemma ok_bind [oks]:
  "ok s r \<Longrightarrow> (\<And>t. keeps s t \<Longrightarrow> ok s (f t)) \<Longrightarrow> ok s (Option.bind r f)"
  "ok s r \<Longrightarrow> (\<And>t. keeps s t \<Longrightarrow> okv s (g t)) \<Longrightarrow> okv s (Option.bind r g)"
  by (auto simp: ok_def okv_def bind_eq_Some_conv)

lemma ok_bindv [oks]:
  "okv s v \<Longrightarrow> (\<And>x t. keeps s t \<Longrightarrow> ok s (f x t)) \<Longrightarrow> ok s (Option.bind v (\<lambda>(x, t). f x t))"
  "okv s v \<Longrightarrow> (\<And>x t. keeps s t \<Longrightarrow> okv s (g x t)) \<Longrightarrow> okv s (Option.bind v (\<lambda>(x, t). g x t))"
  by (auto simp: ok_def okv_def bind_eq_Some_conv)

lemma ok_read: "(\<And>x. ok s (f x)) \<Longrightarrow> ok s (Option.bind r f)" "(\<And>x. okv s (g x)) \<Longrightarrow> okv s (Option.bind r g)"
  by (auto simp: ok_def okv_def bind_eq_Some_conv)

lemmas [oks] = ok_read [where ?'a = byte] ok_read [where ?'a = "byte list"] ok_read [where ?'a = nat]
  ok_read [where ?'a = u16] ok_read [where ?'a = u32] ok_read [where ?'a = bt_hdr] ok_read [where ?'a = "'b \<times> nat"]
  ok_read [where ?'a = "'b \<times> byte list"] ok_read [where ?'a = "'b \<times> 'c \<times> byte"] ok_read [where ?'a = "'b \<times> 'c \<times> byte list"]
  ok_read [where ?'a = "'b \<times> 'c \<times> 'd \<times> (u16 \<times> byte list) list"] ok_read [where ?'a = "(byte \<times> (byte \<times> byte \<times> byte \<times> byte) list) option"]

lemma ok_let_state [oks]:
  "keeps s t \<Longrightarrow> (\<And>t. keeps s t \<Longrightarrow> ok s (f t)) \<Longrightarrow> ok s (Let t f)"
  "keeps s t \<Longrightarrow> (\<And>t. keeps s t \<Longrightarrow> okv s (g t)) \<Longrightarrow> okv s (Let t g)"
  "keeps s t \<Longrightarrow> (\<And>t. keeps s t \<Longrightarrow> keeps s (h t)) \<Longrightarrow> keeps s (Let t h)"
  by simp_all

lemma ok_let_value: "(\<And>x. ok s (f x)) \<Longrightarrow> ok s (Let v f)" "(\<And>x. okv s (g x)) \<Longrightarrow> okv s (Let v g)"
  by simp_all

lemma ok_let_fun:
  "(\<And>t. keeps s t \<Longrightarrow> keeps s (F t)) \<Longrightarrow> (\<And>F. (\<And>t. keeps s t \<Longrightarrow> keeps s (F t)) \<Longrightarrow> okv s (g F)) \<Longrightarrow> okv s (Let F g)"
  by simp

lemmas [oks] = ok_let_value [where ?'a = byte] ok_let_value [where ?'a = bool] ok_let_value [where ?'a = conn_cb]
  ok_let_value [where ?'a = nat] ok_let_value [where ?'a = bt_hdr] ok_let_value [where ?'a = "bt_hdr list"]
  ok_read [where ?'a = conn_evt]  ok_let_value [where ?'a = "nat option"] ok_let_value [where ?'a = "'b list"]

lemma ok_let_pair [oks]:
  "keeps s (snd p) \<Longrightarrow> (\<And>x t. keeps s t \<Longrightarrow> ok s (f x t)) \<Longrightarrow> ok s (let (x, t) = p in f x t)"
  "keeps s (snd p) \<Longrightarrow> (\<And>x t. keeps s t \<Longrightarrow> okv s (g x t)) \<Longrightarrow> okv s (let (x, t) = p in g x t)"
  "keeps s (snd p) \<Longrightarrow> (\<And>x t. keeps s t \<Longrightarrow> keeps s (h x t)) \<Longrightarrow> keeps s (let (x, t) = p in h x t)"
  by (simp_all split: prod.split add: split_beta)

lemma ok_case_pair [oks]:
  "(\<And>x y. ok s (f x y)) \<Longrightarrow> ok s (case p of (x, y) \<Rightarrow> f x y)" "(\<And>x y. okv s (g x y)) \<Longrightarrow> okv s (case p of (x, y) \<Rightarrow> g x y)"
  by (simp_all split: prod.split)

section \<open>Updates\<close>

lemma keeps_same: "keeps s t \<Longrightarrow> same_cmds t t' \<Longrightarrow> keeps s t'"
  using keeps_trans same_keeps by blast

lemma hdr_mt_conn_upd:
  "(\<And>c. conn_id (f c) = conn_id c) \<Longrightarrow> same_cmds s (upd_conn i f s)"
  by (simp add: same_cmds_def upd_conn_def cmds_def has_fl_def)

lemma keeps_upd_conn [oks]: "keeps s t \<Longrightarrow> (\<And>c. conn_id (f c) = conn_id c) \<Longrightarrow> keeps s (upd_conn i f t)"
  by (erule keeps_same) (rule hdr_mt_conn_upd)

lemma keeps_fl [oks]:
  "keeps s t \<Longrightarrow> NFC_FL_HAL_REQUESTED AND f = 0 \<Longrightarrow> keeps s (clear_fl f t)"
  "keeps s t \<Longrightarrow> NFC_FL_HAL_REQUESTED AND f = 0 \<Longrightarrow> keeps s (set_fl f t)"
proof -
  assume a: "keeps s t" "NFC_FL_HAL_REQUESTED AND f = 0"
  show "keeps s (clear_fl f t)" using a by (intro keeps_same [OF a(1)]) simp
  have "(nfc_flags t OR f) AND NFC_FL_HAL_REQUESTED = (nfc_flags t AND NFC_FL_HAL_REQUESTED) OR (f AND NFC_FL_HAL_REQUESTED)"
    by (simp only: bit.conj_disj_distrib2)
  moreover have "f AND NFC_FL_HAL_REQUESTED = 0" using a(2) by (simp only: and.commute)
  ultimately have "same_cmds t (set_fl f t)" by (simp add: same_cmds_def cmds_def has_fl_def set_fl_def)
  then show "keeps s (set_fl f t)" by (rule keeps_same [OF a(1)])
qed

lemma keeps_hal [oks]: "keeps s t \<Longrightarrow> filter is_cmd (written [c]) = [] \<Longrightarrow> keeps s (hal c t)"
  by (erule keeps_same) (simp add: same_cmds_def cmds_def has_fl_def hal_def)

lemma keeps_set_state [oks]: "keeps s t \<Longrightarrow> keeps s (nfc_set_state x t)"
  by (erule keeps_same) (simp add: same_cmds_def cmds_def has_fl_def nfc_set_state_def)

lemma keeps_take_buffer [oks]: "keeps s t \<Longrightarrow> keeps s (snd (take_buffer t))"
  by (erule keeps_same) (simp add: same_cmds_def cmds_def has_fl_def take_buffer_def)

lemma keeps_fields [oks]:
  "keeps s t \<Longrightarrow> keeps s (t\<lparr>nci_features := x1\<rparr>)" "keeps s t \<Longrightarrow> keeps s (t\<lparr>max_ce_table := x2\<rparr>)"
  "keeps s t \<Longrightarrow> keeps s (t\<lparr>max_conn := x3\<rparr>)" "keeps s t \<Longrightarrow> keeps s (t\<lparr>nci_ctrl_size := x4\<rparr>)"
  "keeps s t \<Longrightarrow> keeps s (t\<lparr>vs_interface := x5\<rparr>)" "keeps s t \<Longrightarrow> keeps s (t\<lparr>nci_interfaces := x6\<rparr>)"
  "keeps s t \<Longrightarrow> keeps s (t\<lparr>num_disc_maps := x7\<rparr>)" "keeps s t \<Longrightarrow> keeps s (t\<lparr>p_discv_cback := x8\<rparr>)"
  "keeps s t \<Longrightarrow> keeps s (t\<lparr>reassembly := x9\<rparr>)" "keeps s t \<Longrightarrow> keeps s (t\<lparr>sListenActivated := x10\<rparr>)"
  "keeps s t \<Longrightarrow> keeps s (t\<lparr>dm_disc_state := x11\<rparr>)" "keeps s t \<Longrightarrow> keeps s (t\<lparr>dm_disc_flags := x12\<rparr>)"
  "keeps s t \<Longrightarrow> keeps s (t\<lparr>ce_flags := x13\<rparr>)" "keeps s t \<Longrightarrow> keeps s (t\<lparr>hci_timeouts := x14\<rparr>)"
  "keeps s t \<Longrightarrow> keeps s (t\<lparr>nci_wait_rsp_timer := x15\<rparr>)" "keeps s t \<Longrightarrow> keeps s (t\<lparr>etsi_reader_in_progress := x16\<rparr>)"
  "keeps s t \<Longrightarrow> keeps s (t\<lparr>core_reset_init_num_buff := x17\<rparr>)" "keeps s t \<Longrightarrow> keeps s (t\<lparr>nfc_fw_version := x18\<rparr>)"
  "keeps s t \<Longrightarrow> keeps s (t\<lparr>retry_cnt := x19\<rparr>)" "keeps s t \<Longrightarrow> keeps s (t\<lparr>p_nci_init_rsp := x20\<rparr>)"
  "keeps s t \<Longrightarrow> keeps s (t\<lparr>transport_ready := x21\<rparr>)" "keeps s t \<Longrightarrow> keeps s (t\<lparr>nfcc_dh_conn_id := x22\<rparr>)"
  "keeps s t \<Longrightarrow> keeps s (t\<lparr>deactivate_timer := x23\<rparr>)" "keeps s t \<Longrightarrow> keeps s (t\<lparr>deactivate_param := x24\<rparr>)"
  "keeps s t \<Longrightarrow> keeps s (t\<lparr>i2c_conn_id := x25\<rparr>)" "keeps s t \<Longrightarrow> keeps s (t\<lparr>data_stored := x26\<rparr>)"
  "keeps s t \<Longrightarrow> keeps s (t\<lparr>p_vsc_cback := x27\<rparr>)" "keeps s t \<Longrightarrow> keeps s (t\<lparr>conn_id_map := x28\<rparr>)"
  "keeps s t \<Longrightarrow> keeps s (t\<lparr>p_last_disc := x29\<rparr>)" "keeps s t \<Longrightarrow> keeps s (t\<lparr>p_disc_pending := x30\<rparr>)"
  "keeps s t \<Longrightarrow> keeps s (t\<lparr>app_log := x31\<rparr>)"
  by (erule keeps_same, simp add: same_cmds_def cmds_def has_fl_def)+

section \<open>Connections\<close>

lemma set_handle_ok [oks]: "keeps s t \<Longrightarrow> ok s (set_handle cid h t)"
  unfolding set_handle_def by (intro oks)

lemma small_not_cmd: "unat cid \<le> NFC_MAX_CONN_ID \<Longrightarrow> hdr_mt cid \<noteq> NCI_MT_CMD"
proof -
  assume a: "unat cid \<le> NFC_MAX_CONN_ID"
  have "\<forall>k \<in> set [0..<16]. hdr_mt (of_nat k) \<noteq> NCI_MT_CMD" by (simp add: upt_rec hdr_mt_def)
  then have "hdr_mt (of_nat (unat cid)) \<noteq> NCI_MT_CMD" using a by (simp add: NFC_MAX_CONN_ID_def del: word_of_nat_eq_iff of_nat_unat)
  then show ?thesis by simp
qed

lemma keeps_set_conn_id:
  "keeps s t \<Longrightarrow> hdr_mt cid \<noteq> NCI_MT_CMD \<Longrightarrow> keeps s (upd_conn i (\<lambda>c. f c\<lparr>conn_id := cid\<rparr>) t)"
  by (erule keeps_same) (auto simp: same_cmds_def upd_conn_def cmds_def has_fl_def)

lemma set_conn_id_ok [oks]:
  assumes "keeps s t"
  shows "ok s (nfc_set_conn_id i cid t)"
proof (cases "unat cid \<le> NFC_MAX_CONN_ID")
  case True
  then show ?thesis unfolding nfc_set_conn_id_def by (intro set_handle_ok keeps_set_conn_id assms small_not_cmd)
qed (simp add: nfc_set_conn_id_def set_handle_def oks)

lemma free_conn_ok [oks]:
  assumes "keeps s t"
  shows "ok s (nfc_free_conn_cb i t)"
  unfolding nfc_free_conn_cb_def by (intro oks keeps_set_conn_id [where f = "\<lambda>c. c\<lparr>p_cback := None\<rparr>"] assms) (simp_all add: hdr_mt_def)

section \<open>Handlers\<close>

lemma app_ok: "cmd_client E \<Longrightarrow> keeps s t \<Longrightarrow> ok s (app E c t)"
  using cmd_client.app_keeps keeps_trans by (fastforce simp: ok_def)

context cmd_client
begin

lemmas [oks] = app_ok [OF cmd_client_axioms]

lemma prio_ok [oks]: "keeps s t \<Longrightarrow> keeps s (snd (p2p_prio E op bs n t))"
  using prio_keeps keeps_trans by blast

lemma poll_ok [oks]: "keeps s t \<Longrightarrow> ok s (t3t_poll E status num bs t)"
  using poll_keeps keeps_trans by (fastforce simp: ok_def)

lemma conn_cback_ok [oks]: "keeps s t \<Longrightarrow> ok s (conn_cback E cb cid e t)"
  unfolding conn_cback_def by (intro oks)

lemma discv_cback_ok [oks]: "keeps s t \<Longrightarrow> ok s (discv_cback E e t)"
  unfolding discv_cback_def by (intro oks)

lemma resp_cback_ok [oks]: "keeps s t \<Longrightarrow> ok s (resp_cback E e t)"
  unfolding resp_cback_def by (intro oks)

lemma reset_conns_ok [oks]: "keeps s t \<Longrightarrow> ok s (reset_conns E is t)"
proof (induction "is" arbitrary: t)
  case (Cons i "is")
  show ?case unfolding reset_conns.simps by (intro oks Cons)
qed (simp add: oks)

lemma reset_all_ok [oks]: "keeps s t \<Longrightarrow> ok s (nfc_reset_all_conn_cbs E t)"
  unfolding nfc_reset_all_conn_cbs_def by (intro oks)

lemma check_keeps [oks]:
  assumes "keeps s t" "p = None \<or> plain_cmd (the p)"
  shows "ok s (nfc_ncif_check_cmd_queue E p t)"
proof (unfold ok_def, intro allI impI)
  fix u
  assume u: "nfc_ncif_check_cmd_queue E p t = Some u"
  have "\<exists>ns. cmd_step_ok t ns u" if "cmd_inv t"
    using check_ok [OF u] that assms(2) by (cases p) (auto simp: cmd_inv_def)
  then show "keeps s u" using assms(1) keeps_trans by (auto simp: keeps_def [of t])
qed

lemma snd_via_ok [oks]:
  assumes "keeps s t" "hdr_mt (push_bit 5 NCI_MT_CMD OR gid) = NCI_MT_CMD" "0 < n"
  shows "okv s (snd_cmd_via (nfc_ncif_check_cmd_queue E) n (cmd_bytes gid oid len ps) t)"
proof (unfold okv_def, intro allI impI)
  fix st u
  assume u: "snd_cmd_via (nfc_ncif_check_cmd_queue E) n (cmd_bytes gid oid len ps) t = Some (st, u)"
  have "\<exists>ns. cmd_step_ok t ns u" if "cmd_inv t"
  proof (rule snd_cmd_via_ok [OF u that assms(2,3)])
    fix b v
    assume v: "cmd_inv v" "plain_cmd b" "nfc_ncif_check_cmd_queue E (Some b) v = Some u"
    then show "\<exists>ns. cmd_step_ok v ns u" using check_ok [OF v(3)] by (auto simp: cmd_inv_def)
  qed
  then show "keeps s u" using assms(1) keeps_trans by (auto simp: keeps_def [of t])
qed

lemma snd_cmd_ok [oks]:
  "keeps s t \<Longrightarrow> hdr_mt (push_bit 5 NCI_MT_CMD OR gid) = NCI_MT_CMD \<Longrightarrow> okv s (snd_cmd E (cmd_bytes gid oid len ps) t)"
  "keeps s t \<Longrightarrow> hdr_mt (push_bit 5 NCI_MT_CMD OR gid) = NCI_MT_CMD \<Longrightarrow> okv s (snd_sized E sz (cmd_bytes gid oid len ps) t)"
  unfolding snd_cmd_def snd_sized_def by (intro oks; simp add: cmd_bytes_def NCI_MSG_HDR_SIZE_def)+

lemma commands_ok [oks]:
  "keeps s t \<Longrightarrow> okv s (nci_snd_core_init E t)" "keeps s t \<Longrightarrow> okv s (nci_snd_deactivate_cmd E ty t)"
  "keeps s t \<Longrightarrow> okv s (nci_snd_core_reset E ty t)" "keeps s t \<Longrightarrow> okv s (nci_snd_core_conn_create E d n tlvs t)"
  "keeps s t \<Longrightarrow> okv s (nci_snd_core_conn_close E cid t)" "keeps s t \<Longrightarrow> okv s (nci_snd_nfcee_discover E a t)"
  "keeps s t \<Longrightarrow> okv s (nci_snd_nfcee_mode_set E a m t)" "keeps s t \<Longrightarrow> okv s (nci_snd_discover_select_cmd E a p i t)"
  "keeps s t \<Longrightarrow> okv s (nci_snd_discover_map_cmd E num maps t)"
  unfolding nci_snd_core_init_def nci_snd_deactivate_cmd_def nci_snd_core_reset_def nci_snd_core_conn_create_def
    nci_snd_core_conn_close_def nci_snd_nfcee_discover_def nci_snd_nfcee_mode_set_def nci_snd_discover_select_cmd_def
    nci_snd_discover_map_cmd_def Let_def
  by (intro oks; simp add: hdr_mt_def)+

lemma hdr_mt_data: "hdr_mt (push_bit 4 (if pbf then 1 else 0) OR cid) = hdr_mt cid"
  by (simp add: hdr_mt_def bit.conj_disj_distrib2)

lemma post_packet_ok [oks]:
  assumes "keeps s t"
  shows "keeps s (post_packet i pbf bs t)"
proof -
  have "same_cmds t (post_packet i pbf bs t)" if "cmd_inv t"
    using that by (auto simp: cmd_inv_def plain_def same_cmds_def post_packet_def Let_def hal_def cmds_def has_fl_def upd_conn_def
        is_cmd_def data_packet_def hdr_mt_data)
  then have "keeps t (post_packet i pbf bs t)" using same_keeps by (auto simp: keeps_def)
  then show ?thesis using assms keeps_trans by blast
qed

lemma send_loop_ok [oks]: "keeps s t \<Longrightarrow> okv s (send_loop i p t)"
proof (unfold okv_def, intro allI impI)
  fix st u
  assume t: "keeps s t" and r: "send_loop i p t = Some (st, u)"
  have "keeps t (snd (st, u))"
  proof (rule send_loop.raw_induct [where P = "\<lambda>i p t r. keeps t (snd r)", OF _ r])
    fix f i p t r
    assume ih: "\<And>i p t r. f i p t = Some r \<Longrightarrow> keeps t (snd r)"
      and b: "(case tx_q (conn_cb t i) of [] \<Rightarrow> Some (NFC_STATUS_OK, t)
        | d # q \<Rightarrow> if num_buff (conn_cb t i) = 0 then Some (NFC_STATUS_OK, t)
            else if blen d \<le> ucast (buff_size (conn_cb t i))
              then if unat (offset d) < NCI_DATA_HDR_SIZE then None
                else f i False (post_packet i False (body d) (upd_conn i (\<lambda>c. c\<lparr>tx_q := q\<rparr>) t))
            else if \<not> fst (take_buffer t) then Some (NFC_STATUS_BUFFER_FULL, snd (take_buffer t))
            else let n = unat (buff_size (conn_cb t i)) in
              f i p (post_packet i p (take n (body d))
                (upd_conn i (\<lambda>c. c\<lparr>tx_q := d\<lparr>offset := offset d + of_nat n, body := drop n (body d)\<rparr> # q\<rparr>)
                   (snd (take_buffer t))))) = Some r"
    have f: "keeps s v \<Longrightarrow> okv s (f i p v)" for s i p v
      using ih keeps_trans by (fastforce simp: okv_def)
    have "okv t (Some r)"
      unfolding b [symmetric] by (intro ok_list oks keeps_refl f; simp)
    then show "keeps t (snd r)" by (cases r) (simp add: okv_def)
  qed
  then show "keeps s u" using t keeps_trans by simp
qed

lemma flush_data_ok [oks]: "keeps s t \<Longrightarrow> keeps s (snd (NFC_FlushData cid t))"
  by (simp add: NFC_FlushData_def keeps_upd_conn split: option.split)

lemma not_i2c: "keeps s t \<Longrightarrow> ok s b \<Longrightarrow> ok s (if i2c_fragmentation t then a else b)"
proof (cases "cmd_inv s")
  case True
  assume "keeps s t" "ok s b"
  moreover from this True have "cmd_inv t" by (auto simp: keeps_def cmd_step_ok_def)
  ultimately show ?thesis by (simp add: cmd_inv_def plain_def)
qed (simp add: ok_def keeps_def)

lemma send_data_ok [oks]: "keeps s t \<Longrightarrow> okv s (nfc_ncif_send_data E i p_data t)"
  unfolding nfc_ncif_send_data_def
  by (intro oks ok_let_fun; simp add: keeps_fields)

lemma credits_ok [oks]: "keeps s t \<Longrightarrow> ok s (credits_loop E n m p t)"
proof (induction n arbitrary: p t)
  case (Suc n)
  note [oks del] = ok_if
  show ?case unfolding credits_loop.simps
    apply (intro not_i2c oks Suc)
     apply (rule ok_if)
      apply (intro not_i2c oks Suc; simp)+
    apply assumption
    done
qed (simp add: oks)

lemma proc_credits_ok [oks]: "keeps s t \<Longrightarrow> ok s (nfc_ncif_proc_credits E m p t)"
  unfolding nfc_ncif_proc_credits_def by (intro oks)

lemma data_loop_ok [oks]: "keeps s t \<Longrightarrow> ok s (data_loop E i t)"
proof (unfold ok_def, intro allI impI)
  fix u
  assume t: "keeps s t" and r: "data_loop E i t = Some u"
  have "E = E \<longrightarrow> keeps t u"
  proof (rule data_loop.raw_induct [where P = "\<lambda>E' i t u. E' = E \<longrightarrow> keeps t u", OF _ r], intro impI)
    fix f E' i t u
    assume ih: "\<And>E' i t u. f E' i t = Some u \<Longrightarrow> E' = E \<longrightarrow> keeps t u" and e: "E' = E"
      and b: "(case rx_q (conn_cb t i) of [] \<Rightarrow> Some t
        | b # q \<Rightarrow> if incomplete t i b then Some t
            else do {
              let s = upd_conn i (\<lambda>c. c\<lparr>rx_q := q\<rparr>) t;
              let s = (if layer_specific b = 0 then s\<lparr>reassembly := True\<rparr> else s);
              e \<leftarrow> data_cevt (conn_cb s i) b;
              k \<leftarrow> p_cback (conn_cb s i);
              s \<leftarrow> app E' (Conn_cback k (conn_id (conn_cb s i)) e) s;
              f E' i s }) = Some u"
    have f: "keeps s v \<Longrightarrow> ok s (f E i v)" for s i v
      using ih keeps_trans by (fastforce simp: ok_def)
    have "ok t (Some u)"
      unfolding b [symmetric] e by (intro ok_list oks keeps_refl f; simp)
    then show "keeps t u" by (simp add: ok_def)
  qed
  then show "keeps s u" using t keeps_trans by blast
qed

lemma data_event_ok [oks]: "keeps s t \<Longrightarrow> ok s (nfc_data_event E i t)"
  unfolding nfc_data_event_def by (intro oks)

lemma grow_last_ok [oks]: "keeps s t \<Longrightarrow> keeps s (snd (grow_last l len t))"
  by (simp add: grow_last_def Let_def split_beta keeps_take_buffer)

lemma proc_data_ok [oks]: "keeps s t \<Longrightarrow> ok s (nfc_ncif_proc_data E b t)"
  unfolding nfc_ncif_proc_data_def by (intro oks; simp)

lemma proc_deactivate_ok [oks]: "keeps s t \<Longrightarrow> ok s (nfc_ncif_proc_deactivate E st ty n t)"
  unfolding nfc_ncif_proc_deactivate_def by (intro oks; simp)

lemma conn_create_rsp_ok [oks]: "keeps s t \<Longrightarrow> ok s (nfc_ncif_proc_conn_create_rsp E m d t)"
  unfolding nfc_ncif_proc_conn_create_rsp_def by (intro oks; simp)

lemma conn_close_ok [oks]: "keeps s t \<Longrightarrow> ok s (nfc_ncif_report_conn_close_evt E cid st t)"
  unfolding nfc_ncif_report_conn_close_evt_def by (intro oks; simp)

subsection \<open>Start and recovery\<close>

lemma discovery_map_ok [oks]: "keeps s t \<Longrightarrow> okv s (NFC_DiscoveryMap E num maps cb t)"
  unfolding NFC_DiscoveryMap_def by (intro oks)

lemma notify_enable_ok [oks]: "keeps s t \<Longrightarrow> ok s (nfc_main_notify_enable_status E st t)"
  unfolding nfc_main_notify_enable_status_def by (intro oks; simp)

lemma enabled_ok_ok [oks]: "keeps s t \<Longrightarrow> ok s (nfc_enabled_ok E m t)"
  unfolding nfc_enabled_ok_def by (intro oks; simp)

lemma enabled_ok [oks]: "keeps s t \<Longrightarrow> ok s (nfc_enabled E st p t)"
  unfolding nfc_enabled_def by (intro oks; simp)

lemma cmd_timeout_ok [oks]: "keeps s t \<Longrightarrow> ok s (nfc_ncif_cmd_timeout E t)"
  unfolding nfc_ncif_cmd_timeout_def by (intro oks; simp)

lemma deact_timeout_ok [oks]: "keeps s t \<Longrightarrow> ok s (disc_deact_ntf_timeout_handler E t)"
  unfolding disc_deact_ntf_timeout_handler_def by (intro oks)

lemma reset_rsp_ok [oks]: "keeps s t \<Longrightarrow> ok s (nfc_ncif_proc_reset_rsp E m n t)"
  unfolding nfc_ncif_proc_reset_rsp_def by (intro oks; simp)

lemma store_version_ok [oks]: "keeps s t \<Longrightarrow> okv s (nfc_ncif_store_FWVersion m t)"
  unfolding nfc_ncif_store_FWVersion_def by (intro oks)

lemma init_rsp_ok [oks]: "keeps s t \<Longrightarrow> ok s (nfc_ncif_proc_init_rsp E b t)"
  unfolding nfc_ncif_proc_init_rsp_def by (intro oks; simp)

subsection \<open>Responses and notifications\<close>

lemma event_ok [oks]:
  "keeps s t \<Longrightarrow> ok s (nfc_ncif_rf_management_status E e t)" "keeps s t \<Longrightarrow> ok s (nfc_ncif_event_status E r t)"
  "keeps s t \<Longrightarrow> ok s (nfc_ncif_set_config_status E m p t)" "keeps s t \<Longrightarrow> ok s (nfc_ncif_error_status E cid st t)"
  "keeps s t \<Longrightarrow> ok s (nfc_ncif_proc_rf_field_ntf E st t)" "keeps s t \<Longrightarrow> ok s (nfc_ncif_proc_discover_ntf E m t)"
  "keeps s t \<Longrightarrow> ok s (nfc_ncif_proc_rf_wtx_ntf E t)" "keeps s t \<Longrightarrow> ok s (nfc_ncif_proc_activate E m p t)"
  "keeps s t \<Longrightarrow> ok s (nfc_ncif_proc_ee_action E m p len t)" "keeps s t \<Longrightarrow> ok s (nfc_ncif_proc_ee_discover_req E m p len t)"
  "keeps s t \<Longrightarrow> ok s (nfc_ncif_proc_get_routing E m p len t)" "keeps s t \<Longrightarrow> ok s (nfc_ncif_proc_get_config_rsp E b t)"
  "keeps s t \<Longrightarrow> ok s (nfc_ncif_proc_t3t_polling_ntf E m p len t)"
  unfolding nfc_ncif_rf_management_status_def nfc_ncif_event_status_def nfc_ncif_set_config_status_def
    nfc_ncif_error_status_def nfc_ncif_proc_rf_field_ntf_def nfc_ncif_proc_discover_ntf_def nfc_ncif_proc_rf_wtx_ntf_def
    nfc_ncif_proc_activate_def nfc_ncif_proc_ee_action_def nfc_ncif_proc_ee_discover_req_def
    nfc_ncif_proc_get_routing_def nfc_ncif_proc_get_config_rsp_def nfc_ncif_proc_t3t_polling_ntf_def
  by (intro oks; simp)+

lemma core_ok [oks]: "keeps s t \<Longrightarrow> ok s (nci_proc_core_rsp E b t)" "keeps s t \<Longrightarrow> ok s (nci_proc_core_ntf E b t)"
  unfolding nci_proc_core_rsp_def nci_proc_core_ntf_def by (intro oks; simp)+

lemma rf_ok [oks]:
  "keeps s t \<Longrightarrow> ok s (nci_proc_rf_management_rsp E b t)" "keeps s t \<Longrightarrow> ok s (nci_proc_rf_management_ntf E b t)"
  unfolding nci_proc_rf_management_rsp_def nci_proc_rf_management_ntf_def by (intro oks; simp)+

lemma ee_ok [oks]:
  "keeps s t \<Longrightarrow> ok s (nci_proc_ee_management_rsp E b t)" "keeps s t \<Longrightarrow> ok s (nci_proc_ee_management_ntf E b t)"
  unfolding nci_proc_ee_management_rsp_def nci_proc_ee_management_ntf_def by (intro oks; simp)+

lemma vs_cbacks_ok [oks]: "keeps s t \<Longrightarrow> ok s (vs_cbacks E is ev m t)"
proof (induction "is" arbitrary: t)
  case (Cons i "is")
  show ?case unfolding vs_cbacks.simps by (intro oks Cons)
qed (simp add: oks)

lemma prop_ok [oks]: "keeps s t \<Longrightarrow> ok s (nci_proc_prop_rsp E b t)" "keeps s t \<Longrightarrow> ok s (nci_proc_prop_ntf E b t)"
  unfolding nci_proc_prop_rsp_def nci_proc_prop_ntf_def by (intro oks; simp)+

lemma process_ntf_ok [oks]: "keeps s t \<Longrightarrow> ok s (process_ntf E b gid t)"
  unfolding process_ntf_def by (intro oks)

end

text \<open>
  The window of commands: what a message of the NFCC does to it, the steps of a core with its client and
  the NFCC, and two clients, one that only logs the calls of its callbacks and one that sends a command
  from each of them.
\<close>

section \<open>Responses\<close>

text \<open>A message that is taken as the response to the command that was handed to the HAL last.\<close>

definition answers_cmd :: "bt_hdr \<Rightarrow> nfc_cb \<Rightarrow> bool" where
  "answers_cmd b s \<longleftrightarrow> (case body b of
       h # o1 # _ \<Rightarrow> hdr_mt h = NCI_MT_RSP
         \<and> (hdr_gid (last_hdr s ! 0) = hdr_gid h \<and> hdr_oid (last_hdr s ! 1) = hdr_oid o1
            \<or> hdr_gid h = NCI_GID_RF_MANAGE \<and> hdr_oid o1 = 3 \<and> etsi_reader_in_progress s)
     | _ \<Rightarrow> False)"

text \<open>What a function does that opens the window for \<open>n\<close> more commands.\<close>

definition opens :: "nat \<Rightarrow> nfc_cb \<Rightarrow> nfc_cb \<Rightarrow> bool" where
  "opens n s s' \<longleftrightarrow> cmd_inv s' \<and> (\<exists>ns. accepted s' = accepted s @ ns) \<and> (\<exists>ms. cmds s' = cmds s @ ms) \<and> slots s' = slots s + n"

lemma keeps_opens: "keeps s t \<Longrightarrow> cmd_inv s \<Longrightarrow> opens 0 s t"
  by (auto simp: keeps_def opens_def cmd_step_ok_def)

lemma opens_trans: "opens m s t \<Longrightarrow> opens n t u \<Longrightarrow> opens (m + n) s u"
  by (auto simp: opens_def)

text \<open>A closed window stays closed.\<close>

lemma keeps_closed:
  assumes "keeps s t" "cmd_inv s" "nci_cmd_window s = 0"
  shows "nci_cmd_window t = 0"
proof -
  from assms obtain ms where "cmds t = cmds s @ ms" "slots t = slots s" by (auto simp: keeps_def cmd_step_ok_def)
  then have "unat (nci_cmd_window t) = 0" using assms(3) by (simp add: slots_def)
  then show ?thesis by (simp add: unat_eq_0)
qed

context cmd_client
begin

text \<open>
  A response opens the window when it is closed. When it is open, the response came without a command: then
  the window stays open, but a command that the handler of the response sends is followed by an open window.
\<close>

lemma update_window_opens:
  assumes "nfc_ncif_update_window E s = Some s'" "cmd_inv s"
  shows "opens (if nci_cmd_window s = 0 then 1 else 0) s s'"
proof (cases "nci_cmd_window s = 0")
  case True
  let ?t = "s\<lparr>nci_wait_rsp_timer := False, p_vsc_cback := None, nci_cmd_window := 1\<rparr>"
  have r: "nfc_ncif_check_cmd_queue E None ?t = Some s'" using assms(1) True by (simp add: nfc_ncif_update_window_def)
  have t: "plain ?t" "accepted ?t = accepted s" "cmds ?t = cmds s" "slots ?t = slots s + 1"
    using assms(2) True by (auto simp: cmd_inv_def plain_def has_fl_def accepted_def cmds_def slots_def)
  from check_ok [OF r t(1)] obtain ns where "cmd_step_ok ?t ns s'" by auto
  then show ?thesis using t True by (auto simp: opens_def cmd_step_ok_def)
next
  case False
  then have "nci_cmd_window s = 1" using assms(2) window_cases by (auto simp: cmd_inv_def plain_def)
  then have "s' = s" using assms(1) by (simp add: nfc_ncif_update_window_def)
  then show ?thesis using assms(2) False by (simp add: opens_def)
qed

definition opens_most :: "nfc_cb \<Rightarrow> nfc_cb \<Rightarrow> bool" where
  "opens_most s s' \<longleftrightarrow> (\<exists>n \<le> 1. opens n s s' \<and> (nci_cmd_window s = 0 \<longrightarrow> n = 1))"

lemma process_rsp_opens:
  assumes "process_rsp E b gid s = Some s'" "cmd_inv s"
  shows "opens_most s s'"
proof -
  let ?h = "if gid = NCI_GID_CORE then nci_proc_core_rsp E b s
          else if gid = NCI_GID_RF_MANAGE then nci_proc_rf_management_rsp E b s
          else if gid = NCI_GID_EE_MANAGE then nci_proc_ee_management_rsp E b s
          else if gid = NCI_GID_PROP then nci_proc_prop_rsp E b s
          else Some s"
  have "ok s ?h" by (intro oks keeps_refl)
  moreover obtain t where t: "?h = Some t"
    using assms(1) by (cases ?h) (simp_all add: process_rsp_def del: if_split)
  ultimately have k: "keeps s t" by (simp only: ok_def)
  have o: "opens 0 s t" using keeps_opens [OF k assms(2)] .
  then have i: "cmd_inv t" "\<not> i2c_fragmentation t" by (simp_all add: opens_def cmd_inv_def plain_def)
  have "nfc_ncif_update_window E t = Some s'"
    using assms(1) t i(2) by (simp add: process_rsp_def del: if_split cong: if_weak_cong)
  from update_window_opens [OF this i(1)] opens_trans [OF o]
  have "opens (if nci_cmd_window t = 0 then 1 else 0) s s'" by fastforce
  moreover have "nci_cmd_window s = 0 \<Longrightarrow> nci_cmd_window t = 0" by (rule keeps_closed [OF k assms(2)])
  ultimately show ?thesis unfolding opens_most_def by (intro exI [of _ "if nci_cmd_window t = 0 then 1 else 0"]) auto
qed

lemma process_event_opens:
  assumes r: "nfc_ncif_process_event E b s = Some s'" and s: "cmd_inv s"
  shows "if answers_cmd b s then opens_most s s' else opens 0 s s'"
proof -
  let ?s = "s\<lparr>sListenActivated := False\<rparr>"
  have k: "keeps s ?s" by (intro oks keeps_refl)
  from keeps_opens [OF k s] have o: "opens 0 s ?s" .
  have i: "cmd_inv ?s" "\<not> nxpCbflag s" using o s by (simp_all add: opens_def cmd_inv_def plain_def)
  obtain h o1 where h: "rd (body b) 0 = Some h" "rd (body b) 1 = Some o1"
    using r by (auto simp: nfc_ncif_process_event_def split: bind_split_asm)
  then obtain l where b: "body b = h # o1 # l" by (cases "body b"; cases "tl (body b)") (auto simp: rd_def split: if_splits)
  show ?thesis
  proof (cases "answers_cmd b s")
    case False
    have "ok s (Some s')"
    proof (cases "hdr_mt h = NCI_MT_RSP")
      case True
      then have "s' = ?s" using r b i(2) False
        by (auto simp: nfc_ncif_process_event_def Let_def answers_cmd_def rd_Some_iff split: bind_split_asm if_splits)
      then show ?thesis using k by (simp add: oks)
    next
      case False
      then have "Some s' = (if hdr_mt h = NCI_MT_DATA then nfc_ncif_proc_data E b ?s
          else if hdr_mt h = NCI_MT_NTF then process_ntf E b (hdr_gid h) ?s else Some ?s)"
        using r b i(2) by (simp add: nfc_ncif_process_event_def Let_def cong: if_cong)
      then show ?thesis by (simp only:) (intro oks keeps_refl)
    qed
    then show ?thesis using keeps_opens [OF _ s] False by (simp add: ok_def)
  next
    case True
    then have m: "hdr_mt h = NCI_MT_RSP" using b by (auto simp: answers_cmd_def)
    obtain t where t: "keeps s t" "process_rsp E b (hdr_gid h) t = Some s'"
    proof (cases "hdr_gid (last_hdr s ! 0) = hdr_gid h \<and> hdr_oid (last_hdr s ! 1) = hdr_oid o1")
      case True
      then have "process_rsp E b (hdr_gid h) ?s = Some s'" using r b i(2) m
        by (auto simp: nfc_ncif_process_event_def Let_def rd_Some_iff split: bind_split_asm if_splits)
      then show ?thesis using k that by blast
    next
      case False
      let ?u = "?s\<lparr>dm_disc_state := 0, dm_disc_flags := (dm_disc_flags ?s AND NOT (0x0040 OR 0x0002)) OR (0x0020 OR 0x0010 OR 0x0001)\<rparr>"
      from False True obtain t where t: "disc_deact_ntf_timeout_handler E ?u = Some t" "process_rsp E b (hdr_gid h) t = Some s'"
        using r b i(2) m
        by (auto simp: nfc_ncif_process_event_def Let_def answers_cmd_def rd_Some_iff split: bind_split_asm if_splits)
      have "ok s (disc_deact_ntf_timeout_handler E ?u)" by (intro oks k)
      then show ?thesis using t that by (simp add: ok_def)
    qed
    have o: "opens 0 s t" using keeps_opens [OF t(1) s] .
    then have "opens_most t s'" using process_rsp_opens [OF t(2)] by (simp add: opens_def)
    then obtain n where n: "n \<le> 1" "opens n t s'" "nci_cmd_window t = 0 \<longrightarrow> n = 1" unfolding opens_most_def by blast
    have "opens n s s'" using opens_trans [OF o n(2)] by simp
    then show ?thesis using n(1,3) keeps_closed [OF t(1) s] True unfolding opens_most_def by auto
  qed
qed

end

section \<open>Steps\<close>

text \<open>
  A core with the number of responses that it has got, and how many of them came while no command was
  without its response: the client gives it a command, any of the queue's callers but
  \<open>NFC_SendNxpNciCommand\<close>, or data; a timer expires, other than the one of the I2C fragmentation; any
  message of the NFCC comes, at any time.
\<close>

record cmd_link =
  cmd_core :: nfc_cb
  answers :: nat
  unasked :: nat

inductive cmd_step :: "nfc_env \<Rightarrow> cmd_link \<Rightarrow> cmd_link \<Rightarrow> bool" for E where
  command: "plain_cmd p \<Longrightarrow> nfc_ncif_check_cmd_queue E (Some p) (cmd_core c) = Some s \<Longrightarrow> cmd_step E c (c\<lparr>cmd_core := s\<rparr>)"
| data: "NFC_SendData E cid p (cmd_core c) = Some (st, s) \<Longrightarrow> cmd_step E c (c\<lparr>cmd_core := s\<rparr>)"
| timer: "timer_runs t (cmd_core c) \<Longrightarrow> t \<noteq> NFC_TTYPE_NCI_WAIT_DATA_NTF \<Longrightarrow> nfc_process_timer E t (cmd_core c) = Some s
    \<Longrightarrow> cmd_step E c (c\<lparr>cmd_core := s\<rparr>)"
| message: "nfc_ncif_process_event E b (cmd_core c) = Some s
    \<Longrightarrow> cmd_step E c (c\<lparr>cmd_core := s, answers := answers c + (if answers_cmd b (cmd_core c) then 1 else 0),
          unasked := unasked c + (if answers_cmd b (cmd_core c) \<and> nci_cmd_window (cmd_core c) \<noteq> 0 then 1 else 0)\<rparr>)"

text \<open>
  Each response lets at most one more command out, and one that answers a command exactly one. Where all
  responses were asked for, the window is closed exactly when a command is without its response.
\<close>

definition cmd_link_inv :: "cmd_link \<Rightarrow> bool" where
  "cmd_link_inv c \<longleftrightarrow> cmd_inv (cmd_core c) \<and> slots (cmd_core c) \<le> 1 + answers c \<and> 1 + answers c \<le> slots (cmd_core c) + unasked c"

definition extends :: "nfc_cb \<Rightarrow> nfc_cb \<Rightarrow> bool" where
  "extends s s' \<longleftrightarrow> (\<exists>ns. accepted s' = accepted s @ ns) \<and> (\<exists>ms. cmds s' = cmds s @ ms)"

lemma extends_trans: "extends s t \<Longrightarrow> extends t u \<Longrightarrow> extends s u"
  by (auto simp: extends_def)

lemma opens_extends: "opens n s s' \<Longrightarrow> extends s s'"
  by (simp add: opens_def extends_def)

context cmd_client
begin

lemma cmd_step_inv:
  assumes "cmd_step E c c'" "cmd_link_inv c"
  shows "extends (cmd_core c) (cmd_core c') \<and> cmd_link_inv c'"
proof -
  have ci: "cmd_inv (cmd_core c)" using assms(2) by (simp add: cmd_link_inv_def)
  have other: ?thesis if "opens 0 (cmd_core c) s" "c' = c\<lparr>cmd_core := s\<rparr>" for s
    using that opens_extends [OF that(1)] assms(2) by (simp add: cmd_link_inv_def opens_def)
  from assms(1) show ?thesis
  proof (cases rule: cmd_step.cases)
    case (command p s)
    have "ok (cmd_core c) (nfc_ncif_check_cmd_queue E (Some p) (cmd_core c))" using command by (intro oks keeps_refl) simp
    then show ?thesis using command keeps_opens ci other by (auto simp: ok_def)
  next
    case (data cid p st s)
    have "okv (cmd_core c) (NFC_SendData E cid p (cmd_core c))"
      unfolding NFC_SendData_def by (auto split: option.splits intro!: oks keeps_refl)
    then show ?thesis using data keeps_opens ci other by (auto simp: okv_def)
  next
    case (timer t s)
    have "ok (cmd_core c) (nfc_process_timer E t (cmd_core c))"
      using timer(3) by (cases t) (auto simp: nfc_wait_2_deactivate_timeout_def intro!: oks keeps_refl)
    then show ?thesis using timer keeps_opens ci other by (auto simp: ok_def)
  next
    case (message b s)
    note ev = process_event_opens [OF message(2) ci]
    show ?thesis
    proof (cases "answers_cmd b (cmd_core c)")
      case False
      then show ?thesis using ev opens_extends message(1) assms(2) by (auto simp: cmd_link_inv_def opens_def)
    next
      case True
      then obtain n where n: "n \<le> 1" "opens n (cmd_core c) s" "nci_cmd_window (cmd_core c) = 0 \<longrightarrow> n = 1"
        using ev unfolding opens_most_def by auto
      have sl: "slots s = slots (cmd_core c) + n" "cmd_inv s" using n(2) by (simp_all add: opens_def)
      have "slots s \<le> 1 + (answers c + 1)" using assms(2) n(1) sl(1) by (simp add: cmd_link_inv_def)
      moreover have "1 + (answers c + 1) \<le> slots s + (unasked c + (if nci_cmd_window (cmd_core c) \<noteq> 0 then 1 else 0))"
        using assms(2) n(3) sl(1) by (auto simp: cmd_link_inv_def)
      ultimately show ?thesis using True message(1) sl(2) opens_extends [OF n(2)] by (simp add: cmd_link_inv_def)
    qed
  qed
qed

lemma cmd_steps_inv:
  "(cmd_step E)\<^sup>*\<^sup>* c c' \<Longrightarrow> cmd_link_inv c \<Longrightarrow> extends (cmd_core c) (cmd_core c') \<and> cmd_link_inv c'"
proof (induction rule: rtranclp_induct)
  case base
  then show ?case by (simp add: extends_def)
next
  case (step d e)
  then show ?case using cmd_step_inv extends_trans by blast
qed

text \<open>What the window says about the responses.\<close>

lemma cmd_link_inv_cases:
  assumes "cmd_link_inv c"
  shows "length (cmds (cmd_core c)) \<le> answers c + 1"
    and "unasked c = 0 \<Longrightarrow>
      nci_cmd_xmit_q (cmd_core c) = [] \<and> length (cmds (cmd_core c)) = answers c \<or> length (cmds (cmd_core c)) = answers c + 1"
proof -
  have s: "unat (nci_cmd_window (cmd_core c)) + length (cmds (cmd_core c)) \<le> 1 + answers c"
    "1 + answers c \<le> unat (nci_cmd_window (cmd_core c)) + length (cmds (cmd_core c)) + unasked c" and i: "cmd_inv (cmd_core c)"
    using assms by (simp_all add: cmd_link_inv_def slots_def)
  then show "length (cmds (cmd_core c)) \<le> answers c + 1" by simp
  assume u: "unasked c = 0"
  from i window_cases [of "cmd_core c"] consider "nci_cmd_window (cmd_core c) = 0" | "nci_cmd_window (cmd_core c) = 1"
    unfolding cmd_inv_def plain_def by blast
  then show "nci_cmd_xmit_q (cmd_core c) = [] \<and> length (cmds (cmd_core c)) = answers c \<or> length (cmds (cmd_core c)) = answers c + 1"
    using s i u by cases (auto simp: cmd_inv_def)
qed

end

section \<open>Two clients\<close>

text \<open>One whose callbacks are logged, and one that closes connection 1 in every callback.\<close>

interpretation quiet: cmd_client quiet_nfc
  by unfold_locales (auto simp: quiet_nfc_def intro!: oks keeps_refl)

definition busy_nfc :: nfc_env where
  "busy_nfc = quiet_nfc\<lparr>app := (\<lambda>c s. map_option snd (nci_snd_core_conn_close quiet_nfc 1 s))\<rparr>"

lemma busy_app: "app busy_nfc c s = Some t \<Longrightarrow> keeps s t"
  using quiet.commands_ok(5) [OF keeps_refl, of s 1] by (auto simp: busy_nfc_def okv_def)

interpretation busy: cmd_client busy_nfc
  by unfold_locales (auto simp: busy_app, auto simp: busy_nfc_def quiet_nfc_def intro!: oks keeps_refl)

section \<open>Commands of \<open>NFC_SendNxpNciCommand\<close>\<close>

text \<open>
  While such a command is without its response, a notification that the RF link was deactivated counts as the
  response; and of two such commands, the second, sent when the response to the first opens the window, loses its mark.
\<close>

lemma deactivation_as_response: "nfc_ncif_proc_proprietary_rsp NCI_MT_NTF NCI_GID_RF_MANAGE 6"
  by (simp add: nfc_ncif_proc_proprietary_rsp_def)

lemma nxp_mark_lost:
  assumes "nxpCbflag s" "nci_cmd_xmit_q s = [(b, cback)]" "nci_cmd_window s = 0" "nfc_flags s = 0" "p_vsc_cback s = None"
    and "layer_specific b = NFC_WAIT_RSP_NXP" "rd_bytes (body b) 0 2 = Some h" "\<not> saved_cmd h" "rd (body b) 2 = Some l"
    and "body m = [r, oid, n]" "hdr_mt r = NCI_MT_RSP"
  shows "\<exists>t. nfc_ncif_process_event E m s = Some t \<and> last (hal_out t) = Hal_write (body b) \<and> p_vsc_cback t = cback \<and> \<not> nxpCbflag t"
proof -
  let ?s = "s\<lparr>sListenActivated := False\<rparr>"
  let ?w = "?s\<lparr>nci_wait_rsp_timer := False, p_vsc_cback := None, nci_cmd_window := 1\<rparr>"
  have f: "\<not> has_fl NFC_FL_CONTROL_REQUESTED ?w" using assms(4) by (simp add: has_fl_def)
  have "nfc_ncif_check_cmd_queue E None ?w = send_next_cmd None ?w"
    unfolding nfc_ncif_check_cmd_queue_def numeral_2_eq_2 by (rule check_no_request [OF f])
  moreover have "\<exists>u. send_next_cmd None ?w = Some u \<and> last (hal_out u) = Hal_write (body b) \<and> p_vsc_cback u = cback"
    using assms by (simp add: send_next_cmd_def transmit_cmd_def Let_def hal_def)
  ultimately obtain u where u: "nci_proc_prop_nxp_rsp E m ?s = Some u" "last (hal_out u) = Hal_write (body b)" "p_vsc_cback u = cback"
    using assms by (auto simp: nci_proc_prop_nxp_rsp_def nfc_ncif_update_window_def rd_def)
  then have "nfc_ncif_process_event E m s = Some (u\<lparr>nxpCbflag := False\<rparr>)"
    using assms by (simp add: nfc_ncif_process_event_def nfc_ncif_proc_proprietary_rsp_def rd_def Let_def)
  then show ?thesis using u by simp
qed

end
