(* ===== verification/Nci_Startup.thy ===== *)
theory Nci_Startup
  imports Nci_Main
begin

text \<open>
  The start of the core, from \<open>NFC_Init\<close> and \<open>NFC_Enable\<close> through the reset and the initialisation of the NFCC
  to the event for the upper layer, as one run over the callbacks of the HAL and the rounds of the task.
\<close>

section \<open>Commands that go out at once\<close>

text \<open>The state after a command of \<open>snd_cmd\<close> was handed to the HAL.\<close>

definition cmd_sent :: "byte list \<Rightarrow> nfc_cb \<Rightarrow> nfc_cb" where
  "cmd_sent bs s = s\<lparr>buffers := stl (buffers s), sListenActivated := False, last_hdr := take 2 bs, cmd_size := bs ! 2,
     last_cmd := take 2 (drop 3 bs), hal_out := hal_out s @ [Hal_write bs], nci_cmd_window := 0, nci_wait_rsp_timer := True\<rparr>"

lemma check_now: "\<not> has_fl NFC_FL_CONTROL_REQUESTED s \<Longrightarrow> nfc_ncif_check_cmd_queue E p s = send_next_cmd p s"
  unfolding nfc_ncif_check_cmd_queue_def numeral_2_eq_2 by (rule check_no_request)

lemma snd_cmd_now:
  assumes "nfc_flags s = 0" "nci_cmd_window s = 1" "nci_cmd_xmit_q s = []" "\<not> i2c_fragmentation s" "shd (buffers s)"
    and "3 \<le> length bs" "length bs \<le> 500" "n = length bs" "\<not> saved_cmd (take 2 bs)"
  shows "snd_cmd_via (nfc_ncif_check_cmd_queue E) n bs s = Some (NFC_STATUS_OK, cmd_sent bs s)"
proof -
  let ?s = "s\<lparr>buffers := stl (buffers s), sListenActivated := False\<rparr>"
  let ?b = "\<lparr>bsize = NFC_NCI_POOL_BUF_SIZE, offset = of_nat NCI_MSG_OFFSET_SIZE, layer_specific = 0, body = bs\<rparr>"
  have f: "\<not> has_fl NFC_FL_CONTROL_REQUESTED ?s" using assms(1) by (simp add: has_fl_def)
  have "nfc_ncif_check_cmd_queue E (Some (?b, None)) ?s = send_next_cmd (Some (?b, None)) ?s" by (rule check_now [OF f])
  also have "\<dots> = Some (cmd_sent bs s)"
    using assms by (simp add: send_next_cmd_def transmit_cmd_def Let_def rd_bytes_def cmd_sent_def hal_def NCI_MSG_HDR_SIZE_def)
  finally show ?thesis
    using assms by (simp add: snd_cmd_via_def take_buffer_def new_cmd_def send_cmd_via_def nci_sizes)
qed

lemma cmd_sent_simps [simp]:
  "nfc_flags (cmd_sent bs s) = nfc_flags s" "nci_cmd_window (cmd_sent bs s) = 0" "nci_cmd_xmit_q (cmd_sent bs s) = nci_cmd_xmit_q s"
  "i2c_fragmentation (cmd_sent bs s) = i2c_fragmentation s" "buffers (cmd_sent bs s) = stl (buffers s)"
  "hal_out (cmd_sent bs s) = hal_out s @ [Hal_write bs]" "nfc_mbox (cmd_sent bs s) = nfc_mbox s"
  "transport_ready (cmd_sent bs s) = transport_ready s" "nfc_state (cmd_sent bs s) = nfc_state s"
  "app_log (cmd_sent bs s) = app_log s" "last_hdr (cmd_sent bs s) = take 2 bs" "conn_cb (cmd_sent bs s) = conn_cb s"
  "conn_id_map (cmd_sent bs s) = conn_id_map s" "nxpCbflag (cmd_sent bs s) = nxpCbflag s"
  "p_resp_cback (cmd_sent bs s) = p_resp_cback s" "num_disc_maps (cmd_sent bs s) = num_disc_maps s"
  "p_disc_maps (cmd_sent bs s) = p_disc_maps s" "vs_interface (cmd_sent bs s) = vs_interface s"
  "p_nci_init_rsp (cmd_sent bs s) = p_nci_init_rsp s" "max_conn (cmd_sent bs s) = max_conn s"
  "nci_interfaces (cmd_sent bs s) = nci_interfaces s" "max_ce_table (cmd_sent bs s) = max_ce_table s"
  "nci_features (cmd_sent bs s) = nci_features s" "retry_cnt (cmd_sent bs s) = retry_cnt s"
  by (simp_all add: cmd_sent_def)

text \<open>The window opens with nothing queued.\<close>

lemma window_opens:
  assumes "nfc_flags s = 0" "nci_cmd_window s = 0" "nci_cmd_xmit_q s = []"
  shows "nfc_ncif_update_window E s = Some (s\<lparr>nci_wait_rsp_timer := False, p_vsc_cback := None, nci_cmd_window := 1\<rparr>)"
proof -
  let ?s = "s\<lparr>nci_wait_rsp_timer := False, p_vsc_cback := None, nci_cmd_window := 1\<rparr>"
  have f: "\<not> has_fl NFC_FL_CONTROL_REQUESTED ?s" using assms(1) by (simp add: has_fl_def)
  have "nfc_ncif_check_cmd_queue E None ?s = send_next_cmd None ?s" by (rule check_now [OF f])
  then show ?thesis using assms by (simp add: nfc_ncif_update_window_def send_next_cmd_def)
qed

text \<open>A command that is queued behind a response that is being handled, and goes out when the window opens.\<close>

lemma snd_cmd_after_rsp:
  assumes "nfc_flags s = 0" "nci_cmd_window s = 0" "nci_cmd_xmit_q s = []" "\<not> i2c_fragmentation s" "shd (buffers s)"
    and "3 \<le> length bs" "length bs \<le> 500" "\<not> saved_cmd (take 2 bs)"
  shows "\<exists>t. snd_cmd E bs s = Some (NFC_STATUS_OK, t) \<and> \<not> i2c_fragmentation t
    \<and> nfc_ncif_update_window E t = Some (cmd_sent bs s\<lparr>p_vsc_cback := None\<rparr>)"
proof -
  let ?s = "s\<lparr>buffers := stl (buffers s), sListenActivated := False\<rparr>"
  let ?b = "\<lparr>bsize = NFC_NCI_POOL_BUF_SIZE, offset = of_nat NCI_MSG_OFFSET_SIZE, layer_specific = 0, body = bs\<rparr>"
  let ?t = "?s\<lparr>nci_cmd_xmit_q := [(?b, None)]\<rparr>"
  have c: "nfc_ncif_check_cmd_queue E p v = send_next_cmd p v" if "nfc_flags v = 0" for p v by (rule check_now) (simp add: has_fl_def that)
  have "snd_cmd E bs s = Some (NFC_STATUS_OK, ?t)"
    using assms by (simp add: snd_cmd_def snd_cmd_via_def take_buffer_def new_cmd_def send_cmd_via_def nci_sizes c send_next_cmd_def)
  moreover have "nfc_ncif_update_window E ?t = Some (cmd_sent bs s\<lparr>p_vsc_cback := None\<rparr>)"
    using assms by (simp add: nfc_ncif_update_window_def c send_next_cmd_def transmit_cmd_def Let_def rd_bytes_def cmd_sent_def hal_def
        NCI_MSG_HDR_SIZE_def)
  ultimately show ?thesis using assms(4) by (intro exI [of _ ?t]) simp
qed

section \<open>Rounds\<close>

text \<open>The core between two rounds of its start: the state, the window, and what the HAL has got.\<close>

definition starting :: "nfc_state \<Rightarrow> byte \<Rightarrow> hal_call list \<Rightarrow> nfc_cb \<Rightarrow> bool" where
  "starting st w h s \<longleftrightarrow> nfc_state s = st \<and> nci_cmd_window s = w \<and> hal_out s = h \<and> nfc_flags s = 0
     \<and> nci_cmd_xmit_q s = [] \<and> \<not> i2c_fragmentation s \<and> buffers s = sconst True \<and> nfc_mbox s = [] \<and> \<not> transport_ready s
     \<and> \<not> nxpCbflag s \<and> p_resp_cback s \<and> app_log s = [] \<and> num_disc_maps s = 4 \<and> p_disc_maps s = nfc_interface_mapping
     \<and> vs_interface s = replicate NFC_NFCC_MAX_NUM_VS_INTERFACE 0"

lemma startingD:
  assumes "starting st w h s"
  shows "nfc_state s = st" "nci_cmd_window s = w" "hal_out s = h" "nfc_flags s = 0" "nci_cmd_xmit_q s = []"
    "\<not> i2c_fragmentation s" "buffers s = sconst True" "nfc_mbox s = []" "\<not> transport_ready s" "\<not> nxpCbflag s"
    "p_resp_cback s" "app_log s = []" "num_disc_maps s = 4" "p_disc_maps s = nfc_interface_mapping"
    "vs_interface s = replicate NFC_NFCC_MAX_NUM_VS_INTERFACE 0"
  using assms by (simp_all add: starting_def)

lemma task_one:
  assumes "nfc_mbox s = [m]" "\<not> transport_ready s" "nfc_task_message E m (s\<lparr>nfc_mbox := []\<rparr>) = Some t" "nfc_mbox t = []"
  shows "nfc_task E s = Some t"
proof -
  have "nfc_task_mbox E t = Some t" using assms(4) by (subst nfc_task_mbox.simps) simp
  moreover have "nfc_task_mbox E s = nfc_task_mbox E t" by (subst nfc_task_mbox.simps) (simp add: assms)
  ultimately show ?thesis using assms(2) by (simp add: nfc_task_def)
qed

text \<open>A packet of the NFCC.\<close>

definition packet_round :: "nfc_env \<Rightarrow> byte list \<Rightarrow> nfc_cb \<Rightarrow> nfc_cb option" where
  "packet_round E p s = Option.bind (nfc_main_hal_data_cback p s) (nfc_task E)"

lemma packet_round_one:
  assumes s: "starting st w h s" "st \<noteq> NFC_STATE_W4_HAL_CLOSE" "length p \<le> 258"
    and r: "nfc_ncif_process_event E (rx_buffer p) s = Some t" "nfc_mbox t = []"
  shows "packet_round E p s = Some t"
proof -
  note d = startingD [OF s(1)]
  let ?s = "s\<lparr>nfc_mbox := [Nci_msg (rx_buffer p)]\<rparr>"
  have b: "s\<lparr>buffers := sconst True\<rparr> = s" "s\<lparr>nfc_mbox := []\<rparr> = s" using d(7,8) by simp_all
  have "nfc_main_hal_data_cback p s = Some ?s"
    using s(2,3) d by (simp add: nfc_main_hal_data_cback_def take_buffer_def nci_sizes b(1))
  moreover have "nfc_task E ?s = Some t"
  proof (rule task_one)
    show "nfc_task_message E (Nci_msg (rx_buffer p)) (?s\<lparr>nfc_mbox := []\<rparr>) = Some t"
      using b(2) r(1) by simp
  qed (use d r in simp_all)
  ultimately show ?thesis by (simp add: packet_round_def)
qed

text \<open>Enabling: the HAL opens, and the task resets the NFCC.\<close>

definition enable_rounds :: "nfc_env \<Rightarrow> nfc_cb \<Rightarrow> nfc_cb option" where
  "enable_rounds E s = nfc_task E (nfc_main_hal_cback HAL_NFC_OPEN_CPLT_EVT HAL_NFC_STATUS_OK (snd (NFC_Enable E True (NFC_Init s))))"

lemma enable_round:
  assumes "\<not> i2c_fragmentation s" "buffers s = sconst True" "nfc_mbox s = []" "app_log s = []" "\<not> chip_pn547 E"
  shows "\<exists>t. enable_rounds E s = Some t \<and> last_hdr t = [0x20, 0]
    \<and> starting NFC_STATE_CORE_INIT 0 (hal_out s @ [Hal_open, Hal_write [0x20, 0, 1, 1]]) t"
proof -
  let ?s = "nfc_main_hal_cback HAL_NFC_OPEN_CPLT_EVT HAL_NFC_STATUS_OK (snd (NFC_Enable E True (NFC_Init s)))"
  let ?u = "nfc_set_state NFC_STATE_CORE_INIT (?s\<lparr>transport_ready := False\<rparr>)"
  have s: "transport_ready ?s" "nfc_mbox ?s = []" "starting NFC_STATE_CORE_INIT 1 (hal_out s @ [Hal_open]) ?u"
    using assms by (simp_all add: nfc_main_hal_cback_def NFC_Enable_def NFC_Init_def hal_def nfc_set_state_def starting_def)
  note d = startingD [OF s(3)]
  have r: "nci_snd_core_reset E 1 ?u = Some (NFC_STATUS_OK, cmd_sent [0x20, 0, 1, 1] ?u)"
    unfolding nci_snd_core_reset_def snd_cmd_def cmd_bytes_def using d by (simp add: snd_cmd_now saved_cmd_def del: starting_def)
  have "nfc_task E ?s = Some (cmd_sent [0x20, 0, 1, 1] ?u)"
    using s(1) r d(8) unfolding nfc_task_def nfc_task_transport_ready_def by (simp add: nfc_task_mbox.simps)
  then show ?thesis using d by (simp add: enable_rounds_def starting_def)
qed

text \<open>The response to the reset, for any version that the core accepts: the NFCC is initialised.\<close>

lemma reset_round:
  assumes s: "starting NFC_STATE_CORE_INIT 0 h s" "last_hdr s = [0x20, 0]" and v: "v = NCI_VERSION \<or> NCI_VERSION_0_F \<le> v"
  shows "\<exists>t. packet_round E [0x40, 0, 3, 0, v, cfg] s = Some t \<and> last_hdr t = [0x20, 1]
    \<and> starting NFC_STATE_CORE_INIT 0 (h @ [Hal_write [0x20, 1, 0]]) t"
proof -
  note d = startingD [OF s(1)]
  let ?p = "[0x40, 0, 3, 0, v, cfg]" and ?s = "s\<lparr>sListenActivated := False\<rparr>"
  have v': "\<not> (v \<noteq> NCI_VERSION \<and> v < NCI_VERSION_0_F)" using v by auto
  obtain t where t: "nci_snd_core_init E ?s = Some (NFC_STATUS_OK, t)" "\<not> i2c_fragmentation t"
      "nfc_ncif_update_window E t = Some (cmd_sent [0x20, 1, 0] ?s\<lparr>p_vsc_cback := None\<rparr>)"
    using snd_cmd_after_rsp [of ?s "[0x20, 1, 0]" E] d by (auto simp: nci_snd_core_init_def cmd_bytes_def saved_cmd_def)
  have "nci_proc_core_rsp E (rx_buffer ?p) ?s = Some t"
    using d t(1) v' by (auto simp: nci_proc_core_rsp_def rx_buffer_def nfc_ncif_proc_reset_rsp_def has_fl_def rd_def hdr_oid_def)
  then have "nfc_ncif_process_event E (rx_buffer ?p) s = Some (cmd_sent [0x20, 1, 0] ?s\<lparr>p_vsc_cback := None\<rparr>)"
    using d s(2) t(2,3)
    by (simp add: nfc_ncif_process_event_def process_rsp_def rx_buffer_def rd_def hdr_mt_def hdr_gid_def hdr_oid_def Let_def)
  from packet_round_one [OF s(1) _ _ this] d show ?thesis by (auto simp: starting_def)
qed

text \<open>The response to the initialisation.\<close>

definition init_rsp :: "byte list \<Rightarrow> byte list \<Rightarrow> byte \<Rightarrow> byte list \<Rightarrow> byte list \<Rightarrow> byte list" where
  "init_rsp features intfs conns sizes info =
     [0x40, 1, of_nat (17 + length intfs), 0] @ features @ of_nat (length intfs) # intfs @ conns # sizes @ info"

lemma init_round:
  assumes s: "starting NFC_STATE_CORE_INIT 0 h s" "last_hdr s = [0x20, 1]"
    and p: "length features = 4" "length intfs < 200" "length sizes = 5" "length info = 5" "info ! 2 \<noteq> 0" "info ! 3 \<noteq> 0"
  shows "\<exists>t. packet_round E (init_rsp features intfs conns sizes info) s = Some t
    \<and> p_nci_init_rsp t = Some (rx_buffer (init_rsp features intfs conns sizes info))
    \<and> starting NFC_STATE_W4_POST_INIT_CPLT 1 (h @ [Hal_core_initialized (init_rsp features intfs conns sizes info)]) t"
proof -
  note d = startingD [OF s(1)]
  let ?p = "init_rsp features intfs conns sizes info" and ?s = "s\<lparr>sListenActivated := False\<rparr>"
  have l: "length ?p = 20 + length intfs" using p by (simp add: init_rsp_def)
  have n: "unat (of_nat (17 + length intfs) :: byte) = 17 + length intfs" using p(2) by (simp only: unat_of_nat) simp
  have b: "rd ?p 0 = Some 0x40" "rd ?p (Suc 0) = Some 1" "rd ?p 2 = Some (of_nat (17 + length intfs))" "rd ?p 3 = Some 0"
    by (simp_all add: init_rsp_def rd_def)
  have w: "rd ?p (17 + length intfs) = Some (info ! 2)" "rd ?p (17 + length intfs + 1) = Some (info ! 3)"
    "rd ?p (17 + length intfs + 2) = Some (info ! 4)"
    using p by (simp_all add: init_rsp_def rd_def nth_append)
  let ?f = "?s\<lparr>nfc_fw_version := (info ! 2, info ! 3, info ! 4)\<rparr>"
  have f: "nfc_ncif_store_FWVersion ?p ?s = Some (NFC_STATUS_OK, ?f)"
    unfolding nfc_ncif_store_FWVersion_def b(3) bind.bind_lunit n w using p(5,6) by simp
  let ?t = "hal (Hal_core_initialized ?p) (nfc_set_state NFC_STATE_W4_POST_INIT_CPLT
      (upd_conn 0 (\<lambda>c. c\<lparr>cb_id := NFC_RF_CONN_ID, act_protocol := NCI_PROTOCOL_UNKNOWN\<rparr>) ?f)
       \<lparr>retry_cnt := 0, p_nci_init_rsp := Some (rx_buffer ?p)\<rparr>)"
  have "nci_proc_core_rsp E (rx_buffer ?p) ?s = Some ?t"
    by (simp add: nci_proc_core_rsp_def rx_buffer_def b hdr_oid_def nfc_ncif_proc_init_rsp_def f)
  moreover have "nfc_ncif_update_window E ?t = Some (?t\<lparr>nci_wait_rsp_timer := False, p_vsc_cback := None, nci_cmd_window := 1\<rparr>)"
    using d by (intro window_opens) (simp_all add: hal_def nfc_set_state_def upd_conn_def)
  moreover have "\<not> i2c_fragmentation ?t" using d by (simp add: hal_def nfc_set_state_def)
  ultimately have "nfc_ncif_process_event E (rx_buffer ?p) s =
      Some (?t\<lparr>nci_wait_rsp_timer := False, p_vsc_cback := None, nci_cmd_window := 1\<rparr>)"
    using d(10) s(2)
    by (simp add: nfc_ncif_process_event_def process_rsp_def rx_buffer_def b hdr_mt_def hdr_gid_def hdr_oid_def Let_def rd_def [of "[_, _]"])
  from packet_round_one [OF s(1) _ _ this] d l p(2) show ?thesis
    by (auto simp: starting_def hal_def nfc_set_state_def upd_conn_def)
qed

section \<open>The interfaces of the NFCC\<close>

text \<open>What the core keeps of the list of interfaces: the standard ones as a mask, the first four of the vendor.\<close>

definition iface_mask :: "byte list \<Rightarrow> u16 \<Rightarrow> u16" where
  "iface_mask = fold (\<lambda>b k. if b \<le> NCI_INTERFACE_MAX then k OR push_bit (unat b) 1 else k)"

definition vendor_ifaces :: "byte list \<Rightarrow> byte list" where
  "vendor_ifaces = filter (\<lambda>b. NCI_INTERFACE_FIRST_VS \<le> b)"

lemma vendor_not_standard: "(b :: byte) \<le> NCI_INTERFACE_MAX \<Longrightarrow> \<not> NCI_INTERFACE_FIRST_VS \<le> b"
  by (simp add: word_le_nat_alt)

lemma enable_interfaces_all:
  assumes "length V \<le> 4"
  shows "enable_interfaces (length bs) (A @ bs @ C) (length A) (length V) k (V @ replicate (4 - length V) 0)
    = Some (iface_mask bs k, take 4 (V @ vendor_ifaces bs @ replicate 4 0))"
  using assms
proof (induction bs arbitrary: A V k)
  case Nil
  then show ?case by (simp add: iface_mask_def vendor_ifaces_def)
next
  case (Cons b bs)
  have r: "rd (A @ (b # bs) @ C) (length A) = Some b" by (simp add: rd_def nth_append)
  note ih = Cons.IH [of _ "A @ [b]", simplified]
  show ?case
  proof (cases "b \<le> NCI_INTERFACE_MAX")
    case True
    then show ?thesis using r ih [OF Cons.prems] vendor_not_standard [OF True]
      by (simp add: iface_mask_def vendor_ifaces_def)
  next
    case std: False
    show ?thesis
    proof (cases "NCI_INTERFACE_FIRST_VS \<le> b \<and> length V < 4")
      case True
      then have u: "(V @ replicate (4 - length V) 0)[length V := b] = (V @ [b]) @ replicate (4 - length (V @ [b])) 0"
        by (cases "4 - length V") (auto simp: list_update_append)
      have e: "A @ (b # bs) @ C = (A @ [b]) @ bs @ C" "Suc (length A) = length (A @ [b])" by simp_all
      have "enable_interfaces (length (b # bs)) (A @ (b # bs) @ C) (length A) (length V) k (V @ replicate (4 - length V) 0)
          = enable_interfaces (length bs) (A @ (b # bs) @ C) (Suc (length A)) (length (V @ [b])) k ((V @ [b]) @ replicate (4 - length (V @ [b])) 0)"
        using r std True u by (simp add: NFC_NFCC_MAX_NUM_VS_INTERFACE_def)
      also have "\<dots> = Some (iface_mask bs k, take 4 ((V @ [b]) @ vendor_ifaces bs @ replicate 4 0))"
        unfolding e by (rule Cons.IH) (use True in simp)
      finally show ?thesis using std True by (simp only: iface_mask_def vendor_ifaces_def) simp
    next
      case False
      then have "take 4 (V @ vendor_ifaces (b # bs) @ replicate 4 0) = take 4 (V @ vendor_ifaces bs @ replicate 4 0)"
        using Cons.prems by (auto simp: vendor_ifaces_def)
      then show ?thesis using r std False ih [OF Cons.prems]
        by (auto simp: NFC_NFCC_MAX_NUM_VS_INTERFACE_def iface_mask_def)
    qed
  qed
qed

lemma bit_iface_mask: "bit (iface_mask bs k) i \<longleftrightarrow> bit k i \<or> (i < 16 \<and> (\<exists>b \<in> set bs. b \<le> NCI_INTERFACE_MAX \<and> unat b = i))"
proof (induction bs arbitrary: k)
  case (Cons b bs)
  have m: "iface_mask (b # bs) k = iface_mask bs (if b \<le> NCI_INTERFACE_MAX then k OR push_bit (unat b) 1 else k)"
    by (simp add: iface_mask_def)
  show ?case
  proof (cases "b \<le> NCI_INTERFACE_MAX")
    case True
    have "bit (k OR push_bit (unat b) 1) i \<longleftrightarrow> bit k i \<or> (i < 16 \<and> unat b = i)"
      by (auto simp add: bit_or_iff bit_exp_iff possible_bit_word)
    then show ?thesis using True by (simp only: m if_True Cons) (auto simp: True)
  next
    case False
    then show ?thesis by (simp add: m Cons)
  qed
qed (simp add: iface_mask_def)

text \<open>The mapping entries that are sent: those whose interface the NFCC has.\<close>

definition offered :: "byte list \<Rightarrow> (byte \<times> byte \<times> byte) list" where
  "offered bs = filter (\<lambda>(proto, mode, itype). itype \<in> set bs) nfc_interface_mapping"

definition map_cmd :: "(byte \<times> byte \<times> byte) list \<Rightarrow> byte list" where
  "map_cmd ms = [0x21, 0, of_nat (1 + 3 * length ms), of_nat (length ms)] @ concat (map (\<lambda>(proto, mode, itype). [proto, mode, itype]) ms)"

lemma mask_and: "(push_bit n 1 :: u16) AND k \<noteq> 0 \<longleftrightarrow> n < 16 \<and> bit k n"
proof -
  have "bit ((push_bit n 1 :: u16) AND k) i \<longleftrightarrow> i = n \<and> n < 16 \<and> bit k n" for i
    by (auto simp add: bit_and_iff bit_exp_iff possible_bit_word)
  then show ?thesis by (metis bit_eqI bit_0_eq bot_apply bot_bool_def)
qed

lemma supported_iff:
  assumes "nci_interfaces s = iface_mask bs 0" "vs_interface s = take 4 (vendor_ifaces bs @ replicate 4 0)"
    and "length (vendor_ifaces bs) \<le> 4" "x \<in> set nfc_interface_mapping"
  shows "map_supported s x \<longleftrightarrow> snd (snd x) \<in> set bs"
proof -
  have v: "0x80 \<in> set (vs_interface s) \<longleftrightarrow> 0x80 \<in> set bs"
    using assms(2,3) by (auto simp: vendor_ifaces_def)
  have m: "(push_bit n 1 :: u16) AND nci_interfaces s \<noteq> 0 \<longleftrightarrow> of_nat n \<in> set bs" if "n \<in> {1, 2, 3}" for n
  proof -
    have "n < 16" using that by auto
    have "(\<exists>b \<in> set bs. b \<le> NCI_INTERFACE_MAX \<and> unat b = n) \<longleftrightarrow> of_nat n \<in> set bs"
    proof
      assume "\<exists>b \<in> set bs. b \<le> NCI_INTERFACE_MAX \<and> unat b = n"
      then obtain b where "b \<in> set bs" "unat b = n" by blast
      then show "of_nat n \<in> set bs" by auto
    next
      assume "of_nat n \<in> set bs"
      moreover have "(of_nat n :: byte) \<le> NCI_INTERFACE_MAX" "unat (of_nat n :: byte) = n" using that by auto
      ultimately show "\<exists>b \<in> set bs. b \<le> NCI_INTERFACE_MAX \<and> unat b = n" by blast
    qed
    then show ?thesis using \<open>n < 16\<close> unfolding mask_and assms(1) bit_iface_mask by simp
  qed
  show ?thesis using assms(4) v m [of 1] m [of 2] m [of 3]
    by (auto simp: nfc_interface_mapping_def map_supported_def)
qed

section \<open>The response to the initialisation\<close>

lemma init_rsp_fields:
  assumes "length features = 4" "length intfs < 200" "length sizes = 5" "length info = 5"
  shows "\<exists>f. rd_le32 (init_rsp features intfs conns sizes info) 4 = Some f"
    and "rd (init_rsp features intfs conns sizes info) 8 = Some (of_nat (length intfs))"
    and "enable_interfaces (length intfs) (init_rsp features intfs conns sizes info) 9 0 0 (replicate 4 0)
      = Some (iface_mask intfs 0, take 4 (vendor_ifaces intfs @ replicate 4 0))"
    and "rd (init_rsp features intfs conns sizes info) (9 + length intfs) = Some conns"
    and "rd_le16 (init_rsp features intfs conns sizes info) (9 + length intfs + 1) = Some (ucast (sizes ! 0) + push_bit 8 (ucast (sizes ! 1)))"
    and "rd (init_rsp features intfs conns sizes info) (9 + length intfs + 3) = Some (sizes ! 2)"
    and "\<exists>q. rd_le16 (init_rsp features intfs conns sizes info) (9 + length intfs + 4) = Some q"
    and "rd_bytes (init_rsp features intfs conns sizes info) (9 + length intfs + 6) 5 = Some info"
proof -
  let ?A = "[0x40, 1, of_nat (17 + length intfs), 0] @ features @ [of_nat (length intfs)]" and ?C = "conns # sizes @ info"
  have m: "init_rsp features intfs conns sizes info = ?A @ intfs @ ?C" by (simp add: init_rsp_def)
  have l: "length (init_rsp features intfs conns sizes info) = 20 + length intfs" using assms by (simp add: init_rsp_def)
  have A: "length ?A = 9" using assms by simp
  show "\<exists>f. rd_le32 (init_rsp features intfs conns sizes info) 4 = Some f" using l by (simp add: rd_le32_def)
  show "rd (init_rsp features intfs conns sizes info) 8 = Some (of_nat (length intfs))"
    using assms by (simp add: init_rsp_def rd_def nth_append)
  show "enable_interfaces (length intfs) (init_rsp features intfs conns sizes info) 9 0 0 (replicate 4 0)
      = Some (iface_mask intfs 0, take 4 (vendor_ifaces intfs @ replicate 4 0))"
    using enable_interfaces_all [of "[]" intfs ?A ?C 0] A by (simp add: m)
  have c: "rd (init_rsp features intfs conns sizes info) (9 + length intfs + k) = rd ?C k" for k
    unfolding m using A by (simp add: rd_def nth_append)
  show "rd (init_rsp features intfs conns sizes info) (9 + length intfs) = Some conns" using c [of 0] by simp
  show "rd (init_rsp features intfs conns sizes info) (9 + length intfs + 3) = Some (sizes ! 2)"
    unfolding c using assms by (simp add: rd_def nth_append)
  show "rd_le16 (init_rsp features intfs conns sizes info) (9 + length intfs + 1) = Some (ucast (sizes ! 0) + push_bit 8 (ucast (sizes ! 1)))"
  proof -
    have 0: "rd ?C 1 = Some (sizes ! 0)" "rd ?C (1 + 1) = Some (sizes ! 1)" using assms by (simp_all add: rd_def nth_append)
    have "rd (init_rsp features intfs conns sizes info) (9 + length intfs + 1) = Some (sizes ! 0)"
      "rd (init_rsp features intfs conns sizes info) (9 + length intfs + 1 + 1) = Some (sizes ! 1)"
      unfolding add.assoc [of "9 + length intfs"] c by (fact 0)+
    then show ?thesis by (simp only: rd_le16_def bind.bind_lunit)
  qed
  show "\<exists>q. rd_le16 (init_rsp features intfs conns sizes info) (9 + length intfs + 4) = Some q" using l by (simp add: rd_le16_def)
  show "rd_bytes (init_rsp features intfs conns sizes info) (9 + length intfs + 6) 5 = Some info"
  proof -
    have "init_rsp features intfs conns sizes info = (?A @ intfs @ conns # sizes) @ info" by (simp add: m)
    moreover have "length (?A @ intfs @ conns # sizes) = 9 + length intfs + 6" using assms by simp
    ultimately have "drop (9 + length intfs + 6) (init_rsp features intfs conns sizes info) = info" by (metis append_eq_conv_conj)
    then show ?thesis using l assms(4) by (simp add: rd_bytes_def)
  qed
qed

definition enabled_core :: "nfc_cb \<Rightarrow> u32 \<Rightarrow> byte list \<Rightarrow> byte \<Rightarrow> byte list \<Rightarrow> nfc_cb" where
  "enabled_core s f intfs conns sizes = upd_conn 0 (\<lambda>c. c\<lparr>conn_id := NFC_RF_CONN_ID\<rparr>)
     (upd_conn 0 (\<lambda>c. c\<lparr>init_credits := 0, num_buff := 0\<rparr>) (nfc_set_state NFC_STATE_IDLE s
       \<lparr>vs_interface := take 4 (vendor_ifaces intfs @ replicate 4 0), nci_interfaces := iface_mask intfs 0,
         max_ce_table := ucast (sizes ! 0) + push_bit 8 (ucast (sizes ! 1)), nci_features := f,
         max_conn := conns, nci_ctrl_size := sizes ! 2\<rparr>))\<lparr>conn_id_map := (conn_id_map s)(0 := 1)\<rparr>"

lemma discovery_map_now:
  assumes "starting NFC_STATE_IDLE 1 h (s\<lparr>vs_interface := replicate NFC_NFCC_MAX_NUM_VS_INTERFACE 0\<rparr>)"
    and "nci_interfaces s = iface_mask bs 0" "vs_interface s = take 4 (vendor_ifaces bs @ replicate 4 0)" "length (vendor_ifaces bs) \<le> 4"
  shows "NFC_DiscoveryMap E (num_disc_maps s) (p_disc_maps s) False s =
    Some (NFC_STATUS_OK, cmd_sent (map_cmd (offered bs)) (s\<lparr>p_discv_cback := False\<rparr>))"
proof -
  note d = startingD [OF assms(1), simplified]
  let ?s = "s\<lparr>num_disc_maps := 4, p_discv_cback := False\<rparr>"
  have l4: "length nfc_interface_mapping = 4" by (simp add: nfc_interface_mapping_def)
  have s': "?s = s\<lparr>p_discv_cback := False\<rparr>" using d(13) by simp
  have o: "filter (map_supported ?s) nfc_interface_mapping = offered bs"
    unfolding offered_def using supported_iff [of ?s bs] assms(2-4) by (intro filter_cong refl) (auto split: prod.splits)
  have k: "length (offered bs) \<le> 4" using l4 by (metis length_filter_le o)
  let ?n = "length (offered bs)" and ?c = "concat (map (\<lambda>(proto, mode, itype). [proto, mode, itype]) (offered bs))"
  have c: "length ?c = 3 * ?n" by (induction "offered bs") (auto simp: length_concat o_def sum_list_triv split_beta)
  have u: "unat (of_nat ?n :: byte) = ?n" "unat (of_nat (1 + 3 * ?n) :: byte) = 1 + 3 * ?n"
    using k by (simp_all only: unat_of_nat) simp_all
  have "NFC_DiscoveryMap E (num_disc_maps s) (p_disc_maps s) False s = nci_snd_discover_map_cmd E (of_nat ?n) ?c ?s"
    using d(13,14) k l4 by (simp add: NFC_DiscoveryMap_def Let_def o NFC_NFCC_MAX_NUM_VS_INTERFACE_def)
  also have "\<dots> = snd_cmd_via (nfc_ncif_check_cmd_queue E) (4 + 3 * ?n) (map_cmd (offered bs)) ?s"
    using u c by (simp add: nci_snd_discover_map_cmd_def snd_sized_def rd_bytes_def map_cmd_def cmd_bytes_def NCI_MSG_HDR_SIZE_def Let_def)
  also have "\<dots> = Some (NFC_STATUS_OK, cmd_sent (map_cmd (offered bs)) ?s)"
    using d c k by (intro snd_cmd_now) (simp_all add: map_cmd_def saved_cmd_def)
  finally show ?thesis by (simp only: s')
qed

lemma enabled_core_starting:
  assumes "starting NFC_STATE_W4_POST_INIT_CPLT 1 h s"
  shows "starting NFC_STATE_IDLE 1 h (enabled_core s f intfs conns sizes\<lparr>vs_interface := replicate NFC_NFCC_MAX_NUM_VS_INTERFACE 0\<rparr>)"
    and "nci_interfaces (enabled_core s f intfs conns sizes) = iface_mask intfs 0"
    and "vs_interface (enabled_core s f intfs conns sizes) = take 4 (vendor_ifaces intfs @ replicate 4 0)"
    and "max_conn (enabled_core s f intfs conns sizes) = conns"
    and "nfc_find_conn_cb_by_conn_id NFC_RF_CONN_ID (enabled_core s f intfs conns sizes) = Some 0"
  using startingD [OF assms]
  by (simp_all add: starting_def enabled_core_def upd_conn_def nfc_set_state_def nfc_find_conn_cb_by_conn_id_def NFC_MAX_CONN_ID_def)

lemma enabled_now:
  assumes s: "starting NFC_STATE_W4_POST_INIT_CPLT 1 h s"
    and p: "length features = 4" "length intfs < 200" "length sizes = 5" "length info = 5" "length (vendor_ifaces intfs) \<le> 4"
  shows "\<exists>f. nfc_enabled_ok E (init_rsp features intfs conns sizes info) s
    = Some (cmd_sent (map_cmd (offered intfs)) (enabled_core s f intfs conns sizes\<lparr>p_discv_cback := False\<rparr>))"
proof -
  note m = init_rsp_fields [OF p(1-4), of conns]
  obtain f q where f: "rd_le32 (init_rsp features intfs conns sizes info) 4 = Some f"
    and q: "rd_le16 (init_rsp features intfs conns sizes info) (9 + length intfs + 4) = Some q" using m(1,7) by blast
  have n: "unat (of_nat (length intfs) :: byte) = length intfs" using p(2) by (simp only: unat_of_nat) simp
  have v: "vs_interface (nfc_set_state NFC_STATE_IDLE s) = replicate 4 0"
    using startingD(15) [OF s] by (simp add: nfc_set_state_def NFC_NFCC_MAX_NUM_VS_INTERFACE_def)
  let ?u = "enabled_core s f intfs conns sizes"
  have c: "nfc_set_conn_id 0 NFC_RF_CONN_ID (upd_conn 0 (\<lambda>c. c\<lparr>init_credits := 0, num_buff := 0\<rparr>) (nfc_set_state NFC_STATE_IDLE s
       \<lparr>vs_interface := take 4 (vendor_ifaces intfs @ replicate 4 0), nci_interfaces := iface_mask intfs 0,
         max_ce_table := ucast (sizes ! 0) + push_bit 8 (ucast (sizes ! 1)), nci_features := f,
         max_conn := conns, nci_ctrl_size := sizes ! 2\<rparr>)) = Some ?u"
    by (simp add: nfc_set_conn_id_def set_handle_def enabled_core_def upd_conn_def nfc_set_state_def)
  have "NFC_DiscoveryMap E (num_disc_maps ?u) (p_disc_maps ?u) False ?u
      = Some (NFC_STATUS_OK, cmd_sent (map_cmd (offered intfs)) (?u\<lparr>p_discv_cback := False\<rparr>))"
    by (rule discovery_map_now [OF enabled_core_starting(1) [OF s] enabled_core_starting(2,3) [OF s] p(5)])
  then have "nfc_enabled_ok E (init_rsp features intfs conns sizes info) s
      = Some (cmd_sent (map_cmd (offered intfs)) (?u\<lparr>p_discv_cback := False\<rparr>))"
    unfolding nfc_enabled_ok_def Let_def f m(2) bind.bind_lunit n v m(3) prod.case m(4-6) q c m(8) by simp
  then show ?thesis by blast
qed

text \<open>The whole start.\<close>

definition start_up :: "nfc_env \<Rightarrow> byte list \<Rightarrow> byte list \<Rightarrow> nfc_cb \<Rightarrow> nfc_cb option" where
  "start_up E reset init s = do {
     s \<leftarrow> enable_rounds E s;
     s \<leftarrow> packet_round E reset s;
     s \<leftarrow> packet_round E init s;
     nfc_task E (nfc_main_hal_cback HAL_NFC_POST_INIT_CPLT_EVT HAL_NFC_STATUS_OK s) }"

lemma post_init_round:
  assumes s: "starting NFC_STATE_W4_POST_INIT_CPLT 1 h s" "p_nci_init_rsp s = Some (rx_buffer (init_rsp features intfs conns sizes info))"
    and p: "length features = 4" "length intfs < 200" "length sizes = 5" "length info = 5" "length (vendor_ifaces intfs) \<le> 4"
  shows "\<exists>f. nfc_task quiet_nfc (nfc_main_hal_cback HAL_NFC_POST_INIT_CPLT_EVT HAL_NFC_STATUS_OK s)
    = Some (cmd_sent (map_cmd (offered intfs)) (enabled_core s f intfs conns sizes\<lparr>p_discv_cback := False\<rparr>)
        \<lparr>app_log := [Resp_cback (NFC_ENABLE_REVT NFC_STATUS_OK)], p_nci_init_rsp := None\<rparr>)"
proof -
  note d = startingD [OF s(1)]
  let ?s = "nfc_main_hal_cback HAL_NFC_POST_INIT_CPLT_EVT HAL_NFC_STATUS_OK s"
  have b: "s\<lparr>buffers := sconst True\<rparr> = s" "s\<lparr>nfc_mbox := []\<rparr> = s" using d(7,8) by simp_all
  have e: "?s = s\<lparr>nfc_mbox := [Hal_evt HAL_NFC_POST_INIT_CPLT_EVT HAL_NFC_STATUS_OK]\<rparr>"
    using d by (simp add: nfc_main_hal_cback_def nfc_main_post_hal_evt_def take_buffer_def b(1))
  obtain f where f: "nfc_enabled_ok quiet_nfc (init_rsp features intfs conns sizes info) s
      = Some (cmd_sent (map_cmd (offered intfs)) (enabled_core s f intfs conns sizes\<lparr>p_discv_cback := False\<rparr>))"
    using enabled_now [OF s(1) p] by blast
  let ?u = "cmd_sent (map_cmd (offered intfs)) (enabled_core s f intfs conns sizes\<lparr>p_discv_cback := False\<rparr>)"
  have u: "starting NFC_STATE_IDLE 1 h (enabled_core s f intfs conns sizes\<lparr>vs_interface := replicate NFC_NFCC_MAX_NUM_VS_INTERFACE 0\<rparr>)"
    by (rule enabled_core_starting(1) [OF s(1)])
  note du = startingD [OF u, simplified]
  have "nfc_main_notify_enable_status quiet_nfc NFC_STATUS_OK ?u = Some (?u\<lparr>app_log := [Resp_cback (NFC_ENABLE_REVT NFC_STATUS_OK)]\<rparr>)"
    using du by (simp add: nfc_main_notify_enable_status_def has_fl_def quiet_nfc_def)
  then have "nfc_main_handle_hal_evt quiet_nfc HAL_NFC_POST_INIT_CPLT_EVT HAL_NFC_STATUS_OK s
      = Some (?u\<lparr>app_log := [Resp_cback (NFC_ENABLE_REVT NFC_STATUS_OK)], p_nci_init_rsp := None\<rparr>)"
    using d(1) s(2) f by (simp add: nfc_main_handle_hal_evt_def nfc_hal_post_init_def nfc_enabled_def rx_buffer_def)
  then have "nfc_task quiet_nfc ?s = Some (?u\<lparr>app_log := [Resp_cback (NFC_ENABLE_REVT NFC_STATUS_OK)], p_nci_init_rsp := None\<rparr>)"
    using du d by (intro task_one [where m = "Hal_evt HAL_NFC_POST_INIT_CPLT_EVT HAL_NFC_STATUS_OK"]) (simp_all add: e b(2))
  then show ?thesis by blast
qed

lemma start_up_runs:
  assumes s: "\<not> i2c_fragmentation s" "buffers s = sconst True" "nfc_mbox s = []" "app_log s = []"
    and v: "v = NCI_VERSION \<or> NCI_VERSION_0_F \<le> v"
    and p: "length features = 4" "length intfs < 200" "length sizes = 5" "length info = 5" "info ! 2 \<noteq> 0" "info ! 3 \<noteq> 0"
      "length (vendor_ifaces intfs) \<le> 4"
  shows "\<exists>t. start_up quiet_nfc [0x40, 0, 3, 0, v, cfg] (init_rsp features intfs conns sizes info) s = Some t
    \<and> nfc_state t = NFC_STATE_IDLE \<and> app_log t = [Resp_cback (NFC_ENABLE_REVT NFC_STATUS_OK)]
    \<and> hal_out t = hal_out s @ [Hal_open, Hal_write [0x20, 0, 1, 1], Hal_write [0x20, 1, 0],
        Hal_core_initialized (init_rsp features intfs conns sizes info), Hal_write (map_cmd (offered intfs))]
    \<and> max_conn t = conns \<and> nfc_find_conn_cb_by_conn_id NFC_RF_CONN_ID t = Some 0"
proof -
  obtain s1 where s1: "enable_rounds quiet_nfc s = Some s1" "last_hdr s1 = [0x20, 0]"
      "starting NFC_STATE_CORE_INIT 0 (hal_out s @ [Hal_open, Hal_write [0x20, 0, 1, 1]]) s1"
    using enable_round [OF s, of quiet_nfc] by (auto simp: quiet_nfc_def)
  obtain s2 where s2: "packet_round quiet_nfc [0x40, 0, 3, 0, v, cfg] s1 = Some s2" "last_hdr s2 = [0x20, 1]"
      "starting NFC_STATE_CORE_INIT 0 ((hal_out s @ [Hal_open, Hal_write [0x20, 0, 1, 1]]) @ [Hal_write [0x20, 1, 0]]) s2"
    using reset_round [OF s1(3,2) v] by blast
  let ?i = "init_rsp features intfs conns sizes info"
  obtain s3 where s3: "packet_round quiet_nfc ?i s2 = Some s3" "p_nci_init_rsp s3 = Some (rx_buffer ?i)"
      "starting NFC_STATE_W4_POST_INIT_CPLT 1 (((hal_out s @ [Hal_open, Hal_write [0x20, 0, 1, 1]]) @ [Hal_write [0x20, 1, 0]]) @ [Hal_core_initialized ?i]) s3"
    using init_round [OF s2(3,2) p(1-6)] by blast
  obtain f where f: "nfc_task quiet_nfc (nfc_main_hal_cback HAL_NFC_POST_INIT_CPLT_EVT HAL_NFC_STATUS_OK s3)
      = Some (cmd_sent (map_cmd (offered intfs)) (enabled_core s3 f intfs conns sizes\<lparr>p_discv_cback := False\<rparr>)
        \<lparr>app_log := [Resp_cback (NFC_ENABLE_REVT NFC_STATUS_OK)], p_nci_init_rsp := None\<rparr>)"
    using post_init_round [OF s3(3,2) p(1-4,7)] by blast
  note e = enabled_core_starting [OF s3(3), of f intfs conns sizes]
  note d = startingD [OF e(1), simplified]
  have "nfc_find_conn_cb_by_conn_id NFC_RF_CONN_ID (cmd_sent (map_cmd (offered intfs)) (enabled_core s3 f intfs conns sizes\<lparr>p_discv_cback := False\<rparr>)
        \<lparr>app_log := [Resp_cback (NFC_ENABLE_REVT NFC_STATUS_OK)], p_nci_init_rsp := None\<rparr>) = Some 0"
    unfolding e(5) [symmetric] by (simp add: nfc_find_conn_cb_by_conn_id_def)
  then show ?thesis using s1(1) s2(1) s3(1) f d e(4) by (simp add: start_up_def)
qed

text \<open>
  A start that fails before the core has its RF connection releases that connection all the same: its handle is
  \<open>NFC_ILLEGAL_CONN_ID\<close>, behind the table of handles.
\<close>

lemma failed_start_undefined:
  assumes "\<not> has_fl NFC_FL_RESTARTING s" "conn_id (conn_cb s 0) = NFC_ILLEGAL_CONN_ID" "status \<noteq> NFC_STATUS_OK"
  shows "nfc_enabled E status p s = None"
  using assms by (simp add: nfc_enabled_def nfc_free_conn_cb_def set_handle_def NFC_MAX_CONN_ID_def)

end
