(* ===== verification/Nci_Activation.thy ===== *)
theory Nci_Activation
  imports Nci_Recv
begin

text \<open>
  What the decoders of \<open>Nci_Params\<close> give for notifications as the NCI specification lays them out: the activation of
  NFC-DEP with its general bytes, and the answer to select of an ISO-DEP tag.
\<close>

section \<open>Parts of a union\<close>

definition slice :: "nat \<Rightarrow> nat \<Rightarrow> byte list \<Rightarrow> byte list" where
  "slice off n u = take n (drop off u)"

lemma slice_set_at: "off + length bs \<le> length u \<Longrightarrow> slice off (length bs) (set_at off bs u) = bs"
  by (simp add: slice_def set_at_def)

lemma nth_set_at:
  "off + length bs \<le> length u \<Longrightarrow> i < length u \<Longrightarrow>
     set_at off bs u ! i = (if off \<le> i \<and> i < off + length bs then bs ! (i - off) else u ! i)"
  by (simp add: set_at_def nth_append) (auto simp: add.commute)

lemma nth_slice: "i < n \<Longrightarrow> off + n \<le> length u \<Longrightarrow> slice off n u ! i = u ! (off + i)"
  by (simp add: slice_def)

lemma length_slice [simp]: "off + n \<le> length u \<Longrightarrow> length (slice off n u) = n"
  by (simp add: slice_def)

lemma slice_set_at_other:
  assumes "off + length bs \<le> length u" "o' + n \<le> length u" "o' + n \<le> off \<or> off + length bs \<le> o'"
  shows "slice o' n (set_at off bs u) = slice o' n u"
  using assms by (intro nth_equalityI) (auto simp: nth_slice nth_set_at)

lemma slice_set_at_nth: "off + length bs \<le> length u \<Longrightarrow> i < off \<or> off + length bs \<le> i \<Longrightarrow> i < length u \<Longrightarrow> set_at off bs u ! i = u ! i"
  by (auto simp: nth_set_at)

section \<open>NFC-DEP\<close>

text \<open>
  The technology parameters of the four technologies with which NFC-DEP is activated, and the
  notification. \<open>polls\<close> tells whether the device is the initiator; \<open>dep_header\<close> is the number of bytes before the general
  bytes in the attribute response or request.
\<close>

definition tech_ok :: "byte \<Rightarrow> byte list \<Rightarrow> bool" where
  "tech_ok mode tech \<longleftrightarrow> length tech < 256 \<and>
     ((mode = NCI_DISCOVERY_TYPE_POLL_A \<or> mode = NCI_DISCOVERY_TYPE_POLL_A_ACTIVE)
        \<and> (\<exists>s1 s2 nid sel. length nid \<le> 10 \<and> tech = [s1, s2, of_nat (length nid)] @ nid @ [1, sel])
      \<or> (mode = NCI_DISCOVERY_TYPE_POLL_F \<or> mode = NCI_DISCOVERY_TYPE_POLL_F_ACTIVE)
        \<and> (\<exists>br sensf. length sensf \<le> 18 \<and> tech = [br, of_nat (length sensf)] @ sensf)
      \<or> (mode = NCI_DISCOVERY_TYPE_LISTEN_F \<or> mode = NCI_DISCOVERY_TYPE_LISTEN_F_ACTIVE)
        \<and> (tech = [0] \<or> (\<exists>nid. length nid = 8 \<and> tech = 8 # nid))
      \<or> (mode = NCI_DISCOVERY_TYPE_LISTEN_A \<or> mode = NCI_DISCOVERY_TYPE_LISTEN_A_ACTIVE))"

definition polling :: "byte \<Rightarrow> bool" where
  "polling mode \<longleftrightarrow> mode = NCI_DISCOVERY_TYPE_POLL_A \<or> mode = NCI_DISCOVERY_TYPE_POLL_F
     \<or> mode = NCI_DISCOVERY_TYPE_POLL_A_ACTIVE \<or> mode = NCI_DISCOVERY_TYPE_POLL_F_ACTIVE"

definition dep_header :: "byte \<Rightarrow> nat" where
  "dep_header mode = (if polling mode then 15 else 14)"

definition dep_activated :: "byte \<Rightarrow> byte \<Rightarrow> byte \<Rightarrow> byte \<Rightarrow> byte list \<Rightarrow> byte list \<Rightarrow> byte list \<Rightarrow> byte list" where
  "dep_activated disc mode bsz num tech rates atr =
     [disc, NCI_INTERFACE_NFC_DEP, NCI_PROTOCOL_NFC_DEP, mode, bsz, num, of_nat (length tech)] @ tech @ rates
       @ [of_nat (1 + length atr), of_nat (length atr)] @ atr"

lemma rd_at: "length A = p \<Longrightarrow> rd (A @ C) (p + k) = rd C k" "length A = p \<Longrightarrow> rd (A @ C) p = rd C 0"
  by (auto simp: rd_def nth_append)

lemma rd_bytes_at: "length A = p \<Longrightarrow> rd_bytes (A @ C) (p + k) n = rd_bytes C k n" "length A = p \<Longrightarrow> rd_bytes (A @ C) p n = rd_bytes C 0 n"
  by (auto simp: rd_bytes_def)

lemma unat_of_nat_byte: "n < 256 \<Longrightarrow> unat (of_nat n :: byte) = n"
  by (simp only: unat_of_nat) simp

lemma min_byte: "n \<le> c \<Longrightarrow> c < 256 \<Longrightarrow> min (of_nat n :: byte) (of_nat c) = of_nat n"
  by (simp add: min_def word_le_nat_alt unat_of_nat_byte)

lemma tech_decodes:
  assumes "tech_ok mode tech" "kovio = 0x77"
  shows "\<exists>u. nfc_ncif_decode_rf_params kovio mode (A @ of_nat (length tech) # tech @ C) (length A) = Some (u, length A + 1 + length tech)"
proof -
  let ?m = "A @ of_nat (length tech) # tech @ C"
  have n: "unat (of_nat (length tech) :: byte) = length tech" using assms(1) by (simp add: tech_ok_def unat_of_nat_byte)
  from assms(1) consider
      (a) s1 s2 nid sel where "mode = NCI_DISCOVERY_TYPE_POLL_A \<or> mode = NCI_DISCOVERY_TYPE_POLL_A_ACTIVE" "length nid \<le> 10"
        "tech = [s1, s2, of_nat (length nid)] @ nid @ [1, sel]"
    | (f) br sensf where "mode = NCI_DISCOVERY_TYPE_POLL_F \<or> mode = NCI_DISCOVERY_TYPE_POLL_F_ACTIVE" "length sensf \<le> 18"
        "tech = [br, of_nat (length sensf)] @ sensf"
    | (lf) "mode = NCI_DISCOVERY_TYPE_LISTEN_F \<or> mode = NCI_DISCOVERY_TYPE_LISTEN_F_ACTIVE"
        "tech = [0] \<or> (\<exists>nid. length nid = 8 \<and> tech = 8 # nid)"
    | (la) "mode = NCI_DISCOVERY_TYPE_LISTEN_A \<or> mode = NCI_DISCOVERY_TYPE_LISTEN_A_ACTIVE"
    unfolding tech_ok_def by blast
  then show ?thesis
  proof cases
    case a
    then have u: "unat (of_nat (length nid) :: byte) = length nid" "min (of_nat (length nid)) 10 = (of_nat (length nid) :: byte)"
      using min_byte [of "length nid" 10] by (simp_all add: unat_of_nat_byte)
    have v: "rd ?m (length A) = Some (of_nat (length tech))" "rd_bytes ?m (length A + 1) 2 = Some [s1, s2]"
      "rd ?m (length A + 1 + 2) = Some (of_nat (length nid))" "rd_bytes ?m (length A + 1 + 3) (length nid) = Some nid"
      "rd ?m (length A + 1 + 3 + length nid) = Some 1" "rd ?m (length A + 1 + 3 + length nid + 1) = Some sel"
      unfolding a(3) by (simp_all add: rd_def rd_bytes_def nth_append)
    have l: "length tech = 5 + length nid" using a(3) by simp
    have "decode_poll_a ?m (length A + 1) (of_nat (length tech)) = Some (set_at 13 [sel] (set_at 3 nid (set_at 2 [of_nat (length nid)] (set_at 0 [s1, s2] no_tech_param))))"
      unfolding decode_poll_a_def v(2,3) bind.bind_lunit Let_def u(2) u(1) v(4) v(5) v(6) n by (simp add: l)
    then show ?thesis using a(1) unfolding nfc_ncif_decode_rf_params_def v(1) bind.bind_lunit Let_def n by auto
  next
    case f
    then have u: "unat (of_nat (length sensf) :: byte) = length sensf" "min (of_nat (length sensf)) 18 = (of_nat (length sensf) :: byte)"
      using min_byte [of "length sensf" 18] by (simp_all add: unat_of_nat_byte)
    have v: "rd ?m (length A) = Some (of_nat (length tech))" "rd ?m (length A + 1) = Some br"
      "rd ?m (length A + 1 + 1) = Some (of_nat (length sensf))" "rd_bytes ?m (length A + 1 + 2) (length sensf) = Some sensf"
      unfolding f(3) by (simp_all add: rd_def rd_bytes_def nth_append)
    have "\<exists>w. decode_poll_f ?m (length A + 1) = Some w"
      unfolding decode_poll_f_def v(2,3) bind.bind_lunit Let_def u(2) u(1) v(4) by simp
    then show ?thesis using f(1) unfolding nfc_ncif_decode_rf_params_def v(1) bind.bind_lunit Let_def n by auto
  next
    case lf
    have v: "rd ?m (length A) = Some (of_nat (length tech))" by (simp add: rd_def nth_append)
    have "\<exists>w. rd ?m (length A + 1) = Some w \<and> (w = 0 \<or> (\<exists>x. rd_bytes ?m (length A + 1 + 1) 8 = Some x))"
      using lf(2) by (auto simp: rd_def rd_bytes_def nth_append)
    then show ?thesis using lf(1) unfolding nfc_ncif_decode_rf_params_def v bind.bind_lunit Let_def n by auto
  next
    case la
    have v: "rd ?m (length A) = Some (of_nat (length tech))" by (simp add: rd_def nth_append)
    then show ?thesis using la assms(2) unfolding nfc_ncif_decode_rf_params_def v bind.bind_lunit Let_def n by auto
  qed
qed

text \<open>The interface parameters of NFC-DEP.\<close>

lemma nfc_dep_decodes:
  assumes u: "length u = 115" and atr: "dep_header mode < length atr" "length atr \<le> 60" and mode: "tech_ok mode tech"
  shows "\<exists>v. decode_nfc_dep mode (B @ of_nat (length atr) # atr @ C) (length B) u = Some v
    \<and> slice 1 (length atr) v = atr \<and> v ! 62 = of_nat (length atr - dep_header mode)
    \<and> slice 63 (length atr - dep_header mode) v = drop (dep_header mode) atr
    \<and> v ! 61 = nfc_mpl_code_to_size ! unat (drop_bit 4 (atr ! (dep_header mode - 1)) AND 0x03)"
proof -
  let ?m = "B @ of_nat (length atr) # atr @ C" and ?n = "of_nat (length atr) :: byte" and ?h = "dep_header mode"
  have n: "unat ?n = length atr" "min ?n 60 = ?n" "?n \<noteq> 0" using atr min_byte [of "length atr" 60]
    by (auto simp: unat_of_nat_byte dep_header_def simp flip: unat_eq_0 split: if_splits)
  have v: "rd ?m (length B) = Some ?n" "rd_bytes ?m (length B + 1) (length atr) = Some atr"
    by (simp_all add: rd_def rd_bytes_def nth_append)
  define w where "w = (if polling mode then set_at 111 [set_at 1 atr (set_at 0 [?n] (set_at 0 [?n] u)) ! 14 AND 0x0F]
      (set_at 1 atr (set_at 0 [?n] (set_at 0 [?n] u))) else set_at 1 atr (set_at 0 [?n] (set_at 0 [?n] u)))"
  have w: "length w = 115" "slice 1 (length atr) w = atr"
    using u atr slice_set_at [of 1 atr "set_at 0 [?n] (set_at 0 [?n] u)"] by (simp_all add: w_def slice_set_at_other)
  have h: "13 \<le> ?h - 1" "?h - 1 < ?h" "?h \<le> 15" by (simp_all add: dep_header_def)
  then have "w ! (1 + (?h - 1)) = slice 1 (length atr) w ! (?h - 1)" using w(1) atr by (subst nth_slice) auto
  then have m: "w ! (1 + (?h - 1)) = atr ! (?h - 1)" using w(2) by simp
  let ?c = "nfc_mpl_code_to_size ! unat (drop_bit 4 (atr ! (?h - 1)) AND 0x03)"
  let ?g = "?n - of_nat ?h"
  have g: "unat ?g = length atr - ?h" "min ?g 48 = ?g" "?g = of_nat (length atr - ?h)"
  proof -
    have "?h \<le> length atr" using atr by simp
    then show 3: "?g = of_nat (length atr - ?h)" by (simp add: of_nat_diff)
    show "unat ?g = length atr - ?h" unfolding 3 using atr by (intro unat_of_nat_byte) simp
    show "min ?g 48 = ?g" unfolding 3 using atr h min_byte [of "length atr - ?h" 48] by simp
  qed
  let ?x = "set_at 61 [?c] w"
  let ?v = "set_at 63 (take (length atr - ?h) (drop (1 + ?h) ?x)) (set_at 62 [?g] ?x)"
  have x: "length ?x = 115" "slice 1 (length atr) ?x = atr" using w atr by (simp_all add: slice_set_at_other)
  have e: "take (length atr - ?h) (drop (1 + ?h) ?x) = drop ?h atr"
  proof -
    have "drop ?h atr = drop ?h (slice 1 (length atr) ?x)" using x(2) by simp
    then show ?thesis by (simp add: slice_def drop_take)
  qed
  have k: "(if polling mode then 14 else if mode = NCI_DISCOVERY_TYPE_LISTEN_A \<or> mode = NCI_DISCOVERY_TYPE_LISTEN_F
        \<or> mode = NCI_DISCOVERY_TYPE_LISTEN_A_ACTIVE \<or> mode = NCI_DISCOVERY_TYPE_LISTEN_F_ACTIVE then 13 else 0) = ?h - 1"
    "(if polling mode then 15 else if mode = NCI_DISCOVERY_TYPE_LISTEN_A \<or> mode = NCI_DISCOVERY_TYPE_LISTEN_F
        \<or> mode = NCI_DISCOVERY_TYPE_LISTEN_A_ACTIVE \<or> mode = NCI_DISCOVERY_TYPE_LISTEN_F_ACTIVE then 14 else 0) = ?h"
    using mode by (auto simp: tech_ok_def polling_def dep_header_def)
  have "decode_nfc_dep mode ?m (length B) u = Some ?v"
    unfolding decode_nfc_dep_def v(1) bind.bind_lunit Let_def n(1,2) v(2) polling_def [symmetric] k w_def [symmetric] m g(1,2)
    using n(3) atr by simp
  moreover have "slice 1 (length atr) ?v = atr" "?v ! 62 = ?g" "slice 63 (length atr - ?h) ?v = drop ?h atr" "?v ! 61 = ?c"
    using x w atr h unfolding e by (simp_all add: slice_set_at_other nth_set_at slice_set_at [of 63 "drop ?h atr", simplified])
  ultimately show ?thesis using g(3) by auto
qed

lemma activation_decodes:
  assumes t: "tech_ok mode tech" "kovio = 0x77" and r: "length rates = 3"
    and atr: "dep_header mode < length atr" "length atr \<le> 60" and h: "length hdr = 3"
  shows "\<exists>a. decode_activation kovio (hdr @ dep_activated disc mode bsz num tech rates atr) 3 = Some (a, min bsz 251, num)
    \<and> act_disc_id a = disc \<and> ntf_protocol a = NCI_PROTOCOL_NFC_DEP \<and> rf_mode a = mode \<and> intf_type a = NCI_INTERFACE_NFC_DEP
    \<and> [data_mode a, tx_bitrate a, rx_bitrate a] = rates
    \<and> slice 1 (length atr) (intf_param a) = atr \<and> intf_param a ! 62 = of_nat (length atr - dep_header mode)
    \<and> slice 63 (length atr - dep_header mode) (intf_param a) = drop (dep_header mode) atr
    \<and> intf_param a ! 61 = nfc_mpl_code_to_size ! unat (drop_bit 4 (atr ! (dep_header mode - 1)) AND 0x03)"
proof -
  let ?m = "hdr @ dep_activated disc mode bsz num tech rates atr"
  obtain r1 r2 r3 where r: "rates = [r1, r2, r3]" using r by (auto simp: length_Suc_conv numeral_3_eq_3)
  let ?A = "hdr @ [disc, NCI_INTERFACE_NFC_DEP, NCI_PROTOCOL_NFC_DEP, mode, bsz, num]"
  let ?C = "rates @ [of_nat (1 + length atr), of_nat (length atr)] @ atr"
  let ?B = "?A @ of_nat (length tech) # tech @ rates @ [of_nat (1 + length atr)]"
  have A: "length ?A = 9" using h by simp
  have m1: "?m = ?A @ of_nat (length tech) # tech @ ?C" by (simp add: dep_activated_def)
  have m2: "?m = ?B @ of_nat (length atr) # atr @ []" by (simp add: dep_activated_def)
  have B: "length ?B = 10 + length tech + 4" using A r by simp
  have f: "rd ?m 3 = Some disc" "rd ?m (3 + 1) = Some NCI_INTERFACE_NFC_DEP" "rd ?m (3 + 2) = Some NCI_PROTOCOL_NFC_DEP"
    "rd ?m (3 + 3) = Some mode" "rd ?m (3 + 4) = Some bsz" "rd ?m (3 + 5) = Some num"
    using h by (simp_all add: dep_activated_def rd_def nth_append)
  obtain u where u: "nfc_ncif_decode_rf_params kovio mode ?m 9 = Some (u, 10 + length tech)"
    using tech_decodes [OF t, of ?A ?C] unfolding m1 A by auto
  let ?p = "10 + length tech"
  have g: "rd ?m ?p = Some r1" "rd ?m (?p + 1) = Some r2" "rd ?m (?p + 2) = Some r3" "rd ?m (?p + 3) = Some (of_nat (1 + length atr))"
    using h by (simp_all add: dep_activated_def rd_def nth_append r)
  let ?k = "min (of_nat (1 + length atr)) 16 :: byte"
  have k: "unat ?k \<le> 1 + length atr" "unat ?k \<le> 16"
  proof -
    have "unat ?k = min (1 + length atr) 16" using atr unat_of_nat_byte [of "1 + length atr"] by (auto simp: min_def word_le_nat_alt)
    then show "unat ?k \<le> 1 + length atr" "unat ?k \<le> 16" by simp_all
  qed
  have l: "length ?m = ?p + 5 + length atr" using h r by (simp add: dep_activated_def)
  obtain w where raw: "rd_bytes ?m (?p + 4) (unat ?k) = Some w" "length w \<le> 16"
    using k l by (simp add: rd_bytes_def)
  let ?u = "set_at 1 w (set_at 0 [?k] no_intf_param)"
  have "length ?u = 115" using raw(2) by (simp add: no_intf_param_def)
  from nfc_dep_decodes [OF this atr t(1), of ?B "[]"] obtain v where v: "decode_nfc_dep mode ?m (?p + 4) ?u = Some v"
    "slice 1 (length atr) v = atr" "v ! 62 = of_nat (length atr - dep_header mode)"
    "slice 63 (length atr - dep_header mode) v = drop (dep_header mode) atr"
    "v ! 61 = nfc_mpl_code_to_size ! unat (drop_bit 4 (atr ! (dep_header mode - 1)) AND 0x03)"
    unfolding m2 [symmetric] B by blast
  have p: "3 + 6 = (9 :: nat)" by simp
  have "decode_activation kovio ?m 3 = Some (\<lparr>act_disc_id = disc, ntf_protocol = NCI_PROTOCOL_NFC_DEP, rf_mode = mode, tech_param = u,
      data_mode = r1, tx_bitrate = r2, rx_bitrate = r3, intf_type = NCI_INTERFACE_NFC_DEP, intf_param = v\<rparr>, min bsz 251, num)"
    unfolding decode_activation_def f bind.bind_lunit Let_def p u g raw(1) prod.case
    using v(1) by simp
  then show ?thesis using v(2-) r by (intro exI) (rule conjI, assumption, simp)
qed

text \<open>The notification as the core handles it.\<close>

lemma activate_reports:
  assumes "decode_activation (kovio_poll quiet_nfc) m 3 = Some (a, bsz, num)" "p_discv_cback s"
  shows "\<exists>t. nfc_ncif_proc_activate quiet_nfc m 3 s = Some t \<and> nfc_state t = NFC_STATE_OPEN
    \<and> app_log t = app_log s @ [Discv_cback (NFC_ACTIVATE_DEVT a)]
    \<and> buff_size (conn_cb t 0) = bsz \<and> num_buff (conn_cb t 0) = num \<and> init_credits (conn_cb t 0) = num"
  using assms by (simp add: nfc_ncif_proc_activate_def discv_cback_def quiet_nfc_def nfc_set_state_def upd_conn_def Let_def)

section \<open>ISO-DEP\<close>

text \<open>
  The answer to select. T0 tells which interface bytes follow; the historical bytes are the rest.
\<close>

definition ats_header :: "byte \<Rightarrow> nat" where
  "ats_header t0 = 1 + (if t0 AND 0x10 \<noteq> 0 then 1 else 0) + (if t0 AND 0x20 \<noteq> 0 then 1 else 0) + (if t0 AND 0x40 \<noteq> 0 then 1 else 0)"


lemma ats_decodes:
  assumes u: "length u = 115" and ats: "0 < length ats" "length ats \<le> 60"
  defines "h \<equiv> ats_header (ats ! 0)"
  shows "decode_ats (B @ of_nat (length ats) # ats @ C) (length B) u = None \<longleftrightarrow> \<not> (h \<le> length ats \<and> length ats - h \<le> 50)"
    and "h \<le> length ats \<Longrightarrow> length ats - h \<le> 50 \<Longrightarrow>
      \<exists>v. decode_ats (B @ of_nat (length ats) # ats @ C) (length B) u = Some v \<and> slice 1 (length ats) v = ats
        \<and> v ! 64 = of_nat (length ats - h) \<and> slice 65 (length ats - h) v = drop h ats"
proof -
  let ?m = "B @ of_nat (length ats) # ats @ C" and ?n = "of_nat (length ats) :: byte"
  have n: "unat ?n = length ats" "min ?n 60 = ?n" "?n \<noteq> 0" using ats min_byte [of "length ats" 60]
    by (auto simp: unat_of_nat_byte simp flip: unat_eq_0)
  have v: "rd ?m (length B) = Some ?n" "rd_bytes ?m (length B + 1) (length ats) = Some ats"
    by (simp_all add: rd_def rd_bytes_def nth_append)
  define w where "w = set_at 1 ats (set_at 0 [?n] (set_at 0 [?n] u))"
  have w: "length w = 115" "slice 1 (length ats) w = ats"
    using u ats slice_set_at [of 1 ats "set_at 0 [?n] (set_at 0 [?n] u)"] by (simp_all add: w_def)
  have t0: "w ! 1 = ats ! 0" using w ats nth_slice [of 0 "length ats" 1 w] by simp
  let ?k1 = "if ats ! 0 AND 0x10 \<noteq> 0 then 1 + 1 else 1 :: nat"
  define x where "x = (if ats ! 0 AND 0x20 \<noteq> 0
      then set_at 62 [drop_bit 4 (w ! (1 + ?k1)) AND 0x0F, w ! (1 + ?k1) AND 0x0F] w else w)"
  let ?k2 = "if ats ! 0 AND 0x20 \<noteq> 0 then ?k1 + 1 else ?k1"
  define y where "y = (if ats ! 0 AND 0x40 \<noteq> 0 then set_at 61 [x ! (1 + ?k2) AND 0x01] x else x)"
  let ?k3 = "if ats ! 0 AND 0x40 \<noteq> 0 then ?k2 + 1 else ?k2"
  have k3: "?k3 = h" by (simp add: h_def ats_header_def)
  have y: "length y = 115" "slice 1 (length ats) y = ats" using w ats by (simp_all add: y_def x_def slice_set_at_other)
  let ?l = "?n - of_nat h"
  let ?his = "take (unat ?l) (drop (1 + h) y @ replicate 255 0)"
  have p1: "(if ats ! 0 AND 0x20 \<noteq> 0 then (set_at 62 [drop_bit 4 (w ! (1 + ?k1)) AND 0x0F, w ! (1 + ?k1) AND 0x0F] w, ?k1 + 1) else (w, ?k1)) = (x, ?k2)"
    by (simp add: x_def)
  have p2: "(if ats ! 0 AND 0x40 \<noteq> 0 then (set_at 61 [x ! (1 + ?k2) AND 0x01] x, ?k2 + 1) else (x, ?k2)) = (y, ?k3)"
    by (simp add: y_def)
  have d: "decode_ats ?m (length B) u = do { his \<leftarrow> fits 50 ?his; Some (set_at 65 his (set_at 64 [?l] y)) }"
    unfolding decode_ats_def v(1) bind.bind_lunit Let_def n(1,2) v(2) w_def [symmetric] t0 p1 prod.case p2 k3 using n(3) by simp
  have h4: "1 \<le> h" "h \<le> 4" by (simp_all add: h_def ats_header_def)
  have len: "length ?his = unat ?l" using y(1) h4 unat_byte_less [of ?l] by simp
  have small: "unat ?l = length ats - h" "?l = of_nat (length ats - h)" if "h \<le> length ats"
  proof -
    show 2: "?l = of_nat (length ats - h)" using that by (simp add: of_nat_diff)
    show "unat ?l = length ats - h" unfolding 2 using ats by (intro unat_of_nat_byte) simp
  qed
  have big: "50 < unat ?l" if "\<not> h \<le> length ats"
  proof -
    have "h = 1 \<or> h = 2 \<or> h = 3 \<or> h = 4" using h4 by linarith
    moreover have "length ats = 1 \<or> length ats = 2 \<or> length ats = 3" using h4 ats(1) that by linarith
    moreover have "50 < unat (- 1 :: byte)"
    proof -
      have "(- 1 :: byte) = 255" by simp
      then show ?thesis by (rule ssubst [where P = "\<lambda>x :: byte. 50 < unat x"]) simp
    qed
    ultimately show ?thesis using that by auto
  qed
  show "decode_ats ?m (length B) u = None \<longleftrightarrow> \<not> (h \<le> length ats \<and> length ats - h \<le> 50)"
  proof -
    have "decode_ats ?m (length B) u = None \<longleftrightarrow> 50 < unat ?l" unfolding d fits_def len by simp
    moreover have "50 < unat ?l \<longleftrightarrow> \<not> (h \<le> length ats \<and> length ats - h \<le> 50)"
    proof (cases "h \<le> length ats")
      case True
      show ?thesis unfolding small(1) [OF True] using True by linarith
    next
      case False
      then show ?thesis using big by blast
    qed
    ultimately show ?thesis by blast
  qed
  show "\<exists>v. decode_ats ?m (length B) u = Some v \<and> slice 1 (length ats) v = ats
        \<and> v ! 64 = of_nat (length ats - h) \<and> slice 65 (length ats - h) v = drop h ats"
    if a: "h \<le> length ats" "length ats - h \<le> 50"
  proof -
    have "?his = take (length ats - h) (drop (1 + h) y)"
      unfolding small(1) [OF a(1)] using y(1) a h4 by (simp only: take_append length_drop) simp
    also have "\<dots> = drop h (slice 1 (length ats) y)" by (simp add: slice_def drop_take)
    finally have e: "?his = drop h ats" by (simp only: y(2))
    have l: "length (drop h ats) = length ats - h" by simp
    let ?v = "set_at 65 (drop h ats) (set_at 64 [?l] y)"
    have "decode_ats ?m (length B) u = Some ?v"
      unfolding d e fits_def l using a(2) by simp
    moreover have "slice 1 (length ats) ?v = ats" using y ats a by (simp add: slice_set_at_other)
    moreover have "?v ! 64 = of_nat (length ats - h)" unfolding small(2) [OF a(1)] using y a by (simp add: nth_set_at)
    moreover have "slice 65 (length ats - h) ?v = drop h ats"
      using slice_set_at [of 65 "drop h ats" "set_at 64 [?l] y"] y a unfolding l by simp
    ultimately show ?thesis by blast
  qed
qed

end
