(* ===== verification/Nci_Control.thy ===== *)
theory Nci_Control
  imports Nci_Properties Nci_Commands Nci_Startup Nci_Activation
begin

text \<open>
  The properties of the control path of the NFC core: the commands and their responses (\<open>Nci_Window\<close>,
  \<open>Nci_Commands\<close>), the start (\<open>Nci_Startup\<close>), and the parameters of an activation
  (\<open>Nci_Params\<close>).
\<close>

section \<open>Commands\<close>

text \<open>
  C33. Commands are not lost and not reordered, and each response lets at most one more out. For every client whose
  callbacks only use the core's interface, any order of commands, data, timeouts and messages of the NFCC of any content
  at any time: the commands that were accepted remain accepted in their order; those that were handed to the HAL are the
  first of them, at most one more than there were responses; a command waits only while the window is closed. If no
  response came while no command was without its response (\<open>unasked\<close>), then never two commands are without a response,
  and as long as a command waits, one that was handed over is without its response.
  This is for a core in which the HAL has not asked for the control (\<open>NFC_FL_HAL_REQUESTED\<close>), without the fragmentation
  on I2C and its timer, without the HAL's own discovery (\<open>prediscover\<close>), and for commands that are not those of
  \<open>NFC_SendNxpNciCommand\<close>.
\<close>

theorem command_flow:
  assumes "cmd_client E" "cmd_link_inv c0" "(cmd_step E)\<^sup>*\<^sup>* c0 c"
  shows "(\<exists>ns. accepted (cmd_core c) = accepted (cmd_core c0) @ ns)
    \<and> (\<exists>ms. cmds (cmd_core c) = cmds (cmd_core c0) @ ms)
    \<and> length (cmds (cmd_core c)) \<le> answers c + 1
    \<and> (nci_cmd_xmit_q (cmd_core c) \<noteq> [] \<longrightarrow> nci_cmd_window (cmd_core c) = 0)
    \<and> (unasked c = 0 \<longrightarrow>
         nci_cmd_xmit_q (cmd_core c) = [] \<and> length (cmds (cmd_core c)) = answers c
         \<or> length (cmds (cmd_core c)) = answers c + 1)"
proof -
  have "extends (cmd_core c0) (cmd_core c) \<and> cmd_link_inv c" by (rule cmd_client.cmd_steps_inv [OF assms(1,3,2)])
  then have v: "extends (cmd_core c0) (cmd_core c)" "cmd_link_inv c" by auto
  then have "cmd_inv (cmd_core c)" by (simp add: cmd_link_inv_def)
  then show ?thesis using v cmd_client.cmd_link_inv_cases [OF assms(1) v(2)] by (auto simp: extends_def cmd_inv_def)
qed

definition link_core3 :: cmd_link where
  "link_core3 = \<lparr>cmd_core = core3, answers = 0, unasked = 0\<rparr>"

theorem command_flow_witness:
  "\<exists>c. (cmd_step busy_nfc)\<^sup>*\<^sup>* link_core3 c \<and> (\<exists>ns. accepted (cmd_core c) = [[0x20, 0, 1, 1], [0x20, 1, 0]] @ ns)
    \<and> length (cmds (cmd_core c)) = 1"
proof -
  let ?b = "\<lambda>bs. (\<lparr>bsize = 660, offset = 1, layer_specific = 0, body = bs\<rparr>, None)"
  have i: "cmd_link_inv link_core3"
    by (simp add: cmd_link_inv_def link_core3_def cmd_inv_def plain_def core3_def conn3_def no_conn_def has_fl_def hdr_mt_def
        slots_def cmds_def written_def)
  have f: "\<not> has_fl NFC_FL_CONTROL_REQUESTED core3" by (simp add: has_fl_def core3_def)
  let ?s = "cmd_sent [0x20, 0, 1, 1] (core3\<lparr>buffers := True ## buffers core3, sListenActivated := False\<rparr>)"
  have s: "nfc_ncif_check_cmd_queue busy_nfc (Some (?b [0x20, 0, 1, 1])) core3 = Some ?s"
    by (subst check_now [OF f]) (simp add: send_next_cmd_def transmit_cmd_def core3_def Let_def rd_bytes_def saved_cmd_def hal_def cmd_sent_def NCI_MSG_HDR_SIZE_def)
  have g: "\<not> has_fl NFC_FL_CONTROL_REQUESTED ?s" by (simp add: has_fl_def cmd_sent_def core3_def)
  let ?t = "?s\<lparr>nci_cmd_xmit_q := [?b [0x20, 1, 0]]\<rparr>"
  have t: "nfc_ncif_check_cmd_queue busy_nfc (Some (?b [0x20, 1, 0])) ?s = Some ?t"
    by (subst check_now [OF g]) (simp add: send_next_cmd_def cmd_sent_def core3_def)
  let ?c = "link_core3\<lparr>cmd_core := ?t\<rparr>"
  have p: "plain_cmd (?b [0x20, 0, 1, 1])" "plain_cmd (?b [0x20, 1, 0])" by (simp_all add: plain_cmd_def is_cmd_def hdr_mt_def)
  have "cmd_step busy_nfc link_core3 (link_core3\<lparr>cmd_core := ?s\<rparr>)"
    by (rule cmd_step.command [OF p(1)]) (simp only: link_core3_def cmd_link.simps s)
  moreover have "cmd_step busy_nfc (link_core3\<lparr>cmd_core := ?s\<rparr>) (link_core3\<lparr>cmd_core := ?s\<rparr>\<lparr>cmd_core := ?t\<rparr>)"
    by (rule cmd_step.command [OF p(2)]) (use t in simp)
  ultimately have "(cmd_step busy_nfc)\<^sup>*\<^sup>* link_core3 (link_core3\<lparr>cmd_core := ?s\<rparr>\<lparr>cmd_core := ?t\<rparr>)"
    by (rule converse_rtranclp_into_rtranclp [OF _ r_into_rtranclp])
  then have r: "(cmd_step busy_nfc)\<^sup>*\<^sup>* link_core3 ?c" by simp
  have "length (cmds (cmd_core ?c)) = 1"
    using command_flow [OF busy.cmd_client_axioms i r] by (simp add: link_core3_def)
  moreover have "accepted (cmd_core ?c) = [[0x20, 0, 1, 1], [0x20, 1, 0]]"
    by (simp add: accepted_def cmds_def cmd_sent_def core3_def written_def is_cmd_def hdr_mt_def)
  ultimately show ?thesis using r by (intro exI [of _ ?c]) simp
qed

text \<open>
  A response to the last command that comes once more, when no command is without its response: its handler runs again,
  and when the client sends a command from its callback, the window is open again behind that command.
\<close>

lemma repeated_response:
  assumes "nfc_flags s = 0" "nci_cmd_window s = 1" "nci_cmd_xmit_q s = []" "\<not> i2c_fragmentation s" "buffers s = sconst True"
    and "last_hdr s = [0x20, 3]" "p_resp_cback s" "\<not> nxpCbflag s"
  shows "\<exists>t. nfc_ncif_process_event busy_nfc (rx_buffer [0x40, 3, 2, 0, 0]) s = Some t
    \<and> cmds t = cmds s @ [[0x20, 5, 1, 1]] \<and> nci_cmd_window t = 1"
proof -
  let ?s = "s\<lparr>sListenActivated := False\<rparr>" and ?b = "[0x20, 5, 1, 1] :: byte list"
  let ?u = "cmd_sent ?b ?s"
  let ?t = "?u\<lparr>nci_wait_rsp_timer := False, p_vsc_cback := None, nci_cmd_window := 1\<rparr>"
  have snd: "snd_cmd_via (nfc_ncif_check_cmd_queue quiet_nfc) (length ?b) ?b ?s = Some (NFC_STATUS_OK, ?u)"
    by (rule snd_cmd_now) (use assms in \<open>simp_all add: saved_cmd_def\<close>)
  have "nfc_ncif_update_window busy_nfc ?u = Some ?t"
    by (rule window_opens) (use assms in simp_all)
  moreover have "nci_proc_core_rsp busy_nfc (rx_buffer [0x40, 3, 2, 0, 0]) ?s = Some ?u"
    using snd assms(7)
    by (simp add: nci_proc_core_rsp_def nfc_ncif_proc_get_config_rsp_def rx_buffer_def rd_def busy_nfc_def
        nci_snd_core_conn_close_def snd_cmd_def cmd_bytes_def hdr_oid_def)
  ultimately have "nfc_ncif_process_event busy_nfc (rx_buffer [0x40, 3, 2, 0, 0]) s = Some ?t"
    using assms(4,6,8)
    by (simp add: nfc_ncif_process_event_def process_rsp_def rx_buffer_def rd_def Let_def hdr_mt_def hdr_gid_def hdr_oid_def)
  then show ?thesis by (simp add: cmds_def is_cmd_def hdr_mt_def)
qed

section \<open>Start\<close>

text \<open>
  C34. The start of the core. From any state of a core without fragmentation on I2C, with a buffer for every
  request and nothing in its mailbox, when the HAL opens, the NFCC, not a PN547, answers the reset with a
  version that the core knows and the initialisation with a firmware version without zero bytes and any list of fewer
  than 200 interfaces, of which at most four are of the vendor, and the HAL finishes its own start: the HAL gets
  exactly the reset, the initialisation, the response to it, and the mapping of the protocols whose interface the
  NFCC has, in this order; the client, which only takes note of its callbacks, gets one event, that NFC is enabled;
  and the connection to remote devices can be found.
\<close>

theorem start_up_complete:
  assumes "\<not> i2c_fragmentation s" "buffers s = sconst True" "nfc_mbox s = []" "app_log s = []"
    and "v = NCI_VERSION \<or> NCI_VERSION_0_F \<le> v"
    and "length features = 4" "length intfs < 200" "length sizes = 5" "length info = 5" "info ! 2 \<noteq> 0" "info ! 3 \<noteq> 0"
      "length (vendor_ifaces intfs) \<le> 4"
  shows "\<exists>t. start_up quiet_nfc [0x40, 0, 3, 0, v, cfg] (init_rsp features intfs conns sizes info) s = Some t
    \<and> nfc_state t = NFC_STATE_IDLE \<and> app_log t = [Resp_cback (NFC_ENABLE_REVT NFC_STATUS_OK)]
    \<and> hal_out t = hal_out s @ [Hal_open, Hal_write [0x20, 0, 1, 1], Hal_write [0x20, 1, 0],
        Hal_core_initialized (init_rsp features intfs conns sizes info), Hal_write (map_cmd (offered intfs))]
    \<and> max_conn t = conns \<and> nfc_find_conn_cb_by_conn_id NFC_RF_CONN_ID t = Some 0"
  by (rule start_up_runs [OF assms])

theorem start_up_complete_witness:
  "\<exists>t. start_up quiet_nfc [0x40, 0, 3, 0, 0x10, 1] (init_rsp [0, 0, 0, 0] [1, 2, 3, 0x80] 2 [0, 1, 32, 0, 1] [4, 0, 8, 1, 5]) core3 = Some t
    \<and> nfc_state t = NFC_STATE_IDLE \<and> last (hal_out t) = Hal_write [0x21, 0, 13, 4, 4, 3, 2, 5, 3, 3, 0x80, 1, 0x80, 3, 2, 1]"
proof -
  have "\<not> i2c_fragmentation core3" "buffers core3 = sconst True" "nfc_mbox core3 = []" "app_log core3 = []"
    by (simp_all add: core3_def)
  moreover have "offered [1, 2, 3, 0x80] = [(0x04, 3, 2), (0x05, 3, 3), (0x80, 1, 0x80), (0x03, 2, 1)]"
    by (simp add: offered_def nfc_interface_mapping_def)
  ultimately show ?thesis
    using start_up_complete [of core3 "0x10" "[0, 0, 0, 0]" "[1, 2, 3, 0x80]" "[0, 1, 32, 0, 1]" "[4, 0, 8, 1, 5]" 1 2]
    by (auto simp: vendor_ifaces_def map_cmd_def word_le_nat_alt)
qed

section \<open>Activation\<close>

text \<open>
  C35. The activation of NFC-DEP reaches the client as the NFCC sent it. For each of the technologies, any
  parameters of them, and any attribute response or request of up to 60 bytes that has general bytes: the
  core opens, its RF connection gets the announced credits and at most 251 bytes per packet, and the client gets one
  event, whose general bytes, on which LLCP negotiates its link, are exactly those of the response or
  request, with the payload size that its parameter byte encodes.
\<close>

theorem dep_activation_reported:
  assumes "tech_ok mode tech" "length rates = 3" "dep_header mode < length atr" "length atr \<le> 60"
    and "length hdr = 3" "p_discv_cback s"
  shows "\<exists>a t. nfc_ncif_proc_activate quiet_nfc (hdr @ dep_activated disc mode bsz num tech rates atr) 3 s = Some t
    \<and> nfc_state t = NFC_STATE_OPEN \<and> app_log t = app_log s @ [Discv_cback (NFC_ACTIVATE_DEVT a)]
    \<and> buff_size (conn_cb t 0) = min bsz 251 \<and> num_buff (conn_cb t 0) = num \<and> init_credits (conn_cb t 0) = num
    \<and> ntf_protocol a = NCI_PROTOCOL_NFC_DEP \<and> rf_mode a = mode
    \<and> slice 1 (length atr) (intf_param a) = atr \<and> intf_param a ! 62 = of_nat (length atr - dep_header mode)
    \<and> slice 63 (length atr - dep_header mode) (intf_param a) = drop (dep_header mode) atr
    \<and> intf_param a ! 61 = nfc_mpl_code_to_size ! unat (drop_bit 4 (atr ! (dep_header mode - 1)) AND 0x03)"
proof -
  have "kovio_poll quiet_nfc = 0x77" by (simp add: quiet_nfc_def)
  from activation_decodes [OF assms(1) this assms(2-5)] obtain a
    where a: "decode_activation (kovio_poll quiet_nfc) (hdr @ dep_activated disc mode bsz num tech rates atr) 3 = Some (a, min bsz 251, num)"
      "ntf_protocol a = NCI_PROTOCOL_NFC_DEP" "rf_mode a = mode" "slice 1 (length atr) (intf_param a) = atr"
      "intf_param a ! 62 = of_nat (length atr - dep_header mode)"
      "slice 63 (length atr - dep_header mode) (intf_param a) = drop (dep_header mode) atr"
      "intf_param a ! 61 = nfc_mpl_code_to_size ! unat (drop_bit 4 (atr ! (dep_header mode - 1)) AND 0x03)" by blast
  from activate_reports [OF a(1) assms(6)] show ?thesis using a(2-) by blast
qed

theorem dep_activation_reported_witness:
  "\<exists>a t. nfc_ncif_proc_activate quiet_nfc
       ([0x61, 5, 51] @ dep_activated 1 NCI_DISCOVERY_TYPE_POLL_F 255 1 ([1, 18] @ replicate 18 7) [2, 1, 1] (replicate 14 0 @ [0x30, 0x46, 0x66, 0x6D])) 3 core3
      = Some t
    \<and> app_log t = [Discv_cback (NFC_ACTIVATE_DEVT a)] \<and> slice 63 3 (intf_param a) = [0x46, 0x66, 0x6D] \<and> intf_param a ! 61 = 254"
proof -
  have t: "tech_ok NCI_DISCOVERY_TYPE_POLL_F ([1, 18] @ replicate 18 7)"
  proof -
    have "length (replicate 18 (7 :: byte)) \<le> 18 \<and> [1, 18] @ replicate 18 7 = [1, of_nat (length (replicate 18 (7 :: byte)))] @ replicate 18 7" by simp
    then have "\<exists>br sensf. length sensf \<le> 18 \<and> [1, 18] @ replicate 18 (7 :: byte) = [br, of_nat (length sensf)] @ sensf" by blast
    then show ?thesis by (simp add: tech_ok_def)
  qed
  let ?atr = "replicate 14 0 @ [0x30, 0x46, 0x66, 0x6D] :: byte list"
  have h: "dep_header NCI_DISCOVERY_TYPE_POLL_F = 15" "length ?atr = 18" "drop 15 ?atr = [0x46, 0x66, 0x6D]" "?atr ! 14 = 0x30"
    by (simp_all add: dep_header_def polling_def nth_append)
  have "p_discv_cback core3" "app_log core3 = []" by (simp_all add: core3_def)
  with dep_activation_reported [OF t, of "[2, 1, 1]" ?atr "[0x61, 5, 51]" core3 1 255 1] show ?thesis
    unfolding h by (fastforce simp: h nfc_mpl_code_to_size_def)
qed

text \<open>
  C36. The historical bytes of an ISO-DEP tag: for any answer to select of 1 to 60 bytes, decoding stays inside the
  fields of the event exactly when the interface bytes that T0 announces are there and at most 50 historical bytes
  follow; then the event has the answer, and its historical bytes are those behind the interface bytes.
\<close>

theorem ats_bounds:
  assumes "length u = length no_intf_param" "0 < length ats" "length ats \<le> 60"
  shows "(decode_ats (B @ of_nat (length ats) # ats @ C) (length B) u \<noteq> None
      \<longleftrightarrow> ats_header (ats ! 0) \<le> length ats \<and> length ats - ats_header (ats ! 0) \<le> 50)
    \<and> (\<forall>v. decode_ats (B @ of_nat (length ats) # ats @ C) (length B) u = Some v \<longrightarrow>
        slice 1 (length ats) v = ats \<and> v ! 64 = of_nat (length ats - ats_header (ats ! 0))
        \<and> slice 65 (length ats - ats_header (ats ! 0)) v = drop (ats_header (ats ! 0)) ats)"
proof -
  have "length u = 115" using assms(1) by (simp add: no_intf_param_def)
  note d = ats_decodes [OF this assms(2,3), of B C]
  show ?thesis using d by (cases "ats_header (ats ! 0) \<le> length ats \<and> length ats - ats_header (ats ! 0) \<le> 50") auto
qed

theorem ats_bounds_witness:
  "decode_ats (60 # 0x70 # replicate 59 0) 0 no_intf_param = None
   \<and> (\<exists>v. decode_ats (5 # [0x72, 0x80, 0x40, 0, 9]) 0 no_intf_param = Some v \<and> slice 65 1 v = [9])"
proof
  show "decode_ats (60 # 0x70 # replicate 59 0) 0 no_intf_param = None"
    using ats_bounds [of no_intf_param "0x70 # replicate 59 0" "[]" "[]"] by (simp add: ats_header_def)
  have "decode_ats (5 # [0x72, 0x80, 0x40, 0, 9]) 0 no_intf_param \<noteq> None"
    using ats_bounds [of no_intf_param "[0x72, 0x80, 0x40, 0, 9]" "[]" "[]"] by (simp add: ats_header_def)
  then show "\<exists>v. decode_ats (5 # [0x72, 0x80, 0x40, 0, 9]) 0 no_intf_param = Some v \<and> slice 65 1 v = [9]"
    using ats_bounds [of no_intf_param "[0x72, 0x80, 0x40, 0, 9]" "[]" "[]"] by (auto simp: ats_header_def)
qed

end
