(* ===== verification/T4t_Link.thy ===== *)
theory T4t_Link
  imports Nci_Model
begin

text \<open>
  What the two sides of a type 4 tag have in common: the commands of \<open>nfc/include/tags_defs.h\<close>, and the way
  down to the core. An APDU is handed to \<open>NFC_SendData\<close> on the RF connection in a buffer of the pool
  \<open>NFC_RW_POOL_ID\<close> or \<open>NFC_CE_POOL_ID\<close>; the record \<open>rf_link\<close> has the answers of the allocations (\<open>pool_ok\<close>) and of
  \<open>NFC_SendData\<close> (\<open>send_ok\<close>), each a stream with an element per call, the buffers that were accepted
  (\<open>frames\<close>), whether the quick timer of the tag runs (\<open>tag_timer\<close>) and whether the tag has set its
  static callback of the RF connection (\<open>rf_cback\<close>). The control blocks of reader and card extend it. That an
  accepted buffer reaches the other side as one buffer is what \<open>Nci_Properties\<close> shows of the core.
\<close>

section \<open>Commands and status words\<close>

abbreviation (input) T4T_CMD_CLASS :: byte where "T4T_CMD_CLASS \<equiv> 0x00"
abbreviation (input) T4T_CMD_INS_SELECT :: byte where "T4T_CMD_INS_SELECT \<equiv> 0xA4"
abbreviation (input) T4T_CMD_INS_READ_BINARY :: byte where "T4T_CMD_INS_READ_BINARY \<equiv> 0xB0"
abbreviation (input) T4T_CMD_INS_UPDATE_BINARY :: byte where "T4T_CMD_INS_UPDATE_BINARY \<equiv> 0xD6"
abbreviation (input) T4T_CMD_P1_SELECT_BY_NAME :: byte where "T4T_CMD_P1_SELECT_BY_NAME \<equiv> 0x04"
abbreviation (input) T4T_CMD_P1_SELECT_BY_FILE_ID :: byte where "T4T_CMD_P1_SELECT_BY_FILE_ID \<equiv> 0x00"
abbreviation (input) T4T_CMD_P2_FIRST_OR_ONLY_00H :: byte where "T4T_CMD_P2_FIRST_OR_ONLY_00H \<equiv> 0x00"
abbreviation (input) T4T_CMD_P2_FIRST_OR_ONLY_0CH :: byte where "T4T_CMD_P2_FIRST_OR_ONLY_0CH \<equiv> 0x0C"

abbreviation (input) T4T_RSP_CMD_CMPLTED :: u16 where "T4T_RSP_CMD_CMPLTED \<equiv> 0x9000"
abbreviation (input) T4T_RSP_NOT_FOUND :: u16 where "T4T_RSP_NOT_FOUND \<equiv> 0x6A82"
abbreviation (input) T4T_RSP_WRONG_PARAMS :: u16 where "T4T_RSP_WRONG_PARAMS \<equiv> 0x6B00"
abbreviation (input) T4T_RSP_CLASS_NOT_SUPPORTED :: u16 where "T4T_RSP_CLASS_NOT_SUPPORTED \<equiv> 0x6E00"
abbreviation (input) T4T_RSP_WRONG_LENGTH :: u16 where "T4T_RSP_WRONG_LENGTH \<equiv> 0x6700"
abbreviation (input) T4T_RSP_INSTR_NOT_SUPPORTED :: u16 where "T4T_RSP_INSTR_NOT_SUPPORTED \<equiv> 0x6D00"
abbreviation (input) T4T_RSP_CMD_NOT_ALLOWED :: u16 where "T4T_RSP_CMD_NOT_ALLOWED \<equiv> 0x6986"

abbreviation (input) T4T_VERSION_2_0 :: byte where "T4T_VERSION_2_0 \<equiv> 0x20"
abbreviation (input) T4T_VERSION_1_0 :: byte where "T4T_VERSION_1_0 \<equiv> 0x10"
abbreviation (input) T4T_CC_FILE_ID :: u16 where "T4T_CC_FILE_ID \<equiv> 0xE103"
abbreviation (input) T4T_CC_FILE_MIN_LEN :: u16 where "T4T_CC_FILE_MIN_LEN \<equiv> 0x000F"
abbreviation (input) T4T_NDEF_FILE_CONTROL_TYPE :: byte where "T4T_NDEF_FILE_CONTROL_TYPE \<equiv> 4"
abbreviation (input) T4T_FILE_CONTROL_LENGTH :: byte where "T4T_FILE_CONTROL_LENGTH \<equiv> 6"
abbreviation (input) T4T_FC_READ_ACCESS :: byte where "T4T_FC_READ_ACCESS \<equiv> 0"
abbreviation (input) T4T_FC_WRITE_ACCESS :: byte where "T4T_FC_WRITE_ACCESS \<equiv> 0"
abbreviation (input) T4T_FC_NO_WRITE_ACCESS :: byte where "T4T_FC_NO_WRITE_ACCESS \<equiv> 0xFF"
abbreviation (input) T4T_FILE_LENGTH_SIZE :: u16 where "T4T_FILE_LENGTH_SIZE \<equiv> 2"
abbreviation (input) NFC_STATUS_TIMEOUT :: byte where "NFC_STATUS_TIMEOUT \<equiv> 0xB2"

definition t4t_v10_ndef_tag_aid :: "byte list" where
  "t4t_v10_ndef_tag_aid = [0xD2, 0x76, 0x00, 0x00, 0x85, 0x01, 0x00]"

definition t4t_v20_ndef_tag_aid :: "byte list" where
  "t4t_v20_ndef_tag_aid = [0xD2, 0x76, 0x00, 0x00, 0x85, 0x01, 0x01]"

section \<open>The way to the core\<close>

record rf_link =
  pool_ok :: "bool stream"
  send_ok :: "bool stream"
  frames :: "bt_hdr list"
  tag_timer :: bool
  rf_cback :: bool

definition tag_getpoolbuf :: "'a rf_link_scheme \<Rightarrow> bool \<times> 'a rf_link_scheme" where
  "tag_getpoolbuf s = (shd (pool_ok s), s\<lparr>pool_ok := stl (pool_ok s)\<rparr>)"

definition tag_send_data :: "bt_hdr \<Rightarrow> 'a rf_link_scheme \<Rightarrow> bool \<times> 'a rf_link_scheme" where
  "tag_send_data b s =
     (shd (send_ok s),
      s\<lparr>send_ok := stl (send_ok s), frames := (if shd (send_ok s) then frames s @ [b] else frames s)\<rparr>)"

text \<open>An APDU in a fresh buffer, behind the room for the headers of the core.\<close>

definition apdu :: "byte list \<Rightarrow> bt_hdr" where
  "apdu bs = \<lparr>bsize = 660, offset = of_nat (NCI_MSG_OFFSET_SIZE + NCI_DATA_HDR_SIZE), layer_specific = 0, body = bs\<rparr>"

lemma body_apdu [simp]: "body (apdu bs) = bs"
  by (simp add: apdu_def)

text \<open>A link on which every allocation and every transmission succeeds.\<close>

definition link_free :: "'a rf_link_scheme \<Rightarrow> bool" where
  "link_free s \<longleftrightarrow> pool_ok s = sconst True \<and> send_ok s = sconst True"

lemma tag_getpoolbuf_free [simp]: "link_free s \<Longrightarrow> tag_getpoolbuf s = (True, s)"
  by (simp add: tag_getpoolbuf_def link_free_def)

lemma tag_send_data_free [simp]:
  "link_free s \<Longrightarrow> tag_send_data b s = (True, s\<lparr>frames := frames s @ [b]\<rparr>)"
  by (simp add: tag_send_data_def link_free_def)

end
