(* ===== verification/Ce_T4t.thy ===== *)
theory Ce_T4t
  imports T4t_Link
begin

text \<open>
  The emulated type 4 tag, \<open>nfc/tags/ce_t4t.c\<close>, with \<open>CE_SetActivatedTagType\<close> of \<open>nfc/tags/ce_main.c\<close> for this tag.

  The record \<open>ce_cb\<close> is the part of \<open>ce_cb\<close> the type 4 tag uses: \<open>cc_file\<close> to \<open>selected_aid_idx\<close> are \<open>tCE_T4T_MEM\<close>.
  The NDEF message and the scratch buffer belong to the application; they are the objects \<open>p_ndef_msg\<close> and
  \<open>p_scratch_buf\<close>, if the pointers are not NULL. Bytes of a command are read from what was received, and a read behind it
  is undefined. A callback is a number, and \<open>E k ev\<close> is what callback \<open>k\<close> does to the control block on the event \<open>ev\<close>;
  the callbacks of \<open>quiet_ce\<close> collect their events in \<open>ce_log\<close>.
  The code for \<open>CE_TEST_INCLUDED\<close> is off in the default configuration.
\<close>

abbreviation (input) CE_T4T_MANDATORY_NDEF_FILE_ID :: u16 where "CE_T4T_MANDATORY_NDEF_FILE_ID \<equiv> 0x1000"
abbreviation (input) CE_T4T_MAX_REG_AID :: byte where "CE_T4T_MAX_REG_AID \<equiv> 4"
abbreviation (input) CE_T4T_WILDCARD_AID_HANDLE :: byte where "CE_T4T_WILDCARD_AID_HANDLE \<equiv> 4"
abbreviation (input) CE_T4T_AID_HANDLE_INVALID :: byte where "CE_T4T_AID_HANDLE_INVALID \<equiv> 0xFF"
abbreviation (input) NFC_MAX_AID_LEN :: byte where "NFC_MAX_AID_LEN \<equiv> 16"
abbreviation (input) CE_T4T_MAX_LE :: u16 where "CE_T4T_MAX_LE \<equiv> 646"
abbreviation (input) CE_T4T_MAX_LC :: u16 where "CE_T4T_MAX_LC \<equiv> 644"

abbreviation (input) CE_T4T_STATUS_T4T_APP_SELECTED :: byte where "CE_T4T_STATUS_T4T_APP_SELECTED \<equiv> 0x01"
abbreviation (input) CE_T4T_STATUS_REG_AID_SELECTED :: byte where "CE_T4T_STATUS_REG_AID_SELECTED \<equiv> 0x02"
abbreviation (input) CE_T4T_STATUS_CC_FILE_SELECTED :: byte where "CE_T4T_STATUS_CC_FILE_SELECTED \<equiv> 0x04"
abbreviation (input) CE_T4T_STATUS_NDEF_SELECTED :: byte where "CE_T4T_STATUS_NDEF_SELECTED \<equiv> 0x08"
abbreviation (input) CE_T4T_STATUS_NDEF_FILE_READ_ONLY :: byte where "CE_T4T_STATUS_NDEF_FILE_READ_ONLY \<equiv> 0x10"
abbreviation (input) CE_T4T_STATUS_NDEF_FILE_UPDATING :: byte where "CE_T4T_STATUS_NDEF_FILE_UPDATING \<equiv> 0x20"
abbreviation (input) CE_T4T_STATUS_WILDCARD_AID_SELECTED :: byte where "CE_T4T_STATUS_WILDCARD_AID_SELECTED \<equiv> 0x40"

datatype ce_event =
    CE_T4T_NDEF_UPDATE_START_EVT
  | CE_T4T_NDEF_UPDATE_CPLT_EVT byte u16 "mem option"
  | CE_T4T_NDEF_UPDATE_ABORT_EVT byte
  | CE_T4T_RAW_FRAME_EVT byte byte bt_hdr

record reg_aid =
  aid_len :: byte
  aid :: "byte list"
  aid_cback :: "nat option"

record ce_cb = rf_link +
  ce_cback :: "nat option"
  cc_file :: "byte list"
  p_ndef_msg :: "mem option"
  nlen :: u16
  max_file_size :: u16
  p_scratch_buf :: "mem option"
  ce_status :: byte
  p_wildcard_aid_cback :: "nat option"
  reg_aid :: "reg_aid list"
  selected_aid_idx :: byte
  ce_log :: "(nat \<times> ce_event) list"

type_synonym ce_env = "nat \<Rightarrow> ce_event \<Rightarrow> ce_cb \<Rightarrow> ce_cb option"

definition quiet_ce :: ce_env where
  "quiet_ce k ev s = Some (s\<lparr>ce_log := ce_log s @ [(k, ev)]\<rparr>)"

definition ce_has :: "byte \<Rightarrow> ce_cb \<Rightarrow> bool" where "ce_has f s \<longleftrightarrow> ce_status s AND f \<noteq> 0"
definition ce_set :: "byte \<Rightarrow> ce_cb \<Rightarrow> ce_cb" where "ce_set f s = s\<lparr>ce_status := ce_status s OR f\<rparr>"
definition ce_clear :: "byte \<Rightarrow> ce_cb \<Rightarrow> ce_cb" where "ce_clear f s = s\<lparr>ce_status := ce_status s AND NOT f\<rparr>"

text \<open>The calls of \<open>p_cback\<close>, which is checked, and of the callback of an AID, which is not.\<close>

definition ce_notify :: "ce_env \<Rightarrow> ce_event \<Rightarrow> ce_cb \<Rightarrow> ce_cb option" where
  "ce_notify E ev s = (case ce_cback s of None \<Rightarrow> Some s | Some k \<Rightarrow> E k ev s)"

definition aid_call :: "ce_env \<Rightarrow> nat option \<Rightarrow> ce_event \<Rightarrow> ce_cb \<Rightarrow> ce_cb option" where
  "aid_call E cb ev s = Option.bind cb (\<lambda>k. E k ev s)"

section \<open>Responses\<close>

definition ce_t4t_send_status :: "u16 \<Rightarrow> ce_cb \<Rightarrow> bool \<times> ce_cb" where
  "ce_t4t_send_status sw s =
     (let (got, s) = tag_getpoolbuf s in
      if got then tag_send_data (apdu (be16_bytes sw)) s else (False, s))"

definition ce_t4t_select_file :: "u16 \<Rightarrow> ce_cb \<Rightarrow> bool \<times> ce_cb" where
  "ce_t4t_select_file file_id s =
     (if file_id = T4T_CC_FILE_ID
      then (True, ce_clear CE_T4T_STATUS_NDEF_SELECTED (ce_set CE_T4T_STATUS_CC_FILE_SELECTED s))
      else if file_id = CE_T4T_MANDATORY_NDEF_FILE_ID
      then (True, ce_clear CE_T4T_STATUS_CC_FILE_SELECTED (ce_set CE_T4T_STATUS_NDEF_SELECTED s))
      else (False, ce_clear CE_T4T_STATUS_NDEF_SELECTED (ce_clear CE_T4T_STATUS_CC_FILE_SELECTED s)))"

text \<open>The bytes of NLEN that a read of the NDEF file answers, and what is left to read of the message.\<close>

definition nlen_part :: "u16 \<Rightarrow> u16 \<Rightarrow> byte \<Rightarrow> byte list \<times> u16 \<times> byte" where
  "nlen_part n off len =
     (if off = 0 then (if len = 1 then (take 1 (be16_bytes n), off, 0) else (be16_bytes n, off, len - 2))
      else if off = 1 then ([ucast n], 0, len - 1)
      else ([], off - T4T_FILE_LENGTH_SIZE, len))"

definition ce_t4t_read_binary :: "u16 \<Rightarrow> byte \<Rightarrow> ce_cb \<Rightarrow> (bool \<times> ce_cb) option" where
  "ce_t4t_read_binary off len s =
     (case (if ce_has CE_T4T_STATUS_CC_FILE_SELECTED s then Some (cc_file s)
            else if ce_has CE_T4T_STATUS_NDEF_SELECTED s
            then (case p_scratch_buf s of Some m \<Rightarrow> Some m | None \<Rightarrow> p_ndef_msg s) else None) of
        None \<Rightarrow> Some (ce_t4t_send_status T4T_RSP_CMD_NOT_ALLOWED s)
      | Some src \<Rightarrow>
          let (got, s) = tag_getpoolbuf s in
          if \<not> got then Some (False, s)
          else
            let (front, off, len) =
              (if ce_has CE_T4T_STATUS_NDEF_SELECTED s \<and> 0 < len then nlen_part (nlen s) off len else ([], off, len)) in
            do { bs \<leftarrow> (if 0 < len then rd_bytes src (unat off) (unat len) else Some []);
                 Some (tag_send_data (apdu (front @ bs @ be16_bytes T4T_RSP_CMD_CMPLTED)) s) })"

section \<open>Updates\<close>

text \<open>The loop that takes the bytes of NLEN from the data of an update.\<close>

function nlen_bytes :: "byte list \<Rightarrow> u16 \<Rightarrow> byte \<Rightarrow> byte list \<Rightarrow> (byte list \<times> u16 \<times> byte \<times> byte list) option" where
  "nlen_bytes fl off len data =
     (if off < T4T_FILE_LENGTH_SIZE \<and> 0 < len
      then (case data of [] \<Rightarrow> None | d # ds \<Rightarrow> nlen_bytes (fl[unat off := d]) (off + 1) (len - 1) ds)
      else Some (fl, off, len, data))"
  by pat_completeness auto
termination by (relation "measure (\<lambda>(_, _, _, data). length data)") auto

text \<open>The new NLEN, and what is left to write of the data and where.\<close>

definition take_nlen :: "u16 \<Rightarrow> u16 \<Rightarrow> byte \<Rightarrow> byte list \<Rightarrow> (u16 \<times> u16 \<times> byte \<times> byte list) option" where
  "take_nlen n start len data =
     (if start < T4T_FILE_LENGTH_SIZE \<and> 0 < len
      then do { (fl, off, len, data) \<leftarrow> nlen_bytes (be16_bytes n) start len data;
                n \<leftarrow> rd_be16 fl 0; Some (n, off, len, data) }
      else Some (n, start, len, data))"

text \<open>The end of an update, when a length other than 0 is written at offset 0, and its beginning.\<close>

definition update_progress :: "ce_env \<Rightarrow> u16 \<Rightarrow> ce_cb \<Rightarrow> ce_cb option" where
  "update_progress E start s =
     (if start = 0 \<and> 0 < nlen s then do {
        s \<leftarrow> ce_notify E (CE_T4T_NDEF_UPDATE_CPLT_EVT NFC_STATUS_OK (nlen s) (p_scratch_buf s)) (s\<lparr>tag_timer := False\<rparr>);
        Some (ce_clear CE_T4T_STATUS_NDEF_FILE_UPDATING s) }
      else if \<not> ce_has CE_T4T_STATUS_NDEF_FILE_UPDATING s
      then ce_notify E CE_T4T_NDEF_UPDATE_START_EVT ((ce_set CE_T4T_STATUS_NDEF_FILE_UPDATING s)\<lparr>tag_timer := True\<rparr>)
      else Some s)"

definition ce_t4t_update_binary :: "ce_env \<Rightarrow> u16 \<Rightarrow> byte \<Rightarrow> byte list \<Rightarrow> ce_cb \<Rightarrow> (bool \<times> ce_cb) option" where
  "ce_t4t_update_binary E start len data s = do {
     (n, off, len, data) \<leftarrow> take_nlen (nlen s) start len data;
     let s = s\<lparr>nlen := n\<rparr>;
     s \<leftarrow> (if 0 < len then do {
             m \<leftarrow> p_scratch_buf s;
             bs \<leftarrow> rd_bytes data 0 (unat len);
             m \<leftarrow> wr_bytes m (unat off - unat T4T_FILE_LENGTH_SIZE) bs;
             Some (s\<lparr>p_scratch_buf := Some m\<rparr>) }
           else Some s);
     s \<leftarrow> update_progress E start s;
     Some (ce_t4t_send_status T4T_RSP_CMD_CMPLTED s) }"

section \<open>Selection\<close>

definition ce_t4t_set_version_in_cc :: "byte \<Rightarrow> ce_cb \<Rightarrow> ce_cb option" where
  "ce_t4t_set_version_in_cc v s = do { f \<leftarrow> wr (cc_file s) 2 v; Some (s\<lparr>cc_file := f\<rparr>) }"

definition ce_t4t_process_select_file_cmd :: "byte list \<Rightarrow> ce_cb \<Rightarrow> (bool \<times> ce_cb) option" where
  "ce_t4t_process_select_file_cmd cmd s = do {
     data_len \<leftarrow> rd cmd 1;
     (sw, s) \<leftarrow> (if data_len = 2 then do {
                   file_id \<leftarrow> rd_be16 cmd 2;
                   let (found, s) = ce_t4t_select_file file_id s;
                   Some (if found then T4T_RSP_CMD_CMPLTED else T4T_RSP_NOT_FOUND, s) }
                 else Some (T4T_RSP_WRONG_LENGTH, s));
     let (sent, s) = ce_t4t_send_status sw s;
     Some (sent \<and> sw = T4T_RSP_CMD_CMPLTED, s) }"

text \<open>The search for a registered AID: the index, \<open>CE_T4T_MAX_REG_AID\<close> if there is none.\<close>

fun find_aid :: "reg_aid list \<Rightarrow> byte \<Rightarrow> byte list \<Rightarrow> byte \<Rightarrow> byte option" where
  "find_aid [] data_len name xx = Some CE_T4T_MAX_REG_AID"
| "find_aid (r # rs) data_len name xx =
     (if 0 < aid_len r \<and> aid_len r = data_len
      then do { bs \<leftarrow> rd_bytes name 0 (unat data_len); mine \<leftarrow> rd_bytes (aid r) 0 (unat data_len);
                if bs = mine then Some xx else find_aid rs data_len name (xx + 1) }
      else find_aid rs data_len name (xx + 1))"

definition ce_select_only :: "byte \<Rightarrow> ce_cb \<Rightarrow> ce_cb" where
  "ce_select_only f s =
     ce_set f (ce_clear (CE_T4T_STATUS_CC_FILE_SELECTED OR CE_T4T_STATUS_NDEF_SELECTED OR CE_T4T_STATUS_T4T_APP_SELECTED
       OR CE_T4T_STATUS_REG_AID_SELECTED OR CE_T4T_STATUS_WILDCARD_AID_SELECTED) s)"

text \<open>The first bytes of the name are those of the NDEF application, and there is a message to serve.\<close>

definition names_ndef_app :: "byte \<Rightarrow> byte list \<Rightarrow> ce_cb \<Rightarrow> bool option" where
  "names_ndef_app data_len name s =
     (if data_len = 7
      then do { bs \<leftarrow> rd_bytes name 0 6; Some (bs = take 6 t4t_v20_ndef_tag_aid \<and> p_ndef_msg s \<noteq> None) }
      else Some False)"

definition ce_t4t_process_select_app_cmd :: "ce_env \<Rightarrow> byte list \<Rightarrow> bt_hdr \<Rightarrow> ce_cb \<Rightarrow> ce_cb option" where
  "ce_t4t_process_select_app_cmd E cmd p_c_apdu s = do {
     data_len \<leftarrow> rd cmd 1;
     let name = drop 2 cmd;
     idx \<leftarrow> find_aid (reg_aid s) data_len name 0;
     let s = s\<lparr>selected_aid_idx := idx\<rparr>;
     if idx < CE_T4T_MAX_REG_AID then
       aid_call E (aid_cback (reg_aid s ! unat idx)) (CE_T4T_RAW_FRAME_EVT NFC_STATUS_OK idx p_c_apdu)
         (ce_select_only CE_T4T_STATUS_REG_AID_SELECTED s)
     else do {
       ndef \<leftarrow> names_ndef_app data_len name s;
       if ndef then do {
         v \<leftarrow> rd name 6;
         if v = 0 \<or> v = 1 then do {
           s \<leftarrow> ce_t4t_set_version_in_cc (if v = 0 then T4T_VERSION_1_0 else T4T_VERSION_2_0) s;
           Some (snd (ce_t4t_send_status T4T_RSP_CMD_CMPLTED (ce_select_only CE_T4T_STATUS_T4T_APP_SELECTED s))) }
         else Some (snd (ce_t4t_send_status T4T_RSP_NOT_FOUND s)) }
       else case p_wildcard_aid_cback s of
         Some k \<Rightarrow> E k (CE_T4T_RAW_FRAME_EVT NFC_STATUS_OK CE_T4T_WILDCARD_AID_HANDLE p_c_apdu)
                     (ce_select_only CE_T4T_STATUS_WILDCARD_AID_SELECTED s)
       | None \<Rightarrow> Some (snd (ce_t4t_send_status T4T_RSP_NOT_FOUND s)) } }"

section \<open>Received commands\<close>

definition ce_t4t_process_timeout :: "ce_env \<Rightarrow> ce_cb \<Rightarrow> ce_cb option" where
  "ce_t4t_process_timeout E s =
     (if ce_has CE_T4T_STATUS_NDEF_FILE_UPDATING s
      then do { s \<leftarrow> ce_notify E (CE_T4T_NDEF_UPDATE_ABORT_EVT NFC_STATUS_TIMEOUT) s;
                Some (ce_clear CE_T4T_STATUS_NDEF_FILE_UPDATING s) }
      else Some s)"

text \<open>READ BINARY and UPDATE BINARY of the NDEF application, \<open>cmd\<close> the bytes behind the instruction.\<close>

definition ce_read_cmd :: "byte list \<Rightarrow> ce_cb \<Rightarrow> ce_cb option" where
  "ce_read_cmd cmd s =
     (if ce_has CE_T4T_STATUS_CC_FILE_SELECTED s \<or> ce_has CE_T4T_STATUS_NDEF_SELECTED s then do {
        let max = (if ce_has CE_T4T_STATUS_CC_FILE_SELECTED s then 15 else max_file_size s);
        off \<leftarrow> rd_be16 cmd 0;
        len \<leftarrow> rd cmd 2;
        let len = (if ucast len \<le> CE_T4T_MAX_LE
                   then (if unat max < unat len + unat off
                         then (if off < max then ucast (max - off) else 0) else len)
                   else 0);
        if 0 < len then do { (_, s) \<leftarrow> ce_t4t_read_binary off len s; Some s }
        else Some (snd (ce_t4t_send_status T4T_RSP_WRONG_PARAMS s)) }
      else Some (snd (ce_t4t_send_status T4T_RSP_CMD_NOT_ALLOWED s)))"

definition ce_update_cmd :: "ce_env \<Rightarrow> byte list \<Rightarrow> ce_cb \<Rightarrow> ce_cb option" where
  "ce_update_cmd E cmd s =
     (if ce_has CE_T4T_STATUS_NDEF_FILE_READ_ONLY s then Some (snd (ce_t4t_send_status T4T_RSP_CMD_NOT_ALLOWED s))
      else if ce_has CE_T4T_STATUS_NDEF_SELECTED s then do {
        off \<leftarrow> rd_be16 cmd 0;
        len \<leftarrow> rd cmd 2;
        let len = (if ucast len \<le> CE_T4T_MAX_LC
                   then (if unat (max_file_size s) < unat len + unat off then 0 else len) else 0);
        if 0 < len then do { (_, s) \<leftarrow> ce_t4t_update_binary E off len (drop 3 cmd) s; Some s }
        else Some (snd (ce_t4t_send_status T4T_RSP_WRONG_PARAMS s)) }
      else Some (snd (ce_t4t_send_status T4T_RSP_CMD_NOT_ALLOWED s)))"

text \<open>
  A command with the bytes \<open>bs\<close>. The byte P1 of a SELECT of class 0 is read before the selected application is
  looked at, so \<open>cmd\<close> then starts at P2; for every other command it starts at P1.
\<close>

definition ce_t4t_command :: "ce_env \<Rightarrow> byte \<Rightarrow> bt_hdr \<Rightarrow> ce_cb \<Rightarrow> ce_cb option" where
  "ce_t4t_command E st p_c_apdu s = do {
     let bs = body p_c_apdu;
     cla \<leftarrow> rd bs 0;
     if cla \<noteq> T4T_CMD_CLASS \<and> \<not> ce_has CE_T4T_STATUS_REG_AID_SELECTED s
       \<and> \<not> ce_has CE_T4T_STATUS_WILDCARD_AID_SELECTED s
     then Some (snd (ce_t4t_send_status T4T_RSP_CLASS_NOT_SUPPORTED s))
     else do {
       instruct \<leftarrow> rd bs 1;
       (select_type, cmd) \<leftarrow> (if cla = T4T_CMD_CLASS \<and> instruct = T4T_CMD_INS_SELECT
                              then do { t \<leftarrow> rd bs 2; Some (t, drop 3 bs) } else Some (0, drop 2 bs));
       if cla = T4T_CMD_CLASS \<and> instruct = T4T_CMD_INS_SELECT \<and> select_type = T4T_CMD_P1_SELECT_BY_NAME
       then ce_t4t_process_select_app_cmd E cmd p_c_apdu s
       else if ce_has CE_T4T_STATUS_REG_AID_SELECTED s then
         (if selected_aid_idx s < CE_T4T_MAX_REG_AID
          then aid_call E (aid_cback (reg_aid s ! unat (selected_aid_idx s)))
                 (CE_T4T_RAW_FRAME_EVT st (selected_aid_idx s) p_c_apdu) s
          else Some (snd (ce_t4t_send_status T4T_RSP_NOT_FOUND s)))
       else if ce_has CE_T4T_STATUS_WILDCARD_AID_SELECTED s then
         aid_call E (p_wildcard_aid_cback s) (CE_T4T_RAW_FRAME_EVT st CE_T4T_WILDCARD_AID_HANDLE p_c_apdu) s
       else if ce_has CE_T4T_STATUS_T4T_APP_SELECTED s then
         (if instruct = T4T_CMD_INS_SELECT then
            (if select_type = T4T_CMD_P1_SELECT_BY_FILE_ID
             then do { (_, s) \<leftarrow> ce_t4t_process_select_file_cmd cmd s; Some s }
             else Some (snd (ce_t4t_send_status T4T_RSP_WRONG_PARAMS s)))
          else if instruct = T4T_CMD_INS_READ_BINARY then ce_read_cmd cmd s
          else if instruct = T4T_CMD_INS_UPDATE_BINARY then ce_update_cmd E cmd s
          else Some (snd (ce_t4t_send_status T4T_RSP_INSTR_NOT_SUPPORTED s)))
       else Some (snd (ce_t4t_send_status T4T_RSP_CMD_NOT_ALLOWED s)) } }"

definition ce_t4t_data_cback :: "ce_env \<Rightarrow> conn_evt \<Rightarrow> ce_cb \<Rightarrow> ce_cb option" where
  "ce_t4t_data_cback E ev s =
     (case ev of
        NFC_DEACTIVATE_CEVT st typ is_ntf \<Rightarrow> Some (s\<lparr>rf_cback := False\<rparr>)
      | NFC_DATA_CEVT st p_c_apdu \<Rightarrow> ce_t4t_command E st p_c_apdu s
      | _ \<Rightarrow> Some s)"

section \<open>Activation and the calls of the application\<close>

definition ce_select_t4t :: "ce_cb \<Rightarrow> byte \<times> ce_cb" where
  "ce_select_t4t s =
     (NFC_STATUS_OK,
      s\<lparr>tag_timer := False, ce_status := ce_status s AND CE_T4T_STATUS_NDEF_FILE_READ_ONLY, rf_cback := True\<rparr>)"

definition CE_SetActivatedTagType_iso_dep :: "nat option \<Rightarrow> ce_cb \<Rightarrow> byte \<times> ce_cb" where
  "CE_SetActivatedTagType_iso_dep cback s =
     (let (st, s) = ce_select_t4t (s\<lparr>ce_cback := cback\<rparr>) in
      if st \<noteq> NFC_STATUS_OK then (st, s\<lparr>rf_cback := False, ce_cback := None\<rparr>) else (st, s))"

definition CE_SendRawFrame :: "byte list \<Rightarrow> ce_cb \<Rightarrow> (byte \<times> ce_cb) option" where
  "CE_SendRawFrame raw s =
     (if ce_cback s = None then Some (NFC_STATUS_FAILED, s)
      else let (got, s) = tag_getpoolbuf s in
        if \<not> got then Some (NFC_STATUS_FAILED, s)
        else do {
          b \<leftarrow> append_bytes raw (apdu []);
          let (sent, s) = tag_send_data b s;
          Some (if sent then NFC_STATUS_OK else NFC_STATUS_FAILED, s) })"

definition cc_contents :: "u16 \<Rightarrow> bool \<Rightarrow> byte list" where
  "cc_contents max_size ro =
     be16_bytes T4T_CC_FILE_MIN_LEN @ [T4T_VERSION_2_0] @ be16_bytes CE_T4T_MAX_LE @ be16_bytes CE_T4T_MAX_LC
     @ [T4T_NDEF_FILE_CONTROL_TYPE, T4T_FILE_CONTROL_LENGTH] @ be16_bytes CE_T4T_MANDATORY_NDEF_FILE_ID
     @ be16_bytes max_size @ [T4T_FC_READ_ACCESS, if ro then T4T_FC_NO_WRITE_ACCESS else T4T_FC_WRITE_ACCESS]"

definition CE_T4tSetLocalNDEFMsg :: "bool \<Rightarrow> u16 \<Rightarrow> u16 \<Rightarrow> mem option \<Rightarrow> mem option \<Rightarrow> ce_cb \<Rightarrow> (byte \<times> ce_cb) option" where
  "CE_T4tSetLocalNDEFMsg read_only ndef_msg_max ndef_msg_len msg scratch s =
     (case msg of
        None \<Rightarrow> Some (NFC_STATUS_OK, s\<lparr>p_ndef_msg := None\<rparr>)
      | Some m \<Rightarrow>
          if \<not> read_only \<and> scratch = None then Some (NFC_STATUS_FAILED, s)
          else do {
            f \<leftarrow> wr_bytes (cc_file s) 0 (cc_contents (ndef_msg_max + T4T_FILE_LENGTH_SIZE) read_only);
            let s = (if read_only then ce_set CE_T4T_STATUS_NDEF_FILE_READ_ONLY s
                     else ce_clear CE_T4T_STATUS_NDEF_FILE_READ_ONLY s);
            let s = s\<lparr>cc_file := f, p_ndef_msg := Some m, nlen := ndef_msg_len,
                      max_file_size := ndef_msg_max + T4T_FILE_LENGTH_SIZE\<rparr>;
            scratch \<leftarrow> (case scratch of None \<Rightarrow> Some None
                       | Some b \<Rightarrow> do { bs \<leftarrow> rd_bytes m 0 (unat ndef_msg_len); b \<leftarrow> wr_bytes b 0 bs; Some (Some b) });
            Some (NFC_STATUS_OK, s\<lparr>p_scratch_buf := scratch\<rparr>) })"

definition CE_T4tRegisterAID :: "byte \<Rightarrow> byte list \<Rightarrow> nat option \<Rightarrow> ce_cb \<Rightarrow> (byte \<times> ce_cb) option" where
  "CE_T4tRegisterAID len name cback s =
     (if len = 0 then
        (case p_wildcard_aid_cback s of
           Some _ \<Rightarrow> Some (CE_T4T_AID_HANDLE_INVALID, s)
         | None \<Rightarrow> Some (CE_T4T_WILDCARD_AID_HANDLE, s\<lparr>p_wildcard_aid_cback := cback\<rparr>))
      else if NFC_MAX_AID_LEN < len then Some (CE_T4T_AID_HANDLE_INVALID, s)
      else if cback = None then Some (CE_T4T_AID_HANDLE_INVALID, s)
      else do {
        xx \<leftarrow> find_aid (reg_aid s) len name 0;
        if xx < CE_T4T_MAX_REG_AID then Some (CE_T4T_AID_HANDLE_INVALID, s)
        else case List.find (\<lambda>i. aid_len (reg_aid s ! i) = 0) [0..<length (reg_aid s)] of
          None \<Rightarrow> Some (CE_T4T_AID_HANDLE_INVALID, s)
        | Some i \<Rightarrow> do {
            bs \<leftarrow> rd_bytes name 0 (unat len);
            a \<leftarrow> wr_bytes (aid (reg_aid s ! i)) 0 bs;
            Some (of_nat i, s\<lparr>reg_aid := (reg_aid s)[i := \<lparr>aid_len = len, aid = a, aid_cback = cback\<rparr>]\<rparr>) } })"

definition CE_T4tDeregisterAID :: "byte \<Rightarrow> ce_cb \<Rightarrow> ce_cb" where
  "CE_T4tDeregisterAID h s =
     (if h = CE_T4T_WILDCARD_AID_HANDLE then s\<lparr>p_wildcard_aid_cback := None\<rparr>
      else if CE_T4T_MAX_REG_AID \<le> h \<or> aid_len (reg_aid s ! unat h) = 0 then s
      else s\<lparr>reg_aid := (reg_aid s)[unat h := (reg_aid s ! unat h)\<lparr>aid_len := 0, aid_cback := None\<rparr>]\<rparr>)"

definition CE_T4TTestSetCC :: "u16 \<Rightarrow> byte \<Rightarrow> u16 \<Rightarrow> u16 \<Rightarrow> byte" where
  "CE_T4TTestSetCC cc_len version max_le max_lc = NFC_STATUS_FAILED"

definition CE_T4TTestSetNDEFCtrlTLV :: "byte \<Rightarrow> byte \<Rightarrow> u16 \<Rightarrow> u16 \<Rightarrow> byte \<Rightarrow> byte \<Rightarrow> byte" where
  "CE_T4TTestSetNDEFCtrlTLV typ len file_id max_size ra wa = NFC_STATUS_FAILED"

end
