(* ===== verification/T4t_Spec.thy ===== *)
theory T4t_Spec
  imports T4t_Link
begin

text \<open>
  What a type 4 tag with an NDEF file promises, independently of who implements it: two files of bytes, the selection, and
  the answer to each command. The locale \<open>ndef_tag\<close> is the contract of a tag that a reader may rely on.
\<close>

datatype selection = No_app | App | Cc_file | Ndef_file

record tag_view =
  t_sel :: selection
  t_cc :: "byte list"
  t_file :: "byte list"
  t_ro :: bool

text \<open>The commands, and the bytes of each; behind the data of a SELECT by name an Le byte may follow.\<close>

datatype tag_cmd =
    Select_app "byte list" "byte list"
  | Select_file byte u16
  | Read_binary u16 byte
  | Update_binary u16 "byte list"

fun tag_apdu :: "tag_cmd \<Rightarrow> byte list" where
  "tag_apdu (Select_app name le) = [0x00, 0xA4, 0x04, 0x00, of_nat (length name)] @ name @ le"
| "tag_apdu (Select_file p2 fid) = [0x00, 0xA4, 0x00, p2, 2] @ be16_bytes fid"
| "tag_apdu (Read_binary off le) = [0x00, 0xB0] @ be16_bytes off @ [le]"
| "tag_apdu (Update_binary off data) = [0x00, 0xD6] @ be16_bytes off @ [of_nat (length data)] @ data"

text \<open>The lengths fit their byte.\<close>

fun cmd_ok :: "tag_cmd \<Rightarrow> bool" where
  "cmd_ok (Select_app name le) \<longleftrightarrow> length name < 256"
| "cmd_ok (Update_binary off data) \<longleftrightarrow> length data < 256"
| "cmd_ok _ \<longleftrightarrow> True"

definition slice_of :: "nat \<Rightarrow> nat \<Rightarrow> byte list \<Rightarrow> byte list" where
  "slice_of off n f = take n (drop off f)"

definition overlay :: "nat \<Rightarrow> byte list \<Rightarrow> byte list \<Rightarrow> byte list" where
  "overlay off d f = take off f @ d @ drop (off + length d) f"

abbreviation (input) ok_sw :: "byte list" where "ok_sw \<equiv> [0x90, 0x00]"

definition read_answer :: "nat \<Rightarrow> nat \<Rightarrow> byte list \<Rightarrow> byte list" where
  "read_answer off le f = (let bs = slice_of off le f in if bs = [] then [0x6B, 0x00] else bs @ ok_sw)"

fun tag_spec :: "tag_cmd \<Rightarrow> tag_view \<Rightarrow> byte list \<times> tag_view" where
  "tag_spec (Select_app name le) v =
     (if name = butlast t4t_v20_ndef_tag_aid @ [0] then (ok_sw, v\<lparr>t_sel := App, t_cc := (t_cc v)[2 := 0x10]\<rparr>)
      else if name = butlast t4t_v20_ndef_tag_aid @ [1] then (ok_sw, v\<lparr>t_sel := App, t_cc := (t_cc v)[2 := 0x20]\<rparr>)
      else ([0x6A, 0x82], v))"
| "tag_spec (Select_file p2 fid) v =
     (if t_sel v = No_app then ([0x69, 0x86], v)
      else if fid = 0xE103 then (ok_sw, v\<lparr>t_sel := Cc_file\<rparr>)
      else if fid = 0x1000 then (ok_sw, v\<lparr>t_sel := Ndef_file\<rparr>)
      else ([0x6A, 0x82], v\<lparr>t_sel := App\<rparr>))"
| "tag_spec (Read_binary off le) v =
     (case t_sel v of
        Cc_file \<Rightarrow> (read_answer (unat off) (unat le) (t_cc v), v)
      | Ndef_file \<Rightarrow> (read_answer (unat off) (unat le) (t_file v), v)
      | _ \<Rightarrow> ([0x69, 0x86], v))"
| "tag_spec (Update_binary off data) v =
     (if t_sel v \<noteq> Ndef_file \<or> t_ro v then ([0x69, 0x86], v)
      else if data = [] \<or> length (t_file v) < unat off + length data then ([0x6B, 0x00], v)
      else (ok_sw, v\<lparr>t_file := overlay (unat off) data (t_file v)\<rparr>))"

text \<open>
  The contract: a tag that is all right answers every command as specified and stays all right, the
  mandatory NDEF file being the one the capability container names.
\<close>

locale ndef_tag =
  fixes answer :: "byte list \<Rightarrow> 'c \<Rightarrow> (byte list \<times> 'c) option"
    and view :: "'c \<Rightarrow> tag_view"
    and fine :: "'c \<Rightarrow> bool"
  assumes answers: "fine c \<Longrightarrow> cmd_ok k \<Longrightarrow>
      \<exists>c'. answer (tag_apdu k) c = Some (fst (tag_spec k (view c)), c') \<and> view c' = snd (tag_spec k (view c)) \<and> fine c'"

lemma length_overlay [simp]: "off + length d \<le> length f \<Longrightarrow> length (overlay off d f) = length f"
  by (simp add: overlay_def)

lemma length_slice_of: "off + n \<le> length f \<Longrightarrow> length (slice_of off n f) = n"
  by (simp add: slice_of_def)

end
