(* ===== verification/Rw_T4t.thy ===== *)
theory Rw_T4t
  imports T4t_Link
begin

text \<open>
  The reader of type 4 tags, \<open>nfc/tags/rw_t4t.c\<close>: its control block, the commands it sends and how it reports
  errors. The formatting of DESFire cards is in \<open>Rw_T4t_Format\<close>, the state machines and the calls in \<open>Rw_T4t_Main\<close>.

  The record \<open>rw_cb\<close> has \<open>tRW_T4T_CB\<close> with the fields of the capability container, and whether \<open>rw_cb.p_cback\<close>
  is set. \<open>p_update_data\<close> is what is behind that pointer. \<open>E ev d\<close> is what the callback does to the control
  block on the event \<open>ev\<close> with the data \<open>d\<close>, of which only the members are shown that the code has set; the callback \<open>quiet_rw\<close>
  collects the events in \<open>rw_log\<close>. A response is read from the bytes received, and a read before or behind them
  is undefined. The array \<open>pupiid\<close> of the activation data, which \<open>nfa_rw_update_pupi_id\<close> fills, is kept here.
\<close>

abbreviation (input) RW_T4T_MAX_DATA_PER_READ :: u16 where "RW_T4T_MAX_DATA_PER_READ \<equiv> 647"
abbreviation (input) RW_T4T_MAX_DATA_PER_WRITE :: u16 where "RW_T4T_MAX_DATA_PER_WRITE \<equiv> 643"
abbreviation (input) T4T_MAX_LENGTH_LE :: u16 where "T4T_MAX_LENGTH_LE \<equiv> 0xFF"
abbreviation (input) T4T_MAX_LENGTH_LC :: u16 where "T4T_MAX_LENGTH_LC \<equiv> 0xFF"
abbreviation (input) T4T_MIN_MLE :: u16 where "T4T_MIN_MLE \<equiv> 0x000F"
abbreviation (input) RW_T4T_NDEF_STATUS_NDEF_DETECTED :: byte where "RW_T4T_NDEF_STATUS_NDEF_DETECTED \<equiv> 1"
abbreviation (input) RW_T4T_NDEF_STATUS_NDEF_READ_ONLY :: byte where "RW_T4T_NDEF_STATUS_NDEF_READ_ONLY \<equiv> 2"
abbreviation (input) NFC_STATUS_BAD_RESP :: byte where "NFC_STATUS_BAD_RESP \<equiv> 0xE7"
abbreviation (input) NFC_STATUS_CMD_NOT_CMPLTD :: byte where "NFC_STATUS_CMD_NOT_CMPLTD \<equiv> 0xE8"
abbreviation (input) NFC_PROTOCOL_ISO_DEP :: byte where "NFC_PROTOCOL_ISO_DEP \<equiv> 4"
abbreviation (input) RW_NDEF_FL_READ_ONLY :: byte where "RW_NDEF_FL_READ_ONLY \<equiv> 0x01"
abbreviation (input) RW_NDEF_FL_FORMATED :: byte where "RW_NDEF_FL_FORMATED \<equiv> 0x02"
abbreviation (input) RW_NDEF_FL_SUPPORTED :: byte where "RW_NDEF_FL_SUPPORTED \<equiv> 0x04"
abbreviation (input) RW_NDEF_FL_UNKNOWN :: byte where "RW_NDEF_FL_UNKNOWN \<equiv> 0x08"

datatype rw_state =
    RW_T4T_STATE_NOT_ACTIVATED
  | RW_T4T_STATE_IDLE
  | RW_T4T_STATE_DETECT_NDEF
  | RW_T4T_STATE_READ_NDEF
  | RW_T4T_STATE_UPDATE_NDEF
  | RW_T4T_STATE_PRESENCE_CHECK
  | RW_T4T_STATE_SET_READ_ONLY
  | RW_T4T_STATE_NDEF_FORMAT
  | RW_T3BT_STATE_GET_PROP_DATA

datatype rw_sub_state =
    RW_T4T_SUBSTATE_WAIT_SELECT_APP
  | RW_T4T_SUBSTATE_WAIT_SELECT_CC
  | RW_T4T_SUBSTATE_WAIT_CC_FILE
  | RW_T4T_SUBSTATE_WAIT_SELECT_NDEF_FILE
  | RW_T4T_SUBSTATE_WAIT_READ_NLEN
  | RW_T4T_SUBSTATE_WAIT_READ_RESP
  | RW_T4T_SUBSTATE_WAIT_UPDATE_RESP
  | RW_T4T_SUBSTATE_WAIT_UPDATE_NLEN
  | RW_T4T_SUBSTATE_WAIT_UPDATE_CC
  | RW_T4T_SUBSTATE_WAIT_GET_HW_VERSION
  | RW_T4T_SUBSTATE_WAIT_GET_SW_VERSION
  | RW_T4T_SUBSTATE_WAIT_GET_UID
  | RW_T4T_SUBSTATE_WAIT_CREATE_APP
  | RW_T4T_SUBSTATE_WAIT_CREATE_CC
  | RW_T4T_SUBSTATE_WAIT_CREATE_NDEF
  | RW_T4T_SUBSTATE_WAIT_WRITE_CC
  | RW_T4T_SUBSTATE_WAIT_WRITE_NDEF
  | RW_T3BT_SUBSTATE_WAIT_GET_ATTRIB
  | RW_T3BT_SUBSTATE_WAIT_GET_PUPI

datatype rw_event =
    RW_T4T_NDEF_DETECT_EVT
  | RW_T4T_NDEF_READ_EVT
  | RW_T4T_NDEF_READ_CPLT_EVT
  | RW_T4T_NDEF_READ_FAIL_EVT
  | RW_T4T_NDEF_UPDATE_CPLT_EVT
  | RW_T4T_NDEF_UPDATE_FAIL_EVT
  | RW_T4T_SET_TO_RO_EVT
  | RW_T4T_PRESENCE_CHECK_EVT
  | RW_T4T_RAW_FRAME_EVT
  | RW_T4T_INTF_ERROR_EVT
  | RW_T4T_NDEF_FORMAT_CPLT_EVT
  | RW_T4T_RAW_FRAME_RF_WTX_EVT
  | RW_T3BT_RAW_READ_CPLT_EVT

text \<open>The data of an event: the members of the union \<open>tRW_DATA\<close> that the code sets.\<close>

datatype rw_data =
    Rw_unset
  | Rw_status byte
  | Rw_t4t_sw byte byte byte
  | Rw_ndef_fail byte byte byte byte
  | Rw_ndef byte byte u32 u32 "byte option"
  | Rw_data byte bt_hdr

record ndef_fc =
  file_id :: u16
  fc_max_file_size :: u16
  read_access :: byte
  write_access :: byte

record t4t_cc =
  cclen :: u16
  cc_version :: byte
  max_le :: u16
  max_lc :: u16
  ndef_fc :: ndef_fc

record rw_cb = rf_link +
  rw_cback :: bool
  rw_state :: rw_state
  sub_state :: rw_sub_state
  version :: byte
  ndef_length :: u16
  p_update_data :: "byte list option"
  rw_length :: u16
  rw_offset :: u16
  cc :: t4t_cc
  ndef_status :: byte
  channel :: byte
  max_read_size :: u16
  max_update_size :: u16
  card_size :: u16
  card_type :: byte
  pupiid_len :: byte
  pupiid :: "byte list"
  rw_log :: "(rw_event \<times> rw_data) list"

type_synonym rw_env = "rw_event \<Rightarrow> rw_data \<Rightarrow> rw_cb \<Rightarrow> rw_cb option"

definition quiet_rw :: rw_env where
  "quiet_rw ev d s = Some (s\<lparr>rw_log := rw_log s @ [(ev, d)]\<rparr>)"

definition upd_cc :: "(t4t_cc \<Rightarrow> t4t_cc) \<Rightarrow> rw_cb \<Rightarrow> rw_cb" where
  "upd_cc f s = s\<lparr>cc := f (cc s)\<rparr>"

definition ndef_has :: "byte \<Rightarrow> rw_cb \<Rightarrow> bool" where "ndef_has f s \<longleftrightarrow> ndef_status s AND f \<noteq> 0"
definition ndef_clear :: "byte \<Rightarrow> rw_cb \<Rightarrow> rw_cb" where "ndef_clear f s = s\<lparr>ndef_status := ndef_status s AND NOT f\<rparr>"

text \<open>The calls of the callback that check the pointer, and those that do not.\<close>

definition rw_notify :: "rw_env \<Rightarrow> rw_event \<Rightarrow> rw_data \<Rightarrow> rw_cb \<Rightarrow> rw_cb option" where
  "rw_notify E ev d s = (if rw_cback s then E ev d s else Some s)"

definition rw_call :: "rw_env \<Rightarrow> rw_event \<Rightarrow> rw_data \<Rightarrow> rw_cb \<Rightarrow> rw_cb option" where
  "rw_call E ev d s = (if rw_cback s then E ev d s else None)"

section \<open>Commands\<close>

definition rw_t4t_send_to_lower :: "bt_hdr \<Rightarrow> rw_cb \<Rightarrow> bool \<times> rw_cb" where
  "rw_t4t_send_to_lower b s =
     (let (sent, s) = tag_send_data b s in if sent then (True, s\<lparr>tag_timer := True\<rparr>) else (False, s))"

text \<open>A command in a fresh buffer: the shape all the functions that send one have.\<close>

definition rw_send :: "byte list \<Rightarrow> rw_cb \<Rightarrow> bool \<times> rw_cb" where
  "rw_send bs s = (let (got, s) = tag_getpoolbuf s in if got then rw_t4t_send_to_lower (apdu bs) s else (False, s))"

definition rw_t4t_select_file :: "u16 \<Rightarrow> rw_cb \<Rightarrow> bool \<times> rw_cb" where
  "rw_t4t_select_file fid s =
     rw_send ([T4T_CMD_CLASS, T4T_CMD_INS_SELECT, T4T_CMD_P1_SELECT_BY_FILE_ID,
        if version s = T4T_VERSION_2_0 then T4T_CMD_P2_FIRST_OR_ONLY_0CH else T4T_CMD_P2_FIRST_OR_ONLY_00H, 2]
       @ be16_bytes fid) s"

definition rw_t4t_read_file :: "u16 \<Rightarrow> u16 \<Rightarrow> bool \<Rightarrow> rw_cb \<Rightarrow> bool \<times> rw_cb" where
  "rw_t4t_read_file off len is_continue s =
     (let (got, s) = tag_getpoolbuf s in
      if \<not> got then (False, s)
      else
        let s = (if is_continue then s else s\<lparr>rw_offset := off, rw_length := len\<rparr>);
            len = (if max_read_size s < len then ucast (ucast (max_read_size s) :: byte) else len) in
        rw_t4t_send_to_lower
          (apdu ([T4T_CMD_CLASS OR channel s, T4T_CMD_INS_READ_BINARY] @ be16_bytes off @ [ucast len])) s)"

definition rw_t4t_update_nlen :: "u16 \<Rightarrow> rw_cb \<Rightarrow> bool \<times> rw_cb" where
  "rw_t4t_update_nlen n s = rw_send ([T4T_CMD_CLASS, T4T_CMD_INS_UPDATE_BINARY, 0, 0, 2] @ be16_bytes n) s"

definition rw_t4t_update_file :: "rw_cb \<Rightarrow> (bool \<times> rw_cb) option" where
  "rw_t4t_update_file s =
     (let (got, s) = tag_getpoolbuf s in
      if \<not> got then Some (False, s)
      else
        let len = (if max_update_size s < rw_length s then ucast (ucast (max_update_size s) :: byte) else rw_length s) in
        do {
          data \<leftarrow> p_update_data s;
          bs \<leftarrow> rd_bytes data 0 (unat len);
          b \<leftarrow> append_bytes bs (apdu ([T4T_CMD_CLASS, T4T_CMD_INS_UPDATE_BINARY] @ be16_bytes (rw_offset s) @ [ucast len]));
          let (sent, s) = rw_t4t_send_to_lower b s;
          Some (if sent then (True, s\<lparr>rw_offset := rw_offset s + len, rw_length := rw_length s - len,
                                     p_update_data := Some (drop (unat len) data)\<rparr>)
                else (False, s)) })"

definition rw_t4t_update_cc_to_readonly :: "rw_cb \<Rightarrow> bool \<times> rw_cb" where
  "rw_t4t_update_cc_to_readonly s =
     rw_send ([T4T_CMD_CLASS, T4T_CMD_INS_UPDATE_BINARY] @ be16_bytes (7 + 7) @ [1, T4T_FC_NO_WRITE_ACCESS]) s"

definition rw_t4t_select_application :: "byte \<Rightarrow> rw_cb \<Rightarrow> bool \<times> rw_cb" where
  "rw_t4t_select_application v s =
     (let (got, s) = tag_getpoolbuf s;
          front = [T4T_CMD_CLASS, T4T_CMD_INS_SELECT, T4T_CMD_P1_SELECT_BY_NAME, T4T_CMD_P2_FIRST_OR_ONLY_00H, 7] in
      if \<not> got then (False, s)
      else if v = T4T_VERSION_1_0 then rw_t4t_send_to_lower (apdu (front @ t4t_v10_ndef_tag_aid)) s
      else if v = T4T_VERSION_2_0 then rw_t4t_send_to_lower (apdu (front @ t4t_v20_ndef_tag_aid @ [0])) s
      else (False, s))"

definition rw_t4t_validate_cc_file :: "rw_cb \<Rightarrow> bool" where
  "rw_t4t_validate_cc_file s =
     (let c = cc s; f = ndef_fc c in
        T4T_CC_FILE_MIN_LEN \<le> cclen c \<and> drop_bit 4 (cc_version c) = drop_bit 4 (version s)
        \<and> 0x000F \<le> max_le c \<and> 1 \<le> max_lc c
        \<and> \<not> (file_id f = T4T_CC_FILE_ID \<or> file_id f = 0xE102 \<or> file_id f = 0xE103
             \<or> file_id f = 0 \<and> cc_version c = 0x20 \<or> file_id f = 0x3F00 \<or> file_id f = 0x3FFF \<or> file_id f = 0xFFFF)
        \<and> \<not> (fc_max_file_size f < 5 \<or> fc_max_file_size f = 0xFFFF)
        \<and> read_access f = T4T_FC_READ_ACCESS
        \<and> \<not> (write_access f \<noteq> T4T_FC_WRITE_ACCESS \<and> write_access f < 0x80))"

section \<open>Errors\<close>

text \<open>The event that reports an error in a state, with its data.\<close>

definition error_event :: "rw_state \<Rightarrow> byte \<Rightarrow> byte \<Rightarrow> byte \<Rightarrow> (rw_event \<times> rw_data) option" where
  "error_event state st sw1 sw2 =
     (case state of
        RW_T4T_STATE_DETECT_NDEF \<Rightarrow> Some (RW_T4T_NDEF_DETECT_EVT, Rw_ndef_fail st sw1 sw2 RW_NDEF_FL_UNKNOWN)
      | RW_T4T_STATE_READ_NDEF \<Rightarrow> Some (RW_T4T_NDEF_READ_FAIL_EVT, Rw_t4t_sw st sw1 sw2)
      | RW_T4T_STATE_UPDATE_NDEF \<Rightarrow> Some (RW_T4T_NDEF_UPDATE_FAIL_EVT, Rw_t4t_sw st sw1 sw2)
      | RW_T4T_STATE_PRESENCE_CHECK \<Rightarrow> Some (RW_T4T_PRESENCE_CHECK_EVT, Rw_t4t_sw NFC_STATUS_FAILED sw1 sw2)
      | RW_T4T_STATE_SET_READ_ONLY \<Rightarrow> Some (RW_T4T_SET_TO_RO_EVT, Rw_t4t_sw st sw1 sw2)
      | RW_T4T_STATE_NDEF_FORMAT \<Rightarrow> Some (RW_T4T_NDEF_FORMAT_CPLT_EVT, Rw_t4t_sw NFC_STATUS_FAILED sw1 sw2)
      | RW_T3BT_STATE_GET_PROP_DATA \<Rightarrow> Some (RW_T3BT_RAW_READ_CPLT_EVT, Rw_t4t_sw NFC_STATUS_FAILED sw1 sw2)
      | _ \<Rightarrow> None)"

definition rw_t4t_handle_error :: "rw_env \<Rightarrow> byte \<Rightarrow> byte \<Rightarrow> byte \<Rightarrow> rw_cb \<Rightarrow> rw_cb option" where
  "rw_t4t_handle_error E st sw1 sw2 s =
     (let s' = s\<lparr>tag_timer := False, rw_state := RW_T4T_STATE_IDLE\<rparr> in
      if rw_cback s then
        (case error_event (rw_state s) st sw1 sw2 of None \<Rightarrow> Some s' | Some (ev, d) \<Rightarrow> E ev d s')
      else Some s')"

text \<open>
  The steps of the state machines: a command goes out and the sub state becomes \<open>sub\<close>, or the error of a command that
  could not be sent is reported. The status words are the last two bytes of a response.
\<close>

definition rw_failed :: "rw_env \<Rightarrow> rw_cb \<Rightarrow> rw_cb option" where
  "rw_failed E s = rw_t4t_handle_error E NFC_STATUS_FAILED 0 0 s"

definition rw_next :: "rw_env \<Rightarrow> rw_sub_state \<Rightarrow> bool \<times> rw_cb \<Rightarrow> rw_cb option" where
  "rw_next E sub r = (let (sent, s) = r in if sent then Some (s\<lparr>sub_state := sub\<rparr>) else rw_failed E s)"

definition status_bytes :: "byte list \<Rightarrow> (byte \<times> byte) option" where
  "status_bytes bs =
     (if 2 \<le> length bs then do { a \<leftarrow> rd bs (length bs - 2); b \<leftarrow> rd bs (length bs - 1); Some (a, b) } else None)"

end
