(* ===== verification/Rw_T4t_Format.thy ===== *)
theory Rw_T4t_Format
  imports Rw_T4t
begin

text \<open>
  The formatting of DESFire cards and the PUPI of type B cards, \<open>nfc/tags/rw_t4t.c\<close>: the commands, the two state
  machines \<open>rw_t4t_sm_ndef_format\<close> and \<open>rw_t3Bt_sm_get_card_id\<close>, and the calls that start them.
\<close>

abbreviation (input) T4T_CMD_DES_CLASS :: byte where "T4T_CMD_DES_CLASS \<equiv> 0x90"
abbreviation (input) T4T_CMD_INS_GET_HW_VERSION :: byte where "T4T_CMD_INS_GET_HW_VERSION \<equiv> 0x60"
abbreviation (input) T4T_CMD_CREATE_AID :: byte where "T4T_CMD_CREATE_AID \<equiv> 0xCA"
abbreviation (input) T4T_CMD_SELECT_APP :: byte where "T4T_CMD_SELECT_APP \<equiv> 0x5A"
abbreviation (input) T4T_CMD_CREATE_DATAFILE :: byte where "T4T_CMD_CREATE_DATAFILE \<equiv> 0xCD"
abbreviation (input) T4T_CMD_DES_WRITE :: byte where "T4T_CMD_DES_WRITE \<equiv> 0x3D"
abbreviation (input) T4T_ADDI_FRAME_RESP :: byte where "T4T_ADDI_FRAME_RESP \<equiv> 0xAF"
abbreviation (input) T4T_TYPE_DESFIRE_EV1 :: byte where "T4T_TYPE_DESFIRE_EV1 \<equiv> 1"

definition is_ev1 :: "rw_cb \<Rightarrow> bool" where "is_ev1 s \<longleftrightarrow> card_type s = T4T_TYPE_DESFIRE_EV1"

section \<open>Commands\<close>

definition rw_t4t_get_hw_version :: "rw_cb \<Rightarrow> bool \<times> rw_cb" where
  "rw_t4t_get_hw_version s = rw_send [T4T_CMD_DES_CLASS, T4T_CMD_INS_GET_HW_VERSION, 0, 0, 0] s"

definition rw_t4t_get_sw_version :: "rw_cb \<Rightarrow> bool \<times> rw_cb" where
  "rw_t4t_get_sw_version s = rw_send [T4T_CMD_DES_CLASS, T4T_ADDI_FRAME_RESP, 0, 0, 0] s"

definition rw_t4t_get_uid_details :: "rw_cb \<Rightarrow> bool \<times> rw_cb" where
  "rw_t4t_get_uid_details s = rw_send [T4T_CMD_DES_CLASS, T4T_ADDI_FRAME_RESP, 0, 0, 0] s"

definition rw_t4t_update_version_details :: "byte list \<Rightarrow> rw_cb \<Rightarrow> (bool \<times> rw_cb) option" where
  "rw_t4t_update_version_details bs s = do {
     major \<leftarrow> rd bs 3;
     minor \<leftarrow> rd bs 4;
     if major = 0 \<and> minor = 6 then Some (True, s\<lparr>card_size := 0xEDE\<rparr>)
     else if 1 \<le> major then do {
       size_id \<leftarrow> rd bs 5;
       let s = s\<lparr>card_type := T4T_TYPE_DESFIRE_EV1\<rparr>;
       Some (if size_id = 0x16 then (True, s\<lparr>card_size := 2048\<rparr>)
             else if size_id = 0x18 then (True, s\<lparr>card_size := 4096\<rparr>)
             else if size_id = 0x1A then (True, s\<lparr>card_size := 7680\<rparr>)
             else (False, s)) }
     else Some (False, s) }"

definition rw_t4t_create_app :: "rw_cb \<Rightarrow> bool \<times> rw_cb" where
  "rw_t4t_create_app s =
     rw_send ([T4T_CMD_DES_CLASS, T4T_CMD_CREATE_AID, 0, 0] @
       (if is_ev1 s
        then [5 + 7 + 2, 0x01, 0x00, 0x00, 0x0F, 0x21, 0x05, 0xE1, 0xD2, 0x76, 0x00, 0x00, 0x85, 0x01, 0x01, 0x00]
        else [5, 0x10, 0xEE, 0xEE, 0x0F, 0x01, 0x00])) s"

definition rw_t4t_select_app :: "rw_cb \<Rightarrow> bool \<times> rw_cb" where
  "rw_t4t_select_app s =
     rw_send ([T4T_CMD_DES_CLASS, T4T_CMD_SELECT_APP, 0, 0, 3]
       @ (if is_ev1 s then [0x01, 0x00, 0x00] else [0x10, 0xEE, 0xEE]) @ [0]) s"

definition rw_t4t_create_ccfile :: "rw_cb \<Rightarrow> bool \<times> rw_cb" where
  "rw_t4t_create_ccfile s =
     rw_send ([T4T_CMD_DES_CLASS, T4T_CMD_CREATE_DATAFILE, 0, 0]
       @ (if is_ev1 s then [0x09, 0x01, 0x03, 0xE1] else [0x07, 0x03])
       @ [0x00, 0xEE, 0xEE, 0x0F, 0x00, 0x00, 0x00]) s"

definition rw_t4t_create_ndef :: "rw_cb \<Rightarrow> bool \<times> rw_cb" where
  "rw_t4t_create_ndef s =
     rw_send ([T4T_CMD_DES_CLASS, T4T_CMD_CREATE_DATAFILE, 0, 0]
       @ (if is_ev1 s then [0x09, 0x02, 0x04, 0xE1] else [0x07, 0x04])
       @ [0x00, 0xEE, 0xEE, ucast (card_size s), ucast (drop_bit 8 (card_size s)), 0x00, 0x00]) s"

definition rw_t4t_write_cc :: "rw_cb \<Rightarrow> bool \<times> rw_cb" where
  "rw_t4t_write_cc s =
     rw_send ([T4T_CMD_DES_CLASS, T4T_CMD_DES_WRITE, 0, 0, 0x16, if is_ev1 s then 0x01 else 0x03, 0, 0, 0, 0x0F, 0, 0]
       @ [0x00, 0x0F, if is_ev1 s then 0x20 else 0x10, 0x00, 0x3B, 0x00, 0x34, 0x04, 0x06, 0xE1, 0x04]
       @ (if is_ev1 s then be16_bytes (card_size s) else [0x04, 0x00]) @ [0x00, 0x00] @ [0]) s"

definition rw_t4t_write_ndef :: "rw_cb \<Rightarrow> bool \<times> rw_cb" where
  "rw_t4t_write_ndef s =
     rw_send ([T4T_CMD_DES_CLASS, T4T_CMD_DES_WRITE, 0, 0, 0x09, if is_ev1 s then 0x02 else 0x04,
       0, 0, 0, 0x02, 0, 0, 0, 0, 0]) s"

definition rw_t3bt_get_pupi :: "rw_cb \<Rightarrow> bool \<times> rw_cb" where
  "rw_t3bt_get_pupi s = rw_send [0x00, 0x36, 0x00, 0x00, 0x08] s"

section \<open>The state machine of formatting\<close>

text \<open>The response to a DESFire command: \<open>0x9100\<close>, for a creation also \<open>0x91DE\<close> (exists already).\<close>

definition des_step ::
  "rw_env \<Rightarrow> bool \<Rightarrow> (rw_cb \<Rightarrow> bool \<times> rw_cb) \<Rightarrow> rw_sub_state \<Rightarrow> byte list \<Rightarrow> rw_cb \<Rightarrow> rw_cb option" where
  "des_step E creates send sub bs s = do {
     (a, b) \<leftarrow> status_bytes bs;
     if be16_word a b = 0x9100 \<or> creates \<and> be16_word a b = 0x91DE then rw_next E sub (send s)
     else rw_t4t_handle_error E NFC_STATUS_CMD_NOT_CMPLTD a b s }"

definition last_byte :: "byte list \<Rightarrow> byte option" where
  "last_byte bs = (if bs = [] then None else rd bs (length bs - 1))"

definition rw_t4t_sm_ndef_format :: "rw_env \<Rightarrow> bt_hdr \<Rightarrow> rw_cb \<Rightarrow> rw_cb option" where
  "rw_t4t_sm_ndef_format E p_r_apdu s =
     (let bs = body p_r_apdu in
      case sub_state s of
        RW_T4T_SUBSTATE_WAIT_GET_HW_VERSION \<Rightarrow> do {
          x \<leftarrow> last_byte bs;
          if x = T4T_ADDI_FRAME_RESP then rw_next E RW_T4T_SUBSTATE_WAIT_GET_SW_VERSION (rw_t4t_get_sw_version s)
          else rw_failed E s }
      | RW_T4T_SUBSTATE_WAIT_GET_SW_VERSION \<Rightarrow> do {
          x \<leftarrow> last_byte bs;
          if x = T4T_ADDI_FRAME_RESP then do {
            (known, s) \<leftarrow> rw_t4t_update_version_details bs s;
            s \<leftarrow> (if known then Some s else rw_failed E s);
            let (sent, s) = rw_t4t_get_uid_details s;
            s \<leftarrow> (if sent then Some s else rw_failed E s);
            Some (s\<lparr>sub_state := RW_T4T_SUBSTATE_WAIT_GET_UID\<rparr>) }
          else rw_failed E s }
      | RW_T4T_SUBSTATE_WAIT_GET_UID \<Rightarrow> des_step E False rw_t4t_create_app RW_T4T_SUBSTATE_WAIT_CREATE_APP bs s
      | RW_T4T_SUBSTATE_WAIT_CREATE_APP \<Rightarrow> des_step E True rw_t4t_select_app RW_T4T_SUBSTATE_WAIT_SELECT_APP bs s
      | RW_T4T_SUBSTATE_WAIT_SELECT_APP \<Rightarrow> des_step E False rw_t4t_create_ccfile RW_T4T_SUBSTATE_WAIT_CREATE_CC bs s
      | RW_T4T_SUBSTATE_WAIT_CREATE_CC \<Rightarrow> des_step E True rw_t4t_create_ndef RW_T4T_SUBSTATE_WAIT_CREATE_NDEF bs s
      | RW_T4T_SUBSTATE_WAIT_CREATE_NDEF \<Rightarrow> des_step E True rw_t4t_write_cc RW_T4T_SUBSTATE_WAIT_WRITE_CC bs s
      | RW_T4T_SUBSTATE_WAIT_WRITE_CC \<Rightarrow> des_step E False rw_t4t_write_ndef RW_T4T_SUBSTATE_WAIT_WRITE_NDEF bs s
      | RW_T4T_SUBSTATE_WAIT_WRITE_NDEF \<Rightarrow> do {
          (a, b) \<leftarrow> status_bytes bs;
          if be16_word a b \<noteq> 0x9100 then rw_t4t_handle_error E NFC_STATUS_CMD_NOT_CMPLTD a b s
          else rw_notify E RW_T4T_NDEF_FORMAT_CPLT_EVT
                 (Rw_ndef NFC_STATUS_OK NFC_PROTOCOL_ISO_DEP (ucast (card_size s)) 0 None)
                 (s\<lparr>rw_state := RW_T4T_STATE_IDLE\<rparr>) }
      | _ \<Rightarrow> rw_failed E s)"

definition RW_T4tFormatNDef :: "rw_cb \<Rightarrow> byte \<times> rw_cb" where
  "RW_T4tFormatNDef s =
     (if rw_state s \<noteq> RW_T4T_STATE_IDLE then (NFC_STATUS_FAILED, s)
      else let (sent, s) = rw_t4t_get_hw_version (s\<lparr>card_type := 0\<rparr>) in
        if sent then (NFC_STATUS_OK,
          s\<lparr>rw_state := RW_T4T_STATE_NDEF_FORMAT, sub_state := RW_T4T_SUBSTATE_WAIT_GET_HW_VERSION\<rparr>)
        else (NFC_STATUS_FAILED, s))"

section \<open>The PUPI of a card\<close>

text \<open>\<open>nfa_rw_update_pupi_id\<close> of \<open>nfa/rw/nfa_rw_act.c\<close>, which copies into an array of 8 bytes.\<close>

definition nfa_rw_update_pupi_id :: "byte list \<Rightarrow> byte \<Rightarrow> rw_cb \<Rightarrow> rw_cb option" where
  "nfa_rw_update_pupi_id bs len s =
     (if len \<noteq> 0
      then do { x \<leftarrow> rd_bytes bs 0 (unat len); a \<leftarrow> wr_bytes (pupiid s) 0 x; Some (s\<lparr>pupiid_len := len, pupiid := a\<rparr>) }
      else Some s)"

definition rw_t3Bt_sm_get_card_id :: "rw_env \<Rightarrow> bt_hdr \<Rightarrow> rw_cb \<Rightarrow> rw_cb option" where
  "rw_t3Bt_sm_get_card_id E p_r_apdu s =
     (let bs = body p_r_apdu in
      case sub_state s of
        RW_T3BT_SUBSTATE_WAIT_GET_ATTRIB \<Rightarrow>
          (if blen p_r_apdu = 0 then None
           else rw_next E RW_T3BT_SUBSTATE_WAIT_GET_PUPI (rw_t3bt_get_pupi s))
      | RW_T3BT_SUBSTATE_WAIT_GET_PUPI \<Rightarrow>
          (if length bs < 3 then None
           else do {
             a \<leftarrow> rd bs (length bs - 3);
             b \<leftarrow> rd bs (length bs - 2);
             if be16_word a b \<noteq> 0x9000 then rw_t4t_handle_error E NFC_STATUS_CMD_NOT_CMPLTD a b s
             else do {
               s \<leftarrow> nfa_rw_update_pupi_id bs (ucast (blen p_r_apdu - 3)) (s\<lparr>rw_state := RW_T4T_STATE_IDLE\<rparr>);
               rw_notify E RW_T3BT_RAW_READ_CPLT_EVT Rw_unset s } })
      | _ \<Rightarrow> rw_failed E s)"

text \<open>
  The call answers \<open>TRUE\<close> (1) and \<open>FALSE\<close> (0) where its type has a status code, \<open>NFC_STATUS_OK\<close> being 0.
\<close>

definition RW_T3BtGetPupiID :: "rw_cb \<Rightarrow> byte \<times> rw_cb" where
  "RW_T3BtGetPupiID s =
     (let (sent, s) = rw_send [0x1D, 0, 0, 0, 0, 0x00, 0x08, 0x01, 0x00] s in
      if sent then (1, s\<lparr>rw_state := RW_T3BT_STATE_GET_PROP_DATA, sub_state := RW_T3BT_SUBSTATE_WAIT_GET_ATTRIB\<rparr>)
      else (0, s))"

end
