(* ===== verification/Rw_T4t_Main.thy ===== *)
theory Rw_T4t_Main
  imports Rw_T4t_Format
begin

text \<open>
  The state machines of detection, reading, updating and write protection of \<open>nfc/tags/rw_t4t.c\<close>, the callback
  that takes what the core reports, the calls of the application, and of \<open>nfc/tags/rw_main.c\<close> the selection of
  this tag and the raw frames.
\<close>

section \<open>Detection\<close>

text \<open>The first 15 bytes of the capability container, as \<open>rw_t4t_sm_detect_ndef\<close> stores them.\<close>

definition read_cc :: "byte list \<Rightarrow> rw_cb \<Rightarrow> (bool \<times> rw_cb) option" where
  "read_cc bs s = do {
     l \<leftarrow> rd_be16 bs 0; v \<leftarrow> rd bs 2; le \<leftarrow> rd_be16 bs 3; lc \<leftarrow> rd_be16 bs 5; t \<leftarrow> rd bs 7; n \<leftarrow> rd bs 8;
     let s = upd_cc (\<lambda>c. c\<lparr>cclen := l, cc_version := v, max_le := le, max_lc := lc\<rparr>) s;
     if t = T4T_NDEF_FILE_CONTROL_TYPE \<and> n = T4T_FILE_CONTROL_LENGTH then do {
       f \<leftarrow> rd_be16 bs 9; m \<leftarrow> rd_be16 bs 11; ra \<leftarrow> rd bs 13; wa \<leftarrow> rd bs 14;
       Some (True, upd_cc (\<lambda>c. c\<lparr>ndef_fc := \<lparr>file_id = f, fc_max_file_size = m, read_access = ra, write_access = wa\<rparr>\<rparr>) s) }
     else Some (False, s) }"

definition not_detected :: "rw_env \<Rightarrow> byte \<Rightarrow> byte \<Rightarrow> byte \<Rightarrow> rw_cb \<Rightarrow> rw_cb option" where
  "not_detected E st sw1 sw2 s = rw_t4t_handle_error E st sw1 sw2 (ndef_clear RW_T4T_NDEF_STATUS_NDEF_DETECTED s)"

text \<open>What a command may carry: what the file allows, the buffers hold and one byte expresses.\<close>

definition per_command :: "u16 \<Rightarrow> u16 \<Rightarrow> u16" where
  "per_command cc_max buf_max = (let n = (if buf_max \<le> cc_max then buf_max else cc_max) in if 0xFF \<le> n then 0xFF else n)"

definition nlen_read :: "rw_env \<Rightarrow> u16 \<Rightarrow> rw_cb \<Rightarrow> rw_cb option" where
  "nlen_read E n s =
     (let f = ndef_fc (cc s); ro = (write_access f \<noteq> T4T_FC_WRITE_ACCESS) in
      if int (unat n) \<le> int (unat (fc_max_file_size f)) - 2
      then rw_notify E RW_T4T_NDEF_DETECT_EVT
             (Rw_ndef NFC_STATUS_OK NFC_PROTOCOL_ISO_DEP
                (ucast (fc_max_file_size f) - 2) (ucast n)
                (Some ((RW_NDEF_FL_SUPPORTED OR RW_NDEF_FL_FORMATED) OR (if ro then RW_NDEF_FL_READ_ONLY else 0))))
             (s\<lparr>ndef_status := RW_T4T_NDEF_STATUS_NDEF_DETECTED OR (if ro then RW_T4T_NDEF_STATUS_NDEF_READ_ONLY else 0),
                max_read_size := per_command (max_le (cc s)) RW_T4T_MAX_DATA_PER_READ,
                max_update_size := per_command (max_lc (cc s)) RW_T4T_MAX_DATA_PER_WRITE,
                ndef_length := n, rw_state := RW_T4T_STATE_IDLE\<rparr>)
      else not_detected E NFC_STATUS_BAD_RESP 0 0 s)"

definition rw_t4t_sm_detect_ndef :: "rw_env \<Rightarrow> bt_hdr \<Rightarrow> rw_cb \<Rightarrow> rw_cb option" where
  "rw_t4t_sm_detect_ndef E p_r_apdu s = do {
     let bs = body p_r_apdu;
     (a, b) \<leftarrow> status_bytes bs;
     if be16_word a b \<noteq> T4T_RSP_CMD_CMPLTED then
       (if sub_state s = RW_T4T_SUBSTATE_WAIT_SELECT_APP \<and> version s = T4T_VERSION_2_0
        then (let (sent, s) = rw_t4t_select_application T4T_VERSION_1_0 (s\<lparr>version := T4T_VERSION_1_0\<rparr>) in
              if sent then Some s else rw_failed E s)
        else not_detected E NFC_STATUS_CMD_NOT_CMPLTD a b s)
     else case sub_state s of
       RW_T4T_SUBSTATE_WAIT_SELECT_APP \<Rightarrow>
         rw_next E RW_T4T_SUBSTATE_WAIT_SELECT_CC (rw_t4t_select_file T4T_CC_FILE_ID s)
     | RW_T4T_SUBSTATE_WAIT_SELECT_CC \<Rightarrow>
         rw_next E RW_T4T_SUBSTATE_WAIT_CC_FILE (rw_t4t_read_file 0 T4T_CC_FILE_MIN_LEN False s)
     | RW_T4T_SUBSTATE_WAIT_CC_FILE \<Rightarrow>
         (if T4T_CC_FILE_MIN_LEN + 2 \<le> blen p_r_apdu
          then do { (complete, s) \<leftarrow> read_cc bs s;
                    if complete \<and> rw_t4t_validate_cc_file s
                    then rw_next E RW_T4T_SUBSTATE_WAIT_SELECT_NDEF_FILE (rw_t4t_select_file (file_id (ndef_fc (cc s))) s)
                    else not_detected E NFC_STATUS_BAD_RESP 0 0 s }
          else not_detected E NFC_STATUS_BAD_RESP 0 0 s)
     | RW_T4T_SUBSTATE_WAIT_SELECT_NDEF_FILE \<Rightarrow>
         rw_next E RW_T4T_SUBSTATE_WAIT_READ_NLEN (rw_t4t_read_file 0 T4T_FILE_LENGTH_SIZE False s)
     | RW_T4T_SUBSTATE_WAIT_READ_NLEN \<Rightarrow>
         (if blen p_r_apdu = T4T_FILE_LENGTH_SIZE + 2
          then do { n \<leftarrow> rd_be16 bs 0; nlen_read E n s }
          else not_detected E NFC_STATUS_BAD_RESP 0 0 s)
     | _ \<Rightarrow> rw_failed E s }"

section \<open>Reading\<close>

definition rw_t4t_sm_read_ndef :: "rw_env \<Rightarrow> bt_hdr \<Rightarrow> rw_cb \<Rightarrow> rw_cb option" where
  "rw_t4t_sm_read_ndef E p_r_apdu s = do {
     let bs = body p_r_apdu;
     (a, b) \<leftarrow> status_bytes bs;
     if be16_word a b \<noteq> T4T_RSP_CMD_CMPLTED then rw_t4t_handle_error E NFC_STATUS_CMD_NOT_CMPLTD a b s
     else if sub_state s = RW_T4T_SUBSTATE_WAIT_READ_RESP then
       (let r = p_r_apdu\<lparr>body := take (length bs - 2) bs\<rparr>; n = blen p_r_apdu - 2 in
        if 0 < n \<and> n \<le> rw_length s then
          (let s = s\<lparr>rw_length := rw_length s - n, rw_offset := rw_offset s + n\<rparr> in
           if \<not> rw_cback s then Some (s\<lparr>rw_length := 0, rw_state := RW_T4T_STATE_IDLE\<rparr>)
           else if 0 < rw_length s then do {
             s \<leftarrow> E RW_T4T_NDEF_READ_EVT (Rw_data NFC_STATUS_OK r) s;
             let (sent, s) = rw_t4t_read_file (rw_offset s) (rw_length s) True s;
             if sent then Some s else rw_failed E s }
           else E RW_T4T_NDEF_READ_CPLT_EVT (Rw_data NFC_STATUS_OK r) (s\<lparr>rw_state := RW_T4T_STATE_IDLE\<rparr>))
        else rw_t4t_handle_error E NFC_STATUS_BAD_RESP 0 0 s)
     else rw_failed E s }"

section \<open>Updating and write protection\<close>

text \<open>A part of the data goes out; the error of one that could not is reported, and the pointer dropped.\<close>

definition update_part :: "rw_env \<Rightarrow> rw_cb \<Rightarrow> rw_cb option" where
  "update_part E s = do {
     (sent, s) \<leftarrow> rw_t4t_update_file s;
     if sent then Some s else do { s \<leftarrow> rw_failed E s; Some (s\<lparr>p_update_data := None\<rparr>) } }"

definition rw_t4t_sm_update_ndef :: "rw_env \<Rightarrow> bt_hdr \<Rightarrow> rw_cb \<Rightarrow> rw_cb option" where
  "rw_t4t_sm_update_ndef E p_r_apdu s = do {
     (a, b) \<leftarrow> status_bytes (body p_r_apdu);
     if be16_word a b \<noteq> T4T_RSP_CMD_CMPLTED then rw_t4t_handle_error E NFC_STATUS_CMD_NOT_CMPLTD a b s
     else case sub_state s of
       RW_T4T_SUBSTATE_WAIT_UPDATE_NLEN \<Rightarrow>
         (if p_update_data s \<noteq> None then update_part E (s\<lparr>sub_state := RW_T4T_SUBSTATE_WAIT_UPDATE_RESP\<rparr>)
          else rw_notify E RW_T4T_NDEF_UPDATE_CPLT_EVT (Rw_status NFC_STATUS_OK) (s\<lparr>rw_state := RW_T4T_STATE_IDLE\<rparr>))
     | RW_T4T_SUBSTATE_WAIT_UPDATE_RESP \<Rightarrow>
         (if 0 < rw_length s then update_part E s
          else rw_next E RW_T4T_SUBSTATE_WAIT_UPDATE_NLEN (rw_t4t_update_nlen (ndef_length s) (s\<lparr>p_update_data := None\<rparr>)))
     | _ \<Rightarrow> rw_failed E s }"

definition rw_t4t_sm_set_readonly :: "rw_env \<Rightarrow> bt_hdr \<Rightarrow> rw_cb \<Rightarrow> rw_cb option" where
  "rw_t4t_sm_set_readonly E p_r_apdu s = do {
     (a, b) \<leftarrow> status_bytes (body p_r_apdu);
     if be16_word a b \<noteq> T4T_RSP_CMD_CMPLTED then rw_t4t_handle_error E NFC_STATUS_CMD_NOT_CMPLTD a b s
     else case sub_state s of
       RW_T4T_SUBSTATE_WAIT_SELECT_CC \<Rightarrow> rw_next E RW_T4T_SUBSTATE_WAIT_UPDATE_CC (rw_t4t_update_cc_to_readonly s)
     | RW_T4T_SUBSTATE_WAIT_UPDATE_CC \<Rightarrow>
         (let s = upd_cc (\<lambda>c. c\<lparr>ndef_fc := (ndef_fc c)\<lparr>write_access := T4T_FC_NO_WRITE_ACCESS\<rparr>\<rparr>) s;
              s = s\<lparr>ndef_status := ndef_status s OR RW_T4T_NDEF_STATUS_NDEF_READ_ONLY\<rparr> in
          rw_next E RW_T4T_SUBSTATE_WAIT_SELECT_NDEF_FILE (rw_t4t_select_file (file_id (ndef_fc (cc s))) s))
     | RW_T4T_SUBSTATE_WAIT_SELECT_NDEF_FILE \<Rightarrow>
         rw_notify E RW_T4T_SET_TO_RO_EVT (Rw_status NFC_STATUS_OK) (s\<lparr>rw_state := RW_T4T_STATE_IDLE\<rparr>)
     | _ \<Rightarrow> rw_failed E s }"

section \<open>Events\<close>

definition rw_t4t_process_timeout :: "rw_env \<Rightarrow> rw_cb \<Rightarrow> rw_cb option" where
  "rw_t4t_process_timeout E s = rw_t4t_handle_error E NFC_STATUS_TIMEOUT 0 0 s"

text \<open>
  An error of the interface. Outside of idling, presence check and formatting the code reports \<open>rw_data.status\<close>
  before it has stored the status there: \<open>u\<close> is the value the variable happens to have.
\<close>

definition rw_interface_error :: "rw_env \<Rightarrow> byte \<Rightarrow> byte \<Rightarrow> rw_cb \<Rightarrow> rw_cb option" where
  "rw_interface_error E u st s =
     (let idle = s\<lparr>rw_state := RW_T4T_STATE_IDLE\<rparr> in
      case rw_state s of
        RW_T4T_STATE_PRESENCE_CHECK \<Rightarrow> rw_call E RW_T4T_PRESENCE_CHECK_EVT (Rw_status NFC_STATUS_FAILED) idle
      | RW_T4T_STATE_NDEF_FORMAT \<Rightarrow> rw_call E RW_T4T_NDEF_FORMAT_CPLT_EVT (Rw_status NFC_STATUS_FAILED) idle
      | RW_T4T_STATE_IDLE \<Rightarrow> rw_call E RW_T4T_INTF_ERROR_EVT (Rw_status st) idle
      | _ \<Rightarrow> rw_t4t_handle_error E u 0 0 s)"

definition rw_t4t_response :: "rw_env \<Rightarrow> byte \<Rightarrow> bt_hdr \<Rightarrow> rw_cb \<Rightarrow> rw_cb option" where
  "rw_t4t_response E st r s =
     (case rw_state s of
        RW_T4T_STATE_IDLE \<Rightarrow> rw_notify E RW_T4T_RAW_FRAME_EVT (Rw_data st r) s
      | RW_T4T_STATE_DETECT_NDEF \<Rightarrow> rw_t4t_sm_detect_ndef E r s
      | RW_T4T_STATE_READ_NDEF \<Rightarrow> rw_t4t_sm_read_ndef E r s
      | RW_T4T_STATE_UPDATE_NDEF \<Rightarrow> rw_t4t_sm_update_ndef E r s
      | RW_T4T_STATE_PRESENCE_CHECK \<Rightarrow>
          rw_call E RW_T4T_PRESENCE_CHECK_EVT (Rw_status NFC_STATUS_OK) (s\<lparr>rw_state := RW_T4T_STATE_IDLE\<rparr>)
      | RW_T4T_STATE_SET_READ_ONLY \<Rightarrow> rw_t4t_sm_set_readonly E r s
      | RW_T4T_STATE_NDEF_FORMAT \<Rightarrow> rw_t4t_sm_ndef_format E r s
      | RW_T3BT_STATE_GET_PROP_DATA \<Rightarrow> rw_t3Bt_sm_get_card_id E r s
      | RW_T4T_STATE_NOT_ACTIVATED \<Rightarrow> Some s)"

definition rw_t4t_data_cback :: "rw_env \<Rightarrow> byte \<Rightarrow> conn_evt \<Rightarrow> rw_cb \<Rightarrow> rw_cb option" where
  "rw_t4t_data_cback E u ev s =
     (let s = s\<lparr>tag_timer := False\<rparr> in
      case ev of
        NFC_DEACTIVATE_CEVT st typ is_ntf \<Rightarrow> Some (s\<lparr>rf_cback := False, rw_state := RW_T4T_STATE_NOT_ACTIVATED\<rparr>)
      | NFC_ERROR_CEVT st \<Rightarrow> rw_interface_error E u st s
      | NFC_DATA_CEVT st r \<Rightarrow> rw_t4t_response E st r s
      | NFC_RF_WTX_CEVT \<Rightarrow>
          (if rw_state s = RW_T4T_STATE_IDLE then rw_notify E RW_T4T_RAW_FRAME_RF_WTX_EVT Rw_unset s
           else Some (s\<lparr>tag_timer := True\<rparr>))
      | _ \<Rightarrow> Some s)"

section \<open>The calls of the application\<close>

definition rw_t4t_select :: "rw_cb \<Rightarrow> byte \<times> rw_cb" where
  "rw_t4t_select s =
     (NFC_STATUS_OK,
      upd_cc (\<lambda>c. c\<lparr>max_le := T4T_MIN_MLE\<rparr>)
        (s\<lparr>rf_cback := True, rw_state := RW_T4T_STATE_IDLE, version := T4T_VERSION_2_0,
           max_read_size := T4T_MAX_LENGTH_LE, max_update_size := T4T_MAX_LENGTH_LC\<rparr>))"

text \<open>The control block of the tag with all bytes zero, and the selection of this tag.\<close>

definition tcb_zero :: "rw_cb \<Rightarrow> rw_cb" where
  "tcb_zero s = s\<lparr>tag_timer := False, rw_state := RW_T4T_STATE_NOT_ACTIVATED, sub_state := RW_T4T_SUBSTATE_WAIT_SELECT_APP,
     version := 0, ndef_length := 0, p_update_data := None, rw_length := 0, rw_offset := 0,
     cc := \<lparr>cclen = 0, cc_version = 0, max_le = 0, max_lc = 0,
            ndef_fc = \<lparr>file_id = 0, fc_max_file_size = 0, read_access = 0, write_access = 0\<rparr>\<rparr>,
     ndef_status := 0, channel := 0, max_read_size := 0, max_update_size := 0, card_size := 0, card_type := 0\<rparr>"

definition RW_SetActivatedTagType_iso_dep :: "byte \<Rightarrow> bool \<Rightarrow> rw_cb \<Rightarrow> byte \<times> rw_cb" where
  "RW_SetActivatedTagType_iso_dep mode cback s =
     (if \<not> cback then (NFC_STATUS_FAILED, s)
      else
        let s = (tcb_zero s)\<lparr>rw_cback := True\<rparr>;
            (st, s) = (if mode = 0 \<or> mode = 1 then rw_t4t_select s else (NFC_STATUS_FAILED, s)) in
        if st \<noteq> NFC_STATUS_OK then (st, s\<lparr>rw_cback := False\<rparr>) else (st, s))"

definition RW_SendRawFrame :: "byte list \<Rightarrow> rw_cb \<Rightarrow> (byte \<times> rw_cb) option" where
  "RW_SendRawFrame raw s =
     (if \<not> rw_cback s then Some (NFC_STATUS_FAILED, s)
      else let (got, s) = tag_getpoolbuf s in
        if \<not> got then Some (NFC_STATUS_FAILED, s)
        else do {
          b \<leftarrow> append_bytes raw (apdu []);
          let (sent, s) = tag_send_data b s;
          Some (if sent then NFC_STATUS_OK else NFC_STATUS_FAILED, s) })"

text \<open>A procedure starts: the first command goes out, and the state becomes the one that waits for its response.\<close>

definition start_proc :: "rw_state \<Rightarrow> rw_sub_state \<Rightarrow> bool \<times> rw_cb \<Rightarrow> byte \<times> rw_cb" where
  "start_proc st sub r =
     (let (sent, s) = r in
      if sent then (NFC_STATUS_OK, s\<lparr>rw_state := st, sub_state := sub\<rparr>) else (NFC_STATUS_FAILED, s))"

definition RW_T4tDetectNDef :: "rw_cb \<Rightarrow> byte \<times> rw_cb" where
  "RW_T4tDetectNDef s =
     (if rw_state s \<noteq> RW_T4T_STATE_IDLE then (NFC_STATUS_FAILED, s)
      else if ndef_has RW_T4T_NDEF_STATUS_NDEF_DETECTED s
      then start_proc RW_T4T_STATE_DETECT_NDEF RW_T4T_SUBSTATE_WAIT_SELECT_CC (rw_t4t_select_file T4T_CC_FILE_ID s)
      else start_proc RW_T4T_STATE_DETECT_NDEF RW_T4T_SUBSTATE_WAIT_SELECT_APP (rw_t4t_select_application (version s) s))"

definition RW_T4tReadNDef :: "rw_cb \<Rightarrow> byte \<times> rw_cb" where
  "RW_T4tReadNDef s =
     (if rw_state s \<noteq> RW_T4T_STATE_IDLE then (NFC_STATUS_FAILED, s)
      else if ndef_has RW_T4T_NDEF_STATUS_NDEF_DETECTED s
      then start_proc RW_T4T_STATE_READ_NDEF RW_T4T_SUBSTATE_WAIT_READ_RESP
             (rw_t4t_read_file T4T_FILE_LENGTH_SIZE (ndef_length s) False s)
      else (NFC_STATUS_FAILED, s))"

definition RW_T4tUpdateNDef :: "u16 \<Rightarrow> byte list option \<Rightarrow> rw_cb \<Rightarrow> byte \<times> rw_cb" where
  "RW_T4tUpdateNDef len data s =
     (if rw_state s \<noteq> RW_T4T_STATE_IDLE then (NFC_STATUS_FAILED, s)
      else if ndef_has RW_T4T_NDEF_STATUS_NDEF_DETECTED s then
        (if ndef_has RW_T4T_NDEF_STATUS_NDEF_READ_ONLY s then (NFC_STATUS_FAILED, s)
         else if unat (fc_max_file_size (ndef_fc (cc s))) < unat len + 2 then (NFC_STATUS_FAILED, s)
         else start_proc RW_T4T_STATE_UPDATE_NDEF RW_T4T_SUBSTATE_WAIT_UPDATE_NLEN
                (rw_t4t_update_nlen 0
                   (s\<lparr>ndef_length := len, p_update_data := data, rw_offset := T4T_FILE_LENGTH_SIZE, rw_length := len\<rparr>)))
      else (NFC_STATUS_FAILED, s))"

text \<open>The empty I-block of option 4 is sent without starting the timer.\<close>

definition RW_T4tPresenceCheck :: "rw_env \<Rightarrow> byte \<Rightarrow> rw_cb \<Rightarrow> (byte \<times> rw_cb) option" where
  "RW_T4tPresenceCheck E opt s =
     (if \<not> rw_cback s then Some (NFC_STATUS_FAILED, s)
      else if rw_state s = RW_T4T_STATE_NOT_ACTIVATED then do {
        s \<leftarrow> rw_call E RW_T4T_PRESENCE_CHECK_EVT (Rw_status NFC_STATUS_FAILED) s; Some (NFC_STATUS_OK, s) }
      else if rw_state s \<noteq> RW_T4T_STATE_IDLE then do {
        s \<leftarrow> rw_call E RW_T4T_PRESENCE_CHECK_EVT (Rw_status NFC_STATUS_OK) s; Some (NFC_STATUS_OK, s) }
      else
        let (ok, s) =
          (if opt = 4
           then (let (got, s) = tag_getpoolbuf s in if got then tag_send_data ((apdu [])\<lparr>bsize := 128\<rparr>) s else (False, s))
           else (let (ok, s) = rw_t4t_read_file 0 1 False (s\<lparr>channel := (if opt \<le> 3 then opt else 0)\<rparr>) in
                 (ok, s\<lparr>channel := 0\<rparr>))) in
        Some (if ok then (NFC_STATUS_OK, s\<lparr>rw_state := RW_T4T_STATE_PRESENCE_CHECK\<rparr>) else (NFC_STATUS_NO_BUFFERS, s)))"

definition RW_T4tSetNDefReadOnly :: "rw_env \<Rightarrow> rw_cb \<Rightarrow> (byte \<times> rw_cb) option" where
  "RW_T4tSetNDefReadOnly E s =
     (if rw_state s \<noteq> RW_T4T_STATE_IDLE then Some (NFC_STATUS_FAILED, s)
      else if ndef_has RW_T4T_NDEF_STATUS_NDEF_DETECTED s then
        (if ndef_has RW_T4T_NDEF_STATUS_NDEF_READ_ONLY s
         then do { s \<leftarrow> rw_call E RW_T4T_SET_TO_RO_EVT (Rw_status NFC_STATUS_OK) s; Some (NFC_STATUS_OK, s) }
         else Some (start_proc RW_T4T_STATE_SET_READ_ONLY RW_T4T_SUBSTATE_WAIT_SELECT_CC
                      (rw_t4t_select_file T4T_CC_FILE_ID s)))
      else Some (NFC_STATUS_FAILED, s))"

end
