(* ===== verification/T4t_Session.thy ===== *)
theory T4t_Session
  imports Rw_T4t_Main T4t_Spec
begin

text \<open>
  A reader and a tag that keeps the contract of \<open>T4t_Spec\<close>: one exchange takes the oldest command of the reader to the tag and
  the response back. Detection finds the NDEF file, reading delivers the message, updating stores one.
\<close>

definition exchange :: "(byte list \<Rightarrow> 'c \<Rightarrow> (byte list \<times> 'c) option) \<Rightarrow> rw_cb \<times> 'c \<Rightarrow> (rw_cb \<times> 'c) option" where
  "exchange answer p =
     (case frames (fst p) of [] \<Rightarrow> Some p
      | f # fs \<Rightarrow> do {
          (rsp, c) \<leftarrow> answer (body f) (snd p);
          r \<leftarrow> rw_t4t_data_cback quiet_rw 0 (NFC_DATA_CEVT NFC_STATUS_OK (apdu rsp)) ((fst p)\<lparr>frames := fs\<rparr>);
          Some (r, c) })"

primrec exchanges :: "(byte list \<Rightarrow> 'c \<Rightarrow> (byte list \<times> 'c) option) \<Rightarrow> nat \<Rightarrow> rw_cb \<times> 'c \<Rightarrow> (rw_cb \<times> 'c) option" where
  "exchanges answer 0 p = Some p"
| "exchanges answer (Suc n) p = do { p \<leftarrow> exchange answer p; exchanges answer n p }"

lemma exchanges_add:
  "exchanges answer (m + n) p = do { p \<leftarrow> exchanges answer m p; exchanges answer n p }"
  by (induction m arbitrary: p) (auto split: Option.bind_split)

section \<open>What detection reads\<close>

definition cc_fields :: "byte list \<Rightarrow> t4t_cc" where
  "cc_fields b = \<lparr>cclen = be16_word (b ! 0) (b ! 1), cc_version = b ! 2, max_le = be16_word (b ! 3) (b ! 4),
     max_lc = be16_word (b ! 5) (b ! 6),
     ndef_fc = \<lparr>file_id = be16_word (b ! 9) (b ! 10), fc_max_file_size = be16_word (b ! 11) (b ! 12),
                read_access = b ! 13, write_access = b ! 14\<rparr>\<rparr>"

definition file_nlen :: "tag_view \<Rightarrow> u16" where "file_nlen v = be16_word (t_file v ! 0) (t_file v ! 1)"

text \<open>
  A tag with a capability container the reader accepts, that describes its NDEF file, and with a length of the message that fits the file.
\<close>

definition good_tag :: "tag_view \<Rightarrow> bool" where
  "good_tag v \<longleftrightarrow> (let b = t_cc v; c = cc_fields b; f = ndef_fc c in
     length b = 15 \<and> b ! 7 = 4 \<and> b ! 8 = 6
     \<and> 15 \<le> cclen c \<and> 15 \<le> max_le c \<and> 1 \<le> max_lc c \<and> file_id f = 0x1000
     \<and> 5 \<le> fc_max_file_size f \<and> fc_max_file_size f \<noteq> 0xFFFF
     \<and> read_access f = 0 \<and> write_access f = (if t_ro v then 0xFF else 0)
     \<and> length (t_file v) = unat (fc_max_file_size f) \<and> unat (file_nlen v) + 2 \<le> length (t_file v))"

definition reader_ok :: "rw_cb \<Rightarrow> bool" where
  "reader_ok r \<longleftrightarrow> link_free r \<and> rw_cback r \<and> channel r = 0 \<and> 15 \<le> max_read_size r \<and> max_read_size r \<le> 255"

lemma reader_link [simp]:
  "link_free (s\<lparr>frames := a\<rparr>) = link_free s" "link_free (s\<lparr>tag_timer := t\<rparr>) = link_free s"
  "link_free (s\<lparr>sub_state := x\<rparr>) = link_free s" "link_free (s\<lparr>rw_state := y\<rparr>) = link_free s"
  "link_free (s\<lparr>rw_offset := o'\<rparr>) = link_free s" "link_free (s\<lparr>rw_length := l\<rparr>) = link_free s"
  "link_free (s\<lparr>cc := k\<rparr>) = link_free s" "link_free (s\<lparr>version := v\<rparr>) = link_free s"
  "link_free (s\<lparr>p_update_data := d\<rparr>) = link_free s" "link_free (s\<lparr>ndef_length := n\<rparr>) = link_free s"
  "link_free (s\<lparr>rw_log := g\<rparr>) = link_free s" "link_free (s\<lparr>ndef_status := b\<rparr>) = link_free s"
  "link_free (s\<lparr>max_read_size := m\<rparr>) = link_free s" "link_free (s\<lparr>max_update_size := m\<rparr>) = link_free s"
  by (simp_all add: link_free_def)

lemma send_to_lower_free [simp]:
  "link_free s \<Longrightarrow> rw_t4t_send_to_lower b s = (True, s\<lparr>frames := frames s @ [b], tag_timer := True\<rparr>)"
  by (simp add: rw_t4t_send_to_lower_def)

lemma rw_send_free [simp]:
  "link_free s \<Longrightarrow> rw_send bs s = (True, s\<lparr>frames := frames s @ [apdu bs], tag_timer := True\<rparr>)"
  by (simp add: rw_send_def)

lemma status_bytes_ok [simp]: "status_bytes (bs @ [0x90, 0x00]) = Some (0x90, 0)" "status_bytes [0x90, 0x00] = Some (0x90, 0)"
  by (simp_all add: status_bytes_def nth_append rd_def)

lemma be16_ok [simp]: "be16_word 0x90 0 = 0x9000"
  by (simp add: be16_word_def)

lemma read_cc_fields:
  assumes "15 \<le> length bs" "bs ! 7 = 4" "bs ! 8 = 6"
  shows "read_cc bs s = Some (True, s\<lparr>cc := cc_fields bs\<rparr>)"
proof -
  have "rd bs 0 = Some (bs ! 0)" using assms(1) by (intro rd_eq_Some) linarith
  with assms show ?thesis by (simp add: read_cc_def rd_be16_def upd_cc_def cc_fields_def)
qed

section \<open>The steps of detection\<close>

lemma data_cback_ok:
  "rw_t4t_data_cback E u (NFC_DATA_CEVT st r) s = rw_t4t_response E st r (s\<lparr>tag_timer := False\<rparr>)"
  by (simp add: rw_t4t_data_cback_def)

lemma detect_app:
  assumes "link_free s" "frames s = []" "rw_state s = RW_T4T_STATE_DETECT_NDEF" "sub_state s = RW_T4T_SUBSTATE_WAIT_SELECT_APP"
    "version s = 0x20"
  shows "rw_t4t_data_cback E u (NFC_DATA_CEVT st (apdu ok_sw)) s =
    Some (s\<lparr>frames := [apdu (tag_apdu (Select_file 0x0C 0xE103))], tag_timer := True, sub_state := RW_T4T_SUBSTATE_WAIT_SELECT_CC\<rparr>)"
  using assms
  by (simp add: data_cback_ok rw_t4t_response_def rw_t4t_sm_detect_ndef_def rw_next_def rw_t4t_select_file_def)

lemma detect_cc:
  assumes "reader_ok s" "frames s = []" "rw_state s = RW_T4T_STATE_DETECT_NDEF" "sub_state s = RW_T4T_SUBSTATE_WAIT_SELECT_CC"
  shows "rw_t4t_data_cback E u (NFC_DATA_CEVT st (apdu ok_sw)) s =
    Some (s\<lparr>frames := [apdu (tag_apdu (Read_binary 0 15))], tag_timer := True, sub_state := RW_T4T_SUBSTATE_WAIT_CC_FILE,
            rw_offset := 0, rw_length := 15\<rparr>)"
proof -
  have "\<not> max_read_size s < 15" "link_free s" "channel s = 0" using assms(1) by (simp_all add: reader_ok_def not_less)
  with assms(2-4) show ?thesis
    by (simp add: data_cback_ok rw_t4t_response_def rw_t4t_sm_detect_ndef_def rw_next_def rw_t4t_read_file_def)
qed

lemma detect_cc_file:
  assumes v: "good_tag v" "t_cc v ! 2 = 0x20" and s: "link_free s" "frames s = []" "rw_state s = RW_T4T_STATE_DETECT_NDEF"
    "sub_state s = RW_T4T_SUBSTATE_WAIT_CC_FILE" "version s = 0x20"
  shows "rw_t4t_data_cback E u (NFC_DATA_CEVT st (apdu (t_cc v @ ok_sw))) s =
    Some (s\<lparr>cc := cc_fields (t_cc v), frames := [apdu (tag_apdu (Select_file 0x0C 0x1000))], tag_timer := True,
            sub_state := RW_T4T_SUBSTATE_WAIT_SELECT_NDEF_FILE\<rparr>)"
proof -
  have l: "length (t_cc v) = 15" "t_cc v ! 7 = 4" "t_cc v ! 8 = 6" using v by (simp_all add: good_tag_def Let_def)
  have f: "cc_fields (t_cc v @ ok_sw) = cc_fields (t_cc v)" using l by (simp add: cc_fields_def nth_append)
  have r: "read_cc (t_cc v @ ok_sw) s' = Some (True, s'\<lparr>cc := cc_fields (t_cc v)\<rparr>)" for s'
    using read_cc_fields [of "t_cc v @ ok_sw" s'] l by (simp add: f nth_append)
  have ok: "rw_t4t_validate_cc_file (s\<lparr>tag_timer := False, cc := cc_fields (t_cc v)\<rparr>)"
    using v s by (auto simp: rw_t4t_validate_cc_file_def good_tag_def Let_def cc_fields_def not_less)
  have len: "blen (apdu (t_cc v @ ok_sw)) = 17" using l by (simp add: blen_def)
  have fid: "file_id (ndef_fc (cc_fields (t_cc v))) = 0x1000" using v by (simp add: good_tag_def Let_def)
  show ?thesis using s ok len
    by (simp add: data_cback_ok rw_t4t_response_def rw_t4t_sm_detect_ndef_def rw_next_def rw_t4t_select_file_def r fid)
qed

lemma detect_file:
  assumes "reader_ok s" "frames s = []" "rw_state s = RW_T4T_STATE_DETECT_NDEF"
    "sub_state s = RW_T4T_SUBSTATE_WAIT_SELECT_NDEF_FILE"
  shows "rw_t4t_data_cback E u (NFC_DATA_CEVT st (apdu ok_sw)) s =
    Some (s\<lparr>frames := [apdu (tag_apdu (Read_binary 0 2))], tag_timer := True, sub_state := RW_T4T_SUBSTATE_WAIT_READ_NLEN,
            rw_offset := 0, rw_length := 2\<rparr>)"
proof -
  have "15 \<le> max_read_size s" "link_free s" "channel s = 0" using assms(1) by (simp_all add: reader_ok_def)
  moreover then have "\<not> max_read_size s < 2" by (simp add: word_less_nat_alt word_le_nat_alt)
  ultimately show ?thesis using assms(2-4)
    by (simp add: data_cback_ok rw_t4t_response_def rw_t4t_sm_detect_ndef_def rw_next_def rw_t4t_read_file_def)
qed

text \<open>The reader after detection, and the event it reports.\<close>

definition detect_data :: "tag_view \<Rightarrow> rw_data" where
  "detect_data v = Rw_ndef NFC_STATUS_OK NFC_PROTOCOL_ISO_DEP
     (of_nat (length (t_file v) - 2)) (of_nat (unat (file_nlen v))) (Some (if t_ro v then 0x07 else 0x06))"

definition detected :: "tag_view \<Rightarrow> rw_cb \<Rightarrow> rw_cb" where
  "detected v s = s\<lparr>ndef_status := (if t_ro v then 3 else 1),
     max_read_size := per_command (max_le (cc s)) RW_T4T_MAX_DATA_PER_READ,
     max_update_size := per_command (max_lc (cc s)) RW_T4T_MAX_DATA_PER_WRITE,
     ndef_length := file_nlen v, rw_state := RW_T4T_STATE_IDLE, tag_timer := False,
     rw_log := rw_log s @ [(RW_T4T_NDEF_DETECT_EVT, detect_data v)]\<rparr>"

lemma detect_nlen:
  assumes v: "good_tag v" and s: "rw_cback s" "rw_state s = RW_T4T_STATE_DETECT_NDEF"
    "sub_state s = RW_T4T_SUBSTATE_WAIT_READ_NLEN" "cc s = cc_fields (t_cc v)"
  shows "rw_t4t_data_cback quiet_rw u (NFC_DATA_CEVT st (apdu (slice_of 0 2 (t_file v) @ ok_sw))) s = Some (detected v s)"
proof -
  let ?f = "ndef_fc (cc_fields (t_cc v))"
  have mfs: "length (t_file v) = unat (fc_max_file_size ?f)" "unat (file_nlen v) + 2 \<le> length (t_file v)"
    "5 \<le> fc_max_file_size ?f" and wa: "write_access ?f = (if t_ro v then 0xFF else 0)"
    using v by (simp_all add: good_tag_def Let_def)
  then have "2 \<le> length (t_file v)" by simp
  then obtain a b rest where abr: "t_file v = a # b # rest" by (cases "t_file v" rule: remdups_adj.cases) auto
  have n: "rd_be16 (slice_of 0 2 (t_file v) @ ok_sw) 0 = Some (file_nlen v)"
    by (simp add: abr slice_of_def rd_be16_def file_nlen_def)
  have len: "blen (apdu (slice_of 0 2 (t_file v) @ ok_sw)) = 4" by (simp add: abr slice_of_def blen_def)
  have c: "of_nat (unat x) = (ucast x :: u32)" for x :: u16
    using unat_u16_less [of x] by (simp add: word_unat_eq_iff unat_of_nat unat_ucast_mod)
  have w: "of_nat (length (t_file v) - 2) = (ucast (fc_max_file_size ?f) - 2 :: u32)" 
    "of_nat (unat (file_nlen v)) = (ucast (file_nlen v) :: u32)"
    using mfs by (simp_all add: of_nat_diff c)
  have i: "int (unat (file_nlen v)) \<le> int (unat (fc_max_file_size ?f)) - 2" using mfs by linarith
  show ?thesis using s i wa
    by (simp add: data_cback_ok rw_t4t_response_def rw_t4t_sm_detect_ndef_def nlen_read_def Let_def rw_notify_def quiet_rw_def
        n len detected_def detect_data_def w)
qed

section \<open>Reading\<close>

text \<open>The bytes of the message that a list of events delivers.\<close>

fun delivered :: "rw_event \<times> rw_data \<Rightarrow> byte list" where
  "delivered (RW_T4T_NDEF_READ_EVT, Rw_data st b) = body b"
| "delivered (RW_T4T_NDEF_READ_CPLT_EVT, Rw_data st b) = body b"
| "delivered e = []"

definition message_of :: "(rw_event \<times> rw_data) list \<Rightarrow> byte list" where
  "message_of evs = concat (map delivered evs)"

definition chunk :: "u16 \<Rightarrow> rw_cb \<Rightarrow> nat" where "chunk rem r = min (unat rem) (unat (max_read_size r))"

definition read_cmd :: "u16 \<Rightarrow> u16 \<Rightarrow> rw_cb \<Rightarrow> bt_hdr" where
  "read_cmd off rem r = apdu (tag_apdu (Read_binary off (of_nat (chunk rem r))))"

lemma read_file_free:
  assumes "reader_ok r"
  shows "rw_t4t_read_file off rem True r = (True, r\<lparr>frames := frames r @ [read_cmd off rem r], tag_timer := True\<rparr>)"
    and "rw_t4t_read_file off rem False r =
      (True, r\<lparr>rw_offset := off, rw_length := rem, frames := frames r @ [read_cmd off rem r], tag_timer := True\<rparr>)"
proof -
  have m: "unat (max_read_size r) \<le> 255" and r: "link_free r" "channel r = 0"
    using assms by (simp_all add: reader_ok_def word_le_nat_alt)
  have "ucast (if max_read_size r < rem then ucast (ucast (max_read_size r) :: byte) else rem) = (of_nat (chunk rem r) :: byte)"
    using m by (auto simp: chunk_def word_unat_eq_iff unat_ucast_mod unat_of_nat word_less_nat_alt min_def)
  with r show "rw_t4t_read_file off rem True r = (True, r\<lparr>frames := frames r @ [read_cmd off rem r], tag_timer := True\<rparr>)"
    "rw_t4t_read_file off rem False r =
      (True, r\<lparr>rw_offset := off, rw_length := rem, frames := frames r @ [read_cmd off rem r], tag_timer := True\<rparr>)"
    by (auto simp: rw_t4t_read_file_def read_cmd_def Let_def split: if_splits)
qed

definition in_read :: "u16 \<Rightarrow> u16 \<Rightarrow> rw_cb \<Rightarrow> bool" where
  "in_read off rem r \<longleftrightarrow> reader_ok r \<and> rw_state r = RW_T4T_STATE_READ_NDEF
     \<and> sub_state r = RW_T4T_SUBSTATE_WAIT_READ_RESP \<and> rw_offset r = off \<and> rw_length r = rem \<and> 0 < rem
     \<and> frames r = [read_cmd off rem r]"

lemma apdu_body [simp]: "(apdu bs)\<lparr>body := b\<rparr> = apdu b"
  by (simp add: apdu_def)

lemma reader_ok_upd [simp]:
  "reader_ok (s\<lparr>frames := a\<rparr>) = reader_ok s" "reader_ok (s\<lparr>tag_timer := t\<rparr>) = reader_ok s"
  "reader_ok (s\<lparr>sub_state := x\<rparr>) = reader_ok s" "reader_ok (s\<lparr>rw_state := y\<rparr>) = reader_ok s"
  "reader_ok (s\<lparr>rw_offset := o'\<rparr>) = reader_ok s" "reader_ok (s\<lparr>rw_length := l\<rparr>) = reader_ok s"
  "reader_ok (s\<lparr>cc := k\<rparr>) = reader_ok s" "reader_ok (s\<lparr>p_update_data := d\<rparr>) = reader_ok s"
  "reader_ok (s\<lparr>ndef_length := n\<rparr>) = reader_ok s" "reader_ok (s\<lparr>rw_log := g\<rparr>) = reader_ok s"
  "reader_ok (s\<lparr>ndef_status := b\<rparr>) = reader_ok s" "reader_ok (s\<lparr>version := v\<rparr>) = reader_ok s"
  by (simp_all add: reader_ok_def)

text \<open>What a response does to a reader that reads, \<open>bs\<close> being the part asked for.\<close>

definition read_on :: "byte list \<Rightarrow> u16 \<Rightarrow> u16 \<Rightarrow> rw_cb \<Rightarrow> rw_cb" where
  "read_on bs off rem r =
     (if 0 < rem
      then r\<lparr>rw_offset := off, rw_length := rem, frames := [read_cmd off rem r], tag_timer := True,
             rw_log := rw_log r @ [(RW_T4T_NDEF_READ_EVT, Rw_data NFC_STATUS_OK (apdu bs))]\<rparr>
      else r\<lparr>rw_offset := off, rw_length := rem, frames := [], tag_timer := False, rw_state := RW_T4T_STATE_IDLE,
             rw_log := rw_log r @ [(RW_T4T_NDEF_READ_CPLT_EVT, Rw_data NFC_STATUS_OK (apdu bs))]\<rparr>)"

lemma read_step:
  assumes r: "in_read off rem r" and bs: "length bs = chunk rem r"
  shows "rw_t4t_data_cback quiet_rw u (NFC_DATA_CEVT NFC_STATUS_OK (apdu (bs @ ok_sw))) (r\<lparr>frames := []\<rparr>) =
    Some (read_on bs (off + of_nat (length bs)) (rem - of_nat (length bs)) r)"
proof -
  let ?n = "of_nat (length bs) :: u16"
  have ok: "reader_ok r" and lr: "0 < unat rem" using r by (simp_all add: in_read_def word_less_nat_alt)
  then have m: "15 \<le> unat (max_read_size r)" "unat (max_read_size r) \<le> 255" "rw_cback r"
    by (simp_all add: reader_ok_def word_le_nat_alt)
  have n: "unat ?n = length bs" "0 < length bs" "length bs \<le> unat rem"
    using bs m lr by (auto simp: chunk_def unat_of_nat min_def)
  have b: "blen (apdu (bs @ ok_sw)) - 2 = ?n" by (simp add: blen_def)
  have pos: "0 < ?n" "?n \<le> rem" using n by (simp_all add: word_less_nat_alt word_le_nat_alt)
  have cmd: "read_cmd o' l (r\<lparr>frames := fs, tag_timer := t, rw_length := x, rw_offset := y, rw_log := g\<rparr>) = read_cmd o' l r"
    for o' l fs t x y g by (simp add: read_cmd_def chunk_def)
  have k: "reader_ok (r\<lparr>frames := [], tag_timer := False, rw_length := rem - ?n, rw_offset := off + ?n,
      rw_log := rw_log r @ [(RW_T4T_NDEF_READ_EVT, Rw_data 0 (apdu bs))]\<rparr>)" using ok by simp
  show ?thesis
    using r pos m(3) unfolding in_read_def
    by (simp add: data_cback_ok rw_t4t_response_def rw_t4t_sm_read_ndef_def b Let_def quiet_rw_def
        read_file_free(1) [OF k] cmd read_on_def)
qed

text \<open>Whole procedures of the reader with any tag that keeps the contract: detection and reading.\<close>

section \<open>The reader between the commands\<close>

text \<open>The tag with the NDEF application of version 2.0 and the NDEF file selected.\<close>

definition selected_view :: "tag_view \<Rightarrow> tag_view" where
  "selected_view v = v\<lparr>t_sel := Ndef_file, t_cc := (t_cc v)[2 := 0x20]\<rparr>"

text \<open>During detection.\<close>

definition detecting :: "tag_cmd \<Rightarrow> rw_sub_state \<Rightarrow> u16 \<Rightarrow> t4t_cc \<Rightarrow> u16 \<Rightarrow> rw_cb \<Rightarrow> rw_cb" where
  "detecting k sub off container len r = r\<lparr>frames := [apdu (tag_apdu k)], tag_timer := True,
     rw_state := RW_T4T_STATE_DETECT_NDEF, sub_state := sub, cc := container, rw_offset := off, rw_length := len\<rparr>"

lemma detecting_fields [simp]:
  "frames (detecting k sub off container len r) = [apdu (tag_apdu k)]"
  "rw_state (detecting k sub off container len r) = RW_T4T_STATE_DETECT_NDEF"
  "sub_state (detecting k sub off container len r) = sub" "version (detecting k sub off container len r) = version r"
  "reader_ok (detecting k sub off container len r) = reader_ok r" "cc (detecting k sub off container len r) = container"
  "link_free (detecting k sub off container len r) = link_free r"
  by (simp_all add: detecting_def)

lemma slice_of_split: "i \<le> n \<Longrightarrow> slice_of p i f @ slice_of (p + i) (n - i) f = slice_of p n f"
  using take_add [of i "n - i" "drop p f"] by (simp add: slice_of_def add.commute)

context ndef_tag
begin

text \<open>One exchange of a command the tag answers.\<close>

lemma exchange_cmd:
  assumes "fine c" "cmd_ok k" "frames r = [apdu (tag_apdu k)]" "tag_spec k (view c) = (rsp, v)"
    and "rw_t4t_data_cback quiet_rw 0 (NFC_DATA_CEVT NFC_STATUS_OK (apdu rsp)) (r\<lparr>frames := []\<rparr>) = Some r'"
  obtains c' where "exchange answer (r, c) = Some (r', c')" "view c' = v" "fine c'"
proof -
  obtain c' where "answer (tag_apdu k) c = Some (rsp, c')" "view c' = v" "fine c'"
    using answers [OF assms(1,2)] assms(4) by auto
  then show thesis using assms(3,5) by (intro that) (simp_all add: exchange_def)
qed

section \<open>Detection\<close>

lemma detection_run:
  assumes c: "fine c" and g: "good_tag (selected_view (view c))"
    and r: "reader_ok r" "frames r = []" "rw_state r = RW_T4T_STATE_IDLE" "version r = 0x20" "\<not> ndef_has 1 r"
  obtains s r' c' where "RW_T4tDetectNDef r = (NFC_STATUS_OK, s)" "exchanges answer 5 (s, c) = Some (r', c')"
    "view c' = selected_view (view c)" "fine c'"
    "r' = detected (view c') (r\<lparr>cc := cc_fields (t_cc (view c')), rw_offset := 0, rw_length := 2,
       sub_state := RW_T4T_SUBSTATE_WAIT_READ_NLEN\<rparr>)"
proof -
  let ?v = "selected_view (view c)" and ?cc = "(t_cc (view c))[2 := 0x20]" and ?k = "cc_fields (t_cc (selected_view (view c)))"
  let ?app = "Select_app t4t_v20_ndef_tag_aid [0]"
  have link: "link_free r" "rw_cback r" using r by (simp_all add: reader_ok_def)
  have lcc: "length ?cc = 15" and cc2: "t_cc ?v ! 2 = 0x20" using g by (simp_all add: good_tag_def selected_view_def Let_def)
  have aid: "t4t_v20_ndef_tag_aid \<noteq> butlast t4t_v20_ndef_tag_aid @ [0]"
    "t4t_v20_ndef_tag_aid = butlast t4t_v20_ndef_tag_aid @ [1]" "length t4t_v20_ndef_tag_aid = 7"
    by (simp_all add: t4t_v20_ndef_tag_aid_def)
  let ?s1 = "detecting ?app RW_T4T_SUBSTATE_WAIT_SELECT_APP (rw_offset r) (cc r) (rw_length r) r"
  let ?s2 = "detecting (Select_file 0x0C 0xE103) RW_T4T_SUBSTATE_WAIT_SELECT_CC (rw_offset r) (cc r) (rw_length r) r"
  let ?s3 = "detecting (Read_binary 0 15) RW_T4T_SUBSTATE_WAIT_CC_FILE 0 (cc r) 15 r"
  let ?s4 = "detecting (Select_file 0x0C 0x1000) RW_T4T_SUBSTATE_WAIT_SELECT_NDEF_FILE 0 ?k 15 r"
  let ?s5 = "detecting (Read_binary 0 2) RW_T4T_SUBSTATE_WAIT_READ_NLEN 0 ?k 2 r"
  let ?s6 = "detected ?v (r\<lparr>cc := ?k, rw_offset := 0, rw_length := 2, sub_state := RW_T4T_SUBSTATE_WAIT_READ_NLEN\<rparr>)"
  let ?ev = "\<lambda>bs. NFC_DATA_CEVT NFC_STATUS_OK (apdu bs)"
  have start: "RW_T4tDetectNDef r = (NFC_STATUS_OK, ?s1)"
    using r link by (simp add: RW_T4tDetectNDef_def start_proc_def rw_t4t_select_application_def detecting_def aid(3))
  have "rw_t4t_data_cback quiet_rw 0 (?ev ok_sw) (?s1\<lparr>frames := []\<rparr>) = Some ?s2"
    using r link by (subst detect_app) (simp_all add: detecting_def)
  then obtain c1 where 1: "exchange answer (?s1, c) = Some (?s2, c1)" "view c1 = (view c)\<lparr>t_sel := App, t_cc := ?cc\<rparr>" "fine c1"
    using exchange_cmd [OF c, of ?app ?s1 ok_sw] aid by auto
  have "rw_t4t_data_cback quiet_rw 0 (?ev ok_sw) (?s2\<lparr>frames := []\<rparr>) = Some ?s3"
    using r link by (subst detect_cc) (simp_all add: detecting_def)
  from exchange_cmd [OF 1(3) _ _ _ this, of "Select_file 0x0C 0xE103" "(view c)\<lparr>t_sel := Cc_file, t_cc := ?cc\<rparr>"]
  obtain c2 where 2: "exchange answer (?s2, c1) = Some (?s3, c2)" "view c2 = (view c)\<lparr>t_sel := Cc_file, t_cc := ?cc\<rparr>" "fine c2"
    by (simp add: 1(2)) blast
  have "?cc \<noteq> []" using lcc by auto
  then have "tag_spec (Read_binary 0 15) (view c2) = (t_cc ?v @ ok_sw, view c2)"
    using lcc by (simp add: 2(2) read_answer_def slice_of_def selected_view_def Let_def)
  moreover have "rw_t4t_data_cback quiet_rw 0 (?ev (t_cc ?v @ ok_sw)) (?s3\<lparr>frames := []\<rparr>) = Some ?s4"
    using r link by (subst detect_cc_file [OF g cc2]) (simp_all add: detecting_def)
  ultimately obtain c3 where 3: "exchange answer (?s3, c2) = Some (?s4, c3)" "view c3 = view c2" "fine c3"
    using exchange_cmd [OF 2(3), of "Read_binary 0 15" ?s3] by auto
  have "rw_t4t_data_cback quiet_rw 0 (?ev ok_sw) (?s4\<lparr>frames := []\<rparr>) = Some ?s5"
    using r link by (subst detect_file) (simp_all add: detecting_def)
  from exchange_cmd [OF 3(3) _ _ _ this, of "Select_file 0x0C 0x1000" ?v]
  obtain c4 where 4: "exchange answer (?s4, c3) = Some (?s5, c4)" "view c4 = ?v" "fine c4"
    by (simp add: 3(2) 2(2) selected_view_def) blast
  have "2 \<le> length (t_file ?v)" using g by (auto simp: good_tag_def Let_def)
  then have "slice_of 0 2 (t_file ?v) \<noteq> []" by (auto simp: slice_of_def)
  then have "tag_spec (Read_binary 0 2) (view c4) = (slice_of 0 2 (t_file ?v) @ ok_sw, view c4)"
    by (simp add: 4(2) selected_view_def read_answer_def Let_def)
  moreover have "rw_t4t_data_cback quiet_rw 0 (?ev (slice_of 0 2 (t_file ?v) @ ok_sw)) (?s5\<lparr>frames := []\<rparr>) = Some ?s6"
    using link r(2) by (subst detect_nlen [OF g]) (simp_all add: detecting_def detected_def)
  ultimately obtain c5 where 5: "exchange answer (?s5, c4) = Some (?s6, c5)" "view c5 = ?v" "fine c5"
    using exchange_cmd [OF 4(3), of "Read_binary 0 2" ?s5] 4(2) by auto
  have "exchanges answer 5 (?s1, c) = Some (?s6, c5)"
    by (simp add: eval_nat_numeral 1(1) 2(1) 3(1) 4(1) 5(1))
  with start 5(2,3) show thesis by (intro that) auto
qed

section \<open>Reading\<close>

lemma reading_run:
  assumes "fine c" "t_sel (view c) = Ndef_file" "in_read off rem r" "unat off + unat rem \<le> length (t_file (view c))"
    and "length (t_file (view c)) < 65536"
  shows "\<exists>n r' c' evs st. n \<le> unat rem \<and> exchanges answer n (r, c) = Some (r', c') \<and> view c' = view c \<and> fine c'
    \<and> r' = r\<lparr>frames := [], tag_timer := False, rw_state := RW_T4T_STATE_IDLE, rw_offset := off + rem, rw_length := 0,
            rw_log := rw_log r @ evs\<rparr>
    \<and> evs \<noteq> [] \<and> fst (last evs) = RW_T4T_NDEF_READ_CPLT_EVT \<and> (\<forall>e \<in> set (butlast evs). fst e = RW_T4T_NDEF_READ_EVT)
    \<and> message_of evs = slice_of (unat off) (unat rem) (t_file (view c))"
  using assms
proof (induction "unat rem" arbitrary: off rem r c rule: less_induct)
  case less
  let ?f = "t_file (view c)" and ?n = "chunk rem r"
  have ok: "reader_ok r" and rem: "0 < unat rem" using less.prems(3) by (simp_all add: in_read_def word_less_nat_alt)
  then have n: "0 < ?n" "?n \<le> unat rem" "?n < 256"
    by (auto simp: chunk_def reader_ok_def word_le_nat_alt min_def)
  define bs where "bs = slice_of (unat off) ?n ?f"
  have bs: "length bs = ?n" using less.prems(4) n by (simp add: bs_def slice_of_def)
  have un: "unat (of_nat ?n :: byte) = ?n" "unat (of_nat ?n :: u16) = ?n" using n by (simp_all add: unat_of_nat)
  have "tag_spec (Read_binary off (of_nat ?n)) (view c) = (bs @ ok_sw, view c)"
    using less.prems(2) bs n by (auto simp: read_answer_def bs_def un Let_def)
  from exchange_cmd [OF less.prems(1) _ _ this read_step [OF less.prems(3) bs]]
  obtain c1 where 1: "exchange answer (r, c) = Some (read_on bs (off + of_nat ?n) (rem - of_nat ?n) r, c1)"
      "view c1 = view c" "fine c1"
    using less.prems(3) by (auto simp: in_read_def read_cmd_def bs)
  define o' l where "o' = off + of_nat ?n" and "l = rem - (of_nat ?n :: u16)"
  have l: "unat l = unat rem - ?n" unfolding l_def using n by (subst unat_sub) (simp_all add: word_le_nat_alt un)
  have "unat off + ?n < 65536" using less.prems(4,5) n by linarith
  then have o': "unat o' = unat off + ?n" by (simp add: o'_def unat_word_ariths un)
  have ol: "o' + l = off + rem" by (simp add: o'_def l_def)
  show ?case
  proof (cases "0 < l")
    case False
    then have "unat l = 0" by (simp add: word_less_nat_alt)
    then have "l = 0" "?n = unat rem" using l n by (simp_all add: word_unat_eq_iff)
    then show ?thesis using 1 ol rem False
      by (intro exI [of _ 1] exI [of _ "[(RW_T4T_NDEF_READ_CPLT_EVT, Rw_data NFC_STATUS_OK (apdu bs))]"] exI)
         (auto simp: read_on_def o'_def [symmetric] l_def [symmetric] message_of_def bs_def)
  next
    case True
    define s where "s = read_on bs o' l r"
    have s: "in_read o' l s" using True less.prems(3) by (simp add: s_def read_on_def in_read_def read_cmd_def chunk_def)
    from less.hyps [OF _ 1(3) _ s] l n rem o' less.prems 1(2)
    obtain k r' c' evs where k: "k \<le> unat l" "exchanges answer k (s, c1) = Some (r', c')" "view c' = view c" "fine c'"
      "r' = s\<lparr>frames := [], tag_timer := False, rw_state := RW_T4T_STATE_IDLE, rw_offset := o' + l, rw_length := 0,
            rw_log := rw_log s @ evs\<rparr>"
      "evs \<noteq> []" "fst (last evs) = RW_T4T_NDEF_READ_CPLT_EVT" "\<forall>e \<in> set (butlast evs). fst e = RW_T4T_NDEF_READ_EVT"
      "message_of evs = slice_of (unat o') (unat l) ?f"
      by fastforce
    let ?evs = "(RW_T4T_NDEF_READ_EVT, Rw_data NFC_STATUS_OK (apdu bs)) # evs"
    have "message_of ?evs = slice_of (unat off) (unat rem) ?f"
      using k(9) l n unfolding o' by (simp add: message_of_def bs_def slice_of_split)
    then show ?thesis
      using k(1-8) 1(1) l n True ol
      by (intro exI [of _ "Suc k"] exI [of _ r'] exI [of _ c'] exI [of _ ?evs])
         (auto simp: s_def o'_def [symmetric] l_def [symmetric] read_on_def)
  qed
qed

text \<open>A read from its call on, of the message whose length the reader knows.\<close>

lemma message_run:
  assumes c: "fine c" "t_sel (view c) = Ndef_file" "length (t_file (view c)) < 65536"
    and r: "reader_ok r" "frames r = []" "rw_state r = RW_T4T_STATE_IDLE" "ndef_has 1 r"
    and len: "0 < ndef_length r" "unat (ndef_length r) + 2 \<le> length (t_file (view c))"
  shows "\<exists>s n r' c' evs. RW_T4tReadNDef r = (NFC_STATUS_OK, s) \<and> n \<le> unat (ndef_length r)
    \<and> exchanges answer n (s, c) = Some (r', c') \<and> view c' = view c \<and> fine c'
    \<and> rw_state r' = RW_T4T_STATE_IDLE \<and> rw_log r' = rw_log r @ evs
    \<and> evs \<noteq> [] \<and> fst (last evs) = RW_T4T_NDEF_READ_CPLT_EVT \<and> (\<forall>e \<in> set (butlast evs). fst e = RW_T4T_NDEF_READ_EVT)
    \<and> message_of evs = slice_of 2 (unat (ndef_length r)) (t_file (view c))"
proof -
  define s where "s = r\<lparr>rw_offset := 2, rw_length := ndef_length r, frames := [read_cmd 2 (ndef_length r) r], tag_timer := True,
    rw_state := RW_T4T_STATE_READ_NDEF, sub_state := RW_T4T_SUBSTATE_WAIT_READ_RESP\<rparr>"
  have start: "RW_T4tReadNDef r = (NFC_STATUS_OK, s)"
    using r read_file_free(2) [OF r(1), of 2 "ndef_length r"] by (simp add: RW_T4tReadNDef_def start_proc_def s_def)
  have "in_read 2 (ndef_length r) s"
    using r len by (simp add: in_read_def s_def read_cmd_def chunk_def)
  from reading_run [OF c(1,2) this _ c(3)] len(2)
  obtain n r' c' evs where "n \<le> unat (ndef_length r)" "exchanges answer n (s, c) = Some (r', c')" "view c' = view c" "fine c'"
    "r' = s\<lparr>frames := [], tag_timer := False, rw_state := RW_T4T_STATE_IDLE, rw_offset := 2 + ndef_length r, rw_length := 0,
            rw_log := rw_log s @ evs\<rparr>"
    "evs \<noteq> []" "fst (last evs) = RW_T4T_NDEF_READ_CPLT_EVT" "\<forall>e \<in> set (butlast evs). fst e = RW_T4T_NDEF_READ_EVT"
    "message_of evs = slice_of 2 (unat (ndef_length r)) (t_file (view c))"
    by auto
  with start show ?thesis by (intro exI [of _ s] exI [of _ n] exI [of _ r'] exI [of _ c'] exI [of _ evs]) (simp add: s_def)
qed

end

end
