(* ===== verification/T4t_Update.thy ===== *)
theory T4t_Update
  imports T4t_Session
begin

text \<open>Updating: the reader writes NLEN 0, then the message in parts, then its length.\<close>

section \<open>Overlays\<close>

lemma overlay_end:
  "length a = k \<Longrightarrow> k + length b \<le> length f \<Longrightarrow> overlay k b (overlay 0 a f) = overlay 0 (a @ b) f"
  by (simp add: overlay_def add.commute)

lemma overlay_front:
  "length a = length a' \<Longrightarrow> overlay 0 a' (overlay 0 (a @ b) f) = overlay 0 (a' @ b) f"
  by (simp add: overlay_def add.commute)

text \<open>The file when the first \<open>k\<close> bytes of the message have been written.\<close>

definition written :: "byte list \<Rightarrow> nat \<Rightarrow> byte list \<Rightarrow> byte list" where
  "written data k f = overlay 0 ([0, 0] @ take k data) f"

lemma written_step:
  assumes "k + n \<le> length data" "k + n + 2 \<le> length f"
  shows "overlay (k + 2) (take n (drop k data)) (written data k f) = written data (k + n) f"
  unfolding written_def using assms by (subst overlay_end) (simp_all add: take_add)

lemma length_written [simp]: "k + 2 \<le> length f \<Longrightarrow> length (written data k f) = length f"
  by (simp add: written_def)

section \<open>The steps of updating\<close>

definition part :: "u16 \<Rightarrow> rw_cb \<Rightarrow> nat" where "part rem r = min (unat rem) (unat (max_update_size r))"

definition updater_ok :: "rw_cb \<Rightarrow> bool" where
  "updater_ok r \<longleftrightarrow> reader_ok r \<and> 1 \<le> max_update_size r \<and> max_update_size r \<le> 255"

lemma updater_ok_upd [simp]:
  "updater_ok (s\<lparr>frames := a\<rparr>) = updater_ok s" "updater_ok (s\<lparr>tag_timer := t\<rparr>) = updater_ok s"
  "updater_ok (s\<lparr>sub_state := x\<rparr>) = updater_ok s" "updater_ok (s\<lparr>rw_state := y\<rparr>) = updater_ok s"
  "updater_ok (s\<lparr>rw_offset := o'\<rparr>) = updater_ok s" "updater_ok (s\<lparr>rw_length := l\<rparr>) = updater_ok s"
  "updater_ok (s\<lparr>p_update_data := d\<rparr>) = updater_ok s" "updater_ok (s\<lparr>ndef_length := n\<rparr>) = updater_ok s"
  by (simp_all add: updater_ok_def)

lemma update_file_free:
  assumes "updater_ok r" "p_update_data r = Some d" "unat (rw_length r) \<le> length d"
  shows "rw_t4t_update_file r =
    (let n = part (rw_length r) r in
     Some (True, r\<lparr>frames := frames r @ [apdu (tag_apdu (Update_binary (rw_offset r) (take n d)))], tag_timer := True,
       rw_offset := rw_offset r + of_nat n, rw_length := rw_length r - of_nat n, p_update_data := Some (drop n d)\<rparr>))"
proof -
  let ?n = "part (rw_length r) r"
  let ?w = "if max_update_size r < rw_length r then ucast (ucast (max_update_size r) :: byte) else rw_length r"
  have m: "unat (max_update_size r) \<le> 255" and link: "link_free r"
    using assms(1) by (simp_all add: updater_ok_def reader_ok_def word_le_nat_alt)
  have n: "?n \<le> 255" "?n \<le> length d" using m assms(3) by (auto simp: part_def)
  have w: "?w = of_nat ?n"
    using m by (auto simp: part_def word_unat_eq_iff unat_ucast_mod unat_of_nat word_less_nat_alt min_def)
  have u: "unat (of_nat ?n :: u16) = ?n" "ucast (of_nat ?n :: u16) = (of_nat ?n :: byte)"
    using n by (simp_all add: unat_of_nat word_unat_eq_iff unat_ucast_mod)
  have off: "unat (offset (apdu bs)) = 4" "unat (bsize (apdu bs)) = 660" for bs
    by (simp_all add: apdu_def nci_sizes)
  have ap: "append_bytes (take ?n d) (apdu (0 # 0xD6 # be16_bytes (rw_offset r) @ [of_nat ?n])) =
      Some (apdu (0 # 0xD6 # be16_bytes (rw_offset r) @ of_nat ?n # take ?n d))"
    using n by (simp add: append_bytes_def off length_be16_bytes BT_HDR_SIZE_def)
  show ?thesis
    using link n assms(2) unfolding rw_t4t_update_file_def
    by (simp add: w u rd_bytes_def ap Let_def min_absorb2)
qed

definition in_update :: "byte list \<Rightarrow> nat \<Rightarrow> nat \<Rightarrow> rw_cb \<Rightarrow> bool" where
  "in_update d len k r \<longleftrightarrow> (let n = part (of_nat (len - k)) r in
     updater_ok r \<and> rw_state r = RW_T4T_STATE_UPDATE_NDEF \<and> sub_state r = RW_T4T_SUBSTATE_WAIT_UPDATE_RESP
     \<and> frames r = [apdu (tag_apdu (Update_binary (of_nat (k + 2)) (take n (drop k d))))]
     \<and> rw_offset r = of_nat (k + 2 + n) \<and> rw_length r = of_nat (len - k - n)
     \<and> p_update_data r = Some (drop (k + n) d) \<and> ndef_length r = of_nat len)"

lemma part_small:
  assumes "updater_ok r" "m < 65536" "0 < m"
  shows "part (of_nat m) r = min m (unat (max_update_size r))" "0 < part (of_nat m) r" "part (of_nat m) r \<le> m"
    "part (of_nat m) r < 256"
  using assms by (auto simp: part_def updater_ok_def word_le_nat_alt unat_of_nat)

text \<open>After the response to a part: the next part, or the length as the last step.\<close>

lemma update_step:
  assumes r: "in_update d len k r" and len: "k < len" "len \<le> length d" "len < 65534"
  defines "n \<equiv> part (of_nat (len - k)) r"
  obtains r' where "rw_t4t_data_cback E u (NFC_DATA_CEVT st (apdu ok_sw)) (r\<lparr>frames := []\<rparr>) = Some r'"
    "k + n < len \<Longrightarrow> in_update d len (k + n) r'"
    "k + n = len \<Longrightarrow> frames r' = [apdu (tag_apdu (Update_binary 0 (be16_bytes (of_nat len))))]
       \<and> rw_state r' = RW_T4T_STATE_UPDATE_NDEF \<and> sub_state r' = RW_T4T_SUBSTATE_WAIT_UPDATE_NLEN
       \<and> p_update_data r' = None"
    "updater_ok r'" "ndef_status r' = ndef_status r" "cc r' = cc r" "rw_log r' = rw_log r" "max_update_size r' = max_update_size r"
    "ndef_length r' = ndef_length r"
proof -
  have ok: "updater_ok r" "link_free r" and n: "0 < n" "n \<le> len - k"
    using r part_small [of r "len - k"] len by (auto simp: in_update_def n_def Let_def updater_ok_def reader_ok_def)
  let ?s = "r\<lparr>frames := [], tag_timer := False\<rparr>"
  have s: "rw_length ?s = of_nat (len - (k + n))" "rw_offset ?s = of_nat (k + n + 2)" "p_update_data ?s = Some (drop (k + n) d)"
    "ndef_length ?s = of_nat len" "sub_state ?s = RW_T4T_SUBSTATE_WAIT_UPDATE_RESP" "rw_state ?s = RW_T4T_STATE_UPDATE_NDEF"
    using r by (simp_all add: in_update_def Let_def n_def add.commute add.left_commute)
  have ul: "unat (of_nat (len - (k + n)) :: u16) = len - (k + n)" using len by (simp add: unat_of_nat)
  show thesis
  proof (cases "k + n < len")
    case True
    have pos: "0 < (of_nat (len - (k + n)) :: u16)" using True unfolding word_less_nat_alt ul by simp
    have fits: "unat (rw_length ?s) \<le> length (drop (k + n) d)" unfolding s(1) ul using len by simp
    define m where "m = len - (k + n)"
    define p where "p = part (of_nat m) r"
    have p: "p \<le> m" using part_small [OF ok(1), of m] True len by (simp add: p_def m_def)
    have ps: "part (of_nat m) ?s = p" by (simp add: part_def p_def)
    let ?r = "?s\<lparr>frames := [apdu (tag_apdu (Update_binary (of_nat (k + n + 2)) (take p (drop (k + n) d))))], tag_timer := True,
        rw_offset := of_nat (k + n + 2) + of_nat p, rw_length := of_nat m - of_nat p, p_update_data := Some (drop p (drop (k + n) d))\<rparr>"
    have "rw_t4t_update_file ?s = Some (True, ?r)"
      using update_file_free [OF _ s(3) fits] ok unfolding s(1,2) m_def [symmetric] ps by (simp add: Let_def)
    then have "rw_t4t_data_cback E u (NFC_DATA_CEVT st (apdu ok_sw)) (r\<lparr>frames := []\<rparr>) = Some ?r"
      using s pos by (simp add: data_cback_ok rw_t4t_response_def rw_t4t_sm_update_ndef_def update_part_def)
    moreover have "of_nat (k + n + 2 + p) = (of_nat (k + n + 2) + of_nat p :: u16)" "of_nat (m - p) = (of_nat m - of_nat p :: u16)"
      "drop (k + n + p) d = drop p (drop (k + n) d)" "part (of_nat m) ?r = p"
      using p by (simp_all add: of_nat_diff add_ac p_def part_def)
    then have "in_update d len (k + n) ?r"
      using ok s(4-6) unfolding in_update_def Let_def m_def [symmetric] by simp
    ultimately show thesis using True ok by (intro that [of ?r]) simp_all
  next
    case False
    with n have "k + n = len" by simp
    with s have z: "rw_length r = 0" by simp
    let ?r = "?s\<lparr>p_update_data := None, frames := [apdu (tag_apdu (Update_binary 0 (be16_bytes (of_nat len))))], tag_timer := True,
           sub_state := RW_T4T_SUBSTATE_WAIT_UPDATE_NLEN\<rparr>"
    have "rw_t4t_data_cback E u (NFC_DATA_CEVT st (apdu ok_sw)) (r\<lparr>frames := []\<rparr>) = Some ?r"
      using s ok z by (simp add: data_cback_ok rw_t4t_response_def rw_t4t_sm_update_ndef_def rw_next_def rw_t4t_update_nlen_def
          length_be16_bytes) (simp add: be16_bytes_def)
    then show thesis using False s ok \<open>k + n = len\<close> by (intro that [of ?r]) simp_all
  qed
qed

text \<open>The first response, to NLEN 0, and the last, to the length.\<close>

lemma update_begins:
  assumes "updater_ok r" "rw_state r = RW_T4T_STATE_UPDATE_NDEF" "sub_state r = RW_T4T_SUBSTATE_WAIT_UPDATE_NLEN"
    and "p_update_data r = Some d" "rw_offset r = 2" "rw_length r = len" "ndef_length r = len" "0 < len" "unat len \<le> length d"
  obtains r' where "rw_t4t_data_cback E u (NFC_DATA_CEVT st (apdu ok_sw)) (r\<lparr>frames := []\<rparr>) = Some r'"
    "in_update d (unat len) 0 r'" "rw_log r' = rw_log r" "ndef_status r' = ndef_status r" "ndef_length r' = len"
proof -
  let ?s = "r\<lparr>frames := [], tag_timer := False, sub_state := RW_T4T_SUBSTATE_WAIT_UPDATE_RESP\<rparr>"
  define n where "n = part len r"
  have n: "n \<le> unat len" by (simp add: n_def part_def)
  have ps: "part len ?s = n" by (simp add: n_def part_def)
  let ?r = "?s\<lparr>frames := [apdu (tag_apdu (Update_binary 2 (take n d)))], tag_timer := True,
      rw_offset := 2 + of_nat n, rw_length := len - of_nat n, p_update_data := Some (drop n d)\<rparr>"
  have "rw_t4t_update_file ?s = Some (True, ?r)"
    using update_file_free [of ?s d] assms by (simp add: Let_def ps)
  then have "rw_t4t_data_cback E u (NFC_DATA_CEVT st (apdu ok_sw)) (r\<lparr>frames := []\<rparr>) = Some ?r"
    using assms by (simp add: data_cback_ok rw_t4t_response_def rw_t4t_sm_update_ndef_def update_part_def)
  moreover have "part len ?r = n" "of_nat (2 + n) = (2 + of_nat n :: u16)" "of_nat (unat len - n) = len - of_nat n"
    using n by (simp_all add: n_def part_def of_nat_diff)
  then have "in_update d (unat len) 0 ?r" using assms by (simp add: in_update_def Let_def)
  ultimately show thesis using assms by (intro that [of ?r]) simp_all
qed

lemma update_ends:
  assumes "updater_ok r" "rw_state r = RW_T4T_STATE_UPDATE_NDEF" "sub_state r = RW_T4T_SUBSTATE_WAIT_UPDATE_NLEN" "p_update_data r = None"
  shows "rw_t4t_data_cback quiet_rw u (NFC_DATA_CEVT st (apdu ok_sw)) (r\<lparr>frames := []\<rparr>) =
    Some (r\<lparr>frames := [], tag_timer := False, rw_state := RW_T4T_STATE_IDLE,
            rw_log := rw_log r @ [(RW_T4T_NDEF_UPDATE_CPLT_EVT, Rw_status NFC_STATUS_OK)]\<rparr>)"
  using assms by (simp add: data_cback_ok rw_t4t_response_def rw_t4t_sm_update_ndef_def rw_notify_def quiet_rw_def
      updater_ok_def reader_ok_def)

lemma tag_spec_update:
  assumes "t_sel v = Ndef_file" "\<not> t_ro v" "bs \<noteq> []" "unat off = i" "i + length bs \<le> length (t_file v)"
  shows "tag_spec (Update_binary off bs) v = (ok_sw, v\<lparr>t_file := overlay i bs (t_file v)\<rparr>)"
  using assms by auto

context ndef_tag
begin

lemma parts_run:
  assumes "fine c" "t_sel (view c) = Ndef_file" "\<not> t_ro (view c)" "in_update d len k r" "k < len" "len \<le> length d"
    and "t_file (view c) = written d k f" "len + 2 \<le> length f" "length f < 65536"
  shows "\<exists>n r' c'. n \<le> len - k \<and> exchanges answer n (r, c) = Some (r', c') \<and> view c' = (view c)\<lparr>t_file := written d len f\<rparr> \<and> fine c'
    \<and> frames r' = [apdu (tag_apdu (Update_binary 0 (be16_bytes (of_nat len))))] \<and> updater_ok r'
    \<and> rw_state r' = RW_T4T_STATE_UPDATE_NDEF \<and> sub_state r' = RW_T4T_SUBSTATE_WAIT_UPDATE_NLEN \<and> p_update_data r' = None
    \<and> rw_log r' = rw_log r \<and> ndef_status r' = ndef_status r \<and> ndef_length r' = ndef_length r"
  using assms
proof (induction "len - k" arbitrary: k r c rule: less_induct)
  case less
  define n where "n = part (of_nat (len - k)) r"
  have n: "0 < n" "n \<le> len - k" "n < 256"
    using less.prems part_small [of r "len - k"] by (auto simp: in_update_def Let_def n_def)
  let ?k = "Update_binary (of_nat (k + 2)) (take n (drop k d))"
  have off: "unat (of_nat (k + 2) :: u16) = k + 2" using less.prems by (subst unat_of_nat) simp
  have small: "len < 65534" using less.prems(8,9) by simp
  have "cmd_ok ?k" using n by simp
  moreover have "frames r = [apdu (tag_apdu ?k)]" using less.prems(4) unfolding in_update_def Let_def n_def by blast
  moreover have "tag_spec ?k (view c) = (ok_sw, (view c)\<lparr>t_file := written d (k + n) f\<rparr>)"
  proof -
    have "tag_spec ?k (view c) = (ok_sw, (view c)\<lparr>t_file := overlay (k + 2) (take n (drop k d)) (t_file (view c))\<rparr>)"
      using n less.prems by (intro tag_spec_update off) auto
    also have "overlay (k + 2) (take n (drop k d)) (t_file (view c)) = written d (k + n) f"
      unfolding less.prems(7) using n less.prems by (intro written_step) simp_all
    finally show ?thesis .
  qed
  moreover obtain r1 where r1: "rw_t4t_data_cback quiet_rw 0 (NFC_DATA_CEVT NFC_STATUS_OK (apdu ok_sw)) (r\<lparr>frames := []\<rparr>) = Some r1"
    "k + n < len \<Longrightarrow> in_update d len (k + n) r1"
    "k + n = len \<Longrightarrow> frames r1 = [apdu (tag_apdu (Update_binary 0 (be16_bytes (of_nat len))))]
       \<and> rw_state r1 = RW_T4T_STATE_UPDATE_NDEF \<and> sub_state r1 = RW_T4T_SUBSTATE_WAIT_UPDATE_NLEN \<and> p_update_data r1 = None"
    "updater_ok r1" "rw_log r1 = rw_log r" "ndef_status r1 = ndef_status r" "ndef_length r1 = ndef_length r"
    unfolding n_def by (rule update_step [OF less.prems(4-6) small]) blast
  ultimately obtain c1 where c1: "exchange answer (r, c) = Some (r1, c1)" "view c1 = (view c)\<lparr>t_file := written d (k + n) f\<rparr>" "fine c1"
    using exchange_cmd [OF less.prems(1)] by blast
  show ?case
  proof (cases "k + n = len")
    case True
    with c1 r1 n show ?thesis by (intro exI [of _ 1] exI [of _ r1] exI [of _ c1]) auto
  next
    case False
    with n have lt: "k + n < len" by simp
    have "len - (k + n) < len - k" using lt n by simp
    from less.hyps [OF this c1(3) _ _ r1(2) [OF lt] lt] less.prems c1(2)
    obtain m r' c' where "m \<le> len - (k + n)" "exchanges answer m (r1, c1) = Some (r', c')"
      "view c' = (view c1)\<lparr>t_file := written d len f\<rparr>" "fine c'"
      "frames r' = [apdu (tag_apdu (Update_binary 0 (be16_bytes (of_nat len))))]" "updater_ok r'"
      "rw_state r' = RW_T4T_STATE_UPDATE_NDEF" "sub_state r' = RW_T4T_SUBSTATE_WAIT_UPDATE_NLEN" "p_update_data r' = None"
      "rw_log r' = rw_log r1" "ndef_status r' = ndef_status r1" "ndef_length r' = ndef_length r1" by (auto simp del: tag_apdu.simps)
    with c1 r1(5-7) n lt show ?thesis by (intro exI [of _ "Suc m"] exI [of _ r'] exI [of _ c']) auto
  qed
qed

text \<open>The whole update: the file holds the length and the message, the rest of it is as it was.\<close>

lemma update_run:
  assumes c: "fine c" "t_sel (view c) = Ndef_file" "\<not> t_ro (view c)"
    and r: "updater_ok r" "frames r = []" "rw_state r = RW_T4T_STATE_IDLE" "ndef_has 1 r" "\<not> ndef_has 2 r"
    and f: "unat (fc_max_file_size (ndef_fc (cc r))) = length (t_file (view c))"
    and d: "0 < len" "unat len \<le> length d" "unat len + 2 \<le> length (t_file (view c))"
  shows "\<exists>s n r' c'. RW_T4tUpdateNDef len (Some d) r = (NFC_STATUS_OK, s) \<and> n \<le> unat len + 2
    \<and> exchanges answer n (s, c) = Some (r', c') \<and> fine c'
    \<and> view c' = (view c)\<lparr>t_file := overlay 0 (be16_bytes len @ take (unat len) d) (t_file (view c))\<rparr>
    \<and> rw_state r' = RW_T4T_STATE_IDLE \<and> frames r' = [] \<and> \<not> tag_timer r'
    \<and> reader_ok r' \<and> ndef_status r' = ndef_status r \<and> ndef_length r' = len
    \<and> rw_log r' = rw_log r @ [(RW_T4T_NDEF_UPDATE_CPLT_EVT, Rw_status NFC_STATUS_OK)]"
proof -
  let ?f = "t_file (view c)" and ?len = "unat len"
  have lf: "length ?f < 65536" using unat_u16_less [of "fc_max_file_size (ndef_fc (cc r))"] f by simp
  have link: "link_free r" using r by (simp add: updater_ok_def reader_ok_def)
  define s where "s = r\<lparr>ndef_length := len, p_update_data := Some d, rw_offset := 2, rw_length := len,
    frames := [apdu (tag_apdu (Update_binary 0 [0, 0]))], tag_timer := True,
    rw_state := RW_T4T_STATE_UPDATE_NDEF, sub_state := RW_T4T_SUBSTATE_WAIT_UPDATE_NLEN\<rparr>"
  have start: "RW_T4tUpdateNDef len (Some d) r = (NFC_STATUS_OK, s)"
    using r link f d by (simp add: RW_T4tUpdateNDef_def start_proc_def rw_t4t_update_nlen_def ndef_has_def s_def)
      (simp add: be16_bytes_def)
  have s: "updater_ok s" "frames s = [apdu (tag_apdu (Update_binary 0 [0, 0]))]"
    using r by (simp_all add: s_def)
  obtain r1 where r1: "rw_t4t_data_cback quiet_rw 0 (NFC_DATA_CEVT NFC_STATUS_OK (apdu ok_sw)) (s\<lparr>frames := []\<rparr>) = Some r1"
    "in_update d ?len 0 r1" "rw_log r1 = rw_log s" "ndef_status r1 = ndef_status s" "ndef_length r1 = len"
    by (rule update_begins [OF s(1), of d len]) (use d in \<open>simp_all add: s_def\<close>)
  have w0: "written d 0 ?f = overlay 0 [0, 0] ?f" by (simp add: written_def)
  have "tag_spec (Update_binary 0 [0, 0]) (view c) = (ok_sw, (view c)\<lparr>t_file := written d 0 ?f\<rparr>)"
    unfolding w0 using c d by (intro tag_spec_update) simp_all
  then obtain c1 where c1: "exchange answer (s, c) = Some (r1, c1)" "view c1 = (view c)\<lparr>t_file := written d 0 ?f\<rparr>" "fine c1"
    using exchange_cmd [OF c(1) _ s(2) _ r1(1)] by auto
  obtain n r2 c2 where 2: "n \<le> ?len" "exchanges answer n (r1, c1) = Some (r2, c2)" "fine c2"
    "view c2 = (view c1)\<lparr>t_file := written d ?len ?f\<rparr>"
    "frames r2 = [apdu (tag_apdu (Update_binary 0 (be16_bytes (of_nat ?len))))]" "updater_ok r2"
    "rw_state r2 = RW_T4T_STATE_UPDATE_NDEF" "sub_state r2 = RW_T4T_SUBSTATE_WAIT_UPDATE_NLEN" "p_update_data r2 = None"
    "rw_log r2 = rw_log r1" "ndef_status r2 = ndef_status r1" "ndef_length r2 = ndef_length r1"
    using parts_run [of c1 d ?len 0 r1 ?f] c c1 r1 d lf by (auto simp: word_less_nat_alt simp del: tag_apdu.simps)
  have "tag_spec (Update_binary 0 (be16_bytes (of_nat ?len))) (view c2) =
      (ok_sw, (view c2)\<lparr>t_file := overlay 0 (be16_bytes len) (written d ?len ?f)\<rparr>)"
    using c d 2(4) c1(2) by (subst tag_spec_update) (simp_all add: length_be16_bytes, simp add: be16_bytes_def)
  moreover have "overlay 0 (be16_bytes len) (written d ?len ?f) = overlay 0 (be16_bytes len @ take ?len d) ?f"
    unfolding written_def by (rule overlay_front) (simp add: length_be16_bytes)
  ultimately obtain c3 where c3: "exchange answer (r2, c2) = Some (r2\<lparr>frames := [], tag_timer := False, rw_state := RW_T4T_STATE_IDLE,
            rw_log := rw_log r2 @ [(RW_T4T_NDEF_UPDATE_CPLT_EVT, Rw_status NFC_STATUS_OK)]\<rparr>, c3)"
    "view c3 = (view c)\<lparr>t_file := overlay 0 (be16_bytes len @ take ?len d) ?f\<rparr>" "fine c3"
    using exchange_cmd [OF 2(3) _ 2(5) _ update_ends [OF 2(6-9)]] 2(4) c1(2) by (auto simp: length_be16_bytes)
  have "exchanges answer (Suc n + 1) (s, c) = Some (r2\<lparr>frames := [], tag_timer := False, rw_state := RW_T4T_STATE_IDLE,
            rw_log := rw_log r2 @ [(RW_T4T_NDEF_UPDATE_CPLT_EVT, Rw_status NFC_STATUS_OK)]\<rparr>, c3)"
    unfolding exchanges_add by (simp add: c1(1) 2(2) c3(1))
  with start c3(2,3) 2(1,6,10-12) r1(3-5) show ?thesis
    by (intro exI [of _ s] exI [of _ "Suc n + 1"] exI) (auto simp: s_def updater_ok_def)
qed

end

end
