(* ===== verification/Ce_T4t_Refine.thy ===== *)
theory Ce_T4t_Refine
  imports Ce_T4t T4t_Spec T4t_Update
begin

text \<open>
  The emulated tag keeps the contract of \<open>T4t_Spec\<close>: with the NDEF application alone (no registered AIDs) each command that
  \<open>ce_t4t_data_cback\<close> takes is answered as the specification answers it on the files.
\<close>

section \<open>The flags\<close>

lemma ce_has_bit:
  "ce_has 0x01 s = bit (ce_status s) 0" "ce_has 0x02 s = bit (ce_status s) 1" "ce_has 0x04 s = bit (ce_status s) 2"
  "ce_has 0x08 s = bit (ce_status s) 3" "ce_has 0x10 s = bit (ce_status s) 4" "ce_has 0x20 s = bit (ce_status s) 5"
  "ce_has 0x40 s = bit (ce_status s) 6"
  using and_exp_eq_0_iff_not_bit [of "ce_status s" 0] and_exp_eq_0_iff_not_bit [of "ce_status s" 1]
    and_exp_eq_0_iff_not_bit [of "ce_status s" 2] and_exp_eq_0_iff_not_bit [of "ce_status s" 3]
    and_exp_eq_0_iff_not_bit [of "ce_status s" 4] and_exp_eq_0_iff_not_bit [of "ce_status s" 5]
    and_exp_eq_0_iff_not_bit [of "ce_status s" 6]
  by (simp_all add: ce_has_def del: and_exp_eq_0_iff_not_bit bit_0 bit_Suc)

lemmas flag_simps = ce_has_bit ce_set_def ce_clear_def ce_select_only_def bit_simps

lemma ce_has_upd [simp]:
  "ce_has f (s\<lparr>frames := a\<rparr>) = ce_has f s" "ce_has f (s\<lparr>pool_ok := p\<rparr>) = ce_has f s"
  "ce_has f (s\<lparr>send_ok := p\<rparr>) = ce_has f s" "ce_has f (s\<lparr>tag_timer := t\<rparr>) = ce_has f s"
  "ce_has f (s\<lparr>nlen := n\<rparr>) = ce_has f s" "ce_has f (s\<lparr>p_scratch_buf := b\<rparr>) = ce_has f s"
  "ce_has f (s\<lparr>cc_file := c\<rparr>) = ce_has f s" "ce_has f (s\<lparr>ce_log := l\<rparr>) = ce_has f s"
  "ce_has f (s\<lparr>selected_aid_idx := i\<rparr>) = ce_has f s"
  by (simp_all add: ce_has_def)

section \<open>The view of the card\<close>

definition served :: "ce_cb \<Rightarrow> mem" where
  "served c = (case p_scratch_buf c of Some m \<Rightarrow> m | None \<Rightarrow> (case p_ndef_msg c of Some m \<Rightarrow> m | None \<Rightarrow> []))"

lemma served_upd [simp]:
  "served (s\<lparr>frames := a\<rparr>) = served s" "served (s\<lparr>tag_timer := t\<rparr>) = served s" "served (s\<lparr>nlen := n\<rparr>) = served s"
  "served (s\<lparr>cc_file := c\<rparr>) = served s" "served (s\<lparr>ce_log := l\<rparr>) = served s" "served (s\<lparr>ce_status := x\<rparr>) = served s"
  "served (s\<lparr>selected_aid_idx := i\<rparr>) = served s" "served (s\<lparr>p_scratch_buf := Some b\<rparr>) = b"
  by (cases "p_scratch_buf s"; simp add: served_def)+

definition card_view :: "ce_cb \<Rightarrow> tag_view" where
  "card_view c = \<lparr>
     t_sel = (if \<not> ce_has 0x01 c then No_app else if ce_has 0x04 c then Cc_file
              else if ce_has 0x08 c then Ndef_file else App),
     t_cc = cc_file c,
     t_file = be16_bytes (nlen c) @ take (unat (max_file_size c) - 2) (served c),
     t_ro = ce_has 0x10 c\<rparr>"

text \<open>
  What the emulation needs: the link works and nothing is left from an earlier command, no other application is registered
  or selected, there is a message to serve whose buffer holds the announced size, and a scratch buffer unless the file is read-only.
\<close>

definition card_ok :: "ce_cb \<Rightarrow> bool" where
  "card_ok c \<longleftrightarrow> link_free c \<and> frames c = [] \<and> length (cc_file c) = 15
     \<and> (\<forall>r \<in> set (reg_aid c). aid_len r = 0) \<and> p_wildcard_aid_cback c = None
     \<and> \<not> ce_has 0x02 c \<and> \<not> ce_has 0x40 c \<and> \<not> (ce_has 0x04 c \<and> ce_has 0x08 c)
     \<and> p_ndef_msg c \<noteq> None \<and> 2 \<le> max_file_size c \<and> unat (max_file_size c) \<le> length (served c) + 2
     \<and> (ce_has 0x10 c \<or> p_scratch_buf c \<noteq> None)"

text \<open>A command given to the card and its response, with an application that only takes note of events.\<close>

definition ce_answer :: "byte list \<Rightarrow> ce_cb \<Rightarrow> (byte list \<times> ce_cb) option" where
  "ce_answer bs c = do {
     c \<leftarrow> ce_t4t_data_cback quiet_ce (NFC_DATA_CEVT NFC_STATUS_OK (apdu bs)) c;
     case frames c of [r] \<Rightarrow> Some (body r, c\<lparr>frames := []\<rparr>) | _ \<Rightarrow> None }"

lemma length_file: "card_ok c \<Longrightarrow> length (t_file (card_view c)) = unat (max_file_size c)"
  by (auto simp: card_ok_def card_view_def length_be16_bytes word_le_nat_alt min_def)

lemma find_aid_none: "\<forall>r \<in> set rs. aid_len r = 0 \<Longrightarrow> find_aid rs n name xx = Some 4"
  by (induction rs arbitrary: xx) auto

lemma send_status_free [simp]:
  "link_free s \<Longrightarrow> ce_t4t_send_status sw s = (True, s\<lparr>frames := frames s @ [apdu (be16_bytes sw)]\<rparr>)"
  by (simp add: ce_t4t_send_status_def)

lemma link_free_upd [simp]:
  "link_free (s\<lparr>frames := a\<rparr>) = link_free s" "link_free (ce_set f c) = link_free c" "link_free (ce_clear f c) = link_free c"
  "link_free (ce_select_only f c) = link_free c" "link_free (c\<lparr>cc_file := d\<rparr>) = link_free c"
  "link_free (c\<lparr>selected_aid_idx := i\<rparr>) = link_free c" "link_free (c\<lparr>nlen := n\<rparr>) = link_free c"
  "link_free (c\<lparr>p_scratch_buf := b\<rparr>) = link_free c" "link_free (c\<lparr>ce_log := l\<rparr>) = link_free c"
  "link_free (s\<lparr>tag_timer := t\<rparr>) = link_free s"
  by (simp_all add: link_free_def ce_set_def ce_clear_def ce_select_only_def)

lemma frames_upd [simp]:
  "frames (ce_set f c) = frames c" "frames (ce_clear f c) = frames c" "frames (ce_select_only f c) = frames c"
  by (simp_all add: ce_set_def ce_clear_def ce_select_only_def)

section \<open>Selection\<close>

lemma be16_sws:
  "be16_bytes 0x9000 = [0x90, 0x00]" "be16_bytes 0x6A82 = [0x6A, 0x82]" "be16_bytes 0x6B00 = [0x6B, 0x00]"
  "be16_bytes 0x6986 = [0x69, 0x86]" "be16_bytes 0x6700 = [0x67, 0x00]"
  by (simp_all add: be16_bytes_def)

text \<open>A command that is answered with status words only, from a state that is all right.\<close>

lemma command_sw:
  assumes "ce_t4t_command quiet_ce NFC_STATUS_OK (apdu bs) c = Some (snd (ce_t4t_send_status sw c'))"
    and "link_free c'" "frames c' = []"
  shows "ce_answer bs c = Some (be16_bytes sw, c')"
  using assms by (simp add: ce_answer_def ce_t4t_data_cback_def)

lemma card_ok_link: "card_ok c \<Longrightarrow> link_free c" "card_ok c \<Longrightarrow> frames c = []"
  by (simp_all add: card_ok_def)

lemma card_view_aid_idx [simp]: "card_view (c\<lparr>selected_aid_idx := i\<rparr>) = card_view c" "card_ok (c\<lparr>selected_aid_idx := i\<rparr>) = card_ok c"
  by (simp_all add: card_view_def card_ok_def)

lemma selected_app:
  assumes "card_ok c"
  shows "card_view (ce_select_only 0x01 (c\<lparr>cc_file := (cc_file c)[2 := v]\<rparr>)) =
      (card_view c)\<lparr>t_sel := App, t_cc := (t_cc (card_view c))[2 := v]\<rparr>"
    and "card_ok (ce_select_only 0x01 (c\<lparr>cc_file := (cc_file c)[2 := v]\<rparr>))"
  using assms by (simp_all add: card_view_def card_ok_def flag_simps link_free_def)

lemma command_select_app:
  assumes c: "card_ok c" and bs: "bs = [0x00, 0xA4, 0x04, 0x00, n] @ rest" and m: "rd_bytes rest 0 (unat n) \<noteq> None"
  shows "ce_t4t_command quiet_ce NFC_STATUS_OK (apdu bs) c =
    Some (if n = 7 \<and> take 6 rest = take 6 t4t_v20_ndef_tag_aid \<and> (rest ! 6 = 0 \<or> rest ! 6 = 1)
      then snd (ce_t4t_send_status 0x9000 (ce_select_only 0x01
             (c\<lparr>selected_aid_idx := 4, cc_file := (cc_file c)[2 := if rest ! 6 = 0 then 0x10 else 0x20]\<rparr>)))
      else snd (ce_t4t_send_status 0x6A82 (c\<lparr>selected_aid_idx := 4\<rparr>)))"
proof -
  have u: "unat n \<le> length rest" using m by (simp add: rd_bytes_def split: if_splits)
  show ?thesis
  proof (cases "n = 7 \<and> take 6 rest = take 6 t4t_v20_ndef_tag_aid")
    case True
    with u have r: "6 < length rest" by simp
    with True c show ?thesis
      by (auto simp: bs ce_t4t_command_def card_ok_def ce_t4t_process_select_app_cmd_def find_aid_none
          names_ndef_app_def rd_bytes_def ce_t4t_set_version_in_cc_def wr_def Let_def)
  next
    case False
    with u c have "names_ndef_app n rest (c\<lparr>selected_aid_idx := 4\<rparr>) = Some False"
      by (auto simp: names_ndef_app_def rd_bytes_def)
    with False c show ?thesis
      by (auto simp: bs ce_t4t_command_def card_ok_def ce_t4t_process_select_app_cmd_def find_aid_none Let_def)
  qed
qed

lemma eq_snoc_iff:
  "length xs = k \<Longrightarrow> ys = xs @ [x] \<longleftrightarrow> length ys = Suc k \<and> take k ys = xs \<and> ys ! k = x"
proof
  assume "length xs = k" and a: "length ys = Suc k \<and> take k ys = xs \<and> ys ! k = x"
  have "take (Suc k) ys = take k ys @ [ys ! k]" using a by (intro take_Suc_conv_app_nth) simp
  with a show "ys = xs @ [x]" by simp
qed auto

lemma select_app_answers:
  assumes c: "card_ok c" and n: "length name < 256"
  shows "\<exists>c'. ce_answer (tag_apdu (Select_app name le)) c = Some (fst (tag_spec (Select_app name le) (card_view c)), c')
     \<and> card_view c' = snd (tag_spec (Select_app name le) (card_view c)) \<and> card_ok c'"
proof -
  let ?n = "of_nat (length name) :: byte"
  have un: "unat ?n = length name" using n by (simp add: unat_of_nat)
  then have l: "?n = 7 \<longleftrightarrow> length name = 7" by (auto simp: word_unat_eq_iff)
  have "length (butlast t4t_v20_ndef_tag_aid) = 6" "butlast t4t_v20_ndef_tag_aid = take 6 t4t_v20_ndef_tag_aid"
    by (simp_all add: t4t_v20_ndef_tag_aid_def)
  then have len7: "name = butlast t4t_v20_ndef_tag_aid @ [x] \<longleftrightarrow> length name = 7 \<and> take 6 name = take 6 t4t_v20_ndef_tag_aid \<and> name ! 6 = x" for x
    using eq_snoc_iff [of "butlast t4t_v20_ndef_tag_aid" 6 name x] by simp
  have r: "rd_bytes (name @ le) 0 (unat ?n) \<noteq> None" by (simp add: rd_bytes_def un)
  have f: "?n = 7 \<Longrightarrow> take 6 (name @ le) = take 6 name" "?n = 7 \<Longrightarrow> (name @ le) ! 6 = name ! 6"
    by (simp_all add: l nth_append)
  let ?k = "Select_app name le"
  have cmd: "ce_t4t_command quiet_ce NFC_STATUS_OK (apdu (tag_apdu ?k)) c =
    Some (if length name = 7 \<and> take 6 name = take 6 t4t_v20_ndef_tag_aid \<and> (name ! 6 = 0 \<or> name ! 6 = 1)
      then snd (ce_t4t_send_status 0x9000 (ce_select_only 0x01
             (c\<lparr>selected_aid_idx := 4, cc_file := (cc_file c)[2 := if name ! 6 = 0 then 0x10 else 0x20]\<rparr>)))
      else snd (ce_t4t_send_status 0x6A82 (c\<lparr>selected_aid_idx := 4\<rparr>)))"
    using command_select_app [OF c refl r] f by (auto simp: l)
  show ?thesis
  proof (cases "length name = 7 \<and> take 6 name = take 6 t4t_v20_ndef_tag_aid \<and> (name ! 6 = 0 \<or> name ! 6 = 1)")
    case True
    let ?v = "if name ! 6 = 0 then 0x10 else 0x20 :: byte"
    let ?c = "ce_select_only 0x01 (c\<lparr>selected_aid_idx := 4, cc_file := (cc_file c)[2 := ?v]\<rparr>)"
    have "ce_answer (tag_apdu ?k) c = Some (be16_bytes 0x9000, ?c)"
      using c by (intro command_sw) (simp_all only: cmd True if_True simp_thms, simp_all add: card_ok_link)
    moreover have "card_ok ?c" "card_view ?c = (card_view c)\<lparr>t_sel := App, t_cc := (t_cc (card_view c))[2 := ?v]\<rparr>"
      using selected_app [of "c\<lparr>selected_aid_idx := 4\<rparr>" ?v] c by simp_all
    moreover have "tag_spec ?k (card_view c) = (ok_sw, (card_view c)\<lparr>t_sel := App, t_cc := (t_cc (card_view c))[2 := ?v]\<rparr>)"
      using True by (auto simp: len7)
    ultimately show ?thesis by (simp add: be16_sws)
  next
    case False
    have "ce_answer (tag_apdu ?k) c = Some (be16_bytes 0x6A82, c\<lparr>selected_aid_idx := 4\<rparr>)"
      using c by (intro command_sw) (simp_all only: cmd False if_False simp_thms, simp_all add: card_ok_link)
    moreover have "tag_spec ?k (card_view c) = ([0x6A, 0x82], card_view c)"
      using False by (auto simp: len7)
    ultimately show ?thesis using c by (simp add: be16_sws)
  qed
qed

lemma select_file_state:
  assumes "ce_t4t_select_file fid c = (found, c')" and "card_ok c" and "ce_has 0x01 c"
  shows "card_ok c'" and "(if found then ok_sw else [0x6A, 0x82], card_view c') = tag_spec (Select_file p2 fid) (card_view c)"
proof -
  have x: "0x1000 \<noteq> (0xE103 :: u16)" by simp
  show "card_ok c'"
    using assms by (auto simp: ce_t4t_select_file_def card_ok_def flag_simps link_free_def split: if_splits)
  show "(if found then ok_sw else [0x6A, 0x82], card_view c') = tag_spec (Select_file p2 fid) (card_view c)"
    using assms by (auto simp: ce_t4t_select_file_def card_view_def flag_simps split: if_splits)
qed

lemma select_file_answers:
  assumes c: "card_ok c"
  shows "\<exists>c'. ce_answer (tag_apdu (Select_file p2 fid)) c = Some (fst (tag_spec (Select_file p2 fid) (card_view c)), c')
     \<and> card_view c' = snd (tag_spec (Select_file p2 fid) (card_view c)) \<and> card_ok c'"
proof (cases "ce_has 0x01 c")
  case False
  have "ce_answer (tag_apdu (Select_file p2 fid)) c = Some (be16_bytes 0x6986, c)"
    using False c by (intro command_sw) (simp_all add: ce_t4t_command_def card_ok_def)
  with False c show ?thesis by (simp add: be16_sws card_view_def)
next
  case True
  obtain found c' where f: "ce_t4t_select_file fid c = (found, c')" by fastforce
  note st = select_file_state [OF f c True]
  have "rd_be16 (p2 # 2 # be16_bytes fid) 2 = Some fid"
    using rd_be16_pad [of "[p2, 2]" fid "[]"] by (simp add: numeral_2_eq_2)
  then have "ce_t4t_command quiet_ce NFC_STATUS_OK (apdu (tag_apdu (Select_file p2 fid))) c
      = Some (snd (ce_t4t_send_status (if found then 0x9000 else 0x6A82) c'))"
    using True c st(1) by (simp add: ce_t4t_command_def card_ok_def ce_t4t_process_select_file_cmd_def f)
  then have "ce_answer (tag_apdu (Select_file p2 fid)) c = Some (be16_bytes (if found then 0x9000 else 0x6A82), c')"
    using st(1) by (intro command_sw) (simp_all add: card_ok_link)
  with st(1) st(2) [of p2, symmetric] show ?thesis by (simp add: be16_sws)
qed

text \<open>READ BINARY and UPDATE BINARY of the emulated tag on the files, and the contract as an interpretation.\<close>

section \<open>Reading\<close>

lemma slice_of_clamp: "slice_of off le f = slice_of off (min le (length f - off)) f"
  by (simp add: slice_of_def min_def)

lemma unat_minus: "y \<le> x \<Longrightarrow> unat (x - y :: 'a :: len word) = unat x - unat y"
  by (rule unat_sub)

lemma byte_pos: "0 < (x :: byte) \<longleftrightarrow> 0 < unat x"
  by (simp add: word_less_nat_alt)

lemma nlen_part_slice:
  assumes len: "0 < len" and fit: "unat off + unat len \<le> mx" and "2 \<le> mx" "mx \<le> length m + 2"
    and p: "nlen_part n off len = (front, off', len')"
  shows "\<exists>bs. (if 0 < len' then rd_bytes m (unat off') (unat len') else Some []) = Some bs
     \<and> front @ bs = slice_of (unat off) (unat len) (be16_bytes n @ take (mx - 2) m)"
proof -
  have l: "1 \<le> unat len" using len by (simp add: byte_pos)
  consider (one) "off = 0" "len = 1" | (zero) "off = 0" "len \<noteq> 1" | (low) "off = 1" | (rest) "off \<noteq> 0" "off \<noteq> 1" by blast
  then show ?thesis
  proof cases
    case one
    with p show ?thesis by (auto simp: nlen_part_def slice_of_def be16_bytes_def)
  next
    case zero
    then have "unat len \<noteq> 1" by (simp add: word_unat_eq_iff)
    with l have two: "2 \<le> unat len" by simp
    then have "unat (len - 2) = unat len - 2" by (subst unat_minus) (simp_all add: word_le_nat_alt)
    with zero p fit assms(3,4) two show ?thesis
      by (auto simp: nlen_part_def slice_of_def rd_bytes_def length_be16_bytes byte_pos min_def)
  next
    case low
    then have "unat (len - 1) = unat len - 1" "unat off = 1"
      using l by (simp_all add: unat_minus word_le_nat_alt)
    with low p fit assms(3,4) l show ?thesis
      by (auto simp: nlen_part_def slice_of_def rd_bytes_def be16_bytes_def byte_pos min_def)
  next
    case rest
    then have two: "2 \<le> unat off" by (auto simp: word_unat_eq_iff)
    then have "unat (off - 2) = unat off - 2" by (subst unat_minus) (simp_all add: word_le_nat_alt)
    with rest p fit assms(3,4) l two len show ?thesis
      by (auto simp: nlen_part_def slice_of_def rd_bytes_def length_be16_bytes drop_take min_def)
  qed
qed

lemma read_binary_effect:
  assumes c: "card_ok c" and app: "ce_has 0x01 c" and sel: "ce_has 0x04 c \<or> ce_has 0x08 c" and len: "0 < len"
    and f: "f = (if ce_has 0x04 c then cc_file c else t_file (card_view c))" and fit: "unat off + unat len \<le> length f"
  shows "ce_t4t_read_binary off len c = Some (True, c\<lparr>frames := [apdu (slice_of (unat off) (unat len) f @ ok_sw)]\<rparr>)"
proof (cases "ce_has 0x04 c")
  case True
  with c have "\<not> ce_has 0x08 c" by (simp add: card_ok_def)
  with True c f fit len show ?thesis
    by (simp add: ce_t4t_read_binary_def card_ok_def rd_bytes_def slice_of_def be16_sws)
next
  case False
  with sel have n: "ce_has 0x08 c" by simp
  obtain front off' len' where p: "nlen_part (nlen c) off len = (front, off', len')" by (rule prod_cases3)
  have "unat off + unat len \<le> unat (max_file_size c)" using fit False c by (simp add: f length_file)
  moreover have "2 \<le> unat (max_file_size c)" "unat (max_file_size c) \<le> length (served c) + 2"
    using c by (simp_all add: card_ok_def word_le_nat_alt)
  ultimately obtain bs where b: "(if 0 < len' then rd_bytes (served c) (unat off') (unat len') else Some []) = Some bs"
    "front @ bs = slice_of (unat off) (unat len) f"
    using nlen_part_slice [OF len _ _ _ p, of "unat (max_file_size c)" "served c"] False by (auto simp: f card_view_def)
  have s: "(case p_scratch_buf c of Some m \<Rightarrow> Some m | None \<Rightarrow> p_ndef_msg c) = Some (served c)"
    using c by (auto simp: card_ok_def served_def split: option.splits)
  show ?thesis using n False c p b len
    by (simp add: ce_t4t_read_binary_def s card_ok_link be16_sws card_ok_link Let_def flip: append_assoc)
qed

lemma read_answers:
  assumes c: "card_ok c"
  shows "\<exists>c'. ce_answer (tag_apdu (Read_binary off le)) c = Some (fst (tag_spec (Read_binary off le) (card_view c)), c')
     \<and> card_view c' = snd (tag_spec (Read_binary off le) (card_view c)) \<and> card_ok c'"
proof (cases "ce_has 0x01 c \<and> (ce_has 0x04 c \<or> ce_has 0x08 c)")
  case False
  have "ce_answer (tag_apdu (Read_binary off le)) c = Some (be16_bytes 0x6986, c)"
    using False c by (intro command_sw) (auto simp: ce_t4t_command_def card_ok_def ce_read_cmd_def be16_bytes_def)
  with False c show ?thesis by (auto simp: be16_sws card_view_def)
next
  case True
  define f where "f = (if ce_has 0x04 c then cc_file c else t_file (card_view c))"
  define mx where "mx = (if ce_has 0x04 c then 15 else max_file_size c)"
  have mx: "unat mx = length f" using c by (simp add: mx_def f_def length_file card_ok_def)
  define n where "n = (if unat mx < unat le + unat off then (if off < mx then ucast (mx - off) else 0) else le)"
  have len: "unat n = min (unat le) (length f - unat off)"
  proof (cases "unat mx < unat le + unat off \<and> off < mx")
    case True
    then have "unat (mx - off) = unat mx - unat off" by (intro unat_minus) (simp add: order.strict_implies_order)
    moreover have "length f - unat off < unat le" using True mx by (auto simp: word_less_nat_alt)
    ultimately show ?thesis using True mx unat_byte_less [of le]
      by (simp add: unat_ucast_mod min_absorb2 n_def)
  next
    case False
    then show ?thesis unfolding mx [symmetric] by (auto simp: word_less_nat_alt min_def n_def)
  qed
  have small: "ucast le \<le> (646 :: u16)" using unat_byte_less [of le] by (simp add: word_le_nat_alt unat_ucast_mod)
  have rd: "rd_be16 (be16_bytes off @ [le]) 0 = Some off" "rd (be16_bytes off @ [le]) 2 = Some le"
    by (simp add: rd_be16_bytes) (simp add: be16_bytes_def numeral_2_eq_2)
  have cmd: "ce_t4t_command quiet_ce NFC_STATUS_OK (apdu (tag_apdu (Read_binary off le))) c =
      (if 0 < n then Option.bind (ce_t4t_read_binary off n c) (\<lambda>p. Some (snd p))
       else Some (snd (ce_t4t_send_status 0x6B00 c)))"
    using True c small
    by (simp add: ce_t4t_command_def card_ok_def ce_read_cmd_def rd mx_def [symmetric] n_def [symmetric] split_def)
  have spec: "tag_spec (Read_binary off le) (card_view c) = (read_answer (unat off) (unat le) f, card_view c)"
    using True by (auto simp: card_view_def f_def)
  show ?thesis
  proof (cases "0 < n")
    case pos: True
    then have "unat off < length f" using len by (simp add: byte_pos)
    then have fit: "unat off + unat n \<le> length f" unfolding len by simp
    have "slice_of (unat off) (unat n) f \<noteq> []" using fit pos by (auto simp: slice_of_def byte_pos)
    then have r: "read_answer (unat off) (unat le) f = slice_of (unat off) (unat n) f @ ok_sw"
      unfolding read_answer_def slice_of_clamp [of _ "unat le"] len [symmetric] by (simp add: Let_def)
    have "ce_answer (tag_apdu (Read_binary off le)) c = Some (read_answer (unat off) (unat le) f, c)"
      using c pos unfolding ce_answer_def ce_t4t_data_cback_def
      by (simp del: tag_apdu.simps add: cmd read_binary_effect [OF c _ _ pos f_def fit] True r card_ok_link)
    with c show ?thesis unfolding spec by simp
  next
    case none: False
    then have "min (unat le) (length f - unat off) = 0" unfolding len [symmetric] by (simp add: byte_pos)
    then have r: "read_answer (unat off) (unat le) f = [0x6B, 0x00]"
      unfolding read_answer_def slice_of_clamp [of _ "unat le"] by (simp add: slice_of_def)
    have "ce_answer (tag_apdu (Read_binary off le)) c = Some (be16_bytes 0x6B00, c)"
      using c none by (intro command_sw) (simp_all del: tag_apdu.simps add: cmd card_ok_link)
    with c show ?thesis unfolding spec by (simp add: r be16_sws)
  qed
qed

section \<open>Updating\<close>

declare nlen_bytes.simps [simp del]

lemma nlen_bytes_stop: "\<not> (off < 2 \<and> 0 < len) \<Longrightarrow> nlen_bytes fl off len data = Some (fl, off, len, data)"
  by (subst nlen_bytes.simps) auto

lemma nlen_bytes_step:
  "off < 2 \<Longrightarrow> 0 < len \<Longrightarrow> nlen_bytes fl off len (d # ds) = nlen_bytes (fl[unat off := d]) (off + 1) (len - 1) ds"
  by (subst nlen_bytes.simps) simp

lemma rd_be16_pair: "rd_be16 [a, b] 0 = Some (be16_word a b)"
  by (simp add: rd_be16_def)

lemma take_nlen_cases:
  "0 < len \<Longrightarrow> len = 1 \<Longrightarrow> take_nlen n 0 len [d] = Some (be16_word d (ucast n), 1, 0, [])"
  "0 < len \<Longrightarrow> 0 < len - 1 \<Longrightarrow> take_nlen n 0 len (d # e # es) = Some (be16_word d e, 2, len - 2, es)"
  "0 < len \<Longrightarrow> take_nlen n 1 len (d # ds) = Some (be16_word (ucast (drop_bit 8 n)) d, 2, len - 1, ds)"
  "\<not> off < 2 \<Longrightarrow> take_nlen n off len data = Some (n, off, len, data)"
  by (simp_all add: take_nlen_def nlen_bytes_step nlen_bytes_stop be16_bytes_def rd_be16_pair)

lemma take_nlen_parts:
  assumes len: "length data = unat len" and pos: "0 < len"
  shows "\<exists>n' off' len' data'. take_nlen n off len data = Some (n', off', len', data')
    \<and> length data' = unat len' \<and> (0 < len' \<longrightarrow> 2 \<le> unat off' \<and> unat off' + unat len' = unat off + unat len)
    \<and> (\<forall>m. unat off + unat len \<le> length m + 2 \<longrightarrow>
         be16_bytes n' @ (if 0 < len' then overlay (unat off' - 2) data' m else m) = overlay (unat off) data (be16_bytes n @ m))"
proof -
  obtain d ds where d: "data = d # ds" using len pos by (cases data) (auto simp: byte_pos)
  have l: "unat (len - 1) = length ds" using pos len d by (subst unat_minus) (simp_all add: word_le_nat_alt byte_pos)
  consider (one) "off = 0" "ds = []" | (zero) e es where "off = 0" "ds = e # es" | (low) "off = 1" | (rest) "off \<noteq> 0" "off \<noteq> 1"
    by (cases ds) auto
  then show ?thesis
  proof cases
    case one
    then have one': "len = 1" using len d by (simp add: word_unat_eq_iff)
    show ?thesis unfolding one(1) d one(2) take_nlen_cases(1) [OF pos one']
      by (auto simp: be16_bytes_word overlay_def) (simp add: be16_bytes_def)
  next
    case zero
    then have two: "0 < len - 1" using l by (simp add: byte_pos)
    have l2: "unat (len - 2) = length es" using len d zero by (subst unat_minus) (simp_all add: word_le_nat_alt)
    have ul: "unat len = length es + 2" using len d zero by simp
    show ?thesis unfolding zero(1) d zero(2) take_nlen_cases(2) [OF pos two]
      using l2 by (auto simp: be16_bytes_word overlay_def byte_pos ul length_be16_bytes)
  next
    case low
    have ul: "unat len = length ds + 1" using len d by simp
    show ?thesis unfolding low d take_nlen_cases(3) [OF pos]
      using l by (auto simp: be16_bytes_word overlay_def byte_pos ul be16_bytes_def [of n])
  next
    case rest
    then have two: "2 \<le> unat off" "\<not> off < 2" by (auto simp: word_unat_eq_iff word_less_nat_alt)
    show ?thesis unfolding take_nlen_cases(4) [OF two(2)]
      using len pos two(1) by (auto simp: overlay_def length_be16_bytes byte_pos Suc_diff_le)
  qed
qed

lemma bookkeeping [simp]:
  "card_view (c\<lparr>tag_timer := t\<rparr>) = card_view c" "card_ok (c\<lparr>tag_timer := t\<rparr>) = card_ok c"
  "card_view (c\<lparr>ce_log := l\<rparr>) = card_view c" "card_ok (c\<lparr>ce_log := l\<rparr>) = card_ok c"
  "card_view (ce_set 0x20 c) = card_view c" "card_ok (ce_set 0x20 c) = card_ok c"
  "card_view (ce_clear 0x20 c) = card_view c" "card_ok (ce_clear 0x20 c) = card_ok c"
  by (simp_all add: card_view_def card_ok_def) (simp_all add: flag_simps link_free_def)

lemma update_progress_quiet:
  "\<exists>c'. update_progress quiet_ce start c = Some c' \<and> card_view c' = card_view c \<and> card_ok c' = card_ok c"
  by (auto simp: update_progress_def ce_notify_def quiet_ce_def split: option.splits)

lemma wr_bytes_overlay: "p + length bs \<le> length m \<Longrightarrow> wr_bytes m p bs = Some (overlay p bs m)"
  by (simp add: wr_bytes_def overlay_def)

lemma overlay_take: "off + length d \<le> k \<Longrightarrow> take k (overlay off d m) = overlay off d (take k m)"
  by (drule le_Suc_ex) (auto simp: overlay_def drop_take min_def)

lemma overlay_append:
  "length xs \<le> off \<Longrightarrow> overlay off d (xs @ m) = xs @ overlay (off - length xs) d m"
  by (simp add: overlay_def Suc_diff_le)

lemma update_binary_effect:
  assumes c: "card_ok c" and m: "p_scratch_buf c = Some m"
    and len: "length data = unat len" and pos: "0 < len" and fit: "unat off + unat len \<le> unat (max_file_size c)"
  shows "\<exists>c'. ce_t4t_update_binary quiet_ce off len data c = Some (True, c'\<lparr>frames := [apdu ok_sw]\<rparr>)
    \<and> card_view c' = (card_view c)\<lparr>t_file := overlay (unat off) data (t_file (card_view c))\<rparr> \<and> card_ok c'"
proof -
  let ?k = "unat (max_file_size c) - 2"
  have mx: "2 \<le> unat (max_file_size c)" "unat (max_file_size c) \<le> length m + 2"
    using c m by (simp_all add: card_ok_def served_def word_le_nat_alt)
  obtain n' off' len' data' where t: "take_nlen (nlen c) off len data = Some (n', off', len', data')"
    and l': "length data' = unat len'"
    and o': "0 < len' \<Longrightarrow> 2 \<le> unat off' \<and> unat off' + unat len' = unat off + unat len"
    and v: "\<And>m. unat off + unat len \<le> length m + 2 \<Longrightarrow>
      be16_bytes n' @ (if 0 < len' then overlay (unat off' - 2) data' m else m) = overlay (unat off) data (be16_bytes (nlen c) @ m)"
    using take_nlen_parts [OF len pos, of "nlen c" off] by blast
  define m' where "m' = (if 0 < len' then overlay (unat off' - 2) data' m else m)"
  have lm: "length m' = length m" using o' fit mx l' by (auto simp: m'_def)
  have wr: "rd_bytes data' 0 (unat len') = Some data'" "wr_bytes m (unat off' - 2) data' = Some m'" if "0 < len'"
    using o' [OF that] that fit mx l' by (simp_all add: wr_bytes_overlay m'_def rd_bytes_def)
  have stay: "c\<lparr>nlen := n'\<rparr> = c\<lparr>nlen := n', p_scratch_buf := Some m'\<rparr>" if "\<not> 0 < len'"
    using m that by (simp add: m'_def)
  have "take ?k m' = (if 0 < len' then overlay (unat off' - 2) data' (take ?k m) else take ?k m)"
    using o' fit mx l' by (auto simp: m'_def intro: overlay_take)
  then have nf: "be16_bytes n' @ take ?k m' = overlay (unat off) data (be16_bytes (nlen c) @ take ?k m)"
    using v [of "take ?k m"] fit mx by simp
  let ?c = "c\<lparr>nlen := n', p_scratch_buf := Some m'\<rparr>"
  have ok: "card_ok ?c" using c m lm by (simp add: card_ok_def served_def ce_has_def link_free_def)
  have view: "card_view ?c = (card_view c)\<lparr>t_file := overlay (unat off) data (t_file (card_view c))\<rparr>"
    using nf m by (simp add: card_view_def served_def)
  obtain c' where p: "update_progress quiet_ce off ?c = Some c'" "card_view c' = card_view ?c" "card_ok c' = card_ok ?c"
    using update_progress_quiet by blast
  have "ce_t4t_update_binary quiet_ce off len data c = Some (True, c'\<lparr>frames := [apdu ok_sw]\<rparr>)"
  proof (cases "0 < len'")
    case True
    with p ok show ?thesis by (simp add: ce_t4t_update_binary_def t m card_ok_link be16_sws Let_def wr)
  next
    case False
    with p ok stay show ?thesis by (simp add: ce_t4t_update_binary_def t card_ok_link be16_sws Let_def)
  qed
  then show ?thesis using p ok view by auto
qed

lemma command_update:
  "card_ok c \<Longrightarrow> ce_has 0x01 c \<Longrightarrow> ce_t4t_command E st (apdu (0x00 # 0xD6 # rest)) c = ce_update_cmd E rest c"
  by (simp add: ce_t4t_command_def card_ok_def)

lemma update_answers:
  assumes c: "card_ok c" and small: "length data < 256"
  shows "\<exists>c'. ce_answer (tag_apdu (Update_binary off data)) c = Some (fst (tag_spec (Update_binary off data) (card_view c)), c')
     \<and> card_view c' = snd (tag_spec (Update_binary off data) (card_view c)) \<and> card_ok c'"
proof -
  let ?k = "Update_binary off data" and ?n = "of_nat (length data) :: byte"
  have n: "unat ?n = length data" using small by (simp add: unat_of_nat)
  have lc: "ucast ?n \<le> (644 :: u16)" using unat_byte_less [of ?n] by (simp add: word_le_nat_alt unat_ucast_mod)
  have rd: "rd_be16 (be16_bytes off @ ?n # data) 0 = Some off" "rd (be16_bytes off @ ?n # data) 2 = Some ?n"
      "drop 3 (be16_bytes off @ ?n # data) = data"
    by (simp add: rd_be16_bytes) (simp_all add: be16_bytes_def numeral_2_eq_2)
  have sel: "t_sel (card_view c) = Ndef_file \<longleftrightarrow> ce_has 0x01 c \<and> ce_has 0x08 c" "t_ro (card_view c) = ce_has 0x10 c"
    using c by (auto simp: card_view_def card_ok_def)
  show ?thesis
  proof (cases "ce_has 0x01 c \<and> ce_has 0x08 c \<and> \<not> ce_has 0x10 c")
    case False
    have "ce_answer (tag_apdu ?k) c = Some (be16_bytes 0x6986, c)"
      using False c by (intro command_sw) (auto simp: ce_t4t_command_def card_ok_def ce_update_cmd_def be16_bytes_def)
    with False c show ?thesis by (auto simp: be16_sws sel)
  next
    case True
    with c obtain m where m: "p_scratch_buf c = Some m" by (auto simp: card_ok_def)
    let ?fits = "unat off + length data \<le> unat (max_file_size c)"
    have cmd: "ce_t4t_command quiet_ce NFC_STATUS_OK (apdu (tag_apdu ?k)) c =
        (if 0 < ?n \<and> ?fits then Option.bind (ce_t4t_update_binary quiet_ce off ?n data c) (\<lambda>p. Some (snd p))
         else Some (snd (ce_t4t_send_status 0x6B00 c)))"
      using True c lc by (auto simp: command_update ce_update_cmd_def rd n split_def not_le add.commute length_be16_bytes Let_def)
    show ?thesis
    proof (cases "data \<noteq> [] \<and> ?fits")
      case fits: True
      have pos: "0 < ?n" using fits unfolding byte_pos n by simp
      obtain c' where u: "ce_t4t_update_binary quiet_ce off ?n data c = Some (True, c'\<lparr>frames := [apdu ok_sw]\<rparr>)"
        and v: "card_view c' = (card_view c)\<lparr>t_file := overlay (unat off) data (t_file (card_view c))\<rparr>" "card_ok c'"
        using update_binary_effect [OF c m _ pos] fits n by auto
      have "ce_answer (tag_apdu ?k) c = Some (ok_sw, c')"
        using v(2) pos fits unfolding ce_answer_def ce_t4t_data_cback_def
        by (simp del: tag_apdu.simps add: cmd u card_ok_link) 
      with v fits True show ?thesis by (simp add: sel length_file [OF c])
    next
      case none: False
      then have "\<not> (0 < ?n \<and> ?fits)" by (auto simp: byte_pos n)
      then have "ce_answer (tag_apdu ?k) c = Some (be16_bytes 0x6B00, c)"
        using c by (intro command_sw) (simp_all only: cmd if_False, simp_all add: card_ok_link)
      with none c True show ?thesis by (auto simp: be16_sws sel length_file)
    qed
  qed
qed

section \<open>The contract\<close>

interpretation ce: ndef_tag ce_answer card_view card_ok
proof
  fix c k
  assume "card_ok c" "cmd_ok k"
  then show "\<exists>c'. ce_answer (tag_apdu k) c = Some (fst (tag_spec k (card_view c)), c')
      \<and> card_view c' = snd (tag_spec k (card_view c)) \<and> card_ok c'"
    using select_app_answers select_file_answers read_answers update_answers by (cases k) auto
qed

end
