(* ===== verification/T4t_Properties.thy ===== *)
theory T4t_Properties
  imports Ce_T4t_Refine
begin

text \<open>
  The properties of the type 4 tag: the emulated card keeps the contract, and a reader of this stack and an emulated
  card of this stack exchange messages without loss.
\<close>

text \<open>The card from its announcement by the application to its activation.\<close>

definition blank_card :: "ce_cb \<Rightarrow> bool" where
  "blank_card c \<longleftrightarrow> link_free c \<and> frames c = [] \<and> length (cc_file c) = 15
     \<and> (\<forall>r \<in> set (reg_aid c). aid_len r = 0) \<and> p_wildcard_aid_cback c = None"

definition emulate :: "bool \<Rightarrow> u16 \<Rightarrow> u16 \<Rightarrow> mem \<Rightarrow> mem option \<Rightarrow> nat option \<Rightarrow> ce_cb \<Rightarrow> ce_cb option" where
  "emulate ro mx len m scratch cback c =
     (case CE_T4tSetLocalNDEFMsg ro mx len (Some m) scratch c of
        Some (st, c') \<Rightarrow> if st = NFC_STATUS_OK then Some (snd (CE_SetActivatedTagType_iso_dep cback c')) else None
      | None \<Rightarrow> None)"

text \<open>The buffers the application hands over have the sizes it announces.\<close>

definition sizes_ok :: "bool \<Rightarrow> u16 \<Rightarrow> u16 \<Rightarrow> mem \<Rightarrow> mem option \<Rightarrow> bool" where
  "sizes_ok ro mx len m scratch \<longleftrightarrow> 3 \<le> mx \<and> mx < 0xFFFD \<and> len \<le> mx \<and> unat len \<le> length m
     \<and> (case scratch of None \<Rightarrow> ro \<and> unat mx \<le> length m | Some b \<Rightarrow> unat mx \<le> length b)"

definition scratch_of :: "u16 \<Rightarrow> mem \<Rightarrow> mem option \<Rightarrow> mem" where
  "scratch_of len m scratch = (case scratch of None \<Rightarrow> m | Some b \<Rightarrow> overlay 0 (take (unat len) m) b)"

lemma emulate_state:
  assumes "blank_card c" "sizes_ok ro mx len m scratch"
  obtains c' where "emulate ro mx len m scratch cback c = Some c'" "card_ok c'"
    "card_view c' = \<lparr>t_sel = No_app, t_cc = cc_contents (mx + 2) ro,
       t_file = be16_bytes len @ take (unat mx) (scratch_of len m scratch), t_ro = ro\<rparr>"
    "ce_cback c' = cback" "ce_log c' = ce_log c"
proof -
  have lcc: "length (cc_contents (mx + 2) ro) = 15" by (simp add: cc_contents_def length_be16_bytes)
  have um: "unat (mx + 2) = unat mx + 2" using assms(2)
    by (simp add: sizes_ok_def word_less_nat_alt unat_word_ariths)
  have two: "2 \<le> mx + 2" by (simp add: word_le_nat_alt um)
  define st where "st = (if ro then ce_status c OR 0x10 else ce_status c AND NOT 0x10) AND 0x10"
  define b where "b = map_option (\<lambda>b. overlay 0 (take (unat len) m) b) scratch"
  define c' where "c' = c\<lparr>cc_file := cc_contents (mx + 2) ro, p_ndef_msg := Some m, nlen := len, max_file_size := mx + 2,
    p_scratch_buf := b, ce_status := st, ce_cback := cback, tag_timer := False, rf_cback := True\<rparr>"
  have wr: "rd_bytes m 0 (unat len) = Some (take (unat len) m)" 
    "wr_bytes (cc_file c) 0 (cc_contents (mx + 2) ro) = Some (cc_contents (mx + 2) ro)"
    using assms lcc by (auto simp: rd_bytes_def sizes_ok_def wr_bytes_def blank_card_def)
  have ws: "scratch = Some x \<Longrightarrow> wr_bytes x 0 (take (unat len) m) = Some (overlay 0 (take (unat len) m) x)" for x
    using assms(2) by (intro wr_bytes_overlay) (auto simp: sizes_ok_def word_le_nat_alt)
  have "emulate ro mx len m scratch cback c = Some c'"
    using assms wr ws by (cases scratch; cases ro)
      (simp_all add: emulate_def CE_T4tSetLocalNDEFMsg_def sizes_ok_def CE_SetActivatedTagType_iso_dep_def ce_select_t4t_def
        c'_def st_def b_def ce_set_def ce_clear_def Let_def)
  moreover have bits: "bit st 4 = ro" "\<not> bit st 0" "\<not> bit st 1" "\<not> bit st 2" "\<not> bit st 3" "\<not> bit st 6"
    by (simp_all add: st_def bit_simps del: bit_0)
  have srv: "served c' = scratch_of len m scratch" by (simp add: served_def c'_def b_def scratch_of_def split: option.splits)
  have "unat mx \<le> length (scratch_of len m scratch)"
    using assms(2) by (auto simp: sizes_ok_def scratch_of_def word_le_nat_alt split: option.splits)
  then have "card_ok c'"
    using assms bits lcc two um unfolding card_ok_def srv ce_has_bit
    by (auto simp: c'_def b_def blank_card_def sizes_ok_def link_free_def split: option.splits)
  moreover have "card_view c' = \<lparr>t_sel = No_app, t_cc = cc_contents (mx + 2) ro,
       t_file = be16_bytes len @ take (unat mx) (scratch_of len m scratch), t_ro = ro\<rparr>"
    unfolding card_view_def srv ce_has_bit using bits um by (simp add: c'_def)
  ultimately show thesis by (intro that [of c']) (simp_all add: c'_def)
qed

lemma emulated_good:
  assumes "sizes_ok ro mx len m scratch" and v: "v = \<lparr>t_sel = No_app, t_cc = cc_contents (mx + 2) ro,
       t_file = be16_bytes len @ take (unat mx) (scratch_of len m scratch), t_ro = ro\<rparr>"
  shows "good_tag (selected_view v)" and "file_nlen (selected_view v) = len" "length (t_file v) = unat mx + 2"
proof -
  have um: "unat (mx + 2) = unat mx + 2" using assms(1)
    by (simp add: sizes_ok_def word_less_nat_alt unat_word_ariths)
  have lm: "unat mx \<le> length (scratch_of len m scratch)"
    using assms(1) by (auto simp: sizes_ok_def scratch_of_def word_le_nat_alt split: option.splits)
  then show l: "length (t_file v) = unat mx + 2" by (simp add: v length_be16_bytes)
  have n: "file_nlen v = len" by (simp add: file_nlen_def v) (simp add: be16_bytes_def be16_word_bytes)
  then show "file_nlen (selected_view v) = len" by (simp add: file_nlen_def selected_view_def)
  have f: "cc_fields ((cc_contents (mx + 2) ro)[2 := 0x20]) = \<lparr>cclen = 15, cc_version = 0x20, max_le = 646, max_lc = 644,
     ndef_fc = \<lparr>file_id = 0x1000, fc_max_file_size = mx + 2, read_access = 0, write_access = (if ro then 0xFF else 0)\<rparr>\<rparr>"
    by (simp add: cc_contents_def cc_fields_def be16_bytes_def be16_word_bytes [of "mx + 2", simplified])
       (simp add: be16_word_def)
  have s: "length ((cc_contents (mx + 2) ro)[2 := 0x20]) = 15" "(cc_contents (mx + 2) ro)[2 := 0x20] ! 7 = 4"
     "(cc_contents (mx + 2) ro)[2 := 0x20] ! 8 = 6"
    by (simp_all add: cc_contents_def be16_bytes_def)
  have b: "5 \<le> mx + 2" "mx + 2 \<noteq> 0xFFFF" 
    using assms(1) by (simp_all add: sizes_ok_def word_le_nat_alt word_less_nat_alt um word_unat_eq_iff)
  have nl: "unat len + 2 \<le> length (t_file v)" using assms(1) unfolding l by (simp add: sizes_ok_def word_le_nat_alt)
  have tv: "t_cc (selected_view v) = (cc_contents (mx + 2) ro)[2 := 0x20]" "t_file (selected_view v) = t_file v"
    "t_ro (selected_view v) = ro" by (simp_all add: selected_view_def v)
  have fn: "file_nlen (selected_view v) = len" using n by (simp add: file_nlen_def selected_view_def)
  show "good_tag (selected_view v)"
    unfolding good_tag_def Let_def tv f fn using s b nl l um by (simp del: length_list_update nth_list_update_neq)
qed

text \<open>A reader that has just been activated on a tag.\<close>

definition fresh_reader :: "rw_cb \<Rightarrow> bool" where
  "fresh_reader r \<longleftrightarrow> (\<exists>mode r0. link_free r0 \<and> frames r0 = [] \<and> RW_SetActivatedTagType_iso_dep mode True r0 = (NFC_STATUS_OK, r))"

lemma fresh_reader_state:
  assumes "fresh_reader r"
  shows "reader_ok r" "frames r = []" "rw_state r = RW_T4T_STATE_IDLE" "version r = 0x20" "\<not> ndef_has 1 r"
  using assms by (auto simp: fresh_reader_def RW_SetActivatedTagType_iso_dep_def tcb_zero_def rw_t4t_select_def upd_cc_def Let_def
      reader_ok_def link_free_def ndef_has_def split: if_splits)

lemma detected_fields:
  assumes "reader_ok r" "15 \<le> max_le (cc r)" "1 \<le> max_lc (cc r)" "frames r = []"
  shows "updater_ok (detected v r)" "reader_ok (detected v r)" "frames (detected v r) = []" "rw_state (detected v r) = RW_T4T_STATE_IDLE"
    "ndef_has 1 (detected v r)" "ndef_has 2 (detected v r) = t_ro v" "ndef_length (detected v r) = file_nlen v" "cc (detected v r) = cc r"
  using assms by (auto simp: updater_ok_def reader_ok_def detected_def per_command_def Let_def ndef_has_def link_free_def
      word_le_nat_alt not_le)

text \<open>
  Detection of an emulated card by a fresh reader.
\<close>

lemma card_detected:
  assumes "blank_card c0" "sizes_ok ro mx len m scratch" and r: "fresh_reader r"
    and e: "emulate ro mx len m scratch cback c0 = Some c"
  obtains s r' c' where "RW_T4tDetectNDef r = (NFC_STATUS_OK, s)" "exchanges ce_answer 5 (s, c) = Some (r', c')" "card_ok c'"
    "t_sel (card_view c') = Ndef_file" "t_ro (card_view c') = ro"
    "t_file (card_view c') = be16_bytes len @ take (unat mx) (scratch_of len m scratch)" "length (t_file (card_view c')) = unat mx + 2"
    "updater_ok r'" "reader_ok r'" "frames r' = []" "rw_state r' = RW_T4T_STATE_IDLE" "ndef_has 1 r'" "ndef_has 2 r' = ro"
    "ndef_length r' = len" "unat (fc_max_file_size (ndef_fc (cc r'))) = unat mx + 2"
    "rw_log r' = rw_log r @ [(RW_T4T_NDEF_DETECT_EVT,
       Rw_ndef NFC_STATUS_OK NFC_PROTOCOL_ISO_DEP (of_nat (unat mx)) (of_nat (unat len)) (Some (if ro then 0x07 else 0x06)))]"
proof -
  obtain c1 where "emulate ro mx len m scratch cback c0 = Some c1" "card_ok c1" "card_view c1 = \<lparr>t_sel = No_app, t_cc = cc_contents (mx + 2) ro,
       t_file = be16_bytes len @ take (unat mx) (scratch_of len m scratch), t_ro = ro\<rparr>"
    using emulate_state [OF assms(1,2)] by blast
  with e have ok: "card_ok c" and v: "card_view c = \<lparr>t_sel = No_app, t_cc = cc_contents (mx + 2) ro,
       t_file = be16_bytes len @ take (unat mx) (scratch_of len m scratch), t_ro = ro\<rparr>" by simp_all
  note g = emulated_good [OF assms(2) v]
  note fr = fresh_reader_state [OF r]
  obtain s r' c' where d: "RW_T4tDetectNDef r = (NFC_STATUS_OK, s)" "exchanges ce_answer 5 (s, c) = Some (r', c')"
    "card_view c' = selected_view (card_view c)" "card_ok c'"
    "r' = detected (card_view c') (r\<lparr>cc := cc_fields (t_cc (card_view c')), rw_offset := 0, rw_length := 2,
       sub_state := RW_T4T_SUBSTATE_WAIT_READ_NLEN\<rparr>)"
    by (rule ce.detection_run [OF ok g(1) fr])
  let ?r = "r\<lparr>cc := cc_fields (t_cc (card_view c')), rw_offset := 0, rw_length := 2, sub_state := RW_T4T_SUBSTATE_WAIT_READ_NLEN\<rparr>"
  have gt: "15 \<le> max_le (cc ?r)" "1 \<le> max_lc (cc ?r)" "unat (fc_max_file_size (ndef_fc (cc ?r))) = unat mx + 2"
    using g by (simp_all add: d(3) good_tag_def Let_def) (simp add: selected_view_def)
  have rr: "reader_ok ?r" "frames ?r = []" using fr by simp_all
  note df = detected_fields [OF rr(1) gt(1,2) rr(2), of "card_view c'"]
  have t: "t_file (selected_view (card_view c)) = t_file (card_view c)" "t_sel (selected_view (card_view c)) = Ndef_file"
    "t_ro (selected_view (card_view c)) = ro" by (simp_all add: selected_view_def v)
  have log: "rw_log r' = rw_log r @ [(RW_T4T_NDEF_DETECT_EVT,
       Rw_ndef NFC_STATUS_OK NFC_PROTOCOL_ISO_DEP (of_nat (unat mx)) (of_nat (unat len)) (Some (if ro then 0x07 else 0x06)))]"
    unfolding d(5) detected_def detect_data_def d(3) using g t by simp
  have fl: "t_file (card_view c) = be16_bytes len @ take (unat mx) (scratch_of len m scratch)" by (simp add: v)
  have cr: "cc r' = cc ?r" unfolding d(5) by (rule df(8))
  note df' = df(1-7) [folded d(5)]
  have vw: "t_sel (card_view c') = Ndef_file" "t_ro (card_view c') = ro"
    "t_file (card_view c') = be16_bytes len @ take (unat mx) (scratch_of len m scratch)"
    "length (t_file (card_view c')) = unat mx + 2" "file_nlen (card_view c') = len"
    unfolding d(3) t by (simp_all only: fl g(2) g(3) [unfolded fl])
  have "ndef_has 2 r' = ro" "ndef_length r' = len" using df'(6,7) vw(2,5) by simp_all
  moreover have "unat (fc_max_file_size (ndef_fc (cc r'))) = unat mx + 2" unfolding cr by (rule gt(3))
  ultimately show thesis using that [OF d(1,2,4) vw(1-4) df'(1-5)] log by blast
qed

section \<open>The properties\<close>

definition zero_card :: ce_cb where
  "zero_card = \<lparr>pool_ok = sconst True, send_ok = sconst True, frames = [], tag_timer = False, rf_cback = False,
     ce_cback = None, cc_file = replicate 15 0, p_ndef_msg = None, nlen = 0, max_file_size = 0, p_scratch_buf = None,
     ce_status = 0, p_wildcard_aid_cback = None,
     reg_aid = replicate 4 \<lparr>aid_len = 0, aid = replicate 16 0, aid_cback = None\<rparr>, selected_aid_idx = 0, ce_log = []\<rparr>"

definition zero_reader :: rw_cb where
  "zero_reader = \<lparr>pool_ok = sconst True, send_ok = sconst True, frames = [], tag_timer = False, rf_cback = False,
     rw_cback = False, rw_state = RW_T4T_STATE_NOT_ACTIVATED, sub_state = RW_T4T_SUBSTATE_WAIT_SELECT_APP, version = 0,
     ndef_length = 0, p_update_data = None, rw_length = 0, rw_offset = 0,
     cc = \<lparr>cclen = 0, cc_version = 0, max_le = 0, max_lc = 0,
            ndef_fc = \<lparr>file_id = 0, fc_max_file_size = 0, read_access = 0, write_access = 0\<rparr>\<rparr>,
     ndef_status = 0, channel = 0, max_read_size = 0, max_update_size = 0, card_size = 0, card_type = 0,
     pupiid_len = 0, pupiid = replicate 8 0, rw_log = []\<rparr>"

lemma zero_ok: "blank_card zero_card" "fresh_reader (snd (RW_SetActivatedTagType_iso_dep 0 True zero_reader))"
proof -
  show "blank_card zero_card" by (simp add: blank_card_def zero_card_def link_free_def)
  show "fresh_reader (snd (RW_SetActivatedTagType_iso_dep 0 True zero_reader))"
    unfolding fresh_reader_def
    by (intro exI [of _ 0] exI [of _ zero_reader])
      (simp add: zero_reader_def link_free_def RW_SetActivatedTagType_iso_dep_def rw_t4t_select_def Let_def)
qed

lemma scratch_of_message: "sizes_ok ro mx len m scratch \<Longrightarrow> take (unat len) (scratch_of len m scratch) = take (unat len) m"
  by (auto simp: scratch_of_def overlay_def sizes_ok_def word_le_nat_alt min_def split: option.splits)

lemma slice_of_message:
  "n \<le> k \<Longrightarrow> slice_of 2 n (be16_bytes l @ take k x) = take n x"
  by (simp add: slice_of_def length_be16_bytes min_absorb1)

text \<open>
  C37. The emulated card is a type 4 tag: in a state in which only the NDEF application is served, every command that a
  SELECT, READ BINARY or UPDATE BINARY encodes gets the answer of the specification on the selection and the two files, the files and the
  selection change as specified, and the state stays one of these. So reads at any offset and of any length (also of
  one byte of NLEN) are slices of the file, and writes change the file in place and nothing else.
\<close>
theorem card_keeps_contract:
  assumes "card_ok c" and "cmd_ok k"
  shows "\<exists>c'. ce_answer (tag_apdu k) c = Some (fst (tag_spec k (card_view c)), c')
    \<and> card_view c' = snd (tag_spec k (card_view c)) \<and> card_ok c'"
  using assms by (rule ce.answers)

lemma card_keeps_contract_witness:
  "\<exists>c c'. emulate False 10 3 [1, 2, 3] (Some (replicate 10 0)) None zero_card = Some c
    \<and> ce_answer (tag_apdu (Select_file 0 0x1000)) c = Some ([0x69, 0x86], c') \<and> card_ok c'"
proof -
  have sz: "sizes_ok False 10 3 [1, 2, 3] (Some (replicate 10 0))" by (simp add: sizes_ok_def)
  obtain c where c: "emulate False 10 3 [1, 2, 3] (Some (replicate 10 0)) None zero_card = Some c" "card_ok c" "t_sel (card_view c) = No_app"
    by (rule emulate_state [OF zero_ok(1) sz, of None]) auto
  have "\<exists>c'. ce_answer (tag_apdu (Select_file 0 0x1000)) c = Some ([0x69, 0x86], c') \<and> card_ok c'"
    using card_keeps_contract [OF c(2), of "Select_file 0 0x1000"] c(3) by auto
  with c show ?thesis by blast
qed

text \<open>
  C38. For a card that emulates a file for messages of \<open>mx\<close> bytes, from 3 to 0xFFFC, with a message of \<open>len\<close> bytes, at least one
  and at most \<open>mx\<close>, and with buffers for every request: a fresh reader detects the card in five exchanges, reports its sizes and access, and reading then delivers
  exactly the announced message, in segments that end with the event of completion, after at most one exchange per byte.
\<close>
theorem message_read:
  assumes "blank_card c0" "sizes_ok ro mx len m scratch" "fresh_reader r" "0 < len"
  shows "\<exists>c s r1 c1 s1 n r2 c2 evs. emulate ro mx len m scratch cback c0 = Some c
    \<and> RW_T4tDetectNDef r = (NFC_STATUS_OK, s) \<and> exchanges ce_answer 5 (s, c) = Some (r1, c1)
    \<and> RW_T4tReadNDef r1 = (NFC_STATUS_OK, s1) \<and> n \<le> unat len \<and> exchanges ce_answer n (s1, c1) = Some (r2, c2)
    \<and> rw_state r2 = RW_T4T_STATE_IDLE
    \<and> rw_log r2 = rw_log r @ (RW_T4T_NDEF_DETECT_EVT, Rw_ndef NFC_STATUS_OK NFC_PROTOCOL_ISO_DEP
         (of_nat (unat mx)) (of_nat (unat len)) (Some (if ro then 0x07 else 0x06))) # evs
    \<and> evs \<noteq> [] \<and> fst (last evs) = RW_T4T_NDEF_READ_CPLT_EVT \<and> (\<forall>e \<in> set (butlast evs). fst e = RW_T4T_NDEF_READ_EVT)
    \<and> message_of evs = take (unat len) m"
proof -
  obtain c where e: "emulate ro mx len m scratch cback c0 = Some c"
    using emulate_state [OF assms(1,2)] by blast
  obtain s r1 c1 where d: "RW_T4tDetectNDef r = (NFC_STATUS_OK, s)" "exchanges ce_answer 5 (s, c) = Some (r1, c1)" "card_ok c1"
    "t_sel (card_view c1) = Ndef_file" "t_file (card_view c1) = be16_bytes len @ take (unat mx) (scratch_of len m scratch)"
    "length (t_file (card_view c1)) = unat mx + 2" "reader_ok r1" "frames r1 = []" "rw_state r1 = RW_T4T_STATE_IDLE"
    "ndef_has 1 r1" "ndef_length r1 = len" and log: "rw_log r1 = rw_log r @ [(RW_T4T_NDEF_DETECT_EVT,
       Rw_ndef NFC_STATUS_OK NFC_PROTOCOL_ISO_DEP (of_nat (unat mx)) (of_nat (unat len)) (Some (if ro then 0x07 else 0x06)))]"
    by (rule card_detected [OF assms(1,2,3) e])
  have b: "unat len \<le> unat mx" "unat mx + 2 < 65536"
    using assms(2) by (simp_all add: sizes_ok_def word_le_nat_alt word_less_nat_alt)
  from ce.message_run [OF d(3,4) _ d(7-10), unfolded d(6,11)] b assms(4)
  obtain s1 n r2 c2 evs where "RW_T4tReadNDef r1 = (NFC_STATUS_OK, s1)" "n \<le> unat len" "exchanges ce_answer n (s1, c1) = Some (r2, c2)"
    "rw_state r2 = RW_T4T_STATE_IDLE" "rw_log r2 = rw_log r1 @ evs" "evs \<noteq> []" "fst (last evs) = RW_T4T_NDEF_READ_CPLT_EVT"
    "\<forall>e \<in> set (butlast evs). fst e = RW_T4T_NDEF_READ_EVT" "message_of evs = slice_of 2 (unat len) (t_file (card_view c1))"
    by auto
  moreover from this(9) have "message_of evs = take (unat len) m"
    using b scratch_of_message [OF assms(2)] by (simp add: d(5) slice_of_message)
  ultimately show ?thesis using e d(1,2) log by fastforce
qed

lemma message_read_witness:
  "\<exists>c s r1 c1 s1 n r2 c2 evs. emulate True 300 3 [1, 2, 3] (Some (replicate 300 0)) None zero_card = Some c
    \<and> RW_T4tDetectNDef (snd (RW_SetActivatedTagType_iso_dep 0 True zero_reader)) = (NFC_STATUS_OK, s)
    \<and> exchanges ce_answer 5 (s, c) = Some (r1, c1)
    \<and> RW_T4tReadNDef r1 = (NFC_STATUS_OK, s1) \<and> exchanges ce_answer n (s1, c1) = Some (r2, c2)
    \<and> rw_log r2 = (RW_T4T_NDEF_DETECT_EVT, Rw_ndef NFC_STATUS_OK NFC_PROTOCOL_ISO_DEP 300 3 (Some 0x07)) # evs
    \<and> message_of evs = [1, 2, 3]"
proof -
  have sz: "sizes_ok True 300 3 [1, 2, 3] (Some (replicate 300 0))" by (simp add: sizes_ok_def)
  have "rw_log (snd (RW_SetActivatedTagType_iso_dep 0 True zero_reader)) = []"
    by (simp add: RW_SetActivatedTagType_iso_dep_def zero_reader_def tcb_zero_def rw_t4t_select_def upd_cc_def Let_def)
  with message_read [OF zero_ok(1) sz zero_ok(2), of None] show ?thesis by simp blast
qed

text \<open>
  C39. On a writable emulated card for messages of \<open>mx\<close> bytes, from 3 to 0xFFFC, and for a message of 1 to \<open>mx\<close> bytes, with buffers for every
  request: what the reader writes is what it then reads, and the card's file holds the new length and the message,
  its other bytes being as before; the update ends with the event of completion, after at most one exchange per byte and two for the length.
\<close>
theorem message_written:
  assumes "blank_card c0" "sizes_ok False mx len m scratch" "fresh_reader r"
    and "0 < k" "k \<le> mx" "unat k \<le> length d"
  shows "\<exists>c s r1 c1 s1 n r2 c2 s2 n' r3 c3 evs. emulate False mx len m scratch cback c0 = Some c
    \<and> RW_T4tDetectNDef r = (NFC_STATUS_OK, s) \<and> exchanges ce_answer 5 (s, c) = Some (r1, c1)
    \<and> RW_T4tUpdateNDef k (Some d) r1 = (NFC_STATUS_OK, s1) \<and> n \<le> unat k + 2 \<and> exchanges ce_answer n (s1, c1) = Some (r2, c2)
    \<and> rw_log r2 = rw_log r1 @ [(RW_T4T_NDEF_UPDATE_CPLT_EVT, Rw_status NFC_STATUS_OK)]
    \<and> t_file (card_view c2) = overlay 0 (be16_bytes k @ take (unat k) d) (t_file (card_view c1))
    \<and> RW_T4tReadNDef r2 = (NFC_STATUS_OK, s2) \<and> n' \<le> unat k \<and> exchanges ce_answer n' (s2, c2) = Some (r3, c3)
    \<and> rw_log r3 = rw_log r2 @ evs \<and> fst (last evs) = RW_T4T_NDEF_READ_CPLT_EVT \<and> message_of evs = take (unat k) d"
proof -
  obtain c where e: "emulate False mx len m scratch cback c0 = Some c"
    using emulate_state [OF assms(1,2)] by blast
  obtain s r1 c1 where d: "RW_T4tDetectNDef r = (NFC_STATUS_OK, s)" "exchanges ce_answer 5 (s, c) = Some (r1, c1)" "card_ok c1"
    "t_sel (card_view c1) = Ndef_file" "t_ro (card_view c1) = False" "length (t_file (card_view c1)) = unat mx + 2"
    "updater_ok r1" "frames r1 = []" "rw_state r1 = RW_T4T_STATE_IDLE"
    "ndef_has 1 r1" "ndef_has 2 r1 = False" "unat (fc_max_file_size (ndef_fc (cc r1))) = unat mx + 2"
    by (rule card_detected [OF assms(1,2,3) e])
  have b: "unat k \<le> unat mx" "unat mx + 2 < 65536"
    using assms(2,5) by (simp_all add: sizes_ok_def word_le_nat_alt word_less_nat_alt)
  from ce.update_run [OF d(3,4) _ d(7-10) _ _ assms(4,6), unfolded d(5,6,11,12)] b(1)
  obtain s1 n r2 c2 where u: "RW_T4tUpdateNDef k (Some d) r1 = (NFC_STATUS_OK, s1)" "n \<le> unat k + 2"
    "exchanges ce_answer n (s1, c1) = Some (r2, c2)" "card_ok c2"
    "card_view c2 = (card_view c1)\<lparr>t_file := overlay 0 (be16_bytes k @ take (unat k) d) (t_file (card_view c1))\<rparr>"
    "rw_state r2 = RW_T4T_STATE_IDLE" "frames r2 = []" "reader_ok r2" "ndef_status r2 = ndef_status r1" "ndef_length r2 = k"
    "rw_log r2 = rw_log r1 @ [(RW_T4T_NDEF_UPDATE_CPLT_EVT, Rw_status NFC_STATUS_OK)]"
    by auto
  let ?f = "overlay 0 (be16_bytes k @ take (unat k) d) (t_file (card_view c1))"
  have f: "t_sel (card_view c2) = Ndef_file" "t_file (card_view c2) = ?f" "length ?f = unat mx + 2" "ndef_has 1 r2"
    using d b(1) assms(6) u(5,9) by (simp_all add: length_be16_bytes ndef_has_def)
  from ce.message_run [OF u(4) f(1) _ u(8,7,6) f(4), unfolded f(2,3) u(10)] b assms(4)
  obtain s2 n' r3 c3 evs where m: "RW_T4tReadNDef r2 = (NFC_STATUS_OK, s2)" "n' \<le> unat k" "exchanges ce_answer n' (s2, c2) = Some (r3, c3)"
    "rw_log r3 = rw_log r2 @ evs" "fst (last evs) = RW_T4T_NDEF_READ_CPLT_EVT" "message_of evs = slice_of 2 (unat k) ?f"
    by auto
  have "slice_of 2 (unat k) ?f = take (unat k) d"
    using assms(6) by (simp add: overlay_def slice_of_def length_be16_bytes min_absorb1)
  with m(6) have m': "message_of evs = take (unat k) d" by simp
  show ?thesis
    by (intro exI conjI, rule e, rule d(1), rule d(2), rule u(1), rule u(2), rule u(3), rule u(11), rule f(2),
        rule m(1), rule m(2), rule m(3), rule m(4), rule m(5), rule m')
qed

lemma message_written_witness:
  "\<exists>s r1 c1 s1 n r2 c2 s2 n' r3 c3 evs.
    RW_T4tUpdateNDef 2 (Some [7, 8]) r1 = (NFC_STATUS_OK, s1) \<and> exchanges ce_answer n (s1, c1) = Some (r2, c2)
    \<and> t_file (card_view c2) = overlay 0 [0, 2, 7, 8] (t_file (card_view c1))
    \<and> RW_T4tReadNDef r2 = (NFC_STATUS_OK, s2) \<and> exchanges ce_answer n' (s2, c2) = Some (r3, c3)
    \<and> rw_log r3 = rw_log r2 @ evs \<and> message_of evs = [7, 8]"
proof -
  have sz: "sizes_ok False 300 3 [1, 2, 3] (Some (replicate 300 0))" by (simp add: sizes_ok_def)
  have b: "be16_bytes 2 @ take (unat (2 :: u16)) [7, 8] = [0, 2, 7, 8]" by (simp add: be16_bytes_def)
  show ?thesis
    using message_written [OF zero_ok(1) sz zero_ok(2), of 2 "[7, 8]" None] unfolding b by simp blast
qed

end
