(* ===== verification/Rw_T4t_Steps.thy ===== *)
theory Rw_T4t_Steps
  imports Rw_T4t_Main
begin

text \<open>
  The reader as a state machine: its steps are all events of the core, the expiry of the timer and the calls of the application,
  with an application that may call back into the reader. Whenever the reader waits for a response, its timer runs, but for two
  cases: an event that it does not handle has stopped the timer, or it waits for the answer to an empty I-block.
\<close>

definition waiting :: "rw_cb \<Rightarrow> bool" where
  "waiting s \<longleftrightarrow> rw_state s \<notin> {RW_T4T_STATE_NOT_ACTIVATED, RW_T4T_STATE_IDLE}"

text \<open>\<open>blk\<close> tells whether the application uses the presence check with an empty I-block.\<close>

definition watched :: "bool \<Rightarrow> rw_cb \<Rightarrow> bool" where
  "watched blk s \<longleftrightarrow> (waiting s \<longrightarrow> tag_timer s \<or> blk \<and> rw_state s = RW_T4T_STATE_PRESENCE_CHECK)"

text \<open>What a callback of the application may do: whatever keeps this, as every call of the interface does.\<close>

locale reader_client =
  fixes E :: rw_env and blk :: bool
  assumes callback: "E ev d s = Some s' \<Longrightarrow> watched blk s \<Longrightarrow> watched blk s'"

text \<open>The events the reader handles; for the others it stops its timer and does nothing else.\<close>

fun heard :: "conn_evt \<Rightarrow> bool" where
  "heard (NFC_DEACTIVATE_CEVT st typ ntf) = True"
| "heard (NFC_DATA_CEVT st b) = True"
| "heard (NFC_ERROR_CEVT st) = True"
| "heard NFC_RF_WTX_CEVT = True"
| "heard ev = False"

inductive reader_call :: "rw_env \<Rightarrow> bool \<Rightarrow> rw_cb \<Rightarrow> rw_cb \<Rightarrow> bool" for E blk where
  select: "RW_SetActivatedTagType_iso_dep mode cback s = (st, s') \<Longrightarrow> reader_call E blk s s'"
| detect: "RW_T4tDetectNDef s = (st, s') \<Longrightarrow> reader_call E blk s s'"
| read: "RW_T4tReadNDef s = (st, s') \<Longrightarrow> reader_call E blk s s'"
| update: "RW_T4tUpdateNDef len data s = (st, s') \<Longrightarrow> reader_call E blk s s'"
| format: "RW_T4tFormatNDef s = (st, s') \<Longrightarrow> reader_call E blk s s'"
| pupi: "RW_T3BtGetPupiID s = (st, s') \<Longrightarrow> reader_call E blk s s'"
| presence: "(opt = 4 \<longrightarrow> blk) \<Longrightarrow> RW_T4tPresenceCheck E opt s = Some (st, s') \<Longrightarrow> reader_call E blk s s'"
| readonly: "RW_T4tSetNDefReadOnly E s = Some (st, s') \<Longrightarrow> reader_call E blk s s'"
| raw: "RW_SendRawFrame bs s = Some (st, s') \<Longrightarrow> reader_call E blk s s'"

text \<open>
  A step has, beside the reader, whether an event that it does not handle has come since it waits for the present response.
\<close>

inductive rw_step :: "rw_env \<Rightarrow> bool \<Rightarrow> rw_cb \<times> bool \<Rightarrow> rw_cb \<times> bool \<Rightarrow> bool" for E blk where
  event: "heard ev \<Longrightarrow> rw_t4t_data_cback E u ev s = Some s' \<Longrightarrow> rw_step E blk (s, deaf) (s', False)"
| ignored: "\<not> heard ev \<Longrightarrow> rw_t4t_data_cback E u ev s = Some s' \<Longrightarrow> rw_step E blk (s, deaf) (s', waiting s')"
| timeout: "tag_timer s \<Longrightarrow> rw_t4t_process_timeout E (s\<lparr>tag_timer := False\<rparr>) = Some s' \<Longrightarrow> rw_step E blk (s, deaf) (s', False)"
| call: "reader_call E blk s s' \<Longrightarrow> rw_step E blk (s, deaf) (s', deaf \<and> waiting s')"

inductive_cases reader_callE: "reader_call E blk s s'"

section \<open>Sending\<close>

text \<open>A command that goes out starts the timer, and one that does not leaves state and timer alone.\<close>

definition sends :: "rw_cb \<Rightarrow> bool \<times> rw_cb \<Rightarrow> bool" where
  "sends s r \<longleftrightarrow> rw_state (snd r) = rw_state s \<and> (if fst r then tag_timer (snd r) else tag_timer (snd r) = tag_timer s)"

named_theorems sending

lemma send_to_lower_sends [sending]: "rw_state s' = rw_state s \<Longrightarrow> tag_timer s' = tag_timer s \<Longrightarrow> sends s (rw_t4t_send_to_lower b s')"
  by (simp add: sends_def rw_t4t_send_to_lower_def tag_send_data_def)

lemma rw_send_sends [sending]: "rw_state s' = rw_state s \<Longrightarrow> tag_timer s' = tag_timer s \<Longrightarrow> sends s (rw_send bs s')"
  by (simp add: rw_send_def tag_getpoolbuf_def send_to_lower_sends) (simp add: sends_def)

lemma commands_send [sending]:
  "sends s (rw_t4t_select_file f s)" "sends s (rw_t4t_read_file off len cont s)" "sends s (rw_t4t_update_nlen n s)"
  "sends s (rw_t4t_update_cc_to_readonly s)" "sends s (rw_t4t_select_application v s)"
  "sends s (rw_t4t_get_hw_version s)" "sends s (rw_t4t_get_sw_version s)" "sends s (rw_t4t_get_uid_details s)"
  "sends s (rw_t4t_create_app s)" "sends s (rw_t4t_select_app s)" "sends s (rw_t4t_create_ccfile s)" "sends s (rw_t4t_create_ndef s)"
  "sends s (rw_t4t_write_cc s)" "sends s (rw_t4t_write_ndef s)" "sends s (rw_t3bt_get_pupi s)"
  by (simp_all add: rw_t4t_select_file_def rw_t4t_read_file_def rw_t4t_update_nlen_def rw_t4t_update_cc_to_readonly_def
      rw_t4t_select_application_def rw_t4t_get_hw_version_def rw_t4t_get_sw_version_def rw_t4t_get_uid_details_def
      rw_t4t_create_app_def rw_t4t_select_app_def rw_t4t_create_ccfile_def rw_t4t_create_ndef_def rw_t4t_write_cc_def
      rw_t4t_write_ndef_def rw_t3bt_get_pupi_def tag_getpoolbuf_def sending Let_def)
    (simp_all add: sends_def)

lemma update_file_sends [sending]: "rw_t4t_update_file s = Some r \<Longrightarrow> sends s r"
  by (auto simp: rw_t4t_update_file_def tag_getpoolbuf_def rw_t4t_send_to_lower_def tag_send_data_def sends_def Let_def
      split: if_splits Option.bind_splits)

lemma sent_watched: "sends s (True, s') \<Longrightarrow> watched blk s'"
  by (simp add: sends_def watched_def)

lemma sent_eq: "sends s r \<Longrightarrow> r = (True, s') \<Longrightarrow> watched blk s'"
  using sent_watched by simp

lemmas command_sent = commands_send [THEN sent_eq]

lemma watched_upd [simp]:
  "watched blk (s\<lparr>p_update_data := d\<rparr>) = watched blk s" "watched blk (s\<lparr>sub_state := b\<rparr>) = watched blk s"
  "watched blk (s\<lparr>rw_log := l\<rparr>) = watched blk s"
  by (simp_all add: watched_def waiting_def)

lemma idle_watched: "rw_state s = RW_T4T_STATE_IDLE \<Longrightarrow> watched blk s"
  by (simp add: watched_def waiting_def)

section \<open>The steps\<close>

context reader_client
begin

lemma handle_error: "rw_t4t_handle_error E st a b s = Some s' \<Longrightarrow> watched blk s'"
  by (auto simp: rw_t4t_handle_error_def Let_def idle_watched split: if_splits option.splits dest: callback)

lemma failed: "rw_failed E s = Some s' \<Longrightarrow> watched blk s'"
  by (simp add: rw_failed_def handle_error)

lemma next_sub: "rw_next E sub r = Some s' \<Longrightarrow> sends s r \<Longrightarrow> watched blk s'"
  by (cases r) (auto simp: rw_next_def sends_def watched_def waiting_def split: if_splits dest: failed)

lemma notify_keeps: "rw_notify E ev d s = Some s' \<Longrightarrow> watched blk s \<Longrightarrow> watched blk s'"
  by (auto simp: rw_notify_def split: if_splits dest: callback)

lemma call_keeps: "rw_call E ev d s = Some s' \<Longrightarrow> watched blk s \<Longrightarrow> watched blk s'"
  by (auto simp: rw_call_def split: if_splits dest: callback)

lemma notify_idle: "rw_notify E ev d (s\<lparr>rw_state := RW_T4T_STATE_IDLE\<rparr>) = Some s' \<Longrightarrow> watched blk s'"
  by (auto simp: rw_notify_def idle_watched split: if_splits dest: callback)

lemma call_idle: "rw_call E ev d (s\<lparr>rw_state := RW_T4T_STATE_IDLE\<rparr>) = Some s' \<Longrightarrow> watched blk s'"
  by (auto simp: rw_call_def idle_watched split: if_splits dest: callback)

lemmas next_subs = commands_send [THEN next_sub [rotated]]
lemmas results = handle_error failed notify_idle call_idle command_sent next_subs

lemma des: "des_step E creates send sub bs s = Some s' \<Longrightarrow> sends s (send s) \<Longrightarrow> watched blk s'"
  by (auto simp: des_step_def split: if_splits Option.bind_splits prod.splits dest: handle_error next_sub)

lemma not_found: "not_detected E st a b s = Some s' \<Longrightarrow> watched blk s'"
  by (simp add: not_detected_def handle_error)

lemma nlen: "nlen_read E n s = Some s' \<Longrightarrow> watched blk s'"
  by (auto simp: nlen_read_def Let_def split: if_splits dest: not_found notify_idle)

lemma sm_detect: "rw_t4t_sm_detect_ndef E r s = Some s' \<Longrightarrow> watched blk s'"
  by (auto simp: rw_t4t_sm_detect_ndef_def Let_def split: if_splits Option.bind_splits rw_sub_state.splits prod.splits
      dest: not_found nlen results)

lemma sm_read: "rw_t4t_sm_read_ndef E r s = Some s' \<Longrightarrow> watched blk s'"
  by (auto simp: rw_t4t_sm_read_ndef_def Let_def idle_watched split: if_splits Option.bind_splits prod.splits
      dest: results) (auto dest!: callback simp: idle_watched)

lemma part_sent: "update_part E s = Some s' \<Longrightarrow> watched blk s'"
proof (cases "rw_t4t_update_file s")
  case (Some r)
  assume u: "update_part E s = Some s'"
  show ?thesis
  proof (cases r)
    case (Pair sent t)
    then show ?thesis using u Some update_file_sends [OF Some]
      by (cases sent) (auto simp: update_part_def split: Option.bind_splits dest: failed sent_watched)
  qed
qed (simp add: update_part_def)

lemma sm_update: "rw_t4t_sm_update_ndef E r s = Some s' \<Longrightarrow> watched blk s'"
  by (auto simp: rw_t4t_sm_update_ndef_def split: if_splits Option.bind_splits rw_sub_state.splits
      dest: part_sent results)

lemma sm_readonly: "rw_t4t_sm_set_readonly E r s = Some s' \<Longrightarrow> watched blk s'"
  by (auto simp: rw_t4t_sm_set_readonly_def Let_def split: if_splits Option.bind_splits rw_sub_state.splits
      dest: results)

lemma version_kept: "rw_t4t_update_version_details bs s = Some (k, s') \<Longrightarrow> rw_state s' = rw_state s \<and> tag_timer s' = tag_timer s"
  by (auto simp: rw_t4t_update_version_details_def Let_def split: Option.bind_splits if_splits)

text \<open>The software version goes on after an error, so a request for the identifier may be sent from the idle state.\<close>

lemma uid_asked:
  assumes "(if known then Some s1 else rw_failed E s1) = Some s2"
    and "rw_t4t_get_uid_details s2 = (sent, s3)" and "(if sent then Some s3 else rw_failed E s3) = Some s4"
  shows "watched blk s4"
  using assms commands_send(8) [of s2] by (cases sent) (auto dest: sent_watched failed)

lemma sm_format: "rw_t4t_sm_ndef_format E r s = Some s' \<Longrightarrow> watched blk s'"
  by (auto simp: rw_t4t_sm_ndef_format_def Let_def split: Option.bind_splits prod.splits if_splits rw_sub_state.splits
      dest: results des [OF _ commands_send(9)] des [OF _ commands_send(10)] des [OF _ commands_send(11)]
        des [OF _ commands_send(12)] des [OF _ commands_send(13)] des [OF _ commands_send(14)] dest!: uid_asked)

lemma sm_card_id: "rw_t3Bt_sm_get_card_id E r s = Some s' \<Longrightarrow> watched blk s'"
  by (auto simp: rw_t3Bt_sm_get_card_id_def nfa_rw_update_pupi_id_def Let_def
      split: if_splits Option.bind_splits rw_sub_state.splits
      dest: results notify_keeps [OF _ idle_watched])

section \<open>Events and calls\<close>

lemma interface_error: "rw_interface_error E u st s = Some s' \<Longrightarrow> watched blk s'"
  by (auto simp: rw_interface_error_def Let_def split: rw_state.splits dest: results)

lemma response: "rw_t4t_response E st r s = Some s' \<Longrightarrow> watched blk s'"
  by (auto simp: rw_t4t_response_def split: rw_state.splits
      dest: sm_detect sm_read sm_update sm_readonly sm_format sm_card_id results notify_keeps [OF _ idle_watched]
      simp: watched_def waiting_def)

lemma event_watched: "heard ev \<Longrightarrow> rw_t4t_data_cback E u ev s = Some s' \<Longrightarrow> watched blk s'"
proof (cases ev)
  case NFC_RF_WTX_CEVT
  assume "rw_t4t_data_cback E u ev s = Some s'"
  then show ?thesis unfolding NFC_RF_WTX_CEVT rw_t4t_data_cback_def
    by (auto simp: Let_def watched_def [of blk "s\<lparr>tag_timer := True\<rparr>"] split: if_splits dest: notify_keeps [OF _ idle_watched])
qed (auto simp: rw_t4t_data_cback_def Let_def idle_watched watched_def [of blk "_\<lparr>rf_cback := _, rw_state := _\<rparr>"] waiting_def
  dest: response interface_error)

lemma timeout_watched: "rw_t4t_process_timeout E s = Some s' \<Longrightarrow> watched blk s'"
  by (simp add: rw_t4t_process_timeout_def handle_error)

lemma presence_watched: "(opt = 4 \<longrightarrow> blk) \<Longrightarrow> RW_T4tPresenceCheck E opt s = Some (st, s') \<Longrightarrow> watched blk s \<Longrightarrow> watched blk s'"
  using commands_send(2) [of "s\<lparr>channel := (if opt \<le> 3 then opt else 0)\<rparr>" 0 1 False]
  by (auto simp: RW_T4tPresenceCheck_def Let_def sends_def tag_getpoolbuf_def tag_send_data_def watched_def waiting_def
      split: if_splits prod.splits Option.bind_splits dest: call_keeps [unfolded watched_def waiting_def])

end

lemma start_watched:
  assumes "sends s r" "watched blk s" "start_proc state sub r = (st, s')"
  shows "watched blk s'"
  using assms by (cases r) (auto simp: start_proc_def sends_def watched_def waiting_def split: if_splits)

lemma sends_from: "sends s r \<Longrightarrow> rw_state s = rw_state s0 \<Longrightarrow> tag_timer s = tag_timer s0 \<Longrightarrow> sends s0 r"
  by (simp add: sends_def)

lemma call_watched:
  assumes "watched blk s"
  shows "RW_T4tDetectNDef s = (st, s') \<Longrightarrow> watched blk s'"
    and "RW_T4tReadNDef s = (st, s') \<Longrightarrow> watched blk s'"
    and "RW_T4tUpdateNDef len data s = (st, s') \<Longrightarrow> watched blk s'"
    and "RW_T4tFormatNDef s = (st, s') \<Longrightarrow> watched blk s'"
    and "RW_T3BtGetPupiID s = (st, s') \<Longrightarrow> watched blk s'"
    and "RW_SendRawFrame bs s = Some (st, s') \<Longrightarrow> watched blk s'"
    and "RW_SetActivatedTagType_iso_dep mode cback s = (st, s') \<Longrightarrow> watched blk s'"
proof -
  note st = start_watched [OF _ assms]
  show "RW_T4tDetectNDef s = (st, s') \<Longrightarrow> watched blk s'" "RW_T4tReadNDef s = (st, s') \<Longrightarrow> watched blk s'"
    using assms by (auto simp: RW_T4tDetectNDef_def RW_T4tReadNDef_def split: if_splits dest: st [OF commands_send(1)]
        st [OF commands_send(2)] st [OF commands_send(5)])
  show "RW_T4tUpdateNDef len data s = (st, s') \<Longrightarrow> watched blk s'"
    using assms by (auto simp: RW_T4tUpdateNDef_def split: if_splits dest: st [OF commands_send(3) [THEN sends_from], rotated -1])
  show "RW_T4tFormatNDef s = (st, s') \<Longrightarrow> watched blk s'"
    using assms commands_send(6) [of "s\<lparr>card_type := 0\<rparr>"]
    by (auto simp: RW_T4tFormatNDef_def Let_def sends_def watched_def waiting_def split: if_splits prod.splits)
  show "RW_T3BtGetPupiID s = (st, s') \<Longrightarrow> watched blk s'"
    using assms rw_send_sends [of s s "[0x1D, 0, 0, 0, 0, 0x00, 0x08, 0x01, 0x00]"]
    by (auto simp: RW_T3BtGetPupiID_def Let_def sends_def watched_def waiting_def split: if_splits prod.splits)
  show "RW_SendRawFrame bs s = Some (st, s') \<Longrightarrow> watched blk s'"
    using assms by (auto simp: RW_SendRawFrame_def Let_def tag_getpoolbuf_def tag_send_data_def watched_def waiting_def
        split: if_splits Option.bind_splits)
  show "RW_SetActivatedTagType_iso_dep mode cback s = (st, s') \<Longrightarrow> watched blk s'"
    using assms by (auto simp: RW_SetActivatedTagType_iso_dep_def Let_def rw_t4t_select_def upd_cc_def tcb_zero_def watched_def
        waiting_def split: if_splits)
qed

context reader_client
begin

lemma readonly_watched: "RW_T4tSetNDefReadOnly E s = Some (st, s') \<Longrightarrow> watched blk s \<Longrightarrow> watched blk s'"
  by (auto simp: RW_T4tSetNDefReadOnly_def split: if_splits Option.bind_splits
      dest: call_keeps start_watched [OF commands_send(1)])

lemma reader_call_watched: "reader_call E blk s s' \<Longrightarrow> watched blk s \<Longrightarrow> watched blk s'"
  by (erule reader_callE)
    (auto dest: call_watched readonly_watched elim: presence_watched [rotated])

text \<open>Not watched only after an event that is not handled.\<close>

definition minded :: "rw_cb \<times> bool \<Rightarrow> bool" where
  "minded x \<longleftrightarrow> watched blk (fst x) \<or> snd x"

lemma step_minded: "rw_step E blk x y \<Longrightarrow> minded x \<Longrightarrow> minded y"
proof (induction rule: rw_step.induct)
  case (call s s' deaf)
  then show ?case using reader_call_watched [OF call(1)] by (auto simp: minded_def watched_def)
next
  case (ignored ev u s s' deaf)
  then show ?case by (auto simp: minded_def watched_def)
qed (auto simp: minded_def dest: event_watched timeout_watched)

lemma steps_minded: "(rw_step E blk)\<^sup>*\<^sup>* x y \<Longrightarrow> minded x \<Longrightarrow> minded y"
  by (induction rule: rtranclp_induct) (auto dest: step_minded)

end

text \<open>The application that only takes note.\<close>

interpretation quiet: reader_client quiet_rw blk for blk
  by unfold_locales (auto simp: quiet_rw_def)

section \<open>The property\<close>

lemma waiting_reported: "waiting s \<Longrightarrow> \<exists>ev d. error_event (rw_state s) st sw1 sw2 = Some (ev, d)"
  by (cases "rw_state s") (simp_all add: waiting_def error_event_def)

text \<open>
  The two cases without a timer: the other events of a connection stop it whatever the state, and the empty I-block does not
  start it. Then only another event ends the wait.
\<close>

lemma unheard_event_stops_timer: "\<not> heard ev \<Longrightarrow> rw_t4t_data_cback E u ev s = Some (s\<lparr>tag_timer := False\<rparr>)"
  by (cases ev) (simp_all add: rw_t4t_data_cback_def)

lemma empty_block_without_timer:
  assumes "rw_cback s" "rw_state s = RW_T4T_STATE_IDLE" "\<not> tag_timer s" "shd (pool_ok s)" "shd (send_ok s)"
  shows "\<exists>s'. RW_T4tPresenceCheck E 4 s = Some (NFC_STATUS_OK, s') \<and> waiting s' \<and> \<not> tag_timer s'"
  using assms by (simp add: RW_T4tPresenceCheck_def tag_getpoolbuf_def tag_send_data_def waiting_def)

text \<open>
  C40. When the reader waits, its timer runs, with two exceptions. After any sequence of events of the core, timeouts and calls of the
  application, whose callback keeps this (it may call into the reader), in every state in which the reader
  waits for a response, presence checks included: the timer runs, or since the wait began an event came that the reader does not
  handle, or the wait is that of a presence check and the application uses the empty I-block for them. When the timer expires, the reader
  becomes idle and reports the error of the procedure to the application.
\<close>
theorem reader_timer_runs:
  assumes "reader_client E blk" "watched blk s0" "(rw_step E blk)\<^sup>*\<^sup>* (s0, False) (s, deaf)" "waiting s" "rw_cback s"
  shows "(tag_timer s \<or> deaf \<or> blk \<and> rw_state s = RW_T4T_STATE_PRESENCE_CHECK)
    \<and> (\<exists>ev d. error_event (rw_state s) NFC_STATUS_TIMEOUT 0 0 = Some (ev, d)
        \<and> rw_t4t_process_timeout E (s\<lparr>tag_timer := False\<rparr>) = E ev d (s\<lparr>tag_timer := False, rw_state := RW_T4T_STATE_IDLE\<rparr>))"
proof -
  have "watched blk s \<or> deaf"
    using reader_client.steps_minded [OF assms(1,3)] assms(2) by (simp add: reader_client.minded_def [OF assms(1)])
  moreover obtain ev d where "error_event (rw_state s) NFC_STATUS_TIMEOUT 0 0 = Some (ev, d)"
    using waiting_reported [OF assms(4)] by blast
  ultimately show ?thesis using assms(4,5)
    by (auto simp: watched_def rw_t4t_process_timeout_def rw_t4t_handle_error_def)
qed

definition idle_reader :: rw_cb where
  "idle_reader = \<lparr>pool_ok = sconst True, send_ok = sconst True, frames = [], tag_timer = False, rf_cback = True,
     rw_cback = True, rw_state = RW_T4T_STATE_IDLE, sub_state = RW_T4T_SUBSTATE_WAIT_SELECT_APP, version = 0x20,
     ndef_length = 0, p_update_data = None, rw_length = 0, rw_offset = 0,
     cc = \<lparr>cclen = 0, cc_version = 0, max_le = 15, max_lc = 0,
            ndef_fc = \<lparr>file_id = 0, fc_max_file_size = 0, read_access = 0, write_access = 0\<rparr>\<rparr>,
     ndef_status = 0, channel = 0, max_read_size = 255, max_update_size = 255, card_size = 0, card_type = 0,
     pupiid_len = 0, pupiid = replicate 8 0, rw_log = []\<rparr>"

lemma reader_timer_runs_witness:
  "\<exists>s. (rw_step quiet_rw False)\<^sup>*\<^sup>* (idle_reader, False) (s, False) \<and> rw_state s = RW_T4T_STATE_DETECT_NDEF \<and> tag_timer s
    \<and> (\<exists>s'. rw_t4t_process_timeout quiet_rw (s\<lparr>tag_timer := False\<rparr>) = Some s' \<and> rw_state s' = RW_T4T_STATE_IDLE
         \<and> rw_log s' = [(RW_T4T_NDEF_DETECT_EVT, Rw_ndef_fail NFC_STATUS_TIMEOUT 0 0 RW_NDEF_FL_UNKNOWN)])"
proof -
  obtain st s where d: "RW_T4tDetectNDef idle_reader = (st, s)" by fastforce
  then have s: "rw_state s = RW_T4T_STATE_DETECT_NDEF" "rw_cback s" "rw_log s = []"
    by (auto simp: RW_T4tDetectNDef_def idle_reader_def ndef_has_def rw_t4t_select_application_def tag_getpoolbuf_def
        rw_t4t_send_to_lower_def tag_send_data_def start_proc_def)
  have "rw_step quiet_rw False (idle_reader, False) (s, False \<and> waiting s)"
    by (rule rw_step.call [OF reader_call.detect [OF d]])
  then have steps: "(rw_step quiet_rw False)\<^sup>*\<^sup>* (idle_reader, False) (s, False)" by simp
  have "watched False idle_reader" by (simp add: idle_watched idle_reader_def)
  from reader_timer_runs [OF quiet.reader_client_axioms this steps] s have
    "tag_timer s" "rw_t4t_process_timeout quiet_rw (s\<lparr>tag_timer := False\<rparr>) = quiet_rw RW_T4T_NDEF_DETECT_EVT
      (Rw_ndef_fail NFC_STATUS_TIMEOUT 0 0 RW_NDEF_FL_UNKNOWN) (s\<lparr>tag_timer := False, rw_state := RW_T4T_STATE_IDLE\<rparr>)"
    by (auto simp: waiting_def error_event_def)
  with s steps show ?thesis by (intro exI [of _ s]) (simp add: quiet_rw_def)
qed

end
