(* ===== verification/Spec2Isabelle.thy ===== *)
theory Spec2Isabelle
  imports Ndef_Properties Gki_Properties Timer_Properties Cho_Properties Llcp_Properties Llcp_Delivery Nci_Control T4t_Properties Rw_T4t_Steps
begin

text \<open>
  A verification development for the NFC stack \<open>linux_libnfc-nci\<close>. All sources named here are below
  \<open>src/src/libnfc-nci\<close>. The stack runs on a host (the DH) that talks to an NFC controller (NFCC): an
  operating system layer with buffers and timers (GKI), the core that exchanges NCI messages with the
  NFCC through a hardware layer (HAL), LLCP, the peer-to-peer link protocol above a core connection, the NDEF
  message format, the tags, which are read and emulated over a core connection, and application modules (NFA) above all of it. Every theory opens with what it holds.

  \<^bold>\<open>Conventions.\<close> Bytes and C integers are words of their width (\<open>byte\<close>, \<open>u16\<close>, \<open>u32\<close>). A C object is the list of its
  bytes. The outer \<open>None\<close> of an answer is an access that C leaves undefined (outside an object, behind the received
  bytes, through a null pointer), or a loop that does not end; so \<open>Some\<close> in a theorem is a theorem of memory
  safety too. Status codes are the values of the code. Allocation is nondeterministic: above GKI, its answers
  are a stream in the state (\<open>buffers\<close>) or an argument, and the theorems hold for all of them unless they say otherwise. Traces
  are left out everywhere.

  \<^bold>\<open>Parts and theories.\<close>

  \<^item> \<open>Nfc_Prelude\<close>: words, byte objects, reads and writes. \<open>Nfc_Msg\<close>: message buffers (\<open>BT_HDR\<close>).

  \<^item> NDEF messages, \<open>nfc/ndef/ndef_utils.c\<close>. \<open>Ndef_Model\<close> has the navigation and validation, \<open>Ndef_Edit\<close> the
    editing in place. The validation trusts no length of the message, so its pointers are 32-bit addresses that may wrap
    (\<open>NDEF_MsgValidate\<close> takes the address of the message); the other operations are for messages that fit between their
    address and the end of the memory and use offsets. \<open>Ndef_Spec\<close> is the abstract view, a list of records with its encoding; \<open>Ndef_Nav\<close>, \<open>Ndef_Build\<close>,
    \<open>Ndef_Change\<close>, \<open>Ndef_Payload\<close>, \<open>Ndef_Ident\<close> and \<open>Ndef_Dechunk\<close> show that each operation implements the operation
    on lists, and \<open>Ndef_Dechunk\<close> has the locale \<open>record_store\<close>. Properties in \<open>Ndef_Properties\<close>.

  \<^item> Buffers, \<open>gki/common/gki_buffer.c\<close>. \<open>Gki_Model\<close>: a heap of buffer headers, pools, queues
    and mailboxes. \<open>Gki_Spec\<close> is the abstract view (locale \<open>buffer_fifo\<close>), \<open>Gki_Fifo\<close>, \<open>Gki_Alloc\<close> and \<open>Gki_Moves\<close>
    the refinement, \<open>Gki_Steps\<close>, \<open>Gki_Getbuf\<close> and \<open>Gki_Reach\<close> the step relation and its invariant. Properties
    in \<open>Gki_Properties\<close>.

  \<^item> Timers, \<open>gki/common/gki_time.c\<close>. \<open>Timer_Model\<close>; \<open>Timer_Update\<close> for the timers of tasks, \<open>Timer_List\<close> and
    \<open>Timer_Edit\<close> for the delta lists of applications. Properties in \<open>Timer_Properties\<close>.

  \<^item> Connection handover records, \<open>nfc/ndef/ndef_cho_utils.c\<close>: \<open>Cho_Model\<close>, \<open>Cho_Build\<close>, \<open>Cho_Properties\<close>.

  \<^item> LLCP, \<open>nfc/llcp\<close>. \<open>Llcp_Model\<close> has the control blocks, \<open>Llcp_Util\<close> the parameters and PDUs
    (\<open>llcp_util.c\<close>), \<open>Llcp_Dlc\<close> the data link connections (\<open>llcp_dlc.c\<close>), \<open>Llcp_Sdp\<close> service
    discovery, \<open>Llcp_Api\<close> the calls of applications, \<open>Llcp_Link\<close>, \<open>Llcp_Activate\<close> and \<open>Llcp_Link_Params\<close> the link
    (\<open>llcp_link.c\<close>). \<open>Llcp_Coding\<close> and \<open>Llcp_Recv\<close> show that parameters survive coding; \<open>Llcp_View\<close>,
    \<open>Llcp_Effects\<close>, \<open>Llcp_Receive\<close>, \<open>Llcp_Station\<close> and \<open>Llcp_Peers\<close> compose two stations that exchange PDUs,
    \<open>Llcp_Frames\<close> puts the PDUs into frames, single or aggregated (AGF), on a reliable channel, and \<open>Llcp_Setup\<close> connects
    the stations. A receiver without a buffer loses the parts of an AGF PDU (\<open>aggregated_pdu_lost\<close>), so the claim of delivery
    is for one with buffers. Properties in \<open>Llcp_Properties\<close> and \<open>Llcp_Delivery\<close>.

  \<^item> The NFC core, \<open>nfc/nfc\<close> and \<open>nfc/nci\<close>. \<open>Nci_Params\<close> decodes what the NFCC reports, \<open>Nci_Model\<close> has \<open>nfc_cb\<close> and the
    connections (\<open>nfc_utils.c\<close>), \<open>Nci_Cmd\<close> the commands and their window (\<open>nci_hmsgs.c\<close>, \<open>nfc_vs.c\<close>, the queue of
    \<open>nfc_ncif.c\<close>), \<open>Nci_Data\<close> the data packets, \<open>Nci_Start\<close> start and shutdown and the remaining calls
    (\<open>nfc_main.c\<close>, \<open>nfc_ee.c\<close>, \<open>nfc_test.c\<close>), \<open>Nci_Recv\<close> every response and notification and the recovery
    (\<open>nfc_ncif.c\<close>, \<open>nci_hrcv.c\<close>), \<open>Nci_Main\<close> the HAL callbacks and the task (\<open>nfc_task.c\<close>). \<open>Nci_Send\<close>: the
    transmission loop, fragments and credits, with the boundary flag as the code keeps it: set once for each call, so that
    \<open>flags\<close> says what a call puts on its packets and the round trip is for senders that are \<open>polite\<close>;
    \<open>Nci_Receive\<close>: reassembly; \<open>Nci_Window\<close> and \<open>Nci_Commands\<close>: the
    command window over every handler and every message, also responses to nothing (\<open>unasked\<close>), after which two commands may be
    without a response (\<open>repeated_response\<close>), with the locale \<open>cmd_client\<close> for what callbacks may do; \<open>Nci_Startup\<close>:
    the run of a start; \<open>Nci_Activation\<close>: the decoders. Properties in \<open>Nci_Properties\<close> and \<open>Nci_Control\<close>.

  \<^item> The type 4 tag, \<open>nfc/tags/ce_t4t.c\<close> and \<open>nfc/tags/rw_t4t.c\<close>, with the parts of \<open>ce_main.c\<close> and \<open>rw_main.c\<close> that
    select it. \<open>T4t_Link\<close> has the commands and the way to the core, \<open>Ce_T4t\<close> the emulated card, \<open>Rw_T4t\<close>,
    \<open>Rw_T4t_Format\<close> and \<open>Rw_T4t_Main\<close> the reader. \<open>T4t_Spec\<close> is the abstract tag, two files and a selection, with the
    locale \<open>ndef_tag\<close> for whatever answers like one; \<open>T4t_Session\<close> and \<open>T4t_Update\<close> run the reader against any
    such tag, \<open>Ce_T4t_Refine\<close> shows that the emulated card is one. \<open>Rw_T4t_Steps\<close> is the reader as a step
    relation over every event and call, with the locale \<open>reader_client\<close> for what callbacks may do, and shows when its timer runs
    and the two cases in which it does not. Properties in \<open>T4t_Properties\<close> and \<open>Rw_T4t_Steps\<close>.

  \<^bold>\<open>How the parts meet.\<close> Queues of \<open>Llcp_*\<close> and \<open>Nci_*\<close> are lists of buffers, which is what \<open>Gki_Properties\<close> shows of the
  linked queues. Timers there are booleans or requests; when they expire is the matter of \<open>Timer_*\<close>. The handover records are built
  by the operations of \<open>Ndef_Edit\<close>. The general bytes that \<open>Nci_Control\<close> shows to reach the client are those on
  which \<open>Llcp_Properties\<close> shows two stations to agree on a link. The tags get the connection events of \<open>Nci_Model\<close>, and an APDU
  that \<open>NFC_SendData\<close> accepts reaches the other side as one buffer, which \<open>Nci_Properties\<close> shows of two cores.

  \<^bold>\<open>Parameters, bounds and fuel.\<close> The callbacks of applications and the functions of other modules are environments
  (\<open>nfc_env\<close> of the core and the ones of LLCP); the theorems name what they need of them, and the \<open>quiet_*\<close> ones, which
  only log, are the instances for witnesses. Loops with a bound in the code are \<open>primrec\<close> or \<open>fun\<close>; the ones without are
  \<open>partial_function (option)\<close>, and that they end is proved (\<open>Nci_Send\<close> characterises the one case in which
  sending does not; \<open>agf_loop_total\<close> is for two connected stations). The only fuel is that of \<open>check_cmd_queue_rounds\<close>, 2, and \<open>check_rounds_enough\<close> shows that more
  changes nothing. The sizes of buffers, tables and fields are those of the default build for the PN54x chips
  (\<open>NFC_NXP_NOT_OPEN_INCLUDED\<close> and \<open>NFC_NFCEE_INCLUDED\<close> on, \<open>NFC_RW_ONLY\<close> and the secured P2P of LLCP off).

  The definitions of the core have the fragmentation on I2C, which the properties of the data and of the commands exclude.

  \<^bold>\<open>Not modelled.\<close> Threads and mutexes of \<open>gki/ulinux\<close> (each operation is one step), the release of buffers above GKI,
  traces and names for them. Of the other modules: the readers of the other tags and the emulated type 3 tag (\<open>nfc/tags\<close>), the
  application modules \<open>nfa\<close>, the cipher of secured P2P, the HAL (\<open>halimpl\<close>) and the C++ and service layers; \<open>PROJECT.json\<close> lists each with the reason.
\<close>

end
